(* ===== verification/Prelude.thy ===== *)
theory Prelude
  imports Main "HOL-Library.AList"
begin

text \<open>
  Shared vocabulary of the development: the fragment of the JavaScript standard library that the
  modelled code uses (\<open>trim\<close>, \<open>toLowerCase\<close>, \<open>split\<close>, \<open>join\<close>, \<open>startsWith\<close>, \<open>indexOf\<close>,
  \<open>padStart\<close>, \<open>padEnd\<close>, decimal printing and parsing of \<open>BigInt\<close>, insertion-ordered \<open>Map\<close>),
  the result type of code that may throw, and the generic lemmas the component theories rest on.

  A JavaScript string is a list of HOL characters, each read as one UTF-16 code unit in the range
  0..255; the code under verification compares, trims, splits and joins strings and never looks at
  a code unit above that range.  A JavaScript \<open>Map\<close> is an association list in insertion order:
  \<open>set\<close> is \<^term>\<open>AList.update\<close> (in place for a present key, appended otherwise) and \<open>delete\<close> is
  \<^term>\<open>AList.delete\<close>.
\<close>

named_theorems js_string_simps
named_theorems step_intros
named_theorems frame_simps

type_synonym ('e, 'a) result = "'e + 'a"

section \<open>Code that may throw\<close>

definition res_bind :: "('e, 'a) result \<Rightarrow> ('a \<Rightarrow> ('e, 'b) result) \<Rightarrow> ('e, 'b) result" where
  "res_bind r f = (case r of Inl e \<Rightarrow> Inl e | Inr a \<Rightarrow> f a)"

definition guard_res :: "bool \<Rightarrow> 'e \<Rightarrow> ('e, unit) result" where
  "guard_res b e = (if b then Inl e else Inr ())"

lemma res_bind_simps [simp]:
  "res_bind (Inl e) f = Inl e"
  "res_bind (Inr a) f = f a"
  by (simp_all add: res_bind_def)

lemma res_bind_eq_Inr [simp]:
  "res_bind r f = Inr b \<longleftrightarrow> (\<exists>a. r = Inr a \<and> f a = Inr b)"
  by (cases r) auto

lemma res_bind_eq_Inl:
  "res_bind r f = Inl e \<longleftrightarrow> r = Inl e \<or> (\<exists>a. r = Inr a \<and> f a = Inl e)"
  by (cases r) auto

lemma guard_res_simps [simp]:
  "guard_res True e = Inl e"
  "guard_res False e = Inr ()"
  "guard_res b e = Inr u \<longleftrightarrow> \<not> b"
  "guard_res b e = Inl e' \<longleftrightarrow> b \<and> e' = e"
  by (auto simp: guard_res_def)

section \<open>Characters and strings\<close>

definition code_unit :: "char \<Rightarrow> nat" where
  "code_unit c = of_char c"

text \<open>The white space and line terminators that \<open>String.prototype.trim\<close> strips, up to 255.\<close>

definition is_space :: "char \<Rightarrow> bool" where
  "is_space c = (let n = code_unit c in (9 \<le> n \<and> n \<le> 13) \<or> n = 32 \<or> n = 160)"

definition is_digit :: "char \<Rightarrow> bool" where
  "is_digit c = (let n = code_unit c in 48 \<le> n \<and> n \<le> 57)"

definition digit_val :: "char \<Rightarrow> nat" where
  "digit_val c = code_unit c - 48"

definition digit_char :: "nat \<Rightarrow> char" where
  "digit_char d = char_of (48 + d)"

definition trim :: "string \<Rightarrow> string" where
  "trim s = rev (dropWhile is_space (rev (dropWhile is_space s)))"

definition lower_char :: "char \<Rightarrow> char" where
  "lower_char c = (let n = code_unit c in
     if (65 \<le> n \<and> n \<le> 90) \<or> (192 \<le> n \<and> n \<le> 222 \<and> n \<noteq> 215) then char_of (n + 32) else c)"

definition toLowerCase :: "string \<Rightarrow> string" where
  "toLowerCase = map lower_char"

definition startsWith :: "string \<Rightarrow> string \<Rightarrow> bool" where
  "startsWith s p = (take (length p) s = p)"

definition indexOf :: "string \<Rightarrow> char \<Rightarrow> nat option" where
  "indexOf s c = (if c \<in> set s then Some (length (takeWhile (\<lambda>x. x \<noteq> c) s)) else None)"

fun split_on :: "char \<Rightarrow> string \<Rightarrow> string list" where
  "split_on d [] = [[]]"
| "split_on d (c # s) =
     (if c = d then [] # split_on d s
      else (case split_on d s of [] \<Rightarrow> [[c]] | t # ts \<Rightarrow> (c # t) # ts))"

fun join_with :: "string \<Rightarrow> string list \<Rightarrow> string" where
  "join_with d [] = []"
| "join_with d [t] = t"
| "join_with d (t # ts) = t @ d @ join_with d ts"

definition padStart :: "string \<Rightarrow> nat \<Rightarrow> char \<Rightarrow> string" where
  "padStart s n c = replicate (n - length s) c @ s"

definition padEnd :: "string \<Rightarrow> nat \<Rightarrow> char \<Rightarrow> string" where
  "padEnd s n c = s @ replicate (n - length s) c"

text \<open>\<open>value?.trim()\<close> followed by the test that the trimmed text is not empty.\<close>

definition is_blank :: "string option \<Rightarrow> bool" where
  "is_blank v = (case v of None \<Rightarrow> True | Some s \<Rightarrow> trim s = [])"

definition nullish :: "'a option \<Rightarrow> 'a \<Rightarrow> 'a" where
  "nullish v d = (case v of None \<Rightarrow> d | Some x \<Rightarrow> x)"

lemma nullish_simps [simp]: "nullish None d = d" "nullish (Some x) d = x"
  by (simp_all add: nullish_def)

subsection \<open>Lemmas on strings\<close>

lemma is_digit_not_space: "is_digit c \<Longrightarrow> \<not> is_space c"
  by (auto simp: is_digit_def is_space_def Let_def)

lemma code_unit_digit_char: "d < 10 \<Longrightarrow> code_unit (digit_char d) = 48 + d"
  by (simp add: code_unit_def digit_char_def)

lemma is_digit_digit_char [simp]: "d < 10 \<Longrightarrow> is_digit (digit_char d)"
  by (simp add: is_digit_def code_unit_digit_char)

lemma digit_val_digit_char [simp]: "d < 10 \<Longrightarrow> digit_val (digit_char d) = d"
  by (simp add: digit_val_def code_unit_digit_char)

lemma digit_val_less_10: "is_digit c \<Longrightarrow> digit_val c < 10"
  by (auto simp: is_digit_def digit_val_def Let_def)

lemma digit_char_digit_val: "is_digit c \<Longrightarrow> digit_char (digit_val c) = c"
  by (auto simp: is_digit_def digit_val_def digit_char_def code_unit_def Let_def)

lemma digit_val_0_iff: "is_digit c \<Longrightarrow> digit_val c = 0 \<longleftrightarrow> c = CHR ''0''"
proof
  assume "is_digit c" "digit_val c = 0"
  then have "c = digit_char 0" by (metis digit_char_digit_val)
  then have "of_char c = (of_char (CHR ''0'') :: nat)" by (simp add: digit_char_def)
  then show "c = CHR ''0''" by (simp only: of_char_eq_iff)
qed (simp add: digit_val_def code_unit_def)

lemma is_digit_zero [simp]: "is_digit (CHR ''0'')" and digit_val_zero [simp]: "digit_val (CHR ''0'') = 0"
  by (simp_all add: is_digit_def digit_val_def code_unit_def)

lemma dropWhile_id: "(xs = [] \<or> \<not> P (hd xs)) \<Longrightarrow> dropWhile P xs = xs"
  by (cases xs) auto

lemma dropWhile_none: "\<forall>x\<in>set xs. \<not> P x \<Longrightarrow> dropWhile P xs = xs"
  by (cases xs) auto

lemma trim_id: "\<forall>c\<in>set s. \<not> is_space c \<Longrightarrow> trim s = s"
  by (simp add: trim_def dropWhile_none)

lemma trim_Nil [simp]: "trim [] = []"
  by (simp add: trim_def)

lemma set_trim_subset: "set (trim s) \<subseteq> set s"
  by (auto simp: trim_def dest!: set_dropWhileD)

lemma dropWhile_rev_append:
  "\<exists>ys. xs = rev (dropWhile P (rev xs)) @ ys"
proof -
  have "xs = rev (takeWhile P (rev xs) @ dropWhile P (rev xs))" by simp
  then have "xs = rev (dropWhile P (rev xs)) @ rev (takeWhile P (rev xs))"
    by (simp only: rev_append)
  then show ?thesis by blast
qed

lemma trim_trim [simp]: "trim (trim s) = trim s"
proof -
  let ?t = "dropWhile is_space s"
  let ?u = "rev (dropWhile is_space (rev ?t))"
  have u: "trim s = ?u" by (simp add: trim_def)
  have hd_u: "?u = [] \<or> \<not> is_space (hd ?u)"
  proof (cases "?u = []")
    case False
    obtain ys where ys: "?t = ?u @ ys" using dropWhile_rev_append[of ?t is_space] by blast
    with False have "hd ?u = hd ?t" by (metis hd_append2)
    moreover have "?t \<noteq> []" using ys False by (metis append_is_Nil_conv)
    ultimately show ?thesis using hd_dropWhile[of is_space s] by simp
  qed simp
  have "dropWhile is_space ?u = ?u" using hd_u by (rule dropWhile_id)
  moreover have "dropWhile is_space (rev ?u) = rev ?u" by simp
  ultimately show ?thesis unfolding u trim_def by simp
qed

lemma split_on_not_Nil [simp]: "split_on d s \<noteq> []"
  by (induction d s rule: split_on.induct) (auto split: list.splits)

lemma split_on_no_sep: "d \<notin> set s \<Longrightarrow> split_on d s = [s]"
  by (induction s) (auto)

lemma split_on_append_sep: "d \<notin> set s \<Longrightarrow> split_on d (s @ d # t) = s # split_on d t"
  by (induction s) auto

lemma join_with_Cons: "ts \<noteq> [] \<Longrightarrow> join_with d (t # ts) = t @ d @ join_with d ts"
  by (cases ts) auto

lemma join_split: "join_with [d] (split_on d s) = s"
proof (induction d s rule: split_on.induct)
  case (2 d c s)
  obtain t ts where ts: "split_on d s = t # ts" using split_on_not_Nil by (metis neq_Nil_conv)
  with 2 show ?case by (cases ts) (auto simp: join_with_Cons)
qed simp

lemma startsWith_append [simp]: "startsWith (p @ s) p"
  by (simp add: startsWith_def)

section \<open>Decimal printing and parsing of integers\<close>

fun dec_of_nat :: "nat \<Rightarrow> string" where
  "dec_of_nat n = (if n < 10 then [digit_char n] else dec_of_nat (n div 10) @ [digit_char (n mod 10)])"

declare dec_of_nat.simps [simp del]

definition nat_of_dec :: "string \<Rightarrow> nat" where
  "nat_of_dec s = foldl (\<lambda>a c. 10 * a + digit_val c) 0 s"

lemma dec_of_nat_not_Nil [simp]: "dec_of_nat n \<noteq> []"
  by (subst dec_of_nat.simps) simp

lemma dec_of_nat_digits: "\<forall>c\<in>set (dec_of_nat n). is_digit c"
proof (induction n rule: dec_of_nat.induct)
  case (1 n)
  then show ?case
    by (cases "n < 10") (simp_all add: dec_of_nat.simps[of n])
qed

lemma nat_of_dec_append: "nat_of_dec (s @ t) = nat_of_dec s * 10 ^ length t + nat_of_dec t"
proof (induction t rule: rev_induct)
  case (snoc c t)
  have "nat_of_dec (s @ t @ [c]) = 10 * nat_of_dec (s @ t) + digit_val c"
    by (simp add: nat_of_dec_def)
  also have "\<dots> = 10 * (nat_of_dec s * 10 ^ length t + nat_of_dec t) + digit_val c"
    by (simp add: snoc)
  finally show ?case by (simp add: nat_of_dec_def algebra_simps)
qed (simp add: nat_of_dec_def)

lemma nat_of_dec_Nil [simp]: "nat_of_dec [] = 0"
  by (simp add: nat_of_dec_def)

lemma nat_of_dec_single [simp]: "nat_of_dec [c] = digit_val c"
  by (simp add: nat_of_dec_def)

lemma nat_of_dec_Cons: "nat_of_dec (c # s) = digit_val c * 10 ^ length s + nat_of_dec s"
  using nat_of_dec_append[of "[c]" s] by simp

lemma nat_of_dec_of_nat [simp]: "nat_of_dec (dec_of_nat n) = n"
proof (induction n rule: dec_of_nat.induct)
  case (1 n)
  show ?case
  proof (cases "n < 10")
    case True
    then show ?thesis by (subst dec_of_nat.simps) simp
  next
    case False
    with 1 have "nat_of_dec (dec_of_nat (n div 10)) = n div 10" by simp
    with False show ?thesis by (subst dec_of_nat.simps) (simp add: nat_of_dec_append)
  qed
qed

lemma nat_of_dec_less: "\<forall>c\<in>set s. is_digit c \<Longrightarrow> nat_of_dec s < 10 ^ length s"
proof (induction s)
  case (Cons c s)
  then have "nat_of_dec s < 10 ^ length s" and "digit_val c \<le> 9"
    using digit_val_less_10[of c] by auto
  then have "digit_val c * 10 ^ length s + nat_of_dec s < 9 * 10 ^ length s + 10 ^ length s"
    by (intro add_le_less_mono) simp_all
  then show ?case by (simp add: nat_of_dec_Cons)
qed simp

lemma nat_of_dec_zeros [simp]: "nat_of_dec (replicate n (CHR ''0'')) = 0"
  by (induction n) (simp_all add: nat_of_dec_Cons)

lemma nat_of_dec_eq_0_iff: "\<forall>c\<in>set s. is_digit c \<Longrightarrow> nat_of_dec s = 0 \<longleftrightarrow> (\<forall>c\<in>set s. c = CHR ''0'')"
  by (induction s) (auto simp: nat_of_dec_Cons digit_val_0_iff)

section \<open>Insertion-ordered maps\<close>

lemma alist_keys_update: "map fst (AList.update k v m) = (if k \<in> fst ` set m then map fst m else map fst m @ [k])"
  by (induction m) auto

lemma alist_distinct_update: "distinct (map fst m) \<Longrightarrow> distinct (map fst (AList.update k v m))"
  by (rule distinct_update)

lemma alist_distinct_delete: "distinct (map fst m) \<Longrightarrow> distinct (map fst (AList.delete k m))"
  by (rule distinct_delete)

lemma alist_length_delete_le: "length (AList.delete k m) \<le> length m"
  by (simp add: AList.delete_eq)

lemma alist_length_delete: "k \<in> fst ` set m \<Longrightarrow> length (AList.delete k m) < length m"
  by (induction m) (auto simp: AList.delete_eq le_imp_less_Suc)

lemma alist_length_update: "length (AList.update k v m) \<le> Suc (length m)"
  by (induction m) auto

end
