(* ===== verification/Fspiop_Errors.thy ===== *)
theory Fspiop_Errors
  imports Prelude
begin

text \<open>
  The FSPIOP error catalogue and its two translators: \<open>exception/fspiop-error-type.ts\<close>,
  \<open>exception/fspiop-errors.ts\<close>, \<open>exception/error-definition.ts\<close>, \<open>exception/fspiop-exception.ts\<close>,
  \<open>component/fspiop-error-translator.ts\<close> and \<open>component/fspiop-status-translator.ts\<close> under
  \<open>packages/shared/fspiop\<close>.  A static field \<open>FspiopErrors.X\<close>, together with the
  \<open>FspiopErrorType.X\<close> it is built from, is the constant \<open>X\<close>; \<open>FspiopErrors.find\<close> and
  \<open>FspiopStatusTranslator.toHttpStatus\<close> are the table look-ups of the source.  Look-up keys that
  name a property of \<open>Object.prototype\<close> are outside the model.

  A value thrown by JavaScript code is a \<open>js_error\<close>: a plain \<open>Error\<close> with its message, an
  \<open>FspiopException\<close>, an \<open>FspiopAxiosError\<close> with the parsed error body, or a thrown value that is not
  an \<open>Error\<close> at all.
\<close>

section \<open>The catalogue\<close>

record error_type =
  et_code :: string
  et_name :: string

record error_definition =
  errorType :: error_type
  description :: string

definition error_def :: "string \<Rightarrow> string \<Rightarrow> string \<Rightarrow> error_definition" where
  "error_def code name text =
     \<lparr>errorType = \<lparr>et_code = code, et_name = name\<rparr>, description = text\<rparr>"

definition COMMUNICATION_ERROR :: error_definition where
  "COMMUNICATION_ERROR = error_def ''1000''
     ''Communication error''
     ''Generic communication error.''"

definition DESTINATION_COMMUNICATION_ERROR :: error_definition where
  "DESTINATION_COMMUNICATION_ERROR = error_def ''1001''
     ''Destination communication error''
     ''Destination of the request failed to be reached. This usually indicates that a Peer FSP failed to respond from an intermediate entity.''"

definition GENERIC_SERVER_ERROR :: error_definition where
  "GENERIC_SERVER_ERROR = error_def ''2000''
     ''Generic server error''
     ''Used to avoid disclosing private details.''"

definition INTERNAL_SERVER_ERROR :: error_definition where
  "INTERNAL_SERVER_ERROR = error_def ''2001''
     ''Internal server error''
     ''Unexpected exception or bug.''"

definition NOT_IMPLEMENTED :: error_definition where
  "NOT_IMPLEMENTED = error_def ''2002''
     ''Not implemented''
     ''Service not supported by server.''"

definition SERVICE_CURRENTLY_UNAVAILABLE :: error_definition where
  "SERVICE_CURRENTLY_UNAVAILABLE = error_def ''2003''
     ''Service currently unavailable''
     ''Service temporarily unavailable (e.g. maintenance).''"

definition SERVER_TIMED_OUT :: error_definition where
  "SERVER_TIMED_OUT = error_def ''2004''
     ''Server timed out''
     ''Callback not received within timeout period.''"

definition SERVER_BUSY :: error_definition where
  "SERVER_BUSY = error_def ''2005''
     ''Server busy''
     ''Server rejecting requests due to overload.''"

definition GENERIC_CLIENT_ERROR :: error_definition where
  "GENERIC_CLIENT_ERROR = error_def ''3000''
     ''Generic client error''
     ''Used to avoid disclosing private client errors.''"

definition UNACCEPTABLE_VERSION_REQUESTED :: error_definition where
  "UNACCEPTABLE_VERSION_REQUESTED = error_def ''3001''
     ''Unacceptable version requested''
     ''Client requested unsupported API version.''"

definition UNKNOWN_URI :: error_definition where
  "UNKNOWN_URI = error_def ''3002''
     ''Unknown URI''
     ''Provided URI not recognized by server.''"

definition ADD_PARTY_INFORMATION_ERROR :: error_definition where
  "ADD_PARTY_INFORMATION_ERROR = error_def ''3003''
     ''Add Party information error''
     ''Error occurred while adding/updating party info.''"

definition GENERIC_VALIDATION_ERROR :: error_definition where
  "GENERIC_VALIDATION_ERROR = error_def ''3100''
     ''Generic validation error''
     ''Generic format error.''"

definition MALFORMED_SYNTAX :: error_definition where
  "MALFORMED_SYNTAX = error_def ''3101''
     ''Malformed syntax''
     ''Invalid parameter format (e.g. amount '5.ABC').''"

definition MISSING_MANDATORY_ELEMENT :: error_definition where
  "MISSING_MANDATORY_ELEMENT = error_def ''3102''
     ''Missing mandatory element''
     ''Required element in data model is missing.''"

definition TOO_MANY_ELEMENTS :: error_definition where
  "TOO_MANY_ELEMENTS = error_def ''3103''
     ''Too many elements''
     ''Array exceeds allowed maximum.''"

definition TOO_LARGE_PAYLOAD :: error_definition where
  "TOO_LARGE_PAYLOAD = error_def ''3104''
     ''Too large payload''
     ''Request payload exceeds allowed size.''"

definition INVALID_SIGNATURE :: error_definition where
  "INVALID_SIGNATURE = error_def ''3105''
     ''Invalid signature''
     ''Payload signature invalid or modified.''"

definition MODIFIED_REQUEST :: error_definition where
  "MODIFIED_REQUEST = error_def ''3106''
     ''Modified request''
     ''Parameters differ from a previously processed request.''"

definition MISSING_EXTENSION_PARAMETER :: error_definition where
  "MISSING_EXTENSION_PARAMETER = error_def ''3107''
     ''Missing extension parameter''
     ''Required extension parameter not provided.''"

definition GENERIC_ID_NOT_FOUND :: error_definition where
  "GENERIC_ID_NOT_FOUND = error_def ''3200''
     ''Generic ID not found''
     ''Generic identifier error.''"

definition DESTINATION_FSP_ERROR :: error_definition where
  "DESTINATION_FSP_ERROR = error_def ''3201''
     ''Destination FSP Error''
     ''Destination FSP cannot be found or doesn't exist.''"

definition PAYER_FSP_ID_NOT_FOUND :: error_definition where
  "PAYER_FSP_ID_NOT_FOUND = error_def ''3202''
     ''Payer FSP ID not found''
     ''Payer FSP ID not recognized.''"

definition PAYEE_FSP_ID_NOT_FOUND :: error_definition where
  "PAYEE_FSP_ID_NOT_FOUND = error_def ''3203''
     ''Payee FSP ID not found''
     ''Payee FSP ID not recognized.''"

definition PARTY_NOT_FOUND :: error_definition where
  "PARTY_NOT_FOUND = error_def ''3204''
     ''Party not found''
     ''Provided party identifier not found.''"

definition QUOTE_ID_NOT_FOUND :: error_definition where
  "QUOTE_ID_NOT_FOUND = error_def ''3205''
     ''Quote ID not found''
     ''Quote ID not found on server.''"

definition TRANSACTION_REQUEST_ID_NOT_FOUND :: error_definition where
  "TRANSACTION_REQUEST_ID_NOT_FOUND = error_def ''3206''
     ''Transaction request ID not found''
     ''ID not found for transaction request.''"

definition TRANSACTION_ID_NOT_FOUND :: error_definition where
  "TRANSACTION_ID_NOT_FOUND = error_def ''3207''
     ''Transaction ID not found''
     ''Transaction ID not found.''"

definition TRANSFER_ID_NOT_FOUND :: error_definition where
  "TRANSFER_ID_NOT_FOUND = error_def ''3208''
     ''Transfer ID not found''
     ''Transfer ID not found.''"

definition BULK_QUOTE_ID_NOT_FOUND :: error_definition where
  "BULK_QUOTE_ID_NOT_FOUND = error_def ''3209''
     ''Bulk quote ID not found''
     ''Bulk quote ID not found.''"

definition BULK_TRANSFER_ID_NOT_FOUND :: error_definition where
  "BULK_TRANSFER_ID_NOT_FOUND = error_def ''3210''
     ''Bulk transfer ID not found''
     ''Bulk transfer ID not found.''"

definition GENERIC_EXPIRED_ERROR :: error_definition where
  "GENERIC_EXPIRED_ERROR = error_def ''3300''
     ''Generic expired error''
     ''Generic expired object error (non-specific).''"

definition TRANSACTION_REQUEST_EXPIRED :: error_definition where
  "TRANSACTION_REQUEST_EXPIRED = error_def ''3301''
     ''Transaction request expired''
     ''Transaction request has already expired.''"

definition QUOTE_EXPIRED :: error_definition where
  "QUOTE_EXPIRED = error_def ''3302''
     ''Quote expired''
     ''The quote is no longer valid.''"

definition TRANSFER_EXPIRED :: error_definition where
  "TRANSFER_EXPIRED = error_def ''3303''
     ''Transfer expired''
     ''The transfer has already expired.''"

definition GENERIC_PAYER_ERROR :: error_definition where
  "GENERIC_PAYER_ERROR = error_def ''4000''
     ''Generic Payer error''
     ''Used for private payer-related errors.''"

definition PAYER_FSP_INSUFFICIENT_LIQUIDITY :: error_definition where
  "PAYER_FSP_INSUFFICIENT_LIQUIDITY = error_def ''4001''
     ''Payer FSP insufficient liquidity''
     ''Payer-s FSP lacks funds.''"

definition GENERIC_PAYER_REJECTION :: error_definition where
  "GENERIC_PAYER_REJECTION = error_def ''4100''
     ''Generic Payer rejection''
     ''Payer or payer FSP rejected the request.''"

definition PAYER_REJECTED_TRANSACTION_REQUEST :: error_definition where
  "PAYER_REJECTED_TRANSACTION_REQUEST = error_def ''4101''
     ''Payer rejected transaction request''
     ''Payer rejected the transaction request.''"

definition PAYER_FSP_UNSUPPORTED_TRANSACTION_TYPE :: error_definition where
  "PAYER_FSP_UNSUPPORTED_TRANSACTION_TYPE = error_def ''4102''
     ''Payer FSP unsupported transaction type''
     ''Transaction type not supported by Payer FSP.''"

definition PAYER_UNSUPPORTED_CURRENCY :: error_definition where
  "PAYER_UNSUPPORTED_CURRENCY = error_def ''4103''
     ''Payer unsupported currency''
     ''Payer does not support requested currency.''"

definition PAYER_LIMIT_ERROR :: error_definition where
  "PAYER_LIMIT_ERROR = error_def ''4200''
     ''Payer limit error''
     ''Payment amount/frequency exceeds limits.''"

definition SUSPICIOUS_TRANSACTION_PATTERN :: error_definition where
  "SUSPICIOUS_TRANSACTION_PATTERN = error_def ''4240''
     ''Suspicious transaction pattern''
     ''Repetitive transaction pattern blocked.''"

definition PAYER_PERMISSION_ERROR :: error_definition where
  "PAYER_PERMISSION_ERROR = error_def ''4300''
     ''Payer permission error''
     ''Payer lacks permission to perform operation.''"

definition GENERIC_PAYER_BLOCKED_ERROR :: error_definition where
  "GENERIC_PAYER_BLOCKED_ERROR = error_def ''4400''
     ''Generic Payer blocked error''
     ''Payer is blocked or failed regulatory screening.''"

definition GENERIC_PAYEE_ERROR :: error_definition where
  "GENERIC_PAYEE_ERROR = error_def ''5000''
     ''Generic Payee error''
     ''Generic error related to payee or payee FSP.''"

definition PAYEE_FSP_INSUFFICIENT_LIQUIDITY :: error_definition where
  "PAYEE_FSP_INSUFFICIENT_LIQUIDITY = error_def ''5001''
     ''Payee FSP insufficient liquidity''
     ''Payee FSP lacks sufficient liquidity.''"

definition GENERIC_PAYEE_REJECTION :: error_definition where
  "GENERIC_PAYEE_REJECTION = error_def ''5100''
     ''Generic Payee rejection''
     ''Payee or payee FSP rejected request.''"

definition PAYEE_REJECTED_QUOTE :: error_definition where
  "PAYEE_REJECTED_QUOTE = error_def ''5101''
     ''Payee rejected quote''
     ''Payee unwilling to proceed after quote.''"

definition PAYEE_FSP_UNSUPPORTED_TRANSACTION_TYPE :: error_definition where
  "PAYEE_FSP_UNSUPPORTED_TRANSACTION_TYPE = error_def ''5102''
     ''Payee FSP unsupported transaction type''
     ''Payee FSP rejects unsupported transaction type.''"

definition PAYEE_FSP_REJECTED_QUOTE :: error_definition where
  "PAYEE_FSP_REJECTED_QUOTE = error_def ''5103''
     ''Payee FSP rejected quote''
     ''Payee FSP unwilling to continue after quote.''"

definition PAYEE_REJECTED_TRANSACTION :: error_definition where
  "PAYEE_REJECTED_TRANSACTION = error_def ''5104''
     ''Payee rejected transaction''
     ''Payee rejected the transaction.''"

definition PAYEE_FSP_REJECTED_TRANSACTION :: error_definition where
  "PAYEE_FSP_REJECTED_TRANSACTION = error_def ''5105''
     ''Payee FSP rejected transaction''
     ''Payee FSP rejected the transaction.''"

definition PAYEE_UNSUPPORTED_CURRENCY :: error_definition where
  "PAYEE_UNSUPPORTED_CURRENCY = error_def ''5106''
     ''Payee unsupported currency''
     ''Payee does not support requested currency.''"

definition PAYEE_LIMIT_ERROR :: error_definition where
  "PAYEE_LIMIT_ERROR = error_def ''5200''
     ''Payee limit error''
     ''Receiving amount/frequency exceeds allowed limits.''"

definition PAYEE_PERMISSION_ERROR :: error_definition where
  "PAYEE_PERMISSION_ERROR = error_def ''5300''
     ''Payee permission error''
     ''Payee lacks permission to perform operation.''"

definition GENERIC_PAYEE_BLOCKED_ERROR :: error_definition where
  "GENERIC_PAYEE_BLOCKED_ERROR = error_def ''5400''
     ''Generic Payee blocked error''
     ''Payee is blocked or failed regulatory screening.''"

definition ROUNDING_VALUE_ERROR :: error_definition where
  "ROUNDING_VALUE_ERROR = error_def ''5241''
     ''Amount is invalid. Please enter the format specified by the service provider.''
     ''Amount is invalid. Please enter the format specified by the service provider.''"

definition INACTIVE_ACCOUNT :: error_definition where
  "INACTIVE_ACCOUNT = error_def ''3242''
     ''Account is not active.''
     ''Account is not active.''"

definition PHONE_NUMBER_MISMATCH :: error_definition where
  "PHONE_NUMBER_MISMATCH = error_def ''3241''
     ''There was an error with your account number and phone number combination. Please contact your DFSP to verify the numbers.''
     ''There was an error with your account number and phone number combination. Please contact your DFSP to verify the numbers.''"

definition DUPLICATE_REFERENCE_ID :: error_definition where
  "DUPLICATE_REFERENCE_ID = error_def ''3041''
     ''Duplicate reference ID.''
     ''Duplicate reference ID.''"

text \<open>\<open>FspiopErrorType.VALUES\<close>, in the order in which the static initialisers push.\<close>

definition error_type_values :: "error_type list" where
  "error_type_values = map errorType [
     COMMUNICATION_ERROR,
     DESTINATION_COMMUNICATION_ERROR,
     GENERIC_SERVER_ERROR,
     INTERNAL_SERVER_ERROR,
     NOT_IMPLEMENTED,
     SERVICE_CURRENTLY_UNAVAILABLE,
     SERVER_TIMED_OUT,
     SERVER_BUSY,
     GENERIC_CLIENT_ERROR,
     UNACCEPTABLE_VERSION_REQUESTED,
     UNKNOWN_URI,
     ADD_PARTY_INFORMATION_ERROR,
     DUPLICATE_REFERENCE_ID,
     GENERIC_VALIDATION_ERROR,
     MALFORMED_SYNTAX,
     MISSING_MANDATORY_ELEMENT,
     TOO_MANY_ELEMENTS,
     TOO_LARGE_PAYLOAD,
     INVALID_SIGNATURE,
     MODIFIED_REQUEST,
     MISSING_EXTENSION_PARAMETER,
     GENERIC_ID_NOT_FOUND,
     DESTINATION_FSP_ERROR,
     PAYER_FSP_ID_NOT_FOUND,
     PAYEE_FSP_ID_NOT_FOUND,
     PARTY_NOT_FOUND,
     QUOTE_ID_NOT_FOUND,
     TRANSACTION_REQUEST_ID_NOT_FOUND,
     TRANSACTION_ID_NOT_FOUND,
     TRANSFER_ID_NOT_FOUND,
     BULK_QUOTE_ID_NOT_FOUND,
     BULK_TRANSFER_ID_NOT_FOUND,
     PHONE_NUMBER_MISMATCH,
     INACTIVE_ACCOUNT,
     GENERIC_EXPIRED_ERROR,
     TRANSACTION_REQUEST_EXPIRED,
     QUOTE_EXPIRED,
     TRANSFER_EXPIRED,
     GENERIC_PAYER_ERROR,
     PAYER_FSP_INSUFFICIENT_LIQUIDITY,
     GENERIC_PAYER_REJECTION,
     PAYER_REJECTED_TRANSACTION_REQUEST,
     PAYER_FSP_UNSUPPORTED_TRANSACTION_TYPE,
     PAYER_UNSUPPORTED_CURRENCY,
     PAYER_LIMIT_ERROR,
     SUSPICIOUS_TRANSACTION_PATTERN,
     PAYER_PERMISSION_ERROR,
     GENERIC_PAYER_BLOCKED_ERROR,
     GENERIC_PAYEE_ERROR,
     PAYEE_FSP_INSUFFICIENT_LIQUIDITY,
     GENERIC_PAYEE_REJECTION,
     PAYEE_REJECTED_QUOTE,
     PAYEE_FSP_UNSUPPORTED_TRANSACTION_TYPE,
     PAYEE_FSP_REJECTED_QUOTE,
     PAYEE_REJECTED_TRANSACTION,
     PAYEE_FSP_REJECTED_TRANSACTION,
     PAYEE_UNSUPPORTED_CURRENCY,
     PAYEE_LIMIT_ERROR,
     PAYEE_PERMISSION_ERROR,
     ROUNDING_VALUE_ERROR,
     GENERIC_PAYEE_BLOCKED_ERROR]"

text \<open>The literal \<open>FspiopErrors.ERROR_MAP\<close>: each definition is entered under its own code.\<close>

definition error_map_values :: "error_definition list" where
  "error_map_values = [
     COMMUNICATION_ERROR,
     DESTINATION_COMMUNICATION_ERROR,
     GENERIC_SERVER_ERROR,
     INTERNAL_SERVER_ERROR,
     NOT_IMPLEMENTED,
     SERVICE_CURRENTLY_UNAVAILABLE,
     SERVER_TIMED_OUT,
     SERVER_BUSY,
     GENERIC_CLIENT_ERROR,
     UNACCEPTABLE_VERSION_REQUESTED,
     UNKNOWN_URI,
     ADD_PARTY_INFORMATION_ERROR,
     GENERIC_VALIDATION_ERROR,
     MALFORMED_SYNTAX,
     MISSING_MANDATORY_ELEMENT,
     TOO_MANY_ELEMENTS,
     TOO_LARGE_PAYLOAD,
     INVALID_SIGNATURE,
     MODIFIED_REQUEST,
     MISSING_EXTENSION_PARAMETER,
     GENERIC_ID_NOT_FOUND,
     DESTINATION_FSP_ERROR,
     PAYER_FSP_ID_NOT_FOUND,
     PAYEE_FSP_ID_NOT_FOUND,
     PARTY_NOT_FOUND,
     QUOTE_ID_NOT_FOUND,
     TRANSACTION_REQUEST_ID_NOT_FOUND,
     TRANSACTION_ID_NOT_FOUND,
     TRANSFER_ID_NOT_FOUND,
     BULK_QUOTE_ID_NOT_FOUND,
     BULK_TRANSFER_ID_NOT_FOUND,
     GENERIC_EXPIRED_ERROR,
     TRANSACTION_REQUEST_EXPIRED,
     QUOTE_EXPIRED,
     TRANSFER_EXPIRED,
     GENERIC_PAYER_ERROR,
     PAYER_FSP_INSUFFICIENT_LIQUIDITY,
     GENERIC_PAYER_REJECTION,
     PAYER_REJECTED_TRANSACTION_REQUEST,
     PAYER_FSP_UNSUPPORTED_TRANSACTION_TYPE,
     PAYER_UNSUPPORTED_CURRENCY,
     PAYER_LIMIT_ERROR,
     SUSPICIOUS_TRANSACTION_PATTERN,
     PAYER_PERMISSION_ERROR,
     GENERIC_PAYER_BLOCKED_ERROR,
     GENERIC_PAYEE_ERROR,
     PAYEE_FSP_INSUFFICIENT_LIQUIDITY,
     GENERIC_PAYEE_REJECTION,
     PAYEE_REJECTED_QUOTE,
     PAYEE_FSP_UNSUPPORTED_TRANSACTION_TYPE,
     PAYEE_FSP_REJECTED_QUOTE,
     PAYEE_REJECTED_TRANSACTION,
     PAYEE_FSP_REJECTED_TRANSACTION,
     PAYEE_UNSUPPORTED_CURRENCY,
     PAYEE_LIMIT_ERROR,
     PAYEE_PERMISSION_ERROR,
     GENERIC_PAYEE_BLOCKED_ERROR,
     ROUNDING_VALUE_ERROR,
     INACTIVE_ACCOUNT,
     PHONE_NUMBER_MISMATCH,
     DUPLICATE_REFERENCE_ID]"

definition error_map :: "(string \<times> error_definition) list" where
  "error_map = map (\<lambda>d. (et_code (errorType d), d)) error_map_values"

text \<open>The literal \<open>FspiopStatusTranslator.STATUS_MAP\<close>, with the numeric values of \<open>HttpStatus\<close>.\<close>

definition status_map_entries :: "(error_definition \<times> nat) list" where
  "status_map_entries = [
     (COMMUNICATION_ERROR, 502),
     (DESTINATION_COMMUNICATION_ERROR, 502),
     (GENERIC_SERVER_ERROR, 500),
     (INTERNAL_SERVER_ERROR, 500),
     (NOT_IMPLEMENTED, 501),
     (SERVICE_CURRENTLY_UNAVAILABLE, 503),
     (SERVER_TIMED_OUT, 504),
     (SERVER_BUSY, 503),
     (GENERIC_CLIENT_ERROR, 417),
     (UNACCEPTABLE_VERSION_REQUESTED, 417),
     (UNKNOWN_URI, 417),
     (ADD_PARTY_INFORMATION_ERROR, 417),
     (GENERIC_VALIDATION_ERROR, 417),
     (MALFORMED_SYNTAX, 417),
     (MISSING_MANDATORY_ELEMENT, 417),
     (TOO_MANY_ELEMENTS, 417),
     (TOO_LARGE_PAYLOAD, 413),
     (INVALID_SIGNATURE, 401),
     (MODIFIED_REQUEST, 417),
     (MISSING_EXTENSION_PARAMETER, 417),
     (GENERIC_ID_NOT_FOUND, 417),
     (DESTINATION_FSP_ERROR, 417),
     (PAYER_FSP_ID_NOT_FOUND, 417),
     (PAYEE_FSP_ID_NOT_FOUND, 417),
     (PARTY_NOT_FOUND, 417),
     (QUOTE_ID_NOT_FOUND, 417),
     (TRANSACTION_REQUEST_ID_NOT_FOUND, 417),
     (TRANSACTION_ID_NOT_FOUND, 417),
     (TRANSFER_ID_NOT_FOUND, 417),
     (BULK_QUOTE_ID_NOT_FOUND, 417),
     (BULK_TRANSFER_ID_NOT_FOUND, 417),
     (GENERIC_EXPIRED_ERROR, 417),
     (TRANSACTION_REQUEST_EXPIRED, 408),
     (QUOTE_EXPIRED, 417),
     (TRANSFER_EXPIRED, 417),
     (GENERIC_PAYER_ERROR, 417),
     (PAYER_FSP_INSUFFICIENT_LIQUIDITY, 417),
     (PAYEE_FSP_INSUFFICIENT_LIQUIDITY, 417),
     (GENERIC_PAYER_REJECTION, 417),
     (PAYER_REJECTED_TRANSACTION_REQUEST, 417),
     (PAYER_FSP_UNSUPPORTED_TRANSACTION_TYPE, 417),
     (PAYER_UNSUPPORTED_CURRENCY, 417),
     (PAYER_LIMIT_ERROR, 417),
     (SUSPICIOUS_TRANSACTION_PATTERN, 417),
     (PAYER_PERMISSION_ERROR, 417),
     (GENERIC_PAYER_BLOCKED_ERROR, 417),
     (ROUNDING_VALUE_ERROR, 417),
     (INACTIVE_ACCOUNT, 417),
     (GENERIC_PAYEE_ERROR, 500),
     (GENERIC_PAYEE_REJECTION, 417),
     (PAYEE_REJECTED_QUOTE, 417),
     (PAYEE_FSP_UNSUPPORTED_TRANSACTION_TYPE, 417),
     (PAYEE_FSP_REJECTED_QUOTE, 417),
     (PAYEE_REJECTED_TRANSACTION, 417),
     (PAYEE_FSP_REJECTED_TRANSACTION, 417),
     (PAYEE_UNSUPPORTED_CURRENCY, 417),
     (PAYEE_LIMIT_ERROR, 417),
     (PAYEE_PERMISSION_ERROR, 417),
     (GENERIC_PAYEE_BLOCKED_ERROR, 417)]"

definition status_map :: "(string \<times> nat) list" where
  "status_map = map (\<lambda>(d, s). (et_code (errorType d), s)) status_map_entries"

section \<open>Wire data carried by errors\<close>

datatype js_value = JString string | JNumber string | JOther

record extension =
  ext_key :: "string option"
  ext_value :: "js_value option"

record extension_list =
  el_extension :: "extension list option"

record error_information =
  ei_errorCode :: "string option"
  ei_errorDescription :: "string option"
  ei_extensionList :: "extension_list option"

record fspiop_exception =
  errorDefinition :: error_definition
  exc_extensionList :: "extension_list option"
  exc_message :: string

datatype js_error =
    JsError string
  | JsFspiop fspiop_exception
  | JsAxios nat "error_information option"
  | JsThrown

section \<open>ErrorDefinition, FspiopErrors, FspiopException\<close>

definition find_error :: "string \<Rightarrow> error_definition option" where
  "find_error code = map_of error_map code"

definition fromCode :: "string \<Rightarrow> (js_error, error_type) result" where
  "fromCode code = (case find (\<lambda>t. et_code t = code) error_type_values of
     None \<Rightarrow> Inl (JsError (''Unknown FSPIOP error code: '' @ code))
   | Some t \<Rightarrow> Inr t)"

definition firstNonBlank :: "string option \<Rightarrow> string \<Rightarrow> string" where
  "firstNonBlank v fallback = (case v of Some s \<Rightarrow> if trim s \<noteq> [] then s else fallback | None \<Rightarrow> fallback)"

text \<open>The second constructor argument: absent, a message, an \<open>Error\<close> (its message), an extension list.\<close>

datatype exc_arg = NoArg | MessageArg string | ErrorArg string | ExtensionArg extension_list

fun new_FspiopException :: "error_definition \<Rightarrow> exc_arg \<Rightarrow> extension_list option \<Rightarrow> fspiop_exception" where
  "new_FspiopException d NoArg _ =
     \<lparr>errorDefinition = d, exc_extensionList = None, exc_message = description d\<rparr>"
| "new_FspiopException d (ExtensionArg el) _ =
     \<lparr>errorDefinition = d, exc_extensionList = Some el, exc_message = description d\<rparr>"
| "new_FspiopException d (MessageArg m) el =
     (let msg = firstNonBlank (Some m) (description d)
      in \<lparr>errorDefinition = \<lparr>errorType = errorType d, description = msg\<rparr>,
          exc_extensionList = el, exc_message = msg\<rparr>)"
| "new_FspiopException d (ErrorArg m) el =
     \<lparr>errorDefinition = d, exc_extensionList = el,
      exc_message = firstNonBlank (Some m) (description d)\<rparr>"

definition toErrorObject :: "fspiop_exception \<Rightarrow> error_information" where
  "toErrorObject x = \<lparr>ei_errorCode = Some (et_code (errorType (errorDefinition x))),
     ei_errorDescription = Some (description (errorDefinition x)),
     ei_extensionList = exc_extensionList x\<rparr>"

abbreviation throw_fspiop :: "error_definition \<Rightarrow> string \<Rightarrow> js_error" where
  "throw_fspiop t m \<equiv> JsFspiop (new_FspiopException t (MessageArg m) None)"

fun js_message :: "js_error \<Rightarrow> string option" where
  "js_message (JsError m) = Some m"
| "js_message (JsFspiop x) = Some (exc_message x)"
| "js_message (JsAxios st info) =
     Some (''FSPIOP error ['' @ dec_of_nat st @ ''] '' @
       nullish (Option.bind info ei_errorCode) ''0000'' @ '': '' @
       nullish (Option.bind info ei_errorDescription) ''unknown'')"
| "js_message JsThrown = None"

fun normalize_exception :: "js_error \<Rightarrow> fspiop_exception" where
  "normalize_exception (JsFspiop x) = x"
| "normalize_exception e =
     new_FspiopException INTERNAL_SERVER_ERROR
       (MessageArg (firstNonBlank (js_message e) (description INTERNAL_SERVER_ERROR))) None"

section \<open>FspiopErrorTranslator\<close>

definition ext_key_norm :: "extension \<Rightarrow> string" where
  "ext_key_norm x = nullish (map_option (\<lambda>k. toLowerCase (trim k)) (ext_key x)) []"

fun upsertExtension :: "string \<Rightarrow> string \<Rightarrow> extension list \<Rightarrow> extension list" where
  "upsertExtension k v [] = [\<lparr>ext_key = Some k, ext_value = Some (JString v)\<rparr>]"
| "upsertExtension k v (x # xs) =
     (if ext_key_norm x = k then x\<lparr>ext_value := Some (JString v)\<rparr> # xs
      else x # upsertExtension k v xs)"

text \<open>
  \<open>None\<close> stands for the early returns of the source, which hand back the argument object itself:
  the caller tells them apart by \<open>===\<close>.
\<close>

definition withTransactionId ::
  "extension_list option \<Rightarrow> string option \<Rightarrow> string option \<Rightarrow> extension_list option" where
  "withTransactionId el transactionId message =
     (if is_blank transactionId then None
      else
        (let extensions = nullish (Option.bind el el_extension) [];
             merged = (case message of
                None \<Rightarrow> extensions
              | Some m \<Rightarrow> if trim m = [] then extensions else upsertExtension [] (trim m) extensions)
         in Some \<lparr>el_extension = Some merged\<rparr>))"

definition toFspiopException_tr :: "js_error \<Rightarrow> string option \<Rightarrow> fspiop_exception" where
  "toFspiopException_tr exception transactionId =
     (let normalized = normalize_exception exception;
          d = errorDefinition normalized
      in case withTransactionId (exc_extensionList normalized) transactionId (Some (description d)) of
           None \<Rightarrow>
             new_FspiopException
               (nullish (find_error (et_code (errorType d))) GENERIC_VALIDATION_ERROR)
               (ExtensionArg \<lparr>el_extension = Some [\<lparr>ext_key = Some [], ext_value = Some (JString (description d))\<rparr>]\<rparr>)
               None
         | Some el \<Rightarrow> new_FspiopException d (ExtensionArg el) None)"

section \<open>FspiopStatusTranslator\<close>

definition toHttpStatus :: "fspiop_exception \<Rightarrow> nat" where
  "toHttpStatus x = nullish (map_of status_map (et_code (errorType (errorDefinition x)))) 500"

section \<open>Facts\<close>

lemma error_type_codes_distinct: "distinct (map et_code error_type_values)"
  by code_simp

lemma error_map_codes_distinct: "distinct (map (\<lambda>d. et_code (errorType d)) error_map_values)"
  by code_simp

lemma error_map_distinct: "distinct (map fst error_map)"
  using error_map_codes_distinct by (simp add: error_map_def comp_def)

lemma find_error_SomeD:
  "find_error code = Some d \<Longrightarrow> d \<in> set error_map_values \<and> et_code (errorType d) = code"
  by (auto simp: find_error_def error_map_def dest!: map_of_SomeD)

lemma find_error_member: "d \<in> set error_map_values \<Longrightarrow> find_error (et_code (errorType d)) = Some d"
  using error_map_distinct by (auto simp: find_error_def error_map_def intro!: map_of_is_SomeI)

lemma errorType_new [simp]:
  "errorType (errorDefinition (new_FspiopException d a el)) = errorType d"
  by (cases a) (simp_all add: Let_def)

lemma normalize_type:
  "errorType (errorDefinition (normalize_exception e)) =
     (case e of JsFspiop x \<Rightarrow> errorType (errorDefinition x) | _ \<Rightarrow> errorType INTERNAL_SERVER_ERROR)"
  by (cases e) (simp_all del: new_FspiopException.simps)

lemma error_types_defined: "set error_type_values \<subseteq> errorType ` set error_map_values"
  unfolding error_type_values_def error_map_values_def list.map list.set image_insert image_empty
  by (simp only: insert_subset insert_iff refl simp_thms empty_subsetI)

lemma status_map_values: "list_all (\<lambda>(k, s). s \<in> {401, 408, 413, 417, 500, 501, 502, 503, 504}) status_map"
  by code_simp

lemma status_map_covers:
  "set error_map_values \<subseteq> insert PHONE_NUMBER_MISMATCH (insert DUPLICATE_REFERENCE_ID (fst ` set status_map_entries))"
  unfolding status_map_entries_def error_map_values_def list.set image_insert image_empty fst_conv
  by (simp only: insert_subset insert_iff refl simp_thms empty_subsetI)

lemma status_map_gaps:
  "map_of status_map (et_code (errorType PHONE_NUMBER_MISMATCH)) = None"
  "map_of status_map (et_code (errorType DUPLICATE_REFERENCE_ID)) = None"
  by code_simp+

lemma find_distinct_key:
  "distinct (map f xs) \<Longrightarrow> x \<in> set xs \<Longrightarrow> find (\<lambda>y. f y = f x) xs = Some x"
  by (induction xs) (auto simp: image_iff)

lemma toFspiopException_tr_type:
  "et_code (errorType (errorDefinition (toFspiopException_tr e tid))) =
     (let c = et_code (errorType (errorDefinition (normalize_exception e)))
      in if is_blank tid \<and> find_error c = None then et_code (errorType GENERIC_VALIDATION_ERROR) else c)"
proof (cases "is_blank tid")
  case True
  show ?thesis
  proof (cases "find_error (et_code (errorType (errorDefinition (normalize_exception e))))")
    case None
    then show ?thesis using True by (simp add: toFspiopException_tr_def withTransactionId_def Let_def)
  next
    case (Some d)
    from find_error_SomeD[OF this] Some True show ?thesis
      by (simp add: toFspiopException_tr_def withTransactionId_def Let_def)
  qed
next
  case False
  then show ?thesis by (simp add: toFspiopException_tr_def withTransactionId_def Let_def)
qed

section \<open>Properties\<close>

text \<open>
  The two tables of the error catalogue agree: every FSPIOP error type is found by its code, by
  \<open>FspiopErrorType.fromCode\<close> and by \<open>FspiopErrors.find\<close>, which returns a definition of that same type.
\<close>

theorem error_catalogue_complete:
  assumes "t \<in> set error_type_values"
  shows "fromCode (et_code t) = Inr t \<and> (\<exists>d. find_error (et_code t) = Some d \<and> errorType d = t)"
proof -
  obtain d where d: "d \<in> set error_map_values" "errorType d = t"
    using error_types_defined assms by blast
  have "find (\<lambda>y. et_code y = et_code t) error_type_values = Some t"
    by (rule find_distinct_key[OF error_type_codes_distinct assms])
  with find_error_member[OF d(1)] d(2) show ?thesis by (auto simp: fromCode_def)
qed

theorem error_catalogue_complete_witness:
  "\<exists>d. find_error (et_code (hd error_type_values)) = Some d \<and> errorType d = hd error_type_values"
  using error_catalogue_complete[of "hd error_type_values"] by (simp add: error_type_values_def)

text \<open>
  \<open>FspiopErrorTranslator.toFspiopException\<close> keeps the error code of the thrown value (2001 for anything that is
  not an \<open>FspiopException\<close>); only a code outside the catalogue is replaced, by 3100, and only when
  no transaction id is given.
\<close>

theorem translator_keeps_code:
  "et_code (errorType (errorDefinition (toFspiopException_tr e tid))) =
     (let c = (case e of JsFspiop x \<Rightarrow> et_code (errorType (errorDefinition x)) | _ \<Rightarrow> ''2001'')
      in if is_blank tid \<and> find_error c = None then ''3100'' else c)"
proof -
  have "et_code (errorType INTERNAL_SERVER_ERROR) = ''2001''" "et_code (errorType GENERIC_VALIDATION_ERROR) = ''3100''"
    by (simp_all add: INTERNAL_SERVER_ERROR_def GENERIC_VALIDATION_ERROR_def error_def_def)
  then show ?thesis
    unfolding toFspiopException_tr_type normalize_type by (cases e) (simp_all add: Let_def)
qed

text \<open>
  \<open>FspiopStatusTranslator.toHttpStatus\<close> always answers one of nine statuses, 400 and 404 are never among
  them, and the only catalogued errors it does not list, so that they fall through to 500, are
  PHONE_NUMBER_MISMATCH and DUPLICATE_REFERENCE_ID.
\<close>

theorem status_translator_range:
  "toHttpStatus x \<in> {401, 408, 413, 417, 500, 501, 502, 503, 504} \<and>
   {d \<in> set error_map_values. map_of status_map (et_code (errorType d)) = None}
     \<subseteq> {PHONE_NUMBER_MISMATCH, DUPLICATE_REFERENCE_ID} \<and>
   map_of status_map (et_code (errorType PHONE_NUMBER_MISMATCH)) = None \<and>
   map_of status_map (et_code (errorType DUPLICATE_REFERENCE_ID)) = None"
proof (intro conjI status_map_gaps)
  show "toHttpStatus x \<in> {401, 408, 413, 417, 500, 501, 502, 503, 504}"
  proof (cases "map_of status_map (et_code (errorType (errorDefinition x)))")
    case None
    then show ?thesis by (simp add: toHttpStatus_def)
  next
    case (Some s)
    then have "(et_code (errorType (errorDefinition x)), s) \<in> set status_map" by (rule map_of_SomeD)
    then have "s \<in> {401, 408, 413, 417, 500, 501, 502, 503, 504}"
      using status_map_values unfolding list_all_iff by blast
    then show ?thesis using Some by (simp add: toHttpStatus_def)
  qed
  have "map_of status_map (et_code (errorType d)) \<noteq> None" if "d \<in> fst ` set status_map_entries" for d
  proof -
    from that obtain s where "(d, s) \<in> set status_map_entries" by auto
    then have "(et_code (errorType d), s) \<in> set status_map" unfolding status_map_def by force
    then show ?thesis unfolding map_of_eq_None_iff by force
  qed
  then show "{d \<in> set error_map_values. map_of status_map (et_code (errorType d)) = None}
     \<subseteq> {PHONE_NUMBER_MISMATCH, DUPLICATE_REFERENCE_ID}"
    using status_map_covers by blast
qed

end
