(* ===== verification/Fspiop_Money.thy ===== *)
theory Fspiop_Money
  imports Fspiop_Errors
begin

text \<open>
  Decimal money: \<open>component/fspiop-money.ts\<close>, \<open>component/fspiop-currencies.ts\<close>,
  \<open>component/is-fspiop-amount.ts\<close> (all under \<open>packages/shared/fspiop\<close>) and
  \<open>component/amount-decimal-validator.ts\<close> of \<open>packages/core/outbound/domain\<close>.

  Amounts are decimal strings on the wire and \<open>BigInt\<close> minor units inside, here \<open>string\<close> and \<open>int\<close>.
  The two regular expressions of the source are the executable matchers \<open>match_decimal\<close> and
  \<open>matches_amount_pattern\<close>.  A scale is an \<open>int\<close>; a fractional JavaScript number, which
  \<open>validateScale\<close> refuses with the same error as a negative one, is not representable.  A currency is
  the string value of the \<open>Currency\<close> enumeration.

  The reference \<open>scale_spec\<close> computes the same conversion by exact integer division, and
  \<open>scaleAmount_correct\<close> shows that the digit-wise code of the source agrees with it.
\<close>

section \<open>Currencies\<close>

record fspiop_currency_profile =
  currency_code :: string
  currency_name :: string
  currency_scale :: nat

definition currency_profile :: "string \<Rightarrow> string \<Rightarrow> nat \<Rightarrow> fspiop_currency_profile" where
  "currency_profile c n s = \<lparr>currency_code = c, currency_name = n, currency_scale = s\<rparr>"

definition CURRENCIES :: "fspiop_currency_profile list" where
  "CURRENCIES = [
     currency_profile ''AED'' ''UAE dirham'' 2,
     currency_profile ''AFN'' ''Afghanistan afghani'' 2,
     currency_profile ''ALL'' ''Albanian lek'' 2,
     currency_profile ''AMD'' ''Armenian dram'' 2,
     currency_profile ''ANG'' ''Netherlands Antillian guilder'' 2,
     currency_profile ''AOA'' ''Angolan kwanza'' 2,
     currency_profile ''ARS'' ''Argentine peso'' 2,
     currency_profile ''AUD'' ''Australian dollar'' 2,
     currency_profile ''AWG'' ''Aruban guilder'' 2,
     currency_profile ''AZN'' ''Azerbaijanian new manat'' 2,
     currency_profile ''BAM'' ''Bosnia-Herzegovina convertible mark'' 2,
     currency_profile ''BBD'' ''Barbados dollar'' 2,
     currency_profile ''BDT'' ''Bangladeshi taka'' 2,
     currency_profile ''BGN'' ''Bulgarian lev'' 2,
     currency_profile ''BHD'' ''Bahraini dinar'' 3,
     currency_profile ''BIF'' ''Burundi franc'' 0,
     currency_profile ''BMD'' ''Bermudian dollar'' 2,
     currency_profile ''BND'' ''Brunei dollar'' 2,
     currency_profile ''BOB'' ''Bolivian boliviano'' 2,
     currency_profile ''BRL'' ''Brazilian real'' 2,
     currency_profile ''BSD'' ''Bahamian dollar'' 2,
     currency_profile ''BTN'' ''Bhutan ngultrum'' 2,
     currency_profile ''BWP'' ''Botswana pula'' 2,
     currency_profile ''BYN'' ''Belarusian ruble'' 4,
     currency_profile ''BZD'' ''Belize dollar'' 2,
     currency_profile ''CAD'' ''Canadian dollar'' 2,
     currency_profile ''CDF'' ''Congolese franc'' 2,
     currency_profile ''CHF'' ''Swiss franc'' 2,
     currency_profile ''CLP'' ''Chilean peso'' 0,
     currency_profile ''CNY'' ''Chinese yuan renminbi'' 2,
     currency_profile ''COP'' ''Colombian peso'' 2,
     currency_profile ''CRC'' ''Costa Rican colon'' 2,
     currency_profile ''CUC'' ''Cuban convertible peso'' 2,
     currency_profile ''CUP'' ''Cuban peso'' 2,
     currency_profile ''CVE'' ''Cape Verde escudo'' 2,
     currency_profile ''CZK'' ''Czech koruna'' 2,
     currency_profile ''DJF'' ''Djibouti franc'' 0,
     currency_profile ''DKK'' ''Danish krone'' 2,
     currency_profile ''DOP'' ''Dominican peso'' 2,
     currency_profile ''DZD'' ''Algerian dinar'' 2,
     currency_profile ''EGP'' ''Egyptian pound'' 2,
     currency_profile ''ERN'' ''Eritrean nakfa'' 2,
     currency_profile ''ETB'' ''Ethiopian birr'' 2,
     currency_profile ''EUR'' ''EU euro'' 2,
     currency_profile ''FJD'' ''Fiji dollar'' 2,
     currency_profile ''FKP'' ''Falkland Islands pound'' 2,
     currency_profile ''GBP'' ''British pound'' 2,
     currency_profile ''GEL'' ''Georgian lari'' 2,
     currency_profile ''GGP'' ''Guernsey pound'' 4,
     currency_profile ''GHS'' ''Ghanaian new cedi'' 2,
     currency_profile ''GIP'' ''Gibraltar pound'' 2,
     currency_profile ''GMD'' ''Gambian dalasi'' 2,
     currency_profile ''GNF'' ''Guinean franc'' 0,
     currency_profile ''GTQ'' ''Guatemalan quetzal'' 2,
     currency_profile ''GYD'' ''Guyana dollar'' 2,
     currency_profile ''HKD'' ''Hong Kong SAR dollar'' 2,
     currency_profile ''HNL'' ''Honduran lempira'' 2,
     currency_profile ''HRK'' ''Croatian kuna'' 2,
     currency_profile ''HTG'' ''Haitian gourde'' 2,
     currency_profile ''HUF'' ''Hungarian forint'' 2,
     currency_profile ''IDR'' ''Indonesian rupiah'' 2,
     currency_profile ''ILS'' ''Israeli new shekel'' 2,
     currency_profile ''IMP'' ''Isle of Man pound'' 4,
     currency_profile ''INR'' ''Indian rupee'' 2,
     currency_profile ''IQD'' ''Iraqi dinar'' 3,
     currency_profile ''IRR'' ''Iranian rial'' 2,
     currency_profile ''ISK'' ''Icelandic krona'' 0,
     currency_profile ''JEP'' ''Jersey pound'' 4,
     currency_profile ''JMD'' ''Jamaican dollar'' 2,
     currency_profile ''JOD'' ''Jordanian dinar'' 3,
     currency_profile ''JPY'' ''Japanese yen'' 0,
     currency_profile ''KES'' ''Kenyan shilling'' 2,
     currency_profile ''KGS'' ''Kyrgyz som'' 2,
     currency_profile ''KHR'' ''Cambodian riel'' 2,
     currency_profile ''KMF'' ''Comoros franc'' 0,
     currency_profile ''KPW'' ''North Korean won'' 2,
     currency_profile ''KRW'' ''South Korean won'' 0,
     currency_profile ''KWD'' ''Kuwaiti dinar'' 3,
     currency_profile ''KYD'' ''Cayman Islands dollar'' 2,
     currency_profile ''KZT'' ''Kazakh tenge'' 2,
     currency_profile ''LAK'' ''Lao kip'' 2,
     currency_profile ''LBP'' ''Lebanese pound'' 2,
     currency_profile ''LKR'' ''Sri Lanka rupee'' 2,
     currency_profile ''LRD'' ''Liberian dollar'' 2,
     currency_profile ''LSL'' ''Lesotho loti'' 2,
     currency_profile ''LYD'' ''Libyan dinar'' 3,
     currency_profile ''MAD'' ''Moroccan dirham'' 2,
     currency_profile ''MDL'' ''Moldovan leu'' 2,
     currency_profile ''MGA'' ''Malagasy ariary'' 2,
     currency_profile ''MKD'' ''Macedonian denar'' 2,
     currency_profile ''MMK'' ''Myanmar kyat'' 2,
     currency_profile ''MNT'' ''Mongolian tugrik'' 2,
     currency_profile ''MOP'' ''Macao SAR pataca'' 2,
     currency_profile ''MRO'' ''Mauritanian ouguiya'' 2,
     currency_profile ''MUR'' ''Mauritius rupee'' 2,
     currency_profile ''MVR'' ''Maldivian rufiyaa'' 2,
     currency_profile ''MWK'' ''Malawi kwacha'' 2,
     currency_profile ''MXN'' ''Mexican peso'' 2,
     currency_profile ''MYR'' ''Malaysian ringgit'' 2,
     currency_profile ''MZN'' ''Mozambique new metical'' 2,
     currency_profile ''NAD'' ''Namibian dollar'' 2,
     currency_profile ''NGN'' ''Nigerian naira'' 2,
     currency_profile ''NIO'' ''Nicaraguan cordoba oro'' 2,
     currency_profile ''NOK'' ''Norwegian krone'' 2,
     currency_profile ''NPR'' ''Nepalese rupee'' 2,
     currency_profile ''NZD'' ''New Zealand dollar'' 2,
     currency_profile ''OMR'' ''Omani rial'' 3,
     currency_profile ''PAB'' ''Panamanian balboa'' 2,
     currency_profile ''PEN'' ''Peruvian nuevo sol'' 2,
     currency_profile ''PGK'' ''Papua New Guinea kina'' 2,
     currency_profile ''PHP'' ''Philippine peso'' 2,
     currency_profile ''PKR'' ''Pakistani rupee'' 2,
     currency_profile ''PLN'' ''Polish zloty'' 2,
     currency_profile ''PYG'' ''Paraguayan guarani'' 0,
     currency_profile ''QAR'' ''Qatari rial'' 2,
     currency_profile ''RON'' ''Romanian new leu'' 2,
     currency_profile ''RSD'' ''Serbian dinar'' 2,
     currency_profile ''RUB'' ''Russian ruble'' 2,
     currency_profile ''RWF'' ''Rwandan franc'' 0,
     currency_profile ''SAR'' ''Saudi riyal'' 2,
     currency_profile ''SBD'' ''Solomon Islands dollar'' 2,
     currency_profile ''SCR'' ''Seychelles rupee'' 2,
     currency_profile ''SDG'' ''Sudanese pound'' 2,
     currency_profile ''SEK'' ''Swedish krona'' 2,
     currency_profile ''SGD'' ''Singapore dollar'' 2,
     currency_profile ''SHP'' ''Saint Helena pound'' 2,
     currency_profile ''SLL'' ''Sierra Leone leone'' 2,
     currency_profile ''SOS'' ''Somali shilling'' 2,
     currency_profile ''SPL'' ''Seborgan luigino'' 4,
     currency_profile ''SRD'' ''Suriname dollar'' 2,
     currency_profile ''STD'' ''Sao Tome and Principe dobra'' 2,
     currency_profile ''SVC'' ''El Salvador colon'' 2,
     currency_profile ''SYP'' ''Syrian pound'' 2,
     currency_profile ''SZL'' ''Swaziland lilangeni'' 2,
     currency_profile ''THB'' ''Thai baht'' 2,
     currency_profile ''TJS'' ''Tajik somoni'' 2,
     currency_profile ''TMT'' ''Turkmen new manat'' 2,
     currency_profile ''TND'' ''Tunisian dinar'' 3,
     currency_profile ''TOP'' (''Tongan pa'' @ [CHR 0x27] @ ''anga'') 2,
     currency_profile ''TRY'' ''Turkish lira'' 2,
     currency_profile ''TTD'' ''Trinidad and Tobago dollar'' 2,
     currency_profile ''TVD'' ''Tuvaluan dollar'' 4,
     currency_profile ''TWD'' ''Taiwan New dollar'' 2,
     currency_profile ''TZS'' ''Tanzanian shilling'' 2,
     currency_profile ''UAH'' ''Ukrainian hryvnia'' 2,
     currency_profile ''UGX'' ''Uganda new shilling'' 0,
     currency_profile ''USD'' ''US dollar'' 2,
     currency_profile ''UYU'' ''Uruguayan peso uruguayo'' 2,
     currency_profile ''UZS'' ''Uzbekistani sum'' 2,
     currency_profile ''VEF'' ''Venezuelan bolivar fuerte'' 2,
     currency_profile ''VND'' ''Vietnamese dong'' 0,
     currency_profile ''VUV'' ''Vanuatu vatu'' 0,
     currency_profile ''WST'' ''Samoan tala'' 2,
     currency_profile ''XAF'' ''CFA franc BEAC'' 0,
     currency_profile ''XCD'' ''East Caribbean dollar'' 2,
     currency_profile ''XDR'' ''IMF special drawing right'' 4,
     currency_profile ''XOF'' ''CFA franc BCEAO'' 0,
     currency_profile ''XPF'' ''CFP franc'' 0,
     currency_profile ''XTS'' ''Reserved for testing purposes'' 4,
     currency_profile ''XXX'' ''Assigned for transactions where no currency is involved'' 4,
     currency_profile ''YER'' ''Yemeni rial'' 2,
     currency_profile ''ZAR'' ''South African rand'' 2,
     currency_profile ''ZMW'' ''Zambian kwacha'' 2,
     currency_profile ''ZWD'' ''Zimbabwe dollar (initial)'' 4]"

definition get_currency :: "string \<Rightarrow> fspiop_currency_profile option" where
  "get_currency c = find (\<lambda>p. currency_code p = c) CURRENCIES"

section \<open>FspiopMoney\<close>

datatype rounding_mode = Up | Down | Ceiling | Floor | HalfUp | HalfDown | HalfEven | Unnecessary

definition UINT64_MAX :: int where
  "UINT64_MAX = 18446744073709551615"

record money =
  m_currency :: string
  m_amount :: string

text \<open>The groups of \<open>/^([+-])?(\d+)(?:\.(\d+))?$/\<close>.\<close>

definition match_decimal :: "string \<Rightarrow> (char option \<times> string \<times> string option) option" where
  "match_decimal s =
     (let (sign, rest) = (case s of
              [] \<Rightarrow> (None, [])
            | c # t \<Rightarrow> if c = CHR ''+'' \<or> c = CHR ''-'' then (Some c, t) else (None, s));
          digits = takeWhile is_digit rest
      in if digits = [] then None
         else (case dropWhile is_digit rest of
             [] \<Rightarrow> Some (sign, digits, None)
           | c # f \<Rightarrow>
               if c = CHR ''.'' \<and> f \<noteq> [] \<and> list_all is_digit f then Some (sign, digits, Some f)
               else None))"

definition integer_part_ok :: "string \<Rightarrow> bool" where
  "integer_part_ok i =
     (i = ''0'' \<or> (i \<noteq> [] \<and> list_all is_digit i \<and> hd i \<noteq> CHR ''0'' \<and> length i \<le> 18))"

definition fraction_part_ok :: "string \<Rightarrow> bool" where
  "fraction_part_ok f = (f \<noteq> [] \<and> list_all is_digit f \<and> length f \<le> 4 \<and> last f \<noteq> CHR ''0'')"

text \<open>\<open>AMOUNT_PATTERN\<close>: \<open>/^([0]|([1-9][0-9]{0,17}))([.][0-9]{0,3}[1-9])?$/\<close>.\<close>

definition matches_amount_pattern :: "string \<Rightarrow> bool" where
  "matches_amount_pattern s =
     (integer_part_ok (takeWhile (\<lambda>c. c \<noteq> CHR ''.'') s) \<and>
      (case dropWhile (\<lambda>c. c \<noteq> CHR ''.'') s of [] \<Rightarrow> True | _ # f \<Rightarrow> fraction_part_ok f))"

definition strip_zeros :: "string \<Rightarrow> string" where
  "strip_zeros f = rev (dropWhile (\<lambda>c. c = CHR ''0'') (rev f))"

definition sign_text :: "char option \<Rightarrow> string" where
  "sign_text sg = (case sg of None \<Rightarrow> [] | Some c \<Rightarrow> [c])"

definition normalizeAmount :: "string \<Rightarrow> string" where
  "normalizeAmount amount =
     (let trimmed = trim amount
      in case match_decimal trimmed of
           None \<Rightarrow> trimmed
         | Some (sign, integerPart, fraction) \<Rightarrow>
             (let f = strip_zeros (nullish fraction [])
              in if f = [] then sign_text sign @ integerPart
                 else sign_text sign @ integerPart @ ''.'' @ f))"

definition validateScale :: "int \<Rightarrow> (js_error, unit) result" where
  "validateScale scale = guard_res (scale < 0) (JsError ''Scale must be a non-negative integer.'')"

definition int_text :: "int \<Rightarrow> string" where
  "int_text n = (if n < 0 then ''-'' @ dec_of_nat (nat (- n)) else dec_of_nat (nat n))"

definition deserialize :: "int \<Rightarrow> int \<Rightarrow> (js_error, string) result" where
  "deserialize amount scale =
     res_bind (validateScale scale) (\<lambda>_.
     res_bind (guard_res (amount < 0) (JsError ''Amount must be greater than or equal to zero.'')) (\<lambda>_.
       let s = int_text amount; n = nat scale in
       if n = 0 then Inr s
       else if length s \<le> n then Inr (normalizeAmount (''0.'' @ padStart s n (CHR ''0'')))
       else Inr (normalizeAmount (take (length s - n) s @ ''.'' @ drop (length s - n) s))))"

record parsed_amount =
  pa_sign :: int
  pa_integerPart :: string
  pa_fractionPart :: string

definition parseDecimalAmount :: "string \<Rightarrow> (js_error, parsed_amount) result" where
  "parseDecimalAmount amount = (case match_decimal amount of
     None \<Rightarrow> Inl (JsError ''Amount must be a valid decimal number.'')
   | Some (sign, i, f) \<Rightarrow> Inr \<lparr>pa_sign = (if sign = Some (CHR ''-'') then - 1 else 1),
       pa_integerPart = i, pa_fractionPart = nullish f []\<rparr>)"

definition has_nonzero_digit :: "string \<Rightarrow> bool" where
  "has_nonzero_digit s = list_ex (\<lambda>c. is_digit c \<and> c \<noteq> CHR ''0'') s"

definition shouldRoundUp :: "int \<Rightarrow> string \<Rightarrow> string \<Rightarrow> rounding_mode \<Rightarrow> (js_error, bool) result" where
  "shouldRoundUp sign kept discarded mode =
     (if \<not> has_nonzero_digit discarded then Inr False
      else
        (let firstDiscardedDigit = digit_val (hd discarded);
             hasNonZeroTail = has_nonzero_digit (tl discarded);
             lastKeptDigit = (if kept = [] then 0 else digit_val (last kept))
         in case mode of
              Unnecessary \<Rightarrow> Inl (JsError ''Rounding is necessary for the submitted amount.'')
            | Up \<Rightarrow> Inr True
            | Down \<Rightarrow> Inr False
            | Ceiling \<Rightarrow> Inr (sign > 0)
            | Floor \<Rightarrow> Inr (sign < 0)
            | HalfUp \<Rightarrow> Inr (firstDiscardedDigit \<ge> 5)
            | HalfDown \<Rightarrow> Inr (firstDiscardedDigit > 5 \<or> (firstDiscardedDigit = 5 \<and> hasNonZeroTail))
            | HalfEven \<Rightarrow> Inr (firstDiscardedDigit > 5 \<or>
                (firstDiscardedDigit = 5 \<and> (hasNonZeroTail \<or> lastKeptDigit mod 2 \<noteq> 0)))))"

definition scaleAmount :: "parsed_amount \<Rightarrow> nat \<Rightarrow> rounding_mode \<Rightarrow> (js_error, int) result" where
  "scaleAmount a scale mode =
     (let base = 10 ^ scale;
          integerValue = nat_of_dec (pa_integerPart a) * base;
          normalizedFraction = padEnd (pa_fractionPart a) scale (CHR ''0'');
          keptFraction = take scale normalizedFraction;
          discardedFraction = drop scale (pa_fractionPart a);
          keptFractionValue = (if length keptFraction > 0 then nat_of_dec keptFraction else 0);
          scaled = integerValue + keptFractionValue
      in if length discardedFraction > 0
         then res_bind (shouldRoundUp (pa_sign a) keptFraction discardedFraction mode) (\<lambda>up.
                Inr (int (if up then scaled + 1 else scaled) * pa_sign a))
         else Inr (int scaled * pa_sign a))"

definition serialize :: "string \<Rightarrow> int \<Rightarrow> rounding_mode \<Rightarrow> (js_error, int) result" where
  "serialize amount scale mode =
     res_bind (validateScale scale) (\<lambda>_.
     res_bind (parseDecimalAmount (normalizeAmount (trim amount))) (\<lambda>parsed.
     res_bind (scaleAmount parsed (nat scale) mode) (\<lambda>scaled.
     res_bind (guard_res (scaled < 0) (JsError ''Amount must be greater than or equal to zero.'')) (\<lambda>_.
     res_bind (guard_res (scaled > UINT64_MAX) (JsError ''Amount is greater than uint64 max.'')) (\<lambda>_.
       Inr scaled)))))"

definition scaleOf :: "string \<Rightarrow> nat" where
  "scaleOf amount = (case indexOf amount (CHR ''.'') of None \<Rightarrow> 0 | Some i \<Rightarrow> length amount - i - 1)"

text \<open>\<open>validate\<close> rewrites \<open>money.amount\<close> in place: the result is the money object after the call.\<close>

definition validate_money :: "money option \<Rightarrow> (js_error, money option) result" where
  "validate_money m = (case m of
     None \<Rightarrow> Inr None
   | Some m0 \<Rightarrow>
       (let m1 = m0\<lparr>m_amount := normalizeAmount (m_amount m0)\<rparr>
        in case get_currency (m_currency m1) of
             None \<Rightarrow> Inl (JsError (''Currency profile not found for currency: '' @ m_currency m1))
           | Some p \<Rightarrow>
               if scaleOf (m_amount m1) > currency_scale p
               then Inl (throw_fspiop GENERIC_VALIDATION_ERROR
                      (''Currency scale does not match. '' @ m_currency m1 @ '' supports only ''
                        @ dec_of_nat (currency_scale p) @ '' decimal places.''))
               else Inr (Some m1)))"

section \<open>FspiopAmountConstraint and AmountDecimalValidator\<close>

fun amount_constraint_ok :: "js_value option \<Rightarrow> bool" where
  "amount_constraint_ok (Some (JString s)) =
     (let a = normalizeAmount s in length a > 0 \<and> matches_amount_pattern a)"
| "amount_constraint_ok (Some (JNumber s)) =
     (let a = normalizeAmount s in length a > 0 \<and> matches_amount_pattern a)"
| "amount_constraint_ok _ = False"

definition decimalPlaces :: "string \<Rightarrow> nat" where
  "decimalPlaces amount = (case indexOf amount (CHR ''.'') of None \<Rightarrow> 0 | Some i \<Rightarrow> length amount - i - 1)"

definition validate_decimals :: "nat \<Rightarrow> string option \<Rightarrow> (js_error, unit) result" where
  "validate_decimals allowed amountValue = (case amountValue of
     None \<Rightarrow> Inr ()
   | Some a \<Rightarrow>
       if trim a = [] then Inr ()
       else guard_res (decimalPlaces (normalizeAmount a) > allowed)
              (JsFspiop (new_FspiopException ROUNDING_VALUE_ERROR NoArg None)))"

section \<open>Reference: exact decimal arithmetic\<close>

text \<open>
  The amount with integer digits \<open>i\<close> and fraction digits \<open>f\<close> is \<open>N / 10^n\<close> with \<open>N\<close> the number
  written \<open>i f\<close> and \<open>n\<close> the length of \<open>f\<close>.  Rounding looks at the quotient and the remainder only.
\<close>

definition round_spec :: "rounding_mode \<Rightarrow> int \<Rightarrow> nat \<Rightarrow> nat \<Rightarrow> nat \<Rightarrow> (js_error, nat) result" where
  "round_spec mode sign q r b =
     (if r = 0 then Inr q
      else (case mode of
        Unnecessary \<Rightarrow> Inl (JsError ''Rounding is necessary for the submitted amount.'')
      | Up \<Rightarrow> Inr (q + 1)
      | Down \<Rightarrow> Inr q
      | Ceiling \<Rightarrow> Inr (if sign > 0 then q + 1 else q)
      | Floor \<Rightarrow> Inr (if sign < 0 then q + 1 else q)
      | HalfUp \<Rightarrow> Inr (if b \<le> 2 * r then q + 1 else q)
      | HalfDown \<Rightarrow> Inr (if b < 2 * r then q + 1 else q)
      | HalfEven \<Rightarrow> Inr (if b < 2 * r \<or> (b = 2 * r \<and> odd q) then q + 1 else q)))"

definition scale_spec :: "parsed_amount \<Rightarrow> nat \<Rightarrow> rounding_mode \<Rightarrow> (js_error, int) result" where
  "scale_spec a scale mode =
     (let N = nat_of_dec (pa_integerPart a @ pa_fractionPart a) * 10 ^ scale;
          b = 10 ^ length (pa_fractionPart a)
      in res_bind (round_spec mode (pa_sign a) (N div b) (N mod b) b) (\<lambda>q. Inr (int q * pa_sign a)))"

definition digits_ok :: "parsed_amount \<Rightarrow> bool" where
  "digits_ok a = (list_all is_digit (pa_integerPart a) \<and> list_all is_digit (pa_fractionPart a))"

section \<open>Lemmas\<close>

subsection \<open>The matcher\<close>

lemma match_decimal_Some:
  assumes "match_decimal s = Some (sg, i, f)"
  shows "s = sign_text sg @ i @ (case f of None \<Rightarrow> [] | Some g \<Rightarrow> CHR ''.'' # g)"
    and "i \<noteq> []" "list_all is_digit i"
    and "\<And>g. f = Some g \<Longrightarrow> g \<noteq> [] \<and> list_all is_digit g"
    and "\<And>c. sg = Some c \<Longrightarrow> c = CHR ''+'' \<or> c = CHR ''-''"
proof -
  have *: "s = sign_text sg @ i @ (case f of None \<Rightarrow> [] | Some g \<Rightarrow> CHR ''.'' # g) \<and> i \<noteq> [] \<and> list_all is_digit i
     \<and> (\<forall>g. f = Some g \<longrightarrow> g \<noteq> [] \<and> list_all is_digit g)
     \<and> (\<forall>c. sg = Some c \<longrightarrow> c = CHR ''+'' \<or> c = CHR ''-'')"
    (is "?P s")
  proof -
    define st where "st = (case s of [] \<Rightarrow> (None, [])
       | c # t \<Rightarrow> if c = CHR ''+'' \<or> c = CHR ''-'' then (Some c, t) else (None, s))"
    obtain g r where gr: "st = (g, r)" by (cases st)
    have s: "s = sign_text g @ r" and g: "\<forall>c. g = Some c \<longrightarrow> c = CHR ''+'' \<or> c = CHR ''-''"
      using gr unfolding st_def by (auto simp: sign_text_def split: list.splits if_splits)
    define ds where "ds = takeWhile is_digit r"
    define ws where "ws = dropWhile is_digit r"
    have r: "r = ds @ ws" by (simp add: ds_def ws_def)
    have d: "list_all is_digit ds"
      by (auto simp: ds_def list_all_iff dest: set_takeWhileD)
    have m: "match_decimal s = (if ds = [] then None else (case ws of [] \<Rightarrow> Some (g, ds, None)
       | c # f \<Rightarrow> if c = CHR ''.'' \<and> f \<noteq> [] \<and> list_all is_digit f then Some (g, ds, Some f) else None))"
      unfolding match_decimal_def st_def[symmetric] gr ds_def ws_def by (simp only: Let_def prod.case)
    show ?thesis
      using assms s g d unfolding m r by (auto split: if_splits list.splits)
  qed
  then show "s = sign_text sg @ i @ (case f of None \<Rightarrow> [] | Some g \<Rightarrow> CHR ''.'' # g)"
    and "i \<noteq> []" "list_all is_digit i"
    and "\<And>g. f = Some g \<Longrightarrow> g \<noteq> [] \<and> list_all is_digit g"
    and "\<And>c. sg = Some c \<Longrightarrow> c = CHR ''+'' \<or> c = CHR ''-''"
    by blast+
qed

lemma digit_not_special:
  assumes "is_digit c"
  shows "c \<noteq> CHR ''.''" "c \<noteq> CHR ''+''" "c \<noteq> CHR ''-''"
  using assms by (auto simp: is_digit_def code_unit_def)

lemma dot_not_digit [simp]: "\<not> is_digit (CHR ''.'')"
  using digit_not_special(1) by blast

definition decimal_text :: "char option \<Rightarrow> string \<Rightarrow> string option \<Rightarrow> string" where
  "decimal_text sg i f = sign_text sg @ i @ (case f of None \<Rightarrow> [] | Some g \<Rightarrow> CHR ''.'' # g)"

definition decimal_groups :: "char option \<Rightarrow> string \<Rightarrow> string option \<Rightarrow> bool" where
  "decimal_groups sg i f = ((\<forall>c. sg = Some c \<longrightarrow> c = CHR ''+'' \<or> c = CHR ''-'') \<and> i \<noteq> [] \<and>
     list_all is_digit i \<and> (\<forall>g. f = Some g \<longrightarrow> g \<noteq> [] \<and> list_all is_digit g))"

lemma match_decimal_sound:
  "match_decimal s = Some (sg, i, f) \<Longrightarrow> s = decimal_text sg i f \<and> decimal_groups sg i f"
  using match_decimal_Some[of s sg i f] by (auto simp: decimal_text_def decimal_groups_def)

lemma match_decimal_complete:
  assumes "decimal_groups sg i f"
  shows "match_decimal (decimal_text sg i f) = Some (sg, i, f)"
proof -
  let ?rest = "i @ (case f of None \<Rightarrow> [] | Some g \<Rightarrow> CHR ''.'' # g)"
  from assms obtain c i' where i: "i = c # i'" and c: "is_digit c"
    by (cases i) (auto simp: decimal_groups_def)
  have all: "\<forall>x\<in>set i. is_digit x" using assms by (auto simp: decimal_groups_def list_all_iff)
  have dot: "\<not> is_digit (CHR ''.'')" using digit_not_special by blast
  have tw: "takeWhile is_digit ?rest = i"
    using all dot by (cases f) (auto simp: takeWhile_append)
  have dw: "dropWhile is_digit ?rest = (case f of None \<Rightarrow> [] | Some g \<Rightarrow> CHR ''.'' # g)"
    using all dot by (cases f) (auto simp: dropWhile_append)
  have st: "(case decimal_text sg i f of [] \<Rightarrow> (None, [])
       | c # t \<Rightarrow> if c = CHR ''+'' \<or> c = CHR ''-'' then (Some c, t) else (None, decimal_text sg i f)) = (sg, ?rest)"
    using assms c digit_not_special[OF c]
    by (cases sg) (auto simp: decimal_text_def decimal_groups_def sign_text_def i)
  show ?thesis
    unfolding match_decimal_def st Let_def prod.case tw dw
    using assms by (cases f) (auto simp: decimal_groups_def)
qed

lemma decimal_text_no_space:
  assumes "decimal_groups sg i f"
  shows "\<forall>c\<in>set (decimal_text sg i f). \<not> is_space c"
proof -
  have "\<not> is_space (CHR ''.'')" "\<not> is_space (CHR ''+'')" "\<not> is_space (CHR ''-'')"
    by (simp_all add: is_space_def code_unit_def)
  with assms is_digit_not_space show ?thesis
    by (auto simp: decimal_text_def decimal_groups_def sign_text_def list_all_iff split: option.splits)
qed

subsection \<open>Trailing zeros\<close>

lemma strip_zeros_split: "\<exists>k. f = strip_zeros f @ replicate k (CHR ''0'')"
proof -
  let ?P = "\<lambda>c. c = CHR ''0''"
  have "f = rev (takeWhile ?P (rev f) @ dropWhile ?P (rev f))" by simp
  then have "f = strip_zeros f @ rev (takeWhile ?P (rev f))"
    unfolding strip_zeros_def by (simp only: rev_append)
  moreover have "takeWhile ?P (rev f) = replicate (length (takeWhile ?P (rev f))) (CHR ''0'')"
    by (induction "rev f" arbitrary: f) (auto simp: rev_swap[symmetric])
  ultimately show ?thesis by (metis rev_replicate)
qed

lemma strip_zeros_Nil [simp]: "strip_zeros [] = []"
  by (simp add: strip_zeros_def)

lemma strip_zeros_idem [simp]: "strip_zeros (strip_zeros f) = strip_zeros f"
  by (simp add: strip_zeros_def)

lemma strip_zeros_digits: "list_all is_digit f \<Longrightarrow> list_all is_digit (strip_zeros f)"
  by (auto simp: strip_zeros_def list_all_iff dest: set_dropWhileD)

lemma strip_zeros_length: "length (strip_zeros f) \<le> length f"
  by (metis le_add1 length_append strip_zeros_split)

lemma strip_zeros_last: "strip_zeros f \<noteq> [] \<Longrightarrow> last (strip_zeros f) \<noteq> CHR ''0''"
  using hd_dropWhile[of "\<lambda>c. c = CHR ''0''" "rev f"] by (simp add: strip_zeros_def last_rev del: dropWhile_eq_Nil_conv)

lemma padEnd_strip_zeros: "length f \<le> n \<Longrightarrow> padEnd (strip_zeros f) n (CHR ''0'') = padEnd f n (CHR ''0'')"
proof -
  assume n: "length f \<le> n"
  obtain k where k: "f = strip_zeros f @ replicate k (CHR ''0'')" using strip_zeros_split by blast
  then have l: "length f = length (strip_zeros f) + k" by (metis length_append length_replicate)
  then have "replicate (n - length (strip_zeros f)) (CHR ''0'') =
      replicate k (CHR ''0'') @ replicate (n - length f) (CHR ''0'')"
    using n by (simp add: replicate_add[symmetric])
  then show ?thesis unfolding padEnd_def by (metis append_assoc k)
qed

definition fraction_group :: "string \<Rightarrow> string option" where
  "fraction_group f = (if f = [] then None else Some f)"

lemma nullish_fraction_group [simp]: "nullish (fraction_group f) [] = f"
  by (simp add: fraction_group_def)

lemma normalizeAmount_match:
  assumes "match_decimal (trim s) = Some (sg, i, f)"
  shows "normalizeAmount s = decimal_text sg i (fraction_group (strip_zeros (nullish f [])))"
  using assms by (simp add: normalizeAmount_def decimal_text_def fraction_group_def Let_def)

lemma decimal_groups_strip:
  "decimal_groups sg i f \<Longrightarrow> decimal_groups sg i (fraction_group (strip_zeros (nullish f [])))"
  by (cases f) (auto simp: decimal_groups_def fraction_group_def strip_zeros_digits)

lemma match_normalizeAmount:
  assumes "match_decimal (trim s) = Some (sg, i, f)"
  shows "match_decimal (normalizeAmount s) = Some (sg, i, fraction_group (strip_zeros (nullish f [])))"
    and "trim (normalizeAmount s) = normalizeAmount s"
proof -
  have g: "decimal_groups sg i (fraction_group (strip_zeros (nullish f [])))"
    using match_decimal_sound[OF assms] by (simp add: decimal_groups_strip)
  show "match_decimal (normalizeAmount s) = Some (sg, i, fraction_group (strip_zeros (nullish f [])))"
    unfolding normalizeAmount_match[OF assms] by (rule match_decimal_complete[OF g])
  show "trim (normalizeAmount s) = normalizeAmount s"
    unfolding normalizeAmount_match[OF assms] by (rule trim_id[OF decimal_text_no_space[OF g]])
qed

lemma normalizeAmount_idem [simp]: "normalizeAmount (normalizeAmount s) = normalizeAmount s"
proof (cases "match_decimal (trim s)")
  case None
  then show ?thesis by (simp add: normalizeAmount_def)
next
  case (Some m)
  obtain sg i f where m: "m = (sg, i, f)" by (cases m)
  note * = match_normalizeAmount[OF Some[unfolded m]]
  show ?thesis
    using normalizeAmount_match[of "normalizeAmount s"] * normalizeAmount_match[OF Some[unfolded m]] by simp
qed

lemma normalizeAmount_trim [simp]: "normalizeAmount (trim s) = normalizeAmount s"
  by (simp add: normalizeAmount_def)

lemma normalizeAmount_text:
  assumes "decimal_groups sg i f"
  shows "normalizeAmount (decimal_text sg i f) = decimal_text sg i (fraction_group (strip_zeros (nullish f [])))"
  using normalizeAmount_match[of "decimal_text sg i f"] match_decimal_complete[OF assms]
    trim_id[OF decimal_text_no_space[OF assms]] by simp

subsection \<open>Rounding\<close>

lemma has_nonzero_digit_iff:
  "list_all is_digit s \<Longrightarrow> has_nonzero_digit s \<longleftrightarrow> nat_of_dec s \<noteq> 0"
  by (auto simp: has_nonzero_digit_def list_ex_iff list_all_iff nat_of_dec_eq_0_iff)

lemma half_compare:
  fixes d t :: nat
  assumes "t < p" "d < 10"
  shows "10 * p \<le> 2 * (d * p + t) \<longleftrightarrow> 5 \<le> d"
    and "10 * p < 2 * (d * p + t) \<longleftrightarrow> 5 < d \<or> (d = 5 \<and> t \<noteq> 0)"
    and "10 * p = 2 * (d * p + t) \<longleftrightarrow> d = 5 \<and> t = 0"
proof -
  have lo: "x \<le> 4 * p \<Longrightarrow> 2 * (x + t) < 10 * p" and hi: "6 * p \<le> x \<Longrightarrow> 10 * p < 2 * (x + t)" for x
    using assms(1) by arith+
  consider "d \<le> 4" | "d = 5" | "6 \<le> d" by linarith
  then have "(10 * p \<le> 2 * (d * p + t) \<longleftrightarrow> 5 \<le> d) \<and>
     (10 * p < 2 * (d * p + t) \<longleftrightarrow> 5 < d \<or> (d = 5 \<and> t \<noteq> 0)) \<and>
     (10 * p = 2 * (d * p + t) \<longleftrightarrow> d = 5 \<and> t = 0)"
  proof cases
    case 1
    with lo[of "d * p"] show ?thesis by auto
  next
    case 2
    with assms show ?thesis by auto
  next
    case 3
    with hi[of "d * p"] show ?thesis by auto
  qed
  then show "10 * p \<le> 2 * (d * p + t) \<longleftrightarrow> 5 \<le> d"
    and "10 * p < 2 * (d * p + t) \<longleftrightarrow> 5 < d \<or> (d = 5 \<and> t \<noteq> 0)"
    and "10 * p = 2 * (d * p + t) \<longleftrightarrow> d = 5 \<and> t = 0"
    by blast+
qed

lemma round_spec_scale:
  "0 < c \<Longrightarrow> round_spec mode sign q (r * c) (b * c) = round_spec mode sign q r b"
  by (auto simp: round_spec_def mult.assoc[symmetric] split: rounding_mode.splits)

lemma shouldRoundUp_spec:
  assumes "list_all is_digit ds" "ds \<noteq> []" "mode = HalfEven \<Longrightarrow> kept \<noteq> []"
    and "kept \<noteq> [] \<Longrightarrow> digit_val (last kept) mod 2 = q mod 2"
  shows "res_bind (shouldRoundUp sign kept ds mode) (\<lambda>up. Inr (if up then q + 1 else q)) =
     round_spec mode sign q (nat_of_dec ds) (10 ^ length ds)"
proof -
  obtain c t where ds: "ds = c # t" using assms by (cases ds) auto
  then have c: "digit_val c < 10" and t: "list_all is_digit t"
    using assms(1) digit_val_less_10 by auto
  have lt: "nat_of_dec t < 10 ^ length t" using t by (auto simp: list_all_iff intro: nat_of_dec_less)
  note half = half_compare[OF lt c]
  have nz: "has_nonzero_digit ds \<longleftrightarrow> nat_of_dec ds \<noteq> 0" "has_nonzero_digit t \<longleftrightarrow> nat_of_dec t \<noteq> 0"
    using assms(1) t has_nonzero_digit_iff by blast+
  have v: "nat_of_dec ds = digit_val c * 10 ^ length t + nat_of_dec t" "(10::nat) ^ length ds = 10 * 10 ^ length t"
    by (simp_all add: ds nat_of_dec_Cons)
  show ?thesis
    using assms(3,4) half unfolding round_spec_def shouldRoundUp_def nz(1) v
    by (cases mode) (auto simp: Let_def ds nz(2) odd_iff_mod_2_eq_one)
qed

lemma nat_of_dec_padEnd:
  "nat_of_dec (padEnd f n (CHR ''0'')) = nat_of_dec f * 10 ^ (n - length f)"
  by (simp add: padEnd_def nat_of_dec_append)

lemma nat_of_dec_last_parity:
  assumes "s \<noteq> []"
  shows "digit_val (last s) mod 2 = nat_of_dec s mod 2"
proof -
  have "nat_of_dec s = nat_of_dec (butlast s) * 10 + digit_val (last s)"
    using nat_of_dec_append[of "butlast s" "[last s]"] assms by simp
  then show ?thesis by presburger
qed

lemma scaleAmount_short:
  assumes "length (pa_fractionPart a) \<le> scale"
  shows "scaleAmount a scale mode =
     Inr (int (nat_of_dec (pa_integerPart a @ pa_fractionPart a) * 10 ^ (scale - length (pa_fractionPart a))) * pa_sign a)"
proof -
  let ?f = "pa_fractionPart a"
  have l: "length (padEnd ?f scale (CHR ''0'')) = scale" using assms by (simp add: padEnd_def)
  have e: "(10::nat) ^ scale = 10 ^ length ?f * 10 ^ (scale - length ?f)"
    using assms by (simp add: power_add[symmetric])
  have "nat_of_dec (pa_integerPart a) * 10 ^ scale + nat_of_dec (padEnd ?f scale (CHR ''0'')) =
     nat_of_dec (pa_integerPart a @ ?f) * 10 ^ (scale - length ?f)"
    by (simp add: nat_of_dec_padEnd nat_of_dec_append e algebra_simps)
  moreover have "scale = 0 \<Longrightarrow> padEnd ?f scale (CHR ''0'') = []" using l by simp
  ultimately have "nat_of_dec (pa_integerPart a) * 10 ^ scale +
      (if length (take scale (padEnd ?f scale (CHR ''0''))) > 0
       then nat_of_dec (take scale (padEnd ?f scale (CHR ''0''))) else 0) =
     nat_of_dec (pa_integerPart a @ ?f) * 10 ^ (scale - length ?f)"
    using l by auto
  then show ?thesis using assms unfolding scaleAmount_def Let_def by simp
qed

lemma scale_spec_short:
  assumes "length (pa_fractionPart a) \<le> scale"
  shows "scale_spec a scale mode =
     Inr (int (nat_of_dec (pa_integerPart a @ pa_fractionPart a) * 10 ^ (scale - length (pa_fractionPart a))) * pa_sign a)"
proof -
  have e: "(10::nat) ^ scale = 10 ^ (scale - length (pa_fractionPart a)) * 10 ^ length (pa_fractionPart a)"
    using assms by (simp add: power_add[symmetric])
  show ?thesis by (simp add: scale_spec_def round_spec_def e mult.assoc[symmetric] Let_def)
qed

lemma scaleAmount_correct:
  assumes "digits_ok a" and "mode = HalfEven \<longrightarrow> 0 < scale"
  shows "scaleAmount a scale mode = scale_spec a scale mode"
proof (cases "length (pa_fractionPart a) \<le> scale")
  case True
  then show ?thesis by (simp add: scaleAmount_short scale_spec_short)
next
  case False
  let ?i = "pa_integerPart a" and ?f = "pa_fractionPart a"
  define ks where "ks = take scale ?f"
  define ds where "ds = drop scale ?f"
  have kd: "?f = ks @ ds" "length ks = scale" "ds \<noteq> []" using False by (auto simp: ks_def ds_def)
  have dg: "list_all is_digit ds" using assms(1) by (auto simp: digits_ok_def kd(1))
  then have lt: "nat_of_dec ds < 10 ^ length ds" by (auto simp: list_all_iff intro: nat_of_dec_less)
  define q where "q = nat_of_dec (?i @ ks)"
  have N: "nat_of_dec (?i @ ?f) = q * 10 ^ length ds + nat_of_dec ds"
    by (simp add: q_def kd(1) nat_of_dec_append power_add algebra_simps)
  have b: "(10::nat) ^ length ?f = 10 ^ length ds * 10 ^ scale"
    by (simp add: kd(1,2) power_add)
  have dm: "nat_of_dec (?i @ ?f) * 10 ^ scale div 10 ^ length ?f = q"
    "nat_of_dec (?i @ ?f) * 10 ^ scale mod 10 ^ length ?f = nat_of_dec ds * 10 ^ scale"
    unfolding b N using lt by (simp_all only: div_mult_mult2 mod_mult_mult2 power_not_zero) simp_all
  have par: "ks \<noteq> [] \<Longrightarrow> digit_val (last ks) mod 2 = q mod 2"
    using nat_of_dec_last_parity[of ks] nat_of_dec_last_parity[of "?i @ ks"] by (simp add: q_def)
  have up: "res_bind (shouldRoundUp (pa_sign a) ks ds mode) (\<lambda>up. Inr (if up then q + 1 else q)) =
     round_spec mode (pa_sign a) q (nat_of_dec ds) (10 ^ length ds)"
    using dg kd par assms(2) by (intro shouldRoundUp_spec) auto
  have val: "nat_of_dec ?i * 10 ^ scale + (if length ks > 0 then nat_of_dec ks else 0) = q"
    using kd(2) by (cases ks) (auto simp: q_def nat_of_dec_append)
  have tk: "take scale (padEnd ?f scale (CHR ''0'')) = ks"
    using False by (simp add: padEnd_def ks_def)
  have "scaleAmount a scale mode =
     res_bind (shouldRoundUp (pa_sign a) ks ds mode) (\<lambda>up. Inr (int (if up then q + 1 else q) * pa_sign a))"
    using kd(3) unfolding scaleAmount_def Let_def tk ds_def[symmetric] val by simp
  also have "\<dots> = res_bind (res_bind (shouldRoundUp (pa_sign a) ks ds mode) (\<lambda>up. Inr (if up then q + 1 else q)))
      (\<lambda>q. Inr (int q * pa_sign a))"
    by (simp add: res_bind_def split: sum.splits)
  also have "\<dots> = scale_spec a scale mode"
    unfolding scale_spec_def Let_def dm up unfolding b
    by (simp only: round_spec_scale zero_less_power zero_less_numeral)
  finally show ?thesis .
qed

subsection \<open>Serialising\<close>

lemma scale_spec_zeros:
  "scale_spec \<lparr>pa_sign = s, pa_integerPart = i, pa_fractionPart = f @ replicate k (CHR ''0'')\<rparr> scale mode =
   scale_spec \<lparr>pa_sign = s, pa_integerPart = i, pa_fractionPart = f\<rparr> scale mode"
proof -
  have n: "nat_of_dec (i @ f @ replicate k (CHR ''0'')) = nat_of_dec (i @ f) * 10 ^ k"
    using nat_of_dec_append[of "i @ f" "replicate k (CHR ''0'')"] by simp
  have b: "(10::nat) ^ length (f @ replicate k (CHR ''0'')) = 10 ^ length f * 10 ^ k"
    by (simp add: power_add)
  have c: "nat_of_dec (i @ f) * 10 ^ k * 10 ^ scale = nat_of_dec (i @ f) * 10 ^ scale * (10::nat) ^ k"
    by simp
  have dm: "(x * 10 ^ k) div (y * 10 ^ k) = x div y" "(x * 10 ^ k) mod (y * 10 ^ k) = x mod y * 10 ^ k" for x y :: nat
    by (simp_all add: mult_mod_left)
  have z: "0 < (10::nat) ^ k" by simp
  show ?thesis
    unfolding scale_spec_def Let_def parsed_amount.simps n b c dm round_spec_scale[OF z] ..
qed

lemma scale_spec_strip_zeros:
  "scale_spec \<lparr>pa_sign = s, pa_integerPart = i, pa_fractionPart = strip_zeros f\<rparr> scale mode =
   scale_spec \<lparr>pa_sign = s, pa_integerPart = i, pa_fractionPart = f\<rparr> scale mode"
  using strip_zeros_split[of f] scale_spec_zeros by metis

definition sign_value :: "char option \<Rightarrow> int" where
  "sign_value sg = (if sg = Some (CHR ''-'') then - 1 else 1)"

definition check_uint64 :: "int \<Rightarrow> (js_error, int) result" where
  "check_uint64 v =
     (if v < 0 then Inl (JsError ''Amount must be greater than or equal to zero.'')
      else if v > UINT64_MAX then Inl (JsError ''Amount is greater than uint64 max.'')
      else Inr v)"

lemma serialize_eq:
  assumes "0 \<le> scale" "match_decimal (trim amount) = Some (sg, i, f)"
  shows "serialize amount scale mode =
     res_bind (scaleAmount \<lparr>pa_sign = sign_value sg, pa_integerPart = i,
       pa_fractionPart = strip_zeros (nullish f [])\<rparr> (nat scale) mode) check_uint64"
proof -
  have m: "match_decimal (normalizeAmount (trim amount)) = Some (sg, i, fraction_group (strip_zeros (nullish f [])))"
    using match_normalizeAmount(1)[of amount] assms(2) by simp
  show ?thesis
    using assms(1) m
    by (cases "scaleAmount \<lparr>pa_sign = sign_value sg, pa_integerPart = i,
       pa_fractionPart = strip_zeros (nullish f [])\<rparr> (nat scale) mode")
      (auto simp: serialize_def validateScale_def parseDecimalAmount_def sign_value_def check_uint64_def guard_res_def)
qed

lemma match_digits_ok:
  "match_decimal s = Some (sg, i, f) \<Longrightarrow>
   digits_ok \<lparr>pa_sign = x, pa_integerPart = i, pa_fractionPart = strip_zeros (nullish f [])\<rparr>"
  using match_decimal_sound[of s sg i f]
  by (cases f) (auto simp: digits_ok_def decimal_groups_def strip_zeros_digits)

lemma serialize_scale_spec:
  assumes "0 \<le> scale" "match_decimal (trim amount) = Some (sg, i, f)" "mode = HalfEven \<longrightarrow> 0 < scale"
  shows "serialize amount scale mode =
     res_bind (scale_spec \<lparr>pa_sign = sign_value sg, pa_integerPart = i, pa_fractionPart = nullish f []\<rparr>
       (nat scale) mode) check_uint64"
  using assms scaleAmount_correct[OF match_digits_ok[OF assms(2)], of mode "nat scale"]
  by (simp add: serialize_eq scale_spec_strip_zeros)

lemma serialize_no_match:
  "match_decimal (trim amount) = None \<Longrightarrow> 0 \<le> scale \<Longrightarrow>
   serialize amount scale mode = Inl (JsError ''Amount must be a valid decimal number.'')"
  by (simp add: serialize_def validateScale_def parseDecimalAmount_def normalizeAmount_def)

lemma serialize_exact:
  assumes "0 \<le> scale" "match_decimal (trim amount) = Some (sg, i, f)"
    and "length (strip_zeros (nullish f [])) \<le> nat scale"
  shows "serialize amount scale mode = check_uint64
     (int (nat_of_dec (i @ strip_zeros (nullish f [])) * 10 ^ (nat scale - length (strip_zeros (nullish f [])))) * sign_value sg)"
  using assms by (simp add: serialize_eq scaleAmount_short)

subsection \<open>Deserialising\<close>

definition split_minor :: "nat \<Rightarrow> nat \<Rightarrow> string \<times> string" where
  "split_minor a n = (let s = dec_of_nat a in
     if length s \<le> n then (''0'', padStart s n (CHR ''0'')) else (take (length s - n) s, drop (length s - n) s))"

lemma split_minor_facts:
  assumes "split_minor a n = (i, f)"
  shows "i \<noteq> []" "list_all is_digit i" "list_all is_digit f" "length f = n" "nat_of_dec (i @ f) = a"
proof -
  have d: "list_all is_digit (dec_of_nat a)" using dec_of_nat_digits by (simp add: list_all_iff)
  have "i \<noteq> [] \<and> list_all is_digit i \<and> list_all is_digit f \<and> length f = n \<and> nat_of_dec (i @ f) = a"
  proof (cases "length (dec_of_nat a) \<le> n")
    case True
    then have i: "i = ''0''" and f: "f = padStart (dec_of_nat a) n (CHR ''0'')"
      using assms by (simp_all add: split_minor_def Let_def)
    have "nat_of_dec (i @ f) = a"
      unfolding i f padStart_def by (simp add: nat_of_dec_append nat_of_dec_Cons)
    then show ?thesis using True d i f by (auto simp: padStart_def list_all_iff)
  next
    case False
    then show ?thesis using assms d
      by (auto simp: split_minor_def Let_def list_all_iff dest: in_set_takeD in_set_dropD)
  qed
  then show "i \<noteq> []" "list_all is_digit i" "list_all is_digit f" "length f = n" "nat_of_dec (i @ f) = a"
    by blast+
qed

lemma deserialize_eq:
  assumes "0 \<le> a" "0 \<le> scale" "split_minor (nat a) (nat scale) = (i, f)"
  shows "deserialize a scale = Inr (decimal_text None i (fraction_group (strip_zeros f)))"
proof -
  note facts = split_minor_facts[OF assms(3)]
  show ?thesis
  proof (cases "nat scale = 0")
    case True
    then show ?thesis using assms facts
      by (auto simp: deserialize_def validateScale_def int_text_def split_minor_def decimal_text_def
          sign_text_def fraction_group_def Let_def)
  next
    case False
    then have g: "decimal_groups None i (Some f)" using facts by (auto simp: decimal_groups_def)
    have "deserialize a scale = Inr (normalizeAmount (decimal_text None i (Some f)))"
      using False assms
      by (auto simp: deserialize_def validateScale_def int_text_def split_minor_def decimal_text_def
          sign_text_def Let_def split: if_splits)
    then show ?thesis using normalizeAmount_text[OF g] by simp
  qed
qed

lemma serialize_deserialize:
  assumes "0 \<le> a" "a \<le> UINT64_MAX" "0 \<le> scale" "deserialize a scale = Inr t"
  shows "serialize t scale mode = Inr a"
proof -
  obtain i f where s: "split_minor (nat a) (nat scale) = (i, f)" by (cases "split_minor (nat a) (nat scale)")
  note facts = split_minor_facts[OF s]
  let ?f = "strip_zeros f"
  have t: "t = decimal_text None i (fraction_group ?f)"
    using deserialize_eq[OF assms(1,3) s] assms(4) by simp
  have g: "decimal_groups None i (fraction_group ?f)"
    using facts by (auto simp: decimal_groups_def fraction_group_def strip_zeros_digits)
  have m: "match_decimal (trim t) = Some (None, i, fraction_group ?f)"
    unfolding t trim_id[OF decimal_text_no_space[OF g]] by (rule match_decimal_complete[OF g])
  have l: "length ?f \<le> nat scale" using strip_zeros_length[of f] facts(4) by simp
  have "nat_of_dec (i @ ?f) * 10 ^ (nat scale - length ?f) = nat_of_dec (i @ padEnd ?f (nat scale) (CHR ''0''))"
    using l by (simp add: padEnd_def nat_of_dec_append power_add[symmetric] algebra_simps)
  also have "padEnd ?f (nat scale) (CHR ''0'') = f"
    using padEnd_strip_zeros[of f "nat scale"] facts(4) by (simp add: padEnd_def)
  finally have v: "nat_of_dec (i @ ?f) * 10 ^ (nat scale - length ?f) = nat a" using facts(5) by simp
  have "serialize t scale mode = check_uint64 (int (nat a))"
    using serialize_exact[OF assms(3) m, of mode] l v by (simp add: sign_value_def)
  then show ?thesis using assms by (simp add: check_uint64_def)
qed

subsection \<open>Canonical text, validation\<close>

lemma dec_of_nat_length: "a < 10 ^ k \<Longrightarrow> 0 < k \<Longrightarrow> length (dec_of_nat a) \<le> k"
proof (induction k arbitrary: a)
  case (Suc k)
  show ?case
  proof (cases "a < 10")
    case True
    then show ?thesis by (subst dec_of_nat.simps) simp
  next
    case False
    then have "0 < k" using Suc.prems by (cases k) auto
    moreover have "a div 10 < 10 ^ k" using Suc.prems by (simp add: less_mult_imp_div_less mult.commute)
    ultimately have "length (dec_of_nat (a div 10)) \<le> k" using Suc.IH by blast
    then show ?thesis using False by (subst dec_of_nat.simps) simp
  qed
qed simp

lemma dec_of_nat_hd: "dec_of_nat a \<noteq> ''0'' \<Longrightarrow> hd (dec_of_nat a) \<noteq> CHR ''0''"
proof (induction a rule: dec_of_nat.induct)
  case (1 a)
  show ?case
  proof (cases "a < 10")
    case True
    then have "a \<noteq> 0" using 1(2) digit_char_digit_val[of "CHR ''0''"] by (cases a) (auto simp: dec_of_nat.simps)
    moreover have "hd (dec_of_nat a) = digit_char a" using True by (simp add: dec_of_nat.simps)
    ultimately show ?thesis using True by (metis digit_val_digit_char digit_val_zero)
  next
    case False
    then have "a div 10 \<noteq> 0" by simp
    then have "dec_of_nat (a div 10) \<noteq> ''0''" by (metis digit_val_zero nat_of_dec_of_nat nat_of_dec_single)
    then show ?thesis using 1(1)[OF False] False by (subst dec_of_nat.simps) simp
  qed
qed

lemma decimal_text_dot:
  assumes "decimal_groups None i f"
  shows "takeWhile (\<lambda>c. c \<noteq> CHR ''.'') (decimal_text None i f) = i"
    and "dropWhile (\<lambda>c. c \<noteq> CHR ''.'') (decimal_text None i f) = (case f of None \<Rightarrow> [] | Some g \<Rightarrow> CHR ''.'' # g)"
proof -
  have "\<forall>c\<in>set i. c \<noteq> CHR ''.''"
    using assms digit_not_special by (auto simp: decimal_groups_def list_all_iff)
  then show "takeWhile (\<lambda>c. c \<noteq> CHR ''.'') (decimal_text None i f) = i"
    and "dropWhile (\<lambda>c. c \<noteq> CHR ''.'') (decimal_text None i f) = (case f of None \<Rightarrow> [] | Some g \<Rightarrow> CHR ''.'' # g)"
    by (cases f; force simp: decimal_text_def sign_text_def takeWhile_append dropWhile_append)+
qed

lemma scaleOf_text:
  assumes "decimal_groups sg i f"
  shows "scaleOf (decimal_text sg i f) = length (nullish f [])"
proof -
  let ?p = "sign_text sg @ i"
  have nd: "CHR ''.'' \<notin> set ?p"
    using assms dot_not_digit by (auto simp: decimal_groups_def list_all_iff sign_text_def split: option.splits)
  show ?thesis
  proof (cases f)
    case None
    then have "decimal_text sg i f = ?p" by (simp add: decimal_text_def)
    then show ?thesis using nd None by (simp add: scaleOf_def indexOf_def)
  next
    case (Some g)
    then have t: "decimal_text sg i f = ?p @ CHR ''.'' # g" by (simp add: decimal_text_def)
    have "takeWhile (\<lambda>x. x \<noteq> CHR ''.'') (?p @ CHR ''.'' # g) = ?p"
      using nd by (subst takeWhile_append2) auto
    then have "indexOf (decimal_text sg i f) (CHR ''.'') = Some (length ?p)"
      unfolding t indexOf_def by (simp del: append_assoc)
    then show ?thesis using Some t by (simp add: scaleOf_def)
  qed
qed

lemma decimalPlaces_scaleOf: "decimalPlaces = scaleOf"
  by (simp add: fun_eq_iff decimalPlaces_def scaleOf_def)

lemma scaleOf_normalizeAmount:
  assumes "match_decimal (trim s) = Some (sg, i, f)"
  shows "scaleOf (normalizeAmount s) = length (strip_zeros (nullish f []))"
  using scaleOf_text[OF decimal_groups_strip] match_decimal_sound[OF assms] normalizeAmount_match[OF assms] by simp

lemma deserialize_canonical:
  assumes "0 \<le> a" "a < 10 ^ (18 + nat scale)" "0 \<le> scale" "scale \<le> 4" "deserialize a scale = Inr t"
  shows "matches_amount_pattern t"
proof -
  obtain i f where s: "split_minor (nat a) (nat scale) = (i, f)" by (cases "split_minor (nat a) (nat scale)")
  note facts = split_minor_facts[OF s]
  let ?f = "strip_zeros f"
  have t: "t = decimal_text None i (fraction_group ?f)"
    using deserialize_eq[OF assms(1,3) s] assms(5) by simp
  have g: "decimal_groups None i (fraction_group ?f)"
    using facts by (auto simp: decimal_groups_def fraction_group_def strip_zeros_digits)
  have "nat a < 10 ^ (18 + nat scale)"
    using assms(1,2) by (metis int_nat_eq of_nat_less_iff of_nat_numeral of_nat_power)
  then have len: "length (dec_of_nat (nat a)) \<le> 18 + nat scale" by (rule dec_of_nat_length) simp
  have "integer_part_ok i"
  proof (cases "length (dec_of_nat (nat a)) \<le> nat scale")
    case True
    then show ?thesis using s by (simp add: split_minor_def integer_part_ok_def Let_def)
  next
    case False
    then have i: "i = take (length (dec_of_nat (nat a)) - nat scale) (dec_of_nat (nat a))"
      using s by (simp add: split_minor_def Let_def)
    then have l: "length i \<le> 18" using len by simp
    have "i = ''0'' \<or> hd i \<noteq> CHR ''0''"
      using dec_of_nat_hd[of "nat a"] i False by (cases "dec_of_nat (nat a) = ''0''") (auto simp: hd_take)
    then show ?thesis using l facts by (auto simp: integer_part_ok_def)
  qed
  moreover have "?f \<noteq> [] \<Longrightarrow> fraction_part_ok ?f"
    using facts assms(4) strip_zeros_length[of f] strip_zeros_last[of f]
    by (auto simp: fraction_part_ok_def strip_zeros_digits)
  ultimately show ?thesis
    unfolding matches_amount_pattern_def t decimal_text_dot[OF g]
    by (auto simp: fraction_group_def split: option.splits)
qed

lemma get_currency_code: "get_currency c = Some p \<Longrightarrow> p \<in> set CURRENCIES \<and> currency_code p = c"
  by (auto simp: get_currency_def find_Some_iff)

lemma CURRENCIES_scales: "list_all (\<lambda>p. currency_scale p \<le> 4) CURRENCIES"
  by code_simp

lemma get_currency_scale: "get_currency c = Some p \<Longrightarrow> currency_scale p \<le> 4"
  using CURRENCIES_scales get_currency_code[of c p] by (auto simp: list_all_iff)

lemma validate_money_Inr:
  assumes "validate_money (Some m) = Inr r"
  obtains p where "get_currency (m_currency m) = Some p"
    "scaleOf (normalizeAmount (m_amount m)) \<le> currency_scale p"
    "r = Some (m\<lparr>m_amount := normalizeAmount (m_amount m)\<rparr>)"
  using assms by (auto simp: validate_money_def Let_def split: option.splits if_splits)

lemma serialize_normalizeAmount: "0 \<le> scale \<Longrightarrow> serialize (normalizeAmount s) scale mode = serialize s scale mode"
  by (simp add: serialize_def validateScale_def)

lemma match_normalizeAmount_None:
  "match_decimal (trim s) = None \<Longrightarrow> match_decimal (trim (normalizeAmount s)) = None"
  by (simp add: normalizeAmount_def)

lemma serialize_mode_irrelevant:
  assumes "scaleOf (normalizeAmount s) \<le> n"
  shows "serialize s (int n) mode = serialize s (int n) mode'"
proof (cases "match_decimal (trim s)")
  case None
  then show ?thesis by (simp add: serialize_no_match)
next
  case (Some g)
  obtain sg i f where g: "g = (sg, i, f)" by (cases g)
  have "length (strip_zeros (nullish f [])) \<le> nat (int n)"
    using scaleOf_normalizeAmount[OF Some[unfolded g]] assms by simp
  then show ?thesis using serialize_exact[OF _ Some[unfolded g], of "int n"] by simp
qed

lemma shouldRoundUp_halfEven_Nil:
  "shouldRoundUp sign [] ds HalfEven = shouldRoundUp sign [] ds HalfDown"
  by (simp add: shouldRoundUp_def Let_def)

section \<open>Properties\<close>



text \<open>
  Writing a stored amount as decimal text with \<open>FspiopMoney.deserialize\<close> never fails and reading it
  back with \<open>FspiopMoney.serialize\<close> at the same scale gives the stored amount again, in every
  rounding mode, for all amounts of the unsigned 64-bit range and every scale.
\<close>

theorem money_round_trip:
  assumes "0 \<le> a" "a \<le> UINT64_MAX" "0 \<le> scale"
  shows "\<exists>t. deserialize a scale = Inr t \<and> serialize t scale mode = Inr a"
proof -
  obtain i f where s: "split_minor (nat a) (nat scale) = (i, f)" by (cases "split_minor (nat a) (nat scale)")
  show ?thesis
    using deserialize_eq[OF assms(1,3) s] serialize_deserialize[OF assms] by blast
qed

theorem money_round_trip_witness: "\<exists>t. deserialize 1205 2 = Inr t \<and> serialize t 2 Unnecessary = Inr 1205"
  using money_round_trip[of 1205 2 Unnecessary] by (simp add: UINT64_MAX_def)

text \<open>
  For every currency scale of the table (at most four digits), the text that \<open>deserialize\<close> prints for
  an amount with at most eighteen integer digits matches the FSPIOP \<open>Amount\<close> pattern, so it is
  accepted by the amount constraint and left alone by \<open>normalizeAmount\<close>.
\<close>

theorem deserialize_prints_amounts:
  assumes "get_currency c = Some p" "0 \<le> a" "a < 10 ^ (18 + currency_scale p)"
  shows "\<exists>t. deserialize a (int (currency_scale p)) = Inr t \<and> matches_amount_pattern t
           \<and> normalizeAmount t = t \<and> amount_constraint_ok (Some (JString t))"
proof -
  let ?n = "int (currency_scale p)"
  obtain i f where s: "split_minor (nat a) (nat ?n) = (i, f)" by (cases "split_minor (nat a) (nat ?n)")
  note facts = split_minor_facts[OF s]
  obtain t where t: "deserialize a ?n = Inr t" "t = decimal_text None i (fraction_group (strip_zeros f))"
    using deserialize_eq[OF assms(2) _ s] by simp
  have "decimal_groups None i (fraction_group (strip_zeros f))"
    using facts by (auto simp: decimal_groups_def fraction_group_def strip_zeros_digits)
  from normalizeAmount_text[OF this] have n: "normalizeAmount t = t" by (simp add: t(2))
  have m: "matches_amount_pattern t"
    using deserialize_canonical[OF assms(2) _ _ _ t(1)] assms(3) get_currency_scale[OF assms(1)] by simp
  have "t \<noteq> []" using facts(1) by (simp add: t(2) decimal_text_def)
  then show ?thesis using t(1) n m by (simp add: Let_def)
qed

theorem deserialize_prints_amounts_witness:
  "\<exists>p t. get_currency ''XOF'' = Some p \<and> deserialize 1500 (int (currency_scale p)) = Inr t
     \<and> matches_amount_pattern t"
proof -
  have g: "get_currency ''XOF'' = Some (currency_profile ''XOF'' ''CFA franc BCEAO'' 0)" by code_simp
  show ?thesis
    using deserialize_prints_amounts[OF g, of 1500] g by (auto simp: currency_profile_def)
qed

text \<open>
  Money that \<open>FspiopMoney.validate\<close> accepts converts to minor units of its currency without
  rounding: the rounding mode does not matter, and the rewritten amount has the value of the
  submitted one.
\<close>

theorem validated_money_is_exact:
  assumes "validate_money (Some m) = Inr (Some m')"
  shows "\<exists>p. get_currency (m_currency m) = Some p \<and> m_currency m' = m_currency m
     \<and> serialize (m_amount m') (int (currency_scale p)) mode = serialize (m_amount m) (int (currency_scale p)) mode
     \<and> serialize (m_amount m') (int (currency_scale p)) mode = serialize (m_amount m') (int (currency_scale p)) Unnecessary"
proof -
  from assms obtain p where p: "get_currency (m_currency m) = Some p"
    "scaleOf (normalizeAmount (m_amount m)) \<le> currency_scale p"
    "m' = m\<lparr>m_amount := normalizeAmount (m_amount m)\<rparr>"
    by (auto elim: validate_money_Inr)
  have "serialize (m_amount m) (int (currency_scale p)) mode = serialize (m_amount m) (int (currency_scale p)) Unnecessary"
    by (rule serialize_mode_irrelevant[OF p(2)])
  with p show ?thesis by (simp add: serialize_normalizeAmount)
qed

theorem validated_money_is_exact_witness:
  "\<exists>p. get_currency ''USD'' = Some p
     \<and> serialize ''10.5'' (int (currency_scale p)) HalfUp = serialize ''10.5'' (int (currency_scale p)) Unnecessary"
proof -
  have "validate_money (Some \<lparr>m_currency = ''USD'', m_amount = '' 10.500''\<rparr>) =
     Inr (Some \<lparr>m_currency = ''USD'', m_amount = ''10.5''\<rparr>)" by code_simp
  from validated_money_is_exact[OF this, of HalfUp] show ?thesis by auto
qed

text \<open>
  At scale 0 the banker's rounding of the source never looks at the parity of the integer part:
  \<open>HALF_EVEN\<close> is \<open>HALF_DOWN\<close> there, so that 1.5 becomes 1 where rounding half to even gives 2.
\<close>

theorem halfEven_at_scale_zero:
  "serialize amount 0 HalfEven = serialize amount 0 HalfDown \<and>
   serialize ''1.5'' 0 HalfEven = Inr 1 \<and>
   scale_spec \<lparr>pa_sign = 1, pa_integerPart = ''1'', pa_fractionPart = ''5''\<rparr> 0 HalfEven = Inr 2"
proof -
  have "scaleAmount a 0 HalfEven = scaleAmount a 0 HalfDown" for a
    by (simp add: scaleAmount_def shouldRoundUp_halfEven_Nil Let_def)
  then have "serialize amount 0 HalfEven = serialize amount 0 HalfDown" by (simp add: serialize_def)
  moreover have "serialize ''1.5'' 0 HalfEven = Inr 1" by code_simp
  moreover have "scale_spec \<lparr>pa_sign = 1, pa_integerPart = ''1'', pa_fractionPart = ''5''\<rparr> 0 HalfEven = Inr 2"
    by code_simp
  ultimately show ?thesis by blast
qed

end
