(* ===== verification/Fspiop_Subjects.thy ===== *)
theory Fspiop_Subjects
  imports Prelude
begin

text \<open>
  The NATS subjects that correlate an FSPIOP callback with the request waiting for it:
  \<open>packages/shared/fspiop/component/fspiop-pub-sub-subjects.ts\<close>.  \<open>Parties.forSuccess\<close>,
  \<open>Parties.forError\<close>, \<open>Quotes.forSuccess\<close>, \<open>Quotes.forError\<close>, \<open>Transfers.forSuccess\<close>,
  \<open>Transfers.forError\<close> and \<open>Parties.toAnyPayeeSubject\<close> keep their names with the class as a suffix.
  A \<open>PartyIdType\<close> is the string value of the enumeration.
\<close>

section \<open>Subject builders\<close>

definition PREFIX :: string where
  "PREFIX = ''pivotal.fspiop.response.''"

definition ANY_PAYEE :: string where
  "ANY_PAYEE = ''_any_''"

definition with_subId :: "string \<Rightarrow> string option \<Rightarrow> string" where
  "with_subId base subId = (case subId of
     None \<Rightarrow> base
   | Some s \<Rightarrow> if length s > 0 then base @ '':'' @ s else base)"

definition forSuccess_parties ::
  "string \<Rightarrow> string option \<Rightarrow> string \<Rightarrow> string \<Rightarrow> string option \<Rightarrow> string" where
  "forSuccess_parties payer payee partyIdType partyId subId =
     with_subId (PREFIX @ ''parties:'' @ payer @ '':'' @ nullish payee ANY_PAYEE @ '':''
       @ partyIdType @ '':'' @ partyId) subId"

definition forError_parties ::
  "string \<Rightarrow> string option \<Rightarrow> string \<Rightarrow> string \<Rightarrow> string option \<Rightarrow> string" where
  "forError_parties payer payeeOrHub partyIdType partyId subId =
     with_subId (PREFIX @ ''parties-error:'' @ payer @ '':'' @ nullish payeeOrHub ANY_PAYEE @ '':''
       @ partyIdType @ '':'' @ partyId) subId"

definition toAnyPayeeSubject :: "string \<Rightarrow> string option" where
  "toAnyPayeeSubject subject =
     (let successPrefix = PREFIX @ ''parties:'';
          errorPrefix = PREFIX @ ''parties-error:'';
          prefix = (if startsWith subject successPrefix then Some successPrefix
                    else if startsWith subject errorPrefix then Some errorPrefix
                    else None)
      in case prefix of
           None \<Rightarrow> None
         | Some p \<Rightarrow>
             (let tokens = split_on (CHR '':'') (drop (length p) subject)
              in if length tokens < 4 then None
                 else Some (p @ join_with '':'' (tokens[1 := ANY_PAYEE]))))"

definition forSuccess_quotes :: "string \<Rightarrow> string \<Rightarrow> string" where
  "forSuccess_quotes payer quoteId = PREFIX @ ''quotes:'' @ payer @ '':'' @ quoteId"

definition forError_quotes :: "string \<Rightarrow> string \<Rightarrow> string" where
  "forError_quotes payer quoteId = PREFIX @ ''quotes-error:'' @ payer @ '':'' @ quoteId"

definition forSuccess_transfers :: "string \<Rightarrow> string \<Rightarrow> string" where
  "forSuccess_transfers payer transferId = PREFIX @ ''transfers:'' @ payer @ '':'' @ transferId"

definition forError_transfers :: "string \<Rightarrow> string \<Rightarrow> string" where
  "forError_transfers payer transferId = PREFIX @ ''transfers-error:'' @ payer @ '':'' @ transferId"

section \<open>Lemmas\<close>

definition no_colon :: "string \<Rightarrow> bool" where
  "no_colon s = (CHR '':'' \<notin> set s)"

lemmas subject_defs = PREFIX_def forSuccess_parties_def forError_parties_def forSuccess_quotes_def
  forError_quotes_def forSuccess_transfers_def forError_transfers_def

text \<open>What follows the resource token of a parties subject.\<close>

definition parties_tail :: "string \<Rightarrow> string \<Rightarrow> string \<Rightarrow> string \<Rightarrow> string option \<Rightarrow> string" where
  "parties_tail payer payee ty pid sub = payer @ '':'' @ payee @ '':'' @ with_subId (ty @ '':'' @ pid) sub"

lemma with_subId_append: "with_subId (a @ b) sub = a @ with_subId b sub"
  by (simp add: with_subId_def split: option.split)

lemma parties_subject_tail:
  "forSuccess_parties p q t i s = PREFIX @ ''parties:'' @ parties_tail p (nullish q ANY_PAYEE) t i s"
  "forError_parties p q t i s = PREFIX @ ''parties-error:'' @ parties_tail p (nullish q ANY_PAYEE) t i s"
  by (simp_all add: forSuccess_parties_def forError_parties_def parties_tail_def with_subId_append[symmetric])

lemma split_parties_tail:
  assumes "no_colon p" "no_colon q"
  shows "split_on (CHR '':'') (parties_tail p q t i s) = p # q # split_on (CHR '':'') (with_subId (t @ '':'' @ i) s)"
  using assms by (simp add: parties_tail_def no_colon_def split_on_append_sep)

lemma split_two: "2 \<le> length (split_on d (t @ d # r))"
  by (induction t) (auto split: list.split simp: Suc_le_eq)

lemma split_id_tail: "2 \<le> length (split_on (CHR '':'') (with_subId (t @ '':'' @ i) s))"
  using split_two[of "CHR '':''" t] by (auto simp: with_subId_def split: option.splits)

lemma join_parties_tail:
  assumes "no_colon p" "no_colon q"
  shows "join_with '':'' ((split_on (CHR '':'') (parties_tail p q t i s))[1 := r]) = parties_tail p r t i s"
proof -
  let ?rest = "with_subId (t @ '':'' @ i) s"
  have "join_with '':'' (p # r # split_on (CHR '':'') ?rest) = p @ '':'' @ r @ '':'' @ join_with '':'' (split_on (CHR '':'') ?rest)"
    by (simp add: join_with_Cons)
  then show ?thesis by (simp add: split_parties_tail[OF assms] join_split) (simp add: parties_tail_def)
qed

lemma toAnyPayee_tail:
  assumes "no_colon p" "no_colon q" "pre = ''parties:'' \<or> pre = ''parties-error:''"
  shows "toAnyPayeeSubject (PREFIX @ pre @ parties_tail p q t i s) = Some (PREFIX @ pre @ parties_tail p ANY_PAYEE t i s)"
proof -
  let ?tail = "parties_tail p q t i s"
  have n: "\<not> length (split_on (CHR '':'') ?tail) < 4"
    using split_id_tail[of t i s] by (simp add: split_parties_tail[OF assms(1,2)])
  note j = join_parties_tail[OF assms(1,2)]
  from assms(3) show ?thesis
  proof
    assume pre: "pre = ''parties:''"
    have "startsWith (PREFIX @ pre @ ?tail) (PREFIX @ ''parties:'')" by (simp add: startsWith_def pre)
    then show ?thesis using n j by (simp add: toAnyPayeeSubject_def pre)
  next
    assume pre: "pre = ''parties-error:''"
    have "\<not> startsWith (PREFIX @ pre @ ?tail) (PREFIX @ ''parties:'')"
      "startsWith (PREFIX @ pre @ ?tail) (PREFIX @ ''parties-error:'')" by (simp_all add: startsWith_def pre)
    then show ?thesis using n j by (simp add: toAnyPayeeSubject_def pre)
  qed
qed

lemma colon_inj:
  assumes "a @ CHR '':'' # b = a' @ CHR '':'' # b'" "no_colon a" "no_colon a'"
  shows "a = a' \<and> b = b'"
proof -
  have "split_on (CHR '':'') (a @ CHR '':'' # b) = split_on (CHR '':'') (a' @ CHR '':'' # b')"
    using assms(1) by simp
  then have "a = a'" using assms(2,3) by (simp add: split_on_append_sep no_colon_def)
  with assms(1) show ?thesis by simp
qed

lemma colon_eq_iff:
  "no_colon a \<Longrightarrow> no_colon a' \<Longrightarrow> a @ CHR '':'' # b = a' @ CHR '':'' # b' \<longleftrightarrow> a = a' \<and> b = b'"
  using colon_inj by blast

lemma no_colon_with_subId:
  assumes "no_colon i" "no_colon i'"
  shows "with_subId i s = with_subId i' s' \<longleftrightarrow> i = i' \<and> nullish s [] = nullish s' []"
proof -
  have ne: "i \<noteq> i' @ CHR '':'' # x" "i' \<noteq> i @ CHR '':'' # x" for x
    using assms by (auto simp: no_colon_def)
  show ?thesis using ne by (cases s; cases s') (auto simp: with_subId_def colon_eq_iff[OF assms])
qed

lemma parties_tail_eq_iff:
  assumes "no_colon p" "no_colon p'" "no_colon q" "no_colon q'" "no_colon t" "no_colon t'" "no_colon i" "no_colon i'"
  shows "parties_tail p q t i s = parties_tail p' q' t' i' s' \<longleftrightarrow>
    p = p' \<and> q = q' \<and> t = t' \<and> i = i' \<and> nullish s [] = nullish s' []"
  using assms by (simp add: parties_tail_def with_subId_append[of _ "CHR '':'' # _"]
      with_subId_append[of "[CHR '':'']", simplified] colon_eq_iff no_colon_with_subId)

section \<open>Properties\<close>

text \<open>
  \<open>Parties.toAnyPayeeSubject\<close> maps the subject of a parties callback, success or error, published by
  any concrete payee to the subject of the request that did not know its payee, as long as
  neither FSP id contains a colon; whatever the party identifier contains is kept.
\<close>

theorem any_payee_subject_matches:
  assumes "no_colon payer" "no_colon payee"
  shows "toAnyPayeeSubject (forSuccess_parties payer (Some payee) ty pid sub) = Some (forSuccess_parties payer None ty pid sub)
       \<and> toAnyPayeeSubject (forError_parties payer (Some payee) ty pid sub) = Some (forError_parties payer None ty pid sub)"
  unfolding parties_subject_tail nullish_simps using toAnyPayee_tail[OF assms] by blast

theorem any_payee_subject_matches_witness:
  "toAnyPayeeSubject (forSuccess_parties ''DFSP-A'' (Some ''DFSP-B'') ''MSISDN'' ''06:12'' None)
     = Some (forSuccess_parties ''DFSP-A'' None ''MSISDN'' ''06:12'' None)"
  using any_payee_subject_matches[of "''DFSP-A''" "''DFSP-B''" "''MSISDN''" "''06:12''" None]
  by (simp add: no_colon_def)

text \<open>
  A quote or transfer callback subject determines the payer and the identifier it answers, for FSP ids
  free of colons, and the six families of subjects (parties, quotes and transfers, each with its
  error twin) never meet.
\<close>

theorem callback_subjects_identify:
  assumes "no_colon payer" "no_colon payer'"
  shows "(forSuccess_quotes payer i = forSuccess_quotes payer' i' \<longleftrightarrow> payer = payer' \<and> i = i')
       \<and> (forError_quotes payer i = forError_quotes payer' i' \<longleftrightarrow> payer = payer' \<and> i = i')
       \<and> (forSuccess_transfers payer i = forSuccess_transfers payer' i' \<longleftrightarrow> payer = payer' \<and> i = i')
       \<and> (forError_transfers payer i = forError_transfers payer' i' \<longleftrightarrow> payer = payer' \<and> i = i')
       \<and> distinct [forSuccess_parties a b c d e, forError_parties a' b' c' d' e', forSuccess_quotes f g,
            forError_quotes f' g', forSuccess_transfers h k, forError_transfers h' k']"
  using assms
  by (simp add: parties_subject_tail forSuccess_quotes_def forError_quotes_def forSuccess_transfers_def
      forError_transfers_def colon_eq_iff)

theorem callback_subjects_identify_witness:
  "forSuccess_quotes ''a'' ''1:2'' \<noteq> forSuccess_quotes ''b'' ''1:2'' \<and> forSuccess_quotes ''a'' ''1'' \<noteq> forError_quotes ''a'' ''1''"
  using callback_subjects_identify[of "''a''" "''b''" "''1:2''" "''1:2''" "''a''" None "''t''" "''i''" None
      "''a''" None "''t''" "''i''" None "''a''" "''1''" "''a''" "''1''" "''a''" "''1''" "''a''" "''1''"]
  by (simp add: no_colon_def)

text \<open>
  Two parties requests wait on the same subject only if they ask the same payee about the same
  party for the same payer (an absent and an empty sub-identifier count as equal), for
  identifiers free of colons.
\<close>

theorem party_subject_identifies:
  assumes "list_all no_colon [payer, payer', payee, payee', ty, ty', pid, pid']"
  shows "forSuccess_parties payer (Some payee) ty pid sub = forSuccess_parties payer' (Some payee') ty' pid' sub'
     \<longleftrightarrow> payer = payer' \<and> payee = payee' \<and> ty = ty' \<and> pid = pid' \<and> nullish sub [] = nullish sub' []"
  using assms by (simp add: parties_subject_tail parties_tail_eq_iff)

theorem party_subject_identifies_witness:
  "forSuccess_parties ''a'' (Some ''b'') ''MSISDN'' ''1'' None \<noteq> forSuccess_parties ''a'' (Some ''b'') ''MSISDN'' ''2'' None"
  using party_subject_identifies[of "''a''" "''a''" "''b''" "''b''" "''MSISDN''" "''MSISDN''" "''1''" "''2''" None None]
  by (simp add: no_colon_def)

end
