(* ===== verification/Response_Subscriber.thy ===== *)
theory Response_Subscriber
  imports Fspiop_Errors Fspiop_Subjects
begin

text \<open>
  The callback correlator
  \<open>packages/shared/fspiop/component/nats/fspiop-response-subscriber.ts\<close>.  A replica keeps the maps
  \<open>pending\<close> (subject to waiter) and \<open>recent\<close> (callbacks that found no waiter yet); \<open>waitFor\<close>
  registers a waiter under up to three subjects and arms a timer, \<open>dispatch\<close> hands a callback to
  its waiter, \<open>cancel\<close> forgets a waiter.

  A \<open>PendingEntry\<close> object is a position in \<open>entries\<close>; the promise its \<open>resolve\<close> and \<open>reject\<close> close over
  is the field \<open>settled\<close>, written once as promises are.  \<open>armed\<close> is the runtime's table of armed timers,
  keyed by the entry that armed them, and \<open>now\<close> the value of \<open>Date.now()\<close>.  A decoded message body is
  \<open>PNull\<close> (JSON null, on which reading a field throws) or a \<open>PBody\<close> with the \<open>errorInformation\<close> field
  and the payload.  The JetStream consumer (\<open>onModuleInit\<close>, acknowledgements, consumer deletion) is
  outside the model: it only produces the \<open>Deliver\<close> events, one per message.
\<close>

section \<open>State\<close>

datatype 'p payload = PNull | PBody "error_information option" 'p

datatype 'p outcome = Resolved "'p payload" | Rejected js_error

record 'p pending_entry =
  successSubject :: string
  errorSubject :: string
  hubErrorSubject :: "string option"
  timer :: "nat option"
  settled :: "'p outcome option"

record 'p recent_entry =
  re_subject :: string
  re_payload :: "'p payload"
  re_expiresAt :: nat

record armed_timer =
  at_deadline :: nat
  at_timeoutMs :: nat

record 'p subscriber =
  pending :: "(string \<times> nat) list"
  recent :: "(string \<times> 'p recent_entry) list"
  entries :: "'p pending_entry list"
  armed :: "(nat \<times> armed_timer) list"
  running :: bool
  now :: nat

definition DEFAULT_TIMEOUT_MS :: nat where "DEFAULT_TIMEOUT_MS = 30000"
definition RECENT_CACHE_TTL_MS :: nat where "RECENT_CACHE_TTL_MS = 60000"
definition RECENT_CACHE_MAX_ENTRIES :: nat where "RECENT_CACHE_MAX_ENTRIES = 2000"

definition new_subscriber :: "nat \<Rightarrow> 'p subscriber" where
  "new_subscriber t = \<lparr>pending = [], recent = [], entries = [], armed = [], running = True, now = t\<rparr>"

section \<open>Operations\<close>

definition toFspiopException_cb :: "'p payload \<Rightarrow> (js_error, fspiop_exception) result" where
  "toFspiopException_cb body = (case body of
     PNull \<Rightarrow> Inl (JsError ''Cannot read properties of null'')
   | PBody info _ \<Rightarrow>
       (let code = nullish (Option.bind info ei_errorCode) [];
            desc = nullish (Option.bind info ei_errorDescription) ''Unknown FSPIOP error.'';
            extensionList = Option.bind info ei_extensionList;
            errorDef = nullish (find_error code) GENERIC_SERVER_ERROR
        in Inr (new_FspiopException errorDef (MessageArg desc) extensionList)))"

definition evictExpiredRecent :: "'p subscriber \<Rightarrow> 'p subscriber" where
  "evictExpiredRecent st = st\<lparr>recent := filter (\<lambda>(k, e). \<not> re_expiresAt e \<le> now st) (recent st)\<rparr>"

definition addToRecent :: "string \<Rightarrow> 'p payload \<Rightarrow> 'p subscriber \<Rightarrow> 'p subscriber" where
  "addToRecent subject payload st0 =
     (let st = evictExpiredRecent st0;
          kept = (if length (recent st) \<ge> RECENT_CACHE_MAX_ENTRIES
                  then (case recent st of [] \<Rightarrow> [] | (oldestKey, _) # _ \<Rightarrow> AList.delete oldestKey (recent st))
                  else recent st)
      in st\<lparr>recent := AList.update subject
           \<lparr>re_subject = subject, re_payload = payload, re_expiresAt = now st + RECENT_CACHE_TTL_MS\<rparr> kept\<rparr>)"

fun first_recent :: "string list \<Rightarrow> (string \<times> 'p recent_entry) list \<Rightarrow> ('p recent_entry \<times> string) option" where
  "first_recent [] r = None"
| "first_recent (s # ss) r = (case map_of r s of Some e \<Rightarrow> Some (e, s) | None \<Rightarrow> first_recent ss r)"

fun any_payee_recent :: "string list \<Rightarrow> (string \<times> 'p recent_entry) list \<Rightarrow> (string \<times> 'p recent_entry \<times> string) option" where
  "any_payee_recent cs [] = None"
| "any_payee_recent cs ((s, e) # r) = (case toAnyPayeeSubject s of
     Some a \<Rightarrow> if a \<in> set cs then Some (s, e, a) else any_payee_recent cs r
   | None \<Rightarrow> any_payee_recent cs r)"

definition takeFromRecent ::
  "string \<Rightarrow> string \<Rightarrow> string option \<Rightarrow> 'p subscriber \<Rightarrow> ('p recent_entry \<times> string) option \<times> 'p subscriber" where
  "takeFromRecent s e h st0 =
     (let st = evictExpiredRecent st0;
          candidates = (case h of Some x \<Rightarrow> [s, e, x] | None \<Rightarrow> [s, e])
      in case first_recent candidates (recent st) of
           Some (r, subject) \<Rightarrow> (Some (r, subject), st\<lparr>recent := AList.delete subject (recent st)\<rparr>)
         | None \<Rightarrow>
             (case any_payee_recent candidates (recent st) of
                Some (subject, r, a) \<Rightarrow> (Some (r, a), st\<lparr>recent := AList.delete subject (recent st)\<rparr>)
              | None \<Rightarrow> (None, st)))"

text \<open>What \<open>waitFor\<close> returns: a promise that is settled already, or the promise of a new entry.\<close>

datatype 'p waited = Settled "'p outcome" | Waiting nat

definition waitFor ::
  "string \<Rightarrow> string \<Rightarrow> string option \<Rightarrow> nat \<Rightarrow> 'p subscriber \<Rightarrow> (js_error, 'p waited) result \<times> 'p subscriber" where
  "waitFor s e h timeoutMs st0 =
     (case takeFromRecent s e h st0 of
        (Some (r, matchedSubject), st) \<Rightarrow>
          if matchedSubject = s then (Inr (Settled (Resolved (re_payload r))), st)
          else (case toFspiopException_cb (re_payload r) of
              Inl x \<Rightarrow> (Inl x, st)
            | Inr x \<Rightarrow> (Inr (Settled (Rejected (JsFspiop x))), st))
      | (None, st) \<Rightarrow>
          (let w = length (entries st);
               entry = \<lparr>successSubject = s, errorSubject = e, hubErrorSubject = h, timer = Some w, settled = None\<rparr>;
               p1 = AList.update s w (pending st);
               p2 = AList.update e w p1;
               p3 = (case h of None \<Rightarrow> p2 | Some x \<Rightarrow> AList.update x w p2)
           in (Inr (Waiting w),
               st\<lparr>entries := entries st @ [entry],
                  armed := AList.update w \<lparr>at_deadline = now st + timeoutMs, at_timeoutMs = timeoutMs\<rparr> (armed st),
                  pending := p3\<rparr>)))"

definition cancel :: "string \<Rightarrow> 'p subscriber \<Rightarrow> 'p subscriber" where
  "cancel s st = (case map_of (pending st) s of
     None \<Rightarrow> st
   | Some w \<Rightarrow>
       (let entry = entries st ! w;
            p1 = AList.delete (successSubject entry) (pending st);
            p2 = AList.delete (errorSubject entry) p1;
            p3 = (case hubErrorSubject entry of None \<Rightarrow> p2 | Some h \<Rightarrow> AList.delete h p2);
            st1 = st\<lparr>pending := p3\<rparr>
        in case timer entry of
             None \<Rightarrow> st1
           | Some t \<Rightarrow> st1\<lparr>armed := AList.delete t (armed st1),
                           entries := (entries st1)[w := entry\<lparr>timer := None\<rparr>]\<rparr>))"

text \<open>\<open>resolve\<close> and \<open>reject\<close>: the first call settles the promise, later ones do nothing.\<close>

definition settle :: "nat \<Rightarrow> 'p outcome \<Rightarrow> 'p subscriber \<Rightarrow> 'p subscriber" where
  "settle w out st =
     (case settled (entries st ! w) of
        None \<Rightarrow> st\<lparr>entries := (entries st)[w := (entries st ! w)\<lparr>settled := Some out\<rparr>]\<rparr>
      | Some _ \<Rightarrow> st)"

text \<open>The timer callback of \<open>waitFor\<close>.\<close>

definition timeout_message :: "string \<Rightarrow> nat \<Rightarrow> string" where
  "timeout_message s ms = ''No FSPIOP callback received on '' @ [CHR 0x27] @ s @ [CHR 0x27] @ '' within '' @ dec_of_nat ms @ ''ms.''"

definition fire :: "nat \<Rightarrow> 'p subscriber \<Rightarrow> 'p subscriber" where
  "fire w st = (case map_of (armed st) w of
     None \<Rightarrow> st
   | Some t \<Rightarrow>
       (let s = successSubject (entries st ! w);
            st1 = cancel s (st\<lparr>armed := AList.delete w (armed st)\<rparr>)
        in settle w (Rejected (throw_fspiop SERVER_TIMED_OUT (timeout_message s (at_timeoutMs t)))) st1))"

definition match_pending :: "string \<Rightarrow> 'p subscriber \<Rightarrow> (nat \<times> string) option" where
  "match_pending subject st = (case map_of (pending st) subject of
     Some w \<Rightarrow> Some (w, subject)
   | None \<Rightarrow>
       (case toAnyPayeeSubject subject of
          None \<Rightarrow> None
        | Some a \<Rightarrow> (case map_of (pending st) a of Some w \<Rightarrow> Some (w, a) | None \<Rightarrow> None)))"

definition dispatch :: "string \<Rightarrow> 'p payload \<Rightarrow> 'p subscriber \<Rightarrow> (js_error, unit) result \<times> 'p subscriber" where
  "dispatch subject payload st = (case match_pending subject st of
     None \<Rightarrow> (Inr (), addToRecent subject payload st)
   | Some (w, matchedSubject) \<Rightarrow>
       (let entry = entries st ! w;
            isSuccess = (matchedSubject = successSubject entry);
            st1 = cancel (successSubject entry) st
        in if isSuccess then (Inr (), settle w (Resolved payload) st1)
           else (case toFspiopException_cb payload of
                   Inl x \<Rightarrow> (Inl x, st1)
                 | Inr x \<Rightarrow> (Inr (), settle w (Rejected (JsFspiop x)) st1))))"

text \<open>
  One turn of \<open>consumeLoop\<close>: the message is decoded (\<open>Inl\<close> when the codec throws) and dispatched; an
  exception of either is logged and dropped.
\<close>

definition consume :: "string \<Rightarrow> (js_error, 'p payload) result \<Rightarrow> 'p subscriber \<Rightarrow> 'p subscriber" where
  "consume subject data st = (case data of Inl _ \<Rightarrow> st | Inr payload \<Rightarrow> snd (dispatch subject payload st))"

definition onModuleDestroy :: "'p subscriber \<Rightarrow> 'p subscriber" where
  "onModuleDestroy st =
     (let st1 = fold cancel (map fst (pending st)) (st\<lparr>running := False\<rparr>)
      in st1\<lparr>pending := [], recent := []\<rparr>)"

section \<open>Events and runs\<close>

datatype 'p event =
    WaitFor string string "string option" nat
  | Cancel string
  | Deliver string "(js_error, 'p payload) result"
  | Fire nat
  | Tick nat
  | Destroy

fun sub_exec :: "'p event \<Rightarrow> 'p subscriber \<Rightarrow> 'p subscriber" where
  "sub_exec (WaitFor s e h t) st = snd (waitFor s e h t st)"
| "sub_exec (Cancel s) st = cancel s st"
| "sub_exec (Deliver s d) st = consume s d st"
| "sub_exec (Fire w) st = fire w st"
| "sub_exec (Tick n) st = st\<lparr>now := now st + n\<rparr>"
| "sub_exec Destroy st = onModuleDestroy st"

text \<open>A timer fires only once armed and due.\<close>

fun enabled :: "'p event \<Rightarrow> 'p subscriber \<Rightarrow> bool" where
  "enabled (Fire w) st = (case map_of (armed st) w of None \<Rightarrow> False | Some t \<Rightarrow> at_deadline t \<le> now st)"
| "enabled _ st = True"

text \<open>States reached from a fresh subscriber by events that satisfy the discipline \<open>D\<close>.\<close>

inductive sub_reach :: "('p event \<Rightarrow> 'p subscriber \<Rightarrow> bool) \<Rightarrow> 'p subscriber \<Rightarrow> bool" for D where
  reach_init: "sub_reach D (new_subscriber t)"
| reach_step: "sub_reach D st \<Longrightarrow> enabled ev st \<Longrightarrow> D ev st \<Longrightarrow> sub_reach D (sub_exec ev st)"

declare sub_reach.intros [step_intros]

definition subjects :: "'p pending_entry \<Rightarrow> string list" where
  "subjects e = [successSubject e, errorSubject e] @ (case hubErrorSubject e of None \<Rightarrow> [] | Some h \<Rightarrow> [h])"

text \<open>
  The discipline of the callers that correlate by a unique identifier (quotes and transfers): a new
  waiter uses subjects no registered waiter uses, and a callback body is a JSON object.
\<close>

fun fresh_subjects :: "'p event \<Rightarrow> 'p subscriber \<Rightarrow> bool" where
  "fresh_subjects (WaitFor s e h t) st =
     (let ss = (case h of None \<Rightarrow> [s, e] | Some x \<Rightarrow> [s, e, x])
      in list_all (\<lambda>x. map_of (pending st) x = None) ss)"
| "fresh_subjects (Deliver s d) st = (d \<noteq> Inr PNull)"
| "fresh_subjects _ st = True"

definition live :: "nat \<Rightarrow> 'p subscriber \<Rightarrow> bool" where
  "live w st = (w < length (entries st) \<and> settled (entries st ! w) = None \<and> timer (entries st ! w) = Some w
     \<and> map_of (armed st) w \<noteq> None \<and> list_all (\<lambda>s. map_of (pending st) s = Some w) (subjects (entries st ! w)))"

section \<open>Lemmas\<close>

lemma map_of_alist_delete [simp]: "map_of (AList.delete k m) = (map_of m)(k := None)"
  by (simp add: AList.delete_conv')

lemma map_of_alist_update [simp]: "map_of (AList.update k v m) = (map_of m)(k \<mapsto> v)"
  by (simp add: AList.update_conv')

lemma pending_cancel:
  "map_of (pending (cancel s st)) x = (case map_of (pending st) s of
     None \<Rightarrow> map_of (pending st) x
   | Some w \<Rightarrow> if x \<in> set (subjects (entries st ! w)) then None else map_of (pending st) x)"
  by (auto simp: cancel_def subjects_def Let_def split: option.splits)

lemma armed_cancel:
  "map_of (armed (cancel s st)) t = (case map_of (pending st) s of
     None \<Rightarrow> map_of (armed st) t
   | Some w \<Rightarrow> if timer (entries st ! w) = Some t then None else map_of (armed st) t)"
  by (auto simp: cancel_def Let_def split: option.splits)

lemma entries_cancel:
  "entries (cancel s st) = (case map_of (pending st) s of
     None \<Rightarrow> entries st
   | Some w \<Rightarrow> (entries st)[w := (entries st ! w)\<lparr>timer := None\<rparr>])"
proof (cases "map_of (pending st) s")
  case (Some w)
  have "e\<lparr>timer := None\<rparr> = e" if "timer e = None" for e :: "'a pending_entry"
    using that by (cases e) simp
  then have "timer (entries st ! w) = None \<Longrightarrow> (entries st)[w := (entries st ! w)\<lparr>timer := None\<rparr>] = entries st"
    by (metis list_update_id)
  with Some show ?thesis by (auto simp: cancel_def Let_def split: option.splits)
qed (simp add: cancel_def)

lemma cancel_frame [frame_simps]:
  "recent (cancel s st) = recent st" "now (cancel s st) = now st" "running (cancel s st) = running st"
  by (auto simp: cancel_def Let_def split: option.splits)

lemma settle_frame [frame_simps]:
  "recent (settle w out st) = recent st" "now (settle w out st) = now st" "pending (settle w out st) = pending st"
  "armed (settle w out st) = armed st" "length (entries (settle w out st)) = length (entries st)"
  by (auto simp: settle_def split: option.splits)

lemma entries_settle:
  "entries (settle w out st) ! x =
     (if x = w \<and> w < length (entries st) \<and> settled (entries st ! w) = None
      then (entries st ! w)\<lparr>settled := Some out\<rparr> else entries st ! x)"
  by (cases "w < length (entries st)") (auto simp: settle_def list_update_beyond split: option.splits)

lemma evict_frame [frame_simps]:
  "pending (evictExpiredRecent st) = pending st" "armed (evictExpiredRecent st) = armed st"
  "entries (evictExpiredRecent st) = entries st" "now (evictExpiredRecent st) = now st"
  by (simp_all add: evictExpiredRecent_def)

lemma addToRecent_frame [frame_simps]:
  "pending (addToRecent s p st) = pending st" "armed (addToRecent s p st) = armed st"
  "entries (addToRecent s p st) = entries st" "now (addToRecent s p st) = now st"
  by (simp_all add: addToRecent_def Let_def frame_simps)

lemma takeFromRecent_frame:
  assumes "takeFromRecent s e h st = (r, st')"
  shows "pending st' = pending st" "armed st' = armed st" "entries st' = entries st" "now st' = now st"
  using assms by (auto simp: takeFromRecent_def Let_def frame_simps split: option.splits)

lemma subjects_update [simp]:
  "subjects (e\<lparr>timer := t\<rparr>) = subjects e" "subjects (e\<lparr>settled := x\<rparr>) = subjects e"
  by (simp_all add: subjects_def)

lemma successSubject_in_subjects [simp]: "successSubject e \<in> set (subjects e)"
  by (simp add: subjects_def)

subsection \<open>The registration invariant\<close>

definition reg_inv :: "'p subscriber \<Rightarrow> bool" where
  "reg_inv st \<longleftrightarrow>
     (\<forall>s w. map_of (pending st) s = Some w \<longrightarrow> live w st \<and> s \<in> set (subjects (entries st ! w))) \<and>
     (\<forall>w. map_of (armed st) w \<noteq> None \<longrightarrow> live w st)"

lemma liveD:
  assumes "live w st"
  shows "w < length (entries st)" "settled (entries st ! w) = None" "timer (entries st ! w) = Some w"
    "map_of (armed st) w \<noteq> None" "\<And>s. s \<in> set (subjects (entries st ! w)) \<Longrightarrow> map_of (pending st) s = Some w"
  using assms by (auto simp: live_def list_all_iff)

lemma reg_invD:
  assumes "reg_inv st"
  shows "map_of (pending st) s = Some w \<Longrightarrow> live w st"
    "map_of (pending st) s = Some w \<Longrightarrow> s \<in> set (subjects (entries st ! w))"
    "map_of (armed st) w \<noteq> None \<Longrightarrow> live w st"
  using assms unfolding reg_inv_def by blast+

lemma live_subjects_disjoint:
  "live w st \<Longrightarrow> live v st \<Longrightarrow> w \<noteq> v \<Longrightarrow> set (subjects (entries st ! w)) \<inter> set (subjects (entries st ! v)) = {}"
  using liveD(5)[of w st] liveD(5)[of v st] by (metis disjoint_iff option.inject)

lemma cancel_live:
  assumes "reg_inv st" "map_of (pending st) s = Some w"
  shows "live v (cancel s st) \<longleftrightarrow> v \<noteq> w \<and> live v st"
proof -
  have w: "live w st" using assms by (rule reg_invD)
  note w' = liveD[OF w]
  show ?thesis
  proof
    assume v: "live v (cancel s st)"
    then have "v \<noteq> w" using w' assms(2) by (auto simp: live_def entries_cancel)
    with v show "v \<noteq> w \<and> live v st" using assms(2) w'
      by (auto simp: live_def entries_cancel pending_cancel armed_cancel list_all_iff split: if_splits)
  next
    assume v: "v \<noteq> w \<and> live v st"
    then have "set (subjects (entries st ! w)) \<inter> set (subjects (entries st ! v)) = {}"
      using live_subjects_disjoint[OF w] by blast
    with v show "live v (cancel s st)" using assms(2) w'
      by (auto simp: live_def entries_cancel pending_cancel armed_cancel list_all_iff)
  qed
qed

lemma cancel_none: "map_of (pending st) s = None \<Longrightarrow> cancel s st = st"
  by (simp add: cancel_def)

lemma cancel_reg_inv: "reg_inv st \<Longrightarrow> reg_inv (cancel s st)"
proof (cases "map_of (pending st) s")
  case (Some w)
  assume inv: "reg_inv st"
  note live = cancel_live[OF inv Some] and w = liveD[OF reg_invD(1)[OF inv Some]]
  have "live v (cancel s st) \<and> x \<in> set (subjects (entries (cancel s st) ! v))"
    if "map_of (pending (cancel s st)) x = Some v" for x v
  proof -
    have x: "map_of (pending st) x = Some v" "x \<notin> set (subjects (entries st ! w))"
      using that Some by (auto simp: pending_cancel split: if_splits)
    note v = reg_invD(1,2)[OF inv x(1)]
    then have "v \<noteq> w" using x(2) by blast
    with v show ?thesis unfolding live by (simp add: entries_cancel Some)
  qed
  moreover have "live v (cancel s st)" if "map_of (armed (cancel s st)) v \<noteq> None" for v
    unfolding live using that Some w(3) reg_invD(3)[OF inv, of v] by (auto simp: armed_cancel split: if_splits)
  ultimately show ?thesis unfolding reg_inv_def by blast
qed (simp add: cancel_none)

lemma settle_live: "live v (settle w out st) \<longleftrightarrow> live v st \<and> v \<noteq> w"
  by (auto simp: live_def entries_settle frame_simps split: if_splits)

lemma settle_reg_inv: "reg_inv st \<Longrightarrow> \<not> live w st \<Longrightarrow> reg_inv (settle w out st)"
  unfolding reg_inv_def by (auto simp: settle_live entries_settle frame_simps)

lemma live_cong:
  "pending st = pending st' \<Longrightarrow> armed st = armed st' \<Longrightarrow> entries st = entries st' \<Longrightarrow> live w st = live w st'"
  by (simp add: live_def)

lemma reg_inv_cong:
  "pending st = pending st' \<Longrightarrow> armed st = armed st' \<Longrightarrow> entries st = entries st' \<Longrightarrow> reg_inv st = reg_inv st'"
  unfolding reg_inv_def using live_cong[of st st'] by simp

definition wait_subjects :: "string \<Rightarrow> string \<Rightarrow> string option \<Rightarrow> string list" where
  "wait_subjects s e h = (case h of None \<Rightarrow> [s, e] | Some x \<Rightarrow> [s, e, x])"

lemma waitFor_cases:
  obtains (cached) "pending (snd (waitFor s e h t st)) = pending st" "armed (snd (waitFor s e h t st)) = armed st"
      "entries (snd (waitFor s e h t st)) = entries st" "\<forall>w. fst (waitFor s e h t st) \<noteq> Inr (Waiting w)"
  | (new) "fst (waitFor s e h t st) = Inr (Waiting (length (entries st)))"
      "entries (snd (waitFor s e h t st)) = entries st @ [\<lparr>successSubject = s, errorSubject = e, hubErrorSubject = h,
          timer = Some (length (entries st)), settled = None\<rparr>]"
      "map_of (armed (snd (waitFor s e h t st))) =
         (map_of (armed st))(length (entries st) \<mapsto> \<lparr>at_deadline = now st + t, at_timeoutMs = t\<rparr>)"
      "\<And>x. map_of (pending (snd (waitFor s e h t st))) x =
         (if x \<in> set (wait_subjects s e h) then Some (length (entries st)) else map_of (pending st) x)"
proof (cases "takeFromRecent s e h st")
  case (Pair r st')
  note fr = takeFromRecent_frame[OF Pair]
  show ?thesis
  proof (cases r)
    case None
    then show ?thesis using Pair fr
      by (intro new) (auto simp: waitFor_def Let_def wait_subjects_def split: option.splits)
  next
    case (Some x)
    then show ?thesis using Pair fr
      by (intro cached) (auto simp: waitFor_def split: prod.splits sum.splits)
  qed
qed

lemma waitFor_fresh_live:
  assumes inv: "reg_inv st" and fresh: "list_all (\<lambda>x. map_of (pending st) x = None) (wait_subjects s e h)"
    and ent: "entries st' = entries st @ [\<lparr>successSubject = s, errorSubject = e, hubErrorSubject = h,
          timer = Some (length (entries st)), settled = None\<rparr>]"
    and arm: "map_of (armed st') = (map_of (armed st))(length (entries st) \<mapsto> at)"
    and pend: "\<And>x. map_of (pending st') x =
         (if x \<in> set (wait_subjects s e h) then Some (length (entries st)) else map_of (pending st) x)"
  shows "live v st' \<longleftrightarrow> v = length (entries st) \<or> live v st" and "reg_inv st'"
proof -
  let ?n = "length (entries st)"
  have subj: "set (subjects (entries st' ! ?n)) = set (wait_subjects s e h)"
    by (auto simp: ent subjects_def wait_subjects_def split: option.splits)
  have n: "live ?n st'"
    using subj by (auto simp: live_def ent arm pend list_all_iff)
  have old: "live v st'" if "live v st" for v
  proof -
    note v = liveD[OF that]
    have "x \<notin> set (wait_subjects s e h)" if "x \<in> set (subjects (entries st ! v))" for x
      using v(5)[OF that] fresh by (auto simp: list_all_iff)
    then show ?thesis using v by (auto simp: live_def ent arm pend nth_append list_all_iff)
  qed
  have new: "live v st" if "live v st'" "v \<noteq> ?n" for v
  proof -
    note v = liveD[OF that(1)]
    have vl: "v < ?n" using v(1) that(2) by (simp add: ent)
    have "map_of (pending st) x = Some v" if "x \<in> set (subjects (entries st ! v))" for x
      using v(5)[of x] that vl pend[of x] by (auto simp: ent nth_append split: if_splits)
    then show ?thesis using v vl by (auto simp: live_def ent arm nth_append list_all_iff)
  qed
  show iff: "live v st' \<longleftrightarrow> v = ?n \<or> live v st" for v using n old new by blast
  have "live v st' \<and> x \<in> set (subjects (entries st' ! v))" if x: "map_of (pending st') x = Some v" for x v
  proof (cases "x \<in> set (wait_subjects s e h)")
    case True
    then show ?thesis using x n subj by (simp add: pend)
  next
    case False
    then have m: "map_of (pending st) x = Some v" using x by (simp add: pend)
    note v = reg_invD(1,2)[OF inv m]
    then show ?thesis using old liveD(1)[OF v(1)] by (simp add: ent nth_append)
  qed
  moreover have "live v st'" if "map_of (armed st') v \<noteq> None" for v
    using that reg_invD(3)[OF inv, of v] unfolding iff by (auto simp: arm split: if_splits)
  ultimately show "reg_inv st'" unfolding reg_inv_def by blast
qed

lemma fire_eq:
  assumes "reg_inv st" "map_of (armed st) w = Some t"
  shows "fire w st = settle w (Rejected (throw_fspiop SERVER_TIMED_OUT
     (timeout_message (successSubject (entries st ! w)) (at_timeoutMs t)))) (cancel (successSubject (entries st ! w)) st)"
proof -
  let ?s = "successSubject (entries st ! w)"
  have l: "live w st" using reg_invD(3)[OF assms(1)] assms(2) by simp
  have "map_of (pending st) ?s = Some w" and "timer (entries st ! w) = Some w" using liveD[OF l] by simp_all
  then have "cancel ?s (st\<lparr>armed := AList.delete w (armed st)\<rparr>) = cancel ?s st"
    by (simp add: cancel_def Let_def AList.delete_idem)
  then show ?thesis using assms(2) by (simp add: fire_def Let_def)
qed

lemma cancel_settle_live:
  assumes "reg_inv st" "live w st"
  shows "live v (settle w out (cancel (successSubject (entries st ! w)) st)) \<longleftrightarrow> v \<noteq> w \<and> live v st"
    and "reg_inv (settle w out (cancel (successSubject (entries st ! w)) st))"
    and "settled (entries (settle w out (cancel (successSubject (entries st ! w)) st)) ! w) = Some out"
proof -
  let ?st = "cancel (successSubject (entries st ! w)) st"
  have m: "map_of (pending st) (successSubject (entries st ! w)) = Some w" using liveD(5)[OF assms(2)] by simp
  note live = cancel_live[OF assms(1) m]
  show "live v (settle w out ?st) \<longleftrightarrow> v \<noteq> w \<and> live v st" by (auto simp: settle_live live)
  show "reg_inv (settle w out ?st)"
    using cancel_reg_inv[OF assms(1)] by (rule settle_reg_inv) (simp add: live)
  show "settled (entries (settle w out ?st) ! w) = Some out"
    using liveD[OF assms(2)] m by (simp add: entries_settle entries_cancel)
qed

lemma match_pending_Some:
  assumes "reg_inv st" "match_pending subject st = Some (w, m)"
  shows "live w st" "m \<in> set (subjects (entries st ! w))"
    "m = subject \<or> toAnyPayeeSubject subject = Some m" "map_of (pending st) m = Some w"
proof -
  have m: "map_of (pending st) m = Some w" "m = subject \<or> toAnyPayeeSubject subject = Some m"
    using assms(2) by (auto simp: match_pending_def split: option.splits)
  show "live w st" "m \<in> set (subjects (entries st ! w))" using reg_invD(1,2)[OF assms(1) m(1)] .
  show "m = subject \<or> toAnyPayeeSubject subject = Some m" "map_of (pending st) m = Some w" using m by simp_all
qed

text \<open>What a delivered object body settles its waiter with.\<close>

definition callback_outcome :: "string \<Rightarrow> 'p payload \<Rightarrow> 'p pending_entry \<Rightarrow> 'p outcome" where
  "callback_outcome m payload e =
     (if m = successSubject e then Resolved payload
      else Rejected (JsFspiop (case toFspiopException_cb payload of Inr x \<Rightarrow> x | Inl _ \<Rightarrow> undefined)))"

lemma dispatch_match:
  assumes "payload \<noteq> PNull" "match_pending subject st = Some (w, m)"
  shows "snd (dispatch subject payload st) =
     settle w (callback_outcome m payload (entries st ! w)) (cancel (successSubject (entries st ! w)) st)"
  using assms
  by (cases payload) (auto simp: dispatch_def callback_outcome_def toFspiopException_cb_def Let_def)

lemma dispatch_miss:
  "match_pending subject st = None \<Longrightarrow> dispatch subject payload st = (Inr (), addToRecent subject payload st)"
  by (simp add: dispatch_def)

lemma consume_cases:
  assumes "reg_inv st" "d \<noteq> Inr PNull"
  obtains (same) "pending (consume s d st) = pending st" "armed (consume s d st) = armed st"
      "entries (consume s d st) = entries st"
  | (hit) w m p where "d = Inr p" "live w st" "match_pending s st = Some (w, m)"
      "consume s d st = settle w (callback_outcome m p (entries st ! w)) (cancel (successSubject (entries st ! w)) st)"
proof (cases d)
  case (Inr p)
  show ?thesis
  proof (cases "match_pending s st")
    case None
    then show ?thesis using Inr by (intro same) (simp_all add: consume_def dispatch_miss frame_simps)
  next
    case (Some wm)
    obtain w m where wm: "wm = (w, m)" by (cases wm)
    show ?thesis
      using hit[OF Inr match_pending_Some(1)[OF assms(1) Some[unfolded wm]] Some[unfolded wm]]
        dispatch_match[OF _ Some[unfolded wm]] assms(2) Inr by (simp add: consume_def)
  qed
qed (simp add: consume_def same)

lemma fold_cancel:
  assumes "reg_inv st"
  shows "reg_inv (fold cancel ss st) \<and>
    (\<forall>x w. map_of (pending (fold cancel ss st)) x = Some w \<longrightarrow> map_of (pending st) x = Some w \<and> x \<notin> set ss)"
  using assms
proof (induction ss arbitrary: st)
  case (Cons s ss)
  have inv: "reg_inv (cancel s st)" using Cons.prems by (rule cancel_reg_inv)
  have "map_of (pending st) x = Some w \<and> x \<noteq> s" if "map_of (pending (cancel s st)) x = Some w" for x w
    using that reg_invD(2)[OF Cons.prems, of s] by (auto simp: pending_cancel split: option.splits if_splits)
  then show ?case using Cons.IH[OF inv] by auto
qed simp

lemma destroy_all:
  assumes "reg_inv st"
  shows "\<not> live v (onModuleDestroy st)" "reg_inv (onModuleDestroy st)" "map_of (armed (onModuleDestroy st)) v = None"
proof -
  let ?halted = "st\<lparr>running := False\<rparr>"
  let ?st = "fold cancel (map fst (pending st)) ?halted"
  have inv: "reg_inv ?halted" using assms reg_inv_cong[of ?halted st] by simp
  note f = fold_cancel[OF inv, of "map fst (pending st)"]
  have "map_of (pending ?st) x = None" for x
  proof (rule ccontr)
    assume "map_of (pending ?st) x \<noteq> None"
    then obtain w where "map_of (pending ?st) x = Some w" by blast
    then have "map_of (pending st) x = Some w" "x \<notin> fst ` set (pending st)" using f by auto
    then show False by (simp add: map_of_eq_None_iff[symmetric])
  qed
  then have none: "\<not> live w ?st" for w using liveD(5)[of w ?st] successSubject_in_subjects by fastforce
  then have arm: "map_of (armed ?st) w = None" for w using reg_invD(3)[OF conjunct1[OF f], of w] by blast
  show a: "map_of (armed (onModuleDestroy st)) v = None" for v using arm by (simp add: onModuleDestroy_def Let_def)
  show "\<not> live v (onModuleDestroy st)" for v using a[of v] by (auto simp: live_def)
  have "pending (onModuleDestroy st) = []" by (simp add: onModuleDestroy_def Let_def)
  then show "reg_inv (onModuleDestroy st)" using a by (simp add: reg_inv_def)
qed

lemma sub_exec_reg_inv:
  assumes "reg_inv st" "enabled ev st" "fresh_subjects ev st"
  shows "reg_inv (sub_exec ev st)"
proof (cases ev)
  case (WaitFor s e h t)
  show ?thesis
  proof (cases rule: waitFor_cases[of s e h t st])
    case cached
    then show ?thesis using WaitFor assms(1) reg_inv_cong[of "snd (waitFor s e h t st)" st] by simp
  next
    case new
    have "list_all (\<lambda>x. map_of (pending st) x = None) (wait_subjects s e h)"
      using assms(3) WaitFor by (simp add: wait_subjects_def)
    from waitFor_fresh_live(2)[OF assms(1) this new(2-4)] show ?thesis using WaitFor by simp
  qed
next
  case (Deliver s d)
  then have d: "d \<noteq> Inr PNull" using assms(3) by simp
  show ?thesis
    using consume_cases[OF assms(1) d, of s] reg_inv_cong[of "consume s d st" st] cancel_settle_live(2)[OF assms(1)]
      assms(1) Deliver by (metis sub_exec.simps(3))
next
  case (Fire w)
  then obtain t where t: "map_of (armed st) w = Some t" using assms(2) by (auto split: option.splits)
  then have "live w st" using reg_invD(3)[OF assms(1)] by simp
  with Fire show ?thesis by (simp add: fire_eq[OF assms(1) t] cancel_settle_live(2)[OF assms(1)])
qed (use assms(1) reg_inv_cong[of "st\<lparr>now := _\<rparr>" st] in \<open>simp_all add: cancel_reg_inv destroy_all\<close>)

lemma reach_reg_inv: "sub_reach fresh_subjects st \<Longrightarrow> reg_inv st"
proof (induction rule: sub_reach.induct)
  case (reach_init t)
  show ?case by (simp add: new_subscriber_def reg_inv_def)
qed (rule sub_exec_reg_inv)

text \<open>Nothing but a cancellation of the waiter itself, or shutdown, ends its wait without an outcome.\<close>

fun gives_up :: "'p event \<Rightarrow> 'p pending_entry \<Rightarrow> bool" where
  "gives_up (Cancel s) e = (s \<in> set (subjects e))"
| "gives_up Destroy e = True"
| "gives_up _ e = False"

lemma live_step:
  assumes "reg_inv st" "enabled ev st" "fresh_subjects ev st" "live w st" "\<not> gives_up ev (entries st ! w)"
  shows "live w (sub_exec ev st) \<or> settled (entries (sub_exec ev st) ! w) \<noteq> None"
proof (cases ev)
  case (WaitFor s e h t)
  show ?thesis
  proof (cases rule: waitFor_cases[of s e h t st])
    case cached
    then show ?thesis using WaitFor assms(4) live_cong[of "snd (waitFor s e h t st)" st] by simp
  next
    case new
    have "list_all (\<lambda>x. map_of (pending st) x = None) (wait_subjects s e h)"
      using assms(3) WaitFor by (simp add: wait_subjects_def)
    from waitFor_fresh_live(1)[OF assms(1) this new(2-4)] show ?thesis using WaitFor assms(4) by simp
  qed
next
  case (Cancel s)
  then have "map_of (pending st) s \<noteq> Some w" using assms(5) reg_invD(2)[OF assms(1)] by auto
  then show ?thesis using Cancel assms(4) cancel_live[OF assms(1)]
    by (cases "map_of (pending st) s") (auto simp: cancel_none)
next
  case (Deliver s d)
  then have d: "d \<noteq> Inr PNull" using assms(3) by simp
  show ?thesis
    using consume_cases[OF assms(1) d, of s] live_cong[of "consume s d st" st] cancel_settle_live(1,3)[OF assms(1)]
      assms(4) Deliver by (metis option.distinct(1) sub_exec.simps(3))
next
  case (Fire v)
  then obtain t where t: "map_of (armed st) v = Some t" using assms(2) by (auto split: option.splits)
  then have v: "live v st" using reg_invD(3)[OF assms(1)] by simp
  show ?thesis
    using Fire cancel_settle_live(1,3)[OF assms(1) v] assms(4) by (cases "w = v") (auto simp: fire_eq[OF assms(1) t])
qed (use assms(4,5) live_cong[of "st\<lparr>now := _\<rparr>" st] in simp_all)

subsection \<open>Outcomes are final\<close>

lemma settled_timer_update [simp]: "settled (xs[v := (xs ! v)\<lparr>timer := t\<rparr>] ! w) = settled (xs ! w)"
  by (cases "v < length xs"; cases "v = w") (auto simp: list_update_beyond)

lemma settled_cancel: "settled (entries (cancel s st) ! w) = settled (entries st ! w)"
  "length (entries (cancel s st)) = length (entries st)"
  by (auto simp: entries_cancel split: option.splits)

lemma settled_fold_cancel: "settled (entries (fold cancel ss st) ! w) = settled (entries st ! w)"
  "length (entries (fold cancel ss st)) = length (entries st)"
  by (induction ss arbitrary: st) (simp_all add: settled_cancel)

lemma settled_settle: "settled (entries st ! w) = Some x \<Longrightarrow> settled (entries (settle v out st) ! w) = Some x"
  by (auto simp: entries_settle)

lemma waitFor_entries: "w < length (entries st) \<Longrightarrow> entries (snd (waitFor s e h t st)) ! w = entries st ! w"
  "length (entries st) \<le> length (entries (snd (waitFor s e h t st)))"
  by (cases rule: waitFor_cases[of s e h t st]; simp add: nth_append)+

lemma settled_dispatch:
  "settled (entries st ! w) = Some x \<Longrightarrow> settled (entries (snd (dispatch s p st)) ! w) = Some x"
  by (auto simp: dispatch_def Let_def frame_simps settled_cancel intro!: settled_settle split: option.splits sum.splits)

lemma settled_step:
  assumes "w < length (entries st)" "settled (entries st ! w) = Some x"
  shows "settled (entries (sub_exec ev st) ! w) = Some x"
  using assms
  by (cases ev)
    (auto simp: waitFor_entries settled_cancel consume_def fire_def onModuleDestroy_def Let_def settled_fold_cancel
      intro!: settled_settle settled_dispatch split: sum.splits option.splits)

subsection \<open>The recent-callback cache\<close>

definition recent_inv :: "'p subscriber \<Rightarrow> bool" where
  "recent_inv st \<longleftrightarrow> distinct (map fst (recent st)) \<and> length (recent st) \<le> RECENT_CACHE_MAX_ENTRIES"

lemma recent_evict: "recent_inv st \<Longrightarrow> recent_inv (evictExpiredRecent st)"
  by (auto simp: recent_inv_def evictExpiredRecent_def distinct_map_filter
      intro: order_trans[OF length_filter_le])

lemma recent_delete:
  "recent_inv st \<Longrightarrow> recent_inv (st\<lparr>recent := AList.delete k (recent st)\<rparr>)"
  using alist_length_delete_le[of k "recent st"] by (auto simp: recent_inv_def alist_distinct_delete)

lemma recent_addToRecent:
  assumes "recent_inv st"
  shows "recent_inv (addToRecent s p st)"
proof -
  let ?r = "recent (evictExpiredRecent st)"
  have r: "distinct (map fst ?r)" "length ?r \<le> RECENT_CACHE_MAX_ENTRIES"
    using recent_evict[OF assms] by (simp_all add: recent_inv_def)
  let ?k = "if length ?r \<ge> RECENT_CACHE_MAX_ENTRIES
       then (case ?r of [] \<Rightarrow> [] | (oldestKey, _) # _ \<Rightarrow> AList.delete oldestKey ?r) else ?r"
  have "distinct (map fst ?k)" using r(1) by (auto simp: alist_distinct_delete split: list.splits)
  moreover have "length ?k < RECENT_CACHE_MAX_ENTRIES"
  proof (cases "length ?r \<ge> RECENT_CACHE_MAX_ENTRIES")
    case True
    then obtain o' x rest where e: "?r = (o', x) # rest"
      by (cases ?r) (auto simp: RECENT_CACHE_MAX_ENTRIES_def)
    then have "length (AList.delete o' ?r) < length ?r" by (intro alist_length_delete) simp
    with True r(2) e show ?thesis by simp
  qed simp
  ultimately show ?thesis
    using alist_length_update[of s _ ?k] unfolding recent_inv_def addToRecent_def Let_def
    by (fastforce simp: alist_distinct_update intro: order_trans)
qed

lemma recent_takeFromRecent:
  "recent_inv st \<Longrightarrow> recent_inv (snd (takeFromRecent s e h st))"
  by (auto simp: takeFromRecent_def Let_def recent_evict recent_delete split: option.splits)

lemma recent_inv_cong: "recent st = recent st' \<Longrightarrow> recent_inv st = recent_inv st'"
  by (simp add: recent_inv_def)

lemma recent_waitFor: "recent (snd (waitFor s e h t st)) = recent (snd (takeFromRecent s e h st))"
  by (auto simp: waitFor_def Let_def split: option.splits prod.splits sum.splits)

lemma recent_dispatch: "recent_inv st \<Longrightarrow> recent_inv (snd (dispatch s p st))"
  by (auto simp: dispatch_def Let_def recent_addToRecent split: option.splits sum.splits)
    (auto simp: recent_inv_def frame_simps)

lemma recent_step: "recent_inv st \<Longrightarrow> recent_inv (sub_exec ev st)"
proof (cases ev)
  case (WaitFor s e h t)
  assume "recent_inv st"
  then show ?thesis using WaitFor recent_takeFromRecent[of st s e h] recent_waitFor[of s e h t st]
    by (simp add: recent_inv_def)
next
  case (Deliver s d)
  assume "recent_inv st"
  then show ?thesis using Deliver by (cases d) (simp_all add: consume_def recent_dispatch)
qed (auto simp: recent_inv_def frame_simps fire_def onModuleDestroy_def Let_def
      split: sum.splits option.splits)

lemma reach_recent_inv: "sub_reach D st \<Longrightarrow> recent_inv st"
proof (induction rule: sub_reach.induct)
  case (reach_init t)
  show ?case by (simp add: new_subscriber_def recent_inv_def)
qed (rule recent_step)

lemma recent_lookup_added:
  "map_of (recent (addToRecent s p st)) s =
     Some \<lparr>re_subject = s, re_payload = p, re_expiresAt = now st + RECENT_CACHE_TTL_MS\<rparr>"
  by (simp add: addToRecent_def Let_def evictExpiredRecent_def)

lemma recent_lookup_evict:
  assumes "distinct (map fst (recent st))" "map_of (recent st) s = Some e" "now st < re_expiresAt e"
  shows "map_of (recent (evictExpiredRecent st)) s = Some e"
  using assms by (auto simp: evictExpiredRecent_def distinct_map_filter dest: map_of_SomeD intro!: map_of_is_SomeI)

subsection \<open>Lost waiters\<close>

definition lost :: "nat \<Rightarrow> 'p subscriber \<Rightarrow> bool" where
  "lost w st = (w < length (entries st) \<and> settled (entries st ! w) = None \<and> map_of (armed st) w = None
     \<and> list_all (\<lambda>(s, v). v \<noteq> w) (pending st))"

lemma lostD: "lost w st \<Longrightarrow> map_of (pending st) s \<noteq> Some w"
  by (auto simp: lost_def list_all_iff dest: map_of_SomeD)

lemma set_alist_delete: "set (AList.delete k m) \<subseteq> set m"
  by (auto simp: AList.delete_eq)

lemma set_alist_update: "x \<in> set (AList.update k v m) \<Longrightarrow> x = (k, v) \<or> x \<in> set m"
  by (induction m) (auto split: if_splits)

lemma lost_cancel: "lost w st \<Longrightarrow> lost w (cancel s st)"
  by (auto simp: lost_def cancel_def Let_def list_all_iff split: option.splits
      dest!: set_mp[OF set_alist_delete])

lemma lost_settle: "lost w st \<Longrightarrow> v \<noteq> w \<Longrightarrow> lost w (settle v out st)"
  by (auto simp: lost_def entries_settle frame_simps)

lemma lost_cong: "pending st = pending st' \<Longrightarrow> armed st = armed st' \<Longrightarrow> entries st = entries st' \<Longrightarrow> lost w st = lost w st'"
  by (simp add: lost_def)

lemma lost_waitFor:
  assumes "lost w st"
  shows "lost w (snd (waitFor s e h t st))"
proof (cases "takeFromRecent s e h st")
  case (Pair r st')
  note fr = takeFromRecent_frame[OF Pair]
  have l: "lost w st'" using assms fr lost_cong[of st st'] by simp
  then show ?thesis
    using Pair by (auto simp: waitFor_def Let_def lost_def nth_append list_all_iff dest!: set_alist_update
        split: option.splits prod.splits sum.splits)
qed

lemma lost_dispatch:
  assumes "lost w st"
  shows "lost w (snd (dispatch s p st))"
proof (cases "match_pending s st")
  case None
  then show ?thesis using assms lost_cong[of "addToRecent s p st" st] by (simp add: dispatch_miss frame_simps)
next
  case (Some vm)
  obtain v m where vm: "vm = (v, m)" by (cases vm)
  then have "v \<noteq> w" using Some lostD[OF assms] by (auto simp: match_pending_def split: option.splits)
  then show ?thesis using Some vm assms
    by (auto simp: dispatch_def Let_def intro!: lost_settle lost_cancel split: sum.splits)
qed

lemma lost_fire:
  assumes "lost w st"
  shows "lost w (fire v st)"
proof (cases "map_of (armed st) v")
  case (Some t)
  then have "v \<noteq> w" using assms by (auto simp: lost_def)
  moreover have "lost w (st\<lparr>armed := AList.delete v (armed st)\<rparr>)" using assms by (simp add: lost_def)
  ultimately show ?thesis using Some by (simp add: fire_def Let_def lost_settle lost_cancel)
qed (simp add: fire_def assms)

lemma lost_fold_cancel: "lost w st \<Longrightarrow> lost w (fold cancel ss st)"
  by (induction ss arbitrary: st) (simp_all add: lost_cancel)

lemma lost_step:
  assumes "lost w st"
  shows "lost w (sub_exec ev st)"
proof (cases ev)
  case (Deliver s d)
  then show ?thesis using assms by (cases d) (simp_all add: consume_def lost_dispatch)
next
  case (Tick n)
  then show ?thesis using assms by (simp add: lost_def)
next
  case Destroy
  have "lost w (st\<lparr>running := False\<rparr>)" using assms by (simp add: lost_def)
  from lost_fold_cancel[OF this] show ?thesis using Destroy by (simp add: onModuleDestroy_def Let_def lost_def)
qed (simp_all add: assms lost_waitFor lost_cancel lost_fire)

section \<open>Properties\<close>

lemma reach_fresh_example:
  "sub_reach fresh_subjects (sub_exec (WaitFor ''s'' ''e'' (Some ''h'') 10) (new_subscriber 0 :: unit subscriber))"
  by (intro step_intros) (simp_all add: new_subscriber_def Let_def)

lemma example_state:
  "snd (waitFor ''s'' ''e'' (Some ''h'') 10 (new_subscriber 0 :: unit subscriber)) =
     \<lparr>pending = [(''s'', 0), (''e'', 0), (''h'', 0)], recent = [],
      entries = [\<lparr>successSubject = ''s'', errorSubject = ''e'', hubErrorSubject = Some ''h'', timer = Some 0, settled = None\<rparr>],
      armed = [(0, \<lparr>at_deadline = 10, at_timeoutMs = 10\<rparr>)], running = True, now = 0\<rparr>"
  by (simp add: new_subscriber_def waitFor_def takeFromRecent_def evictExpiredRecent_def Let_def)

lemma example_live: "live 0 (sub_exec (WaitFor ''s'' ''e'' (Some ''h'') 10) (new_subscriber 0 :: unit subscriber))"
  unfolding sub_exec.simps example_state by (simp add: live_def subjects_def)



text \<open>
  \<open>waitFor\<close> on fresh subjects, when no early callback is cached, registers the new waiter under its two or
  three subjects and arms its timer for the requested time, and leaves every other waiter as it is.
\<close>

theorem waitFor_registers:
  assumes "sub_reach fresh_subjects st" "fresh_subjects (WaitFor s e h t) st"
    and "waitFor s e h t st = (Inr (Waiting w), st')"
  shows "live w st' \<and> \<not> live w st \<and> set (subjects (entries st' ! w)) = {s, e} \<union> set_option h
     \<and> map_of (armed st') w = Some \<lparr>at_deadline = now st + t, at_timeoutMs = t\<rparr>
     \<and> (\<forall>v. v \<noteq> w \<longrightarrow> live v st' = live v st)"
proof (cases rule: waitFor_cases[of s e h t st])
  case cached
  then show ?thesis using assms(3) by simp
next
  case new
  have w: "w = length (entries st)" and st': "snd (waitFor s e h t st) = st'" using new(1) assms(3) by simp_all
  have f: "list_all (\<lambda>x. map_of (pending st) x = None) (wait_subjects s e h)"
    using assms(2) by (simp add: wait_subjects_def)
  note live = waitFor_fresh_live(1)[OF reach_reg_inv[OF assms(1)] f new(2-4)[unfolded st']]
  have "\<not> live w st" by (simp add: w live_def)
  then show ?thesis using live new(2,3) by (auto simp: w st' subjects_def split: option.splits)
qed

theorem waitFor_registers_witness:
  "\<exists>st'. waitFor ''q'' ''qe'' None 7 (new_subscriber 0 :: unit subscriber) = (Inr (Waiting 0), st') \<and> live 0 st'"
proof -
  let ?st = "new_subscriber 0 :: unit subscriber"
  have w: "waitFor ''q'' ''qe'' None 7 ?st = (Inr (Waiting 0), snd (waitFor ''q'' ''qe'' None 7 ?st))"
    by (simp add: new_subscriber_def waitFor_def takeFromRecent_def evictExpiredRecent_def Let_def)
  have "fresh_subjects (WaitFor ''q'' ''qe'' None 7) ?st" by (simp add: new_subscriber_def)
  from waitFor_registers[OF reach_init this w] w show ?thesis by blast
qed

text \<open>
  A callback that matches a registered subject, itself or through its any-payee form, settles exactly the waiter
  registered there: with the payload on the success subject, and with an \<open>FspiopException\<close> of the
  reported error code (the generic server error when the code is unknown) on an error subject.
  Every other waiter keeps its registration, its timer and its outcome.
\<close>

theorem callback_settles_its_waiter:
  assumes "sub_reach fresh_subjects st" "match_pending subject st = Some (w, m)"
    and "snd (dispatch subject (PBody info v) st) = st'"
  shows "live w st \<and> m \<in> set (subjects (entries st ! w)) \<and> \<not> live w st'
     \<and> settled (entries st' ! w) = Some
         (if m = successSubject (entries st ! w) then Resolved (PBody info v)
          else Rejected (JsFspiop (new_FspiopException
            (nullish (find_error (nullish (Option.bind info ei_errorCode) [])) GENERIC_SERVER_ERROR)
            (MessageArg (nullish (Option.bind info ei_errorDescription) ''Unknown FSPIOP error.''))
            (Option.bind info ei_extensionList))))
     \<and> (\<forall>u. u \<noteq> w \<longrightarrow> live u st' = live u st \<and> settled (entries st' ! u) = settled (entries st ! u))"
proof -
  note inv = reach_reg_inv[OF assms(1)]
  note m = match_pending_Some[OF inv assms(2)]
  have st': "st' = settle w (callback_outcome m (PBody info v) (entries st ! w)) (cancel (successSubject (entries st ! w)) st)"
    using dispatch_match[OF _ assms(2), of "PBody info v"] assms(3) by simp
  note cs = cancel_settle_live[OF inv m(1), where out = "callback_outcome m (PBody info v) (entries st ! w)", folded st']
  have "settled (entries st' ! u) = settled (entries st ! u)" if "u \<noteq> w" for u
    using that by (simp add: st' entries_settle settled_cancel)
  then show ?thesis using cs(1,3) m(1,2)
    by (simp add: callback_outcome_def toFspiopException_cb_def Let_def)
qed

theorem callback_settles_its_waiter_witness:
  "let st = sub_exec (WaitFor ''s'' ''e'' (Some ''h'') 10) (new_subscriber 0 :: unit subscriber)
   in settled (entries (snd (dispatch ''s'' (PBody None ()) st)) ! 0) = Some (Resolved (PBody None ()))"
proof -
  let ?st = "sub_exec (WaitFor ''s'' ''e'' (Some ''h'') 10) (new_subscriber 0 :: unit subscriber)"
  have "match_pending ''s'' ?st = Some (0, ''s'')" unfolding sub_exec.simps example_state by (simp add: match_pending_def)
  from callback_settles_its_waiter[OF reach_fresh_example this refl, of None "()"]
  show ?thesis unfolding Let_def by (simp add: example_state)
qed

text \<open>
  A waiter whose timer fires is rejected with the FSPIOP error \<open>SERVER_TIMED_OUT\<close> naming its subject and
  its timeout, is no longer registered, and no other waiter is touched.
\<close>

theorem timeout_settles_its_waiter:
  assumes "sub_reach fresh_subjects st" "map_of (armed st) w = Some t" "fire w st = st'"
  shows "live w st \<and> \<not> live w st'
     \<and> settled (entries st' ! w) = Some (Rejected (throw_fspiop SERVER_TIMED_OUT
          (timeout_message (successSubject (entries st ! w)) (at_timeoutMs t))))
     \<and> (\<forall>u. u \<noteq> w \<longrightarrow> live u st' = live u st \<and> settled (entries st' ! u) = settled (entries st ! u))"
proof -
  note inv = reach_reg_inv[OF assms(1)]
  have l: "live w st" using reg_invD(3)[OF inv] assms(2) by simp
  have st': "st' = settle w (Rejected (throw_fspiop SERVER_TIMED_OUT
          (timeout_message (successSubject (entries st ! w)) (at_timeoutMs t)))) (cancel (successSubject (entries st ! w)) st)"
    using fire_eq[OF inv assms(2)] assms(3) by simp
  note cs = cancel_settle_live[OF inv l, where out = "Rejected (throw_fspiop SERVER_TIMED_OUT
          (timeout_message (successSubject (entries st ! w)) (at_timeoutMs t)))", folded st']
  have "settled (entries st' ! u) = settled (entries st ! u)" if "u \<noteq> w" for u
    using that by (simp add: st' entries_settle settled_cancel)
  then show ?thesis using cs(1,3) l by blast
qed

theorem timeout_settles_its_waiter_witness:
  "settled (entries (fire 0 (sub_exec (WaitFor ''s'' ''e'' (Some ''h'') 10) (new_subscriber 0 :: unit subscriber))) ! 0)
     = Some (Rejected (throw_fspiop SERVER_TIMED_OUT (timeout_message ''s'' 10)))"
proof -
  let ?st = "sub_exec (WaitFor ''s'' ''e'' (Some ''h'') 10) (new_subscriber 0 :: unit subscriber)"
  have "map_of (armed ?st) 0 = Some \<lparr>at_deadline = 10, at_timeoutMs = 10\<rparr>" unfolding sub_exec.simps example_state by simp
  from timeout_settles_its_waiter[OF reach_fresh_example this refl] show ?thesis
    by (simp add: example_state del: new_FspiopException.simps)
qed

text \<open>
  In every reachable state, with no discipline on the callers, the cache of early callbacks holds at
  most 2000 entries under distinct subjects, and an outcome once given to a promise stays.
\<close>

theorem recent_cache_bounded_and_outcomes_final:
  assumes "sub_reach (\<lambda>_ _. True) st" "w < length (entries st)" "settled (entries st ! w) = Some x"
  shows "length (recent st) \<le> 2000 \<and> distinct (map fst (recent st))
     \<and> settled (entries (sub_exec ev st) ! w) = Some x"
  using reach_recent_inv[OF assms(1)] settled_step[OF assms(2,3)]
  by (simp add: recent_inv_def RECENT_CACHE_MAX_ENTRIES_def)

theorem recent_cache_bounded_and_outcomes_final_witness:
  "\<exists>st :: unit subscriber. \<exists>x. length (recent st) \<le> 2000 \<and> settled (entries (sub_exec Destroy st) ! 0) = Some x"
proof -
  let ?a = "sub_exec (WaitFor ''s'' ''e'' (Some ''h'') 10) (new_subscriber 0 :: unit subscriber)"
  let ?b = "sub_exec (Deliver ''s'' (Inr (PBody None ()))) ?a"
  have r: "sub_reach (\<lambda>_ _. True) ?b" by (intro step_intros) simp_all
  have "0 < length (entries ?b)" "settled (entries ?b ! 0) = Some (Resolved (PBody None ()))"
    unfolding sub_exec.simps example_state
    by (simp_all add: consume_def dispatch_def match_pending_def cancel_def settle_def Let_def)
  from recent_cache_bounded_and_outcomes_final[OF r this] show ?thesis by blast
qed

text \<open>
  A callback that arrives before anybody waits for it is not lost: a \<open>waitFor\<close> on its subject less than
  sixty seconds later returns a promise that is already settled with its payload.
\<close>

theorem early_callback_is_kept:
  assumes "sub_reach (\<lambda>_ _. True) st" "match_pending s st = None"
    and "dispatch s p st = (r, st1)" "d < RECENT_CACHE_TTL_MS"
  shows "fst (waitFor s e h t (sub_exec (Tick d) st1)) = Inr (Settled (Resolved p))"
proof -
  let ?st = "sub_exec (Tick d) st1"
  have st1: "st1 = addToRecent s p st" using dispatch_miss[OF assms(2), of p] assms(3) by simp
  have "recent_inv st1" using recent_addToRecent[OF reach_recent_inv[OF assms(1)]] by (simp add: st1)
  then have "map_of (recent (evictExpiredRecent ?st)) s =
      Some \<lparr>re_subject = s, re_payload = p, re_expiresAt = now st + RECENT_CACHE_TTL_MS\<rparr>"
    using assms(4) recent_lookup_added[of s p st]
    by (intro recent_lookup_evict) (auto simp: recent_inv_def st1 frame_simps)
  then have "fst (takeFromRecent s e h ?st) =
     Some (\<lparr>re_subject = s, re_payload = p, re_expiresAt = now st + RECENT_CACHE_TTL_MS\<rparr>, s)"
    by (auto simp: takeFromRecent_def Let_def split: option.split)
  then show ?thesis by (cases "takeFromRecent s e h ?st") (simp add: waitFor_def)
qed

theorem early_callback_is_kept_witness:
  "fst (waitFor ''q'' ''qe'' None 7 (sub_exec (Tick 59999)
     (snd (dispatch ''q'' (PBody None ()) (new_subscriber 0 :: unit subscriber))))) = Inr (Settled (Resolved (PBody None ())))"
proof -
  let ?st = "new_subscriber 0 :: unit subscriber"
  have m: "match_pending ''q'' ?st = None"
    by (simp add: match_pending_def new_subscriber_def split: option.splits)
  have d: "dispatch ''q'' (PBody None ()) ?st = (Inr (), snd (dispatch ''q'' (PBody None ()) ?st))"
    by (simp add: dispatch_miss[OF m])
  show ?thesis
    using early_callback_is_kept[OF reach_init m d, of 59999 "''qe''" None 7] by (simp add: RECENT_CACHE_TTL_MS_def)
qed

text \<open>
  Two requests that wait on the same subjects at the same time, as two concurrent look-ups of one
  party do, can lose one of them: the second registration replaces the first, and when the timer of
  the first fires it removes the second waiter together with its timer.  That promise is then
  never settled, whatever events follow.
\<close>

theorem shared_subject_loses_waiter:
  "\<exists>st :: unit subscriber. sub_reach (\<lambda>ev _. \<forall>e. \<not> gives_up ev e) st \<and> lost 1 st \<and> (\<forall>evs. lost 1 (fold sub_exec evs st))"
proof -
  let ?a = "sub_exec (WaitFor ''s'' ''e'' None 10) (sub_exec (WaitFor ''s'' ''e'' None 10) (new_subscriber 0 :: unit subscriber))"
  let ?b = "sub_exec (Fire 0) (sub_exec (Tick 10) ?a)"
  have a: "sub_exec (Tick 10) ?a =
     \<lparr>pending = [(''s'', 1), (''e'', 1)], recent = [],
      entries = [\<lparr>successSubject = ''s'', errorSubject = ''e'', hubErrorSubject = None, timer = Some 0, settled = None\<rparr>,
                 \<lparr>successSubject = ''s'', errorSubject = ''e'', hubErrorSubject = None, timer = Some 1, settled = None\<rparr>],
      armed = [(0, \<lparr>at_deadline = 10, at_timeoutMs = 10\<rparr>), (1, \<lparr>at_deadline = 10, at_timeoutMs = 10\<rparr>)],
      running = True, now = 10\<rparr>"
    by (simp add: new_subscriber_def waitFor_def takeFromRecent_def evictExpiredRecent_def Let_def)
  have "enabled (Fire 0) (sub_exec (Tick 10) ?a)" unfolding a by simp
  then have r: "sub_reach (\<lambda>ev _. \<forall>e. \<not> gives_up ev e) ?b" by (intro step_intros) simp_all
  have l: "lost 1 ?b"
    unfolding a by (simp add: lost_def fire_def cancel_def settle_def Let_def)
  have "lost 1 (fold sub_exec evs st)" if "lost 1 st" for evs and st :: "unit subscriber"
    using that by (induction evs arbitrary: st) (simp_all add: lost_step)
  with r l show ?thesis by blast
qed

end
