(* ===== verification/Send_Money_Data.thy ===== *)
theory Send_Money_Data
  imports Fspiop_Money Fspiop_Subjects
begin

text \<open>
  The data of the send-money flow and its pure functions: the FSPIOP bodies it exchanges
  (\<open>packages/shared/fspiop/dto\<close>), the cached \<open>TransferRequest\<close>, \<open>FspParty\<close>, \<open>SendMoneyRequest\<close> and
  \<open>SendMoneyResponse\<close> (\<open>packages/core/outbound/domain\<close>, \<open>cache\<close> and \<open>dto\<close>), the FSPIOP request headers, the
  private helpers of the three command handlers, \<open>SendMoneyResponseMapper\<close> and
  \<open>PayerProvidedFeesValidator\<close>.

  An optional or nullable field is an \<open>option\<close>; enumerations that only travel through the code are
  their string values.  A field of a body that the code never reads (\<open>geoCode\<close>, \<open>kycInformation\<close>,
  \<open>payeeFspCommission\<close>, \<open>converter\<close> and the like) is left out.  Extension values are
  unchecked JSON: reading one with \<open>trim\<close> throws unless it is a string.
\<close>

section \<open>Records\<close>

record party_id_info =
  partyIdType :: string
  partyIdentifier :: string
  partySubIdOrType :: "string option"
  pii_fspId :: "string option"
  pii_extensionList :: "extension_list option"

record party_complex_name =
  pcn_firstName :: "string option"
  pcn_middleName :: "string option"
  pcn_lastName :: "string option"

record party_personal_info =
  complexName :: "party_complex_name option"
  ppi_dateOfBirth :: "string option"

record party =
  partyIdInfo :: party_id_info
  p_merchantClassificationCode :: "string option"
  p_name :: "string option"
  personalInfo :: "party_personal_info option"
  p_supportedCurrencies :: "string list option"

record parties_response =
  pr_party :: party

record quotes_response =
  transferAmount :: "money option"
  payeeReceiveAmount :: "money option"
  payeeFspFee :: "money option"
  qr_expiration :: string
  qr_ilpPacket :: string
  qr_condition :: string
  qr_extensionList :: "extension_list option"

record transaction_type =
  scenario :: string
  tt_subScenario :: "string option"
  initiator :: string
  initiatorType :: string

record quotes_post_request =
  quoteId :: string
  transactionId :: string
  transactionRequestId :: string
  qp_payee :: party
  qp_payer :: party
  qp_amountType :: string
  qp_amount :: money
  qp_transactionType :: transaction_type
  qp_note :: "string option"
  qp_extensionList :: "extension_list option"

record transfers_post_request =
  tp_transferId :: string
  tp_payeeFsp :: string
  tp_payerFsp :: string
  tp_amount :: "money option"
  tp_ilpPacket :: string
  tp_condition :: string
  tp_expiration :: string
  tp_extensionList :: "extension_list option"

record transfers_response =
  fulfilment :: "string option"
  completedTimestamp :: "string option"
  tr_transferState :: string
  tr_extensionList :: "extension_list option"

record fsp_party =
  fp_type :: "string option"
  idType :: string
  idValue :: string
  idSubValue :: "string option"
  displayName :: "string option"
  firstName :: "string option"
  middleName :: "string option"
  lastName :: "string option"
  dateOfBirth :: "string option"
  merchantClassificationCode :: "string option"
  fspId :: "string option"
  fp_extensionList :: "extension list option"

record send_money_request =
  sm_homeTransactionId :: string
  sm_from :: fsp_party
  sm_to :: fsp_party
  sm_amountType :: string
  sm_currency :: string
  sm_amount :: string
  sm_transactionType :: string
  sm_subScenario :: string
  sm_note :: "string option"

record transfer_request =
  payer :: party
  payee :: party
  quotes :: "quotes_response option"
  transfer :: "transfers_response option"
  transferId :: string
  homeTransactionId :: string
  initiatedTimestamp :: string
  t_from :: fsp_party
  t_to :: fsp_party
  amountType :: string
  currency :: string
  amount :: string
  transactionType :: string
  subScenario :: string
  t_note :: "string option"
  supportedCurrencies :: "string list option"

datatype state_enum = WaitingForPartyAcceptance | WaitingForQuoteAcceptance | Pending | Completed | Aborted

record send_money_response =
  rs_transferId :: string
  rs_homeTransactionId :: string
  rs_from :: fsp_party
  rs_to :: fsp_party
  rs_amountType :: string
  rs_transactionType :: string
  rs_subScenario :: string
  rs_note :: "string option"
  rs_amount :: string
  rs_payeeReceiveAmount :: "string option"
  rs_transferAmount :: "string option"
  rs_payeeFee :: string
  rs_payerFee :: string
  rs_schemeFee :: string
  rs_currency :: string
  rs_currentState :: state_enum
  rs_initiatedTimestamp :: string
  rs_direction :: string
  rs_supportedCurrencies :: "string list option"
  rs_extensionList :: "extension list option"

section \<open>Shared helpers\<close>

text \<open>\<open>value?.trim()\<close>, absent when nothing is left: \<open>toOptionalValue\<close>, \<open>toSubId\<close>, \<open>toOptionalSource\<close>.\<close>

definition toOptionalValue :: "string option \<Rightarrow> string option" where
  "toOptionalValue v = (case v of None \<Rightarrow> None | Some s \<Rightarrow> if trim s = [] then None else Some (trim s))"

definition toSubId :: "string option \<Rightarrow> string option" where
  "toSubId v = (case v of None \<Rightarrow> None | Some s \<Rightarrow> if trim s = [] then None else Some (trim s))"

definition type_error :: js_error where
  "type_error = JsError ''value.trim is not a function''"

text \<open>\<open>ext.value?.trim()\<close>.\<close>

fun ext_value_trim :: "js_value option \<Rightarrow> (js_error, string option) result" where
  "ext_value_trim None = Inr None"
| "ext_value_trim (Some (JString s)) = Inr (Some (trim s))"
| "ext_value_trim (Some _) = Inl type_error"

definition ext_key_opt :: "extension \<Rightarrow> string option" where
  "ext_key_opt x = map_option (\<lambda>k. toLowerCase (trim k)) (ext_key x)"

section \<open>FspiopHeaders\<close>

type_synonym headers_map = "(string \<times> string) list"

definition createHeaders :: "string \<Rightarrow> string option \<Rightarrow> string option \<Rightarrow> string \<Rightarrow> string \<Rightarrow> string option \<Rightarrow> headers_map" where
  "createHeaders date traceparent accept contentType source destination =
     (case accept of None \<Rightarrow> [] | Some a \<Rightarrow> [(''accept'', a)]) @
     (case traceparent of None \<Rightarrow> [] | Some t \<Rightarrow> [(''traceparent'', t)]) @
     [(''content-type'', contentType), (''date'', date), (''fspiop-source'', source)] @
     (case destination of None \<Rightarrow> [] | Some d \<Rightarrow> [(''fspiop-destination'', d)])"

definition headers_parties_forRequest :: "string \<Rightarrow> string option \<Rightarrow> string \<Rightarrow> string option \<Rightarrow> headers_map" where
  "headers_parties_forRequest date traceparent payerFsp payeeFsp =
     createHeaders date traceparent (Some ''application/vnd.interoperability.parties+json;version=2.0'')
       ''application/vnd.interoperability.parties+json;version=2.0'' payerFsp payeeFsp"

definition headers_quotes_forRequest :: "string \<Rightarrow> string option \<Rightarrow> string \<Rightarrow> string \<Rightarrow> headers_map" where
  "headers_quotes_forRequest date traceparent payerFsp payeeFsp =
     createHeaders date traceparent (Some ''application/vnd.interoperability.quotes+json;version=2.0'')
       ''application/vnd.interoperability.quotes+json;version=2.0'' payerFsp (Some payeeFsp)"

definition headers_transfers_forRequest :: "string \<Rightarrow> string option \<Rightarrow> string \<Rightarrow> string \<Rightarrow> headers_map" where
  "headers_transfers_forRequest date traceparent payerFsp payeeFsp =
     createHeaders date traceparent (Some ''application/vnd.interoperability.transfers+json;version=2.0'')
       ''application/vnd.interoperability.transfers+json;version=2.0'' payerFsp (Some payeeFsp)"

section \<open>SendMoneyResponseMapper\<close>

definition toExtensionArray :: "extension_list option \<Rightarrow> extension list option" where
  "toExtensionArray el = Option.bind el el_extension"

definition FEE_EXTENSION_KEYS :: "string list" where
  "FEE_EXTENSION_KEYS = [''payeefee'', ''payerfee'', ''schemefee'']"

fun indexExtensions :: "extension list \<Rightarrow> (string \<times> string) list \<Rightarrow> (js_error, (string \<times> string) list) result" where
  "indexExtensions [] m = Inr m"
| "indexExtensions (x # xs) m =
     res_bind (ext_value_trim (ext_value x)) (\<lambda>value.
       (case (ext_key_opt x, value) of
          (Some k, Some v) \<Rightarrow> if k \<noteq> [] \<and> v \<noteq> [] then indexExtensions xs (AList.update k v m) else indexExtensions xs m
        | _ \<Rightarrow> indexExtensions xs m))"

definition removeFeeExtensions :: "extension list option \<Rightarrow> extension list option" where
  "removeFeeExtensions xs = map_option (filter (\<lambda>x. case ext_key_opt x of
       None \<Rightarrow> True
     | Some k \<Rightarrow> k = [] \<or> k \<notin> set FEE_EXTENSION_KEYS)) xs"

definition toResponse :: "transfer_request \<Rightarrow> state_enum \<Rightarrow> extension list option \<Rightarrow> (js_error, send_money_response) result" where
  "toResponse tr currentState extensionList =
     res_bind (indexExtensions (nullish extensionList []) []) (\<lambda>feeByKey. Inr \<lparr>
       rs_transferId = transferId tr, rs_homeTransactionId = homeTransactionId tr,
       rs_from = t_from tr, rs_to = t_to tr, rs_amountType = amountType tr,
       rs_transactionType = transactionType tr, rs_subScenario = subScenario tr, rs_note = t_note tr,
       rs_amount = amount tr,
       rs_payeeReceiveAmount = map_option m_amount (Option.bind (quotes tr) payeeReceiveAmount),
       rs_transferAmount = map_option m_amount (Option.bind (quotes tr) transferAmount),
       rs_payeeFee = nullish (map_of feeByKey ''payeefee'') ''0'',
       rs_payerFee = nullish (map_of feeByKey ''payerfee'') ''0'',
       rs_schemeFee = nullish (map_of feeByKey ''schemefee'') ''0'',
       rs_currency = currency tr, rs_currentState = currentState,
       rs_initiatedTimestamp = initiatedTimestamp tr, rs_direction = ''OUTGOING'',
       rs_supportedCurrencies = supportedCurrencies tr,
       rs_extensionList = removeFeeExtensions extensionList\<rparr>)"

definition toWaitingForPartyAcceptance :: "transfer_request \<Rightarrow> (js_error, send_money_response) result" where
  "toWaitingForPartyAcceptance tr = toResponse tr WaitingForPartyAcceptance None"

text \<open>The fee amount argument of the two mappings below is not used by \<open>toResponse\<close>.\<close>

definition toWaitingForQuoteAcceptance ::
  "transfer_request \<Rightarrow> string option \<Rightarrow> extension_list option \<Rightarrow> (js_error, send_money_response) result" where
  "toWaitingForQuoteAcceptance tr payeeFspFeeAmount el =
     toResponse tr WaitingForQuoteAcceptance (toExtensionArray el)"

definition toFinalState :: "transfer_request \<Rightarrow> string \<Rightarrow> extension_list option \<Rightarrow> (js_error, send_money_response) result" where
  "toFinalState tr transferState el =
     toResponse tr (if transferState = ''ABORTED'' then Aborted else Completed) (toExtensionArray el)"

section \<open>PayerProvidedFeesValidator\<close>

definition normalizeAndValidateFee :: "nat \<Rightarrow> string \<Rightarrow> js_value option \<Rightarrow> (js_error, string) result" where
  "normalizeAndValidateFee decimals fieldName value =
     (let check = (\<lambda>text.
            let normalized = normalizeAmount text in
            res_bind (guard_res (\<not> matches_amount_pattern normalized)
                (throw_fspiop MALFORMED_SYNTAX (fieldName @ '' must be a valid FSPIOP amount.''))) (\<lambda>_.
            res_bind (validate_decimals decimals (Some normalized)) (\<lambda>_. Inr normalized)))
      in case value of
           Some (JString s) \<Rightarrow> check s
         | Some (JNumber s) \<Rightarrow> check s
         | _ \<Rightarrow> Inl (throw_fspiop MALFORMED_SYNTAX (fieldName @ '' must be a string or number.'')))"

text \<open>The assignment to \<open>extension.value\<close> changes the list that is sent on: the first entry of that key.\<close>

fun set_value :: "string \<Rightarrow> string \<Rightarrow> extension list \<Rightarrow> extension list" where
  "set_value k v [] = []"
| "set_value k v (x # xs) = (if ext_key x = Some k then x\<lparr>ext_value := Some (JString v)\<rparr> # xs else x # set_value k v xs)"

definition find_ext :: "string \<Rightarrow> extension list \<Rightarrow> extension option" where
  "find_ext k xs = find (\<lambda>x. ext_key x = Some k) xs"

definition REQUIRED_EXTENSION_KEYS :: "string list" where
  "REQUIRED_EXTENSION_KEYS = [''payerProvidedSchemeFee'', ''payerProvidedPayerFee'']"

fun apply_fees :: "nat \<Rightarrow> string list \<Rightarrow> extension list \<Rightarrow> (js_error, extension list) result" where
  "apply_fees decimals [] xs = Inr xs"
| "apply_fees decimals (k # ks) xs =
     res_bind (normalizeAndValidateFee decimals k (Option.bind (find_ext k xs) ext_value)) (\<lambda>v.
       apply_fees decimals ks (set_value k v xs))"

definition validate_payer_fees ::
  "bool \<Rightarrow> nat \<Rightarrow> bool \<Rightarrow> extension_list option \<Rightarrow> (js_error, extension_list option) result" where
  "validate_payer_fees mandatory decimals acceptParty extensionList =
     (if \<not> acceptParty \<or> \<not> mandatory then Inr extensionList
      else
        (let extensions = nullish (toExtensionArray extensionList) []
         in if list_ex (\<lambda>k. find_ext k extensions = None) REQUIRED_EXTENSION_KEYS
            then Inl (throw_fspiop MISSING_EXTENSION_PARAMETER
                   ''Fee validation failed. Required fee information was not provided by the Payer DFSP.'')
            else res_bind (apply_fees decimals REQUIRED_EXTENSION_KEYS extensions) (\<lambda>xs.
                   Inr (Some \<lparr>el_extension = Some xs\<rparr>))))"

end
