(* ===== verification/Effects.thy ===== *)
theory Effects
  imports Fspiop_Errors
begin

text \<open>
  Asynchronous code as explicit state passing.  An \<open>async\<close> function is a computation that takes the
  world and returns what its promise settles with (\<open>Inl\<close> the thrown value, \<open>Inr\<close> the result) and
  the world after it.  \<open>io_bind\<close> is \<open>await\<close>, \<open>io_catch\<close> is \<open>try\<close>/\<open>catch\<close> and \<open>io_finally\<close> is
  \<open>try\<close>/\<open>finally\<close>, where an exception of the \<open>finally\<close> block replaces the outcome of the \<open>try\<close> block.
\<close>

type_synonym ('w, 'e, 'a) task = "'w \<Rightarrow> ('e, 'a) result \<times> 'w"
type_synonym ('w, 'a) io = "('w, js_error, 'a) task"

definition io_return :: "'a \<Rightarrow> ('w, 'e, 'a) task" where
  "io_return a w = (Inr a, w)"

definition io_throw :: "'e \<Rightarrow> ('w, 'e, 'a) task" where
  "io_throw e w = (Inl e, w)"

definition io_lift :: "('e, 'a) result \<Rightarrow> ('w, 'e, 'a) task" where
  "io_lift r w = (r, w)"

definition io_gets :: "('w \<Rightarrow> 'a) \<Rightarrow> ('w, 'e, 'a) task" where
  "io_gets f w = (Inr (f w), w)"

definition io_bind :: "('w, 'e, 'a) task \<Rightarrow> ('a \<Rightarrow> ('w, 'e, 'b) task) \<Rightarrow> ('w, 'e, 'b) task" where
  "io_bind m f w = (case m w of (Inl e, w') \<Rightarrow> (Inl e, w') | (Inr a, w') \<Rightarrow> f a w')"

definition io_catch :: "('w, 'e, 'a) task \<Rightarrow> ('e \<Rightarrow> ('w, 'e, 'a) task) \<Rightarrow> ('w, 'e, 'a) task" where
  "io_catch m h w = (case m w of (Inl e, w') \<Rightarrow> h e w' | (Inr a, w') \<Rightarrow> (Inr a, w'))"

definition io_finally :: "('w, 'e, 'a) task \<Rightarrow> ('w, 'e, 'b) task \<Rightarrow> ('w, 'e, 'a) task" where
  "io_finally m fin w = (case m w of (r, w') \<Rightarrow>
     (case fin w' of (Inl e, w'') \<Rightarrow> (Inl e, w'') | (Inr _, w'') \<Rightarrow> (r, w'')))"

text \<open>Running a computation on a component of the world.\<close>

definition io_on :: "('w \<Rightarrow> 's) \<Rightarrow> ('s \<Rightarrow> 'w \<Rightarrow> 'w) \<Rightarrow> ('s, 'e, 'a) task \<Rightarrow> ('w, 'e, 'a) task" where
  "io_on get put m w = (case m (get w) of (r, s) \<Rightarrow> (r, put s w))"

lemma io_simps [simp]:
  "io_return a w = (Inr a, w)"
  "io_throw e w = (Inl e, w)"
  "io_lift r w = (r, w)"
  "io_gets f w = (Inr (f w), w)"
  by (simp_all add: io_return_def io_throw_def io_lift_def io_gets_def)

lemma io_bind_Inr: "m w = (Inr a, w') \<Longrightarrow> io_bind m f w = f a w'"
  by (simp add: io_bind_def)

lemma io_bind_Inl: "m w = (Inl e, w') \<Longrightarrow> io_bind m f w = (Inl e, w')"
  by (simp add: io_bind_def)

lemma io_bind_pure [simp]:
  "io_bind (io_return a) f w = f a w"
  "io_bind (io_throw e) f w = (Inl e, w)"
  "io_bind (io_lift (Inr a)) f w = f a w"
  "io_bind (io_lift (Inl e)) f w = (Inl e, w)"
  "io_bind (io_gets g) f w = f (g w) w"
  by (simp_all add: io_bind_def)

lemma io_bind_Inr_iff:
  "io_bind m f w = (Inr b, w2) \<longleftrightarrow> (\<exists>a w1. m w = (Inr a, w1) \<and> f a w1 = (Inr b, w2))"
  by (auto simp: io_bind_def split: prod.splits sum.splits)

lemma io_bind_Inl_iff:
  "io_bind m f w = (Inl e, w2) \<longleftrightarrow> m w = (Inl e, w2) \<or> (\<exists>a w1. m w = (Inr a, w1) \<and> f a w1 = (Inl e, w2))"
  by (auto simp: io_bind_def split: prod.splits sum.splits)

lemma io_finally_throw:
  "io_finally m (io_finally d (io_throw x)) w = (Inl x, snd (d (snd (m w))))"
  by (simp add: io_finally_def split: prod.split sum.split)

lemma io_bind_cases:
  assumes "io_bind m f w = (x, w')"
  obtains (fail) e where "m w = (Inl e, w')" "x = Inl e"
  | (ok) a w1 where "m w = (Inr a, w1)" "f a w1 = (x, w')"
  using assms by (auto simp: io_bind_def split: prod.splits sum.splits)

lemma io_catch_cases:
  assumes "io_catch m h w = (x, w')"
  obtains (caught) e w1 where "m w = (Inl e, w1)" "h e w1 = (x, w')"
  | (ok) a where "m w = (Inr a, w')" "x = Inr a"
  using assms by (auto simp: io_catch_def split: prod.splits sum.splits)

lemma io_finally_cases:
  assumes "io_finally m fin w = (x, w')"
  obtains r w1 y where "m w = (r, w1)" "fin w1 = (y, w')" "x = (case y of Inl e \<Rightarrow> Inl e | Inr _ \<Rightarrow> r)"
  using assms by (auto simp: io_finally_def split: prod.splits sum.splits)

lemma io_lift_eq: "io_lift r w = (x, w') \<longleftrightarrow> x = r \<and> w' = w"
  by auto

lemma io_on_eq:
  "io_on g p m w = (x, w') \<longleftrightarrow> (\<exists>s. m (g w) = (x, s) \<and> w' = p s w)"
  by (auto simp: io_on_def split: prod.splits)

section \<open>What a computation adds to a log\<close>

text \<open>\<open>traces L m R\<close>: \<open>m\<close> only appends to the log \<open>L\<close> of the world, and \<open>R\<close> relates its outcome to what it appends.\<close>

definition traces :: "('w \<Rightarrow> 'l list) \<Rightarrow> ('w, 'e, 'a) task \<Rightarrow> (('e, 'a) result \<Rightarrow> 'l list \<Rightarrow> bool) \<Rightarrow> bool" where
  "traces L m R \<longleftrightarrow> (\<forall>w. \<exists>es. L (snd (m w)) = L w @ es \<and> R (fst (m w)) es)"

lemma tracesI: "(\<And>w. \<exists>es. L (snd (m w)) = L w @ es \<and> R (fst (m w)) es) \<Longrightarrow> traces L m R"
  by (simp add: traces_def)

lemma tracesE:
  assumes "traces L m R" "m w = (x, w')"
  obtains es where "L w' = L w @ es" "R x es"
  using assms by (metis fst_conv snd_conv traces_def)

lemma traces_mono: "traces L m R \<Longrightarrow> (\<And>r es. R r es \<Longrightarrow> R' r es) \<Longrightarrow> traces L m R'"
  unfolding traces_def by meson

lemma traces_pure:
  "R (Inr a) [] \<Longrightarrow> traces L (io_return a) R" "R (Inl e) [] \<Longrightarrow> traces L (io_throw e) R" "R r [] \<Longrightarrow> traces L (io_lift r) R"
  "(\<And>a. R (Inr a) []) \<Longrightarrow> traces L (io_gets g) R"
  by (simp_all add: traces_def)

lemma traces_bind:
  assumes "traces L m P" "\<And>a. traces L (f a) (Q a)"
    "\<And>e es. P (Inl e) es \<Longrightarrow> R (Inl e) es" "\<And>a es r es'. P (Inr a) es \<Longrightarrow> Q a r es' \<Longrightarrow> R r (es @ es')"
  shows "traces L (io_bind m f) R"
proof (rule tracesI)
  fix w
  obtain x w1 where m: "m w = (x, w1)" by fastforce
  obtain es where es: "L w1 = L w @ es" "P x es" by (rule tracesE[OF assms(1) m])
  show "\<exists>es. L (snd (io_bind m f w)) = L w @ es \<and> R (fst (io_bind m f w)) es"
  proof (cases x)
    case (Inl e)
    then show ?thesis using es assms(3) by (auto simp: io_bind_def m)
  next
    case (Inr a)
    obtain y w2 where f: "f a w1 = (y, w2)" by fastforce
    obtain es' where "L w2 = L w1 @ es'" "Q a y es'" by (rule tracesE[OF assms(2) f])
    then show ?thesis using es assms(4) Inr by (intro exI[of _ "es @ es'"]) (simp add: io_bind_def m f)
  qed
qed

lemma traces_catch:
  assumes "traces L m P" "\<And>e. traces L (h e) (Q e)"
    "\<And>a es. P (Inr a) es \<Longrightarrow> R (Inr a) es" "\<And>e es r es'. P (Inl e) es \<Longrightarrow> Q e r es' \<Longrightarrow> R r (es @ es')"
  shows "traces L (io_catch m h) R"
proof (rule tracesI)
  fix w
  obtain x w1 where m: "m w = (x, w1)" by fastforce
  obtain es where es: "L w1 = L w @ es" "P x es" by (rule tracesE[OF assms(1) m])
  show "\<exists>es. L (snd (io_catch m h w)) = L w @ es \<and> R (fst (io_catch m h w)) es"
  proof (cases x)
    case (Inr a)
    then show ?thesis using es assms(3) by (auto simp: io_catch_def m)
  next
    case (Inl e)
    obtain y w2 where f: "h e w1 = (y, w2)" by fastforce
    obtain es' where "L w2 = L w1 @ es'" "Q e y es'" by (rule tracesE[OF assms(2) f])
    then show ?thesis using es assms(4) Inl by (intro exI[of _ "es @ es'"]) (simp add: io_catch_def m f)
  qed
qed

text \<open>A step that neither appends nor needs the world.\<close>

lemma traces_after:
  assumes "\<And>a. traces L (f a) R"
  shows "(\<And>e. r = Inl e \<Longrightarrow> R (Inl e) []) \<Longrightarrow> traces L (io_bind (io_lift r) f) R" "traces L (io_bind (io_gets g) f) R"
  using assms by (cases r; auto simp: traces_def intro!: traces_pure)+

end
