(* ===== verification/Redis_Client.thy ===== *)
theory Redis_Client
  imports Effects
begin

text \<open>
  The Redis wrapper of the outbound service: \<open>component/redis-client.ts\<close> and
  \<open>component/suspicious-transaction-monitor.ts\<close> under \<open>packages/core/outbound/domain\<close>.

  The Redis server is not part of the repository.  Its commands are the fields of a record
  \<open>redis_api\<close> over an arbitrary server state, an argument of every definition that uses them, and
  the locale \<open>redis_commands\<close> names what the code relies on: the documented effect of \<open>GET\<close>, \<open>SET\<close>,
  \<open>SET NX\<close>, \<open>DEL\<close>, \<open>INCR\<close> and \<open>PEXPIRE\<close> on the live keys, where a command that fails may or may not
  have been executed.  The two Lua scripts are sources of this repository and are modelled as the
  command sequences they are; Redis runs a script as one step.  A stored value is the JSON text of an
  object (\<open>RJson\<close>), a plain text (\<open>RText\<close>) or a counter (\<open>RInt\<close>).

  \<open>mem_api\<close> is an in-memory server with a clock, key expiry and outages; it shows that the
  hypotheses are consistent.  Connection management and logging are not modelled.
\<close>

section \<open>The server as a parameter\<close>

datatype 'v rval = RJson 'v | RText string | RInt int

record ('r, 'v) redis_api =
  r_get :: "string \<Rightarrow> ('r, 'v rval option) io"
  r_set :: "string \<Rightarrow> 'v rval \<Rightarrow> int option \<Rightarrow> ('r, unit) io"
  r_setnx :: "string \<Rightarrow> 'v rval \<Rightarrow> int \<Rightarrow> ('r, bool) io"
  r_del :: "string \<Rightarrow> ('r, int) io"
  r_incr :: "string \<Rightarrow> ('r, int) io"
  r_pexpire :: "string \<Rightarrow> int \<Rightarrow> ('r, unit) io"

section \<open>RedisClient\<close>

definition LOCK_KEY_PREFIX :: string where
  "LOCK_KEY_PREFIX = ''lock:''"

definition lockKey :: "string \<Rightarrow> string" where
  "lockKey key = LOCK_KEY_PREFIX @ key"

definition RELEASE_LOCK_SCRIPT :: "('r, 'v) redis_api \<Rightarrow> string \<Rightarrow> string \<Rightarrow> ('r, int) io" where
  "RELEASE_LOCK_SCRIPT api key token =
     io_bind (r_get api key) (\<lambda>v.
       if v = Some (RText token) then r_del api key else io_return 0)"

definition INCREMENT_WITH_TTL_SCRIPT :: "('r, 'v) redis_api \<Rightarrow> string \<Rightarrow> int \<Rightarrow> ('r, int) io" where
  "INCREMENT_WITH_TTL_SCRIPT api key ttl =
     io_bind (r_incr api key) (\<lambda>count.
     io_bind (if count = 1 then r_pexpire api key ttl else io_return ()) (\<lambda>_.
       io_return count))"

definition redis_get :: "('r, 'v) redis_api \<Rightarrow> string \<Rightarrow> ('r, 'v option) io" where
  "redis_get api key =
     io_bind (r_get api key) (\<lambda>value. case value of
         None \<Rightarrow> io_return None
       | Some (RJson v) \<Rightarrow> io_return (Some v)
       | Some _ \<Rightarrow> io_throw (JsError ''Unexpected token in JSON''))"

definition redis_set :: "('r, 'v) redis_api \<Rightarrow> int \<Rightarrow> string \<Rightarrow> 'v \<Rightarrow> int option \<Rightarrow> ('r, unit) io" where
  "redis_set api defaultTtlMs key value ttlMs =
     (let resolvedTtlMs = nullish ttlMs defaultTtlMs
      in if resolvedTtlMs \<le> 0 then r_set api key (RJson value) None
         else r_set api key (RJson value) (Some resolvedTtlMs))"

definition redis_delete :: "('r, 'v) redis_api \<Rightarrow> string \<Rightarrow> ('r, unit) io" where
  "redis_delete api key = io_bind (r_del api key) (\<lambda>_. io_return ())"

definition int_dec :: "int \<Rightarrow> string" where
  "int_dec n = (if n < 0 then ''-'' @ dec_of_nat (nat (- n)) else dec_of_nat (nat n))"

definition incrementWithTtl :: "('r, 'v) redis_api \<Rightarrow> string \<Rightarrow> int \<Rightarrow> ('r, int) io" where
  "incrementWithTtl api key ttlMs =
     (if ttlMs \<le> 0
      then io_throw (JsError (''incrementWithTtl requires a positive ttlMs; got '' @ int_dec ttlMs))
      else INCREMENT_WITH_TTL_SCRIPT api key ttlMs)"

definition reserve :: "('r, 'v) redis_api \<Rightarrow> string \<Rightarrow> int \<Rightarrow> ('r, bool) io" where
  "reserve api key ttlMs = r_setnx api key (RText ''1'') ttlMs"

text \<open>\<open>token\<close> is the result of \<open>randomUUID()\<close>.\<close>

definition acquireLock :: "('r, 'v) redis_api \<Rightarrow> string \<Rightarrow> string \<Rightarrow> int \<Rightarrow> ('r, string option) io" where
  "acquireLock api token key ttlMs =
     io_bind (r_setnx api (lockKey key) (RText token) ttlMs) (\<lambda>ok.
       io_return (if ok then Some token else None))"

definition releaseLock :: "('r, 'v) redis_api \<Rightarrow> string \<Rightarrow> string \<Rightarrow> ('r, unit) io" where
  "releaseLock api key token =
     io_catch (io_bind (RELEASE_LOCK_SCRIPT api (lockKey key) token) (\<lambda>_. io_return ()))
       (\<lambda>error. io_return ())"

section \<open>SuspiciousTransactionMonitor\<close>

datatype match_field = PAYER_FSP_ID | PAYER_ID_VALUE | PAYEE_FSP_ID | PAYEE_ID_VALUE | AMOUNT | CURRENCY

definition DEFAULT_MATCHING_FIELDS :: "match_field list" where
  "DEFAULT_MATCHING_FIELDS = [PAYER_FSP_ID, PAYER_ID_VALUE, PAYEE_FSP_ID, PAYEE_ID_VALUE, AMOUNT]"

fun match_field_token :: "match_field \<Rightarrow> string" where
  "match_field_token PAYER_FSP_ID = ''payerFspId''"
| "match_field_token PAYER_ID_VALUE = ''payerIdValue''"
| "match_field_token PAYEE_FSP_ID = ''payeeFspId''"
| "match_field_token PAYEE_ID_VALUE = ''payeeIdValue''"
| "match_field_token AMOUNT = ''amount''"
| "match_field_token CURRENCY = ''currency''"

definition match_field_values :: "match_field list" where
  "match_field_values = [PAYER_FSP_ID, PAYER_ID_VALUE, PAYEE_FSP_ID, PAYEE_ID_VALUE, AMOUNT, CURRENCY]"

record pattern =
  pat_payerFsp :: string
  pat_payerId :: string
  pat_payeeFsp :: string
  pat_payeeId :: string
  pat_currency :: string
  pat_amount :: string

fun fieldValue :: "pattern \<Rightarrow> match_field \<Rightarrow> string" where
  "fieldValue p PAYER_FSP_ID = pat_payerFsp p"
| "fieldValue p PAYER_ID_VALUE = pat_payerId p"
| "fieldValue p PAYEE_FSP_ID = pat_payeeFsp p"
| "fieldValue p PAYEE_ID_VALUE = pat_payeeId p"
| "fieldValue p AMOUNT = pat_amount p"
| "fieldValue p CURRENCY = pat_currency p"

definition buildKey :: "pattern \<Rightarrow> match_field list \<Rightarrow> string" where
  "buildKey p matchingFields = ''suspicious:'' @ join_with ''|'' (map (fieldValue p) matchingFields)"

definition allowed_text :: string where
  "allowed_text = join_with '', '' (map match_field_token match_field_values)"

fun parse_tokens :: "string list \<Rightarrow> match_field list \<Rightarrow> (js_error, match_field list) result" where
  "parse_tokens [] acc = Inr acc"
| "parse_tokens (t # ts) acc = (case find (\<lambda>f. match_field_token f = t) match_field_values of
     None \<Rightarrow> Inl (JsError (''Invalid SUSPICIOUS_TRANSACTION_MATCHING_FIELDS value '' @ [CHR 0x27] @ t @ [CHR 0x27]
       @ ''. Allowed: '' @ allowed_text @ ''.''))
   | Some f \<Rightarrow> if f \<in> set acc then parse_tokens ts acc else parse_tokens ts (acc @ [f]))"

definition parseMatchingFields :: "string \<Rightarrow> (js_error, match_field list) result" where
  "parseMatchingFields raw =
     (let tokens = filter (\<lambda>t. length t > 0) (map trim (split_on (CHR '','') raw))
      in if length tokens = 0
         then Inl (JsError (''SUSPICIOUS_TRANSACTION_MATCHING_FIELDS must list at least one field (allowed: ''
                @ allowed_text @ '').''))
         else parse_tokens tokens [])"

record monitor =
  mon_windowMs :: int
  mon_threshold :: int
  mon_enabled :: bool
  mon_matchingFields :: "match_field list"

definition assertNotSuspicious :: "('r, 'v) redis_api \<Rightarrow> monitor \<Rightarrow> pattern \<Rightarrow> ('r, unit) io" where
  "assertNotSuspicious api mon p =
     (if \<not> mon_enabled mon \<or> mon_windowMs mon \<le> 0 \<or> mon_threshold mon \<le> 0 then io_return ()
      else
        io_bind (incrementWithTtl api (buildKey p (mon_matchingFields mon)) (mon_windowMs mon)) (\<lambda>count.
          if count \<le> mon_threshold mon then io_return ()
          else io_throw (throw_fspiop SUSPICIOUS_TRANSACTION_PATTERN
                 ''Suspicious repetitive transaction pattern detected within the monitoring window.'')))"

section \<open>An in-memory server\<close>

record 'v mem_redis =
  mr_store :: "(string \<times> ('v rval \<times> int option)) list"
  mr_now :: int
  mr_up :: bool

definition mem_view :: "'v mem_redis \<Rightarrow> string \<Rightarrow> 'v rval option" where
  "mem_view r k = (case map_of (mr_store r) k of
     None \<Rightarrow> None
   | Some (v, None) \<Rightarrow> Some v
   | Some (v, Some expires) \<Rightarrow> if expires \<le> mr_now r then None else Some v)"

definition mem_put :: "string \<Rightarrow> 'v rval \<Rightarrow> int option \<Rightarrow> 'v mem_redis \<Rightarrow> 'v mem_redis" where
  "mem_put k v px r = r\<lparr>mr_store := AList.update k (v, map_option (\<lambda>t. mr_now r + max 1 t) px) (mr_store r)\<rparr>"

definition mem_call :: "('v mem_redis, 'a) io \<Rightarrow> ('v mem_redis, 'a) io" where
  "mem_call m r = (if mr_up r then m r else (Inl (JsError ''The client is closed''), r))"

definition mem_api :: "('v mem_redis, 'v) redis_api" where
  "mem_api = \<lparr>
     r_get = (\<lambda>k. mem_call (\<lambda>r. (Inr (mem_view r k), r))),
     r_set = (\<lambda>k v px. mem_call (\<lambda>r. (Inr (), mem_put k v px r))),
     r_setnx = (\<lambda>k v px. mem_call (\<lambda>r.
        if mem_view r k = None then (Inr True, mem_put k v (Some px) r) else (Inr False, r))),
     r_del = (\<lambda>k. mem_call (\<lambda>r.
        (Inr (if mem_view r k = None then 0 else 1), r\<lparr>mr_store := AList.delete k (mr_store r)\<rparr>))),
     r_incr = (\<lambda>k. mem_call (\<lambda>r. case mem_view r k of
          None \<Rightarrow> (Inr 1, mem_put k (RInt 1) None r)
        | Some (RInt n) \<Rightarrow> (Inr (n + 1), r\<lparr>mr_store := AList.update k
              (RInt (n + 1), Option.bind (map_of (mr_store r) k) snd) (mr_store r)\<rparr>)
        | Some _ \<Rightarrow> (Inl (JsError ''ERR value is not an integer or out of range''), r))),
     r_pexpire = (\<lambda>k t. mem_call (\<lambda>r. (Inr (), case mem_view r k of
          None \<Rightarrow> r
        | Some v \<Rightarrow> mem_put k v (Some t) r)))\<rparr>"

section \<open>Runs of the lock protocol and of the monitor\<close>

text \<open>
  Holders are recorded with the key and the token they got.  A holder whose lock expired while it is
  still working is stale; it will still call \<open>releaseLock\<close> with its token.  Tokens are fresh, as
  \<open>randomUUID()\<close> makes them.  \<open>run_expire\<close> is the server dropping a lock key when its time is up and
  \<open>run_work\<close> any command on other keys.
\<close>

record 'r lock_state =
  ls_redis :: 'r
  ls_holders :: "(string \<times> string) list"
  ls_stale :: "(string \<times> string) list"
  ls_used :: "string list"

inductive lock_run :: "('r, 'v) redis_api \<Rightarrow> ('r \<Rightarrow> string \<Rightarrow> 'v rval option) \<Rightarrow> 'r lock_state \<Rightarrow> bool" for api view where
  run_init: "\<forall>k. view r (lockKey k) = None \<Longrightarrow>
    lock_run api view \<lparr>ls_redis = r, ls_holders = [], ls_stale = [], ls_used = []\<rparr>"
| run_acquire: "lock_run api view s \<Longrightarrow> token \<notin> set (ls_used s) \<Longrightarrow>
    acquireLock api token key ttl (ls_redis s) = (Inr (Some t), r') \<Longrightarrow>
    lock_run api view (s\<lparr>ls_redis := r', ls_holders := (key, t) # ls_holders s, ls_used := token # ls_used s\<rparr>)"
| run_denied: "lock_run api view s \<Longrightarrow> token \<notin> set (ls_used s) \<Longrightarrow>
    acquireLock api token key ttl (ls_redis s) = (x, r') \<Longrightarrow> (\<forall>t. x \<noteq> Inr (Some t)) \<Longrightarrow>
    lock_run api view (s\<lparr>ls_redis := r', ls_used := token # ls_used s\<rparr>)"
| run_release: "lock_run api view s \<Longrightarrow> (key, t) \<in> set (ls_holders s) \<Longrightarrow>
    releaseLock api key t (ls_redis s) = (x, r') \<Longrightarrow>
    lock_run api view (s\<lparr>ls_redis := r', ls_holders := removeAll (key, t) (ls_holders s)\<rparr>)"
| run_release_stale: "lock_run api view s \<Longrightarrow> (key, t) \<in> set (ls_stale s) \<Longrightarrow>
    releaseLock api key t (ls_redis s) = (x, r') \<Longrightarrow>
    lock_run api view (s\<lparr>ls_redis := r', ls_stale := removeAll (key, t) (ls_stale s)\<rparr>)"
| run_expire: "lock_run api view s \<Longrightarrow> view r' = (view (ls_redis s))(lockKey key := None) \<Longrightarrow>
    lock_run api view (s\<lparr>ls_redis := r', ls_holders := filter (\<lambda>h. fst h \<noteq> key) (ls_holders s),
      ls_stale := filter (\<lambda>h. fst h = key) (ls_holders s) @ ls_stale s\<rparr>)"
| run_work: "lock_run api view s \<Longrightarrow> (\<forall>k. view r' (lockKey k) = view (ls_redis s) (lockKey k)) \<Longrightarrow>
    lock_run api view (s\<lparr>ls_redis := r'\<rparr>)"

text \<open>\<open>n\<close> consecutive checks of one pattern, with their outcomes.\<close>

fun attempts :: "('r, 'v) redis_api \<Rightarrow> monitor \<Rightarrow> pattern \<Rightarrow> nat \<Rightarrow> 'r \<Rightarrow> (js_error, unit) result list \<times> 'r" where
  "attempts api mon p 0 r = ([], r)"
| "attempts api mon p (Suc n) r =
     (case assertNotSuspicious api mon p r of (x, r1) \<Rightarrow>
        (case attempts api mon p n r1 of (xs, r2) \<Rightarrow> (x # xs, r2)))"

definition counter_of :: "'v rval option \<Rightarrow> int option" where
  "counter_of v = (case v of None \<Rightarrow> Some 0 | Some (RInt n) \<Rightarrow> Some n | _ \<Rightarrow> None)"

section \<open>What the code relies on\<close>

locale redis_commands =
  fixes api :: "('r, 'v) redis_api" and view :: "'r \<Rightarrow> string \<Rightarrow> 'v rval option"
  assumes get_effect: "r_get api k r = (g, r') \<Longrightarrow> view r' = view r \<and> (\<forall>v. g = Inr v \<longrightarrow> v = view r k)"
    and set_effect: "r_set api k v px r = (s, r') \<Longrightarrow>
      view r' = (view r)(k \<mapsto> v) \<or> (\<exists>e. s = Inl e) \<and> view r' = view r"
    and setnx_effect: "r_setnx api k v t r = (b, r') \<Longrightarrow>
      (b = Inr False \<and> view r k \<noteq> None \<and> view r' = view r) \<or>
      (b = Inr True \<and> view r k = None \<and> view r' = (view r)(k \<mapsto> v)) \<or>
      (\<exists>e. b = Inl e) \<and> (view r' = view r \<or> view r k = None \<and> view r' = (view r)(k \<mapsto> v))"
    and del_effect: "r_del api k r = (d, r') \<Longrightarrow>
      view r' = (view r)(k := None) \<or> (\<exists>e. d = Inl e) \<and> view r' = view r"
    and incr_effect: "r_incr api k r = (i, r') \<Longrightarrow>
      (\<exists>n. counter_of (view r k) = Some n \<and> view r' = (view r)(k \<mapsto> RInt (n + 1)) \<and> (i = Inr (n + 1) \<or> (\<exists>e. i = Inl e))) \<or>
      (\<exists>e. i = Inl e) \<and> view r' = view r"
    and pexpire_effect: "r_pexpire api k t r = (u, r') \<Longrightarrow> view r' = view r"

text \<open>
  The contract the send-money handlers use: a cache of JSON objects with a per-key lock.  It follows
  from the command effects for the \<open>RedisClient\<close> operations.
\<close>

locale transfer_cache =
  fixes cget :: "string \<Rightarrow> ('r, 'v option) io"
    and cset :: "string \<Rightarrow> 'v \<Rightarrow> int option \<Rightarrow> ('r, unit) io"
    and cdel :: "string \<Rightarrow> ('r, unit) io"
    and lock :: "string \<Rightarrow> string \<Rightarrow> int \<Rightarrow> ('r, string option) io"
    and unlock :: "string \<Rightarrow> string \<Rightarrow> ('r, unit) io"
    and view :: "'r \<Rightarrow> string \<Rightarrow> 'v rval option"
  assumes cget_law: "cget k r = (g, r') \<Longrightarrow> view r' = view r \<and> (g = Inr None \<longrightarrow> view r k = None) \<and>
      (\<forall>v. g = Inr (Some v) \<longrightarrow> view r k = Some (RJson v))"
    and cset_law: "cset k v px r = (s, r') \<Longrightarrow>
      view r' = (view r)(k \<mapsto> RJson v) \<or> (\<exists>e. s = Inl e) \<and> view r' = view r"
    and cdel_law: "cdel k r = (d, r') \<Longrightarrow> view r' = (view r)(k := None) \<or> (\<exists>e. d = Inl e) \<and> view r' = view r"
    and lock_law: "lock token k ttl r = (l, r') \<Longrightarrow>
      (l = Inr (Some token) \<and> view r (lockKey k) = None \<and> view r' = (view r)(lockKey k \<mapsto> RText token)) \<or>
      (l = Inr None \<and> view r (lockKey k) \<noteq> None \<and> view r' = view r) \<or>
      (\<exists>e. l = Inl e) \<and> (view r' = view r \<or> view r (lockKey k) = None \<and> view r' = (view r)(lockKey k \<mapsto> RText token))"
    and unlock_law: "unlock k token r = (u, r') \<Longrightarrow> u = Inr () \<and>
      (view r' = view r \<or> view r (lockKey k) = Some (RText token) \<and> view r' = (view r)(lockKey k := None))"
begin

lemma lock_denied_while_held:
  "view r (lockKey k) \<noteq> None \<Longrightarrow> lock token k ttl r = (l, r') \<Longrightarrow> l \<noteq> Inr (Some t) \<and> view r' = view r"
  using lock_law[of token k ttl r l r'] by auto

lemma lock_granted:
  assumes "lock token k ttl r = (Inr (Some t), r')"
  shows "t = token" "view r (lockKey k) = None" "view r' = (view r)(lockKey k \<mapsto> RText token)"
  using lock_law[OF assms] by auto

lemma unlock_keeps_others:
  assumes "unlock k token r = (u, r')" "view r j \<noteq> Some (RText token) \<or> j \<noteq> lockKey k"
  shows "view r' j = view r j"
  using unlock_law[OF assms(1)] assms(2) by auto

end

lemma io_pairE: obtains x w' where "m w = (x, w')"
  by (cases "m w")

context redis_commands
begin

lemma redis_get_law:
  assumes "redis_get api k r = (g, r')"
  shows "view r' = view r \<and> (g = Inr None \<longrightarrow> view r k = None) \<and> (\<forall>v. g = Inr (Some v) \<longrightarrow> view r k = Some (RJson v))"
proof -
  obtain x r1 where x: "r_get api k r = (x, r1)" by (rule io_pairE)
  show ?thesis using assms get_effect[OF x] x
    by (auto simp: redis_get_def io_bind_def split: sum.splits option.splits rval.splits)
qed

lemma redis_set_law:
  "redis_set api d k v ttl r = (s, r') \<Longrightarrow> view r' = (view r)(k \<mapsto> RJson v) \<or> (\<exists>e. s = Inl e) \<and> view r' = view r"
  by (auto simp: redis_set_def Let_def dest: set_effect split: if_splits)

lemma redis_delete_law:
  assumes "redis_delete api k r = (d, r')"
  shows "view r' = (view r)(k := None) \<or> (\<exists>e. d = Inl e) \<and> view r' = view r"
proof -
  obtain x r1 where x: "r_del api k r = (x, r1)" by (rule io_pairE)
  show ?thesis using assms del_effect[OF x] x by (auto simp: redis_delete_def io_bind_def split: sum.splits)
qed

lemma acquireLock_law:
  assumes "acquireLock api token k ttl r = (l, r')"
  shows "(l = Inr (Some token) \<and> view r (lockKey k) = None \<and> view r' = (view r)(lockKey k \<mapsto> RText token)) \<or>
      (l = Inr None \<and> view r (lockKey k) \<noteq> None \<and> view r' = view r) \<or>
      (\<exists>e. l = Inl e) \<and> (view r' = view r \<or> view r (lockKey k) = None \<and> view r' = (view r)(lockKey k \<mapsto> RText token))"
proof -
  obtain x r1 where x: "r_setnx api (lockKey k) (RText token) ttl r = (x, r1)" by (rule io_pairE)
  show ?thesis using assms setnx_effect[OF x] x by (auto simp: acquireLock_def io_bind_def split: sum.splits)
qed

lemma releaseLock_law:
  assumes "releaseLock api k token r = (u, r')"
  shows "u = Inr () \<and> (view r' = view r \<or> view r (lockKey k) = Some (RText token) \<and> view r' = (view r)(lockKey k := None))"
proof -
  obtain x r1 where x: "r_get api (lockKey k) r = (x, r1)" by (rule io_pairE)
  obtain y r2 where y: "r_del api (lockKey k) r1 = (y, r2)" by (rule io_pairE)
  show ?thesis using assms get_effect[OF x] del_effect[OF y] x y
    by (auto simp: releaseLock_def RELEASE_LOCK_SCRIPT_def io_bind_def io_catch_def split: sum.splits if_splits)
qed

lemma increment_law:
  assumes "incrementWithTtl api k ttl r = (i, r')"
  shows "(\<exists>n. counter_of (view r k) = Some n \<and> view r' = (view r)(k \<mapsto> RInt (n + 1)) \<and> (i = Inr (n + 1) \<or> (\<exists>e. i = Inl e))) \<or>
      (\<exists>e. i = Inl e) \<and> view r' = view r"
proof -
  obtain x r1 where x: "r_incr api k r = (x, r1)" by (rule io_pairE)
  obtain y r2 where y: "r_pexpire api k ttl r1 = (y, r2)" by (rule io_pairE)
  show ?thesis using assms incr_effect[OF x] pexpire_effect[OF y] x y
    by (auto simp: incrementWithTtl_def INCREMENT_WITH_TTL_SCRIPT_def io_bind_def split: sum.splits if_splits)
qed

end

sublocale redis_commands \<subseteq> transfer_cache "redis_get api" "redis_set api d" "redis_delete api" "acquireLock api" "releaseLock api" view
  for d
  by unfold_locales (fact redis_get_law redis_set_law redis_delete_law acquireLock_law releaseLock_law)+

lemma mem_view_put: "mem_view (mem_put k v px r) = (mem_view r)(k \<mapsto> v)"
  by (auto simp: mem_view_def mem_put_def fun_eq_iff AList.update_conv' split: option.splits prod.splits)

lemma mem_view_delete: "mem_view (r\<lparr>mr_store := AList.delete k (mr_store r)\<rparr>) = (mem_view r)(k := None)"
  by (auto simp: mem_view_def fun_eq_iff AList.delete_conv' split: option.splits prod.splits)

lemma mem_view_incr:
  "mem_view r k = Some (RInt n) \<Longrightarrow>
   mem_view (r\<lparr>mr_store := AList.update k (RInt m, Option.bind (map_of (mr_store r) k) snd) (mr_store r)\<rparr>) =
     (mem_view r)(k \<mapsto> RInt m)"
  by (auto simp: mem_view_def fun_eq_iff AList.update_conv' split: option.splits prod.splits if_splits)

interpretation mem: redis_commands mem_api mem_view
proof (unfold_locales, goal_cases)
  case (1 k r g r')
  then show ?case by (auto simp: mem_api_def mem_call_def split: if_splits)
next
  case (2 k v px r s r')
  then show ?case by (auto simp: mem_api_def mem_call_def mem_view_put split: if_splits)
next
  case (3 k v t r b r')
  then show ?case by (auto simp: mem_api_def mem_call_def mem_view_put split: if_splits)
next
  case (4 k r d r')
  then show ?case by (auto simp: mem_api_def mem_call_def mem_view_delete split: if_splits)
next
  case (5 k r i r')
  then show ?case
    by (auto simp: mem_api_def mem_call_def mem_view_put mem_view_incr counter_of_def
        split: if_splits option.splits rval.splits)
next
  case (6 k t r u r')
  then show ?case
    by (auto simp: mem_api_def mem_call_def mem_view_put split: if_splits option.splits)
qed

section \<open>Lock protocol and monitor\<close>

definition lock_inv :: "('r \<Rightarrow> string \<Rightarrow> 'v rval option) \<Rightarrow> 'r lock_state \<Rightarrow> bool" where
  "lock_inv view s \<longleftrightarrow>
     (\<forall>(k, t) \<in> set (ls_holders s). view (ls_redis s) (lockKey k) = Some (RText t)) \<and>
     distinct (map snd (ls_holders s @ ls_stale s)) \<and>
     snd ` set (ls_holders s @ ls_stale s) \<subseteq> set (ls_used s)"

lemma lock_invD: "lock_inv view s \<Longrightarrow> (k, t) \<in> set (ls_holders s) \<Longrightarrow> view (ls_redis s) (lockKey k) = Some (RText t)"
  by (auto simp: lock_inv_def)

lemma lockKey_eq [simp]: "lockKey a = lockKey b \<longleftrightarrow> a = b"
  by (simp add: lockKey_def)

lemma distinct_map_mono: "distinct (map f (xs @ ys)) \<Longrightarrow> distinct (map f (filter P xs @ filter Q ys))"
  by (auto simp: distinct_map_filter)

lemma distinct_move: "distinct (map f (xs @ ys)) \<Longrightarrow> distinct (map f (filter (\<lambda>x. \<not> P x) xs @ filter P xs @ ys))"
  by (induction xs) auto

context redis_commands
begin

lemma lock_run_inv: "lock_run api view s \<Longrightarrow> lock_inv view s"
proof (induction rule: lock_run.induct)
  case (run_acquire s token key ttl t r')
  note g = lock_granted[OF run_acquire(3)]
  have "fst h \<noteq> key" if "h \<in> set (ls_holders s)" for h
    using run_acquire(4) that g(2) by (auto simp: lock_inv_def)
  then have "view r' (lockKey k) = Some (RText u)" if "(k, u) \<in> set ((key, t) # ls_holders s)" for k u
    using that run_acquire(4) g(1,3) by (fastforce simp: lock_inv_def)
  moreover have "t \<notin> snd ` set (ls_holders s @ ls_stale s)"
    using run_acquire(2,4) g(1) by (auto simp: lock_inv_def)
  ultimately show ?case using run_acquire(4) g(1) by (auto simp: lock_inv_def)
next
  case (run_denied s token key ttl x r')
  have "view r' (lockKey k) = Some (RText t)" if "(k, t) \<in> set (ls_holders s)" for k t
    using lock_invD[OF run_denied(5) that] acquireLock_law[OF run_denied(3)] run_denied(4) by auto
  then show ?case using run_denied(5) by (auto simp: lock_inv_def)
next
  case (run_release s key t x r')
  have "view r' (lockKey k) = Some (RText u)" if h: "(k, u) \<in> set (ls_holders s)" "(k, u) \<noteq> (key, t)" for k u
  proof -
    have v: "view (ls_redis s) (lockKey k) = Some (RText u)" "view (ls_redis s) (lockKey key) = Some (RText t)"
      using run_release(2,4) h(1) by (auto simp: lock_inv_def)
    then have "k \<noteq> key" using h(2) by auto
    then show ?thesis using v unlock_keeps_others[OF run_release(3), of "lockKey k"] by simp
  qed
  moreover have "distinct (map snd (removeAll (key, t) (ls_holders s) @ ls_stale s))"
    using run_release(4) distinct_map_mono[of snd "ls_holders s" "ls_stale s" "\<lambda>h. (key, t) \<noteq> h" "\<lambda>_. True"]
    by (simp add: lock_inv_def removeAll_filter_not_eq)
  ultimately show ?case using run_release(4) by (auto simp: lock_inv_def)
next
  case (run_release_stale s key t x r')
  have "view r' (lockKey k) = Some (RText u)" if h: "(k, u) \<in> set (ls_holders s)" for k u
  proof -
    have v: "view (ls_redis s) (lockKey k) = Some (RText u)" using run_release_stale(4) h by (auto simp: lock_inv_def)
    have "u \<noteq> t" using run_release_stale(2,4) h by (force simp: lock_inv_def)
    then show ?thesis using v unlock_keeps_others[OF run_release_stale(3), of "lockKey k"] by simp
  qed
  moreover have "distinct (map snd (ls_holders s @ removeAll (key, t) (ls_stale s)))"
    using run_release_stale(4) distinct_map_mono[of snd "ls_holders s" "ls_stale s" "\<lambda>_. True" "\<lambda>h. (key, t) \<noteq> h"]
    by (simp add: lock_inv_def removeAll_filter_not_eq)
  ultimately show ?case using run_release_stale(4) by (auto simp: lock_inv_def)
next
  case (run_expire s r' key)
  have "distinct (map snd (filter (\<lambda>h. fst h \<noteq> key) (ls_holders s) @ filter (\<lambda>h. fst h = key) (ls_holders s) @ ls_stale s))"
    using run_expire(3) distinct_move[of snd "ls_holders s" "ls_stale s" "\<lambda>h. fst h = key"] by (simp add: lock_inv_def)
  then show ?case using run_expire(2,3) by (auto simp: lock_inv_def)
qed (auto simp: lock_inv_def)

lemma assertNotSuspicious_law:
  assumes "assertNotSuspicious api mon p r = (x, r')" "mon_enabled mon" "0 < mon_windowMs mon" "0 < mon_threshold mon"
    and "counter_of (view r (buildKey p (mon_matchingFields mon))) = Some c"
  obtains (counted) "counter_of (view r' (buildKey p (mon_matchingFields mon))) = Some (c + 1)"
      "x = Inr () \<Longrightarrow> c + 1 \<le> mon_threshold mon"
  | (failed) e where "x = Inl e" "view r' = view r"
proof -
  let ?k = "buildKey p (mon_matchingFields mon)"
  obtain i r1 where i: "incrementWithTtl api ?k (mon_windowMs mon) r = (i, r1)" by (rule io_pairE)
  have r': "r' = r1" and x: "\<And>n. i = Inr n \<Longrightarrow> x = Inr () \<Longrightarrow> n \<le> mon_threshold mon" "\<And>e. i = Inl e \<Longrightarrow> x = Inl e"
    using assms(1-4) i by (auto simp: assertNotSuspicious_def io_bind_def split: sum.splits if_splits)
  from increment_law[OF i] show ?thesis
  proof
    assume "\<exists>n. counter_of (view r ?k) = Some n \<and> view r1 = (view r)(?k \<mapsto> RInt (n + 1)) \<and> (i = Inr (n + 1) \<or> (\<exists>e. i = Inl e))"
    then have "view r1 = (view r)(?k \<mapsto> RInt (c + 1))" "i = Inr (c + 1) \<or> (\<exists>e. i = Inl e)" using assms(5) by auto
    then show ?thesis using r' x by (intro counted) (auto simp: counter_of_def)
  next
    assume "(\<exists>e. i = Inl e) \<and> view r1 = view r"
    then show ?thesis using r' x failed by blast
  qed
qed

lemma attempts_bound:
  assumes "mon_enabled mon" "0 < mon_windowMs mon" "0 < mon_threshold mon"
    and "counter_of (view r (buildKey p (mon_matchingFields mon))) = Some c" "attempts api mon p n r = (xs, r')"
  shows "int (length (filter (\<lambda>x. x = Inr ()) xs)) \<le> max 0 (mon_threshold mon - c)"
  using assms(4,5)
proof (induction n arbitrary: r c xs r')
  case (Suc n)
  obtain x r1 where x: "assertNotSuspicious api mon p r = (x, r1)" by (rule io_pairE)
  obtain ys r2 where ys: "attempts api mon p n r1 = (ys, r2)" by (rule io_pairE)
  have xs: "xs = x # ys" using Suc.prems(2) x ys by simp
  show ?case
  proof (cases rule: assertNotSuspicious_law[OF x assms(1-3) Suc.prems(1)])
    case 1
    note counted = this
    from Suc.IH[OF counted(1) ys] counted(2) show ?thesis by (auto simp: xs)
  next
    case (2 e)
    note failed = this
    from Suc.IH[OF _ ys, of c] Suc.prems(1) failed show ?thesis by (simp add: xs)
  qed
qed simp

end

section \<open>Properties\<close>

text \<open>
  C16: the distributed lock excludes.  In every run of acquisitions, releases, expiries and other commands, two live
  holders of one key hold the same token, a live holder's token is what the server stores (so a late
  release by a holder whose lock has expired never removes another holder's lock), and while a key
  is held no other \<open>acquireLock\<close> on it is granted.
\<close>

theorem lock_excludes:
  assumes "redis_commands api view" "lock_run api view s" "(k, t) \<in> set (ls_holders s)"
  shows "((k, u) \<in> set (ls_holders s) \<longrightarrow> u = t)
     \<and> view (ls_redis s) (lockKey k) = Some (RText t)
     \<and> (acquireLock api token k ttl (ls_redis s) = (x, r') \<longrightarrow> x \<noteq> Inr (Some v) \<and> view r' = view (ls_redis s))"
proof -
  have v: "view (ls_redis s) (lockKey k') = Some (RText t')" if "(k', t') \<in> set (ls_holders s)" for k' t'
    using redis_commands.lock_run_inv[OF assms(1,2)] that by (auto simp: lock_inv_def)
  from v[OF assms(3)] have "acquireLock api token k ttl (ls_redis s) = (x, r') \<Longrightarrow> x \<noteq> Inr (Some v) \<and> view r' = view (ls_redis s)"
    using redis_commands.acquireLock_law[OF assms(1), of token k ttl "ls_redis s" x r'] by auto
  with v[OF assms(3)] v[of k u] show ?thesis by auto
qed

theorem lock_excludes_witness:
  "fst (acquireLock mem_api ''t2'' ''a'' 40000 (snd (acquireLock mem_api ''t1'' ''a'' 40000
     (\<lparr>mr_store = [], mr_now = 0, mr_up = True\<rparr> :: unit mem_redis)))) \<noteq> Inr (Some ''t2'')"
proof -
  let ?r = "\<lparr>mr_store = [], mr_now = 0, mr_up = True\<rparr> :: unit mem_redis"
  let ?s = "\<lparr>ls_redis = ?r, ls_holders = [], ls_stale = [], ls_used = []\<rparr>"
  have i: "lock_run mem_api mem_view ?s" by (rule run_init) (simp add: mem_view_def)
  obtain r1 where r1: "acquireLock mem_api ''t1'' ''a'' 40000 ?r = (Inr (Some ''t1''), r1)"
    by (simp add: acquireLock_def mem_api_def mem_call_def mem_view_def io_bind_def)
  obtain x r2 where x: "acquireLock mem_api ''t2'' ''a'' 40000 r1 = (x, r2)" by (rule io_pairE)
  have "lock_run mem_api mem_view (?s\<lparr>ls_redis := r1, ls_holders := (''a'', ''t1'') # ls_holders ?s, ls_used := ''t1'' # ls_used ?s\<rparr>)"
    by (rule run_acquire[OF i]) (use r1 in simp_all)
  from lock_excludes[OF mem.redis_commands_axioms this, of "''a''" "''t1''"] x r1 show ?thesis by fastforce
qed

text \<open>
  \<open>SuspiciousTransactionMonitor\<close> lets at most \<open>threshold\<close> checks of one pattern pass inside a window.  Starting from an
  absent counter, of any number of consecutive checks at most \<open>threshold\<close> succeed, whether or not
  Redis fails on some of them (a failure rejects the check).
\<close>

theorem suspicious_threshold:
  assumes "redis_commands api view" "mon_enabled mon" "0 < mon_windowMs mon" "0 < mon_threshold mon"
    and "view r (buildKey p (mon_matchingFields mon)) = None" "attempts api mon p n r = (outcomes, r')"
  shows "int (length (filter (\<lambda>x. x = Inr ()) outcomes)) \<le> mon_threshold mon"
proof -
  have "counter_of (view r (buildKey p (mon_matchingFields mon))) = Some 0" using assms(5) by (simp add: counter_of_def)
  from redis_commands.attempts_bound[OF assms(1-4) this assms(6)] show ?thesis using assms(4) by simp
qed

theorem suspicious_threshold_witness:
  "let mon = \<lparr>mon_windowMs = 60000, mon_threshold = 2, mon_enabled = True, mon_matchingFields = DEFAULT_MATCHING_FIELDS\<rparr>;
       p = \<lparr>pat_payerFsp = ''a'', pat_payerId = ''1'', pat_payeeFsp = ''b'', pat_payeeId = ''2'', pat_currency = ''USD'', pat_amount = ''5''\<rparr>
   in length (filter (\<lambda>x. x = Inr ())
        (fst (attempts mem_api mon p 3 (\<lparr>mr_store = [], mr_now = 0, mr_up = True\<rparr> :: unit mem_redis)))) \<le> 2"
proof -
  let ?mon = "\<lparr>mon_windowMs = 60000, mon_threshold = 2, mon_enabled = True, mon_matchingFields = DEFAULT_MATCHING_FIELDS\<rparr>"
  let ?p = "\<lparr>pat_payerFsp = ''a'', pat_payerId = ''1'', pat_payeeFsp = ''b'', pat_payeeId = ''2'', pat_currency = ''USD'', pat_amount = ''5''\<rparr>"
  let ?r = "\<lparr>mr_store = [], mr_now = 0, mr_up = True\<rparr> :: unit mem_redis"
  obtain xs r' where xs: "attempts mem_api ?mon ?p 3 ?r = (xs, r')" by (rule io_pairE)
  have "int (length (filter (\<lambda>x. x = Inr ()) xs)) \<le> mon_threshold ?mon"
    by (rule suspicious_threshold[OF mem.redis_commands_axioms _ _ _ _ xs]) (simp_all add: mem_view_def)
  then show ?thesis using xs by simp
qed

end
