(* ===== verification/Send_Money.thy ===== *)
theory Send_Money
  imports Send_Money_Data Redis_Client Response_Subscriber
begin

text \<open>
  The three commands of the send-money flow, in \<open>packages/core/outbound/domain/command\<close>:
  \<open>post-send-money.handler.ts\<close> (look the payee up, cache the transfer), \<open>put-accept-party.handler.ts\<close>
  (ask the payee FSP for a quote) and \<open>put-accept-quote.handler.ts\<close> (move the money), and the HTTP
  controller \<open>packages/apps/web-outbound/controllers/send-money.controller.ts\<close> that dispatches to them.

  A \<open>world\<close> holds the Redis server state, the messages handed to the audit publisher, the requests sent
  to the Hub and the waits that were cancelled.  What the repository does not determine is in the
  \<open>env\<close> argument: the Redis commands, the outcome of a publication, of a Hub request and of a
  callback wait (whose delivery is the subject of the response-subscriber theory), what happens to
  Redis while a wait lasts (\<open>e_elapse\<close>: expiry and other replicas), the clock and \<open>randomUUID\<close>.
\<close>

section \<open>Audit messages, Hub requests, environment\<close>

datatype invocation_phase = Parties | Quotes | Transfers | Patch
datatype invocation_action = Request | Response | Error | ResolvedAction

record parties_content =
  pc_payerIdType :: string
  pc_payerId :: string
  pc_payerSubId :: "string option"
  pc_payeeIdType :: string
  pc_payeeId :: string
  pc_payeeSubId :: "string option"
  pc_transactionInitiatorType :: "string option"
  pc_transactionType :: "string option"
  pc_subScenario :: "string option"
  pc_amountType :: "string option"
  pc_payerHomeTransactionId :: "string option"
  pc_quotingCurrency :: "string option"
  pc_quotingAmount :: "string option"
  pc_request :: "(string \<times> string \<times> string option) option"
  pc_response :: "parties_response option"
  pc_error :: "error_information option"

datatype audit_content =
    PartiesContent parties_content
  | QuotesContent quotes_post_request "quotes_response option" "error_information option"
  | TransfersContent transfers_post_request "transfers_response option" "error_information option"

record audit_message =
  am_phase :: invocation_phase
  am_action :: invocation_action
  am_correlationId :: string
  am_payerFsp :: string
  am_payeeFsp :: string
  am_content :: audit_content
  am_occurredAt :: string

datatype hub_request =
    GetParties headers_map string string "string option"
  | PostQuotes headers_map quotes_post_request
  | PostTransfers headers_map transfers_post_request

record 'r world =
  w_redis :: 'r
  w_audit :: "audit_message list"
  w_hub :: "hub_request list"
  w_cancelled :: "string list"

record 'r env =
  e_api :: "('r, transfer_request) redis_api"
  e_defaultTtlMs :: int
  e_switchId :: string
  e_decimals :: nat
  e_feesMandatory :: bool
  e_monitor :: monitor
  e_uuid :: "'r world \<Rightarrow> string"
  e_date :: "'r world \<Rightarrow> string"
  e_header_date :: "'r world \<Rightarrow> string"
  e_publish :: "audit_message \<Rightarrow> 'r world \<Rightarrow> js_error option"
  e_hub :: "hub_request \<Rightarrow> 'r world \<Rightarrow> js_error option"
  e_elapse :: "'r world \<Rightarrow> 'r"
  e_parties_callback :: "string \<Rightarrow> string \<Rightarrow> string option \<Rightarrow> 'r world \<Rightarrow> (js_error, parties_response) result"
  e_quotes_callback :: "string \<Rightarrow> string \<Rightarrow> string option \<Rightarrow> 'r world \<Rightarrow> (js_error, quotes_response) result"
  e_transfers_callback :: "string \<Rightarrow> string \<Rightarrow> string option \<Rightarrow> 'r world \<Rightarrow> (js_error, transfers_response) result"

definition IN_FLIGHT_LOCK_TTL_MS :: int where
  "IN_FLIGHT_LOCK_TTL_MS = int DEFAULT_TIMEOUT_MS + 10000"

section \<open>Effects the handlers use\<close>

definition on_redis :: "('r, 'a) io \<Rightarrow> ('r world, 'a) io" where
  "on_redis = io_on w_redis (\<lambda>r w. w\<lparr>w_redis := r\<rparr>)"

definition publish :: "'r env \<Rightarrow> audit_message \<Rightarrow> ('r world, unit) io" where
  "publish env m w =
     (case e_publish env m w of None \<Rightarrow> Inr () | Some e \<Rightarrow> Inl e, w\<lparr>w_audit := w_audit w @ [m]\<rparr>)"

definition hub_send :: "'r env \<Rightarrow> hub_request \<Rightarrow> ('r world, unit) io" where
  "hub_send env q w =
     (case e_hub env q w of None \<Rightarrow> Inr () | Some e \<Rightarrow> Inl e, w\<lparr>w_hub := w_hub w @ [q]\<rparr>)"

definition cancel_wait :: "string \<Rightarrow> ('r world, unit) io" where
  "cancel_wait s w = (Inr (), w\<lparr>w_cancelled := w_cancelled w @ [s]\<rparr>)"

definition await :: "'r env \<Rightarrow> ('r world \<Rightarrow> (js_error, 'a) result) \<Rightarrow> ('r world, 'a) io" where
  "await env cb w = (cb w, w\<lparr>w_redis := e_elapse env w\<rparr>)"

text \<open>
  The pattern of all three handlers: register the wait, send the Hub request, cancel the wait and
  throw when the request fails, otherwise await the callback.
\<close>

definition call_and_wait ::
  "'r env \<Rightarrow> hub_request \<Rightarrow> string \<Rightarrow> (js_error \<Rightarrow> js_error) \<Rightarrow> ('r world \<Rightarrow> (js_error, 'a) result) \<Rightarrow> ('r world, 'a) io" where
  "call_and_wait env q subject on_error cb =
     io_bind (io_catch (hub_send env q) (\<lambda>error.
         io_bind (cancel_wait subject) (\<lambda>_. io_throw (on_error error)))) (\<lambda>_.
       await env cb)"

definition cache_get :: "'r env \<Rightarrow> string \<Rightarrow> ('r world, transfer_request option) io" where
  "cache_get env k = on_redis (redis_get (e_api env) k)"

definition cache_set :: "'r env \<Rightarrow> string \<Rightarrow> transfer_request \<Rightarrow> ('r world, unit) io" where
  "cache_set env k v = on_redis (redis_set (e_api env) (e_defaultTtlMs env) k v None)"

definition cache_delete :: "'r env \<Rightarrow> string \<Rightarrow> ('r world, unit) io" where
  "cache_delete env k = on_redis (redis_delete (e_api env) k)"

text \<open>
  The last lines of every handler: publish the error message, whatever happens delete the cached
  transfer, whatever happens throw the translated exception.
\<close>

definition audit_error_and_clear ::
  "'r env \<Rightarrow> string \<Rightarrow> audit_message \<Rightarrow> fspiop_exception \<Rightarrow> ('r world, 'a) io" where
  "audit_error_and_clear env k m x =
     io_finally (io_bind (publish env m) (\<lambda>_. io_throw (JsFspiop x)))
       (io_finally (cache_delete env k) (io_throw (JsFspiop x) :: ('r world, unit) io))"

definition toFspiopException_h :: "js_error \<Rightarrow> fspiop_exception" where
  "toFspiopException_h error = (case error of
     JsAxios st info \<Rightarrow>
       (let code = nullish (Option.bind info ei_errorCode) [];
            desc = (case Option.bind info ei_errorDescription of
                Some d \<Rightarrow> if trim d \<noteq> [] then d else ''Communication error''
              | None \<Rightarrow> ''Communication error'');
            errorDef = nullish (find_error code) COMMUNICATION_ERROR
        in new_FspiopException errorDef (MessageArg desc) (Option.bind info ei_extensionList))
   | _ \<Rightarrow> toFspiopException_tr error None)"

definition getTransferRequest :: "'r env \<Rightarrow> string \<Rightarrow> ('r world, transfer_request) io" where
  "getTransferRequest env tid =
     io_bind (cache_get env tid) (\<lambda>v. case v of
         None \<Rightarrow> io_throw (throw_fspiop TRANSFER_ID_NOT_FOUND (''Transfer '' @ tid @ '' was not found.''))
       | Some tr \<Rightarrow> io_return tr)"

definition assertSourceCanActForPayer :: "string option \<Rightarrow> string \<Rightarrow> (js_error, unit) result" where
  "assertSourceCanActForPayer requestSource payerFsp = (case requestSource of
     None \<Rightarrow> Inr ()
   | Some s \<Rightarrow>
       if trim s = [] \<or> trim s = payerFsp then Inr ()
       else Inl (throw_fspiop PAYER_PERMISSION_ERROR
              (''fspiop-source '' @ [CHR 0x27] @ trim s @ [CHR 0x27] @ '' is not authorized to act for payer FSP ''
                @ [CHR 0x27] @ payerFsp @ [CHR 0x27] @ ''.'')))"

definition getFspId :: "string \<Rightarrow> party \<Rightarrow> string \<Rightarrow> (js_error, string) result" where
  "getFspId routing p label = (case toOptionalValue (pii_fspId (partyIdInfo p)) of
     None \<Rightarrow> Inl (throw_fspiop MISSING_MANDATORY_ELEMENT
                   (label @ ''.partyIdInfo.fspId is required to resolve '' @ routing @ '' routing.''))
   | Some f \<Rightarrow> Inr f)"

text \<open>The two \<open>execute\<close> methods of the PUT commands: take the lock, run, always release it.\<close>

definition with_lock :: "'r env \<Rightarrow> string \<Rightarrow> ('r world, 'a) io \<Rightarrow> ('r world, 'a) io" where
  "with_lock env tid body =
     io_bind (io_gets (e_uuid env)) (\<lambda>token.
     io_bind (on_redis (acquireLock (e_api env) token tid IN_FLIGHT_LOCK_TTL_MS)) (\<lambda>lockToken.
       (case lockToken of
          None \<Rightarrow> io_throw (throw_fspiop GENERIC_CLIENT_ERROR
            (''Transfer '' @ tid @ '' is already being processed; ignoring duplicate request.''))
        | Some t \<Rightarrow> io_finally body (on_redis (releaseLock (e_api env) tid t)))))"

section \<open>PostSendMoneyHandler\<close>

definition toFspParty :: "parties_response \<Rightarrow> fsp_party" where
  "toFspParty callback =
     (let p = pr_party callback; info = partyIdInfo p; cn = Option.bind (personalInfo p) complexName
      in \<lparr>fp_type = None, idType = partyIdType info, idValue = partyIdentifier info,
          idSubValue = toSubId (partySubIdOrType info), displayName = p_name p,
          firstName = Option.bind cn pcn_firstName, middleName = Option.bind cn pcn_middleName,
          lastName = Option.bind cn pcn_lastName, dateOfBirth = Option.bind (personalInfo p) ppi_dateOfBirth,
          merchantClassificationCode = p_merchantClassificationCode p,
          fspId = toOptionalValue (pii_fspId info),
          fp_extensionList = toExtensionArray (pii_extensionList info)\<rparr>)"

definition toPartyComplexName :: "fsp_party \<Rightarrow> party_complex_name option" where
  "toPartyComplexName f =
     (if firstName f = None \<and> middleName f = None \<and> lastName f = None then None
      else Some \<lparr>pcn_firstName = firstName f, pcn_middleName = middleName f, pcn_lastName = lastName f\<rparr>)"

definition toPartyPersonalInfo :: "fsp_party \<Rightarrow> party_personal_info option" where
  "toPartyPersonalInfo f =
     (if toPartyComplexName f = None \<and> dateOfBirth f = None then None
      else Some \<lparr>complexName = toPartyComplexName f, ppi_dateOfBirth = dateOfBirth f\<rparr>)"

definition toExtensionList_post :: "extension list option \<Rightarrow> extension_list option" where
  "toExtensionList_post xs = (case xs of
     None \<Rightarrow> None
   | Some l \<Rightarrow> if length l = 0 then None else Some \<lparr>el_extension = Some l\<rparr>)"

definition toPartyIdInfo :: "fsp_party \<Rightarrow> party_id_info" where
  "toPartyIdInfo f = \<lparr>partyIdType = idType f, partyIdentifier = idValue f,
     partySubIdOrType = toOptionalValue (idSubValue f), pii_fspId = fspId f,
     pii_extensionList = toExtensionList_post (fp_extensionList f)\<rparr>"

definition toParty :: "fsp_party \<Rightarrow> party" where
  "toParty f = \<lparr>partyIdInfo = toPartyIdInfo f, p_merchantClassificationCode = merchantClassificationCode f,
     p_name = displayName f, personalInfo = toPartyPersonalInfo f, p_supportedCurrencies = None\<rparr>"

definition toTransferRequest :: "send_money_request \<Rightarrow> parties_response \<Rightarrow> string \<Rightarrow> string \<Rightarrow> transfer_request" where
  "toTransferRequest req callback tid timestamp = \<lparr>
     payer = toParty (sm_from req), payee = pr_party callback, quotes = None, transfer = None,
     transferId = tid, homeTransactionId = sm_homeTransactionId req, initiatedTimestamp = timestamp,
     t_from = sm_from req, t_to = toFspParty callback, amountType = sm_amountType req,
     currency = sm_currency req, amount = sm_amount req, transactionType = sm_transactionType req,
     subScenario = sm_subScenario req,
     t_note = (if is_blank (sm_note req) then None else sm_note req),
     supportedCurrencies = p_supportedCurrencies (pr_party callback)\<rparr>"

text \<open>\<open>resolveDestination\<close> also writes the resolved FSP id into the callback.\<close>

definition resolveDestination ::
  "parties_response \<Rightarrow> string option \<Rightarrow> (js_error, string \<times> parties_response) result" where
  "resolveDestination callback requested =
     (let p = pr_party callback; info = partyIdInfo p;
          resolved = (case toOptionalValue (pii_fspId info) of Some f \<Rightarrow> Some f | None \<Rightarrow> requested)
      in case resolved of
           None \<Rightarrow> Inl (throw_fspiop MISSING_MANDATORY_ELEMENT
                     ''Party lookup response must include the resolved payee fspId.'')
         | Some d \<Rightarrow> Inr (d, \<lparr>pr_party = p\<lparr>partyIdInfo := info\<lparr>pii_fspId := Some d\<rparr>\<rparr>\<rparr>))"

definition parties_content_base :: "send_money_request \<Rightarrow> parties_content" where
  "parties_content_base req = \<lparr>
     pc_payerIdType = idType (sm_from req), pc_payerId = idValue (sm_from req),
     pc_payerSubId = toSubId (idSubValue (sm_from req)),
     pc_payeeIdType = idType (sm_to req), pc_payeeId = idValue (sm_to req),
     pc_payeeSubId = toSubId (idSubValue (sm_to req)),
     pc_transactionInitiatorType = None, pc_transactionType = None, pc_subScenario = None,
     pc_amountType = None, pc_payerHomeTransactionId = None, pc_quotingCurrency = None,
     pc_quotingAmount = None, pc_request = None, pc_response = None, pc_error = None\<rparr>"

definition parties_message ::
  "invocation_action \<Rightarrow> string \<Rightarrow> string \<Rightarrow> string \<Rightarrow> parties_content \<Rightarrow> string \<Rightarrow> audit_message" where
  "parties_message action cid source dest content at = \<lparr>am_phase = Parties, am_action = action,
     am_correlationId = cid, am_payerFsp = source, am_payeeFsp = dest,
     am_content = PartiesContent content, am_occurredAt = at\<rparr>"

definition parties_request_content :: "send_money_request \<Rightarrow> parties_content" where
  "parties_request_content req = (parties_content_base req)\<lparr>
     pc_transactionInitiatorType := fp_type (sm_from req),
     pc_transactionType := Some (sm_transactionType req), pc_subScenario := Some (sm_subScenario req),
     pc_amountType := Some (sm_amountType req),
     pc_payerHomeTransactionId := Some (sm_homeTransactionId req),
     pc_quotingCurrency := Some (sm_currency req), pc_quotingAmount := Some (sm_amount req),
     pc_request := Some (idType (sm_to req), idValue (sm_to req), toSubId (idSubValue (sm_to req)))\<rparr>"

definition post_send_money_try ::
  "'r env \<Rightarrow> string \<Rightarrow> string \<Rightarrow> send_money_request \<Rightarrow> string \<Rightarrow> headers_map
     \<Rightarrow> ('r world, send_money_response \<times> parties_response) io" where
  "post_send_money_try env correlationId source req createdAt headers =
     (let destination = toOptionalValue (fspId (sm_to req));
          type = idType (sm_to req); id = idValue (sm_to req);
          subId = toSubId (idSubValue (sm_to req));
          success = forSuccess_parties source destination type id subId;
          error = forError_parties source destination type id subId;
          hubError = forError_parties source (Some (e_switchId env)) type id subId
      in io_bind (publish env (parties_message Request correlationId source (nullish destination [])
               (parties_request_content req) createdAt)) (\<lambda>_.
         io_bind (call_and_wait env (GetParties headers type id subId) success (\<lambda>e. e)
               (e_parties_callback env success error (Some hubError))) (\<lambda>callback0.
         io_bind (io_lift (resolveDestination callback0 destination)) (\<lambda>(resolved, callback).
           let cached = toTransferRequest req callback correlationId createdAt in
           io_bind (io_lift (toWaitingForPartyAcceptance cached)) (\<lambda>response.
           io_bind (cache_set env correlationId cached) (\<lambda>_.
           io_bind (io_gets (e_date env)) (\<lambda>at.
           io_bind (publish env (parties_message Response correlationId source resolved
                 ((parties_content_base req)\<lparr>pc_response := Some callback\<rparr>) at)) (\<lambda>_.
             io_return (response, callback)))))))))"

definition post_send_money ::
  "'r env \<Rightarrow> string \<Rightarrow> string \<Rightarrow> send_money_request \<Rightarrow> ('r world, send_money_response \<times> parties_response) io" where
  "post_send_money env correlationId source req =
     (let destination = toOptionalValue (fspId (sm_to req))
      in io_bind (io_gets (e_date env)) (\<lambda>createdAt.
         io_bind (io_lift (validate_decimals (e_decimals env) (Some (sm_amount req)))) (\<lambda>_.
         io_bind (io_gets (\<lambda>w. headers_parties_forRequest (e_header_date env w) (Some correlationId) source destination)) (\<lambda>headers.
           io_catch (post_send_money_try env correlationId source req createdAt headers) (\<lambda>error.
             let x = toFspiopException_h error in
             io_bind (io_gets (e_date env)) (\<lambda>at.
               audit_error_and_clear env correlationId
                 (parties_message Error correlationId source (nullish destination [])
                    ((parties_content_base req)\<lparr>pc_error := Some (toErrorObject x)\<rparr>) at) x))))))"

section \<open>PutAcceptPartyHandler\<close>

record accept_party_input =
  ap_transferId :: string
  ap_acceptParty :: bool
  ap_amount :: string
  ap_extensionList :: "extension_list option"
  ap_requestSource :: "string option"

definition toMoney :: "string \<Rightarrow> string \<Rightarrow> money" where
  "toMoney c a = \<lparr>m_currency = c, m_amount = a\<rparr>"

definition toTransactionType :: "transfer_request \<Rightarrow> transaction_type" where
  "toTransactionType tr = \<lparr>scenario = transactionType tr, tt_subScenario = toOptionalValue (Some (subScenario tr)),
     initiator = ''PAYER'', initiatorType = nullish (fp_type (t_from tr)) ''CONSUMER''\<rparr>"

definition toQuotesPostRequest :: "string \<Rightarrow> transfer_request \<Rightarrow> extension_list option \<Rightarrow> quotes_post_request" where
  "toQuotesPostRequest tid tr el = \<lparr>quoteId = tid, transactionId = tid, transactionRequestId = tid,
     qp_payee = payee tr, qp_payer = payer tr, qp_amountType = amountType tr,
     qp_amount = toMoney (currency tr) (amount tr), qp_transactionType = toTransactionType tr,
     qp_note = t_note tr, qp_extensionList = el\<rparr>"

fun findExtensionValue :: "extension list \<Rightarrow> string \<Rightarrow> (js_error, string option) result" where
  "findExtensionValue [] k = Inr None"
| "findExtensionValue (x # xs) k =
     (if ext_key_norm x = toLowerCase (trim k) then ext_value_trim (ext_value x) else findExtensionValue xs k)"

definition toSchemeFee :: "quotes_response \<Rightarrow> string \<Rightarrow> (js_error, money) result" where
  "toSchemeFee callback fallbackCurrency =
     (let transferCurrency = (case transferAmount callback of None \<Rightarrow> fallbackCurrency | Some m \<Rightarrow> m_currency m)
      in case get_currency transferCurrency of
           None \<Rightarrow> Inl (throw_fspiop PAYEE_UNSUPPORTED_CURRENCY (''Unsupported currency '' @ transferCurrency))
         | Some tp \<Rightarrow>
             (let xs = nullish (toExtensionArray (qr_extensionList callback)) []
              in res_bind (findExtensionValue xs ''scheme_fee_amount'') (\<lambda>fee.
                 res_bind (findExtensionValue xs ''scheme_fee_currency'') (\<lambda>feeCurrency.
                   let feeProfile = Option.bind feeCurrency get_currency;
                       (cur, scale) = (case (feeCurrency, feeProfile) of
                            (Some c, Some fp) \<Rightarrow> (c, currency_scale fp)
                          | _ \<Rightarrow> (transferCurrency, currency_scale tp))
                   in res_bind (serialize (nullish fee ''0'') (int scale) HalfUp) (\<lambda>v.
                      res_bind (deserialize v (int scale)) (\<lambda>text. Inr (toMoney cur text)))))))"

definition toPayeeFspFeeAmount :: "quotes_response \<Rightarrow> string \<Rightarrow> (js_error, string) result" where
  "toPayeeFspFeeAmount callback fallbackCurrency =
     (case toOptionalValue (map_option m_amount (payeeFspFee callback)) of
        Some a \<Rightarrow> Inr a
      | None \<Rightarrow> res_bind (toSchemeFee callback fallbackCurrency) (\<lambda>m. Inr (m_amount m)))"

definition toResponse_party :: "transfer_request \<Rightarrow> quotes_response \<Rightarrow> (js_error, send_money_response) result" where
  "toResponse_party tr callback =
     res_bind (toPayeeFspFeeAmount callback (currency tr)) (\<lambda>fee.
       toWaitingForQuoteAcceptance tr (Some fee) (qr_extensionList callback))"

definition quotes_message ::
  "invocation_action \<Rightarrow> string \<Rightarrow> string \<Rightarrow> string \<Rightarrow> quotes_post_request \<Rightarrow> quotes_response option
     \<Rightarrow> error_information option \<Rightarrow> string \<Rightarrow> audit_message" where
  "quotes_message action tid source dest q rsp err at = \<lparr>am_phase = Quotes, am_action = action,
     am_correlationId = tid, am_payerFsp = source, am_payeeFsp = dest,
     am_content = QuotesContent q rsp err, am_occurredAt = at\<rparr>"

definition accept_party_try ::
  "'r env \<Rightarrow> accept_party_input \<Rightarrow> transfer_request \<Rightarrow> string \<Rightarrow> string \<Rightarrow> quotes_post_request
     \<Rightarrow> ('r world, send_money_response \<times> quotes_response) io" where
  "accept_party_try env inp tr source dest q =
     (let tid = ap_transferId inp;
          success = forSuccess_quotes source (quoteId q); error = forError_quotes source (quoteId q)
      in io_bind (if ap_acceptParty inp then io_return ()
            else io_throw (throw_fspiop PAYER_REJECTED_TRANSACTION_REQUEST ''Payer rejected party confirmation.'')) (\<lambda>_.
         io_bind (on_redis (assertNotSuspicious (e_api env) (e_monitor env)
            \<lparr>pat_payerFsp = source, pat_payerId = partyIdentifier (partyIdInfo (payer tr)),
             pat_payeeFsp = dest, pat_payeeId = partyIdentifier (partyIdInfo (payee tr)),
             pat_currency = currency tr, pat_amount = amount tr\<rparr>)) (\<lambda>_.
         io_bind (io_gets (\<lambda>w. headers_quotes_forRequest (e_header_date env w) (Some (quoteId q)) source dest)) (\<lambda>headers.
         io_bind (call_and_wait env (PostQuotes headers q) success (\<lambda>e. JsFspiop (toFspiopException_h e))
               (e_quotes_callback env success error None)) (\<lambda>callback.
           let tr' = tr\<lparr>quotes := Some callback, transfer := None\<rparr> in
           io_bind (io_lift (toResponse_party tr' callback)) (\<lambda>response.
           io_bind (cache_set env tid tr') (\<lambda>_.
           io_bind (io_gets (e_date env)) (\<lambda>at.
           io_bind (publish env (quotes_message Response tid source dest q (Some callback) None at)) (\<lambda>_.
             io_return (response, callback))))))))))"

definition accept_party_locked ::
  "'r env \<Rightarrow> accept_party_input \<Rightarrow> ('r world, send_money_response \<times> quotes_response) io" where
  "accept_party_locked env inp =
     (let tid = ap_transferId inp
      in io_bind (getTransferRequest env tid) (\<lambda>tr0.
         if quotes tr0 \<noteq> None
         then io_throw (throw_fspiop GENERIC_CLIENT_ERROR
                (''Quote already completed for transfer '' @ tid @ ''; duplicate acceptParty ignored.''))
         else
           io_bind (io_lift (getFspId ''quote'' (payer tr0) ''payer'')) (\<lambda>source.
           io_bind (io_lift (assertSourceCanActForPayer (ap_requestSource inp) source)) (\<lambda>_.
           io_bind (io_lift (validate_payer_fees (e_feesMandatory env) (e_decimals env)
                (ap_acceptParty inp) (ap_extensionList inp))) (\<lambda>el.
             let tr = tr0\<lparr>amount := normalizeAmount (ap_amount inp)\<rparr> in
             io_bind (io_lift (validate_decimals (e_decimals env) (Some (amount tr)))) (\<lambda>_.
             io_bind (io_lift (getFspId ''quote'' (payee tr) ''payee'')) (\<lambda>dest.
               let q = toQuotesPostRequest tid tr el in
               io_bind (io_gets (e_date env)) (\<lambda>createdAt.
               io_bind (publish env (quotes_message Request tid source dest q None None createdAt)) (\<lambda>_.
                 io_catch (accept_party_try env inp tr source dest q) (\<lambda>error.
                   let x = toFspiopException_h error in
                   io_bind (io_gets (e_date env)) (\<lambda>at.
                     audit_error_and_clear env tid
                       (quotes_message Error tid source dest q None (Some (toErrorObject x)) at) x)))))))))))"

definition accept_party ::
  "'r env \<Rightarrow> accept_party_input \<Rightarrow> ('r world, send_money_response \<times> quotes_response) io" where
  "accept_party env inp = with_lock env (ap_transferId inp) (accept_party_locked env inp)"

section \<open>PutAcceptQuoteHandler\<close>

record accept_quote_input =
  aq_transferId :: string
  aq_acceptQuote :: bool
  aq_requestSource :: "string option"
  aq_homeTransactionId :: "string option"

definition toExtensionList_quote :: "quotes_response \<Rightarrow> string \<Rightarrow> extension_list option" where
  "toExtensionList_quote q homeId =
     (let kept = filter (\<lambda>x. ext_key_opt x \<noteq> Some (toLowerCase ''homeTransactionId''))
                   (nullish (toExtensionArray (qr_extensionList q)) []);
          xs = (if length homeId > 0
                then kept @ [\<lparr>ext_key = Some ''homeTransactionId'', ext_value = Some (JString homeId)\<rparr>]
                else kept)
      in if length xs > 0 then Some \<lparr>el_extension = Some xs\<rparr> else None)"

definition toTransfersPostRequest :: "string \<Rightarrow> transfer_request \<Rightarrow> (js_error, transfers_post_request) result" where
  "toTransfersPostRequest tid tr = (case quotes tr of
     None \<Rightarrow> Inl (throw_fspiop QUOTE_ID_NOT_FOUND (''Quote was not found for transfer '' @ tid @ ''.''))
   | Some q \<Rightarrow>
       res_bind (getFspId ''transfer'' (payer tr) ''payer'') (\<lambda>payerFsp.
       res_bind (getFspId ''transfer'' (payee tr) ''payee'') (\<lambda>payeeFsp.
         Inr \<lparr>tp_transferId = tid, tp_payeeFsp = payeeFsp, tp_payerFsp = payerFsp,
              tp_amount = transferAmount q, tp_ilpPacket = qr_ilpPacket q, tp_condition = qr_condition q,
              tp_expiration = qr_expiration q,
              tp_extensionList = toExtensionList_quote q (homeTransactionId tr)\<rparr>)))"

definition toResponse_quote :: "transfer_request \<Rightarrow> transfers_response \<Rightarrow> (js_error, send_money_response) result" where
  "toResponse_quote tr callback = toFinalState tr (tr_transferState callback) (tr_extensionList callback)"

definition transfers_message ::
  "invocation_action \<Rightarrow> string \<Rightarrow> string \<Rightarrow> string \<Rightarrow> transfers_post_request \<Rightarrow> transfers_response option
     \<Rightarrow> error_information option \<Rightarrow> string \<Rightarrow> audit_message" where
  "transfers_message action tid source dest q rsp err at = \<lparr>am_phase = Transfers, am_action = action,
     am_correlationId = tid, am_payerFsp = source, am_payeeFsp = dest,
     am_content = TransfersContent q rsp err, am_occurredAt = at\<rparr>"

definition accept_quote_try ::
  "'r env \<Rightarrow> accept_quote_input \<Rightarrow> transfer_request \<Rightarrow> string \<Rightarrow> string \<Rightarrow> transfers_post_request
     \<Rightarrow> ('r world, send_money_response \<times> transfers_response) io" where
  "accept_quote_try env inp tr source dest q =
     (let tid = aq_transferId inp;
          success = forSuccess_transfers source tid; error = forError_transfers source tid
      in io_bind (if aq_acceptQuote inp then io_return ()
            else io_throw (throw_fspiop GENERIC_PAYER_REJECTION ''Payer rejected quote confirmation.'')) (\<lambda>_.
         io_bind (io_gets (\<lambda>w. headers_transfers_forRequest (e_header_date env w) (Some tid) source dest)) (\<lambda>headers.
         io_bind (call_and_wait env (PostTransfers headers q) success (\<lambda>e. JsFspiop (toFspiopException_h e))
               (e_transfers_callback env success error None)) (\<lambda>callback.
           let tr' = tr\<lparr>transfer := Some callback\<rparr> in
           io_bind (io_lift (toResponse_quote tr' callback)) (\<lambda>response.
           io_bind (io_gets (e_date env)) (\<lambda>at.
           io_bind (publish env (transfers_message Response tid source dest q (Some callback) None at)) (\<lambda>_.
           io_bind (cache_delete env tid) (\<lambda>_.
             io_return (response, callback)))))))))"

text \<open>The client's home transaction id, when given, is written into the cached transfer.\<close>

definition store_homeTransactionId :: "'r env \<Rightarrow> accept_quote_input \<Rightarrow> transfer_request \<Rightarrow> ('r world, transfer_request) io" where
  "store_homeTransactionId env inp tr0 = (case aq_homeTransactionId inp of
     None \<Rightarrow> io_return tr0
   | Some h \<Rightarrow>
       (let tr = tr0\<lparr>homeTransactionId := h\<rparr>
        in io_bind (cache_set env (aq_transferId inp) tr) (\<lambda>_. io_return tr)))"

definition accept_quote_locked ::
  "'r env \<Rightarrow> accept_quote_input \<Rightarrow> ('r world, send_money_response \<times> transfers_response) io" where
  "accept_quote_locked env inp =
     (let tid = aq_transferId inp
      in io_bind (getTransferRequest env tid) (\<lambda>tr0.
         if transfer tr0 \<noteq> None
         then io_throw (throw_fspiop GENERIC_CLIENT_ERROR
                (''Transfer '' @ tid @ '' already completed; duplicate acceptQuote ignored.''))
         else
           io_bind (io_lift (getFspId ''transfer'' (payer tr0) ''payer'')) (\<lambda>source.
           io_bind (io_lift (assertSourceCanActForPayer (aq_requestSource inp) source)) (\<lambda>_.
           io_bind (store_homeTransactionId env inp tr0) (\<lambda>tr.
           io_bind (io_lift (getFspId ''transfer'' (payee tr) ''payee'')) (\<lambda>dest.
           io_bind (io_lift (toTransfersPostRequest tid tr)) (\<lambda>q.
           io_bind (io_gets (e_date env)) (\<lambda>createdAt.
           io_bind (io_lift (validate_decimals (e_decimals env) (map_option m_amount (tp_amount q)))) (\<lambda>_.
           io_bind (publish env (transfers_message Request tid source dest q None None createdAt)) (\<lambda>_.
             io_catch (accept_quote_try env inp tr source dest q) (\<lambda>error.
               let x = toFspiopException_h error in
               io_bind (io_gets (e_date env)) (\<lambda>at.
                 audit_error_and_clear env tid
                   (transfers_message Error tid source dest q None (Some (toErrorObject x)) at) x))))))))))))"

definition accept_quote ::
  "'r env \<Rightarrow> accept_quote_input \<Rightarrow> ('r world, send_money_response \<times> transfers_response) io" where
  "accept_quote env inp = with_lock env (aq_transferId inp) (accept_quote_locked env inp)"

section \<open>SendMoneyController\<close>

definition toSource :: "string option \<Rightarrow> send_money_request \<Rightarrow> (js_error, string) result" where
  "toSource source req =
     (let normalizedSource = toOptionalValue source;
          payerFsp = toOptionalValue (fspId (sm_from req))
      in case (normalizedSource, payerFsp) of
           (Some s, Some p) \<Rightarrow>
             if s \<noteq> p then Inl (throw_fspiop PAYER_PERMISSION_ERROR
                  (''fspiop-source '' @ [CHR 0x27] @ s @ [CHR 0x27] @ '' is not authorized to act for payer FSP ''
                    @ [CHR 0x27] @ p @ [CHR 0x27] @ ''.''))
             else Inr s
         | (Some s, None) \<Rightarrow> Inr s
         | (None, Some p) \<Rightarrow> Inr p
         | (None, None) \<Rightarrow> Inl (throw_fspiop MISSING_MANDATORY_ELEMENT
                                 ''fspiop-source header or request.from.fspId is required.''))"

text \<open>The extension list of a PUT body: absent, a bare array, or an object with an optional array.\<close>

datatype ext_body = NoExt | ExtArray "extension list" | ExtObject extension_list

fun toExtensionList_ctl :: "ext_body \<Rightarrow> extension_list option" where
  "toExtensionList_ctl NoExt = None"
| "toExtensionList_ctl (ExtArray xs) = (if length xs = 0 then None else Some \<lparr>el_extension = Some xs\<rparr>)"
| "toExtensionList_ctl (ExtObject el) = (case el_extension el of
     None \<Rightarrow> None
   | Some xs \<Rightarrow> if length xs = 0 then None else Some \<lparr>el_extension = Some xs\<rparr>)"

record put_send_money_request =
  pm_acceptParty :: "bool option"
  pm_amount :: "string option"
  pm_extensionList :: ext_body
  pm_acceptQuote :: "bool option"
  pm_homeTransactionId :: "string option"

definition controller_post ::
  "'r env \<Rightarrow> string \<Rightarrow> string option \<Rightarrow> send_money_request \<Rightarrow> ('r world, send_money_response) io" where
  "controller_post env correlationId source req =
     io_bind (io_lift (toSource source req)) (\<lambda>payerFsp.
     io_bind (post_send_money env correlationId payerFsp req) (\<lambda>out. io_return (fst out)))"

definition controller_put ::
  "'r env \<Rightarrow> string option \<Rightarrow> string \<Rightarrow> put_send_money_request \<Rightarrow> ('r world, send_money_response) io" where
  "controller_put env source tid req =
     (case pm_acceptParty req of
        Some b \<Rightarrow>
          io_bind (accept_party env \<lparr>ap_transferId = tid, ap_acceptParty = b,
              ap_amount = nullish (pm_amount req) [], ap_extensionList = toExtensionList_ctl (pm_extensionList req),
              ap_requestSource = toOptionalValue source\<rparr>) (\<lambda>out. io_return (fst out))
      | None \<Rightarrow>
          (case pm_acceptQuote req of
             Some b \<Rightarrow>
               io_bind (accept_quote env \<lparr>aq_transferId = tid, aq_acceptQuote = b,
                   aq_requestSource = toOptionalValue source, aq_homeTransactionId = pm_homeTransactionId req\<rparr>)
                 (\<lambda>out. io_return (fst out))
           | None \<Rightarrow>
               io_throw (JsFspiop (new_FspiopException MISSING_MANDATORY_ELEMENT
                 (ExtensionArg \<lparr>el_extension = Some [\<lparr>ext_key = Some [],
                    ext_value = Some (JString ''acceptParty or acceptQuote is required.'')\<rparr>]\<rparr>) None))))"

end
