(* ===== verification/Send_Money_Proofs.thy ===== *)
theory Send_Money_Proofs
  imports Send_Money
begin

text \<open>
  Correctness of the send-money commands: what each run of \<open>accept_quote\<close>, \<open>accept_party\<close> and
  \<open>post_send_money\<close> sends to the Hub, publishes to the audit stream and leaves in the cache, on every
  branch.  The case lemmas \<open>accept_quote_cases\<close> and \<open>accept_party_cases\<close> split a run into an early
  rejection and the guarded part; the properties are read off them with the Redis contract.
\<close>

section \<open>Lemmas on the effects\<close>

lemma on_redis_eq:
  "on_redis m w = (x, w') \<longleftrightarrow> (\<exists>r. m (w_redis w) = (x, r) \<and> w' = w\<lparr>w_redis := r\<rparr>)"
  by (auto simp: on_redis_def io_on_eq)

lemma on_redis_frame:
  assumes "on_redis m w = (x, w')"
  shows "w_hub w' = w_hub w" "w_audit w' = w_audit w" "m (w_redis w) = (x, w_redis w')"
  using assms by (auto simp: on_redis_eq)

lemma publish_frame:
  assumes "publish env m w = (x, w')"
  shows "w_hub w' = w_hub w" "w_redis w' = w_redis w" "w_audit w' = w_audit w @ [m]"
  using assms by (auto simp: publish_def)

lemma call_and_wait_frame:
  assumes "call_and_wait env q s f cb w = (x, w')"
  shows "w_hub w' = w_hub w @ [q]" "w_audit w' = w_audit w"
  using assms
  by (auto simp: call_and_wait_def io_bind_def io_catch_def hub_send_def cancel_wait_def await_def split: option.splits)

lemma call_and_wait_Inr:
  assumes "call_and_wait env q s f cb w = (Inr c, w')"
  shows "\<exists>w1. cb w1 = Inr c \<and> w_hub w1 = w_hub w @ [q] \<and> w_redis w1 = w_redis w"
  using assms
  by (auto simp: call_and_wait_def io_bind_def io_catch_def hub_send_def cancel_wait_def await_def split: option.splits)

lemma getTransferRequest_eq:
  assumes "getTransferRequest env tid w = (x, w')"
  shows "w_hub w' = w_hub w" "w_audit w' = w_audit w"
    "\<And>tr. x = Inr tr \<Longrightarrow> redis_get (e_api env) tid (w_redis w) = (Inr (Some tr), w_redis w')"
    "\<exists>y. redis_get (e_api env) tid (w_redis w) = (y, w_redis w')"
  using assms
  by (auto simp: getTransferRequest_def cache_get_def io_bind_def on_redis_eq split: prod.splits sum.splits option.splits
      dest!: on_redis_frame(3))

subsection \<open>The lock around the PUT commands\<close>

lemma releaseLock_Inr: "releaseLock api k t r = (u, r') \<Longrightarrow> u = Inr ()"
  by (auto simp: releaseLock_def io_catch_def split: prod.splits sum.splits)

lemma with_lock_cases:
  assumes "with_lock env tid body w = (x, w')"
  obtains (denied) e token l where "x = Inl e" "w_hub w' = w_hub w" "w_audit w' = w_audit w"
      "acquireLock (e_api env) token tid IN_FLIGHT_LOCK_TTL_MS (w_redis w) = (l, w_redis w')" "\<forall>t. l \<noteq> Inr (Some t)"
  | (locked) token t w1 w2 u where
      "acquireLock (e_api env) token tid IN_FLIGHT_LOCK_TTL_MS (w_redis w) = (Inr (Some t), w_redis w1)"
      "w_hub w1 = w_hub w" "w_audit w1 = w_audit w" "body w1 = (x, w2)"
      "w_hub w' = w_hub w2" "w_audit w' = w_audit w2" "releaseLock (e_api env) tid t (w_redis w2) = (u, w_redis w')"
proof -
  obtain l w1 where l: "on_redis (acquireLock (e_api env) (e_uuid env w) tid IN_FLIGHT_LOCK_TTL_MS) w = (l, w1)"
    by (rule io_pairE)
  note lf = on_redis_frame[OF l]
  show ?thesis
  proof (cases "\<exists>t. l = Inr (Some t)")
    case False
    then have "(\<exists>e. x = Inl e) \<and> w' = w1"
      using assms l by (cases l) (auto simp: with_lock_def io_bind_def split: option.splits)
    then show ?thesis using lf False denied by auto
  next
    case True
    then obtain t where t: "l = Inr (Some t)" by blast
    obtain y w2 where y: "body w1 = (y, w2)" by (rule io_pairE)
    obtain u w3 where u: "on_redis (releaseLock (e_api env) tid t) w2 = (u, w3)" by (rule io_pairE)
    note uf = on_redis_frame[OF u]
    have "u = Inr ()" using releaseLock_Inr[OF uf(3)] .
    then have "x = y" "w' = w3"
      using assms l t y u by (simp_all add: with_lock_def io_bind_def io_finally_def)
    then show ?thesis using locked lf t y uf by simp
  qed
qed

lemma tid_not_lockKey [simp]: "tid \<noteq> lockKey tid" "lockKey tid \<noteq> tid"
proof -
  have "length (lockKey tid) = 5 + length tid" by (simp add: lockKey_def LOCK_KEY_PREFIX_def)
  then show "tid \<noteq> lockKey tid" "lockKey tid \<noteq> tid" by (metis add_eq_self_zero add.commute zero_neq_numeral)+
qed

text \<open>Neither taking nor releasing the lock touches the cached transfer.\<close>

lemma lock_keeps_cache:
  assumes "redis_commands api view"
  shows "acquireLock api token tid ttl r = (l, r') \<Longrightarrow> view r' tid = view r tid"
    and "releaseLock api tid t r = (u, r') \<Longrightarrow> view r' tid = view r tid"
proof -
  assume "acquireLock api token tid ttl r = (l, r')"
  from redis_commands.acquireLock_law[OF assms this] show "view r' tid = view r tid"
    by (elim disjE conjE) simp_all
next
  assume "releaseLock api tid t r = (u, r')"
  from redis_commands.releaseLock_law[OF assms this] show "view r' tid = view r tid"
    by (elim disjE conjE) simp_all
qed

section \<open>Accepting the quote\<close>

lemma accept_quote_try_cases:
  assumes "accept_quote_try env inp tr source dest q w = (x, w')"
  obtains (rejected) e where "\<not> aq_acceptQuote inp" "x = Inl e" "w' = w"
  | (failed) e hs where "aq_acceptQuote inp" "x = Inl e" "w_hub w' = w_hub w @ [PostTransfers hs q]"
      "w_audit w' = w_audit w \<or> (\<exists>c at. w_audit w' = w_audit w @ [transfers_message Response (aq_transferId inp) source dest q (Some c) None at])"
  | (completed) rs c hs at r where "aq_acceptQuote inp" "x = Inr (rs, c)" "w_hub w' = w_hub w @ [PostTransfers hs q]"
      "w_audit w' = w_audit w @ [transfers_message Response (aq_transferId inp) source dest q (Some c) None at]"
      "redis_delete (e_api env) (aq_transferId inp) r = (Inr (), w_redis w')"
      "toResponse_quote (tr\<lparr>transfer := Some c\<rparr>) c = Inr rs"
proof (cases "aq_acceptQuote inp")
  case False
  then show ?thesis using assms by (intro rejected) (auto simp: accept_quote_try_def Let_def io_bind_def)
next
  case True
  let ?tid = "aq_transferId inp"
  let ?hs = "headers_transfers_forRequest (e_header_date env w) (Some ?tid) source dest"
  let ?cb = "e_transfers_callback env (forSuccess_transfers source ?tid) (forError_transfers source ?tid) None"
  obtain y w1 where y: "call_and_wait env (PostTransfers ?hs q) (forSuccess_transfers source ?tid)
      (\<lambda>e. JsFspiop (toFspiopException_h e)) ?cb w = (y, w1)" by (rule io_pairE)
  note fr = call_and_wait_frame[OF y]
  show ?thesis
  proof (cases y)
    case (Inl e)
    then show ?thesis using assms True y fr
      by (intro failed[of e ?hs]) (auto simp: accept_quote_try_def Let_def io_bind_def)
  next
    case (Inr c)
    have rest: "io_bind (io_lift (toResponse_quote (tr\<lparr>transfer := Some c\<rparr>) c)) (\<lambda>response.
           io_bind (io_gets (e_date env)) (\<lambda>at.
           io_bind (publish env (transfers_message Response ?tid source dest q (Some c) None at)) (\<lambda>_.
           io_bind (cache_delete env ?tid) (\<lambda>_. io_return (response, c))))) w1 = (x, w')"
      using assms True y Inr by (simp add: accept_quote_try_def Let_def io_bind_def)
    show ?thesis
    proof (cases "toResponse_quote (tr\<lparr>transfer := Some c\<rparr>) c")
      case (Inl e)
      then show ?thesis using rest fr True by (intro failed[of e ?hs]) auto
    next
      case rs: (Inr rs)
      let ?m = "transfers_message Response ?tid source dest q (Some c) None (e_date env w1)"
      obtain p w2 where p: "publish env ?m w1 = (p, w2)" by (rule io_pairE)
      obtain d w3 where d: "cache_delete env ?tid w2 = (d, w3)" by (rule io_pairE)
      note pf = publish_frame[OF p] and df = on_redis_frame[OF d[unfolded cache_delete_def]]
      show ?thesis
      proof (cases "\<exists>e. p = Inl e \<or> d = Inl e")
        case True
        then have "(\<exists>e. x = Inl e) \<and> w_hub w' = w_hub w @ [PostTransfers ?hs q] \<and> w_audit w' = w_audit w @ [?m]"
          using rest rs p d fr pf df by (cases p) (auto simp: io_bind_def)
        then show ?thesis using failed \<open>aq_acceptQuote inp\<close> by blast
      next
        case False
        then obtain u v where "p = Inr u" "d = Inr v" by (cases p; cases d) auto
        then show ?thesis using rest rs p d fr pf df \<open>aq_acceptQuote inp\<close>
          by (intro completed[of rs c ?hs "e_date env w1" "w_redis w2"]) (auto simp: io_bind_def)
      qed
    qed
  qed
qed

text \<open>The outcome of the handlers' \<open>catch\<close> block.\<close>

lemma audit_error_and_clear_cases:
  assumes "audit_error_and_clear env k m x w = (y, w')"
  shows "\<exists>e. y = Inl e" "w_hub w' = w_hub w" "w_audit w' = w_audit w @ [m]"
    "\<exists>d. redis_delete (e_api env) k (w_redis w) = (d, w_redis w')"
  using assms
  by (auto simp: audit_error_and_clear_def io_finally_def io_bind_def publish_def cache_delete_def on_redis_eq
      split: prod.splits sum.splits option.splits dest!: on_redis_frame)

text \<open>A run that is rejected before the guarded part: nothing sent, at most the request published.\<close>

definition rejected_early :: "invocation_phase \<Rightarrow> (js_error, 'a) result \<Rightarrow> 'r world \<Rightarrow> 'r world \<Rightarrow> bool" where
  "rejected_early phase x w w' \<longleftrightarrow> (\<exists>e. x = Inl e) \<and> w_hub w' = w_hub w \<and>
     (w_audit w' = w_audit w \<or> (\<exists>m. w_audit w' = w_audit w @ [m] \<and> am_action m = Request \<and> am_phase m = phase))"

lemma rejected_earlyI: "x = Inl e \<Longrightarrow> w_hub w' = w_hub w \<Longrightarrow> w_audit w' = w_audit w \<Longrightarrow> rejected_early ph x w w'"
  by (simp add: rejected_early_def)

definition with_home :: "accept_quote_input \<Rightarrow> transfer_request \<Rightarrow> transfer_request" where
  "with_home inp tr = (case aq_homeTransactionId inp of None \<Rightarrow> tr | Some h \<Rightarrow> tr\<lparr>homeTransactionId := h\<rparr>)"

lemma with_home_simps [simp]: "payer (with_home i t) = payer t" "payee (with_home i t) = payee t"
  "quotes (with_home i t) = quotes t" "transfer (with_home i t) = transfer t"
  by (auto simp: with_home_def split: option.splits)

lemma with_home_step:
  assumes "store_homeTransactionId env inp tr0 w = (y, w1)"
  shows "w_hub w1 = w_hub w" "w_audit w1 = w_audit w" "\<And>tr. y = Inr tr \<Longrightarrow> tr = with_home inp tr0"
  using assms
  by (auto simp: store_homeTransactionId_def with_home_def cache_set_def io_bind_def Let_def on_redis_eq
      split: option.splits prod.splits sum.splits dest!: on_redis_frame)

lemma accept_quote_locked_cases:
  assumes "accept_quote_locked env inp w = (x, w')"
  obtains (early) "rejected_early Transfers x w w'"
    "(\<exists>y. redis_get (e_api env) (aq_transferId inp) (w_redis w) = (y, w_redis w')) \<or>
     (\<exists>tr r. redis_get (e_api env) (aq_transferId inp) (w_redis w) = (Inr (Some tr), r) \<and> transfer tr = None)"
  | (late) tr source dest q w1 w2 y where
      "\<exists>r. redis_get (e_api env) (aq_transferId inp) (w_redis w) = (Inr (Some tr), r)" "transfer tr = None"
      "getFspId ''transfer'' (payer tr) ''payer'' = Inr source"
      "getFspId ''transfer'' (payee tr) ''payee'' = Inr dest"
      "assertSourceCanActForPayer (aq_requestSource inp) source = Inr ()"
      "toTransfersPostRequest (aq_transferId inp) (with_home inp tr) = Inr q"
      "w_hub w1 = w_hub w" "\<exists>at. w_audit w1 = w_audit w @ [transfers_message Request (aq_transferId inp) source dest q None None at]"
      "accept_quote_try env inp (with_home inp tr) source dest q w1 = (y, w2)"
      "(\<exists>v. y = Inr v \<and> x = y \<and> w' = w2) \<or>
       (\<exists>e at f. y = Inl e \<and> f = toFspiopException_h e \<and> audit_error_and_clear env (aq_transferId inp)
          (transfers_message Error (aq_transferId inp) source dest q None (Some (toErrorObject f)) at) f w2 = (x, w'))"
proof -
  let ?tid = "aq_transferId inp"
  from assms[unfolded accept_quote_locked_def Let_def] show ?thesis
  proof (cases rule: io_bind_cases)
    case (fail e)
    note g = getTransferRequest_eq[OF fail(1)]
    show ?thesis using g(1,2,4) fail(2) by (intro early) (auto intro: rejected_earlyI)
  next
    case (ok tr w1)
    note g = getTransferRequest_eq[OF ok(1)]
    have got: "redis_get (e_api env) ?tid (w_redis w) = (Inr (Some tr), w_redis w1)" using g(3) by simp
    show ?thesis
    proof (cases "transfer tr = None")
      case False
      then have "x = Inl (throw_fspiop GENERIC_CLIENT_ERROR
                (''Transfer '' @ ?tid @ '' already completed; duplicate acceptQuote ignored.''))" "w' = w1"
        using ok(2) by (simp_all del: new_FspiopException.simps)
      then show ?thesis using g got by (intro early) (auto intro: rejected_earlyI)
    next
      case True
      have e: "thesis" if "rejected_early Transfers x w w'"
        by (rule early[OF that]) (use True got in blast)
      note run = ok(2) True
      show ?thesis
      proof (cases "getFspId ''transfer'' (payer tr) ''payer''")
        case (Inl err)
        then show ?thesis using run g e by (auto intro: rejected_earlyI)
      next
        case source: (Inr source)
        show ?thesis
        proof (cases "assertSourceCanActForPayer (aq_requestSource inp) source")
          case (Inl err)
          then show ?thesis using run source g e by (auto intro: rejected_earlyI)
        next
          case auth: (Inr u)
          obtain h w2 where h: "store_homeTransactionId env inp tr w1 = (h, w2)" by (rule io_pairE)
          note hf = with_home_step[OF h]
          show ?thesis
          proof (cases h)
            case (Inl err)
            then show ?thesis using run source auth g e h hf by (auto intro: rejected_earlyI simp: io_bind_Inl)
          next
            case (Inr tr')
            then have tr': "tr' = with_home inp tr" using hf(3) by simp
            note run' = run source auth h Inr
            show ?thesis
            proof (cases "getFspId ''transfer'' (payee tr) ''payee''")
              case (Inl err)
              then show ?thesis using run' tr' g e hf(1,2) by (auto intro: rejected_earlyI simp: io_bind_Inr)
            next
              case dest: (Inr dest)
              show ?thesis
              proof (cases "toTransfersPostRequest ?tid tr'")
                case (Inl err)
                then show ?thesis using run' tr' dest g e hf(1,2) by (auto intro: rejected_earlyI simp: io_bind_Inr)
              next
                case q: (Inr q)
                show ?thesis
                proof (cases "validate_decimals (e_decimals env) (map_option m_amount (tp_amount q))")
                  case (Inl err)
                  then show ?thesis using run' tr' dest q g e hf(1,2) by (auto intro: rejected_earlyI simp: io_bind_Inr)
                next
                  case dec: (Inr v)
                  let ?m = "transfers_message Request ?tid source dest q None None (e_date env w2)"
                  obtain p w3 where p: "publish env ?m w2 = (p, w3)" by (rule io_pairE)
                  note pf = publish_frame[OF p]
                  show ?thesis
                  proof (cases p)
                    case (Inl err)
                    then have "x = Inl err" "w' = w3" using run' tr' dest q dec p by (auto simp: io_bind_Inr io_bind_Inl)
                    then have "rejected_early Transfers x w w'"
                      using g(1,2) hf(1,2) pf by (simp add: rejected_early_def transfers_message_def)
                    then show ?thesis by (rule e)
                  next
                    case pub: (Inr z)
                    have c: "io_catch (accept_quote_try env inp tr' source dest q) (\<lambda>error.
                       let f = toFspiopException_h error in
                       io_bind (io_gets (e_date env)) (\<lambda>at.
                         audit_error_and_clear env ?tid
                           (transfers_message Error ?tid source dest q None (Some (toErrorObject f)) at) f)) w3 = (x, w')"
                      using run' tr' dest q dec p pub by (simp add: io_bind_Inr Let_def)
                    obtain y w4 where y: "accept_quote_try env inp tr' source dest q w3 = (y, w4)" by (rule io_pairE)
                    from c have fin: "(\<exists>v. y = Inr v \<and> x = y \<and> w' = w4) \<or>
                       (\<exists>e at f. y = Inl e \<and> f = toFspiopException_h e \<and> audit_error_and_clear env ?tid
                          (transfers_message Error ?tid source dest q None (Some (toErrorObject f)) at) f w4 = (x, w'))"
                      by (cases y) (auto simp: io_catch_def y Let_def)
                    show ?thesis
                      by (rule late[OF exI[of _ "w_redis w1"] True source _ _ _ _ _ y[unfolded tr'] fin])
                        (use got dest auth q tr' g hf pf in \<open>auto simp del: new_FspiopException.simps\<close>)
                  qed
                qed
              qed
            qed
          qed
        qed
      qed
    qed
  qed
qed

text \<open>What a POST /transfers of this run was made of.\<close>

definition transfer_as_quoted :: "accept_quote_input \<Rightarrow> transfer_request \<Rightarrow> transfers_post_request \<Rightarrow> bool" where
  "transfer_as_quoted inp tr q \<longleftrightarrow> aq_acceptQuote inp \<and> transfer tr = None \<and>
     (\<exists>qt. quotes tr = Some qt \<and> tp_amount q = transferAmount qt \<and> tp_ilpPacket q = qr_ilpPacket qt \<and>
        tp_condition q = qr_condition qt \<and> tp_expiration q = qr_expiration qt) \<and>
     tp_transferId q = aq_transferId inp \<and>
     toOptionalValue (pii_fspId (partyIdInfo (payer tr))) = Some (tp_payerFsp q) \<and>
     toOptionalValue (pii_fspId (partyIdInfo (payee tr))) = Some (tp_payeeFsp q) \<and>
     (\<forall>s. toOptionalValue (aq_requestSource inp) = Some s \<longrightarrow> s = tp_payerFsp q)"

lemma getFspId_Inr: "getFspId r p l = Inr f \<longleftrightarrow> toOptionalValue (pii_fspId (partyIdInfo p)) = Some f"
  by (auto simp: getFspId_def split: option.splits)

lemma assertSource_Inr:
  "assertSourceCanActForPayer src f = Inr () \<longleftrightarrow> (\<forall>s. toOptionalValue src = Some s \<longrightarrow> s = f)"
  by (auto simp: assertSourceCanActForPayer_def toOptionalValue_def split: option.splits)

lemma toTransfersPostRequest_Inr:
  assumes "toTransfersPostRequest tid tr = Inr q"
  shows "\<exists>qt. quotes tr = Some qt \<and> tp_amount q = transferAmount qt \<and> tp_ilpPacket q = qr_ilpPacket qt \<and>
        tp_condition q = qr_condition qt \<and> tp_expiration q = qr_expiration qt"
    "tp_transferId q = tid" "toOptionalValue (pii_fspId (partyIdInfo (payer tr))) = Some (tp_payerFsp q)"
    "toOptionalValue (pii_fspId (partyIdInfo (payee tr))) = Some (tp_payeeFsp q)"
  using assms by (auto simp: toTransfersPostRequest_def getFspId_Inr split: option.splits)

lemma redis_get_Some_view:
  "redis_commands api view \<Longrightarrow> redis_get api k r = (Inr (Some v), r') \<Longrightarrow> view r k = Some (RJson v)"
  using redis_commands.redis_get_law[of api view k r "Inr (Some v)" r'] by simp

text \<open>The summary of one run of \<open>accept_quote\<close> that all properties below read.\<close>

definition audit_trail :: "invocation_phase \<Rightarrow> string \<Rightarrow> bool \<Rightarrow> bool \<Rightarrow> audit_message list \<Rightarrow> bool" where
  "audit_trail phase tid success sent ms \<longleftrightarrow>
     (\<forall>m \<in> set ms. am_phase m = phase) \<and>
     (if success then sent \<and> map am_action ms = [Request, Response] \<and> (\<forall>m \<in> set ms. am_correlationId m = tid)
      else if sent then map am_action ms \<in> {[Request, Error], [Request, Response, Error]} \<and>
                        (\<forall>m \<in> set ms. am_correlationId m = tid)
      else map am_action ms \<in> {[], [Request], [Request, Error]})"

lemma accept_quote_summary:
  assumes red: "redis_commands (e_api env) view" and run: "accept_quote env inp w = (x, w')"
  shows "\<exists>ms. w_audit w' = w_audit w @ ms \<and>
      audit_trail Transfers (aq_transferId inp) (\<exists>v. x = Inr v) (w_hub w' \<noteq> w_hub w) ms"
    and "w_hub w' = w_hub w \<or> (\<exists>hs q tr. w_hub w' = w_hub w @ [PostTransfers hs q] \<and>
      view (w_redis w) (aq_transferId inp) = Some (RJson tr) \<and> transfer_as_quoted inp tr q)"
    and "w_hub w' \<noteq> w_hub w \<Longrightarrow> \<exists>r d w2. redis_delete (e_api env) (aq_transferId inp) r = (d, w2) \<and>
      view (w_redis w') (aq_transferId inp) = view w2 (aq_transferId inp) \<and> ((\<exists>v. x = Inr v) \<longrightarrow> d = Inr ())"
proof -
  let ?tid = "aq_transferId inp"
  let ?A = "\<exists>ms. w_audit w' = w_audit w @ ms \<and> audit_trail Transfers ?tid (\<exists>v. x = Inr v) (w_hub w' \<noteq> w_hub w) ms"
  let ?B = "w_hub w' = w_hub w \<or> (\<exists>hs q tr. w_hub w' = w_hub w @ [PostTransfers hs q] \<and>
      view (w_redis w) ?tid = Some (RJson tr) \<and> transfer_as_quoted inp tr q)"
  let ?C = "w_hub w' \<noteq> w_hub w \<longrightarrow> (\<exists>r d w2. redis_delete (e_api env) ?tid r = (d, w2) \<and>
      view (w_redis w') ?tid = view w2 ?tid \<and> ((\<exists>v. x = Inr v) \<longrightarrow> d = Inr ()))"
  have "?A \<and> ?B \<and> ?C"
    using run[unfolded accept_quote_def]
  proof (cases rule: with_lock_cases)
    case denied
    then show ?thesis by (auto simp: audit_trail_def)
  next
    case (locked token t w1 w2 u)
    note k = lock_keeps_cache[OF red]
    from locked(4) show ?thesis
    proof (cases rule: accept_quote_locked_cases)
      case early
      then show ?thesis using locked by (auto simp: rejected_early_def audit_trail_def)
    next
      case (late tr source dest q v1 v2 y)
      have view: "view (w_redis w) ?tid = Some (RJson tr)"
        using late(1) redis_get_Some_view[OF red] k(1)[OF locked(1)] by metis
      note tp = toTransfersPostRequest_Inr[OF late(6)]
      have quoted: "transfer_as_quoted inp tr q" if "aq_acceptQuote inp"
        using that tp late(2-5) by (simp add: transfer_as_quoted_def getFspId_Inr assertSource_Inr)
      obtain at where req: "w_audit v1 = w_audit w @ [transfers_message Request ?tid source dest q None None at]"
        using late(8) locked(3) by auto
      have hub1: "w_hub v1 = w_hub w" using late(7) locked(2) by simp
      from late(9) show ?thesis
      proof (cases rule: accept_quote_try_cases)
        case (rejected e)
        with late(10) obtain at f where a: "audit_error_and_clear env ?tid
            (transfers_message Error ?tid source dest q None (Some (toErrorObject f)) at) f v2 = (x, w2)" by auto
        note c = audit_error_and_clear_cases[OF a]
        show ?thesis using c rejected hub1 req locked(5,6) by (auto simp: audit_trail_def transfers_message_def)
      next
        case (failed e hs)
        with late(10) obtain at f where a: "audit_error_and_clear env ?tid
            (transfers_message Error ?tid source dest q None (Some (toErrorObject f)) at) f v2 = (x, w2)" by auto
        note c = audit_error_and_clear_cases[OF a]
        have hub: "w_hub w' = w_hub w @ [PostTransfers hs q]" using c(2) failed(3) hub1 locked(5) by simp
        have A: ?A using c(1,3) failed(4) req locked(6) hub by (auto simp: audit_trail_def transfers_message_def)
        have C: ?C using c(1,4) k(2)[OF locked(7)] by blast
        show ?thesis using A C hub view quoted[OF failed(1)] by blast
      next
        case (completed rs c hs at' r)
        with late(10) have w2: "x = Inr (rs, c)" "w2 = v2" by auto
        have hub: "w_hub w' = w_hub w @ [PostTransfers hs q]" using completed(3) hub1 locked(5) w2 by simp
        have A: ?A using completed(4) req locked(6) hub w2 by (auto simp: audit_trail_def transfers_message_def)
        have C: ?C using completed(5) w2 k(2)[OF locked(7)] by blast
        show ?thesis using A C hub view quoted[OF completed(1)] by blast
      qed
    qed
  qed
  then show ?A ?B "w_hub w' \<noteq> w_hub w \<Longrightarrow> \<exists>r d w2. redis_delete (e_api env) ?tid r = (d, w2) \<and>
      view (w_redis w') ?tid = view w2 ?tid \<and> ((\<exists>v. x = Inr v) \<longrightarrow> d = Inr ())"
    by blast+
qed

section \<open>Accepting the party\<close>

lemma accept_party_try_cases:
  assumes "accept_party_try env inp tr source dest q w = (x, w')"
  obtains (rejected) e where "x = Inl e" "w_hub w' = w_hub w" "w_audit w' = w_audit w"
  | (failed) e hs where "ap_acceptParty inp" "x = Inl e" "w_hub w' = w_hub w @ [PostQuotes hs q]"
      "w_audit w' = w_audit w \<or> (\<exists>c at. w_audit w' = w_audit w @ [quotes_message Response (ap_transferId inp) source dest q (Some c) None at])"
  | (completed) rs c hs at r where "ap_acceptParty inp" "x = Inr (rs, c)" "w_hub w' = w_hub w @ [PostQuotes hs q]"
      "w_audit w' = w_audit w @ [quotes_message Response (ap_transferId inp) source dest q (Some c) None at]"
      "redis_set (e_api env) (e_defaultTtlMs env) (ap_transferId inp) (tr\<lparr>quotes := Some c, transfer := None\<rparr>) None r = (Inr (), w_redis w')"
      "toResponse_party (tr\<lparr>quotes := Some c, transfer := None\<rparr>) c = Inr rs"
proof (cases "ap_acceptParty inp")
  case False
  then show ?thesis using assms by (intro rejected) (auto simp: accept_party_try_def Let_def io_bind_def)
next
  case True
  let ?tid = "ap_transferId inp"
  let ?pat = "\<lparr>pat_payerFsp = source, pat_payerId = partyIdentifier (partyIdInfo (payer tr)),
             pat_payeeFsp = dest, pat_payeeId = partyIdentifier (partyIdInfo (payee tr)),
             pat_currency = currency tr, pat_amount = amount tr\<rparr>"
  obtain sus w0 where sus: "on_redis (assertNotSuspicious (e_api env) (e_monitor env) ?pat) w = (sus, w0)" by (rule io_pairE)
  note sf = on_redis_frame[OF sus]
  let ?hs = "headers_quotes_forRequest (e_header_date env w0) (Some (quoteId q)) source dest"
  let ?cb = "e_quotes_callback env (forSuccess_quotes source (quoteId q)) (forError_quotes source (quoteId q)) None"
  obtain y w1 where y: "call_and_wait env (PostQuotes ?hs q) (forSuccess_quotes source (quoteId q))
      (\<lambda>e. JsFspiop (toFspiopException_h e)) ?cb w0 = (y, w1)" by (rule io_pairE)
  note fr = call_and_wait_frame[OF y]
  show ?thesis
  proof (cases sus)
    case (Inl e)
    then show ?thesis using assms True sus sf
      by (intro rejected[of e]) (auto simp: accept_party_try_def Let_def io_bind_def)
  next
    case susok: (Inr z)
    show ?thesis
    proof (cases y)
      case (Inl e)
      then show ?thesis using assms True sus susok y fr sf
        by (intro failed[of e ?hs]) (auto simp: accept_party_try_def Let_def io_bind_def)
    next
      case (Inr c)
      let ?tr = "tr\<lparr>quotes := Some c, transfer := None\<rparr>"
      have rest: "io_bind (io_lift (toResponse_party ?tr c)) (\<lambda>response.
             io_bind (cache_set env ?tid ?tr) (\<lambda>_.
             io_bind (io_gets (e_date env)) (\<lambda>at.
             io_bind (publish env (quotes_message Response ?tid source dest q (Some c) None at)) (\<lambda>_.
             io_return (response, c))))) w1 = (x, w')"
        using assms True sus susok y Inr by (simp add: accept_party_try_def Let_def io_bind_def)
      show ?thesis
      proof (cases "toResponse_party ?tr c")
        case (Inl e)
        then show ?thesis using rest fr sf True by (intro failed[of e ?hs]) auto
      next
        case rs: (Inr rs)
        obtain d w2 where d: "cache_set env ?tid ?tr w1 = (d, w2)" by (rule io_pairE)
        note df = on_redis_frame[OF d[unfolded cache_set_def]]
        let ?m = "quotes_message Response ?tid source dest q (Some c) None (e_date env w2)"
        obtain p w3 where p: "publish env ?m w2 = (p, w3)" by (rule io_pairE)
        note pf = publish_frame[OF p]
        show ?thesis
        proof (cases d)
          case (Inl e)
          then show ?thesis using rest rs d fr sf df True by (intro failed[of e ?hs]) (auto simp: io_bind_def)
        next
          case dok: (Inr u)
          show ?thesis
          proof (cases p)
            case (Inl e)
            then have "x = Inl e \<and> w_hub w' = w_hub w @ [PostQuotes ?hs q] \<and> w_audit w' = w_audit w @ [?m]"
              using rest rs p d dok fr sf pf df by (auto simp: io_bind_def)
            then show ?thesis using failed True by blast
          next
            case (Inr v)
            then show ?thesis using rest rs p d dok fr sf pf df True
              by (intro completed[of rs c ?hs "e_date env w2" "w_redis w1"]) (auto simp: io_bind_def)
          qed
        qed
      qed
    qed
  qed
qed

definition confirmed :: "accept_party_input \<Rightarrow> transfer_request \<Rightarrow> transfer_request" where
  "confirmed inp tr = tr\<lparr>amount := normalizeAmount (ap_amount inp)\<rparr>"

lemma confirmed_simps [simp]: "payer (confirmed i t) = payer t" "payee (confirmed i t) = payee t"
  "quotes (confirmed i t) = quotes t" "transferId (confirmed i t) = transferId t"
  by (simp_all add: confirmed_def)

lemma accept_party_locked_cases:
  assumes "accept_party_locked env inp w = (x, w')"
  obtains (early) "rejected_early Quotes x w w'"
  | (late) tr source dest el q w1 w2 y where
      "\<exists>r. redis_get (e_api env) (ap_transferId inp) (w_redis w) = (Inr (Some tr), r)" "quotes tr = None"
      "getFspId ''quote'' (payer tr) ''payer'' = Inr source"
      "getFspId ''quote'' (payee tr) ''payee'' = Inr dest"
      "assertSourceCanActForPayer (ap_requestSource inp) source = Inr ()"
      "validate_payer_fees (e_feesMandatory env) (e_decimals env) (ap_acceptParty inp) (ap_extensionList inp) = Inr el"
      "q = toQuotesPostRequest (ap_transferId inp) (confirmed inp tr) el"
      "w_hub w1 = w_hub w" "\<exists>at. w_audit w1 = w_audit w @ [quotes_message Request (ap_transferId inp) source dest q None None at]"
      "accept_party_try env inp (confirmed inp tr) source dest q w1 = (y, w2)"
      "(\<exists>v. y = Inr v \<and> x = y \<and> w' = w2) \<or>
       (\<exists>e at f. y = Inl e \<and> f = toFspiopException_h e \<and> audit_error_and_clear env (ap_transferId inp)
          (quotes_message Error (ap_transferId inp) source dest q None (Some (toErrorObject f)) at) f w2 = (x, w'))"
proof -
  let ?tid = "ap_transferId inp"
  from assms[unfolded accept_party_locked_def Let_def] show ?thesis
  proof (cases rule: io_bind_cases)
    case (fail e)
    show ?thesis using getTransferRequest_eq(1,2)[OF fail(1)] fail(2) by (intro early) (auto intro: rejected_earlyI)
  next
    case (ok tr w1)
    note g = getTransferRequest_eq[OF ok(1)]
    have got: "redis_get (e_api env) ?tid (w_redis w) = (Inr (Some tr), w_redis w1)" using g(3) by simp
    show ?thesis
    proof (cases "quotes tr = None")
      case False
      then have "x = Inl (throw_fspiop GENERIC_CLIENT_ERROR
                (''Quote already completed for transfer '' @ ?tid @ ''; duplicate acceptParty ignored.''))" "w' = w1"
        using ok(2) by (simp_all del: new_FspiopException.simps)
      then show ?thesis using g by (intro early) (auto intro: rejected_earlyI)
    next
      case True
      note run = ok(2) True
      show ?thesis
      proof (cases "getFspId ''quote'' (payer tr) ''payer''")
        case (Inl err)
        then show ?thesis using run g early by (auto intro: rejected_earlyI)
      next
        case source: (Inr source)
        show ?thesis
        proof (cases "assertSourceCanActForPayer (ap_requestSource inp) source")
          case (Inl err)
          then show ?thesis using run source g early by (auto intro: rejected_earlyI)
        next
          case auth: (Inr u)
          show ?thesis
          proof (cases "validate_payer_fees (e_feesMandatory env) (e_decimals env) (ap_acceptParty inp) (ap_extensionList inp)")
            case (Inl err)
            then show ?thesis using run source auth g early by (auto intro: rejected_earlyI)
          next
            case el: (Inr el)
            show ?thesis
            proof (cases "validate_decimals (e_decimals env) (Some (normalizeAmount (ap_amount inp)))")
              case (Inl err)
              then show ?thesis using run source auth el g early by (auto intro: rejected_earlyI)
            next
              case dec: (Inr v)
              show ?thesis
              proof (cases "getFspId ''quote'' (payee tr) ''payee''")
                case (Inl err)
                then show ?thesis using run source auth el dec g early by (auto intro: rejected_earlyI)
              next
                case dest: (Inr dest)
                let ?q = "toQuotesPostRequest ?tid (confirmed inp tr) el"
                let ?m = "quotes_message Request ?tid source dest ?q None None (e_date env w1)"
                obtain p w3 where p: "publish env ?m w1 = (p, w3)" by (rule io_pairE)
                note pf = publish_frame[OF p]
                note p' = p[unfolded confirmed_def]
                show ?thesis
                proof (cases p)
                  case (Inl err)
                  then have "x = Inl err" "w' = w3" using run source auth el dec dest p' by (auto simp: io_bind_Inl)
                  then have "rejected_early Quotes x w w'"
                    using g(1,2) pf by (simp add: rejected_early_def quotes_message_def)
                  then show ?thesis by (rule early)
                next
                  case pub: (Inr z)
                  have c: "io_catch (accept_party_try env inp (confirmed inp tr) source dest ?q) (\<lambda>error.
                     let f = toFspiopException_h error in
                     io_bind (io_gets (e_date env)) (\<lambda>at.
                       audit_error_and_clear env ?tid
                         (quotes_message Error ?tid source dest ?q None (Some (toErrorObject f)) at) f)) w3 = (x, w')"
                    using run source auth el dec dest p' pub by (simp add: io_bind_Inr Let_def confirmed_def)
                  obtain y w4 where y: "accept_party_try env inp (confirmed inp tr) source dest ?q w3 = (y, w4)" by (rule io_pairE)
                  from c have fin: "(\<exists>v. y = Inr v \<and> x = y \<and> w' = w4) \<or>
                     (\<exists>e at f. y = Inl e \<and> f = toFspiopException_h e \<and> audit_error_and_clear env ?tid
                        (quotes_message Error ?tid source dest ?q None (Some (toErrorObject f)) at) f w4 = (x, w'))"
                    by (cases y) (auto simp: io_catch_def y Let_def)
                  show ?thesis
                    by (rule late[OF exI[of _ "w_redis w1"] True source dest _ el refl _ _ y fin])
                      (use got auth g pf in \<open>auto simp del: new_FspiopException.simps\<close>)
                qed
              qed
            qed
          qed
        qed
      qed
    qed
  qed
qed

text \<open>What a POST /quotes of this run was made of.\<close>

definition quote_as_confirmed :: "accept_party_input \<Rightarrow> transfer_request \<Rightarrow> quotes_post_request \<Rightarrow> bool" where
  "quote_as_confirmed inp tr q \<longleftrightarrow> ap_acceptParty inp \<and> quotes tr = None \<and>
     quoteId q = ap_transferId inp \<and> transactionId q = ap_transferId inp \<and>
     qp_payer q = payer tr \<and> qp_payee q = payee tr \<and>
     qp_amount q = \<lparr>m_currency = currency tr, m_amount = normalizeAmount (ap_amount inp)\<rparr> \<and>
     (\<forall>s. toOptionalValue (ap_requestSource inp) = Some s \<longrightarrow>
        toOptionalValue (pii_fspId (partyIdInfo (payer tr))) = Some s)"

lemma accept_party_summary:
  assumes red: "redis_commands (e_api env) view" and run: "accept_party env inp w = (x, w')"
  shows "\<exists>ms. w_audit w' = w_audit w @ ms \<and>
      audit_trail Quotes (ap_transferId inp) (\<exists>v. x = Inr v) (w_hub w' \<noteq> w_hub w) ms"
    and "w_hub w' = w_hub w \<or> (\<exists>hs q tr. w_hub w' = w_hub w @ [PostQuotes hs q] \<and>
      view (w_redis w) (ap_transferId inp) = Some (RJson tr) \<and> quote_as_confirmed inp tr q)"
    and "w_hub w' \<noteq> w_hub w \<Longrightarrow> x = Inl e \<Longrightarrow> \<exists>r d w2. redis_delete (e_api env) (ap_transferId inp) r = (d, w2) \<and>
      view (w_redis w') (ap_transferId inp) = view w2 (ap_transferId inp)"
    and "x = Inr (rs, c) \<Longrightarrow> \<exists>tr. view (w_redis w') (ap_transferId inp) = Some (RJson tr) \<and> quotes tr = Some c \<and>
      transfer tr = None \<and> rs_currentState rs = WaitingForQuoteAcceptance"
proof -
  let ?tid = "ap_transferId inp"
  let ?A = "\<exists>ms. w_audit w' = w_audit w @ ms \<and> audit_trail Quotes ?tid (\<exists>v. x = Inr v) (w_hub w' \<noteq> w_hub w) ms"
  let ?B = "w_hub w' = w_hub w \<or> (\<exists>hs q tr. w_hub w' = w_hub w @ [PostQuotes hs q] \<and>
      view (w_redis w) ?tid = Some (RJson tr) \<and> quote_as_confirmed inp tr q)"
  let ?C = "w_hub w' \<noteq> w_hub w \<and> (\<exists>e. x = Inl e) \<longrightarrow> (\<exists>r d w2. redis_delete (e_api env) ?tid r = (d, w2) \<and>
      view (w_redis w') ?tid = view w2 ?tid)"
  let ?D = "\<forall>rs c. x = Inr (rs, c) \<longrightarrow> (\<exists>tr. view (w_redis w') ?tid = Some (RJson tr) \<and> quotes tr = Some c \<and>
      transfer tr = None \<and> rs_currentState rs = WaitingForQuoteAcceptance)"
  have "?A \<and> ?B \<and> ?C \<and> ?D"
    using run[unfolded accept_party_def]
  proof (cases rule: with_lock_cases)
    case denied
    then show ?thesis by (auto simp: audit_trail_def)
  next
    case (locked token t w1 w2 u)
    note k = lock_keeps_cache[OF red]
    from locked(4) show ?thesis
    proof (cases rule: accept_party_locked_cases)
      case early
      then show ?thesis using locked by (auto simp: rejected_early_def audit_trail_def)
    next
      case (late tr source dest el q v1 v2 y)
      have view: "view (w_redis w) ?tid = Some (RJson tr)"
        using late(1) redis_get_Some_view[OF red] k(1)[OF locked(1)] by metis
      have quoted: "quote_as_confirmed inp tr q" if "ap_acceptParty inp"
        using that late(2,3,5,7)
        by (auto simp: quote_as_confirmed_def getFspId_Inr assertSource_Inr toQuotesPostRequest_def confirmed_def toMoney_def)
      obtain at where req: "w_audit v1 = w_audit w @ [quotes_message Request ?tid source dest q None None at]"
        using late(9) locked(3) by auto
      have hub1: "w_hub v1 = w_hub w" using late(8) locked(2) by simp
      from late(10) show ?thesis
      proof (cases rule: accept_party_try_cases)
        case (rejected e)
        with late(11) obtain at f where a: "audit_error_and_clear env ?tid
            (quotes_message Error ?tid source dest q None (Some (toErrorObject f)) at) f v2 = (x, w2)" by auto
        note c = audit_error_and_clear_cases[OF a]
        show ?thesis using c rejected hub1 req locked(5,6) by (auto simp: audit_trail_def quotes_message_def)
      next
        case (failed e hs)
        with late(11) obtain at f where a: "audit_error_and_clear env ?tid
            (quotes_message Error ?tid source dest q None (Some (toErrorObject f)) at) f v2 = (x, w2)" by auto
        note c = audit_error_and_clear_cases[OF a]
        have hub: "w_hub w' = w_hub w @ [PostQuotes hs q]" using c(2) failed(3) hub1 locked(5) by simp
        have A: ?A using c(1,3) failed(4) req locked(6) hub by (auto simp: audit_trail_def quotes_message_def)
        have C: ?C using c(1,4) k(2)[OF locked(7)] by blast
        show ?thesis using A C hub view quoted[OF failed(1)] c(1) by auto
      next
        case (completed rs c hs at' r)
        with late(11) have w2: "x = Inr (rs, c)" "w2 = v2" by auto
        have hub: "w_hub w' = w_hub w @ [PostQuotes hs q]" using completed(3) hub1 locked(5) w2 by simp
        have A: ?A using completed(4) req locked(6) hub w2 by (auto simp: audit_trail_def quotes_message_def)
        have st: "rs_currentState rs = WaitingForQuoteAcceptance"
          using completed(6) by (auto simp: toResponse_party_def toWaitingForQuoteAcceptance_def toResponse_def)
        have "view (w_redis w') ?tid = Some (RJson ((confirmed inp tr)\<lparr>quotes := Some c, transfer := None\<rparr>))"
          using redis_commands.redis_set_law[OF red completed(5)] k(2)[OF locked(7)] w2 by auto
        then have D: ?D using w2 st by auto
        show ?thesis using A D hub w2 view quoted[OF completed(1)] by blast
      qed
    qed
  qed
  then show ?A ?B "w_hub w' \<noteq> w_hub w \<Longrightarrow> x = Inl e \<Longrightarrow> \<exists>r d w2. redis_delete (e_api env) ?tid r = (d, w2) \<and>
      view (w_redis w') ?tid = view w2 ?tid"
    "x = Inr (rs, c) \<Longrightarrow> \<exists>tr. view (w_redis w') ?tid = Some (RJson tr) \<and> quotes tr = Some c \<and>
      transfer tr = None \<and> rs_currentState rs = WaitingForQuoteAcceptance"
    by blast+
qed

section \<open>Posting the request\<close>

lemma post_send_money_try_cases:
  assumes "post_send_money_try env cid source req at hs w = (x, w')"
  obtains (failed) e ms where "x = Inl e" "w_audit w' = w_audit w @ ms" "\<forall>m\<in>set ms. am_phase m = Parties \<and> am_correlationId m = cid"
      "map am_action ms \<in> {[Request], [Request, Response]}"
      "w_hub w' = w_hub w \<or> (\<exists>ty pid sub. w_hub w' = w_hub w @ [GetParties hs ty pid sub])"
  | (completed) rs c d r c0 where "x = Inr (rs, c)"
      "\<exists>m1 m2. w_audit w' = w_audit w @ [m1, m2] \<and> map am_action [m1, m2] = [Request, Response] \<and>
         am_phase m1 = Parties \<and> am_phase m2 = Parties \<and> am_correlationId m1 = cid \<and> am_correlationId m2 = cid"
      "\<exists>ty pid sub. w_hub w' = w_hub w @ [GetParties hs ty pid sub]"
      "resolveDestination c0 (toOptionalValue (fspId (sm_to req))) = Inr (d, c)"
      "toWaitingForPartyAcceptance (toTransferRequest req c cid at) = Inr rs"
      "redis_set (e_api env) (e_defaultTtlMs env) cid (toTransferRequest req c cid at) None r = (Inr (), w_redis w')"
proof -
  let ?dest = "toOptionalValue (fspId (sm_to req))"
  let ?ty = "idType (sm_to req)" and ?id = "idValue (sm_to req)" and ?sub = "toSubId (idSubValue (sm_to req))"
  let ?s = "forSuccess_parties source ?dest ?ty ?id ?sub"
  let ?cb = "e_parties_callback env ?s (forError_parties source ?dest ?ty ?id ?sub)
     (Some (forError_parties source (Some (e_switchId env)) ?ty ?id ?sub))"
  let ?m1 = "parties_message Request cid source (nullish ?dest []) (parties_request_content req) at"
  obtain p w1 where p: "publish env ?m1 w = (p, w1)" by (rule io_pairE)
  note pf = publish_frame[OF p]
  obtain y w2 where y: "call_and_wait env (GetParties hs ?ty ?id ?sub) ?s (\<lambda>e. e) ?cb w1 = (y, w2)" by (rule io_pairE)
  note yf = call_and_wait_frame[OF y]
  note run = assms[unfolded post_send_money_try_def Let_def]
  have m1: "am_action ?m1 = Request" "am_phase ?m1 = Parties" "am_correlationId ?m1 = cid"
    by (simp_all add: parties_message_def)
  show ?thesis
  proof (cases p)
    case (Inl e)
    then have "x = Inl e" "w' = w1" using run p by (simp_all add: io_bind_Inl)
    then show ?thesis using pf m1 by (intro failed[of e "[?m1]"]) simp_all
  next
    case pok: (Inr u)
    show ?thesis
    proof (cases y)
      case (Inl e)
      then have "x = Inl e" "w' = w2" using run p pok y by (simp_all add: io_bind_Inl io_bind_Inr)
      then show ?thesis using pf yf m1 by (intro failed[of e "[?m1]"]) simp_all
    next
      case c0: (Inr c0)
      show ?thesis
      proof (cases "resolveDestination c0 ?dest")
        case (Inl e)
        then have "x = Inl e" "w' = w2" using run p pok y c0 by (simp_all add: io_bind_Inr)
        then show ?thesis using pf yf m1 by (intro failed[of e "[?m1]"]) simp_all
      next
        case (Inr dc)
        then obtain d c where dc: "resolveDestination c0 ?dest = Inr (d, c)" by (cases dc) auto
        let ?tr = "toTransferRequest req c cid at"
        show ?thesis
        proof (cases "toWaitingForPartyAcceptance ?tr")
          case (Inl e)
          then have "x = Inl e" "w' = w2" using run p pok y c0 dc by (simp_all add: io_bind_Inr)
          then show ?thesis using pf yf m1 by (intro failed[of e "[?m1]"]) simp_all
        next
          case rs: (Inr rs)
          obtain k w3 where k: "cache_set env cid ?tr w2 = (k, w3)" by (rule io_pairE)
          note kf = on_redis_frame[OF k[unfolded cache_set_def]]
          let ?m2 = "parties_message Response cid source d ((parties_content_base req)\<lparr>pc_response := Some c\<rparr>) (e_date env w3)"
          obtain z w4 where z: "publish env ?m2 w3 = (z, w4)" by (rule io_pairE)
          note zf = publish_frame[OF z]
          have m2: "am_action ?m2 = Response" "am_phase ?m2 = Parties" "am_correlationId ?m2 = cid"
            by (simp_all add: parties_message_def)
          show ?thesis
          proof (cases k)
            case (Inl e)
            then have "x = Inl e" "w' = w3" using run p pok y c0 dc rs k by (simp_all add: io_bind_Inr io_bind_Inl)
            then show ?thesis using pf yf kf m1 by (intro failed[of e "[?m1]"]) simp_all
          next
            case kok: (Inr k')
            show ?thesis
            proof (cases z)
              case (Inl e)
              then have "x = Inl e" "w' = w4" using run p pok y c0 dc rs k kok z by (simp_all add: io_bind_Inr io_bind_Inl)
              then show ?thesis using pf yf kf zf m1 m2 by (intro failed[of e "[?m1, ?m2]"]) simp_all
            next
              case (Inr z')
              then have e: "x = Inr (rs, c)" "w' = w4" using run p pok y c0 dc rs k kok z by (simp_all add: io_bind_Inr)
              show ?thesis
                by (rule completed[OF e(1) _ _ dc rs, of "w_redis w2"])
                  (use e pf yf kf zf m1 m2 kok in auto)
            qed
          qed
        qed
      qed
    qed
  qed
qed

text \<open>A cached transfer that has not been quoted: the state \<open>post_send_money\<close> creates.\<close>

lemma post_send_money_summary:
  assumes red: "redis_commands (e_api env) view" and run: "post_send_money env cid source req w = (x, w')"
  obtains (invalid) e where "x = Inl e" "w' = w" "validate_decimals (e_decimals env) (Some (sm_amount req)) = Inl e"
  | (failed) e ms r d where "x = Inl (JsFspiop e)" "w_audit w' = w_audit w @ ms"
      "\<forall>m\<in>set ms. am_phase m = Parties \<and> am_correlationId m = cid"
      "map am_action ms \<in> {[Request, Error], [Request, Response, Error]}"
      "redis_delete (e_api env) cid r = (d, w_redis w')" "length (w_hub w') \<le> Suc (length (w_hub w))"
  | (completed) rs c ms tr where "x = Inr (rs, c)" "w_audit w' = w_audit w @ ms"
      "\<forall>m\<in>set ms. am_phase m = Parties \<and> am_correlationId m = cid" "map am_action ms = [Request, Response]"
      "\<exists>hs ty pid sub. w_hub w' = w_hub w @ [GetParties hs ty pid sub]"
      "view (w_redis w') cid = Some (RJson tr)" "\<exists>at. tr = toTransferRequest req c cid at"
      "rs_currentState rs = WaitingForPartyAcceptance" "rs_transferId rs = cid"
proof -
  let ?hs = "headers_parties_forRequest (e_header_date env w) (Some cid) source (toOptionalValue (fspId (sm_to req)))"
  show ?thesis
  proof (cases "validate_decimals (e_decimals env) (Some (sm_amount req))")
    case (Inl e)
    then show ?thesis using run by (intro invalid) (simp_all add: post_send_money_def Let_def)
  next
    case (Inr u)
    obtain y w1 where y: "post_send_money_try env cid source req (e_date env w) ?hs w = (y, w1)" by (rule io_pairE)
    from y show ?thesis
    proof (cases rule: post_send_money_try_cases)
      case (failed e ms)
      let ?f = "toFspiopException_h e"
      let ?m = "parties_message Error cid source (nullish (toOptionalValue (fspId (sm_to req))) [])
                    ((parties_content_base req)\<lparr>pc_error := Some (toErrorObject ?f)\<rparr>) (e_date env w1)"
      have a: "audit_error_and_clear env cid ?m ?f w1 = (x, w')"
        using run Inr y failed(1) by (simp add: post_send_money_def io_catch_def Let_def)
      note c = audit_error_and_clear_cases[OF a]
      have x: "x = Inl (JsFspiop ?f)"
        using a by (auto simp: audit_error_and_clear_def io_finally_throw)
      obtain d where d: "redis_delete (e_api env) cid (w_redis w1) = (d, w_redis w')" using c(4) by blast
      have hub: "length (w_hub w') \<le> Suc (length (w_hub w))" using failed(5) c(2) by auto
      show ?thesis
        by (rule that(2)[OF x _ _ _ d hub, of "ms @ [?m]"]) (use failed(2-4) c(3) in \<open>auto simp: parties_message_def\<close>)
    next
      case (completed rs c d r c0)
      then have e: "x = Inr (rs, c)" "w' = w1" using run Inr y by (simp_all add: post_send_money_def io_catch_def Let_def)
      obtain m1 m2 where m: "w_audit w1 = w_audit w @ [m1, m2]" "map am_action [m1, m2] = [Request, Response]"
        "am_phase m1 = Parties" "am_phase m2 = Parties" "am_correlationId m1 = cid" "am_correlationId m2 = cid"
        using completed(2) by (elim exE conjE) (rule that)
      have v: "view (w_redis w') cid = Some (RJson (toTransferRequest req c cid (e_date env w)))"
        using redis_commands.redis_set_law[OF red completed(6)] e by auto
      have st: "rs_currentState rs = WaitingForPartyAcceptance" "rs_transferId rs = cid"
        using completed(5) by (auto simp: toWaitingForPartyAcceptance_def toResponse_def toTransferRequest_def)
      show ?thesis
        by (rule that(3)[OF e(1) _ _ _ _ v _ st, of "[m1, m2]"]) (use completed(3) e m in auto)
    qed
  qed
qed

section \<open>A concrete environment\<close>

text \<open>
  The in-memory server, a Hub that accepts every request and answers every wait at once; it shows that
  the hypotheses of the properties can hold together.
\<close>

definition demo_party :: "string \<Rightarrow> party" where
  "demo_party f = \<lparr>partyIdInfo = \<lparr>partyIdType = ''MSISDN'', partyIdentifier = ''0612'', partySubIdOrType = None,
      pii_fspId = Some f, pii_extensionList = None\<rparr>, p_merchantClassificationCode = None, p_name = None,
      personalInfo = None, p_supportedCurrencies = None\<rparr>"

definition demo_fsp_party :: "string \<Rightarrow> fsp_party" where
  "demo_fsp_party f = \<lparr>fp_type = None, idType = ''MSISDN'', idValue = ''0612'', idSubValue = None, displayName = None,
      firstName = None, middleName = None, lastName = None, dateOfBirth = None, merchantClassificationCode = None,
      fspId = Some f, fp_extensionList = None\<rparr>"

definition demo_quote :: quotes_response where
  "demo_quote = \<lparr>transferAmount = Some \<lparr>m_currency = ''USD'', m_amount = ''10''\<rparr>, payeeReceiveAmount = None,
      payeeFspFee = Some \<lparr>m_currency = ''USD'', m_amount = ''1''\<rparr>, qr_expiration = ''e'', qr_ilpPacket = ''p'', qr_condition = ''c'', qr_extensionList = None\<rparr>"

definition demo_transfer :: "quotes_response option \<Rightarrow> transfer_request" where
  "demo_transfer q = \<lparr>payer = demo_party ''a'', payee = demo_party ''b'', quotes = q, transfer = None,
      transferId = ''t'', homeTransactionId = ''h'', initiatedTimestamp = ''0'', t_from = demo_fsp_party ''a'',
      t_to = demo_fsp_party ''b'', amountType = ''SEND'', currency = ''USD'', amount = ''10'',
      transactionType = ''TRANSFER'', subScenario = [], t_note = None, supportedCurrencies = None\<rparr>"

definition demo_env :: "transfer_request mem_redis env" where
  "demo_env = \<lparr>e_api = mem_api, e_defaultTtlMs = 60000, e_switchId = ''switch'', e_decimals = 2,
      e_feesMandatory = False,
      e_monitor = \<lparr>mon_windowMs = 0, mon_threshold = 0, mon_enabled = False, mon_matchingFields = []\<rparr>,
      e_uuid = (\<lambda>_. ''uuid''), e_date = (\<lambda>_. ''1''), e_header_date = (\<lambda>_. ''1''),
      e_publish = (\<lambda>_ _. None), e_hub = (\<lambda>_ _. None), e_elapse = w_redis,
      e_parties_callback = (\<lambda>_ _ _ _. Inr \<lparr>pr_party = demo_party ''b''\<rparr>),
      e_quotes_callback = (\<lambda>_ _ _ _. Inr demo_quote),
      e_transfers_callback = (\<lambda>_ _ _ _. Inr \<lparr>fulfilment = None, completedTimestamp = None,
         tr_transferState = ''COMMITTED'', tr_extensionList = None\<rparr>)\<rparr>"

definition demo_world :: "quotes_response option \<Rightarrow> transfer_request mem_redis world" where
  "demo_world q = \<lparr>w_redis = \<lparr>mr_store = [(''t'', (RJson (demo_transfer q), None))], mr_now = 0, mr_up = True\<rparr>,
      w_audit = [], w_hub = [], w_cancelled = []\<rparr>"

definition demo_accept_quote :: accept_quote_input where
  "demo_accept_quote = \<lparr>aq_transferId = ''t'', aq_acceptQuote = True, aq_requestSource = Some ''a'', aq_homeTransactionId = None\<rparr>"

definition demo_accept_party :: accept_party_input where
  "demo_accept_party = \<lparr>ap_transferId = ''t'', ap_acceptParty = True, ap_amount = ''10.0'', ap_extensionList = None,
      ap_requestSource = None\<rparr>"

lemma demo_redis: "redis_commands (e_api demo_env) mem_view"
  unfolding demo_env_def by simp (rule mem.redis_commands_axioms)

lemma demo_transfer_simps: "payer (demo_transfer q) = demo_party ''a''" "payee (demo_transfer q) = demo_party ''b''"
  "quotes (demo_transfer q) = q" "transfer (demo_transfer q) = None"
  by (simp_all add: demo_transfer_def)

lemma demo_checks:
  "getFspId l (demo_party ''a'') p = Inr ''a''" "getFspId l (demo_party ''b'') p = Inr ''b''"
  "assertSourceCanActForPayer (Some ''a'') ''a'' = Inr ()"
  by (simp_all add: getFspId_def demo_party_def toOptionalValue_def assertSourceCanActForPayer_def trim_def is_space_def code_unit_def)

lemma demo_amount: "normalizeAmount ''10.0'' = ''10''" "validate_decimals 2 (Some ''10'') = Inr ()"
  by code_simp+

lemma demo_post_request: "\<exists>q. toTransfersPostRequest ''t'' (demo_transfer (Some demo_quote)) = Inr q \<and>
    tp_amount q = Some \<lparr>m_currency = ''USD'', m_amount = ''10''\<rparr>"
  by (simp add: toTransfersPostRequest_def demo_transfer_simps demo_checks demo_quote_def)

lemmas mem_api_fields = mem_api_def[THEN arg_cong[of _ _ r_get], simplified] mem_api_def[THEN arg_cong[of _ _ r_set], simplified]
  mem_api_def[THEN arg_cong[of _ _ r_setnx], simplified] mem_api_def[THEN arg_cong[of _ _ r_del], simplified]

lemmas run_defs = with_lock_def getTransferRequest_def cache_get_def cache_set_def cache_delete_def on_redis_def io_on_def
  io_bind_def io_catch_def io_finally_def acquireLock_def releaseLock_def RELEASE_LOCK_SCRIPT_def redis_get_def redis_set_def
  redis_delete_def mem_api_fields mem_call_def mem_view_def mem_put_def publish_def hub_send_def call_and_wait_def await_def
  lockKey_def LOCK_KEY_PREFIX_def

lemma demo_quote_posts: "length (w_hub (snd (accept_quote demo_env demo_accept_quote (demo_world (Some demo_quote))))) = 1"
proof -
  obtain q where q: "toTransfersPostRequest ''t'' (demo_transfer (Some demo_quote)) = Inr q"
    "tp_amount q = Some \<lparr>m_currency = ''USD'', m_amount = ''10''\<rparr>" using demo_post_request by blast
  show ?thesis
    by (simp add: accept_quote_def accept_quote_locked_def accept_quote_try_def demo_env_def demo_world_def demo_accept_quote_def
        store_homeTransactionId_def run_defs demo_transfer_simps demo_checks demo_amount q Let_def
        toResponse_quote_def toFinalState_def toResponse_def toExtensionArray_def del: new_FspiopException.simps)
qed

lemma demo_party_posts: "length (w_hub (snd (accept_party demo_env demo_accept_party (demo_world None)))) = 1"
  by (simp add: accept_party_def accept_party_locked_def accept_party_try_def demo_env_def demo_world_def demo_accept_party_def
      run_defs demo_transfer_simps demo_checks demo_amount Let_def validate_payer_fees_def assertSourceCanActForPayer_def[of None]
      assertNotSuspicious_def toResponse_party_def toPayeeFspFeeAmount_def demo_quote_def toOptionalValue_def trim_def is_space_def code_unit_def
      toWaitingForQuoteAcceptance_def toResponse_def toExtensionArray_def
      del: new_FspiopException.simps)

lemma demo_reliable: "\<forall>k r. mr_up r \<longrightarrow> (\<exists>n r'. r_del (e_api demo_env) k r = (Inr n, r'))"
  by (simp add: demo_env_def mem_api_fields mem_call_def)

end
