(* ===== verification/Send_Money_Session.thy ===== *)
theory Send_Money_Session
  imports Send_Money_Proofs
begin

text \<open>
  Sequences of PUT commands on one transfer, and the properties of the send-money flow.  The entry the
  commands share lives in Redis; \<open>keeps\<close> is the invariant logic used to follow it: an operation keeps a
  predicate of the world when every run of it, successful or not, does.
\<close>

section \<open>Keeping an invariant of the world\<close>

definition keeps :: "('s \<Rightarrow> bool) \<Rightarrow> ('s, 'a) io \<Rightarrow> bool" where
  "keeps P m \<longleftrightarrow> (\<forall>w. P w \<longrightarrow> P (snd (m w)))"

named_theorems keeps_intros

lemma keepsD: "keeps P m \<Longrightarrow> P w \<Longrightarrow> m w = (x, w') \<Longrightarrow> P w'"
  by (metis keeps_def snd_conv)

lemma keeps_simple [keeps_intros]:
  "keeps P (io_return a)" "keeps P (io_throw e)" "keeps P (io_lift r)" "keeps P (io_gets f)"
  by (auto simp: keeps_def)

lemma keeps_bind [keeps_intros]: "keeps P m \<Longrightarrow> (\<And>a. keeps P (f a)) \<Longrightarrow> keeps P (io_bind m f)"
  by (auto simp: keeps_def io_bind_def split: prod.splits sum.splits)

lemma keeps_catch [keeps_intros]: "keeps P m \<Longrightarrow> (\<And>e. keeps P (h e)) \<Longrightarrow> keeps P (io_catch m h)"
  by (auto simp: keeps_def io_catch_def split: prod.splits sum.splits)

lemma keeps_finally [keeps_intros]: "keeps P m \<Longrightarrow> keeps P f \<Longrightarrow> keeps P (io_finally m f)"
  by (auto simp: keeps_def io_finally_def split: prod.splits sum.splits)

lemma keeps_if [keeps_intros]: "keeps P m \<Longrightarrow> keeps P n \<Longrightarrow> keeps P (if b then m else n)"
  by simp

lemma keeps_option [keeps_intros]:
  "keeps P m \<Longrightarrow> (\<And>a. keeps P (f a)) \<Longrightarrow> keeps P (case v of None \<Rightarrow> m | Some a \<Rightarrow> f a)"
  by (cases v) auto

lemma keeps_let [keeps_intros]: "(\<And>x. keeps P (f x)) \<Longrightarrow> keeps P (let x = v in f x)"
  by simp

section \<open>The cached entry while nothing is sent\<close>

text \<open>Either the Hub was contacted, or the entry under the transfer id still satisfies \<open>R\<close>.\<close>

definition sent :: "nat \<Rightarrow> 'r world \<Rightarrow> bool" where
  "sent n w \<longleftrightarrow> n < length (w_hub w)"

definition entry_ok :: "('r \<Rightarrow> string \<Rightarrow> transfer_request rval option) \<Rightarrow> string \<Rightarrow> nat
    \<Rightarrow> (transfer_request rval option \<Rightarrow> bool) \<Rightarrow> 'r world \<Rightarrow> bool" where
  "entry_ok view tid n R w \<longleftrightarrow> sent n w \<or> n = length (w_hub w) \<and> R (view (w_redis w) tid)"

text \<open>Predicates that hold of every value that is not a transfer.\<close>

definition transfers_only :: "(transfer_request rval option \<Rightarrow> bool) \<Rightarrow> bool" where
  "transfers_only R \<longleftrightarrow> (\<forall>v. (\<forall>tr. v \<noteq> Some (RJson tr)) \<longrightarrow> R v)"

lemma keepsI: "(\<And>w x w'. P w \<Longrightarrow> m w = (x, w') \<Longrightarrow> P w') \<Longrightarrow> keeps P m"
  by (metis keeps_def prod.collapse)

lemma keeps_sent [keeps_intros]:
  "keeps (sent n) (on_redis m)" "keeps (sent n) (publish env am)" "keeps (sent n) (call_and_wait env q s f cb)"
  by (rule keepsI, auto simp: sent_def dest!: on_redis_frame(1) publish_frame(1) call_and_wait_frame(1))+

lemma keeps_entry_publish [keeps_intros]: "keeps (entry_ok view tid n R) (publish env am)"
  by (rule keepsI) (auto simp: entry_ok_def sent_def publish_def)

lemma keeps_entry_call [keeps_intros]:
  assumes "\<And>a. keeps (sent n) (f a)"
  shows "keeps (entry_ok view tid n R) (io_bind (call_and_wait env q s h cb) f)"
proof (rule keepsI)
  fix w x w'
  assume n: "entry_ok view tid n R w" and run: "io_bind (call_and_wait env q s h cb) f w = (x, w')"
  obtain y w1 where y: "call_and_wait env q s h cb w = (y, w1)" by (rule io_pairE)
  have s1: "sent n w1" using call_and_wait_frame(1)[OF y] n by (auto simp: entry_ok_def sent_def)
  have "sent n w'"
    using run y s1 keepsD[OF assms] by (cases y) (auto simp: io_bind_def)
  then show "entry_ok view tid n R w'" by (simp add: entry_ok_def)
qed

lemma keeps_entry_redis:
  assumes "\<And>r x r'. m r = (x, r') \<Longrightarrow> R (view r tid) \<Longrightarrow> R (view r' tid)"
  shows "keeps (entry_ok view tid n R) (on_redis m)"
  by (rule keepsI) (auto simp: entry_ok_def sent_def dest: on_redis_frame assms)

lemma keeps_entry_cache:
  assumes red: "redis_commands (e_api env) view" and R: "transfers_only R"
  shows "keeps (entry_ok view tid n R) (cache_get env k)"
    and "keeps (entry_ok view tid n R) (cache_delete env k)"
    and "keeps (entry_ok view tid n R) (on_redis (acquireLock (e_api env) token tid ttl))"
    and "keeps (entry_ok view tid n R) (on_redis (releaseLock (e_api env) tid token))"
    and "keeps (entry_ok view tid n R) (on_redis (assertNotSuspicious (e_api env) mon pat))"
    and "R (Some (RJson v)) \<Longrightarrow> keeps (entry_ok view tid n R) (cache_set env tid v)"
proof -
  have none: "R None" "R (Some (RInt i))" for i using R by (auto simp: transfers_only_def)
  show "keeps (entry_ok view tid n R) (cache_get env k)"
    unfolding cache_get_def
    by (rule keeps_entry_redis) (drule redis_commands.redis_get_law[OF red], simp)
  show "keeps (entry_ok view tid n R) (cache_delete env k)"
    unfolding cache_delete_def
    by (rule keeps_entry_redis) (drule redis_commands.redis_delete_law[OF red], use none in auto)
  show "keeps (entry_ok view tid n R) (on_redis (acquireLock (e_api env) token tid ttl))"
    by (rule keeps_entry_redis) (simp add: lock_keeps_cache(1)[OF red])
  show "keeps (entry_ok view tid n R) (on_redis (releaseLock (e_api env) tid token))"
    by (rule keeps_entry_redis) (simp add: lock_keeps_cache(2)[OF red])
  show "keeps (entry_ok view tid n R) (on_redis (assertNotSuspicious (e_api env) mon pat))"
  proof (rule keeps_entry_redis)
    fix r x r'
    assume a: "assertNotSuspicious (e_api env) mon pat r = (x, r')" "R (view r tid)"
    obtain i r1 where i: "incrementWithTtl (e_api env) (buildKey pat (mon_matchingFields mon)) (mon_windowMs mon) r = (i, r1)"
      by (rule io_pairE)
    have "r' = r \<or> r' = r1" using a(1) i by (auto simp: assertNotSuspicious_def io_bind_def split: if_splits sum.splits)
    then show "R (view r' tid)" using redis_commands.increment_law[OF red i] a(2) none by auto
  qed
  show "R (Some (RJson v)) \<Longrightarrow> keeps (entry_ok view tid n R) (cache_set env tid v)"
    unfolding cache_set_def
    by (rule keeps_entry_redis) (drule redis_commands.redis_set_law[OF red], use none in auto)
qed

lemma keeps_entry_clear:
  assumes "redis_commands (e_api env) view" "transfers_only R"
  shows "keeps (entry_ok view tid n R) (audit_error_and_clear env k m f)"
  unfolding audit_error_and_clear_def by (intro keeps_intros keeps_entry_cache[OF assms])

lemma keeps_with_lock:
  assumes "redis_commands (e_api env) view" "transfers_only R" "keeps (entry_ok view tid n R) body"
  shows "keeps (entry_ok view tid n R) (with_lock env tid body)"
  unfolding with_lock_def by (intro keeps_intros keeps_entry_cache[OF assms(1,2)] assms(3))

lemma keeps_accept_quote_try:
  assumes "redis_commands (e_api env) view" "transfers_only R"
  shows "keeps (entry_ok view tid n R) (accept_quote_try env inp tr source dest q)"
  unfolding accept_quote_try_def Let_def cache_delete_def
  by (intro keeps_intros)

lemma keeps_accept_party_try:
  assumes "redis_commands (e_api env) view" "transfers_only R"
  shows "keeps (entry_ok view tid n R) (accept_party_try env inp tr source dest q)"
  unfolding accept_party_try_def Let_def cache_set_def
  by (intro keeps_intros keeps_entry_cache[OF assms])

text \<open>After the cached transfer is read, its value is known to satisfy \<open>R\<close>.\<close>

lemma keeps_after_get:
  assumes red: "redis_commands (e_api env) view" and R: "transfers_only R"
    and f: "\<And>tr. R (Some (RJson tr)) \<Longrightarrow> keeps (entry_ok view tid n R) (f tr)"
    and w: "n = length (w_hub w)" "R (view (w_redis w) tid)"
    and run: "io_bind (getTransferRequest env tid) f w = (x, w')"
  shows "entry_ok view tid n R w'"
proof -
  obtain y w1 where y: "getTransferRequest env tid w = (y, w1)" by (rule io_pairE)
  have k: "keeps (entry_ok view tid n R) (getTransferRequest env tid)"
    unfolding getTransferRequest_def by (intro keeps_intros keeps_entry_cache[OF red R])
  have w1: "entry_ok view tid n R w1" using keepsD[OF k _ y] w by (simp add: entry_ok_def)
  show ?thesis
  proof (cases y)
    case (Inl e)
    then show ?thesis using run y w1 by (simp add: io_bind_def)
  next
    case (Inr tr)
    then have "R (Some (RJson tr))" using getTransferRequest_eq(3)[OF y] redis_get_Some_view[OF red] w(2) by metis
    then show ?thesis using run y Inr w1 keepsD[OF f, of tr w1] by (simp add: io_bind_def)
  qed
qed

lemma accept_quote_entry:
  assumes red: "redis_commands (e_api env) view" and R: "transfers_only R"
    and home: "\<And>tr h. R (Some (RJson tr)) \<Longrightarrow> R (Some (RJson (tr\<lparr>homeTransactionId := h\<rparr>)))"
    and r: "R (view (w_redis w) (aq_transferId inp))" and run: "accept_quote env inp w = (x, w')"
    and quiet: "w_hub w' = w_hub w"
  shows "R (view (w_redis w') (aq_transferId inp))"
proof -
  let ?tid = "aq_transferId inp" and ?P = "entry_ok view (aq_transferId inp) (length (w_hub w)) R"
  have body: "?P w2" if b: "accept_quote_locked env inp w1 = (y, w2)" "w_hub w1 = w_hub w" "R (view (w_redis w1) ?tid)" for y w1 w2
  proof (rule keeps_after_get[OF red R _ _ b(3) b(1)[unfolded accept_quote_locked_def Let_def]], goal_cases)
    case (1 tr)
    have s: "keeps ?P (store_homeTransactionId env inp tr)"
      unfolding store_homeTransactionId_def Let_def by (intro keeps_intros keeps_entry_cache[OF red R] home 1)
    show ?case by (intro keeps_intros s keeps_accept_quote_try[OF red R] keeps_entry_clear[OF red R])
  qed (simp add: b(2))
  note k = lock_keeps_cache[OF red]
  from run[unfolded accept_quote_def] show ?thesis
  proof (cases rule: with_lock_cases)
    case denied
    then show ?thesis using r k(1) by metis
  next
    case (locked token t w1 w2 u)
    have "?P w2" using body[OF locked(4,2)] r k(1)[OF locked(1)] by simp
    then show ?thesis using quiet locked(5) k(2)[OF locked(7)] by (simp add: entry_ok_def sent_def)
  qed
qed

lemma accept_party_entry:
  assumes red: "redis_commands (e_api env) view" and R: "transfers_only R"
    and r: "R (view (w_redis w) (ap_transferId inp))" and run: "accept_party env inp w = (x, w')"
    and quiet: "w_hub w' = w_hub w"
  shows "R (view (w_redis w') (ap_transferId inp))"
proof -
  let ?tid = "ap_transferId inp" and ?P = "entry_ok view (ap_transferId inp) (length (w_hub w)) R"
  have body: "?P w2" if b: "accept_party_locked env inp w1 = (y, w2)" "w_hub w1 = w_hub w" "R (view (w_redis w1) ?tid)" for y w1 w2
  proof (rule keeps_after_get[OF red R _ _ b(3) b(1)[unfolded accept_party_locked_def Let_def]], goal_cases)
    case (1 tr)
    show ?case by (intro keeps_intros keeps_accept_party_try[OF red R] keeps_entry_clear[OF red R])
  qed (simp add: b(2))
  note k = lock_keeps_cache[OF red]
  from run[unfolded accept_party_def] show ?thesis
  proof (cases rule: with_lock_cases)
    case denied
    then show ?thesis using r k(1) by metis
  next
    case (locked token t w1 w2 u)
    have "?P w2" using body[OF locked(4,2)] r k(1)[OF locked(1)] by simp
    then show ?thesis using quiet locked(5) k(2)[OF locked(7)] by (simp add: entry_ok_def sent_def)
  qed
qed

section \<open>Sessions\<close>

text \<open>The PUT commands on one transfer, one after the other.\<close>

datatype put_command = PutParty accept_party_input | PutQuote accept_quote_input

fun command_id :: "put_command \<Rightarrow> string" where
  "command_id (PutParty i) = ap_transferId i"
| "command_id (PutQuote i) = aq_transferId i"

fun put_step :: "'r env \<Rightarrow> put_command \<Rightarrow> 'r world \<Rightarrow> 'r world" where
  "put_step env (PutParty i) w = snd (accept_party env i w)"
| "put_step env (PutQuote i) w = snd (accept_quote env i w)"

fun put_session :: "'r env \<Rightarrow> put_command list \<Rightarrow> 'r world \<Rightarrow> 'r world" where
  "put_session env [] w = w"
| "put_session env (c # cs) w = put_session env cs (put_step env c w)"

definition unquoted :: "transfer_request rval option \<Rightarrow> bool" where
  "unquoted v \<longleftrightarrow> (\<forall>tr. v = Some (RJson tr) \<longrightarrow> quotes tr = None)"

definition quoted_or_gone :: "transfer_request rval option \<Rightarrow> bool" where
  "quoted_or_gone v \<longleftrightarrow> (\<forall>tr. v = Some (RJson tr) \<longrightarrow> quotes tr \<noteq> None)"

definition gone :: "transfer_request rval option \<Rightarrow> bool" where
  "gone v \<longleftrightarrow> (\<forall>tr. v \<noteq> Some (RJson tr))"

lemmas entry_defs = unquoted_def quoted_or_gone_def gone_def transfers_only_def

definition reliable_delete :: "'r env \<Rightarrow> bool" where
  "reliable_delete env \<longleftrightarrow> (\<forall>k r. \<exists>n r'. r_del (e_api env) k r = (Inr n, r'))"

text \<open>How far a session has gone: nothing sent, the quote asked for, the transfer sent.\<close>

definition session_ok :: "('r \<Rightarrow> string \<Rightarrow> transfer_request rval option) \<Rightarrow> string \<Rightarrow> hub_request list \<Rightarrow> 'r world \<Rightarrow> bool" where
  "session_ok view tid h w \<longleftrightarrow>
     w_hub w = h \<and> unquoted (view (w_redis w) tid) \<or>
     (\<exists>hs q. w_hub w = h @ [PostQuotes hs q] \<and> quoteId q = tid) \<and> quoted_or_gone (view (w_redis w) tid) \<or>
     (\<exists>hs q hs' t. w_hub w = h @ [PostQuotes hs q, PostTransfers hs' t] \<and> quoteId q = tid \<and> tp_transferId t = tid) \<and>
       gone (view (w_redis w) tid)"

lemma delete_gone:
  assumes "redis_commands (e_api env) view" "reliable_delete env" "redis_delete (e_api env) k r = (d, r')"
  shows "view r' k = None"
proof -
  obtain n r1 where "r_del (e_api env) k r = (Inr n, r1)" using assms(2) unfolding reliable_delete_def by blast
  then have "d = Inr ()" using assms(3) by (simp add: redis_delete_def io_bind_def)
  then show ?thesis using redis_commands.redis_delete_law[OF assms(1,3)] by auto
qed

lemma session_step_quote:
  assumes red: "redis_commands (e_api env) view" and del: "reliable_delete env"
    and ok: "session_ok view (aq_transferId i) h w" and run: "accept_quote env i w = (x, w')"
  shows "session_ok view (aq_transferId i) h w'"
proof (cases "w_hub w' = w_hub w")
  case True
  have "unquoted (view (w_redis w) (aq_transferId i)) \<Longrightarrow> unquoted (view (w_redis w') (aq_transferId i))"
    by (rule accept_quote_entry[OF red _ _ _ run True]) (auto simp: entry_defs)
  moreover have "quoted_or_gone (view (w_redis w) (aq_transferId i)) \<Longrightarrow> quoted_or_gone (view (w_redis w') (aq_transferId i))"
    by (rule accept_quote_entry[OF red _ _ _ run True]) (auto simp: entry_defs)
  moreover have "gone (view (w_redis w) (aq_transferId i)) \<Longrightarrow> gone (view (w_redis w') (aq_transferId i))"
    by (rule accept_quote_entry[OF red _ _ _ run True]) (auto simp: entry_defs)
  ultimately show ?thesis using ok True by (auto simp: session_ok_def)
next
  case False
  note s = accept_quote_summary[OF red run]
  from False s(2) obtain hs q tr where q: "w_hub w' = w_hub w @ [PostTransfers hs q]"
    "view (w_redis w) (aq_transferId i) = Some (RJson tr)" "transfer_as_quoted i tr q" by blast
  from s(3)[OF False] obtain r d w2 where "redis_delete (e_api env) (aq_transferId i) r = (d, w2)"
    "view (w_redis w') (aq_transferId i) = view w2 (aq_transferId i)" by blast
  then have "view (w_redis w') (aq_transferId i) = None" using delete_gone[OF red del] by simp
  then show ?thesis using ok q by (auto simp: session_ok_def transfer_as_quoted_def entry_defs)
qed

lemma session_step_party:
  assumes red: "redis_commands (e_api env) view" and del: "reliable_delete env"
    and ok: "session_ok view (ap_transferId i) h w" and run: "accept_party env i w = (x, w')"
  shows "session_ok view (ap_transferId i) h w'"
proof (cases "w_hub w' = w_hub w")
  case True
  have "unquoted (view (w_redis w) (ap_transferId i)) \<Longrightarrow> unquoted (view (w_redis w') (ap_transferId i))"
    by (rule accept_party_entry[OF red _ _ run True]) (auto simp: entry_defs)
  moreover have "quoted_or_gone (view (w_redis w) (ap_transferId i)) \<Longrightarrow> quoted_or_gone (view (w_redis w') (ap_transferId i))"
    by (rule accept_party_entry[OF red _ _ run True]) (auto simp: entry_defs)
  moreover have "gone (view (w_redis w) (ap_transferId i)) \<Longrightarrow> gone (view (w_redis w') (ap_transferId i))"
    by (rule accept_party_entry[OF red _ _ run True]) (auto simp: entry_defs)
  ultimately show ?thesis using ok True by (auto simp: session_ok_def)
next
  case False
  note s = accept_party_summary[OF red run]
  from False s(2) obtain hs q tr where q: "w_hub w' = w_hub w @ [PostQuotes hs q]"
    "view (w_redis w) (ap_transferId i) = Some (RJson tr)" "quote_as_confirmed i tr q" by blast
  have "quoted_or_gone (view (w_redis w') (ap_transferId i))"
  proof (cases x)
    case (Inl e)
    from s(3)[OF False this] obtain r d w2 where "redis_delete (e_api env) (ap_transferId i) r = (d, w2)"
      "view (w_redis w') (ap_transferId i) = view w2 (ap_transferId i)" by blast
    then show ?thesis using delete_gone[OF red del] by (simp add: entry_defs)
  next
    case (Inr v)
    then show ?thesis using s(4) by (cases v) (auto simp: entry_defs)
  qed
  then show ?thesis using ok q by (auto simp: session_ok_def quote_as_confirmed_def entry_defs)
qed

lemma session_invariant:
  assumes red: "redis_commands (e_api env) view" and del: "reliable_delete env"
    and "\<forall>c\<in>set cs. command_id c = tid" "session_ok view tid h w"
  shows "session_ok view tid h (put_session env cs w)"
  using assms(3,4)
proof (induction cs arbitrary: w)
  case (Cons c cs)
  have "session_ok view tid h (put_step env c w)"
    using Cons.prems session_step_party[OF red del _ prod.collapse[symmetric]] session_step_quote[OF red del _ prod.collapse[symmetric]]
    by (cases c) auto
  then show ?case using Cons by simp
qed simp

text \<open>A server whose DEL commands are always executed, for the witnesses.\<close>

definition steady_api :: "('v mem_redis, 'v) redis_api" where
  "steady_api = mem_api\<lparr>r_del := \<lambda>k r. (Inr (if mem_view r k = None then 0 else 1), r\<lparr>mr_store := AList.delete k (mr_store r)\<rparr>)\<rparr>"

definition steady_env :: "transfer_request mem_redis env" where
  "steady_env = demo_env\<lparr>e_api := steady_api\<rparr>"

lemma steady_fields:
  "r_get steady_api = r_get mem_api" "r_set steady_api = r_set mem_api" "r_setnx steady_api = r_setnx mem_api"
  "r_incr steady_api = r_incr mem_api" "r_pexpire steady_api = r_pexpire mem_api"
  "r_del steady_api = (\<lambda>k r. (Inr (if mem_view r k = None then 0 else 1), r\<lparr>mr_store := AList.delete k (mr_store r)\<rparr>))"
  by (simp_all add: steady_api_def)

interpretation steady: redis_commands steady_api mem_view
proof (unfold_locales, unfold steady_fields, goal_cases)
  case (4 k r d r')
  then show ?case by (auto simp: mem_view_delete)
qed (fact mem.get_effect mem.set_effect mem.setnx_effect mem.incr_effect mem.pexpire_effect)+

lemma steady_env_redis: "redis_commands (e_api steady_env) mem_view" "reliable_delete steady_env"
  by (simp_all add: steady_env_def reliable_delete_def steady.redis_commands_axioms) (simp add: steady_fields)

section \<open>Properties\<close>



text \<open>
  C2: the transfer that is sent is the one that was quoted.  A run of \<open>PutAcceptQuoteHandler\<close> sends
  the Hub nothing, or exactly one POST /transfers; then the client accepted, the cached transfer had
  not been completed, and the request carries the transfer's id and the amount, ILP packet, condition
  and expiration of the cached quote, between the FSPs of the cached payer and payee, the source header
  (when given) being the payer's FSP.
\<close>

theorem transfer_sent_as_quoted:
  assumes "redis_commands (e_api env) view" "accept_quote env inp w = (x, w')"
  shows "w_hub w' = w_hub w \<or>
    (\<exists>headers q tr quote. w_hub w' = w_hub w @ [PostTransfers headers q]
       \<and> view (w_redis w) (aq_transferId inp) = Some (RJson tr)
       \<and> aq_acceptQuote inp \<and> transfer tr = None \<and> quotes tr = Some quote
       \<and> tp_transferId q = aq_transferId inp \<and> tp_amount q = transferAmount quote
       \<and> tp_ilpPacket q = qr_ilpPacket quote \<and> tp_condition q = qr_condition quote
       \<and> tp_expiration q = qr_expiration quote
       \<and> toOptionalValue (pii_fspId (partyIdInfo (payer tr))) = Some (tp_payerFsp q)
       \<and> toOptionalValue (pii_fspId (partyIdInfo (payee tr))) = Some (tp_payeeFsp q)
       \<and> toOptionalValue (aq_requestSource inp) \<in> {None, Some (tp_payerFsp q)})"
  using accept_quote_summary(2)[OF assms] by (fastforce simp: transfer_as_quoted_def)

theorem transfer_sent_as_quoted_witness:
  "\<exists>headers q. w_hub (snd (accept_quote demo_env demo_accept_quote (demo_world (Some demo_quote)))) = [PostTransfers headers q]
     \<and> tp_amount q = Some \<lparr>m_currency = ''USD'', m_amount = ''10''\<rparr> \<and> tp_payerFsp q = ''a'' \<and> tp_payeeFsp q = ''b''"
  using transfer_sent_as_quoted[OF demo_redis prod.collapse[symmetric], of demo_accept_quote "demo_world (Some demo_quote)"]
    demo_quote_posts
  by (auto simp: demo_world_def demo_accept_quote_def mem_view_def demo_transfer_def demo_quote_def demo_party_def toOptionalValue_def
      trim_def is_space_def code_unit_def)

text \<open>
  C25: the quote that is asked for is the confirmed one.  A run of \<open>PutAcceptPartyHandler\<close> sends the Hub
  nothing, or exactly one POST /quotes; then the client accepted, no quote was cached, and the request is
  between the cached payer and payee, in the cached currency, for the amount of the client in normal
  form, under the transfer's id.  When the command answers, the quote it answers from is cached and the
  state reported is WAITING_FOR_QUOTE_ACCEPTANCE.
\<close>

theorem quote_sent_as_confirmed:
  assumes "redis_commands (e_api env) view" "accept_party env inp w = (x, w')"
  shows "(w_hub w' = w_hub w \<or>
    (\<exists>headers q tr. w_hub w' = w_hub w @ [PostQuotes headers q]
       \<and> view (w_redis w) (ap_transferId inp) = Some (RJson tr)
       \<and> ap_acceptParty inp \<and> quotes tr = None
       \<and> quoteId q = ap_transferId inp \<and> transactionId q = ap_transferId inp
       \<and> qp_payer q = payer tr \<and> qp_payee q = payee tr
       \<and> qp_amount q = \<lparr>m_currency = currency tr, m_amount = normalizeAmount (ap_amount inp)\<rparr>
       \<and> toOptionalValue (ap_requestSource inp) \<in> {None, toOptionalValue (pii_fspId (partyIdInfo (payer tr)))}))
    \<and> (case x of Inl e \<Rightarrow> True | Inr (response, quote) \<Rightarrow>
        rs_currentState response = WaitingForQuoteAcceptance \<and>
        (\<exists>tr. view (w_redis w') (ap_transferId inp) = Some (RJson tr) \<and> quotes tr = Some quote \<and> transfer tr = None))"
  using accept_party_summary(2,4)[OF assms]
  by (auto simp: quote_as_confirmed_def split: sum.splits)

theorem quote_sent_as_confirmed_witness:
  "\<exists>headers q. w_hub (snd (accept_party demo_env demo_accept_party (demo_world None))) = [PostQuotes headers q]
     \<and> m_amount (qp_amount q) = ''10''"
  using quote_sent_as_confirmed[OF demo_redis prod.collapse[symmetric], of demo_accept_party "demo_world None"]
    demo_party_posts
  by (auto simp: demo_world_def demo_accept_party_def demo_amount)

lemma with_lock_denied:
  assumes red: "redis_commands (e_api env) view" and held: "view (w_redis w) (lockKey tid) \<noteq> None"
    and run: "with_lock env tid body w = (x, w')"
  shows "(\<exists>e. x = Inl e) \<and> w_hub w' = w_hub w \<and> w_audit w' = w_audit w \<and> view (w_redis w') = view (w_redis w)"
  using run
proof (cases rule: with_lock_cases)
  case (denied e token l)
  then show ?thesis using redis_commands.acquireLock_law[OF red denied(4)] held by auto
next
  case (locked token t w1 w2 u)
  then show ?thesis using redis_commands.acquireLock_law[OF red locked(1)] held by simp
qed

text \<open>
  A duplicate of a command that is being processed is refused.  While the lock key of the transfer
  exists in Redis, both PUT commands fail, send nothing to the Hub, publish nothing and change no
  live key.
\<close>

theorem concurrent_duplicate_refused:
  assumes "redis_commands (e_api env) view"
    and "command_id c = tid" "view (w_redis w) (lockKey tid) \<noteq> None"
  shows "w_hub (put_step env c w) = w_hub w \<and> w_audit (put_step env c w) = w_audit w
     \<and> view (w_redis (put_step env c w)) = view (w_redis w)
     \<and> (\<forall>i. c = PutParty i \<longrightarrow> (\<exists>e. fst (accept_party env i w) = Inl e))
     \<and> (\<forall>i. c = PutQuote i \<longrightarrow> (\<exists>e. fst (accept_quote env i w) = Inl e))"
proof (cases c)
  case (PutParty i)
  then show ?thesis
    using with_lock_denied[OF assms(1,3) prod.collapse[symmetric], of "accept_party_locked env i"] assms(2) by (simp add: accept_party_def)
next
  case (PutQuote i)
  then show ?thesis
    using with_lock_denied[OF assms(1,3) prod.collapse[symmetric], of "accept_quote_locked env i"] assms(2) by (simp add: accept_quote_def)
qed

theorem concurrent_duplicate_refused_witness:
  "w_hub (put_step demo_env (PutQuote demo_accept_quote) ((demo_world (Some demo_quote))\<lparr>w_redis :=
     \<lparr>mr_store = [(''lock:t'', (RText ''other'', Some 40000)), (''t'', (RJson (demo_transfer (Some demo_quote)), None))],
      mr_now = 0, mr_up = True\<rparr>\<rparr>)) = []"
  by (subst concurrent_duplicate_refused[OF demo_redis, of _ "''t''", THEN conjunct1])
    (simp_all add: demo_world_def demo_accept_quote_def mem_view_def lockKey_def LOCK_KEY_PREFIX_def)

text \<open>
  Every command leaves a complete audit trail.  A PUT command appends messages of its own phase
  only; when it answers, exactly a Request and a Response; when it fails after it contacted the Hub, a
  Request, possibly a Response, and a final Error; all of these carry the transfer's id.  A command that
  fails without contacting the Hub leaves nothing, the Request, or Request and Error.
\<close>

theorem put_audit_trail:
  assumes "redis_commands (e_api env) view"
    and "c = PutParty i \<and> phase = Quotes \<and> ok = (\<exists>v. fst (accept_party env i w) = Inr v)
      \<or> c = PutQuote j \<and> phase = Transfers \<and> ok = (\<exists>v. fst (accept_quote env j w) = Inr v)"
    and "sent_hub = (w_hub (put_step env c w) \<noteq> w_hub w)"
  shows "\<exists>ms. w_audit (put_step env c w) = w_audit w @ ms \<and> (\<forall>m\<in>set ms. am_phase m = phase)
     \<and> (if ok then sent_hub \<and> map am_action ms = [Request, Response]
        else if sent_hub then map am_action ms \<in> {[Request, Error], [Request, Response, Error]}
        else map am_action ms \<in> {[], [Request], [Request, Error]})
     \<and> (sent_hub \<longrightarrow> (\<forall>m\<in>set ms. am_correlationId m = command_id c))"
proof -
  have "\<exists>ms. w_audit (put_step env c w) = w_audit w @ ms \<and> audit_trail phase (command_id c) ok sent_hub ms"
    using assms(2)
  proof
    assume "c = PutParty i \<and> phase = Quotes \<and> ok = (\<exists>v. fst (accept_party env i w) = Inr v)"
    then show ?thesis using accept_party_summary(1)[OF assms(1) prod.collapse[symmetric], of i w] assms(3) by simp
  next
    assume "c = PutQuote j \<and> phase = Transfers \<and> ok = (\<exists>v. fst (accept_quote env j w) = Inr v)"
    then show ?thesis using accept_quote_summary(1)[OF assms(1) prod.collapse[symmetric], of j w] assms(3) by simp
  qed
  then obtain ms where "w_audit (put_step env c w) = w_audit w @ ms" "audit_trail phase (command_id c) ok sent_hub ms" by blast
  then show ?thesis by (intro exI[of _ ms]) (simp add: audit_trail_def split: if_splits)
qed

theorem put_audit_trail_witness:
  "list_all (\<lambda>m. am_correlationId m = ''t'' \<and> am_phase m = Transfers)
     (w_audit (put_step demo_env (PutQuote demo_accept_quote) (demo_world (Some demo_quote))))"
proof -
  let ?w = "demo_world (Some demo_quote)" and ?c = "PutQuote demo_accept_quote"
  have h: "w_hub (put_step demo_env ?c ?w) \<noteq> w_hub ?w" using demo_quote_posts by (auto simp: demo_world_def)
  note t = put_audit_trail[OF demo_redis disjI2[OF conjI[OF refl conjI[OF refl refl]]] refl, of demo_accept_quote ?w]
  from t h show ?thesis by (auto simp: demo_world_def demo_accept_quote_def list_all_iff)
qed

text \<open>
  What a POST of \<open>PostSendMoneyHandler\<close> leaves.  Either the amount has too many decimals and nothing
  happens at all; or the lookup fails, the entry under the correlation id has been deleted and the
  failure published; or it answers WAITING_FOR_PARTY_ACCEPTANCE for the correlation id after exactly
  one GET /parties, and the transfer that is cached is the one of the request and the callback, with
  neither quote nor transfer.
\<close>

theorem post_send_money_outcome:
  assumes "redis_commands (e_api env) view" "post_send_money env cid source req w = (x, w')"
  shows "(\<exists>e. x = Inl e \<and> w' = w \<and> validate_decimals (e_decimals env) (Some (sm_amount req)) = Inl e)
    \<or> (\<exists>e d r ms. x = Inl (JsFspiop e) \<and> redis_delete (e_api env) cid r = (d, w_redis w')
         \<and> w_audit w' = w_audit w @ ms \<and> am_action (last ms) = Error \<and> am_correlationId (last ms) = cid
         \<and> length (w_hub w') \<le> Suc (length (w_hub w)))
    \<or> (\<exists>response callback at. x = Inr (response, callback)
         \<and> (\<exists>hs ty pid sub. w_hub w' = w_hub w @ [GetParties hs ty pid sub])
         \<and> view (w_redis w') cid = Some (RJson (toTransferRequest req callback cid at))
         \<and> quotes (toTransferRequest req callback cid at) = None
         \<and> transfer (toTransferRequest req callback cid at) = None
         \<and> rs_currentState response = WaitingForPartyAcceptance \<and> rs_transferId response = cid)"
  using assms(2)
proof (cases rule: post_send_money_summary[OF assms(1), consumes 1, case_names invalid failed completed])
  case (failed e ms r d)
  have "ms \<noteq> []" using failed(4) by auto
  moreover have "last (map am_action ms) = Error" using failed(4) by auto
  ultimately have "am_action (last ms) = Error" "last ms \<in> set ms" by (simp_all add: last_map)
  then show ?thesis using failed(1-3,5,6) by blast
next
  case (completed rs c ms tr)
  then obtain at where at: "tr = toTransferRequest req c cid at" by blast
  have "quotes tr = None" "transfer tr = None" by (simp_all add: at toTransferRequest_def)
  then show ?thesis using completed(1,5,6,8,9) at by blast
qed blast

definition demo_request :: send_money_request where
  "demo_request = \<lparr>sm_homeTransactionId = ''h'', sm_from = demo_fsp_party ''a'', sm_to = demo_fsp_party ''b'',
     sm_amountType = ''SEND'', sm_currency = ''USD'', sm_amount = ''10'', sm_transactionType = ''TRANSFER'',
     sm_subScenario = [], sm_note = None\<rparr>"

lemma demo_post_answers: "\<exists>v. fst (post_send_money demo_env ''t'' ''a'' demo_request (demo_world None)) = Inr v"
  by (simp add: post_send_money_def post_send_money_try_def demo_env_def demo_world_def demo_request_def
      run_defs demo_amount Let_def resolveDestination_def demo_party_def demo_fsp_party_def toOptionalValue_def trim_def is_space_def code_unit_def
      toWaitingForPartyAcceptance_def toResponse_def toTransferRequest_def
      del: new_FspiopException.simps)

theorem post_send_money_outcome_witness:
  "\<exists>response callback. fst (post_send_money demo_env ''t'' ''a'' demo_request (demo_world None)) = Inr (response, callback)
     \<and> rs_currentState response = WaitingForPartyAcceptance \<and> rs_transferId response = ''t''"
  using post_send_money_outcome[OF demo_redis prod.collapse[symmetric], of "''t''" "''a''" demo_request "demo_world None"]
    demo_post_answers by auto

lemma set_value_keys [simp]: "map ext_key (set_value k v xs) = map ext_key xs"
  by (induction xs) auto

lemma set_value_other:
  "k \<in> K \<Longrightarrow> filter (\<lambda>x. ext_key x \<notin> Some ` K) (set_value k v xs) = filter (\<lambda>x. ext_key x \<notin> Some ` K) xs"
  by (induction xs) auto

lemma find_set_value:
  "find_ext j (set_value k v xs) =
     (if j = k then map_option (\<lambda>x. x\<lparr>ext_value := Some (JString v)\<rparr>) (find_ext k xs) else find_ext j xs)"
  by (induction xs) (auto simp: find_ext_def)

lemma normalizeFee_Inr:
  assumes "normalizeAndValidateFee d k v = Inr u"
  shows "matches_amount_pattern u \<and> validate_decimals d (Some u) = Inr ()"
  using assms by (auto simp: normalizeAndValidateFee_def Let_def res_bind_def guard_res_def split: option.splits js_value.splits sum.splits if_splits)

text \<open>
  Fees the payer must provide are checked.  When fees are mandatory and an accepted party
  confirmation passes \<open>PayerProvidedFeesValidator\<close>, the extension list sent on has the same keys in the
  same order, both required fees as text that matches the FSPIOP Amount pattern with no more decimals
  than allowed, and the values of all other keys unchanged.
\<close>

theorem accepted_fees_valid:
  assumes "validate_payer_fees True decimals True given = Inr out"
  shows "\<exists>xs ys. Option.bind given el_extension = Some xs \<and> out = Some \<lparr>el_extension = Some ys\<rparr>
     \<and> map ext_key ys = map ext_key xs
     \<and> filter (\<lambda>x. ext_key x \<notin> Some ` set REQUIRED_EXTENSION_KEYS) ys = filter (\<lambda>x. ext_key x \<notin> Some ` set REQUIRED_EXTENSION_KEYS) xs
     \<and> (\<forall>k\<in>set REQUIRED_EXTENSION_KEYS. \<exists>x v. find_ext k ys = Some x \<and> ext_value x = Some (JString v)
           \<and> matches_amount_pattern v \<and> validate_decimals decimals (Some v) = Inr ())"
proof -
  let ?a = "''payerProvidedSchemeFee''" and ?b = "''payerProvidedPayerFee''"
  let ?xs = "nullish (toExtensionArray given) []"
  have req: "find_ext ?a ?xs \<noteq> None" "find_ext ?b ?xs \<noteq> None"
    using assms by (auto simp: validate_payer_fees_def Let_def REQUIRED_EXTENSION_KEYS_def simp del: new_FspiopException.simps split: if_splits)
  obtain u v where u: "normalizeAndValidateFee decimals ?a (Option.bind (find_ext ?a ?xs) ext_value) = Inr u"
    and v: "normalizeAndValidateFee decimals ?b (Option.bind (find_ext ?b (set_value ?a u ?xs)) ext_value) = Inr v"
    and out: "out = Some \<lparr>el_extension = Some (set_value ?b v (set_value ?a u ?xs))\<rparr>"
    using assms req
    by (auto simp: validate_payer_fees_def Let_def REQUIRED_EXTENSION_KEYS_def res_bind_def split: sum.splits)
  let ?ys = "set_value ?b v (set_value ?a u ?xs)"
  have bound: "Option.bind given el_extension = Some ?xs"
    using req by (cases "toExtensionArray given") (auto simp: toExtensionArray_def find_ext_def)
  have other: "filter (\<lambda>x. ext_key x \<notin> Some ` set REQUIRED_EXTENSION_KEYS) ?ys = filter (\<lambda>x. ext_key x \<notin> Some ` set REQUIRED_EXTENSION_KEYS) ?xs"
    using set_value_other[of ?a "set REQUIRED_EXTENSION_KEYS"] set_value_other[of ?b "set REQUIRED_EXTENSION_KEYS"]
    by (simp add: REQUIRED_EXTENSION_KEYS_def del: image_insert)
  have "\<forall>k\<in>set REQUIRED_EXTENSION_KEYS. \<exists>x v. find_ext k ?ys = Some x \<and> ext_value x = Some (JString v)
           \<and> matches_amount_pattern v \<and> validate_decimals decimals (Some v) = Inr ()"
    using req normalizeFee_Inr[OF u] normalizeFee_Inr[OF v] by (auto simp: REQUIRED_EXTENSION_KEYS_def find_set_value)
  with bound out other show ?thesis by (intro exI[of _ ?xs] exI[of _ ?ys]) simp
qed

definition demo_fees :: "extension list" where
  "demo_fees = [\<lparr>ext_key = Some ''payerProvidedPayerFee'', ext_value = Some (JNumber ''1.5'')\<rparr>,
     \<lparr>ext_key = Some ''note'', ext_value = None\<rparr>,
     \<lparr>ext_key = Some ''payerProvidedSchemeFee'', ext_value = Some (JString ''2.50'')\<rparr>]"

theorem accepted_fees_valid_witness:
  "\<exists>ys. validate_payer_fees True 2 True (Some \<lparr>el_extension = Some demo_fees\<rparr>) = Inr (Some \<lparr>el_extension = Some ys\<rparr>)
     \<and> map ext_key ys = map ext_key demo_fees"
proof -
  have "validate_payer_fees True 2 True (Some \<lparr>el_extension = Some demo_fees\<rparr>) =
     Inr (Some \<lparr>el_extension = Some [\<lparr>ext_key = Some ''payerProvidedPayerFee'', ext_value = Some (JString ''1.5'')\<rparr>,
     \<lparr>ext_key = Some ''note'', ext_value = None\<rparr>,
     \<lparr>ext_key = Some ''payerProvidedSchemeFee'', ext_value = Some (JString ''2.5'')\<rparr>]\<rparr>)"
    by code_simp
  from accepted_fees_valid[OF this] this show ?thesis by auto
qed

lemma toOptionalValue_twice: "toOptionalValue source = Some s \<Longrightarrow> toOptionalValue (Some s) = Some s"
  by (auto simp: toOptionalValue_def trim_trim split: option.splits if_splits)

lemma io_bind_fst:
  "io_bind m (\<lambda>out. io_return (fst out)) w = (x, w') \<Longrightarrow> \<exists>v. m w = (v, w') \<and> ((\<exists>r. x = Inr r) \<longleftrightarrow> (\<exists>r. v = Inr r))"
  by (auto simp: io_bind_def split: prod.splits sum.splits)

lemma controller_put_dispatch:
  assumes "controller_put env source tid req w = (x, w')"
  obtains (party) i v where "ap_transferId i = tid" "ap_requestSource i = toOptionalValue source" "accept_party env i w = (v, w')"
      "(\<exists>r. x = Inr r) \<longleftrightarrow> (\<exists>r. v = Inr r)"
  | (quote) i v where "aq_transferId i = tid" "aq_requestSource i = toOptionalValue source" "accept_quote env i w = (v, w')"
      "(\<exists>r. x = Inr r) \<longleftrightarrow> (\<exists>r. v = Inr r)"
  | (neither) e where "x = Inl e" "w' = w"
proof (cases "pm_acceptParty req")
  case (Some b)
  let ?i = "\<lparr>ap_transferId = tid, ap_acceptParty = b, ap_amount = nullish (pm_amount req) [],
     ap_extensionList = toExtensionList_ctl (pm_extensionList req), ap_requestSource = toOptionalValue source\<rparr>"
  have "io_bind (accept_party env ?i) (\<lambda>out. io_return (fst out)) w = (x, w')"
    using assms Some by (simp add: controller_put_def)
  from io_bind_fst[OF this] show ?thesis using party[of ?i] by auto
next
  case None
  show ?thesis
  proof (cases "pm_acceptQuote req")
    case (Some b)
    let ?i = "\<lparr>aq_transferId = tid, aq_acceptQuote = b, aq_requestSource = toOptionalValue source,
       aq_homeTransactionId = pm_homeTransactionId req\<rparr>"
    have "io_bind (accept_quote env ?i) (\<lambda>out. io_return (fst out)) w = (x, w')"
      using assms None Some by (simp add: controller_put_def)
    from io_bind_fst[OF this] show ?thesis using quote[of ?i] by auto
  next
    case None2: None
    show ?thesis using assms None None2 by (intro neither) (auto simp: controller_put_def simp del: new_FspiopException.simps)
  qed
qed

text \<open>
  Only the payer's FSP moves the payer's money.  When a PUT request names a source FSP that is not
  the FSP of the cached payer, the controller answers with an error and nothing is sent to the Hub,
  whatever the body of the request asks for.
\<close>

theorem put_source_checked:
  assumes "redis_commands (e_api env) view" "controller_put env source tid req w = (x, w')"
    and "view (w_redis w) tid = Some (RJson tr)"
    and "toOptionalValue source = Some s" "toOptionalValue (pii_fspId (partyIdInfo (payer tr))) \<noteq> Some s"
  shows "(\<exists>e. x = Inl e) \<and> w_hub w' = w_hub w"
  using assms(2)
proof (cases rule: controller_put_dispatch)
  case (party i v)
  have "w_hub w' = w_hub w"
    using accept_party_summary(2)[OF assms(1) party(3)] assms(3-5) party(1,2) toOptionalValue_twice[OF assms(4)]
    by (auto simp: quote_as_confirmed_def)
  moreover have "\<nexists>r. v = Inr r" using accept_party_summary(1)[OF assms(1) party(3)] calculation
    by (auto simp: audit_trail_def)
  ultimately show ?thesis using party(4) by (cases x) auto
next
  case (quote i v)
  have "w_hub w' = w_hub w"
    using accept_quote_summary(2)[OF assms(1) quote(3)] assms(3-5) quote(1,2) toOptionalValue_twice[OF assms(4)]
    by (auto simp: transfer_as_quoted_def)
  moreover have "\<nexists>r. v = Inr r" using accept_quote_summary(1)[OF assms(1) quote(3)] calculation
    by (auto simp: audit_trail_def)
  ultimately show ?thesis using quote(4) by (cases x) auto
qed simp

theorem put_source_checked_witness:
  "w_hub (snd (controller_put demo_env (Some ''b'') ''t''
     \<lparr>pm_acceptParty = None, pm_amount = None, pm_extensionList = NoExt, pm_acceptQuote = Some True, pm_homeTransactionId = None\<rparr>
     (demo_world (Some demo_quote)))) = []"
proof -
  let ?w = "demo_world (Some demo_quote)"
  have v: "mem_view (w_redis ?w) ''t'' = Some (RJson (demo_transfer (Some demo_quote)))"
    by (simp add: demo_world_def mem_view_def)
  have s: "toOptionalValue (Some ''b'') = Some ''b''"
    "toOptionalValue (pii_fspId (partyIdInfo (payer (demo_transfer (Some demo_quote))))) \<noteq> Some ''b''"
    by (simp_all add: toOptionalValue_def trim_def is_space_def code_unit_def demo_transfer_simps demo_party_def)
  show ?thesis using put_source_checked[OF demo_redis prod.collapse[symmetric] v s] by (simp add: demo_world_def)
qed

end
