(* ===== verification/Identifiers.thy ===== *)
theory Identifiers
  imports Fspiop_Errors "HOL-Library.Word"
begin

text \<open>
  Identifier generators: \<open>shared/snowflake/component/snowflake.ts\<close> (keys of the database rows) and
  \<open>shared/ulid/component/ulid.ts\<close> (transfer ids).

  The clock is a parameter: \<open>nextId\<close> takes the successive results of \<open>Snowflake.timestamp()\<close> as a list and
  returns what is left of it; \<open>None\<close> means that the wait for the next millisecond has used the whole list
  and goes on.  Randomness, the environment and the network interfaces are arguments.  \<open>bigint\<close> values
  are \<open>int\<close>, the unsigned 32-bit arithmetic of the CRC is \<open>32 word\<close>.  A node id in the environment beyond
  2^53, which JavaScript would round, is read exactly.
\<close>

unbundle bit_operations_syntax

section \<open>Snowflake\<close>

definition EPOCH_BITS :: nat where "EPOCH_BITS = 42"
definition NODE_ID_BITS :: nat where "NODE_ID_BITS = 10"
definition SEQUENCE_BITS :: nat where "SEQUENCE_BITS = 12"
definition MAX_NODE_ID :: int where "MAX_NODE_ID = push_bit NODE_ID_BITS 1 - 1"
definition MAX_SEQUENCE :: int where "MAX_SEQUENCE = push_bit SEQUENCE_BITS 1 - 1"
definition NODE_ID_SHIFT :: nat where "NODE_ID_SHIFT = SEQUENCE_BITS"
definition TIMESTAMP_SHIFT :: nat where "TIMESTAMP_SHIFT = NODE_ID_BITS + SEQUENCE_BITS"
definition MAX_TIMESTAMP :: int where "MAX_TIMESTAMP = 2 ^ EPOCH_BITS - 1"

record snowflake =
  sf_nodeId :: int
  sf_lastTimestamp :: int
  sf_sequence :: int

definition new_snowflake :: "int \<Rightarrow> snowflake" where
  "new_snowflake n = \<lparr>sf_nodeId = n AND MAX_NODE_ID, sf_lastTimestamp = - 1, sf_sequence = 0\<rparr>"

subsection \<open>The node id\<close>

definition crc_step :: "32 word \<Rightarrow> 32 word" where
  "crc_step c = (if c AND 1 \<noteq> 0 then 0xedb88320 XOR drop_bit 1 c else drop_bit 1 c)"

definition createCrc32Table :: "32 word list" where
  "createCrc32Table = map (\<lambda>i. (crc_step ^^ 8) (of_nat i)) [0..<256]"

definition is_hex :: "char \<Rightarrow> bool" where
  "is_hex c \<longleftrightarrow> (97 \<le> code_unit c \<and> code_unit c \<le> 102) \<or> (48 \<le> code_unit c \<and> code_unit c \<le> 57)"

definition hex_val :: "char \<Rightarrow> nat" where
  "hex_val c = (if code_unit c \<ge> 97 then code_unit c - 87 else code_unit c - 48)"

fun hex_bytes :: "string \<Rightarrow> 8 word list" where
  "hex_bytes (a # b # s) = of_nat (16 * hex_val a + hex_val b) # hex_bytes s"
| "hex_bytes _ = []"

definition parseMacAddress :: "string \<Rightarrow> 8 word list option" where
  "parseMacAddress macAddress =
     (let normalized = filter is_hex (toLowerCase (trim macAddress))
      in if length normalized \<noteq> 12 then None else Some (hex_bytes normalized))"

text \<open>The value of \<open>networkInterfaces()\<close>: for every interface its entries, if any, with their MAC.\<close>

type_synonym interfaces = "string option list option list"

definition mac_bytes :: "interfaces \<Rightarrow> 8 word list list" where
  "mac_bytes ifs = List.map_filter (\<lambda>mac. case mac of
       None \<Rightarrow> None
     | Some m \<Rightarrow> if m = [] \<or> m = ''00:00:00:00:00:00'' then None else parseMacAddress m)
     (concat (map (\<lambda>e. nullish e []) ifs))"

text \<open>
  One turn of the inner loop reads \<open>CRC32_TABLE\<close>; while that field is still undefined (\<open>None\<close>) the
  access throws.
\<close>

fun crc_update :: "32 word list option \<Rightarrow> 8 word list \<Rightarrow> 32 word \<Rightarrow> 32 word option" where
  "crc_update table [] crc = Some crc"
| "crc_update None (b # bs) crc = None"
| "crc_update (Some table) (b # bs) crc =
     crc_update (Some table) bs (table ! unat ((crc XOR ucast b) AND 0xff) XOR drop_bit 8 crc)"

definition createNodeIdFromMac :: "32 word list option \<Rightarrow> interfaces \<Rightarrow> int \<Rightarrow> int" where
  "createNodeIdFromMac table ifs random =
     (if mac_bytes ifs = [] then random AND MAX_NODE_ID
      else (case crc_update table (concat (mac_bytes ifs)) 0xffffffff of
          None \<Rightarrow> random AND MAX_NODE_ID
        | Some crc \<Rightarrow> uint (crc XOR 0xffffffff) AND MAX_NODE_ID))"

definition parseInt10 :: "string \<Rightarrow> int option" where
  "parseInt10 s =
     (let t = dropWhile is_space s;
          (sgn, u) = (case t of
              c # r \<Rightarrow> if c = CHR ''-'' then (- 1, r) else if c = CHR ''+'' then (1, r) else (1, t)
            | [] \<Rightarrow> (1, t));
          ds = takeWhile is_digit u
      in if ds = [] then None else Some (sgn * int (nat_of_dec ds)))"

text \<open>The text after the last dash, unless there is no dash or nothing follows it.\<close>

definition after_last_dash :: "string \<Rightarrow> string option" where
  "after_last_dash s =
     (if CHR ''-'' \<in> set s \<and> last s \<noteq> CHR ''-''
      then Some (rev (takeWhile (\<lambda>c. c \<noteq> CHR ''-'') (rev s))) else None)"

definition resolveNodeId ::
  "32 word list option \<Rightarrow> string option \<Rightarrow> bool \<Rightarrow> interfaces \<Rightarrow> int \<Rightarrow> (js_error, int) result" where
  "resolveNodeId table env inK8s ifs random =
     (let configured = (case env of None \<Rightarrow> None | Some v \<Rightarrow> if trim v = [] then None else Some (trim v));
          parsed = Option.bind configured parseInt10;
          ordinal = Option.bind (Option.bind configured after_last_dash) parseInt10
      in case parsed of
           Some n \<Rightarrow> Inr (n AND MAX_NODE_ID)
         | None \<Rightarrow> (case ordinal of
               Some n \<Rightarrow> Inr (n AND MAX_NODE_ID)
             | None \<Rightarrow>
                 if inK8s then Inl (JsError ''SNOWFLAKE_NODE_ID must be set in Kubernetes to avoid duplicate IDs.'')
                 else Inr (createNodeIdFromMac table ifs random)))"

text \<open>
  The static field initialisers run in the order of the source: \<open>INSTANCE\<close> is computed while
  \<open>CRC32_TABLE\<close> has no value yet.
\<close>

definition INSTANCE :: "string option \<Rightarrow> bool \<Rightarrow> interfaces \<Rightarrow> int \<Rightarrow> (js_error, snowflake) result" where
  "INSTANCE env inK8s ifs random = res_bind (resolveNodeId None env inK8s ifs random) (\<lambda>n. Inr (new_snowflake n))"

subsection \<open>The next id\<close>

fun waitNextMillis :: "int \<Rightarrow> int list \<Rightarrow> (int \<times> int list) option" where
  "waitNextMillis lastTimestamp [] = None"
| "waitNextMillis lastTimestamp (t # ts) =
     (if t \<le> lastTimestamp then waitNextMillis lastTimestamp ts else Some (t, ts))"

definition compose_id :: "int \<Rightarrow> int \<Rightarrow> int \<Rightarrow> int" where
  "compose_id t n s = push_bit TIMESTAMP_SHIFT t OR push_bit NODE_ID_SHIFT n OR (s AND MAX_SEQUENCE)"

fun nextId :: "snowflake \<Rightarrow> int list \<Rightarrow> ((js_error, int) result \<times> snowflake \<times> int list) option" where
  "nextId s [] = None"
| "nextId s (t0 # clock0) =
     Option.bind (if t0 < sf_lastTimestamp s then waitNextMillis (sf_lastTimestamp s) clock0 else Some (t0, clock0))
       (\<lambda>(t1, clock1).
     Option.bind
       (if t1 = sf_lastTimestamp s
        then (let next = (sf_sequence s + 1) AND MAX_SEQUENCE
              in Option.bind (if next = 0 then waitNextMillis (sf_lastTimestamp s) clock1 else Some (t1, clock1))
                   (\<lambda>(t, clock). Some (next, t, clock)))
        else Some (0, t1, clock1))
       (\<lambda>(sq, t, clock).
     Some (if t > MAX_TIMESTAMP
           then (Inl (JsError ''Snowflake timestamp overflow.''), s\<lparr>sf_sequence := sq\<rparr>, clock)
           else (Inr (compose_id t (sf_nodeId s) sq), s\<lparr>sf_sequence := sq, sf_lastTimestamp := t\<rparr>, clock))))"

fun nextIds :: "nat \<Rightarrow> snowflake \<Rightarrow> int list \<Rightarrow> int list option" where
  "nextIds 0 s clock = Some []"
| "nextIds (Suc n) s clock = (case nextId s clock of
     Some (Inr i, s', clock') \<Rightarrow> map_option (\<lambda>is. i # is) (nextIds n s' clock')
   | _ \<Rightarrow> None)"

section \<open>Ulid\<close>

definition ALPHABET :: string where "ALPHABET = ''0123456789ABCDEFGHJKMNPQRSTVWXYZ''"
definition TIME_PART_LENGTH :: nat where "TIME_PART_LENGTH = 10"
definition RANDOM_PART_LENGTH :: nat where "RANDOM_PART_LENGTH = 16"
definition RANDOM_BYTES_LENGTH :: nat where "RANDOM_BYTES_LENGTH = 10"
definition ULID_MAX_TIMESTAMP :: int where "ULID_MAX_TIMESTAMP = push_bit 48 1 - 1"

definition randomValue :: "8 word list \<Rightarrow> int" where
  "randomValue bytes = foldl (\<lambda>v b. push_bit 8 v OR uint b) 0 bytes"

text \<open>The loop fills the buffer from its last position to its first.\<close>

fun toBase32 :: "int \<Rightarrow> nat \<Rightarrow> string" where
  "toBase32 v 0 = []"
| "toBase32 v (Suc n) = toBase32 (drop_bit 5 v) n @ [ALPHABET ! nat (v AND 31)]"

definition ulid :: "int \<Rightarrow> 8 word list \<Rightarrow> (js_error, string) result" where
  "ulid timestamp bytes =
     (if timestamp > ULID_MAX_TIMESTAMP then Inl (JsError ''ULID timestamp overflow.'')
      else Inr (toBase32 timestamp TIME_PART_LENGTH @ toBase32 (randomValue bytes) RANDOM_PART_LENGTH))"

section \<open>Lemmas\<close>

lemma push_or:
  fixes a b :: int
  assumes "0 \<le> b" "b < 2 ^ n"
  shows "push_bit n a OR b = a * 2 ^ n + b"
proof -
  have "\<not> bit (push_bit n a) i \<or> \<not> bit b i" for i
  proof (cases "i < n")
    case False
    have "(2::int) ^ n \<le> 2 ^ i" using False by (intro power_increasing) auto
    then have "b < 2 ^ i" using assms(2) by linarith
    then have "b div 2 ^ i = 0" using assms(1) by (simp add: div_pos_pos_trivial)
    then show ?thesis by (simp add: bit_iff_odd)
  qed (simp add: bit_simps)
  then have "push_bit n a AND b = 0" by (intro bit_eqI) (auto simp: bit_simps)
  then show ?thesis using disjunctive_add_eq_or[of "push_bit n a" b] by (simp add: push_bit_eq_mult)
qed

lemmas sf_consts = MAX_NODE_ID_def MAX_SEQUENCE_def NODE_ID_SHIFT_def TIMESTAMP_SHIFT_def MAX_TIMESTAMP_def
  EPOCH_BITS_def NODE_ID_BITS_def SEQUENCE_BITS_def

lemma and_consts [simp]: "x AND MAX_NODE_ID = x mod 1024" "x AND MAX_SEQUENCE = x mod 4096"
  using take_bit_eq_mask[of 10 x] take_bit_eq_mask[of 12 x]
  by (simp_all add: sf_consts take_bit_eq_mod mask_eq_exp_minus_1 push_bit_eq_mult)

lemma compose_id_eq:
  assumes "0 \<le> n" "n < 1024" "0 \<le> s" "s < 4096"
  shows "compose_id t n s = t * 4194304 + n * 4096 + s"
proof -
  have "push_bit 12 n OR s = n * 4096 + s" using push_or[of s 12 n] assms by simp
  moreover have "push_bit 22 t OR (n * 4096 + s) = t * 4194304 + (n * 4096 + s)"
    using push_or[of "n * 4096 + s" 22 t] assms by simp
  ultimately show ?thesis using assms
    by (simp add: compose_id_def TIMESTAMP_SHIFT_def NODE_ID_SHIFT_def NODE_ID_BITS_def SEQUENCE_BITS_def)
qed

lemma id_parts:
  fixes t n s :: int
  assumes "0 \<le> n" "n < 1024" "0 \<le> s" "s < 4096"
  shows "(t * 4194304 + n * 4096 + s) div 4194304 = t" "(t * 4194304 + n * 4096 + s) div 4096 mod 1024 = n"
proof -
  have "t * 4194304 + n * 4096 + s = (n * 4096 + s) + t * 4194304" by simp
  then show "(t * 4194304 + n * 4096 + s) div 4194304 = t" using assms by simp
  have "t * 4194304 + n * 4096 + s = s + (n + t * 1024) * 4096" by simp
  then have "(t * 4194304 + n * 4096 + s) div 4096 = n + t * 1024" using assms by simp
  then show "(t * 4194304 + n * 4096 + s) div 4096 mod 1024 = n" using assms by simp
qed

definition snowflake_ok :: "snowflake \<Rightarrow> bool" where
  "snowflake_ok s \<longleftrightarrow> 0 \<le> sf_nodeId s \<and> sf_nodeId s < 1024 \<and> 0 \<le> sf_sequence s \<and> sf_sequence s < 4096"

definition last_id :: "snowflake \<Rightarrow> int" where
  "last_id s = sf_lastTimestamp s * 4194304 + sf_nodeId s * 4096 + sf_sequence s"

lemma new_snowflake_ok: "snowflake_ok (new_snowflake n)"
  by (simp add: snowflake_ok_def new_snowflake_def)

lemma waitNextMillis_Some: "waitNextMillis l c = Some (t, c') \<Longrightarrow> l < t \<and> t \<in> set c \<and> set c' \<subseteq> set c"
  by (induction c) (auto split: if_splits)

lemma nextId_step:
  assumes "nextId s clock = Some (Inr i, s', clock')" "snowflake_ok s"
  shows "snowflake_ok s'" "sf_nodeId s' = sf_nodeId s" "i = last_id s'" "last_id s < i"
    "sf_lastTimestamp s' \<le> MAX_TIMESTAMP" "sf_lastTimestamp s' \<in> set clock" "set clock' \<subseteq> set clock"
proof -
  obtain t0 c0 where c: "clock = t0 # c0" using assms(1) by (cases clock) auto
  obtain t1 c1 where t1: "(if t0 < sf_lastTimestamp s then waitNextMillis (sf_lastTimestamp s) c0 else Some (t0, c0)) = Some (t1, c1)"
    using assms(1) unfolding c by (auto simp: bind_eq_Some_conv split: if_splits)
  have g1: "sf_lastTimestamp s \<le> t1 \<and> t1 \<in> set clock \<and> set c1 \<subseteq> set clock"
    using t1 c by (auto split: if_splits dest!: waitNextMillis_Some)
  obtain sq t c2 where t: "(if t1 = sf_lastTimestamp s
        then (let next = (sf_sequence s + 1) AND MAX_SEQUENCE
              in Option.bind (if next = 0 then waitNextMillis (sf_lastTimestamp s) c1 else Some (t1, c1))
                   (\<lambda>(t, clock). Some (next, t, clock)))
        else Some (0, t1, c1)) = Some (sq, t, c2)"
    and r: "(if t > MAX_TIMESTAMP
           then (Inl (JsError ''Snowflake timestamp overflow.''), s\<lparr>sf_sequence := sq\<rparr>, c2)
           else (Inr (compose_id t (sf_nodeId s) sq), s\<lparr>sf_sequence := sq, sf_lastTimestamp := t\<rparr>, c2)) = (Inr i, s', clock')"
    using assms(1) unfolding c nextId.simps t1 by (fastforce simp: bind_eq_Some_conv)
  have g2: "0 \<le> sq \<and> sq < 4096 \<and> t \<in> set clock \<and> set c2 \<subseteq> set clock \<and>
      (sf_lastTimestamp s < t \<or> t = sf_lastTimestamp s \<and> sf_sequence s < sq)"
  proof (cases "t1 = sf_lastTimestamp s")
    case False
    then show ?thesis using t g1 by auto
  next
    case True
    let ?n = "(sf_sequence s + 1) mod 4096"
    show ?thesis
    proof (cases "?n = 0")
      case z: True
      then have "sq = 0" "waitNextMillis (sf_lastTimestamp s) c1 = Some (t, c2)"
        using t True by (auto simp: bind_eq_Some_conv)
      then show ?thesis using waitNextMillis_Some g1 by fastforce
    next
      case nz: False
      then have e: "sq = ?n" "t = t1" "c2 = c1" using t True by auto
      have "?n = sf_sequence s + 1"
        using nz assms(2) by (cases "sf_sequence s + 1 = 4096") (auto simp: snowflake_ok_def mod_pos_pos_trivial)
      then show ?thesis using e g1 True nz by auto
    qed
  qed
  have s': "s' = s\<lparr>sf_sequence := sq, sf_lastTimestamp := t\<rparr>" "i = compose_id t (sf_nodeId s) sq" "clock' = c2" "t \<le> MAX_TIMESTAMP"
    using r by (auto split: if_splits)
  show ok: "snowflake_ok s'" using g2 assms(2) s' by (auto simp: snowflake_ok_def)
  show "sf_nodeId s' = sf_nodeId s" "sf_lastTimestamp s' \<le> MAX_TIMESTAMP" "sf_lastTimestamp s' \<in> set clock" "set clock' \<subseteq> set clock"
    using s' g2 by auto
  show i: "i = last_id s'" using s' g2 assms(2) by (simp add: last_id_def compose_id_eq snowflake_ok_def)
  show "last_id s < i" using i s' g2 assms(2) by (auto simp: last_id_def snowflake_ok_def)
qed

lemma nextIds_run:
  assumes "nextIds n s clock = Some is" "snowflake_ok s"
  shows "sorted_wrt (<) (last_id s # is)"
    and "\<forall>i\<in>set is. i div 4096 mod 1024 = sf_nodeId s \<and> i < 2 ^ 64 \<and> (\<exists>t\<in>set clock. i div 4194304 = t)"
    and "length is = n"
proof -
  have "sorted_wrt (<) (last_id s # is) \<and> length is = n \<and>
      (\<forall>i\<in>set is. i div 4096 mod 1024 = sf_nodeId s \<and> i < 2 ^ 64 \<and> (\<exists>t\<in>set clock. i div 4194304 = t))"
    using assms
  proof (induction n arbitrary: s clock "is")
    case (Suc n)
    obtain i s' clock' js where st: "nextId s clock = Some (Inr i, s', clock')" "nextIds n s' clock' = Some js" "is = i # js"
      using Suc.prems(1) by (auto split: option.splits prod.splits sum.splits)
    note k = nextId_step[OF st(1) Suc.prems(2)]
    note ih = Suc.IH[OF st(2) k(1)]
    have "i div 4096 mod 1024 = sf_nodeId s \<and> i < 2 ^ 64 \<and> i div 4194304 = sf_lastTimestamp s'"
      using k id_parts[of "sf_nodeId s" "sf_sequence s'" "sf_lastTimestamp s'"]
      by (simp add: last_id_def snowflake_ok_def sf_consts)
    then show ?case using ih k st(3) by auto
  qed simp
  then show "sorted_wrt (<) (last_id s # is)" "length is = n"
    "\<forall>i\<in>set is. i div 4096 mod 1024 = sf_nodeId s \<and> i < 2 ^ 64 \<and> (\<exists>t\<in>set clock. i div 4194304 = t)"
    by blast+
qed

subsection \<open>Base 32\<close>

lemma ALPHABET_order: "a < 32 \<Longrightarrow> b < 32 \<Longrightarrow> a < b \<Longrightarrow> code_unit (ALPHABET ! a) < code_unit (ALPHABET ! b)"
proof -
  have "map code_unit ALPHABET = [48,49,50,51,52,53,54,55,56,57,65,66,67,68,69,70,71,72,74,75,77,78,80,81,82,83,84,86,87,88,89,90]"
    by (simp add: ALPHABET_def code_unit_def)
  then have "sorted_wrt (<) (map code_unit ALPHABET)" "length ALPHABET = 32"
    by (simp_all add: ALPHABET_def)
  then show "a < 32 \<Longrightarrow> b < 32 \<Longrightarrow> a < b \<Longrightarrow> ?thesis"
    using sorted_wrt_nth_less[of "(<)" "map code_unit ALPHABET" a b] by simp
qed

lemma div_less_bound: "0 < (p::int) \<Longrightarrow> v < k * p \<Longrightarrow> v div p < k"
proof (rule ccontr)
  assume a: "0 < p" "v < k * p" "\<not> v div p < k"
  then have "k * p \<le> v div p * p" by (intro mult_right_mono) auto
  moreover have "v div p * p \<le> v" using a(1) div_mult_mod_eq[of v p] pos_mod_sign[of p v] by linarith
  ultimately show False using a(2) by linarith
qed

lemma and_31: "(v::int) AND 31 = v mod 32"
  using take_bit_eq_mask[of 5 v] by (simp add: take_bit_eq_mod mask_eq_exp_minus_1)

lemma length_toBase32 [simp]: "length (toBase32 v n) = n"
  by (induction n arbitrary: v) auto

text \<open>The same digits, most significant first.\<close>

lemma toBase32_front:
  "toBase32 v (Suc n) = ALPHABET ! nat ((v div 32 ^ n) mod 32) # toBase32 v n"
proof (induction n arbitrary: v)
  case (Suc n)
  have d: "drop_bit 5 v = v div 32" by (simp add: drop_bit_eq_div)
  have "v div 32 div 32 ^ n = v div 32 ^ Suc n" by (simp add: div_mult2_eq zdiv_zmult2_eq)
  then show ?case using Suc[of "drop_bit 5 v"] d by simp
qed (simp add: and_31)

lemma toBase32_mod: "v mod 32 ^ n = w mod 32 ^ n \<Longrightarrow> toBase32 v n = toBase32 w n"
proof (induction n arbitrary: v w)
  case (Suc n)
  have "v mod 32 = w mod 32"
    using Suc.prems by (metis dvd_triv_left mod_mod_cancel power_Suc)
  moreover have "v div 32 mod 32 ^ n = w div 32 mod 32 ^ n"
  proof -
    have "x div 32 mod 32 ^ n = x mod 32 ^ Suc n div 32" for x :: int
      by (simp add: mod_mult2_eq zmod_zmult2_eq div_add1_eq)
    then show ?thesis using Suc.prems by simp
  qed
  ultimately show ?case using Suc.IH[of "drop_bit 5 v" "drop_bit 5 w"] by (simp add: and_31 drop_bit_eq_div)
qed simp

text \<open>Comparison of two strings as JavaScript's \<open><\<close> does it, by code units.\<close>

fun js_less :: "string \<Rightarrow> string \<Rightarrow> bool" where
  "js_less s [] \<longleftrightarrow> False"
| "js_less [] (d # t) \<longleftrightarrow> True"
| "js_less (c # s) (d # t) \<longleftrightarrow> code_unit c < code_unit d \<or> code_unit c = code_unit d \<and> js_less s t"

lemma js_less_append: "length s = length t \<Longrightarrow> js_less s t \<Longrightarrow> js_less (s @ u) (t @ v)"
  by (induction s t rule: list_induct2) auto

lemma js_less_irrefl: "\<not> js_less s s"
  by (induction s) auto

lemma toBase32_less:
  assumes "0 \<le> v" "v < w" "w < 32 ^ n"
  shows "js_less (toBase32 v n) (toBase32 w n)"
  using assms
proof (induction n arbitrary: v w)
  case (Suc n)
  let ?p = "(32::int) ^ n"
  have p: "0 < ?p" by simp
  have dv: "0 \<le> v div ?p" "v div ?p < 32" "0 \<le> w div ?p" "w div ?p < 32"
    using Suc.prems p by (auto simp: pos_imp_zdiv_nonneg_iff intro!: div_less_bound)
  have le: "v div ?p \<le> w div ?p" using Suc.prems(2) by (intro zdiv_mono1) auto
  show ?case
  proof (cases "v div ?p = w div ?p")
    case True
    have "v mod ?p < w mod ?p"
      using Suc.prems(2) True mult_div_mod_eq[of ?p v] mult_div_mod_eq[of ?p w]
      by (metis add_less_cancel_left)
    then have "js_less (toBase32 (v mod ?p) n) (toBase32 (w mod ?p) n)" using p by (intro Suc.IH) auto
    then have "js_less (toBase32 v n) (toBase32 w n)" using toBase32_mod[of "v mod ?p" n v] toBase32_mod[of "w mod ?p" n w] by simp
    then show ?thesis using True by (simp add: toBase32_front del: toBase32.simps)
  next
    case False
    then have "v div ?p < w div ?p" using le by simp
    then show ?thesis using dv ALPHABET_order[of "nat (v div ?p)" "nat (w div ?p)"]
      by (simp add: toBase32_front del: toBase32.simps)
  qed
qed simp

lemma randomValue_step: "foldl (\<lambda>v b. push_bit 8 v OR uint b) a (bs :: 8 word list) =
    a * 256 ^ length bs + foldl (\<lambda>v b. push_bit 8 v OR uint b) 0 bs"
proof (induction bs arbitrary: a)
  case (Cons b bs)
  have "push_bit 8 x OR uint b = x * 256 + uint b" for x
    using push_or[of "uint b" 8 x] uint_lt2p[of b] by simp
  then show ?case using Cons[of "push_bit 8 a OR uint b"] Cons[of "push_bit 8 0 OR uint b"]
    by (simp add: algebra_simps)
qed simp

lemma randomValue_Cons: "randomValue (b # bs) = uint b * 256 ^ length bs + randomValue bs"
  using randomValue_step[of "uint b" bs] by (simp add: randomValue_def)

lemma randomValue_bounds: "0 \<le> randomValue bs \<and> randomValue bs < 256 ^ length bs"
proof (induction bs)
  case (Cons b bs)
  have "uint b + 1 \<le> 256" using uint_lt2p[of b] by simp
  then have m: "(uint b + 1) * 256 ^ length bs \<le> 256 * (256::int) ^ length bs" by (intro mult_right_mono) auto
  have "uint b * 256 ^ length bs + randomValue bs < (uint b + 1) * 256 ^ length bs" using Cons by (simp add: distrib_right)
  from order_less_le_trans[OF this m] show ?case using Cons unfolding randomValue_Cons by simp
qed (simp add: randomValue_def)

lemma randomValue_inj: "length bs = length cs \<Longrightarrow> randomValue bs = randomValue cs \<Longrightarrow> bs = cs"
proof (induction bs cs rule: list_induct2)
  case (Cons b bs c cs)
  let ?p = "(256::int) ^ length cs"
  have "randomValue (b # bs) div ?p = uint b" "randomValue (c # cs) div ?p = uint c"
    using randomValue_bounds[of bs] randomValue_bounds[of cs] Cons.hyps by (simp_all add: randomValue_Cons)
  then have "b = c" using Cons.prems by (simp add: word_uint_eq_iff)
  then show ?case using Cons by (simp add: randomValue_Cons)
qed simp

section \<open>Properties\<close>



text \<open>
  C40: the generator never hangs on a clock that moves on.  If some reading after the first one is
  later than the last timestamp used, \<open>nextId\<close> returns.
\<close>

theorem nextId_returns:
  assumes "t \<in> set clock" "sf_lastTimestamp s < t"
  shows "nextId s (t0 # clock) \<noteq> None"
proof -
  have w: "waitNextMillis l c \<noteq> None" if "t \<in> set c" "l < t" for l c
    using that by (induction c) auto
  show ?thesis
  proof (cases "t0 < sf_lastTimestamp s")
    case True
    obtain t1 c1 where t1: "waitNextMillis (sf_lastTimestamp s) clock = Some (t1, c1)" using w assms by fastforce
    then have "t1 \<noteq> sf_lastTimestamp s" using waitNextMillis_Some by blast
    then show ?thesis using True t1 by simp
  next
    case False
    obtain t1 c1 where t1: "waitNextMillis (sf_lastTimestamp s) clock = Some (t1, c1)" using w assms by fastforce
    then show ?thesis using False by (simp add: Let_def)
  qed
qed

theorem nextId_returns_witness:
  "nextId \<lparr>sf_nodeId = 1, sf_lastTimestamp = 5, sf_sequence = 4095\<rparr> [5, 4, 5, 6] \<noteq> None"
  using nextId_returns[of 6 "[4, 5, 6]" "\<lparr>sf_nodeId = 1, sf_lastTimestamp = 5, sf_sequence = 4095\<rparr>" 5] by simp

text \<open>
  The MAC addresses are never used.  Outside Kubernetes and without a configured node id, the
  instance the class creates for itself has the random node id whatever the network interfaces are,
  because it is created before the CRC table; created after it, the node id would depend on the MAC
  address only.
\<close>

theorem instance_ignores_mac:
  assumes "env = None \<or> (\<exists>v. env = Some v \<and> trim v = [])"
  shows "INSTANCE env False ifs random = Inr (new_snowflake random)
     \<and> (mac_bytes ifs \<noteq> [] \<longrightarrow> resolveNodeId (Some createCrc32Table) env False ifs random
          = resolveNodeId (Some createCrc32Table) env False ifs random')"
proof -
  have all6: "length m = 6" if "m \<in> set (mac_bytes ifs)" for m
  proof -
    have "length (hex_bytes s) = length s div 2" for s by (induction s rule: hex_bytes.induct) auto
    then show ?thesis using that
      by (auto simp: mac_bytes_def map_filter_def parseMacAddress_def Let_def split: option.splits if_splits)
  qed
  have "crc_update None (concat (mac_bytes ifs)) c = None" if "mac_bytes ifs \<noteq> []" for c
  proof -
    obtain m ms where m: "mac_bytes ifs = m # ms" using \<open>mac_bytes ifs \<noteq> []\<close> by (cases "mac_bytes ifs") auto
    then have "m \<noteq> []" using all6[of m] by auto
    then show ?thesis using m by (cases m) auto
  qed
  then have "createNodeIdFromMac None ifs random = random AND MAX_NODE_ID" by (simp add: createNodeIdFromMac_def)
  moreover have some: "crc_update (Some tb) bs c \<noteq> None" for tb bs c by (induction bs arbitrary: c) auto
  have "createNodeIdFromMac (Some tb) ifs random = createNodeIdFromMac (Some tb) ifs random'" if "mac_bytes ifs \<noteq> []" for tb
    using that some[of tb "concat (mac_bytes ifs)" "0xffffffff"] by (auto simp: createNodeIdFromMac_def split: option.splits)
  ultimately show ?thesis using assms by (auto simp: INSTANCE_def resolveNodeId_def new_snowflake_def)
qed

theorem instance_ignores_mac_witness:
  "INSTANCE None False [Some [Some ''0a:1b:2c:3d:4e:5f'']] 77 = Inr (new_snowflake 77)"
  using instance_ignores_mac[of None "[Some [Some ''0a:1b:2c:3d:4e:5f'']]" 77] by blast

text \<open>
  ULIDs are unique and sort by time.  An identifier has 26 characters of the alphabet; identifiers
  of a later millisecond are larger in JavaScript's string order, whatever the random bytes; two
  identifiers are equal only for the same millisecond and the same random bytes.
\<close>

theorem ulids_unique_and_sorted:
  assumes "ulid t r = Inr u" "ulid t' r' = Inr u'" "0 \<le> t" "0 \<le> t'"
    and "length r = RANDOM_BYTES_LENGTH" "length r' = RANDOM_BYTES_LENGTH"
  shows "length u = 26 \<and> (t < t' \<longrightarrow> js_less u u') \<and> (u = u' \<longrightarrow> t = t' \<and> r = r')"
proof -
  note u = assms(1,2)[unfolded ulid_def]
  have max: "t < 32 ^ 10" "t' < 32 ^ 10" using u by (auto simp: ULID_MAX_TIMESTAMP_def push_bit_eq_mult split: if_splits)
  have rnd: "0 \<le> randomValue r" "randomValue r < 32 ^ 16" "0 \<le> randomValue r'" "randomValue r' < 32 ^ 16"
    using randomValue_bounds[of r] randomValue_bounds[of r'] assms(5,6) by (simp_all add: RANDOM_BYTES_LENGTH_def)
  have e: "u = toBase32 t 10 @ toBase32 (randomValue r) 16" "u' = toBase32 t' 10 @ toBase32 (randomValue r') 16"
    using u by (auto simp: TIME_PART_LENGTH_def RANDOM_PART_LENGTH_def split: if_splits)
  have inj: "v = w" if "toBase32 v n = toBase32 w n" "0 \<le> v" "0 \<le> w" "v < 32 ^ n" "w < 32 ^ n" for v w n
    using toBase32_less[of v w n] toBase32_less[of w v n] that js_less_irrefl by (metis linorder_neqE)
  have "t = t' \<and> r = r'" if "u = u'"
  proof -
    have "toBase32 t 10 = toBase32 t' 10" "toBase32 (randomValue r) 16 = toBase32 (randomValue r') 16"
      using that e by (simp_all add: append_eq_append_conv)
    then show ?thesis using inj max rnd assms(3-6) randomValue_inj by metis
  qed
  moreover have "js_less u u'" if "t < t'"
    using that e max assms(3) by (simp add: js_less_append toBase32_less)
  ultimately show ?thesis using e by simp
qed

theorem ulids_unique_and_sorted_witness:
  "\<exists>u u'. ulid 1700000000000 (replicate 10 7) = Inr u \<and> ulid 1700000000001 (replicate 10 0) = Inr u' \<and> js_less u u'"
proof -
  obtain u u' where u: "ulid 1700000000000 (replicate 10 7) = Inr u" "ulid 1700000000001 (replicate 10 0) = Inr u'"
    by (simp add: ulid_def ULID_MAX_TIMESTAMP_def push_bit_eq_mult)
  from ulids_unique_and_sorted[OF u] u show ?thesis by (simp add: RANDOM_BYTES_LENGTH_def)
qed

end
