(* ===== verification/Fees.thy ===== *)
theory Fees
  imports Fspiop_Money
begin

text \<open>
  The fee engine of \<open>shared/catalyst\<close>: \<open>component/fee-validator.ts\<close>, \<open>component/catalyst-fee-engine.ts\<close> and the
  two fee calculators.  A fee calculator is an argument of the engine, as in the code; the HTTP client of
  the Catalyst service is an argument of \<open>CatalystFeeCalculator\<close>.  Objects keyed by role are
  association lists in the order of \<open>Object.entries\<close>, without repeated keys.
\<close>

section \<open>Data\<close>

datatype fee_role = PayerRole | PayeeRole | HubRole | SiRole | FxpRole

fun role_text :: "fee_role \<Rightarrow> string" where
  "role_text PayerRole = ''PAYER_FSP''"
| "role_text PayeeRole = ''PAYEE_FSP''"
| "role_text HubRole = ''HUB''"
| "role_text SiRole = ''SI''"
| "role_text FxpRole = ''FXP''"

record fee_split =
  fs_amount :: "string option"
  fs_currency :: "string option"

record fee_policy =
  fpo_feePolicyId :: "string option"
  fpo_transactionCurrency :: "string option"

record fee_result =
  fr_feePolicy :: "fee_policy option"
  fr_feeCurrency :: "string option"
  fr_totalFeeAmount :: "string option"
  fr_transactionAmount :: "string option"
  fr_transactionCurrency :: "string option"
  fr_feeSplits :: "(string \<times> fee_split) list option"

definition empty_fee_result :: fee_result where
  "empty_fee_result = \<lparr>fr_feePolicy = None, fr_feeCurrency = None, fr_totalFeeAmount = None,
     fr_transactionAmount = None, fr_transactionCurrency = None, fr_feeSplits = None\<rparr>"

text \<open>A \<open>CatalystException\<close> with its code and message, or any other error.\<close>

datatype fee_error = CatalystException string string | OtherError js_error

definition catalyst_error :: "string \<Rightarrow> fee_error" where
  "catalyst_error m = CatalystException ''CATALYST_ERROR'' m"

definition fee_lift :: "(js_error, 'a) result \<Rightarrow> (fee_error, 'a) result" where
  "fee_lift r = (case r of Inl e \<Rightarrow> Inl (OtherError e) | Inr a \<Rightarrow> Inr a)"

type_synonym fees = "(fee_role \<times> money) list"

section \<open>FeeValidator\<close>

fun resolveRoleAliases :: "fee_role \<Rightarrow> string list" where
  "resolveRoleAliases PayerRole = [''payer_fsp'', ''payer_fsp_fee'', ''payer_fsp_fee_cc'', ''PAYER_FSP'']"
| "resolveRoleAliases PayeeRole = [''payee_fsp'', ''payee_fsp_fee'', ''payee_fsp_fee_cc'', ''PAYEE_FSP'']"
| "resolveRoleAliases HubRole = [''hub'', ''hub_fee'', ''HUB'']"
| "resolveRoleAliases SiRole = [''si'', ''SI'']"
| "resolveRoleAliases FxpRole = [''fxp'', ''FXP'']"

fun first_alias :: "string list \<Rightarrow> (string \<times> fee_split) list \<Rightarrow> fee_split option" where
  "first_alias [] splits = None"
| "first_alias (k # ks) splits = (case map_of splits k of Some x \<Rightarrow> Some x | None \<Rightarrow> first_alias ks splits)"

definition resolveSplit :: "(string \<times> fee_split) list \<Rightarrow> fee_role \<Rightarrow> fee_split option" where
  "resolveSplit feeSplits role = (case map_of feeSplits (role_text role) of
     Some direct \<Rightarrow> Some direct
   | None \<Rightarrow> first_alias (resolveRoleAliases role) feeSplits)"

definition resolveScale :: "string \<Rightarrow> fee_role \<Rightarrow> (fee_error, nat) result" where
  "resolveScale currency role = (case get_currency currency of
     None \<Rightarrow> Inl (catalyst_error (''Wrong currency information for '' @ role_text role))
   | Some p \<Rightarrow> Inr (currency_scale p))"

definition validate_fee :: "fee_policy \<Rightarrow> (string \<times> fee_split) list \<Rightarrow> fee_role \<Rightarrow> money \<Rightarrow> (fee_error, unit) result" where
  "validate_fee policy splits role fee = (case resolveSplit splits role of
     None \<Rightarrow> Inl (catalyst_error (role_text role @ '' fee cannot be resolved in current policy ID : ''
               @ nullish (fpo_feePolicyId policy) ''undefined''))
   | Some split \<Rightarrow> (case fs_currency split of
        None \<Rightarrow> Inl (catalyst_error (''Missing currency information for '' @ role_text role))
      | Some c \<Rightarrow>
          if m_currency fee \<noteq> c then Inl (catalyst_error (''Currency information mismatch for '' @ role_text role))
          else (case fs_amount split of
             None \<Rightarrow> Inl (catalyst_error (''Missing amount for '' @ role_text role))
           | Some amount \<Rightarrow>
               res_bind (resolveScale (m_currency fee) role) (\<lambda>scale.
               res_bind (fee_lift (serialize (m_amount fee) (int scale) HalfUp)) (\<lambda>pre.
               res_bind (fee_lift (serialize amount (int scale) HalfUp)) (\<lambda>calculated.
                 if pre > calculated
                 then Inl (catalyst_error (''Pre-calculated fee is larger than the Fee Engine'' @ [CHR 0x27] @ ''s calculation for '' @ role_text role))
                 else Inr ()))))))"

fun validate_each :: "fee_policy \<Rightarrow> (string \<times> fee_split) list \<Rightarrow> fees \<Rightarrow> (fee_error, unit) result" where
  "validate_each policy splits [] = Inr ()"
| "validate_each policy splits ((role, fee) # rest) =
     res_bind (validate_fee policy splits role fee) (\<lambda>_. validate_each policy splits rest)"

definition validate_fees :: "fees \<Rightarrow> fee_result \<Rightarrow> (fee_error, unit) result" where
  "validate_fees pre r = (case fr_feePolicy r of
     None \<Rightarrow> Inr ()
   | Some policy \<Rightarrow> validate_each policy (nullish (fr_feeSplits r) []) pre)"

section \<open>CatalystFeeEngine\<close>

datatype engine_mode = Bypass | Strict

definition toExtensionKey :: "string \<Rightarrow> string" where
  "toExtensionKey role =
     (let r = trim role
      in if r \<in> {''PAYER_FSP'', ''payer_fsp'', ''payer_fsp_fee'', ''payer_fsp_fee_cc''} then ''payer_fsp_fee''
         else if r \<in> {''PAYEE_FSP'', ''payee_fsp'', ''payee_fsp_fee'', ''payee_fsp_fee_cc''} then ''payee_fsp_fee''
         else if r \<in> {''HUB'', ''hub'', ''hub_fee'', ''hub_fee_cc''} then ''hub_fee''
         else if r \<in> {''SI'', ''si'', ''si_fee'', ''si_fee_cc''} then ''si_fee''
         else if r \<in> {''FXP'', ''fxp'', ''fxp_fee'', ''fxp_fee_cc''} then ''fxp_fee''
         else toLowerCase r)"

definition toSimpleExtension :: "string \<Rightarrow> string \<Rightarrow> extension" where
  "toSimpleExtension k v = \<lparr>ext_key = Some k, ext_value = Some (JString v)\<rparr>"

definition toExtension_fee :: "fee_role \<Rightarrow> string \<Rightarrow> extension" where
  "toExtension_fee role amt = toSimpleExtension (toExtensionKey (role_text role)) amt"

definition endsWith :: "string \<Rightarrow> string \<Rightarrow> bool" where
  "endsWith s t \<longleftrightarrow> drop (length s - length t) s = t"

definition toCcExtension :: "string \<Rightarrow> string \<Rightarrow> extension" where
  "toCcExtension role amt =
     (let k = toExtensionKey role in toSimpleExtension (if endsWith k ''_cc'' then k else k @ ''_cc'') amt)"

text \<open>The two loops of \<open>toSchemeFeeAmount\<close>.\<close>

fun sum_fees :: "nat \<Rightarrow> money list \<Rightarrow> int \<Rightarrow> (fee_error, int) result" where
  "sum_fees scale [] totalFee = Inr totalFee"
| "sum_fees scale (m # ms) totalFee =
     res_bind (fee_lift (serialize (m_amount m) (int scale) HalfUp)) (\<lambda>v. sum_fees scale ms (totalFee + v))"

fun sum_splits :: "nat \<Rightarrow> string set \<Rightarrow> (string \<times> fee_split) list \<Rightarrow> int \<Rightarrow> (fee_error, int) result" where
  "sum_splits scale keys [] totalFee = Inr totalFee"
| "sum_splits scale keys ((k, s) # rest) totalFee = (case fs_amount s of
     None \<Rightarrow> sum_splits scale keys rest totalFee
   | Some a \<Rightarrow>
       if toExtensionKey k \<in> keys then sum_splits scale keys rest totalFee
       else res_bind (fee_lift (serialize a (int scale) HalfUp)) (\<lambda>v. sum_splits scale keys rest (totalFee + v)))"

definition toSchemeFeeAmount ::
  "fees \<Rightarrow> string set \<Rightarrow> (string \<times> fee_split) list option \<Rightarrow> string option \<Rightarrow> (fee_error, string option) result" where
  "toSchemeFeeAmount pre keys splits feeCurrency =
     (let currency = (case feeCurrency of Some c \<Rightarrow> Some c
          | None \<Rightarrow> (case pre of [] \<Rightarrow> None | (r, m) # _ \<Rightarrow> Some (m_currency m)))
      in case Option.bind currency get_currency of
           None \<Rightarrow> Inr None
         | Some p \<Rightarrow>
             res_bind (sum_fees (currency_scale p) (map snd pre) 0) (\<lambda>t.
             res_bind (sum_splits (currency_scale p) keys (nullish splits []) t) (\<lambda>totalFee.
             res_bind (fee_lift (deserialize totalFee (int (currency_scale p)))) (\<lambda>text. Inr (Some text)))))"

definition cc_extensions :: "(string \<times> fee_split) list \<Rightarrow> extension list" where
  "cc_extensions splits = List.map_filter (\<lambda>(role, s). map_option (toCcExtension role) (fs_amount s)) splits"

definition toExtensionList_fees ::
  "fees \<Rightarrow> (string \<times> fee_split) list option \<Rightarrow> string option \<Rightarrow> string option \<Rightarrow> (fee_error, extension_list) result" where
  "toExtensionList_fees pre splits feeCurrency feePolicyId =
     (let extensions = map (\<lambda>(role, m). toExtension_fee role (m_amount m)) pre @ cc_extensions (nullish splits []);
          keys = set (map (\<lambda>(role, m). toExtensionKey (role_text role)) pre)
      in res_bind (toSchemeFeeAmount pre keys splits feeCurrency) (\<lambda>schemeFee.
           Inr \<lparr>el_extension = Some (extensions
             @ (case schemeFee of None \<Rightarrow> [] | Some a \<Rightarrow> [toSimpleExtension ''scheme_fee_amount'' a])
             @ (case feeCurrency of None \<Rightarrow> [] | Some c \<Rightarrow> [toSimpleExtension ''scheme_fee_currency'' c])
             @ (case feePolicyId of None \<Rightarrow> []
                | Some i \<Rightarrow> if trim i = [] then [] else [toSimpleExtension ''scheme_fee_policy_id'' (trim i)]))\<rparr>))"

text \<open>A calculator takes a scenario (left) or a policy id (right) and the amount.\<close>

type_synonym calculator = "string + int \<Rightarrow> money \<Rightarrow> (fee_error, fee_result) result"

definition fee_execute ::
  "calculator \<Rightarrow> engine_mode \<Rightarrow> fees \<Rightarrow> string \<Rightarrow> money \<Rightarrow> int \<Rightarrow> (fee_error, extension_list) result" where
  "fee_execute calc mode pre scenario amt feePolicyId =
     (if mode = Bypass then toExtensionList_fees pre None None None
      else
        res_bind (calc (if feePolicyId > 0 then Inr feePolicyId else Inl scenario) amt) (\<lambda>r.
        res_bind (validate_fees pre r) (\<lambda>_.
          let resolved = (case Option.bind (fr_feePolicy r) fpo_feePolicyId of
                Some i \<Rightarrow> Some i
              | None \<Rightarrow> if feePolicyId > 0 then Some (int_text feePolicyId) else None)
          in toExtensionList_fees pre (fr_feeSplits r) (fr_feeCurrency r) resolved)))"

section \<open>MockFeeCalculator\<close>

definition createSplit :: "int \<Rightarrow> nat \<Rightarrow> string \<Rightarrow> (fee_error, fee_split) result" where
  "createSplit amountMinor scale currency =
     res_bind (fee_lift (deserialize amountMinor (int scale))) (\<lambda>a.
       Inr \<lparr>fs_amount = Some a, fs_currency = Some currency\<rparr>)"

definition createDummyFeePolicy :: "string \<Rightarrow> fee_policy" where
  "createDummyFeePolicy currency = \<lparr>fpo_feePolicyId = Some ''0'', fpo_transactionCurrency = Some currency\<rparr>"

text \<open>\<open>bigint\<close> division truncates; the dividends are not negative, as \<open>serialize\<close> rejects negative amounts.\<close>

definition mock_calculate :: calculator where
  "mock_calculate scenarioOrPolicyId amt =
     (let scale = (case get_currency (m_currency amt) of None \<Rightarrow> 0 | Some p \<Rightarrow> currency_scale p);
          currency = m_currency amt
      in res_bind (fee_lift (serialize (m_amount amt) (int scale) HalfUp)) (\<lambda>amountMinor.
         let totalFee = amountMinor div 100;
             payerFee = totalFee * 30 div 100;
             payeeFee = totalFee * 30 div 100;
             hubFee = totalFee - payerFee - payeeFee
         in res_bind (fee_lift (deserialize totalFee (int scale))) (\<lambda>totalText.
            res_bind (createSplit payerFee scale currency) (\<lambda>s1.
            res_bind (createSplit payeeFee scale currency) (\<lambda>s2.
            res_bind (createSplit hubFee scale currency) (\<lambda>s3.
              Inr \<lparr>fr_feePolicy = Some (createDummyFeePolicy currency), fr_feeCurrency = Some currency,
                   fr_totalFeeAmount = Some totalText, fr_transactionAmount = Some (m_amount amt),
                   fr_transactionCurrency = Some currency,
                   fr_feeSplits = Some [(''payer_fsp_fee'', s1), (''payee_fsp_fee'', s2), (''hub_fee'', s3)]\<rparr>))))))"

section \<open>CatalystFeeCalculator\<close>

text \<open>The request to the Catalyst service: by scenario with amount and currency, or by policy id.\<close>

datatype catalyst_request = ByScenario string string string | ByPolicyId string string

definition rethrowAsCatalystException :: "fee_error \<Rightarrow> fee_error" where
  "rethrowAsCatalystException e = (case e of
     CatalystException c m \<Rightarrow> CatalystException c m
   | OtherError err \<Rightarrow> CatalystException ''CATALYST_ERROR''
       (case js_message err of
          Some m \<Rightarrow> if trim m \<noteq> [] then m else ''Unexpected catalyst error.''
        | None \<Rightarrow> ''Unexpected catalyst error.''))"

definition catalyst_calculate :: "(catalyst_request \<Rightarrow> (fee_error, fee_result option) result) \<Rightarrow> calculator" where
  "catalyst_calculate axios scenarioOrPolicyId amt =
     (let request = (case scenarioOrPolicyId of
            Inl scenario \<Rightarrow> ByScenario scenario (m_amount amt) (m_currency amt)
          | Inr policyId \<Rightarrow> ByPolicyId (int_text policyId) (m_amount amt))
      in case axios request of
           Inl e \<Rightarrow> Inl (rethrowAsCatalystException e)
         | Inr r \<Rightarrow> Inr (nullish r empty_fee_result))"

section \<open>Lemmas\<close>

lemma fee_lift_Inr [simp]: "fee_lift r = Inr a \<longleftrightarrow> r = Inr a"
  by (cases r) (auto simp: fee_lift_def)

lemma fee_lift_simps [simp]: "fee_lift (Inr a) = Inr a" "fee_lift (Inl e) = Inl (OtherError e)"
  by (simp_all add: fee_lift_def)

lemma validate_fee_Inr:
  assumes "validate_fee policy splits role fee = Inr ()"
  obtains split a p x y where "resolveSplit splits role = Some split" "fs_currency split = Some (m_currency fee)"
    "fs_amount split = Some a" "get_currency (m_currency fee) = Some p"
    "serialize (m_amount fee) (int (currency_scale p)) HalfUp = Inr x"
    "serialize a (int (currency_scale p)) HalfUp = Inr y" "x \<le> y"
  using assms
  by (auto simp: validate_fee_def resolveScale_def split: option.splits if_splits)

lemma validate_each_Inr: "validate_each policy splits pre = Inr () \<longleftrightarrow> (\<forall>(r, m)\<in>set pre. validate_fee policy splits r m = Inr ())"
  by (induction pre) auto

text \<open>The minor units of an amount that \<open>serialize\<close> accepts.\<close>

definition minor :: "nat \<Rightarrow> string \<Rightarrow> int" where
  "minor scale a = (case serialize a (int scale) HalfUp of Inr v \<Rightarrow> v | Inl _ \<Rightarrow> 0)"

lemma minor_nonneg: "0 \<le> minor scale a"
  by (auto simp: minor_def serialize_def guard_res_def res_bind_def split: sum.splits if_splits)

lemma minor_Inr: "serialize a (int scale) HalfUp = Inr v \<Longrightarrow> minor scale a = v"
  by (simp add: minor_def)

lemma sum_fees_Inr: "sum_fees scale ms t = Inr u \<Longrightarrow> u = t + (\<Sum>m\<leftarrow>ms. minor scale (m_amount m))"
proof (induction ms arbitrary: t)
  case (Cons m ms)
  then obtain v where "serialize (m_amount m) (int scale) HalfUp = Inr v" "sum_fees scale ms (t + v) = Inr u" by auto
  then show ?case using Cons.IH[of "t + v"] by (simp add: minor_Inr)
qed simp

definition unclaimed :: "string set \<Rightarrow> (string \<times> fee_split) list \<Rightarrow> string list" where
  "unclaimed keys splits = List.map_filter (\<lambda>(k, s). if toExtensionKey k \<in> keys then None else fs_amount s) splits"

lemma sum_splits_Inr:
  "sum_splits scale keys splits t = Inr u \<Longrightarrow> u = t + (\<Sum>a\<leftarrow>unclaimed keys splits. minor scale a)"
proof (induction splits arbitrary: t)
  case (Cons x rest)
  obtain k s where x: "x = (k, s)" by (cases x)
  show ?case
  proof (cases "fs_amount s = None \<or> toExtensionKey k \<in> keys")
    case True
    then have "sum_splits scale keys rest t = Inr u" using Cons.prems x by (auto split: option.splits)
    moreover have "unclaimed keys (x # rest) = unclaimed keys rest"
      using True x by (auto simp: unclaimed_def map_filter_simps)
    ultimately show ?thesis using Cons.IH by simp
  next
    case False
    then obtain a v where a: "fs_amount s = Some a" "serialize a (int scale) HalfUp = Inr v" "sum_splits scale keys rest (t + v) = Inr u"
      using Cons.prems x by auto
    moreover have "unclaimed keys (x # rest) = a # unclaimed keys rest"
      using False a(1) x by (simp add: unclaimed_def map_filter_simps)
    ultimately show ?thesis using Cons.IH[of "t + v"] by (simp add: minor_Inr)
  qed
qed (simp add: unclaimed_def map_filter_simps)

lemma serialize_bounds: "serialize a scale mode = Inr v \<Longrightarrow> 0 \<le> v \<and> v \<le> UINT64_MAX"
  by (auto simp: serialize_def guard_res_def res_bind_def split: sum.splits if_splits)

lemma deserialize_total: "0 \<le> a \<Longrightarrow> 0 \<le> scale \<Longrightarrow> \<exists>t. deserialize a scale = Inr t"
  by (auto simp: deserialize_def validateScale_def guard_res_def Let_def)

lemma one_percent:
  fixes a m :: int
  assumes "0 \<le> a" "a \<le> m"
  shows "0 \<le> a div 100" "a div 100 \<le> m" "0 \<le> a div 100 * 30 div 100" "a div 100 * 30 div 100 \<le> m"
    "0 \<le> a div 100 - a div 100 * 30 div 100 - a div 100 * 30 div 100"
    "a div 100 - a div 100 * 30 div 100 - a div 100 * 30 div 100 \<le> m"
proof -
  define t where "t = a div 100"
  have t: "0 \<le> t" "t \<le> m" using assms unfolding t_def by arith+
  define q where "q = t * 30 div 100"
  have q: "0 \<le> q" "q + q \<le> t" using t(1) unfolding q_def by arith+
  show "0 \<le> a div 100" "a div 100 \<le> m" "0 \<le> a div 100 * 30 div 100" "a div 100 * 30 div 100 \<le> m"
    "0 \<le> a div 100 - a div 100 * 30 div 100 - a div 100 * 30 div 100"
    "a div 100 - a div 100 * 30 div 100 - a div 100 * 30 div 100 \<le> m"
    using t q unfolding t_def[symmetric] q_def[symmetric] by linarith+
qed

lemma toExtensionList_fees_Inr:
  assumes "toExtensionList_fees pre splits currency policyId = Inr el"
  obtains fee where "toSchemeFeeAmount pre (toExtensionKey ` role_text ` fst ` set pre) splits currency = Inr fee"
    "\<And>a. fee = Some a \<Longrightarrow> \<exists>xs. el_extension el = Some xs \<and> toSimpleExtension ''scheme_fee_amount'' a \<in> set xs"
proof -
  have k: "set (map (\<lambda>(role, m). toExtensionKey (role_text role)) pre) = toExtensionKey ` role_text ` fst ` set pre"
    by (force simp: image_iff)
  show ?thesis using assms that unfolding toExtensionList_fees_def Let_def k by auto
qed

lemma xof: "get_currency ''XOF'' = Some (currency_profile ''XOF'' ''CFA franc BCEAO'' 0)"
  by code_simp

lemma xof_amounts: "serialize ''400'' 0 HalfUp = Inr 400" "serialize ''1'' 0 HalfUp = Inr 1" "serialize ''2'' 0 HalfUp = Inr 2"
  "deserialize 4 0 = Inr ''4''" "deserialize 1 0 = Inr ''1''" "deserialize 2 0 = Inr ''2''"
  by code_simp+

lemma xof_scale [simp]: "currency_scale (currency_profile ''XOF'' ''CFA franc BCEAO'' 0) = 0"
  by (simp add: currency_profile_def)

lemma demo_mock:
  "mock_calculate c \<lparr>m_currency = ''XOF'', m_amount = ''400''\<rparr> = Inr \<lparr>fr_feePolicy = Some (createDummyFeePolicy ''XOF''),
     fr_feeCurrency = Some ''XOF'', fr_totalFeeAmount = Some ''4'', fr_transactionAmount = Some ''400'', fr_transactionCurrency = Some ''XOF'',
     fr_feeSplits = Some [(''payer_fsp_fee'', \<lparr>fs_amount = Some ''1'', fs_currency = Some ''XOF''\<rparr>),
       (''payee_fsp_fee'', \<lparr>fs_amount = Some ''1'', fs_currency = Some ''XOF''\<rparr>), (''hub_fee'', \<lparr>fs_amount = Some ''2'', fs_currency = Some ''XOF''\<rparr>)]\<rparr>"
  by (simp add: mock_calculate_def createSplit_def xof xof_amounts Let_def)

definition demo_fees :: fees where
  "demo_fees = [(PayerRole, \<lparr>m_currency = ''XOF'', m_amount = ''1''\<rparr>)]"

lemma demo_fee_list: "\<exists>el. toExtensionList_fees demo_fees
   (Some [(''payer_fsp_fee'', \<lparr>fs_amount = Some ''1'', fs_currency = Some ''XOF''\<rparr>),
       (''payee_fsp_fee'', \<lparr>fs_amount = Some ''1'', fs_currency = Some ''XOF''\<rparr>), (''hub_fee'', \<lparr>fs_amount = Some ''2'', fs_currency = Some ''XOF''\<rparr>)])
   (Some ''XOF'') (Some ''0'') = Inr el"
  by (rule exI, code_simp)

section \<open>Properties\<close>

text \<open>
  No fee exceeds the policy.  When the engine answers in strict mode and the calculator named a
  policy, every pre-calculated fee has a split of its role in the same, known currency whose amount is at
  least the fee in minor units.
\<close>

theorem strict_fees_within_policy:
  assumes "fee_execute calc Strict pre scenario amt policyId = Inr el"
  shows "\<exists>r. calc (if policyId > 0 then Inr policyId else Inl scenario) amt = Inr r
     \<and> (fr_feePolicy r \<noteq> None \<longrightarrow> (\<forall>(role, fee)\<in>set pre. \<exists>split a p x y.
          resolveSplit (nullish (fr_feeSplits r) []) role = Some split
          \<and> fs_currency split = Some (m_currency fee) \<and> fs_amount split = Some a
          \<and> get_currency (m_currency fee) = Some p
          \<and> serialize (m_amount fee) (int (currency_scale p)) HalfUp = Inr x
          \<and> serialize a (int (currency_scale p)) HalfUp = Inr y \<and> x \<le> y))"
proof -
  obtain r where r: "calc (if policyId > 0 then Inr policyId else Inl scenario) amt = Inr r" "validate_fees pre r = Inr ()"
    using assms by (auto simp: fee_execute_def)
  have "\<exists>split a p x y.
          resolveSplit (nullish (fr_feeSplits r) []) role = Some split
          \<and> fs_currency split = Some (m_currency fee) \<and> fs_amount split = Some a
          \<and> get_currency (m_currency fee) = Some p
          \<and> serialize (m_amount fee) (int (currency_scale p)) HalfUp = Inr x
          \<and> serialize a (int (currency_scale p)) HalfUp = Inr y \<and> x \<le> y"
    if p: "fr_feePolicy r = Some policy" and m: "(role, fee) \<in> set pre" for policy role fee
  proof -
    have "validate_fee policy (nullish (fr_feeSplits r) []) role fee = Inr ()"
      using r(2) p m by (auto simp: validate_fees_def validate_each_Inr)
    then show ?thesis by (rule validate_fee_Inr) blast
  qed
  then show ?thesis using r(1) by fastforce
qed

theorem strict_fees_within_policy_witness:
  "\<exists>el. fee_execute mock_calculate Strict demo_fees ''p2p'' \<lparr>m_currency = ''XOF'', m_amount = ''400''\<rparr> 0 = Inr el
     \<and> (\<exists>x y. serialize ''1'' 0 HalfUp = Inr x \<and> serialize ''1'' 0 HalfUp = Inr y \<and> x \<le> y)"
proof -
  obtain el where e: "fee_execute mock_calculate Strict demo_fees ''p2p'' \<lparr>m_currency = ''XOF'', m_amount = ''400''\<rparr> 0 = Inr el"
    using demo_fee_list
    by (auto simp: fee_execute_def demo_mock validate_fees_def demo_fees_def validate_fee_def resolveSplit_def resolveScale_def
        xof xof_amounts createDummyFeePolicy_def)
  from strict_fees_within_policy[OF e] e show ?thesis
    by (auto simp: demo_mock demo_fees_def resolveSplit_def xof createDummyFeePolicy_def)
qed

text \<open>
  The scheme fee adds up.  The \<open>scheme_fee_amount\<close> that the engine publishes is the text of the sum,
  in minor units of the fee currency, of the pre-calculated fees and of the calculated splits of the
  roles that have no pre-calculated fee, so that no role is counted twice; it reads rt as that sum.
\<close>

theorem scheme_fee_adds_up:
  assumes "toExtensionList_fees pre splits (Some currency) policyId = Inr el" "get_currency currency = Some p"
    and "keys = toExtensionKey ` role_text ` fst ` set pre"
    and "t = (\<Sum>m\<leftarrow>map snd pre. minor (currency_scale p) (m_amount m))
             + (\<Sum>a\<leftarrow>unclaimed keys (nullish splits []). minor (currency_scale p) a)"
  shows "\<exists>xs v. el_extension el = Some xs \<and> toSimpleExtension ''scheme_fee_amount'' v \<in> set xs
     \<and> deserialize t (int (currency_scale p)) = Inr v
     \<and> (t \<le> UINT64_MAX \<longrightarrow> serialize v (int (currency_scale p)) mode = Inr t)"
proof -
  obtain fee where fee: "toSchemeFeeAmount pre keys splits (Some currency) = Inr fee"
    "\<And>a. fee = Some a \<Longrightarrow> \<exists>xs. el_extension el = Some xs \<and> toSimpleExtension ''scheme_fee_amount'' a \<in> set xs"
    using toExtensionList_fees_Inr[OF assms(1)] assms(3) by metis
  obtain v u1 u2 where v: "fee = Some v" "sum_fees (currency_scale p) (map snd pre) 0 = Inr u1"
    "sum_splits (currency_scale p) keys (nullish splits []) u1 = Inr u2" "deserialize u2 (int (currency_scale p)) = Inr v"
    using fee(1) assms(2) by (auto simp: toSchemeFeeAmount_def)
  have u: "u2 = t" using sum_fees_Inr[OF v(2)] sum_splits_Inr[OF v(3)] assms(4) by simp
  have "0 \<le> t" unfolding assms(4) by (intro add_nonneg_nonneg sum_list_nonneg) (auto simp: minor_nonneg)
  then show ?thesis using fee(2)[OF v(1)] v(4) u serialize_deserialize[of t "int (currency_scale p)" v mode] by auto
qed

theorem scheme_fee_adds_up_witness:
  "\<exists>el xs v. toExtensionList_fees demo_fees (Some [(''hub_fee'', \<lparr>fs_amount = Some ''2'', fs_currency = Some ''XOF''\<rparr>)])
      (Some ''XOF'') None = Inr el \<and> el_extension el = Some xs \<and> toSimpleExtension ''scheme_fee_amount'' v \<in> set xs
      \<and> serialize v 0 HalfUp = Inr 3"
proof -
  let ?splits = "[(''hub_fee'', \<lparr>fs_amount = Some ''2'', fs_currency = Some ''XOF''\<rparr>)]"
  obtain el where e: "toExtensionList_fees demo_fees (Some ?splits) (Some ''XOF'') None = Inr el"
    by (rule that, code_simp)
  have k: "toExtensionKey ` role_text ` fst ` set demo_fees = {''payer_fsp_fee''}" "unclaimed {''payer_fsp_fee''} ?splits = [''2'']"
    by code_simp+
  have m: "minor 0 ''1'' = 1" "minor 0 ''2'' = 2" by (simp_all add: minor_def xof_amounts)
  have t: "sum_list (map ((\<lambda>m. minor 0 (m_amount m)) \<circ> snd) demo_fees) = 1" by (simp add: demo_fees_def m)
  from scheme_fee_adds_up[OF e xof refl refl, of HalfUp] e show ?thesis
    by (auto simp: k m t UINT64_MAX_def)
qed

text \<open>
  The mock calculator charges one percent and splits it exactly.  For a known currency and an amount of
  \<open>a\<close> minor units the engine with \<open>MockFeeCalculator\<close> and no pre-calculated fee answers a scheme fee of
  \<open>a div 100\<close> minor units; the splits of payer, payee and hub add up to it.
\<close>

theorem mock_fee_is_one_percent:
  assumes "get_currency (m_currency amt) = Some p" "serialize (m_amount amt) (int (currency_scale p)) HalfUp = Inr a"
  shows "\<exists>r el v x y z. mock_calculate (if policyId > 0 then Inr policyId else Inl scenario) amt = Inr r
     \<and> fee_execute mock_calculate Strict [] scenario amt policyId = Inr \<lparr>el_extension = Some el\<rparr>
     \<and> toSimpleExtension ''scheme_fee_amount'' v \<in> set el \<and> serialize v (int (currency_scale p)) mode = Inr (a div 100)
     \<and> map (map_option (minor (currency_scale p)) \<circ> fs_amount \<circ> snd) (nullish (fr_feeSplits r) []) = [Some x, Some y, Some z]
     \<and> x + y + z = a div 100"
proof -
  let ?s = "int (currency_scale p)" and ?t = "a div 100"
  let ?q = "?t * 30 div 100"
  have a: "0 \<le> a" "a \<le> UINT64_MAX" using serialize_bounds[OF assms(2)] by auto
  have b: "0 \<le> ?t" "?t \<le> UINT64_MAX" "0 \<le> ?q" "?q \<le> UINT64_MAX" "0 \<le> ?t - ?q - ?q" "?t - ?q - ?q \<le> UINT64_MAX"
    using one_percent[OF a] by simp_all
  obtain tt qt ht where d: "deserialize ?t ?s = Inr tt" "deserialize ?q ?s = Inr qt" "deserialize (?t - ?q - ?q) ?s = Inr ht"
    using deserialize_total b by (metis of_nat_0_le_iff)
  note rt = serialize_deserialize[OF b(1,2) _ d(1)] serialize_deserialize[OF b(3,4) _ d(2)] serialize_deserialize[OF b(5,6) _ d(3)]
  let ?sp = "\<lambda>x. \<lparr>fs_amount = Some x, fs_currency = Some (m_currency amt)\<rparr>"
  let ?splits = "[(''payer_fsp_fee'', ?sp qt), (''payee_fsp_fee'', ?sp qt), (''hub_fee'', ?sp ht)]"
  let ?r = "\<lparr>fr_feePolicy = Some (createDummyFeePolicy (m_currency amt)), fr_feeCurrency = Some (m_currency amt),
                   fr_totalFeeAmount = Some tt, fr_transactionAmount = Some (m_amount amt),
                   fr_transactionCurrency = Some (m_currency amt), fr_feeSplits = Some ?splits\<rparr>"
  have r: "mock_calculate c amt = Inr ?r" for c
    using assms d by (simp add: mock_calculate_def createSplit_def Let_def)
  have m: "minor (currency_scale p) qt = ?q" "minor (currency_scale p) ht = ?t - ?q - ?q" using rt by (simp_all add: minor_def)
  have s: "toSchemeFeeAmount [] {} (Some ?splits) (Some (m_currency amt)) = Inr (Some tt)"
    using assms(1) rt d(1) by (simp add: toSchemeFeeAmount_def)
  have e: "\<exists>el. fee_execute mock_calculate Strict [] scenario amt policyId = Inr \<lparr>el_extension = Some el\<rparr>
      \<and> toSimpleExtension ''scheme_fee_amount'' tt \<in> set el"
    using r s by (simp add: fee_execute_def validate_fees_def toExtensionList_fees_def Let_def)
  show ?thesis using r e rt(1) m by (force simp: o_def)
qed

theorem mock_fee_is_one_percent_witness:
  "\<exists>el v. fee_execute mock_calculate Strict [] ''p2p'' \<lparr>m_currency = ''XOF'', m_amount = ''400''\<rparr> 0 = Inr \<lparr>el_extension = Some el\<rparr>
     \<and> toSimpleExtension ''scheme_fee_amount'' v \<in> set el \<and> serialize v 0 HalfUp = Inr 4"
  using mock_fee_is_one_percent[of "\<lparr>m_currency = ''XOF'', m_amount = ''400''\<rparr>" _ 400 0 "''p2p''" HalfUp] xof xof_amounts
  by auto

end
