(* ===== verification/Keyed_Tables.thy ===== *)
theory Keyed_Tables
  imports Prelude
begin

text \<open>
  Tables as lists of rows.  The locale \<open>keyed_table\<close> states what a table with a key promises to the code that looks
  rows up by the key and changes rows in place; the theories of the single tables interpret it on their statements.
\<close>

lemma find_map: "List.find P (map f xs) = map_option f (List.find (\<lambda>x. P (f x)) xs)"
  by (induction xs) auto

lemma find_append: "List.find P (xs @ ys) = (case List.find P xs of None \<Rightarrow> List.find P ys | Some x \<Rightarrow> Some x)"
  by (induction xs) auto

lemma find_SomeD: "List.find P xs = Some x \<Longrightarrow> x \<in> set xs \<and> P x"
  by (auto simp: find_Some_iff)

locale keyed_table =
  fixes rows :: "'db \<Rightarrow> 'row list" and key :: "'row \<Rightarrow> 'k"
    and upd :: "('row \<Rightarrow> bool) \<Rightarrow> ('row \<Rightarrow> 'row) \<Rightarrow> 'db \<Rightarrow> 'db"
  assumes rows_upd: "rows (upd P f db) = map (\<lambda>r. if P r then f r else r) (rows db)"
begin

lemma key_eq_iff: "distinct (map key (rows db)) \<Longrightarrow> r \<in> set (rows db) \<Longrightarrow> s \<in> set (rows db) \<Longrightarrow> key r = key s \<longleftrightarrow> r = s"
  by (auto simp: distinct_map inj_on_def)

lemma lookup_iff:
  assumes "distinct (map key (rows db))"
  shows "List.find (\<lambda>r. key r = k) (rows db) = Some r \<longleftrightarrow> r \<in> set (rows db) \<and> key r = k"
proof
  assume r: "r \<in> set (rows db) \<and> key r = k"
  then obtain s where s: "List.find (\<lambda>r. key r = k) (rows db) = Some s"
    by (cases "List.find (\<lambda>r. key r = k) (rows db)") (auto simp: find_None_iff)
  then have "s \<in> set (rows db)" "key s = k" by (auto dest: find_SomeD)
  then show "List.find (\<lambda>r. key r = k) (rows db) = Some r"
    using s r key_eq_iff[OF assms, of r s] by simp
qed (auto dest: find_SomeD)

lemma lookup_upd:
  assumes "\<And>r. key (f r) = key r"
  shows "List.find (\<lambda>r. key r = k) (rows (upd P f db)) =
         map_option (\<lambda>r. if P r then f r else r) (List.find (\<lambda>r. key r = k) (rows db))"
proof -
  have "(\<lambda>r. key (if P r then f r else r) = k) = (\<lambda>r. key r = k)" using assms by auto
  then show ?thesis by (simp add: rows_upd find_map)
qed

end

end
