(* ===== verification/Auth_Data.thy ===== *)
theory Auth_Data
  imports Keyed_Tables
begin

text \<open>
  The data of the portal's identity domain (\<open>core/auth/domain\<close>): the entities of \<open>model\<close>, the tables
  they live in, the repositories, and the two error catalogues.

  The MySQL database is a record of tables, a table a list of rows.  The statements of the repositories
  are operations on these lists; the unique and foreign keys of the migrations in \<open>sql\<close> make an insert
  fail.  What MySQL does with values is a parameter: \<open>collate\<close> gives the weight of a text under the
  column collation (two texts are equal for a query when their weights are), \<open>canon\<close> the decimal text of
  the \<open>BIGINT\<close> a query argument is read as, \<open>stored\<close> what a \<open>DATETIME\<close> column keeps of an instant, and
  \<open>like\<close> the \<open>LIKE\<close> operator.  An instant is a number of milliseconds.  The columns \<open>updated_at\<close> and
  \<open>granted_at\<close> are left out: nothing reads them.  The read and the write connection reach the same tables.
\<close>

section \<open>Entities\<close>

datatype scope = HUB | DFSP | BOTH

definition ROLE_SCOPES :: "scope list" where "ROLE_SCOPES = [HUB, DFSP]"
definition PERMISSION_SCOPES :: "scope list" where "PERMISSION_SCOPES = [HUB, DFSP, BOTH]"

definition ADMIN_ROLE_CODE :: string where "ADMIN_ROLE_CODE = ''ADMIN''"
definition DFSP_ADMIN_ROLE_CODE :: string where "DFSP_ADMIN_ROLE_CODE = ''DFSP_ADMIN''"
definition DFSP_USER_ROLE_CODE :: string where "DFSP_USER_ROLE_CODE = ''DFSP_USER''"

definition SYSTEM_ROLE_CODES :: "string list" where
  "SYSTEM_ROLE_CODES = [ADMIN_ROLE_CODE, DFSP_ADMIN_ROLE_CODE, DFSP_USER_ROLE_CODE]"

definition ADMIN_USERS_MANAGE :: string where "ADMIN_USERS_MANAGE = ''admin.users.manage''"
definition ADMIN_DFSP_USERS_MANAGE :: string where "ADMIN_DFSP_USERS_MANAGE = ''admin.dfsp-users.manage''"

definition ALL_PERMISSION_KEYS :: "string list" where
  "ALL_PERMISSION_KEYS =
     [''hub.currency.add'', ''hub.signing-keys.update'', ''participant.list'', ''participant.onboard'',
      ''participant.currency.add'', ''participant.endpoint.register'', ''participant.signing-keys.update'',
      ''participant.access-key.update'', ''participant.certificate.enroll'', ''participant.certificate.view'',
      ''participant.certificate.revoke'', ''audit.transactions.list'', ''audit.transactions.view'',
      ''audit.dashboard.view'', ADMIN_USERS_MANAGE, ADMIN_DFSP_USERS_MANAGE, ''admin.roles.manage'',
      ''admin.permissions.list'']"

record user =
  u_id :: string
  u_email :: string
  u_passwordHash :: string
  u_fspId :: "string option"
  u_roleId :: string
  u_mustChangePassword :: bool
  u_isActive :: bool
  u_failedLoginAttempts :: int
  u_lockedUntil :: "int option"
  u_tokensInvalidatedAt :: "int option"
  u_lastLoginAt :: "int option"
  u_createdAt :: int

definition new_user :: "string \<Rightarrow> string \<Rightarrow> string \<Rightarrow> string option \<Rightarrow> bool \<Rightarrow> string \<Rightarrow> int \<Rightarrow> user" where
  "new_user mail passwordHash roleId fspId mustChange ident createdAt =
     \<lparr>u_id = ident, u_email = mail, u_passwordHash = passwordHash, u_fspId = fspId, u_roleId = roleId,
      u_mustChangePassword = mustChange, u_isActive = True, u_failedLoginAttempts = 0, u_lockedUntil = None,
      u_tokensInvalidatedAt = None, u_lastLoginAt = None, u_createdAt = createdAt\<rparr>"

record role =
  r_id :: string
  r_code :: string
  r_name :: string
  r_description :: "string option"
  r_scope :: scope
  r_isSystem :: bool
  r_createdAt :: int

record permission =
  p_id :: string
  p_keyName :: string
  p_description :: "string option"
  p_scope :: scope

record role_permission =
  rp_roleId :: string
  rp_permissionId :: string

record refresh_token =
  t_id :: string
  t_userId :: string
  t_familyId :: string
  t_tokenHash :: string
  t_expiresAt :: int
  t_sessionExpiresAt :: "int option"
  t_revokedAt :: "int option"
  t_replacedBy :: "string option"

definition new_refresh_token :: "string \<Rightarrow> string \<Rightarrow> string \<Rightarrow> int \<Rightarrow> int option \<Rightarrow> string \<Rightarrow> refresh_token" where
  "new_refresh_token userId familyId tokenHash expiresAt sessionExpiresAt ident =
     \<lparr>t_id = ident, t_userId = userId, t_familyId = familyId, t_tokenHash = tokenHash, t_expiresAt = expiresAt,
      t_sessionExpiresAt = sessionExpiresAt, t_revokedAt = None, t_replacedBy = None\<rparr>"

record auth_db =
  users :: "user list"
  roles :: "role list"
  permissions :: "permission list"
  role_permissions :: "role_permission list"
  tokens :: "refresh_token list"

section \<open>Surroundings\<close>

text \<open>What is fixed while the service runs: the behaviour of MySQL on values, of bcrypt, SHA-256 and the JWT
  library, and the settings of \<open>auth-domain-settings.ts\<close>.  What differs from one command to the next is the
  record \<open>auth_world\<close>: the successive readings of the clock, the successive Snowflake identifiers, the random
  bytes and integers, and bcrypt's salted hash.\<close>

record access_claims =
  c_sub :: string
  c_role :: string
  c_fspId :: "string option"
  c_permissions :: "string list"
  c_mustChangePassword :: bool
  c_iat :: int
  c_exp :: int
  c_jti :: string

record auth_env =
  collate :: "string \<Rightarrow> string"
  canon :: "string \<Rightarrow> string"
  stored :: "int \<Rightarrow> int"
  like :: "string \<Rightarrow> string \<Rightarrow> bool"
  bcrypt_compare :: "string \<Rightarrow> string \<Rightarrow> bool"
  sha256_hex :: "string \<Rightarrow> string"
  jwt_sign :: "access_claims \<Rightarrow> string \<Rightarrow> string"
  jwt_verify :: "string \<Rightarrow> string \<Rightarrow> string \<Rightarrow> access_claims option"
  jwtSecret :: string
  jwtIssuer :: string
  accessTokenTtlSeconds :: int
  sessionIdleTimeoutMinutes :: int
  sessionAbsoluteTimeoutHours :: int
  bcryptCostFactor :: int
  loginLockoutThreshold :: int
  loginLockoutDurationMinutes :: int
  adminSeedEmail :: string
  adminSeedTempPassword :: string

record auth_world =
  clock :: "nat \<Rightarrow> int"
  fresh_id :: "nat \<Rightarrow> string"
  random_token :: string
  random_int :: "nat \<Rightarrow> nat \<Rightarrow> nat"
  bcrypt_hash :: "string \<Rightarrow> int \<Rightarrow> string"
  db_now :: int

section \<open>Errors\<close>

datatype http_class = Unauthorized | BadRequest | Forbidden | NotFound | Conflict

datatype auth_failure =
    HttpException http_class string string "string option"
  | PlainError string
  | TypeError
  | QueryFailed

definition INVALID_CREDENTIALS :: string where "INVALID_CREDENTIALS = ''AUTH_INVALID_CREDENTIALS''"
definition ACCOUNT_LOCKED :: string where "ACCOUNT_LOCKED = ''AUTH_ACCOUNT_LOCKED''"
definition INVALID_REFRESH_TOKEN :: string where "INVALID_REFRESH_TOKEN = ''AUTH_INVALID_REFRESH_TOKEN''"
definition SESSION_EXPIRED :: string where "SESSION_EXPIRED = ''AUTH_SESSION_EXPIRED''"
definition REFRESH_TOKEN_REUSE :: string where "REFRESH_TOKEN_REUSE = ''AUTH_REFRESH_TOKEN_REUSE_DETECTED''"
definition PASSWORD_SAME_AS_CURRENT :: string where "PASSWORD_SAME_AS_CURRENT = ''AUTH_PASSWORD_SAME_AS_CURRENT''"
definition UNKNOWN_ROLE :: string where "UNKNOWN_ROLE = ''AUTH_UNKNOWN_ROLE''"
definition TOKEN_REVOKED :: string where "TOKEN_REVOKED = ''AUTH_TOKEN_REVOKED''"
definition USER_INACTIVE :: string where "USER_INACTIVE = ''AUTH_USER_INACTIVE''"

definition AUTH_ERROR_MESSAGES :: "(string \<times> string) list" where
  "AUTH_ERROR_MESSAGES =
    [(INVALID_CREDENTIALS, ''Email or password is incorrect.''),
     (ACCOUNT_LOCKED, ''Your account is temporarily locked due to multiple failed sign-in attempts. Please try again later.''),
     (INVALID_REFRESH_TOKEN, ''Invalid or expired refresh token.''),
     (SESSION_EXPIRED, ''Your session has expired. Please sign in again.''),
     (REFRESH_TOKEN_REUSE, ''Invalid or expired refresh token.''),
     (PASSWORD_SAME_AS_CURRENT, ''New password must differ from the current password.''),
     (UNKNOWN_ROLE, ''Invalid email or password.''),
     (TOKEN_REVOKED, ''Session has been revoked. Please sign in again.''),
     (USER_INACTIVE, ''Your account is inactive or has been deactivated. Please contact your administrator.'')]"

definition authError :: "http_class \<Rightarrow> string \<Rightarrow> auth_failure" where
  "authError cls code = (case map_of AUTH_ERROR_MESSAGES code of
     None \<Rightarrow> PlainError (''Unknown auth error code: '' @ code)
   | Some message \<Rightarrow> HttpException cls code message None)"

definition USER_EMAIL_TAKEN :: string where "USER_EMAIL_TAKEN = ''ADMIN_USER_EMAIL_TAKEN''"
definition USER_DFSP_REQUIRES_FSP_ID :: string where "USER_DFSP_REQUIRES_FSP_ID = ''ADMIN_USER_DFSP_REQUIRES_FSP_ID''"
definition USER_ADMIN_FORBIDS_FSP_ID :: string where "USER_ADMIN_FORBIDS_FSP_ID = ''ADMIN_USER_ADMIN_FORBIDS_FSP_ID''"
definition USER_SELF_LOCK :: string where "USER_SELF_LOCK = ''ADMIN_USER_SELF_LOCK''"
definition USER_LAST_ADMIN :: string where "USER_LAST_ADMIN = ''ADMIN_USER_LAST_ADMIN''"
definition USER_LAST_DFSP_ADMIN :: string where "USER_LAST_DFSP_ADMIN = ''ADMIN_USER_LAST_DFSP_ADMIN''"
definition USER_MANAGEMENT_SCOPE_DENIED :: string where "USER_MANAGEMENT_SCOPE_DENIED = ''ADMIN_USER_MANAGEMENT_SCOPE_DENIED''"
definition USER_ROLE_NOT_ASSIGNABLE :: string where "USER_ROLE_NOT_ASSIGNABLE = ''ADMIN_USER_ROLE_NOT_ASSIGNABLE''"
definition USER_NOT_FOUND :: string where "USER_NOT_FOUND = ''ADMIN_USER_NOT_FOUND''"
definition USER_ROLE_NOT_FOUND :: string where "USER_ROLE_NOT_FOUND = ''ADMIN_USER_ROLE_NOT_FOUND''"
definition USER_FSP_ID_NOT_FOUND :: string where "USER_FSP_ID_NOT_FOUND = ''ADMIN_USER_FSP_ID_NOT_FOUND''"
definition ROLE_NOT_FOUND :: string where "ROLE_NOT_FOUND = ''ADMIN_ROLE_NOT_FOUND''"
definition ROLE_CODE_REQUIRED :: string where "ROLE_CODE_REQUIRED = ''ADMIN_ROLE_CODE_REQUIRED''"
definition ROLE_CODE_TAKEN :: string where "ROLE_CODE_TAKEN = ''ADMIN_ROLE_CODE_TAKEN''"
definition ROLE_NAME_REQUIRED :: string where "ROLE_NAME_REQUIRED = ''ADMIN_ROLE_NAME_REQUIRED''"
definition ROLE_NAME_TAKEN :: string where "ROLE_NAME_TAKEN = ''ADMIN_ROLE_NAME_TAKEN''"
definition ROLE_IMMUTABLE_FIELD :: string where "ROLE_IMMUTABLE_FIELD = ''ADMIN_ROLE_IMMUTABLE_FIELD''"
definition ROLE_IS_SYSTEM :: string where "ROLE_IS_SYSTEM = ''ADMIN_ROLE_IS_SYSTEM''"
definition ROLE_IN_USE :: string where "ROLE_IN_USE = ''ADMIN_ROLE_IN_USE''"
definition ROLE_CANNOT_REMOVE_ADMIN_KEY :: string where "ROLE_CANNOT_REMOVE_ADMIN_KEY = ''ADMIN_ROLE_CANNOT_REMOVE_ADMIN_KEY''"
definition ROLE_PERMISSION_SCOPE_MISMATCH :: string where "ROLE_PERMISSION_SCOPE_MISMATCH = ''ADMIN_ROLE_PERMISSION_SCOPE_MISMATCH''"
definition PERMISSION_NOT_FOUND :: string where "PERMISSION_NOT_FOUND = ''ADMIN_PERMISSION_NOT_FOUND''"

definition ADMIN_ERROR_MESSAGES :: "(string \<times> string) list" where
  "ADMIN_ERROR_MESSAGES =
    [(USER_EMAIL_TAKEN, ''A user with that email already exists.''),
     (USER_DFSP_REQUIRES_FSP_ID, ''A DFSP-scoped role requires fspId.''),
     (USER_ADMIN_FORBIDS_FSP_ID, ''A HUB-scoped role does not accept fspId.''),
     (USER_SELF_LOCK, ''You cannot change your own role or active status, or delete your own account.''),
     (USER_LAST_ADMIN, ''This change would leave no active users able to manage other users.''),
     (USER_LAST_DFSP_ADMIN, ''This change would leave this FSP with no active DFSP administrator.''),
     (USER_MANAGEMENT_SCOPE_DENIED, ''You cannot manage that user.''),
     (USER_ROLE_NOT_ASSIGNABLE, ''You cannot assign that role.''),
     (USER_NOT_FOUND, ''User not found.''),
     (USER_ROLE_NOT_FOUND, ''The specified role does not exist.''),
     (USER_FSP_ID_NOT_FOUND, ''The specified FSP ID does not exist.''),
     (ROLE_NOT_FOUND, ''Role not found.''),
     (ROLE_CODE_REQUIRED, ''Role Code is required.''),
     (ROLE_CODE_TAKEN, ''A role with that code already exists.''),
     (ROLE_NAME_REQUIRED, ''Display Name is required.''),
     (ROLE_NAME_TAKEN, ''Role name already exists. Please use a different role name.''),
     (ROLE_IMMUTABLE_FIELD, ''The code and isSystem fields cannot be changed after the role is created.''),
     (ROLE_IS_SYSTEM, ''System roles cannot be deleted.''),
     (ROLE_IN_USE, ''This role is assigned to one or more users and cannot be deleted.''),
     (ROLE_CANNOT_REMOVE_ADMIN_KEY, ''System roles must retain their admin.* permissions.''),
     (ROLE_PERMISSION_SCOPE_MISMATCH, ''One or more permissions cannot be assigned to a role with that scope.''),
     (PERMISSION_NOT_FOUND, ''One or more of the requested permission keys does not exist.'')]"

definition adminError :: "http_class \<Rightarrow> string \<Rightarrow> auth_failure" where
  "adminError cls code = (case map_of ADMIN_ERROR_MESSAGES code of
     None \<Rightarrow> PlainError (''Unknown admin error code: '' @ code)
   | Some message \<Rightarrow> HttpException cls code message None)"

section \<open>Repositories\<close>

subsection \<open>Users\<close>

definition findUserById :: "auth_env \<Rightarrow> string \<Rightarrow> auth_db \<Rightarrow> user option" where
  "findUserById e ident db = List.find (\<lambda>u. u_id u = canon e ident) (users db)"

definition findByEmail :: "auth_env \<Rightarrow> string \<Rightarrow> auth_db \<Rightarrow> user option" where
  "findByEmail e mail db = List.find (\<lambda>u. collate e (u_email u) = collate e mail) (users db)"

text \<open>An insert fails when it would break a key of the table or refers to a row that is not there.\<close>

definition insert_user :: "auth_env \<Rightarrow> user \<Rightarrow> auth_db \<Rightarrow> (auth_failure, auth_db) result" where
  "insert_user e u db =
     (if (\<exists>v\<in>set (users db). u_id v = u_id u \<or> collate e (u_email v) = collate e (u_email u))
         \<or> u_roleId u \<notin> r_id ` set (roles db)
      then Inl QueryFailed else Inr (db\<lparr>users := users db @ [u]\<rparr>))"

definition update_users :: "(user \<Rightarrow> bool) \<Rightarrow> (user \<Rightarrow> user) \<Rightarrow> auth_db \<Rightarrow> auth_db" where
  "update_users P f db = db\<lparr>users := map (\<lambda>u. if P u then f u else u) (users db)\<rparr>"

record user_list_filters =
  f_page :: int
  f_pageSize :: int
  f_roleId :: "string option"
  f_fspId :: "string option"
  f_isActive :: "bool option"
  f_search :: "string option"
  f_managementFspId :: "string option"

definition same_text :: "auth_env \<Rightarrow> string option \<Rightarrow> string \<Rightarrow> bool" where
  "same_text e col x = (case col of None \<Rightarrow> False | Some c \<Rightarrow> collate e c = collate e x)"

definition user_matches :: "auth_env \<Rightarrow> user_list_filters \<Rightarrow> user \<Rightarrow> bool" where
  "user_matches e f u =
     ((case f_managementFspId f of None \<Rightarrow> True | Some x \<Rightarrow> same_text e (u_fspId u) x) \<and>
      (case f_roleId f of None \<Rightarrow> True | Some x \<Rightarrow> u_roleId u = canon e x) \<and>
      (case f_fspId f of None \<Rightarrow> True | Some x \<Rightarrow> same_text e (u_fspId u) x) \<and>
      (case f_isActive f of None \<Rightarrow> True | Some b \<Rightarrow> u_isActive u = b) \<and>
      (case f_search f of None \<Rightarrow> True
       | Some s \<Rightarrow> if trim s = [] then True
           else let pat = ''%'' @ trim s @ ''%''
                in like e (u_email u) pat \<or> (case u_fspId u of None \<Rightarrow> False | Some x \<Rightarrow> like e x pat)))"

definition findAllUsers :: "auth_env \<Rightarrow> user_list_filters \<Rightarrow> auth_db \<Rightarrow> user list \<times> nat" where
  "findAllUsers e f db =
     (let rows = filter (user_matches e f) (users db)
      in (take (nat (f_pageSize f)) (drop (nat ((f_page f - 1) * f_pageSize f)) (sort_key (\<lambda>u. - u_createdAt u) rows)),
          length rows))"

definition countUsers :: "auth_db \<Rightarrow> nat" where
  "countUsers db = length (users db)"

definition countByRoleId :: "auth_env \<Rightarrow> string \<Rightarrow> auth_db \<Rightarrow> nat" where
  "countByRoleId e roleId db = length (filter (\<lambda>u. u_roleId u = canon e roleId) (users db))"

definition grants_key :: "auth_env \<Rightarrow> string \<Rightarrow> auth_db \<Rightarrow> string \<Rightarrow> bool" where
  "grants_key e roleId db key =
     (\<exists>rp\<in>set (role_permissions db). rp_roleId rp = roleId \<and>
        (\<exists>p\<in>set (permissions db). p_id p = rp_permissionId rp \<and> collate e (p_keyName p) = collate e key))"

definition countActiveUsersGrantingPermission :: "auth_env \<Rightarrow> string \<Rightarrow> string \<Rightarrow> auth_db \<Rightarrow> nat" where
  "countActiveUsersGrantingPermission e key excludeUserId db =
     length (filter (\<lambda>u. u_isActive u \<and> grants_key e (u_roleId u) db key \<and> u_id u \<noteq> canon e excludeUserId) (users db))"

definition countActiveUsersByRoleIdForFsp :: "auth_env \<Rightarrow> string \<Rightarrow> string \<Rightarrow> string \<Rightarrow> auth_db \<Rightarrow> nat" where
  "countActiveUsersByRoleIdForFsp e roleId fspId excludeUserId db =
     length (filter (\<lambda>u. u_isActive u \<and> u_roleId u = canon e roleId \<and> same_text e (u_fspId u) fspId
                         \<and> u_id u \<noteq> canon e excludeUserId) (users db))"

definition incrementFailedAttempts :: "auth_env \<Rightarrow> string \<Rightarrow> auth_db \<Rightarrow> auth_db" where
  "incrementFailedAttempts e ident =
     update_users (\<lambda>u. u_id u = canon e ident) (\<lambda>u. u\<lparr>u_failedLoginAttempts := u_failedLoginAttempts u + 1\<rparr>)"

definition lockUntil :: "auth_env \<Rightarrow> string \<Rightarrow> int \<Rightarrow> auth_db \<Rightarrow> auth_db" where
  "lockUntil e ident until = update_users (\<lambda>u. u_id u = canon e ident) (\<lambda>u. u\<lparr>u_lockedUntil := Some (stored e until)\<rparr>)"

definition recordSuccessfulLogin :: "auth_env \<Rightarrow> string \<Rightarrow> int \<Rightarrow> auth_db \<Rightarrow> auth_db" where
  "recordSuccessfulLogin e ident now = update_users (\<lambda>u. u_id u = canon e ident)
     (\<lambda>u. u\<lparr>u_lastLoginAt := Some (stored e now), u_failedLoginAttempts := 0, u_lockedUntil := None\<rparr>)"

definition updatePasswordHash :: "auth_env \<Rightarrow> string \<Rightarrow> string \<Rightarrow> bool \<Rightarrow> auth_db \<Rightarrow> auth_db" where
  "updatePasswordHash e ident h must = update_users (\<lambda>u. u_id u = canon e ident)
     (\<lambda>u. u\<lparr>u_passwordHash := h, u_mustChangePassword := must\<rparr>)"

record user_update =
  up_roleId :: "string option"
  up_fspId :: "string option option"
  up_isActive :: "bool option"

definition apply_user_update :: "user_update \<Rightarrow> user \<Rightarrow> user" where
  "apply_user_update patch u = u\<lparr>u_roleId := nullish (up_roleId patch) (u_roleId u),
     u_fspId := nullish (up_fspId patch) (u_fspId u), u_isActive := nullish (up_isActive patch) (u_isActive u)\<rparr>"

definition updateUser :: "auth_env \<Rightarrow> string \<Rightarrow> user_update \<Rightarrow> auth_db \<Rightarrow> auth_db" where
  "updateUser e ident patch = update_users (\<lambda>u. u_id u = canon e ident) (apply_user_update patch)"

definition deactivate :: "auth_env \<Rightarrow> string \<Rightarrow> auth_db \<Rightarrow> auth_db" where
  "deactivate e ident = update_users (\<lambda>u. u_id u = canon e ident) (\<lambda>u. u\<lparr>u_isActive := False\<rparr>)"

definition invalidateTokens :: "auth_env \<Rightarrow> string \<Rightarrow> int \<Rightarrow> auth_db \<Rightarrow> auth_db" where
  "invalidateTokens e ident now = update_users (\<lambda>u. u_id u = canon e ident)
     (\<lambda>u. u\<lparr>u_tokensInvalidatedAt := Some (stored e now)\<rparr>)"

definition invalidateTokensForRole :: "auth_env \<Rightarrow> string \<Rightarrow> int \<Rightarrow> auth_db \<Rightarrow> auth_db" where
  "invalidateTokensForRole e roleId now = update_users (\<lambda>u. u_roleId u = canon e roleId)
     (\<lambda>u. u\<lparr>u_tokensInvalidatedAt := Some (stored e now)\<rparr>)"

subsection \<open>Roles and permissions\<close>

definition findRoleById :: "auth_env \<Rightarrow> string \<Rightarrow> auth_db \<Rightarrow> role option" where
  "findRoleById e ident db = List.find (\<lambda>r. r_id r = canon e ident) (roles db)"

definition findRoleByCode :: "auth_env \<Rightarrow> string \<Rightarrow> auth_db \<Rightarrow> role option" where
  "findRoleByCode e code db = List.find (\<lambda>r. collate e (r_code r) = collate e code) (roles db)"

definition findRoleByName :: "auth_env \<Rightarrow> string \<Rightarrow> auth_db \<Rightarrow> role option" where
  "findRoleByName e nm db = List.find (\<lambda>r. collate e (r_name r) = collate e nm) (roles db)"

definition findAllRoles :: "auth_db \<Rightarrow> role list" where
  "findAllRoles db = sort_key r_createdAt (roles db)"

definition insert_role :: "auth_env \<Rightarrow> role \<Rightarrow> auth_db \<Rightarrow> (auth_failure, auth_db) result" where
  "insert_role e r db =
     (if \<exists>s\<in>set (roles db). r_id s = r_id r \<or> collate e (r_code s) = collate e (r_code r)
      then Inl QueryFailed else Inr (db\<lparr>roles := roles db @ [r]\<rparr>))"

record role_update =
  ru_name :: "string option"
  ru_description :: "string option option"

definition updateRole :: "auth_env \<Rightarrow> string \<Rightarrow> role_update \<Rightarrow> auth_db \<Rightarrow> auth_db" where
  "updateRole e ident patch db = db\<lparr>roles := map (\<lambda>r. if r_id r = canon e ident
     then r\<lparr>r_name := nullish (ru_name patch) (r_name r), r_description := nullish (ru_description patch) (r_description r)\<rparr>
     else r) (roles db)\<rparr>"

text \<open>Deleting a role fails while a user refers to it and removes its permission links.\<close>

definition delete_role_row :: "auth_env \<Rightarrow> string \<Rightarrow> auth_db \<Rightarrow> (auth_failure, auth_db) result" where
  "delete_role_row e ident db =
     (if \<exists>u\<in>set (users db). u_roleId u = canon e ident then Inl QueryFailed
      else Inr (db\<lparr>roles := filter (\<lambda>r. r_id r \<noteq> canon e ident) (roles db),
                   role_permissions := filter (\<lambda>rp. rp_roleId rp \<noteq> canon e ident) (role_permissions db)\<rparr>))"

definition findByKeyName :: "auth_env \<Rightarrow> string \<Rightarrow> auth_db \<Rightarrow> permission option" where
  "findByKeyName e key db = List.find (\<lambda>p. collate e (p_keyName p) = collate e key) (permissions db)"

definition findByKeyNames :: "auth_env \<Rightarrow> string list \<Rightarrow> auth_db \<Rightarrow> permission list" where
  "findByKeyNames e keys db =
     filter (\<lambda>p. \<exists>k\<in>set keys. collate e (p_keyName p) = collate e k) (permissions db)"

definition insert_permission :: "auth_env \<Rightarrow> permission \<Rightarrow> auth_db \<Rightarrow> (auth_failure, auth_db) result" where
  "insert_permission e p db =
     (if \<exists>q\<in>set (permissions db). p_id q = p_id p \<or> collate e (p_keyName q) = collate e (p_keyName p)
      then Inl QueryFailed else Inr (db\<lparr>permissions := permissions db @ [p]\<rparr>))"

definition insert_role_permission :: "role_permission \<Rightarrow> auth_db \<Rightarrow> (auth_failure, auth_db) result" where
  "insert_role_permission rp db =
     (if rp \<in> set (role_permissions db) \<or> rp_roleId rp \<notin> r_id ` set (roles db)
         \<or> rp_permissionId rp \<notin> p_id ` set (permissions db)
      then Inl QueryFailed else Inr (db\<lparr>role_permissions := role_permissions db @ [rp]\<rparr>))"

definition findPermissionKeysByRoleId :: "auth_env \<Rightarrow> string \<Rightarrow> auth_db \<Rightarrow> string list" where
  "findPermissionKeysByRoleId e roleId db =
     concat (map (\<lambda>rp. map p_keyName (filter (\<lambda>p. p_id p = rp_permissionId rp) (permissions db)))
       (filter (\<lambda>rp. rp_roleId rp = canon e roleId) (role_permissions db)))"

definition countRolePermissions :: "auth_env \<Rightarrow> string \<Rightarrow> auth_db \<Rightarrow> nat" where
  "countRolePermissions e roleId db = length (filter (\<lambda>rp. rp_roleId rp = canon e roleId) (role_permissions db))"

fun insert_links :: "role_permission list \<Rightarrow> auth_db \<Rightarrow> (auth_failure, auth_db) result" where
  "insert_links [] db = Inr db"
| "insert_links (rp # rps) db = res_bind (insert_role_permission rp db) (insert_links rps)"

text \<open>The transaction of \<open>replaceForRole\<close>: when the insert fails, the deletion is rolled back.\<close>

definition replaceForRole :: "auth_env \<Rightarrow> string \<Rightarrow> string list \<Rightarrow> auth_db \<Rightarrow> (auth_failure, auth_db) result" where
  "replaceForRole e roleId permissionIds db =
     (let db1 = db\<lparr>role_permissions := filter (\<lambda>rp. rp_roleId rp \<noteq> canon e roleId) (role_permissions db)\<rparr>
      in insert_links (map (\<lambda>pid. \<lparr>rp_roleId = roleId, rp_permissionId = pid\<rparr>) permissionIds) db1)"

subsection \<open>Refresh tokens\<close>

definition insert_token :: "auth_env \<Rightarrow> refresh_token \<Rightarrow> auth_db \<Rightarrow> (auth_failure, auth_db) result" where
  "insert_token e t db =
     (if (\<exists>s\<in>set (tokens db). t_id s = t_id t \<or> collate e (t_tokenHash s) = collate e (t_tokenHash t))
         \<or> t_userId t \<notin> u_id ` set (users db)
      then Inl QueryFailed
      else Inr (db\<lparr>tokens := tokens db @ [t\<lparr>t_expiresAt := stored e (t_expiresAt t)\<rparr>]\<rparr>))"

definition findByTokenHash :: "auth_env \<Rightarrow> string \<Rightarrow> auth_db \<Rightarrow> refresh_token option" where
  "findByTokenHash e h db = List.find (\<lambda>t. collate e (t_tokenHash t) = collate e h) (tokens db)"

definition findByFamilyId :: "auth_env \<Rightarrow> string \<Rightarrow> auth_db \<Rightarrow> refresh_token list" where
  "findByFamilyId e fam db = filter (\<lambda>t. t_familyId t = canon e fam) (tokens db)"

definition findActiveByUserId :: "auth_env \<Rightarrow> string \<Rightarrow> auth_db \<Rightarrow> refresh_token list" where
  "findActiveByUserId e userId db = filter (\<lambda>t. t_userId t = canon e userId \<and> t_revokedAt t = None) (tokens db)"

definition update_tokens :: "(refresh_token \<Rightarrow> bool) \<Rightarrow> (refresh_token \<Rightarrow> refresh_token) \<Rightarrow> auth_db \<Rightarrow> auth_db" where
  "update_tokens P f db = db\<lparr>tokens := map (\<lambda>t. if P t then f t else t) (tokens db)\<rparr>"

definition markRevoked :: "auth_env \<Rightarrow> string \<Rightarrow> string option \<Rightarrow> int \<Rightarrow> auth_db \<Rightarrow> auth_db" where
  "markRevoked e ident replacedBy now = update_tokens (\<lambda>t. t_id t = canon e ident)
     (\<lambda>t. t\<lparr>t_revokedAt := Some (stored e now), t_replacedBy := replacedBy\<rparr>)"

definition revokeFamily :: "auth_env \<Rightarrow> string \<Rightarrow> int \<Rightarrow> auth_db \<Rightarrow> auth_db" where
  "revokeFamily e fam now = update_tokens (\<lambda>t. t_familyId t = canon e fam \<and> t_revokedAt t = None)
     (\<lambda>t. t\<lparr>t_revokedAt := Some (stored e now)\<rparr>)"

definition revokeAllForUser :: "auth_env \<Rightarrow> string \<Rightarrow> int \<Rightarrow> auth_db \<Rightarrow> auth_db" where
  "revokeAllForUser e userId now = update_tokens (\<lambda>t. t_userId t = canon e userId \<and> t_revokedAt t = None)
     (\<lambda>t. t\<lparr>t_revokedAt := Some (stored e now)\<rparr>)"

section \<open>Well-formed databases\<close>

text \<open>
  What the keys of the migrations promise of every table, and what the commands add to it: the tokens of one
  family belong to one user and share one session deadline, at most one of them is not revoked, and a deadline
  bounds the life of its token.
\<close>

definition users_ok :: "auth_env \<Rightarrow> auth_db \<Rightarrow> bool" where
  "users_ok e db \<longleftrightarrow> distinct (map u_id (users db)) \<and> distinct (map (\<lambda>u. collate e (u_email u)) (users db)) \<and>
     (\<forall>u\<in>set (users db). canon e (u_id u) = u_id u \<and> u_roleId u \<in> r_id ` set (roles db))"

definition roles_ok :: "auth_env \<Rightarrow> auth_db \<Rightarrow> bool" where
  "roles_ok e db \<longleftrightarrow> distinct (map r_id (roles db)) \<and> distinct (map (\<lambda>r. collate e (r_code r)) (roles db)) \<and>
     (\<forall>r\<in>set (roles db). canon e (r_id r) = r_id r)"

definition permissions_ok :: "auth_env \<Rightarrow> auth_db \<Rightarrow> bool" where
  "permissions_ok e db \<longleftrightarrow> distinct (map p_id (permissions db)) \<and>
     distinct (map (\<lambda>p. collate e (p_keyName p)) (permissions db))"

definition links_ok :: "auth_db \<Rightarrow> bool" where
  "links_ok db \<longleftrightarrow> distinct (role_permissions db) \<and>
     (\<forall>rp\<in>set (role_permissions db). rp_roleId rp \<in> r_id ` set (roles db) \<and> rp_permissionId rp \<in> p_id ` set (permissions db))"

definition family_ok :: "refresh_token \<Rightarrow> refresh_token \<Rightarrow> bool" where
  "family_ok s t \<longleftrightarrow> (t_familyId s = t_familyId t \<longrightarrow>
     t_userId s = t_userId t \<and> t_sessionExpiresAt s = t_sessionExpiresAt t \<and>
     (t_revokedAt s = None \<and> t_revokedAt t = None \<longrightarrow> t_id s = t_id t))"

definition tokens_ok :: "auth_env \<Rightarrow> auth_db \<Rightarrow> bool" where
  "tokens_ok e db \<longleftrightarrow> distinct (map t_id (tokens db)) \<and> distinct (map (\<lambda>t. collate e (t_tokenHash t)) (tokens db)) \<and>
     (\<forall>t\<in>set (tokens db). canon e (t_id t) = t_id t \<and> canon e (t_familyId t) = t_familyId t \<and> t_userId t \<in> u_id ` set (users db)) \<and>
     (\<forall>s\<in>set (tokens db). \<forall>t\<in>set (tokens db). family_ok s t)"

definition db_ok :: "auth_env \<Rightarrow> auth_db \<Rightarrow> bool" where
  "db_ok e db \<longleftrightarrow> users_ok e db \<and> roles_ok e db \<and> permissions_ok e db \<and> links_ok db \<and> tokens_ok e db"

text \<open>A Snowflake identifier is the decimal text of a \<open>BIGINT\<close>, so reading it back changes nothing.\<close>

definition world_ok :: "auth_env \<Rightarrow> auth_world \<Rightarrow> bool" where
  "world_ok e w \<longleftrightarrow> (\<forall>i. canon e (fresh_id w i) = fresh_id w i)"

definition db_empty :: auth_db where
  "db_empty = \<lparr>users = [], roles = [], permissions = [], role_permissions = [], tokens = []\<rparr>"

lemma db_empty_ok: "db_ok e db_empty"
  by (simp add: db_ok_def users_ok_def roles_ok_def permissions_ok_def links_ok_def tokens_ok_def db_empty_def)

named_theorems table_simps

lemma tables_of_update_users [simp, table_simps]:
  "users (update_users P f db) = map (\<lambda>u. if P u then f u else u) (users db)"
  "roles (update_users P f db) = roles db"
  "permissions (update_users P f db) = permissions db"
  "role_permissions (update_users P f db) = role_permissions db"
  "tokens (update_users P f db) = tokens db"
  by (simp_all add: update_users_def)

lemma tables_of_update_tokens [simp, table_simps]:
  "users (update_tokens P g db) = users db"
  "roles (update_tokens P g db) = roles db"
  "permissions (update_tokens P g db) = permissions db"
  "role_permissions (update_tokens P g db) = role_permissions db"
  "tokens (update_tokens P g db) = map (\<lambda>t. if P t then g t else t) (tokens db)"
  by (simp_all add: update_tokens_def)

lemma db_ok_update_users:
  assumes "db_ok e db" and "\<And>u. u_id (f u) = u_id u" and "\<And>u. u_email (f u) = u_email u"
    and "\<And>u. u \<in> set (users db) \<Longrightarrow> P u \<Longrightarrow> u_roleId (f u) \<in> r_id ` set (roles db)"
  shows "db_ok e (update_users P f db)"
proof -
  have m: "map u_id (users (update_users P f db)) = map u_id (users db)"
    "map (\<lambda>u. collate e (u_email u)) (users (update_users P f db)) = map (\<lambda>u. collate e (u_email u)) (users db)"
    using assms(2,3) by (simp_all add: o_def if_distrib cong: if_cong)
  have ids: "u_id ` set (users (update_users P f db)) = u_id ` set (users db)"
    using m(1) by (metis set_map)
  have "users_ok e (update_users P f db)"
    using assms(1,4) assms(2) unfolding users_ok_def db_ok_def m by (auto split: if_splits)
  moreover have "tokens_ok e (update_users P f db)"
    using assms(1) unfolding tokens_ok_def db_ok_def ids by simp
  ultimately show ?thesis
    using assms(1) by (simp add: db_ok_def roles_ok_def permissions_ok_def links_ok_def)
qed

lemma db_ok_update_tokens:
  assumes "db_ok e db"
    and "\<And>t. t_id (g t) = t_id t \<and> t_tokenHash (g t) = t_tokenHash t \<and> t_familyId (g t) = t_familyId t \<and>
          t_userId (g t) = t_userId t \<and> t_sessionExpiresAt (g t) = t_sessionExpiresAt t \<and> t_revokedAt (g t) \<noteq> None"
  shows "db_ok e (update_tokens P g db)"
proof -
  have m: "map t_id (tokens (update_tokens P g db)) = map t_id (tokens db)"
    "map (\<lambda>t. collate e (t_tokenHash t)) (tokens (update_tokens P g db)) = map (\<lambda>t. collate e (t_tokenHash t)) (tokens db)"
    using assms(2) by (simp_all add: o_def if_distrib cong: if_cong)
  have fam: "family_ok (if P s then g s else s) (if P t then g t else t)" if "family_ok s t" for s t
    using that assms(2)[of s] assms(2)[of t] by (auto simp: family_ok_def)
  have fams: "\<forall>s\<in>set (tokens (update_tokens P g db)). \<forall>t\<in>set (tokens (update_tokens P g db)). family_ok s t"
  proof (intro ballI)
    fix s t assume "s \<in> set (tokens (update_tokens P g db))" "t \<in> set (tokens (update_tokens P g db))"
    then obtain s0 t0 where st: "s0 \<in> set (tokens db)" "s = (if P s0 then g s0 else s0)"
      "t0 \<in> set (tokens db)" "t = (if P t0 then g t0 else t0)" by auto
    have "family_ok s0 t0" using assms(1) st by (simp add: db_ok_def tokens_ok_def)
    then show "family_ok s t" using fam st by simp
  qed
  have rows: "\<forall>t\<in>set (tokens (update_tokens P g db)). canon e (t_id t) = t_id t \<and>
      canon e (t_familyId t) = t_familyId t \<and> t_userId t \<in> u_id ` set (users db)"
    using assms(1) assms(2) by (auto simp: tokens_ok_def db_ok_def)
  have "tokens_ok e (update_tokens P g db)"
    using assms(1) fams rows unfolding tokens_ok_def db_ok_def m by simp
  then show ?thesis
    using assms(1) by (simp add: db_ok_def users_ok_def roles_ok_def permissions_ok_def links_ok_def)
qed

lemma db_ok_insert_user:
  "db_ok e db \<Longrightarrow> canon e (u_id u) = u_id u \<Longrightarrow> insert_user e u db = Inr db' \<Longrightarrow> db_ok e db'"
  by (force simp: insert_user_def db_ok_def users_ok_def roles_ok_def permissions_ok_def links_ok_def tokens_ok_def
      split: if_splits)

lemma db_ok_insert_role:
  "db_ok e db \<Longrightarrow> canon e (r_id r) = r_id r \<Longrightarrow> insert_role e r db = Inr db' \<Longrightarrow> db_ok e db'"
  by (force simp: insert_role_def db_ok_def users_ok_def roles_ok_def permissions_ok_def links_ok_def tokens_ok_def
      split: if_splits)

lemma db_ok_insert_permission:
  "db_ok e db \<Longrightarrow> insert_permission e p db = Inr db' \<Longrightarrow> db_ok e db'"
  by (force simp: insert_permission_def db_ok_def users_ok_def roles_ok_def permissions_ok_def links_ok_def tokens_ok_def
      split: if_splits)

lemma db_ok_insert_role_permission:
  "db_ok e db \<Longrightarrow> insert_role_permission rp db = Inr db' \<Longrightarrow> db_ok e db'"
  by (auto simp: insert_role_permission_def db_ok_def users_ok_def roles_ok_def permissions_ok_def links_ok_def
      tokens_ok_def split: if_splits)

lemma db_ok_insert_links: "db_ok e db \<Longrightarrow> insert_links rps db = Inr db' \<Longrightarrow> db_ok e db'"
  by (induction rps arbitrary: db) (auto dest: db_ok_insert_role_permission)

lemma db_ok_drop_links:
  "db_ok e db \<Longrightarrow> db_ok e (db\<lparr>role_permissions := filter P (role_permissions db)\<rparr>)"
  by (auto simp: db_ok_def users_ok_def roles_ok_def permissions_ok_def links_ok_def tokens_ok_def)

lemma db_ok_replaceForRole: "db_ok e db \<Longrightarrow> replaceForRole e r ps db = Inr db' \<Longrightarrow> db_ok e db'"
  unfolding replaceForRole_def Let_def by (blast intro: db_ok_insert_links db_ok_drop_links)

lemma image_keys_neq: "f ` {x \<in> A. f x \<noteq> k} = f ` A - {k}"
  by auto

lemma db_ok_delete_role_row: "db_ok e db \<Longrightarrow> delete_role_row e i db = Inr db' \<Longrightarrow> db_ok e db'"
  by (auto simp: delete_role_row_def db_ok_def users_ok_def roles_ok_def permissions_ok_def links_ok_def tokens_ok_def
      distinct_map_filter image_keys_neq split: if_splits)

lemma db_ok_updateRole: "db_ok e db \<Longrightarrow> db_ok e (updateRole e i patch db)"
proof -
  assume ok: "db_ok e db"
  have m: "map r_id (roles (updateRole e i patch db)) = map r_id (roles db)"
    "map (\<lambda>r. collate e (r_code r)) (roles (updateRole e i patch db)) = map (\<lambda>r. collate e (r_code r)) (roles db)"
    by (simp_all add: updateRole_def o_def if_distrib cong: if_cong)
  have ids: "r_id ` set (roles (updateRole e i patch db)) = r_id ` set (roles db)"
    using m(1) by (metis set_map)
  have other: "users (updateRole e i patch db) = users db" "permissions (updateRole e i patch db) = permissions db"
    "role_permissions (updateRole e i patch db) = role_permissions db" "tokens (updateRole e i patch db) = tokens db"
    by (simp_all add: updateRole_def)
  have "roles_ok e (updateRole e i patch db)"
    using ok unfolding roles_ok_def db_ok_def m by (auto simp: updateRole_def)
  then show ?thesis
    using ok unfolding db_ok_def users_ok_def permissions_ok_def links_ok_def tokens_ok_def other ids by simp
qed

lemma db_ok_insert_token:
  assumes ok: "db_ok e db" and ins: "insert_token e t db = Inr db'"
    and c: "canon e (t_id t) = t_id t" "canon e (t_familyId t) = t_familyId t"
    and fam: "\<And>s. s \<in> set (tokens db) \<Longrightarrow> t_familyId s = t_familyId t \<Longrightarrow>
      t_userId s = t_userId t \<and> t_sessionExpiresAt s = t_sessionExpiresAt t \<and> t_revokedAt s \<noteq> None"
  shows "db_ok e db'"
proof -
  have db': "db' = db\<lparr>tokens := tokens db @ [t\<lparr>t_expiresAt := stored e (t_expiresAt t)\<rparr>]\<rparr>"
    and new: "\<forall>s\<in>set (tokens db). t_id s \<noteq> t_id t \<and> collate e (t_tokenHash s) \<noteq> collate e (t_tokenHash t)"
    and usr: "t_userId t \<in> u_id ` set (users db)"
    using ins by (auto simp: insert_token_def split: if_splits)
  let ?t = "t\<lparr>t_expiresAt := stored e (t_expiresAt t)\<rparr>"
  have rows: "\<forall>s\<in>set (tokens db'). canon e (t_id s) = t_id s \<and> canon e (t_familyId s) = t_familyId s \<and>
      t_userId s \<in> u_id ` set (users db)"
    using ok usr c by (simp add: db' db_ok_def tokens_ok_def)
  have new_ok: "family_ok s ?t" "family_ok ?t s" if "s \<in> set (tokens db)" for s
    using fam[OF that] by (auto simp: family_ok_def)
  have self: "family_ok ?t ?t" by (simp add: family_ok_def)
  have fams: "\<forall>s\<in>set (tokens db'). \<forall>r\<in>set (tokens db'). family_ok s r"
    using ok new_ok self by (simp add: db' db_ok_def tokens_ok_def)
  have "distinct (map t_id (tokens db'))" "distinct (map (\<lambda>t. collate e (t_tokenHash t)) (tokens db'))"
    using ok new by (force simp: db' db_ok_def tokens_ok_def)+
  with fams rows have "tokens_ok e db'" by (simp add: tokens_ok_def db')
  then show ?thesis
    using ok by (simp add: db' db_ok_def users_ok_def roles_ok_def permissions_ok_def links_ok_def)
qed

section \<open>Tables with a key\<close>

text \<open>
  The interface the handlers use: a table whose rows are found by a unique key and changed in place by an
  \<open>UPDATE\<close> that keeps the key.  Users are found by identifier and by e-mail, refresh tokens by identifier
  and by hash.
\<close>

interpretation user_by_id: keyed_table users u_id update_users
  by unfold_locales simp

interpretation user_by_email: keyed_table users "\<lambda>u. collate e (u_email u)" update_users for e
  by unfold_locales simp

interpretation token_by_id: keyed_table tokens t_id update_tokens
  by unfold_locales simp

interpretation token_by_hash: keyed_table tokens "\<lambda>t. collate e (t_tokenHash t)" update_tokens for e
  by unfold_locales simp

interpretation role_by_id: keyed_table roles r_id "\<lambda>P f db. db\<lparr>roles := map (\<lambda>r. if P r then f r else r) (roles db)\<rparr>"
  by unfold_locales simp

lemmas lookup_defs = findUserById_def findByEmail_def findByTokenHash_def findRoleById_def

lemma findUserById_iff:
  "db_ok e db \<Longrightarrow> findUserById e i db = Some u \<longleftrightarrow> u \<in> set (users db) \<and> u_id u = canon e i"
  unfolding findUserById_def by (rule user_by_id.lookup_iff) (simp add: db_ok_def users_ok_def)

lemma findByEmail_iff:
  "db_ok e db \<Longrightarrow> findByEmail e m db = Some u \<longleftrightarrow> u \<in> set (users db) \<and> collate e (u_email u) = collate e m"
  unfolding findByEmail_def by (rule user_by_email.lookup_iff) (simp add: db_ok_def users_ok_def)

lemma findByTokenHash_iff:
  "db_ok e db \<Longrightarrow> findByTokenHash e h db = Some t \<longleftrightarrow> t \<in> set (tokens db) \<and> collate e (t_tokenHash t) = collate e h"
  unfolding findByTokenHash_def by (rule token_by_hash.lookup_iff) (simp add: db_ok_def tokens_ok_def)

lemma findRoleById_iff:
  "db_ok e db \<Longrightarrow> findRoleById e i db = Some r \<longleftrightarrow> r \<in> set (roles db) \<and> r_id r = canon e i"
  unfolding findRoleById_def by (rule role_by_id.lookup_iff) (simp add: db_ok_def roles_ok_def)

lemma same_role: "db_ok e db \<Longrightarrow> r \<in> set (roles db) \<Longrightarrow> s \<in> set (roles db) \<Longrightarrow> r_id r = r_id s \<longleftrightarrow> r = s"
  by (rule role_by_id.key_eq_iff) (simp_all add: db_ok_def roles_ok_def)

lemma same_user: "db_ok e db \<Longrightarrow> u \<in> set (users db) \<Longrightarrow> v \<in> set (users db) \<Longrightarrow> u_id u = u_id v \<longleftrightarrow> u = v"
  by (rule user_by_id.key_eq_iff) (simp_all add: db_ok_def users_ok_def)

lemma same_token: "db_ok e db \<Longrightarrow> s \<in> set (tokens db) \<Longrightarrow> t \<in> set (tokens db) \<Longrightarrow> t_id s = t_id t \<longleftrightarrow> s = t"
  by (rule token_by_id.key_eq_iff) (simp_all add: db_ok_def tokens_ok_def)

lemma user_row: "db_ok e db \<Longrightarrow> u \<in> set (users db) \<Longrightarrow> canon e (u_id u) = u_id u \<and> u_roleId u \<in> r_id ` set (roles db)"
  by (simp add: db_ok_def users_ok_def)

lemma token_row: "db_ok e db \<Longrightarrow> t \<in> set (tokens db) \<Longrightarrow>
  canon e (t_id t) = t_id t \<and> canon e (t_familyId t) = t_familyId t \<and> t_userId t \<in> u_id ` set (users db)"
  by (simp add: db_ok_def tokens_ok_def)

lemma token_families: "db_ok e db \<Longrightarrow> s \<in> set (tokens db) \<Longrightarrow> t \<in> set (tokens db) \<Longrightarrow> family_ok s t"
  by (simp add: db_ok_def tokens_ok_def)

lemma role_row: "db_ok e db \<Longrightarrow> r \<in> set (roles db) \<Longrightarrow> canon e (r_id r) = r_id r"
  by (simp add: db_ok_def roles_ok_def)

text \<open>The user and the token statements keep a database well formed.\<close>

lemmas user_statement_defs = incrementFailedAttempts_def lockUntil_def recordSuccessfulLogin_def
  updatePasswordHash_def deactivate_def invalidateTokens_def invalidateTokensForRole_def

lemmas token_statement_defs = markRevoked_def revokeFamily_def revokeAllForUser_def

lemma db_ok_user_statements:
  assumes "db_ok e db"
  shows "db_ok e (incrementFailedAttempts e i db)" "db_ok e (lockUntil e i n db)"
    "db_ok e (recordSuccessfulLogin e i n db)" "db_ok e (updatePasswordHash e i h b db)"
    "db_ok e (deactivate e i db)" "db_ok e (invalidateTokens e i n db)" "db_ok e (invalidateTokensForRole e i n db)"
  unfolding user_statement_defs
  by (rule db_ok_update_users[OF assms]; simp; use user_row[OF assms] in metis)+

lemma db_ok_token_statements:
  assumes "db_ok e db"
  shows "db_ok e (markRevoked e i rb n db)" "db_ok e (revokeFamily e i n db)" "db_ok e (revokeAllForUser e i n db)"
  unfolding token_statement_defs using assms by (auto intro!: db_ok_update_tokens)

lemmas db_ok_statements = db_ok_user_statements db_ok_token_statements

end
