(* ===== verification/Auth_Sessions.thy ===== *)
theory Auth_Sessions
  imports Auth_Data
begin

text \<open>
  Sign-in and sessions of the portal: \<open>token.service.ts\<close>, the handlers of \<open>LoginCommand\<close>,
  \<open>RefreshTokensCommand\<close>, \<open>LogoutCommand\<close> and \<open>ChangePasswordCommand\<close>, the two guards and the
  auth controller of \<open>apps/web-pivotal\<close>.  A command is a function of the surroundings and the database to
  its result and the new database; a clock reading or an identifier is the next one of the command's
  \<open>auth_world\<close>, in the order in which the code takes them.
\<close>

section \<open>The token service\<close>

record issued_token =
  i_plaintext :: string
  i_hash :: string
  i_expiresAt :: int
  i_sessionExpiresAt :: int

definition hashRefreshToken :: "auth_env \<Rightarrow> string \<Rightarrow> string" where
  "hashRefreshToken e plaintext = sha256_hex e plaintext"

definition issueRefreshToken :: "auth_env \<Rightarrow> auth_world \<Rightarrow> int \<Rightarrow> int option \<Rightarrow> issued_token" where
  "issueRefreshToken e w now sessionExpiresAt =
     (let plaintext = random_token w;
          deadline = nullish sessionExpiresAt (now + sessionAbsoluteTimeoutHours e * 3600000);
          expiresAt = min (now + sessionIdleTimeoutMinutes e * 60000) deadline
      in \<lparr>i_plaintext = plaintext, i_hash = hashRefreshToken e plaintext, i_expiresAt = expiresAt,
          i_sessionExpiresAt = deadline\<rparr>)"

definition access_token_claims ::
  "auth_env \<Rightarrow> int \<Rightarrow> string \<Rightarrow> user \<Rightarrow> role \<Rightarrow> string list \<Rightarrow> int option \<Rightarrow> access_claims" where
  "access_token_claims e millis jti u r perms sessionExpiresAt =
     (let ttl = accessTokenTtlSeconds e; now = millis div 1000
      in \<lparr>c_sub = u_id u, c_role = r_code r, c_fspId = u_fspId u, c_permissions = perms,
          c_mustChangePassword = u_mustChangePassword u, c_iat = now,
          c_exp = min (now + ttl) (case sessionExpiresAt of None \<Rightarrow> now + ttl | Some d \<Rightarrow> d div 1000),
          c_jti = jti\<rparr>)"

definition signAccessToken ::
  "auth_env \<Rightarrow> int \<Rightarrow> string \<Rightarrow> user \<Rightarrow> role \<Rightarrow> string list \<Rightarrow> int option \<Rightarrow> string" where
  "signAccessToken e millis jti u r perms sessionExpiresAt =
     jwt_sign e (access_token_claims e millis jti u r perms sessionExpiresAt) (jwtSecret e)"

definition verifyAccessToken :: "auth_env \<Rightarrow> string \<Rightarrow> access_claims option" where
  "verifyAccessToken e token = jwt_verify e token (jwtSecret e) (jwtIssuer e)"

section \<open>Login\<close>

record login_output =
  lo_accessToken :: string
  lo_refreshToken :: string
  lo_refreshTokenExpiresAt :: int
  lo_user :: user
  lo_roleCode :: string
  lo_permissions :: "string list"
  lo_sessionExpiresAt :: int
  lo_sessionId :: string

definition accountLockedError :: "int \<Rightarrow> auth_failure" where
  "accountLockedError lockoutMinutes = HttpException Unauthorized ACCOUNT_LOCKED
     (''Your account has been temporarily locked due to multiple failed login attempts. Please try again after ''
      @ dec_of_nat (nat lockoutMinutes) @ '' '' @ (if lockoutMinutes = 1 then ''minute'' else ''minutes'')
      @ '' or contact your administrator.'') None"

definition remainingLockoutMinutes :: "int \<Rightarrow> int \<Rightarrow> int" where
  "remainingLockoutMinutes lockedUntil now = max 1 (- ((- (lockedUntil - now)) div 60000))"

definition handleFailedAttempt :: "auth_env \<Rightarrow> auth_world \<Rightarrow> string \<Rightarrow> int \<Rightarrow> auth_db \<Rightarrow> bool \<times> auth_db" where
  "handleFailedAttempt e w userId attemptCount db =
     (let db1 = incrementFailedAttempts e userId db
      in if loginLockoutThreshold e \<le> attemptCount
         then (True, lockUntil e userId (clock w 1 + loginLockoutDurationMinutes e * 60 * 1000) db1)
         else (False, db1))"

definition open_session ::
  "auth_env \<Rightarrow> auth_world \<Rightarrow> user \<Rightarrow> role \<Rightarrow> auth_db \<Rightarrow> (auth_failure, login_output) result \<times> auth_db" where
  "open_session e w u r db =
     (let db1 = recordSuccessfulLogin e (u_id u) (clock w 1) db;
          perms = findPermissionKeysByRoleId e (r_id r) db1;
          familyId = fresh_id w 0;
          issued = issueRefreshToken e w (clock w 2) None;
          accessToken = signAccessToken e (clock w 3) (fresh_id w 1) u r perms (Some (i_sessionExpiresAt issued));
          entity = new_refresh_token (u_id u) familyId (i_hash issued) (i_expiresAt issued)
            (Some (i_sessionExpiresAt issued)) (fresh_id w 2)
      in case insert_token e entity db1 of
           Inl err \<Rightarrow> (Inl err, db1)
         | Inr db2 \<Rightarrow> (Inr \<lparr>lo_accessToken = accessToken, lo_refreshToken = i_plaintext issued,
             lo_refreshTokenExpiresAt = i_expiresAt issued, lo_user = u, lo_roleCode = r_code r,
             lo_permissions = perms, lo_sessionExpiresAt = i_sessionExpiresAt issued, lo_sessionId = familyId\<rparr>, db2))"

definition login ::
  "auth_env \<Rightarrow> auth_world \<Rightarrow> string \<Rightarrow> string \<Rightarrow> auth_db \<Rightarrow> (auth_failure, login_output) result \<times> auth_db" where
  "login e w mail password db =
     (case findByEmail e mail db of
        None \<Rightarrow> (Inl (authError Unauthorized INVALID_CREDENTIALS), db)
      | Some u \<Rightarrow>
          if \<not> u_isActive u then (Inl (authError Unauthorized USER_INACTIVE), db)
          else let now = clock w 0 in
          if (case u_lockedUntil u of None \<Rightarrow> False | Some until \<Rightarrow> until > now)
          then (Inl (accountLockedError (remainingLockoutMinutes (the (u_lockedUntil u)) now)), db)
          else if \<not> bcrypt_compare e password (u_passwordHash u)
          then (case handleFailedAttempt e w (u_id u) (u_failedLoginAttempts u + 1) db of
                  (locked, db1) \<Rightarrow> (Inl (if locked then accountLockedError (loginLockoutDurationMinutes e)
                                       else authError Unauthorized INVALID_CREDENTIALS), db1))
          else (case findRoleById e (u_roleId u) db of
                  None \<Rightarrow> (Inl (authError Unauthorized UNKNOWN_ROLE), db)
                | Some r \<Rightarrow> open_session e w u r db))"

section \<open>Refresh\<close>

record refresh_output =
  ro_accessToken :: string
  ro_refreshToken :: string
  ro_refreshTokenExpiresAt :: int
  ro_permissions :: "string list"
  ro_mustChangePassword :: bool
  ro_sessionExpiresAt :: int
  ro_sessionId :: string

text \<open>The handler first reads: it either refuses the token, possibly naming a family to revoke, or goes on to
  rotate it.  The write that follows is a step of its own, so that two requests can be interleaved.\<close>

datatype refresh_decision = Refuse auth_failure "string option" | Rotate refresh_token user role

definition refresh_check :: "auth_env \<Rightarrow> int \<Rightarrow> string \<Rightarrow> auth_db \<Rightarrow> refresh_decision" where
  "refresh_check e now refreshToken db =
     (case findByTokenHash e (hashRefreshToken e refreshToken) db of
        None \<Rightarrow> Refuse (authError Unauthorized INVALID_REFRESH_TOKEN) None
      | Some t \<Rightarrow>
          let over = (case t_sessionExpiresAt t of None \<Rightarrow> True | Some d \<Rightarrow> d \<le> now) in
          if over \<or> t_expiresAt t \<le> now
          then Refuse (case authError Unauthorized SESSION_EXPIRED of
                         HttpException cls code message _ \<Rightarrow>
                           HttpException cls code message (Some (if over then ''absolute'' else ''idle''))
                       | err \<Rightarrow> err) (Some (t_familyId t))
          else if t_revokedAt t \<noteq> None
          then Refuse (authError Unauthorized REFRESH_TOKEN_REUSE) (Some (t_familyId t))
          else (case findUserById e (t_userId t) db of
              None \<Rightarrow> Refuse (authError Unauthorized INVALID_REFRESH_TOKEN) (Some (t_familyId t))
            | Some u \<Rightarrow>
                if \<not> u_isActive u
                then Refuse (authError Unauthorized INVALID_REFRESH_TOKEN) (Some (t_familyId t))
                else (case findRoleById e (u_roleId u) db of
                    None \<Rightarrow> Refuse (authError Unauthorized UNKNOWN_ROLE) None
                  | Some r \<Rightarrow> Rotate t u r)))"

definition rotate ::
  "auth_env \<Rightarrow> auth_world \<Rightarrow> refresh_token \<Rightarrow> user \<Rightarrow> role \<Rightarrow> auth_db \<Rightarrow> (auth_failure, refresh_output) result \<times> auth_db" where
  "rotate e w t u r db =
     (let issued = issueRefreshToken e w (clock w 1) (t_sessionExpiresAt t);
          entity = new_refresh_token (u_id u) (t_familyId t) (i_hash issued) (i_expiresAt issued)
            (Some (i_sessionExpiresAt issued)) (fresh_id w 0)
      in case insert_token e entity db of
           Inl err \<Rightarrow> (Inl err, db)
         | Inr db1 \<Rightarrow>
             let db2 = markRevoked e (t_id t) (Some (fresh_id w 0)) (clock w 2) db1;
                 perms = findPermissionKeysByRoleId e (r_id r) db2;
                 accessToken = signAccessToken e (clock w 3) (fresh_id w 1) u r perms (Some (i_sessionExpiresAt issued))
             in (Inr \<lparr>ro_accessToken = accessToken, ro_refreshToken = i_plaintext issued,
                  ro_refreshTokenExpiresAt = i_expiresAt issued, ro_permissions = perms,
                  ro_mustChangePassword = u_mustChangePassword u, ro_sessionExpiresAt = i_sessionExpiresAt issued,
                  ro_sessionId = t_familyId t\<rparr>, db2))"

definition refresh_commit ::
  "auth_env \<Rightarrow> auth_world \<Rightarrow> refresh_decision \<Rightarrow> auth_db \<Rightarrow> (auth_failure, refresh_output) result \<times> auth_db" where
  "refresh_commit e w d db =
     (case d of
        Refuse err fam \<Rightarrow> (Inl err, case fam of None \<Rightarrow> db | Some f \<Rightarrow> revokeFamily e f (clock w 1) db)
      | Rotate t u r \<Rightarrow> rotate e w t u r db)"

definition refresh_tokens ::
  "auth_env \<Rightarrow> auth_world \<Rightarrow> string \<Rightarrow> auth_db \<Rightarrow> (auth_failure, refresh_output) result \<times> auth_db" where
  "refresh_tokens e w refreshToken db = refresh_commit e w (refresh_check e (clock w 0) refreshToken db) db"

section \<open>Logout and change of password\<close>

definition logout :: "auth_env \<Rightarrow> auth_world \<Rightarrow> string \<Rightarrow> bool \<Rightarrow> auth_db \<Rightarrow> bool \<times> auth_db" where
  "logout e w refreshToken allDevices db =
     (case findByTokenHash e (hashRefreshToken e refreshToken) db of
        None \<Rightarrow> (False, db)
      | Some t \<Rightarrow> (True, if allDevices then revokeAllForUser e (t_userId t) (clock w 0) db
                       else if t_revokedAt t = None then markRevoked e (t_id t) None (clock w 0) db
                       else db))"

definition change_password ::
  "auth_env \<Rightarrow> auth_world \<Rightarrow> string \<Rightarrow> string \<Rightarrow> string \<Rightarrow> auth_db \<Rightarrow> (auth_failure, bool) result \<times> auth_db" where
  "change_password e w userId currentPassword newPassword db =
     (case findUserById e userId db of
        None \<Rightarrow> (Inl (authError Unauthorized INVALID_CREDENTIALS), db)
      | Some u \<Rightarrow>
          if \<not> u_isActive u then (Inl (authError Unauthorized INVALID_CREDENTIALS), db)
          else if \<not> bcrypt_compare e currentPassword (u_passwordHash u)
          then (Inl (authError Unauthorized INVALID_CREDENTIALS), db)
          else if bcrypt_compare e newPassword (u_passwordHash u)
          then (Inl (authError BadRequest PASSWORD_SAME_AS_CURRENT), db)
          else let newHash = bcrypt_hash w newPassword (bcryptCostFactor e);
                   db1 = updatePasswordHash e (u_id u) newHash False db;
                   db2 = revokeAllForUser e (u_id u) (clock w 0) db1;
                   db3 = invalidateTokens e (u_id u) (clock w 1) db2
               in (Inr True, db3))"

section \<open>Guards\<close>

definition BEARER_PREFIX :: string where "BEARER_PREFIX = ''Bearer ''"

definition jwt_guard :: "auth_env \<Rightarrow> bool \<Rightarrow> string option \<Rightarrow> auth_db \<Rightarrow> (auth_failure, access_claims option) result" where
  "jwt_guard e isPublic header db =
     (if isPublic then Inr None
      else case header of
        None \<Rightarrow> Inl (HttpException Unauthorized ''AUTH_MISSING_TOKEN'' ''Missing or malformed Authorization header.'' None)
      | Some h \<Rightarrow>
          if \<not> startsWith h BEARER_PREFIX
          then Inl (HttpException Unauthorized ''AUTH_MISSING_TOKEN'' ''Missing or malformed Authorization header.'' None)
          else case verifyAccessToken e (trim (drop (length BEARER_PREFIX) h)) of
            None \<Rightarrow> Inl (HttpException Unauthorized ''AUTH_INVALID_TOKEN'' ''Invalid or expired access token.'' None)
          | Some claims \<Rightarrow>
              (case findUserById e (c_sub claims) db of
                 None \<Rightarrow> Inl (authError Unauthorized USER_INACTIVE)
               | Some u \<Rightarrow>
                   if \<not> u_isActive u then Inl (authError Unauthorized USER_INACTIVE)
                   else if (case u_tokensInvalidatedAt u of None \<Rightarrow> False | Some at \<Rightarrow> at div 1000 \<ge> c_iat claims)
                   then Inl (authError Unauthorized TOKEN_REVOKED)
                   else Inr (Some claims)))"

definition permissions_guard :: "bool \<Rightarrow> string list option \<Rightarrow> access_claims option \<Rightarrow> (auth_failure, bool) result" where
  "permissions_guard isPublic requiredPermissions claims =
     (if isPublic then Inr True
      else case requiredPermissions of
        None \<Rightarrow> Inr True
      | Some required \<Rightarrow>
          (case claims of
             None \<Rightarrow> Inl (HttpException Forbidden ''AUTH_FORBIDDEN'' ''Permission denied.'' None)
           | Some c \<Rightarrow>
               if \<not> list_ex (\<lambda>p. p \<in> set (c_permissions c)) required
               then Inl (HttpException Forbidden ''AUTH_FORBIDDEN'' ''Permission denied.'' None)
               else Inr True))"

section \<open>The auth controller\<close>

text \<open>What a request does to the refresh cookie of the browser.\<close>

datatype cookie_action = SetCookie string int | ClearCookie | KeepCookie

record session_response =
  sr_accessToken :: string
  sr_expiresIn :: int
  sr_permissions :: "string list"
  sr_mustChangePassword :: bool
  sr_idleMinutes :: int
  sr_sessionExpiresAt :: int
  sr_sessionId :: string

definition accessTokenExpiresIn :: "auth_env \<Rightarrow> int \<Rightarrow> int \<Rightarrow> int" where
  "accessTokenExpiresIn e now deadline = max 0 (min (accessTokenTtlSeconds e) ((deadline - now) div 1000))"

definition readRefreshCookie :: "string option \<Rightarrow> string option" where
  "readRefreshCookie cookie = (case cookie of None \<Rightarrow> None | Some v \<Rightarrow> if trim v = [] then None else Some v)"

definition post_login ::
  "auth_env \<Rightarrow> auth_world \<Rightarrow> string \<Rightarrow> string \<Rightarrow> auth_db \<Rightarrow>
     (auth_failure, session_response \<times> user \<times> string) result \<times> cookie_action \<times> auth_db" where
  "post_login e w mail password db =
     (case login e w mail password db of
        (Inl err, db1) \<Rightarrow> (Inl err, KeepCookie, db1)
      | (Inr out, db1) \<Rightarrow>
          (Inr (\<lparr>sr_accessToken = lo_accessToken out,
                 sr_expiresIn = accessTokenExpiresIn e (clock w 4) (lo_sessionExpiresAt out),
                 sr_permissions = lo_permissions out, sr_mustChangePassword = u_mustChangePassword (lo_user out),
                 sr_idleMinutes = sessionIdleTimeoutMinutes e, sr_sessionExpiresAt = lo_sessionExpiresAt out,
                 sr_sessionId = lo_sessionId out\<rparr>, lo_user out, lo_roleCode out),
           SetCookie (lo_refreshToken out) (lo_refreshTokenExpiresAt out), db1))"

definition post_refresh ::
  "auth_env \<Rightarrow> auth_world \<Rightarrow> string option \<Rightarrow> auth_db \<Rightarrow>
     (auth_failure, session_response) result \<times> cookie_action \<times> auth_db" where
  "post_refresh e w cookie db =
     (case readRefreshCookie cookie of
        None \<Rightarrow> (Inl (authError Unauthorized INVALID_REFRESH_TOKEN), KeepCookie, db)
      | Some token \<Rightarrow>
          (case refresh_tokens e w token db of
             (Inl err, db1) \<Rightarrow> (Inl err, ClearCookie, db1)
           | (Inr out, db1) \<Rightarrow>
               (Inr \<lparr>sr_accessToken = ro_accessToken out,
                     sr_expiresIn = accessTokenExpiresIn e (clock w 4) (ro_sessionExpiresAt out),
                     sr_permissions = ro_permissions out, sr_mustChangePassword = ro_mustChangePassword out,
                     sr_idleMinutes = sessionIdleTimeoutMinutes e, sr_sessionExpiresAt = ro_sessionExpiresAt out,
                     sr_sessionId = ro_sessionId out\<rparr>,
                SetCookie (ro_refreshToken out) (ro_refreshTokenExpiresAt out), db1)))"

definition post_logout :: "auth_env \<Rightarrow> auth_world \<Rightarrow> string option \<Rightarrow> auth_db \<Rightarrow> cookie_action \<times> auth_db" where
  "post_logout e w cookie db =
     (case readRefreshCookie cookie of
        None \<Rightarrow> (ClearCookie, db)
      | Some token \<Rightarrow> (ClearCookie, snd (logout e w token False db)))"

definition post_change_password ::
  "auth_env \<Rightarrow> auth_world \<Rightarrow> access_claims option \<Rightarrow> string \<Rightarrow> string \<Rightarrow> auth_db \<Rightarrow>
     (auth_failure, unit) result \<times> cookie_action \<times> auth_db" where
  "post_change_password e w claims currentPassword newPassword db =
     (case claims of
        None \<Rightarrow> (Inl (authError Unauthorized INVALID_CREDENTIALS), KeepCookie, db)
      | Some c \<Rightarrow>
          (case change_password e w (c_sub c) currentPassword newPassword db of
             (Inl err, db1) \<Rightarrow> (Inl err, KeepCookie, db1)
           | (Inr _, db1) \<Rightarrow> (Inr (), ClearCookie, db1)))"

section \<open>The commands keep the database well formed\<close>

lemma db_ok_handleFailedAttempt:
  "db_ok e db \<Longrightarrow> db_ok e (snd (handleFailedAttempt e w i n db))"
  by (simp add: handleFailedAttempt_def Let_def db_ok_statements)

lemma tokens_of_user_statements [simp]:
  "tokens (incrementFailedAttempts e i db) = tokens db" "tokens (lockUntil e i n db) = tokens db"
  "tokens (recordSuccessfulLogin e i n db) = tokens db" "tokens (updatePasswordHash e i h b db) = tokens db"
  "tokens (deactivate e i db) = tokens db" "tokens (invalidateTokens e i n db) = tokens db"
  "tokens (invalidateTokensForRole e i n db) = tokens db"
  by (simp_all add: user_statement_defs)

lemma users_of_token_statements [simp]:
  "users (markRevoked e i rb n db) = users db" "users (revokeFamily e f n db) = users db"
  "users (revokeAllForUser e i n db) = users db"
  by (simp_all add: token_statement_defs)

lemma new_token_simps [simp]:
  "t_id (new_refresh_token u f h x d i) = i" "t_userId (new_refresh_token u f h x d i) = u"
  "t_familyId (new_refresh_token u f h x d i) = f" "t_tokenHash (new_refresh_token u f h x d i) = h"
  "t_expiresAt (new_refresh_token u f h x d i) = x" "t_sessionExpiresAt (new_refresh_token u f h x d i) = d"
  "t_revokedAt (new_refresh_token u f h x d i) = None"
  by (simp_all add: new_refresh_token_def)

lemma db_ok_open_session:
  assumes "db_ok e db" "world_ok e w" "fresh_id w 0 \<notin> t_familyId ` set (tokens db)"
  shows "db_ok e (snd (open_session e w u r db))"
proof -
  have "db_ok e (recordSuccessfulLogin e (u_id u) (clock w 1) db)" using assms(1) by (rule db_ok_statements)
  moreover have "\<And>s. s \<in> set (tokens db) \<Longrightarrow> t_familyId s \<noteq> fresh_id w 0" using assms(3) by (metis imageI)
  ultimately show ?thesis
    using assms(2) by (auto simp: open_session_def Let_def world_ok_def split: sum.splits elim!: db_ok_insert_token)
qed

lemma db_ok_login:
  assumes "db_ok e db" "world_ok e w" "fresh_id w 0 \<notin> t_familyId ` set (tokens db)"
  shows "db_ok e (snd (login e w mail pw db))"
  using assms db_ok_open_session[OF assms] db_ok_handleFailedAttempt[OF assms(1)]
  by (simp add: login_def Let_def case_prod_unfold split: option.splits)

text \<open>What a decision to rotate says of the database.\<close>

lemma refresh_check_Rotate:
  assumes "refresh_check e now p db = Rotate t u r"
  shows "findByTokenHash e (hashRefreshToken e p) db = Some t" "t_revokedAt t = None"
    "\<exists>d. t_sessionExpiresAt t = Some d \<and> now < d" "now < t_expiresAt t"
    "findUserById e (t_userId t) db = Some u" "u_isActive u" "findRoleById e (u_roleId u) db = Some r"
  using assms by (auto simp: refresh_check_def Let_def split: option.splits if_splits)

text \<open>Marking the old token first or inserting the new one first comes to the same rows, and the first order
  keeps every intermediate database well formed.\<close>

lemma rotate_commutes:
  assumes "insert_token e new db = Inr db1" "t \<in> set (tokens db)" "canon e (t_id t) = t_id t"
  shows "insert_token e new (markRevoked e (t_id t) rb n db) = Inr (markRevoked e (t_id t) rb n db1)"
  using assms
  by (auto simp: insert_token_def markRevoked_def update_tokens_def split: if_splits)

lemma db_ok_rotate:
  assumes "db_ok e db" "world_ok e w" "t \<in> set (tokens db)" "t_revokedAt t = None"
    "t_sessionExpiresAt t = Some d" "t_userId t = u_id u"
  shows "db_ok e (snd (rotate e w t u r db))"
proof -
  define new where "new = new_refresh_token (u_id u) (t_familyId t)
     (i_hash (issueRefreshToken e w (clock w 1) (t_sessionExpiresAt t)))
     (i_expiresAt (issueRefreshToken e w (clock w 1) (t_sessionExpiresAt t)))
     (Some (i_sessionExpiresAt (issueRefreshToken e w (clock w 1) (t_sessionExpiresAt t)))) (fresh_id w 0)"
  have row: "canon e (t_id t) = t_id t" "canon e (t_familyId t) = t_familyId t"
    using token_row[OF assms(1,3)] by auto
  show ?thesis
  proof (cases "insert_token e new db")
    case (Inr db1)
    let ?m = "markRevoked e (t_id t) (Some (fresh_id w 0)) (clock w 2)"
    have "snd (rotate e w t u r db) = ?m db1" using Inr by (simp add: rotate_def Let_def new_def)
    moreover have "db_ok e (?m db1)"
    proof (rule db_ok_insert_token[of e "?m db" new])
      show "db_ok e (?m db)" using assms(1) by (rule db_ok_statements)
      show "insert_token e new (?m db) = Inr (?m db1)" using rotate_commutes[OF Inr assms(3)] row by simp
      show "canon e (t_id new) = t_id new" "canon e (t_familyId new) = t_familyId new"
        using assms(2) row by (simp_all add: new_def world_ok_def)
      fix s assume s: "s \<in> set (tokens (?m db))" "t_familyId s = t_familyId new"
      then obtain s0 where s0: "s0 \<in> set (tokens db)" "t_familyId s0 = t_familyId t"
        "s = (if t_id s0 = t_id t then s0\<lparr>t_revokedAt := Some (stored e (clock w 2)), t_replacedBy := Some (fresh_id w 0)\<rparr> else s0)"
        using row by (auto simp: markRevoked_def new_def split: if_splits)
      have "family_ok s0 t" using token_families assms(1,3) s0(1) by blast
      then show "t_userId s = t_userId new \<and> t_sessionExpiresAt s = t_sessionExpiresAt new \<and> t_revokedAt s \<noteq> None"
        using s0 assms(4-6) by (auto simp: family_ok_def new_def issueRefreshToken_def Let_def)
    qed
    ultimately show ?thesis by simp
  qed (simp add: rotate_def Let_def new_def assms(1))
qed

lemma db_ok_refresh:
  assumes "db_ok e db" "world_ok e w"
  shows "db_ok e (snd (refresh_tokens e w p db))"
proof (cases "refresh_check e (clock w 0) p db")
  case (Refuse err fam)
  then show ?thesis
    using assms(1) by (cases fam) (simp_all add: refresh_tokens_def refresh_commit_def db_ok_statements)
next
  case (Rotate t u r)
  note c = refresh_check_Rotate[OF Rotate]
  have t: "t \<in> set (tokens db)" using c(1) findByTokenHash_iff[OF assms(1)] by blast
  have u: "u \<in> set (users db)" "u_id u = canon e (t_userId t)"
    using c(5) findUserById_iff[OF assms(1)] by blast+
  have "t_userId t = u_id u"
    using token_row[OF assms(1) t] user_row[OF assms(1)] u by auto
  then show ?thesis
    using db_ok_rotate[OF assms t c(2)] c(3) Rotate by (auto simp: refresh_tokens_def refresh_commit_def)
qed

lemma db_ok_logout: "db_ok e db \<Longrightarrow> db_ok e (snd (logout e w p b db))"
  by (simp add: logout_def db_ok_statements split: option.splits)

lemma db_ok_change_password: "db_ok e db \<Longrightarrow> db_ok e (snd (change_password e w i p q db))"
  by (simp add: change_password_def Let_def db_ok_statements split: option.splits)

end
