(* ===== verification/Session_Refinement.thy ===== *)
theory Session_Refinement
  imports Auth_Sessions
begin

text \<open>
  What a session is, without tables, and that the handlers implement it.  The specification knows which
  family a refresh token was issued for and which token of a family is the current one; a token is named by
  the weight of its hash, which is what the unique index compares.  Presenting the current token replaces it;
  presenting any other token of the family ends the session.
\<close>

section \<open>Specification\<close>

record sessions =
  issued_for :: "string \<Rightarrow> string option"
  current :: "string \<Rightarrow> string option"

datatype circumstance = Elapsed | UserGone | RoleGone | Usable

datatype reply = UnknownToken | SessionOver | ReuseDetected | AccountGone | NoRole | Renewed string string

definition ended :: "string \<Rightarrow> sessions \<Rightarrow> sessions" where
  "ended f S = S\<lparr>current := (current S)(f := None)\<rparr>"

definition renewed :: "string \<Rightarrow> string \<Rightarrow> sessions \<Rightarrow> sessions" where
  "renewed f h S = S\<lparr>issued_for := (issued_for S)(h := Some f), current := (current S)(f := Some h)\<rparr>"

definition spec_refresh :: "circumstance \<Rightarrow> string \<Rightarrow> string \<Rightarrow> sessions \<Rightarrow> reply \<times> sessions" where
  "spec_refresh c h h' S =
     (case issued_for S h of
        None \<Rightarrow> (UnknownToken, S)
      | Some f \<Rightarrow>
          if c = Elapsed then (SessionOver, ended f S)
          else if current S f \<noteq> Some h then (ReuseDetected, ended f S)
          else if c = UserGone then (AccountGone, ended f S)
          else if c = RoleGone then (NoRole, S)
          else (Renewed f h', renewed f h' S))"

definition spec_logout :: "string \<Rightarrow> sessions \<Rightarrow> sessions" where
  "spec_logout h S =
     (case issued_for S h of None \<Rightarrow> S | Some f \<Rightarrow> if current S f = Some h then ended f S else S)"

section \<open>Abstraction\<close>

definition token_key :: "auth_env \<Rightarrow> refresh_token \<Rightarrow> string" where
  "token_key e t = collate e (t_tokenHash t)"

definition live_in :: "string \<Rightarrow> refresh_token \<Rightarrow> bool" where
  "live_in f t \<longleftrightarrow> t_familyId t = f \<and> t_revokedAt t = None"

definition abs_sessions :: "auth_env \<Rightarrow> auth_db \<Rightarrow> sessions" where
  "abs_sessions e db =
     \<lparr>issued_for = (\<lambda>h. map_option t_familyId (List.find (\<lambda>t. token_key e t = h) (tokens db))),
      current = (\<lambda>f. map_option (token_key e) (List.find (live_in f) (tokens db)))\<rparr>"

definition key_of :: "auth_env \<Rightarrow> string \<Rightarrow> string" where
  "key_of e plaintext = collate e (hashRefreshToken e plaintext)"

text \<open>The circumstance of a request is what the specification leaves open: the clock, the account and the role.\<close>

definition circumstance_of :: "auth_env \<Rightarrow> int \<Rightarrow> string \<Rightarrow> auth_db \<Rightarrow> circumstance" where
  "circumstance_of e now p db =
     (case findByTokenHash e (hashRefreshToken e p) db of
        None \<Rightarrow> Usable
      | Some t \<Rightarrow>
          if (case t_sessionExpiresAt t of None \<Rightarrow> True | Some d \<Rightarrow> d \<le> now) \<or> t_expiresAt t \<le> now then Elapsed
          else (case findUserById e (t_userId t) db of
              None \<Rightarrow> UserGone
            | Some u \<Rightarrow> if \<not> u_isActive u then UserGone
                       else if findRoleById e (u_roleId u) db = None then RoleGone else Usable))"

definition reply_of :: "auth_env \<Rightarrow> (auth_failure, refresh_output) result \<Rightarrow> reply option" where
  "reply_of e r =
     (case r of
        Inr out \<Rightarrow> Some (Renewed (ro_sessionId out) (key_of e (ro_refreshToken out)))
      | Inl err \<Rightarrow>
          (case err of HttpException cls code msg reason \<Rightarrow>
             if code = SESSION_EXPIRED then Some SessionOver
             else if code = REFRESH_TOKEN_REUSE then Some ReuseDetected
             else if code = UNKNOWN_ROLE then Some NoRole
             else if code = INVALID_REFRESH_TOKEN then Some AccountGone else None
           | _ \<Rightarrow> None))"

text \<open>The client cannot tell an unknown token from a token of a closed account: both are the same error.\<close>

definition visible :: "reply \<Rightarrow> reply" where
  "visible r = (case r of UnknownToken \<Rightarrow> AccountGone | _ \<Rightarrow> r)"

section \<open>How the statements act on the abstraction\<close>

lemma find_cong: "(\<And>x. x \<in> set xs \<Longrightarrow> P x = Q x) \<Longrightarrow> List.find P xs = List.find Q xs"
  by (induction xs) auto

lemma find_None_all: "(\<And>x. x \<in> set xs \<Longrightarrow> \<not> P x) \<Longrightarrow> List.find P xs = None"
  by (simp add: find_None_iff)

lemma live_find_iff:
  assumes "db_ok e db"
  shows "List.find (live_in f) (tokens db) = Some t \<longleftrightarrow> t \<in> set (tokens db) \<and> live_in f t"
proof
  assume t: "t \<in> set (tokens db) \<and> live_in f t"
  then obtain s where s: "List.find (live_in f) (tokens db) = Some s"
    by (cases "List.find (live_in f) (tokens db)") (auto simp: find_None_iff)
  then have s': "s \<in> set (tokens db)" "live_in f s" by (auto dest: find_SomeD)
  then have "t_id s = t_id t"
    using token_families[OF assms, of s t] t by (auto simp: family_ok_def live_in_def)
  then show "List.find (live_in f) (tokens db) = Some t"
    using s s' t same_token[OF assms, of s t] by simp
qed (auto dest: find_SomeD)

lemma issued_for_iff:
  assumes "db_ok e db" "t \<in> set (tokens db)"
  shows "issued_for (abs_sessions e db) (token_key e t) = Some (t_familyId t)"
proof -
  have "List.find (\<lambda>s. token_key e s = token_key e t) (tokens db) = Some t"
    using token_by_hash.lookup_iff[of e db "token_key e t" t] assms
    by (simp add: token_key_def db_ok_def tokens_ok_def)
  then show ?thesis by (simp add: abs_sessions_def)
qed

lemma current_iff:
  assumes "db_ok e db" "t \<in> set (tokens db)"
  shows "current (abs_sessions e db) (t_familyId t) = Some (token_key e t) \<longleftrightarrow> t_revokedAt t = None"
proof
  assume "current (abs_sessions e db) (t_familyId t) = Some (token_key e t)"
  then obtain s where "s \<in> set (tokens db)" "live_in (t_familyId t) s" "token_key e s = token_key e t"
    by (auto simp: abs_sessions_def dest: find_SomeD)
  moreover from this have "s = t"
    using assms by (auto simp: token_key_def db_ok_def tokens_ok_def distinct_map inj_on_def)
  ultimately show "t_revokedAt t = None" by (simp add: live_in_def)
next
  assume "t_revokedAt t = None"
  then have "List.find (live_in (t_familyId t)) (tokens db) = Some t"
    using live_find_iff[OF assms(1)] assms(2) by (simp add: live_in_def)
  then show "current (abs_sessions e db) (t_familyId t) = Some (token_key e t)" by (simp add: abs_sessions_def)
qed

lemma find_live_map:
  assumes "\<And>t. t_familyId (g t) = t_familyId t" "\<And>t. t_tokenHash (g t) = t_tokenHash t" "\<And>t. t_revokedAt (g t) \<noteq> None"
  shows "map_option (token_key e) (List.find (live_in f) (map (\<lambda>t. if P t then g t else t) ts)) =
         map_option (token_key e) (List.find (\<lambda>t. live_in f t \<and> \<not> P t) ts)"
proof -
  have "(\<lambda>t. live_in f (if P t then g t else t)) = (\<lambda>t. live_in f t \<and> \<not> P t)"
    using assms(3) by (auto simp: live_in_def fun_eq_iff)
  then show ?thesis using find_SomeD
    by (auto simp: find_map option.map_comp o_def token_key_def assms(2) intro: option.map_cong0 split: option.splits)
qed

lemma find_key_map:
  assumes "\<And>t. t_familyId (g t) = t_familyId t" "\<And>t. t_tokenHash (g t) = t_tokenHash t"
  shows "map_option t_familyId (List.find (\<lambda>t. token_key e t = h) (map (\<lambda>t. if P t then g t else t) ts)) =
         map_option t_familyId (List.find (\<lambda>t. token_key e t = h) ts)"
proof -
  have "(\<lambda>t. token_key e (if P t then g t else t) = h) = (\<lambda>t. token_key e t = h)"
    using assms(2) by (auto simp: token_key_def)
  moreover have "t_familyId \<circ> (\<lambda>t. if P t then g t else t) = t_familyId" using assms(1) by auto
  ultimately show ?thesis by (simp add: find_map option.map_comp)
qed

lemma abs_revokeFamily:
  assumes "canon e f = f"
  shows "abs_sessions e (revokeFamily e f n db) = ended f (abs_sessions e db)"
proof -
  let ?P = "\<lambda>t. t_familyId t = f \<and> t_revokedAt t = None" and ?g = "\<lambda>t. t\<lparr>t_revokedAt := Some (stored e n)\<rparr>"
  have live: "map_option (token_key e) (List.find (live_in k) (map (\<lambda>t. if ?P t then ?g t else t) (tokens db))) =
     ((current (abs_sessions e db))(f := None)) k" for k
  proof (cases "k = f")
    case True
    then have "List.find (\<lambda>t. live_in k t \<and> \<not> ?P t) (tokens db) = None"
      by (auto intro!: find_None_all simp: live_in_def)
    with True show ?thesis by (subst find_live_map) simp_all
  next
    case False
    then have "List.find (\<lambda>t. live_in k t \<and> \<not> ?P t) (tokens db) = List.find (live_in k) (tokens db)"
      by (auto intro!: find_cong simp: live_in_def)
    with False show ?thesis by (subst find_live_map) (simp_all add: abs_sessions_def)
  qed
  have "issued_for (abs_sessions e (revokeFamily e f n db)) = issued_for (abs_sessions e db)"
    using find_key_map[of ?g e] by (simp add: abs_sessions_def revokeFamily_def assms fun_eq_iff)
  moreover have "current (abs_sessions e (revokeFamily e f n db)) = (current (abs_sessions e db))(f := None)"
    using live by (simp add: abs_sessions_def revokeFamily_def assms fun_eq_iff)
  ultimately show ?thesis by (simp add: ended_def)
qed

lemma abs_markRevoked:
  assumes ok: "db_ok e db" and t: "t \<in> set (tokens db)"
  shows "abs_sessions e (markRevoked e (t_id t) rb n db) =
         (if t_revokedAt t = None then ended (t_familyId t) (abs_sessions e db) else abs_sessions e db)"
proof -
  let ?P = "\<lambda>s. t_id s = t_id t" and ?g = "\<lambda>s. s\<lparr>t_revokedAt := Some (stored e n), t_replacedBy := rb\<rparr>"
  have c: "canon e (t_id t) = t_id t" using token_row[OF ok t] by simp
  have P: "?P s \<longleftrightarrow> s = t" if "s \<in> set (tokens db)" for s using same_token[OF ok that t] by simp
  have live: "map_option (token_key e) (List.find (live_in k) (map (\<lambda>s. if ?P s then ?g s else s) (tokens db))) =
     (if t_revokedAt t = None then (current (abs_sessions e db))(t_familyId t := None) else current (abs_sessions e db)) k" for k
  proof (cases "t_revokedAt t = None \<and> k = t_familyId t")
    case True
    have "\<not> (live_in k s \<and> \<not> ?P s)" if "s \<in> set (tokens db)" for s
      using token_families[OF ok that t] True by (auto simp: live_in_def family_ok_def)
    then have "List.find (\<lambda>s. live_in k s \<and> \<not> ?P s) (tokens db) = None" by (rule find_None_all)
    with True show ?thesis by (subst find_live_map) simp_all
  next
    case False
    then have "(live_in k s \<and> \<not> ?P s) = live_in k s" if "s \<in> set (tokens db)" for s
      using P[OF that] by (auto simp: live_in_def)
    then have "List.find (\<lambda>s. live_in k s \<and> \<not> ?P s) (tokens db) = List.find (live_in k) (tokens db)"
      by (rule find_cong)
    with False show ?thesis by (subst find_live_map) (auto simp: abs_sessions_def)
  qed
  have "issued_for (abs_sessions e (markRevoked e (t_id t) rb n db)) = issued_for (abs_sessions e db)"
    using find_key_map[of ?g e] by (simp add: abs_sessions_def markRevoked_def c fun_eq_iff)
  moreover have "current (abs_sessions e (markRevoked e (t_id t) rb n db)) =
     (if t_revokedAt t = None then (current (abs_sessions e db))(t_familyId t := None) else current (abs_sessions e db))"
    using live by (simp add: abs_sessions_def markRevoked_def c fun_eq_iff)
  ultimately show ?thesis by (simp add: ended_def)
qed

lemma abs_insert_token:
  assumes ins: "insert_token e new db = Inr db1" and new: "t_revokedAt new = None"
    and alone: "current (abs_sessions e db) (t_familyId new) = None"
  shows "abs_sessions e db1 = renewed (t_familyId new) (token_key e new) (abs_sessions e db)"
proof -
  have db1: "tokens db1 = tokens db @ [new\<lparr>t_expiresAt := stored e (t_expiresAt new)\<rparr>]"
    and key: "\<forall>s\<in>set (tokens db). token_key e s \<noteq> token_key e new"
    using ins by (auto simp: insert_token_def token_key_def split: if_splits)
  have none: "List.find (live_in (t_familyId new)) (tokens db) = None"
    using alone by (simp add: abs_sessions_def)
  have "List.find (\<lambda>t. token_key e t = token_key e new) (tokens db) = None"
    using key by (intro find_None_all) blast
  then show ?thesis
    using none new by (auto simp: abs_sessions_def renewed_def db1 find_append fun_eq_iff token_key_def live_in_def
        split: option.splits)
qed

lemma abs_rotate:
  assumes ok: "db_ok e db" and t: "t \<in> set (tokens db)" "t_revokedAt t = None"
    and r: "rotate e w t u r db = (Inr out, db')"
  shows "ro_sessionId out = t_familyId t"
    "abs_sessions e db' = renewed (t_familyId t) (key_of e (ro_refreshToken out)) (abs_sessions e db)"
proof -
  let ?i = "issueRefreshToken e w (clock w 1) (t_sessionExpiresAt t)"
  define new where "new = new_refresh_token (u_id u) (t_familyId t) (i_hash ?i) (i_expiresAt ?i)
     (Some (i_sessionExpiresAt ?i)) (fresh_id w 0)"
  let ?m = "markRevoked e (t_id t) (Some (fresh_id w 0)) (clock w 2)"
  obtain db1 where db1: "insert_token e new db = Inr db1" and db': "db' = ?m db1"
    and out: "ro_sessionId out = t_familyId t" "ro_refreshToken out = i_plaintext ?i"
    using r by (auto simp: rotate_def Let_def new_def split: sum.splits)
  show "ro_sessionId out = t_familyId t" by (rule out(1))
  have "insert_token e new (?m db) = Inr db'"
    using rotate_commutes[OF db1 t(1)] token_row[OF ok t(1)] db' by simp
  moreover have m: "abs_sessions e (?m db) = ended (t_familyId t) (abs_sessions e db)"
    using abs_markRevoked[OF ok t(1)] t(2) by simp
  ultimately have "abs_sessions e db' = renewed (t_familyId t) (token_key e new) (abs_sessions e (?m db))"
    using abs_insert_token[of e new "?m db" db'] by (simp add: new_def ended_def)
  moreover have "token_key e new = key_of e (ro_refreshToken out)"
    by (simp add: token_key_def new_def key_of_def out(2) issueRefreshToken_def Let_def)
  ultimately show "abs_sessions e db' = renewed (t_familyId t) (key_of e (ro_refreshToken out)) (abs_sessions e db)"
    by (simp add: m renewed_def ended_def)
qed

lemma auth_codes [simp]:
  "authError cls INVALID_REFRESH_TOKEN = HttpException cls INVALID_REFRESH_TOKEN ''Invalid or expired refresh token.'' None"
  "authError cls REFRESH_TOKEN_REUSE = HttpException cls REFRESH_TOKEN_REUSE ''Invalid or expired refresh token.'' None"
  "authError cls SESSION_EXPIRED = HttpException cls SESSION_EXPIRED ''Your session has expired. Please sign in again.'' None"
  "authError cls UNKNOWN_ROLE = HttpException cls UNKNOWN_ROLE ''Invalid email or password.'' None"
  by (simp_all add: authError_def AUTH_ERROR_MESSAGES_def INVALID_REFRESH_TOKEN_def REFRESH_TOKEN_REUSE_def
      SESSION_EXPIRED_def UNKNOWN_ROLE_def INVALID_CREDENTIALS_def ACCOUNT_LOCKED_def PASSWORD_SAME_AS_CURRENT_def)

lemma codes_distinct [simp]:
  "INVALID_REFRESH_TOKEN \<noteq> SESSION_EXPIRED" "INVALID_REFRESH_TOKEN \<noteq> REFRESH_TOKEN_REUSE"
  "INVALID_REFRESH_TOKEN \<noteq> UNKNOWN_ROLE" "REFRESH_TOKEN_REUSE \<noteq> SESSION_EXPIRED"
  "UNKNOWN_ROLE \<noteq> SESSION_EXPIRED" "UNKNOWN_ROLE \<noteq> REFRESH_TOKEN_REUSE"
  by (simp_all add: INVALID_REFRESH_TOKEN_def REFRESH_TOKEN_REUSE_def SESSION_EXPIRED_def UNKNOWN_ROLE_def)

lemma insert_token_fresh:
  assumes "u_id u \<in> u_id ` set (users db)" "i \<notin> t_id ` set (tokens db)" "collate e h \<notin> token_key e ` set (tokens db)"
  shows "\<exists>db1. insert_token e (new_refresh_token (u_id u) f h x d i) db = Inr db1"
  using assms by (auto simp: insert_token_def token_key_def image_iff)

section \<open>The refinement\<close>

lemma refresh_refines:
  assumes ok: "db_ok e db"
    and fresh: "fresh_id w 0 \<notin> t_id ` set (tokens db)" "key_of e (random_token w) \<notin> token_key e ` set (tokens db)"
    and spec: "spec_refresh (circumstance_of e (clock w 0) p db) (key_of e p) (key_of e (random_token w)) (abs_sessions e db)
       = (rep, S')"
  shows "reply_of e (fst (refresh_tokens e w p db)) = Some (visible rep) \<and> abs_sessions e (snd (refresh_tokens e w p db)) = S'"
proof (cases "findByTokenHash e (hashRefreshToken e p) db")
  case None
  then have "issued_for (abs_sessions e db) (key_of e p) = None"
    by (simp add: abs_sessions_def findByTokenHash_def key_of_def token_key_def)
  with None spec show ?thesis
    by (auto simp: spec_refresh_def refresh_tokens_def refresh_check_def refresh_commit_def reply_of_def visible_def)
next
  case (Some t)
  then have t: "t \<in> set (tokens db)" "token_key e t = key_of e p"
    using findByTokenHash_iff[OF ok] by (auto simp: token_key_def key_of_def)
  have iss: "issued_for (abs_sessions e db) (key_of e p) = Some (t_familyId t)"
    and cur: "current (abs_sessions e db) (t_familyId t) = Some (key_of e p) \<longleftrightarrow> t_revokedAt t = None"
    using issued_for_iff[OF ok t(1)] current_iff[OF ok t(1)] t(2) by simp_all
  have rev: "abs_sessions e (revokeFamily e (t_familyId t) n db) = ended (t_familyId t) (abs_sessions e db)" for n
    using abs_revokeFamily token_row[OF ok t(1)] by blast
  show ?thesis
  proof (cases "refresh_check e (clock w 0) p db")
    case (Refuse err fam)
    then show ?thesis
      using spec iss cur rev Some
      by (auto simp: refresh_tokens_def refresh_commit_def refresh_check_def spec_refresh_def circumstance_of_def
          reply_of_def visible_def Let_def split: if_splits option.splits)
  next
    case (Rotate t' u r)
    note c = refresh_check_Rotate[OF Rotate]
    have tt: "t' = t" using c(1) Some by simp
    have usr: "u_id u \<in> u_id ` set (users db)" using c(5) findUserById_iff[OF ok] by blast
    have "\<exists>out db'. rotate e w t u r db = (Inr out, db') \<and> ro_refreshToken out = random_token w"
      using insert_token_fresh[OF usr fresh(1), of e "hashRefreshToken e (random_token w)"] fresh(2)
      by (auto simp: rotate_def Let_def issueRefreshToken_def key_of_def split: sum.splits) (metis sum.distinct(1))+
    then obtain out db' where rot: "rotate e w t u r db = (Inr out, db')" and plain: "ro_refreshToken out = random_token w"
      by blast
    note a = abs_rotate[OF ok t(1) _ rot]
    have "circumstance_of e (clock w 0) p db = Usable"
      using c Some tt by (auto simp: circumstance_of_def)
    then have "rep = Renewed (t_familyId t) (key_of e (random_token w))"
      "S' = renewed (t_familyId t) (key_of e (random_token w)) (abs_sessions e db)"
      using spec iss cur c(2) tt by (auto simp: spec_refresh_def)
    then show ?thesis
      using Rotate tt rot a c(2) plain by (simp add: refresh_tokens_def refresh_commit_def reply_of_def visible_def)
  qed
qed

lemma logout_refines:
  assumes ok: "db_ok e db"
  shows "abs_sessions e (snd (logout e w p False db)) = spec_logout (key_of e p) (abs_sessions e db)"
proof (cases "findByTokenHash e (hashRefreshToken e p) db")
  case None
  then show ?thesis
    by (simp add: logout_def spec_logout_def abs_sessions_def findByTokenHash_def key_of_def token_key_def)
next
  case (Some t)
  then have t: "t \<in> set (tokens db)" "token_key e t = key_of e p"
    using findByTokenHash_iff[OF ok] by (auto simp: token_key_def key_of_def)
  show ?thesis
    using Some abs_markRevoked[OF ok t(1)] issued_for_iff[OF ok t(1)] current_iff[OF ok t(1)] t(2)
    by (auto simp: logout_def spec_logout_def)
qed

section \<open>A concrete portal\<close>

text \<open>A database with one user and one open session, used to show that hypotheses can hold.\<close>

definition demo_env :: auth_env where
  "demo_env = \<lparr>collate = (\<lambda>x. x), canon = (\<lambda>x. x), stored = (\<lambda>t. t), like = (\<lambda>x p. True),
     bcrypt_compare = (\<lambda>p h. p = h), sha256_hex = (\<lambda>x. x), jwt_sign = (\<lambda>c s. c_sub c),
     jwt_verify = (\<lambda>t s i. Some \<lparr>c_sub = t, c_role = [], c_fspId = None, c_permissions = [], c_mustChangePassword = False,
        c_iat = 5, c_exp = 100, c_jti = []\<rparr>),
     jwtSecret = ''s'', jwtIssuer = ''pivotal'', accessTokenTtlSeconds = 900, sessionIdleTimeoutMinutes = 30,
     sessionAbsoluteTimeoutHours = 12, bcryptCostFactor = 12, loginLockoutThreshold = 2,
     loginLockoutDurationMinutes = 15, adminSeedEmail = ''a'', adminSeedTempPassword = ''t''\<rparr>"

definition demo_world :: "int \<Rightarrow> string \<Rightarrow> string \<Rightarrow> auth_world" where
  "demo_world now ident token = \<lparr>clock = (\<lambda>_. now), fresh_id = (\<lambda>_. ident), random_token = token,
     random_int = (\<lambda>_ _. 0), bcrypt_hash = (\<lambda>p _. p), db_now = now\<rparr>"

definition demo_user :: user where
  "demo_user = new_user ''m'' ''pw'' ''r1'' None False ''u1'' 0"

definition demo_db :: auth_db where
  "demo_db = \<lparr>users = [demo_user],
     roles = [\<lparr>r_id = ''r1'', r_code = ''ADMIN'', r_name = ''A'', r_description = None, r_scope = HUB, r_isSystem = True,
       r_createdAt = 0\<rparr>],
     permissions = [\<lparr>p_id = ''p1'', p_keyName = ''admin.users.manage'', p_description = None, p_scope = HUB\<rparr>],
     role_permissions = [\<lparr>rp_roleId = ''r1'', rp_permissionId = ''p1''\<rparr>],
     tokens = [new_refresh_token ''u1'' ''f1'' ''tok'' 1000 (Some 9000) ''t1'']\<rparr>"

lemmas demo_defs = demo_env_def demo_world_def demo_user_def demo_db_def new_user_def new_refresh_token_def

lemma demo_db_ok: "db_ok demo_env demo_db"
  by (simp add: demo_defs db_ok_def users_ok_def roles_ok_def permissions_ok_def links_ok_def tokens_ok_def family_ok_def)

lemma demo_world_ok: "world_ok demo_env (demo_world n i t)"
  by (simp add: world_ok_def demo_defs)

section \<open>Properties\<close>

text \<open>
  C5: Refreshing and logging out implement the session specification.  Whatever the clock, the account and the
  role say, the reply and the new sessions are the ones the specification gives: the current token of a family
  is replaced by the new one in the same family, any other token of the family (a replayed one) ends the session,
  an elapsed or closed one is ended, and nothing else changes.
\<close>

theorem refresh_implements_spec:
  assumes "db_ok e db" and "fresh_id w 0 \<notin> t_id ` set (tokens db)"
    and "key_of e (random_token w) \<notin> token_key e ` set (tokens db)"
  shows "map_prod (reply_of e) (abs_sessions e) (refresh_tokens e w p db) =
      map_prod (Some \<circ> visible) id
        (spec_refresh (circumstance_of e (clock w 0) p db) (key_of e p) (key_of e (random_token w)) (abs_sessions e db))
    \<and> abs_sessions e (snd (logout e w p False db)) = spec_logout (key_of e p) (abs_sessions e db)"
proof -
  let ?spec = "spec_refresh (circumstance_of e (clock w 0) p db) (key_of e p) (key_of e (random_token w)) (abs_sessions e db)"
  have "reply_of e (fst (refresh_tokens e w p db)) = Some (visible (fst ?spec)) \<and>
        abs_sessions e (snd (refresh_tokens e w p db)) = snd ?spec"
    using refresh_refines[OF assms, of p "fst ?spec" "snd ?spec"] by simp
  then have "map_prod (reply_of e) (abs_sessions e) (refresh_tokens e w p db) = map_prod (Some \<circ> visible) id ?spec"
    by (auto simp: prod_eq_iff)
  then show ?thesis using logout_refines[OF assms(1)] by blast
qed

theorem refresh_implements_spec_witness:
  "map_prod (reply_of demo_env) (abs_sessions demo_env) (refresh_tokens demo_env (demo_world 500 ''t2'' ''new'') ''tok'' demo_db) =
     (Some (Renewed ''f1'' ''new''), renewed ''f1'' ''new'' (abs_sessions demo_env demo_db))"
proof -
  have f: "fresh_id (demo_world 500 ''t2'' ''new'') 0 \<notin> t_id ` set (tokens demo_db)"
    "key_of demo_env (random_token (demo_world 500 ''t2'' ''new'')) \<notin> token_key demo_env ` set (tokens demo_db)"
    by (simp_all add: demo_defs key_of_def token_key_def hashRefreshToken_def)
  have "spec_refresh (circumstance_of demo_env 500 ''tok'' demo_db) ''tok'' ''new'' (abs_sessions demo_env demo_db) =
     (Renewed ''f1'' ''new'', renewed ''f1'' ''new'' (abs_sessions demo_env demo_db))"
    by (simp add: spec_refresh_def circumstance_of_def abs_sessions_def token_key_def live_in_def demo_defs
        hashRefreshToken_def lookup_defs)
  moreover have "clock (demo_world 500 ''t2'' ''new'') 0 = 500" "key_of demo_env ''tok'' = ''tok''"
    "key_of demo_env (random_token (demo_world 500 ''t2'' ''new'')) = ''new''"
    by (simp_all add: demo_defs key_of_def hashRefreshToken_def)
  ultimately show ?thesis
    using refresh_implements_spec[OF demo_db_ok f, of "''tok''"] by (simp add: visible_def)
qed

lemma family_deadline:
  assumes "db_ok e db" "s \<in> set (tokens db)" "t \<in> set (tokens db)" "t_familyId s = t_familyId t"
  shows "t_sessionExpiresAt s = t_sessionExpiresAt t"
  using token_families[OF assms(1-3)] assms(4) by (simp add: family_ok_def)

lemma revokeFamily_kills:
  "s \<in> set (tokens (revokeFamily e f n db)) \<Longrightarrow> t_familyId s = canon e f \<Longrightarrow> t_revokedAt s \<noteq> None"
  by (auto simp: revokeFamily_def split: if_splits)

lemma rotate_output:
  assumes "rotate e w t u r db = (Inr out, db')" "t_sessionExpiresAt t = Some d"
  shows "ro_sessionExpiresAt out = d" "ro_refreshTokenExpiresAt out = min (clock w 1 + sessionIdleTimeoutMinutes e * 60000) d"
    "\<exists>c. ro_accessToken out = jwt_sign e c (jwtSecret e) \<and> c_exp c \<le> d div 1000"
    "\<forall>s\<in>set (tokens db). \<exists>s'\<in>set (tokens db'). t_familyId s' = t_familyId s \<and> t_sessionExpiresAt s' = t_sessionExpiresAt s"
proof -
  obtain db1 new where db1: "insert_token e new db = Inr db1"
    and db': "db' = markRevoked e (t_id t) (Some (fresh_id w 0)) (clock w 2) db1"
    using assms(1) by (auto simp: rotate_def Let_def split: sum.splits)
  have t_new: "tokens db1 = tokens db @ [new\<lparr>t_expiresAt := stored e (t_expiresAt new)\<rparr>]"
    using db1 by (auto simp: insert_token_def split: if_splits)
  show "ro_sessionExpiresAt out = d" "ro_refreshTokenExpiresAt out = min (clock w 1 + sessionIdleTimeoutMinutes e * 60000) d"
    using assms by (auto simp: rotate_def Let_def issueRefreshToken_def split: sum.splits)
  show "\<exists>c. ro_accessToken out = jwt_sign e c (jwtSecret e) \<and> c_exp c \<le> d div 1000"
    using assms by (auto simp: rotate_def Let_def issueRefreshToken_def signAccessToken_def access_token_claims_def
        split: sum.splits intro!: exI)
  show "\<forall>s\<in>set (tokens db). \<exists>s'\<in>set (tokens db'). t_familyId s' = t_familyId s \<and> t_sessionExpiresAt s' = t_sessionExpiresAt s"
  proof
    fix s assume s: "s \<in> set (tokens db)"
    let ?g = "\<lambda>x. if t_id x = canon e (t_id t) then x\<lparr>t_revokedAt := Some (stored e (clock w 2)), t_replacedBy := Some (fresh_id w 0)\<rparr> else x"
    have "?g s \<in> set (tokens db')" using s by (simp add: db' markRevoked_def t_new)
    moreover have "t_familyId (?g s) = t_familyId s" "t_sessionExpiresAt (?g s) = t_sessionExpiresAt s" by simp_all
    ultimately show "\<exists>s'\<in>set (tokens db'). t_familyId s' = t_familyId s \<and> t_sessionExpiresAt s' = t_sessionExpiresAt s"
      by blast
  qed
qed

text \<open>
  C34: A session has one deadline, fixed at login.  Once it has passed, presenting any token of the family fails
  with the reason \<open>absolute\<close> and leaves no usable token in the family.  A refresh that succeeds came before
  the deadline and hands out the same deadline, a refresh token that ends by it and within the idle timeout, and
  an access token that ends by it; every token of the family keeps the deadline.
\<close>

theorem session_deadline_is_final:
  assumes ok: "db_ok e db" and w: "world_ok e w" and t: "t \<in> set (tokens db)" "t_sessionExpiresAt t = Some d"
    and s: "findByTokenHash e (hashRefreshToken e p) db = Some s" "t_familyId s = t_familyId t"
  shows "(d \<le> clock w 0 \<longrightarrow>
       (\<exists>msg. fst (refresh_tokens e w p db) = Inl (HttpException Unauthorized SESSION_EXPIRED msg (Some ''absolute''))) \<and>
       (\<forall>x\<in>set (tokens (snd (refresh_tokens e w p db))). t_familyId x = t_familyId t \<longrightarrow> t_revokedAt x \<noteq> None))
    \<and> (\<forall>out db'. refresh_tokens e w p db = (Inr out, db') \<longrightarrow>
       clock w 0 < d \<and> ro_sessionExpiresAt out = d \<and> ro_refreshTokenExpiresAt out \<le> d \<and>
       ro_refreshTokenExpiresAt out \<le> clock w 1 + sessionIdleTimeoutMinutes e * 60000 \<and>
       (\<exists>c. ro_accessToken out = jwt_sign e c (jwtSecret e) \<and> c_exp c \<le> d div 1000) \<and>
       (\<forall>x\<in>set (tokens db'). t_familyId x = t_familyId t \<longrightarrow> t_sessionExpiresAt x = Some d))"
proof (intro conjI impI allI)
  have s': "s \<in> set (tokens db)" using s(1) findByTokenHash_iff[OF ok] by blast
  have sd: "t_sessionExpiresAt s = Some d" using family_deadline[OF ok s' t(1) s(2)] t(2) by simp
  {
    assume late: "d \<le> clock w 0"
    have c: "refresh_check e (clock w 0) p db = Refuse (HttpException Unauthorized SESSION_EXPIRED
        ''Your session has expired. Please sign in again.'' (Some ''absolute'')) (Some (t_familyId s))"
      using s(1) sd late by (simp add: refresh_check_def)
    show "\<exists>msg. fst (refresh_tokens e w p db) = Inl (HttpException Unauthorized SESSION_EXPIRED msg (Some ''absolute''))"
      by (simp add: refresh_tokens_def refresh_commit_def c)
    show "\<forall>x\<in>set (tokens (snd (refresh_tokens e w p db))). t_familyId x = t_familyId t \<longrightarrow> t_revokedAt x \<noteq> None"
      using revokeFamily_kills token_row[OF ok t(1)] by (auto simp: refresh_tokens_def refresh_commit_def c s(2))
  }
  fix out db' assume r: "refresh_tokens e w p db = (Inr out, db')"
  then obtain u ro where c: "refresh_check e (clock w 0) p db = Rotate s u ro"
    using s(1) refresh_check_Rotate(1)
    by (fastforce simp: refresh_tokens_def refresh_commit_def split: refresh_decision.splits)
  then have rot: "rotate e w s u ro db = (Inr out, db')" using r by (simp add: refresh_tokens_def refresh_commit_def)
  note o = rotate_output[OF rot sd]
  show "clock w 0 < d" using refresh_check_Rotate(3)[OF c] sd by simp
  show "ro_sessionExpiresAt out = d" "ro_refreshTokenExpiresAt out \<le> d"
    "ro_refreshTokenExpiresAt out \<le> clock w 1 + sessionIdleTimeoutMinutes e * 60000"
    "\<exists>c. ro_accessToken out = jwt_sign e c (jwtSecret e) \<and> c_exp c \<le> d div 1000"
    using o by auto
  have ok': "db_ok e db'" using db_ok_refresh[OF ok w, of p] r by simp
  obtain t' where t': "t' \<in> set (tokens db')" "t_familyId t' = t_familyId t" "t_sessionExpiresAt t' = Some d"
    using o(4) t by metis
  then show "\<forall>x\<in>set (tokens db'). t_familyId x = t_familyId t \<longrightarrow> t_sessionExpiresAt x = Some d"
    using family_deadline[OF ok' _ t'(1)] by metis
qed

theorem session_deadline_is_final_witness:
  "\<exists>msg. fst (refresh_tokens demo_env (demo_world 9000 ''t2'' ''new'') ''tok'' demo_db) =
     Inl (HttpException Unauthorized SESSION_EXPIRED msg (Some ''absolute''))"
proof -
  let ?t = "new_refresh_token ''u1'' ''f1'' ''tok'' 1000 (Some 9000) ''t1''"
  have t: "?t \<in> set (tokens demo_db)" "t_sessionExpiresAt ?t = Some 9000"
    "findByTokenHash demo_env (hashRefreshToken demo_env ''tok'') demo_db = Some ?t" "t_familyId ?t = t_familyId ?t"
    by (simp_all add: demo_defs findByTokenHash_def hashRefreshToken_def)
  have "(9000::int) \<le> clock (demo_world 9000 ''t2'' ''new'') 0" by (simp add: demo_defs)
  then show ?thesis using session_deadline_is_final[OF demo_db_ok demo_world_ok[of 9000 "''t2''" "''new''"] t] by blast
qed

text \<open>
  The handler reads the token and writes its successor in separate statements, with no transaction around
  them.  When two requests read the same current token before either writes, both rotate it, and the family
  is left with two usable tokens.
\<close>

lemma interleaved_refreshes_fork_family:
  assumes ok: "db_ok e db"
    and reads: "refresh_check e (clock w 0) p db = Rotate t u r" "refresh_check e (clock v 0) p db = Rotate t u r"
    and writes: "refresh_commit e w (Rotate t u r) db = (Inr out1, db1)" "refresh_commit e v (Rotate t u r) db1 = (Inr out2, db2)"
    and ids: "fresh_id w 0 \<noteq> t_id t" "fresh_id v 0 \<noteq> t_id t" "canon e (t_id t) = t_id t"
  shows "\<exists>x\<in>set (tokens db2). \<exists>y\<in>set (tokens db2). live_in (t_familyId t) x \<and> live_in (t_familyId t) y \<and> t_id x \<noteq> t_id y"
proof -
  let ?new = "\<lambda>w. new_refresh_token (u_id u) (t_familyId t) (hashRefreshToken e (random_token w))
     (stored e (i_expiresAt (issueRefreshToken e w (clock w 1) (t_sessionExpiresAt t))))
     (Some (i_sessionExpiresAt (issueRefreshToken e w (clock w 1) (t_sessionExpiresAt t)))) (fresh_id w 0)"
  have step: "?new w \<in> set (tokens db')" "fresh_id w 0 \<notin> t_id ` set (tokens db0)"
    "\<forall>s\<in>set (tokens db0). t_id s \<noteq> t_id t \<longrightarrow> s \<in> set (tokens db')"
    if "refresh_commit e w (Rotate t u r) db0 = (Inr out, db')" "fresh_id w 0 \<noteq> t_id t" for w db0 out db'
    using that ids(3)
    by (auto simp: refresh_commit_def rotate_def Let_def insert_token_def markRevoked_def issueRefreshToken_def
        new_refresh_token_def split: sum.splits if_splits)
  note s1 = step[OF writes(1) ids(1)] and s2 = step[OF writes(2) ids(2)]
  have x: "?new w \<in> set (tokens db2)" using s1(1) s2(3) ids(1) by simp
  have "fresh_id v 0 \<noteq> fresh_id w 0" using s1(1) s2(2) by (metis image_eqI new_token_simps(1))
  moreover have "live_in (t_familyId t) (?new w)" "live_in (t_familyId t) (?new v)" by (simp_all add: live_in_def)
  ultimately show ?thesis using x s2(1) by (metis new_token_simps(1))
qed

section \<open>Lockout\<close>

fun login_attempts ::
  "auth_env \<Rightarrow> string \<Rightarrow> (auth_world \<times> string) list \<Rightarrow> auth_db \<Rightarrow> (auth_failure, login_output) result list \<times> auth_db" where
  "login_attempts e mail [] db = ([], db)"
| "login_attempts e mail ((w, password) # xs) db =
     (case login e w mail password db of
        (r, db1) \<Rightarrow> (case login_attempts e mail xs db1 of (rs, db2) \<Rightarrow> (r # rs, db2)))"

definition lock_end :: "auth_env \<Rightarrow> auth_world \<Rightarrow> int" where
  "lock_end e w = stored e (clock w 1 + loginLockoutDurationMinutes e * 60 * 1000)"

lemma login_wrong_password:
  assumes "db_ok e db" "findByEmail e mail db = Some u" "u_isActive u" "u_lockedUntil u = None"
    and "\<not> bcrypt_compare e pw (u_passwordHash u)"
  defines "n \<equiv> u_failedLoginAttempts u + 1"
  shows "fst (login e w mail pw db) = Inl (if loginLockoutThreshold e \<le> n
      then accountLockedError (loginLockoutDurationMinutes e) else authError Unauthorized INVALID_CREDENTIALS)"
    "findByEmail e mail (snd (login e w mail pw db)) = Some (u\<lparr>u_failedLoginAttempts := n,
       u_lockedUntil := if loginLockoutThreshold e \<le> n then Some (lock_end e w) else None\<rparr>)"
    "db_ok e (snd (login e w mail pw db))"
proof -
  have c: "canon e (u_id u) = u_id u" using assms(1,2) findByEmail_iff user_row by blast
  have l: "login e w mail pw db = (case handleFailedAttempt e w (u_id u) n db of (locked, db1) \<Rightarrow>
      (Inl (if locked then accountLockedError (loginLockoutDurationMinutes e)
            else authError Unauthorized INVALID_CREDENTIALS), db1))"
    using assms(2-5) by (simp add: login_def n_def)
  show "fst (login e w mail pw db) = Inl (if loginLockoutThreshold e \<le> n
      then accountLockedError (loginLockoutDurationMinutes e) else authError Unauthorized INVALID_CREDENTIALS)"
    by (simp add: l handleFailedAttempt_def Let_def)
  have inc: "findByEmail e mail (incrementFailedAttempts e (u_id u) db) = Some (u\<lparr>u_failedLoginAttempts := n\<rparr>)"
    using assms(2) user_by_email.lookup_upd[of e "\<lambda>u. u\<lparr>u_failedLoginAttempts := u_failedLoginAttempts u + 1\<rparr>" "collate e mail"]
    by (simp add: findByEmail_def incrementFailedAttempts_def c n_def del: tables_of_update_users(1))
  have lk: "findByEmail e mail (lockUntil e (u_id u) m db1) = Some (v\<lparr>u_lockedUntil := Some (stored e m)\<rparr>)"
    if "findByEmail e mail db1 = Some v" "u_id v = u_id u" for db1 v m
    using that user_by_email.lookup_upd[of e "\<lambda>u. u\<lparr>u_lockedUntil := Some (stored e m)\<rparr>" "collate e mail"]
    by (simp add: findByEmail_def lockUntil_def c del: tables_of_update_users(1))
  show "findByEmail e mail (snd (login e w mail pw db)) = Some (u\<lparr>u_failedLoginAttempts := n,
       u_lockedUntil := if loginLockoutThreshold e \<le> n then Some (lock_end e w) else None\<rparr>)"
    using inc lk[OF inc] assms(4) by (simp add: l handleFailedAttempt_def Let_def lock_end_def)
  show "db_ok e (snd (login e w mail pw db))"
    using db_ok_handleFailedAttempt[OF assms(1)] by (simp add: l case_prod_unfold)
qed

lemma attempts_lock:
  assumes "db_ok e db" "findByEmail e mail db = Some u" "u_isActive u" "u_lockedUntil u = None"
    and "u_failedLoginAttempts u + int (length xs) = loginLockoutThreshold e" "xs \<noteq> []"
    and "list_all (\<lambda>x. \<not> bcrypt_compare e (snd x) (u_passwordHash u)) xs"
  shows "login_attempts e mail xs db = (rs, db') \<Longrightarrow>
    rs = replicate (length xs - 1) (Inl (authError Unauthorized INVALID_CREDENTIALS))
         @ [Inl (accountLockedError (loginLockoutDurationMinutes e))]
    \<and> db_ok e db' \<and> findByEmail e mail db' = Some (u\<lparr>u_failedLoginAttempts := loginLockoutThreshold e,
         u_lockedUntil := Some (lock_end e (fst (last xs)))\<rparr>)"
  using assms
proof (induction xs arbitrary: db u rs)
  case (Cons x xs)
  obtain w pw where x: "x = (w, pw)" by (cases x)
  obtain r db1 where l: "login e w mail pw db = (r, db1)" by (cases "login e w mail pw db")
  obtain rs1 db2 where l2: "login_attempts e mail xs db1 = (rs1, db2)" by (cases "login_attempts e mail xs db1")
  have out: "rs = r # rs1" "db' = db2" using Cons.prems(1) by (simp_all add: x l l2)
  have wrong: "\<not> bcrypt_compare e pw (u_passwordHash u)" using Cons.prems(8) by (simp add: x)
  note s = login_wrong_password[OF Cons.prems(2-5) wrong, of w, unfolded l fst_conv snd_conv]
  show ?case
  proof (cases "xs = []")
    case True
    then have "u_failedLoginAttempts u + 1 = loginLockoutThreshold e" using Cons.prems(6) by simp
    with True s l2 out show ?thesis by (simp add: x)
  next
    case False
    have below: "\<not> loginLockoutThreshold e \<le> u_failedLoginAttempts u + 1"
      using Cons.prems(6) False by (cases xs) simp_all
    let ?u = "u\<lparr>u_failedLoginAttempts := u_failedLoginAttempts u + 1, u_lockedUntil := None\<rparr>"
    have f: "findByEmail e mail db1 = Some ?u" using s(2) below by simp
    have "rs1 = replicate (length xs - 1) (Inl (authError Unauthorized INVALID_CREDENTIALS))
         @ [Inl (accountLockedError (loginLockoutDurationMinutes e))]
      \<and> db_ok e db' \<and> findByEmail e mail db' = Some (?u\<lparr>u_failedLoginAttempts := loginLockoutThreshold e,
         u_lockedUntil := Some (lock_end e (fst (last xs)))\<rparr>)"
      using Cons.IH[OF _ s(3) f] l2 out Cons.prems False by simp
    then show ?thesis
      using False s(1) below out by (cases xs) (simp_all add: x)
  qed
qed simp

text \<open>
  A run of wrong passwords locks the account.  From an unlocked account, the attempts up to one before the
  threshold are answered with invalid credentials, the one that reaches the threshold with account locked, and
  from then until the stored lock end every login for that e-mail is refused as locked and changes nothing,
  whatever the password.
\<close>

theorem lockout_after_threshold:
  assumes "db_ok e db" and "findByEmail e mail db = Some u" and "u_isActive u" and "u_lockedUntil u = None"
    and "u_failedLoginAttempts u + int (length xs) = loginLockoutThreshold e" and "xs \<noteq> []"
    and "list_all (\<lambda>x. \<not> bcrypt_compare e (snd x) (u_passwordHash u)) xs"
    and "login_attempts e mail xs db = (rs, db')" and "clock w 0 < lock_end e (fst (last xs))"
  shows "rs = replicate (length xs - 1) (Inl (authError Unauthorized INVALID_CREDENTIALS))
         @ [Inl (accountLockedError (loginLockoutDurationMinutes e))]
    \<and> login e w mail pw db' =
        (Inl (accountLockedError (remainingLockoutMinutes (lock_end e (fst (last xs))) (clock w 0))), db')"
proof -
  note l = attempts_lock[OF assms(1-7) assms(8)]
  then have f: "findByEmail e mail db' = Some (u\<lparr>u_failedLoginAttempts := loginLockoutThreshold e,
         u_lockedUntil := Some (lock_end e (fst (last xs)))\<rparr>)" by blast
  show ?thesis using l assms(3,9) by (simp add: login_def f Let_def)
qed

theorem lockout_after_threshold_witness:
  "login demo_env (demo_world 99 ''x'' ''y'') ''m'' ''pw''
     (snd (login_attempts demo_env ''m'' [(demo_world 1 ''x'' ''y'', ''no''), (demo_world 2 ''x'' ''y'', ''no'')] demo_db))
   = (Inl (accountLockedError (remainingLockoutMinutes 900002 99)),
      snd (login_attempts demo_env ''m'' [(demo_world 1 ''x'' ''y'', ''no''), (demo_world 2 ''x'' ''y'', ''no'')] demo_db))"
proof -
  let ?xs = "[(demo_world 1 ''x'' ''y'', ''no''), (demo_world 2 ''x'' ''y'', ''no'')]"
  have h: "findByEmail demo_env ''m'' demo_db = Some demo_user" "u_isActive demo_user" "u_lockedUntil demo_user = None"
    "u_failedLoginAttempts demo_user + int (length ?xs) = loginLockoutThreshold demo_env" "?xs \<noteq> []"
    "list_all (\<lambda>x. \<not> bcrypt_compare demo_env (snd x) (u_passwordHash demo_user)) ?xs"
    by (simp_all add: demo_defs findByEmail_def)
  have e: "lock_end demo_env (fst (last ?xs)) = 900002" "clock (demo_world 99 ''x'' ''y'') 0 = 99"
    by (simp_all add: demo_defs lock_end_def)
  show ?thesis
    using lockout_after_threshold[OF demo_db_ok h, of "fst (login_attempts demo_env ''m'' ?xs demo_db)"
        "snd (login_attempts demo_env ''m'' ?xs demo_db)" "demo_world 99 ''x'' ''y''" "''pw''"] e
    by simp
qed

end
