(* ===== verification/Auth_Users.thy ===== *)
theory Auth_Users
  imports Auth_Sessions "HOL-Library.Multiset"
begin

text \<open>
  User management: \<open>temp-password.service.ts\<close>, \<open>user-management-policy.service.ts\<close>, the handlers that create,
  update, deactivate a user and reset a password.  A handler that
  checks before it writes is split into the check, which yields what to write, and the write.
\<close>

section \<open>Temporary passwords\<close>

definition LOWER :: string where "LOWER = ''abcdefghijkmnopqrstuvwxyz''"
definition UPPER :: string where "UPPER = ''ABCDEFGHJKLMNPQRSTUVWXYZ''"
definition DIGITS :: string where "DIGITS = ''23456789''"
definition SYMBOL :: string where "SYMBOL = ''!@#$%^&*?_-+=''"
definition DEFAULT_LENGTH :: nat where "DEFAULT_LENGTH = 16"

text \<open>\<open>random_int w k n\<close> is the answer of the \<open>k\<close>-th call \<open>randomInt(0, n)\<close>.\<close>

definition pick :: "auth_world \<Rightarrow> nat \<Rightarrow> string \<Rightarrow> char" where
  "pick w k charset = charset ! random_int w k (length charset)"

function fill_chars :: "auth_world \<Rightarrow> nat \<Rightarrow> string \<Rightarrow> string" where
  "fill_chars w n chars =
     (if length chars < n then fill_chars w n (chars @ [pick w (length chars) (LOWER @ UPPER @ DIGITS @ SYMBOL)])
      else chars)"
  by auto
termination by (relation "measure (\<lambda>(w, n, chars). n - length chars)") auto

declare fill_chars.simps [simp del]

fun shuffle :: "auth_world \<Rightarrow> nat \<Rightarrow> nat \<Rightarrow> string \<Rightarrow> string" where
  "shuffle w k 0 chars = chars"
| "shuffle w k (Suc i) chars =
     (let j = random_int w k (Suc i + 1)
      in shuffle w (Suc k) i (chars[Suc i := chars ! j, j := chars ! Suc i]))"

definition generate_password :: "auth_world \<Rightarrow> nat \<Rightarrow> (auth_failure, string) result" where
  "generate_password w n =
     (if n < 12
      then Inl (PlainError (''Temp password length must be at least 12 (NFR-9); got '' @ dec_of_nat n @ ''.''))
      else let chars = fill_chars w n [pick w 0 LOWER, pick w 1 UPPER, pick w 2 DIGITS, pick w 3 SYMBOL]
           in Inr (shuffle w (length chars) (length chars - 1) chars))"

section \<open>The policy\<close>

record management_context =
  m_actor :: user
  m_actorRole :: role
  m_actorPermissions :: "string list"
  m_globalManager :: bool
  m_dfspManager :: bool
  m_managementFspId :: "string option"

definition scope_denied :: auth_failure where
  "scope_denied = adminError Forbidden USER_MANAGEMENT_SCOPE_DENIED"

definition resolveManagementContext :: "auth_env \<Rightarrow> string \<Rightarrow> auth_db \<Rightarrow> (auth_failure, management_context) result" where
  "resolveManagementContext e actorId db =
     (case findUserById e actorId db of
        None \<Rightarrow> Inl scope_denied
      | Some actor \<Rightarrow>
          if \<not> u_isActive actor then Inl scope_denied
          else (case findRoleById e (u_roleId actor) db of
              None \<Rightarrow> Inl scope_denied
            | Some actorRole \<Rightarrow>
                let actorPermissions = findPermissionKeysByRoleId e (u_roleId actor) db;
                    globalManager = ADMIN_USERS_MANAGE \<in> set actorPermissions;
                    dfspManager = ADMIN_DFSP_USERS_MANAGE \<in> set actorPermissions
                in if \<not> globalManager \<and> \<not> dfspManager then Inl scope_denied
                   else if \<not> globalManager \<and> u_fspId actor = None then Inl scope_denied
                   else Inr \<lparr>m_actor = actor, m_actorRole = actorRole, m_actorPermissions = actorPermissions,
                          m_globalManager = globalManager, m_dfspManager = dfspManager,
                          m_managementFspId = if globalManager then None else u_fspId actor\<rparr>))"

definition assertCanManageTarget :: "management_context \<Rightarrow> user \<Rightarrow> (auth_failure, unit) result" where
  "assertCanManageTarget c target =
     (if m_globalManager c then Inr ()
      else guard_res (m_managementFspId c = None \<or> u_fspId target \<noteq> m_managementFspId c) scope_denied)"

text \<open>The handlers pass a role they did not test for null; reading its code then throws.\<close>

definition canManageTargetRole :: "management_context \<Rightarrow> user \<Rightarrow> role option \<Rightarrow> (auth_failure, bool) result" where
  "canManageTargetRole c target targetRole =
     (if m_globalManager c
      then (case targetRole of None \<Rightarrow> Inl TypeError
            | Some r \<Rightarrow> Inr (r_code r \<noteq> ADMIN_ROLE_CODE \<or> r_code (m_actorRole c) = ADMIN_ROLE_CODE))
      else if m_managementFspId c = None \<or> u_fspId target \<noteq> m_managementFspId c then Inr False
      else (case targetRole of None \<Rightarrow> Inl TypeError
            | Some r \<Rightarrow> if r_scope r \<noteq> DFSP then Inr False
                       else Inr (r_code r \<noteq> DFSP_ADMIN_ROLE_CODE \<or> r_code (m_actorRole c) = DFSP_ADMIN_ROLE_CODE)))"

definition assertCanManageTargetRole :: "management_context \<Rightarrow> user \<Rightarrow> role option \<Rightarrow> (auth_failure, unit) result" where
  "assertCanManageTargetRole c target targetRole =
     res_bind (canManageTargetRole c target targetRole) (\<lambda>ok. guard_res (\<not> ok) scope_denied)"

definition canAssignRole :: "management_context \<Rightarrow> role \<Rightarrow> bool" where
  "canAssignRole c r =
     (if m_globalManager c then r_code r \<noteq> ADMIN_ROLE_CODE \<or> r_code (m_actorRole c) = ADMIN_ROLE_CODE
      else if r_scope r \<noteq> DFSP then False
      else r_code r \<noteq> DFSP_ADMIN_ROLE_CODE)"

definition assertCanAssignRole :: "management_context \<Rightarrow> role \<Rightarrow> (auth_failure, unit) result" where
  "assertCanAssignRole c r = guard_res (\<not> canAssignRole c r) (adminError Forbidden USER_ROLE_NOT_ASSIGNABLE)"

definition resolveCreateFspId :: "management_context \<Rightarrow> string option \<Rightarrow> string option" where
  "resolveCreateFspId c requested = (if m_globalManager c then requested else m_managementFspId c)"

definition has_code :: "auth_env \<Rightarrow> string \<Rightarrow> string \<Rightarrow> auth_db \<Rightarrow> bool" where
  "has_code e roleId code db = (case findRoleById e roleId db of None \<Rightarrow> False | Some r \<Rightarrow> r_code r = code)"

definition assertNotLastDfspManager ::
  "auth_env \<Rightarrow> user \<Rightarrow> string \<Rightarrow> string \<Rightarrow> string option \<Rightarrow> bool \<Rightarrow> auth_db \<Rightarrow> (auth_failure, unit) result" where
  "assertNotLastDfspManager e target currentRoleId nextRoleId nextFspId deactivating db =
     (case u_fspId target of
        None \<Rightarrow> Inr ()
      | Some fsp \<Rightarrow>
          if \<not> has_code e currentRoleId DFSP_ADMIN_ROLE_CODE db then Inr ()
          else if \<not> deactivating \<and> currentRoleId = nextRoleId \<and> u_fspId target = nextFspId then Inr ()
          else if \<not> deactivating \<and> u_fspId target = nextFspId \<and> has_code e nextRoleId DFSP_ADMIN_ROLE_CODE db then Inr ()
          else (case findRoleByCode e DFSP_ADMIN_ROLE_CODE db of
              None \<Rightarrow> Inl (adminError Conflict USER_LAST_DFSP_ADMIN)
            | Some r \<Rightarrow> guard_res (countActiveUsersByRoleIdForFsp e (r_id r) fsp (u_id target) db = 0)
                (adminError Conflict USER_LAST_DFSP_ADMIN)))"

section \<open>Create\<close>

definition normalizeFspId :: "string option \<Rightarrow> string option" where
  "normalizeFspId v = (case v of None \<Rightarrow> None | Some s \<Rightarrow> if trim s = [] then None else Some (trim s))"

definition assertScope :: "role \<Rightarrow> string option \<Rightarrow> (auth_failure, unit) result" where
  "assertScope r fspId =
     (if r_scope r = HUB \<and> fspId \<noteq> None then Inl (adminError BadRequest USER_ADMIN_FORBIDS_FSP_ID)
      else guard_res (r_scope r = DFSP \<and> fspId = None) (adminError BadRequest USER_DFSP_REQUIRES_FSP_ID))"

definition create_user_check ::
  "auth_env \<Rightarrow> string \<Rightarrow> string \<Rightarrow> string \<Rightarrow> string option \<Rightarrow> auth_db \<Rightarrow> (auth_failure, role \<times> string option) result" where
  "create_user_check e actingUserId mail roleId fspId db =
     res_bind (resolveManagementContext e actingUserId db) (\<lambda>c.
       case findRoleById e roleId db of
         None \<Rightarrow> Inl (adminError BadRequest USER_ROLE_NOT_FOUND)
       | Some r \<Rightarrow>
           res_bind (assertCanAssignRole c r) (\<lambda>_.
             let effectiveFspId = resolveCreateFspId c (normalizeFspId fspId) in
             res_bind (assertScope r effectiveFspId) (\<lambda>_.
               res_bind (guard_res (findByEmail e mail db \<noteq> None) (adminError Conflict USER_EMAIL_TAKEN)) (\<lambda>_.
                 Inr (r, effectiveFspId)))))"

definition create_user ::
  "auth_env \<Rightarrow> auth_world \<Rightarrow> string \<Rightarrow> string \<Rightarrow> string \<Rightarrow> string option \<Rightarrow> auth_db \<Rightarrow>
     (auth_failure, user \<times> role \<times> string) result \<times> auth_db" where
  "create_user e w actingUserId mail roleId fspId db =
     (case res_bind (create_user_check e actingUserId mail roleId fspId db) (\<lambda>(r, effectiveFspId).
             res_bind (generate_password w DEFAULT_LENGTH) (\<lambda>tempPassword.
               let passwordHash = bcrypt_hash w tempPassword (bcryptCostFactor e);
                   u = new_user mail passwordHash (r_id r) effectiveFspId True (fresh_id w 0) (db_now w)
               in res_bind (insert_user e u db) (\<lambda>db1. Inr ((u, r, tempPassword), db1)))) of
        Inl err \<Rightarrow> (Inl err, db)
      | Inr (out, db1) \<Rightarrow> (Inr out, db1))"

section \<open>Update\<close>

record update_user_input =
  in_targetUserId :: string
  in_actingUserId :: string
  in_roleId :: "string option"
  in_fspId :: "string option option"
  in_isActive :: "bool option"

record update_plan =
  pl_target :: user
  pl_newRole :: role
  pl_fspId :: "string option"
  pl_roleChange :: bool
  pl_deactivation :: bool

definition assertNotLastAdmin ::
  "auth_env \<Rightarrow> string \<Rightarrow> string \<Rightarrow> string \<Rightarrow> bool \<Rightarrow> auth_db \<Rightarrow> (auth_failure, unit) result" where
  "assertNotLastAdmin e targetUserId currentRoleId nextRoleId deactivating db =
     (if ADMIN_USERS_MANAGE \<notin> set (findPermissionKeysByRoleId e currentRoleId db) then Inr ()
      else if \<not> deactivating \<and> currentRoleId \<noteq> nextRoleId
              \<and> ADMIN_USERS_MANAGE \<in> set (findPermissionKeysByRoleId e nextRoleId db) then Inr ()
      else guard_res (countActiveUsersGrantingPermission e ADMIN_USERS_MANAGE targetUserId db = 0)
             (adminError Conflict USER_LAST_ADMIN))"

definition update_user_check :: "auth_env \<Rightarrow> update_user_input \<Rightarrow> auth_db \<Rightarrow> (auth_failure, update_plan) result" where
  "update_user_check e inp db =
     res_bind (resolveManagementContext e (in_actingUserId inp) db) (\<lambda>c.
     case findUserById e (in_targetUserId inp) db of
       None \<Rightarrow> Inl (adminError NotFound USER_NOT_FOUND)
     | Some target \<Rightarrow>
       (case findRoleById e (u_roleId target) db of
          None \<Rightarrow> Inl (adminError BadRequest USER_ROLE_NOT_FOUND)
        | Some targetRole \<Rightarrow>
          res_bind (assertCanManageTargetRole c target (Some targetRole)) (\<lambda>_.
          let isSelf = (in_targetUserId inp = in_actingUserId inp);
              roleChange = (in_roleId inp \<noteq> None \<and> in_roleId inp \<noteq> Some (u_roleId target));
              deactivation = (in_isActive inp = Some False \<and> u_isActive target)
          in res_bind (guard_res (isSelf \<and> (roleChange \<or> deactivation)) (adminError BadRequest USER_SELF_LOCK)) (\<lambda>_.
          case findRoleById e (if roleChange then the (in_roleId inp) else u_roleId target) db of
            None \<Rightarrow> Inl (adminError BadRequest USER_ROLE_NOT_FOUND)
          | Some newRole \<Rightarrow>
            res_bind (assertCanAssignRole c newRole) (\<lambda>_.
            let requestedFspId = (case in_fspId inp of None \<Rightarrow> u_fspId target | Some v \<Rightarrow> normalizeFspId v);
                effectiveFspId = (if m_globalManager c then requestedFspId else m_managementFspId c)
            in res_bind (assertScope newRole effectiveFspId) (\<lambda>_.
            res_bind (if deactivation \<or> roleChange
                      then assertNotLastAdmin e (u_id target) (u_roleId target)
                             (if roleChange then r_id newRole else u_roleId target) deactivation db
                      else Inr ()) (\<lambda>_.
            res_bind (assertNotLastDfspManager e target (u_roleId target) (r_id newRole) effectiveFspId deactivation db) (\<lambda>_.
            Inr \<lparr>pl_target = target, pl_newRole = newRole, pl_fspId = effectiveFspId,
                 pl_roleChange = roleChange, pl_deactivation = deactivation\<rparr>))))))))"

definition user_patch :: "update_plan \<Rightarrow> bool option \<Rightarrow> user_update" where
  "user_patch pl isActive =
     \<lparr>up_roleId = (if pl_roleChange pl then Some (r_id (pl_newRole pl)) else None),
      up_fspId = (if pl_fspId pl \<noteq> u_fspId (pl_target pl) then Some (pl_fspId pl) else None),
      up_isActive = (if isActive \<noteq> None \<and> isActive \<noteq> Some (u_isActive (pl_target pl)) then isActive else None)\<rparr>"

definition empty_patch :: "user_update \<Rightarrow> bool" where
  "empty_patch p \<longleftrightarrow> up_roleId p = None \<and> up_fspId p = None \<and> up_isActive p = None"

definition update_user_write :: "auth_env \<Rightarrow> auth_world \<Rightarrow> update_plan \<Rightarrow> bool option \<Rightarrow> auth_db \<Rightarrow> auth_db" where
  "update_user_write e w pl isActive db =
     (let patch = user_patch pl isActive;
          ident = u_id (pl_target pl);
          db1 = (if empty_patch patch then db else updateUser e ident patch db);
          db2 = invalidateTokens e ident (clock w 0) db1
      in if pl_deactivation pl then revokeAllForUser e ident (clock w 1) db2 else db2)"

definition update_user ::
  "auth_env \<Rightarrow> auth_world \<Rightarrow> update_user_input \<Rightarrow> auth_db \<Rightarrow> (auth_failure, user option \<times> role) result \<times> auth_db" where
  "update_user e w inp db =
     (case update_user_check e inp db of
        Inl err \<Rightarrow> (Inl err, db)
      | Inr pl \<Rightarrow> let db1 = update_user_write e w pl (in_isActive inp) db
                 in (Inr (findUserById e (u_id (pl_target pl)) db1, pl_newRole pl), db1))"

section \<open>Deactivate and reset password\<close>

text \<open>\<open>Inr (target, role, False)\<close> when the target is already inactive and nothing is written.\<close>

definition deactivate_user_check ::
  "auth_env \<Rightarrow> string \<Rightarrow> string \<Rightarrow> auth_db \<Rightarrow> (auth_failure, user \<times> role option \<times> bool) result" where
  "deactivate_user_check e targetUserId actingUserId db =
     res_bind (resolveManagementContext e actingUserId db) (\<lambda>c.
     res_bind (guard_res (targetUserId = actingUserId) (adminError BadRequest USER_SELF_LOCK)) (\<lambda>_.
     case findUserById e targetUserId db of
       None \<Rightarrow> Inl (adminError NotFound USER_NOT_FOUND)
     | Some target \<Rightarrow>
       let r = findRoleById e (u_roleId target) db in
       res_bind (assertCanManageTargetRole c target r) (\<lambda>_.
       if \<not> u_isActive target then Inr (target, r, False)
       else
         res_bind (if ADMIN_USERS_MANAGE \<in> set (findPermissionKeysByRoleId e (u_roleId target) db)
                   then guard_res (countActiveUsersGrantingPermission e ADMIN_USERS_MANAGE (u_id target) db = 0)
                          (adminError Conflict USER_LAST_ADMIN)
                   else Inr ()) (\<lambda>_.
         res_bind (assertNotLastDfspManager e target (u_roleId target) (u_roleId target) (u_fspId target) True db) (\<lambda>_.
         Inr (target, r, True))))))"

definition deactivate_write :: "auth_env \<Rightarrow> auth_world \<Rightarrow> string \<Rightarrow> auth_db \<Rightarrow> auth_db" where
  "deactivate_write e w ident db =
     invalidateTokens e ident (clock w 1) (revokeAllForUser e ident (clock w 0) (deactivate e ident db))"

definition deactivate_user ::
  "auth_env \<Rightarrow> auth_world \<Rightarrow> string \<Rightarrow> string \<Rightarrow> auth_db \<Rightarrow> (auth_failure, user option \<times> role option) result \<times> auth_db" where
  "deactivate_user e w targetUserId actingUserId db =
     (case deactivate_user_check e targetUserId actingUserId db of
        Inl err \<Rightarrow> (Inl err, db)
      | Inr (target, r, write) \<Rightarrow>
          if \<not> write then (Inr (Some target, r), db)
          else let db1 = deactivate_write e w (u_id target) db
               in (Inr (findUserById e (u_id target) db1, r), db1))"

definition reset_password_check ::
  "auth_env \<Rightarrow> string \<Rightarrow> string \<Rightarrow> auth_db \<Rightarrow> (auth_failure, user \<times> role option) result" where
  "reset_password_check e targetUserId actingUserId db =
     res_bind (resolveManagementContext e actingUserId db) (\<lambda>c.
     case findUserById e targetUserId db of
       None \<Rightarrow> Inl (adminError NotFound USER_NOT_FOUND)
     | Some u \<Rightarrow>
       let r = findRoleById e (u_roleId u) db in
       res_bind (assertCanManageTargetRole c u r) (\<lambda>_. Inr (u, r)))"

definition reset_password_write :: "auth_env \<Rightarrow> auth_world \<Rightarrow> string \<Rightarrow> string \<Rightarrow> auth_db \<Rightarrow> auth_db" where
  "reset_password_write e w ident tempPassword db =
     (let passwordHash = bcrypt_hash w tempPassword (bcryptCostFactor e)
      in invalidateTokens e ident (clock w 1)
           (revokeAllForUser e ident (clock w 0) (updatePasswordHash e ident passwordHash True db)))"

definition reset_user_password ::
  "auth_env \<Rightarrow> auth_world \<Rightarrow> string \<Rightarrow> string \<Rightarrow> auth_db \<Rightarrow>
     (auth_failure, user option \<times> role option \<times> string) result \<times> auth_db" where
  "reset_user_password e w targetUserId actingUserId db =
     (case res_bind (reset_password_check e targetUserId actingUserId db) (\<lambda>(u, r).
             res_bind (generate_password w DEFAULT_LENGTH) (\<lambda>tempPassword. Inr (u, r, tempPassword))) of
        Inl err \<Rightarrow> (Inl err, db)
      | Inr (u, r, tempPassword) \<Rightarrow>
          let db1 = reset_password_write e w (u_id u) tempPassword db
          in (Inr (findUserById e (u_id u) db1, r, tempPassword), db1))"

section \<open>What a temporary password contains\<close>

definition ALL_CHARS :: string where "ALL_CHARS = LOWER @ UPPER @ DIGITS @ SYMBOL"

text \<open>\<open>randomInt(0, n)\<close> is documented to answer a number below \<open>n\<close>.\<close>

definition draws_in_range :: "auth_world \<Rightarrow> bool" where
  "draws_in_range w \<longleftrightarrow> (\<forall>k n. 0 < n \<longrightarrow> random_int w k n < n)"

lemma charsets_nonempty [simp]: "LOWER \<noteq> []" "UPPER \<noteq> []" "DIGITS \<noteq> []" "SYMBOL \<noteq> []"
  by (simp_all add: LOWER_def UPPER_def DIGITS_def SYMBOL_def)

lemma pick_in: "draws_in_range w \<Longrightarrow> charset \<noteq> [] \<Longrightarrow> pick w k charset \<in> set charset"
  by (simp add: draws_in_range_def pick_def)

lemma fill_chars_extends:
  assumes "draws_in_range w"
  shows "length chars \<le> n \<Longrightarrow>
    \<exists>ys. fill_chars w n chars = chars @ ys \<and> length (chars @ ys) = n \<and> set ys \<subseteq> set ALL_CHARS"
proof (induction "n - length chars" arbitrary: chars)
  case 0
  then show ?case by (simp add: fill_chars.simps)
next
  case (Suc m)
  let ?c = "pick w (length chars) ALL_CHARS"
  have "m = n - length (chars @ [?c])" "length (chars @ [?c]) \<le> n" using Suc(2) by simp_all
  then obtain ys where ys: "fill_chars w n (chars @ [?c]) = (chars @ [?c]) @ ys" "length ((chars @ [?c]) @ ys) = n"
    "set ys \<subseteq> set ALL_CHARS" using Suc(1) by blast
  have "?c \<in> set ALL_CHARS" by (rule pick_in[OF assms]) (simp add: ALL_CHARS_def)
  moreover have "fill_chars w n chars = fill_chars w n (chars @ [?c])"
  proof -
    have "length chars < n" using Suc(2) by simp
    then show ?thesis by (subst fill_chars.simps) (simp add: ALL_CHARS_def)
  qed
  ultimately show ?case using ys by (intro exI[of _ "?c # ys"]) simp
qed

lemma shuffle_permutes:
  assumes "draws_in_range w"
  shows "i < length chars \<Longrightarrow> mset (shuffle w k i chars) = mset chars"
proof (induction i arbitrary: k chars)
  case (Suc i)
  let ?j = "random_int w k (Suc i + 1)"
  have j: "?j < length chars" using assms Suc.prems unfolding draws_in_range_def
    by (metis add_gr_0 less_Suc_eq_le less_le_trans not_less_eq Suc_eq_plus1 le_less_trans zero_less_one)
  have "mset (chars[Suc i := chars ! ?j, ?j := chars ! Suc i]) = mset chars"
    using mset_swap[of ?j chars "Suc i"] j Suc.prems by simp
  then show ?case using Suc.IH[of "chars[Suc i := chars ! ?j, ?j := chars ! Suc i]" "Suc k"] Suc.prems by (simp add: Let_def)
qed simp

text \<open>
  A temporary password has the length asked for, is made of the four character sets only, and has a lower-case
  letter, a capital, a digit and a symbol; a length below twelve is refused.
\<close>

theorem temp_password_classes:
  assumes "draws_in_range w"
  shows "case generate_password w n of
      Inl err \<Rightarrow> n < 12
    | Inr s \<Rightarrow> 12 \<le> n \<and> length s = n \<and> set s \<subseteq> set ALL_CHARS \<and>
        set s \<inter> set LOWER \<noteq> {} \<and> set s \<inter> set UPPER \<noteq> {} \<and> set s \<inter> set DIGITS \<noteq> {} \<and> set s \<inter> set SYMBOL \<noteq> {}"
proof (cases "n < 12")
  case False
  let ?start = "[pick w 0 LOWER, pick w 1 UPPER, pick w 2 DIGITS, pick w 3 SYMBOL]"
  obtain ys where ys: "fill_chars w n ?start = ?start @ ys" "length (?start @ ys) = n" "set ys \<subseteq> set ALL_CHARS"
    using fill_chars_extends[OF assms, of ?start n] False by auto
  define s where "s = shuffle w n (n - 1) (?start @ ys)"
  have g: "generate_password w n = Inr s" using False ys(1,2) by (simp add: generate_password_def Let_def s_def)
  have m: "mset s = mset (?start @ ys)"
    unfolding s_def using shuffle_permutes[OF assms, of "n - 1" "?start @ ys" n] ys(2) False by simp
  then have l: "length s = n" and set: "set s = set (?start @ ys)" using ys(2) by (metis size_mset, metis set_mset_mset)
  note p = pick_in[OF assms charsets_nonempty(1), of 0] pick_in[OF assms charsets_nonempty(2), of 1]
    pick_in[OF assms charsets_nonempty(3), of 2] pick_in[OF assms charsets_nonempty(4), of 3]
  then have "set ?start \<subseteq> set ALL_CHARS" by (auto simp: ALL_CHARS_def)
  then show ?thesis using g l set p ys(3) False by auto
qed (simp add: generate_password_def)

theorem temp_password_classes_witness:
  "case generate_password (\<lparr>clock = (\<lambda>_. 0), fresh_id = (\<lambda>_. []), random_token = [], random_int = (\<lambda>k n. 0),
      bcrypt_hash = (\<lambda>p _. p), db_now = 0\<rparr>) 16 of Inl err \<Rightarrow> False | Inr s \<Rightarrow> length s = 16"
proof -
  let ?w = "\<lparr>clock = (\<lambda>_. 0), fresh_id = (\<lambda>_. []), random_token = [], random_int = (\<lambda>k n. 0),
      bcrypt_hash = (\<lambda>p _. p), db_now = 0\<rparr>"
  have "draws_in_range ?w" by (simp add: draws_in_range_def)
  from temp_password_classes[OF this, of 16] show ?thesis by (auto split: sum.splits)
qed

end
