(* ===== verification/Auth_Roles.thy ===== *)
theory Auth_Roles
  imports Auth_Data "HOL-Library.List_Lexorder" "HOL-Library.Char_ord"
begin

text \<open>
  Roles and permissions: the handlers that create, update and delete a role and replace its permissions
  (\<open>core/auth/domain/command\<close>), the role presets, and the two seeders that fill an empty database
  (\<open>core/auth/domain/seed\<close>).  The menus of the navigation bar are not modelled.
\<close>

section \<open>Role commands\<close>

text \<open>\<open>toUpperCase\<close> for the code units up to 255; the three letters whose capital is longer or above that
  range are kept.\<close>

definition upper_char :: "char \<Rightarrow> char" where
  "upper_char c = (let n = code_unit c in
     if (97 \<le> n \<and> n \<le> 122) \<or> (224 \<le> n \<and> n \<le> 254 \<and> n \<noteq> 247) then char_of (n - 32) else c)"

definition toUpperCase :: "string \<Rightarrow> string" where
  "toUpperCase = map upper_char"

function collapse_spaces :: "string \<Rightarrow> string" where
  "collapse_spaces [] = []"
| "collapse_spaces (c # s) =
     (if is_space c then CHR '' '' # collapse_spaces (dropWhile is_space s) else c # collapse_spaces s)"
  by pat_completeness auto
termination by (relation "measure length") (auto simp: le_imp_less_Suc length_dropWhile_le)

definition normalizeCode :: "string \<Rightarrow> string" where
  "normalizeCode code = toUpperCase (collapse_spaces (trim code))"

definition new_role :: "string \<Rightarrow> string \<Rightarrow> scope \<Rightarrow> string option \<Rightarrow> bool \<Rightarrow> string \<Rightarrow> int \<Rightarrow> role" where
  "new_role code nm sc description isSystem ident createdAt =
     \<lparr>r_id = ident, r_code = code, r_name = nm, r_description = description, r_scope = sc, r_isSystem = isSystem,
      r_createdAt = createdAt\<rparr>"

definition create_role ::
  "auth_env \<Rightarrow> auth_world \<Rightarrow> string \<Rightarrow> string \<Rightarrow> scope \<Rightarrow> string option \<Rightarrow> auth_db \<Rightarrow> (auth_failure, role) result \<times> auth_db" where
  "create_role e w rawCode rawName sc description db =
     (let code = normalizeCode rawCode; nm = trim rawName
      in if code = [] then (Inl (adminError BadRequest ROLE_CODE_REQUIRED), db)
         else if nm = [] then (Inl (adminError BadRequest ROLE_NAME_REQUIRED), db)
         else if findRoleByCode e code db \<noteq> None then (Inl (adminError Conflict ROLE_CODE_TAKEN), db)
         else if findRoleByName e nm db \<noteq> None then (Inl (adminError Conflict ROLE_NAME_TAKEN), db)
         else let r = new_role code nm sc description False (fresh_id w 0) (db_now w)
              in case insert_role e r db of Inl err \<Rightarrow> (Inl err, db) | Inr db1 \<Rightarrow> (Inr r, db1))"

definition update_role_check ::
  "auth_env \<Rightarrow> string \<Rightarrow> string option \<Rightarrow> string option option \<Rightarrow> auth_db \<Rightarrow> (auth_failure, role \<times> role_update) result" where
  "update_role_check e roleId nm description db =
     (case findRoleById e roleId db of
        None \<Rightarrow> Inl (adminError NotFound ROLE_NOT_FOUND)
      | Some r \<Rightarrow>
          (case nm of
             None \<Rightarrow> Inr (r, \<lparr>ru_name = None, ru_description = description\<rparr>)
           | Some n \<Rightarrow>
               if trim n = [] then Inl (adminError BadRequest ROLE_NAME_REQUIRED)
               else if (case findRoleByName e (trim n) db of None \<Rightarrow> False | Some other \<Rightarrow> r_id other \<noteq> r_id r)
               then Inl (adminError Conflict ROLE_NAME_TAKEN)
               else Inr (r, \<lparr>ru_name = Some (trim n), ru_description = description\<rparr>)))"

definition update_role ::
  "auth_env \<Rightarrow> string \<Rightarrow> string option \<Rightarrow> string option option \<Rightarrow> auth_db \<Rightarrow> (auth_failure, role option) result \<times> auth_db" where
  "update_role e roleId nm description db =
     (case update_role_check e roleId nm description db of
        Inl err \<Rightarrow> (Inl err, db)
      | Inr (r, patch) \<Rightarrow>
          let db1 = (if ru_name patch = None \<and> ru_description patch = None then db else updateRole e (r_id r) patch db)
          in (Inr (findRoleById e (r_id r) db1), db1))"

definition delete_role :: "auth_env \<Rightarrow> string \<Rightarrow> auth_db \<Rightarrow> (auth_failure, bool) result \<times> auth_db" where
  "delete_role e roleId db =
     (case findRoleById e roleId db of
        None \<Rightarrow> (Inl (adminError NotFound ROLE_NOT_FOUND), db)
      | Some r \<Rightarrow>
          if r_isSystem r then (Inl (adminError Conflict ROLE_IS_SYSTEM), db)
          else if countByRoleId e (r_id r) db > 0 then (Inl (adminError Conflict ROLE_IN_USE), db)
          else (case delete_role_row e (r_id r) db of Inl err \<Rightarrow> (Inl err, db) | Inr db1 \<Rightarrow> (Inr True, db1)))"

definition ADMIN_KEY_PREFIX :: string where "ADMIN_KEY_PREFIX = ''admin.''"

definition ADMIN_PERMISSION_LOCKED_ROLE_CODES :: "string list" where
  "ADMIN_PERMISSION_LOCKED_ROLE_CODES = [ADMIN_ROLE_CODE, DFSP_ADMIN_ROLE_CODE]"

definition unique_keys :: "string list \<Rightarrow> string list" where
  "unique_keys keys = rev (remdups (rev keys))"

definition replace_permissions_check ::
  "auth_env \<Rightarrow> string \<Rightarrow> string list \<Rightarrow> auth_db \<Rightarrow> (auth_failure, role \<times> permission list) result" where
  "replace_permissions_check e roleId permissionKeys db =
     (case findRoleById e roleId db of
        None \<Rightarrow> Inl (adminError NotFound ROLE_NOT_FOUND)
      | Some r \<Rightarrow>
          let dedupedKeys = unique_keys permissionKeys;
              resolved = findByKeyNames e dedupedKeys db
          in if length resolved \<noteq> length dedupedKeys then Inl (adminError BadRequest PERMISSION_NOT_FOUND)
             else if filter (\<lambda>p. p_scope p \<noteq> BOTH \<and> p_scope p \<noteq> r_scope r) resolved \<noteq> []
             then Inl (adminError BadRequest ROLE_PERMISSION_SCOPE_MISMATCH)
             else if r_isSystem r \<and> r_code r \<in> set ADMIN_PERMISSION_LOCKED_ROLE_CODES
               \<and> (let currentAdminKeys = filter (\<lambda>k. startsWith k ADMIN_KEY_PREFIX) (findPermissionKeysByRoleId e (r_id r) db)
                  in List.find (\<lambda>k. k \<notin> set dedupedKeys) currentAdminKeys \<noteq> None)
             then Inl (adminError Conflict ROLE_CANNOT_REMOVE_ADMIN_KEY)
             else Inr (r, resolved))"

definition replace_role_permissions ::
  "auth_env \<Rightarrow> auth_world \<Rightarrow> string \<Rightarrow> string list \<Rightarrow> auth_db \<Rightarrow> (auth_failure, string \<times> string list) result \<times> auth_db" where
  "replace_role_permissions e w roleId permissionKeys db =
     (case replace_permissions_check e roleId permissionKeys db of
        Inl err \<Rightarrow> (Inl err, db)
      | Inr (r, resolved) \<Rightarrow>
          (case replaceForRole e (r_id r) (map p_id resolved) db of
             Inl err \<Rightarrow> (Inl err, db)
           | Inr db1 \<Rightarrow> (Inr (r_id r, sort (map p_keyName resolved)), invalidateTokensForRole e (r_id r) (clock w 0) db1)))"

section \<open>Presets\<close>

record role_preset =
  rs_key :: string
  rs_label :: string
  rs_description :: string
  rs_scope :: scope
  rs_permissionKeys :: "string list"

definition ROLE_PRESETS :: "role_preset list" where
  "ROLE_PRESETS =
    [\<lparr>rs_key = ''full-admin'', rs_label = ''Full Admin'', rs_description = ''Every hub-side permission, plus audit. Equivalent to the seeded ADMIN role.'',
       rs_scope = HUB, rs_permissionKeys =
        [''hub.currency.add'', ''hub.signing-keys.update'', ''participant.list'', ''participant.onboard'',
        ''participant.currency.add'', ''participant.endpoint.register'',
        ''participant.signing-keys.update'', ''participant.access-key.update'',
        ''participant.certificate.enroll'', ''participant.certificate.view'',
        ''participant.certificate.revoke'', ''audit.transactions.list'', ''audit.transactions.view'',
        ''audit.dashboard.view'', ADMIN_USERS_MANAGE, ''admin.roles.manage'', ''admin.permissions.list'']\<rparr>,
     \<lparr>rs_key = ''hub-onboarder'', rs_label = ''Hub Onboarder'', rs_description = ''Onboard new FSPs and manage their endpoints, currencies, and signing keys. No admin or hub-currency rights.'',
       rs_scope = HUB, rs_permissionKeys =
        [''participant.list'', ''participant.onboard'', ''participant.currency.add'',
        ''participant.endpoint.register'', ''participant.signing-keys.update'',
        ''participant.access-key.update'', ''participant.certificate.enroll'',
        ''participant.certificate.view'']\<rparr>,
     \<lparr>rs_key = ''hub-settlement-currency'', rs_label = ''Hub Settlement & Currency'', rs_description = ''Add hub-level settlement currencies and manage participant currency + signing-key configuration.'',
       rs_scope = HUB, rs_permissionKeys =
        [''hub.currency.add'', ''hub.signing-keys.update'', ''participant.list'',
        ''participant.currency.add'', ''participant.signing-keys.update'']\<rparr>,
     \<lparr>rs_key = ''hub-compliance-audit'', rs_label = ''Hub Compliance / Audit'', rs_description = ''Read-only audit visibility across all FSPs. No write rights.'',
       rs_scope = HUB, rs_permissionKeys =
        [''audit.transactions.list'', ''audit.transactions.view'']\<rparr>,
     \<lparr>rs_key = ''dfsp-operator'', rs_label = ''DFSP Operator'', rs_description = ''Audit visibility scoped to a single FSP. Equivalent to the seeded DFSP_USER role.'',
       rs_scope = DFSP, rs_permissionKeys =
        [''audit.transactions.list'', ''audit.transactions.view'', ''audit.dashboard.view'']\<rparr>,
     \<lparr>rs_key = ''dfsp-admin'', rs_label = ''DFSP Administrator'', rs_description = ''Audit visibility and user management scoped to a single FSP. Equivalent to the seeded DFSP_ADMIN role.'',
       rs_scope = DFSP, rs_permissionKeys =
        [''audit.transactions.list'', ''audit.transactions.view'', ''audit.dashboard.view'',
        ADMIN_DFSP_USERS_MANAGE]\<rparr>,
     \<lparr>rs_key = ''user-role-manager'', rs_label = ''User & Role Manager'', rs_description = ''Manage portal users, roles, and the permission catalogue. No hub-operations or audit rights.'',
       rs_scope = HUB, rs_permissionKeys =
        [ADMIN_USERS_MANAGE, ''admin.roles.manage'', ''admin.permissions.list'']\<rparr>]"

section \<open>Seeding\<close>

record rbac_step =
  inserted :: nat
  skipped :: bool

definition ROLE_SEEDS :: "(string \<times> string \<times> scope \<times> string) list" where
  "ROLE_SEEDS =
    [(ADMIN_ROLE_CODE, ''System Administrator'', HUB, ''Full access to all hub operations.''),
     (DFSP_ADMIN_ROLE_CODE, ''DFSP Administrator'', DFSP, ''Administrator scoped to manage users within a single FSP.''),
     (DFSP_USER_ROLE_CODE, ''DFSP Operator'', DFSP, ''Operator scoped to a single FSP by fsp_id.'')]"

definition PERMISSION_SEEDS :: "(string \<times> scope \<times> string) list" where
  "PERMISSION_SEEDS =
    [(''hub.currency.add'', HUB, ''Provision hub settlement accounts for a new currency.''),
     (''hub.signing-keys.update'', HUB, ''Register the Hub'' @ [CHR 0x27] @ ''s JWS public key, used to verify messages the Hub signs.''),
     (''participant.list'', HUB, ''View the list of registered participants.''),
     (''participant.onboard'', HUB, ''Onboard a new FSP into the hub.''),
     (''participant.currency.add'', HUB, ''Enable an additional currency for an existing participant.''),
     (''participant.endpoint.register'', HUB, ''Register or replace a participant'' @ [CHR 0x27] @ ''s callback endpoint.''),
     (''participant.signing-keys.update'', HUB, ''View and change a participant'' @ [CHR 0x27] @ ''s JWS policy: whether Pivotal signs as them, and how strictly their signatures are verified.''),
     (''participant.access-key.update'', HUB, ''Update the access public key used to verify a participant'' @ [CHR 0x27] @ ''s signed requests.''),
     (''participant.certificate.enroll'', HUB, ''Sign a participant'' @ [CHR 0x27] @ ''s certificate request and issue a client certificate.''),
     (''participant.certificate.view'', HUB, ''View and download participant client certificates and their status.''),
     (''participant.certificate.revoke'', HUB, ''Revoke a participant client certificate before it expires.''),
     (''audit.transactions.list'', BOTH, ''Query the audited transactions list.''),
     (''audit.transactions.view'', BOTH, ''View a single audited transaction by transfer ID.''),
     (''audit.dashboard.view'', BOTH, ''View the transaction statistics dashboard.''),
     (ADMIN_USERS_MANAGE, HUB, ''Manage portal user accounts (list, create, update, reset password, deactivate).''),
     (ADMIN_DFSP_USERS_MANAGE, DFSP, ''Manage portal user accounts within the same FSP.''),
     (''admin.roles.manage'', HUB, ''Manage portal roles and their granted permissions.''),
     (''admin.permissions.list'', HUB, ''Browse the read-only permission catalogue.'')]"

definition ROLE_GRANTS :: "(string \<times> string list) list" where
  "ROLE_GRANTS =
    [(ADMIN_ROLE_CODE, map fst PERMISSION_SEEDS),
     (DFSP_ADMIN_ROLE_CODE, [''audit.transactions.list'', ''audit.transactions.view'', ''audit.dashboard.view'',
        ADMIN_DFSP_USERS_MANAGE]),
     (DFSP_USER_ROLE_CODE, [''audit.transactions.list'', ''audit.transactions.view'', ''audit.dashboard.view''])]"

text \<open>The loops of the seeder; \<open>k\<close> counts the Snowflake identifiers drawn so far.  A failing statement stops the
  seeder and leaves the rows it wrote.\<close>

fun save_roles ::
  "auth_env \<Rightarrow> auth_world \<Rightarrow> nat \<Rightarrow> (string \<times> string \<times> scope \<times> string) list \<Rightarrow> auth_db \<Rightarrow> (auth_failure, nat) result \<times> auth_db" where
  "save_roles e w k [] db = (Inr k, db)"
| "save_roles e w k ((code, nm, sc, description) # seeds) db =
     (case insert_role e (new_role code nm sc (Some description) True (fresh_id w k) (db_now w)) db of
        Inl err \<Rightarrow> (Inl err, db)
      | Inr db1 \<Rightarrow> save_roles e w (Suc k) seeds db1)"

definition seedRoles ::
  "auth_env \<Rightarrow> auth_world \<Rightarrow> nat \<Rightarrow> auth_db \<Rightarrow> (auth_failure, rbac_step \<times> nat) result \<times> auth_db" where
  "seedRoles e w k db =
     (if length (roles db) > 0 then (Inr (\<lparr>inserted = 0, skipped = True\<rparr>, k), db)
      else case save_roles e w k ROLE_SEEDS db of
        (Inl err, db1) \<Rightarrow> (Inl err, db1)
      | (Inr k1, db1) \<Rightarrow> (Inr (\<lparr>inserted = length ROLE_SEEDS, skipped = False\<rparr>, k1), db1))"

fun save_permissions ::
  "auth_env \<Rightarrow> auth_world \<Rightarrow> nat \<Rightarrow> (string \<times> scope \<times> string) list \<Rightarrow> auth_db \<Rightarrow> (auth_failure, nat) result \<times> auth_db" where
  "save_permissions e w k [] db = (Inr k, db)"
| "save_permissions e w k ((key, sc, description) # seeds) db =
     (case insert_permission e \<lparr>p_id = fresh_id w k, p_keyName = key, p_description = Some description, p_scope = sc\<rparr> db of
        Inl err \<Rightarrow> (Inl err, db)
      | Inr db1 \<Rightarrow> save_permissions e w (Suc k) seeds db1)"

definition seedPermissions ::
  "auth_env \<Rightarrow> auth_world \<Rightarrow> nat \<Rightarrow> auth_db \<Rightarrow> (auth_failure, rbac_step \<times> nat) result \<times> auth_db" where
  "seedPermissions e w k db =
     (if length (permissions db) > 0 then (Inr (\<lparr>inserted = 0, skipped = True\<rparr>, k), db)
      else case save_permissions e w k PERMISSION_SEEDS db of
        (Inl err, db1) \<Rightarrow> (Inl err, db1)
      | (Inr k1, db1) \<Rightarrow> (Inr (\<lparr>inserted = length PERMISSION_SEEDS, skipped = False\<rparr>, k1), db1))"

fun grant_keys :: "auth_env \<Rightarrow> role \<Rightarrow> nat \<Rightarrow> string list \<Rightarrow> auth_db \<Rightarrow> (auth_failure, nat) result \<times> auth_db" where
  "grant_keys e r n [] db = (Inr n, db)"
| "grant_keys e r n (key # keys) db =
     (case findByKeyName e key db of
        None \<Rightarrow> (Inl (PlainError (''Cannot seed role_permissions: permission '' @ [CHR 0x27] @ key @ [CHR 0x27] @ '' not found.'')), db)
      | Some p \<Rightarrow>
          (case insert_role_permission \<lparr>rp_roleId = r_id r, rp_permissionId = p_id p\<rparr> db of
             Inl err \<Rightarrow> (Inl err, db)
           | Inr db1 \<Rightarrow> grant_keys e r (Suc n) keys db1))"

fun grant_roles :: "auth_env \<Rightarrow> nat \<Rightarrow> (string \<times> string list) list \<Rightarrow> auth_db \<Rightarrow> (auth_failure, nat) result \<times> auth_db" where
  "grant_roles e n [] db = (Inr n, db)"
| "grant_roles e n ((code, keys) # grants) db =
     (case findRoleByCode e code db of
        None \<Rightarrow> (Inl (PlainError (''Cannot seed role_permissions: role '' @ [CHR 0x27] @ code @ [CHR 0x27] @ '' not found.'')), db)
      | Some r \<Rightarrow>
          (case grant_keys e r n keys db of
             (Inl err, db1) \<Rightarrow> (Inl err, db1)
           | (Inr n1, db1) \<Rightarrow> grant_roles e n1 grants db1))"

definition seedRolePermissions :: "auth_env \<Rightarrow> auth_db \<Rightarrow> (auth_failure, rbac_step) result \<times> auth_db" where
  "seedRolePermissions e db =
     (if length (role_permissions db) > 0 then (Inr \<lparr>inserted = 0, skipped = True\<rparr>, db)
      else case grant_roles e 0 ROLE_GRANTS db of
        (Inl err, db1) \<Rightarrow> (Inl err, db1)
      | (Inr n, db1) \<Rightarrow> (Inr \<lparr>inserted = n, skipped = False\<rparr>, db1))"

definition rbac_seed :: "auth_env \<Rightarrow> auth_world \<Rightarrow> auth_db \<Rightarrow> (auth_failure, rbac_step \<times> rbac_step \<times> rbac_step \<times> nat) result \<times> auth_db" where
  "rbac_seed e w db =
     (case seedRoles e w 0 db of
        (Inl err, db1) \<Rightarrow> (Inl err, db1)
      | (Inr (roleStep, k1), db1) \<Rightarrow>
          (case seedPermissions e w k1 db1 of
             (Inl err, db2) \<Rightarrow> (Inl err, db2)
           | (Inr (permissionStep, k2), db2) \<Rightarrow>
               (case seedRolePermissions e db2 of
                  (Inl err, db3) \<Rightarrow> (Inl err, db3)
                | (Inr linkStep, db3) \<Rightarrow> (Inr (roleStep, permissionStep, linkStep, k2), db3))))"

definition admin_user_seed :: "auth_env \<Rightarrow> auth_world \<Rightarrow> auth_db \<Rightarrow> (auth_failure, bool \<times> string) result \<times> auth_db" where
  "admin_user_seed e w db =
     (if countUsers db > 0 then (Inr (False, []), db)
      else case findRoleByCode e ADMIN_ROLE_CODE db of
        None \<Rightarrow> (Inl (PlainError (''Cannot seed admin user: '' @ [CHR 0x27] @ ADMIN_ROLE_CODE @ [CHR 0x27]
                  @ '' role not found. Ensure RoleSeeder runs before AdminUserSeeder.'')), db)
      | Some r \<Rightarrow>
          (case insert_user e (new_user (adminSeedEmail e) (bcrypt_hash w (adminSeedTempPassword e) (bcryptCostFactor e))
                  (r_id r) None True (fresh_id w 0) (db_now w)) db of
             Inl err \<Rightarrow> (Inl err, db)
           | Inr db1 \<Rightarrow> (Inr (True, adminSeedEmail e), db1)))"

end
