(* ===== verification/Auth_System.thy ===== *)
theory Auth_System
  imports Session_Refinement Auth_Users Auth_Roles
begin

text \<open>
  The identity domain as one system: every command that changes the database, the databases that a seeded
  portal can reach, and the properties that hold in all of them.
\<close>

section \<open>Commands\<close>

datatype auth_command =
    Login string string
  | Refresh string
  | Logout string bool
  | ChangePassword string string string
  | CreateUser string string string "string option"
  | UpdateUser update_user_input
  | DeactivateUser string string
  | ResetPassword string string
  | CreateRole string string scope "string option"
  | UpdateRole string "string option" "string option option"
  | DeleteRole string
  | ReplacePermissions string "string list"

fun run :: "auth_env \<Rightarrow> auth_world \<Rightarrow> auth_command \<Rightarrow> auth_db \<Rightarrow> auth_db" where
  "run e w (Login mail pw) db = snd (login e w mail pw db)"
| "run e w (Refresh p) db = snd (refresh_tokens e w p db)"
| "run e w (Logout p allDevices) db = snd (logout e w p allDevices db)"
| "run e w (ChangePassword i p q) db = snd (change_password e w i p q db)"
| "run e w (CreateUser actor mail r fsp) db = snd (create_user e w actor mail r fsp db)"
| "run e w (UpdateUser inp) db = snd (update_user e w inp db)"
| "run e w (DeactivateUser target actor) db = snd (deactivate_user e w target actor db)"
| "run e w (ResetPassword target actor) db = snd (reset_user_password e w target actor db)"
| "run e w (CreateRole code nm sc d) db = snd (create_role e w code nm sc d db)"
| "run e w (UpdateRole i nm d) db = snd (update_role e i nm d db)"
| "run e w (DeleteRole i) db = snd (delete_role e i db)"
| "run e w (ReplacePermissions i keys) db = snd (replace_role_permissions e w i keys db)"

section \<open>Every command keeps the database well formed\<close>

lemma res_bind_InlI: "r = Inl e \<Longrightarrow> res_bind r f = Inl e"
  by simp

lemma create_user_cases:
  obtains "snd (create_user e w actor mail r fsp db) = db"
  | u role eff pw where "create_user_check e actor mail r fsp db = Inr (role, eff)"
      "u = new_user mail (bcrypt_hash w pw (bcryptCostFactor e)) (r_id role) eff True (fresh_id w 0) (db_now w)"
      "insert_user e u db = Inr (snd (create_user e w actor mail r fsp db))"
proof (cases "create_user_check e actor mail r fsp db")
  case (Inr x)
  obtain role eff where x: "x = (role, eff)" by (cases x)
  show ?thesis
  proof (cases "generate_password w DEFAULT_LENGTH")
    case (Inr pw)
    let ?u = "new_user mail (bcrypt_hash w pw (bcryptCostFactor e)) (r_id role) eff True (fresh_id w 0) (db_now w)"
    show ?thesis
    proof (cases "insert_user e ?u db")
      case (Inl err)
      then show ?thesis using that(1) \<open>generate_password w DEFAULT_LENGTH = Inr pw\<close> \<open>create_user_check e actor mail r fsp db = Inr x\<close> x
        by (simp add: create_user_def Let_def)
    next
      case (Inr db1)
      then have "snd (create_user e w actor mail r fsp db) = db1"
        using \<open>generate_password w DEFAULT_LENGTH = Inr pw\<close> \<open>create_user_check e actor mail r fsp db = Inr x\<close> x
        by (simp add: create_user_def Let_def)
      then show ?thesis using that(2)[of role eff ?u pw] \<open>create_user_check e actor mail r fsp db = Inr x\<close> x Inr by simp
    qed
  next
    case (Inl err)
    then show ?thesis using that(1) Inr x by (simp add: create_user_def)
  qed
next
  case (Inl err)
  then show ?thesis using that(1) by (simp add: create_user_def)
qed

lemma findRoleById_SomeD: "findRoleById e i db = Some r \<Longrightarrow> r \<in> set (roles db) \<and> r_id r = canon e i"
  unfolding findRoleById_def by (auto dest: find_SomeD)

text \<open>What a successful check of an update says, read off the code from top to bottom.\<close>

lemma update_user_check_Inr:
  assumes "update_user_check e inp db = Inr pl"
  obtains c targetRole where
    "resolveManagementContext e (in_actingUserId inp) db = Inr c"
    "findUserById e (in_targetUserId inp) db = Some (pl_target pl)"
    "findRoleById e (u_roleId (pl_target pl)) db = Some targetRole"
    "canManageTargetRole c (pl_target pl) (Some targetRole) = Inr True"
    "canAssignRole c (pl_newRole pl)"
    "pl_newRole pl \<in> set (roles db)"
    "pl_fspId pl = (if m_globalManager c
       then (case in_fspId inp of None \<Rightarrow> u_fspId (pl_target pl) | Some v \<Rightarrow> normalizeFspId v) else m_managementFspId c)"
    "in_targetUserId inp = in_actingUserId inp \<longrightarrow> \<not> pl_roleChange pl \<and> \<not> pl_deactivation pl"
    "\<not> pl_roleChange pl \<longrightarrow> r_id (pl_newRole pl) = canon e (u_roleId (pl_target pl))"
    "pl_deactivation pl \<longleftrightarrow> in_isActive inp = Some False \<and> u_isActive (pl_target pl)"
proof -
  obtain c where c: "resolveManagementContext e (in_actingUserId inp) db = Inr c"
    using assms by (cases "resolveManagementContext e (in_actingUserId inp) db") (simp_all add: update_user_check_def)
  obtain target where t: "findUserById e (in_targetUserId inp) db = Some target"
    using assms c by (cases "findUserById e (in_targetUserId inp) db") (simp_all add: update_user_check_def)
  obtain tr where tr: "findRoleById e (u_roleId target) db = Some tr"
    using assms c t by (cases "findRoleById e (u_roleId target) db") (simp_all add: update_user_check_def)
  define change where "change \<longleftrightarrow> in_roleId inp \<noteq> None \<and> in_roleId inp \<noteq> Some (u_roleId target)"
  define rid where "rid = (if change then the (in_roleId inp) else u_roleId target)"
  obtain nr where nr: "findRoleById e rid db = Some nr"
    using assms c t tr
    by (cases "findRoleById e rid db") (simp_all add: update_user_check_def Let_def rid_def change_def)
  have m: "assertCanManageTargetRole c target (Some tr) = Inr ()" and self: "\<not> (in_targetUserId inp = in_actingUserId inp \<and>
      (change \<or> in_isActive inp = Some False \<and> u_isActive target))" and asg: "assertCanAssignRole c nr = Inr ()"
    and pl: "pl = \<lparr>pl_target = target, pl_newRole = nr, pl_fspId = (if m_globalManager c
       then (case in_fspId inp of None \<Rightarrow> u_fspId target | Some v \<Rightarrow> normalizeFspId v) else m_managementFspId c),
       pl_roleChange = change, pl_deactivation = (in_isActive inp = Some False \<and> u_isActive target)\<rparr>"
    using assms by (simp_all add: update_user_check_def Let_def c t tr nr[unfolded rid_def change_def] change_def
        del: not_None_eq)
  show ?thesis
  proof (rule that[of c tr])
    show "canManageTargetRole c (pl_target pl) (Some tr) = Inr True"
      using m by (auto simp: assertCanManageTargetRole_def pl)
    show "canAssignRole c (pl_newRole pl)" using asg by (simp add: assertCanAssignRole_def pl)
    show "\<not> pl_roleChange pl \<longrightarrow> r_id (pl_newRole pl) = canon e (u_roleId (pl_target pl))"
      using findRoleById_SomeD[OF nr] by (simp add: pl rid_def)
  qed (use c t tr self findRoleById_SomeD[OF nr] in \<open>auto simp: pl split: option.splits\<close>)
qed

lemma db_ok_create_user:
  assumes "db_ok e db" "world_ok e w"
  shows "db_ok e (snd (create_user e w actor mail r fsp db))"
proof (cases rule: create_user_cases[of e w actor mail r fsp db])
  case (2 u role eff pw)
  then show ?thesis
    using db_ok_insert_user[OF assms(1) _ 2(3)] assms(2) by (simp add: world_ok_def new_user_def)
qed (simp add: assms)

lemma db_ok_update_user_write:
  assumes "db_ok e db" "pl_newRole pl \<in> set (roles db)"
  shows "db_ok e (update_user_write e w pl act db)"
proof -
  have "db_ok e (updateUser e i (user_patch pl act) db)" for i
    unfolding updateUser_def
    using assms by (intro db_ok_update_users)
      (auto simp: apply_user_update_def user_patch_def nullish_def dest: user_row)
  then show ?thesis using assms(1) by (simp add: update_user_write_def Let_def db_ok_statements)
qed

lemma db_ok_update_user: "db_ok e db \<Longrightarrow> db_ok e (snd (update_user e w inp db))"
proof (cases "update_user_check e inp db")
  case (Inr pl)
  assume "db_ok e db"
  moreover have "pl_newRole pl \<in> set (roles db)" using Inr by (rule update_user_check_Inr)
  ultimately show ?thesis by (simp add: update_user_def Inr Let_def db_ok_update_user_write)
qed (simp add: update_user_def)

lemma db_ok_deactivate_user: "db_ok e db \<Longrightarrow> db_ok e (snd (deactivate_user e w t a db))"
  by (simp add: deactivate_user_def deactivate_write_def Let_def db_ok_statements split: sum.splits prod.splits)

lemma db_ok_reset_user_password: "db_ok e db \<Longrightarrow> db_ok e (snd (reset_user_password e w t a db))"
  by (simp add: reset_user_password_def reset_password_write_def Let_def db_ok_statements split: sum.splits prod.splits)

lemma db_ok_create_role:
  "db_ok e db \<Longrightarrow> world_ok e w \<Longrightarrow> db_ok e (snd (create_role e w code nm sc d db))"
  by (auto simp: create_role_def Let_def new_role_def world_ok_def split: sum.splits elim!: db_ok_insert_role)

lemma db_ok_update_role: "db_ok e db \<Longrightarrow> db_ok e (snd (update_role e i nm d db))"
  by (auto simp: update_role_def Let_def split: sum.splits intro: db_ok_updateRole)

lemma db_ok_delete_role: "db_ok e db \<Longrightarrow> db_ok e (snd (delete_role e i db))"
  by (auto simp: delete_role_def split: sum.splits option.splits elim: db_ok_delete_role_row)

lemma db_ok_replace_role_permissions: "db_ok e db \<Longrightarrow> db_ok e (snd (replace_role_permissions e w i keys db))"
  by (auto simp: replace_role_permissions_def split: sum.splits intro!: db_ok_user_statements elim: db_ok_replaceForRole)

lemma db_ok_run:
  assumes "db_ok e db" "world_ok e w" "fresh_id w 0 \<notin> t_familyId ` set (tokens db)"
  shows "db_ok e (run e w cmd db)"
  using assms
  by (cases cmd) (simp_all add: db_ok_login db_ok_refresh db_ok_logout db_ok_change_password db_ok_create_user
      db_ok_update_user db_ok_deactivate_user db_ok_reset_user_password db_ok_create_role db_ok_update_role
      db_ok_delete_role db_ok_replace_role_permissions)

section \<open>The administrator\<close>

definition administrator :: "auth_env \<Rightarrow> auth_db \<Rightarrow> user \<Rightarrow> role \<Rightarrow> bool" where
  "administrator e db u r \<longleftrightarrow> u \<in> set (users db) \<and> u_isActive u \<and> r \<in> set (roles db) \<and> u_roleId u = r_id r \<and>
     r_code r = ADMIN_ROLE_CODE \<and> r_isSystem r \<and> r_scope r = HUB \<and>
     ADMIN_USERS_MANAGE \<in> set (findPermissionKeysByRoleId e (r_id r) db)"

definition has_administrator :: "auth_env \<Rightarrow> auth_db \<Rightarrow> bool" where
  "has_administrator e db \<longleftrightarrow> (\<exists>u r. administrator e db u r)"

text \<open>Identifiers of a request written the way the database prints them.\<close>

fun canonical_ids :: "auth_env \<Rightarrow> auth_command \<Rightarrow> bool" where
  "canonical_ids e (UpdateUser inp) \<longleftrightarrow> canon e (in_targetUserId inp) = in_targetUserId inp
     \<and> canon e (in_actingUserId inp) = in_actingUserId inp"
| "canonical_ids e (DeactivateUser target actor) \<longleftrightarrow> canon e target = target \<and> canon e actor = actor"
| "canonical_ids e _ \<longleftrightarrow> True"

lemma keys_iff: "k \<in> set (findPermissionKeysByRoleId e i db) \<longleftrightarrow>
    (\<exists>rp\<in>set (role_permissions db). rp_roleId rp = canon e i \<and>
       (\<exists>p\<in>set (permissions db). p_id p = rp_permissionId rp \<and> p_keyName p = k))"
  by (auto simp: findPermissionKeysByRoleId_def)

lemma tables_of_statements [simp]:
  "roles (incrementFailedAttempts e i db) = roles db" "roles (lockUntil e i n db) = roles db"
  "roles (recordSuccessfulLogin e i n db) = roles db" "roles (updatePasswordHash e i h b db) = roles db"
  "roles (deactivate e i db) = roles db" "roles (invalidateTokens e i n db) = roles db"
  "roles (invalidateTokensForRole e i n db) = roles db" "roles (updateUser e i patch db) = roles db"
  "role_permissions (incrementFailedAttempts e i db) = role_permissions db" "role_permissions (lockUntil e i n db) = role_permissions db"
  "role_permissions (recordSuccessfulLogin e i n db) = role_permissions db" "role_permissions (updatePasswordHash e i h b db) = role_permissions db"
  "role_permissions (deactivate e i db) = role_permissions db" "role_permissions (invalidateTokens e i n db) = role_permissions db"
  "role_permissions (invalidateTokensForRole e i n db) = role_permissions db" "role_permissions (updateUser e i patch db) = role_permissions db"
  "permissions (incrementFailedAttempts e i db) = permissions db" "permissions (lockUntil e i n db) = permissions db"
  "permissions (recordSuccessfulLogin e i n db) = permissions db" "permissions (updatePasswordHash e i h b db) = permissions db"
  "permissions (deactivate e i db) = permissions db" "permissions (invalidateTokens e i n db) = permissions db"
  "permissions (invalidateTokensForRole e i n db) = permissions db" "permissions (updateUser e i patch db) = permissions db"
  "roles (markRevoked e i rb n db) = roles db" "roles (revokeFamily e i n db) = roles db" "roles (revokeAllForUser e i n db) = roles db"
  "role_permissions (markRevoked e i rb n db) = role_permissions db" "role_permissions (revokeFamily e i n db) = role_permissions db"
  "role_permissions (revokeAllForUser e i n db) = role_permissions db"
  "permissions (markRevoked e i rb n db) = permissions db" "permissions (revokeFamily e i n db) = permissions db"
  "permissions (revokeAllForUser e i n db) = permissions db"
  by (simp_all add: user_statement_defs token_statement_defs updateUser_def)

text \<open>An administrator stays one when a row with the same account, the role and its links are still there.\<close>

lemma administrator_kept:
  assumes "administrator e db u r" and "u' \<in> set (users db')" "u_isActive u'" "u_roleId u' = u_roleId u"
    and "r' \<in> set (roles db')" "r_id r' = r_id r" "r_code r' = r_code r" "r_isSystem r' = r_isSystem r" "r_scope r' = r_scope r"
    and "permissions db' = permissions db"
    and "\<And>rp. rp \<in> set (role_permissions db) \<Longrightarrow> rp_roleId rp = canon e (r_id r) \<Longrightarrow> rp \<in> set (role_permissions db')"
  shows "has_administrator e db'"
proof -
  have "ADMIN_USERS_MANAGE \<in> set (findPermissionKeysByRoleId e (r_id r') db')"
    using assms(1,6,10,11) by (fastforce simp: administrator_def keys_iff)
  then have "administrator e db' u' r'" using assms by (simp add: administrator_def)
  then show ?thesis by (auto simp: has_administrator_def)
qed

lemma administrator_same_access:
  assumes "administrator e db u r" "roles db' = roles db" "permissions db' = permissions db"
    "role_permissions db' = role_permissions db" "u' \<in> set (users db')" "u_isActive u'" "u_roleId u' = u_roleId u"
  shows "has_administrator e db'"
  using assms by (intro administrator_kept[OF assms(1), of u' _ r]) (auto simp: administrator_def)

lemma administrator_same_users:
  assumes "administrator e db u r" "roles db' = roles db" "permissions db' = permissions db"
    "role_permissions db' = role_permissions db" "users db' = users db"
  shows "has_administrator e db'"
  using assms by (intro administrator_same_access[OF assms(1-4), of u]) (auto simp: administrator_def)

definition account_kept :: "auth_db \<Rightarrow> auth_db \<Rightarrow> bool" where
  "account_kept db db' \<longleftrightarrow> roles db' = roles db \<and> permissions db' = permissions db \<and> role_permissions db' = role_permissions db \<and>
     (\<forall>u\<in>set (users db). \<exists>u'\<in>set (users db'). u_id u' = u_id u \<and> u_isActive u' = u_isActive u \<and> u_roleId u' = u_roleId u)"

lemma account_kept_refl [simp]: "account_kept db db"
  by (auto simp: account_kept_def)

lemma account_kept_trans [trans]: "account_kept db db1 \<Longrightarrow> account_kept db1 db2 \<Longrightarrow> account_kept db db2"
  unfolding account_kept_def by (metis (no_types, lifting))

lemma account_kept_update_users:
  "(\<And>u. u_id (f u) = u_id u \<and> u_isActive (f u) = u_isActive u \<and> u_roleId (f u) = u_roleId u) \<Longrightarrow>
    account_kept db (update_users P f db)"
proof -
  assume f: "\<And>u. u_id (f u) = u_id u \<and> u_isActive (f u) = u_isActive u \<and> u_roleId (f u) = u_roleId u"
  have "\<exists>u'\<in>set (users (update_users P f db)). u_id u' = u_id u \<and> u_isActive u' = u_isActive u \<and> u_roleId u' = u_roleId u"
    if "u \<in> set (users db)" for u
    using that f by (intro bexI[of _ "if P u then f u else u"]) simp_all
  then show ?thesis by (simp add: account_kept_def)
qed

lemma account_kept_statements [simp]:
  "account_kept db (incrementFailedAttempts e i db)" "account_kept db (lockUntil e i n db)"
  "account_kept db (recordSuccessfulLogin e i n db)" "account_kept db (updatePasswordHash e i h b db)"
  "account_kept db (invalidateTokens e i n db)" "account_kept db (invalidateTokensForRole e i n db)"
  "account_kept db (markRevoked e i rb n db)" "account_kept db (revokeFamily e i n db)" "account_kept db (revokeAllForUser e i n db)"
  unfolding user_statement_defs by (simp_all add: account_kept_update_users) (auto simp: token_statement_defs account_kept_def)

lemma account_kept_insert_token: "insert_token e t db = Inr db' \<Longrightarrow> account_kept db db'"
  by (auto simp: insert_token_def account_kept_def split: if_splits)

lemma account_kept_administrator:
  assumes "account_kept db db'" "has_administrator e db"
  shows "has_administrator e db'"
proof -
  obtain u r where a: "administrator e db u r" using assms(2) by (auto simp: has_administrator_def)
  then obtain u' where "u' \<in> set (users db')" "u_isActive u'" "u_roleId u' = u_roleId u"
    using assms(1) by (auto simp: account_kept_def administrator_def)
  then show ?thesis using assms(1) by (intro administrator_same_access[OF a, of db' u']) (auto simp: account_kept_def)
qed

lemma account_kept_handleFailedAttempt: "account_kept db (snd (handleFailedAttempt e w i n db))"
  using account_kept_trans[of db "incrementFailedAttempts e i db"] by (simp add: handleFailedAttempt_def Let_def)

lemma account_kept_sessions:
  "account_kept db (snd (login e w mail pw db))" "account_kept db (snd (refresh_tokens e w p db))"
  "account_kept db (snd (logout e w p b db))" "account_kept db (snd (change_password e w i p q db))"
proof -
  have open_kept: "account_kept db (snd (open_session e w u r db))" for u r
    using account_kept_trans[OF account_kept_statements(3)]
    by (auto simp: open_session_def Let_def split: sum.splits dest!: account_kept_insert_token)
  show "account_kept db (snd (login e w mail pw db))"
    using open_kept account_kept_handleFailedAttempt by (simp add: login_def Let_def case_prod_unfold split: option.splits)
  have rotate_kept: "account_kept db (snd (rotate e w t u r db))" for t u r
    using account_kept_trans[OF account_kept_insert_token account_kept_statements(7)]
    by (auto simp: rotate_def Let_def split: sum.splits)
  show "account_kept db (snd (refresh_tokens e w p db))"
    using rotate_kept by (auto simp: refresh_tokens_def refresh_commit_def split: refresh_decision.splits option.splits)
  show "account_kept db (snd (logout e w p b db))" by (simp add: logout_def split: option.splits)
  have "account_kept db (invalidateTokens e i n (revokeAllForUser e j m (updatePasswordHash e k h c db)))" for i n j m k h c
    by (meson account_kept_statements account_kept_trans)
  then show "account_kept db (snd (change_password e w i p q db))"
    by (simp add: change_password_def Let_def split: option.splits)
qed

lemma account_kept_create_user: "account_kept db (snd (create_user e w actor mail r fsp db))"
proof (cases rule: create_user_cases[of e w actor mail r fsp db])
  case (2 u role eff pw)
  then have "snd (create_user e w actor mail r fsp db) = db\<lparr>users := users db @ [u]\<rparr>"
    by (auto simp: insert_user_def split: if_splits)
  then show ?thesis by (auto simp: account_kept_def)
qed simp

lemma account_kept_reset_password: "account_kept db (snd (reset_user_password e w t a db))"
proof -
  have "account_kept db (invalidateTokens e i n (revokeAllForUser e j m (updatePasswordHash e k h c db)))" for i n j m k h c
    by (meson account_kept_statements account_kept_trans)
  then show ?thesis
    by (simp add: reset_user_password_def reset_password_write_def Let_def split: sum.splits prod.splits)
qed

text \<open>Only an administrator may touch an administrator's account.\<close>

lemma manager_of_admin:
  assumes "resolveManagementContext e actor db = Inr c" "canManageTargetRole c target (Some r) = Inr True"
    and "r_code r = ADMIN_ROLE_CODE" "r_scope r = HUB"
  shows "\<exists>a ar. findUserById e actor db = Some a \<and> u_isActive a \<and> findRoleById e (u_roleId a) db = Some ar \<and>
           r_code ar = ADMIN_ROLE_CODE"
  using assms
  by (auto simp: resolveManagementContext_def canManageTargetRole_def Let_def split: option.splits if_splits)

lemma same_role_code:
  "db_ok e db \<Longrightarrow> r \<in> set (roles db) \<Longrightarrow> s \<in> set (roles db) \<Longrightarrow> r_code r = r_code s \<Longrightarrow> r = s"
  by (auto simp: db_ok_def roles_ok_def distinct_map inj_on_def)

lemma administrator_role:
  assumes "db_ok e db" "administrator e db u r"
  shows "findRoleById e (u_roleId u) db = Some r"
  using findRoleById_iff[OF assms(1)] assms(2) role_row[OF assms(1)] by (simp add: administrator_def)

lemma manager_is_administrator:
  assumes ok: "db_ok e db" and a: "administrator e db u r"
    and m: "findUserById e actor db = Some v" "u_isActive v" "findRoleById e (u_roleId v) db = Some vr"
      "r_code vr = ADMIN_ROLE_CODE"
  shows "administrator e db v r"
proof -
  have v: "v \<in> set (users db)" using m(1) findUserById_iff[OF ok] by blast
  have vr: "vr \<in> set (roles db)" "r_id vr = canon e (u_roleId v)" using findRoleById_SomeD[OF m(3)] by auto
  have "vr = r" using same_role_code[OF ok vr(1)] a m(4) by (simp add: administrator_def)
  moreover have "canon e (u_roleId v) = u_roleId v"
    using user_row[OF ok v] role_row[OF ok] by auto
  ultimately show ?thesis using a v vr m(2) by (simp add: administrator_def)
qed

lemma apply_empty_patch: "empty_patch p \<Longrightarrow> apply_user_update p u = u"
  by (simp add: empty_patch_def apply_user_update_def)

lemma apply_user_update_id [simp]: "u_id (apply_user_update p u) = u_id u"
  by (simp add: apply_user_update_def)

lemma users_update_user_write:
  assumes "canon e (u_id (pl_target pl)) = u_id (pl_target pl)"
  shows "users (update_user_write e w pl act db) =
     map (\<lambda>u. if u_id u = u_id (pl_target pl)
        then (apply_user_update (user_patch pl act) u)\<lparr>u_tokensInvalidatedAt := Some (stored e (clock w 0))\<rparr> else u) (users db)"
  by (simp add: update_user_write_def Let_def invalidateTokens_def updateUser_def assms apply_empty_patch)

lemma update_user_write_keeps_other:
  assumes "db_ok e db" "u \<in> set (users db)" "pl_target pl \<in> set (users db)" "u \<noteq> pl_target pl"
  shows "u \<in> set (users (update_user_write e w pl act db))"
proof -
  have "u_id u \<noteq> u_id (pl_target pl)" "canon e (u_id (pl_target pl)) = u_id (pl_target pl)"
    using same_user[OF assms(1-3)] assms(4) user_row[OF assms(1,3)] by auto
  then show ?thesis using assms(2) by (simp add: users_update_user_write)
qed

lemma update_user_write_keeps_access:
  assumes "db_ok e db" "pl_target pl \<in> set (users db)" "\<not> pl_roleChange pl" "\<not> pl_deactivation pl"
    "pl_deactivation pl \<longleftrightarrow> act = Some False \<and> u_isActive (pl_target pl)" "u_isActive (pl_target pl)"
  shows "\<exists>u'\<in>set (users (update_user_write e w pl act db)). u_isActive u' \<and> u_roleId u' = u_roleId (pl_target pl)"
proof -
  let ?t = "(apply_user_update (user_patch pl act) (pl_target pl))\<lparr>u_tokensInvalidatedAt := Some (stored e (clock w 0))\<rparr>"
  have c: "canon e (u_id (pl_target pl)) = u_id (pl_target pl)" using user_row[OF assms(1,2)] by simp
  have "u_isActive ?t" "u_roleId ?t = u_roleId (pl_target pl)"
    using assms(3-6) by (auto simp: apply_user_update_def user_patch_def nullish_def split: option.splits)
  moreover have "?t \<in> set (users (update_user_write e w pl act db))"
    unfolding users_update_user_write[OF c] using assms(2) by (auto intro!: image_eqI[of _ _ "pl_target pl"])
  ultimately show ?thesis by blast
qed

lemma tables_of_update_user_write [simp]:
  "roles (update_user_write e w pl act db) = roles db" "permissions (update_user_write e w pl act db) = permissions db"
  "role_permissions (update_user_write e w pl act db) = role_permissions db"
  by (simp_all add: update_user_write_def Let_def)

lemma tables_of_deactivate_write [simp]:
  "roles (deactivate_write e w i db) = roles db" "permissions (deactivate_write e w i db) = permissions db"
  "role_permissions (deactivate_write e w i db) = role_permissions db"
  by (simp_all add: deactivate_write_def)

lemma administrator_update_user:
  assumes ok: "db_ok e db" and a: "administrator e db u r"
    and ids: "canon e (in_targetUserId inp) = in_targetUserId inp" "canon e (in_actingUserId inp) = in_actingUserId inp"
  shows "has_administrator e (snd (update_user e w inp db))"
proof (cases "update_user_check e inp db")
  case (Inl err)
  then show ?thesis using a by (auto simp: update_user_def has_administrator_def)
next
  case (Inr pl)
  from update_user_check_Inr[OF Inr] obtain c tr where
    c: "resolveManagementContext e (in_actingUserId inp) db = Inr c"
    and t: "findUserById e (in_targetUserId inp) db = Some (pl_target pl)"
    and tr: "findRoleById e (u_roleId (pl_target pl)) db = Some tr"
    and m: "canManageTargetRole c (pl_target pl) (Some tr) = Inr True"
    and self: "in_targetUserId inp = in_actingUserId inp \<longrightarrow> \<not> pl_roleChange pl \<and> \<not> pl_deactivation pl"
    and de: "pl_deactivation pl \<longleftrightarrow> in_isActive inp = Some False \<and> u_isActive (pl_target pl)"
    by metis
  have tin: "pl_target pl \<in> set (users db)" and tid: "u_id (pl_target pl) = in_targetUserId inp"
    using t findUserById_iff[OF ok] ids(1) by auto
  let ?db' = "update_user_write e w pl (in_isActive inp) db"
  have keep: "has_administrator e ?db'" if "administrator e db v r" "v \<noteq> pl_target pl" for v
    using update_user_write_keeps_other[OF ok _ tin that(2)] that(1)
    by (intro administrator_same_access[OF that(1), of ?db' v]) (auto simp: administrator_def)
  have "has_administrator e ?db'"
  proof (cases "u = pl_target pl")
    case True
    then have act: "u_isActive (pl_target pl)" using a by (simp add: administrator_def)
    show ?thesis
    proof (cases "pl_roleChange pl \<or> pl_deactivation pl")
      case False
      then obtain u' where "u' \<in> set (users ?db')" "u_isActive u'" "u_roleId u' = u_roleId u"
        using update_user_write_keeps_access[OF ok tin _ _ de act] True by blast
      then show ?thesis by (intro administrator_same_access[OF a, of ?db' u']) simp_all
    next
      case True
      have "tr = r" using administrator_role[OF ok a] tr \<open>u = pl_target pl\<close> by simp
      then obtain v vr where v: "findUserById e (in_actingUserId inp) db = Some v" "u_isActive v"
        "findRoleById e (u_roleId v) db = Some vr" "r_code vr = ADMIN_ROLE_CODE"
        using manager_of_admin[OF c m] a by (auto simp: administrator_def)
      have "u_id v = in_actingUserId inp" using v(1) findUserById_iff[OF ok] ids(2) by simp
      then have "v \<noteq> pl_target pl" using self True tid by auto
      then show ?thesis using keep[OF manager_is_administrator[OF ok a v]] by simp
    qed
  qed (use keep[OF a] in blast)
  then show ?thesis by (simp add: update_user_def Inr Let_def)
qed

lemma deactivate_user_check_Inr:
  assumes "deactivate_user_check e target actor db = Inr (t, ro, b)"
  obtains c where "resolveManagementContext e actor db = Inr c" "target \<noteq> actor" "findUserById e target db = Some t"
    "ro = findRoleById e (u_roleId t) db" "canManageTargetRole c t ro = Inr True"
proof -
  obtain c where c: "resolveManagementContext e actor db = Inr c" "target \<noteq> actor"
    using assms by (cases "resolveManagementContext e actor db") (auto simp: deactivate_user_check_def)
  obtain t' where t': "findUserById e target db = Some t'"
    using assms c by (cases "findUserById e target db") (simp_all add: deactivate_user_check_def)
  have "assertCanManageTargetRole c t' (findRoleById e (u_roleId t') db) = Inr ()" "t = t'" "ro = findRoleById e (u_roleId t') db"
    using assms c t' by (auto simp: deactivate_user_check_def Let_def split: if_splits)
  then show ?thesis using that c t' by (auto simp: assertCanManageTargetRole_def)
qed

lemma users_deactivate_write:
  assumes "canon e i = i"
  shows "users (deactivate_write e w i db) =
    map (\<lambda>u. if u_id u = i then u\<lparr>u_isActive := False, u_tokensInvalidatedAt := Some (stored e (clock w 1))\<rparr> else u) (users db)"
  by (simp add: deactivate_write_def deactivate_def invalidateTokens_def assms)

lemma administrator_deactivate_user:
  assumes ok: "db_ok e db" and a: "administrator e db u r" and ids: "canon e target = target" "canon e actor = actor"
  shows "has_administrator e (snd (deactivate_user e w target actor db))"
proof (cases "deactivate_user_check e target actor db")
  case (Inl err)
  then show ?thesis using a by (auto simp: deactivate_user_def has_administrator_def)
next
  case (Inr x)
  obtain t ro b where x: "x = (t, ro, b)" by (cases x)
  from deactivate_user_check_Inr[OF Inr[unfolded x]] obtain c where
    c: "resolveManagementContext e actor db = Inr c" "target \<noteq> actor" "findUserById e target db = Some t"
      "ro = findRoleById e (u_roleId t) db" "canManageTargetRole c t ro = Inr True" by blast
  have t: "t \<in> set (users db)" "u_id t = target" using c(3) findUserById_iff[OF ok] ids(1) by auto
  let ?db' = "deactivate_write e w (u_id t) db"
  have keep: "has_administrator e ?db'" if "administrator e db v r" "v \<noteq> t" for v
  proof -
    have "v \<in> set (users db)" "u_id v \<noteq> u_id t"
      using that same_user[OF ok _ t(1), of v] by (auto simp: administrator_def)
    then have "v \<in> set (users ?db')" using t(2) ids(1) by (simp add: users_deactivate_write)
    then show ?thesis using that(1) by (intro administrator_same_access[OF that(1), of ?db' v]) (auto simp: administrator_def)
  qed
  have "has_administrator e ?db'"
  proof (cases "u = t")
    case True
    have m: "canManageTargetRole c t (Some r) = Inr True" using administrator_role[OF ok a] c(4,5) True by simp
    then obtain v vr where v: "findUserById e actor db = Some v" "u_isActive v"
      "findRoleById e (u_roleId v) db = Some vr" "r_code vr = ADMIN_ROLE_CODE"
      using manager_of_admin[OF c(1) m] a by (auto simp: administrator_def)
    have "u_id v = actor" using v(1) findUserById_iff[OF ok] ids(2) by simp
    then have "v \<noteq> t" using c(2) t(2) by auto
    then show ?thesis using keep[OF manager_is_administrator[OF ok a v]] by simp
  qed (use keep[OF a] in blast)
  then show ?thesis using Inr x a by (auto simp: deactivate_user_def Let_def has_administrator_def)
qed

lemma administrator_update_role:
  assumes a: "administrator e db u r"
  shows "has_administrator e (updateRole e i patch db)"
proof -
  let ?r = "if r_id r = canon e i then r\<lparr>r_name := nullish (ru_name patch) (r_name r),
     r_description := nullish (ru_description patch) (r_description r)\<rparr> else r"
  have "?r \<in> set (roles (updateRole e i patch db))" using a by (auto simp: updateRole_def administrator_def image_iff)
  then show ?thesis
    using a by (intro administrator_kept[OF a, of u _ ?r]) (auto simp: updateRole_def administrator_def)
qed

lemma administrator_delete_role:
  assumes ok: "db_ok e db" and a: "administrator e db u r"
  shows "has_administrator e (snd (delete_role e i db))"
proof (cases "\<exists>d db1. findRoleById e i db = Some d \<and> \<not> r_isSystem d \<and> delete_role_row e (r_id d) db = Inr db1
    \<and> snd (delete_role e i db) = db1")
  case True
  then obtain d db1 where d: "findRoleById e i db = Some d" "\<not> r_isSystem d" "delete_role_row e (r_id d) db = Inr db1"
    "snd (delete_role e i db) = db1" by blast
  have din: "d \<in> set (roles db)" using findRoleById_SomeD[OF d(1)] by simp
  have "r \<noteq> d" "r \<in> set (roles db)" using a d(2) by (auto simp: administrator_def)
  then have neq: "r_id r \<noteq> r_id d" using ok din by (auto simp: db_ok_def roles_ok_def distinct_map inj_on_def)
  have c: "canon e (r_id d) = r_id d" "canon e (r_id r) = r_id r" using role_row[OF ok] din \<open>r \<in> set (roles db)\<close> by auto
  have "db1 = db\<lparr>roles := filter (\<lambda>r. r_id r \<noteq> r_id d) (roles db),
     role_permissions := filter (\<lambda>rp. rp_roleId rp \<noteq> r_id d) (role_permissions db)\<rparr>"
    using d(3) c(1) by (auto simp: delete_role_row_def split: if_splits)
  then show ?thesis
    using a neq c unfolding d(4) by (intro administrator_kept[OF a, of u _ r]) (auto simp: administrator_def)
next
  case False
  then have "snd (delete_role e i db) = db"
    by (auto simp: delete_role_def split: option.splits sum.splits)
  then show ?thesis using a by (auto simp: has_administrator_def)
qed

lemma insert_links_Inr:
  "insert_links rps db = Inr db' \<Longrightarrow> db' = db\<lparr>role_permissions := role_permissions db @ rps\<rparr>"
proof (induction rps arbitrary: db)
  case (Cons rp rps)
  then obtain db1 where db1: "db1 = db\<lparr>role_permissions := role_permissions db @ [rp]\<rparr>" "insert_links rps db1 = Inr db'"
    by (auto simp: insert_role_permission_def split: if_splits)
  then show ?case using Cons.IH[OF db1(2)] by simp
qed simp

lemma replaceForRole_Inr:
  assumes "replaceForRole e i ps db = Inr db'"
  shows "db' = db\<lparr>role_permissions := filter (\<lambda>rp. rp_roleId rp \<noteq> canon e i) (role_permissions db)
     @ map (\<lambda>pid. \<lparr>rp_roleId = i, rp_permissionId = pid\<rparr>) ps\<rparr>"
  using insert_links_Inr[OF assms[unfolded replaceForRole_def Let_def]] by simp

lemma replace_permissions_check_Inr:
  assumes "replace_permissions_check e i keys db = Inr (r, resolved)"
  shows "findRoleById e i db = Some r" "resolved = findByKeyNames e (unique_keys keys) db"
    "length resolved = length (unique_keys keys)" "list_all (\<lambda>p. p_scope p = BOTH \<or> p_scope p = r_scope r) resolved"
    "r_isSystem r \<and> r_code r \<in> set ADMIN_PERMISSION_LOCKED_ROLE_CODES \<Longrightarrow>
       \<forall>k\<in>set (findPermissionKeysByRoleId e (r_id r) db). startsWith k ADMIN_KEY_PREFIX \<longrightarrow> k \<in> set (unique_keys keys)"
  using assms by (auto simp: replace_permissions_check_def Let_def find_None_iff list_all_iff filter_empty_conv
      split: option.splits if_splits)

lemma administrator_replace_permissions:
  assumes ok: "db_ok e db" and a: "administrator e db u r"
  shows "has_administrator e (snd (replace_role_permissions e w i keys db))"
proof (cases "\<exists>s resolved db1. replace_permissions_check e i keys db = Inr (s, resolved)
    \<and> replaceForRole e (r_id s) (map p_id resolved) db = Inr db1")
  case True
  then obtain s resolved db1 where s: "replace_permissions_check e i keys db = Inr (s, resolved)"
    "replaceForRole e (r_id s) (map p_id resolved) db = Inr db1" by blast
  note k = replace_permissions_check_Inr[OF s(1)]
  have sin: "s \<in> set (roles db)" using findRoleById_SomeD[OF k(1)] by simp
  have rin: "r \<in> set (roles db)" using a by (simp add: administrator_def)
  have c: "canon e (r_id s) = r_id s" "canon e (r_id r) = r_id r" using role_row[OF ok] sin rin by auto
  note db1 = replaceForRole_Inr[OF s(2), unfolded c(1)]
  have "has_administrator e db1"
  proof (cases "s = r")
    case False
    then have "r_id r \<noteq> r_id s" using ok sin rin by (auto simp: db_ok_def roles_ok_def distinct_map inj_on_def)
    then show ?thesis using a c(2) by (intro administrator_kept[OF a, of u _ r]) (auto simp: db1 administrator_def)
  next
    case True
    have "ADMIN_USERS_MANAGE \<in> set (unique_keys keys)"
      using k(5) a True by (auto simp: administrator_def ADMIN_PERMISSION_LOCKED_ROLE_CODES_def ADMIN_USERS_MANAGE_def
          startsWith_def ADMIN_KEY_PREFIX_def)
    moreover obtain p where p: "p \<in> set (permissions db)" "p_keyName p = ADMIN_USERS_MANAGE"
      using a by (auto simp: administrator_def keys_iff)
    ultimately have "p \<in> set resolved" by (auto simp: k(2) findByKeyNames_def)
    then have "ADMIN_USERS_MANAGE \<in> set (findPermissionKeysByRoleId e (r_id r) db1)"
      using p c True by (auto simp: keys_iff db1 intro!: bexI[of _ "\<lparr>rp_roleId = r_id s, rp_permissionId = p_id p\<rparr>"] bexI[of _ p])
    then have "administrator e db1 u r" using a by (simp add: administrator_def db1)
    then show ?thesis by (auto simp: has_administrator_def)
  qed
  then show ?thesis
    using account_kept_administrator[OF account_kept_statements(6)]
    by (simp add: replace_role_permissions_def s)
next
  case False
  then have "snd (replace_role_permissions e w i keys db) = db"
    by (auto simp: replace_role_permissions_def split: sum.splits)
  then show ?thesis using a by (auto simp: has_administrator_def)
qed

lemma administrator_create_role:
  assumes a: "administrator e db u r"
  shows "has_administrator e (snd (create_role e w code nm sc d db))"
proof -
  have "snd (create_role e w code nm sc d db) = db \<or> (\<exists>x. snd (create_role e w code nm sc d db) = db\<lparr>roles := roles db @ [x]\<rparr>)"
    by (auto simp: create_role_def Let_def insert_role_def)
  then show ?thesis
  proof
    assume "\<exists>x. snd (create_role e w code nm sc d db) = db\<lparr>roles := roles db @ [x]\<rparr>"
    then show ?thesis using a by (auto intro!: administrator_kept[OF a, of u _ r] simp: administrator_def)
  qed (use a in \<open>auto simp: has_administrator_def\<close>)
qed

lemma administrator_run:
  assumes "db_ok e db" "has_administrator e db" "canonical_ids e cmd"
  shows "has_administrator e (run e w cmd db)"
proof -
  obtain u r where a: "administrator e db u r" using assms(2) by (auto simp: has_administrator_def)
  have kept: "has_administrator e db'" if "account_kept db db'" for db'
    using that assms(2) by (rule account_kept_administrator)
  show ?thesis
  proof (cases cmd)
    case (UpdateRole i nm d)
    then show ?thesis using a administrator_update_role[OF a]
      by (auto simp: update_role_def Let_def has_administrator_def split: sum.splits)
  qed (use assms a in \<open>simp_all add: kept[OF account_kept_sessions(1)] kept[OF account_kept_sessions(2)]
        kept[OF account_kept_sessions(3)] kept[OF account_kept_sessions(4)] kept[OF account_kept_create_user]
        kept[OF account_kept_reset_password] administrator_update_user administrator_deactivate_user
        administrator_delete_role administrator_replace_permissions administrator_create_role\<close>)
qed

section \<open>The seeded portal\<close>

lemma save_roles_Inr:
  assumes "db_ok e db" "world_ok e w" "save_roles e w k seeds db = (Inr k', db')"
  shows "db_ok e db' \<and> (\<exists>rs. db' = db\<lparr>roles := roles db @ rs\<rparr> \<and>
     map (\<lambda>r. (r_code r, r_scope r, r_isSystem r)) rs = map (\<lambda>(code, nm, sc, d). (code, sc, True)) seeds)"
  using assms
proof (induction seeds arbitrary: k db)
  case (Cons seed seeds)
  obtain code nm sc d where seed: "seed = (code, nm, sc, d)" by (cases seed)
  let ?r = "new_role code nm sc (Some d) True (fresh_id w k) (db_now w)"
  obtain db1 where db1: "insert_role e ?r db = Inr db1" "save_roles e w (Suc k) seeds db1 = (Inr k', db')"
    using Cons.prems(3) by (auto simp: seed split: sum.splits)
  have ok: "db_ok e db1"
    using db_ok_insert_role[OF Cons.prems(1) _ db1(1)] Cons.prems(2) by (simp add: world_ok_def new_role_def)
  have d1: "db1 = db\<lparr>roles := roles db @ [?r]\<rparr>" using db1(1) by (auto simp: insert_role_def split: if_splits)
  obtain rs where "db_ok e db'" "db' = db1\<lparr>roles := roles db1 @ rs\<rparr>"
    "map (\<lambda>r. (r_code r, r_scope r, r_isSystem r)) rs = map (\<lambda>(code, nm, sc, d). (code, sc, True)) seeds"
    using Cons.IH[OF ok Cons.prems(2) db1(2)] by blast
  then show ?case by (intro conjI exI[of _ "?r # rs"]) (simp_all add: d1 seed new_role_def)
qed auto

lemma save_permissions_Inr:
  assumes "db_ok e db" "save_permissions e w k seeds db = (Inr k', db')"
  shows "db_ok e db' \<and> (\<exists>ps. db' = db\<lparr>permissions := permissions db @ ps\<rparr> \<and>
     map (\<lambda>p. (p_keyName p, p_scope p)) ps = map (\<lambda>(key, sc, d). (key, sc)) seeds)"
  using assms
proof (induction seeds arbitrary: k db)
  case (Cons seed seeds)
  obtain key sc d where seed: "seed = (key, sc, d)" by (cases seed)
  let ?p = "\<lparr>p_id = fresh_id w k, p_keyName = key, p_description = Some d, p_scope = sc\<rparr>"
  obtain db1 where db1: "insert_permission e ?p db = Inr db1" "save_permissions e w (Suc k) seeds db1 = (Inr k', db')"
    using Cons.prems(2) by (auto simp: seed split: sum.splits)
  have d1: "db1 = db\<lparr>permissions := permissions db @ [?p]\<rparr>" using db1(1) by (auto simp: insert_permission_def split: if_splits)
  obtain ps where "db_ok e db'" "db' = db1\<lparr>permissions := permissions db1 @ ps\<rparr>"
    "map (\<lambda>p. (p_keyName p, p_scope p)) ps = map (\<lambda>(key, sc, d). (key, sc)) seeds"
    using Cons.IH[OF db_ok_insert_permission[OF Cons.prems(1) db1(1)] db1(2)] by blast
  then show ?case by (intro conjI exI[of _ "?p # ps"]) (simp_all add: d1 seed)
qed auto

definition granted :: "auth_env \<Rightarrow> auth_db \<Rightarrow> role_permission list \<Rightarrow> role \<Rightarrow> string list \<Rightarrow> bool" where
  "granted e db links r keys \<longleftrightarrow> (\<forall>key\<in>set keys. \<exists>p. findByKeyName e key db = Some p \<and>
     \<lparr>rp_roleId = r_id r, rp_permissionId = p_id p\<rparr> \<in> set links)"

definition granted_role :: "auth_env \<Rightarrow> auth_db \<Rightarrow> role_permission list \<Rightarrow> string \<times> string list \<Rightarrow> bool" where
  "granted_role e db links grant \<longleftrightarrow> (\<exists>r. findRoleByCode e (fst grant) db = Some r \<and> granted e db links r (snd grant))"

lemma granted_mono: "granted e db l r keys \<Longrightarrow> set l \<subseteq> set l' \<Longrightarrow> granted e db l' r keys"
  unfolding granted_def by blast

lemma granted_role_mono: "granted_role e db l g \<Longrightarrow> set l \<subseteq> set l' \<Longrightarrow> granted_role e db l' g"
  unfolding granted_role_def by (blast intro: granted_mono)

lemma granted_links_irrelevant [simp]:
  "granted e (db\<lparr>role_permissions := x\<rparr>) l r keys = granted e db l r keys"
  "granted_role e (db\<lparr>role_permissions := x\<rparr>) l g = granted_role e db l g"
  by (simp_all add: granted_def granted_role_def findByKeyName_def findRoleByCode_def)

lemma grant_keys_Inr:
  assumes "db_ok e db" "grant_keys e r n keys db = (Inr n', db')"
  shows "db_ok e db' \<and> (\<exists>links. db' = db\<lparr>role_permissions := role_permissions db @ links\<rparr> \<and> granted e db links r keys)"
  using assms
proof (induction keys arbitrary: n db)
  case Nil
  then show ?case by (auto simp: granted_def intro!: exI[of _ "[]"])
next
  case (Cons key keys)
  then obtain p db1 where p: "findByKeyName e key db = Some p"
    "insert_role_permission \<lparr>rp_roleId = r_id r, rp_permissionId = p_id p\<rparr> db = Inr db1"
    "grant_keys e r (Suc n) keys db1 = (Inr n', db')"
    by (auto split: option.splits sum.splits)
  have db1: "db1 = db\<lparr>role_permissions := role_permissions db @ [\<lparr>rp_roleId = r_id r, rp_permissionId = p_id p\<rparr>]\<rparr>"
    using p(2) by (auto simp: insert_role_permission_def split: if_splits)
  obtain links where l: "db' = db1\<lparr>role_permissions := role_permissions db1 @ links\<rparr>" "granted e db links r keys" "db_ok e db'"
    using Cons.IH[OF db_ok_insert_role_permission[OF Cons.prems(1) p(2)] p(3)] by (auto simp: db1)
  let ?links = "\<lparr>rp_roleId = r_id r, rp_permissionId = p_id p\<rparr> # links"
  have "granted e db ?links r keys" using l(2) by (rule granted_mono) auto
  then have "granted e db ?links r (key # keys)" using p(1) by (simp add: granted_def)
  then show ?case using l(1,3) by (intro conjI exI[of _ ?links]) (simp_all add: db1)
qed

lemma grant_roles_Inr:
  assumes "db_ok e db" "grant_roles e n grants db = (Inr n', db')"
  shows "db_ok e db' \<and> (\<exists>links. db' = db\<lparr>role_permissions := role_permissions db @ links\<rparr> \<and>
     (\<forall>g\<in>set grants. granted_role e db links g))"
  using assms
proof (induction grants arbitrary: n db)
  case Nil
  then show ?case by (auto intro!: exI[of _ "[]"])
next
  case (Cons grant grants)
  obtain code keys where grant: "grant = (code, keys)" by (cases grant)
  from Cons.prems(2) obtain r n1 db1 where r: "findRoleByCode e code db = Some r"
    "grant_keys e r n keys db = (Inr n1, db1)" "grant_roles e n1 grants db1 = (Inr n', db')"
    by (auto simp: grant split: option.splits sum.splits prod.splits)
  obtain l1 where l1: "db1 = db\<lparr>role_permissions := role_permissions db @ l1\<rparr>" "db_ok e db1" "granted e db l1 r keys"
    using grant_keys_Inr[OF Cons.prems(1) r(2)] by blast
  obtain l2 where l2: "db' = db1\<lparr>role_permissions := role_permissions db1 @ l2\<rparr>" "db_ok e db'"
    "\<forall>g\<in>set grants. granted_role e db l2 g"
    using Cons.IH[OF l1(2) r(3)] by (auto simp: l1(1))
  have "granted_role e db l1 grant" using r(1) l1(3) by (simp add: granted_role_def grant)
  then have "granted_role e db (l1 @ l2) grant" by (rule granted_role_mono) simp
  moreover have "granted_role e db (l1 @ l2) g" if "g \<in> set grants" for g
    using l2(3) that by (auto intro: granted_role_mono)
  ultimately show ?case using l1(1) l2(1,2) by (intro conjI exI[of _ "l1 @ l2"]) simp_all
qed

definition seeded :: "auth_env \<Rightarrow> auth_db \<Rightarrow> bool" where
  "seeded e db \<longleftrightarrow> (\<exists>w v steps db1 mail. world_ok e w \<and> world_ok e v \<and> rbac_seed e w db_empty = (Inr steps, db1) \<and>
     admin_user_seed e v db1 = (Inr (True, mail), db))"

lemma rbac_seed_Inr:
  assumes w: "world_ok e w" and s: "rbac_seed e w db_empty = (Inr steps, db1)"
  shows "db_ok e db1" "users db1 = []" "tokens db1 = []"
    "\<exists>r. findRoleByCode e ADMIN_ROLE_CODE db1 = Some r \<and> r_code r = ADMIN_ROLE_CODE \<and> r_scope r = HUB \<and> r_isSystem r \<and>
       ADMIN_USERS_MANAGE \<in> set (findPermissionKeysByRoleId e (r_id r) db1)"
proof -
  obtain k1 a where a: "save_roles e w 0 ROLE_SEEDS db_empty = (Inr k1, a)"
    using s by (auto simp: rbac_seed_def seedRoles_def db_empty_def split: prod.splits sum.splits)
  obtain rs where oka: "db_ok e a" and rs: "a = db_empty\<lparr>roles := rs\<rparr>"
    "map (\<lambda>r. (r_code r, r_scope r, r_isSystem r)) rs = map (\<lambda>(code, nm, sc, d). (code, sc, True)) ROLE_SEEDS"
    using save_roles_Inr[OF db_empty_ok w a] by (auto simp: db_empty_def)
  obtain k2 b where b: "save_permissions e w k1 PERMISSION_SEEDS a = (Inr k2, b)"
    using s a rs(1) by (auto simp: rbac_seed_def seedRoles_def seedPermissions_def db_empty_def split: prod.splits sum.splits)
  obtain ps where okb: "db_ok e b" and ps: "b = a\<lparr>permissions := ps\<rparr>"
    "map (\<lambda>p. (p_keyName p, p_scope p)) ps = map (\<lambda>(key, sc, d). (key, sc)) PERMISSION_SEEDS"
    using save_permissions_Inr[OF oka b] by (auto simp: rs(1) db_empty_def)
  obtain n where c: "grant_roles e 0 ROLE_GRANTS b = (Inr n, db1)"
    using s a b rs(1) ps(1)
    by (auto simp: rbac_seed_def seedRoles_def seedPermissions_def seedRolePermissions_def db_empty_def split: prod.splits sum.splits)
  obtain links where okc: "db_ok e db1" and l: "db1 = b\<lparr>role_permissions := links\<rparr>"
    "\<forall>g\<in>set ROLE_GRANTS. granted_role e b links g"
    using grant_roles_Inr[OF okb c] by (auto simp: ps(1) rs(1) db_empty_def)
  show "db_ok e db1" by (rule okc)
  show "users db1 = []" "tokens db1 = []" by (simp_all add: l(1) ps(1) rs(1) db_empty_def)
  obtain r rs' where r: "rs = r # rs'" "r_code r = ADMIN_ROLE_CODE" "r_scope r = HUB" "r_isSystem r"
    using rs(2) by (auto simp: ROLE_SEEDS_def)
  have fr: "findRoleByCode e ADMIN_ROLE_CODE b = Some r" "findRoleByCode e ADMIN_ROLE_CODE db1 = Some r"
    by (simp_all add: findRoleByCode_def l(1) ps(1) rs(1) r(1,2))
  have "(ADMIN_ROLE_CODE, map fst PERMISSION_SEEDS) \<in> set ROLE_GRANTS" by (simp add: ROLE_GRANTS_def)
  then have "granted_role e b links (ADMIN_ROLE_CODE, map fst PERMISSION_SEEDS)" using l(2) by blast
  then have "granted e b links r (map fst PERMISSION_SEEDS)" using fr(1) by (simp add: granted_role_def)
  moreover have "ADMIN_USERS_MANAGE \<in> set (map fst PERMISSION_SEEDS)" by (simp add: PERMISSION_SEEDS_def)
  ultimately obtain p where p: "findByKeyName e ADMIN_USERS_MANAGE b = Some p"
    "\<lparr>rp_roleId = r_id r, rp_permissionId = p_id p\<rparr> \<in> set links" unfolding granted_def by blast
  have pin: "p \<in> set ps" "collate e (p_keyName p) = collate e ADMIN_USERS_MANAGE"
    using p(1) by (auto simp: findByKeyName_def ps(1) dest!: find_SomeD)
  have "(ADMIN_USERS_MANAGE, HUB) \<in> set (map (\<lambda>p. (p_keyName p, p_scope p)) ps)"
    unfolding ps(2) by (simp add: PERMISSION_SEEDS_def)
  then obtain q where q: "q \<in> set ps" "p_keyName q = ADMIN_USERS_MANAGE" by auto
  have "p = q" using okb pin q by (auto simp: db_ok_def permissions_ok_def ps(1) distinct_map inj_on_def)
  moreover have "canon e (r_id r) = r_id r" using role_row[OF okc, of r] by (simp add: l(1) ps(1) rs(1) r(1))
  ultimately have "ADMIN_USERS_MANAGE \<in> set (findPermissionKeysByRoleId e (r_id r) db1)"
    using p(2) pin(1) q by (auto simp: keys_iff l(1) ps(1) intro!: bexI[of _ "\<lparr>rp_roleId = r_id r, rp_permissionId = p_id p\<rparr>"])
  then show "\<exists>r. findRoleByCode e ADMIN_ROLE_CODE db1 = Some r \<and> r_code r = ADMIN_ROLE_CODE \<and> r_scope r = HUB \<and> r_isSystem r \<and>
       ADMIN_USERS_MANAGE \<in> set (findPermissionKeysByRoleId e (r_id r) db1)"
    using fr(2) r by blast
qed

lemma seeded_ok:
  assumes "seeded e db"
  shows "db_ok e db" "has_administrator e db" "tokens db = []"
proof -
  obtain w v steps db1 mail where s: "world_ok e w" "world_ok e v" "rbac_seed e w db_empty = (Inr steps, db1)"
    "admin_user_seed e v db1 = (Inr (True, mail), db)" using assms by (auto simp: seeded_def)
  note d = rbac_seed_Inr[OF s(1,3)]
  obtain r where r: "findRoleByCode e ADMIN_ROLE_CODE db1 = Some r" "r_code r = ADMIN_ROLE_CODE" "r_scope r = HUB" "r_isSystem r"
    "ADMIN_USERS_MANAGE \<in> set (findPermissionKeysByRoleId e (r_id r) db1)" using d(4) by blast
  obtain u where u: "insert_user e u db1 = Inr db" "canon e (u_id u) = u_id u" "u_isActive u" "u_roleId u = r_id r"
    using s(2,4) r(1) by (auto simp: admin_user_seed_def countUsers_def d(2) new_user_def world_ok_def split: sum.splits)
  show "db_ok e db" using db_ok_insert_user[OF d(1) u(2,1)] .
  have db: "db = db1\<lparr>users := [u]\<rparr>" using u(1) by (auto simp: insert_user_def d(2) split: if_splits)
  have "r \<in> set (roles db)" using r(1) by (auto simp: findRoleByCode_def db dest: find_SomeD)
  then have "administrator e db u r" using r u by (simp add: administrator_def db findPermissionKeysByRoleId_def)
  then show "has_administrator e db" by (auto simp: has_administrator_def)
  show "tokens db = []" by (simp add: db d(3))
qed

end
