(* ===== verification/Auth_Properties.thy ===== *)
theory Auth_Properties
  imports Auth_System
begin

text \<open>
  The properties of the identity domain that span its commands.
\<close>

section \<open>A seeded portal\<close>

definition portal_world :: auth_world where
  "portal_world = (demo_world 0 [] [])\<lparr>fresh_id := (\<lambda>k. replicate k (CHR ''x''))\<rparr>"

definition rbac_db :: auth_db where
  "rbac_db = snd (rbac_seed demo_env portal_world db_empty)"

definition portal_db :: auth_db where
  "portal_db = snd (admin_user_seed demo_env portal_world rbac_db)"

lemma rbac_seed_runs: "fst (rbac_seed demo_env portal_world db_empty) = Inr (\<lparr>inserted = 3, skipped = False\<rparr>,
    \<lparr>inserted = 18, skipped = False\<rparr>, \<lparr>inserted = 25, skipped = False\<rparr>, 21)"
  by code_simp

lemma admin_seed_runs: "fst (admin_user_seed demo_env portal_world rbac_db) = Inr (True, ''a'')"
  by code_simp

lemma demo_portal_world_ok: "world_ok demo_env portal_world"
  by (simp add: world_ok_def portal_world_def demo_env_def)

lemma portal_seeded: "seeded demo_env portal_db"
proof -
  obtain steps db1 where s: "rbac_seed demo_env portal_world db_empty = (Inr steps, db1)"
    using rbac_seed_runs by (metis prod.collapse)
  then have "db1 = rbac_db" by (simp add: rbac_db_def)
  moreover obtain db2 where "admin_user_seed demo_env portal_world rbac_db = (Inr (True, ''a''), db2)"
    using admin_seed_runs by (metis prod.collapse)
  moreover from this have "db2 = portal_db" by (simp add: portal_db_def)
  ultimately show ?thesis using s demo_portal_world_ok unfolding seeded_def by blast
qed

section \<open>Reachable databases\<close>

text \<open>
  The databases a portal reaches from a seeded one by running commands one after the other.  Each command sees a
  Snowflake identifier that no session carries yet; with \<open>c\<close> the identifiers in the requests are written the way
  the database prints them.
\<close>

inductive reachable :: "auth_env \<Rightarrow> bool \<Rightarrow> auth_db \<Rightarrow> bool" for e :: auth_env and c :: bool where
  reach_seeded: "seeded e db \<Longrightarrow> reachable e c db"
| reach_run: "reachable e c db \<Longrightarrow> world_ok e w \<Longrightarrow> fresh_id w 0 \<notin> t_familyId ` set (tokens db) \<Longrightarrow>
    (c \<longrightarrow> canonical_ids e cmd) \<Longrightarrow> reachable e c (run e w cmd db)"

lemma reachable_ok_administrator:
  "reachable e c db \<Longrightarrow> db_ok e db \<and> (c \<longrightarrow> has_administrator e db)"
  by (induction rule: reachable.induct) (auto intro: seeded_ok db_ok_run administrator_run)

lemma portal_reach_login: "reachable demo_env True (run demo_env portal_world (Login ''a'' ''t'') portal_db)"
proof -
  have "tokens portal_db = []" using seeded_ok(3)[OF portal_seeded] .
  then show ?thesis
    using reach_run[OF reach_seeded[OF portal_seeded] demo_portal_world_ok, of True "Login ''a'' ''t''"] by simp
qed

text \<open>
  C26: Every database that a seeded portal reaches is well formed: the unique and foreign keys hold, and in every
  token family the tokens belong to one user, share one session deadline, and at most one is not revoked.
\<close>

theorem reachable_db_ok:
  assumes "reachable e c db"
  shows "db_ok e db"
  using reachable_ok_administrator[OF assms] by blast

theorem reachable_db_ok_witness: "db_ok demo_env (run demo_env portal_world (Login ''a'' ''t'') portal_db)"
  by (rule reachable_db_ok[OF portal_reach_login])



text \<open>
  The hypothesis on identifiers matters: the guard against locking oneself out compares the identifiers of the
  request as texts, the lookups compare them as numbers.  With a leading zero the first administrator
  deactivates its own account.
\<close>

definition zero_env :: auth_env where
  "zero_env = demo_env\<lparr>canon := dropWhile (\<lambda>c. c = CHR ''0'')\<rparr>"

definition two_admins_db :: auth_db where
  "two_admins_db = demo_db\<lparr>users := [new_user ''m'' ''pw'' ''r1'' None False ''1'' 0, new_user ''n'' ''pw'' ''r1'' None False ''2'' 0],
     tokens := []\<rparr>"

lemma self_lock_bypassed:
  "fst (deactivate_user zero_env portal_world ''1'' ''1'' two_admins_db) = Inl (adminError BadRequest USER_SELF_LOCK)"
  "map u_isActive (users (snd (deactivate_user zero_env portal_world ''01'' ''1'' two_admins_db))) = [False, True]"
  by code_simp+

section \<open>Managers of one FSP\<close>

text \<open>The user-management commands with the account that issues them.\<close>

fun issued_by :: "string \<Rightarrow> auth_command \<Rightarrow> bool" where
  "issued_by actor (CreateUser a mail r fsp) \<longleftrightarrow> a = actor"
| "issued_by actor (UpdateUser inp) \<longleftrightarrow> in_actingUserId inp = actor"
| "issued_by actor (DeactivateUser target a) \<longleftrightarrow> a = actor"
| "issued_by actor (ResetPassword target a) \<longleftrightarrow> a = actor"
| "issued_by actor _ \<longleftrightarrow> False"

definition within :: "management_context \<Rightarrow> auth_db \<Rightarrow> string \<Rightarrow> user \<Rightarrow> bool" where
  "within c db fsp v \<longleftrightarrow> u_fspId v = Some fsp \<and>
     (\<exists>r\<in>set (roles db). r_id r = u_roleId v \<and> r_scope r = DFSP \<and>
        (r_code r = DFSP_ADMIN_ROLE_CODE \<longrightarrow> r_code (m_actorRole c) = DFSP_ADMIN_ROLE_CODE))"

lemma dfsp_context:
  assumes "resolveManagementContext e actor db = Inr c" "\<not> m_globalManager c"
  obtains fsp where "m_managementFspId c = Some fsp"
  using assms by (auto simp: resolveManagementContext_def Let_def split: option.splits if_splits)

lemma manage_within:
  assumes ok: "db_ok e db" and c: "\<not> m_globalManager c" "m_managementFspId c = Some fsp" and t: "t \<in> set (users db)"
    and m: "canManageTargetRole c t (findRoleById e (u_roleId t) db) = Inr True"
  shows "within c db fsp t"
proof -
  obtain r where r: "findRoleById e (u_roleId t) db = Some r" "r_scope r = DFSP" "u_fspId t = Some fsp"
    "r_code r = DFSP_ADMIN_ROLE_CODE \<longrightarrow> r_code (m_actorRole c) = DFSP_ADMIN_ROLE_CODE"
    using m c by (auto simp: canManageTargetRole_def split: option.splits if_splits)
  have "canon e (u_roleId t) = u_roleId t" using user_row[OF ok t] role_row[OF ok] by auto
  then show ?thesis using r findRoleById_iff[OF ok] by (auto simp: within_def)
qed

lemma changed_row:
  assumes "users db' = map (\<lambda>u. if u_id u = i then f u else u) (users db)" "v \<in> set (users db')" "v \<notin> set (users db)"
  obtains u where "u \<in> set (users db)" "u_id u = i" "v = f u"
  using assms by (auto split: if_splits)

lemma users_reset_password_write:
  "canon e i = i \<Longrightarrow> users (reset_password_write e w i pw db) =
    map (\<lambda>u. if u_id u = i then u\<lparr>u_passwordHash := bcrypt_hash w pw (bcryptCostFactor e), u_mustChangePassword := True,
      u_tokensInvalidatedAt := Some (stored e (clock w 1))\<rparr> else u) (users db)"
  by (simp add: reset_password_write_def updatePasswordHash_def invalidateTokens_def)

lemma within_frame: "u_fspId v = u_fspId t \<Longrightarrow> u_roleId v = u_roleId t \<Longrightarrow> within c db fsp t \<Longrightarrow> within c db fsp v"
  by (simp add: within_def)

lemma reset_password_check_Inr:
  assumes "reset_password_check e target actor db = Inr (t, ro)"
  shows "\<exists>c. resolveManagementContext e actor db = Inr c \<and> findUserById e target db = Some t \<and>
    ro = findRoleById e (u_roleId t) db \<and> canManageTargetRole c t ro = Inr True"
  using assms by (auto simp: reset_password_check_def Let_def assertCanManageTargetRole_def split: option.splits)

lemma insert_user_Inr:
  "insert_user e u db = Inr db' \<Longrightarrow> users db' = users db @ [u] \<and> (\<forall>v\<in>set (users db). u_id v \<noteq> u_id u)"
  by (auto simp: insert_user_def split: if_splits)

lemma create_confined:
  assumes ok: "db_ok e db" and c: "resolveManagementContext e actor db = Inr c" "\<not> m_globalManager c" "m_managementFspId c = Some fsp"
    and v: "v \<in> set (users (snd (create_user e w actor mail r f db)))" "v \<notin> set (users db)"
  shows "within c db fsp v"
proof (cases rule: create_user_cases[of e w actor mail r f db])
  case (2 u role eff pw)
  have "v = u" using v insert_user_Inr[OF 2(3)] by auto
  moreover have "findRoleById e r db = Some role" "canAssignRole c role" "eff = Some fsp"
    using 2(1) c by (auto simp: create_user_check_def assertCanAssignRole_def resolveCreateFspId_def Let_def split: option.splits)
  moreover from this have "role \<in> set (roles db)" using findRoleById_SomeD by blast
  ultimately show ?thesis
    using c(2) by (auto simp: within_def 2(2) new_user_def canAssignRole_def split: if_splits)
qed (use v in simp)

lemma update_confined:
  assumes ok: "db_ok e db" and c: "resolveManagementContext e (in_actingUserId inp) db = Inr c" "\<not> m_globalManager c"
      "m_managementFspId c = Some fsp"
    and v: "v \<in> set (users (snd (update_user e w inp db)))" "v \<notin> set (users db)"
  shows "within c db fsp v \<and> (\<exists>t\<in>set (users db). u_id t = u_id v \<and> within c db fsp t)"
proof -
  obtain pl where pl: "update_user_check e inp db = Inr pl"
    using v by (cases "update_user_check e inp db") (simp_all add: update_user_def)
  from update_user_check_Inr[OF pl] obtain tr where
    t: "findUserById e (in_targetUserId inp) db = Some (pl_target pl)"
    and m: "canManageTargetRole c (pl_target pl) (findRoleById e (u_roleId (pl_target pl)) db) = Inr True"
    and asg: "canAssignRole c (pl_newRole pl)" "pl_newRole pl \<in> set (roles db)"
    and fsp: "pl_fspId pl = m_managementFspId c"
    and same: "\<not> pl_roleChange pl \<longrightarrow> r_id (pl_newRole pl) = canon e (u_roleId (pl_target pl))"
    using c(1,2) by (metis Inr_inject)
  have tin: "pl_target pl \<in> set (users db)" using t findUserById_iff[OF ok] by blast
  have cu: "canon e (u_id (pl_target pl)) = u_id (pl_target pl)" "canon e (u_roleId (pl_target pl)) = u_roleId (pl_target pl)"
    using user_row[OF ok tin] role_row[OF ok] by auto
  have within_t: "within c db fsp (pl_target pl)" by (rule manage_within[OF ok c(2,3) tin m])
  have "users (snd (update_user e w inp db)) = map (\<lambda>u. if u_id u = u_id (pl_target pl)
        then (apply_user_update (user_patch pl (in_isActive inp)) u)\<lparr>u_tokensInvalidatedAt := Some (stored e (clock w 0))\<rparr>
        else u) (users db)"
    using users_update_user_write[OF cu(1)] by (simp add: update_user_def pl Let_def)
  from changed_row[OF this v] obtain u where u: "u \<in> set (users db)" "u_id u = u_id (pl_target pl)"
    "v = (apply_user_update (user_patch pl (in_isActive inp)) u)\<lparr>u_tokensInvalidatedAt := Some (stored e (clock w 0))\<rparr>"
    by blast
  have ut: "u = pl_target pl" using same_user[OF ok u(1) tin] u(2) by simp
  have "u_fspId v = Some fsp" using c(3) fsp by (auto simp: u(3) ut apply_user_update_def user_patch_def nullish_def)
  moreover have "u_roleId v = r_id (pl_newRole pl)"
    using same cu(2) by (auto simp: u(3) ut apply_user_update_def user_patch_def nullish_def)
  ultimately have "within c db fsp v" using asg c(2) by (auto simp: within_def canAssignRole_def split: if_splits)
  then show ?thesis using within_t tin u(3) ut by (auto intro!: bexI[of _ "pl_target pl"])
qed

lemma deactivate_confined:
  assumes ok: "db_ok e db" and c: "resolveManagementContext e actor db = Inr c" "\<not> m_globalManager c" "m_managementFspId c = Some fsp"
    and v: "v \<in> set (users (snd (deactivate_user e w target actor db)))" "v \<notin> set (users db)"
  shows "within c db fsp v \<and> (\<exists>t\<in>set (users db). u_id t = u_id v \<and> within c db fsp t)"
proof -
  obtain t ro where chk: "deactivate_user_check e target actor db = Inr (t, ro, True)"
    and db': "users (snd (deactivate_user e w target actor db)) = users (deactivate_write e w (u_id t) db)"
    using v by (auto simp: deactivate_user_def Let_def split: sum.splits prod.splits if_splits)
  from deactivate_user_check_Inr[OF chk] have t: "findUserById e target db = Some t"
    and m: "canManageTargetRole c t (findRoleById e (u_roleId t) db) = Inr True"
    using c(1) by (metis Inr_inject)+
  have tin: "t \<in> set (users db)" using t findUserById_iff[OF ok] by blast
  have cu: "canon e (u_id t) = u_id t" using user_row[OF ok tin] by simp
  from changed_row[OF db'[unfolded users_deactivate_write[OF cu]] v] obtain u where u: "u \<in> set (users db)" "u_id u = u_id t"
    "v = u\<lparr>u_isActive := False, u_tokensInvalidatedAt := Some (stored e (clock w 1))\<rparr>" by blast
  have "u = t" using same_user[OF ok u(1) tin] u(2) by simp
  then show ?thesis using manage_within[OF ok c(2,3) tin m] tin u(3) by (auto simp: within_def intro!: bexI[of _ t])
qed

lemma reset_confined:
  assumes ok: "db_ok e db" and c: "resolveManagementContext e actor db = Inr c" "\<not> m_globalManager c" "m_managementFspId c = Some fsp"
    and v: "v \<in> set (users (snd (reset_user_password e w target actor db)))" "v \<notin> set (users db)"
  shows "within c db fsp v \<and> (\<exists>t\<in>set (users db). u_id t = u_id v \<and> within c db fsp t)"
proof -
  obtain t ro pw where chk: "reset_password_check e target actor db = Inr (t, ro)"
    and db': "users (snd (reset_user_password e w target actor db)) = users (reset_password_write e w (u_id t) pw db)"
    using v by (cases "reset_password_check e target actor db"; cases "generate_password w DEFAULT_LENGTH")
      (auto simp: reset_user_password_def Let_def)
  from reset_password_check_Inr[OF chk] have t: "findUserById e target db = Some t"
    and m: "canManageTargetRole c t (findRoleById e (u_roleId t) db) = Inr True"
    using c(1) by auto
  have tin: "t \<in> set (users db)" using t findUserById_iff[OF ok] by blast
  have cu: "canon e (u_id t) = u_id t" using user_row[OF ok tin] by simp
  from changed_row[OF db'[unfolded users_reset_password_write[OF cu]] v] obtain u where u: "u \<in> set (users db)" "u_id u = u_id t"
    "v = u\<lparr>u_passwordHash := bcrypt_hash w pw (bcryptCostFactor e), u_mustChangePassword := True,
      u_tokensInvalidatedAt := Some (stored e (clock w 1))\<rparr>" by blast
  have "u = t" using same_user[OF ok u(1) tin] u(2) by simp
  then show ?thesis using manage_within[OF ok c(2,3) tin m] tin u(3) by (auto simp: within_def intro!: bexI[of _ t])
qed

text \<open>
  C35: A manager without the global permission stays inside one FSP.  A user-management command of such a manager
  leaves roles and permissions alone, and every user row it adds or changes is, before and after, a row of the
  manager's own FSP with a DFSP-scoped role, and with the DFSP administrator role only if the manager has it.
\<close>

theorem dfsp_manager_confined:
  assumes "db_ok e db" and "resolveManagementContext e actor db = Inr c" and "\<not> m_globalManager c" and "issued_by actor cmd"
  shows "\<exists>fsp. m_managementFspId c = Some fsp \<and>
     roles (run e w cmd db) = roles db \<and> permissions (run e w cmd db) = permissions db \<and>
     role_permissions (run e w cmd db) = role_permissions db \<and>
     (\<forall>v\<in>set (users (run e w cmd db)) - set (users db).
        within c db fsp v \<and> (\<forall>t\<in>set (users db). u_id t = u_id v \<longrightarrow> within c db fsp t))"
proof -
  obtain fsp where fsp: "m_managementFspId c = Some fsp" using dfsp_context[OF assms(2,3)] .
  have rows: "within c db fsp v \<and> (\<forall>t\<in>set (users db). u_id t = u_id v \<longrightarrow> within c db fsp t)"
    if v: "v \<in> set (users (run e w cmd db))" "v \<notin> set (users db)" for v
  proof (cases "\<exists>a m r f. cmd = CreateUser a m r f")
    case True
    then obtain m r f where cmd: "cmd = CreateUser actor m r f" using assms(4) by auto
    have new: "u_id t \<noteq> u_id v" if "t \<in> set (users db)" for t
    proof (cases rule: create_user_cases[of e w actor m r f db])
      case (2 u role eff pw)
      then show ?thesis using v that insert_user_Inr[OF 2(3)] by (auto simp: cmd)
    qed (use v in \<open>simp add: cmd\<close>)
    show ?thesis using create_confined[OF assms(1-3) fsp, of v w m r f] v new by (auto simp: cmd)
  next
    case False
    then have "within c db fsp v \<and> (\<exists>t\<in>set (users db). u_id t = u_id v \<and> within c db fsp t)"
      using assms(2,4) v update_confined[OF assms(1) _ assms(3) fsp] deactivate_confined[OF assms(1-3) fsp]
        reset_confined[OF assms(1-3) fsp]
      by (cases cmd) auto
    then show ?thesis using same_user[OF assms(1)] by metis
  qed
  have tables: "roles (run e w cmd db) = roles db \<and> permissions (run e w cmd db) = permissions db \<and>
     role_permissions (run e w cmd db) = role_permissions db"
  proof (cases cmd)
    case (CreateUser a m r f)
    then show ?thesis using account_kept_create_user[of db e w a m r f] by (simp add: account_kept_def)
  next
    case (ResetPassword t a)
    then show ?thesis using account_kept_reset_password[of db e w t a] by (simp add: account_kept_def)
  qed (use assms(4) in \<open>auto simp: update_user_def deactivate_user_def Let_def split: sum.splits prod.splits\<close>)
  show ?thesis using fsp rows tables by blast
qed

definition dfsp_db :: auth_db where
  "dfsp_db = demo_db\<lparr>
     users := [new_user ''d'' ''pw'' ''r2'' (Some ''F'') False ''u2'' 0],
     roles := roles demo_db @
       [\<lparr>r_id = ''r2'', r_code = ''DFSP_ADMIN'', r_name = ''D'', r_description = None, r_scope = DFSP, r_isSystem = True, r_createdAt = 0\<rparr>,
        \<lparr>r_id = ''r3'', r_code = ''DFSP_USER'', r_name = ''U'', r_description = None, r_scope = DFSP, r_isSystem = True, r_createdAt = 0\<rparr>],
     permissions := permissions demo_db @
       [\<lparr>p_id = ''p2'', p_keyName = ''admin.dfsp-users.manage'', p_description = None, p_scope = DFSP\<rparr>],
     role_permissions := role_permissions demo_db @ [\<lparr>rp_roleId = ''r2'', rp_permissionId = ''p2''\<rparr>],
     tokens := []\<rparr>"

theorem dfsp_manager_confined_witness:
  "list_all (\<lambda>v. u_fspId v = Some ''F'') (users (run demo_env portal_world (CreateUser ''u2'' ''x'' ''r3'' None) dfsp_db))
   \<and> length (users (run demo_env portal_world (CreateUser ''u2'' ''x'' ''r3'' None) dfsp_db)) = 2"
proof -
  let ?cmd = "CreateUser ''u2'' ''x'' ''r3'' None"
  have ok: "db_ok demo_env dfsp_db"
    by (simp add: dfsp_db_def demo_defs db_ok_def users_ok_def roles_ok_def permissions_ok_def links_ok_def tokens_ok_def)
  obtain c where c: "resolveManagementContext demo_env ''u2'' dfsp_db = Inr c"
    and n: "\<not> m_globalManager c" "m_managementFspId c = Some ''F''"
    by (simp add: resolveManagementContext_def dfsp_db_def demo_defs lookup_defs findPermissionKeysByRoleId_def
        ADMIN_USERS_MANAGE_def ADMIN_DFSP_USERS_MANAGE_def Let_def)
  have "\<forall>v\<in>set (users (run demo_env portal_world ?cmd dfsp_db)) - set (users dfsp_db). u_fspId v = Some ''F''"
    using dfsp_manager_confined[OF ok c n(1), of ?cmd portal_world] n(2) by (auto simp: within_def)
  moreover have "list_all (\<lambda>v. u_fspId v = Some ''F'') (users dfsp_db)" by (simp add: dfsp_db_def new_user_def)
  moreover have "length (users (run demo_env portal_world ?cmd dfsp_db)) = 2" by code_simp
  ultimately show ?thesis unfolding list_all_iff by blast
qed

section \<open>Revocation\<close>

text \<open>The users whose open sessions a command is meant to cut.\<close>

fun subject_of :: "auth_env \<Rightarrow> auth_command \<Rightarrow> user \<Rightarrow> bool" where
  "subject_of e (ChangePassword i p q) u \<longleftrightarrow> u_id u = canon e i"
| "subject_of e (UpdateUser inp) u \<longleftrightarrow> u_id u = canon e (in_targetUserId inp)"
| "subject_of e (DeactivateUser target actor) u \<longleftrightarrow> u_id u = canon e target"
| "subject_of e (ResetPassword target actor) u \<longleftrightarrow> u_id u = canon e target"
| "subject_of e (ReplacePermissions i keys) u \<longleftrightarrow> u_roleId u = canon e i"
| "subject_of e _ u \<longleftrightarrow> False"

fun succeeds :: "auth_env \<Rightarrow> auth_world \<Rightarrow> auth_command \<Rightarrow> auth_db \<Rightarrow> bool" where
  "succeeds e w (ChangePassword i p q) db \<longleftrightarrow> \<not> isl (fst (change_password e w i p q db))"
| "succeeds e w (UpdateUser inp) db \<longleftrightarrow> \<not> isl (fst (update_user e w inp db))"
| "succeeds e w (DeactivateUser target actor) db \<longleftrightarrow> \<not> isl (fst (deactivate_user e w target actor db))"
| "succeeds e w (ResetPassword target actor) db \<longleftrightarrow> \<not> isl (fst (reset_user_password e w target actor db))"
| "succeeds e w (ReplacePermissions i keys) db \<longleftrightarrow> \<not> isl (fst (replace_role_permissions e w i keys db))"
| "succeeds e w _ db \<longleftrightarrow> False"

definition cut_off :: "auth_env \<Rightarrow> auth_world \<Rightarrow> string \<Rightarrow> auth_db \<Rightarrow> bool" where
  "cut_off e w i db \<longleftrightarrow> (\<exists>v\<in>set (users db). u_id v = i \<and>
     (\<not> u_isActive v \<or> u_tokensInvalidatedAt v = Some (stored e (clock w 0)) \<or> u_tokensInvalidatedAt v = Some (stored e (clock w 1))))"

lemma cut_offI:
  assumes "users db' = map (\<lambda>u. if P u then f u else u) (users db)" "u \<in> set (users db)" "P u" "u_id (f u) = u_id u"
    and "\<not> u_isActive (f u) \<or> u_tokensInvalidatedAt (f u) = Some (stored e (clock w 0)) \<or> u_tokensInvalidatedAt (f u) = Some (stored e (clock w 1))"
  shows "cut_off e w (u_id u) db'"
proof -
  have "f u \<in> set (users db')" using assms(1-3) by auto
  then show ?thesis using assms(4,5) unfolding cut_off_def by blast
qed

lemma cut_off_run:
  assumes ok: "db_ok e db" and s: "succeeds e w cmd db" and u: "u \<in> set (users db)" "subject_of e cmd u"
  shows "cut_off e w (u_id u) (run e w cmd db)"
proof (cases cmd)
  case (ChangePassword i p q)
  obtain v where v: "findUserById e i db = Some v" "run e w cmd db =
      invalidateTokens e (u_id v) (clock w 1) (revokeAllForUser e (u_id v) (clock w 0)
        (updatePasswordHash e (u_id v) (bcrypt_hash w q (bcryptCostFactor e)) False db))"
    using s by (auto simp: ChangePassword change_password_def Let_def split: option.splits if_splits)
  have t: "v \<in> set (users db)" "u_id u = u_id v" using v(1) findUserById_iff[OF ok] u(2) by (auto simp: ChangePassword)
  have "users (run e w cmd db) = map (\<lambda>x. if u_id x = u_id v
       then x\<lparr>u_passwordHash := bcrypt_hash w q (bcryptCostFactor e), u_mustChangePassword := False,
         u_tokensInvalidatedAt := Some (stored e (clock w 1))\<rparr> else x) (users db)"
    using user_row[OF ok t(1)] by (simp add: v(2) updatePasswordHash_def invalidateTokens_def)
  then show ?thesis using u(1) t(2) by (rule cut_offI) auto
next
  case (UpdateUser inp)
  obtain pl where pl: "update_user_check e inp db = Inr pl"
    using s by (cases "update_user_check e inp db") (simp_all add: UpdateUser update_user_def)
  have t: "findUserById e (in_targetUserId inp) db = Some (pl_target pl)" using pl by (rule update_user_check_Inr)
  then have tin: "pl_target pl \<in> set (users db)" "u_id u = u_id (pl_target pl)"
    using findUserById_iff[OF ok] u(2) by (auto simp: UpdateUser)
  have c: "canon e (u_id (pl_target pl)) = u_id (pl_target pl)" using user_row[OF ok tin(1)] by simp
  have r: "users (run e w cmd db) = map (\<lambda>u. if u_id u = u_id (pl_target pl)
        then (apply_user_update (user_patch pl (in_isActive inp)) u)\<lparr>u_tokensInvalidatedAt := Some (stored e (clock w 0))\<rparr>
        else u) (users db)"
    using users_update_user_write[OF c] by (simp add: UpdateUser update_user_def pl Let_def)
  show ?thesis using u(1) tin(2) by (intro cut_offI[OF r]) auto
next
  case (DeactivateUser target actor)
  obtain t ro b where chk: "deactivate_user_check e target actor db = Inr (t, ro, b)"
    using s by (auto simp: DeactivateUser deactivate_user_def split: sum.splits)
  have t: "t \<in> set (users db)" "u_id u = u_id t"
  proof -
    have "findUserById e target db = Some t" using chk by (rule deactivate_user_check_Inr)
    then show "t \<in> set (users db)" "u_id u = u_id t" using findUserById_iff[OF ok] u(2) by (auto simp: DeactivateUser)
  qed
  have c: "canon e (u_id t) = u_id t" using user_row[OF ok t(1)] by simp
  show ?thesis
  proof (cases b)
    case True
    then have r: "users (run e w cmd db) = users (deactivate_write e w (u_id t) db)"
      by (simp add: DeactivateUser deactivate_user_def chk Let_def)
    show ?thesis using u(1) t(2) by (intro cut_offI[OF r[unfolded users_deactivate_write[OF c]]]) auto
  next
    case False
    then have "run e w cmd db = db" by (simp add: DeactivateUser deactivate_user_def chk)
    moreover have "\<not> u_isActive t"
      using chk False by (auto simp: deactivate_user_check_def Let_def split: option.splits if_splits)
    ultimately show ?thesis using t same_user[OF ok u(1) t(1)] by (auto simp: cut_off_def)
  qed
next
  case (ResetPassword target actor)
  obtain t ro pw where chk: "reset_password_check e target actor db = Inr (t, ro)"
    and r: "users (run e w cmd db) = users (reset_password_write e w (u_id t) pw db)"
    using s by (cases "reset_password_check e target actor db"; cases "generate_password w DEFAULT_LENGTH")
      (auto simp: ResetPassword reset_user_password_def Let_def)
  have t: "t \<in> set (users db)" "u_id u = u_id t"
    using reset_password_check_Inr[OF chk] findUserById_iff[OF ok] u(2) by (auto simp: ResetPassword)
  have c: "canon e (u_id t) = u_id t" using user_row[OF ok t(1)] by simp
  show ?thesis using u(1) t(2) by (intro cut_offI[OF r[unfolded users_reset_password_write[OF c]]]) auto
next
  case (ReplacePermissions i keys)
  obtain r resolved db1 where r: "replace_permissions_check e i keys db = Inr (r, resolved)"
    "replaceForRole e (r_id r) (map p_id resolved) db = Inr db1"
    using s by (auto simp: ReplacePermissions replace_role_permissions_def split: sum.splits)
  have rr: "r \<in> set (roles db)" "r_id r = canon e i"
    using replace_permissions_check_Inr(1)[OF r(1)] findRoleById_iff[OF ok] by auto
  have rc: "canon e (r_id r) = r_id r" by (rule role_row[OF ok rr(1)])
  have m: "users (run e w cmd db) = map (\<lambda>x. if u_roleId x = r_id r
       then x\<lparr>u_tokensInvalidatedAt := Some (stored e (clock w 0))\<rparr> else x) (users db)"
    using replaceForRole_Inr[OF r(2)] rc
    by (simp add: ReplacePermissions replace_role_permissions_def r invalidateTokensForRole_def)
  show ?thesis using u rr by (intro cut_offI[OF m]) (auto simp: ReplacePermissions)
qed (use s in simp_all)

lemma guard_rejects_cut_off:
  assumes ok: "db_ok e db" and cut: "cut_off e w i db" and st: "\<And>t. t div 1000 \<le> stored e t div 1000"
    and tok: "startsWith h BEARER_PREFIX" "verifyAccessToken e (trim (drop (length BEARER_PREFIX) h)) = Some claims"
    and claims: "canon e (c_sub claims) = i" "c_iat claims \<le> clock w 0 div 1000" "c_iat claims \<le> clock w 1 div 1000"
  shows "jwt_guard e False (Some h) db \<in> {Inl (authError Unauthorized USER_INACTIVE), Inl (authError Unauthorized TOKEN_REVOKED)}"
proof -
  obtain v where v: "v \<in> set (users db)" "u_id v = i" "\<not> u_isActive v \<or> (\<exists>k\<in>{0, 1}. u_tokensInvalidatedAt v = Some (stored e (clock w k)))"
    using cut by (auto simp: cut_off_def)
  have f: "findUserById e (c_sub claims) db = Some v" using findUserById_iff[OF ok] v(1,2) claims(1) by simp
  have "c_iat claims \<le> stored e (clock w k) div 1000" if "k \<in> {0, 1}" for k
    using that claims(2,3) st[of "clock w 0"] st[of "clock w 1"] by auto
  then show ?thesis using f v(3) tok by (auto simp: jwt_guard_def)
qed

text \<open>
  Changing a password, updating, deactivating or resetting a user, and changing the permissions of a role
  take effect on sessions at once: from then on the guard refuses every access token issued to the user (to any
  user of the role) up to the second of the command.
\<close>

theorem revocation_is_immediate:
  assumes "db_ok e db" and "db_ok e (run e w cmd db)" and "succeeds e w cmd db"
    and "u \<in> set (users db)" and "subject_of e cmd u"
    and "\<And>t. t div 1000 \<le> stored e t div 1000"
    and "startsWith h BEARER_PREFIX" and "verifyAccessToken e (trim (drop (length BEARER_PREFIX) h)) = Some claims"
    and "canon e (c_sub claims) = u_id u" and "c_iat claims \<le> clock w 0 div 1000" and "c_iat claims \<le> clock w 1 div 1000"
  shows "jwt_guard e False (Some h) (run e w cmd db)
     \<in> {Inl (authError Unauthorized USER_INACTIVE), Inl (authError Unauthorized TOKEN_REVOKED)}"
  using guard_rejects_cut_off[OF assms(2) cut_off_run[OF assms(1,3,4,5)] assms(6-11)] .

theorem revocation_is_immediate_witness:
  "jwt_guard demo_env False (Some ''Bearer u1'') demo_db \<noteq> Inl (authError Unauthorized TOKEN_REVOKED) \<and>
   jwt_guard demo_env False (Some ''Bearer u1'') (run demo_env (demo_world 9000 ''x'' ''y'') (ChangePassword ''u1'' ''pw'' ''new'') demo_db)
     \<in> {Inl (authError Unauthorized USER_INACTIVE), Inl (authError Unauthorized TOKEN_REVOKED)}"
proof
  let ?w = "demo_world 9000 ''x'' ''y''" and ?cmd = "ChangePassword ''u1'' ''pw'' ''new''"
  show "jwt_guard demo_env False (Some ''Bearer u1'') demo_db \<noteq> Inl (authError Unauthorized TOKEN_REVOKED)" by code_simp
  have ok: "db_ok demo_env (run demo_env ?w ?cmd demo_db)" using db_ok_change_password[OF demo_db_ok] by simp
  have s: "succeeds demo_env ?w ?cmd demo_db" by code_simp
  have u: "demo_user \<in> set (users demo_db)" "subject_of demo_env ?cmd demo_user" by (simp_all add: demo_defs)
  have st: "\<And>t. t div 1000 \<le> stored demo_env t div 1000" by (simp add: demo_defs)
  have t: "startsWith ''Bearer u1'' BEARER_PREFIX"
    "verifyAccessToken demo_env (trim (drop (length BEARER_PREFIX) ''Bearer u1'')) =
      Some \<lparr>c_sub = ''u1'', c_role = [], c_fspId = None, c_permissions = [], c_mustChangePassword = False,
        c_iat = 5, c_exp = 100, c_jti = []\<rparr>"
    by code_simp+
  show "jwt_guard demo_env False (Some ''Bearer u1'') (run demo_env ?w ?cmd demo_db)
     \<in> {Inl (authError Unauthorized USER_INACTIVE), Inl (authError Unauthorized TOKEN_REVOKED)}"
    by (rule revocation_is_immediate[OF demo_db_ok ok s u st t]) (simp_all add: demo_defs)
qed

section \<open>The permissions of the seeded administrator role\<close>

lemma replace_permissions_refused:
  assumes ok: "db_ok e db" and r: "findRoleById e i db = Some r" "r_isSystem r" "r_code r = ADMIN_ROLE_CODE" "r_scope r = HUB"
    and k: "k \<in> set (findPermissionKeysByRoleId e (r_id r) db)" "startsWith k ADMIN_KEY_PREFIX"
    and p: "p \<in> set (permissions db)" "p_keyName p = k" "p_scope p = DFSP"
  shows "isl (replace_permissions_check e i keys db)"
proof (rule ccontr)
  assume "\<not> isl (replace_permissions_check e i keys db)"
  then obtain r' resolved where c: "replace_permissions_check e i keys db = Inr (r', resolved)"
    by (cases "replace_permissions_check e i keys db") auto
  note q = replace_permissions_check_Inr[OF c]
  have rr: "r' = r" using q(1) r(1) by simp
  have "k \<in> set (unique_keys keys)" using q(5) k r(2,3) rr by (simp add: ADMIN_PERMISSION_LOCKED_ROLE_CODES_def)
  then have "p \<in> set resolved" using p by (auto simp: q(2) findByKeyNames_def)
  then show False using q(4) p(3) r(4) rr by (auto simp: list_all_iff)
qed

text \<open>
  The permissions of the administrator role of a seeded portal cannot be replaced: the role holds
  \<open>admin.dfsp-users.manage\<close>, a DFSP-scoped permission; a list that keeps it does not fit the HUB-scoped role, and
  a list without it takes an admin permission from a locked role.  Every request is refused and changes nothing,
  the one that lists exactly the permissions the role has included.
\<close>

theorem admin_permissions_frozen:
  assumes "db_ok e db" and "findRoleById e i db = Some r" and "r_isSystem r" and "r_code r = ADMIN_ROLE_CODE" and "r_scope r = HUB"
    and "ADMIN_DFSP_USERS_MANAGE \<in> set (findPermissionKeysByRoleId e (r_id r) db)"
    and "p \<in> set (permissions db)" and "p_keyName p = ADMIN_DFSP_USERS_MANAGE" and "p_scope p = DFSP"
  shows "\<exists>err\<in>{adminError BadRequest PERMISSION_NOT_FOUND, adminError BadRequest ROLE_PERMISSION_SCOPE_MISMATCH,
     adminError Conflict ROLE_CANNOT_REMOVE_ADMIN_KEY}. replace_role_permissions e w i keys db = (Inl err, db)"
proof -
  have "isl (replace_permissions_check e i keys db)"
    using replace_permissions_refused[OF assms(1-6) _ assms(7-9)]
    by (simp add: startsWith_def ADMIN_KEY_PREFIX_def ADMIN_DFSP_USERS_MANAGE_def)
  then obtain err where e: "replace_permissions_check e i keys db = Inl err"
    by (cases "replace_permissions_check e i keys db") auto
  then have "err \<in> {adminError BadRequest PERMISSION_NOT_FOUND, adminError BadRequest ROLE_PERMISSION_SCOPE_MISMATCH,
     adminError Conflict ROLE_CANNOT_REMOVE_ADMIN_KEY}"
    using assms(2) by (auto simp: replace_permissions_check_def Let_def split: if_splits)
  then show ?thesis by (auto simp: replace_role_permissions_def e)
qed

theorem admin_permissions_frozen_witness:
  "\<exists>err. replace_role_permissions demo_env portal_world [] (map fst PERMISSION_SEEDS) rbac_db = (Inl err, rbac_db)"
proof -
  have ok: "db_ok demo_env rbac_db"
    using rbac_seed_Inr(1)[OF demo_portal_world_ok] rbac_seed_runs unfolding rbac_db_def by (metis prod.collapse)
  obtain r where r: "findRoleById demo_env [] rbac_db = Some r" "r_isSystem r" "r_code r = ADMIN_ROLE_CODE" "r_scope r = HUB" "r_id r = []"
  proof -
    have "map_option (\<lambda>r. (r_isSystem r, r_code r, r_scope r, r_id r)) (findRoleById demo_env [] rbac_db)
       = Some (True, ''ADMIN'', HUB, [])" by code_simp
    then show ?thesis using that by (auto simp: ADMIN_ROLE_CODE_def)
  qed
  have k: "ADMIN_DFSP_USERS_MANAGE \<in> set (findPermissionKeysByRoleId demo_env (r_id r) rbac_db)"
    unfolding r(5) by code_simp
  have "(ADMIN_DFSP_USERS_MANAGE, DFSP) \<in> set (map (\<lambda>p. (p_keyName p, p_scope p)) (permissions rbac_db))" by code_simp
  then obtain p where p: "p \<in> set (permissions rbac_db)" "p_keyName p = ADMIN_DFSP_USERS_MANAGE" "p_scope p = DFSP" by auto
  show ?thesis using admin_permissions_frozen[OF ok r(1-4) k p, of portal_world "map fst PERMISSION_SEEDS"] by blast
qed

end
