(* ===== verification/Portal_Admin.thy ===== *)
theory Portal_Admin
  imports Auth_System
begin

text \<open>
  The admin controllers of the portal (\<open>apps/web-pivotal/controllers/admin\<close>): what a request does before and after
  the command it sends.  The participants registered with the gateway are a parameter, the predicate \<open>known_fsp\<close>.
\<close>

section \<open>Users\<close>

definition requireAuthUser :: "access_claims option \<Rightarrow> (auth_failure, string) result" where
  "requireAuthUser claims = (case claims of
     None \<Rightarrow> Inl (adminError BadRequest USER_MANAGEMENT_SCOPE_DENIED) | Some c \<Rightarrow> Inr (c_sub c))"

record user_response =
  ur_id :: string
  ur_email :: string
  ur_roleId :: string
  ur_roleCode :: string
  ur_roleName :: string
  ur_fspId :: "string option"
  ur_isActive :: bool
  ur_mustChangePassword :: bool
  ur_lastLoginAt :: "int option"
  ur_createdAt :: int

definition toUserResponse :: "user \<Rightarrow> role \<Rightarrow> user_response" where
  "toUserResponse u r = \<lparr>ur_id = u_id u, ur_email = u_email u, ur_roleId = r_id r, ur_roleCode = r_code r,
     ur_roleName = r_name r, ur_fspId = u_fspId u, ur_isActive = u_isActive u,
     ur_mustChangePassword = u_mustChangePassword u, ur_lastLoginAt = u_lastLoginAt u, ur_createdAt = u_createdAt u\<rparr>"

definition unknown_role_error :: "user \<Rightarrow> auth_failure" where
  "unknown_role_error u = PlainError (''User '' @ u_id u @ '' references unknown role_id='' @ u_roleId u @ ''.'')"

fun user_items :: "role list \<Rightarrow> user list \<Rightarrow> (auth_failure, user_response list) result" where
  "user_items rs [] = Inr []"
| "user_items rs (u # us) =
     (case List.find (\<lambda>r. r_id r = u_roleId u) rs of
        None \<Rightarrow> Inl (unknown_role_error u)
      | Some r \<Rightarrow> res_bind (user_items rs us) (\<lambda>items. Inr (toUserResponse u r # items)))"

definition list_users ::
  "auth_env \<Rightarrow> user_list_filters \<Rightarrow> access_claims option \<Rightarrow> auth_db \<Rightarrow> (auth_failure, user_response list \<times> nat) result" where
  "list_users e query claims db =
     res_bind (requireAuthUser claims) (\<lambda>actorId.
     res_bind (resolveManagementContext e actorId db) (\<lambda>c.
       let page = findAllUsers e (query\<lparr>f_fspId := if m_globalManager c then f_fspId query else None,
                                        f_managementFspId := m_managementFspId c\<rparr>) db
       in res_bind (user_items (findAllRoles db) (fst page)) (\<lambda>items. Inr (items, snd page))))"

record role_response =
  rr_role :: role
  rr_userCount :: nat
  rr_permissionCount :: nat

definition toRoleResponse :: "auth_env \<Rightarrow> auth_db \<Rightarrow> role \<Rightarrow> role_response" where
  "toRoleResponse e db r = \<lparr>rr_role = r, rr_userCount = countByRoleId e (r_id r) db,
     rr_permissionCount = countRolePermissions e (r_id r) db\<rparr>"

definition list_assignable_roles ::
  "auth_env \<Rightarrow> access_claims option \<Rightarrow> auth_db \<Rightarrow> (auth_failure, role_response list) result" where
  "list_assignable_roles e claims db =
     res_bind (requireAuthUser claims) (\<lambda>actorId.
     res_bind (resolveManagementContext e actorId db) (\<lambda>c.
       Inr (map (toRoleResponse e db) (filter (canAssignRole c) (findAllRoles db)))))"

definition get_user :: "auth_env \<Rightarrow> string \<Rightarrow> access_claims option \<Rightarrow> auth_db \<Rightarrow> (auth_failure, user_response) result" where
  "get_user e ident claims db =
     res_bind (requireAuthUser claims) (\<lambda>actorId.
     res_bind (resolveManagementContext e actorId db) (\<lambda>c.
       case findUserById e ident db of
         None \<Rightarrow> Inl (adminError NotFound USER_NOT_FOUND)
       | Some u \<Rightarrow>
           (case findRoleById e (u_roleId u) db of
              None \<Rightarrow> Inl (unknown_role_error u)
            | Some r \<Rightarrow> res_bind (assertCanManageTarget c u) (\<lambda>_. Inr (toUserResponse u r)))))"

definition validateFspIdForRole ::
  "auth_env \<Rightarrow> (string \<Rightarrow> bool) \<Rightarrow> string \<Rightarrow> string option \<Rightarrow> auth_db \<Rightarrow> (auth_failure, unit) result" where
  "validateFspIdForRole e known_fsp roleId fspId db =
     (case findRoleById e roleId db of
        None \<Rightarrow> Inl (adminError BadRequest USER_ROLE_NOT_FOUND)
      | Some r \<Rightarrow>
          (case normalizeFspId fspId of
             None \<Rightarrow> Inr ()
           | Some f \<Rightarrow> guard_res (r_scope r = DFSP \<and> \<not> known_fsp f) (adminError BadRequest USER_FSP_ID_NOT_FOUND)))"

definition validateFspIdForUpdate ::
  "auth_env \<Rightarrow> (string \<Rightarrow> bool) \<Rightarrow> string \<Rightarrow> string option \<Rightarrow> string option option \<Rightarrow> auth_db \<Rightarrow> (auth_failure, unit) result" where
  "validateFspIdForUpdate e known_fsp userId roleId fspId db =
     (if roleId = None \<and> fspId = None then Inr ()
      else case findUserById e userId db of
        None \<Rightarrow> Inl (adminError NotFound USER_NOT_FOUND)
      | Some t \<Rightarrow> validateFspIdForRole e known_fsp (nullish roleId (u_roleId t)) (nullish fspId (u_fspId t)) db)"

definition post_user ::
  "auth_env \<Rightarrow> (string \<Rightarrow> bool) \<Rightarrow> auth_world \<Rightarrow> string \<Rightarrow> string \<Rightarrow> string option \<Rightarrow> access_claims option \<Rightarrow> auth_db \<Rightarrow>
     (auth_failure, user_response \<times> string) result \<times> auth_db" where
  "post_user e known_fsp w mail roleId fspId claims db =
     (case res_bind (requireAuthUser claims) (\<lambda>actorId.
           res_bind (resolveManagementContext e actorId db) (\<lambda>c.
             let effectiveFspId = resolveCreateFspId c (normalizeFspId fspId)
             in res_bind (validateFspIdForRole e known_fsp roleId effectiveFspId db) (\<lambda>_. Inr (actorId, effectiveFspId)))) of
        Inl err \<Rightarrow> (Inl err, db)
      | Inr (actorId, effectiveFspId) \<Rightarrow>
          (case create_user e w actorId mail roleId effectiveFspId db of
             (Inl err, db1) \<Rightarrow> (Inl err, db1)
           | (Inr (u, r, tempPassword), db1) \<Rightarrow> (Inr (toUserResponse u r, tempPassword), db1)))"

text \<open>The handlers return the refreshed row with a non-null assertion; mapping a null row throws.\<close>

definition respond_user :: "user option \<Rightarrow> role option \<Rightarrow> (auth_failure, user_response) result" where
  "respond_user u r = (case u of None \<Rightarrow> Inl TypeError
     | Some u' \<Rightarrow> (case r of None \<Rightarrow> Inl TypeError | Some r' \<Rightarrow> Inr (toUserResponse u' r')))"

definition patch_user ::
  "auth_env \<Rightarrow> (string \<Rightarrow> bool) \<Rightarrow> auth_world \<Rightarrow> string \<Rightarrow> string option \<Rightarrow> string option option \<Rightarrow> bool option \<Rightarrow>
     access_claims option \<Rightarrow> auth_db \<Rightarrow> (auth_failure, user_response) result \<times> auth_db" where
  "patch_user e known_fsp w ident roleId fspId isActive claims db =
     (case res_bind (requireAuthUser claims) (\<lambda>actorId.
           res_bind (validateFspIdForUpdate e known_fsp ident roleId fspId db) (\<lambda>_. Inr actorId)) of
        Inl err \<Rightarrow> (Inl err, db)
      | Inr actorId \<Rightarrow>
          (case update_user e w \<lparr>in_targetUserId = ident, in_actingUserId = actorId, in_roleId = roleId,
                  in_fspId = map_option normalizeFspId fspId, in_isActive = isActive\<rparr> db of
             (Inl err, db1) \<Rightarrow> (Inl err, db1)
           | (Inr (u, r), db1) \<Rightarrow> (respond_user u (Some r), db1)))"

definition post_reset_password ::
  "auth_env \<Rightarrow> auth_world \<Rightarrow> string \<Rightarrow> access_claims option \<Rightarrow> auth_db \<Rightarrow> (auth_failure, user_response \<times> string) result \<times> auth_db" where
  "post_reset_password e w ident claims db =
     (case requireAuthUser claims of
        Inl err \<Rightarrow> (Inl err, db)
      | Inr actorId \<Rightarrow>
          (case reset_user_password e w ident actorId db of
             (Inl err, db1) \<Rightarrow> (Inl err, db1)
           | (Inr (u, r, tempPassword), db1) \<Rightarrow> (res_bind (respond_user u r) (\<lambda>x. Inr (x, tempPassword)), db1)))"

definition delete_user ::
  "auth_env \<Rightarrow> auth_world \<Rightarrow> string \<Rightarrow> access_claims option \<Rightarrow> auth_db \<Rightarrow> (auth_failure, user_response) result \<times> auth_db" where
  "delete_user e w ident claims db =
     (case requireAuthUser claims of
        Inl err \<Rightarrow> (Inl err, db)
      | Inr actorId \<Rightarrow>
          (case deactivate_user e w ident actorId db of
             (Inl err, db1) \<Rightarrow> (Inl err, db1)
           | (Inr (u, r), db1) \<Rightarrow> (respond_user u r, db1)))"

section \<open>Roles\<close>

definition list_roles :: "auth_env \<Rightarrow> auth_db \<Rightarrow> role_response list" where
  "list_roles e db = map (toRoleResponse e db) (findAllRoles db)"

definition get_role :: "auth_env \<Rightarrow> string \<Rightarrow> auth_db \<Rightarrow> (auth_failure, role_response) result" where
  "get_role e ident db = (case findRoleById e ident db of
     None \<Rightarrow> Inl (adminError NotFound ROLE_NOT_FOUND) | Some r \<Rightarrow> Inr (toRoleResponse e db r))"

definition patch_role ::
  "auth_env \<Rightarrow> string \<Rightarrow> string option \<Rightarrow> bool option \<Rightarrow> string option \<Rightarrow> string option option \<Rightarrow> auth_db \<Rightarrow>
     (auth_failure, role_response) result \<times> auth_db" where
  "patch_role e ident code isSystem nm description db =
     (if code \<noteq> None \<or> isSystem \<noteq> None then (Inl (adminError BadRequest ROLE_IMMUTABLE_FIELD), db)
      else case update_role e ident nm description db of
        (Inl err, db1) \<Rightarrow> (Inl err, db1)
      | (Inr r, db1) \<Rightarrow> ((case r of None \<Rightarrow> Inl TypeError | Some x \<Rightarrow> Inr (toRoleResponse e db1 x)), db1))"

definition get_role_permissions :: "auth_env \<Rightarrow> string \<Rightarrow> auth_db \<Rightarrow> (auth_failure, string list) result" where
  "get_role_permissions e ident db = (case findRoleById e ident db of
     None \<Rightarrow> Inl (adminError NotFound ROLE_NOT_FOUND)
   | Some r \<Rightarrow> Inr (sort (findPermissionKeysByRoleId e (r_id r) db)))"

section \<open>A user that is created belongs to a registered participant\<close>

lemma normalizeFspId_idem [simp]: "normalizeFspId (normalizeFspId v) = normalizeFspId v"
  by (auto simp: normalizeFspId_def split: option.splits)

lemma normalizeFspId_None: "normalizeFspId None = None"
  by (simp add: normalizeFspId_def)

lemma create_user_Inr:
  assumes "create_user e w actor mail roleId fsp db = (Inr (u, r, pw), db')"
  shows "findRoleById e roleId db = Some r"
    "\<exists>c. resolveManagementContext e actor db = Inr c \<and> u_fspId u = resolveCreateFspId c (normalizeFspId fsp) \<and>
       assertScope r (u_fspId u) = Inr ()"
  using assms
  by (auto simp: create_user_def create_user_check_def Let_def new_user_def split: sum.splits option.splits prod.splits)

text \<open>A DFSP user created through the portal names a participant that the gateway knows, and a Hub user none.\<close>

lemma created_user_fsp_known:
  assumes "post_user e known_fsp w mail roleId fspId claims db = (Inr (u, pw), db')"
    and "\<And>v. v \<in> set (users db) \<Longrightarrow> normalizeFspId (u_fspId v) = u_fspId v"
  shows "\<exists>r. findRoleById e roleId db = Some r \<and>
     (case ur_fspId u of None \<Rightarrow> r_scope r \<noteq> DFSP | Some f \<Rightarrow> r_scope r \<noteq> HUB \<and> (r_scope r = DFSP \<longrightarrow> known_fsp f))"
proof -
  let ?pre = "res_bind (requireAuthUser claims) (\<lambda>actorId. res_bind (resolveManagementContext e actorId db) (\<lambda>c.
      res_bind (validateFspIdForRole e known_fsp roleId (resolveCreateFspId c (normalizeFspId fspId)) db)
        (\<lambda>_. Inr (actorId, resolveCreateFspId c (normalizeFspId fspId)))))"
  obtain actorId eff where pre: "?pre = Inr (actorId, eff)"
    using assms(1) by (cases ?pre) (auto simp: post_user_def Let_def)
  then obtain c where c: "resolveManagementContext e actorId db = Inr c"
    "eff = resolveCreateFspId c (normalizeFspId fspId)" "validateFspIdForRole e known_fsp roleId eff db = Inr ()"
    by auto
  obtain v r where v: "create_user e w actorId mail roleId eff db = (Inr (v, r, pw), db')" "u = toUserResponse v r"
    using assms(1) unfolding post_user_def Let_def pre by (auto split: prod.splits sum.splits)
  note k = create_user_Inr[OF v(1)]
  have "u_fspId v = resolveCreateFspId c (normalizeFspId eff)" "assertScope r (u_fspId v) = Inr ()"
    using k(2) c(1) by auto
  moreover have "m_managementFspId c = None \<or> (\<exists>v\<in>set (users db). m_managementFspId c = u_fspId v)"
    using c(1) by (auto simp: resolveManagementContext_def Let_def findUserById_def
        split: option.splits if_splits dest!: find_SomeD intro!: bexI)
  then have "normalizeFspId (m_managementFspId c) = m_managementFspId c"
    using assms(2) normalizeFspId_None by metis
  then have "resolveCreateFspId c (normalizeFspId eff) = eff \<and> normalizeFspId eff = eff"
    using c(2) by (simp add: resolveCreateFspId_def)
  ultimately show ?thesis
    using k(1) c(3) v(2) by (auto simp: validateFspIdForRole_def assertScope_def toUserResponse_def split: option.splits if_splits)
qed

end
