(* ===== verification/Json_Values.thy ===== *)
theory Json_Values
  imports Prelude Complex_Main
begin

text \<open>
  Values that TypeScript types as \<open>unknown\<close>: the result of decoding a JSON text, the property access \<open>?.\<close> and
  the string methods the code calls on such values.  A JavaScript \<open>undefined\<close> is \<open>None\<close>; a method that a value
  does not have throws a \<open>TypeError\<close>.
\<close>

datatype js_number = NaN | Infinite | Finite rat

datatype json = JNull | JBool bool | JNum js_number | JStr string | JArr "json list" | JObj "(string \<times> json) list"

datatype js_date = InvalidDate | Date int

text \<open>
  What a statement may throw: a \<open>TypeError\<close>, an \<open>Error\<close> with a text, or a failed database query with the
  \<open>errno\<close> of the driver error and its own.
\<close>

datatype js_throw = TypeError | Thrown string | QueryFailed "nat option" "nat option"

text \<open>A value that \<open>??\<close> and \<open>== null\<close> read: \<open>null\<close> counts as absent.\<close>

definition present :: "json option \<Rightarrow> json option" where
  "present v = (case v of Some JNull \<Rightarrow> None | _ \<Rightarrow> v)"

text \<open>\<open>v?.p\<close>; a text, a number, a truth value and an array have none of the properties that the code reads.\<close>

definition field :: "json option \<Rightarrow> string \<Rightarrow> json option" where
  "field v p = (case v of Some (JObj fs) \<Rightarrow> present (map_of fs p) | _ \<Rightarrow> None)"

text \<open>\<open>v.p\<close>, which throws on \<open>undefined\<close> and \<open>null\<close>.\<close>

definition strict_field :: "json option \<Rightarrow> string \<Rightarrow> (js_throw, json option) result" where
  "strict_field v p = (case present v of None \<Rightarrow> Inl TypeError | Some _ \<Rightarrow> Inr (field v p))"

text \<open>\<open>v?.trim()\<close>.\<close>

definition trim_value :: "json option \<Rightarrow> (js_throw, string option) result" where
  "trim_value v = (case present v of None \<Rightarrow> Inr None | Some (JStr s) \<Rightarrow> Inr (Some (trim s)) | Some _ \<Rightarrow> Inl TypeError)"

text \<open>\<open>v ?? w\<close>.\<close>

definition or_else :: "'a option \<Rightarrow> 'a option \<Rightarrow> 'a option" where
  "or_else v w = (case v of None \<Rightarrow> w | Some _ \<Rightarrow> v)"

text \<open>The elements that \<open>for (const x of v ?? [])\<close> visits, where an element of a text is one character.\<close>

definition iterate :: "json option \<Rightarrow> (js_throw, json list) result" where
  "iterate v = (case present v of
     None \<Rightarrow> Inr []
   | Some (JArr xs) \<Rightarrow> Inr xs
   | Some (JStr s) \<Rightarrow> Inr (map (\<lambda>c. JStr [c]) s)
   | Some _ \<Rightarrow> Inl TypeError)"

definition isFinite :: "js_number \<Rightarrow> bool" where
  "isFinite n = (case n of Finite _ \<Rightarrow> True | _ \<Rightarrow> False)"

lemma present_simps [simp]:
  "present None = None" "present (Some JNull) = None" "present (Some (JBool b)) = Some (JBool b)"
  "present (Some (JNum n)) = Some (JNum n)" "present (Some (JStr s)) = Some (JStr s)"
  "present (Some (JArr xs)) = Some (JArr xs)" "present (Some (JObj fs)) = Some (JObj fs)"
  by (simp_all add: present_def)

lemma present_present [simp]: "present (present v) = present v"
  by (simp add: present_def split: option.splits json.splits)

lemma field_simps_json [simp]:
  "field None p = None" "field (Some (JObj fs)) p = present (map_of fs p)"
  by (simp_all add: field_def)

lemma or_else_simps [simp]: "or_else None w = w" "or_else (Some x) w = Some x" "or_else v None = v"
  by (simp_all add: or_else_def split: option.splits)

end
