(* ===== verification/Audit_Rows.thy ===== *)
theory Audit_Rows
  imports Json_Values Keyed_Tables
begin

text \<open>
  The table \<open>transactions\<close> of \<open>core/audit/domain\<close> and the statements of \<open>transaction.repository.ts\<close> that write it.
  The columns of the three FSPIOP phases have the same shape and are one record type, as are the columns of the two
  parties; \<open>tx_values\<close> is polymorphic in the type of texts, numbers and dates, since the values a caller supplies
  (\<open>UpsertInput\<close>) are JavaScript values and the values of a stored row are SQL values.  A DATETIME is a number of
  milliseconds, an amount (DECIMAL(34,4)) a number of ten-thousandths, a JSON column holds the value itself.
\<close>

section \<open>The table\<close>

record 't id_columns =
  id_fsp :: 't
  id_type :: "'t option"
  id_value :: "'t option"
  id_sub :: "'t option"

record ('t, 'n) amount_columns =
  am_quotingCurrency :: "'t option"
  am_quotingAmount :: "'n option"
  am_transferCurrency :: "'t option"
  am_transferAmount :: "'n option"
  am_payeeReceiveAmount :: "'n option"
  am_payeeFee :: "'n option"
  am_payerFee :: "'n option"
  am_schemeFee :: "'n option"

record 'd phase_columns =
  ph_requestedAt :: "'d option"
  ph_respondedAt :: "'d option"
  ph_request :: "json option"
  ph_response :: "json option"
  ph_error :: "json option"
  ph_outboundRequestedAt :: "'d option"
  ph_outboundRespondedAt :: "'d option"
  ph_inboundRequestedAt :: "'d option"
  ph_inboundRespondedAt :: "'d option"
  ph_connectorRequestedAt :: "'d option"
  ph_connectorRespondedAt :: "'d option"

record ('t, 'd) patch_columns =
  pt_requestedAt :: "'d option"
  pt_respondedAt :: "'d option"
  pt_request :: "json option"
  pt_error :: "'t option"

record ('t, 'n, 'd) tx_values =
  tx_correlationId :: string
  tx_payer :: "'t id_columns"
  tx_payee :: "'t id_columns"
  tx_initiatorType :: "'t option"
  tx_amounts :: "('t, 'n) amount_columns"
  tx_startedAt :: 'd
  tx_completedAt :: "'d option"
  tx_type :: "'t option"
  tx_subScenario :: "'t option"
  tx_state :: "'t option"
  tx_amountType :: "'t option"
  tx_possibleDispute :: bool
  tx_error :: bool
  tx_flow :: "nat option"
  tx_parties :: "'d phase_columns"
  tx_quotes :: "'d phase_columns"
  tx_transfers :: "'d phase_columns"
  tx_patch :: "('t, 'd) patch_columns"
  tx_payerHome :: "'t option"
  tx_payeeHome :: "'t option"
  tx_createdAt :: 'd

type_synonym upsert_input = "(json, js_number, js_date) tx_values"
type_synonym sql_values = "(string, int, int) tx_values"

record tx_row = "(string, int, int) tx_values" +
  tx_id :: int
  tx_disputeResolvedAt :: "int option"
  tx_updatedAt :: int

record audit_db =
  db_rows :: "tx_row list"
  db_next_id :: int

text \<open>
  What the database and its driver do with a value: the text a bound value becomes, the rounding of a number to
  a DECIMAL, the collation of the unique key, the error of a statement with an invalid date; and
  \<open>Number(value)\<close> of the language.
\<close>

record audit_env =
  ae_text :: "json \<Rightarrow> string"
  ae_decimal :: "js_number \<Rightarrow> int"
  ae_collate :: "string \<Rightarrow> string"
  ae_date_error :: js_throw
  ae_number :: "json \<Rightarrow> js_number"

text \<open>What happens to the statements of one call: they run, they fail, or they run and the answer is lost.\<close>

datatype db_outcome = Runs | FailsBefore js_throw | FailsAfter js_throw

section \<open>Binding\<close>

definition bind_date :: "js_date \<Rightarrow> int option" where
  "bind_date d = (case d of Date t \<Rightarrow> Some t | InvalidDate \<Rightarrow> None)"

definition bind_dates :: "js_date option \<Rightarrow> int option" where
  "bind_dates d = Option.bind d bind_date"

definition bind_ids :: "audit_env \<Rightarrow> json id_columns \<Rightarrow> string id_columns" where
  "bind_ids e c = \<lparr>id_fsp = ae_text e (id_fsp c), id_type = map_option (ae_text e) (id_type c),
     id_value = map_option (ae_text e) (id_value c), id_sub = map_option (ae_text e) (id_sub c)\<rparr>"

definition bind_amounts :: "audit_env \<Rightarrow> (json, js_number) amount_columns \<Rightarrow> (string, int) amount_columns" where
  "bind_amounts e c = \<lparr>
     am_quotingCurrency = map_option (ae_text e) (am_quotingCurrency c),
     am_quotingAmount = map_option (ae_decimal e) (am_quotingAmount c),
     am_transferCurrency = map_option (ae_text e) (am_transferCurrency c),
     am_transferAmount = map_option (ae_decimal e) (am_transferAmount c),
     am_payeeReceiveAmount = map_option (ae_decimal e) (am_payeeReceiveAmount c),
     am_payeeFee = map_option (ae_decimal e) (am_payeeFee c),
     am_payerFee = map_option (ae_decimal e) (am_payerFee c),
     am_schemeFee = map_option (ae_decimal e) (am_schemeFee c)\<rparr>"

text \<open>\<open>toJsonValue\<close> writes an absent value and \<open>null\<close> as NULL.\<close>

definition toJsonValue :: "json option \<Rightarrow> json option" where
  "toJsonValue v = present v"

definition bind_phase :: "js_date phase_columns \<Rightarrow> int phase_columns" where
  "bind_phase c = \<lparr>
     ph_requestedAt = bind_dates (ph_requestedAt c), ph_respondedAt = bind_dates (ph_respondedAt c),
     ph_request = toJsonValue (ph_request c), ph_response = toJsonValue (ph_response c),
     ph_error = toJsonValue (ph_error c),
     ph_outboundRequestedAt = bind_dates (ph_outboundRequestedAt c),
     ph_outboundRespondedAt = bind_dates (ph_outboundRespondedAt c),
     ph_inboundRequestedAt = bind_dates (ph_inboundRequestedAt c),
     ph_inboundRespondedAt = bind_dates (ph_inboundRespondedAt c),
     ph_connectorRequestedAt = bind_dates (ph_connectorRequestedAt c),
     ph_connectorRespondedAt = bind_dates (ph_connectorRespondedAt c)\<rparr>"

definition bind_patch :: "audit_env \<Rightarrow> (json, js_date) patch_columns \<Rightarrow> (string, int) patch_columns" where
  "bind_patch e c = \<lparr>pt_requestedAt = bind_dates (pt_requestedAt c), pt_respondedAt = bind_dates (pt_respondedAt c),
     pt_request = toJsonValue (pt_request c), pt_error = map_option (ae_text e) (pt_error c)\<rparr>"

definition bind_values :: "audit_env \<Rightarrow> upsert_input \<Rightarrow> sql_values option" where
  "bind_values e v =
     (case (bind_date (tx_startedAt v), bind_date (tx_createdAt v)) of
        (Some started, Some created) \<Rightarrow> Some \<lparr>
          tx_correlationId = tx_correlationId v,
          tx_payer = bind_ids e (tx_payer v), tx_payee = bind_ids e (tx_payee v),
          tx_initiatorType = map_option (ae_text e) (tx_initiatorType v),
          tx_amounts = bind_amounts e (tx_amounts v),
          tx_startedAt = started, tx_completedAt = bind_dates (tx_completedAt v),
          tx_type = map_option (ae_text e) (tx_type v),
          tx_subScenario = map_option (ae_text e) (tx_subScenario v),
          tx_state = map_option (ae_text e) (tx_state v),
          tx_amountType = map_option (ae_text e) (tx_amountType v),
          tx_possibleDispute = tx_possibleDispute v, tx_error = tx_error v, tx_flow = tx_flow v,
          tx_parties = bind_phase (tx_parties v), tx_quotes = bind_phase (tx_quotes v),
          tx_transfers = bind_phase (tx_transfers v), tx_patch = bind_patch e (tx_patch v),
          tx_payerHome = map_option (ae_text e) (tx_payerHome v),
          tx_payeeHome = map_option (ae_text e) (tx_payeeHome v),
          tx_createdAt = created\<rparr>
      | _ \<Rightarrow> None)"

section \<open>Merging a row\<close>

text \<open>\<open>COALESCE(VALUES(c), c)\<close>, and the two \<open>CASE\<close> expressions that keep the first or the last point in time.\<close>

definition coalesce :: "'a option \<Rightarrow> 'a option \<Rightarrow> 'a option" where
  "coalesce old new = (case new of None \<Rightarrow> old | Some _ \<Rightarrow> new)"

definition earliest :: "'a::linorder option \<Rightarrow> 'a option \<Rightarrow> 'a option" where
  "earliest old new = (case old of None \<Rightarrow> new
     | Some a \<Rightarrow> (case new of None \<Rightarrow> Some a | Some b \<Rightarrow> Some (min a b)))"

definition latest :: "'a::linorder option \<Rightarrow> 'a option \<Rightarrow> 'a option" where
  "latest old new = (case old of None \<Rightarrow> new
     | Some a \<Rightarrow> (case new of None \<Rightarrow> Some a | Some b \<Rightarrow> Some (max a b)))"

text \<open>The FSP of a party is kept when the stored row knows the party and the new values do not.\<close>

definition merge_fsp :: "string id_columns \<Rightarrow> string id_columns \<Rightarrow> string" where
  "merge_fsp old new = (if id_value old \<noteq> None \<and> id_value new = None then id_fsp old else id_fsp new)"

definition merge_ids :: "string id_columns \<Rightarrow> string id_columns \<Rightarrow> string id_columns" where
  "merge_ids old new = \<lparr>id_fsp = merge_fsp old new, id_type = coalesce (id_type old) (id_type new),
     id_value = coalesce (id_value old) (id_value new), id_sub = coalesce (id_sub old) (id_sub new)\<rparr>"

definition merge_amounts :: "(string, int) amount_columns \<Rightarrow> (string, int) amount_columns
    \<Rightarrow> (string, int) amount_columns" where
  "merge_amounts old new = \<lparr>
     am_quotingCurrency = coalesce (am_quotingCurrency old) (am_quotingCurrency new),
     am_quotingAmount = coalesce (am_quotingAmount old) (am_quotingAmount new),
     am_transferCurrency = coalesce (am_transferCurrency old) (am_transferCurrency new),
     am_transferAmount = coalesce (am_transferAmount old) (am_transferAmount new),
     am_payeeReceiveAmount = coalesce (am_payeeReceiveAmount old) (am_payeeReceiveAmount new),
     am_payeeFee = coalesce (am_payeeFee old) (am_payeeFee new),
     am_payerFee = coalesce (am_payerFee old) (am_payerFee new),
     am_schemeFee = coalesce (am_schemeFee old) (am_schemeFee new)\<rparr>"

definition merge_phase :: "int phase_columns \<Rightarrow> int phase_columns \<Rightarrow> int phase_columns" where
  "merge_phase old new = \<lparr>
     ph_requestedAt = earliest (ph_requestedAt old) (ph_requestedAt new),
     ph_respondedAt = latest (ph_respondedAt old) (ph_respondedAt new),
     ph_request = coalesce (ph_request old) (ph_request new),
     ph_response = coalesce (ph_response old) (ph_response new),
     ph_error = coalesce (ph_error old) (ph_error new),
     ph_outboundRequestedAt = earliest (ph_outboundRequestedAt old) (ph_outboundRequestedAt new),
     ph_outboundRespondedAt = latest (ph_outboundRespondedAt old) (ph_outboundRespondedAt new),
     ph_inboundRequestedAt = earliest (ph_inboundRequestedAt old) (ph_inboundRequestedAt new),
     ph_inboundRespondedAt = latest (ph_inboundRespondedAt old) (ph_inboundRespondedAt new),
     ph_connectorRequestedAt = earliest (ph_connectorRequestedAt old) (ph_connectorRequestedAt new),
     ph_connectorRespondedAt = latest (ph_connectorRespondedAt old) (ph_connectorRespondedAt new)\<rparr>"

definition merge_patch :: "(string, int) patch_columns \<Rightarrow> (string, int) patch_columns \<Rightarrow> (string, int) patch_columns" where
  "merge_patch old new = \<lparr>
     pt_requestedAt = earliest (pt_requestedAt old) (pt_requestedAt new),
     pt_respondedAt = latest (pt_respondedAt old) (pt_respondedAt new),
     pt_request = coalesce (pt_request old) (pt_request new),
     pt_error = coalesce (pt_error old) (pt_error new)\<rparr>"

text \<open>The assignments of \<open>ON DUPLICATE KEY UPDATE\<close>; the two FSP columns come before the identifiers they read.\<close>

definition merge_row :: "sql_values \<Rightarrow> int \<Rightarrow> tx_row \<Rightarrow> tx_row" where
  "merge_row new now old = old\<lparr>
     tx_payer := merge_ids (tx_payer old) (tx_payer new),
     tx_payee := merge_ids (tx_payee old) (tx_payee new),
     tx_initiatorType := coalesce (tx_initiatorType old) (tx_initiatorType new),
     tx_amounts := merge_amounts (tx_amounts old) (tx_amounts new),
     tx_startedAt := min (tx_startedAt old) (tx_startedAt new),
     tx_completedAt := coalesce (tx_completedAt old) (tx_completedAt new),
     tx_type := coalesce (tx_type old) (tx_type new),
     tx_subScenario := coalesce (tx_subScenario old) (tx_subScenario new),
     tx_state := coalesce (tx_state old) (tx_state new),
     tx_amountType := coalesce (tx_amountType old) (tx_amountType new),
     tx_possibleDispute := (tx_possibleDispute old \<or> tx_possibleDispute new),
     tx_error := (tx_error old \<or> tx_error new),
     tx_flow := latest (tx_flow old) (tx_flow new),
     tx_parties := merge_phase (tx_parties old) (tx_parties new),
     tx_quotes := merge_phase (tx_quotes old) (tx_quotes new),
     tx_transfers := merge_phase (tx_transfers old) (tx_transfers new),
     tx_patch := merge_patch (tx_patch old) (tx_patch new),
     tx_payerHome := coalesce (tx_payerHome old) (tx_payerHome new),
     tx_payeeHome := coalesce (tx_payeeHome old) (tx_payeeHome new),
     tx_createdAt := min (tx_createdAt old) (tx_createdAt new),
     tx_updatedAt := now\<rparr>"

definition new_row :: "int \<Rightarrow> sql_values \<Rightarrow> int \<Rightarrow> tx_row" where
  "new_row i v now = tx_values.extend v \<lparr>tx_id = i, tx_disputeResolvedAt = None, tx_updatedAt = now\<rparr>"

section \<open>Statements\<close>

definition row_key :: "audit_env \<Rightarrow> tx_row \<Rightarrow> string" where
  "row_key e r = ae_collate e (tx_correlationId r)"

definition findByCorrelationId :: "audit_env \<Rightarrow> string \<Rightarrow> audit_db \<Rightarrow> tx_row option" where
  "findByCorrelationId e c db = find (\<lambda>r. row_key e r = ae_collate e c) (db_rows db)"

definition change_row :: "audit_env \<Rightarrow> string \<Rightarrow> (tx_row \<Rightarrow> tx_row) \<Rightarrow> audit_db \<Rightarrow> audit_db" where
  "change_row e c f db =
     db\<lparr>db_rows := map (\<lambda>r. if row_key e r = ae_collate e c then f r else r) (db_rows db)\<rparr>"

text \<open>\<open>INSERT ... ON DUPLICATE KEY UPDATE\<close>; an identifier is drawn in either case.\<close>

definition insert_or_merge :: "audit_env \<Rightarrow> int \<Rightarrow> sql_values \<Rightarrow> audit_db \<Rightarrow> audit_db" where
  "insert_or_merge e now v db =
     (let db' = db\<lparr>db_next_id := db_next_id db + 1\<rparr>
      in case findByCorrelationId e (tx_correlationId v) db of
           None \<Rightarrow> db'\<lparr>db_rows := db_rows db @ [new_row (db_next_id db) v now]\<rparr>
         | Some _ \<Rightarrow> change_row e (tx_correlationId v) (merge_row v now) db')"

definition upsert :: "audit_env \<Rightarrow> db_outcome \<Rightarrow> int \<Rightarrow> upsert_input \<Rightarrow> audit_db
    \<Rightarrow> (js_throw, int) result \<times> audit_db" where
  "upsert e oc now inp db =
     (case oc of FailsBefore x \<Rightarrow> (Inl x, db)
      | _ \<Rightarrow>
        (case bind_values e inp of
           None \<Rightarrow> (Inl (ae_date_error e), db)
         | Some v \<Rightarrow>
             let db1 = insert_or_merge e now v db
             in (case oc of FailsAfter x \<Rightarrow> (Inl x, db1)
                 | _ \<Rightarrow>
                   (case findByCorrelationId e (tx_correlationId inp) db1 of
                      None \<Rightarrow> (Inl (Thrown (''Audit transaction missing after upsert: '' @ tx_correlationId inp)), db1)
                    | Some r \<Rightarrow> (Inr (tx_id r), db1)))))"

definition dispute :: "audit_env \<Rightarrow> int \<Rightarrow> string \<Rightarrow> audit_db \<Rightarrow> tx_row option \<times> audit_db" where
  "dispute e now c db =
     (case findByCorrelationId e c db of
        None \<Rightarrow> (None, db)
      | Some r \<Rightarrow>
          let r' = r\<lparr>tx_possibleDispute := True, tx_updatedAt := now\<rparr>
          in (Some r', db\<lparr>db_rows := map (\<lambda>x. if tx_id x = tx_id r then r' else x) (db_rows db)\<rparr>))"

definition resolve_row :: "int \<Rightarrow> int \<Rightarrow> tx_row \<Rightarrow> tx_row" where
  "resolve_row t now r = r\<lparr>tx_possibleDispute := False, tx_disputeResolvedAt := Some t, tx_updatedAt := now\<rparr>"

definition resolveDispute :: "audit_env \<Rightarrow> db_outcome \<Rightarrow> int \<Rightarrow> string \<Rightarrow> int \<Rightarrow> audit_db
    \<Rightarrow> (js_throw, bool) result \<times> audit_db" where
  "resolveDispute e oc now c t db =
     (case oc of FailsBefore x \<Rightarrow> (Inl x, db)
      | _ \<Rightarrow>
        let db1 = change_row e c (resolve_row t now) db
        in (case oc of FailsAfter x \<Rightarrow> (Inl x, db1)
            | _ \<Rightarrow> (Inr (list_ex (\<lambda>r. row_key e r = ae_collate e c) (db_rows db)), db1)))"

section \<open>Rows by their key\<close>

definition update_rows :: "(tx_row \<Rightarrow> bool) \<Rightarrow> (tx_row \<Rightarrow> tx_row) \<Rightarrow> audit_db \<Rightarrow> audit_db" where
  "update_rows P f db = db\<lparr>db_rows := map (\<lambda>r. if P r then f r else r) (db_rows db)\<rparr>"

interpretation tx_by_correlation: keyed_table db_rows "row_key e" update_rows for e
  by unfold_locales (simp add: update_rows_def)

interpretation tx_by_id: keyed_table db_rows tx_id update_rows
  by unfold_locales (simp add: update_rows_def)

text \<open>The keys of the table: the identifier, below the next one to draw, and the collated correlation.\<close>

definition audit_db_ok :: "audit_env \<Rightarrow> audit_db \<Rightarrow> bool" where
  "audit_db_ok e db \<longleftrightarrow> distinct (map (row_key e) (db_rows db)) \<and> distinct (map tx_id (db_rows db)) \<and>
     (\<forall>r\<in>set (db_rows db). tx_id r < db_next_id db)"

lemma change_row_update: "change_row e c f = update_rows (\<lambda>r. row_key e r = ae_collate e c) f"
  by (rule ext) (simp add: change_row_def update_rows_def)

lemma merge_row_keys [simp]:
  "tx_correlationId (merge_row v now r) = tx_correlationId r" "tx_id (merge_row v now r) = tx_id r"
  "row_key e (merge_row v now r) = row_key e r" "tx_disputeResolvedAt (merge_row v now r) = tx_disputeResolvedAt r"
  by (simp_all add: merge_row_def row_key_def)

lemma resolve_row_keys [simp]:
  "tx_correlationId (resolve_row t now r) = tx_correlationId r" "tx_id (resolve_row t now r) = tx_id r"
  "row_key e (resolve_row t now r) = row_key e r"
  by (simp_all add: resolve_row_def row_key_def)

lemma new_row_keys [simp]:
  "tx_correlationId (new_row i v now) = tx_correlationId v" "tx_id (new_row i v now) = i"
  "row_key e (new_row i v now) = ae_collate e (tx_correlationId v)"
  by (simp_all add: new_row_def row_key_def tx_values.defs)

text \<open>A change of the rows of one correlation is seen by lookups of that correlation only.\<close>

lemma find_change_row:
  assumes "\<And>r. row_key e (f r) = row_key e r"
  shows "findByCorrelationId e c (change_row e d f db) =
     (if ae_collate e c = ae_collate e d then map_option f (findByCorrelationId e c db) else findByCorrelationId e c db)"
proof -
  have "findByCorrelationId e c (change_row e d f db) =
      map_option (\<lambda>r. if row_key e r = ae_collate e d then f r else r) (findByCorrelationId e c db)"
    unfolding findByCorrelationId_def change_row_update by (rule tx_by_correlation.lookup_upd) (rule assms)
  moreover have "row_key e r = ae_collate e c" if "findByCorrelationId e c db = Some r" for r
    using that by (auto simp: findByCorrelationId_def dest: find_SomeD)
  ultimately show ?thesis by (cases "findByCorrelationId e c db") auto
qed

lemma find_insert_or_merge:
  "findByCorrelationId e c (insert_or_merge e now v db) =
     (if ae_collate e c = ae_collate e (tx_correlationId v)
      then Some (case findByCorrelationId e c db of
                   None \<Rightarrow> new_row (db_next_id db) v now | Some r \<Rightarrow> merge_row v now r)
      else findByCorrelationId e c db)"
proof (cases "findByCorrelationId e (tx_correlationId v) db")
  case None
  then show ?thesis
    by (auto simp: insert_or_merge_def Let_def findByCorrelationId_def find_append split: option.splits)
next
  case (Some r)
  have same: "findByCorrelationId e d (db\<lparr>db_next_id := n\<rparr>) = findByCorrelationId e d db" for n d
    by (simp add: findByCorrelationId_def)
  have "findByCorrelationId e c db = Some r" if "ae_collate e c = ae_collate e (tx_correlationId v)"
    using Some that by (simp add: findByCorrelationId_def)
  then show ?thesis using Some by (simp add: insert_or_merge_def Let_def find_change_row same)
qed

lemma rows_change_row [simp]:
  "db_rows (change_row e c f db) = map (\<lambda>r. if row_key e r = ae_collate e c then f r else r) (db_rows db)"
  "db_next_id (change_row e c f db) = db_next_id db"
  by (simp_all add: change_row_def)

lemma map_key_change:
  assumes "\<And>r. k (f r) = k r"
  shows "map k (map (\<lambda>r. if P r then f r else r) rs) = map k rs"
  by (induction rs) (auto simp: assms)

lemma audit_db_ok_change:
  assumes "audit_db_ok e db" "\<And>r. row_key e (f r) = row_key e r" "\<And>r. tx_id (f r) = tx_id r"
  shows "audit_db_ok e (change_row e c f db)"
proof -
  have "\<forall>r\<in>set (db_rows (change_row e c f db)). tx_id r < db_next_id db"
    using assms(1,3) by (auto simp: audit_db_ok_def)
  then show ?thesis using assms(1)
    by (simp add: audit_db_ok_def map_key_change[of "row_key e", OF assms(2)] map_key_change[of tx_id, OF assms(3)]
             del: map_map)
qed

lemma audit_db_ok_insert: "audit_db_ok e db \<Longrightarrow> audit_db_ok e (insert_or_merge e now v db)"
proof (cases "findByCorrelationId e (tx_correlationId v) db")
  case None
  assume ok: "audit_db_ok e db"
  have "ae_collate e (tx_correlationId v) \<notin> row_key e ` set (db_rows db)"
    using None by (auto simp: findByCorrelationId_def find_None_iff)
  moreover have "db_next_id db \<notin> tx_id ` set (db_rows db)" using ok by (auto simp: audit_db_ok_def)
  ultimately show ?thesis using ok None by (auto simp: insert_or_merge_def Let_def audit_db_ok_def)
next
  case (Some r)
  assume ok: "audit_db_ok e db"
  have "audit_db_ok e (db\<lparr>db_next_id := db_next_id db + 1\<rparr>)" using ok by (auto simp: audit_db_ok_def)
  then show ?thesis using Some by (simp add: insert_or_merge_def Let_def audit_db_ok_change)
qed

end
