(* ===== verification/Audit_Mapper.thy ===== *)
theory Audit_Mapper
  imports Audit_Rows
begin

text \<open>
  From an audit message to the row it writes: \<open>transaction-message.ts\<close>, the inputs of the audit commands and
  \<open>audit-transaction.mapper.ts\<close>.  The payloads are JSON values, as the consumer decodes them; reading a property of
  a missing object and trimming a value that is no text throw a \<open>TypeError\<close>, as in the code.
\<close>

section \<open>Commands\<close>

datatype gateway = Outbound | Inbound | Connector

record audit_input =
  ai_correlationId :: string
  ai_payerFsp :: string
  ai_payeeFsp :: string
  ai_gateway :: "gateway option"
  ai_occurredAt :: "js_date option"

record parties_input = audit_input +
  ai_payerIdType :: "json option"
  ai_payerId :: "json option"
  ai_payerSubId :: "json option"
  ai_payeeIdType :: "json option"
  ai_payeeId :: "json option"
  ai_payeeSubId :: "json option"

record parties_request_input = parties_input +
  pr_initiatorType :: "json option"
  pr_transactionType :: "json option"
  pr_subScenario :: "json option"
  pr_request :: "json option"
  pr_payerHome :: "json option"
  pr_quotingCurrency :: "json option"
  pr_quotingAmount :: "json option"
  pr_amountType :: "json option"

record parties_response_input = parties_input +
  ps_response :: "json option"

record parties_error_input = parties_input +
  pe_error :: "json option"

record flow_request_input = audit_input +
  fr_request :: "json option"

record flow_response_input = audit_input +
  fs_request :: "json option"
  fs_response :: "json option"

record flow_error_input = audit_input +
  fe_request :: "json option"
  fe_error :: "json option"

record patch_response_input = audit_input +
  hs_request :: "json option"
  hs_payeeHome :: "json option"

record patch_error_input = audit_input +
  he_error :: "json option"

section \<open>Helpers of the mapper\<close>

definition resolveOccurredAt :: "int \<Rightarrow> js_date option \<Rightarrow> js_date" where
  "resolveOccurredAt now v = nullish v (Date now)"

definition toNumber :: "audit_env \<Rightarrow> json option \<Rightarrow> js_number option" where
  "toNumber e v = map_option (ae_number e) (present v)"

definition toOptionalNumber :: "audit_env \<Rightarrow> json option \<Rightarrow> (js_throw, js_number option) result" where
  "toOptionalNumber e v = res_bind (trim_value v) (\<lambda>normalized. Inr (case normalized of
     None \<Rightarrow> None
   | Some s \<Rightarrow> if s = [] then None
               else (let amount = ae_number e (JStr s) in if isFinite amount then Some amount else None)))"

fun find_extension :: "string \<Rightarrow> json list \<Rightarrow> (js_throw, json option) result" where
  "find_extension k [] = Inr None"
| "find_extension k (x # xs) =
     res_bind (strict_field (Some x) ''key'') (\<lambda>key.
       res_bind (trim_value key) (\<lambda>t.
         if map_option toLowerCase t = Some k then Inr (field (Some x) ''value'') else find_extension k xs))"

definition findExtensionValue :: "json option \<Rightarrow> string \<Rightarrow> (js_throw, json option) result" where
  "findExtensionValue extensionList targetKey =
     res_bind (iterate (field extensionList ''extension''))
       (find_extension (toLowerCase (trim targetKey)))"

definition toFeeAmount :: "audit_env \<Rightarrow> json option \<Rightarrow> string \<Rightarrow> (js_throw, js_number option) result" where
  "toFeeAmount e extensionList key = res_bind (findExtensionValue extensionList key) (toOptionalNumber e)"

record export_amounts =
  ex_payeeReceiveAmount :: "js_number option"
  ex_payeeFee :: "js_number option"
  ex_payerFee :: "js_number option"
  ex_schemeFee :: "js_number option"

text \<open>\<open>withPresentValues\<close> leaves out the absent amounts, which are \<open>None\<close> here.\<close>

definition toQuoteExportAmounts :: "audit_env \<Rightarrow> json option \<Rightarrow> (js_throw, export_amounts) result" where
  "toQuoteExportAmounts e response =
     (if response = None
      then Inr \<lparr>ex_payeeReceiveAmount = None, ex_payeeFee = None, ex_payerFee = None, ex_schemeFee = None\<rparr>
      else
        (let ext = field response ''extensionList'' in
         res_bind (toOptionalNumber e (field (field response ''payeeReceiveAmount'') ''amount'')) (\<lambda>receive.
         res_bind (toFeeAmount e ext ''payeeFee'') (\<lambda>payeeFee.
         res_bind (toFeeAmount e ext ''payerFee'') (\<lambda>payerFee.
         res_bind (toFeeAmount e ext ''schemeFee'') (\<lambda>schemeFee.
           Inr \<lparr>ex_payeeReceiveAmount = receive, ex_payeeFee = payeeFee, ex_payerFee = payerFee,
                ex_schemeFee = schemeFee\<rparr>))))))"

definition toQuotesRequest :: "json option \<Rightarrow> json option" where "toQuotesRequest request = present request"

definition toQuotesResponse :: "json option \<Rightarrow> json option" where "toQuotesResponse response = present response"

definition toTransfersRequest :: "json option \<Rightarrow> json option" where
  "toTransfersRequest request =
     (if present request = None then None
      else if field request ''amount'' = None then None else present request)"

definition toTransfersResponse :: "json option \<Rightarrow> json option" where "toTransfersResponse response = present response"

fun firstNonBlank :: "json option list \<Rightarrow> (js_throw, string) result" where
  "firstNonBlank [] = Inr []"
| "firstNonBlank (v # vs) =
     res_bind (trim_value v) (\<lambda>normalized.
       case normalized of
         Some s \<Rightarrow> if s \<noteq> [] then Inr s else firstNonBlank vs
       | None \<Rightarrow> firstNonBlank vs)"

definition toQuotesCorrelationId :: "string \<Rightarrow> json option \<Rightarrow> (js_throw, string) result" where
  "toQuotesCorrelationId fallback request =
     firstNonBlank [field request ''transactionId'', field request ''transactionRequestId'',
                    field request ''quoteId'', Some (JStr fallback)]"

definition toTransfersCorrelationId :: "string \<Rightarrow> json option \<Rightarrow> (js_throw, string) result" where
  "toTransfersCorrelationId fallback request =
     firstNonBlank [field request ''transferId'', Some (JStr fallback)]"

definition toPartyIdInfo :: "json option \<Rightarrow> json option" where
  "toPartyIdInfo response = field (field response ''party'') ''partyIdInfo''"

text \<open>\<open>request?.amount.currency\<close>: the chain ends at a missing request, and throws at a missing amount.\<close>

definition amount_field :: "json option \<Rightarrow> string \<Rightarrow> (js_throw, json option) result" where
  "amount_field request p =
     (if request = None then Inr None else strict_field (field request ''amount'') p)"

subsection \<open>Columns of the gateway\<close>

definition requested_at_gateway :: "gateway option \<Rightarrow> js_date \<Rightarrow> js_date phase_columns \<Rightarrow> js_date phase_columns" where
  "requested_at_gateway g t c = (case g of
     Some Outbound \<Rightarrow> c\<lparr>ph_outboundRequestedAt := Some t\<rparr>
   | Some Inbound \<Rightarrow> c\<lparr>ph_inboundRequestedAt := Some t\<rparr>
   | Some Connector \<Rightarrow> c\<lparr>ph_connectorRequestedAt := Some t\<rparr>
   | None \<Rightarrow> c)"

definition responded_at_gateway :: "gateway option \<Rightarrow> js_date \<Rightarrow> js_date phase_columns \<Rightarrow> js_date phase_columns" where
  "responded_at_gateway g t c = (case g of
     Some Outbound \<Rightarrow> c\<lparr>ph_outboundRespondedAt := Some t\<rparr>
   | Some Inbound \<Rightarrow> c\<lparr>ph_inboundRespondedAt := Some t\<rparr>
   | Some Connector \<Rightarrow> c\<lparr>ph_connectorRespondedAt := Some t\<rparr>
   | None \<Rightarrow> c)"

definition toPartiesRequestedGatewayFields :: "gateway option \<Rightarrow> js_date \<Rightarrow> upsert_input \<Rightarrow> upsert_input" where
  "toPartiesRequestedGatewayFields g t v = v\<lparr>tx_parties := requested_at_gateway g t (tx_parties v)\<rparr>"

definition toPartiesRespondedGatewayFields :: "gateway option \<Rightarrow> js_date \<Rightarrow> upsert_input \<Rightarrow> upsert_input" where
  "toPartiesRespondedGatewayFields g t v = v\<lparr>tx_parties := responded_at_gateway g t (tx_parties v)\<rparr>"

definition toQuotesRequestedGatewayFields :: "gateway option \<Rightarrow> js_date \<Rightarrow> upsert_input \<Rightarrow> upsert_input" where
  "toQuotesRequestedGatewayFields g t v = v\<lparr>tx_quotes := requested_at_gateway g t (tx_quotes v)\<rparr>"

definition toQuotesRespondedGatewayFields :: "gateway option \<Rightarrow> js_date \<Rightarrow> upsert_input \<Rightarrow> upsert_input" where
  "toQuotesRespondedGatewayFields g t v = v\<lparr>tx_quotes := responded_at_gateway g t (tx_quotes v)\<rparr>"

definition toTransfersRequestedGatewayFields :: "gateway option \<Rightarrow> js_date \<Rightarrow> upsert_input \<Rightarrow> upsert_input" where
  "toTransfersRequestedGatewayFields g t v = v\<lparr>tx_transfers := requested_at_gateway g t (tx_transfers v)\<rparr>"

definition toTransfersRespondedGatewayFields :: "gateway option \<Rightarrow> js_date \<Rightarrow> upsert_input \<Rightarrow> upsert_input" where
  "toTransfersRespondedGatewayFields g t v = v\<lparr>tx_transfers := responded_at_gateway g t (tx_transfers v)\<rparr>"

section \<open>The mapper\<close>

text \<open>An \<open>UpsertInput\<close> with the required fields only; \<open>createdAt\<close> defaults to the start and \<open>possibleDispute\<close> to false.\<close>

definition no_phase :: "js_date phase_columns" where
  "no_phase = \<lparr>ph_requestedAt = None, ph_respondedAt = None, ph_request = None, ph_response = None, ph_error = None,
     ph_outboundRequestedAt = None, ph_outboundRespondedAt = None, ph_inboundRequestedAt = None,
     ph_inboundRespondedAt = None, ph_connectorRequestedAt = None, ph_connectorRespondedAt = None\<rparr>"

definition no_patch :: "(json, js_date) patch_columns" where
  "no_patch = \<lparr>pt_requestedAt = None, pt_respondedAt = None, pt_request = None, pt_error = None\<rparr>"

definition no_amounts :: "(json, js_number) amount_columns" where
  "no_amounts = \<lparr>am_quotingCurrency = None, am_quotingAmount = None, am_transferCurrency = None,
     am_transferAmount = None, am_payeeReceiveAmount = None, am_payeeFee = None, am_payerFee = None,
     am_schemeFee = None\<rparr>"

definition fsp_only :: "json \<Rightarrow> json id_columns" where
  "fsp_only f = \<lparr>id_fsp = f, id_type = None, id_value = None, id_sub = None\<rparr>"

definition required_fields :: "string \<Rightarrow> json \<Rightarrow> json \<Rightarrow> js_date \<Rightarrow> bool \<Rightarrow> upsert_input" where
  "required_fields correlationId payerFsp payeeFsp startedAt err = \<lparr>
     tx_correlationId = correlationId, tx_payer = fsp_only payerFsp, tx_payee = fsp_only payeeFsp,
     tx_initiatorType = None, tx_amounts = no_amounts, tx_startedAt = startedAt, tx_completedAt = None,
     tx_type = None, tx_subScenario = None, tx_state = None, tx_amountType = None, tx_possibleDispute = False,
     tx_error = err, tx_flow = None, tx_parties = no_phase, tx_quotes = no_phase, tx_transfers = no_phase,
     tx_patch = no_patch, tx_payerHome = None, tx_payeeHome = None, tx_createdAt = startedAt\<rparr>"

definition PARTIES_FLOW :: nat where "PARTIES_FLOW = 1"
definition QUOTES_FLOW :: nat where "QUOTES_FLOW = 2"
definition TRANSFERS_FLOW :: nat where "TRANSFERS_FLOW = 3"

text \<open>The payer and payee columns of the parties commands.\<close>

definition parties_fields :: "'a parties_input_scheme \<Rightarrow> js_date \<Rightarrow> bool \<Rightarrow> upsert_input" where
  "parties_fields i occurredAt err =
     (required_fields (ai_correlationId i) (JStr (ai_payerFsp i)) (JStr (ai_payeeFsp i)) occurredAt err)\<lparr>
       tx_payer := \<lparr>id_fsp = JStr (ai_payerFsp i), id_type = present (ai_payerIdType i),
                    id_value = present (ai_payerId i), id_sub = present (ai_payerSubId i)\<rparr>,
       tx_payee := \<lparr>id_fsp = JStr (ai_payeeFsp i), id_type = present (ai_payeeIdType i),
                    id_value = present (ai_payeeId i), id_sub = present (ai_payeeSubId i)\<rparr>\<rparr>"

definition toPartiesRequestInput :: "audit_env \<Rightarrow> int \<Rightarrow> parties_request_input \<Rightarrow> upsert_input" where
  "toPartiesRequestInput e now i =
     (let occurredAt = resolveOccurredAt now (ai_occurredAt i)
      in toPartiesRequestedGatewayFields (ai_gateway i) occurredAt
        ((parties_fields i occurredAt False)\<lparr>
          tx_initiatorType := present (pr_initiatorType i),
          tx_type := present (pr_transactionType i),
          tx_subScenario := present (pr_subScenario i),
          tx_amountType := present (pr_amountType i),
          tx_amounts := no_amounts\<lparr>am_quotingCurrency := present (pr_quotingCurrency i),
                                   am_quotingAmount := toNumber e (pr_quotingAmount i)\<rparr>,
          tx_payerHome := present (pr_payerHome i),
          tx_parties := no_phase\<lparr>ph_requestedAt := Some occurredAt, ph_request := pr_request i\<rparr>\<rparr>))"

definition toPartiesResponseInput :: "int \<Rightarrow> parties_response_input \<Rightarrow> upsert_input" where
  "toPartiesResponseInput now i =
     (let occurredAt = resolveOccurredAt now (ai_occurredAt i);
          info = toPartyIdInfo (ps_response i)
      in toPartiesRespondedGatewayFields (ai_gateway i) occurredAt
        ((parties_fields i occurredAt False)\<lparr>
          tx_payee := \<lparr>
            id_fsp = nullish (field info ''fspId'') (JStr (ai_payeeFsp i)),
            id_type = or_else (field info ''partyIdType'') (present (ai_payeeIdType i)),
            id_value = or_else (field info ''partyIdentifier'') (present (ai_payeeId i)),
            id_sub = or_else (field info ''partySubIdOrType'') (present (ai_payeeSubId i))\<rparr>,
          tx_flow := Some PARTIES_FLOW,
          tx_parties := no_phase\<lparr>ph_respondedAt := Some occurredAt, ph_response := ps_response i\<rparr>\<rparr>))"

definition toPartiesErrorInput :: "int \<Rightarrow> parties_error_input \<Rightarrow> upsert_input" where
  "toPartiesErrorInput now i =
     (let occurredAt = resolveOccurredAt now (ai_occurredAt i)
      in toPartiesRespondedGatewayFields (ai_gateway i) occurredAt
        ((parties_fields i occurredAt True)\<lparr>
          tx_completedAt := Some occurredAt,
          tx_flow := Some PARTIES_FLOW,
          tx_parties := no_phase\<lparr>ph_respondedAt := Some occurredAt, ph_error := pe_error i\<rparr>\<rparr>))"

text \<open>The columns that the three quotes commands read from the request.\<close>

definition party_columns :: "json option \<Rightarrow> string \<Rightarrow> json id_columns" where
  "party_columns party fsp = \<lparr>id_fsp = nullish (field party ''fspId'') (JStr fsp),
     id_type = field party ''partyIdType'', id_value = field party ''partyIdentifier'',
     id_sub = field party ''partySubIdOrType''\<rparr>"

definition quotes_fields ::
  "audit_env \<Rightarrow> 'a audit_input_scheme \<Rightarrow> json option \<Rightarrow> js_date \<Rightarrow> bool \<Rightarrow> (js_throw, upsert_input) result" where
  "quotes_fields e i request occurredAt err =
     res_bind (toQuotesCorrelationId (ai_correlationId i) request) (\<lambda>correlationId.
     res_bind (amount_field request ''currency'') (\<lambda>currency.
     res_bind (amount_field request ''amount'') (\<lambda>amount.
       let payerParty = field (field request ''payer'') ''partyIdInfo'';
           payeeParty = field (field request ''payee'') ''partyIdInfo'';
           type = field request ''transactionType''
       in Inr ((required_fields correlationId (JStr []) (JStr []) occurredAt err)\<lparr>
            tx_payer := party_columns payerParty (ai_payerFsp i),
            tx_payee := party_columns payeeParty (ai_payeeFsp i),
            tx_initiatorType := field type ''initiatorType'',
            tx_amounts := no_amounts\<lparr>am_quotingCurrency := present currency, am_quotingAmount := toNumber e amount\<rparr>,
            tx_type := field type ''scenario'',
            tx_subScenario := field type ''subScenario'',
            tx_amountType := field request ''amountType''\<rparr>))))"

definition toQuotesRequestInput ::
  "audit_env \<Rightarrow> int \<Rightarrow> flow_request_input \<Rightarrow> (js_throw, upsert_input) result" where
  "toQuotesRequestInput e now i =
     (let occurredAt = resolveOccurredAt now (ai_occurredAt i);
          request = toQuotesRequest (fr_request i)
      in res_bind (quotes_fields e i request occurredAt False) (\<lambda>v.
           Inr (toQuotesRequestedGatewayFields (ai_gateway i) occurredAt (v\<lparr>
             tx_quotes := no_phase\<lparr>ph_requestedAt := Some occurredAt, ph_request := request\<rparr>\<rparr>))))"

definition toQuotesResponseInput ::
  "audit_env \<Rightarrow> int \<Rightarrow> flow_response_input \<Rightarrow> (js_throw, upsert_input) result" where
  "toQuotesResponseInput e now i =
     (let occurredAt = resolveOccurredAt now (ai_occurredAt i);
          request = toQuotesRequest (fs_request i);
          response = toQuotesResponse (fs_response i);
          transferAmount = field response ''transferAmount''
      in res_bind (quotes_fields e i request occurredAt False) (\<lambda>v.
         res_bind (toQuoteExportAmounts e response) (\<lambda>x.
           Inr (toQuotesRespondedGatewayFields (ai_gateway i) occurredAt (v\<lparr>
             tx_amounts := (tx_amounts v)\<lparr>
               am_transferCurrency := field transferAmount ''currency'',
               am_transferAmount := toNumber e (field transferAmount ''amount''),
               am_payeeReceiveAmount := ex_payeeReceiveAmount x, am_payeeFee := ex_payeeFee x,
               am_payerFee := ex_payerFee x, am_schemeFee := ex_schemeFee x\<rparr>,
             tx_flow := Some QUOTES_FLOW,
             tx_quotes := no_phase\<lparr>ph_respondedAt := Some occurredAt, ph_request := request,
                                   ph_response := response\<rparr>\<rparr>)))))"

definition toQuotesErrorInput ::
  "audit_env \<Rightarrow> int \<Rightarrow> flow_error_input \<Rightarrow> (js_throw, upsert_input) result" where
  "toQuotesErrorInput e now i =
     (let occurredAt = resolveOccurredAt now (ai_occurredAt i);
          request = toQuotesRequest (fe_request i)
      in res_bind (quotes_fields e i request occurredAt True) (\<lambda>v.
           Inr (toQuotesRespondedGatewayFields (ai_gateway i) occurredAt (v\<lparr>
             tx_completedAt := Some occurredAt,
             tx_flow := Some QUOTES_FLOW,
             tx_quotes := no_phase\<lparr>ph_respondedAt := Some occurredAt, ph_request := request,
                                   ph_error := fe_error i\<rparr>\<rparr>))))"

text \<open>The columns that the three transfers commands read from the request.\<close>

definition transfers_fields ::
  "audit_env \<Rightarrow> 'a audit_input_scheme \<Rightarrow> json option \<Rightarrow> js_date \<Rightarrow> bool \<Rightarrow> (js_throw, upsert_input) result" where
  "transfers_fields e i request occurredAt err =
     res_bind (toTransfersCorrelationId (ai_correlationId i) request) (\<lambda>correlationId.
     res_bind (findExtensionValue (field request ''extensionList'') ''homeTransactionId'') (\<lambda>home.
       let amount = field request ''amount''
       in Inr ((required_fields correlationId
                 (nullish (field request ''payerFsp'') (JStr (ai_payerFsp i)))
                 (nullish (field request ''payeeFsp'') (JStr (ai_payeeFsp i))) occurredAt err)\<lparr>
            tx_amounts := no_amounts\<lparr>am_transferCurrency := field amount ''currency'',
                                     am_transferAmount := toNumber e (field amount ''amount'')\<rparr>,
            tx_payerHome := home\<rparr>)))"

definition toTransfersRequestInput ::
  "audit_env \<Rightarrow> int \<Rightarrow> flow_request_input \<Rightarrow> (js_throw, upsert_input) result" where
  "toTransfersRequestInput e now i =
     (let occurredAt = resolveOccurredAt now (ai_occurredAt i);
          request = toTransfersRequest (fr_request i)
      in res_bind (transfers_fields e i request occurredAt False) (\<lambda>v.
           Inr (toTransfersRequestedGatewayFields (ai_gateway i) occurredAt (v\<lparr>
             tx_transfers := no_phase\<lparr>ph_requestedAt := Some occurredAt, ph_request := fr_request i\<rparr>\<rparr>))))"

definition toTransfersResponseInput ::
  "audit_env \<Rightarrow> int \<Rightarrow> flow_response_input \<Rightarrow> (js_throw, upsert_input) result" where
  "toTransfersResponseInput e now i =
     (let occurredAt = resolveOccurredAt now (ai_occurredAt i);
          request = toTransfersRequest (fs_request i);
          response = toTransfersResponse (fs_response i)
      in res_bind (transfers_fields e i request occurredAt False) (\<lambda>v.
           Inr (toTransfersRespondedGatewayFields (ai_gateway i) occurredAt (v\<lparr>
             tx_completedAt := Some occurredAt,
             tx_state := field response ''transferState'',
             tx_flow := Some TRANSFERS_FLOW,
             tx_transfers := no_phase\<lparr>ph_respondedAt := Some occurredAt, ph_request := fs_request i,
                                      ph_response := fs_response i\<rparr>\<rparr>))))"

definition toTransfersErrorInput ::
  "audit_env \<Rightarrow> int \<Rightarrow> flow_error_input \<Rightarrow> (js_throw, upsert_input) result" where
  "toTransfersErrorInput e now i =
     (let occurredAt = resolveOccurredAt now (ai_occurredAt i);
          request = toTransfersRequest (fe_request i)
      in res_bind (transfers_fields e i request occurredAt True) (\<lambda>v.
           Inr (toTransfersRespondedGatewayFields (ai_gateway i) occurredAt (v\<lparr>
             tx_completedAt := Some occurredAt,
             tx_flow := Some TRANSFERS_FLOW,
             tx_transfers := no_phase\<lparr>ph_respondedAt := Some occurredAt, ph_request := fe_request i,
                                      ph_error := fe_error i\<rparr>\<rparr>))))"

definition patch_fields :: "'a audit_input_scheme \<Rightarrow> js_date \<Rightarrow> bool \<Rightarrow> upsert_input" where
  "patch_fields i occurredAt err =
     required_fields (ai_correlationId i) (JStr (ai_payerFsp i)) (JStr (ai_payeeFsp i)) occurredAt err"

definition toPatchRequestInput :: "int \<Rightarrow> flow_request_input \<Rightarrow> upsert_input" where
  "toPatchRequestInput now i =
     (let occurredAt = resolveOccurredAt now (ai_occurredAt i)
      in (patch_fields i occurredAt False)\<lparr>
           tx_patch := no_patch\<lparr>pt_requestedAt := Some occurredAt, pt_request := fr_request i\<rparr>\<rparr>)"

definition toPatchResponseInput :: "int \<Rightarrow> patch_response_input \<Rightarrow> upsert_input" where
  "toPatchResponseInput now i =
     (let occurredAt = resolveOccurredAt now (ai_occurredAt i)
      in (patch_fields i occurredAt False)\<lparr>
           tx_patch := no_patch\<lparr>pt_respondedAt := Some occurredAt, pt_request := hs_request i\<rparr>,
           tx_payeeHome := present (hs_payeeHome i)\<rparr>)"

definition toPatchErrorInput :: "int \<Rightarrow> patch_error_input \<Rightarrow> upsert_input" where
  "toPatchErrorInput now i =
     (let occurredAt = resolveOccurredAt now (ai_occurredAt i);
          failed = present (he_error i) \<noteq> None
      in (patch_fields i occurredAt failed)\<lparr>
           tx_possibleDispute := failed,
           tx_patch := no_patch\<lparr>pt_respondedAt := Some occurredAt, pt_error := present (he_error i)\<rparr>\<rparr>)"

end
