(* ===== verification/Audit_Consumer.thy ===== *)
theory Audit_Consumer
  imports Audit_Mapper
begin

text \<open>
  \<open>audit-transaction.consumer.ts\<close> and the audit command handlers: each message of the JetStream stream is turned
  into one command, which writes one row, and is then acknowledged, sent back for another delivery or terminated.
  A delivery carries what the model does not decide: how often the message was delivered before, what happens to
  the database statements and the clock.
\<close>

section \<open>Messages\<close>

datatype msg_phase = PartiesPhase | QuotesPhase | TransfersPhase | PatchPhase
datatype msg_action = RequestAction | ResponseAction | ErrorAction | ResolvedAction

text \<open>
  The decoded content; every publisher sets the first three fields.  \<open>ct_occurredAt\<close> is a text, since a date is
  encoded as one.
\<close>

record content =
  ct_correlationId :: string
  ct_payerFsp :: string
  ct_payeeFsp :: string
  ct_occurredAt :: "string option"
  ct_payerIdType :: "json option"
  ct_payerId :: "json option"
  ct_payerSubId :: "json option"
  ct_payeeIdType :: "json option"
  ct_payeeId :: "json option"
  ct_payeeSubId :: "json option"
  ct_initiatorType :: "json option"
  ct_transactionType :: "json option"
  ct_subScenario :: "json option"
  ct_amountType :: "json option"
  ct_payerHome :: "json option"
  ct_quotingCurrency :: "json option"
  ct_quotingAmount :: "json option"
  ct_request :: "json option"
  ct_response :: "json option"
  ct_error :: "json option"
  ct_home :: "json option"

text \<open>A phase, an action or a gateway that is none of the enumerated texts is \<open>None\<close>.\<close>

record message =
  ms_phase :: "msg_phase option"
  ms_action :: "msg_action option"
  ms_gateway :: "gateway option"
  ms_content :: content

record 'l consumer_env =
  ce_audit :: audit_env
  ce_parse_date :: "string \<Rightarrow> js_date"
  ce_live :: "(int \<Rightarrow> string \<Rightarrow> audit_db \<Rightarrow> 'l \<Rightarrow> 'l) option"

record delivery =
  dl_message :: message
  dl_redelivery :: nat
  dl_outcome :: db_outcome
  dl_now :: int

record 'l consumer_state =
  cs_db :: audit_db
  cs_live :: 'l

datatype answer = Ack | Nak | Term

section \<open>Command handlers\<close>

type_synonym db_step = "audit_db \<Rightarrow> (js_throw, unit) result \<times> audit_db"

definition upsert_command :: "audit_env \<Rightarrow> db_outcome \<Rightarrow> int \<Rightarrow> (js_throw, upsert_input) result \<Rightarrow> db_step" where
  "upsert_command e oc now m db =
     (case m of
        Inl x \<Rightarrow> (Inl x, db)
      | Inr inp \<Rightarrow> (case upsert e oc now inp db of (r, db1) \<Rightarrow> (map_sum id (\<lambda>_. ()) r, db1)))"

definition audit_parties_request :: "audit_env \<Rightarrow> db_outcome \<Rightarrow> int \<Rightarrow> parties_request_input \<Rightarrow> db_step" where
  "audit_parties_request e oc now i = upsert_command e oc now (Inr (toPartiesRequestInput e now i))"

definition audit_parties_response :: "audit_env \<Rightarrow> db_outcome \<Rightarrow> int \<Rightarrow> parties_response_input \<Rightarrow> db_step" where
  "audit_parties_response e oc now i = upsert_command e oc now (Inr (toPartiesResponseInput now i))"

definition audit_parties_error :: "audit_env \<Rightarrow> db_outcome \<Rightarrow> int \<Rightarrow> parties_error_input \<Rightarrow> db_step" where
  "audit_parties_error e oc now i = upsert_command e oc now (Inr (toPartiesErrorInput now i))"

definition audit_quotes_request :: "audit_env \<Rightarrow> db_outcome \<Rightarrow> int \<Rightarrow> flow_request_input \<Rightarrow> db_step" where
  "audit_quotes_request e oc now i = upsert_command e oc now (toQuotesRequestInput e now i)"

definition audit_quotes_response :: "audit_env \<Rightarrow> db_outcome \<Rightarrow> int \<Rightarrow> flow_response_input \<Rightarrow> db_step" where
  "audit_quotes_response e oc now i = upsert_command e oc now (toQuotesResponseInput e now i)"

definition audit_quotes_error :: "audit_env \<Rightarrow> db_outcome \<Rightarrow> int \<Rightarrow> flow_error_input \<Rightarrow> db_step" where
  "audit_quotes_error e oc now i = upsert_command e oc now (toQuotesErrorInput e now i)"

definition audit_transfers_request :: "audit_env \<Rightarrow> db_outcome \<Rightarrow> int \<Rightarrow> flow_request_input \<Rightarrow> db_step" where
  "audit_transfers_request e oc now i = upsert_command e oc now (toTransfersRequestInput e now i)"

definition audit_transfers_response :: "audit_env \<Rightarrow> db_outcome \<Rightarrow> int \<Rightarrow> flow_response_input \<Rightarrow> db_step" where
  "audit_transfers_response e oc now i = upsert_command e oc now (toTransfersResponseInput e now i)"

definition audit_transfers_error :: "audit_env \<Rightarrow> db_outcome \<Rightarrow> int \<Rightarrow> flow_error_input \<Rightarrow> db_step" where
  "audit_transfers_error e oc now i = upsert_command e oc now (toTransfersErrorInput e now i)"

definition audit_patch_request :: "audit_env \<Rightarrow> db_outcome \<Rightarrow> int \<Rightarrow> flow_request_input \<Rightarrow> db_step" where
  "audit_patch_request e oc now i = upsert_command e oc now (Inr (toPatchRequestInput now i))"

definition audit_patch_response :: "audit_env \<Rightarrow> db_outcome \<Rightarrow> int \<Rightarrow> patch_response_input \<Rightarrow> db_step" where
  "audit_patch_response e oc now i = upsert_command e oc now (Inr (toPatchResponseInput now i))"

definition audit_patch_error :: "audit_env \<Rightarrow> db_outcome \<Rightarrow> int \<Rightarrow> patch_error_input \<Rightarrow> db_step" where
  "audit_patch_error e oc now i = upsert_command e oc now (Inr (toPatchErrorInput now i))"

text \<open>A resolution that finds no row is logged and acknowledged.\<close>

definition audit_patch_resolved :: "audit_env \<Rightarrow> db_outcome \<Rightarrow> int \<Rightarrow> string \<Rightarrow> int \<Rightarrow> db_step" where
  "audit_patch_resolved e oc now c t db =
     (case resolveDispute e oc now c t db of (r, db1) \<Rightarrow> (map_sum id (\<lambda>_. ()) r, db1))"

section \<open>Dispatch\<close>

definition toOccurredAt :: "'l consumer_env \<Rightarrow> string option \<Rightarrow> js_date option" where
  "toOccurredAt ce v = map_option (ce_parse_date ce) v"

definition toRequiredOccurredAt :: "'l consumer_env \<Rightarrow> string option \<Rightarrow> int option" where
  "toRequiredOccurredAt ce v = (case toOccurredAt ce v of Some (Date t) \<Rightarrow> Some t | _ \<Rightarrow> None)"

definition base_input :: "'l consumer_env \<Rightarrow> message \<Rightarrow> audit_input" where
  "base_input ce m = (let c = ms_content m in
     \<lparr>ai_correlationId = ct_correlationId c, ai_payerFsp = ct_payerFsp c, ai_payeeFsp = ct_payeeFsp c,
      ai_gateway = ms_gateway m, ai_occurredAt = toOccurredAt ce (ct_occurredAt c)\<rparr>)"

definition parties_base :: "'l consumer_env \<Rightarrow> message \<Rightarrow> parties_input" where
  "parties_base ce m = (let c = ms_content m in audit_input.extend (base_input ce m)
     \<lparr>ai_payerIdType = ct_payerIdType c, ai_payerId = ct_payerId c, ai_payerSubId = ct_payerSubId c,
      ai_payeeIdType = ct_payeeIdType c, ai_payeeId = ct_payeeId c, ai_payeeSubId = ct_payeeSubId c\<rparr>)"

definition dispatchParties :: "'l consumer_env \<Rightarrow> db_outcome \<Rightarrow> int \<Rightarrow> message \<Rightarrow> db_step" where
  "dispatchParties ce oc now m db =
     (let c = ms_content m; e = ce_audit ce in case ms_action m of
        Some RequestAction \<Rightarrow> audit_parties_request e oc now (parties_input.extend (parties_base ce m)
          \<lparr>pr_initiatorType = ct_initiatorType c, pr_transactionType = ct_transactionType c,
           pr_subScenario = ct_subScenario c, pr_request = ct_request c, pr_payerHome = ct_payerHome c,
           pr_quotingCurrency = ct_quotingCurrency c, pr_quotingAmount = ct_quotingAmount c,
           pr_amountType = ct_amountType c\<rparr>) db
      | Some ResponseAction \<Rightarrow>
          audit_parties_response e oc now (parties_input.extend (parties_base ce m) \<lparr>ps_response = ct_response c\<rparr>) db
      | Some ErrorAction \<Rightarrow>
          audit_parties_error e oc now (parties_input.extend (parties_base ce m) \<lparr>pe_error = ct_error c\<rparr>) db
      | _ \<Rightarrow> (Inl (Thrown ''Unsupported parties action''), db))"

definition dispatchQuotes :: "'l consumer_env \<Rightarrow> db_outcome \<Rightarrow> int \<Rightarrow> message \<Rightarrow> db_step" where
  "dispatchQuotes ce oc now m db =
     (let c = ms_content m; e = ce_audit ce; b = base_input ce m in case ms_action m of
        Some RequestAction \<Rightarrow>
          audit_quotes_request e oc now (audit_input.extend b \<lparr>fr_request = ct_request c\<rparr>) db
      | Some ResponseAction \<Rightarrow>
          audit_quotes_response e oc now (audit_input.extend b \<lparr>fs_request = ct_request c, fs_response = ct_response c\<rparr>) db
      | Some ErrorAction \<Rightarrow>
          audit_quotes_error e oc now (audit_input.extend b \<lparr>fe_request = ct_request c, fe_error = ct_error c\<rparr>) db
      | _ \<Rightarrow> (Inl (Thrown ''Unsupported quotes action''), db))"

definition dispatchTransfers :: "'l consumer_env \<Rightarrow> db_outcome \<Rightarrow> int \<Rightarrow> message \<Rightarrow> db_step" where
  "dispatchTransfers ce oc now m db =
     (let c = ms_content m; e = ce_audit ce; b = base_input ce m in case ms_action m of
        Some RequestAction \<Rightarrow>
          audit_transfers_request e oc now (audit_input.extend b \<lparr>fr_request = ct_request c\<rparr>) db
      | Some ResponseAction \<Rightarrow>
          audit_transfers_response e oc now
            (audit_input.extend b \<lparr>fs_request = ct_request c, fs_response = ct_response c\<rparr>) db
      | Some ErrorAction \<Rightarrow>
          audit_transfers_error e oc now (audit_input.extend b \<lparr>fe_request = ct_request c, fe_error = ct_error c\<rparr>) db
      | _ \<Rightarrow> (Inl (Thrown ''Unsupported transfers action''), db))"

definition dispatchPatchResolved :: "'l consumer_env \<Rightarrow> db_outcome \<Rightarrow> int \<Rightarrow> content \<Rightarrow> db_step" where
  "dispatchPatchResolved ce oc now c db =
     (if trim (ct_correlationId c) = [] then (Inr (), db)
      else (case toRequiredOccurredAt ce (ct_occurredAt c) of
              None \<Rightarrow> (Inr (), db)
            | Some t \<Rightarrow> audit_patch_resolved (ce_audit ce) oc now (trim (ct_correlationId c)) t db))"

definition dispatchPatch :: "'l consumer_env \<Rightarrow> db_outcome \<Rightarrow> int \<Rightarrow> message \<Rightarrow> db_step" where
  "dispatchPatch ce oc now m db =
     (let c = ms_content m; e = ce_audit ce; b = base_input ce m in case ms_action m of
        Some RequestAction \<Rightarrow>
          audit_patch_request e oc now (audit_input.extend b \<lparr>fr_request = ct_request c\<rparr>) db
      | Some ResponseAction \<Rightarrow>
          audit_patch_response e oc now
            (audit_input.extend b \<lparr>hs_request = ct_response c, hs_payeeHome = ct_home c\<rparr>) db
      | Some ErrorAction \<Rightarrow>
          audit_patch_error e oc now (audit_input.extend b \<lparr>he_error = ct_error c\<rparr>) db
      | Some ResolvedAction \<Rightarrow>
          if ms_gateway m \<noteq> Some Connector then (Inr (), db) else dispatchPatchResolved ce oc now c db
      | None \<Rightarrow> (Inl (Thrown ''Unsupported patch action''), db))"

definition dispatch_message :: "'l consumer_env \<Rightarrow> db_outcome \<Rightarrow> int \<Rightarrow> message \<Rightarrow> db_step" where
  "dispatch_message ce oc now m db = (case ms_phase m of
     Some PartiesPhase \<Rightarrow> dispatchParties ce oc now m db
   | Some QuotesPhase \<Rightarrow> dispatchQuotes ce oc now m db
   | Some TransfersPhase \<Rightarrow> dispatchTransfers ce oc now m db
   | Some PatchPhase \<Rightarrow> dispatchPatch ce oc now m db
   | None \<Rightarrow> (Inl (Thrown ''Unsupported transaction phase''), db))"

section \<open>Settling a delivery\<close>

definition MAX_DELIVERY_ATTEMPTS :: nat where "MAX_DELIVERY_ATTEMPTS = 5"

definition PERMANENT_DB_ERRNOS :: "nat list" where "PERMANENT_DB_ERRNOS = [1048, 1264, 1265, 1366, 1406]"

definition isPermanentDbError :: "js_throw \<Rightarrow> bool" where
  "isPermanentDbError x = (case x of
     QueryFailed driver own \<Rightarrow>
       (case or_else driver own of None \<Rightarrow> False | Some n \<Rightarrow> n \<in> set PERMANENT_DB_ERRNOS)
   | _ \<Rightarrow> False)"

definition handleProcessingFailure :: "nat \<Rightarrow> js_throw \<Rightarrow> answer" where
  "handleProcessingFailure attempts x =
     (if isPermanentDbError x \<or> attempts \<ge> MAX_DELIVERY_ATTEMPTS then Term else Nak)"

definition recordLiveStats :: "'l consumer_env \<Rightarrow> int \<Rightarrow> message \<Rightarrow> audit_db \<Rightarrow> 'l \<Rightarrow> 'l" where
  "recordLiveStats ce now m db l =
     (case ce_live ce of None \<Rightarrow> l | Some f \<Rightarrow> f now (ct_correlationId (ms_content m)) db l)"

definition consume_one :: "'l consumer_env \<Rightarrow> delivery \<Rightarrow> 'l consumer_state \<Rightarrow> answer \<times> 'l consumer_state" where
  "consume_one ce d s =
     (let m = dl_message d in
      if ms_phase m = None then (Term, s)
      else (case dispatch_message ce (dl_outcome d) (dl_now d) m (cs_db s) of
              (Inr _, db) \<Rightarrow> (Ack, \<lparr>cs_db = db, cs_live = recordLiveStats ce (dl_now d) m db (cs_live s)\<rparr>)
            | (Inl x, db) \<Rightarrow> (handleProcessingFailure (dl_redelivery d) x, s\<lparr>cs_db := db\<rparr>)))"

fun consume :: "'l consumer_env \<Rightarrow> delivery list \<Rightarrow> 'l consumer_state \<Rightarrow> answer list \<times> 'l consumer_state" where
  "consume ce [] s = ([], s)"
| "consume ce (d # ds) s =
     (case consume_one ce d s of (a, s1) \<Rightarrow> (case consume ce ds s1 of (as, s2) \<Rightarrow> (a # as, s2)))"

end
