(* ===== verification/Audit_History.thy ===== *)
theory Audit_History
  imports Audit_Consumer
begin

text \<open>
  What the audit table promises: the row of a transaction is a function of the messages written for it.  The
  specification computes every column from the list of these messages by an aggregate (the first or the last point
  in time, the last present value, the disjunction of the flags); the statements of the repository, which merge one
  message at a time into the row, implement it.
\<close>

section \<open>Aggregates\<close>

definition values_of :: "('a \<Rightarrow> 'b option) \<Rightarrow> 'a list \<Rightarrow> 'b list" where
  "values_of f vs = List.map_filter f vs"

definition last_present :: "('a \<Rightarrow> 'b option) \<Rightarrow> 'a list \<Rightarrow> 'b option" where
  "last_present f vs = (let os = values_of f vs in if os = [] then None else Some (last os))"

definition first_time :: "('a \<Rightarrow> 'b::linorder option) \<Rightarrow> 'a list \<Rightarrow> 'b option" where
  "first_time f vs = (let os = values_of f vs in if os = [] then None else Some (Min (set os)))"

definition last_time :: "('a \<Rightarrow> 'b::linorder option) \<Rightarrow> 'a list \<Rightarrow> 'b option" where
  "last_time f vs = (let os = values_of f vs in if os = [] then None else Some (Max (set os)))"

lemma values_of_simps [simp]:
  "values_of f [] = []"
  "values_of f (v # vs) = (case f v of None \<Rightarrow> values_of f vs | Some x \<Rightarrow> x # values_of f vs)"
  by (simp_all add: values_of_def List.map_filter_def split: option.splits)

lemma values_of_append [simp]: "values_of f (vs @ ws) = values_of f vs @ values_of f ws"
  by (induction vs) (auto split: option.splits)

lemma values_of_set: "x \<in> set (values_of f vs) \<longleftrightarrow> Some x \<in> f ` set vs"
  by (induction vs) (auto split: option.splits)

lemma values_of_Nil_iff: "values_of f vs = [] \<longleftrightarrow> (\<forall>v\<in>set vs. f v = None)"
  by (induction vs) (auto split: option.splits)

named_theorems snoc_simps

lemma last_present_snoc [snoc_simps]: "last_present f (vs @ [v]) = coalesce (last_present f vs) (f v)"
  by (simp add: last_present_def Let_def coalesce_def split: option.splits)

lemma first_time_snoc [snoc_simps]: "first_time f (vs @ [v]) = earliest (first_time f vs) (f v)"
  by (simp add: first_time_def Let_def earliest_def min.commute Min_insert2 split: option.splits)

lemma last_time_snoc [snoc_simps]: "last_time f (vs @ [v]) = latest (last_time f vs) (f v)"
  by (simp add: last_time_def Let_def latest_def max.commute split: option.splits)

lemma aggregate_single [snoc_simps]:
  "last_present f [v] = f v" "first_time g [v] = g v" "last_time g [v] = g v"
  by (simp_all add: last_present_def first_time_def last_time_def split: option.splits)

text \<open>The first and the last time depend on the set of the messages only.\<close>

lemma time_cong:
  assumes "set vs = set ws"
  shows "first_time f vs = first_time f ws" "last_time f vs = last_time f ws"
proof -
  have "set (values_of f vs) = set (values_of f ws)" by (rule set_eqI) (simp only: values_of_set assms)
  moreover have "values_of f vs = [] \<longleftrightarrow> values_of f ws = []" by (simp only: values_of_Nil_iff assms)
  ultimately show "first_time f vs = first_time f ws" "last_time f vs = last_time f ws"
    by (simp_all add: first_time_def last_time_def Let_def)
qed

section \<open>The row of a list of messages\<close>

text \<open>The FSP comes from the last message that names the party, or from the last message when none does.\<close>

definition named_party :: "(sql_values \<Rightarrow> string id_columns) \<Rightarrow> sql_values list \<Rightarrow> sql_values list" where
  "named_party get vs = filter (\<lambda>v. id_value (get v) \<noteq> None) vs"

definition spec_fsp :: "(sql_values \<Rightarrow> string id_columns) \<Rightarrow> sql_values list \<Rightarrow> string" where
  "spec_fsp get vs = (let ws = named_party get vs in id_fsp (get (last (if ws = [] then vs else ws))))"

definition spec_ids :: "(sql_values \<Rightarrow> string id_columns) \<Rightarrow> sql_values list \<Rightarrow> string id_columns" where
  "spec_ids get vs = \<lparr>id_fsp = spec_fsp get vs, id_type = last_present (\<lambda>v. id_type (get v)) vs,
     id_value = last_present (\<lambda>v. id_value (get v)) vs, id_sub = last_present (\<lambda>v. id_sub (get v)) vs\<rparr>"

definition spec_amounts :: "sql_values list \<Rightarrow> (string, int) amount_columns" where
  "spec_amounts vs = (let p = (\<lambda>f. last_present (\<lambda>v. f (tx_amounts v)) vs);
                          q = (\<lambda>f. last_present (\<lambda>v. f (tx_amounts v)) vs) in \<lparr>
     am_quotingCurrency = p am_quotingCurrency, am_quotingAmount = q am_quotingAmount,
     am_transferCurrency = p am_transferCurrency, am_transferAmount = q am_transferAmount,
     am_payeeReceiveAmount = q am_payeeReceiveAmount, am_payeeFee = q am_payeeFee,
     am_payerFee = q am_payerFee, am_schemeFee = q am_schemeFee\<rparr>)"

definition spec_phase :: "(sql_values \<Rightarrow> int phase_columns) \<Rightarrow> sql_values list \<Rightarrow> int phase_columns" where
  "spec_phase get vs = (let first = (\<lambda>f. first_time (\<lambda>v. f (get v)) vs); last = (\<lambda>f. last_time (\<lambda>v. f (get v)) vs);
                            latest_value = (\<lambda>f. last_present (\<lambda>v. f (get v)) vs) in \<lparr>
     ph_requestedAt = first ph_requestedAt, ph_respondedAt = last ph_respondedAt,
     ph_request = latest_value ph_request, ph_response = latest_value ph_response, ph_error = latest_value ph_error,
     ph_outboundRequestedAt = first ph_outboundRequestedAt, ph_outboundRespondedAt = last ph_outboundRespondedAt,
     ph_inboundRequestedAt = first ph_inboundRequestedAt, ph_inboundRespondedAt = last ph_inboundRespondedAt,
     ph_connectorRequestedAt = first ph_connectorRequestedAt,
     ph_connectorRespondedAt = last ph_connectorRespondedAt\<rparr>)"

definition spec_patch :: "sql_values list \<Rightarrow> (string, int) patch_columns" where
  "spec_patch vs = \<lparr>pt_requestedAt = first_time (\<lambda>v. pt_requestedAt (tx_patch v)) vs,
     pt_respondedAt = last_time (\<lambda>v. pt_respondedAt (tx_patch v)) vs,
     pt_request = last_present (\<lambda>v. pt_request (tx_patch v)) vs,
     pt_error = last_present (\<lambda>v. pt_error (tx_patch v)) vs\<rparr>"

definition spec_values :: "sql_values list \<Rightarrow> sql_values" where
  "spec_values vs = \<lparr>
     tx_correlationId = tx_correlationId (hd vs),
     tx_payer = spec_ids tx_payer vs, tx_payee = spec_ids tx_payee vs,
     tx_initiatorType = last_present tx_initiatorType vs, tx_amounts = spec_amounts vs,
     tx_startedAt = Min (tx_startedAt ` set vs), tx_completedAt = last_present tx_completedAt vs,
     tx_type = last_present tx_type vs, tx_subScenario = last_present tx_subScenario vs,
     tx_state = last_present tx_state vs, tx_amountType = last_present tx_amountType vs,
     tx_possibleDispute = list_ex tx_possibleDispute vs, tx_error = list_ex tx_error vs,
     tx_flow = last_time tx_flow vs,
     tx_parties = spec_phase tx_parties vs, tx_quotes = spec_phase tx_quotes vs,
     tx_transfers = spec_phase tx_transfers vs, tx_patch = spec_patch vs,
     tx_payerHome = last_present tx_payerHome vs, tx_payeeHome = last_present tx_payeeHome vs,
     tx_createdAt = Min (tx_createdAt ` set vs)\<rparr>"

subsection \<open>Adding a message\<close>

lemma last_present_None: "last_present f vs = None \<longleftrightarrow> filter (\<lambda>v. f v \<noteq> None) vs = []"
  by (auto simp: last_present_def Let_def values_of_Nil_iff filter_empty_conv)

lemma spec_ids_snoc:
  assumes "vs \<noteq> []"
  shows "spec_ids get (vs @ [v]) = merge_ids (spec_ids get vs) (get v)"
proof -
  have "spec_fsp get (vs @ [v]) = merge_fsp (spec_ids get vs) (get v)"
    using last_present_None[of "\<lambda>v. id_value (get v)" vs]
    by (auto simp: merge_fsp_def spec_ids_def spec_fsp_def named_party_def Let_def)
  then show ?thesis by (simp add: spec_ids_def merge_ids_def snoc_simps)
qed

lemma spec_group_snoc:
  "spec_amounts (vs @ [v]) = merge_amounts (spec_amounts vs) (tx_amounts v)"
  "spec_phase get (vs @ [v]) = merge_phase (spec_phase get vs) (get v)"
  "spec_patch (vs @ [v]) = merge_patch (spec_patch vs) (tx_patch v)"
  by (simp_all add: spec_amounts_def merge_amounts_def spec_phase_def merge_phase_def spec_patch_def
      merge_patch_def Let_def snoc_simps)

lemma spec_group_single:
  "spec_ids get [v] = get v" "spec_amounts [v] = tx_amounts v" "spec_phase g [v] = g v" "spec_patch [v] = tx_patch v"
  by (simp_all add: spec_ids_def spec_fsp_def named_party_def spec_amounts_def spec_phase_def spec_patch_def Let_def
      snoc_simps)

lemma spec_values_single: "spec_values [v] = v"
  by (simp add: spec_values_def spec_group_single snoc_simps)

section \<open>The row of a history\<close>

datatype row_event = Merged sql_values int | ResolvedAt int int

fun merged_values :: "row_event \<Rightarrow> sql_values option" where
  "merged_values (Merged v _) = Some v"
| "merged_values (ResolvedAt _ _) = None"

fun resolved_time :: "row_event \<Rightarrow> int option" where
  "resolved_time (Merged _ _) = None"
| "resolved_time (ResolvedAt t _) = Some t"

fun event_now :: "row_event \<Rightarrow> int" where
  "event_now (Merged _ n) = n"
| "event_now (ResolvedAt _ n) = n"

definition merges :: "row_event list \<Rightarrow> sql_values list" where
  "merges h = values_of merged_values h"

text \<open>Before the first message there is no row; a dispute counts when it was reported after the last resolution.\<close>

definition with_row :: "row_event list \<Rightarrow> row_event list" where
  "with_row h = dropWhile (\<lambda>ev. merged_values ev = None) h"

definition since_resolved :: "row_event list \<Rightarrow> sql_values list" where
  "since_resolved h = merges (rev (takeWhile (\<lambda>ev. merged_values ev \<noteq> None) (rev h)))"

definition spec_row :: "int \<Rightarrow> row_event list \<Rightarrow> tx_row" where
  "spec_row i h = tx_values.extend
     ((spec_values (merges h))\<lparr>tx_possibleDispute := list_ex tx_possibleDispute (since_resolved h)\<rparr>)
     \<lparr>tx_id = i, tx_disputeResolvedAt = last_present resolved_time (with_row h),
      tx_updatedAt = event_now (last (with_row h))\<rparr>"

lemma merges_simps [simp]:
  "merges [] = []" "merges (h @ [Merged v n]) = merges h @ [v]" "merges (h @ [ResolvedAt t n]) = merges h"
  by (simp_all add: merges_def)

lemma merges_Nil_iff: "merges h = [] \<longleftrightarrow> (\<forall>ev\<in>set h. merged_values ev = None)"
  by (simp add: merges_def values_of_Nil_iff)

lemma with_row_snoc:
  "with_row (h @ [ev]) = (if merges h = [] then (if merged_values ev = None then [] else [ev]) else with_row h @ [ev])"
proof (cases "merges h = []")
  case True
  then show ?thesis by (simp add: merges_Nil_iff with_row_def dropWhile_append2)
next
  case False
  then obtain x where "x \<in> set h" "merged_values x \<noteq> None" by (auto simp: merges_Nil_iff)
  then show ?thesis using False by (simp add: with_row_def dropWhile_append1)
qed

lemma with_row_Nil_iff: "with_row h = [] \<longleftrightarrow> merges h = []"
  by (simp add: with_row_def dropWhile_eq_Nil_conv merges_Nil_iff)

lemma since_resolved_snoc:
  "since_resolved (h @ [Merged v n]) = since_resolved h @ [v]"
  "since_resolved (h @ [ResolvedAt t n]) = []"
  by (simp_all add: since_resolved_def)

lemma since_resolved_Nil: "merges h = [] \<Longrightarrow> since_resolved h = []"
  by (induction h rule: rev_induct) (auto simp: since_resolved_def merges_Nil_iff merges_def)

lemma spec_row_first: "merges h = [] \<Longrightarrow> spec_row i (h @ [Merged v n]) = new_row i v n"
  by (simp add: spec_row_def new_row_def with_row_snoc since_resolved_snoc since_resolved_Nil spec_values_single
      aggregate_single)

lemma Min_snoc: "vs \<noteq> [] \<Longrightarrow> Min (f ` set (vs @ [v])) = min (Min (f ` set vs)) (f v)"
  for f :: "'a \<Rightarrow> 'b::linorder"
  by (simp add: min.commute)

lemma spec_row_merge:
  assumes "merges h \<noteq> []"
  shows "spec_row i (h @ [Merged v n]) = merge_row v n (spec_row i h)"
proof -
  have "hd (merges h @ [v]) = hd (merges h)" using assms by simp
  then show ?thesis
    using assms Min_snoc[of "merges h" tx_startedAt v] Min_snoc[of "merges h" tx_createdAt v]
    by (simp add: spec_row_def spec_values_def merge_row_def with_row_snoc since_resolved_snoc spec_ids_snoc
        spec_group_snoc snoc_simps tx_values.defs coalesce_def disj_commute)
qed

lemma spec_row_resolve:
  assumes "merges h \<noteq> []"
  shows "spec_row i (h @ [ResolvedAt t n]) = resolve_row t n (spec_row i h)"
  using assms
  by (simp add: spec_row_def resolve_row_def with_row_snoc since_resolved_snoc snoc_simps tx_values.defs coalesce_def)

section \<open>What a delivery does\<close>

text \<open>What a message asks for, whatever the state of the table.\<close>

datatype message_effect = Throws js_throw | Ignores | Writes upsert_input | Resolves string int

definition writes :: "(js_throw, upsert_input) result \<Rightarrow> message_effect" where
  "writes m = (case m of Inl x \<Rightarrow> Throws x | Inr inp \<Rightarrow> Writes inp)"

definition patch_resolution :: "'l consumer_env \<Rightarrow> message \<Rightarrow> message_effect" where
  "patch_resolution ce m =
     (let c = ms_content m in
      if ms_gateway m \<noteq> Some Connector \<or> trim (ct_correlationId c) = [] then Ignores
      else (case toRequiredOccurredAt ce (ct_occurredAt c) of
              None \<Rightarrow> Ignores | Some t \<Rightarrow> Resolves (trim (ct_correlationId c)) t))"

definition message_effect :: "'l consumer_env \<Rightarrow> int \<Rightarrow> message \<Rightarrow> message_effect" where
  "message_effect ce now m =
     (let c = ms_content m; e = ce_audit ce; b = base_input ce m; p = parties_base ce m;
          req = audit_input.extend b \<lparr>fr_request = ct_request c\<rparr>;
          res = audit_input.extend b \<lparr>fs_request = ct_request c, fs_response = ct_response c\<rparr>;
          err = audit_input.extend b \<lparr>fe_request = ct_request c, fe_error = ct_error c\<rparr>
      in case (ms_phase m, ms_action m) of
        (Some PartiesPhase, Some RequestAction) \<Rightarrow> Writes (toPartiesRequestInput e now (parties_input.extend p
          \<lparr>pr_initiatorType = ct_initiatorType c, pr_transactionType = ct_transactionType c,
           pr_subScenario = ct_subScenario c, pr_request = ct_request c, pr_payerHome = ct_payerHome c,
           pr_quotingCurrency = ct_quotingCurrency c, pr_quotingAmount = ct_quotingAmount c,
           pr_amountType = ct_amountType c\<rparr>))
      | (Some PartiesPhase, Some ResponseAction) \<Rightarrow>
          Writes (toPartiesResponseInput now (parties_input.extend p \<lparr>ps_response = ct_response c\<rparr>))
      | (Some PartiesPhase, Some ErrorAction) \<Rightarrow>
          Writes (toPartiesErrorInput now (parties_input.extend p \<lparr>pe_error = ct_error c\<rparr>))
      | (Some QuotesPhase, Some RequestAction) \<Rightarrow> writes (toQuotesRequestInput e now req)
      | (Some QuotesPhase, Some ResponseAction) \<Rightarrow> writes (toQuotesResponseInput e now res)
      | (Some QuotesPhase, Some ErrorAction) \<Rightarrow> writes (toQuotesErrorInput e now err)
      | (Some TransfersPhase, Some RequestAction) \<Rightarrow> writes (toTransfersRequestInput e now req)
      | (Some TransfersPhase, Some ResponseAction) \<Rightarrow> writes (toTransfersResponseInput e now res)
      | (Some TransfersPhase, Some ErrorAction) \<Rightarrow> writes (toTransfersErrorInput e now err)
      | (Some PatchPhase, Some RequestAction) \<Rightarrow> Writes (toPatchRequestInput now req)
      | (Some PatchPhase, Some ResponseAction) \<Rightarrow>
          Writes (toPatchResponseInput now (audit_input.extend b \<lparr>hs_request = ct_response c, hs_payeeHome = ct_home c\<rparr>))
      | (Some PatchPhase, Some ErrorAction) \<Rightarrow>
          Writes (toPatchErrorInput now (audit_input.extend b \<lparr>he_error = ct_error c\<rparr>))
      | (Some PatchPhase, Some ResolvedAction) \<Rightarrow> patch_resolution ce m
      | (Some PartiesPhase, _) \<Rightarrow> Throws (Thrown ''Unsupported parties action'')
      | (Some QuotesPhase, _) \<Rightarrow> Throws (Thrown ''Unsupported quotes action'')
      | (Some TransfersPhase, _) \<Rightarrow> Throws (Thrown ''Unsupported transfers action'')
      | (Some PatchPhase, None) \<Rightarrow> Throws (Thrown ''Unsupported patch action'')
      | (None, _) \<Rightarrow> Throws (Thrown ''Unsupported transaction phase''))"

definition effect_step :: "audit_env \<Rightarrow> db_outcome \<Rightarrow> int \<Rightarrow> message_effect \<Rightarrow> db_step" where
  "effect_step e oc now m db = (case m of
     Throws x \<Rightarrow> (Inl x, db)
   | Ignores \<Rightarrow> (Inr (), db)
   | Writes inp \<Rightarrow> upsert_command e oc now (Inr inp) db
   | Resolves c t \<Rightarrow> audit_patch_resolved e oc now c t db)"

lemma effect_step_simps [simp]:
  "effect_step e oc now (Throws x) db = (Inl x, db)"
  "effect_step e oc now Ignores db = (Inr (), db)"
  "effect_step e oc now (Writes inp) db = upsert_command e oc now (Inr inp) db"
  "effect_step e oc now (Resolves c t) db = audit_patch_resolved e oc now c t db"
  "effect_step e oc now (writes r) db = upsert_command e oc now r db"
  by (simp_all add: effect_step_def writes_def upsert_command_def split: sum.splits)

lemmas command_defs = audit_parties_request_def audit_parties_response_def audit_parties_error_def
  audit_quotes_request_def audit_quotes_response_def audit_quotes_error_def audit_transfers_request_def
  audit_transfers_response_def audit_transfers_error_def audit_patch_request_def audit_patch_response_def
  audit_patch_error_def

lemma dispatch_message_effect:
  "dispatch_message ce oc now m db = effect_step (ce_audit ce) oc now (message_effect ce now m) db"
proof (cases "ms_phase m")
  case None
  then show ?thesis by (simp add: dispatch_message_def message_effect_def Let_def split: option.split)
next
  case (Some p)
  note defs = dispatch_message_def message_effect_def Let_def command_defs Some
  show ?thesis
  proof (cases "ms_action m")
    case None
    then show ?thesis
      by (cases p) (simp_all add: defs dispatchParties_def dispatchQuotes_def dispatchTransfers_def dispatchPatch_def)
  next
    case act: (Some a)
    show ?thesis
    proof (cases p)
      case PartiesPhase
      then show ?thesis by (cases a) (simp_all add: defs act dispatchParties_def)
    next
      case QuotesPhase
      then show ?thesis by (cases a) (simp_all add: defs act dispatchQuotes_def)
    next
      case TransfersPhase
      then show ?thesis by (cases a) (simp_all add: defs act dispatchTransfers_def)
    next
      case PatchPhase
      then show ?thesis
        by (cases a) (simp_all add: defs act dispatchPatch_def patch_resolution_def dispatchPatchResolved_def
            split: option.split)
    qed
  qed
qed

text \<open>The event that a delivery adds to the history of a correlation, if its statements run.\<close>

definition delivery_event :: "'l consumer_env \<Rightarrow> delivery \<Rightarrow> (string \<times> row_event) option" where
  "delivery_event ce d =
     (if ms_phase (dl_message d) = None then None
      else (case dl_outcome d of FailsBefore _ \<Rightarrow> None
      | _ \<Rightarrow> (case message_effect ce (dl_now d) (dl_message d) of
           Writes inp \<Rightarrow> map_option (\<lambda>v. (tx_correlationId v, Merged v (dl_now d))) (bind_values (ce_audit ce) inp)
         | Resolves c t \<Rightarrow> Some (c, ResolvedAt t (dl_now d))
         | _ \<Rightarrow> None)))"

definition apply_event :: "audit_env \<Rightarrow> (string \<times> row_event) option \<Rightarrow> audit_db \<Rightarrow> audit_db" where
  "apply_event e ev db = (case ev of
     None \<Rightarrow> db
   | Some (c, Merged v now) \<Rightarrow> insert_or_merge e now v db
   | Some (c, ResolvedAt t now) \<Rightarrow> change_row e c (resolve_row t now) db)"

lemma apply_event_None: "apply_event e None db = db"
  by (simp add: apply_event_def)

lemma bind_values_correlation: "bind_values e inp = Some v \<Longrightarrow> tx_correlationId v = tx_correlationId inp"
  by (auto simp: bind_values_def split: option.splits)

lemma upsert_db: "snd (upsert e oc now inp db) = (case oc of FailsBefore _ \<Rightarrow> db
    | _ \<Rightarrow> (case bind_values e inp of None \<Rightarrow> db | Some v \<Rightarrow> insert_or_merge e now v db))"
  by (simp add: upsert_def Let_def split: db_outcome.split option.split)

lemma resolveDispute_db: "snd (resolveDispute e oc now c t db) = (case oc of FailsBefore _ \<Rightarrow> db
    | _ \<Rightarrow> change_row e c (resolve_row t now) db)"
  by (simp add: resolveDispute_def Let_def split: db_outcome.split)

lemma consume_one_db: "cs_db (snd (consume_one ce d s)) = apply_event (ce_audit ce) (delivery_event ce d) (cs_db s)"
proof -
  have "snd (dispatch_message ce (dl_outcome d) (dl_now d) (dl_message d) (cs_db s)) =
      apply_event (ce_audit ce) (delivery_event ce d) (cs_db s)" if "ms_phase (dl_message d) \<noteq> None"
    using that
    by (simp add: dispatch_message_effect delivery_event_def apply_event_def effect_step_def upsert_command_def
        audit_patch_resolved_def split_beta upsert_db resolveDispute_db del: not_None_eq
        split: message_effect.split db_outcome.split option.split)
  then show ?thesis
    by (auto simp: consume_one_def Let_def delivery_event_def apply_event_def split: prod.splits sum.splits)
qed

fun events_of :: "'l consumer_env \<Rightarrow> delivery list \<Rightarrow> (string \<times> row_event) list" where
  "events_of ce [] = []"
| "events_of ce (d # ds) = (case delivery_event ce d of None \<Rightarrow> events_of ce ds | Some ev \<Rightarrow> ev # events_of ce ds)"

definition history :: "'l consumer_env \<Rightarrow> string \<Rightarrow> delivery list \<Rightarrow> row_event list" where
  "history ce c ds =
     map snd (filter (\<lambda>(k, ev). ae_collate (ce_audit ce) k = ae_collate (ce_audit ce) c) (events_of ce ds))"

lemma consume_db:
  "cs_db (snd (consume ce ds s)) = fold (\<lambda>ev. apply_event (ce_audit ce) (Some ev)) (events_of ce ds) (cs_db s)"
proof (induction ds arbitrary: s)
  case (Cons d ds)
  have "cs_db (snd (consume ce (d # ds) s)) = cs_db (snd (consume ce ds (snd (consume_one ce d s))))"
    by (simp add: split_beta)
  also have "\<dots> = fold (\<lambda>ev. apply_event (ce_audit ce) (Some ev)) (events_of ce ds)
      (apply_event (ce_audit ce) (delivery_event ce d) (cs_db s))"
    by (simp add: Cons consume_one_db)
  finally show ?case by (cases "delivery_event ce d") (simp_all add: apply_event_None)
qed simp

definition row_of_history :: "row_event list \<Rightarrow> tx_row option \<Rightarrow> bool" where
  "row_of_history h r = (if merges h = [] then r = None else (\<exists>i. r = Some (spec_row i h)))"

lemma row_of_history_step:
  assumes "row_of_history h (findByCorrelationId e c db)" and k: "\<And>v n. ev = Merged v n \<Longrightarrow> k = tx_correlationId v"
  shows "row_of_history (if ae_collate e k = ae_collate e c then h @ [ev] else h)
    (findByCorrelationId e c (apply_event e (Some (k, ev)) db))"
proof (cases ev)
  case (Merged v n)
  then show ?thesis
    using assms(1) k[OF Merged]
    by (cases "merges h = []")
      (auto simp: row_of_history_def apply_event_def find_insert_or_merge spec_row_first spec_row_merge)
next
  case (ResolvedAt t n)
  then show ?thesis
    using assms(1)
    by (cases "merges h = []")
      (auto simp: row_of_history_def apply_event_def find_change_row spec_row_resolve)
qed

lemma events_of_keys: "(k, Merged v n) \<in> set (events_of ce ds) \<Longrightarrow> k = tx_correlationId v"
  by (induction ds)
    (auto simp: delivery_event_def split: option.splits if_splits db_outcome.splits message_effect.splits)

lemma row_of_history_fold:
  assumes "\<And>k v n. (k, Merged v n) \<in> set evs \<Longrightarrow> k = tx_correlationId v"
    and "row_of_history h (findByCorrelationId e c db)"
  shows "row_of_history (h @ map snd (filter (\<lambda>(k, ev). ae_collate e k = ae_collate e c) evs))
    (findByCorrelationId e c (fold (\<lambda>ev. apply_event e (Some ev)) evs db))"
  using assms
proof (induction evs arbitrary: h db)
  case (Cons x evs)
  obtain k ev where x: "x = (k, ev)" by (cases x)
  have "row_of_history (if ae_collate e k = ae_collate e c then h @ [ev] else h)
      (findByCorrelationId e c (apply_event e (Some (k, ev)) db))"
    by (rule row_of_history_step) (use Cons.prems x in auto)
  then have "row_of_history ((if ae_collate e k = ae_collate e c then h @ [ev] else h) @
        map snd (filter (\<lambda>(k, ev). ae_collate e k = ae_collate e c) evs))
      (findByCorrelationId e c (fold (\<lambda>ev. apply_event e (Some ev)) evs (apply_event e (Some (k, ev)) db)))"
    by (rule Cons.IH[rotated]) (use Cons.prems(1) in auto)
  then show ?case by (simp add: x split: if_splits)
qed simp

definition empty_db :: audit_db where "empty_db = \<lparr>db_rows = [], db_next_id = 1\<rparr>"

lemma consume_history:
  assumes "cs_db s = empty_db"
  shows "row_of_history (history ce c ds) (findByCorrelationId (ce_audit ce) c (cs_db (snd (consume ce ds s))))"
proof -
  have "findByCorrelationId (ce_audit ce) c empty_db = None" by (simp add: findByCorrelationId_def empty_db_def)
  then have "row_of_history [] (findByCorrelationId (ce_audit ce) c empty_db)" by (simp add: row_of_history_def)
  from row_of_history_fold[where evs = "events_of ce ds", OF events_of_keys this] show ?thesis
    by (simp add: consume_db assms history_def)
qed

lemma audit_db_ok_fold: "audit_db_ok e db \<Longrightarrow> audit_db_ok e (fold (\<lambda>ev. apply_event e (Some ev)) evs db)"
proof (induction evs arbitrary: db)
  case (Cons ev evs)
  obtain k w where ev: "ev = (k, w)" by (cases ev)
  have "audit_db_ok e (apply_event e (Some ev) db)"
    using Cons.prems by (cases w) (simp_all add: ev apply_event_def audit_db_ok_insert audit_db_ok_change)
  from Cons.IH[OF this] show ?case by simp
qed simp

end
