(* ===== verification/Audit_Properties.thy ===== *)
theory Audit_Properties
  imports Audit_History
begin

text \<open>
  Properties of the audit trail: the table implements the history specification, the times and flags of a row do not
  depend on the order of the deliveries, a message delivered twice counts once, and every message is settled.
\<close>

section \<open>An example\<close>

definition demo_text :: "json \<Rightarrow> string" where
  "demo_text v = (case v of JStr s \<Rightarrow> s | _ \<Rightarrow> [])"

definition demo_audit_env :: audit_env where
  "demo_audit_env = \<lparr>ae_text = demo_text, ae_decimal = (\<lambda>n. case n of Finite q \<Rightarrow> \<lfloor>q * 10000\<rfloor> | _ \<Rightarrow> 0),
     ae_collate = toLowerCase, ae_date_error = QueryFailed (Some 1048) None,
     ae_number = (\<lambda>v. case v of JNum n \<Rightarrow> n | JStr s \<Rightarrow> Finite (of_nat (nat_of_dec s)) | _ \<Rightarrow> NaN)\<rparr>"

definition demo_consumer :: "unit consumer_env" where
  "demo_consumer = \<lparr>ce_audit = demo_audit_env,
     ce_parse_date = (\<lambda>s. if list_all is_digit s then Date (int (nat_of_dec s)) else InvalidDate), ce_live = None\<rparr>"

definition demo_content :: "string \<Rightarrow> string \<Rightarrow> content" where
  "demo_content c t = \<lparr>ct_correlationId = c, ct_payerFsp = ''fsp1'', ct_payeeFsp = ''fsp2'', ct_occurredAt = Some t,
     ct_payerIdType = None, ct_payerId = None, ct_payerSubId = None, ct_payeeIdType = None, ct_payeeId = None,
     ct_payeeSubId = None, ct_initiatorType = None, ct_transactionType = None, ct_subScenario = None,
     ct_amountType = None, ct_payerHome = None, ct_quotingCurrency = None, ct_quotingAmount = None,
     ct_request = None, ct_response = None, ct_error = None, ct_home = None\<rparr>"

definition demo_delivery :: "msg_phase \<Rightarrow> msg_action \<Rightarrow> content \<Rightarrow> delivery" where
  "demo_delivery p a c = \<lparr>dl_message = \<lparr>ms_phase = Some p, ms_action = Some a, ms_gateway = Some Connector,
     ms_content = c\<rparr>, dl_redelivery = 1, dl_outcome = Runs, dl_now = 100\<rparr>"

definition demo_request :: delivery where
  "demo_request = demo_delivery PatchPhase RequestAction (demo_content ''t1'' ''20'')"

definition demo_failure :: delivery where
  "demo_failure = demo_delivery PatchPhase ErrorAction ((demo_content ''T1'' ''30'')\<lparr>ct_error := Some (JStr ''no'')\<rparr>)"

definition demo_state :: "unit consumer_state" where
  "demo_state = \<lparr>cs_db = empty_db, cs_live = ()\<rparr>"

section \<open>The table implements the history\<close>

text \<open>
  C6: whatever is delivered, in any order, any number of times and with any failures of the database, the table holds at
  most one row per correlation; there is one exactly when some message of this correlation was written, and every
  column of it is the aggregate of the written messages that the specification names: the start is the first
  start, the times of requests are first and those of answers are last times, errors stay, the flow is the furthest one
  reached, a dispute counts until a later resolution, and all other columns are the last value present.
\<close>

theorem audit_table_implements_history:
  assumes "cs_db s = empty_db"
  shows "let db = cs_db (snd (consume ce ds s)); r = findByCorrelationId (ce_audit ce) c db; h = history ce c ds in
     audit_db_ok (ce_audit ce) db \<and> (if merges h = [] then r = None else (\<exists>i. r = Some (spec_row i h)))"
proof -
  have "audit_db_ok (ce_audit ce) empty_db" by (simp add: audit_db_ok_def empty_db_def)
  then have "audit_db_ok (ce_audit ce) (cs_db (snd (consume ce ds s)))"
    by (simp add: consume_db assms audit_db_ok_fold)
  then show ?thesis using consume_history[OF assms, of ce c ds] by (simp add: Let_def row_of_history_def)
qed

lemma demo_history: "merges (history demo_consumer ''t1'' [demo_failure, demo_request]) \<noteq> []"
  by code_simp

theorem audit_table_implements_history_witness:
  "\<exists>i. findByCorrelationId demo_audit_env ''t1'' (cs_db (snd (consume demo_consumer [demo_failure, demo_request] demo_state)))
     = Some (spec_row i (history demo_consumer ''t1'' [demo_failure, demo_request]))"
  using audit_table_implements_history[of demo_state demo_consumer "[demo_failure, demo_request]" "''t1''"] demo_history
  by (simp add: demo_state_def Let_def) (simp add: demo_consumer_def)

section \<open>Order and repetition\<close>

text \<open>The columns that do not depend on the order of the messages.\<close>

definition phase_times :: "int phase_columns \<Rightarrow> int option list" where
  "phase_times p = [ph_requestedAt p, ph_respondedAt p, ph_outboundRequestedAt p, ph_outboundRespondedAt p,
     ph_inboundRequestedAt p, ph_inboundRespondedAt p, ph_connectorRequestedAt p, ph_connectorRespondedAt p]"

definition row_times :: "tx_row \<Rightarrow> int option list" where
  "row_times r = [Some (tx_startedAt r), Some (tx_createdAt r), pt_requestedAt (tx_patch r), pt_respondedAt (tx_patch r)] @
     phase_times (tx_parties r) @ phase_times (tx_quotes r) @ phase_times (tx_transfers r)"

lemma spec_order_free:
  assumes "set (merges h) = set (merges h')" "merges h \<noteq> []" "set (since_resolved h) = set (since_resolved h')"
  shows "row_times (spec_row i h) = row_times (spec_row j h')" "tx_error (spec_row i h) = tx_error (spec_row j h')"
    "tx_flow (spec_row i h) = tx_flow (spec_row j h')"
    "tx_possibleDispute (spec_row i h) = tx_possibleDispute (spec_row j h')"
  using assms
  by (simp_all add: time_cong[OF assms(1)] row_times_def phase_times_def spec_row_def spec_values_def spec_phase_def spec_patch_def Let_def
      tx_values.defs list_ex_iff)




text \<open>Merging the same values twice is merging them once.\<close>

lemma coalesce_idem [simp]: "coalesce (coalesce x y) y = coalesce x y" "coalesce x x = x"
  by (simp_all add: coalesce_def split: option.split)

lemma earliest_idem [simp]: "earliest (earliest x y) y = earliest x y" "earliest x x = x"
  by (simp_all add: earliest_def split: option.split)

lemma latest_idem [simp]: "latest (latest x y) y = latest x y" "latest x x = x"
  by (simp_all add: latest_def split: option.split)

lemma merge_group_idem [simp]:
  "merge_ids (merge_ids a b) b = merge_ids a b" "merge_ids b b = b"
  "merge_amounts (merge_amounts c d) d = merge_amounts c d" "merge_amounts d d = d"
  "merge_phase (merge_phase f g) g = merge_phase f g" "merge_phase g g = g"
  "merge_patch (merge_patch h k) k = merge_patch h k" "merge_patch k k = k"
  by (simp_all add: merge_ids_def merge_fsp_def merge_amounts_def merge_phase_def merge_patch_def)
    (simp add: coalesce_def split: option.split)

lemma merge_row_idem:
  "merge_row v n' (merge_row v n r) = merge_row v n' r" "merge_row v n' (new_row i v n) = new_row i v n'"
  by (simp_all add: merge_row_def new_row_def tx_values.defs)

lemma resolve_row_idem: "resolve_row t n' (resolve_row t n r) = resolve_row t n' r"
  by (simp add: resolve_row_def)

text \<open>The same event at another time of the clock.\<close>

fun same_event :: "(string \<times> row_event) option \<Rightarrow> (string \<times> row_event) option \<Rightarrow> bool" where
  "same_event (Some (k, Merged v n)) (Some (k', Merged v' n')) = (k = k' \<and> v = v')"
| "same_event (Some (k, ResolvedAt t n)) (Some (k', ResolvedAt t' n')) = (k = k' \<and> t = t')"
| "same_event x y = (x = None \<and> y = None)"

lemma find_apply_merged:
  "findByCorrelationId e c (apply_event e (Some (tx_correlationId v, Merged v n)) db) =
    (if ae_collate e c = ae_collate e (tx_correlationId v)
     then Some (case findByCorrelationId e c db of None \<Rightarrow> new_row (db_next_id db) v n | Some r \<Rightarrow> merge_row v n r)
     else findByCorrelationId e c db)"
  by (simp add: apply_event_def find_insert_or_merge)

lemma find_apply_resolved:
  "findByCorrelationId e c (apply_event e (Some (k, ResolvedAt t n)) db) =
    (if ae_collate e c = ae_collate e k then map_option (resolve_row t n) (findByCorrelationId e c db)
     else findByCorrelationId e c db)"
  by (simp add: apply_event_def find_change_row)

lemma apply_event_twice:
  assumes "same_event ev ev'" "\<And>k v n. ev = Some (k, Merged v n) \<Longrightarrow> k = tx_correlationId v"
  shows "findByCorrelationId e c (apply_event e ev' (apply_event e ev db)) = findByCorrelationId e c (apply_event e ev' db)"
proof (cases ev)
  case None
  then show ?thesis using assms(1) by (cases ev') (simp_all add: apply_event_def)
next
  case (Some x)
  obtain k w where ev: "ev = Some (k, w)" using Some by (cases x) auto
  show ?thesis
  proof (cases w)
    case (Merged v n)
    then obtain n' where ev': "ev' = Some (k, Merged v n')" using assms(1) ev by (auto elim: same_event.elims)
    have k: "k = tx_correlationId v" using assms(2) ev Merged by blast
    show ?thesis
      by (cases "findByCorrelationId e c db") (simp_all add: ev ev' Merged find_apply_merged k merge_row_idem)
  next
    case (ResolvedAt t n)
    then obtain n' where ev': "ev' = Some (k, ResolvedAt t n')" using assms(1) ev by (auto elim: same_event.elims)
    show ?thesis
      by (cases "findByCorrelationId e c db") (simp_all add: ev ev' ResolvedAt find_apply_resolved resolve_row_idem)
  qed
qed

lemma resolveOccurredAt_Some: "v = Some d \<Longrightarrow> resolveOccurredAt now v = d"
  by (simp add: resolveOccurredAt_def)

lemmas mapper_defs = toPartiesRequestInput_def toPartiesResponseInput_def toPartiesErrorInput_def
  toQuotesRequestInput_def toQuotesResponseInput_def toQuotesErrorInput_def toTransfersRequestInput_def
  toTransfersResponseInput_def toTransfersErrorInput_def toPatchRequestInput_def toPatchResponseInput_def
  toPatchErrorInput_def

lemma message_effect_now:
  assumes "ct_occurredAt (ms_content m) \<noteq> None"
  shows "message_effect ce now m = message_effect ce now' m"
proof -
  obtain t where t: "ct_occurredAt (ms_content m) = Some t" using assms by blast
  note defs = message_effect_def mapper_defs resolveOccurredAt_def base_input_def parties_base_def toOccurredAt_def
    t Let_def audit_input.defs parties_input.defs
  show ?thesis
  proof (cases "ms_phase m")
    case None
    then show ?thesis by (simp add: message_effect_def Let_def)
  next
    case p: (Some p)
    show ?thesis
    proof (cases "ms_action m")
      case None
      then show ?thesis using p by (cases p) (simp_all add: message_effect_def Let_def)
    next
      case (Some a)
      then show ?thesis using p by (cases p; cases a) (simp_all add: defs)
    qed
  qed
qed

text \<open>
  When the answer of the database to a message is lost and the message is delivered again, the rows are those of a
  single delivery at the later time.
\<close>

theorem redelivery_is_idempotent:
  assumes "ct_occurredAt (ms_content (dl_message d)) \<noteq> None" "dl_message d' = dl_message d"
    and "dl_outcome d = FailsAfter x" "dl_outcome d' = Runs"
  shows "findByCorrelationId (ce_audit ce) c (cs_db (snd (consume ce [d, d'] s))) =
    findByCorrelationId (ce_audit ce) c (cs_db (snd (consume ce [d'] s)))"
proof -
  have effects: "message_effect ce (dl_now d) (dl_message d) = message_effect ce (dl_now d') (dl_message d)"
    using assms(1) by (rule message_effect_now)
  have same: "same_event (map_option (\<lambda>v. (tx_correlationId v, Merged v n)) w)
      (map_option (\<lambda>v. (tx_correlationId v, Merged v n')) w)" for n n' and w :: "sql_values option"
    by (cases w) simp_all
  have "same_event (delivery_event ce d) (delivery_event ce d')"
    using assms(2-4) by (simp add: delivery_event_def effects same split: message_effect.split)
  moreover have "k = tx_correlationId v" if "delivery_event ce d = Some (k, Merged v n)" for k v n
    using events_of_keys[of k v n ce "[d]"] that by simp
  ultimately show ?thesis
    using apply_event_twice[of "delivery_event ce d" "delivery_event ce d'" "ce_audit ce" c "cs_db s"]
    by (simp add: split_beta consume_one_db)
qed

theorem redelivery_is_idempotent_witness:
  "findByCorrelationId (ce_audit demo_consumer) ''t1''
      (cs_db (snd (consume demo_consumer [demo_failure\<lparr>dl_outcome := FailsAfter TypeError\<rparr>, demo_failure] demo_state))) =
   findByCorrelationId (ce_audit demo_consumer) ''t1'' (cs_db (snd (consume demo_consumer [demo_failure] demo_state)))"
  by (rule redelivery_is_idempotent[of _ _ TypeError])
    (simp_all add: demo_failure_def demo_delivery_def demo_content_def)

section \<open>Settling a message\<close>

text \<open>
  A message that is sent back is delivered again by JetStream, with its count of deliveries increased.  Each delivery
  meets its own fate of the database and its own time; the result is \<open>None\<close> when the list ends first.
\<close>

fun redeliver :: "'l consumer_env \<Rightarrow> message \<Rightarrow> nat \<Rightarrow> (db_outcome \<times> int) list \<Rightarrow> 'l consumer_state
    \<Rightarrow> answer option \<times> 'l consumer_state" where
  "redeliver ce m n [] s = (None, s)"
| "redeliver ce m n ((oc, now) # rest) s =
     (case consume_one ce \<lparr>dl_message = m, dl_redelivery = n, dl_outcome = oc, dl_now = now\<rparr> s of
        (Nak, s1) \<Rightarrow> redeliver ce m (n + 1) rest s1
      | (a, s1) \<Rightarrow> (Some a, s1))"

lemma consume_one_nak: "fst (consume_one ce d s) = Nak \<Longrightarrow> dl_redelivery d < MAX_DELIVERY_ATTEMPTS"
  by (auto simp: consume_one_def Let_def handleProcessingFailure_def split: if_splits prod.splits sum.splits)

lemma redeliver_settles:
  "MAX_DELIVERY_ATTEMPTS - n < length tries \<Longrightarrow> \<exists>a. fst (redeliver ce m n tries s) = Some a \<and> a \<noteq> Nak"
proof (induction ce m n tries s rule: redeliver.induct)
  case (2 ce m n oc now rest s)
  let ?d = "\<lparr>dl_message = m, dl_redelivery = n, dl_outcome = oc, dl_now = now\<rparr>"
  obtain a s1 where one: "consume_one ce ?d s = (a, s1)" by (cases "consume_one ce ?d s")
  show ?case
  proof (cases a)
    case Nak
    then have "n < MAX_DELIVERY_ATTEMPTS" using consume_one_nak[of ce ?d s] one by simp
    then have "MAX_DELIVERY_ATTEMPTS - (n + 1) < length rest" using 2(2) by simp
    then show ?thesis using 2(1)[OF one[symmetric]] Nak by (simp add: one)
  qed (simp_all add: one)
qed simp

lemma demo_effect_writes:
  "\<exists>v inp. message_effect demo_consumer 100 (dl_message demo_failure) = Writes inp
     \<and> bind_values (ce_audit demo_consumer) inp = Some v"
proof -
  have "case message_effect demo_consumer 100 (dl_message demo_failure) of
      Writes inp \<Rightarrow> bind_date (tx_startedAt inp) = Some 30 \<and> bind_date (tx_createdAt inp) = Some 30 | _ \<Rightarrow> False"
    by code_simp
  then show ?thesis by (auto simp: bind_values_def split: message_effect.splits)
qed

text \<open>
  No message jams the consumer and none is dropped without need.  Five deliveries settle every message; a message
  that the mapper understands is stored and acknowledged when the database fails at most four times for a
  passing reason before it accepts the row.
\<close>

theorem message_settled:
  assumes "message_effect ce now m = Writes inp" "bind_values (ce_audit ce) inp = Some v"
    and "ct_occurredAt (ms_content m) \<noteq> None" "length failures < MAX_DELIVERY_ATTEMPTS"
    and "list_all (\<lambda>(x, t). \<not> isPermanentDbError x) failures"
  shows "(\<forall>oc. \<exists>a. fst (redeliver ce m 1 (replicate 5 oc) s) = Some a \<and> a \<noteq> Nak) \<and>
    (let r = redeliver ce m 1 (map (\<lambda>(x, t). (FailsBefore x, t)) failures @ (Runs, now) # rest) s in
     fst r = Some Ack \<and> findByCorrelationId (ce_audit ce) (tx_correlationId v) (cs_db (snd r)) \<noteq> None)"
proof -
  have p: "ms_phase m \<noteq> None"
    using assms(1) by (auto simp: message_effect_def Let_def split: option.splits)
  have eff: "message_effect ce t m = Writes inp" for t using message_effect_now[OF assms(3)] assms(1) by metis
  have key: "tx_correlationId v = tx_correlationId inp" by (rule bind_values_correlation[OF assms(2)])
  have "let r = redeliver ce m n (map (\<lambda>(x, t). (FailsBefore x, t)) failures @ (Runs, now) # rest) s in
     fst r = Some Ack \<and> findByCorrelationId (ce_audit ce) (tx_correlationId v) (cs_db (snd r)) \<noteq> None"
    if "n + length failures \<le> MAX_DELIVERY_ATTEMPTS" for n
    using that assms(5)
  proof (induction failures arbitrary: n)
    case Nil
    obtain w where "findByCorrelationId (ce_audit ce) (tx_correlationId v) (insert_or_merge (ce_audit ce) now v (cs_db s)) = Some w"
      by (simp add: find_insert_or_merge)
    then show ?case using p eff assms(2)
      by (simp add: consume_one_def Let_def dispatch_message_effect upsert_command_def upsert_def key)
  next
    case (Cons f failures)
    obtain x t where f: "f = (x, t)" by (cases f)
    have "consume_one ce \<lparr>dl_message = m, dl_redelivery = n, dl_outcome = FailsBefore x, dl_now = t\<rparr> s = (Nak, s)"
      using p eff Cons.prems f
      by (simp add: consume_one_def Let_def dispatch_message_effect upsert_command_def upsert_def
          handleProcessingFailure_def)
    then show ?case using Cons.IH[of "n + 1"] Cons.prems f by (simp add: Let_def)
  qed
  from this[of 1] redeliver_settles[of 1 "replicate 5 oc" ce m s for oc] assms(4)
  show ?thesis by (simp add: MAX_DELIVERY_ATTEMPTS_def)
qed

theorem message_settled_witness:
  "fst (redeliver demo_consumer (dl_message demo_failure) 1
     [(FailsBefore (Thrown ''connection lost''), 90), (Runs, 100)] demo_state) = Some Ack"
proof -
  obtain v inp where w: "message_effect demo_consumer 100 (dl_message demo_failure) = Writes inp"
    "bind_values (ce_audit demo_consumer) inp = Some v" using demo_effect_writes by blast
  have "ct_occurredAt (ms_content (dl_message demo_failure)) \<noteq> None"
    by (simp add: demo_failure_def demo_delivery_def demo_content_def)
  from message_settled[OF w this, of "[(Thrown ''connection lost'', 90)]" demo_state "[]"] show ?thesis
    by (simp add: MAX_DELIVERY_ATTEMPTS_def isPermanentDbError_def Let_def)
qed

text \<open>A completion time is the last one delivered: the columns outside \<open>row_times\<close> do depend on the order.\<close>

lemma completed_at_depends_on_order:
  "tx_completedAt (spec_values [v\<lparr>tx_completedAt := Some 1\<rparr>, v\<lparr>tx_completedAt := Some 2\<rparr>]) \<noteq>
   tx_completedAt (spec_values [v\<lparr>tx_completedAt := Some 2\<rparr>, v\<lparr>tx_completedAt := Some 1\<rparr>])"
  by (simp add: spec_values_def last_present_def)

end
