(* ===== verification/Ordered_Rows.thy ===== *)
theory Ordered_Rows
  imports Prelude
begin

text \<open>
  Sorting rows and cutting pages out of the result.  \<open>order_rows\<close> is a stable sort by a comparison, which models both
  \<open>ORDER BY\<close> and \<open>Array.prototype.sort\<close>.  The locale \<open>row_order\<close> states what the paging code needs of the
  comparison on the rows at hand: that it is a strict total order.
\<close>

fun insert_row :: "('a \<Rightarrow> 'a \<Rightarrow> bool) \<Rightarrow> 'a \<Rightarrow> 'a list \<Rightarrow> 'a list" where
  "insert_row lt x [] = [x]"
| "insert_row lt x (y # ys) = (if lt y x then y # insert_row lt x ys else x # y # ys)"

definition order_rows :: "('a \<Rightarrow> 'a \<Rightarrow> bool) \<Rightarrow> 'a list \<Rightarrow> 'a list" where
  "order_rows lt xs = foldr (insert_row lt) xs []"

text \<open>The elements of the first list, then those of the second one that are not among them.\<close>

definition union_rows :: "('a \<Rightarrow> 'k) \<Rightarrow> 'a list \<Rightarrow> 'a list \<Rightarrow> 'a list" where
  "union_rows k xs ys = xs @ filter (\<lambda>y. k y \<notin> k ` set xs) ys"

lemma set_insert_row [simp]: "set (insert_row lt x ys) = insert x (set ys)"
  by (induction ys) auto

lemma distinct_insert_row: "distinct (insert_row lt x ys) \<longleftrightarrow> x \<notin> set ys \<and> distinct ys"
  by (induction ys) auto

lemma order_rows_simps [simp]: "order_rows lt [] = []" "order_rows lt (x # xs) = insert_row lt x (order_rows lt xs)"
  by (simp_all add: order_rows_def)

lemma set_order_rows [simp]: "set (order_rows lt xs) = set xs"
  by (induction xs) simp_all

lemma distinct_order_rows [simp]: "distinct (order_rows lt xs) \<longleftrightarrow> distinct xs"
  by (induction xs) (simp_all add: distinct_insert_row)

lemma length_insert_row [simp]: "length (insert_row lt x ys) = Suc (length ys)"
  by (induction ys) simp_all

lemma length_order_rows [simp]: "length (order_rows lt xs) = length xs"
  by (induction xs) simp_all

lemma take_filter_mem:
  assumes "i < n" "i < length xs" "P (xs ! i)"
  shows "xs ! i \<in> set (take n (filter P xs))"
proof -
  have "xs ! i \<in> set (take (Suc i) xs)" using assms(2) by (simp add: take_Suc_conv_app_nth)
  then have "xs ! i \<in> set (filter P (take (Suc i) xs))" using assms(3) by simp
  moreover have "length (filter P (take (Suc i) xs)) \<le> n"
    using length_filter_le[of P "take (Suc i) xs"] assms(1,2) by simp
  moreover have "filter P xs = filter P (take (Suc i) xs) @ filter P (drop (Suc i) xs)"
    by (simp flip: filter_append)
  ultimately show ?thesis by simp
qed

lemma take_filter_all: "(\<And>x. x \<in> set (take n xs) \<Longrightarrow> P x) \<Longrightarrow> take n (filter P xs) = take n xs"
proof (induction xs arbitrary: n)
  case (Cons x xs)
  then show ?case by (cases n) auto
qed simp

locale row_order =
  fixes lt :: "'a \<Rightarrow> 'a \<Rightarrow> bool" and A :: "'a set"
  assumes irrefl: "a \<in> A \<Longrightarrow> \<not> lt a a"
    and trans: "a \<in> A \<Longrightarrow> b \<in> A \<Longrightarrow> c \<in> A \<Longrightarrow> lt a b \<Longrightarrow> lt b c \<Longrightarrow> lt a c"
    and total: "a \<in> A \<Longrightarrow> b \<in> A \<Longrightarrow> a \<noteq> b \<Longrightarrow> lt a b \<or> lt b a"
begin

lemma asym: "a \<in> A \<Longrightarrow> b \<in> A \<Longrightarrow> lt a b \<Longrightarrow> \<not> lt b a"
  using irrefl trans by blast

lemma sorted_insert_row:
  assumes "set (x # ys) \<subseteq> A" "x \<notin> set ys" "sorted_wrt lt ys"
  shows "sorted_wrt lt (insert_row lt x ys)"
  using assms
proof (induction ys)
  case (Cons y ys)
  show ?case
  proof (cases "lt y x")
    case True
    then show ?thesis using Cons by auto
  next
    case False
    then have "lt x y" using Cons.prems total[of x y] by auto
    moreover have "lt x z" if "z \<in> set ys" for z
      using that Cons.prems \<open>lt x y\<close> trans[of x y z] by auto
    ultimately show ?thesis using False Cons.prems by auto
  qed
qed simp

lemma sorted_order_rows: "set xs \<subseteq> A \<Longrightarrow> distinct xs \<Longrightarrow> sorted_wrt lt (order_rows lt xs)"
  by (induction xs) (simp_all add: sorted_insert_row)

text \<open>An ordered list is determined by its elements.\<close>

lemma sorted_unique:
  assumes "sorted_wrt lt xs" "sorted_wrt lt ys" "set xs = set ys" "set xs \<subseteq> A"
  shows "xs = ys"
  using assms
proof (induction xs arbitrary: ys)
  case (Cons x xs)
  then obtain y zs where ys: "ys = y # zs" by (cases ys) auto
  have "x = y"
  proof (rule ccontr)
    assume "x \<noteq> y"
    then have "y \<in> set xs" "x \<in> set zs" using Cons.prems ys by auto
    then have "lt x y" "lt y x" using Cons.prems ys by auto
    moreover have "x \<in> A" "y \<in> A" using Cons.prems ys by auto
    ultimately show False using asym by blast
  qed
  moreover have "x \<in> A" "y \<in> A" "\<forall>z\<in>set xs. lt x z" "\<forall>z\<in>set zs. lt y z" using Cons.prems ys by auto
  then have "x \<notin> set xs" "y \<notin> set zs" using irrefl by blast+
  ultimately have "set xs = set zs" using Cons.prems(3) ys by auto
  then show ?case using Cons ys \<open>x = y\<close> by auto
qed simp

lemma order_rows_eqI:
  "sorted_wrt lt ys \<Longrightarrow> set ys = set xs \<Longrightarrow> set xs \<subseteq> A \<Longrightarrow> distinct xs \<Longrightarrow> order_rows lt xs = ys"
  by (rule sorted_unique) (simp_all add: sorted_order_rows)

lemma order_filter:
  assumes "set xs \<subseteq> A" "distinct xs"
  shows "order_rows lt (filter P xs) = filter P (order_rows lt xs)"
  using assms by (intro order_rows_eqI sorted_wrt_filter sorted_order_rows) auto

text \<open>The rows beyond a row of an ordered list.\<close>

lemma filter_after:
  assumes "sorted_wrt lt xs" "set xs \<subseteq> A" "i < length xs"
  shows "filter (lt (xs ! i)) xs = drop (Suc i) xs"
  using assms
proof (induction xs arbitrary: i)
  case (Cons x xs)
  show ?case
  proof (cases i)
    case 0
    then show ?thesis using Cons.prems irrefl[of x] by auto
  next
    case (Suc j)
    then have j: "j < length xs" using Cons.prems by simp
    then have "xs ! j \<in> set xs" by simp
    then have "lt x (xs ! j)" "x \<in> A" "xs ! j \<in> A" using Cons.prems by auto
    then have "\<not> lt (xs ! j) x" using asym by blast
    then show ?thesis using Cons.IH[of j] Cons.prems j Suc by simp
  qed
qed simp

lemma filter_before:
  assumes "sorted_wrt lt xs" "set xs \<subseteq> A" "i < length xs"
  shows "filter (\<lambda>r. lt r (xs ! i)) xs = take i xs"
  using assms
proof (induction xs arbitrary: i)
  case (Cons x xs)
  have x: "x \<in> A" "\<forall>y\<in>set xs. lt x y" "set xs \<subseteq> A" using Cons.prems by auto
  show ?case
  proof (cases i)
    case 0
    have "\<not> lt y x" if "y \<in> set xs" for y using x that asym by blast
    then show ?thesis using 0 irrefl[OF x(1)] by (simp add: filter_empty_conv)
  next
    case (Suc j)
    then have j: "j < length xs" using Cons.prems by simp
    then have "lt x (xs ! j)" using x(2) by simp
    then show ?thesis using Cons.IH[of j] Cons.prems j Suc by simp
  qed
qed simp

text \<open>Two legs of a query, each cut after \<open>n\<close> rows, merged and cut again, are the first \<open>n\<close> rows of the union.\<close>

lemma merge_legs:
  assumes "set xs \<subseteq> A" "distinct xs" "inj_on k A"
  shows "take n (order_rows lt (union_rows k (take n (order_rows lt (filter P xs))) (take n (order_rows lt (filter Q xs)))))
    = take n (order_rows lt (filter (\<lambda>x. P x \<or> Q x) xs))"
proof -
  let ?L = "order_rows lt (filter (\<lambda>x. P x \<or> Q x) xs)"
  let ?p = "take n (order_rows lt (filter P xs))" and ?q = "take n (order_rows lt (filter Q xs))"
  let ?u = "union_rows k ?p ?q"
  have legs: "order_rows lt (filter P xs) = filter P ?L" "order_rows lt (filter Q xs) = filter Q ?L"
    using order_filter[OF assms(1,2)] by (simp_all add: filter_filter conj_disj_distribR)
      (metis (mono_tags, lifting) filter_cong)+
  have sub: "set ?p \<subseteq> A" "set ?q \<subseteq> A" using assms(1) by (auto dest!: in_set_takeD)
  have "k y \<in> k ` set ?p \<longleftrightarrow> y \<in> set ?p" if "y \<in> set ?q" for y
    using inj_on_image_mem_iff[OF assms(3), of y "set ?p"] sub that by blast
  then have u: "set ?u = set ?p \<union> set ?q" by (auto simp: union_rows_def)
  have du: "distinct ?u" using assms(2) by (auto simp: union_rows_def)
  have sL: "sorted_wrt lt ?L" "set ?L \<subseteq> A" using assms(1,2) by (auto intro!: sorted_order_rows)
  have "set ?u \<subseteq> set ?L" unfolding u by (auto dest!: in_set_takeD)
  then have "order_rows lt ?u = filter (\<lambda>x. x \<in> set ?u) ?L"
    using sL du by (intro order_rows_eqI sorted_wrt_filter) auto
  moreover have "x \<in> set ?u" if mem: "x \<in> set (take n ?L)" for x
  proof -
    obtain i where i: "i < n" "i < length ?L" "x = ?L ! i"
      using mem unfolding in_set_conv_nth[of x "take n ?L"] length_take by auto
    then have "?L ! i \<in> set ?L" by (intro nth_mem)
    then have "P x \<or> Q x" using i(3) by auto
    then have "x \<in> set ?p \<union> set ?q"
      using take_filter_mem[OF i(1,2), of P] take_filter_mem[OF i(1,2), of Q] i(3) unfolding legs by auto
    then show ?thesis by (simp only: u)
  qed
  ultimately show ?thesis by (simp add: take_filter_all)
qed

end

lemma row_order_rev: "row_order lt A \<Longrightarrow> row_order (\<lambda>a b. lt b a) A"
  unfolding row_order_def by blast

lemma order_rows_rev:
  assumes "row_order lt A" "set xs \<subseteq> A" "distinct xs"
  shows "order_rows (\<lambda>a b. lt b a) xs = rev (order_rows lt xs)"
proof (rule row_order.order_rows_eqI[OF row_order_rev[OF assms(1)]])
  have "sorted_wrt lt (order_rows lt xs)" by (rule row_order.sorted_order_rows[OF assms])
  then show "sorted_wrt (\<lambda>a b. lt b a) (rev (order_rows lt xs))" by (simp add: sorted_wrt_rev)
qed (use assms in simp_all)

end
