(* ===== verification/Audit_Paging.thy ===== *)
theory Audit_Paging
  imports Audit_Rows Ordered_Rows "HOL-Library.Product_Lexorder" "HOL-Library.List_Lexorder"
begin

text \<open>
  The searches of \<open>transaction.repository.ts\<close> and their query handlers: keyset pagination over the sort column and
  the identifier, the two legs of a caller that may only see its own FSP, the capped count and the pages of a report.
  A query is modelled by its meaning: \<open>WHERE\<close> keeps the rows whose condition is true, \<open>ORDER BY\<close> sorts, \<open>LIMIT\<close> cuts.
  A page holds the rows themselves, of which the code copies the listed columns.
\<close>

section \<open>Queries\<close>

datatype order_column = CorrelationId | TransactionStartAt | TransactionCompletedAt
datatype direction = Asc | Desc
datatype position = First | Next | Prev | Last

record order = od_column :: order_column
  od_direction :: direction

record cursor =
  cu_position :: position
  cu_token :: "string option"
  cu_size :: js_number

text \<open>A criterion is \<open>undefined\<close> (\<open>None\<close>); a sub-identifier may also be asked to be NULL (\<open>Some None\<close>).\<close>

record criteria =
  cr_payerFsp :: "string option"
  cr_payeeFsp :: "string option"
  cr_payerIdType :: "string option"
  cr_payerId :: "string option"
  cr_payerSubId :: "string option option"
  cr_payeeIdType :: "string option"
  cr_payeeId :: "string option"
  cr_payeeSubId :: "string option option"
  cr_transferId :: "string option"
  cr_payerHome :: "string option"
  cr_payeeHome :: "string option"
  cr_flow :: "int option"
  cr_transferType :: "string option"
  cr_subScenario :: "string option"
  cr_startInclusive :: "int option"
  cr_endExclusive :: "int option"
  cr_error :: "bool option"
  cr_dispute :: "bool option"

record page_info =
  pi_hasNext :: bool
  pi_hasPrev :: bool
  pi_start :: "string option"
  pi_end :: "string option"

record page =
  pg_records :: "tx_row list"
  pg_info :: page_info

record report_page =
  rp_records :: "tx_row list"
  rp_nextCursor :: "string option"

datatype query_error = InvalidCursor | NotFound string

text \<open>
  The parameters: the weights by which the collation of the database compares texts, \<open>toISOString\<close> and its inverse
  \<open>new Date\<close>, the base64 text of a cursor payload and its inverse (\<open>None\<close> when decoding or parsing throws),
  \<open>String(value)\<close>, and the cell an invalid date is bound to.
\<close>

datatype cell = CNull | CTime int | CText string

record paging_env =
  pe_weight :: "string \<Rightarrow> nat list"
  pe_iso :: "int \<Rightarrow> string"
  pe_parse :: "string \<Rightarrow> js_date"
  pe_encode :: "string option \<Rightarrow> string \<Rightarrow> string"
  pe_decode :: "string \<Rightarrow> json option"
  pe_string :: "json \<Rightarrow> string"
  pe_invalid :: cell

section \<open>Conditions\<close>

definition text_eq :: "paging_env \<Rightarrow> string \<Rightarrow> string \<Rightarrow> bool" where
  "text_eq e c v \<longleftrightarrow> pe_weight e c = pe_weight e v"

definition column_eq :: "paging_env \<Rightarrow> string option \<Rightarrow> string \<Rightarrow> bool" where
  "column_eq e c v = (case c of None \<Rightarrow> False | Some s \<Rightarrow> text_eq e s v)"

definition asked :: "'a option \<Rightarrow> ('a \<Rightarrow> bool) \<Rightarrow> bool" where
  "asked v P = (case v of None \<Rightarrow> True | Some x \<Rightarrow> P x)"

definition sub_id_matches :: "paging_env \<Rightarrow> string option \<Rightarrow> string option \<Rightarrow> bool" where
  "sub_id_matches e c v = (case v of None \<Rightarrow> c = None | Some s \<Rightarrow> column_eq e c s)"

definition applyDateRange :: "int option \<Rightarrow> int option \<Rightarrow> int \<Rightarrow> bool" where
  "applyDateRange start end t \<longleftrightarrow> asked start (\<lambda>s. t \<ge> s) \<and> asked end (\<lambda>s. t < s)"

definition applyCriteria :: "paging_env \<Rightarrow> criteria \<Rightarrow> tx_row \<Rightarrow> bool" where
  "applyCriteria e c r \<longleftrightarrow>
     asked (cr_payerFsp c) (text_eq e (id_fsp (tx_payer r))) \<and>
     asked (cr_payeeFsp c) (text_eq e (id_fsp (tx_payee r))) \<and>
     asked (cr_payerIdType c) (column_eq e (id_type (tx_payer r))) \<and>
     asked (cr_payerId c) (column_eq e (id_value (tx_payer r))) \<and>
     asked (cr_payerSubId c) (sub_id_matches e (id_sub (tx_payer r))) \<and>
     asked (cr_payeeIdType c) (column_eq e (id_type (tx_payee r))) \<and>
     asked (cr_payeeId c) (column_eq e (id_value (tx_payee r))) \<and>
     asked (cr_payeeSubId c) (sub_id_matches e (id_sub (tx_payee r))) \<and>
     asked (cr_transferId c) (text_eq e (tx_correlationId r)) \<and>
     asked (cr_payerHome c) (column_eq e (tx_payerHome r)) \<and>
     asked (cr_payeeHome c) (column_eq e (tx_payeeHome r)) \<and>
     asked (cr_flow c) (\<lambda>f. map_option int (tx_flow r) = Some f) \<and>
     asked (cr_transferType c) (column_eq e (tx_type r)) \<and>
     asked (cr_subScenario c) (column_eq e (tx_subScenario r)) \<and>
     applyDateRange (cr_startInclusive c) (cr_endExclusive c) (tx_startedAt r) \<and>
     asked (cr_error c) (\<lambda>b. tx_error r = b) \<and>
     asked (cr_dispute c) (\<lambda>b. tx_possibleDispute r = b)"

section \<open>Order\<close>

datatype sort_kind = DateTimeKind | StringKind

record sort_meta =
  sm_cell :: "tx_row \<Rightarrow> cell"
  sm_kind :: sort_kind
  sm_nullable :: bool

definition time_cell :: "int option \<Rightarrow> cell" where
  "time_cell t = (case t of None \<Rightarrow> CNull | Some x \<Rightarrow> CTime x)"

definition sortMeta :: "order_column \<Rightarrow> sort_meta" where
  "sortMeta c = (case c of
     CorrelationId \<Rightarrow> \<lparr>sm_cell = (\<lambda>r. CText (tx_correlationId r)), sm_kind = StringKind, sm_nullable = False\<rparr>
   | TransactionCompletedAt \<Rightarrow>
       \<lparr>sm_cell = (\<lambda>r. time_cell (tx_completedAt r)), sm_kind = DateTimeKind, sm_nullable = True\<rparr>
   | TransactionStartAt \<Rightarrow> \<lparr>sm_cell = (\<lambda>r. CTime (tx_startedAt r)), sm_kind = DateTimeKind, sm_nullable = False\<rparr>)"

text \<open>How the database compares the cells of one column: NULL first, texts by their weights.\<close>

definition cell_key :: "paging_env \<Rightarrow> cell \<Rightarrow> nat \<times> nat list \<times> int" where
  "cell_key e c = (case c of CNull \<Rightarrow> (0, [], 0) | CTime t \<Rightarrow> (1, [], t) | CText s \<Rightarrow> (1, pe_weight e s, 0))"

definition row_rank :: "paging_env \<Rightarrow> sort_meta \<Rightarrow> tx_row \<Rightarrow> (nat \<times> nat list \<times> int) \<times> int" where
  "row_rank e m r = (cell_key e (sm_cell m r), tx_id r)"

definition sql_before :: "paging_env \<Rightarrow> sort_meta \<Rightarrow> direction \<Rightarrow> tx_row \<Rightarrow> tx_row \<Rightarrow> bool" where
  "sql_before e m d a b = (case d of Asc \<Rightarrow> row_rank e m a < row_rank e m b | Desc \<Rightarrow> row_rank e m b < row_rank e m a)"

definition sql_less :: "paging_env \<Rightarrow> cell \<Rightarrow> cell \<Rightarrow> bool" where
  "sql_less e a b \<longleftrightarrow> a \<noteq> CNull \<and> b \<noteq> CNull \<and> cell_key e a < cell_key e b"

definition sql_equal :: "paging_env \<Rightarrow> cell \<Rightarrow> cell \<Rightarrow> bool" where
  "sql_equal e a b \<longleftrightarrow> a \<noteq> CNull \<and> b \<noteq> CNull \<and> cell_key e a = cell_key e b"

section \<open>Cursors\<close>

record decoded_cursor =
  dc_v :: "string option"
  dc_id :: string

definition id_text :: "int \<Rightarrow> string" where "id_text i = dec_of_nat (nat i)"

definition id_of_text :: "string \<Rightarrow> int" where "id_of_text s = int (nat_of_dec s)"

definition encodeCursor :: "paging_env \<Rightarrow> tx_row \<Rightarrow> sort_meta \<Rightarrow> string" where
  "encodeCursor e r m = pe_encode e
     (case sm_cell m r of CNull \<Rightarrow> None | CTime t \<Rightarrow> Some (pe_iso e t) | CText s \<Rightarrow> Some s) (id_text (tx_id r))"

definition decodeCursor :: "paging_env \<Rightarrow> string \<Rightarrow> (query_error, decoded_cursor) result" where
  "decodeCursor e token =
     (case present (pe_decode e token) of
        None \<Rightarrow> Inl InvalidCursor
      | Some parsed \<Rightarrow>
          (case field (Some parsed) ''id'' of
             None \<Rightarrow> Inl InvalidCursor
           | Some i \<Rightarrow> Inr \<lparr>dc_v = map_option (pe_string e) (field (Some parsed) ''v''), dc_id = pe_string e i\<rparr>))"

definition cursor_cell :: "paging_env \<Rightarrow> sort_meta \<Rightarrow> string \<Rightarrow> cell" where
  "cursor_cell e m v = (case sm_kind m of
     StringKind \<Rightarrow> CText v
   | DateTimeKind \<Rightarrow> (case pe_parse e v of Date t \<Rightarrow> CTime t | InvalidDate \<Rightarrow> pe_invalid e))"

definition keysetWhere :: "paging_env \<Rightarrow> sort_meta \<Rightarrow> direction \<Rightarrow> decoded_cursor \<Rightarrow> tx_row \<Rightarrow> bool" where
  "keysetWhere e m d cur r =
     (let col = sm_cell m r; i = tx_id r; cid = id_of_text (dc_id cur) in
      case d of
        Desc \<Rightarrow>
          (case dc_v cur of
             None \<Rightarrow> col = CNull \<and> i < cid
           | Some v \<Rightarrow>
               (let cv = cursor_cell e m v;
                    core = sql_less e col cv \<or> (sql_equal e col cv \<and> i < cid)
                in if sm_nullable m then core \<or> col = CNull else core))
      | Asc \<Rightarrow>
          (case dc_v cur of
             None \<Rightarrow> col \<noteq> CNull \<or> (col = CNull \<and> i > cid)
           | Some v \<Rightarrow>
               (let cv = cursor_cell e m v in sql_less e cv col \<or> (sql_equal e col cv \<and> i > cid))))"

section \<open>Legs\<close>

datatype leg = PayerLeg string | PayeeLeg string

definition leg_matches :: "paging_env \<Rightarrow> leg option \<Rightarrow> tx_row \<Rightarrow> bool" where
  "leg_matches e l r = (case l of
     None \<Rightarrow> True
   | Some (PayerLeg f) \<Rightarrow> text_eq e (id_fsp (tx_payer r)) f
   | Some (PayeeLeg f) \<Rightarrow> text_eq e (id_fsp (tx_payee r)) f)"

definition fetchLeg :: "paging_env \<Rightarrow> audit_db \<Rightarrow> criteria \<Rightarrow> sort_meta \<Rightarrow> direction \<Rightarrow> decoded_cursor option
    \<Rightarrow> nat \<Rightarrow> leg option \<Rightarrow> tx_row list" where
  "fetchLeg e db c m d decoded fetchLimit l =
     take fetchLimit (order_rows (sql_before e m d)
       (filter (\<lambda>r. applyCriteria e c r \<and> leg_matches e l r \<and> asked decoded (\<lambda>cur. keysetWhere e m d cur r))
         (db_rows db)))"

text \<open>The comparison of \<open>mergeLegs\<close>, by the values JavaScript sees.\<close>

definition order_int :: "'a::linorder \<Rightarrow> 'a \<Rightarrow> int" where
  "order_int a b = (if a < b then -1 else if a > b then 1 else 0)"

definition compareValues :: "cell \<Rightarrow> cell \<Rightarrow> direction \<Rightarrow> int" where
  "compareValues left right d =
     (case (left, right) of
        (CNull, CNull) \<Rightarrow> 0
      | (CNull, _) \<Rightarrow> (if d = Desc then 1 else -1)
      | (_, CNull) \<Rightarrow> (if d = Desc then -1 else 1)
      | (CTime s, CTime t) \<Rightarrow> (if d = Desc then - order_int s t else order_int s t)
      | (CText s, CText t) \<Rightarrow>
          (let c = order_int (map code_unit s) (map code_unit t) in if d = Desc then - c else c)
      | _ \<Rightarrow> 0)"

definition compareId :: "int \<Rightarrow> int \<Rightarrow> direction \<Rightarrow> int" where
  "compareId left right d = (if d = Desc then - order_int left right else order_int left right)"

definition compareForMerge :: "tx_row \<Rightarrow> tx_row \<Rightarrow> sort_meta \<Rightarrow> direction \<Rightarrow> int" where
  "compareForMerge left right m d =
     (let c = compareValues (sm_cell m left) (sm_cell m right) d
      in if c \<noteq> 0 then c else compareId (tx_id left) (tx_id right) d)"

definition mergeLegs :: "tx_row list \<Rightarrow> tx_row list \<Rightarrow> sort_meta \<Rightarrow> direction \<Rightarrow> nat \<Rightarrow> tx_row list" where
  "mergeLegs payerLeg payeeLeg m d limit =
     take limit (order_rows (\<lambda>a b. compareForMerge a b m d < 0) (union_rows tx_id payerLeg payeeLeg))"

definition fetch_rows :: "paging_env \<Rightarrow> audit_db \<Rightarrow> criteria \<Rightarrow> sort_meta \<Rightarrow> direction \<Rightarrow> decoded_cursor option
    \<Rightarrow> nat \<Rightarrow> string option \<Rightarrow> tx_row list" where
  "fetch_rows e db c m d decoded fetchLimit scope =
     (case scope of
        Some f \<Rightarrow> mergeLegs (fetchLeg e db c m d decoded fetchLimit (Some (PayerLeg f)))
                           (fetchLeg e db c m d decoded fetchLimit (Some (PayeeLeg f))) m d fetchLimit
      | None \<Rightarrow> fetchLeg e db c m d decoded fetchLimit None)"

section \<open>The list query\<close>

definition DEFAULT_SIZE :: nat where "DEFAULT_SIZE = 20"
definition MAX_SIZE :: nat where "MAX_SIZE = 200"

definition clampSize :: "js_number \<Rightarrow> nat" where
  "clampSize n = (case n of
     Finite q \<Rightarrow> if q \<le> 0 then DEFAULT_SIZE else min (nat \<lfloor>q\<rfloor>) MAX_SIZE
   | _ \<Rightarrow> DEFAULT_SIZE)"

definition buildPageInfo :: "paging_env \<Rightarrow> position \<Rightarrow> bool \<Rightarrow> tx_row list \<Rightarrow> sort_meta \<Rightarrow> page_info" where
  "buildPageInfo e pos hasMore page m =
     (let (next, prev) = (case pos of
        Next \<Rightarrow> (hasMore, True) | Prev \<Rightarrow> (True, hasMore) | Last \<Rightarrow> (False, hasMore) | First \<Rightarrow> (hasMore, False))
      in \<lparr>pi_hasNext = next, pi_hasPrev = prev,
          pi_start = (if page = [] then None else Some (encodeCursor e (hd page) m)),
          pi_end = (if page = [] then None else Some (encodeCursor e (last page) m))\<rparr>)"

definition is_reverse :: "position \<Rightarrow> bool" where "is_reverse p \<longleftrightarrow> p = Prev \<or> p = Last"

definition flip :: "direction \<Rightarrow> direction" where "flip d = (case d of Asc \<Rightarrow> Desc | Desc \<Rightarrow> Asc)"

definition decode_token :: "paging_env \<Rightarrow> cursor \<Rightarrow> (query_error, decoded_cursor option) result" where
  "decode_token e cu =
     (if cu_position cu = Next \<or> cu_position cu = Prev
      then (case cu_token cu of None \<Rightarrow> Inr None | Some t \<Rightarrow> map_sum id Some (decodeCursor e t))
      else Inr None)"

definition find_transactions :: "paging_env \<Rightarrow> audit_db \<Rightarrow> criteria \<Rightarrow> cursor \<Rightarrow> order \<Rightarrow> string option
    \<Rightarrow> (query_error, page) result" where
  "find_transactions e db c cu od scope =
     (let m = sortMeta (od_column od); size = clampSize (cu_size cu); pos = cu_position cu;
          d = (if is_reverse pos then flip (od_direction od) else od_direction od)
      in res_bind (decode_token e cu) (\<lambda>decoded.
         let rows = fetch_rows e db c m d decoded (size + 1) scope;
             hasMore = length rows > size;
             cut = (if hasMore then take size rows else rows);
             page = (if is_reverse pos then rev cut else cut)
         in Inr \<lparr>pg_records = page, pg_info = buildPageInfo e pos hasMore page m\<rparr>))"

section \<open>Count, report and detail\<close>

record count_result =
  ct_count :: nat
  ct_capped :: bool

definition count_probe :: "paging_env \<Rightarrow> audit_db \<Rightarrow> criteria \<Rightarrow> nat \<Rightarrow> leg option \<Rightarrow> int list" where
  "count_probe e db c probeLimit l =
     take probeLimit (map tx_id (filter (\<lambda>r. applyCriteria e c r \<and> leg_matches e l r) (db_rows db)))"

definition count_transactions :: "paging_env \<Rightarrow> audit_db \<Rightarrow> criteria \<Rightarrow> nat \<Rightarrow> string option \<Rightarrow> count_result" where
  "count_transactions e db c maxLimit scope =
     (let matched = (case scope of
        Some f \<Rightarrow> card (set (count_probe e db c (maxLimit + 1) (Some (PayerLeg f))) \<union>
                       set (count_probe e db c (maxLimit + 1) (Some (PayeeLeg f))))
      | None \<Rightarrow> length (count_probe e db c (maxLimit + 1) None))
      in \<lparr>ct_count = min matched maxLimit, ct_capped = (matched > maxLimit)\<rparr>)"

definition findForReport :: "paging_env \<Rightarrow> audit_db \<Rightarrow> criteria \<Rightarrow> order \<Rightarrow> string option \<Rightarrow> int \<Rightarrow> string option
    \<Rightarrow> (query_error, report_page) result" where
  "findForReport e db c od token limit scope =
     (let m = sortMeta (od_column od); d = od_direction od; fetchLimit = nat (max 1 limit) + 1
      in res_bind (case token of None \<Rightarrow> Inr None | Some t \<Rightarrow> map_sum id Some (decodeCursor e t)) (\<lambda>decoded.
         let rows = fetch_rows e db c m d decoded fetchLimit scope;
             hasMore = length rows \<ge> fetchLimit;
             page = (if hasMore then take (fetchLimit - 1) rows else rows)
         in Inr \<lparr>rp_records = page,
              rp_nextCursor = (if hasMore \<and> page \<noteq> [] then Some (encodeCursor e (last page) m) else None)\<rparr>))"

definition get_transaction :: "audit_env \<Rightarrow> audit_db \<Rightarrow> string \<Rightarrow> string option \<Rightarrow> (query_error, tx_row) result" where
  "get_transaction ae db transferId scope =
     (case findByCorrelationId ae transferId db of
        None \<Rightarrow> Inl (NotFound transferId)
      | Some r \<Rightarrow>
          (case scope of
             Some f \<Rightarrow> if id_fsp (tx_payer r) \<noteq> f \<and> id_fsp (tx_payee r) \<noteq> f then Inl (NotFound transferId) else Inr r
           | None \<Rightarrow> Inr r))"

section \<open>Order of the rows of a table\<close>

text \<open>The rows of a table whose identifiers are unique, as every reachable table's are.\<close>

definition keyed_rows :: "audit_db \<Rightarrow> tx_row set" where
  "keyed_rows db = (if distinct (map tx_id (db_rows db)) then set (db_rows db) else {})"

lemma keyed_rows_inj: "inj_on tx_id (keyed_rows db)"
  by (simp add: keyed_rows_def distinct_map)

interpretation db_order: row_order "sql_before e m d" "keyed_rows db" for e m d db
proof
  fix a b
  assume "a \<in> keyed_rows db" "b \<in> keyed_rows db" "a \<noteq> b"
  then have "tx_id a \<noteq> tx_id b" using keyed_rows_inj[of db] by (auto dest: inj_onD)
  then have "row_rank e m a \<noteq> row_rank e m b" by (simp add: row_rank_def)
  then show "sql_before e m d a b \<or> sql_before e m d b a" by (cases d) (auto simp: sql_before_def)
qed (auto simp: sql_before_def split: direction.splits)

lemma order_int_less: "order_int a b < 0 \<longleftrightarrow> a < b" "order_int a b = 0 \<longleftrightarrow> a = b" "0 < order_int a b \<longleftrightarrow> b < a"
  by (auto simp: order_int_def)

text \<open>
  The database and \<open>mergeLegs\<close> order the rows alike where the weights of the collation order the correlations as
  JavaScript does; the order by time does not depend on it.
\<close>

definition weights_agree :: "paging_env \<Rightarrow> audit_db \<Rightarrow> bool" where
  "weights_agree e db \<longleftrightarrow> list_all (\<lambda>a. list_all (\<lambda>b.
     (pe_weight e (tx_correlationId a) < pe_weight e (tx_correlationId b)) =
       (map code_unit (tx_correlationId a) < map code_unit (tx_correlationId b)))
     (db_rows db)) (db_rows db)"

lemma merge_order:
  assumes "a \<in> set (db_rows db)" "b \<in> set (db_rows db)" "c = CorrelationId \<Longrightarrow> weights_agree e db"
  shows "compareForMerge a b (sortMeta c) d < 0 \<longleftrightarrow> sql_before e (sortMeta c) d a b"
proof (cases c)
  case CorrelationId
  let ?s = "tx_correlationId a" and ?t = "tx_correlationId b"
  have w: "pe_weight e ?s < pe_weight e ?t \<longleftrightarrow> map code_unit ?s < map code_unit ?t"
    "pe_weight e ?t < pe_weight e ?s \<longleftrightarrow> map code_unit ?t < map code_unit ?s"
    using assms(3)[OF CorrelationId] assms(1,2) by (auto simp: weights_agree_def list_all_iff)
  then have "pe_weight e ?s = pe_weight e ?t \<longleftrightarrow> map code_unit ?s = map code_unit ?t"
    by (metis less_irrefl linorder_less_linear)
  with w show ?thesis using CorrelationId
    by (cases d) (auto simp: compareForMerge_def compareValues_def compareId_def sortMeta_def sql_before_def row_rank_def
        cell_key_def Let_def order_int_def less_prod_def)
next
  case TransactionStartAt
  then show ?thesis
    by (cases d) (auto simp: compareForMerge_def compareValues_def compareId_def sortMeta_def sql_before_def row_rank_def
        cell_key_def Let_def order_int_def less_prod_def)
next
  case TransactionCompletedAt
  then show ?thesis
    by (cases d; cases "tx_completedAt a"; cases "tx_completedAt b")
      (auto simp: compareForMerge_def compareValues_def compareId_def sortMeta_def sql_before_def row_rank_def
        time_cell_def cell_key_def Let_def order_int_def less_prod_def)
qed

lemma insert_row_cong:
  "(\<And>y. y \<in> set ys \<Longrightarrow> lt y x = lt' y x) \<Longrightarrow> insert_row lt x ys = insert_row lt' x ys"
  by (induction ys) auto

lemma order_rows_cong:
  "(\<And>a b. a \<in> set xs \<Longrightarrow> b \<in> set xs \<Longrightarrow> lt a b = lt' a b) \<Longrightarrow> order_rows lt xs = order_rows lt' xs"
proof (induction xs)
  case (Cons x xs)
  have "order_rows lt xs = order_rows lt' xs" by (rule Cons.IH) (use Cons.prems in auto)
  moreover have "insert_row lt x ys = insert_row lt' x ys" if "set ys = set xs" for ys
    by (rule insert_row_cong) (use Cons.prems that in auto)
  ultimately show ?case by simp
qed simp

section \<open>What a query sees\<close>

definition visible :: "paging_env \<Rightarrow> string option \<Rightarrow> tx_row \<Rightarrow> bool" where
  "visible e scope r = asked scope (\<lambda>f. text_eq e (id_fsp (tx_payer r)) f \<or> text_eq e (id_fsp (tx_payee r)) f)"

lemma fetch_rows_eq:
  assumes "distinct (map tx_id (db_rows db))" "oc = CorrelationId \<and> scope \<noteq> None \<Longrightarrow> weights_agree e db"
  shows "fetch_rows e db c (sortMeta oc) d cur n scope =
    take n (order_rows (sql_before e (sortMeta oc) d)
      (filter (\<lambda>r. applyCriteria e c r \<and> visible e scope r \<and> asked cur (\<lambda>k. keysetWhere e (sortMeta oc) d k r))
        (db_rows db)))"
proof (cases scope)
  case None
  then show ?thesis by (simp add: fetch_rows_def fetchLeg_def leg_matches_def visible_def asked_def)
next
  case (Some f)
  let ?m = "sortMeta oc"
  let ?lt = "sql_before e ?m d"
  let ?base = "\<lambda>r. applyCriteria e c r \<and> asked cur (\<lambda>k. keysetWhere e ?m d k r)"
  let ?rs = "filter ?base (db_rows db)"
  let ?P = "\<lambda>r. text_eq e (id_fsp (tx_payer r)) f" and ?Q = "\<lambda>r. text_eq e (id_fsp (tx_payee r)) f"
  let ?p = "take n (order_rows ?lt (filter ?P ?rs))" and ?q = "take n (order_rows ?lt (filter ?Q ?rs))"
  have rs: "set ?rs \<subseteq> keyed_rows db" "distinct ?rs"
    using assms(1) by (auto simp: keyed_rows_def distinct_map)
  have legs: "fetchLeg e db c ?m d cur n (Some (PayerLeg f)) = ?p" "fetchLeg e db c ?m d cur n (Some (PayeeLeg f)) = ?q"
    by (auto simp: fetchLeg_def leg_matches_def filter_filter
        intro!: arg_cong[where f = "\<lambda>x. take n (order_rows ?lt x)"] filter_cong)
  have mem: "x \<in> set (db_rows db)" if "x \<in> set (union_rows tx_id ?p ?q)" for x
    using that by (auto simp: union_rows_def dest!: in_set_takeD)
  have agree: "compareForMerge a b ?m d < 0 \<longleftrightarrow> ?lt a b"
    if "a \<in> set (union_rows tx_id ?p ?q)" "b \<in> set (union_rows tx_id ?p ?q)" for a b
    using mem[OF that(1)] mem[OF that(2)] assms(2) Some by (intro merge_order) auto
  have "mergeLegs ?p ?q ?m d n = take n (order_rows ?lt (union_rows tx_id ?p ?q))"
    unfolding mergeLegs_def using agree by (intro arg_cong[where f = "take n"] order_rows_cong) blast
  also have "\<dots> = take n (order_rows ?lt (filter (\<lambda>r. ?P r \<or> ?Q r) ?rs))"
    by (rule db_order.merge_legs[OF rs keyed_rows_inj])
  also have "filter (\<lambda>r. ?P r \<or> ?Q r) ?rs = filter (\<lambda>r. applyCriteria e c r \<and> visible e scope r \<and>
      asked cur (\<lambda>k. keysetWhere e ?m d k r)) (db_rows db)"
    by (auto simp: Some visible_def asked_def filter_filter intro!: filter_cong)
  finally show ?thesis by (simp add: fetch_rows_def Some legs)
qed

section \<open>Cursors point at rows\<close>

text \<open>What the paging code needs of the language: a cursor is read back as it was written.\<close>

locale cursor_codec =
  fixes e :: paging_env
  assumes date_text: "pe_parse e (pe_iso e t) = Date t"
    and payload: "pe_decode e (pe_encode e v i) =
      Some (JObj [(''v'', case v of None \<Rightarrow> JNull | Some s \<Rightarrow> JStr s), (''id'', JStr i)])"
    and text_value: "pe_string e (JStr s) = s"
begin

lemma decode_encode:
  "decodeCursor e (encodeCursor e r m) = Inr \<lparr>
     dc_v = (case sm_cell m r of CNull \<Rightarrow> None | CTime t \<Rightarrow> Some (pe_iso e t) | CText s \<Rightarrow> Some s),
     dc_id = id_text (tx_id r)\<rparr>"
  by (simp add: decodeCursor_def encodeCursor_def payload text_value split: cell.split option.split)

lemma id_of_id_text: "i \<ge> 0 \<Longrightarrow> id_of_text (id_text i) = i"
  by (simp add: id_of_text_def id_text_def)

text \<open>The condition of a cursor holds of the rows strictly beyond the row of the cursor.\<close>

lemma keyset_beyond:
  assumes "decodeCursor e (encodeCursor e q (sortMeta oc)) = Inr cur" "tx_id q \<ge> 0"
  shows "keysetWhere e (sortMeta oc) d cur r \<longleftrightarrow> sql_before e (sortMeta oc) d q r"
proof (cases oc)
  case CorrelationId
  then have cur: "cur = \<lparr>dc_v = Some (tx_correlationId q), dc_id = id_text (tx_id q)\<rparr>"
    using assms(1) decode_encode[of q "sortMeta oc"] by (simp add: sortMeta_def)
  show ?thesis
    by (cases d) (auto simp: CorrelationId cur keysetWhere_def Let_def sortMeta_def cursor_cell_def sql_less_def
        sql_equal_def sql_before_def row_rank_def cell_key_def id_of_id_text[OF assms(2)] less_prod_def)
next
  case TransactionStartAt
  then have cur: "cur = \<lparr>dc_v = Some (pe_iso e (tx_startedAt q)), dc_id = id_text (tx_id q)\<rparr>"
    using assms(1) decode_encode[of q "sortMeta oc"] by (simp add: sortMeta_def)
  show ?thesis
    by (cases d) (auto simp: TransactionStartAt cur keysetWhere_def Let_def sortMeta_def cursor_cell_def sql_less_def
        sql_equal_def sql_before_def row_rank_def cell_key_def id_of_id_text[OF assms(2)] date_text less_prod_def)
next
  case TransactionCompletedAt
  show ?thesis
  proof (cases "tx_completedAt q")
    case None
    then have cur: "cur = \<lparr>dc_v = None, dc_id = id_text (tx_id q)\<rparr>"
      using assms(1) decode_encode[of q "sortMeta oc"] TransactionCompletedAt by (simp add: sortMeta_def time_cell_def)
    show ?thesis
      by (cases d; cases "tx_completedAt r") (auto simp: TransactionCompletedAt None cur keysetWhere_def Let_def
          sortMeta_def sql_before_def row_rank_def cell_key_def id_of_id_text[OF assms(2)] time_cell_def less_prod_def)
  next
    case (Some t)
    then have cur: "cur = \<lparr>dc_v = Some (pe_iso e t), dc_id = id_text (tx_id q)\<rparr>"
      using assms(1) decode_encode[of q "sortMeta oc"] TransactionCompletedAt by (simp add: sortMeta_def time_cell_def)
    show ?thesis
      by (cases d; cases "tx_completedAt r") (auto simp: TransactionCompletedAt Some cur keysetWhere_def Let_def
          sortMeta_def cursor_cell_def sql_less_def sql_equal_def sql_before_def row_rank_def cell_key_def
          id_of_id_text[OF assms(2)] time_cell_def date_text less_prod_def)
  qed
qed

end

text \<open>The listing that a client pages through.\<close>

definition listing :: "paging_env \<Rightarrow> audit_db \<Rightarrow> criteria \<Rightarrow> order \<Rightarrow> string option \<Rightarrow> tx_row list" where
  "listing e db c od scope = order_rows (sql_before e (sortMeta (od_column od)) (od_direction od))
     (filter (\<lambda>r. applyCriteria e c r \<and> visible e scope r) (db_rows db))"

lemma sql_before_flip: "sql_before e m (flip d) = (\<lambda>a b. sql_before e m d b a)"
  by (rule ext, rule ext) (cases d; simp add: sql_before_def flip_def)

lemma flip_flip [simp]: "flip (flip d) = d"
  by (cases d) (simp_all add: flip_def)

text \<open>The table and the parameters under which paging is exact.\<close>

definition paging_ok :: "paging_env \<Rightarrow> audit_db \<Rightarrow> order \<Rightarrow> string option \<Rightarrow> bool" where
  "paging_ok e db od scope \<longleftrightarrow> distinct (map tx_id (db_rows db)) \<and> list_all (\<lambda>r. tx_id r \<ge> 0) (db_rows db) \<and>
     (od_column od = CorrelationId \<and> scope \<noteq> None \<longrightarrow> weights_agree e db)"

context cursor_codec begin

lemma listing_sorted:
  assumes "paging_ok e db od scope"
  shows "sorted_wrt (sql_before e (sortMeta (od_column od)) (od_direction od)) (listing e db c od scope)"
    "set (listing e db c od scope) \<subseteq> keyed_rows db" "distinct (listing e db c od scope)"
proof -
  have d: "distinct (map tx_id (db_rows db))" using assms by (simp add: paging_ok_def)
  then show "set (listing e db c od scope) \<subseteq> keyed_rows db" "distinct (listing e db c od scope)"
    by (auto simp: listing_def keyed_rows_def distinct_map)
  show "sorted_wrt (sql_before e (sortMeta (od_column od)) (od_direction od)) (listing e db c od scope)"
    unfolding listing_def using d
    by (intro db_order.sorted_order_rows[where db = db]) (auto simp: keyed_rows_def distinct_map)
qed

text \<open>The rows fetched beyond the \<open>i\<close>-th row of the listing, in either direction.\<close>

lemma fetch_after:
  assumes ok: "paging_ok e db od scope" and i: "i < length (listing e db c od scope)"
    and cur: "decodeCursor e (encodeCursor e (listing e db c od scope ! i) (sortMeta (od_column od))) = Inr cur"
  shows "fetch_rows e db c (sortMeta (od_column od)) (od_direction od) (Some cur) n scope =
      take n (drop (Suc i) (listing e db c od scope))"
    "fetch_rows e db c (sortMeta (od_column od)) (flip (od_direction od)) (Some cur) n scope =
      take n (rev (take i (listing e db c od scope)))"
proof -
  let ?L = "listing e db c od scope" and ?m = "sortMeta (od_column od)" and ?d = "od_direction od"
  let ?P = "\<lambda>r. applyCriteria e c r \<and> visible e scope r" and ?lt = "sql_before e ?m ?d"
  let ?q = "?L ! i"
  have q: "?q \<in> set ?L" using i by (rule nth_mem)
  then have "tx_id ?q \<ge> 0" using ok by (auto simp: paging_ok_def list_all_iff listing_def)
  note beyond = keyset_beyond[OF cur this]
  have d: "distinct (map tx_id (db_rows db))" using ok by (simp add: paging_ok_def)
  then have rows: "set (filter ?P (db_rows db)) \<subseteq> keyed_rows db" "distinct (filter ?P (db_rows db))"
    by (auto simp: keyed_rows_def distinct_map)
  have eq: "fetch_rows e db c ?m d' cur n scope = take n (order_rows (sql_before e ?m d')
      (filter (\<lambda>r. applyCriteria e c r \<and> visible e scope r \<and> asked cur (\<lambda>k. keysetWhere e ?m d' k r)) (db_rows db)))"
    for d' cur by (rule fetch_rows_eq[OF d]) (use ok in \<open>simp add: paging_ok_def\<close>)
  have split_filter: "filter (\<lambda>r. applyCriteria e c r \<and> visible e scope r \<and> Q r) (db_rows db) =
      filter Q (filter ?P (db_rows db))" for Q
    by (auto simp: filter_filter intro: filter_cong)
  show "fetch_rows e db c ?m ?d (Some cur) n scope = take n (drop (Suc i) ?L)"
    unfolding eq asked_def option.case beyond split_filter db_order.order_filter[OF rows]
    using db_order.filter_after[OF listing_sorted(1,2)[OF ok] i] by (simp add: listing_def)
  have "order_rows (sql_before e ?m (flip ?d)) (filter (sql_before e ?m (flip ?d) ?q) (filter ?P (db_rows db))) =
      filter (\<lambda>r. ?lt r ?q) (rev ?L)"
    unfolding db_order.order_filter[OF rows] unfolding sql_before_flip
    by (simp add: listing_def order_rows_rev[OF db_order.row_order_axioms rows])
  also have "\<dots> = rev (take i ?L)"
    using db_order.filter_before[OF listing_sorted(1,2)[OF ok] i] by (simp flip: rev_filter)
  finally show "fetch_rows e db c ?m (flip ?d) (Some cur) n scope = take n (rev (take i ?L))"
    unfolding eq asked_def option.case beyond split_filter by simp
qed

lemma fetch_all:
  assumes ok: "paging_ok e db od scope"
  shows "fetch_rows e db c (sortMeta (od_column od)) (od_direction od) None n scope = take n (listing e db c od scope)"
    "fetch_rows e db c (sortMeta (od_column od)) (flip (od_direction od)) None n scope =
      take n (rev (listing e db c od scope))"
proof -
  let ?m = "sortMeta (od_column od)"
  have d: "distinct (map tx_id (db_rows db))" using ok by (simp add: paging_ok_def)
  have eq: "fetch_rows e db c ?m d' cur n scope = take n (order_rows (sql_before e ?m d')
      (filter (\<lambda>r. applyCriteria e c r \<and> visible e scope r \<and> asked cur (\<lambda>k. keysetWhere e ?m d' k r)) (db_rows db)))"
    for d' cur by (rule fetch_rows_eq[OF d]) (use ok in \<open>simp add: paging_ok_def\<close>)
  have rows: "set (filter (\<lambda>r. applyCriteria e c r \<and> visible e scope r) (db_rows db)) \<subseteq> keyed_rows db"
    "distinct (filter (\<lambda>r. applyCriteria e c r \<and> visible e scope r) (db_rows db))"
    using d by (auto simp: keyed_rows_def distinct_map)
  show "fetch_rows e db c (sortMeta (od_column od)) (od_direction od) None n scope = take n (listing e db c od scope)"
    unfolding eq by (simp add: asked_def listing_def)
  show "fetch_rows e db c (sortMeta (od_column od)) (flip (od_direction od)) None n scope =
      take n (rev (listing e db c od scope))"
    unfolding eq sql_before_flip
    by (simp add: asked_def listing_def order_rows_rev[OF db_order.row_order_axioms rows])
qed

end

end
