(* ===== verification/Audit_Search.thy ===== *)
theory Audit_Search
  imports Audit_Paging Auth_Data
begin

text \<open>
  The list, count and detail requests of the portal (\<open>transactions.controller.ts\<close> with \<open>query-params.util.ts\<close>) on
  top of the searches of \<^theory_text>\<open>Audit_Paging\<close>: reading the parameters of the URL, the window and the scope of a
  request, and what a client that follows the cursors sees.
\<close>

section \<open>Parameters of a request\<close>

datatype search_error = BadParameter string | AUTH_FSP_SCOPE_VIOLATION | Refused query_error

text \<open>What the language does: \<open>Number(text)\<close>; dates are read by \<open>pe_parse\<close>.\<close>

record search_env =
  se_paging :: paging_env
  se_audit :: audit_env
  se_number :: "string \<Rightarrow> js_number"
  se_maxLimit :: nat

definition toOptionalString :: "string option \<Rightarrow> string option" where
  "toOptionalString v = (case map_option trim v of None \<Rightarrow> None | Some t \<Rightarrow> if t = [] then None else Some t)"

definition toOptionalNullableString :: "string option \<Rightarrow> string option option" where
  "toOptionalNullableString v = (case toOptionalString v of
     None \<Rightarrow> None
   | Some t \<Rightarrow> Some (if toLowerCase t = ''null'' then None else Some t))"

definition toOptionalDate :: "search_env \<Rightarrow> string option \<Rightarrow> string \<Rightarrow> (search_error, int option) result" where
  "toOptionalDate e v name = (case toOptionalString v of
     None \<Rightarrow> Inr None
   | Some t \<Rightarrow>
       (case pe_parse (se_paging e) t of
          InvalidDate \<Rightarrow> Inl (BadParameter (name @ '' must be a valid ISO datetime.''))
        | Date d \<Rightarrow> Inr (Some d)))"

definition TRUE_VALUES :: "string list" where "TRUE_VALUES = [''true'', ''1'', ''yes'']"
definition FALSE_VALUES :: "string list" where "FALSE_VALUES = [''false'', ''0'', ''no'']"

definition toOptionalBoolean :: "string option \<Rightarrow> string \<Rightarrow> (search_error, bool option) result" where
  "toOptionalBoolean v name = (case toOptionalString v of
     None \<Rightarrow> Inr None
   | Some t \<Rightarrow>
       (let lowered = toLowerCase t in
        if lowered \<in> set TRUE_VALUES then Inr (Some True)
        else if lowered \<in> set FALSE_VALUES then Inr (Some False)
        else Inl (BadParameter (name @ '' must be true/false.''))))"

text \<open>An enumeration is the list of its texts, each with the value it stands for.\<close>

definition toOptionalEnum :: "string option \<Rightarrow> (string \<times> 'a) list \<Rightarrow> string \<Rightarrow> (search_error, 'a option) result" where
  "toOptionalEnum v enum name = (case toOptionalString v of
     None \<Rightarrow> Inr None
   | Some t \<Rightarrow>
       (case map_of enum t of
          Some x \<Rightarrow> Inr (Some x)
        | None \<Rightarrow> Inl (BadParameter (name @ '' must be one of: '' @ join_with '', '' (map fst enum) @ ''.''))))"

definition toEnum :: "string option \<Rightarrow> (string \<times> 'a) list \<Rightarrow> 'a \<Rightarrow> string \<Rightarrow> (search_error, 'a) result" where
  "toEnum v enum fallback name = map_sum id (\<lambda>p. case p of None \<Rightarrow> fallback | Some x \<Rightarrow> x) (toOptionalEnum v enum name)"

definition integer_of :: "js_number \<Rightarrow> int option" where
  "integer_of n = (case n of Finite q \<Rightarrow> if of_int \<lfloor>q\<rfloor> = q then Some \<lfloor>q\<rfloor> else None | _ \<Rightarrow> None)"

definition toPositiveInteger :: "search_env \<Rightarrow> string option \<Rightarrow> int \<Rightarrow> string \<Rightarrow> (search_error, int) result" where
  "toPositiveInteger e v fallback name = (case toOptionalString v of
     None \<Rightarrow> Inr fallback
   | Some t \<Rightarrow>
       (case integer_of (se_number e t) of
          Some i \<Rightarrow> if i \<le> 0 then Inl (BadParameter (name @ '' must be a positive integer.'')) else Inr i
        | None \<Rightarrow> Inl (BadParameter (name @ '' must be a positive integer.''))))"

definition toOptionalInteger :: "search_env \<Rightarrow> string option \<Rightarrow> string \<Rightarrow> (search_error, int option) result" where
  "toOptionalInteger e v name = (case toOptionalString v of
     None \<Rightarrow> Inr None
   | Some t \<Rightarrow>
       (case integer_of (se_number e t) of
          Some i \<Rightarrow> Inr (Some i)
        | None \<Rightarrow> Inl (BadParameter (name @ '' must be an integer.''))))"

definition toDateRange :: "search_env \<Rightarrow> string option \<Rightarrow> string option \<Rightarrow> string \<Rightarrow> string
    \<Rightarrow> (search_error, (int option \<times> int option) option) result" where
  "toDateRange e startValue endValue startName endName =
     res_bind (toOptionalDate e startValue startName) (\<lambda>start.
     res_bind (toOptionalDate e endValue endName) (\<lambda>end.
       Inr (if start = None \<and> end = None then None else Some (start, end))))"

definition PartyIdTypes :: "(string \<times> string) list" where
  "PartyIdTypes = map (\<lambda>s. (s, s)) [''MSISDN'', ''EMAIL'', ''PERSONAL_ID'', ''BUSINESS'', ''DEVICE'', ''ACCOUNT_ID'', ''IBAN'', ''ALIAS'']"

definition TransactionScenarios :: "(string \<times> string) list" where
  "TransactionScenarios = map (\<lambda>s. (s, s)) [''DEPOSIT'', ''WITHDRAWAL'', ''TRANSFER'', ''PAYMENT'', ''REFUND'']"

definition Columns :: "(string \<times> order_column) list" where
  "Columns = [(''correlationId'', CorrelationId), (''transactionStartAt'', TransactionStartAt),
     (''transactionCompletedAt'', TransactionCompletedAt)]"

definition Directions :: "(string \<times> direction) list" where
  "Directions = [(''ASC'', Asc), (''DESC'', Desc)]"

section \<open>The controller\<close>

record criteria_params =
  qp_payerFsp :: "string option"
  qp_payeeFsp :: "string option"
  qp_payerIdType :: "string option"
  qp_payerId :: "string option"
  qp_payerSubId :: "string option"
  qp_payeeIdType :: "string option"
  qp_payeeId :: "string option"
  qp_payeeSubId :: "string option"
  qp_transferId :: "string option"
  qp_payerHome :: "string option"
  qp_payeeHome :: "string option"
  qp_flow :: "string option"
  qp_transferType :: "string option"
  qp_subScenario :: "string option"
  qp_start :: "string option"
  qp_end :: "string option"
  qp_error :: "string option"
  qp_dispute :: "string option"

record list_params =
  lp_cursor :: "string option"
  lp_direction :: "string option"
  lp_size :: "string option"
  lp_orderColumn :: "string option"
  lp_orderDirection :: "string option"

definition DEFAULT_WINDOW_MS :: int where "DEFAULT_WINDOW_MS = 24 * 60 * 60 * 1000"

definition resolveStartWindow :: "search_env \<Rightarrow> int \<Rightarrow> string option \<Rightarrow> string option \<Rightarrow> string option
    \<Rightarrow> (search_error, (int option \<times> int option) option) result" where
  "resolveStartWindow e now startValue endValue pointLookupId =
     res_bind (toDateRange e startValue endValue ''transactionStartAtStart'' ''transactionStartAtEnd'') (\<lambda>explicit.
       Inr (if explicit \<noteq> None then explicit
            else if pointLookupId \<noteq> None then None
            else Some (Some (now - DEFAULT_WINDOW_MS), None)))"

definition buildCriteria :: "search_env \<Rightarrow> int \<Rightarrow> criteria_params \<Rightarrow> (search_error, criteria) result" where
  "buildCriteria e now p =
     (let transferId = toOptionalString (qp_transferId p); payerHome = toOptionalString (qp_payerHome p);
          payeeHome = toOptionalString (qp_payeeHome p)
      in res_bind (resolveStartWindow e now (qp_start p) (qp_end p) (or_else transferId (or_else payerHome payeeHome))) (\<lambda>window.
         res_bind (toOptionalEnum (qp_payerIdType p) PartyIdTypes ''payerIdType'') (\<lambda>payerIdType.
         res_bind (toOptionalEnum (qp_payeeIdType p) PartyIdTypes ''payeeIdType'') (\<lambda>payeeIdType.
         res_bind (toOptionalInteger e (qp_flow p) ''flow'') (\<lambda>flow.
         res_bind (toOptionalEnum (qp_transferType p) TransactionScenarios ''transferType'') (\<lambda>transferType.
         res_bind (toOptionalBoolean (qp_error p) ''error'') (\<lambda>err.
         res_bind (toOptionalBoolean (qp_dispute p) ''dispute'') (\<lambda>disputed.
           Inr \<lparr>cr_payerFsp = toOptionalString (qp_payerFsp p),
                cr_payeeFsp = toOptionalString (qp_payeeFsp p),
                cr_payerIdType = payerIdType,
                cr_payerId = toOptionalString (qp_payerId p),
                cr_payerSubId = toOptionalNullableString (qp_payerSubId p),
                cr_payeeIdType = payeeIdType,
                cr_payeeId = toOptionalString (qp_payeeId p),
                cr_payeeSubId = toOptionalNullableString (qp_payeeSubId p),
                cr_transferId = transferId,
                cr_payerHome = payerHome,
                cr_payeeHome = payeeHome,
                cr_flow = flow,
                cr_transferType = transferType,
                cr_subScenario = toOptionalString (qp_subScenario p),
                cr_startInclusive = (case window of None \<Rightarrow> None | Some w \<Rightarrow> fst w),
                cr_endExclusive = (case window of None \<Rightarrow> None | Some w \<Rightarrow> snd w),
                cr_error = err,
                cr_dispute = disputed\<rparr>))))))))"

definition toCursorPosition :: "string option \<Rightarrow> string option \<Rightarrow> position" where
  "toCursorPosition direction token =
     (let d = toLowerCase (trim (case direction of None \<Rightarrow> '''' | Some s \<Rightarrow> s)) in
      if d = ''next'' then Next
      else if d = ''prev'' \<or> d = ''previous'' then Prev
      else if d = ''last'' then Last
      else if d = ''first'' then First
      else if token \<noteq> None then Next else First)"

definition resolveCursor :: "search_env \<Rightarrow> list_params \<Rightarrow> (search_error, cursor) result" where
  "resolveCursor e p =
     res_bind (toPositiveInteger e (lp_size p) 20 ''size'') (\<lambda>size.
       let token = toOptionalString (lp_cursor p);
           asked_position = toCursorPosition (lp_direction p) token;
           pos = (if (asked_position = Next \<or> asked_position = Prev) \<and> token = None then First else asked_position);
           effectiveToken = (if pos = Next \<or> pos = Prev then token else None)
       in Inr \<lparr>cu_position = pos, cu_token = effectiveToken, cu_size = Finite (of_int size)\<rparr>)"

definition resolveListAccessScope :: "access_claims option \<Rightarrow> string option \<Rightarrow> string option
    \<Rightarrow> (search_error, string option) result" where
  "resolveListAccessScope claims payerFsp payeeFsp =
     (case claims of
        None \<Rightarrow> Inr None
      | Some c \<Rightarrow>
          (case c_fspId c of
             None \<Rightarrow> Inr None
           | Some scoped \<Rightarrow>
               (let payer = toOptionalString payerFsp; payee = toOptionalString payeeFsp in
                if payer \<noteq> None \<and> payee \<noteq> None \<and> payer \<noteq> Some scoped \<and> payee \<noteq> Some scoped
                then Inl AUTH_FSP_SCOPE_VIOLATION else Inr (Some scoped))))"

definition resolveDetailAccessScope :: "access_claims option \<Rightarrow> string option" where
  "resolveDetailAccessScope claims = Option.bind claims c_fspId"

definition findTransactions :: "search_env \<Rightarrow> audit_db \<Rightarrow> int \<Rightarrow> access_claims option \<Rightarrow> criteria_params
    \<Rightarrow> list_params \<Rightarrow> (search_error, page) result" where
  "findTransactions e db now claims p lp =
     res_bind (resolveListAccessScope claims (qp_payerFsp p) (qp_payeeFsp p)) (\<lambda>scope.
     res_bind (buildCriteria e now p) (\<lambda>c.
     res_bind (resolveCursor e lp) (\<lambda>cu.
     res_bind (toEnum (lp_orderColumn lp) Columns TransactionStartAt ''orderColumn'') (\<lambda>column.
     res_bind (toEnum (lp_orderDirection lp) Directions Desc ''orderDirection'') (\<lambda>dir.
       map_sum Refused id
         (find_transactions (se_paging e) db c cu \<lparr>od_column = column, od_direction = dir\<rparr> scope))))))"

definition countTransactions :: "search_env \<Rightarrow> audit_db \<Rightarrow> int \<Rightarrow> access_claims option \<Rightarrow> criteria_params
    \<Rightarrow> (search_error, count_result) result" where
  "countTransactions e db now claims p =
     res_bind (resolveListAccessScope claims (qp_payerFsp p) (qp_payeeFsp p)) (\<lambda>scope.
     res_bind (buildCriteria e now p) (\<lambda>c.
       Inr (count_transactions (se_paging e) db c (se_maxLimit e) scope)))"

definition getTransaction :: "search_env \<Rightarrow> audit_db \<Rightarrow> access_claims option \<Rightarrow> string \<Rightarrow> (search_error, tx_row) result" where
  "getTransaction e db claims transferId =
     map_sum Refused id (get_transaction (se_audit e) db transferId (resolveDetailAccessScope claims))"

section \<open>Pages\<close>

text \<open>A page holds these rows and announces a next and a previous page or not.\<close>

definition page_is :: "(query_error, page) result \<Rightarrow> tx_row list \<Rightarrow> bool \<Rightarrow> bool \<Rightarrow> bool" where
  "page_is r rows next prev = (case r of
     Inl _ \<Rightarrow> False
   | Inr p \<Rightarrow> pg_records p = rows \<and> pi_hasNext (pg_info p) = next \<and> pi_hasPrev (pg_info p) = prev)"

lemma cut_rows:
  assumes "rows = take (Suc n) X"
  shows "n < length rows \<longleftrightarrow> n < length X" "(if n < length X then take n rows else rows) = take n X"
  using assms by (auto simp: min_def)

lemma find_page:
  assumes "decode_token e cu = Inr decoded"
    and "fetch_rows e db c (sortMeta (od_column od))
      (if is_reverse (cu_position cu) then flip (od_direction od) else od_direction od) decoded
      (Suc (clampSize (cu_size cu))) scope = take (Suc (clampSize (cu_size cu))) X"
  shows "page_is (find_transactions e db c cu od scope)
    (if is_reverse (cu_position cu) then rev (take (clampSize (cu_size cu)) X) else take (clampSize (cu_size cu)) X)
    (case cu_position cu of Next \<Rightarrow> clampSize (cu_size cu) < length X | Prev \<Rightarrow> True | Last \<Rightarrow> False
       | First \<Rightarrow> clampSize (cu_size cu) < length X)
    (case cu_position cu of Next \<Rightarrow> True | Prev \<Rightarrow> clampSize (cu_size cu) < length X
       | Last \<Rightarrow> clampSize (cu_size cu) < length X | First \<Rightarrow> False)"
proof -
  define rows where "rows = fetch_rows e db c (sortMeta (od_column od))
    (if is_reverse (cu_position cu) then flip (od_direction od) else od_direction od) decoded
    (Suc (clampSize (cu_size cu))) scope"
  note cut = cut_rows[OF assms(2)[folded rows_def]]
  have "find_transactions e db c cu od scope = Inr \<lparr>
      pg_records = (if is_reverse (cu_position cu) then rev (take (clampSize (cu_size cu)) X) else take (clampSize (cu_size cu)) X),
      pg_info = buildPageInfo e (cu_position cu) (clampSize (cu_size cu) < length X)
        (if is_reverse (cu_position cu) then rev (take (clampSize (cu_size cu)) X) else take (clampSize (cu_size cu)) X)
        (sortMeta (od_column od))\<rparr>"
    unfolding find_transactions_def Let_def assms(1) res_bind_simps Suc_eq_plus1[symmetric] rows_def[symmetric] cut ..
  then show ?thesis by (cases "cu_position cu") (simp_all add: page_is_def buildPageInfo_def)
qed

lemma rev_take_rev: "rev (take n (rev xs)) = drop (length xs - n) xs"
  by (simp add: take_rev)

context cursor_codec begin

lemma decode_row:
  obtains cur where "decodeCursor e (encodeCursor e r m) = Inr cur"
  using decode_encode by blast

lemma edge_pages:
  assumes "paging_ok e db od scope"
  shows "page_is (find_transactions e db c \<lparr>cu_position = First, cu_token = t, cu_size = n\<rparr> od scope)
      (take (clampSize n) (listing e db c od scope)) (clampSize n < length (listing e db c od scope)) False"
    and "page_is (find_transactions e db c \<lparr>cu_position = Last, cu_token = t, cu_size = n\<rparr> od scope)
      (drop (length (listing e db c od scope) - clampSize n) (listing e db c od scope)) False
      (clampSize n < length (listing e db c od scope))"
  using find_page[of e "\<lparr>cu_position = First, cu_token = t, cu_size = n\<rparr>" None db c od scope "listing e db c od scope"]
    find_page[of e "\<lparr>cu_position = Last, cu_token = t, cu_size = n\<rparr>" None db c od scope "rev (listing e db c od scope)"]
  by (simp_all add: fetch_all[OF assms] decode_token_def is_reverse_def rev_take_rev)

lemma inner_pages:
  assumes ok: "paging_ok e db od scope" and i: "i < length (listing e db c od scope)"
    and t: "t = Some (encodeCursor e (listing e db c od scope ! i) (sortMeta (od_column od)))"
  shows "page_is (find_transactions e db c \<lparr>cu_position = Next, cu_token = t, cu_size = n\<rparr> od scope)
      (take (clampSize n) (drop (Suc i) (listing e db c od scope))) (Suc i + clampSize n < length (listing e db c od scope)) True"
    and "page_is (find_transactions e db c \<lparr>cu_position = Prev, cu_token = t, cu_size = n\<rparr> od scope)
      (drop (i - clampSize n) (take i (listing e db c od scope))) True (clampSize n < i)"
proof -
  let ?L = "listing e db c od scope"
  obtain cur where cur: "decodeCursor e (encodeCursor e (?L ! i) (sortMeta (od_column od))) = Inr cur"
    by (rule decode_row)
  note pages = fetch_after[OF ok i cur]
  show "page_is (find_transactions e db c \<lparr>cu_position = Next, cu_token = t, cu_size = n\<rparr> od scope)
      (take (clampSize n) (drop (Suc i) ?L)) (Suc i + clampSize n < length ?L) True"
    using find_page[of e "\<lparr>cu_position = Next, cu_token = t, cu_size = n\<rparr>" "Some cur" db c od scope "drop (Suc i) ?L"]
    by (simp add: pages decode_token_def is_reverse_def t cur less_diff_conv add.commute)
  show "page_is (find_transactions e db c \<lparr>cu_position = Prev, cu_token = t, cu_size = n\<rparr> od scope)
      (drop (i - clampSize n) (take i ?L)) True (clampSize n < i)"
    using find_page[of e "\<lparr>cu_position = Prev, cu_token = t, cu_size = n\<rparr>" "Some cur" db c od scope "rev (take i ?L)"] i
    by (simp add: pages decode_token_def is_reverse_def t cur rev_take_rev min_def split: if_splits)
qed

end

section \<open>A codec to compute with\<close>

definition int_text :: "int \<Rightarrow> string" where
  "int_text t = (if t < 0 then CHR ''-'' # dec_of_nat (nat (- t)) else dec_of_nat (nat t))"

definition int_of_text :: "string \<Rightarrow> int" where
  "int_of_text s = (case s of [] \<Rightarrow> 0 | c # cs \<Rightarrow> if c = CHR ''-'' then - int (nat_of_dec cs) else int (nat_of_dec s))"

definition demo_token :: "string option \<Rightarrow> string \<Rightarrow> string" where
  "demo_token v i = replicate (length i) CHR ''x'' @ CHR ''y'' # i @ (case v of None \<Rightarrow> [] | Some s \<Rightarrow> CHR ''v'' # s)"

definition demo_untoken :: "string \<Rightarrow> json option" where
  "demo_untoken s =
     (let n = length (takeWhile (\<lambda>c. c = CHR ''x'') s); t = drop (Suc n) s
      in Some (JObj [(''v'', case drop n t of [] \<Rightarrow> JNull | _ # v \<Rightarrow> JStr v), (''id'', JStr (take n t))]))"

definition demo_paging :: paging_env where
  "demo_paging = \<lparr>pe_weight = map code_unit, pe_iso = int_text, pe_parse = (\<lambda>s. Date (int_of_text s)),
     pe_encode = demo_token, pe_decode = demo_untoken,
     pe_string = (\<lambda>j. case j of JStr s \<Rightarrow> s | _ \<Rightarrow> ''?''), pe_invalid = CNull\<rparr>"

lemma demo_untoken_token:
  "demo_untoken (demo_token v i) = Some (JObj [(''v'', case v of None \<Rightarrow> JNull | Some s \<Rightarrow> JStr s), (''id'', JStr i)])"
proof -
  have "takeWhile (\<lambda>c. c = CHR ''x'') (demo_token v i) = replicate (length i) CHR ''x''"
    by (simp add: demo_token_def takeWhile_tail)
  then show ?thesis by (simp add: demo_untoken_def Let_def demo_token_def split: option.split)
qed

lemma dec_no_sign: "dec_of_nat n = c # cs \<Longrightarrow> c \<noteq> CHR ''-''"
  using dec_of_nat_digits[of n] by (auto simp: is_digit_def code_unit_def)

lemma int_of_text_text: "int_of_text (int_text t) = t"
proof -
  obtain c cs where c: "dec_of_nat (nat t) = c # cs" by (cases "dec_of_nat (nat t)") auto
  then have "nat_of_dec (c # cs) = nat t" using nat_of_dec_of_nat[of "nat t"] by simp
  then show ?thesis using dec_no_sign[OF c] by (simp add: int_of_text_def int_text_def c)
qed

interpretation demo_codec: cursor_codec demo_paging
proof
  show "pe_parse demo_paging (pe_iso demo_paging t) = Date t" for t
    by (simp add: demo_paging_def int_of_text_text)
  show "pe_decode demo_paging (pe_encode demo_paging v i) =
      Some (JObj [(''v'', case v of None \<Rightarrow> JNull | Some s \<Rightarrow> JStr s), (''id'', JStr i)])" for v i
    by (simp add: demo_paging_def demo_untoken_token)
  show "pe_string demo_paging (JStr s) = s" for s by (simp add: demo_paging_def)
qed

definition demo_row :: "int \<Rightarrow> string \<Rightarrow> string \<Rightarrow> string \<Rightarrow> int \<Rightarrow> tx_row" where
  "demo_row i correlation payer payee t =
     (let party = (\<lambda>f. \<lparr>id_fsp = f, id_type = Some ''MSISDN'', id_value = Some ''1'', id_sub = None\<rparr>);
          phase = \<lparr>ph_requestedAt = None, ph_respondedAt = None, ph_request = None, ph_response = None, ph_error = None,
            ph_outboundRequestedAt = None, ph_outboundRespondedAt = None, ph_inboundRequestedAt = None,
            ph_inboundRespondedAt = None, ph_connectorRequestedAt = None, ph_connectorRespondedAt = None\<rparr>
      in \<lparr>tx_correlationId = correlation, tx_payer = party payer, tx_payee = party payee, tx_initiatorType = None,
        tx_amounts = \<lparr>am_quotingCurrency = None, am_quotingAmount = None, am_transferCurrency = Some ''USD'',
          am_transferAmount = Some 10000, am_payeeReceiveAmount = None, am_payeeFee = None, am_payerFee = None,
          am_schemeFee = None\<rparr>,
        tx_startedAt = t, tx_completedAt = Some (t + 5), tx_type = None, tx_subScenario = None,
        tx_state = Some ''COMMITTED'', tx_amountType = None, tx_possibleDispute = False, tx_error = False, tx_flow = None,
        tx_parties = phase, tx_quotes = phase, tx_transfers = phase,
        tx_patch = \<lparr>pt_requestedAt = None, pt_respondedAt = None, pt_request = None, pt_error = None\<rparr>,
        tx_payerHome = None, tx_payeeHome = None, tx_createdAt = t,
        tx_id = i, tx_disputeResolvedAt = None, tx_updatedAt = t\<rparr>)"

definition demo_rows :: audit_db where
  "demo_rows = \<lparr>db_rows = [demo_row 1 ''t1'' ''a'' ''b'' 100, demo_row 2 ''t2'' ''b'' ''c'' 300,
     demo_row 3 ''t3'' ''c'' ''a'' 200], db_next_id = 4\<rparr>"

definition any_criteria :: criteria where
  "any_criteria = \<lparr>cr_payerFsp = None, cr_payeeFsp = None, cr_payerIdType = None, cr_payerId = None,
     cr_payerSubId = None, cr_payeeIdType = None, cr_payeeId = None, cr_payeeSubId = None, cr_transferId = None,
     cr_payerHome = None, cr_payeeHome = None, cr_flow = None, cr_transferType = None, cr_subScenario = None,
     cr_startInclusive = None, cr_endExclusive = None, cr_error = None, cr_dispute = None\<rparr>"



section \<open>Counting\<close>

lemma card_union_take:
  assumes "distinct xs" "distinct ys"
  shows "min (card (set (take (Suc m) xs) \<union> set (take (Suc m) ys))) (Suc m) = min (card (set xs \<union> set ys)) (Suc m)"
proof (cases "length xs \<le> Suc m \<and> length ys \<le> Suc m")
  case False
  let ?U = "set (take (Suc m) xs) \<union> set (take (Suc m) ys)"
  have "Suc m \<le> card ?U"
  proof (cases "Suc m < length xs")
    case True
    then have "card (set (take (Suc m) xs)) = Suc m" using distinct_card[of "take (Suc m) xs"] assms(1) by simp
    then show ?thesis using card_mono[of ?U "set (take (Suc m) xs)"] by simp
  next
    case nxs: False
    then have "card (set (take (Suc m) ys)) = Suc m"
      using distinct_card[of "take (Suc m) ys"] assms(2) False by simp
    then show ?thesis using card_mono[of ?U "set (take (Suc m) ys)"] by simp
  qed
  moreover have "card ?U \<le> card (set xs \<union> set ys)"
    by (rule card_mono) (auto dest: in_set_takeD)
  ultimately show ?thesis by simp
qed simp

lemma length_filter_card: "distinct (map f xs) \<Longrightarrow> length (filter P xs) = card (f ` set (filter P xs))"
  by (metis distinct_card distinct_map_filter length_map set_map)

lemma count_is_exact:
  assumes "distinct (map tx_id (db_rows db))"
  shows "count_transactions e db c limit scope =
    (let n = length (listing e db c od scope) in \<lparr>ct_count = min n limit, ct_capped = (n > limit)\<rparr>)"
proof -
  define matched where "matched = (case scope of
        Some f \<Rightarrow> card (set (count_probe e db c (limit + 1) (Some (PayerLeg f))) \<union>
                       set (count_probe e db c (limit + 1) (Some (PayeeLeg f))))
      | None \<Rightarrow> length (count_probe e db c (limit + 1) None))"
  let ?n = "length (listing e db c od scope)"
  have n: "?n = length (filter (\<lambda>r. applyCriteria e c r \<and> visible e scope r) (db_rows db))"
    by (simp add: listing_def)
  have "min matched (Suc limit) = min ?n (Suc limit)"
  proof (cases scope)
    case None
    then show ?thesis unfolding n by (simp add: matched_def count_probe_def leg_matches_def visible_def asked_def)
  next
    case (Some f)
    let ?leg = "\<lambda>l. filter (\<lambda>r. applyCriteria e c r \<and> leg_matches e (Some l) r) (db_rows db)"
    have "set (?leg (PayerLeg f)) \<union> set (?leg (PayeeLeg f)) =
        set (filter (\<lambda>r. applyCriteria e c r \<and> visible e scope r) (db_rows db))"
      by (auto simp: Some leg_matches_def visible_def asked_def)
    then have "?n = card (tx_id ` (set (?leg (PayerLeg f)) \<union> set (?leg (PayeeLeg f))))"
      by (simp only: n length_filter_card[OF assms])
    then show ?thesis
      using card_union_take[of "map tx_id (?leg (PayerLeg f))" "map tx_id (?leg (PayeeLeg f))" limit]
      by (simp add: matched_def Some count_probe_def take_map image_Un distinct_map_filter assms)
  qed
  then have "min matched limit = min ?n limit" "matched > limit \<longleftrightarrow> ?n > limit" by (auto simp: min_def split: if_splits)
  then show ?thesis by (simp add: count_transactions_def Let_def flip: matched_def)
qed

text \<open>
  The count of a search is the number of rows of its listing, cut at the configured limit, and is reported as
  capped exactly when there are more, although a scoped count is assembled from two queries that overlap.
\<close>

theorem count_is_exact_up_to_limit:
  assumes "distinct (map tx_id (db_rows db))"
  shows "count_transactions e db c limit scope =
    (let n = length (listing e db c od scope) in \<lparr>ct_count = min n limit, ct_capped = (n > limit)\<rparr>)"
  using assms by (rule count_is_exact)

theorem count_is_exact_up_to_limit_witness:
  "count_transactions demo_paging demo_rows any_criteria 1 (Some ''a'') = \<lparr>ct_count = 1, ct_capped = True\<rparr>"
proof -
  have "distinct (map tx_id (db_rows demo_rows))" by code_simp
  moreover have "length (listing demo_paging demo_rows any_criteria \<lparr>od_column = CorrelationId, od_direction = Asc\<rparr> (Some ''a'')) = 2"
    by code_simp
  ultimately show ?thesis
    using count_is_exact_up_to_limit[of demo_rows demo_paging any_criteria 1 "Some ''a''" "\<lparr>od_column = CorrelationId, od_direction = Asc\<rparr>"]
    by (simp add: Let_def)
qed

section \<open>What a DFSP sees\<close>

text \<open>The table as far as one FSP takes part in it.\<close>

definition own_rows :: "paging_env \<Rightarrow> string \<Rightarrow> audit_db \<Rightarrow> audit_db" where
  "own_rows e f db = db\<lparr>db_rows := filter (visible e (Some f)) (db_rows db)\<rparr>"

lemma fetchLeg_own:
  assumes "l = PayerLeg f \<or> l = PayeeLeg f"
  shows "fetchLeg e (own_rows e f db) c m d cur n (Some l) = fetchLeg e db c m d cur n (Some l)"
    "count_probe e (own_rows e f db) c n (Some l) = count_probe e db c n (Some l)"
  using assms by (auto simp: fetchLeg_def count_probe_def own_rows_def filter_filter leg_matches_def visible_def asked_def
      intro!: arg_cong[where f = "\<lambda>x. take n (order_rows _ x)"] arg_cong[where f = "\<lambda>x. take n (map tx_id x)"] filter_cong)

lemma find_own: "find_transactions e (own_rows e f db) c cu od (Some f) = find_transactions e db c cu od (Some f)"
  by (simp add: find_transactions_def fetch_rows_def fetchLeg_own)

lemma count_own: "count_transactions e (own_rows e f db) c m (Some f) = count_transactions e db c m (Some f)"
  by (simp add: count_transactions_def fetchLeg_own)

lemma map_sum_Inr: "map_sum g h r = Inr y \<longleftrightarrow> (\<exists>x. r = Inr x \<and> h x = y)"
  by (cases r) auto

lemma find_filter:
  assumes "distinct (map k xs)"
  shows "find (\<lambda>x. k x = a) (filter P xs) = (case find (\<lambda>x. k x = a) xs of None \<Rightarrow> None | Some x \<Rightarrow> if P x then Some x else None)"
  using assms
proof (induction xs)
  case (Cons x xs)
  have "\<forall>y\<in>set xs. k y \<noteq> k x" using Cons.prems by (auto simp: image_iff)
  then have "find (\<lambda>y. k y = k x) (filter P xs) = None" by (auto simp: find_None_iff)
  then show ?case using Cons by auto
qed simp

lemma get_own:
  assumes "distinct (map (row_key ae) (db_rows db))"
  shows "get_transaction ae (own_rows e f db) t (Some f) = get_transaction ae db t (Some f)"
  by (auto simp: get_transaction_def findByCorrelationId_def own_rows_def find_filter[OF assms] visible_def asked_def
      text_eq_def split: option.split)

lemma fetched_rows: "set (fetch_rows e db c m d cur n scope) \<subseteq> set (db_rows db)"
  by (auto simp: fetch_rows_def mergeLegs_def union_rows_def fetchLeg_def dest!: in_set_takeD split: option.splits)

lemma found_rows:
  "find_transactions e db c cu od scope = Inr p \<Longrightarrow> set (pg_records p) \<subseteq> set (db_rows db)"
  using fetched_rows[of e db c] by (fastforce simp: find_transactions_def Let_def dest!: in_set_takeD split: if_splits)

text \<open>
  C31: a caller that belongs to an FSP learns nothing about transactions its FSP takes no part in.  Whatever the
  parameters, forged cursors and identifiers included, the list, the count and the detail are those of the table
  without the other rows, errors alike, and every row shown is one that the FSP pays or receives.
\<close>

theorem dfsp_search_confined:
  assumes "c_fspId claims = Some f" "distinct (map (row_key (se_audit e)) (db_rows db))"
  shows "let own = own_rows (se_paging e) f db in
    findTransactions e db now (Some claims) p lp = findTransactions e own now (Some claims) p lp \<and>
    countTransactions e db now (Some claims) p = countTransactions e own now (Some claims) p \<and>
    getTransaction e db (Some claims) t = getTransaction e own (Some claims) t \<and>
    (\<forall>pg. findTransactions e db now (Some claims) p lp = Inr pg \<longrightarrow>
       list_all (visible (se_paging e) (Some f)) (pg_records pg))"
proof -
  let ?own = "own_rows (se_paging e) f db"
  have scope: "resolveListAccessScope (Some claims) a b = Inr (Some f) \<or>
      resolveListAccessScope (Some claims) a b = Inl AUTH_FSP_SCOPE_VIOLATION" for a b
    using assms(1) by (auto simp: resolveListAccessScope_def Let_def)
  have list: "findTransactions e db now (Some claims) p lp = findTransactions e ?own now (Some claims) p lp"
    using scope[of "qp_payerFsp p" "qp_payeeFsp p"] by (auto simp: findTransactions_def find_own)
  have "list_all (visible (se_paging e) (Some f)) (pg_records pg)"
    if page: "findTransactions e ?own now (Some claims) p lp = Inr pg" for pg
  proof -
    obtain c cu od where "find_transactions (se_paging e) ?own c cu od (Some f) = Inr pg"
      using page scope[of "qp_payerFsp p" "qp_payeeFsp p"] by (auto simp: findTransactions_def map_sum_Inr)
    from found_rows[OF this] show ?thesis by (auto simp: own_rows_def list_all_iff)
  qed
  moreover have "countTransactions e db now (Some claims) p = countTransactions e ?own now (Some claims) p"
    using scope[of "qp_payerFsp p" "qp_payeeFsp p"] by (auto simp: countTransactions_def count_own)
  moreover have "getTransaction e db (Some claims) t = getTransaction e ?own (Some claims) t"
    using assms by (simp add: getTransaction_def resolveDetailAccessScope_def get_own)
  ultimately show ?thesis using list by (simp add: Let_def)
qed

definition demo_search :: search_env where
  "demo_search = \<lparr>se_paging = demo_paging,
     se_audit = \<lparr>ae_text = (\<lambda>j. []), ae_decimal = (\<lambda>n. 0), ae_collate = (\<lambda>s. s), ae_date_error = Thrown ''date'',
       ae_number = (\<lambda>j. NaN)\<rparr>,
     se_number = (\<lambda>s. Finite (of_nat (nat_of_dec s))), se_maxLimit = 10\<rparr>"

definition no_params :: criteria_params where
  "no_params = \<lparr>qp_payerFsp = None, qp_payeeFsp = None, qp_payerIdType = None, qp_payerId = None, qp_payerSubId = None,
     qp_payeeIdType = None, qp_payeeId = None, qp_payeeSubId = None, qp_transferId = None, qp_payerHome = None,
     qp_payeeHome = None, qp_flow = None, qp_transferType = None, qp_subScenario = None, qp_start = None,
     qp_end = None, qp_error = None, qp_dispute = None\<rparr>"

definition demo_claims :: access_claims where
  "demo_claims = \<lparr>c_sub = ''u1'', c_role = ''r1'', c_fspId = Some ''a'', c_permissions = [],
     c_mustChangePassword = False, c_iat = 0, c_exp = 100, c_jti = ''j''\<rparr>"

theorem dfsp_search_confined_witness:
  "(case findTransactions demo_search demo_rows 400 (Some demo_claims) no_params
      \<lparr>lp_cursor = None, lp_direction = None, lp_size = Some ''2'', lp_orderColumn = None, lp_orderDirection = Some ''ASC''\<rparr> of
      Inl _ \<Rightarrow> False
    | Inr pg \<Rightarrow> map tx_id (pg_records pg) = [1, 3] \<and> list_all (visible demo_paging (Some ''a'')) (pg_records pg))"
proof -
  let ?lp = "\<lparr>lp_cursor = None, lp_direction = None, lp_size = Some ''2'', lp_orderColumn = None, lp_orderDirection = Some ''ASC''\<rparr>"
  have "case findTransactions demo_search (own_rows demo_paging ''a'' demo_rows) 400 (Some demo_claims) no_params ?lp of
      Inl _ \<Rightarrow> False | Inr pg \<Rightarrow> map tx_id (pg_records pg) = [1, 3]" by code_simp
  moreover have "c_fspId demo_claims = Some ''a''" by (simp add: demo_claims_def)
  moreover have "distinct (map (row_key (se_audit demo_search)) (db_rows demo_rows))" by code_simp
  moreover have "se_paging demo_search = demo_paging" by (simp add: demo_search_def)
  ultimately show ?thesis
    using dfsp_search_confined[of demo_claims "''a''" demo_search demo_rows 400 no_params ?lp]
    by (auto simp: Let_def split: sum.splits)
qed

end
