(* ===== verification/Report_Files.thy ===== *)
theory Report_Files
  imports Audit_Search
begin

text \<open>
  The transaction reports of \<open>core/audit/domain/reporting\<close>: the parameters under which a search is stored
  (\<open>transaction-report-params.ts\<close>), the reading of all its rows page by page and the division into files
  (\<open>transaction-report-generator.ts\<close>).  The files themselves are rendered in \<^theory_text>\<open>Report_Text\<close>.
\<close>

section \<open>Stored parameters\<close>

text \<open>A \<open>Record<string, string>\<close> with its entries in order.\<close>

type_synonym params = "(string \<times> string) list"

record report_env =
  re_search :: search_env
  re_show :: "int \<Rightarrow> string"

definition or_empty :: "string option \<Rightarrow> string" where
  "or_empty v = (case v of None \<Rightarrow> '''' | Some s \<Rightarrow> s)"

definition nullableToParam :: "string option option \<Rightarrow> string" where
  "nullableToParam v = (case v of Some None \<Rightarrow> ''null'' | None \<Rightarrow> '''' | Some (Some s) \<Rightarrow> s)"

definition bool_text :: "bool \<Rightarrow> string" where
  "bool_text b = (if b then ''true'' else ''false'')"

definition column_text :: "order_column \<Rightarrow> string" where
  "column_text c = (case c of CorrelationId \<Rightarrow> ''correlationId'' | TransactionStartAt \<Rightarrow> ''transactionStartAt''
     | TransactionCompletedAt \<Rightarrow> ''transactionCompletedAt'')"

definition direction_text :: "direction \<Rightarrow> string" where
  "direction_text d = (case d of Asc \<Rightarrow> ''ASC'' | Desc \<Rightarrow> ''DESC'')"

definition fromInput :: "report_env \<Rightarrow> criteria \<Rightarrow> order \<Rightarrow> string option \<Rightarrow> params" where
  "fromInput e c od scope =
     (let iso = (\<lambda>t. or_empty (map_option (pe_iso (se_paging (re_search e))) t)) in
      [(''payerFsp'', or_empty (cr_payerFsp c)),
       (''payeeFsp'', or_empty (cr_payeeFsp c)),
       (''payerIdType'', or_empty (cr_payerIdType c)),
       (''payerId'', or_empty (cr_payerId c)),
       (''payerSubId'', nullableToParam (cr_payerSubId c)),
       (''payeeIdType'', or_empty (cr_payeeIdType c)),
       (''payeeId'', or_empty (cr_payeeId c)),
       (''payeeSubId'', nullableToParam (cr_payeeSubId c)),
       (''transferId'', or_empty (cr_transferId c)),
       (''payerHomeTransactionId'', or_empty (cr_payerHome c)),
       (''payeeHomeTransactionId'', or_empty (cr_payeeHome c)),
       (''flow'', or_empty (map_option (re_show e) (cr_flow c))),
       (''transferType'', or_empty (cr_transferType c)),
       (''subScenario'', or_empty (cr_subScenario c)),
       (''transactionStartAtStart'', iso (cr_startInclusive c)),
       (''transactionStartAtEnd'', iso (cr_endExclusive c)),
       (''error'', or_empty (map_option bool_text (cr_error c))),
       (''dispute'', or_empty (map_option bool_text (cr_dispute c))),
       (''orderColumn'', column_text (od_column od)),
       (''orderDirection'', direction_text (od_direction od)),
       (''accessFspId'', or_empty scope)])"

definition emptyToUndefined :: "string option \<Rightarrow> string option" where
  "emptyToUndefined v = (case v of None \<Rightarrow> None | Some s \<Rightarrow> if s = [] then None else Some s)"

definition paramToNullable :: "string option \<Rightarrow> string option option" where
  "paramToNullable v = (case emptyToUndefined v of
     None \<Rightarrow> None
   | Some s \<Rightarrow> Some (if toLowerCase s = ''null'' then None else Some s))"

definition param_boolean :: "string option \<Rightarrow> bool option" where
  "param_boolean v = map_option (\<lambda>s. s = ''true'') (emptyToUndefined v)"

text \<open>
  A stored flow that is no integer and a stored date that is none would reach the query as they are; \<open>None\<close>
  stands for a criterion of this kind, which the portal never stores.
\<close>

definition param_integer :: "report_env \<Rightarrow> string option \<Rightarrow> int option option" where
  "param_integer e v = (case emptyToUndefined v of
     None \<Rightarrow> Some None
   | Some s \<Rightarrow> map_option Some (integer_of (se_number (re_search e) s)))"

definition param_date :: "report_env \<Rightarrow> string option \<Rightarrow> int option option" where
  "param_date e v = (case emptyToUndefined v of
     None \<Rightarrow> Some None
   | Some s \<Rightarrow> (case pe_parse (se_paging (re_search e)) s of InvalidDate \<Rightarrow> None | Date d \<Rightarrow> Some (Some d)))"

definition toCriteria :: "report_env \<Rightarrow> params \<Rightarrow> criteria option" where
  "toCriteria e ps =
     (let text = (\<lambda>k. emptyToUndefined (map_of ps k)) in
      Option.bind (param_integer e (map_of ps ''flow'')) (\<lambda>flow.
      Option.bind (param_date e (map_of ps ''transactionStartAtStart'')) (\<lambda>start.
      Option.bind (param_date e (map_of ps ''transactionStartAtEnd'')) (\<lambda>end.
        Some \<lparr>cr_payerFsp = text ''payerFsp'', cr_payeeFsp = text ''payeeFsp'',
          cr_payerIdType = text ''payerIdType'', cr_payerId = text ''payerId'',
          cr_payerSubId = paramToNullable (map_of ps ''payerSubId''),
          cr_payeeIdType = text ''payeeIdType'', cr_payeeId = text ''payeeId'',
          cr_payeeSubId = paramToNullable (map_of ps ''payeeSubId''),
          cr_transferId = text ''transferId'', cr_payerHome = text ''payerHomeTransactionId'',
          cr_payeeHome = text ''payeeHomeTransactionId'', cr_flow = flow,
          cr_transferType = text ''transferType'', cr_subScenario = text ''subScenario'',
          cr_startInclusive = start, cr_endExclusive = end,
          cr_error = param_boolean (map_of ps ''error''), cr_dispute = param_boolean (map_of ps ''dispute'')\<rparr>))))"

text \<open>\<open>sortMeta\<close> and the directions read the stored texts: any other column is the start time, any other direction \<open>DESC\<close>.\<close>

definition toOrder :: "params \<Rightarrow> order" where
  "toOrder ps = \<lparr>
     od_column = (case emptyToUndefined (map_of ps ''orderColumn'') of
        None \<Rightarrow> TransactionStartAt
      | Some s \<Rightarrow> if s = ''correlationId'' then CorrelationId
                  else if s = ''transactionCompletedAt'' then TransactionCompletedAt else TransactionStartAt),
     od_direction = (case emptyToUndefined (map_of ps ''orderDirection'') of
        None \<Rightarrow> Desc
      | Some s \<Rightarrow> if s = ''ASC'' then Asc else Desc)\<rparr>"

definition toAccessScope :: "params \<Rightarrow> string option" where
  "toAccessScope ps = emptyToUndefined (map_of ps ''accessFspId'')"

section \<open>Reading all rows\<close>

record report_settings =
  rs_pageSize :: nat
  rs_maxRowsPerFile :: nat
  rs_maxZipFiles :: nat

datatype report_failure = ReadFailed query_error | ReportError string | InvalidCriterion

text \<open>What \<open>findForReport\<close> answers to a cursor and a limit: the criteria, the order and the scope stay the same.\<close>

type_synonym reader = "string option \<Rightarrow> nat \<Rightarrow> (query_error, report_page) result"

lemma grows: "m < n \<Longrightarrow> xs \<noteq> [] \<Longrightarrow> n - (m + length xs) < n - m" for m n :: nat
  by (cases xs) auto

function read_rows :: "reader \<Rightarrow> nat \<Rightarrow> nat \<Rightarrow> tx_row list \<Rightarrow> string option
    \<Rightarrow> (query_error, tx_row list \<times> string option) result" where
  "read_rows read pageSize rowCount rows cursor =
     (if length rows < rowCount
      then (case read cursor (min pageSize (rowCount - length rows)) of
              Inl x \<Rightarrow> Inl x
            | Inr page \<Rightarrow>
                (if rp_records page = [] \<or> rp_nextCursor page = None
                 then Inr (rows @ rp_records page, rp_nextCursor page)
                 else read_rows read pageSize rowCount (rows @ rp_records page) (rp_nextCursor page)))
      else Inr (rows, cursor))"
  by pat_completeness auto
termination
  by (relation "measure (\<lambda>(read, pageSize, rowCount, rows, cursor). rowCount - length rows)") (auto intro: grows)

declare read_rows.simps [simp del]

definition readRows :: "reader \<Rightarrow> nat \<Rightarrow> string option \<Rightarrow> nat \<Rightarrow> (query_error, tx_row list \<times> string option) result" where
  "readRows read pageSize initialCursor rowCount = read_rows read pageSize rowCount [] initialCursor"

section \<open>Dividing the rows into files\<close>

text \<open>The parts of the loop of \<open>generateCsvReport\<close>.\<close>

function csv_parts :: "reader \<Rightarrow> nat \<Rightarrow> nat \<Rightarrow> nat \<Rightarrow> string option \<Rightarrow> nat \<Rightarrow> (query_error, tx_row list list) result" where
  "csv_parts read pageSize maxRowsPerFile totalRows cursor writtenRows =
     (if writtenRows < totalRows
      then res_bind (readRows read pageSize cursor (min maxRowsPerFile (totalRows - writtenRows))) (\<lambda>(rows, nextCursor).
             if rows = [] \<or> nextCursor = None then Inr [rows]
             else map_sum id (Cons rows)
               (csv_parts read pageSize maxRowsPerFile totalRows nextCursor (writtenRows + length rows)))
      else Inr [])"
  by pat_completeness auto
termination
  by (relation "measure (\<lambda>(read, pageSize, maxRowsPerFile, totalRows, cursor, writtenRows). totalRows - writtenRows)") (auto intro: grows)

declare csv_parts.simps [simp del]

text \<open>The parts of the loop of \<open>generateXlsxZip\<close>, which always writes a first part and does not stop by itself.\<close>

partial_function (option) xlsx_parts :: "reader \<Rightarrow> nat \<Rightarrow> nat \<Rightarrow> nat \<Rightarrow> string option \<Rightarrow> nat
    \<Rightarrow> (query_error, tx_row list list) result option" where
  "xlsx_parts read pageSize maxRowsPerFile totalRows cursor writtenRows =
     (case readRows read pageSize cursor (min maxRowsPerFile (totalRows - writtenRows)) of
        Inl x \<Rightarrow> Some (Inl x)
      | Inr part \<Rightarrow>
          (if writtenRows + length (fst part) < totalRows \<and> snd part \<noteq> None
           then Option.bind (xlsx_parts read pageSize maxRowsPerFile totalRows (snd part) (writtenRows + length (fst part)))
                  (\<lambda>r. Some (map_sum id (Cons (fst part)) r))
           else Some (Inr [fst part])))"

datatype file_type = Csv | Xlsx

definition reportFileType :: "string \<Rightarrow> file_type" where
  "reportFileType t = (if toLowerCase (trim t) = ''csv'' then Csv else Xlsx)"

definition MAX_DOWNLOAD_ROWS :: nat where "MAX_DOWNLOAD_ROWS = 50000"

definition XLSX_MAX_DATA_ROWS_PER_SHEET :: nat where "XLSX_MAX_DATA_ROWS_PER_SHEET = 1048575"

definition maxRowsPerGeneratedFile :: "report_settings \<Rightarrow> file_type \<Rightarrow> nat" where
  "maxRowsPerGeneratedFile s t = (case t of
     Xlsx \<Rightarrow> min (rs_maxRowsPerFile s) XLSX_MAX_DATA_ROWS_PER_SHEET
   | Csv \<Rightarrow> rs_maxRowsPerFile s)"

definition maxDownloadRows :: "report_settings \<Rightarrow> file_type \<Rightarrow> nat" where
  "maxDownloadRows s t = min (maxRowsPerGeneratedFile s t * rs_maxZipFiles s) MAX_DOWNLOAD_ROWS"

text \<open>The rows of each file of a report; one csv part is sent as it is, every other report is a zip of its parts.\<close>

datatype report_body = CsvFile "tx_row list" | CsvZip "tx_row list list" | XlsxZip "tx_row list list"

definition generateCsvReport :: "report_settings \<Rightarrow> reader \<Rightarrow> nat \<Rightarrow> nat \<Rightarrow> (query_error, report_body) result" where
  "generateCsvReport s read totalRows maxRowsPerFile =
     (if totalRows \<le> maxRowsPerFile
      then map_sum id (\<lambda>(rows, _). CsvFile rows) (readRows read (rs_pageSize s) None totalRows)
      else map_sum id CsvZip (csv_parts read (rs_pageSize s) maxRowsPerFile totalRows None 0))"

definition generateXlsxZip :: "report_settings \<Rightarrow> reader \<Rightarrow> nat \<Rightarrow> nat \<Rightarrow> (query_error, report_body) result option" where
  "generateXlsxZip s read totalRows maxRowsPerFile =
     map_option (map_sum id XlsxZip) (xlsx_parts read (rs_pageSize s) maxRowsPerFile totalRows None 0)"

definition too_many_rows :: "nat \<Rightarrow> string" where
  "too_many_rows n = ''Report exceeds maximum downloadable rows ('' @ dec_of_nat n @ ''). Narrow the search filters.''"

text \<open>\<open>generate\<close> on a table that does not change meanwhile; \<open>None\<close> is a loop that does not end.\<close>

definition generate :: "report_env \<Rightarrow> report_settings \<Rightarrow> audit_db \<Rightarrow> string \<Rightarrow> params
    \<Rightarrow> (report_failure, report_body) result option" where
  "generate e s db fileType ps =
     (case toCriteria e ps of
        None \<Rightarrow> Some (Inl InvalidCriterion)
      | Some c \<Rightarrow>
          (let od = toOrder ps; scope = toAccessScope ps; t = reportFileType fileType;
               maxRowsPerFile = maxRowsPerGeneratedFile s t; maxRows = maxDownloadRows s t;
               counted = count_transactions (se_paging (re_search e)) db c maxRows scope;
               read = (\<lambda>cursor limit. findForReport (se_paging (re_search e)) db c od cursor (int limit) scope)
           in if ct_capped counted then Some (Inl (ReportError (too_many_rows maxRows)))
              else case t of
                Xlsx \<Rightarrow> map_option (map_sum ReadFailed id) (generateXlsxZip s read (ct_count counted) maxRowsPerFile)
              | Csv \<Rightarrow> Some (map_sum ReadFailed id (generateCsvReport s read (ct_count counted) maxRowsPerFile))))"

section \<open>The controller of the reports\<close>

text \<open>\<open>toCriteria\<close> of \<open>transaction-reports.controller.ts\<close>: as \<open>buildCriteria\<close>, without a default window.\<close>

definition reportCriteria :: "search_env \<Rightarrow> criteria_params \<Rightarrow> (search_error, criteria) result" where
  "reportCriteria e p =
     res_bind (toOptionalEnum (qp_payerIdType p) PartyIdTypes ''payerIdType'') (\<lambda>payerIdType.
     res_bind (toOptionalEnum (qp_payeeIdType p) PartyIdTypes ''payeeIdType'') (\<lambda>payeeIdType.
     res_bind (toOptionalInteger e (qp_flow p) ''flow'') (\<lambda>flow.
     res_bind (toOptionalEnum (qp_transferType p) TransactionScenarios ''transferType'') (\<lambda>transferType.
     res_bind (toDateRange e (qp_start p) (qp_end p) ''transactionStartAtStart'' ''transactionStartAtEnd'') (\<lambda>window.
     res_bind (toOptionalBoolean (qp_error p) ''error'') (\<lambda>err.
     res_bind (toOptionalBoolean (qp_dispute p) ''dispute'') (\<lambda>disputed.
       Inr \<lparr>cr_payerFsp = toOptionalString (qp_payerFsp p),
            cr_payeeFsp = toOptionalString (qp_payeeFsp p),
            cr_payerIdType = payerIdType,
            cr_payerId = toOptionalString (qp_payerId p),
            cr_payerSubId = toOptionalNullableString (qp_payerSubId p),
            cr_payeeIdType = payeeIdType,
            cr_payeeId = toOptionalString (qp_payeeId p),
            cr_payeeSubId = toOptionalNullableString (qp_payeeSubId p),
            cr_transferId = toOptionalString (qp_transferId p),
            cr_payerHome = toOptionalString (qp_payerHome p),
            cr_payeeHome = toOptionalString (qp_payeeHome p),
            cr_flow = flow,
            cr_transferType = transferType,
            cr_subScenario = toOptionalString (qp_subScenario p),
            cr_startInclusive = (case window of None \<Rightarrow> None | Some w \<Rightarrow> fst w),
            cr_endExclusive = (case window of None \<Rightarrow> None | Some w \<Rightarrow> snd w),
            cr_error = err,
            cr_dispute = disputed\<rparr>)))))))"

section \<open>Stored requests\<close>

text \<open>What the round trip of a stored request needs: the language reads back the numbers and dates it writes.\<close>

locale report_codec = cursor_codec "se_paging (re_search e)" for e :: report_env +
  assumes number_text: "se_number (re_search e) (re_show e i) = Finite (of_int i)"
    and number_some: "re_show e i \<noteq> []"
    and date_some: "pe_iso (se_paging (re_search e)) t \<noteq> []"

text \<open>Criteria that a request can ask for: no text is empty, and no sub-identifier is a spelling of null.\<close>

definition some_text :: "string option \<Rightarrow> bool" where
  "some_text v \<longleftrightarrow> v \<noteq> Some []"

definition some_sub :: "string option option \<Rightarrow> bool" where
  "some_sub v = (case v of Some (Some s) \<Rightarrow> s \<noteq> [] \<and> toLowerCase s \<noteq> ''null'' | _ \<Rightarrow> True)"

definition storable :: "criteria \<Rightarrow> bool" where
  "storable c \<longleftrightarrow> some_text (cr_payerFsp c) \<and> some_text (cr_payeeFsp c) \<and> some_text (cr_payerIdType c) \<and>
     some_text (cr_payerId c) \<and> some_sub (cr_payerSubId c) \<and> some_text (cr_payeeIdType c) \<and> some_text (cr_payeeId c) \<and>
     some_sub (cr_payeeSubId c) \<and> some_text (cr_transferId c) \<and> some_text (cr_payerHome c) \<and>
     some_text (cr_payeeHome c) \<and> some_text (cr_transferType c) \<and> some_text (cr_subScenario c)"

lemma some_text_back: "some_text v \<Longrightarrow> emptyToUndefined (Some (or_empty v)) = v"
  by (auto simp: some_text_def emptyToUndefined_def or_empty_def split: option.splits)

lemma some_sub_back: "some_sub v \<Longrightarrow> paramToNullable (Some (nullableToParam v)) = v"
  by (auto simp: some_sub_def paramToNullable_def nullableToParam_def emptyToUndefined_def toLowerCase_def lower_char_def
      code_unit_def split: option.splits)

lemma bool_back: "param_boolean (Some (or_empty (map_option bool_text b))) = b"
  by (cases b) (auto simp: param_boolean_def emptyToUndefined_def or_empty_def bool_text_def)

lemma some_text_request [simp]: "some_text (toOptionalString v)"
  by (auto simp: some_text_def toOptionalString_def split: option.splits)

lemma some_sub_request [simp]: "some_sub (toOptionalNullableString v)"
  by (auto simp: some_sub_def toOptionalNullableString_def toOptionalString_def split: option.splits if_splits)

lemma some_text_enum:
  "toOptionalEnum v enum name = Inr x \<Longrightarrow> list_all (\<lambda>(_, y). y \<noteq> []) enum \<Longrightarrow> some_text x"
  by (auto simp: toOptionalEnum_def some_text_def list_all_iff dest!: map_of_SomeD split: option.splits)

lemma storable_request:
  assumes "reportCriteria e p = Inr c"
  shows "storable c"
proof -
  have "list_all (\<lambda>(_, y). y \<noteq> []) PartyIdTypes" "list_all (\<lambda>(_, y). y \<noteq> []) TransactionScenarios"
    by (simp_all add: PartyIdTypes_def TransactionScenarios_def)
  with assms show ?thesis by (auto simp: reportCriteria_def storable_def dest: some_text_enum)
qed

context report_codec begin

lemma number_back: "param_integer e (Some (or_empty (map_option (re_show e) v))) = Some v"
  by (cases v) (simp_all add: param_integer_def emptyToUndefined_def or_empty_def number_text number_some integer_of_def)

lemma date_back: "param_date e (Some (or_empty (map_option (pe_iso (se_paging (re_search e))) v))) = Some v"
  by (cases v) (simp_all add: param_date_def emptyToUndefined_def or_empty_def date_text date_some)

lemma criteria_back: "storable c \<Longrightarrow> toCriteria e (fromInput e c od scope) = Some c"
  by (simp add: toCriteria_def fromInput_def number_back date_back some_text_back some_sub_back bool_back storable_def)

end

lemma order_back: "toOrder (fromInput e c od scope) = od"
  by (cases od; cases "od_column od"; cases "od_direction od")
    (simp_all add: toOrder_def fromInput_def emptyToUndefined_def column_text_def direction_text_def)

lemma scope_back: "some_text scope \<Longrightarrow> toAccessScope (fromInput e c od scope) = scope"
  by (simp add: toAccessScope_def fromInput_def some_text_back)

lemma stored_request:
  assumes "report_codec e" "reportCriteria (re_search e) p = Inr c"
    and "resolveListAccessScope claims (qp_payerFsp p) (qp_payeeFsp p) = Inr scope"
    and "Option.bind claims c_fspId \<noteq> Some []"
  shows "toCriteria e (fromInput e c od scope) = Some c \<and> toOrder (fromInput e c od scope) = od \<and>
    toAccessScope (fromInput e c od scope) = Option.bind claims c_fspId"
proof -
  have "scope = Option.bind claims c_fspId"
    using assms(3) by (auto simp: resolveListAccessScope_def Let_def split: option.splits if_splits)
  then show ?thesis
    using report_codec.criteria_back[OF assms(1) storable_request[OF assms(2)]] assms(4)
    by (simp add: order_back scope_back some_text_def)
qed

text \<open>
  A report request is executed as it was made.  The criteria, the order and the FSP scope that the worker reads
  from the stored parameters are those of the request, for every request the portal accepts; a scope of an FSP
  never reads back as the scope of the hub.
\<close>

theorem stored_report_request_reads_back:
  assumes "report_codec e" "reportCriteria (re_search e) p = Inr c"
    and "resolveListAccessScope claims (qp_payerFsp p) (qp_payeeFsp p) = Inr scope"
    and "Option.bind claims c_fspId \<noteq> Some []"
  shows "toCriteria e (fromInput e c od scope) = Some c \<and> toOrder (fromInput e c od scope) = od \<and>
    toAccessScope (fromInput e c od scope) = Option.bind claims c_fspId"
  using assms by (rule stored_request)

definition demo_report :: report_env where
  "demo_report = \<lparr>re_search = demo_search\<lparr>se_number := (\<lambda>s. Finite (of_int (int_of_text s)))\<rparr>, re_show = int_text\<rparr>"

interpretation demo_report: report_codec demo_report
proof (rule report_codec.intro)
  show "cursor_codec (se_paging (re_search demo_report))"
    using demo_codec.cursor_codec_axioms by (simp add: demo_report_def demo_search_def)
  show "report_codec_axioms demo_report"
    by unfold_locales (simp_all add: demo_report_def demo_search_def demo_paging_def int_of_text_text, simp_all add: int_text_def)
qed

theorem stored_report_request_reads_back_witness:
  "toAccessScope (fromInput demo_report
     (any_criteria\<lparr>cr_payerSubId := Some None, cr_flow := Some 3, cr_startInclusive := Some (- 5)\<rparr>)
     \<lparr>od_column = CorrelationId, od_direction = Asc\<rparr> (Some ''a'')) = Some ''a''"
proof -
  let ?p = "no_params\<lparr>qp_payerSubId := Some '' NULL'', qp_flow := Some ''3'', qp_start := Some ''-5''\<rparr>"
  have "case reportCriteria (re_search demo_report) ?p of Inl _ \<Rightarrow> False
      | Inr c \<Rightarrow> c = any_criteria\<lparr>cr_payerSubId := Some None, cr_flow := Some 3, cr_startInclusive := Some (- 5)\<rparr>"
    by code_simp
  then have "reportCriteria (re_search demo_report) ?p =
      Inr (any_criteria\<lparr>cr_payerSubId := Some None, cr_flow := Some 3, cr_startInclusive := Some (- 5)\<rparr>)"
    by (simp split: sum.splits)
  from stored_report_request_reads_back[OF demo_report.report_codec_axioms this, of "Some demo_claims" "Some ''a''"]
  show ?thesis
    by (simp add: resolveListAccessScope_def demo_claims_def no_params_def toOptionalString_def Let_def)
qed

section \<open>The rows of a report\<close>

text \<open>A source of pages: the token of a position is the cursor that the page before it ends with.\<close>

locale page_source =
  fixes read :: reader and rows :: "tx_row list" and token :: "nat \<Rightarrow> string option"
  assumes first_token: "token 0 = None"
    and token_some: "token (Suc i) \<noteq> None"
    and page: "i \<le> length rows \<Longrightarrow> 0 < limit \<Longrightarrow> read (token i) limit =
      Inr \<lparr>rp_records = take limit (drop i rows),
           rp_nextCursor = (if i + limit < length rows then token (i + limit) else None)\<rparr>"

fun chunks :: "nat \<Rightarrow> 'a list \<Rightarrow> 'a list list" where
  "chunks m xs = (if m = 0 \<or> length xs \<le> m then [xs] else take m xs # chunks m (drop m xs))"

declare chunks.simps [simp del]

lemma concat_chunks: "concat (chunks m xs) = xs"
  by (induction m xs rule: chunks.induct) (subst chunks.simps, simp)

lemma chunks_short: "0 < m \<Longrightarrow> \<forall>c\<in>set (chunks m xs). length c \<le> m"
  by (induction m xs rule: chunks.induct) (subst chunks.simps, simp)

lemma chunks_few: "0 < m \<Longrightarrow> length xs \<le> m * k \<Longrightarrow> length (chunks m xs) \<le> max 1 k"
proof (induction m xs arbitrary: k rule: chunks.induct)
  case (1 m xs)
  show ?case
  proof (cases "length xs \<le> m")
    case False
    have "1 < k"
    proof (rule ccontr)
      assume "\<not> 1 < k"
      then have "k = 0 \<or> k = 1" by auto
      then show False using 1(3) False by auto
    qed
    then obtain k' where k: "k = Suc k'" "k' \<noteq> 0" by (cases k) auto
    have "length (chunks m (drop m xs)) \<le> max 1 k'"
      using 1(1)[of k'] 1(2,3) False by (simp add: k(1))
    then show ?thesis using False 1(2) k by (subst chunks.simps) simp
  qed (subst chunks.simps, simp)
qed

lemma chunks_cut:
  assumes "0 < m" "w + m < length xs"
  shows "chunks m (drop w xs) = take m (drop w xs) # chunks m (drop (w + m) xs)"
proof -
  have "\<not> length (drop w xs) \<le> m" using assms(2) by (simp only: length_drop)
  then show ?thesis using assms(1) by (subst chunks.simps) (simp del: length_drop add: add.commute)
qed

lemma chunks_last: "\<not> w + m < length xs \<Longrightarrow> chunks m (drop w xs) = [drop w xs]"
  by (subst chunks.simps) (simp add: not_less le_diff_conv add.commute)

context page_source begin

lemma token_None: "token i = None \<longleftrightarrow> i = 0"
  using first_token token_some by (cases i) auto

lemma read_rows_source:
  assumes "0 < pageSize" "length acc < rowCount" "i \<le> length rows"
  shows "read_rows read pageSize rowCount acc (token i) =
    (let n = rowCount - length acc in
     Inr (acc @ take n (drop i rows), if i + n < length rows then token (i + n) else None))"
  using assms
proof (induction "rowCount - length acc" arbitrary: acc i rule: less_induct)
  case less
  let ?k = "min pageSize (rowCount - length acc)"
  have k: "0 < ?k" using less.prems by simp
  note step = page[OF less.prems(3) k]
  show ?case
  proof (cases "i + ?k < length rows")
    case False
    then have "length (drop i rows) \<le> ?k" by (simp only: length_drop)
    then have "take (rowCount - length acc) (drop i rows) = take ?k (drop i rows)" by simp
    moreover have "\<not> i + (rowCount - length acc) < length rows" using False by auto
    ultimately show ?thesis
      using False less.prems(2) by (subst read_rows.simps) (simp add: step Let_def)
  next
    case True
    let ?acc = "acc @ take ?k (drop i rows)"
    have len: "length (take ?k (drop i rows)) = ?k" using True by simp
    then have ne: "take ?k (drop i rows) \<noteq> []" using k by (cases "take ?k (drop i rows)") auto
    obtain t where tok: "token (i + ?k) = Some t" using k token_None[of "i + ?k"] by (cases "token (i + ?k)") auto
    have unfold1: "read_rows read pageSize rowCount acc (token i) = read_rows read pageSize rowCount ?acc (token (i + ?k))"
      using True less.prems(2) ne tok by (subst read_rows.simps) (simp add: step, use k in auto)
    show ?thesis
    proof (cases "length ?acc < rowCount")
      case more: True
      have shorter: "rowCount - length ?acc < rowCount - length acc"
        using grows[OF less.prems(2) ne] by simp
      have n: "rowCount - length acc = ?k + (rowCount - length ?acc)" using len less.prems(2) by simp
      have eq1: "take (rowCount - length acc) (drop i rows) =
          take ?k (drop i rows) @ take (rowCount - length ?acc) (drop (i + ?k) rows)"
        by (subst n) (simp only: take_add drop_drop add.commute[of i])
      have eq2: "i + (rowCount - length acc) = (i + ?k) + (rowCount - length ?acc)" using n by simp
      have "i + ?k \<le> length rows" using True by simp
      from less.hyps[OF shorter less.prems(1) more this] show ?thesis
        unfolding unfold1 Let_def eq1 eq2 by (simp only: append_assoc)
    next
      case full: False
      then have "?k = rowCount - length acc" using len by simp
      then show ?thesis unfolding unfold1 using full True by (subst read_rows.simps) (simp add: Let_def)
    qed
  qed
qed

lemma readRows_source:
  "0 < pageSize \<Longrightarrow> 0 < n \<Longrightarrow> i \<le> length rows \<Longrightarrow>
   readRows read pageSize (token i) n = Inr (take n (drop i rows), if i + n < length rows then token (i + n) else None)"
  using read_rows_source[of pageSize "[]" n i] by (simp add: readRows_def)

lemma csv_parts_source:
  assumes "0 < pageSize" "0 < m" "w < length rows"
  shows "csv_parts read pageSize m (length rows) (token w) w = Inr (chunks m (drop w rows))"
  using assms(3)
proof (induction "length rows - w" arbitrary: w rule: less_induct)
  case less
  let ?n = "min m (length rows - w)"
  have part: "readRows read pageSize (token w) ?n =
      Inr (take ?n (drop w rows), if w + ?n < length rows then token (w + ?n) else None)"
    using less.prems assms by (intro readRows_source) auto
  have ne: "take ?n (drop w rows) \<noteq> []" using less.prems assms(2) by auto
  show ?case
  proof (cases "w + m < length rows")
    case True
    then have "csv_parts read pageSize m (length rows) (token (w + m)) (w + m) = Inr (chunks m (drop (w + m) rows))"
      using assms(2) by (intro less.hyps) auto
    moreover have "?n = m" "length (take ?n (drop w rows)) = m" using True by auto
    moreover obtain t where "token (w + m) = Some t" using assms(2) token_None[of "w + m"] by auto
    ultimately show ?thesis using True less.prems part ne assms(2)
      by (subst csv_parts.simps) (simp add: chunks_cut)
  next
    case False
    then show ?thesis using less.prems part ne
      by (subst csv_parts.simps) (simp add: chunks_last)
  qed
qed

lemma xlsx_parts_source:
  assumes "0 < pageSize" "0 < m" "w < length rows \<or> w = 0"
  shows "xlsx_parts read pageSize m (length rows) (token w) w = Some (Inr (chunks m (drop w rows)))"
  using assms(3)
proof (induction "length rows - w" arbitrary: w rule: less_induct)
  case less
  let ?n = "min m (length rows - w)"
  show ?case
  proof (cases "w < length rows")
    case False
    then have "w = 0" "rows = []" using less.prems by auto
    then show ?thesis
      by (subst xlsx_parts.simps, subst chunks.simps) (simp add: readRows_def read_rows.simps first_token)
  next
    case wl: True
    have part: "readRows read pageSize (token w) ?n =
        Inr (take ?n (drop w rows), if w + ?n < length rows then token (w + ?n) else None)"
      using wl assms by (intro readRows_source) auto
    show ?thesis
    proof (cases "w + m < length rows")
      case True
      then have "xlsx_parts read pageSize m (length rows) (token (w + m)) (w + m) = Some (Inr (chunks m (drop (w + m) rows)))"
        using assms(2) by (intro less.hyps) auto
      moreover have "?n = m" "length (take ?n (drop w rows)) = m" using True by auto
      moreover have "token (w + m) \<noteq> None" using assms(2) token_None by simp
      ultimately show ?thesis using True part assms(2)
        by (subst xlsx_parts.simps) (simp add: chunks_cut)
    next
      case False
      then show ?thesis using wl part by (subst xlsx_parts.simps) (simp add: chunks_last)
    qed
  qed
qed

end

text \<open>The searches for a report are such a source: of the listing that the pages of the portal show.\<close>

definition row_token :: "paging_env \<Rightarrow> order \<Rightarrow> tx_row list \<Rightarrow> nat \<Rightarrow> string option" where
  "row_token e od rows i = (if i = 0 then None else Some (encodeCursor e (rows ! (i - 1)) (sortMeta (od_column od))))"

lemma last_take_drop: "0 < n \<Longrightarrow> i + n \<le> length xs \<Longrightarrow> last (take n (drop i xs)) = xs ! (i + n - 1)"
  by (simp add: last_conv_nth)

lemma report_source:
  assumes "cursor_codec e" and ok: "paging_ok e db od scope"
  shows "page_source (\<lambda>t n. findForReport e db c od t (int n) scope) (listing e db c od scope)
    (row_token e od (listing e db c od scope))"
proof
  let ?L = "listing e db c od scope" and ?m = "sortMeta (od_column od)"
  fix i limit :: nat
  assume i: "i \<le> length ?L" and limit: "0 < limit"
  obtain cur where cur: "(case row_token e od ?L i of None \<Rightarrow> Inr None | Some t \<Rightarrow> map_sum id Some (decodeCursor e t)) = Inr cur"
    and rows: "fetch_rows e db c ?m (od_direction od) cur (Suc limit) scope = take (Suc limit) (drop i ?L)"
  proof (cases i)
    case 0
    show ?thesis by (rule that[of None]) (simp_all add: 0 row_token_def cursor_codec.fetch_all[OF assms])
  next
    case (Suc j)
    then have j: "j < length ?L" using i by simp
    obtain cu where "decodeCursor e (encodeCursor e (?L ! j) ?m) = Inr cu"
      by (rule cursor_codec.decode_row[OF assms(1)])
    from this cursor_codec.fetch_after(1)[OF assms j this] show ?thesis
      by (intro that[of "Some cu"]) (simp_all add: Suc row_token_def)
  qed
  have "nat (max 1 (int limit)) + 1 = Suc limit" using limit by simp
  then have "findForReport e db c od (row_token e od ?L i) (int limit) scope =
      (let rows = take (Suc limit) (drop i ?L); hasMore = length rows \<ge> Suc limit;
           page = (if hasMore then take limit rows else rows)
       in Inr \<lparr>rp_records = page,
            rp_nextCursor = (if hasMore \<and> page \<noteq> [] then Some (encodeCursor e (last page) ?m) else None)\<rparr>)"
    using limit by (simp add: findForReport_def cur rows Let_def)
  also have "\<dots> = Inr \<lparr>rp_records = take limit (drop i ?L),
      rp_nextCursor = (if i + limit < length ?L then row_token e od ?L (i + limit) else None)\<rparr>"
  proof (cases "i + limit < length ?L")
    case True
    then have "Suc limit \<le> length (drop i ?L)" by (simp only: length_drop)
    moreover have "take limit (drop i ?L) \<noteq> []" using True limit by auto
    moreover have "last (take limit (drop i ?L)) = ?L ! (i + limit - 1)" using True limit by (intro last_take_drop) auto
    ultimately show ?thesis using True limit by (simp del: length_drop add: Let_def row_token_def)
  next
    case False
    then have "length (drop i ?L) \<le> limit" by (simp only: length_drop)
    then show ?thesis using False by (simp del: length_drop add: Let_def)
  qed
  finally show "findForReport e db c od (row_token e od ?L i) (int limit) scope = Inr \<lparr>rp_records = take limit (drop i ?L),
      rp_nextCursor = (if i + limit < length ?L then row_token e od ?L (i + limit) else None)\<rparr>" .
qed (simp_all add: row_token_def)

fun body_files :: "report_body \<Rightarrow> tx_row list list" where
  "body_files (CsvFile rows) = [rows]"
| "body_files (CsvZip parts) = parts"
| "body_files (XlsxZip parts) = parts"

text \<open>What a report must contain: exactly these rows in order, in at most \<open>z\<close> files of at most \<open>m\<close> rows.\<close>

definition report_holds :: "(report_failure, report_body) result option \<Rightarrow> tx_row list \<Rightarrow> nat \<Rightarrow> nat \<Rightarrow> bool" where
  "report_holds r rows m z = (case r of
     Some (Inr body) \<Rightarrow> concat (body_files body) = rows \<and> list_all (\<lambda>f. length f \<le> m) (body_files body) \<and>
       length (body_files body) \<le> z
   | _ \<Rightarrow> False)"

lemma report_complete:
  assumes "cursor_codec (se_paging (re_search e))" "paging_ok (se_paging (re_search e)) db (toOrder ps) (toAccessScope ps)"
    and "toCriteria e ps = Some c" "0 < rs_pageSize s" "0 < rs_maxRowsPerFile s" "0 < rs_maxZipFiles s"
  shows "let L = listing (se_paging (re_search e)) db c (toOrder ps) (toAccessScope ps);
           m = maxRowsPerGeneratedFile s (reportFileType fileType); n = maxDownloadRows s (reportFileType fileType)
         in if length L \<le> n then report_holds (generate e s db fileType ps) L m (rs_maxZipFiles s)
            else generate e s db fileType ps = Some (Inl (ReportError (too_many_rows n)))"
proof -
  let ?e = "se_paging (re_search e)" and ?od = "toOrder ps" and ?scope = "toAccessScope ps"
  let ?L = "listing ?e db c ?od ?scope" and ?t = "reportFileType fileType"
  let ?m = "maxRowsPerGeneratedFile s ?t" and ?n = "maxDownloadRows s ?t"
  let ?read = "\<lambda>t n. findForReport ?e db c ?od t (int n) ?scope"
  have "distinct (map tx_id (db_rows db))" using assms(2) by (simp add: paging_ok_def)
  note count = count_is_exact[OF this, of ?e c ?n ?scope ?od]
  note src = report_source[OF assms(1,2), of c]
  have tok: "row_token ?e ?od ?L 0 = None" by (simp add: row_token_def)
  have m: "0 < ?m" using assms(5) by (cases ?t) (simp_all add: maxRowsPerGeneratedFile_def XLSX_MAX_DATA_ROWS_PER_SHEET_def)
  show ?thesis
  proof (cases "length ?L \<le> ?n")
    case True
    then have "length ?L \<le> ?m * rs_maxZipFiles s" by (simp add: maxDownloadRows_def)
    from chunks_few[OF m this] have few: "length (chunks ?m ?L) \<le> rs_maxZipFiles s" using assms(6) by simp
    have holds: "concat (chunks ?m ?L) = ?L" "list_all (\<lambda>f. length f \<le> ?m) (chunks ?m ?L)"
      using chunks_short[OF m, of ?L] by (simp_all add: concat_chunks list_all_iff)
    have csv: "generateCsvReport s ?read (length ?L) ?m =
        (if length ?L \<le> ?m then Inr (CsvFile ?L) else Inr (CsvZip (chunks ?m ?L)))"
    proof (cases "length ?L \<le> ?m")
      case le: True
      have "readRows ?read (rs_pageSize s) None (length ?L) = Inr (?L, None)"
      proof (cases "?L")
        case (Cons r rs)
        then show ?thesis using page_source.readRows_source[OF src assms(4), of "length ?L" 0] tok by simp
      qed (simp add: readRows_def read_rows.simps)
      then show ?thesis using le by (simp add: generateCsvReport_def)
    next
      case False
      then show ?thesis using page_source.csv_parts_source[OF src assms(4) m, of 0] tok
        by (cases ?L) (simp_all add: generateCsvReport_def)
    qed
    have xlsx: "generateXlsxZip s ?read (length ?L) ?m = Some (Inr (XlsxZip (chunks ?m ?L)))"
      using page_source.xlsx_parts_source[OF src assms(4) m, of 0] tok by (simp add: generateXlsxZip_def)
    show ?thesis
      using True assms(3,6) csv xlsx few holds count
      by (cases ?t) (simp_all add: generate_def Let_def report_holds_def)
  next
    case False
    then show ?thesis using assms(3) count by (simp add: generate_def Let_def)
  qed
qed

text \<open>
  A report is the search it was made for.  The generator ends, and its files, one after the other, hold exactly
  the ordered listing of the rows that match the stored criteria and that the stored scope may see, each row
  once, in files of at most the configured number of rows and at most the configured number of files; or, when
  there are more rows than that, it fails with the message that says so.  It does not depend on the page size.
\<close>

theorem report_is_complete:
  assumes "cursor_codec (se_paging (re_search e))" "paging_ok (se_paging (re_search e)) db (toOrder ps) (toAccessScope ps)"
    and "toCriteria e ps = Some c" "0 < rs_pageSize s" "0 < rs_maxRowsPerFile s" "0 < rs_maxZipFiles s"
  shows "let L = listing (se_paging (re_search e)) db c (toOrder ps) (toAccessScope ps);
           m = maxRowsPerGeneratedFile s (reportFileType fileType); n = maxDownloadRows s (reportFileType fileType)
         in if length L \<le> n then report_holds (generate e s db fileType ps) L m (rs_maxZipFiles s)
            else generate e s db fileType ps = Some (Inl (ReportError (too_many_rows n)))"
  using assms by (rule report_complete)

theorem report_is_complete_witness:
  "report_holds (generate demo_report \<lparr>rs_pageSize = 1, rs_maxRowsPerFile = 1, rs_maxZipFiles = 2\<rparr> demo_rows '' CSV''
       (fromInput demo_report any_criteria \<lparr>od_column = TransactionCompletedAt, od_direction = Desc\<rparr> (Some ''a'')))
     [demo_row 3 ''t3'' ''c'' ''a'' 200, demo_row 1 ''t1'' ''a'' ''b'' 100] 1 2"
proof -
  let ?od = "\<lparr>od_column = TransactionCompletedAt, od_direction = Desc\<rparr>"
  let ?ps = "fromInput demo_report any_criteria ?od (Some ''a'')"
  let ?s = "\<lparr>rs_pageSize = 1, rs_maxRowsPerFile = 1, rs_maxZipFiles = 2\<rparr> :: report_settings"
  have e: "se_paging (re_search demo_report) = demo_paging" by (simp add: demo_report_def demo_search_def)
  have ps: "toOrder ?ps = ?od" "toAccessScope ?ps = Some ''a''" by (simp_all add: order_back scope_back some_text_def)
  have "storable any_criteria" by (simp add: storable_def any_criteria_def some_text_def some_sub_def)
  then have c: "toCriteria demo_report ?ps = Some any_criteria" by (rule demo_report.criteria_back)
  have ok: "paging_ok demo_paging demo_rows ?od (Some ''a'')" by code_simp
  have L: "listing demo_paging demo_rows any_criteria ?od (Some ''a'') =
      [demo_row 3 ''t3'' ''c'' ''a'' 200, demo_row 1 ''t1'' ''a'' ''b'' 100]" by code_simp
  have "reportFileType '' CSV'' = Csv" by code_simp
  then show ?thesis
    using report_is_complete[of demo_report demo_rows ?ps any_criteria ?s "'' CSV''"] ok c demo_codec.cursor_codec_axioms
    by (simp add: e ps L Let_def maxDownloadRows_def maxRowsPerGeneratedFile_def MAX_DOWNLOAD_ROWS_def)
qed

end
