(* ===== verification/Report_Text.thy ===== *)
theory Report_Text
  imports Report_Files
begin

text \<open>
  What \<open>transaction-report-generator.ts\<close> writes into the files of a report: the columns, the guard against formulas,
  CSV and the sheets of an XLSX workbook.  A text of an XLSX sheet is a list of Unicode code points, since the
  code replaces a code point by \<open>U+FFFD\<close> where XML forbids it.
\<close>

section \<open>Cells\<close>

datatype report_value = VNull | VText string | VNumber js_number | VBool bool | VDate int | VJson json

text \<open>
  What the language does: \<open>toISOString\<close>, \<open>String(number)\<close>, \<open>JSON.stringify\<close>, \<open>JSON.parse\<close> (\<open>None\<close> when it throws), and the number
  that the column transformer makes of a DECIMAL.
\<close>

record text_env =
  te_iso :: "int \<Rightarrow> string"
  te_number :: "js_number \<Rightarrow> string"
  te_stringify :: "json \<Rightarrow> string"
  te_parse :: "string \<Rightarrow> json option"
  te_decimal :: "int \<Rightarrow> js_number"

definition text_value :: "string option \<Rightarrow> report_value" where
  "text_value v = (case v of None \<Rightarrow> VNull | Some s \<Rightarrow> VText s)"

definition amount_value :: "text_env \<Rightarrow> int option \<Rightarrow> report_value" where
  "amount_value e v = (case v of None \<Rightarrow> VNull | Some d \<Rightarrow> VNumber (te_decimal e d))"

definition toRawJson :: "text_env \<Rightarrow> json option \<Rightarrow> report_value" where
  "toRawJson e v = (case present v of None \<Rightarrow> VNull | Some (JStr s) \<Rightarrow> VText s | Some j \<Rightarrow> VText (te_stringify e j))"

definition toReportRecord :: "text_env \<Rightarrow> tx_row \<Rightarrow> (string \<times> report_value) list" where
  "toReportRecord e r = [
     (''transferId'', VText (tx_correlationId r)),
     (''initiatedTimestamp'', VDate (tx_startedAt r)),
     (''payerFsp'', VText (id_fsp (tx_payer r))),
     (''payeeFsp'', VText (id_fsp (tx_payee r))),
     (''payerIdType'', text_value (id_type (tx_payer r))),
     (''payerId'', text_value (id_value (tx_payer r))),
     (''payerSubId'', text_value (id_sub (tx_payer r))),
     (''payerHomeTransactionId'', text_value (tx_payerHome r)),
     (''payeeIdType'', text_value (id_type (tx_payee r))),
     (''payeeId'', text_value (id_value (tx_payee r))),
     (''payeeSubId'', text_value (id_sub (tx_payee r))),
     (''payeeHomeTransactionId'', text_value (tx_payeeHome r)),
     (''quotingCurrency'', text_value (am_quotingCurrency (tx_amounts r))),
     (''quotingAmount'', amount_value e (am_quotingAmount (tx_amounts r))),
     (''payeeFee'', amount_value e (am_payeeFee (tx_amounts r))),
     (''payerFee'', amount_value e (am_payerFee (tx_amounts r))),
     (''schemeFee'', amount_value e (am_schemeFee (tx_amounts r))),
     (''payeeReceiveAmount'', amount_value e (am_payeeReceiveAmount (tx_amounts r))),
     (''transferAmount'', amount_value e (am_transferAmount (tx_amounts r))),
     (''transferState'', text_value (tx_state r)),
     (''useCase'', text_value (tx_subScenario r)),
     (''amountType'', text_value (tx_amountType r)),
     (''dispute'', VBool (tx_possibleDispute r)),
     (''partiesError'', toRawJson e (ph_error (tx_parties r))),
     (''quotesError'', toRawJson e (ph_error (tx_quotes r))),
     (''transfersError'', toRawJson e (ph_error (tx_transfers r))),
     (''patchError'', text_value (pt_error (tx_patch r)))]"

definition COLUMNS :: "(string \<times> string) list" where
  "COLUMNS = [
     (''Transfer ID'', ''transferId''),
     (''Initiated Timestamp'', ''initiatedTimestamp''),
     (''Payer FSP ID'', ''payerFsp''),
     (''Payee FSP ID'', ''payeeFsp''),
     (''Payer ID Type'', ''payerIdType''),
     (''Payer ID'', ''payerId''),
     (''Payer Sub ID'', ''payerSubId''),
     (''Payer Home Transaction ID'', ''payerHomeTransactionId''),
     (''Payee ID Type'', ''payeeIdType''),
     (''Payee ID'', ''payeeId''),
     (''Payee Sub ID'', ''payeeSubId''),
     (''Payee Home Transaction ID'', ''payeeHomeTransactionId''),
     (''Currency'', ''quotingCurrency''),
     (''Amount'', ''quotingAmount''),
     (''Payee Fee'', ''payeeFee''),
     (''Payer Fee'', ''payerFee''),
     (''Scheme Fee'', ''schemeFee''),
     (''Payee Receive Amount'', ''payeeReceiveAmount''),
     (''Transfer Amount'', ''transferAmount''),
     (''Transfer State in Hub'', ''transferState''),
     (''Use Case'', ''useCase''),
     (''Amount Type'', ''amountType''),
     (''Disputed'', ''dispute''),
     (''Account Lookup Error'', ''partiesError''),
     (''Quote Call Error'', ''quotesError''),
     (''Transfer Call Error'', ''transfersError''),
     (''Patch Call Error'', ''patchError'')]"

definition NULL_TEXT_COLUMN_KEYS :: "string list" where
  "NULL_TEXT_COLUMN_KEYS = [''payeeFee'', ''payerFee'', ''schemeFee'', ''payeeReceiveAmount'', ''transferAmount'']"

definition isTrueValue :: "report_value \<Rightarrow> bool" where
  "isTrueValue v \<longleftrightarrow> v = VBool True \<or> v = VText ''true'' \<or> v = VNumber (Finite 1) \<or> v = VText ''1''"

definition json_value :: "json \<Rightarrow> report_value" where
  "json_value j = (case j of JNull \<Rightarrow> VNull | JBool b \<Rightarrow> VBool b | JNum n \<Rightarrow> VNumber n | JStr s \<Rightarrow> VText s | _ \<Rightarrow> VJson j)"

definition omitResponseBody :: "json \<Rightarrow> json" where
  "omitResponseBody j = (case j of
     JObj fs \<Rightarrow> (let rest = filter (\<lambda>(k, _). k \<noteq> ''responseBody'') fs in if rest = [] then JNull else JObj rest)
   | _ \<Rightarrow> j)"

definition withoutPatchResponseBody :: "text_env \<Rightarrow> report_value \<Rightarrow> report_value" where
  "withoutPatchResponseBody e v = (case v of
     VText s \<Rightarrow>
       (let trimmed = trim s in
        if \<not> startsWith trimmed [CHR 0x7B] then v
        else case te_parse e trimmed of
          None \<Rightarrow> v
        | Some j \<Rightarrow> (let sanitized = omitResponseBody j in if sanitized = JNull then VNull else VText (te_stringify e sanitized)))
   | VJson j \<Rightarrow> json_value (omitResponseBody j)
   | _ \<Rightarrow> v)"

definition cell_of :: "(string \<times> report_value) list \<Rightarrow> string \<Rightarrow> report_value" where
  "cell_of row key = (case map_of row key of None \<Rightarrow> VNull | Some v \<Rightarrow> v)"

definition patchCallErrorValue :: "text_env \<Rightarrow> (string \<times> report_value) list \<Rightarrow> report_value" where
  "patchCallErrorValue e row =
     (if isTrueValue (cell_of row ''dispute'') then cell_of row ''patchError''
      else withoutPatchResponseBody e (cell_of row ''patchError''))"

definition reportCellValue :: "text_env \<Rightarrow> (string \<times> report_value) list \<Rightarrow> string \<Rightarrow> report_value" where
  "reportCellValue e row key =
     (if key = ''patchError'' then patchCallErrorValue e row
      else let v = cell_of row key in
        if v = VNull \<and> key \<in> set NULL_TEXT_COLUMN_KEYS then VText ''-'' else v)"

definition row_cells :: "text_env \<Rightarrow> tx_row \<Rightarrow> report_value list" where
  "row_cells e r = map (\<lambda>(_, key). reportCellValue e (toReportRecord e r) key) COLUMNS"

definition header_cells :: "report_value list" where
  "header_cells = map (\<lambda>(header, _). VText header) COLUMNS"

definition formula_start :: "char \<Rightarrow> bool" where
  "formula_start c \<longleftrightarrow> c = CHR ''='' \<or> c = CHR ''+'' \<or> c = CHR ''-'' \<or> c = CHR ''@''"

definition safeTextValue :: "text_env \<Rightarrow> report_value \<Rightarrow> string" where
  "safeTextValue e v =
     (let normalized = (case v of
            VDate t \<Rightarrow> te_iso e t
          | VText s \<Rightarrow> s
          | VNumber n \<Rightarrow> te_number e n
          | VBool b \<Rightarrow> bool_text b
          | VJson j \<Rightarrow> te_stringify e j
          | VNull \<Rightarrow> te_stringify e JNull)
      in if normalized = ''-'' then normalized
         else case normalized of [] \<Rightarrow> [] | c # _ \<Rightarrow> if formula_start c then CHR 0x27 # normalized else normalized)"

section \<open>CSV\<close>

definition QUOTE :: char where "QUOTE = CHR 0x22"
definition LF :: char where "LF = CHR 0x0A"
definition CR :: char where "CR = CHR 0x0D"

definition double_quotes :: "string \<Rightarrow> string" where
  "double_quotes s = concat (map (\<lambda>c. if c = QUOTE then [QUOTE, QUOTE] else [c]) s)"

definition csvValue :: "text_env \<Rightarrow> report_value \<Rightarrow> string" where
  "csvValue e v =
     (if v = VNull then ''''
      else let escaped = double_quotes (safeTextValue e v) in
        if list_ex (\<lambda>c. c = QUOTE \<or> c = CHR '','' \<or> c = LF \<or> c = CR) escaped
        then QUOTE # escaped @ [QUOTE] else escaped)"

definition csvRow :: "text_env \<Rightarrow> report_value list \<Rightarrow> string" where
  "csvRow e values = join_with '','' (map (csvValue e) values)"

text \<open>The content of \<open>generateCsvPart\<close>.\<close>

definition csvContent :: "text_env \<Rightarrow> tx_row list \<Rightarrow> string" where
  "csvContent e rows = join_with [LF] (csvRow e header_cells # map (\<lambda>r. csvRow e (row_cells e r)) rows) @ [LF]"

section \<open>XLSX\<close>

type_synonym code_points = "nat list"

definition code_points :: "string \<Rightarrow> code_points" where
  "code_points s = map code_unit s"

definition utf16_length :: "code_points \<Rightarrow> nat" where
  "utf16_length cs = sum_list (map (\<lambda>c. if c \<ge> 0x10000 then 2 else 1) cs)"

definition isValidXmlCharacter :: "nat \<Rightarrow> bool" where
  "isValidXmlCharacter c \<longleftrightarrow> c = 0x09 \<or> c = 0x0A \<or> c = 0x0D \<or> (0x20 \<le> c \<and> c \<le> 0xD7FF) \<or> (0xE000 \<le> c \<and> c \<le> 0xFFFD) \<or>
     (0x10000 \<le> c \<and> c \<le> 0x10FFFF)"

definition XLSX_MAX_CELL_TEXT_LENGTH :: nat where "XLSX_MAX_CELL_TEXT_LENGTH = 32767"

definition safe_character :: "nat \<Rightarrow> nat" where
  "safe_character c = (if isValidXmlCharacter c then c else 0xFFFD)"

fun cell_text_loop :: "code_points \<Rightarrow> code_points \<Rightarrow> code_points" where
  "cell_text_loop result [] = result"
| "cell_text_loop result (c # cs) =
     (if utf16_length result + utf16_length [safe_character c] > XLSX_MAX_CELL_TEXT_LENGTH then result
      else cell_text_loop (result @ [safe_character c]) cs)"

definition xlsxTextValue :: "text_env \<Rightarrow> report_value \<Rightarrow> code_points" where
  "xlsxTextValue e v = cell_text_loop [] (code_points (safeTextValue e v))"

definition xml_escape :: "nat \<Rightarrow> code_points" where
  "xml_escape c = code_points
     (if c = 0x26 then ''&amp;'' else if c = 0x3C then ''&lt;'' else if c = 0x3E then ''&gt;''
      else if c = 0x22 then ''&quot;'' else if c = 0x27 then ''&apos;'' else [])
      @ (if c \<in> {0x26, 0x3C, 0x3E, 0x22, 0x27} then [] else [c])"

definition xmlValue :: "code_points \<Rightarrow> code_points" where
  "xmlValue cs = concat (map xml_escape cs)"

fun column_loop :: "nat \<Rightarrow> string \<Rightarrow> string" where
  "column_loop current name =
     (if current = 0 then name
      else column_loop ((current - 1) div 26) (char_of (65 + (current - 1) mod 26) # name))"

declare column_loop.simps [simp del]

definition xlsxColumnName :: "nat \<Rightarrow> string" where
  "xlsxColumnName columnNumber = column_loop columnNumber ''''"

definition xlsxCell :: "text_env \<Rightarrow> nat \<Rightarrow> nat \<Rightarrow> report_value \<Rightarrow> code_points" where
  \<open>xlsxCell e rowNumber columnNumber v =
     (let reference = xlsxColumnName columnNumber @ dec_of_nat rowNumber in
      case v of
        VNull \<Rightarrow> code_points (''<c r="'' @ reference @ ''"/>'')
      | VNumber (Finite q) \<Rightarrow> code_points (''<c r="'' @ reference @ ''"><v>'' @ te_number e (Finite q) @ ''</v></c>'')
      | _ \<Rightarrow> code_points (''<c r="'' @ reference @ ''" t="inlineStr"><is><t>'') @ xmlValue (xlsxTextValue e v) @
             code_points ''</t></is></c>'')\<close>

fun cells_from :: "text_env \<Rightarrow> nat \<Rightarrow> nat \<Rightarrow> report_value list \<Rightarrow> code_points" where
  "cells_from e rowNumber column [] = []"
| "cells_from e rowNumber column (v # vs) = xlsxCell e rowNumber column v @ cells_from e rowNumber (column + 1) vs"

definition xlsxRow :: "text_env \<Rightarrow> nat \<Rightarrow> report_value list \<Rightarrow> code_points" where
  \<open>xlsxRow e rowNumber values =
     code_points (''<row r="'' @ dec_of_nat rowNumber @ ''">'') @ cells_from e rowNumber 1 values @ code_points ''</row>''\<close>

fun sheet_rows :: "text_env \<Rightarrow> nat \<Rightarrow> report_value list list \<Rightarrow> code_points" where
  "sheet_rows e n [] = []"
| "sheet_rows e n (r # rs) = xlsxRow e n r @ sheet_rows e (n + 1) rs"

definition xml_lines :: "string list \<Rightarrow> string" where
  \<open>xml_lines ls = join_with [LF] (''<?xml version="1.0" encoding="UTF-8" standalone="yes"?>'' # ls)\<close>

definition xlsxSheet :: "code_points \<Rightarrow> code_points" where
  \<open>xlsxSheet rows =
     code_points (xml_lines [''<worksheet xmlns="http://schemas.openxmlformats.org/spreadsheetml/2006/main" xmlns:r="http://schemas.openxmlformats.org/officeDocument/2006/relationships">'',
       ''<sheetData>'']) @ rows @ code_points (join_with [LF] [''</sheetData>'', ''</worksheet>''])\<close>

definition xlsxContentTypes :: string where
  \<open>xlsxContentTypes = xml_lines [
     ''<Types xmlns="http://schemas.openxmlformats.org/package/2006/content-types">'',
     ''<Default Extension="rels" ContentType="application/vnd.openxmlformats-package.relationships+xml"/>'',
     ''<Default Extension="xml" ContentType="application/xml"/>'',
     ''<Override PartName="/xl/workbook.xml" ContentType="application/vnd.openxmlformats-officedocument.spreadsheetml.sheet.main+xml"/>'',
     ''<Override PartName="/xl/worksheets/sheet1.xml" ContentType="application/vnd.openxmlformats-officedocument.spreadsheetml.worksheet+xml"/>'',
     ''<Override PartName="/xl/styles.xml" ContentType="application/vnd.openxmlformats-officedocument.spreadsheetml.styles+xml"/>'',
     ''</Types>'']\<close>

definition xlsxRootRels :: string where
  \<open>xlsxRootRels = xml_lines [
     ''<Relationships xmlns="http://schemas.openxmlformats.org/package/2006/relationships">'',
     ''<Relationship Id="rId1" Type="http://schemas.openxmlformats.org/officeDocument/2006/relationships/officeDocument" Target="xl/workbook.xml"/>'',
     ''</Relationships>'']\<close>

definition xlsxWorkbook :: string where
  \<open>xlsxWorkbook = xml_lines [
     ''<workbook xmlns="http://schemas.openxmlformats.org/spreadsheetml/2006/main" xmlns:r="http://schemas.openxmlformats.org/officeDocument/2006/relationships">'',
     ''<sheets><sheet name="Transactions" sheetId="1" r:id="rId1"/></sheets>'',
     ''</workbook>'']\<close>

definition xlsxWorkbookRels :: string where
  \<open>xlsxWorkbookRels = xml_lines [
     ''<Relationships xmlns="http://schemas.openxmlformats.org/package/2006/relationships">'',
     ''<Relationship Id="rId1" Type="http://schemas.openxmlformats.org/officeDocument/2006/relationships/worksheet" Target="worksheets/sheet1.xml"/>'',
     ''<Relationship Id="rId2" Type="http://schemas.openxmlformats.org/officeDocument/2006/relationships/styles" Target="styles.xml"/>'',
     ''</Relationships>'']\<close>

definition xlsxStyles :: string where
  \<open>xlsxStyles = xml_lines [
     ''<styleSheet xmlns="http://schemas.openxmlformats.org/spreadsheetml/2006/main">'',
     ''<fonts count="1"><font><sz val="11"/><name val="Calibri"/></font></fonts>'',
     ''<fills count="1"><fill><patternFill patternType="none"/></fill></fills>'',
     ''<borders count="1"><border><left/><right/><top/><bottom/><diagonal/></border></borders>'',
     ''<cellStyleXfs count="1"><xf numFmtId="0" fontId="0" fillId="0" borderId="0"/></cellStyleXfs>'',
     ''<cellXfs count="1"><xf numFmtId="0" fontId="0" fillId="0" borderId="0" xfId="0"/></cellXfs>'',
     ''</styleSheet>'']\<close>

text \<open>The entries of a zip archive in order; the archive format is that of the library.\<close>

type_synonym 'c zip = "(string \<times> 'c) list"

definition generateXlsxPart :: "text_env \<Rightarrow> tx_row list \<Rightarrow> code_points zip" where
  "generateXlsxPart e rows =
     [(''[Content_Types].xml'', code_points xlsxContentTypes),
      (''_rels/.rels'', code_points xlsxRootRels),
      (''xl/workbook.xml'', code_points xlsxWorkbook),
      (''xl/_rels/workbook.xml.rels'', code_points xlsxWorkbookRels),
      (''xl/styles.xml'', code_points xlsxStyles),
      (''xl/worksheets/sheet1.xml'', xlsxSheet (sheet_rows e 1 (header_cells # map (row_cells e) rows)))]"

datatype file_bytes = CsvBytes string | CsvArchive "string zip" | XlsxArchive "code_points zip zip"

record report_file =
  rf_bytes :: file_bytes
  rf_extension :: string
  rf_contentType :: string

definition part_name :: "string \<Rightarrow> nat \<Rightarrow> string \<Rightarrow> string" where
  "part_name requestId n ext = ''TransactionReport-'' @ requestId @ ''-Part'' @ dec_of_nat n @ ''.'' @ ext"

definition report_file_of :: "text_env \<Rightarrow> string \<Rightarrow> report_body \<Rightarrow> report_file" where
  "report_file_of e requestId body = (case body of
     CsvFile rows \<Rightarrow> \<lparr>rf_bytes = CsvBytes (csvContent e rows), rf_extension = ''csv'', rf_contentType = ''text/csv''\<rparr>
   | CsvZip parts \<Rightarrow> \<lparr>rf_bytes = CsvArchive
       (map (\<lambda>(n, rows). (part_name requestId n ''csv'', csvContent e rows)) (zip [1..<length parts + 1] parts)),
       rf_extension = ''zip'', rf_contentType = ''application/zip''\<rparr>
   | XlsxZip parts \<Rightarrow> \<lparr>rf_bytes = XlsxArchive
       (map (\<lambda>(n, rows). (part_name requestId n ''xlsx'', generateXlsxPart e rows)) (zip [1..<length parts + 1] parts)),
       rf_extension = ''zip'', rf_contentType = ''application/zip''\<rparr>)"

section \<open>Reading CSV back\<close>

text \<open>A reader of CSV as RFC 4180 describes it: fields, rows, and quoted fields with doubled quotes.\<close>

datatype csv_mode = Plain | Quoted | Closing

fun csv_read :: "csv_mode \<Rightarrow> string \<Rightarrow> string list \<Rightarrow> string \<Rightarrow> string list list" where
  "csv_read m cur row [] = (if m = Plain \<and> cur = [] \<and> row = [] then [] else [row @ [cur]])"
| "csv_read Plain cur row (c # cs) =
     (if c = CHR '','' then csv_read Plain [] (row @ [cur]) cs
      else if c = LF then (row @ [cur]) # csv_read Plain [] [] cs
      else if c = QUOTE \<and> cur = [] then csv_read Quoted [] row cs
      else csv_read Plain (cur @ [c]) row cs)"
| "csv_read Quoted cur row (c # cs) =
     (if c = QUOTE then csv_read Closing cur row cs else csv_read Quoted (cur @ [c]) row cs)"
| "csv_read Closing cur row (c # cs) =
     (if c = QUOTE then csv_read Quoted (cur @ [QUOTE]) row cs
      else if c = CHR '','' then csv_read Plain [] (row @ [cur]) cs
      else if c = LF then (row @ [cur]) # csv_read Plain [] [] cs
      else csv_read Plain (cur @ [c]) row cs)"

text \<open>The text that a reader finds in a cell.\<close>

definition cell_text :: "text_env \<Rightarrow> report_value \<Rightarrow> string" where
  "cell_text e v = (if v = VNull then '''' else safeTextValue e v)"

lemma csv_chars [simp]:
  "QUOTE \<noteq> CHR '','' \<and> CHR '','' \<noteq> QUOTE \<and> QUOTE \<noteq> LF \<and> LF \<noteq> QUOTE \<and> LF \<noteq> CHR '','' \<and> CHR '','' \<noteq> LF"
  by (simp add: QUOTE_def LF_def)

definition special_char :: "char \<Rightarrow> bool" where
  "special_char c \<longleftrightarrow> c = QUOTE \<or> c = CHR '','' \<or> c = LF \<or> c = CR"

lemma csv_read_plain:
  "list_all (\<lambda>c. \<not> special_char c) s \<Longrightarrow> csv_read Plain cur row (s @ rest) = csv_read Plain (cur @ s) row rest"
  by (induction s arbitrary: cur) (auto simp: special_char_def)

lemma csv_read_quoted:
  "csv_read Quoted cur row (double_quotes s @ QUOTE # rest) = csv_read Closing (cur @ s) row rest"
  by (induction s arbitrary: cur) (simp_all add: double_quotes_def)

lemma double_quotes_special: "list_ex special_char (double_quotes s) \<longleftrightarrow> list_ex special_char s"
  by (induction s) (auto simp: double_quotes_def special_char_def)

lemma double_quotes_plain: "\<not> list_ex special_char s \<Longrightarrow> double_quotes s = s"
  by (induction s) (auto simp: double_quotes_def special_char_def)

lemma csvValue_cell:
  "csvValue e v = (let s = cell_text e v in if list_ex special_char s then QUOTE # double_quotes s @ [QUOTE] else s)"
proof -
  have "(\<lambda>c. c = QUOTE \<or> c = CHR '','' \<or> c = LF \<or> c = CR) = special_char"
    by (rule ext) (simp add: special_char_def)
  then show ?thesis
    by (cases "v = VNull") (simp_all add: csvValue_def cell_text_def Let_def double_quotes_special double_quotes_plain)
qed

text \<open>A cell in front of the end of its field.\<close>

lemma csv_read_cell:
  assumes "t = CHR '','' \<or> t = LF"
  shows "csv_read Plain [] row (csvValue e v @ t # rest) =
    (if t = LF then (row @ [cell_text e v]) # csv_read Plain [] [] rest
     else csv_read Plain [] (row @ [cell_text e v]) rest)"
proof (cases "list_ex special_char (cell_text e v)")
  case True
  then have "csv_read Plain [] row (csvValue e v @ t # rest) =
      csv_read Quoted [] row (double_quotes (cell_text e v) @ QUOTE # t # rest)"
    by (simp add: csvValue_cell Let_def)
  then show ?thesis using assms by (auto simp: csv_read_quoted)
next
  case False
  then have "list_all (\<lambda>c. \<not> special_char c) (cell_text e v)" by (auto simp: list_ex_iff list_all_iff)
  then have "csv_read Plain [] row (csvValue e v @ t # rest) = csv_read Plain (cell_text e v) row (t # rest)"
    using False csv_read_plain[of "cell_text e v" "[]" row "t # rest"] by (simp add: csvValue_cell Let_def)
  then show ?thesis using assms by auto
qed

lemma csv_read_row:
  "vs \<noteq> [] \<Longrightarrow> csv_read Plain [] row (csvRow e vs @ LF # rest) = (row @ map (cell_text e) vs) # csv_read Plain [] [] rest"
proof (induction vs arbitrary: row)
  case (Cons v vs)
  show ?case
  proof (cases vs)
    case Nil
    then show ?thesis by (simp add: csvRow_def csv_read_cell)
  next
    case (Cons w ws)
    then have "csvRow e (v # vs) @ LF # rest = csvValue e v @ CHR '','' # (csvRow e vs @ LF # rest)"
      by (simp add: csvRow_def)
    then show ?thesis using Cons.IH[of "row @ [cell_text e v]"] Cons by (simp add: csv_read_cell)
  qed
qed simp

lemma csv_read_rows:
  "list_all (\<lambda>vs. vs \<noteq> []) rows \<Longrightarrow> csv_read Plain [] [] (concat (map (\<lambda>vs. csvRow e vs @ [LF]) rows)) = map (map (cell_text e)) rows"
  by (induction rows) (simp_all add: csv_read_row)

lemma join_lines: "ls \<noteq> [] \<Longrightarrow> join_with d ls @ d = concat (map (\<lambda>l. l @ d) ls)"
  by (induction d ls rule: join_with.induct) simp_all

lemma row_cells_not_Nil [simp]: "row_cells e r \<noteq> []" "header_cells \<noteq> []"
  by (simp_all add: row_cells_def header_cells_def COLUMNS_def)

text \<open>No cell can be read as a formula by a spreadsheet.\<close>

definition no_formula :: "string \<Rightarrow> bool" where
  "no_formula s \<longleftrightarrow> s = ''-'' \<or> s = [] \<or> \<not> formula_start (hd s)"

lemma safeTextValue_no_formula: "no_formula (safeTextValue e v)"
  by (auto simp: safeTextValue_def no_formula_def formula_start_def Let_def split: list.splits)

text \<open>
  C38: a CSV file is read back cell by cell.  A reader of RFC 4180 finds the header and one row of 27 cells for every
  row of the report, with exactly the texts the generator meant, whatever quotes, commas, line breaks or
  formulas the payloads contain; and no cell starts a formula.
\<close>

theorem csv_report_reads_back:
  "csv_read Plain [] [] (csvContent e rows) = map fst COLUMNS # map (\<lambda>r. map (cell_text e) (row_cells e r)) rows \<and>
   list_all (list_all no_formula) (csv_read Plain [] [] (csvContent e rows))"
proof -
  have "csvContent e rows = concat (map (\<lambda>vs. csvRow e vs @ [LF]) (header_cells # map (row_cells e) rows))"
    using join_lines[of "csvRow e header_cells # map (\<lambda>r. csvRow e (row_cells e r)) rows" "[LF]"]
    by (simp add: csvContent_def comp_def)
  moreover have "list_all (\<lambda>vs. vs \<noteq> []) (header_cells # map (row_cells e) rows)" by (simp add: list_all_iff)
  ultimately have read: "csv_read Plain [] [] (csvContent e rows) = map (map (cell_text e)) (header_cells # map (row_cells e) rows)"
    by (simp only: csv_read_rows)
  moreover have "map (cell_text e) header_cells = map fst COLUMNS"
    by (simp add: header_cells_def COLUMNS_def cell_text_def safeTextValue_def formula_start_def)
  moreover have "no_formula (cell_text e v)" for v
    using safeTextValue_no_formula by (simp add: cell_text_def) (simp add: no_formula_def)
  then have "list_all (list_all no_formula) (csv_read Plain [] [] (csvContent e rows))"
    unfolding read by (simp add: list_all_iff)
  ultimately show ?thesis by simp
qed

section \<open>Texts of a sheet\<close>

text \<open>The characters that the entities of \<open>xmlValue\<close> stand for.\<close>

fun xml_unescape :: "code_points \<Rightarrow> code_points" where
  "xml_unescape [] = []"
| "xml_unescape (c # cs) =
     (if c \<noteq> 0x26 then c # xml_unescape cs
      else if take 4 cs = code_points ''amp;'' then 0x26 # xml_unescape (drop 4 cs)
      else if take 3 cs = code_points ''lt;'' then 0x3C # xml_unescape (drop 3 cs)
      else if take 3 cs = code_points ''gt;'' then 0x3E # xml_unescape (drop 3 cs)
      else if take 5 cs = code_points ''quot;'' then 0x22 # xml_unescape (drop 5 cs)
      else if take 5 cs = code_points ''apos;'' then 0x27 # xml_unescape (drop 5 cs)
      else c # xml_unescape cs)"

lemma xml_unescape_escape: "xml_unescape (xml_escape c @ cs) = c # xml_unescape cs"
  by (simp add: xml_escape_def code_points_def code_unit_def)

lemma xml_unescape_value: "xml_unescape (xmlValue cs) = cs"
  by (induction cs) (simp_all add: xmlValue_def xml_unescape_escape)

lemma xml_escape_no_markup: "c' \<in> set (xml_escape c) \<Longrightarrow> c' \<notin> {0x3C, 0x3E, 0x22, 0x27}"
  by (auto simp: xml_escape_def code_points_def code_unit_def split: if_splits)

lemma utf16_append [simp]: "utf16_length (xs @ ys) = utf16_length xs + utf16_length ys"
  by (simp add: utf16_length_def)

lemma cell_text_loop_prefix:
  assumes "utf16_length result \<le> XLSX_MAX_CELL_TEXT_LENGTH"
  shows "\<exists>n. cell_text_loop result cs = result @ map safe_character (take n cs) \<and>
    utf16_length (cell_text_loop result cs) \<le> XLSX_MAX_CELL_TEXT_LENGTH \<and>
    (n < length cs \<longrightarrow> utf16_length (result @ map safe_character (take (Suc n) cs)) > XLSX_MAX_CELL_TEXT_LENGTH)"
  using assms
proof (induction cs arbitrary: result)
  case (Cons c cs)
  show ?case
  proof (cases "utf16_length result + utf16_length [safe_character c] > XLSX_MAX_CELL_TEXT_LENGTH")
    case True
    then show ?thesis using Cons.prems by (intro exI[of _ 0]) simp
  next
    case False
    then have "utf16_length (result @ [safe_character c]) \<le> XLSX_MAX_CELL_TEXT_LENGTH" by simp
    from Cons.IH[OF this] obtain n where "cell_text_loop (result @ [safe_character c]) cs = (result @ [safe_character c]) @ map safe_character (take n cs)"
      "utf16_length (cell_text_loop (result @ [safe_character c]) cs) \<le> XLSX_MAX_CELL_TEXT_LENGTH"
      "n < length cs \<longrightarrow> utf16_length ((result @ [safe_character c]) @ map safe_character (take (Suc n) cs)) > XLSX_MAX_CELL_TEXT_LENGTH"
      by blast
    then show ?thesis using False by (intro exI[of _ "Suc n"]) simp
  qed
qed simp

lemma safe_character_valid: "isValidXmlCharacter (safe_character c)"
  by (simp add: safe_character_def isValidXmlCharacter_def)

text \<open>
  The text of a sheet cell is well-formed and as long as it may be.  It is the longest prefix of the guarded text,
  with the characters XML forbids replaced, that fits into a cell of Excel; the escaped text contains no
  markup, and a reader that resolves the entities gets it back.
\<close>

theorem sheet_text_well_formed:
  "let text = xlsxTextValue e v; all = map safe_character (code_points (safeTextValue e v))
   in text = take (length text) all \<and> list_all isValidXmlCharacter text \<and>
      utf16_length text \<le> XLSX_MAX_CELL_TEXT_LENGTH \<and>
      (text = all \<or> utf16_length (take (Suc (length text)) all) > XLSX_MAX_CELL_TEXT_LENGTH) \<and>
      xml_unescape (xmlValue text) = text \<and> list_all (\<lambda>c. c \<notin> {0x3C, 0x3E, 0x22, 0x27}) (xmlValue text)"
proof -
  let ?cs = "code_points (safeTextValue e v)" and ?text = "xlsxTextValue e v"
  let ?all = "map safe_character ?cs"
  have "utf16_length [] \<le> XLSX_MAX_CELL_TEXT_LENGTH" by (simp add: utf16_length_def)
  from cell_text_loop_prefix[OF this, of ?cs] obtain n where n: "?text = map safe_character (take n ?cs)" "utf16_length ?text \<le> XLSX_MAX_CELL_TEXT_LENGTH"
    "n < length ?cs \<longrightarrow> utf16_length (map safe_character (take (Suc n) ?cs)) > XLSX_MAX_CELL_TEXT_LENGTH"
    unfolding xlsxTextValue_def append_Nil by blast
  have prefix: "?text = take (length ?text) ?all" by (simp add: n(1) take_map min_def)
  have max: "?text = ?all \<or> utf16_length (take (Suc (length ?text)) ?all) > XLSX_MAX_CELL_TEXT_LENGTH"
    using n(3) by (cases "n < length ?cs") (simp_all add: n(1) take_map)
  have "list_all isValidXmlCharacter ?text" by (simp add: n(1) list_all_iff safe_character_valid)
  moreover have "list_all (\<lambda>c. c \<notin> {0x3C, 0x3E, 0x22, 0x27}) (xmlValue ?text)"
    using xml_escape_no_markup by (fastforce simp: xmlValue_def list_all_iff)
  ultimately show ?thesis using prefix max n(2) unfolding Let_def by (simp only: xml_unescape_value simp_thms)
qed

text \<open>The column names A, B, ..., Z, AA, ... are the numbers from 1 in bijective base 26.\<close>

definition column_number :: "nat \<Rightarrow> string \<Rightarrow> nat" where
  "column_number = foldl (\<lambda>n c. n * 26 + (code_unit c - 64))"

lemma column_loop_number: "column_number 0 (column_loop current name) = column_number current name"
proof (induction current name rule: column_loop.induct)
  case (1 current name)
  show ?case
  proof (cases "current = 0")
    case False
    have "(current - 1) mod 26 < 26" by simp
    then have "code_unit (char_of (65 + (current - 1) mod 26)) = 65 + (current - 1) mod 26"
      by (simp add: code_unit_def)
    moreover have "(current - 1) div 26 * 26 + (Suc ((current - 1) mod 26)) = current" using False by simp
    ultimately show ?thesis using 1[OF False] False by (subst column_loop.simps) (simp add: column_number_def)
  qed (subst column_loop.simps, simp)
qed

lemma column_number_name: "column_number 0 (xlsxColumnName n) = n"
  unfolding xlsxColumnName_def column_loop_number by (simp add: column_number_def)

lemma column_names_distinct: "xlsxColumnName m = xlsxColumnName n \<longleftrightarrow> m = n"
  using column_number_name by metis

end
