(* ===== verification/Report_Jobs.thy ===== *)
theory Report_Jobs
  imports Report_Text
begin

text \<open>
  The life of a report request: the tables of \<open>report-download.repository.ts\<close>, the commands and queries of the
  portal (\<open>create-transaction-report.handler.ts\<close>, \<open>get-report-download-*.handler.ts\<close>, \<open>transaction-reports.controller.ts\<close>)
  and the workers of \<open>report-download-processor.ts\<close>.  Every statement on the database is one step; the steps of
  the workers of all processes interleave in any order.
\<close>

section \<open>The tables\<close>

datatype report_status = PENDING | RUNNING | READY | FAILED

record report_request =
  rq_id :: nat
  rq_reportType :: string
  rq_signature :: string
  rq_status :: report_status
  rq_fileType :: string
  rq_fileKey :: "string option"
  rq_error :: "string option"
  rq_user :: "string option"
  rq_fsp :: "string option"
  rq_finishedAt :: "int option"
  rq_createdAt :: int
  rq_updatedAt :: int

text \<open>The parameters are rows (request, key, value) in the order of their identifiers.\<close>

record job_db =
  jd_requests :: "report_request list"
  jd_params :: "(nat \<times> string \<times> string option) list"

record create_input =
  ci_reportType :: string
  ci_fileType :: string
  ci_params :: params
  ci_user :: "string option"
  ci_fsp :: "string option"

text \<open>The hash over the JSON text of the type, the file type and the sorted parameters; the collation of texts.\<close>

record job_env =
  je_hash :: "string \<Rightarrow> string \<Rightarrow> params \<Rightarrow> string"
  je_collate :: "string \<Rightarrow> string"
  je_maxConcurrent :: nat
  je_staleTtl :: int
  je_report :: report_env
  je_text :: text_env
  je_settings :: report_settings

definition sortObject :: "params \<Rightarrow> params" where
  "sortObject ps = order_rows (\<lambda>a b. map code_unit (fst a) < map code_unit (fst b)) ps"

definition signature :: "job_env \<Rightarrow> string \<Rightarrow> string \<Rightarrow> params \<Rightarrow> string" where
  "signature e reportType fileType ps = je_hash e reportType fileType (sortObject ps)"

definition MAX_ERROR_LENGTH :: nat where "MAX_ERROR_LENGTH = 1000"

definition trimError :: "string \<Rightarrow> string" where
  "trimError message = (if length message > MAX_ERROR_LENGTH then take MAX_ERROR_LENGTH message else message)"

definition find_request :: "nat \<Rightarrow> job_db \<Rightarrow> report_request option" where
  "find_request i db = find (\<lambda>r. rq_id r = i) (jd_requests db)"

definition update_requests :: "(report_request \<Rightarrow> bool) \<Rightarrow> (report_request \<Rightarrow> report_request) \<Rightarrow> job_db \<Rightarrow> job_db" where
  "update_requests P f db = db\<lparr>jd_requests := map (\<lambda>r. if P r then f r else r) (jd_requests db)\<rparr>"

definition affected :: "(report_request \<Rightarrow> bool) \<Rightarrow> job_db \<Rightarrow> nat" where
  "affected P db = length (filter P (jd_requests db))"

section \<open>Statements\<close>

text \<open>
  Identifiers come from the Snowflake generator (theory Identifiers), which never returns one twice; a step that
  would reuse one is not a step of the program and leaves the tables as they are.
\<close>

definition createPending :: "job_env \<Rightarrow> nat \<Rightarrow> int \<Rightarrow> create_input \<Rightarrow> job_db \<Rightarrow> report_request option \<times> job_db" where
  "createPending e i now inp db =
     (if find_request i db \<noteq> None then (None, db)
      else let request = \<lparr>rq_id = i, rq_reportType = ci_reportType inp,
             rq_signature = signature e (ci_reportType inp) (ci_fileType inp) (ci_params inp), rq_status = PENDING,
             rq_fileType = ci_fileType inp, rq_fileKey = None, rq_error = None, rq_user = ci_user inp, rq_fsp = ci_fsp inp,
             rq_finishedAt = None, rq_createdAt = now, rq_updatedAt = now\<rparr>
           in (Some request, db\<lparr>jd_requests := jd_requests db @ [request],
                 jd_params := jd_params db @ map (\<lambda>(k, v). (i, k, Some v)) (ci_params inp)\<rparr>))"

definition scope_matches :: "job_env \<Rightarrow> string option \<Rightarrow> string option \<Rightarrow> bool" where
  "scope_matches e column wanted = (case wanted of
     None \<Rightarrow> True
   | Some w \<Rightarrow> (case column of None \<Rightarrow> False | Some c \<Rightarrow> je_collate e c = je_collate e w))"

text \<open>The access scope is the pair of a user and an FSP.\<close>

definition findById :: "job_env \<Rightarrow> nat \<Rightarrow> (string option \<times> string option) option \<Rightarrow> job_db \<Rightarrow> report_request option" where
  "findById e i scope db = find (\<lambda>r. rq_id r = i \<and>
     (case scope of None \<Rightarrow> True | Some (user, fsp) \<Rightarrow> scope_matches e (rq_fsp r) fsp \<and> scope_matches e (rq_user r) user))
     (jd_requests db)"

definition findParamsByRequestId :: "nat \<Rightarrow> job_db \<Rightarrow> params" where
  "findParamsByRequestId i db =
     fold (\<lambda>(_, k, v). AList.update k (or_empty v)) (filter (\<lambda>(j, _, _). j = i) (jd_params db)) []"

text \<open>The oldest pending request; the index orders requests of the same time by identifier.\<close>

definition next_pending :: "job_db \<Rightarrow> report_request option" where
  "next_pending db =
     (case order_rows (\<lambda>a b. (rq_createdAt a, rq_id a) < (rq_createdAt b, rq_id b))
             (filter (\<lambda>r. rq_status r = PENDING) (jd_requests db)) of
        [] \<Rightarrow> None
      | r # _ \<Rightarrow> Some r)"

definition pending_is :: "nat \<Rightarrow> report_request \<Rightarrow> bool" where
  "pending_is i r \<longleftrightarrow> rq_id r = i \<and> rq_status r = PENDING"

definition running_is :: "nat \<Rightarrow> report_request \<Rightarrow> bool" where
  "running_is i r \<longleftrightarrow> rq_id r = i \<and> rq_status r = RUNNING"

definition try_claim :: "nat \<Rightarrow> int \<Rightarrow> job_db \<Rightarrow> bool \<times> job_db" where
  "try_claim i now db =
     (affected (pending_is i) db = 1, update_requests (pending_is i) (\<lambda>r. r\<lparr>rq_status := RUNNING, rq_updatedAt := now\<rparr>) db)"

definition countFreshRunning :: "int \<Rightarrow> job_db \<Rightarrow> nat" where
  "countFreshRunning staleBefore db = affected (\<lambda>r. rq_status r = RUNNING \<and> rq_updatedAt r \<ge> staleBefore) db"

definition touchRunning :: "nat \<Rightarrow> int \<Rightarrow> job_db \<Rightarrow> bool \<times> job_db" where
  "touchRunning i now db = (affected (running_is i) db = 1, update_requests (running_is i) (\<lambda>r. r\<lparr>rq_updatedAt := now\<rparr>) db)"

definition markReady :: "nat \<Rightarrow> int \<Rightarrow> string \<Rightarrow> job_db \<Rightarrow> bool \<times> job_db" where
  "markReady i now fileKey db =
     (affected (running_is i) db = 1,
      update_requests (running_is i) (\<lambda>r. r\<lparr>rq_status := READY, rq_fileKey := Some fileKey, rq_error := None,
        rq_finishedAt := Some now, rq_updatedAt := now\<rparr>) db)"

definition markFailed :: "nat \<Rightarrow> int \<Rightarrow> string \<Rightarrow> job_db \<Rightarrow> bool \<times> job_db" where
  "markFailed i now message db =
     (affected (running_is i) db = 1,
      update_requests (running_is i) (\<lambda>r. r\<lparr>rq_status := FAILED, rq_error := Some (trimError message),
        rq_finishedAt := Some now, rq_updatedAt := now\<rparr>) db)"

definition stale_message :: string where
  "stale_message = ''Auto-recovered stale RUNNING request after restart/error''"

definition failStaleRunning :: "int \<Rightarrow> int \<Rightarrow> job_db \<Rightarrow> nat \<times> job_db" where
  "failStaleRunning now staleBefore db =
     (let P = (\<lambda>r. rq_status r = RUNNING \<and> rq_updatedAt r < staleBefore)
      in (affected P db, update_requests P (\<lambda>r. r\<lparr>rq_status := FAILED, rq_error := Some stale_message,
            rq_finishedAt := Some now, rq_updatedAt := now\<rparr>) db))"

definition MAX_CLAIM_ATTEMPTS :: nat where "MAX_CLAIM_ATTEMPTS = 10"

section \<open>Processing a request\<close>

text \<open>
  What the storage does: whether uploads are enabled, the bucket, the answer of the upload of a file (\<open>Some\<close>
  message when it fails) and the text of the current date in a key.
\<close>

record storage_env =
  st_enabled :: bool
  st_bucket :: string
  st_prefix :: string
  st_upload :: "string \<Rightarrow> report_file \<Rightarrow> string option"
  st_fileDate :: "int \<Rightarrow> string"

definition normalizePrefix :: "string \<Rightarrow> string" where
  "normalizePrefix prefix = (let normalized = trim prefix in
     if normalized = [] then '''' else if last normalized = CHR ''/'' then normalized else normalized @ ''/'')"

definition buildObjectKey :: "storage_env \<Rightarrow> int \<Rightarrow> string \<Rightarrow> string \<Rightarrow> string \<Rightarrow> string" where
  "buildObjectKey st now reportType requestId ext =
     normalizePrefix (st_prefix st) @ toLowerCase reportType @ ''/TransactionReport-'' @ requestId @ ''-'' @
     st_fileDate st now @ ''.'' @ ext"

definition upload :: "storage_env \<Rightarrow> string \<Rightarrow> report_file \<Rightarrow> string + unit" where
  "upload st key file =
     (if \<not> st_enabled st then Inl ''Report S3 upload is disabled. Set REPORT_S3_ENABLED=true.''
      else if trim (st_bucket st) = [] then Inl ''REPORT_S3_BUCKET is required when report S3 upload is enabled.''
      else case st_upload st key file of None \<Rightarrow> Inr () | Some message \<Rightarrow> Inl message)"

definition TransactionDetail :: string where "TransactionDetail = ''TransactionDetail''"

definition failure_text :: "report_failure \<Rightarrow> string" where
  "failure_text f = (case f of
     ReportError m \<Rightarrow> m
   | ReadFailed InvalidCursor \<Rightarrow> ''The pagination cursor is invalid.''
   | ReadFailed (query_error.NotFound t) \<Rightarrow> t
   | InvalidCriterion \<Rightarrow> ''invalid criterion'')"

definition generateFile :: "job_env \<Rightarrow> audit_db \<Rightarrow> report_request \<Rightarrow> params \<Rightarrow> (string + report_file) option" where
  "generateFile e db request ps =
     (if rq_reportType request = TransactionDetail
      then map_option (map_sum failure_text (report_file_of (je_text e) (dec_of_nat (rq_id request))))
             (generate (je_report e) (je_settings e) db (rq_fileType request) ps)
      else Some (Inl (''Unsupported report type: '' @ rq_reportType request)))"

text \<open>
  The work of \<open>processRequest\<close> up to the last statement: an error message or the key of the uploaded file.  The
  parameters and the transactions are read from the replica.
\<close>

definition processRequest :: "job_env \<Rightarrow> storage_env \<Rightarrow> int \<Rightarrow> job_db \<Rightarrow> audit_db \<Rightarrow> report_request \<Rightarrow> (string + string) option" where
  "processRequest e st now replica db request =
     map_option (\<lambda>generated. res_bind generated (\<lambda>file.
         let objectKey = buildObjectKey st now (rq_reportType request) (dec_of_nat (rq_id request)) (rf_extension file)
         in map_sum id (\<lambda>_. objectKey) (upload st objectKey file)))
       (generateFile e db request (findParamsByRequestId (rq_id request) replica))"

section \<open>Workers\<close>

text \<open>
  A worker of a process runs \<open>processNext\<close>: it looks for a pending request, tries to claim it, and holds it until it
  writes the outcome.  A worker that has finished is no longer in the table.
\<close>

datatype worker_phase = Looking nat | Trying nat nat | Holding nat

type_synonym worker = "nat \<times> nat"

record job_state =
  js_db :: job_db
  js_workers :: "(worker \<times> worker_phase) list"
  js_nextWorker :: nat
  js_stopped :: "nat list"
  js_claims :: "(nat \<times> worker) list"

datatype job_event =
    Create nat int create_input
  | Dispatch nat int nat
  | Shutdown nat
  | Look worker
  | Claim worker int
  | Heartbeat worker int
  | Settle worker int "string + string"

definition activeWorkers :: "nat \<Rightarrow> job_state \<Rightarrow> nat" where
  "activeWorkers p s = length (filter (\<lambda>((q, _), _). q = p) (js_workers s))"

text \<open>\<open>dispatch\<close> of a process, for the number of running requests that the replica answers.\<close>

definition dispatch_workers :: "job_env \<Rightarrow> nat \<Rightarrow> int \<Rightarrow> nat \<Rightarrow> job_state \<Rightarrow> job_state" where
  "dispatch_workers e p now runningCount s =
     (if p \<in> set (js_stopped s) then s
      else let db = snd (failStaleRunning now (now - je_staleTtl e) (js_db s));
               availableSlots = je_maxConcurrent e - runningCount - activeWorkers p s;
               started = map (\<lambda>k. ((p, k), Looking 0)) [js_nextWorker s..<js_nextWorker s + availableSlots]
           in s\<lparr>js_db := db, js_workers := js_workers s @ started, js_nextWorker := js_nextWorker s + availableSlots\<rparr>)"

definition drop_worker :: "worker \<Rightarrow> job_state \<Rightarrow> job_state" where
  "drop_worker w s = s\<lparr>js_workers := AList.delete w (js_workers s)\<rparr>"

definition set_phase :: "worker \<Rightarrow> worker_phase \<Rightarrow> job_state \<Rightarrow> job_state" where
  "set_phase w ph s = s\<lparr>js_workers := AList.update w ph (js_workers s)\<rparr>"

text \<open>The two statements of one attempt of \<open>claimNextPending\<close>.\<close>

definition look_step :: "worker \<Rightarrow> job_state \<Rightarrow> job_state" where
  "look_step w s = (case map_of (js_workers s) w of
     Some (Looking attempt) \<Rightarrow>
       (case next_pending (js_db s) of
          None \<Rightarrow> drop_worker w s
        | Some r \<Rightarrow> set_phase w (Trying attempt (rq_id r)) s)
   | _ \<Rightarrow> s)"

definition claim_step :: "worker \<Rightarrow> int \<Rightarrow> job_state \<Rightarrow> job_state" where
  "claim_step w now s = (case map_of (js_workers s) w of
     Some (Trying attempt i) \<Rightarrow>
       (let (claimed, db) = try_claim i now (js_db s) in
        if claimed then (set_phase w (Holding i) s)\<lparr>js_db := db, js_claims := js_claims s @ [(i, w)]\<rparr>
        else if attempt + 1 < MAX_CLAIM_ATTEMPTS then (set_phase w (Looking (attempt + 1)) s)\<lparr>js_db := db\<rparr>
        else (drop_worker w s)\<lparr>js_db := db\<rparr>)
   | _ \<Rightarrow> s)"

definition settle_step :: "worker \<Rightarrow> int \<Rightarrow> string + string \<Rightarrow> job_state \<Rightarrow> job_state" where
  "settle_step w now outcome s = (case map_of (js_workers s) w of
     Some (Holding i) \<Rightarrow>
       (drop_worker w s)\<lparr>js_db := snd (case outcome of
          Inr fileKey \<Rightarrow> markReady i now fileKey (js_db s)
        | Inl message \<Rightarrow> markFailed i now message (js_db s))\<rparr>
   | _ \<Rightarrow> s)"

definition heartbeat_step :: "worker \<Rightarrow> int \<Rightarrow> job_state \<Rightarrow> job_state" where
  "heartbeat_step w now s = (case map_of (js_workers s) w of
     Some (Holding i) \<Rightarrow> s\<lparr>js_db := snd (touchRunning i now (js_db s))\<rparr>
   | _ \<Rightarrow> s)"

fun job_exec :: "job_env \<Rightarrow> job_event \<Rightarrow> job_state \<Rightarrow> job_state" where
  "job_exec e (Create i now inp) s = s\<lparr>js_db := snd (createPending e i now inp (js_db s))\<rparr>"
| "job_exec e (Dispatch p now running) s = dispatch_workers e p now running s"
| "job_exec e (Shutdown p) s = s\<lparr>js_stopped := p # js_stopped s\<rparr>"
| "job_exec e (Look w) s = look_step w s"
| "job_exec e (Claim w now) s = claim_step w now s"
| "job_exec e (Heartbeat w now) s = heartbeat_step w now s"
| "job_exec e (Settle w now outcome) s = settle_step w now outcome s"

definition no_jobs :: job_state where
  "no_jobs = \<lparr>js_db = \<lparr>jd_requests = [], jd_params = []\<rparr>, js_workers = [], js_nextWorker = 0, js_stopped = [], js_claims = []\<rparr>"

definition run_jobs :: "job_env \<Rightarrow> job_event list \<Rightarrow> job_state \<Rightarrow> job_state" where
  "run_jobs e evs s = fold (job_exec e) evs s"

text \<open>\<open>claimNextPending\<close> when no other worker runs meanwhile.\<close>

fun claimNextPending :: "nat \<Rightarrow> int \<Rightarrow> job_db \<Rightarrow> report_request option \<times> job_db" where
  "claimNextPending 0 now db = (None, db)"
| "claimNextPending (Suc n) now db =
     (case next_pending db of
        None \<Rightarrow> (None, db)
      | Some r \<Rightarrow>
          (let (claimed, db') = try_claim (rq_id r) now db in
           if claimed then (Some (r\<lparr>rq_status := RUNNING, rq_updatedAt := now\<rparr>), db') else claimNextPending n now db'))"

section \<open>The portal\<close>

datatype report_error =
    REPORT_FILE_TYPE_NOT_SUPPORTED
  | REPORT_RESULT_SIZE_EXCEEDED nat
  | REPORT_REQUEST_ID_INVALID
  | REPORT_REQUEST_NOT_FOUND
  | REPORT_REQUEST_NOT_READY
  | DuplicateId
  | BadSearch search_error

definition create_report :: "job_env \<Rightarrow> audit_db \<Rightarrow> nat \<Rightarrow> int \<Rightarrow> criteria \<Rightarrow> order \<Rightarrow> string \<Rightarrow> string option \<Rightarrow> string option
    \<Rightarrow> job_db \<Rightarrow> (report_error, report_request) result \<times> job_db" where
  "create_report e adb i now c od fileType user scope db =
     (let t = toLowerCase (trim fileType); search = se_paging (re_search (je_report e)) in
      if t \<noteq> ''csv'' \<and> t \<noteq> ''xlsx'' then (Inl REPORT_FILE_TYPE_NOT_SUPPORTED, db)
      else let maxRows = maxDownloadRows (je_settings e) (reportFileType t) in
        if ct_capped (count_transactions search adb c maxRows scope) then (Inl (REPORT_RESULT_SIZE_EXCEEDED maxRows), db)
        else case createPending e i now \<lparr>ci_reportType = TransactionDetail, ci_fileType = t,
               ci_params = fromInput (je_report e) c od scope, ci_user = user, ci_fsp = scope\<rparr> db of
               (None, db') \<Rightarrow> (Inl DuplicateId, db')
             | (Some request, db') \<Rightarrow> (Inr request, db'))"

definition requestTransactionReport :: "job_env \<Rightarrow> audit_db \<Rightarrow> nat \<Rightarrow> int \<Rightarrow> access_claims option \<Rightarrow> criteria_params \<Rightarrow> list_params
    \<Rightarrow> string option \<Rightarrow> job_db \<Rightarrow> (report_error, report_request) result \<times> job_db" where
  "requestTransactionReport e adb i now claims p lp fileType db =
     (case res_bind (resolveListAccessScope claims (qp_payerFsp p) (qp_payeeFsp p)) (\<lambda>scope.
           res_bind (reportCriteria (re_search (je_report e)) p) (\<lambda>c.
           res_bind (toEnum (lp_orderColumn lp) Columns TransactionStartAt ''orderColumn'') (\<lambda>column.
           res_bind (toEnum (lp_orderDirection lp) Directions Desc ''orderDirection'') (\<lambda>dir.
             Inr (scope, c, \<lparr>od_column = column, od_direction = dir\<rparr>))))) of
        Inl x \<Rightarrow> (Inl (BadSearch x), db)
      | Inr (scope, c, od) \<Rightarrow>
          create_report e adb i now c od (case toOptionalString fileType of None \<Rightarrow> ''xlsx'' | Some t \<Rightarrow> t)
            (map_option c_sub claims) scope db)"

text \<open>The answer of the two queries; \<open>None\<close> when the request is not found.\<close>

definition report_scope :: "access_claims option \<Rightarrow> (string option \<times> string option) option" where
  "report_scope claims = map_option (\<lambda>c. (Some (c_sub c), c_fspId c)) claims"

definition requireRequestId :: "string \<Rightarrow> (report_error, nat) result" where
  "requireRequestId t = (if t \<noteq> [] \<and> list_all is_digit t then Inr (nat_of_dec t) else Inl REPORT_REQUEST_ID_INVALID)"

definition visible_report :: "job_env \<Rightarrow> access_claims option \<Rightarrow> string \<Rightarrow> job_db \<Rightarrow> (report_error, report_request) result" where
  "visible_report e claims requestId db =
     res_bind (requireRequestId requestId) (\<lambda>i.
       case findById e i (report_scope claims) db of None \<Rightarrow> Inl REPORT_REQUEST_NOT_FOUND | Some r \<Rightarrow> Inr r)"

definition getReportStatus :: "job_env \<Rightarrow> access_claims option \<Rightarrow> string \<Rightarrow> job_db
    \<Rightarrow> (report_error, nat \<times> report_status \<times> string option) result" where
  "getReportStatus e claims requestId db =
     map_sum id (\<lambda>r. (rq_id r, rq_status r, rq_error r)) (visible_report e claims requestId db)"

definition download_url :: "string \<Rightarrow> report_request \<Rightarrow> string option" where
  "download_url url r = (if rq_status r = READY \<and> rq_fileKey r \<noteq> None then Some url else None)"

definition getReportDownloadUrl :: "job_env \<Rightarrow> access_claims option \<Rightarrow> string \<Rightarrow> string \<Rightarrow> job_db
    \<Rightarrow> (report_error, nat \<times> report_status \<times> string option \<times> string option \<times> string option) result" where
  "getReportDownloadUrl e claims requestId url db =
     map_sum id (\<lambda>r. (rq_id r, rq_status r, download_url url r, rq_fileKey r, rq_error r)) (visible_report e claims requestId db)"

definition safeFileName :: "string \<Rightarrow> string" where
  "safeFileName name = map (\<lambda>c. let n = code_unit c in
     if (97 \<le> n \<and> n \<le> 122) \<or> (65 \<le> n \<and> n \<le> 90) \<or> (48 \<le> n \<and> n \<le> 57) \<or> c = CHR ''.'' \<or> c = CHR ''_'' \<or> c = CHR ''-''
     then c else CHR ''_'') name"

text \<open>The key of the stored file that is sent, with the name of the attachment.\<close>

definition downloadReport :: "job_env \<Rightarrow> access_claims option \<Rightarrow> string \<Rightarrow> job_db \<Rightarrow> (report_error, string \<times> string) result" where
  "downloadReport e claims requestId db =
     res_bind (visible_report e claims requestId db) (\<lambda>r.
       case rq_fileKey r of
         None \<Rightarrow> Inl REPORT_REQUEST_NOT_READY
       | Some key \<Rightarrow>
           if rq_status r \<noteq> READY then Inl REPORT_REQUEST_NOT_READY
           else Inr (key, safeFileName (last (split_on (CHR ''/'') key))))"

section \<open>One request over time\<close>

interpretation requests: keyed_table jd_requests rq_id update_requests
  by unfold_locales (simp add: update_requests_def)

lemma update_requests_rows: "jd_requests (update_requests P f db) = map (\<lambda>r. if P r then f r else r) (jd_requests db)"
  "jd_params (update_requests P f db) = jd_params db"
  by (simp_all add: update_requests_def)

definition rank :: "report_status \<Rightarrow> nat" where
  "rank s = (case s of PENDING \<Rightarrow> 0 | RUNNING \<Rightarrow> 1 | READY \<Rightarrow> 2 | FAILED \<Rightarrow> 2)"

text \<open>What a request may become: what was asked stays, the status moves on, an outcome is never changed.\<close>

definition later :: "report_request \<Rightarrow> report_request \<Rightarrow> bool" where
  "later r r' \<longleftrightarrow> rq_id r' = rq_id r \<and> rq_reportType r' = rq_reportType r \<and> rq_signature r' = rq_signature r \<and>
     rq_fileType r' = rq_fileType r \<and> rq_user r' = rq_user r \<and> rq_fsp r' = rq_fsp r \<and> rq_createdAt r' = rq_createdAt r \<and>
     rank (rq_status r) \<le> rank (rq_status r') \<and> (rank (rq_status r) = 2 \<longrightarrow> r' = r)"

lemma later_refl [simp]: "later r r"
  by (simp add: later_def)

lemma later_trans: "later a b \<Longrightarrow> later b c \<Longrightarrow> later a c"
  by (auto simp: later_def)

text \<open>Every step runs one statement: an insert, or an update under which requests only move on.\<close>

lemma step_statement:
  obtains (Insert) i now inp where "ev = Create i now inp" "js_db (job_exec e ev s) = snd (createPending e i now inp (js_db s))"
  | (Update) P f where "js_db (job_exec e ev s) = update_requests P f (js_db s)"
      "\<And>r. P r \<Longrightarrow> later r (f r) \<and> rq_status (f r) \<noteq> PENDING \<and>
         (rq_status (f r) = READY \<longrightarrow> rq_fileKey (f r) \<noteq> None) \<and> (rq_status (f r) = FAILED \<longrightarrow> rq_error (f r) \<noteq> None)"
proof -
  have none: "db = update_requests (\<lambda>_. False) id db" for db by (simp add: update_requests_def)
  show ?thesis
  proof (cases ev)
    case (Create i now inp)
    then show ?thesis by (intro Insert) simp_all
  next
    case (Dispatch p now running)
    show ?thesis
    proof (cases "p \<in> set (js_stopped s)")
      case True
      then show ?thesis using Dispatch none[of "js_db s"] by (intro Update[of "\<lambda>_. False" id]) (simp_all add: dispatch_workers_def)
    next
      case False
      then show ?thesis using Dispatch
        by (intro Update[of "\<lambda>r. rq_status r = RUNNING \<and> rq_updatedAt r < now - je_staleTtl e" "\<lambda>r. r\<lparr>rq_status := FAILED, rq_error := Some stale_message,
            rq_finishedAt := Some now, rq_updatedAt := now\<rparr>"]) (simp_all add: dispatch_workers_def Let_def failStaleRunning_def later_def rank_def)
    qed
  next
    case (Shutdown p)
    then show ?thesis using none[of "js_db s"] by (intro Update[of "\<lambda>_. False" id]) simp_all
  next
    case (Look w)
    then have "js_db (job_exec e ev s) = js_db s"
      by (simp add: look_step_def drop_worker_def set_phase_def split: option.split worker_phase.split)
    then show ?thesis using none[of "js_db s"] by (intro Update[of "\<lambda>_. False" id]) simp_all
  next
    case (Claim w now)
    show ?thesis
    proof (cases "map_of (js_workers s) w")
      case (Some ph)
      show ?thesis
      proof (cases ph)
        case (Trying attempt i)
        then show ?thesis using Claim Some
          by (intro Update[of "pending_is i" "\<lambda>r. r\<lparr>rq_status := RUNNING, rq_updatedAt := now\<rparr>"])
            (simp_all add: claim_step_def try_claim_def Let_def drop_worker_def set_phase_def pending_is_def later_def rank_def)
      qed (use Claim Some none[of "js_db s"] in \<open>intro Update[of "\<lambda>_. False" id]; simp add: claim_step_def\<close>)+
    qed (use Claim none[of "js_db s"] in \<open>intro Update[of "\<lambda>_. False" id]; simp add: claim_step_def\<close>)
  next
    case (Heartbeat w now)
    show ?thesis
    proof (cases "map_of (js_workers s) w")
      case (Some ph)
      show ?thesis
      proof (cases ph)
        case (Holding i)
        then show ?thesis using Heartbeat Some
          by (intro Update[of "running_is i" "\<lambda>r. r\<lparr>rq_updatedAt := now\<rparr>"])
            (simp_all add: heartbeat_step_def touchRunning_def running_is_def later_def rank_def)
      qed (use Heartbeat Some none[of "js_db s"] in \<open>intro Update[of "\<lambda>_. False" id]; simp add: heartbeat_step_def\<close>)+
    qed (use Heartbeat none[of "js_db s"] in \<open>intro Update[of "\<lambda>_. False" id]; simp add: heartbeat_step_def\<close>)
  next
    case (Settle w now outcome)
    show ?thesis
    proof (cases "map_of (js_workers s) w")
      case (Some ph)
      show ?thesis
      proof (cases ph)
        case (Holding i)
        show ?thesis
        proof (cases outcome)
          case (Inl m)
          then show ?thesis using Settle Some Holding
            by (intro Update[of "running_is i" "\<lambda>r. r\<lparr>rq_status := FAILED, rq_error := Some (trimError m),
                rq_finishedAt := Some now, rq_updatedAt := now\<rparr>"])
              (simp_all add: settle_step_def markFailed_def drop_worker_def running_is_def later_def rank_def)
        next
          case (Inr k)
          then show ?thesis using Settle Some Holding
            by (intro Update[of "running_is i" "\<lambda>r. r\<lparr>rq_status := READY, rq_fileKey := Some k, rq_error := None,
                rq_finishedAt := Some now, rq_updatedAt := now\<rparr>"])
              (simp_all add: settle_step_def markReady_def drop_worker_def running_is_def later_def rank_def)
        qed
      qed (use Settle Some none[of "js_db s"] in \<open>intro Update[of "\<lambda>_. False" id]; simp add: settle_step_def\<close>)+
    qed (use Settle none[of "js_db s"] in \<open>intro Update[of "\<lambda>_. False" id]; simp add: settle_step_def\<close>)
  qed
qed

lemma find_update:
  assumes "\<And>r. P r \<Longrightarrow> rq_id (f r) = rq_id r"
  shows "find_request i (update_requests P f db) = map_option (\<lambda>r. if P r then f r else r) (find_request i db)"
proof -
  have "(\<lambda>r. rq_id (if P r then f r else r) = i) = (\<lambda>r. rq_id r = i)" using assms by auto
  then show ?thesis by (simp add: find_request_def update_requests_rows find_map)
qed

lemma find_create:
  "find_request i db = Some r \<Longrightarrow> find_request i (snd (createPending e j now inp db)) = Some r"
  by (auto simp: createPending_def Let_def find_request_def find_append)

lemma later_step:
  assumes "find_request i (js_db s) = Some r"
  shows "\<exists>r'. find_request i (js_db (job_exec e ev s)) = Some r' \<and> later r r'"
proof (cases rule: step_statement[of ev e s])
  case (Insert j now inp)
  show ?thesis unfolding Insert(2) by (rule exI[of _ r]) (simp add: find_create[OF assms])
next
  case (Update P f)
  have "find_request i (js_db (job_exec e ev s)) = map_option (\<lambda>r. if P r then f r else r) (find_request i (js_db s))"
    unfolding Update(1) using Update(2) by (intro find_update) (simp add: later_def)
  then show ?thesis using assms Update(2)[of r] by auto
qed

lemma later_run:
  "find_request i (js_db s) = Some r \<Longrightarrow> \<exists>r'. find_request i (js_db (run_jobs e evs s)) = Some r' \<and> later r r'"
proof (induction evs arbitrary: s r)
  case (Cons ev evs)
  obtain r1 where r1: "find_request i (js_db (job_exec e ev s)) = Some r1" "later r r1"
    using later_step[OF Cons.prems] by blast
  then show ?case using Cons.IH[OF r1(1)] later_trans by (fastforce simp: run_jobs_def)
qed (simp add: run_jobs_def)

lemma stale_fails:
  assumes "find_request i (js_db s) = Some r" "rq_status r = RUNNING" "rq_updatedAt r < now - je_staleTtl e" "p \<notin> set (js_stopped s)"
  shows "map_option rq_status (find_request i (js_db (job_exec e (Dispatch p now n) s))) = Some FAILED"
proof -
  have "js_db (job_exec e (Dispatch p now n) s) =
      update_requests (\<lambda>r. rq_status r = RUNNING \<and> rq_updatedAt r < now - je_staleTtl e)
        (\<lambda>r. r\<lparr>rq_status := FAILED, rq_error := Some stale_message, rq_finishedAt := Some now, rq_updatedAt := now\<rparr>) (js_db s)"
    using assms(4) by (simp add: dispatch_workers_def Let_def failStaleRunning_def)
  then show ?thesis using assms by (simp add: find_update)
qed

text \<open>
  The life of a report request.  Whatever the workers of all processes do, a request keeps what was asked, its
  status only moves from PENDING over RUNNING to READY or FAILED, and its outcome never changes; and a request that
  runs without a heartbeat for longer than the limit is failed by the next dispatch of any process.
\<close>

theorem report_request_lifecycle:
  assumes "find_request i (js_db s) = Some r"
  shows "(case find_request i (js_db (run_jobs e evs s)) of None \<Rightarrow> False | Some r' \<Rightarrow> later r r') \<and>
    (rq_status r = RUNNING \<and> rq_updatedAt r < now - je_staleTtl e \<and> p \<notin> set (js_stopped s) \<longrightarrow>
       map_option rq_status (find_request i (js_db (job_exec e (Dispatch p now n) s))) = Some FAILED)"
  using later_run[OF assms, of e evs] stale_fails[OF assms, of now e p n] by auto

section \<open>Workers that compete\<close>

definition request_ok :: "report_request \<Rightarrow> bool" where
  "request_ok r \<longleftrightarrow> (rq_status r = READY \<longrightarrow> rq_fileKey r \<noteq> None) \<and> (rq_status r = FAILED \<longrightarrow> rq_error r \<noteq> None)"

definition job_inv :: "job_env \<Rightarrow> job_state \<Rightarrow> bool" where
  "job_inv e s \<longleftrightarrow> distinct (map rq_id (jd_requests (js_db s))) \<and>
     (\<forall>r\<in>set (jd_requests (js_db s)). request_ok r \<and> (rq_status r \<noteq> PENDING \<longrightarrow> rq_id r \<in> fst ` set (js_claims s))) \<and>
     (\<forall>i\<in>fst ` set (js_claims s). \<exists>r\<in>set (jd_requests (js_db s)). rq_id r = i \<and> rq_status r \<noteq> PENDING) \<and>
     distinct (map fst (js_claims s)) \<and>
     (\<forall>(j, _)\<in>set (jd_params (js_db s)). \<exists>r\<in>set (jd_requests (js_db s)). rq_id r = j) \<and>
     distinct (map fst (js_workers s)) \<and> (\<forall>(w, _)\<in>set (js_workers s). snd w < js_nextWorker s) \<and>
     (\<forall>w i. (w, Holding i) \<in> set (js_workers s) \<longrightarrow> (i, w) \<in> set (js_claims s)) \<and>
     (\<forall>p. activeWorkers p s \<le> je_maxConcurrent e)"

lemma job_invD:
  assumes "job_inv e s"
  shows "distinct (map rq_id (jd_requests (js_db s)))"
    "\<And>r. r \<in> set (jd_requests (js_db s)) \<Longrightarrow> request_ok r"
    "\<And>r. r \<in> set (jd_requests (js_db s)) \<Longrightarrow> rq_status r \<noteq> PENDING \<Longrightarrow> rq_id r \<in> fst ` set (js_claims s)"
    "\<And>i w. (i, w) \<in> set (js_claims s) \<Longrightarrow> \<exists>r\<in>set (jd_requests (js_db s)). rq_id r = i \<and> rq_status r \<noteq> PENDING"
    "distinct (map fst (js_claims s))"
    "\<And>j x. (j, x) \<in> set (jd_params (js_db s)) \<Longrightarrow> \<exists>r\<in>set (jd_requests (js_db s)). rq_id r = j"
    "distinct (map fst (js_workers s))"
    "\<And>w ph. (w, ph) \<in> set (js_workers s) \<Longrightarrow> snd w < js_nextWorker s"
    "\<And>w i. (w, Holding i) \<in> set (js_workers s) \<Longrightarrow> (i, w) \<in> set (js_claims s)"
    "\<And>p. activeWorkers p s \<le> je_maxConcurrent e"
  using assms unfolding job_inv_def by (auto 0 4)

lemma later_keeps: "later r r' \<Longrightarrow> rq_id r' = rq_id r" "later r r' \<Longrightarrow> rq_status r \<noteq> PENDING \<Longrightarrow> rq_status r' \<noteq> PENDING"
  by (auto simp: later_def rank_def split: report_status.splits)

text \<open>An update under which requests move on and that neither claims nor releases one.\<close>

lemma job_inv_update:
  assumes inv: "job_inv e s" and upd: "\<And>r. P r \<Longrightarrow> later r (f r) \<and> request_ok (f r) \<and> rq_status r \<noteq> PENDING"
    and workers: "distinct (map fst ws)" "\<And>w ph. (w, ph) \<in> set ws \<Longrightarrow> snd w < n"
      "\<And>w i. (w, Holding i) \<in> set ws \<Longrightarrow> (w, Holding i) \<in> set (js_workers s)"
      "\<And>p. length (filter (\<lambda>((q, _), _). q = p) ws) \<le> je_maxConcurrent e"
    and s': "js_db s' = update_requests P f (js_db s)" "js_workers s' = ws" "js_nextWorker s' = n" "js_claims s' = js_claims s"
  shows "job_inv e s'"
proof -
  note inv = job_invD[OF inv]
  have f: "rq_id (if P r then f r else r) = rq_id r" "rq_status (if P r then f r else r) = PENDING \<longleftrightarrow> rq_status r = PENDING" for r
    using upd[of r] later_keeps[of r "f r"] by auto
  have ids: "map rq_id (jd_requests (js_db s')) = map rq_id (jd_requests (js_db s))"
    by (simp add: s' update_requests_rows f)
  show ?thesis unfolding job_inv_def ids
  proof (intro conjI)
    show "\<forall>r\<in>set (jd_requests (js_db s')). request_ok r \<and> (rq_status r \<noteq> PENDING \<longrightarrow> rq_id r \<in> fst ` set (js_claims s'))"
    proof
      fix r' assume "r' \<in> set (jd_requests (js_db s'))"
      then obtain r where r: "r \<in> set (jd_requests (js_db s))" "r' = (if P r then f r else r)"
        by (auto simp: s' update_requests_rows)
      have "request_ok r'" using inv(2)[OF r(1)] upd[of r] r(2) by simp
      moreover have "rq_status r' \<noteq> PENDING \<Longrightarrow> rq_id r' \<in> fst ` set (js_claims s')"
        using inv(3)[OF r(1)] unfolding r(2) f s' .
      ultimately show "request_ok r' \<and> (rq_status r' \<noteq> PENDING \<longrightarrow> rq_id r' \<in> fst ` set (js_claims s'))" by blast
    qed
    have moved: "\<exists>r'\<in>set (jd_requests (js_db s')). rq_id r' = rq_id r \<and> (rq_status r' = PENDING \<longleftrightarrow> rq_status r = PENDING)"
      if "r \<in> set (jd_requests (js_db s))" for r
      using that f[of r] by (intro bexI[of _ "if P r then f r else r"]) (simp_all only: s' update_requests_rows set_map image_eqI)
    show "\<forall>i\<in>fst ` set (js_claims s'). \<exists>r\<in>set (jd_requests (js_db s')). rq_id r = i \<and> rq_status r \<noteq> PENDING"
      using inv(4) moved unfolding s'(4) by (metis imageE prod.collapse)
    show "\<forall>(j, _)\<in>set (jd_params (js_db s')). \<exists>r\<in>set (jd_requests (js_db s')). rq_id r = j"
    proof clarify
      fix j k v assume "(j, k, v) \<in> set (jd_params (js_db s'))"
      then obtain r where "r \<in> set (jd_requests (js_db s))" "rq_id r = j"
        using inv(6)[of j "(k, v)"] by (auto simp: s' update_requests_rows)
      then show "\<exists>r\<in>set (jd_requests (js_db s')). rq_id r = j" using moved by metis
    qed
    show "\<forall>p. activeWorkers p s' \<le> je_maxConcurrent e" using workers(4) by (simp add: activeWorkers_def s')
  qed (use inv workers in \<open>auto simp: s'\<close>)
qed

lemma workers_update: "set (AList.update w ph ws) \<subseteq> insert (w, ph) (set ws)"
  by (induction ws) auto

lemma workers_delete: "set (AList.delete w ws) \<subseteq> set ws"
  by (auto simp: AList.delete_eq)

lemma active_update:
  assumes "map_of ws w = Some ph0"
  shows "length (filter (\<lambda>((q, _), _). q = p) (AList.update w ph ws)) = length (filter (\<lambda>((q, _), _). q = p) ws)"
  using assms by (induction ws) (auto split: if_splits)

lemma active_delete:
  "length (filter (\<lambda>((q, _), _). q = p) (AList.delete w ws)) \<le> length (filter (\<lambda>((q, _), _). q = p) ws)"
  by (induction ws) auto

text \<open>The workers after a step that moves one worker to a phase without a request, or drops it.\<close>

lemma workers_moved:
  assumes "job_inv e s" "map_of (js_workers s) w = Some ph0"
    and "ws = AList.update w (Looking k) (js_workers s) \<or> ws = AList.update w (Trying k i) (js_workers s) \<or>
      ws = AList.delete w (js_workers s) \<or> ws = js_workers s"
  shows "distinct (map fst ws)" "\<And>v ph. (v, ph) \<in> set ws \<Longrightarrow> snd v < js_nextWorker s"
    "\<And>v j. (v, Holding j) \<in> set ws \<Longrightarrow> (v, Holding j) \<in> set (js_workers s)"
    "\<And>p. length (filter (\<lambda>((q, _), _). q = p) ws) \<le> je_maxConcurrent e"
proof -
  note inv = job_invD[OF assms(1)]
  have w: "(w, ph0) \<in> set (js_workers s)" using assms(2) by (rule map_of_SomeD)
  show "distinct (map fst ws)" using assms(3) inv(7) by (auto simp: alist_distinct_update alist_distinct_delete)
  let ?W = "set (js_workers s)"
  have "set ws \<subseteq> insert (w, Looking k) ?W \<or> set ws \<subseteq> insert (w, Trying k i) ?W"
    using assms(3)
  proof (elim disjE)
    assume "ws = AList.update w (Looking k) (js_workers s)"
    then show ?thesis using workers_update[of w "Looking k"] by simp
  next
    assume "ws = AList.update w (Trying k i) (js_workers s)"
    then show ?thesis using workers_update[of w "Trying k i"] by simp
  next
    assume "ws = AList.delete w (js_workers s)"
    then show ?thesis using workers_delete[of w "js_workers s"] by auto
  qed auto
  then have sub: "(v, ph) \<in> ?W \<or> (v = w \<and> (ph = Looking k \<or> ph = Trying k i))" if "(v, ph) \<in> set ws" for v ph
    using that by auto
  show "snd v < js_nextWorker s" if "(v, ph) \<in> set ws" for v ph
    using sub[OF that] inv(8)[of v] inv(8)[OF w] by auto
  show "(v, Holding j) \<in> ?W" if "(v, Holding j) \<in> set ws" for v j
    using sub[OF that] by simp
  show "length (filter (\<lambda>((q, _), _). q = p) ws) \<le> je_maxConcurrent e" for p
    using assms(3) inv(10)[of p] active_update[OF assms(2), of p "Looking k"] active_update[OF assms(2), of p "Trying k i"]
      active_delete[of p w "js_workers s"]
    by (elim disjE) (simp_all add: activeWorkers_def)
qed

lemma update_nothing: "(\<And>r. r \<in> set (jd_requests db) \<Longrightarrow> \<not> P r) \<Longrightarrow> update_requests P f db = db"
  by (simp add: update_requests_def map_idI)

lemma job_inv_workers:
  assumes "job_inv e s" "js_db s' = js_db s" "js_claims s' = js_claims s"
    "distinct (map fst (js_workers s'))" "\<And>w ph. (w, ph) \<in> set (js_workers s') \<Longrightarrow> snd w < js_nextWorker s'"
    "\<And>w i. (w, Holding i) \<in> set (js_workers s') \<Longrightarrow> (w, Holding i) \<in> set (js_workers s)"
    "\<And>p. length (filter (\<lambda>((q, _), _). q = p) (js_workers s')) \<le> je_maxConcurrent e"
  shows "job_inv e s'"
  by (rule job_inv_update[OF assms(1), where P = "\<lambda>_. False" and f = id]) (use assms in \<open>simp_all add: update_requests_def\<close>)

lemma job_inv_create:
  assumes "job_inv e s"
  shows "job_inv e (job_exec e (Create i now inp) s)"
proof (cases "find_request i (js_db s)")
  case None
  note inv = job_invD[OF assms]
  have fresh: "i \<notin> rq_id ` set (jd_requests (js_db s))" using None by (auto simp: find_request_def find_None_iff)
  have claims: "i \<notin> fst ` set (js_claims s)" using inv(4) fresh by fastforce
  show ?thesis unfolding job_inv_def
  proof (intro conjI)
    show "\<forall>j\<in>fst ` set (js_claims (job_exec e (Create i now inp) s)).
        \<exists>r\<in>set (jd_requests (js_db (job_exec e (Create i now inp) s))). rq_id r = j \<and> rq_status r \<noteq> PENDING"
      using inv(4) None by (fastforce simp: createPending_def Let_def)
    show "\<forall>(j, _)\<in>set (jd_params (js_db (job_exec e (Create i now inp) s))).
        \<exists>r\<in>set (jd_requests (js_db (job_exec e (Create i now inp) s))). rq_id r = j"
      using inv(6) None by (fastforce simp: createPending_def Let_def)
  qed (use inv None fresh claims in \<open>auto simp: createPending_def Let_def request_ok_def activeWorkers_def\<close>)
qed (use assms in \<open>simp add: createPending_def\<close>)

lemma active_append:
  "activeWorkers q (s\<lparr>js_workers := js_workers s @ ws\<rparr>) = activeWorkers q s + length (filter (\<lambda>((q', _), _). q' = q) ws)"
  by (simp add: activeWorkers_def)

lemma job_inv_dispatch:
  assumes "job_inv e s"
  shows "job_inv e (job_exec e (Dispatch p now running) s)"
proof (cases "p \<in> set (js_stopped s)")
  case False
  note inv = job_invD[OF assms]
  let ?n = "js_nextWorker s" and ?k = "je_maxConcurrent e - running - activeWorkers p s"
  let ?started = "map (\<lambda>k. ((p, k), Looking 0)) [?n..<?n + ?k]"
  show ?thesis
  proof (rule job_inv_update[OF assms, where P = "\<lambda>r. rq_status r = RUNNING \<and> rq_updatedAt r < now - je_staleTtl e"
        and f = "\<lambda>r. r\<lparr>rq_status := FAILED, rq_error := Some stale_message, rq_finishedAt := Some now, rq_updatedAt := now\<rparr>"
        and ws = "js_workers s @ ?started" and n = "?n + ?k"])
    have "set (map fst (js_workers s)) \<inter> set (map fst ?started) = {}" using inv(8) by fastforce
    moreover have "distinct (map fst ?started)" by (simp add: distinct_map inj_on_def comp_def)
    ultimately show "distinct (map fst (js_workers s @ ?started))"
      using inv(7) by (simp only: map_append distinct_append)
    show "snd w < ?n + ?k" if "(w, ph) \<in> set (js_workers s @ ?started)" for w ph
      using that inv(8)[of w ph] by auto
    show "length (filter (\<lambda>((q, _), _). q = p') (js_workers s @ ?started)) \<le> je_maxConcurrent e" for p'
    proof (cases "p' = p")
      case True
      have "length (filter (\<lambda>((q, _), _). q = p) ?started) = ?k" by (simp add: comp_def case_prod_beta)
      then show ?thesis using True inv(10)[of p] by (simp add: activeWorkers_def)
    next
      case False
      have "filter (\<lambda>((q, _), _). q = p') ?started = []" using False by (auto simp: filter_empty_conv)
      then show ?thesis using inv(10)[of p'] by (simp add: activeWorkers_def)
    qed
  qed (use False in \<open>auto simp: dispatch_workers_def Let_def failStaleRunning_def later_def rank_def request_ok_def\<close>)
qed (use assms in \<open>simp add: dispatch_workers_def\<close>)

lemma job_inv_claimed:
  assumes inv: "job_inv e s" and w: "map_of (js_workers s) w = Some (Trying k i)" and one: "affected (pending_is i) (js_db s) = 1"
  shows "job_inv e ((set_phase w (Holding i) s)\<lparr>js_db := update_requests (pending_is i)
    (\<lambda>r. r\<lparr>rq_status := RUNNING, rq_updatedAt := now\<rparr>) (js_db s), js_claims := js_claims s @ [(i, w)]\<rparr>)" (is "job_inv e ?s'")
proof -
  note inv = job_invD[OF inv]
  obtain r where r: "r \<in> set (jd_requests (js_db s))" "pending_is i r"
    using one by (metis affected_def filter_False length_0_conv zero_neq_one)
  have unclaimed: "i \<notin> fst ` set (js_claims s)"
  proof
    assume "i \<in> fst ` set (js_claims s)"
    then obtain r' where "r' \<in> set (jd_requests (js_db s))" "rq_id r' = i" "rq_status r' \<noteq> PENDING" using inv(4) by fastforce
    then show False using r requests.key_eq_iff[OF inv(1)] by (auto simp: pending_is_def)
  qed
  have wmem: "(w, Trying k i) \<in> set (js_workers s)" using w by (rule map_of_SomeD)
  have sub: "(v, ph) \<in> set (js_workers s) \<or> (v, ph) = (w, Holding i)" if "(v, ph) \<in> set (js_workers ?s')" for v ph
    using that workers_update[of w "Holding i" "js_workers s"] by (auto simp: set_phase_def)
  let ?f = "\<lambda>r. if pending_is i r then r\<lparr>rq_status := RUNNING, rq_updatedAt := now\<rparr> else r"
  have rows: "jd_requests (js_db ?s') = map ?f (jd_requests (js_db s))" "jd_params (js_db ?s') = jd_params (js_db s)"
    "js_claims ?s' = js_claims s @ [(i, w)]"
    by (simp_all add: update_requests_rows)
  have f: "rq_id (?f r) = rq_id r" "rq_status (?f r) \<noteq> PENDING \<longleftrightarrow> rq_status r \<noteq> PENDING \<or> pending_is i r"
    "request_ok r \<Longrightarrow> request_ok (?f r)" for r
    by (auto simp: pending_is_def request_ok_def)
  have moved: "?f r0 \<in> set (jd_requests (js_db ?s'))" if "r0 \<in> set (jd_requests (js_db s))" for r0
    unfolding rows set_map using that by (rule imageI)
  show ?thesis unfolding job_inv_def
  proof (intro conjI)
    show "distinct (map rq_id (jd_requests (js_db ?s')))"
      using inv(1) unfolding rows(1) by (simp only: map_map comp_def f)
    show "\<forall>r\<in>set (jd_requests (js_db ?s')). request_ok r \<and> (rq_status r \<noteq> PENDING \<longrightarrow> rq_id r \<in> fst ` set (js_claims ?s'))"
    proof
      fix r' assume "r' \<in> set (jd_requests (js_db ?s'))"
      then obtain r0 where r0: "r0 \<in> set (jd_requests (js_db s))" "r' = ?f r0" unfolding rows by auto
      have "rq_status r' \<noteq> PENDING \<Longrightarrow> rq_id r' \<in> fst ` set (js_claims ?s')"
        using inv(3)[OF r0(1)] unfolding r0(2) f rows(3) by (auto simp: pending_is_def)
      then show "request_ok r' \<and> (rq_status r' \<noteq> PENDING \<longrightarrow> rq_id r' \<in> fst ` set (js_claims ?s'))"
        using f(3)[OF inv(2)[OF r0(1)]] r0(2) by blast
    qed
    show "\<forall>j\<in>fst ` set (js_claims ?s'). \<exists>r\<in>set (jd_requests (js_db ?s')). rq_id r = j \<and> rq_status r \<noteq> PENDING"
    proof
      fix j assume "j \<in> fst ` set (js_claims ?s')"
      then consider "j = i" | "j \<in> fst ` set (js_claims s)" unfolding rows by auto
      then obtain r0 where r0: "r0 \<in> set (jd_requests (js_db s))" "rq_id r0 = j" "rq_status r0 \<noteq> PENDING \<or> pending_is i r0"
        using r inv(4) by cases (auto simp: pending_is_def, fastforce)
      then have "rq_id (?f r0) = j" "rq_status (?f r0) \<noteq> PENDING" by (simp_all only: f)
      then show "\<exists>r\<in>set (jd_requests (js_db ?s')). rq_id r = j \<and> rq_status r \<noteq> PENDING"
        using moved[OF r0(1)] by blast
    qed
    show "distinct (map fst (js_claims ?s'))" using inv(5) unclaimed unfolding rows(3) by simp
    show "\<forall>(j, _)\<in>set (jd_params (js_db ?s')). \<exists>r\<in>set (jd_requests (js_db ?s')). rq_id r = j"
    proof clarify
      fix j a b assume "(j, a, b) \<in> set (jd_params (js_db ?s'))"
      then obtain r0 where r0: "r0 \<in> set (jd_requests (js_db s))" "rq_id r0 = j" using inv(6)[of j "(a, b)"] unfolding rows by auto
      then have "rq_id (?f r0) = j" by (simp only: f)
      then show "\<exists>r\<in>set (jd_requests (js_db ?s')). rq_id r = j" using moved[OF r0(1)] by blast
    qed
    show "distinct (map fst (js_workers ?s'))" using inv(7) by (simp add: set_phase_def alist_distinct_update)
    show "\<forall>(v, _)\<in>set (js_workers ?s'). snd v < js_nextWorker ?s'"
      using sub inv(8) inv(8)[OF wmem] by (fastforce simp: set_phase_def)
    show "\<forall>v j. (v, Holding j) \<in> set (js_workers ?s') \<longrightarrow> (j, v) \<in> set (js_claims ?s')"
      using sub inv(9) unfolding rows(3) by fastforce
    show "\<forall>p. activeWorkers p ?s' \<le> je_maxConcurrent e"
      using inv(10) active_update[OF w] by (simp add: activeWorkers_def set_phase_def)
  qed
qed

lemma job_inv_step:
  assumes "job_inv e s"
  shows "job_inv e (job_exec e ev s)"
proof (cases ev)
  case (Create i now inp)
  then show ?thesis using job_inv_create[OF assms] by simp
next
  case (Dispatch p now running)
  then show ?thesis using job_inv_dispatch[OF assms] by simp
next
  case (Shutdown p)
  then show ?thesis using job_inv_workers[OF assms, of "s\<lparr>js_stopped := p # js_stopped s\<rparr>"] job_invD[OF assms]
    by (simp add: activeWorkers_def)
next
  case (Look w)
  show ?thesis
  proof (cases "\<exists>k. map_of (js_workers s) w = Some (Looking k)")
    case True
    then obtain k where k: "map_of (js_workers s) w = Some (Looking k)" by blast
    show ?thesis
    proof (cases "next_pending (js_db s)")
      case None
      show ?thesis
        by (rule job_inv_workers[OF assms]) (use workers_moved[OF assms k, of "AList.delete w (js_workers s)"] Look k None in
          \<open>auto simp: look_step_def drop_worker_def\<close>)
    next
      case (Some r)
      show ?thesis
        by (rule job_inv_workers[OF assms]) (use workers_moved[OF assms k, of "AList.update w (Trying k (rq_id r)) (js_workers s)" k "rq_id r"]
          Look k Some in \<open>auto simp: look_step_def set_phase_def\<close>)
    qed
  next
    case False
    then have "job_exec e ev s = s" using Look by (auto simp: look_step_def split: option.split worker_phase.split)
    then show ?thesis using assms by simp
  qed
next
  case (Claim w now)
  show ?thesis
  proof (cases "\<exists>k i. map_of (js_workers s) w = Some (Trying k i)")
    case True
    then obtain k i where k: "map_of (js_workers s) w = Some (Trying k i)" by blast
    show ?thesis
    proof (cases "affected (pending_is i) (js_db s) = 1")
      case one: True
      then show ?thesis using job_inv_claimed[OF assms k one] Claim k by (simp add: claim_step_def try_claim_def)
    next
      case False
      have "update_requests (pending_is i) (\<lambda>r. r\<lparr>rq_status := RUNNING, rq_updatedAt := now\<rparr>) (js_db s) = js_db s"
      proof (rule update_nothing)
        fix r assume r: "r \<in> set (jd_requests (js_db s))"
        show "\<not> pending_is i r"
        proof
          assume p: "pending_is i r"
          have "length (filter (pending_is i) (jd_requests (js_db s))) = 1"
          proof -
            have "set (filter (pending_is i) (jd_requests (js_db s))) = {r}"
              using r p requests.key_eq_iff[OF job_invD(1)[OF assms]] by (auto simp: pending_is_def)
            moreover have "distinct (filter (pending_is i) (jd_requests (js_db s)))"
              using job_invD(1)[OF assms] by (simp add: distinct_map)
            ultimately show ?thesis using distinct_card by fastforce
          qed
          then show False using False by (simp add: affected_def)
        qed
      qed
      then show ?thesis
        using workers_moved[OF assms k, of "AList.update w (Looking (Suc k)) (js_workers s)" "Suc k" i]
          workers_moved[OF assms k, of "AList.delete w (js_workers s)"] Claim k False
        by (intro job_inv_workers[OF assms]) (auto simp: claim_step_def try_claim_def drop_worker_def set_phase_def split: if_splits)
    qed
  next
    case False
    then have "job_exec e ev s = s" using Claim by (auto simp: claim_step_def split: option.split worker_phase.split)
    then show ?thesis using assms by simp
  qed
next
  case (Heartbeat w now)
  show ?thesis
  proof (cases "\<exists>i. map_of (js_workers s) w = Some (Holding i)")
    case True
    then obtain i where i: "map_of (js_workers s) w = Some (Holding i)" by blast
    show ?thesis
      by (rule job_inv_update[OF assms, where P = "running_is i" and f = "\<lambda>r. r\<lparr>rq_updatedAt := now\<rparr>"])
        (use Heartbeat i workers_moved[OF assms i, of "js_workers s"] job_invD(2)[OF assms] in
          \<open>auto simp: heartbeat_step_def touchRunning_def running_is_def later_def rank_def request_ok_def\<close>)
  next
    case False
    then have "job_exec e ev s = s" using Heartbeat by (auto simp: heartbeat_step_def split: option.split worker_phase.split)
    then show ?thesis using assms by simp
  qed
next
  case (Settle w now outcome)
  show ?thesis
  proof (cases "\<exists>i. map_of (js_workers s) w = Some (Holding i)")
    case True
    then obtain i where i: "map_of (js_workers s) w = Some (Holding i)" by blast
    note moved = workers_moved[OF assms i, of "AList.delete w (js_workers s)"]
    show ?thesis
    proof (cases outcome)
      case (Inl m)
      show ?thesis
        by (rule job_inv_update[OF assms, where P = "running_is i" and f = "\<lambda>r. r\<lparr>rq_status := FAILED,
              rq_error := Some (trimError m), rq_finishedAt := Some now, rq_updatedAt := now\<rparr>"])
          (use Settle i moved Inl in
            \<open>auto simp: settle_step_def markFailed_def drop_worker_def running_is_def later_def rank_def request_ok_def\<close>)
    next
      case (Inr key)
      show ?thesis
        by (rule job_inv_update[OF assms, where P = "running_is i" and f = "\<lambda>r. r\<lparr>rq_status := READY,
              rq_fileKey := Some key, rq_error := None, rq_finishedAt := Some now, rq_updatedAt := now\<rparr>"])
          (use Settle i moved Inr in
            \<open>auto simp: settle_step_def markReady_def drop_worker_def running_is_def later_def rank_def request_ok_def\<close>)
    qed
  next
    case False
    then have "job_exec e ev s = s" using Settle by (auto simp: settle_step_def split: option.split worker_phase.split)
    then show ?thesis using assms by simp
  qed
qed

lemma job_inv_run: "job_inv e s \<Longrightarrow> job_inv e (run_jobs e evs s)"
  by (induction evs arbitrary: s) (simp_all add: run_jobs_def job_inv_step)

lemma job_inv_none: "job_inv e no_jobs"
  by (simp add: job_inv_def no_jobs_def activeWorkers_def)
text \<open>
  C29: workers never share a request.  After any interleaving of the workers of all processes, every request was
  claimed at most once and only its claimer can hold it; it is PENDING exactly while nobody claimed it; a READY
  request has its file and a FAILED one its message; and no process runs more workers than configured, whatever
  number of running requests the replica answers.
\<close>

theorem report_claimed_once:
  fixes e evs
  defines "s \<equiv> run_jobs e evs no_jobs"
  shows "distinct (map fst (js_claims s)) \<and>
    list_all (\<lambda>(w, ph). case ph of Holding i \<Rightarrow> map_of (js_claims s) i = Some w | _ \<Rightarrow> True) (js_workers s) \<and>
    list_all (\<lambda>r. (rq_status r = PENDING \<longleftrightarrow> map_of (js_claims s) (rq_id r) = None) \<and>
      (rq_status r = READY \<longrightarrow> rq_fileKey r \<noteq> None) \<and> (rq_status r = FAILED \<longrightarrow> rq_error r \<noteq> None)) (jd_requests (js_db s)) \<and>
    activeWorkers p s \<le> je_maxConcurrent e"
proof -
  note inv = job_invD[OF job_inv_run[OF job_inv_none, of e evs, folded s_def]]
  have "map_of (js_claims s) i = Some w" if "(w, Holding i) \<in> set (js_workers s)" for w i
    using inv(9)[OF that] inv(5) by (simp add: map_of_eq_Some_iff)
  then have "list_all (\<lambda>(w, ph). case ph of Holding i \<Rightarrow> map_of (js_claims s) i = Some w | _ \<Rightarrow> True) (js_workers s)"
    by (auto simp: list_all_iff split: worker_phase.split)
  moreover have "rq_status r = PENDING \<longleftrightarrow> map_of (js_claims s) (rq_id r) = None" if r: "r \<in> set (jd_requests (js_db s))" for r
  proof
    assume p: "rq_status r = PENDING"
    have "rq_id r \<notin> fst ` set (js_claims s)"
    proof
      assume "rq_id r \<in> fst ` set (js_claims s)"
      then obtain r' where "r' \<in> set (jd_requests (js_db s))" "rq_id r' = rq_id r" "rq_status r' \<noteq> PENDING"
        using inv(4) by fastforce
      then show False using p r requests.key_eq_iff[OF inv(1)] by auto
    qed
    then show "map_of (js_claims s) (rq_id r) = None" by (simp add: map_of_eq_None_iff)
  next
    assume "map_of (js_claims s) (rq_id r) = None"
    then show "rq_status r = PENDING" using inv(3)[OF r] by (auto simp: map_of_eq_None_iff)
  qed
  then have "list_all (\<lambda>r. (rq_status r = PENDING \<longleftrightarrow> map_of (js_claims s) (rq_id r) = None) \<and>
      (rq_status r = READY \<longrightarrow> rq_fileKey r \<noteq> None) \<and> (rq_status r = FAILED \<longrightarrow> rq_error r \<noteq> None)) (jd_requests (js_db s))"
    using inv(2) by (simp add: list_all_iff request_ok_def)
  ultimately show ?thesis using inv(5,10) by blast
qed

definition demo_jobs :: job_env where
  "demo_jobs = \<lparr>je_hash = (\<lambda>_ _ _. ''h''), je_collate = toLowerCase, je_maxConcurrent = 2, je_staleTtl = 100,
     je_report = demo_report,
     je_text = \<lparr>te_iso = int_text, te_number = (\<lambda>_. ''1''), te_stringify = (\<lambda>_. ''{}''), te_parse = (\<lambda>_. None),
       te_decimal = (\<lambda>d. Finite (of_int d / 10000))\<rparr>,
     je_settings = \<lparr>rs_pageSize = 1, rs_maxRowsPerFile = 1, rs_maxZipFiles = 2\<rparr>\<rparr>"

definition demo_create :: create_input where
  "demo_create = \<lparr>ci_reportType = TransactionDetail, ci_fileType = ''csv'', ci_params = [], ci_user = Some ''u1'', ci_fsp = None\<rparr>"

theorem report_claimed_once_witness:
  "map_of (js_claims (run_jobs demo_jobs [Create 7 1 demo_create, Dispatch 0 5 0, Look (0, 0), Look (0, 1), Claim (0, 1) 6, Claim (0, 0) 7] no_jobs)) 7 =
     Some (0, 1) \<and>
   activeWorkers 0 (run_jobs demo_jobs [Create 7 1 demo_create, Dispatch 0 5 0, Dispatch 0 6 0] no_jobs) \<le> 2"
proof -
  have "map_of (js_claims (run_jobs demo_jobs [Create 7 1 demo_create, Dispatch 0 5 0, Look (0, 0), Look (0, 1), Claim (0, 1) 6, Claim (0, 0) 7] no_jobs)) 7 =
     Some (0, 1)" by code_simp
  then show ?thesis
    using report_claimed_once[of demo_jobs "[Create 7 1 demo_create, Dispatch 0 5 0, Dispatch 0 6 0]" 0]
    by (simp add: demo_jobs_def)
qed

theorem report_request_lifecycle_witness:
  "map_option rq_status (find_request 7 (js_db (job_exec demo_jobs (Dispatch 1 200 0)
     (run_jobs demo_jobs [Create 7 1 demo_create, Dispatch 0 5 0, Look (0, 0), Claim (0, 0) 6] no_jobs)))) = Some FAILED"
proof -
  let ?s = "run_jobs demo_jobs [Create 7 1 demo_create, Dispatch 0 5 0, Look (0, 0), Claim (0, 0) 6] no_jobs"
  have "case find_request 7 (js_db ?s) of None \<Rightarrow> False | Some r \<Rightarrow> rq_status r = RUNNING \<and> rq_updatedAt r = 6"
    "js_stopped ?s = []" by code_simp+
  then show ?thesis
    using report_request_lifecycle[of 7 ?s _ demo_jobs "[]" 200 1 0]
    by (auto simp: demo_jobs_def split: option.splits)
qed

section \<open>Who sees a report\<close>

text \<open>
  A report belongs to the user who asked for it.  Its status, its link and its file are only answered to the user,
  and the FSP, of the request; a link and a file only once it is READY; and a new request is stored under the
  user and the FSP of the caller, whatever the parameters say.
\<close>

theorem report_owner_only:
  "(case visible_report e (Some claims) t db of
      Inl _ \<Rightarrow> True
    | Inr r \<Rightarrow> r \<in> set (jd_requests db) \<and> scope_matches e (rq_user r) (Some (c_sub claims)) \<and>
        scope_matches e (rq_fsp r) (c_fspId claims)) \<and>
   (case getReportDownloadUrl e (Some claims) t url db of
      Inr (_, status, Some _, _, _) \<Rightarrow> status = READY | _ \<Rightarrow> True) \<and>
   (case downloadReport e (Some claims) t db of
      Inl _ \<Rightarrow> True
    | Inr (key, _) \<Rightarrow> list_ex (\<lambda>r. rq_status r = READY \<and> rq_fileKey r = Some key \<and>
        scope_matches e (rq_user r) (Some (c_sub claims)) \<and> scope_matches e (rq_fsp r) (c_fspId claims)) (jd_requests db)) \<and>
   (case requestTransactionReport e adb i now (Some claims) p lp fileType db of
      (Inl _, db') \<Rightarrow> db' = db
    | (Inr r, db') \<Rightarrow> rq_user r = Some (c_sub claims) \<and> rq_fsp r = c_fspId claims \<and> jd_requests db' = jd_requests db @ [r])"
proof (intro conjI)
  have seen: "r \<in> set (jd_requests db) \<and> scope_matches e (rq_user r) (Some (c_sub claims)) \<and> scope_matches e (rq_fsp r) (c_fspId claims)"
    if vis: "visible_report e (Some claims) t db = Inr r" for r
  proof -
    obtain i where i: "(case findById e i (report_scope (Some claims)) db of None \<Rightarrow> Inl REPORT_REQUEST_NOT_FOUND | Some r \<Rightarrow> Inr r) = Inr r"
      using vis unfolding visible_report_def res_bind_eq_Inr by blast
    then have "findById e i (report_scope (Some claims)) db = Some r" by (cases "findById e i (report_scope (Some claims)) db") simp_all
    from find_SomeD[OF this[unfolded findById_def]] show ?thesis by (simp add: report_scope_def)
  qed
  then show "case visible_report e (Some claims) t db of Inl _ \<Rightarrow> True | Inr r \<Rightarrow> r \<in> set (jd_requests db) \<and>
      scope_matches e (rq_user r) (Some (c_sub claims)) \<and> scope_matches e (rq_fsp r) (c_fspId claims)"
    by (simp split: sum.split)
  show "case getReportDownloadUrl e (Some claims) t url db of Inr (_, status, Some _, _, _) \<Rightarrow> status = READY | _ \<Rightarrow> True"
    by (cases "visible_report e (Some claims) t db") (simp_all add: getReportDownloadUrl_def download_url_def)
  show "case downloadReport e (Some claims) t db of Inl _ \<Rightarrow> True
    | Inr (key, _) \<Rightarrow> list_ex (\<lambda>r. rq_status r = READY \<and> rq_fileKey r = Some key \<and>
        scope_matches e (rq_user r) (Some (c_sub claims)) \<and> scope_matches e (rq_fsp r) (c_fspId claims)) (jd_requests db)"
    using seen by (cases "visible_report e (Some claims) t db") (auto simp: downloadReport_def list_ex_iff split: option.split)
  show "case requestTransactionReport e adb i now (Some claims) p lp fileType db of (Inl _, db') \<Rightarrow> db' = db
    | (Inr r, db') \<Rightarrow> rq_user r = Some (c_sub claims) \<and> rq_fsp r = c_fspId claims \<and> jd_requests db' = jd_requests db @ [r]"
  proof -
    have scope: "scope = c_fspId claims" if "resolveListAccessScope (Some claims) a b = Inr scope" for a b scope
      using that by (auto simp: resolveListAccessScope_def Let_def split: option.splits if_splits)
    show ?thesis
      by (auto simp: requestTransactionReport_def create_report_def createPending_def Let_def dest: scope split: sum.split prod.split)
  qed
qed
section \<open>From the request to the file\<close>

definition params_ok :: "job_db \<Rightarrow> bool" where
  "params_ok db = list_all (\<lambda>(j, _). list_ex (\<lambda>r. rq_id r = j) (jd_requests db)) (jd_params db)"

lemma fold_update_fresh:
  "distinct (map fst (acc @ kvs)) \<Longrightarrow> fold (\<lambda>(k, v). AList.update k v) kvs acc = acc @ kvs"
proof (induction kvs arbitrary: acc)
  case (Cons kv kvs)
  obtain k v where kv: "kv = (k, v)" by (cases kv)
  have "AList.update k v acc = acc @ [(k, v)]"
    using Cons.prems unfolding kv by (induction acc) auto
  then show ?case using Cons.IH[of "acc @ [(k, v)]"] Cons.prems by (simp add: kv)
qed simp

lemma params_keys_distinct: "distinct (map fst (fromInput e c od scope))"
  by (simp add: fromInput_def Let_def)

lemma created_params:
  assumes "createPending e i now inp db = (Some r, db')" "params_ok db" "distinct (map fst (ci_params inp))"
  shows "findParamsByRequestId (rq_id r) db' = ci_params inp" "rq_id r = i" "rq_reportType r = ci_reportType inp"
    "rq_fileType r = ci_fileType inp"
proof -
  have fresh: "find_request i db = None"
    using assms(1) by (cases "find_request i db") (simp_all add: createPending_def)
  then have "\<not> list_ex (\<lambda>r. rq_id r = i) (jd_requests db)" by (auto simp: find_request_def find_None_iff list_ex_iff)
  then have "filter (\<lambda>(j, _, _). j = i) (jd_params db) = []"
    using assms(2) by (auto simp: params_ok_def filter_empty_conv list_all_iff)
  moreover have "filter (\<lambda>(j, _, _). j = i) (map (\<lambda>(k, v). (i, k, Some v)) ps) = map (\<lambda>(k, v). (i, k, Some v)) ps" for ps :: params
    by (induction ps) auto
  ultimately have "findParamsByRequestId i db' = fold (\<lambda>(k, v). AList.update k v) (ci_params inp) []"
    using assms(1) fresh by (auto simp: createPending_def Let_def findParamsByRequestId_def fold_map comp_def case_prod_unfold or_empty_def)
  also have "\<dots> = ci_params inp" using fold_update_fresh[of "[]" "ci_params inp"] assms(3) by simp
  finally show "findParamsByRequestId (rq_id r) db' = ci_params inp"
    using assms(1) fresh by (auto simp: createPending_def Let_def)
qed (use assms(1) in \<open>auto simp: createPending_def Let_def split: if_splits\<close>)



text \<open>
  The workers read the parameters from the replica.  While the parameters of a claimed request have not reached it,
  the stored search reads back as the search for everything, in the scope of the hub.
\<close>

lemma lagging_replica_unscopes_report:
  assumes "list_all (\<lambda>(j, _). j \<noteq> i) (jd_params replica)"
  shows "toCriteria e (findParamsByRequestId i replica) = Some any_criteria \<and> toAccessScope (findParamsByRequestId i replica) = None"
proof -
  have "filter (\<lambda>(j, _, _). j = i) (jd_params replica) = []"
    using assms by (auto simp: filter_empty_conv list_all_iff)
  then have "findParamsByRequestId i replica = []" by (simp add: findParamsByRequestId_def)
  then show ?thesis
    by (simp add: toCriteria_def toAccessScope_def emptyToUndefined_def param_integer_def param_date_def paramToNullable_def
        param_boolean_def any_criteria_def)
qed

end
