(* ===== verification/Rollup_Table.thy ===== *)
theory Rollup_Table
  imports Audit_Search "HOL-Library.Multiset"
begin

text \<open>
  The hourly rollup of the audit table (\<open>transaction-rollup.repository.ts\<close>): the buckets that a window of
  transactions is aggregated to, the replacement of a window of the rollup table, and the rows a dashboard query reads
  (full hours from the rollup, the hours at the borders from the transactions).  Times are milliseconds of UTC, the
  time zone of the connection.  The collation by which the database compares texts is the parameter \<open>co\<close>.
\<close>

section \<open>The columns of a transaction\<close>

definition hourMs :: int where "hourMs = 3600000"

text \<open>\<open>DATE_FORMAT(..., '%Y-%m-%d %H:00:00')\<close>.\<close>

definition hour_of :: "int \<Rightarrow> int" where
  "hour_of t = t div hourMs * hourMs"

definition tx_currency :: "tx_row \<Rightarrow> string" where
  "tx_currency t = (case am_transferCurrency (tx_amounts t) of
     Some c \<Rightarrow> c
   | None \<Rightarrow> (case am_quotingCurrency (tx_amounts t) of Some c \<Rightarrow> c | None \<Rightarrow> ''XXX''))"

definition tx_useCase :: "(string \<Rightarrow> string) \<Rightarrow> tx_row \<Rightarrow> string" where
  "tx_useCase co t = (case tx_subScenario t of
     None \<Rightarrow> ''UNSPECIFIED''
   | Some s \<Rightarrow> if co s = co [] then ''UNSPECIFIED'' else s)"

text \<open>The value of a transaction moved when it is committed at the Hub or in dispute.\<close>

definition moved :: "(string \<Rightarrow> string) \<Rightarrow> tx_row \<Rightarrow> bool" where
  "moved co t \<longleftrightarrow> (case tx_state t of None \<Rightarrow> False | Some s \<Rightarrow> co s = co ''COMMITTED'') \<or> tx_possibleDispute t"

definition moved_amount :: "(string \<Rightarrow> string) \<Rightarrow> tx_row \<Rightarrow> int" where
  "moved_amount co t = (if moved co t then (case am_transferAmount (tx_amounts t) of None \<Rightarrow> 0 | Some a \<Rightarrow> a) else 0)"

definition tx_latency :: "tx_row \<Rightarrow> int option" where
  "tx_latency t = map_option (\<lambda>c. c - tx_startedAt t) (tx_completedAt t)"

section \<open>Buckets\<close>

record rollup_row =
  ru_hour :: int
  ru_payer :: string
  ru_payee :: string
  ru_currency :: string
  ru_subScenario :: string
  ru_txn :: nat
  ru_error :: nat
  ru_dispute :: nat
  ru_partiesError :: nat
  ru_quotesError :: nat
  ru_transfersError :: nat
  ru_patchError :: nat
  ru_committedAmount :: int
  ru_committed :: nat
  ru_latencyCount :: nat
  ru_sumLatency :: "int option"

definition count_of :: "('a \<Rightarrow> bool) \<Rightarrow> 'a list \<Rightarrow> nat" where
  "count_of P xs = length (filter P xs)"

text \<open>\<open>SUM\<close> ignores NULL and is NULL when there is nothing else.\<close>

definition sql_sum :: "int option list \<Rightarrow> int option" where
  "sql_sum xs = (case List.map_filter id xs of [] \<Rightarrow> None | ys \<Rightarrow> Some (sum_list ys))"

definition group_rows :: "('a \<Rightarrow> 'k) \<Rightarrow> 'a list \<Rightarrow> 'a list list" where
  "group_rows k xs = map (\<lambda>x. filter (\<lambda>y. k y = x) xs) (remdups (map k xs))"

text \<open>
  \<open>GROUP BY\<close> takes \<open>sub_scenario\<close> for the column of the table, not for the expression selected under this name.
\<close>

definition group_key :: "(string \<Rightarrow> string) \<Rightarrow> tx_row \<Rightarrow> int \<times> string \<times> string \<times> string \<times> string option" where
  "group_key co t = (hour_of (tx_startedAt t), co (id_fsp (tx_payer t)), co (id_fsp (tx_payee t)), co (tx_currency t),
     map_option co (tx_subScenario t))"

definition bucket_of :: "(string \<Rightarrow> string) \<Rightarrow> tx_row list \<Rightarrow> rollup_row" where
  "bucket_of co g = \<lparr>
     ru_hour = hour_of (tx_startedAt (hd g)),
     ru_payer = id_fsp (tx_payer (hd g)),
     ru_payee = id_fsp (tx_payee (hd g)),
     ru_currency = tx_currency (hd g),
     ru_subScenario = tx_useCase co (hd g),
     ru_txn = length g,
     ru_error = count_of tx_error g,
     ru_dispute = count_of tx_possibleDispute g,
     ru_partiesError = count_of (\<lambda>t. ph_error (tx_parties t) \<noteq> None) g,
     ru_quotesError = count_of (\<lambda>t. ph_error (tx_quotes t) \<noteq> None) g,
     ru_transfersError = count_of (\<lambda>t. ph_error (tx_transfers t) \<noteq> None) g,
     ru_patchError = count_of (\<lambda>t. pt_error (tx_patch t) \<noteq> None) g,
     ru_committedAmount = sum_list (map (moved_amount co) g),
     ru_committed = count_of (moved co) g,
     ru_latencyCount = count_of (\<lambda>t. tx_completedAt t \<noteq> None) g,
     ru_sumLatency = sql_sum (map tx_latency g)\<rparr>"

definition started_in :: "int \<Rightarrow> int \<Rightarrow> tx_row \<Rightarrow> bool" where
  "started_in start end t \<longleftrightarrow> start \<le> tx_startedAt t \<and> tx_startedAt t < end"

definition hour_in :: "int \<Rightarrow> int \<Rightarrow> rollup_row \<Rightarrow> bool" where
  "hour_in start end r \<longleftrightarrow> start \<le> ru_hour r \<and> ru_hour r < end"

definition aggregateWindow :: "(string \<Rightarrow> string) \<Rightarrow> int \<Rightarrow> int \<Rightarrow> audit_db \<Rightarrow> rollup_row list" where
  "aggregateWindow co windowStart windowEnd db =
     map (bucket_of co) (group_rows (group_key co) (filter (started_in windowStart windowEnd) (db_rows db)))"

text \<open>The table keeps with each row the time of its refresh.\<close>

type_synonym rollup_table = "(rollup_row \<times> int) list"

definition primary_key :: "(string \<Rightarrow> string) \<Rightarrow> rollup_row \<Rightarrow> int \<times> string \<times> string \<times> string \<times> string" where
  "primary_key co r = (ru_hour r, co (ru_payer r), co (ru_payee r), co (ru_currency r), co (ru_subScenario r))"

text \<open>A duplicate of the primary key fails the insert and rolls the transaction back: \<open>None\<close>.\<close>

definition replaceWindow :: "(string \<Rightarrow> string) \<Rightarrow> int \<Rightarrow> int \<Rightarrow> rollup_row list \<Rightarrow> int \<Rightarrow> rollup_table \<Rightarrow> rollup_table option" where
  "replaceWindow co windowStart windowEnd rows now table =
     (let others = filter (\<lambda>(r, _). \<not> hour_in windowStart windowEnd r) table;
          written = others @ map (\<lambda>r. (r, now)) rows
      in if distinct (map (primary_key co) rows) \<and>
            list_all (\<lambda>r. list_all (\<lambda>(r', _). primary_key co r' \<noteq> primary_key co r) others) rows
         then Some written else None)"

definition reaggregateWindow :: "(string \<Rightarrow> string) \<Rightarrow> int \<Rightarrow> int \<Rightarrow> int \<Rightarrow> audit_db \<Rightarrow> rollup_table \<Rightarrow> rollup_table option" where
  "reaggregateWindow co windowStart windowEnd now db table =
     replaceWindow co windowStart windowEnd (aggregateWindow co windowStart windowEnd db) now table"

definition getLastUpdatedAt :: "rollup_table \<Rightarrow> int option" where
  "getLastUpdatedAt table = (case table of [] \<Rightarrow> None | _ \<Rightarrow> Some (Max (set (map snd table))))"

section \<open>The rows of a range\<close>

type_synonym fsp_filter = "string option \<times> string option \<times> string option"

text \<open>The scope of the caller, and the payer and payee that the user asked for.\<close>

definition scopeClause :: "(string \<Rightarrow> string) \<Rightarrow> string option \<Rightarrow> string \<Rightarrow> string \<Rightarrow> bool" where
  "scopeClause co scope payer payee = asked scope (\<lambda>f. co payer = co f \<or> co payee = co f)"

definition participantFilterClause :: "(string \<Rightarrow> string) \<Rightarrow> string option \<Rightarrow> string option \<Rightarrow> string \<Rightarrow> string \<Rightarrow> bool" where
  "participantFilterClause co payerFsp payeeFsp payer payee \<longleftrightarrow>
     asked payerFsp (\<lambda>f. co payer = co f) \<and> asked payeeFsp (\<lambda>f. co payee = co f)"

definition selected :: "(string \<Rightarrow> string) \<Rightarrow> fsp_filter \<Rightarrow> string \<Rightarrow> string \<Rightarrow> bool" where
  "selected co f payer payee =
     (case f of (scope, payerFsp, payeeFsp) \<Rightarrow>
        scopeClause co scope payer payee \<and> participantFilterClause co payerFsp payeeFsp payer payee)"

definition tx_selected :: "(string \<Rightarrow> string) \<Rightarrow> fsp_filter \<Rightarrow> tx_row \<Rightarrow> bool" where
  "tx_selected co f t = selected co f (id_fsp (tx_payer t)) (id_fsp (tx_payee t))"

definition edge_row :: "(string \<Rightarrow> string) \<Rightarrow> int \<Rightarrow> tx_row \<Rightarrow> rollup_row" where
  "edge_row co start t = \<lparr>
     ru_hour = max (hour_of (tx_startedAt t)) start,
     ru_payer = id_fsp (tx_payer t),
     ru_payee = id_fsp (tx_payee t),
     ru_currency = tx_currency t,
     ru_subScenario = tx_useCase co t,
     ru_txn = 1,
     ru_error = of_bool (tx_error t),
     ru_dispute = of_bool (tx_possibleDispute t),
     ru_partiesError = of_bool (ph_error (tx_parties t) \<noteq> None),
     ru_quotesError = of_bool (ph_error (tx_quotes t) \<noteq> None),
     ru_transfersError = of_bool (ph_error (tx_transfers t) \<noteq> None),
     ru_patchError = of_bool (pt_error (tx_patch t) \<noteq> None),
     ru_committedAmount = moved_amount co t,
     ru_committed = of_bool (moved co t),
     ru_latencyCount = of_bool (tx_completedAt t \<noteq> None),
     ru_sumLatency = tx_latency t\<rparr>"

definition fullStart :: "int \<Rightarrow> int" where
  "fullStart from = - ((- from) div hourMs) * hourMs"

definition fullEnd :: "int \<Rightarrow> int" where
  "fullEnd to = to div hourMs * hourMs"

definition edges :: "int \<Rightarrow> int \<Rightarrow> (int \<times> int) list" where
  "edges from to = (if fullStart from < fullEnd to then [(from, fullStart from), (fullEnd to, to)] else [(from, to)])"

definition rangeSource :: "(string \<Rightarrow> string) \<Rightarrow> fsp_filter \<Rightarrow> int \<Rightarrow> int \<Rightarrow> audit_db \<Rightarrow> rollup_table \<Rightarrow> rollup_row list" where
  "rangeSource co f from to db table =
     (if fullStart from < fullEnd to
      then filter (\<lambda>r. hour_in (fullStart from) (fullEnd to) r \<and> selected co f (ru_payer r) (ru_payee r)) (map fst table)
      else []) @
     concat (map (\<lambda>(start, end). if start \<ge> end then []
       else map (edge_row co start) (filter (\<lambda>t. started_in start end t \<and> tx_selected co f t) (db_rows db))) (edges from to))"

section \<open>Freshness\<close>

text \<open>The buckets of a window are the aggregate of its transactions.\<close>

definition fresh :: "(string \<Rightarrow> string) \<Rightarrow> int \<Rightarrow> int \<Rightarrow> audit_db \<Rightarrow> rollup_table \<Rightarrow> bool" where
  "fresh co windowStart windowEnd db table \<longleftrightarrow>
     mset (filter (hour_in windowStart windowEnd) (map fst table)) = mset (aggregateWindow co windowStart windowEnd db)"

lemma hourMs_pos [simp]: "0 < hourMs" "hourMs \<noteq> 0"
  by (simp_all add: hourMs_def)

lemma mult_le_iff_le_div:
  fixes h :: int
  assumes "0 < h"
  shows "q * h \<le> t \<longleftrightarrow> q \<le> t div h"
proof
  assume "q * h \<le> t"
  from zdiv_mono1[OF this assms] show "q \<le> t div h" using assms by simp
next
  assume "q \<le> t div h"
  then have "q * h \<le> t div h * h" using assms by (simp add: mult_right_mono)
  also have "\<dots> \<le> t" using assms by (simp flip: minus_mod_eq_div_mult)
  finally show "q * h \<le> t" .
qed

lemma hour_of_bounds: "hour_of t \<le> t" "t < hour_of t + hourMs"
  using pos_mod_bound[of hourMs t] by (simp_all add: hour_of_def flip: minus_mod_eq_div_mult)

lemma hour_of_idem [simp]: "hour_of (hour_of t) = hour_of t"
  by (simp add: hour_of_def)

lemma hour_of_le: "hour_of x = x \<Longrightarrow> x \<le> t \<longleftrightarrow> x \<le> hour_of t"
proof -
  assume x: "hour_of x = x"
  have "x \<le> t \<longleftrightarrow> x div hourMs \<le> t div hourMs"
    using mult_le_iff_le_div[of hourMs "x div hourMs" t] x by (simp add: hour_of_def)
  also have "\<dots> \<longleftrightarrow> x \<le> hour_of t" using x unfolding hour_of_def
    by (metis hourMs_pos(1) mult_le_cancel_right_pos)
  finally show ?thesis .
qed

lemma hour_of_less: "hour_of x = x \<Longrightarrow> t < x \<longleftrightarrow> hour_of t < x"
  using hour_of_le[of x t] by linarith

lemma hour_of_mono: "a \<le> b \<Longrightarrow> hour_of a \<le> hour_of b"
  by (simp add: hour_of_def zdiv_mono1)

lemma hour_of_add [simp]: "hour_of (t + hourMs) = hour_of t + hourMs"
  by (simp add: hour_of_def distrib_right)

lemma full_hours: "hour_of (fullStart from) = fullStart from" "hour_of (fullEnd to) = fullEnd to"
    "from \<le> fullStart from" "fullStart from < from + hourMs" "fullEnd to = hour_of to"
proof -
  show "hour_of (fullStart from) = fullStart from" by (simp add: hour_of_def fullStart_def)
  show "hour_of (fullEnd to) = fullEnd to" "fullEnd to = hour_of to" by (simp_all add: hour_of_def fullEnd_def)
  have "fullStart from = - hour_of (- from)" by (simp add: fullStart_def hour_of_def)
  then show "from \<le> fullStart from" "fullStart from < from + hourMs" using hour_of_bounds[of "- from"] by linarith+
qed

lemma fullStart_least: "hour_of x = x \<Longrightarrow> from \<le> x \<Longrightarrow> fullStart from \<le> x"
proof -
  assume x: "hour_of x = x" "from \<le> x"
  have "fullStart from - hourMs < x" using x(2) full_hours(4)[of "from"] by simp
  then have "hour_of (fullStart from - hourMs) < x" using hour_of_less[OF x(1)] by blast
  moreover have "hour_of (fullStart from - hourMs) = fullStart from - hourMs"
    using hour_of_add[of "fullStart from - hourMs"] full_hours(1)[of "from"] by simp
  ultimately have "fullStart from < x + hourMs" by simp
  moreover have "hour_of (x + hourMs) = x + hourMs" using x(1) by simp
  ultimately show ?thesis using x(1) full_hours(1)[of "from"]
    unfolding hour_of_def by (metis add1_zle_eq add.commute hourMs_pos(1) mult.commute mult.right_neutral mult_less_cancel_right_pos
      distrib_right mult_1 zless_add1_eq nat_int linorder_not_less mult_le_cancel_right_pos order_le_less)
qed

lemma started_aligned:
  "hour_of lo = lo \<Longrightarrow> hour_of hi = hi \<Longrightarrow> started_in lo hi t \<longleftrightarrow> lo \<le> hour_of (tx_startedAt t) \<and> hour_of (tx_startedAt t) < hi"
  using hour_of_le[of lo "tx_startedAt t"] hour_of_less[of hi "tx_startedAt t"] by (simp add: started_in_def)

lemma sum_list_remdups_filter:
  fixes f :: "'a \<Rightarrow> 'b::comm_monoid_add"
  shows "distinct ks \<Longrightarrow> set (map k xs) \<subseteq> set ks \<Longrightarrow>
    sum_list (map (\<lambda>x. sum_list (map f (filter (\<lambda>y. k y = x) xs))) ks) = sum_list (map f xs)"
proof (induction xs)
  case (Cons y ys)
  have "sum_list (map (\<lambda>x. sum_list (map f (filter (\<lambda>z. k z = x) (y # ys)))) ks) =
      sum_list (map (\<lambda>x. (if k y = x then f y else 0) + sum_list (map f (filter (\<lambda>z. k z = x) ys))) ks)"
    by (rule arg_cong[where f = sum_list], rule map_cong) auto
  also have "\<dots> = sum_list (map (\<lambda>x. if k y = x then f y else 0) ks) + sum_list (map f ys)"
    using Cons by (simp add: sum_list_addf)
  also have "sum_list (map (\<lambda>x. if k y = x then f y else 0) ks) = f y"
    using Cons.prems by (simp add: sum_list_distinct_conv_sum_set)
  finally show ?case by simp
qed simp

lemma sum_group_rows:
  fixes f :: "'a \<Rightarrow> 'b::comm_monoid_add"
  shows "sum_list (map (\<lambda>g. sum_list (map f g)) (group_rows k xs)) = sum_list (map f xs)"
  using sum_list_remdups_filter[of "remdups (map k xs)" k xs f] by (simp add: group_rows_def comp_def)

lemma group_rows_mem:
  assumes "g \<in> set (group_rows k xs)"
  shows "g \<noteq> []" "\<forall>x\<in>set g. k x = k (hd g)" "set g \<subseteq> set xs" "g = filter (\<lambda>y. k y = k (hd g)) xs"
proof -
  obtain x where x: "x \<in> set xs" "g = filter (\<lambda>y. k y = k x) xs" using assms by (auto simp: group_rows_def)
  then show ne: "g \<noteq> []" by (auto simp: filter_empty_conv)
  then have "k (hd g) = k x" using x hd_in_set[OF ne] by auto
  then show "\<forall>x\<in>set g. k x = k (hd g)" "set g \<subseteq> set xs" "g = filter (\<lambda>y. k y = k (hd g)) xs" using x by auto
qed

lemma group_heads: "map (\<lambda>g. k (hd g)) (group_rows k xs) = remdups (map k xs)"
proof -
  have "k (hd (filter (\<lambda>y. k y = x) xs)) = x" if "x \<in> set (map k xs)" for x
  proof -
    have "filter (\<lambda>y. k y = x) xs \<noteq> []" using that by (auto simp: filter_empty_conv)
    from hd_in_set[OF this] show ?thesis by simp
  qed
  then show ?thesis unfolding group_rows_def map_map comp_def by (intro map_idI) simp
qed

lemma group_rows_filter:
  assumes "\<And>x. P x \<longleftrightarrow> Q (k x)"
  shows "group_rows k (filter P xs) = filter (\<lambda>g. P (hd g)) (group_rows k xs)"
proof -
  have P: "P = (\<lambda>x. Q (k x))" using assms by auto
  have keys: "remdups (map k (filter P xs)) = filter Q (remdups (map k xs))"
    using assms by (simp add: P filter_map comp_def flip: remdups_filter)
  have "filter (\<lambda>g. P (hd g)) (map (\<lambda>x. filter (\<lambda>y. k y = x) xs) ks) = map (\<lambda>x. filter (\<lambda>y. k y = x) (filter P xs)) (filter Q ks)"
    if "set ks \<subseteq> k ` set xs" for ks
    using that
  proof (induction ks)
    case (Cons x ks)
    have "filter (\<lambda>y. k y = x) xs \<noteq> []" using Cons.prems by (auto simp: filter_empty_conv)
    from hd_in_set[OF this] have "k (hd (filter (\<lambda>y. k y = x) xs)) = x" by simp
    then have hd: "P (hd (filter (\<lambda>y. k y = x) xs)) = Q x" by (simp add: assms)
    have "Q x \<Longrightarrow> filter (\<lambda>y. k y = x) xs = filter (\<lambda>y. k y = x) (filter P xs)"
      using assms by (auto intro!: filter_cong)
    then show ?case using Cons hd by simp
  qed simp
  then show ?thesis by (simp add: group_rows_def keys)
qed
section \<open>Sums over a range\<close>

definition same_group :: "(string \<Rightarrow> string) \<Rightarrow> tx_row list \<Rightarrow> bool" where
  "same_group co g \<longleftrightarrow> g \<noteq> [] \<and> (\<forall>t\<in>set g. group_key co t = group_key co (hd g))"

text \<open>
  A number that a query sums over the rows of a range: of a bucket it is the sum over its transactions, of a row
  that stands for one transaction it is that of the transaction.
\<close>

locale range_measure =
  fixes co :: "string \<Rightarrow> string" and start stop :: int
    and of_tx :: "tx_row \<Rightarrow> int" and of_row :: "rollup_row \<Rightarrow> int"
  assumes of_bucket: "same_group co g \<Longrightarrow> (\<And>t. t \<in> set g \<Longrightarrow> started_in (fullStart start) (fullEnd stop) t) \<Longrightarrow>
      of_row (bucket_of co g) = sum_list (map of_tx g)"
    and of_edge: "(a, b) \<in> set (edges start stop) \<Longrightarrow> started_in a b t \<Longrightarrow> of_row (edge_row co a t) = of_tx t"

text \<open>A condition that a bucket satisfies exactly when its transactions do.\<close>

locale range_choice =
  fixes co :: "string \<Rightarrow> string" and start stop :: int
    and tx_ok :: "tx_row \<Rightarrow> bool" and row_ok :: "rollup_row \<Rightarrow> bool"
  assumes ok_bucket: "same_group co g \<Longrightarrow> (\<And>t. t \<in> set g \<Longrightarrow> started_in (fullStart start) (fullEnd stop) t) \<Longrightarrow>
      t \<in> set g \<Longrightarrow> row_ok (bucket_of co g) = tx_ok t"
    and ok_edge: "(a, b) \<in> set (edges start stop) \<Longrightarrow> started_in a b t \<Longrightarrow> row_ok (edge_row co a t) = tx_ok t"

locale chosen_range_measure = range_measure + range_choice
begin

lemma chosen: "range_measure co start stop (\<lambda>t. if tx_ok t then of_tx t else 0) (\<lambda>r. if row_ok r then of_row r else 0)"
proof
  fix g assume g: "same_group co g" "\<And>t. t \<in> set g \<Longrightarrow> started_in (fullStart start) (fullEnd stop) t"
  have ok: "tx_ok t \<longleftrightarrow> row_ok (bucket_of co g)" if "t \<in> set g" for t using ok_bucket[OF g that] by blast
  show "(if row_ok (bucket_of co g) then of_row (bucket_of co g) else 0) = sum_list (map (\<lambda>t. if tx_ok t then of_tx t else 0) g)"
  proof (cases "row_ok (bucket_of co g)")
    case True
    then have "map (\<lambda>t. if tx_ok t then of_tx t else 0) g = map of_tx g" using ok by simp
    from arg_cong[OF this, of sum_list] show ?thesis using True of_bucket[OF g] by simp
  next
    case False
    then have "map (\<lambda>t. if tx_ok t then of_tx t else 0) g = map (\<lambda>_. 0) g" using ok by simp
    from arg_cong[OF this, of sum_list] show ?thesis using False by (simp add: sum_list_triv)
  qed
qed (simp add: of_edge ok_edge)

end

lemma same_group_co:
  assumes "same_group co g" "t \<in> set g"
  shows "co (id_fsp (tx_payer (hd g))) = co (id_fsp (tx_payer t))" "co (id_fsp (tx_payee (hd g))) = co (id_fsp (tx_payee t))"
    "co (tx_currency (hd g)) = co (tx_currency t)" "co (tx_useCase co (hd g)) = co (tx_useCase co t)"
    "hour_of (tx_startedAt (hd g)) = hour_of (tx_startedAt t)"
proof -
  have key: "group_key co (hd g) = group_key co t" using assms unfolding same_group_def by metis
  then show "co (id_fsp (tx_payer (hd g))) = co (id_fsp (tx_payer t))" "co (id_fsp (tx_payee (hd g))) = co (id_fsp (tx_payee t))"
    "co (tx_currency (hd g)) = co (tx_currency t)" "hour_of (tx_startedAt (hd g)) = hour_of (tx_startedAt t)"
    unfolding group_key_def by simp_all
  have "map_option co (tx_subScenario (hd g)) = map_option co (tx_subScenario t)" using key unfolding group_key_def by simp
  then show "co (tx_useCase co (hd g)) = co (tx_useCase co t)"
    unfolding tx_useCase_def by (cases "tx_subScenario (hd g)"; cases "tx_subScenario t") simp_all
qed

lemma selected_cong: "co p = co p' \<Longrightarrow> co q = co q' \<Longrightarrow> selected co f p q = selected co f p' q'"
  by (simp add: selected_def scopeClause_def participantFilterClause_def split: prod.split)

interpretation selected_rows: range_choice co start stop "tx_selected co f" "\<lambda>r. selected co f (ru_payer r) (ru_payee r)"
  for co start stop f
proof
  fix g t assume "same_group co g" "t \<in> set g"
  from same_group_co(1,2)[OF this] show "selected co f (ru_payer (bucket_of co g)) (ru_payee (bucket_of co g)) = tx_selected co f t"
    unfolding tx_selected_def by (intro selected_cong) (simp_all add: bucket_of_def)
qed (simp add: edge_row_def tx_selected_def)

text \<open>The rows of a currency and use case.\<close>

interpretation keyed_rows: range_choice co start stop "\<lambda>t. co (tx_currency t) = c \<and> co (tx_useCase co t) = u"
    "\<lambda>r. co (ru_currency r) = c \<and> co (ru_subScenario r) = u" for co start stop c u
proof
  fix g t assume "same_group co g" "t \<in> set g"
  from same_group_co(3,4)[OF this] show "(co (ru_currency (bucket_of co g)) = c \<and> co (ru_subScenario (bucket_of co g)) = u) =
      (co (tx_currency t) = c \<and> co (tx_useCase co t) = u)"
    by (simp add: bucket_of_def)
qed (simp add: edge_row_def)

lemma sum_filter: "sum_list (map (f :: 'a \<Rightarrow> 'b::comm_monoid_add) (filter P xs)) = sum_list (map (\<lambda>x. if P x then f x else 0) xs)"
  by (induction xs) auto

lemma sum_mset_eq: "mset xs = mset ys \<Longrightarrow> sum_list (map (f :: 'a \<Rightarrow> 'b::comm_monoid_add) xs) = sum_list (map f ys)"
  by (metis mset_map sum_mset_sum_list)

context range_measure begin

lemma fresh_total:
  assumes fresh: "fresh co (fullStart start) (fullEnd stop) db table"
  shows "sum_list (map of_row (filter (hour_in (fullStart start) (fullEnd stop)) (map fst table))) =
    sum_list (map of_tx (filter (started_in (fullStart start) (fullEnd stop)) (db_rows db)))"
proof -
  let ?S = "started_in (fullStart start) (fullEnd stop)" and ?k = "group_key co"
  have "sum_list (map of_row (filter (hour_in (fullStart start) (fullEnd stop)) (map fst table))) =
      sum_list (map of_row (aggregateWindow co (fullStart start) (fullEnd stop) db))"
    using fresh unfolding fresh_def by (rule sum_mset_eq)
  also have "\<dots> = sum_list (map (\<lambda>g. sum_list (map of_tx g)) (group_rows ?k (filter ?S (db_rows db))))"
  proof -
    have "of_row (bucket_of co g) = sum_list (map of_tx g)" if "g \<in> set (group_rows ?k (filter ?S (db_rows db)))" for g
    proof (rule of_bucket)
      show "same_group co g" unfolding same_group_def using group_rows_mem(1,2)[OF that] by blast
      show "?S t" if "t \<in> set g" for t using group_rows_mem(3)[OF \<open>g \<in> _\<close>] that by auto
    qed
    then have "map (of_row \<circ> bucket_of co) (group_rows ?k (filter ?S (db_rows db))) =
        map (\<lambda>g. sum_list (map of_tx g)) (group_rows ?k (filter ?S (db_rows db)))" by (intro map_cong) simp_all
    from arg_cong[OF this, of sum_list] show ?thesis by (simp add: aggregateWindow_def)
  qed
  finally show ?thesis by (simp only: sum_group_rows)
qed

lemma edge_total:
  "sum_list (map of_row (concat (map (\<lambda>(a, b). if a \<ge> b then []
      else map (edge_row co a) (filter (\<lambda>t. started_in a b t \<and> tx_selected co f t) (db_rows db))) (edges start stop)))) =
    sum_list (map (\<lambda>(a, b). sum_list (map (\<lambda>t. if started_in a b t \<and> tx_selected co f t then of_tx t else 0) (db_rows db))) (edges start stop))"
proof -
  have one: "sum_list (map of_row (if a \<ge> b then [] else map (edge_row co a) (filter (\<lambda>t. started_in a b t \<and> tx_selected co f t) (db_rows db)))) =
      sum_list (map (\<lambda>t. if started_in a b t \<and> tx_selected co f t then of_tx t else 0) (db_rows db))"
    if "(a, b) \<in> set (edges start stop)" for a b
  proof (cases "a \<ge> b")
    case True
    then have "\<not> started_in a b t" for t by (simp add: started_in_def)
    then show ?thesis using True by simp
  next
    case False
    have "map (of_row \<circ> edge_row co a) (filter (\<lambda>t. started_in a b t \<and> tx_selected co f t) (db_rows db)) =
        map of_tx (filter (\<lambda>t. started_in a b t \<and> tx_selected co f t) (db_rows db))"
      using of_edge[OF that] by simp
    from arg_cong[OF this, of sum_list] show ?thesis using False unfolding sum_filter[symmetric] by simp
  qed
  have parts: "sum_list (map of_row (concat (map F es))) = sum_list (map (\<lambda>x. sum_list (map of_row (F x))) es)"
    for F :: "int \<times> int \<Rightarrow> rollup_row list" and es
    by (induction es) simp_all
  have "map (\<lambda>x. sum_list (map of_row ((\<lambda>(a, b). if a \<ge> b then []
        else map (edge_row co a) (filter (\<lambda>t. started_in a b t \<and> tx_selected co f t) (db_rows db))) x))) (edges start stop) =
      map (\<lambda>(a, b). sum_list (map (\<lambda>t. if started_in a b t \<and> tx_selected co f t then of_tx t else 0) (db_rows db))) (edges start stop)"
    using one by (intro map_cong[OF refl]) auto
  from arg_cong[OF this, of sum_list] show ?thesis by (simp only: parts)
qed

end

definition range_fresh :: "(string \<Rightarrow> string) \<Rightarrow> int \<Rightarrow> int \<Rightarrow> audit_db \<Rightarrow> rollup_table \<Rightarrow> bool" where
  "range_fresh co from to db table \<longleftrightarrow> fullStart from < fullEnd to \<longrightarrow> fresh co (fullStart from) (fullEnd to) db table"

definition range_rows :: "(string \<Rightarrow> string) \<Rightarrow> fsp_filter \<Rightarrow> int \<Rightarrow> int \<Rightarrow> audit_db \<Rightarrow> tx_row list" where
  "range_rows co f from to db = filter (\<lambda>t. started_in from to t \<and> tx_selected co f t) (db_rows db)"

context range_measure begin

text \<open>The rows of a range sum up to the transactions of the range.\<close>

lemma range_total:
  assumes "start \<le> stop" "range_fresh co start stop db table"
  shows "sum_list (map of_row (rangeSource co f start stop db table)) = sum_list (map of_tx (range_rows co f start stop db))"
proof -
  let ?fs = "fullStart start" and ?fe = "fullEnd stop" and ?sel = "tx_selected co f"
  let ?row_sel = "\<lambda>r. selected co f (ru_payer r) (ru_payee r)"
  have "chosen_range_measure co start stop of_tx of_row ?sel ?row_sel"
    by (intro chosen_range_measure.intro range_measure_axioms selected_rows.range_choice_axioms)
  then have chosen: "range_measure co start stop (\<lambda>t. if ?sel t then of_tx t else 0) (\<lambda>r. if ?row_sel r then of_row r else 0)"
    by (rule chosen_range_measure.chosen)
  have ordered: "start \<le> ?fs" "?fe \<le> stop" using full_hours(3,5)[of start] full_hours(5)[of stop] hour_of_bounds(1)[of stop] by simp_all
  show ?thesis
  proof (cases "?fs < ?fe")
    case True
    then have "sum_list (map (\<lambda>r. if ?row_sel r then of_row r else 0) (filter (hour_in ?fs ?fe) (map fst table))) =
        sum_list (map (\<lambda>t. if ?sel t then of_tx t else 0) (filter (started_in ?fs ?fe) (db_rows db)))"
      using assms(2) by (intro range_measure.fresh_total[OF chosen]) (simp add: range_fresh_def)
    then have full: "sum_list (map of_row (filter (\<lambda>r. hour_in ?fs ?fe r \<and> ?row_sel r) (map fst table))) =
        sum_list (map (\<lambda>t. if started_in ?fs ?fe t \<and> ?sel t then of_tx t else 0) (db_rows db))"
      by (simp flip: sum_filter add: conj_commute)
    have split: "(if started_in start stop t \<and> ?sel t then of_tx t else 0) =
        (if started_in ?fs ?fe t \<and> ?sel t then of_tx t else 0) + (if started_in start ?fs t \<and> ?sel t then of_tx t else 0) +
        (if started_in ?fe stop t \<and> ?sel t then of_tx t else 0)" for t
      using True ordered by (auto simp: started_in_def)
    show ?thesis
      unfolding rangeSource_def range_rows_def map_append sum_list_append edge_total sum_filter
      using True by (simp only: split sum_list_addf full if_True edges_def) simp
  next
    case False
    then show ?thesis
      unfolding rangeSource_def range_rows_def map_append sum_list_append edge_total sum_filter by (simp add: edges_def)
  qed
qed

end
section \<open>Refreshing a window\<close>

lemma bucket_mem:
  assumes "r \<in> set (aggregateWindow co lo hi db)"
  obtains g where "r = bucket_of co g" "same_group co g" "\<And>t. t \<in> set g \<Longrightarrow> t \<in> set (db_rows db) \<and> started_in lo hi t"
    "hd g \<in> set g" "g = filter (\<lambda>t. group_key co t = group_key co (hd g)) (filter (started_in lo hi) (db_rows db))"
proof -
  obtain g where g: "r = bucket_of co g" "g \<in> set (group_rows (group_key co) (filter (started_in lo hi) (db_rows db)))"
    using assms by (auto simp: aggregateWindow_def)
  note mem = group_rows_mem[OF g(2)]
  show thesis
  proof (rule that[OF g(1)])
    show "same_group co g" unfolding same_group_def using mem(1,2) by blast
    show "t \<in> set (db_rows db) \<and> started_in lo hi t" if "t \<in> set g" for t using mem(3) that by auto
    show "hd g \<in> set g" using mem(1) by simp
    show "g = filter (\<lambda>t. group_key co t = group_key co (hd g)) (filter (started_in lo hi) (db_rows db))" by (rule mem(4))
  qed
qed

lemma bucket_hour_in:
  assumes "hour_of lo = lo" "hour_of hi = hi" "r \<in> set (aggregateWindow co lo hi db)"
  shows "hour_in lo hi r"
proof -
  obtain g where g: "r = bucket_of co g" "\<And>t. t \<in> set g \<Longrightarrow> t \<in> set (db_rows db) \<and> started_in lo hi t" "hd g \<in> set g"
    using bucket_mem[OF assms(3)] by metis
  from g(2)[OF g(3)] show ?thesis
    by (simp add: g(1) bucket_of_def hour_in_def started_aligned[OF assms(1,2)])
qed

lemma aggregate_part:
  assumes "hour_of lo' = lo'" "hour_of hi' = hi'" "lo \<le> lo'" "hi' \<le> hi"
  shows "aggregateWindow co lo' hi' db = filter (hour_in lo' hi') (aggregateWindow co lo hi db)"
proof -
  let ?xs = "filter (started_in lo hi) (db_rows db)"
  have "filter (started_in lo' hi') (db_rows db) = filter (started_in lo' hi') ?xs"
    using assms(3,4) by (auto simp: started_in_def intro!: filter_cong)
  then have "aggregateWindow co lo' hi' db = map (bucket_of co) (group_rows (group_key co) (filter (started_in lo' hi') ?xs))"
    by (simp add: aggregateWindow_def)
  also have "group_rows (group_key co) (filter (started_in lo' hi') ?xs) =
      filter (\<lambda>g. started_in lo' hi' (hd g)) (group_rows (group_key co) ?xs)"
    by (rule group_rows_filter[where Q = "\<lambda>k. lo' \<le> fst k \<and> fst k < hi'"])
      (simp add: started_aligned[OF assms(1,2)] group_key_def)
  also have "map (bucket_of co) \<dots> = filter (hour_in lo' hi') (aggregateWindow co lo hi db)"
    by (simp add: aggregateWindow_def filter_map comp_def bucket_of_def hour_in_def started_aligned[OF assms(1,2)])
  finally show ?thesis .
qed

lemma fresh_part:
  assumes "fresh co lo hi db table" "hour_of lo' = lo'" "hour_of hi' = hi'" "lo \<le> lo'" "hi' \<le> hi"
  shows "fresh co lo' hi' db table"
proof -
  have "filter (hour_in lo' hi') (map fst table) = filter (hour_in lo' hi') (filter (hour_in lo hi) (map fst table))"
    using assms(4,5) by (auto simp: hour_in_def intro!: filter_cong)
  then show ?thesis
    using assms(1) unfolding fresh_def aggregate_part[OF assms(2-5)] by (simp only: mset_filter)
qed

lemma fresh_join:
  assumes "fresh co lo mid db table" "fresh co mid hi db table" "hour_of lo = lo" "hour_of mid = mid" "hour_of hi = hi"
    "lo \<le> mid" "mid \<le> hi"
  shows "fresh co lo hi db table"
proof -
  let ?A = "aggregateWindow co lo hi db"
  have split: "mset (filter (hour_in lo hi) xs) = mset (filter (hour_in lo mid) xs) + mset (filter (hour_in mid hi) xs)" for xs
    using assms(6,7) by (induction xs) (auto simp: hour_in_def)
  have "filter (hour_in lo hi) ?A = ?A" using bucket_hour_in[OF assms(3,5)] by simp
  then show ?thesis
    using assms(1,2) unfolding fresh_def split aggregate_part[OF assms(3,4) order.refl assms(7)]
      aggregate_part[OF assms(4,5) assms(6) order.refl] by (metis split)
qed

lemma replace_fresh:
  assumes "reaggregateWindow co lo hi now db table = Some table'" "hour_of lo = lo" "hour_of hi = hi"
  shows "fresh co lo hi db table'" "filter (\<lambda>(r, _). \<not> hour_in lo hi r) table' = filter (\<lambda>(r, _). \<not> hour_in lo hi r) table"
proof -
  let ?A = "aggregateWindow co lo hi db" and ?others = "filter (\<lambda>(r, _). \<not> hour_in lo hi r) table"
  have table': "table' = ?others @ map (\<lambda>r. (r, now)) ?A"
    using assms(1) by (auto simp: reaggregateWindow_def replaceWindow_def Let_def split: if_splits)
  have inA: "\<And>r. r \<in> set ?A \<Longrightarrow> hour_in lo hi r" using bucket_hour_in[OF assms(2,3)] .
  have "filter (hour_in lo hi) (map fst ?others) = []" by (auto simp: filter_empty_conv)
  moreover have "filter (hour_in lo hi) ?A = ?A" using inA by simp
  ultimately show "fresh co lo hi db table'" by (simp add: fresh_def table' comp_def)
  have "filter (\<lambda>(r, _). \<not> hour_in lo hi r) (map (\<lambda>r. (r, now)) ?A) = []" using inA by (auto simp: filter_empty_conv)
  then show "filter (\<lambda>(r, _). \<not> hour_in lo hi r) table' = ?others" by (simp add: table')
qed

lemma replace_succeeds:
  assumes "hour_of lo = lo" "hour_of hi = hi"
  shows "reaggregateWindow co lo hi now db table \<noteq> None \<longleftrightarrow> distinct (map (primary_key co) (aggregateWindow co lo hi db))"
proof -
  have "list_all (\<lambda>r. list_all (\<lambda>(r', _). primary_key co r' \<noteq> primary_key co r) (filter (\<lambda>(r, _). \<not> hour_in lo hi r) table))
      (aggregateWindow co lo hi db)"
    using bucket_hour_in[OF assms] by (fastforce simp: list_all_iff primary_key_def hour_in_def)
  then show ?thesis by (simp add: reaggregateWindow_def replaceWindow_def Let_def)
qed

text \<open>A use case that the expression of the query confuses with a missing one.\<close>

definition confused :: "(string \<Rightarrow> string) \<Rightarrow> tx_row \<Rightarrow> bool" where
  "confused co t = (case tx_subScenario t of None \<Rightarrow> False | Some s \<Rightarrow> co s = co [] \<or> co s = co ''UNSPECIFIED'')"

lemma primary_key_inj:
  assumes "\<not> confused co t" "\<not> confused co u" "same_group co g" "same_group co h" "hd g = t" "hd h = u"
    "primary_key co (bucket_of co g) = primary_key co (bucket_of co h)"
  shows "group_key co t = group_key co u"
proof -
  have use: "map_option co (tx_subScenario t) = map_option co (tx_subScenario u)"
    if "co (tx_useCase co t) = co (tx_useCase co u)" "\<not> confused co t" "\<not> confused co u" for t u
    using that by (auto simp: tx_useCase_def confused_def split: option.splits if_splits)
  show ?thesis using assms(5-7) use[OF _ assms(1,2)] by (simp add: primary_key_def bucket_of_def group_key_def)
qed

lemma distinct_primary_keys:
  assumes "list_all (\<lambda>t. \<not> confused co t) (filter (started_in lo hi) (db_rows db))"
  shows "distinct (map (primary_key co) (aggregateWindow co lo hi db))"
proof -
  let ?xs = "filter (started_in lo hi) (db_rows db)" and ?k = "group_key co"
  have ok: "\<not> confused co t" if "t \<in> set ?xs" for t using assms that by (auto simp: list_all_iff)
  have "inj_on (\<lambda>x. primary_key co (bucket_of co (filter (\<lambda>y. ?k y = x) ?xs))) (?k ` set ?xs)"
  proof (rule inj_onI)
    fix x y assume x: "x \<in> ?k ` set ?xs" and y: "y \<in> ?k ` set ?xs"
      and eq: "primary_key co (bucket_of co (filter (\<lambda>z. ?k z = x) ?xs)) = primary_key co (bucket_of co (filter (\<lambda>z. ?k z = y) ?xs))"
    have grp: "same_group co (filter (\<lambda>z. ?k z = x) ?xs) \<and> ?k (hd (filter (\<lambda>z. ?k z = x) ?xs)) = x \<and> hd (filter (\<lambda>z. ?k z = x) ?xs) \<in> set ?xs"
      if "x \<in> ?k ` set ?xs" for x
    proof -
      have "filter (\<lambda>z. ?k z = x) ?xs \<noteq> []" using that by (auto simp: filter_empty_conv)
      from hd_in_set[OF this] this show ?thesis by (auto simp: same_group_def)
    qed
    show "x = y" using primary_key_inj[OF ok ok _ _ refl refl eq] grp[OF x] grp[OF y] by metis
  qed
  then show ?thesis
    by (simp add: aggregateWindow_def group_rows_def distinct_map comp_def)
qed

text \<open>
  The query selects the same use case for two groups when an empty use case and a missing one meet in the same
  hour, parties and currency.  The refresh of the window fails then, whenever it is tried.
\<close>

lemma empty_use_case_blocks_refresh:
  assumes "hour_of lo = lo" "hour_of hi = hi" "t \<in> set (db_rows db)" "u \<in> set (db_rows db)" "started_in lo hi t" "started_in lo hi u"
    "tx_subScenario t = None" "tx_subScenario u = Some []"
    "hour_of (tx_startedAt t) = hour_of (tx_startedAt u)" "co (tx_currency t) = co (tx_currency u)"
    "co (id_fsp (tx_payer t)) = co (id_fsp (tx_payer u))" "co (id_fsp (tx_payee t)) = co (id_fsp (tx_payee u))"
  shows "reaggregateWindow co lo hi now db table = None"
proof -
  let ?xs = "filter (started_in lo hi) (db_rows db)" and ?k = "group_key co"
  let ?g = "\<lambda>x. filter (\<lambda>y. ?k y = x) ?xs"
  have ne: "?k t \<noteq> ?k u" using assms(7,8) by (simp add: group_key_def)
  have mem: "?k t \<in> set (remdups (map ?k ?xs))" "?k u \<in> set (remdups (map ?k ?xs))" using assms(3-6) by auto
  have bucket: "same_group co (?g (?k v)) \<and> v \<in> set (?g (?k v))" if "v \<in> set ?xs" for v
  proof -
    have v: "v \<in> set (?g (?k v))" using that by simp
    then have "?g (?k v) \<noteq> []" by (metis list.set(1) empty_iff)
    from hd_in_set[OF this] this v show ?thesis by (auto simp: same_group_def)
  qed
  have key: "primary_key co (bucket_of co (?g (?k v))) =
      (hour_of (tx_startedAt v), co (id_fsp (tx_payer v)), co (id_fsp (tx_payee v)), co (tx_currency v), co (tx_useCase co v))"
    if "v \<in> set ?xs" for v
    using same_group_co[OF conjunct1[OF bucket[OF that]] conjunct2[OF bucket[OF that]]] by (simp add: primary_key_def bucket_of_def)
  have "primary_key co (bucket_of co (?g (?k t))) = primary_key co (bucket_of co (?g (?k u)))"
    using assms(3-6) by (subst (1 2) key) (simp_all add: assms(7-) tx_useCase_def)
  then have "\<not> inj_on (\<lambda>x. primary_key co (bucket_of co (?g x))) (set (remdups (map ?k ?xs)))"
    using ne mem unfolding inj_on_def by blast
  then have "\<not> distinct (map (primary_key co) (aggregateWindow co lo hi db))"
    by (simp add: aggregateWindow_def group_rows_def distinct_map comp_def)
  then show ?thesis using replace_succeeds[OF assms(1,2)] by blast
qed
text \<open>
  A refresh makes a window of the rollup exact.  When it succeeds, the buckets of the window are the aggregate of
  its transactions and the buckets outside are untouched; it fails only when two buckets have the same primary key,
  which cannot happen unless a use case of the window is empty or spelled like the placeholder.
\<close>

theorem rollup_refresh_exact:
  assumes "hour_of lo = lo" "hour_of hi = hi"
  shows "(case reaggregateWindow co lo hi now db table of
      None \<Rightarrow> \<not> distinct (map (primary_key co) (aggregateWindow co lo hi db)) \<and>
        list_ex (\<lambda>t. started_in lo hi t \<and> confused co t) (db_rows db)
    | Some table' \<Rightarrow> fresh co lo hi db table' \<and>
        filter (\<lambda>(r, _). \<not> hour_in lo hi r) table' = filter (\<lambda>(r, _). \<not> hour_in lo hi r) table)"
proof (cases "reaggregateWindow co lo hi now db table")
  case None
  then have "\<not> distinct (map (primary_key co) (aggregateWindow co lo hi db))" using replace_succeeds[OF assms] by blast
  moreover from this have "list_ex (\<lambda>t. started_in lo hi t \<and> confused co t) (db_rows db)"
    using distinct_primary_keys[of co lo hi db] by (auto simp: list_all_iff list_ex_iff)
  ultimately show ?thesis using None by simp
next
  case (Some table')
  then show ?thesis using replace_fresh[OF Some assms] by simp
qed

definition demo_started :: "int \<Rightarrow> string option \<Rightarrow> int \<Rightarrow> tx_row" where
  "demo_started i use t = (demo_row i ''t'' ''a'' ''b'' t)\<lparr>tx_subScenario := use\<rparr>"

definition demo_audit :: audit_db where
  "demo_audit = \<lparr>db_rows = [demo_started 1 (Some ''P2P'') 3600001, demo_started 2 None 3600002, demo_started 3 None 7200000,
     demo_started 4 (Some ''P2P'') 7199999], db_next_id = 5\<rparr>"

theorem rollup_refresh_exact_witness:
  "case reaggregateWindow (\<lambda>s. s) 3600000 7200000 9 demo_audit [] of
     None \<Rightarrow> False
   | Some table \<Rightarrow> map (\<lambda>(r, _). (ru_subScenario r, ru_txn r)) table = [(''UNSPECIFIED'', 1), (''P2P'', 2)] \<and>
       fresh (\<lambda>s. s) 3600000 7200000 demo_audit table"
proof -
  have "case reaggregateWindow (\<lambda>s. s) 3600000 7200000 9 demo_audit [] of None \<Rightarrow> False
     | Some table \<Rightarrow> map (\<lambda>(r, _). (ru_subScenario r, ru_txn r)) table = [(''UNSPECIFIED'', 1), (''P2P'', 2)]" by code_simp
  moreover have "hour_of 3600000 = 3600000" "hour_of 7200000 = 7200000" by (simp_all add: hour_of_def hourMs_def)
  ultimately show ?thesis using rollup_refresh_exact[of 3600000 7200000, where co = "\<lambda>s. s" and now = 9 and db = demo_audit and table = "[]"]
    by (auto split: option.splits)
qed

section \<open>The numbers of the dashboard\<close>

lemma count_sum: "int (count_of P g) = sum_list (map (\<lambda>x. of_bool (P x)) g)"
  by (induction g) (simp_all add: count_of_def)

definition latency_or_zero :: "int option \<Rightarrow> int" where
  "latency_or_zero l = (case l of None \<Rightarrow> 0 | Some x \<Rightarrow> x)"

lemma sql_sum_or_zero: "latency_or_zero (sql_sum xs) = sum_list (map latency_or_zero xs)"
proof -
  have "sum_list (List.map_filter id xs) = sum_list (map latency_or_zero xs)"
    by (induction xs) (auto simp: map_filter_simps latency_or_zero_def split: option.split)
  then show ?thesis by (auto simp: sql_sum_def latency_or_zero_def split: list.splits)
qed

interpretation txn: range_measure co start stop "\<lambda>_. 1" "\<lambda>r. int (ru_txn r)" for co start stop
  by unfold_locales (simp_all add: bucket_of_def edge_row_def sum_list_triv)

interpretation errors: range_measure co start stop "\<lambda>t. of_bool (tx_error t)" "\<lambda>r. int (ru_error r)" for co start stop
  by unfold_locales (simp_all add: bucket_of_def edge_row_def count_sum)

interpretation disputes: range_measure co start stop "\<lambda>t. of_bool (tx_possibleDispute t)" "\<lambda>r. int (ru_dispute r)" for co start stop
  by unfold_locales (simp_all add: bucket_of_def edge_row_def count_sum)

interpretation parties: range_measure co start stop "\<lambda>t. of_bool (ph_error (tx_parties t) \<noteq> None)" "\<lambda>r. int (ru_partiesError r)"
  for co start stop
  by unfold_locales (simp_all add: bucket_of_def edge_row_def count_sum del: not_None_eq)

interpretation quotes: range_measure co start stop "\<lambda>t. of_bool (ph_error (tx_quotes t) \<noteq> None)" "\<lambda>r. int (ru_quotesError r)"
  for co start stop
  by unfold_locales (simp_all add: bucket_of_def edge_row_def count_sum del: not_None_eq)

interpretation transfers: range_measure co start stop "\<lambda>t. of_bool (ph_error (tx_transfers t) \<noteq> None)" "\<lambda>r. int (ru_transfersError r)"
  for co start stop
  by unfold_locales (simp_all add: bucket_of_def edge_row_def count_sum del: not_None_eq)

interpretation patches: range_measure co start stop "\<lambda>t. of_bool (pt_error (tx_patch t) \<noteq> None)" "\<lambda>r. int (ru_patchError r)"
  for co start stop
  by unfold_locales (simp_all add: bucket_of_def edge_row_def count_sum del: not_None_eq)

interpretation amounts: range_measure co start stop "moved_amount co" ru_committedAmount for co start stop
  by unfold_locales (simp_all add: bucket_of_def edge_row_def)

interpretation moves: range_measure co start stop "\<lambda>t. of_bool (moved co t)" "\<lambda>r. int (ru_committed r)" for co start stop
  by unfold_locales (simp_all add: bucket_of_def edge_row_def count_sum)

interpretation completed: range_measure co start stop "\<lambda>t. of_bool (tx_completedAt t \<noteq> None)" "\<lambda>r. int (ru_latencyCount r)"
  for co start stop
  by unfold_locales (simp_all add: bucket_of_def edge_row_def count_sum del: not_None_eq)

interpretation latencies: range_measure co start stop "\<lambda>t. latency_or_zero (tx_latency t)" "\<lambda>r. latency_or_zero (ru_sumLatency r)"
  for co start stop
  by unfold_locales (simp_all add: bucket_of_def edge_row_def sql_sum_or_zero comp_def)

interpretation keyed_amounts: chosen_range_measure co start stop "moved_amount co" ru_committedAmount
    "\<lambda>t. co (tx_currency t) = c \<and> co (tx_useCase co t) = u" "\<lambda>r. co (ru_currency r) = c \<and> co (ru_subScenario r) = u"
  for co start stop c u
  by unfold_locales

interpretation keyed_moves: chosen_range_measure co start stop "\<lambda>t. of_bool (moved co t)" "\<lambda>r. int (ru_committed r)"
    "\<lambda>t. co (tx_currency t) = c \<and> co (tx_useCase co t) = u" "\<lambda>r. co (ru_currency r) = c \<and> co (ru_subScenario r) = u"
  for co start stop c u
  by unfold_locales

lemma range_counts:
  assumes "start \<le> stop" "range_fresh co start stop db table"
  shows "sum_list (map ru_txn (rangeSource co f start stop db table)) = length (range_rows co f start stop db)"
    "sum_list (map ru_error (rangeSource co f start stop db table)) = count_of tx_error (range_rows co f start stop db)"
    "sum_list (map ru_dispute (rangeSource co f start stop db table)) = count_of tx_possibleDispute (range_rows co f start stop db)"
    "sum_list (map ru_partiesError (rangeSource co f start stop db table)) =
      count_of (\<lambda>t. ph_error (tx_parties t) \<noteq> None) (range_rows co f start stop db)"
    "sum_list (map ru_quotesError (rangeSource co f start stop db table)) =
      count_of (\<lambda>t. ph_error (tx_quotes t) \<noteq> None) (range_rows co f start stop db)"
    "sum_list (map ru_transfersError (rangeSource co f start stop db table)) =
      count_of (\<lambda>t. ph_error (tx_transfers t) \<noteq> None) (range_rows co f start stop db)"
    "sum_list (map ru_patchError (rangeSource co f start stop db table)) =
      count_of (\<lambda>t. pt_error (tx_patch t) \<noteq> None) (range_rows co f start stop db)"
    "sum_list (map ru_latencyCount (rangeSource co f start stop db table)) =
      count_of (\<lambda>t. tx_completedAt t \<noteq> None) (range_rows co f start stop db)"
proof -
  have int: "int (sum_list (map h rs)) = sum_list (map (\<lambda>r. int (h r)) rs)" for h :: "rollup_row \<Rightarrow> nat" and rs
    by (induction rs) simp_all
  have eq: "sum_list (map h rs) = count_of P ts"
    if "sum_list (map (\<lambda>r. int (h r)) rs) = sum_list (map (\<lambda>t. of_bool (P t)) ts)"
    for h :: "rollup_row \<Rightarrow> nat" and rs P and ts :: "tx_row list"
    using that int[of h rs] count_sum[of P ts] by linarith
  show "sum_list (map ru_txn (rangeSource co f start stop db table)) = length (range_rows co f start stop db)"
    using txn.range_total[OF assms] int[of ru_txn "rangeSource co f start stop db table"] by (simp add: sum_list_triv)
  show "sum_list (map ru_error (rangeSource co f start stop db table)) = count_of tx_error (range_rows co f start stop db)"
    by (rule eq[OF errors.range_total[OF assms]])
  show "sum_list (map ru_dispute (rangeSource co f start stop db table)) = count_of tx_possibleDispute (range_rows co f start stop db)"
    by (rule eq[OF disputes.range_total[OF assms]])
  show "sum_list (map ru_partiesError (rangeSource co f start stop db table)) =
      count_of (\<lambda>t. ph_error (tx_parties t) \<noteq> None) (range_rows co f start stop db)"
    by (rule eq[OF parties.range_total[OF assms]])
  show "sum_list (map ru_quotesError (rangeSource co f start stop db table)) =
      count_of (\<lambda>t. ph_error (tx_quotes t) \<noteq> None) (range_rows co f start stop db)"
    by (rule eq[OF quotes.range_total[OF assms]])
  show "sum_list (map ru_transfersError (rangeSource co f start stop db table)) =
      count_of (\<lambda>t. ph_error (tx_transfers t) \<noteq> None) (range_rows co f start stop db)"
    by (rule eq[OF transfers.range_total[OF assms]])
  show "sum_list (map ru_patchError (rangeSource co f start stop db table)) =
      count_of (\<lambda>t. pt_error (tx_patch t) \<noteq> None) (range_rows co f start stop db)"
    by (rule eq[OF patches.range_total[OF assms]])
  show "sum_list (map ru_latencyCount (rangeSource co f start stop db table)) =
      count_of (\<lambda>t. tx_completedAt t \<noteq> None) (range_rows co f start stop db)"
    by (rule eq[OF completed.range_total[OF assms]])
qed

end
