(* ===== verification/Dashboard.thy ===== *)
theory Dashboard
  imports Rollup_Table
begin

text \<open>
  The portal dashboard: the queries of \<open>transaction-rollup.repository.ts\<close> over a range and the answer that
  \<open>get-dashboard.handler.ts\<close> assembles.  The local calendar of a time zone is a parameter: the day of an instant, as
  \<open>Intl.DateTimeFormat\<close> writes it, and its hour.  Amounts are ten-thousandths; rates are exact quotients.
  All queries of one answer read the same state of the replica.
\<close>

record calendar =
  ca_day :: "int \<Rightarrow> string"
  ca_hour :: "int \<Rightarrow> nat"

section \<open>Local days\<close>

text \<open>The search for the first instant of the next day between an instant of the day and one of another day.\<close>

function midnight :: "(int \<Rightarrow> string) \<Rightarrow> string \<Rightarrow> int \<Rightarrow> int \<Rightarrow> int" where
  "midnight day date lower upper =
     (if upper - lower > 1
      then let middle = (lower + upper) div 2
           in if day middle = date then midnight day date middle upper else midnight day date lower middle
      else upper)"
  by pat_completeness auto
termination by (relation "measure (\<lambda>(_, _, lower, upper). nat (upper - lower))") auto

function day_starts :: "(int \<Rightarrow> string) \<Rightarrow> int \<Rightarrow> int \<Rightarrow> int list" where
  "day_starts day lastMs cursor =
     (if cursor < lastMs
      then let next = min (cursor + hourMs) lastMs;
               upper = midnight day (day cursor) cursor next
           in (if day cursor \<noteq> day next \<and> upper mod hourMs \<noteq> 0 then [upper] else []) @ day_starts day lastMs next
      else [])"
  by pat_completeness auto
termination by (relation "measure (\<lambda>(_, lastMs, cursor). nat (lastMs - cursor))") (auto simp: hourMs_def)

declare midnight.simps [simp del] day_starts.simps [simp del]

definition localDayRanges :: "(int \<Rightarrow> string) \<Rightarrow> int \<Rightarrow> int \<Rightarrow> (int \<times> int) list" where
  "localDayRanges day from to = (let starts = from # day_starts day (to - 1) from in zip starts (tl starts @ [to]))"

section \<open>Queries\<close>

definition getErrorStageBreakdown :: "rollup_row list \<Rightarrow> (string \<times> nat) list" where
  "getErrorStageBreakdown source =
     [(''Parties'', sum_list (map ru_partiesError source)),
      (''Quotes'', sum_list (map ru_quotesError source)),
      (''Transfers'', sum_list (map ru_transfersError source)),
      (''Patch'', sum_list (map ru_patchError source))]"

record currency_value =
  cv_currency :: string
  cv_useCase :: string
  cv_total :: int
  cv_count :: nat

definition getValueByCurrency :: "(string \<Rightarrow> string) \<Rightarrow> rollup_row list \<Rightarrow> currency_value list" where
  "getValueByCurrency co source =
     order_rows (\<lambda>a b. cv_total a > cv_total b)
       (filter (\<lambda>v. cv_count v > 0)
         (map (\<lambda>g. \<lparr>cv_currency = ru_currency (hd g), cv_useCase = ru_subScenario (hd g),
                 cv_total = sum_list (map ru_committedAmount g), cv_count = sum_list (map ru_committed g)\<rparr>)
           (group_rows (\<lambda>r. (co (ru_currency r), co (ru_subScenario r)))
             (filter (\<lambda>r. co (ru_currency r) \<noteq> co ''XXX'') source))))"

record fsp_count =
  fc_fsp :: string
  fc_count :: nat
  fc_amounts :: "(string \<times> int) list"

definition add_fsp_row :: "string \<times> string \<times> nat \<times> int \<Rightarrow> (string \<times> fsp_count) list \<Rightarrow> (string \<times> fsp_count) list" where
  "add_fsp_row row byFsp = (case row of (fspId, currency, n, amount) \<Rightarrow>
     let entry = (case map_of byFsp fspId of
           Some x \<Rightarrow> x | None \<Rightarrow> \<lparr>fc_fsp = fspId, fc_count = 0, fc_amounts = []\<rparr>)
     in AList.update fspId (entry\<lparr>fc_count := fc_count entry + n,
          fc_amounts := fc_amounts entry @ (if currency \<noteq> ''XXX'' then [(currency, amount)] else [])\<rparr>) byFsp)"

text \<open>The order of names by \<open>localeCompare\<close> is a parameter.\<close>

definition getTopFsps :: "(string \<Rightarrow> string) \<Rightarrow> (string \<Rightarrow> string \<Rightarrow> bool) \<Rightarrow> (rollup_row \<Rightarrow> string) \<Rightarrow> nat \<Rightarrow> rollup_row list \<Rightarrow> fsp_count list" where
  "getTopFsps co before leg limit source =
     (let rows = filter (\<lambda>(_, _, n, _). n > 0)
            (map (\<lambda>g. (leg (hd g), ru_currency (hd g), sum_list (map ru_committed g), sum_list (map ru_committedAmount g)))
              (group_rows (\<lambda>r. (co (leg r), co (ru_currency r))) source));
          byFsp = fold add_fsp_row rows []
      in take limit (order_rows (\<lambda>l r. fc_count l > fc_count r \<or> fc_count l = fc_count r \<and> before (fc_fsp l) (fc_fsp r))
           (map snd byFsp)))"

record time_bucket =
  tb_hour :: int
  tb_count :: nat
  tb_errors :: nat
  tb_disputes :: nat
  tb_sumLatency :: "int option"
  tb_latencyCount :: nat

definition range_sources :: "(string \<Rightarrow> string) \<Rightarrow> (int \<Rightarrow> string) \<Rightarrow> fsp_filter \<Rightarrow> int \<Rightarrow> int \<Rightarrow> audit_db \<Rightarrow> rollup_table \<Rightarrow> rollup_row list" where
  "range_sources co day f from to db table =
     concat (map (\<lambda>(a, b). rangeSource co f a b db table) (localDayRanges day from to))"

definition getTimeBuckets :: "rollup_row list \<Rightarrow> time_bucket list" where
  "getTimeBuckets source =
     order_rows (\<lambda>a b. tb_hour a < tb_hour b)
       (map (\<lambda>g. \<lparr>tb_hour = ru_hour (hd g), tb_count = sum_list (map ru_txn g), tb_errors = sum_list (map ru_error g),
               tb_disputes = sum_list (map ru_dispute g), tb_sumLatency = sql_sum (map ru_sumLatency g),
               tb_latencyCount = sum_list (map ru_latencyCount g)\<rparr>)
         (group_rows ru_hour source))"

section \<open>The answer\<close>

record dashboard =
  da_asOf :: "int option"
  da_range :: "int \<times> int"
  da_total :: nat
  da_errors :: nat
  da_disputes :: nat
  da_successRate :: "rat option"
  da_byState :: "(string \<times> nat) list"
  da_errorByStage :: "(string \<times> nat) list"
  da_valueByCurrency :: "currency_value list"
  da_topPayers :: "fsp_count list"
  da_topPayees :: "fsp_count list"
  da_avgLatency :: "rat option"
  da_daily :: "(string \<times> nat \<times> nat \<times> nat) list"
  da_hourly :: "(nat \<times> nat) list"
  da_latency :: "(string \<times> rat option) list"

definition quotient :: "int \<Rightarrow> nat \<Rightarrow> rat option" where
  "quotient a n = (if n = 0 then None else Some (of_int a / of_nat n))"

text \<open>Total, errors, disputes, summed latency and the number of latencies.\<close>

definition summarize :: "time_bucket list \<Rightarrow> nat \<times> nat \<times> nat \<times> int \<times> nat" where
  "summarize buckets = fold (\<lambda>b (txns, errors, disputes, sumLatency, latencyCount).
     (txns + tb_count b, errors + tb_errors b, disputes + tb_disputes b, sumLatency + latency_or_zero (tb_sumLatency b),
      latencyCount + tb_latencyCount b)) buckets (0, 0, 0, 0, 0)"

definition outcomeBreakdown :: "nat \<Rightarrow> nat \<Rightarrow> (string \<times> nat) list" where
  "outcomeBreakdown committed errors =
     (if committed > 0 then [(''COMMITTED'', committed)] else []) @ (if errors > 0 then [(''ERROR'', errors)] else [])"

text \<open>A \<open>Map\<close> keeps the order of its first insertions; a \<open>Set\<close> likewise.\<close>

definition add_key :: "string \<Rightarrow> string list \<Rightarrow> string list" where
  "add_key k ks = (if k \<in> set ks then ks else ks @ [k])"

function hour_steps :: "int \<Rightarrow> int \<Rightarrow> int list" where
  "hour_steps to cursor = (if cursor < to then cursor # hour_steps to (cursor + hourMs) else [])"
  by pat_completeness auto
termination by (relation "measure (\<lambda>(to, cursor). nat (to - cursor))") (auto simp: hourMs_def)

declare hour_steps.simps [simp del]

definition dayKeys :: "(int \<Rightarrow> string) \<Rightarrow> int \<Rightarrow> int \<Rightarrow> string list" where
  "dayKeys day from to = add_key (day (to - 1)) (fold (add_key \<circ> day) (hour_steps to from) [])"

definition add_at :: "'v \<Rightarrow> ('v \<Rightarrow> 'v) \<Rightarrow> string \<Rightarrow> (string \<times> 'v) list \<Rightarrow> (string \<times> 'v) list" where
  "add_at zero f k m = AList.update k (f (case map_of m k of Some v \<Rightarrow> v | None \<Rightarrow> zero)) m"

definition dailyTrend :: "(int \<Rightarrow> string) \<Rightarrow> string list \<Rightarrow> time_bucket list \<Rightarrow> (string \<times> nat \<times> nat \<times> nat) list" where
  "dailyTrend day keys buckets =
     fold (\<lambda>b. add_at (0, 0, 0) (\<lambda>(c, x, d). (c + tb_count b, x + tb_errors b, d + tb_disputes b)) (day (tb_hour b)))
       buckets (map (\<lambda>k. (k, 0, 0, 0)) keys)"

definition hourlyProfile :: "(int \<Rightarrow> nat) \<Rightarrow> time_bucket list \<Rightarrow> (nat \<times> nat) list" where
  "hourlyProfile hour buckets =
     fold (\<lambda>b hours. let h = hour (tb_hour b); (c, x) = hours ! h in hours[h := (c + tb_count b, x + tb_errors b)])
       buckets (replicate 24 (0, 0))"

definition latencyTrend :: "(int \<Rightarrow> string) \<Rightarrow> string list \<Rightarrow> time_bucket list \<Rightarrow> (string \<times> rat option) list" where
  "latencyTrend day keys buckets =
     map (\<lambda>(k, sum, n). (k, quotient sum n))
       (fold (\<lambda>b. add_at (0, 0) (\<lambda>(sum, n). (sum + latency_or_zero (tb_sumLatency b), n + tb_latencyCount b)) (day (tb_hour b)))
         buckets (map (\<lambda>k. (k, 0, 0)) keys))"

definition dayMs :: int where "dayMs = 24 * hourMs"

definition currentUtcDay :: "int \<Rightarrow> int \<times> int" where
  "currentUtcDay now = (now div dayMs * dayMs, now div dayMs * dayMs + dayMs)"

definition TOP_FSP_LIMIT :: nat where "TOP_FSP_LIMIT = 5"

definition get_dashboard :: "(string \<Rightarrow> string) \<Rightarrow> (string \<Rightarrow> string \<Rightarrow> bool) \<Rightarrow> calendar \<Rightarrow> fsp_filter \<Rightarrow> (int \<times> int) option \<Rightarrow> int
    \<Rightarrow> audit_db \<Rightarrow> rollup_table \<Rightarrow> dashboard" where
  "get_dashboard co before cal f askedRange now db table =
     (let (from, to) = (case askedRange of Some r \<Rightarrow> r | None \<Rightarrow> currentUtcDay now);
          source = rangeSource co f from to db table;
          buckets = getTimeBuckets (range_sources co (ca_day cal) f from to db table);
          (txns, errors, disputes, sumLatency, latencyCount) = summarize buckets;
          committed = txns - errors;
          keys = dayKeys (ca_day cal) from to
      in \<lparr>da_asOf = getLastUpdatedAt table, da_range = (from, to), da_total = txns, da_errors = errors, da_disputes = disputes,
          da_successRate = quotient (int committed) txns, da_byState = outcomeBreakdown committed errors,
          da_errorByStage = getErrorStageBreakdown source, da_valueByCurrency = getValueByCurrency co source,
          da_topPayers = getTopFsps co before ru_payer TOP_FSP_LIMIT source,
          da_topPayees = getTopFsps co before ru_payee TOP_FSP_LIMIT source,
          da_avgLatency = quotient sumLatency latencyCount,
          da_daily = dailyTrend (ca_day cal) keys buckets, da_hourly = hourlyProfile (ca_hour cal) buckets,
          da_latency = latencyTrend (ca_day cal) keys buckets\<rparr>)"

section \<open>Sums over the buckets\<close>

lemma mset_order_rows [simp]: "mset (order_rows lt xs) = mset xs"
proof (induction xs)
  case (Cons x xs)
  have "mset (insert_row lt x ys) = add_mset x (mset ys)" for ys by (induction ys) simp_all
  then show ?case using Cons by simp
qed simp

lemma sum_order_rows: "sum_list (map (f :: 'a \<Rightarrow> 'b::comm_monoid_add) (order_rows lt xs)) = sum_list (map f xs)"
  by (rule sum_mset_eq) simp

lemma sum_group_choice:
  fixes F :: "'a \<Rightarrow> 'b::comm_monoid_add"
  shows "sum_list (map (\<lambda>g. if P (k (hd g)) then sum_list (map F g) else 0) (group_rows k xs)) =
    sum_list (map (\<lambda>x. if P (k x) then F x else 0) xs)"
proof -
  have "(if P (k (hd g)) then sum_list (map F g) else 0) = sum_list (map (\<lambda>x. if P (k x) then F x else 0) g)"
    if "g \<in> set (group_rows k xs)" for g
  proof -
    have k: "k x = k (hd g)" if "x \<in> set g" for x using group_rows_mem(2)[OF \<open>g \<in> _\<close>] that by blast
    have "map (\<lambda>x. if P (k x) then F x else 0) g = map (\<lambda>x. if P (k (hd g)) then F x else 0) g"
      by (rule map_cong[OF refl]) (simp only: k)
    from arg_cong[OF this, of sum_list] show ?thesis by (simp add: sum_list_triv)
  qed
  then have "map (\<lambda>g. if P (k (hd g)) then sum_list (map F g) else 0) (group_rows k xs) =
      map (\<lambda>g. sum_list (map (\<lambda>x. if P (k x) then F x else 0) g)) (group_rows k xs)"
    by (intro map_cong) simp_all
  from arg_cong[OF this, of sum_list] show ?thesis by (simp only: sum_group_rows)
qed

lemma bucket_sums:
  "sum_list (map (\<lambda>b. if P (tb_hour b) then tb_count b else 0) (getTimeBuckets src)) =
    sum_list (map (\<lambda>r. if P (ru_hour r) then ru_txn r else 0) src)"
  "sum_list (map (\<lambda>b. if P (tb_hour b) then tb_errors b else 0) (getTimeBuckets src)) =
    sum_list (map (\<lambda>r. if P (ru_hour r) then ru_error r else 0) src)"
  "sum_list (map (\<lambda>b. if P (tb_hour b) then tb_disputes b else 0) (getTimeBuckets src)) =
    sum_list (map (\<lambda>r. if P (ru_hour r) then ru_dispute r else 0) src)"
  "sum_list (map (\<lambda>b. if P (tb_hour b) then tb_latencyCount b else 0) (getTimeBuckets src)) =
    sum_list (map (\<lambda>r. if P (ru_hour r) then ru_latencyCount r else 0) src)"
  "sum_list (map (\<lambda>b. if P (tb_hour b) then latency_or_zero (tb_sumLatency b) else 0) (getTimeBuckets src)) =
    sum_list (map (\<lambda>r. if P (ru_hour r) then latency_or_zero (ru_sumLatency r) else 0) src)"
  unfolding getTimeBuckets_def sum_order_rows map_map comp_def time_bucket.simps sql_sum_or_zero
  by (rule sum_group_choice)+

lemmas bucket_totals = bucket_sums[where P = "\<lambda>_. True", simplified]

lemma summarize_sums:
  "summarize bs = (sum_list (map tb_count bs), sum_list (map tb_errors bs), sum_list (map tb_disputes bs),
     sum_list (map (\<lambda>b. latency_or_zero (tb_sumLatency b)) bs), sum_list (map tb_latencyCount bs))"
proof -
  have "fold (\<lambda>b (txns, errors, disputes, sumLatency, latencyCount).
      (txns + tb_count b, errors + tb_errors b, disputes + tb_disputes b, sumLatency + latency_or_zero (tb_sumLatency b),
       latencyCount + tb_latencyCount b)) bs (t, e, d, l, c) =
    (t + sum_list (map tb_count bs), e + sum_list (map tb_errors bs), d + sum_list (map tb_disputes bs),
     l + sum_list (map (\<lambda>b. latency_or_zero (tb_sumLatency b)) bs), c + sum_list (map tb_latencyCount bs))" for t e d l c
    by (induction bs arbitrary: t e d l c) (simp_all add: ac_simps)
  then show ?thesis by (simp add: summarize_def)
qed

section \<open>The local days of a range\<close>

lemma midnight_bounds: "lower < upper \<Longrightarrow> lower < midnight day date lower upper \<and> midnight day date lower upper \<le> upper"
proof (induction day date lower upper rule: midnight.induct)
  case (1 day date lower upper)
  show ?case
  proof (cases "upper - lower > 1")
    case True
    let ?m = "(lower + upper) div 2"
    have "lower < ?m" "?m < upper" using True by linarith+
    then show ?thesis using 1 True by (subst (1 2) midnight.simps) (auto simp: Let_def)
  next
    case False
    then show ?thesis using "1.prems" by (subst (1 2) midnight.simps) simp
  qed
qed

lemma midnight_finds:
  assumes "lower < m" "m \<le> upper" "\<And>x. lower \<le> x \<Longrightarrow> x < m \<Longrightarrow> day x = date" "\<And>x. m \<le> x \<Longrightarrow> x \<le> upper \<Longrightarrow> day x \<noteq> date"
  shows "midnight day date lower upper = m"
  using assms
proof (induction day date lower upper rule: midnight.induct)
  case (1 day date lower upper)
  show ?case
  proof (cases "upper - lower > 1")
    case True
    let ?m = "(lower + upper) div 2"
    have mid: "lower < ?m" "?m < upper" using True by linarith+
    show ?thesis
    proof (cases "day ?m = date")
      case day: True
      then have "?m < m" using "1.prems"(4)[of ?m] mid by (meson linorder_not_less order_less_imp_le)
      then have "midnight day date ?m upper = m" using "1.IH"(1)[OF True refl day] "1.prems" mid by simp
      then show ?thesis using True day by (subst midnight.simps) (simp add: Let_def)
    next
      case day: False
      then have "m \<le> ?m" using "1.prems"(3)[of ?m] mid by (meson linorder_not_less order_less_imp_le)
      then have "midnight day date lower ?m = m" using "1.IH"(2)[OF True refl day] "1.prems" mid by simp
      then show ?thesis using True day by (subst midnight.simps) (simp add: Let_def)
    qed
  next
    case False
    then show ?thesis using "1.prems"(1,2) by (subst midnight.simps) simp
  qed
qed

lemma day_starts_bounds: "sorted_wrt (<) (day_starts day lastMs cursor) \<and> (\<forall>s\<in>set (day_starts day lastMs cursor). cursor < s \<and> s \<le> lastMs)"
proof (induction day lastMs cursor rule: day_starts.induct)
  case (1 day lastMs cursor)
  show ?case
  proof (cases "cursor < lastMs")
    case True
    define up where "up = min (cursor + hourMs) lastMs"
    define u where "u = midnight day (day cursor) cursor up"
    define rest where "rest = day_starts day lastMs up"
    have up: "cursor < up" "up \<le> lastMs" using True by (simp_all add: up_def hourMs_def)
    have u: "cursor < u" "u \<le> up" using midnight_bounds[OF up(1)] by (simp_all add: u_def)
    have IH: "sorted_wrt (<) rest" "\<forall>s\<in>set rest. up < s \<and> s \<le> lastMs"
      using "1.IH"[OF True refl refl] unfolding rest_def up_def by blast+
    have "day_starts day lastMs cursor = (if day cursor \<noteq> day up \<and> u mod hourMs \<noteq> 0 then [u] else []) @ rest"
      using True unfolding rest_def u_def up_def by (subst day_starts.simps) (simp only: Let_def if_True)
    then consider "day_starts day lastMs cursor = rest" | "day_starts day lastMs cursor = u # rest" by (auto split: if_splits)
    then show ?thesis
    proof cases
      case 1
      then show ?thesis using IH up by force
    next
      case 2
      then show ?thesis using IH up u by force
    qed
  next
    case False
    then show ?thesis by (subst (1 2) day_starts.simps) simp
  qed
qed
text \<open>Within an hour the local day changes at most once.\<close>

definition regular_days :: "(int \<Rightarrow> string) \<Rightarrow> bool" where
  "regular_days day \<longleftrightarrow> (\<forall>u v. u \<le> v \<and> v - u \<le> hourMs \<longrightarrow>
     (\<exists>m. (\<forall>x. u \<le> x \<and> x < m \<longrightarrow> day x = day u) \<and> (\<forall>x. m \<le> x \<and> x \<le> v \<longrightarrow> day x = day v)))"

lemma change_found:
  assumes "regular_days day" "u \<le> v" "v - u \<le> hourMs" "u < z" "z \<le> v" "day (z - 1) \<noteq> day z"
  shows "day u \<noteq> day v \<and> midnight day (day u) u v = z"
proof -
  obtain m where m: "\<And>x. u \<le> x \<Longrightarrow> x < m \<Longrightarrow> day x = day u" "\<And>x. m \<le> x \<Longrightarrow> x \<le> v \<Longrightarrow> day x = day v"
    using assms(1-3) unfolding regular_days_def by blast
  have "m = z"
  proof (rule ccontr)
    assume "m \<noteq> z"
    then consider "z < m" | "m \<le> z - 1" by linarith
    then show False using m(1)[of z] m(1)[of "z - 1"] m(2)[of z] m(2)[of "z - 1"] assms(4-6) by cases simp_all
  qed
  have days: "day (z - 1) = day u" "day z = day v" using m(1)[of "z - 1"] m(2)[of z] assms(4,5) \<open>m = z\<close> by simp_all
  then have ne: "day u \<noteq> day v" using assms(6) by simp
  moreover have "midnight day (day u) u v = z"
  proof (rule midnight_finds[OF assms(4,5)])
    show "day x = day u" if "u \<le> x" "x < z" for x using m(1)[OF that(1)] that(2) \<open>m = z\<close> by blast
    show "day x \<noteq> day u" if "z \<le> x" "x \<le> v" for x using m(2)[of x] that ne \<open>m = z\<close> by metis
  qed
  ultimately show ?thesis by simp
qed

lemma day_starts_complete:
  assumes "regular_days day" "cursor < z" "z \<le> lastMs" "day (z - 1) \<noteq> day z" "z mod hourMs \<noteq> 0"
  shows "z \<in> set (day_starts day lastMs cursor)"
  using assms
proof (induction day lastMs cursor rule: day_starts.induct)
  case (1 day lastMs cursor)
  have running: "cursor < lastMs" using "1.prems"(2,3) by simp
  define up where "up = min (cursor + hourMs) lastMs"
  have starts: "day_starts day lastMs cursor = (if day cursor \<noteq> day up \<and> midnight day (day cursor) cursor up mod hourMs \<noteq> 0
      then [midnight day (day cursor) cursor up] else []) @ day_starts day lastMs up"
    using running unfolding up_def by (subst day_starts.simps) (simp only: Let_def if_True)
  show ?case
  proof (cases "z \<le> up")
    case True
    have "cursor \<le> up" "up - cursor \<le> hourMs" using running by (simp_all add: up_def hourMs_def)
    from change_found[OF "1.prems"(1) this "1.prems"(2) True "1.prems"(4)] show ?thesis using "1.prems"(5) by (simp add: starts)
  next
    case False
    then have "z \<in> set (day_starts day lastMs up)"
      using "1.IH"[OF running refl refl "1.prems"(1)] "1.prems" unfolding up_def by simp
    then show ?thesis by (simp add: starts)
  qed
qed

lemma change_between:
  fixes x y :: int
  assumes "x \<le> y" "day x \<noteq> day y"
  shows "\<exists>z. x < z \<and> z \<le> y \<and> day (z - 1) \<noteq> day z"
  using assms
proof (induction y rule: int_ge_induct)
  case (step y)
  show ?case
  proof (cases "day y = day (y + 1)")
    case True
    then obtain z where "x < z" "z \<le> y" "day (z - 1) \<noteq> day z" using step by auto
    then show ?thesis by (intro exI[of _ z]) simp
  qed (use step in \<open>auto intro: exI[of _ "y + 1"]\<close>)
qed simp

fun pieces :: "int \<Rightarrow> int list \<Rightarrow> int \<Rightarrow> (int \<times> int) list" where
  "pieces s [] to = [(s, to)]"
| "pieces s (d # ds) to = (s, d) # pieces d ds to"

lemma zip_pieces: "zip (s # ds) (ds @ [to]) = pieces s ds to"
  by (induction ds arbitrary: s) simp_all

lemma pieces_mem:
  assumes "sorted_wrt (<) (s # ds @ [to])" "(a, b) \<in> set (pieces s ds to)"
  shows "s \<le> a" "a < b" "b \<le> to" "\<And>z. a < z \<Longrightarrow> z < b \<Longrightarrow> z \<notin> set ds"
proof -
  have "s \<le> a \<and> a < b \<and> b \<le> to \<and> (\<forall>z. a < z \<and> z < b \<longrightarrow> z \<notin> set ds)"
    using assms
  proof (induction ds arbitrary: s)
    case (Cons d ds)
    have sorted: "sorted_wrt (<) (d # ds @ [to])" and s: "s < d" "\<forall>x\<in>set ds. d < x" "d < to" using Cons.prems(1) by auto
    show ?case
    proof (cases "(a, b) = (s, d)")
      case True
      then show ?thesis using s by auto
    next
      case False
      then show ?thesis using Cons.IH[OF sorted] Cons.prems(2) s by force
    qed
  qed simp
  then show "s \<le> a" "a < b" "b \<le> to" "\<And>z. a < z \<Longrightarrow> z < b \<Longrightarrow> z \<notin> set ds" by blast+
qed

lemma sum_pieces:
  fixes h :: "tx_row \<Rightarrow> 'b::comm_monoid_add"
  assumes "sorted_wrt (<) (s # ds @ [to])"
  shows "sum_list (map (\<lambda>(a, b). sum_list (map h (filter (\<lambda>t. started_in a b t \<and> P t) xs))) (pieces s ds to)) =
    sum_list (map h (filter (\<lambda>t. started_in s to t \<and> P t) xs))"
  using assms
proof (induction ds arbitrary: s)
  case (Cons d ds)
  have d: "s < d" "d < to" and sorted: "sorted_wrt (<) (d # ds @ [to])" using Cons.prems by auto
  have "(if started_in s to t \<and> P t then h t else 0) =
      (if started_in s d t \<and> P t then h t else 0) + (if started_in d to t \<and> P t then h t else 0)" for t
    using d by (auto simp: started_in_def)
  then have "sum_list (map h (filter (\<lambda>t. started_in s to t \<and> P t) xs)) =
      sum_list (map h (filter (\<lambda>t. started_in s d t \<and> P t) xs)) + sum_list (map h (filter (\<lambda>t. started_in d to t \<and> P t) xs))"
    by (simp only: sum_filter sum_list_addf)
  then show ?case using Cons.IH[OF sorted] by simp
qed simp

lemma local_ranges: "localDayRanges day from to = pieces from (day_starts day (to - 1) from) to"
  by (simp add: localDayRanges_def Let_def flip: zip_pieces)

lemma local_sorted: "from < to \<Longrightarrow> sorted_wrt (<) (from # day_starts day (to - 1) from @ [to])"
  using day_starts_bounds[of day "to - 1" "from"] by (fastforce simp: sorted_wrt_append)

lemma same_day:
  assumes "regular_days day" "from < to" "(a, b) \<in> set (localDayRanges day from to)" "a \<le> x" "x \<le> y" "y < b" "hour_of x = hour_of y"
  shows "day x = day y"
proof (rule ccontr)
  assume "day x \<noteq> day y"
  from change_between[where day = day, OF assms(5) this] obtain z where z: "x < z" "z \<le> y" "day (z - 1) \<noteq> day z" by blast
  note mem = pieces_mem[OF local_sorted[OF assms(2)] assms(3)[unfolded local_ranges]]
  have "z mod hourMs \<noteq> 0"
  proof
    assume "z mod hourMs = 0"
    then have "hour_of z = z" by (simp add: hour_of_def flip: minus_mod_eq_div_mult)
    moreover have "hour_of z \<le> hour_of y" using z(2) by (rule hour_of_mono)
    ultimately show False using hour_of_bounds(1)[of x] z(1) assms(7) by simp
  qed
  moreover have "from < z" "z \<le> to - 1" using mem(1,3) z assms(4,6) by linarith+
  ultimately have "z \<in> set (day_starts day (to - 1) from)" using day_starts_complete[OF assms(1)] z(3) by blast
  then show False using mem(4)[of z] z assms(4,6) by simp
qed
section \<open>The dashboard shows the transactions of the range\<close>

lemma range_fresh_part:
  assumes "range_fresh co from to db table" "from \<le> a" "b \<le> to"
  shows "range_fresh co a b db table"
proof -
  have le: "fullStart from \<le> fullStart a" "fullEnd b \<le> fullEnd to"
    using fullStart_least[of "fullStart a" "from"] full_hours(1)[of a] full_hours(3)[of a] assms(2)
      hour_of_mono[OF assms(3)] full_hours(5)[of b] full_hours(5)[of to] by simp_all
  show ?thesis unfolding range_fresh_def
  proof
    assume "fullStart a < fullEnd b"
    then have "fresh co (fullStart from) (fullEnd to) db table" using assms(1) le by (simp add: range_fresh_def)
    then show "fresh co (fullStart a) (fullEnd b) db table" by (rule fresh_part[OF _ full_hours(1,2) le])
  qed
qed

text \<open>What a query sums over the pieces of the range is the sum over the transactions of the range.\<close>

lemma pieces_total:
  assumes "from < to" "range_fresh co from to db table"
    and "\<And>a b. (a, b) \<in> set (localDayRanges day from to) \<Longrightarrow> range_measure co a b of_tx of_row"
  shows "sum_list (map of_row (range_sources co day f from to db table)) = sum_list (map of_tx (range_rows co f from to db))"
proof -
  let ?L = "localDayRanges day from to"
  note sorted = local_sorted[OF assms(1), of day]
  have "sum_list (map of_row (rangeSource co f a b db table)) = sum_list (map of_tx (range_rows co f a b db))" if ab: "(a, b) \<in> set ?L" for a b
  proof -
    note mem = pieces_mem[OF sorted ab[unfolded local_ranges]]
    show ?thesis
      using mem(1-3) by (intro range_measure.range_total[OF assms(3)[OF ab]] range_fresh_part[OF assms(2)]) simp_all
  qed
  then have "map (\<lambda>(a, b). sum_list (map of_row (rangeSource co f a b db table))) ?L = map (\<lambda>(a, b). sum_list (map of_tx (range_rows co f a b db))) ?L"
    by (intro map_cong) auto
  from arg_cong[OF this, of sum_list]
  have "sum_list (map (\<lambda>(a, b). sum_list (map of_row (rangeSource co f a b db table))) ?L) = sum_list (map of_tx (range_rows co f from to db))"
    unfolding local_ranges range_rows_def sum_pieces[OF sorted] .
  moreover have "sum_list (map of_row (concat (map F xs))) = sum_list (map (\<lambda>x. sum_list (map of_row (F x))) xs)" for F and xs :: "(int \<times> int) list"
    by (induction xs) simp_all
  ultimately show ?thesis by (simp add: range_sources_def case_prod_unfold)
qed

lemma int_sums: "int (sum_list (map h xs)) = sum_list (map (\<lambda>r. int (h r)) xs)" for h :: "'a \<Rightarrow> nat"
  by (induction xs) simp_all

lemma counted:
  "sum_list (map (\<lambda>r. int (h r)) rs) = sum_list (map (\<lambda>t. of_bool (P t)) ts) \<Longrightarrow> sum_list (map h rs) = count_of P ts"
  using int_sums[of h rs] count_sum[of P ts] by linarith

lemma pieces_counts:
  assumes "from < to" "range_fresh co from to db table"
  shows "sum_list (map ru_txn (range_sources co day f from to db table)) = length (range_rows co f from to db)"
    "sum_list (map ru_error (range_sources co day f from to db table)) = count_of tx_error (range_rows co f from to db)"
    "sum_list (map ru_dispute (range_sources co day f from to db table)) = count_of tx_possibleDispute (range_rows co f from to db)"
    "sum_list (map ru_latencyCount (range_sources co day f from to db table)) =
      count_of (\<lambda>t. tx_completedAt t \<noteq> None) (range_rows co f from to db)"
    "sum_list (map (\<lambda>r. latency_or_zero (ru_sumLatency r)) (range_sources co day f from to db table)) =
      sum_list (map (\<lambda>t. latency_or_zero (tx_latency t)) (range_rows co f from to db))"
proof -
  show "sum_list (map ru_txn (range_sources co day f from to db table)) = length (range_rows co f from to db)"
    using pieces_total[OF assms txn.range_measure_axioms, where day = day and f = f] int_sums[of ru_txn "range_sources co day f from to db table"]
    by (simp add: sum_list_triv)
  show "sum_list (map ru_error (range_sources co day f from to db table)) = count_of tx_error (range_rows co f from to db)"
    by (rule counted[OF pieces_total[OF assms errors.range_measure_axioms]])
  show "sum_list (map ru_dispute (range_sources co day f from to db table)) = count_of tx_possibleDispute (range_rows co f from to db)"
    by (rule counted[OF pieces_total[OF assms disputes.range_measure_axioms]])
  show "sum_list (map ru_latencyCount (range_sources co day f from to db table)) =
      count_of (\<lambda>t. tx_completedAt t \<noteq> None) (range_rows co f from to db)"
    by (rule counted[OF pieces_total[OF assms completed.range_measure_axioms]])
qed (rule pieces_total[OF assms latencies.range_measure_axioms])

section \<open>The daily trend\<close>

lemma day_choice:
  assumes "regular_days day" "from < to" "(a, b) \<in> set (localDayRanges day from to)"
  shows "range_choice co a b (\<lambda>t. day (tx_startedAt t) = k) (\<lambda>r. day (ru_hour r) = k)"
proof
  note mem = pieces_mem[OF local_sorted[OF assms(2)] assms(3)[unfolded local_ranges]]
  note same = same_day[OF assms]
  have ends: "a \<le> fullStart a" "fullEnd b \<le> b" using full_hours(3)[of a] full_hours(5)[of b] hour_of_bounds(1)[of b] by simp_all
  fix g t assume g: "same_group co g" "t \<in> set g" and started: "\<And>t. t \<in> set g \<Longrightarrow> started_in (fullStart a) (fullEnd b) t"
  have "fullStart a \<le> hour_of (tx_startedAt t)" "tx_startedAt t < fullEnd b"
    using started[OF g(2)] hour_of_le[OF full_hours(1)] by (simp_all add: started_in_def)
  then have "day (hour_of (tx_startedAt t)) = day (tx_startedAt t)"
    using ends hour_of_bounds(1)[of "tx_startedAt t"] by (intro same) simp_all
  then show "(day (ru_hour (bucket_of co g)) = k) = (day (tx_startedAt t) = k)"
    using same_group_co(5)[OF g] by (simp add: bucket_of_def)
next
  note mem = pieces_mem[OF local_sorted[OF assms(2)] assms(3)[unfolded local_ranges]]
  fix c d t assume edge: "(c, d) \<in> set (edges a b)" "started_in c d t"
  let ?h = "max (hour_of (tx_startedAt t)) c"
  have within: "a \<le> c" "d \<le> b"
    using edge(1) full_hours(3)[of a] full_hours(5)[of b] hour_of_bounds(1)[of b] by (auto simp: edges_def split: if_splits)
  have le: "hour_of (tx_startedAt t) \<le> ?h" "?h \<le> tx_startedAt t"
    using edge(2) hour_of_bounds(1)[of "tx_startedAt t"] by (simp_all add: started_in_def)
  have "hour_of ?h = hour_of (tx_startedAt t)"
    using hour_of_mono[OF le(1)] hour_of_mono[OF le(2)] by simp
  then have "day ?h = day (tx_startedAt t)"
    using within le edge(2) by (intro same_day[OF assms]) (simp_all add: started_in_def)
  then show "(day (ru_hour (edge_row co c t)) = k) = (day (tx_startedAt t) = k)" by (simp add: edge_row_def)
qed

lemma day_count:
  assumes days: "regular_days day" "from < to" and fresh: "range_fresh co from to db table"
    and m: "\<And>a b. range_measure co a b (\<lambda>t. of_bool (P t)) (\<lambda>r. int (h r))"
  shows "sum_list (map (\<lambda>r. if day (ru_hour r) = k then h r else 0) (range_sources co day f from to db table)) =
    count_of (\<lambda>t. day (tx_startedAt t) = k \<and> P t) (range_rows co f from to db)"
proof (rule counted)
  have "range_measure co a b (\<lambda>t. if day (tx_startedAt t) = k then of_bool (P t) else 0) (\<lambda>r. if day (ru_hour r) = k then int (h r) else 0)"
    if "(a, b) \<in> set (localDayRanges day from to)" for a b
    by (rule chosen_range_measure.chosen[OF chosen_range_measure.intro[OF m day_choice[OF days that]]])
  from pieces_total[OF days(2) fresh this]
  have eq: "sum_list (map (\<lambda>r. if day (ru_hour r) = k then int (h r) else 0) (range_sources co day f from to db table)) =
      sum_list (map (\<lambda>t. if day (tx_startedAt t) = k then of_bool (P t) else 0) (range_rows co f from to db))" by blast
  have l: "(\<lambda>r. int (if day (ru_hour r) = k then h r else 0)) = (\<lambda>r. if day (ru_hour r) = k then int (h r) else 0)"
    and r: "(\<lambda>t. of_bool (day (tx_startedAt t) = k \<and> P t) :: int) = (\<lambda>t. if day (tx_startedAt t) = k then of_bool (P t) else 0)"
    by (simp_all add: fun_eq_iff)
  show "sum_list (map (\<lambda>r. int (if day (ru_hour r) = k then h r else 0)) (range_sources co day f from to db table)) =
      sum_list (map (\<lambda>t. of_bool (day (tx_startedAt t) = k \<and> P t)) (range_rows co f from to db))"
    unfolding l r by (rule eq)
qed

definition trend_of :: "(string \<times> nat \<times> nat \<times> nat) list \<Rightarrow> string \<Rightarrow> nat \<times> nat \<times> nat" where
  "trend_of m k = (case map_of m k of Some v \<Rightarrow> v | None \<Rightarrow> (0, 0, 0))"

lemma trend_fold:
  assumes "distinct (map fst m)"
  shows "let m' = fold (\<lambda>b. add_at (0, 0, 0) (\<lambda>(c, x, d). (c + tb_count b, x + tb_errors b, d + tb_disputes b)) (day (tb_hour b))) bs m
    in distinct (map fst m') \<and> (\<forall>k. trend_of m' k = (let (c, x, d) = trend_of m k in
      (c + sum_list (map (\<lambda>b. if day (tb_hour b) = k then tb_count b else 0) bs),
       x + sum_list (map (\<lambda>b. if day (tb_hour b) = k then tb_errors b else 0) bs),
       d + sum_list (map (\<lambda>b. if day (tb_hour b) = k then tb_disputes b else 0) bs))))"
  using assms
proof (induction bs arbitrary: m)
  case (Cons b bs)
  let ?m = "add_at (0, 0, 0) (\<lambda>(c, x, d). (c + tb_count b, x + tb_errors b, d + tb_disputes b)) (day (tb_hour b)) m"
  have one: "trend_of ?m k = (let (c, x, d) = trend_of m k in if day (tb_hour b) = k
      then (c + tb_count b, x + tb_errors b, d + tb_disputes b) else (c, x, d))" for k
    by (simp add: trend_of_def add_at_def update_conv' split: prod.split)
  have "distinct (map fst ?m)" using Cons.prems by (simp add: add_at_def alist_distinct_update)
  from Cons.IH[OF this] show ?case by (simp add: one Let_def split: prod.split)
qed (simp add: split_def)

lemma dayKeys_distinct: "distinct (dayKeys day from to)"
proof -
  have "distinct ks \<Longrightarrow> distinct (fold (add_key \<circ> day) xs ks)" for xs ks
    by (induction xs arbitrary: ks) (simp_all add: add_key_def)
  then show ?thesis by (simp add: dayKeys_def add_key_def)
qed

text \<open>
  The trend shows each local day exactly.  In a time zone whose day changes at most once within an hour, an entry
  of the daily trend counts the transactions of the range, with their errors and disputes, that started on this local
  day, although the rollup only knows hours of UTC; no day occurs twice and no day with transactions is missing.
\<close>

theorem daily_trend_exact:
  assumes "regular_days (ca_day cal)" "from < to" "range_fresh co from to db table"
  shows "let d = get_dashboard co before cal f (Some (from, to)) now db table; T = range_rows co f from to db;
      on = (\<lambda>k P. count_of (\<lambda>t. ca_day cal (tx_startedAt t) = k \<and> P t) T)
    in distinct (map fst (da_daily d)) \<and>
       list_all (\<lambda>(k, count, errors, disputes). count = on k (\<lambda>_. True) \<and> errors = on k tx_error \<and> disputes = on k tx_possibleDispute) (da_daily d) \<and>
       list_all (\<lambda>t. list_ex (\<lambda>(k, _). k = ca_day cal (tx_startedAt t)) (da_daily d)) T"
proof -
  let ?day = "ca_day cal" and ?T = "range_rows co f from to db" and ?src = "range_sources co (ca_day cal) f from to db table"
  let ?D = "dailyTrend ?day (dayKeys ?day from to) (getTimeBuckets ?src)" and ?init = "map (\<lambda>k. (k, 0, 0, 0)) (dayKeys ?day from to)"
  let ?on = "\<lambda>k P. count_of (\<lambda>t. ?day (tx_startedAt t) = k \<and> P t) ?T"
  have init: "trend_of ?init k = (0, 0, 0)" "distinct (map fst ?init)" for k
    by (simp_all add: trend_of_def map_of_map_restrict dayKeys_distinct comp_def restrict_map_def)
  have txn: "range_measure co a b (\<lambda>t. of_bool True) (\<lambda>r. int (ru_txn r))" for a b
    using txn.range_measure_axioms by simp
  have trend: "distinct (map fst ?D)" "trend_of ?D k = (?on k (\<lambda>_. True), ?on k tx_error, ?on k tx_possibleDispute)" for k
    using trend_fold[OF init(2), of ?day "getTimeBuckets ?src"]
      day_count[OF assms txn, where f = f] day_count[OF assms errors.range_measure_axioms, where f = f]
      day_count[OF assms disputes.range_measure_axioms, where f = f]
    by (simp_all add: Let_def init(1) bucket_sums[where P = "\<lambda>h. ca_day cal h = k"] flip: dailyTrend_def)
  have entry: "trend_of ?D k = v" if "(k, v) \<in> set ?D" for k v
    using that trend(1) by (simp add: trend_of_def)
  have entries: "list_all (\<lambda>(k, count, errors, disputes). count = ?on k (\<lambda>_. True) \<and> errors = ?on k tx_error \<and> disputes = ?on k tx_possibleDispute) ?D"
    unfolding list_all_iff using entry trend(2) by fastforce
  have "list_all (\<lambda>t. list_ex (\<lambda>(k, _). k = ?day (tx_startedAt t)) ?D) ?T"
    unfolding list_all_iff
  proof
    fix t assume t: "t \<in> set ?T"
    let ?k = "?day (tx_startedAt t)"
    have "?on ?k (\<lambda>_. True) \<noteq> 0" using t by (auto simp: count_of_def filter_empty_conv)
    then have "trend_of ?D ?k \<noteq> (0, 0, 0)" by (simp add: trend(2))
    then obtain v where "map_of ?D ?k = Some v" by (cases "map_of ?D ?k") (simp_all add: trend_of_def)
    from map_of_SomeD[OF this] show "list_ex (\<lambda>(k, _). k = ?k) ?D" by (auto simp: list_ex_iff)
  qed
  then show ?thesis using trend(1) entries by (simp add: get_dashboard_def Let_def summarize_sums)
qed
section \<open>The value that moved\<close>

lemma key_sum:
  assumes "start \<le> stop" "range_fresh co start stop db table"
  shows "sum_list (map ru_committedAmount (filter (\<lambda>r. co (ru_currency r) = c \<and> co (ru_subScenario r) = u) (rangeSource co f start stop db table))) =
      sum_list (map (moved_amount co) (filter (\<lambda>t. co (tx_currency t) = c \<and> co (tx_useCase co t) = u) (range_rows co f start stop db)))"
    and "sum_list (map ru_committed (filter (\<lambda>r. co (ru_currency r) = c \<and> co (ru_subScenario r) = u) (rangeSource co f start stop db table))) =
      count_of (moved co) (filter (\<lambda>t. co (tx_currency t) = c \<and> co (tx_useCase co t) = u) (range_rows co f start stop db))"
proof -
  show "sum_list (map ru_committedAmount (filter (\<lambda>r. co (ru_currency r) = c \<and> co (ru_subScenario r) = u) (rangeSource co f start stop db table))) =
      sum_list (map (moved_amount co) (filter (\<lambda>t. co (tx_currency t) = c \<and> co (tx_useCase co t) = u) (range_rows co f start stop db)))"
    unfolding sum_filter by (rule range_measure.range_total[OF keyed_amounts.chosen assms])
  show "sum_list (map ru_committed (filter (\<lambda>r. co (ru_currency r) = c \<and> co (ru_subScenario r) = u) (rangeSource co f start stop db table))) =
      count_of (moved co) (filter (\<lambda>t. co (tx_currency t) = c \<and> co (tx_useCase co t) = u) (range_rows co f start stop db))"
    by (rule counted, unfold sum_filter) (rule range_measure.range_total[OF keyed_moves.chosen assms])
qed

definition value_key :: "(string \<Rightarrow> string) \<Rightarrow> currency_value \<Rightarrow> string \<times> string" where
  "value_key co v = (co (cv_currency v), co (cv_useCase v))"

definition tx_value_key :: "(string \<Rightarrow> string) \<Rightarrow> tx_row \<Rightarrow> string \<times> string" where
  "tx_value_key co t = (co (tx_currency t), co (tx_useCase co t))"

lemma distinct_map_mset: "mset xs = mset ys \<Longrightarrow> distinct (map f xs) = distinct (map f ys)"
  by (metis mset_eq_imp_distinct_iff mset_map)

text \<open>
  The value that moved is shown exactly.  Every entry is the sum and the number of the committed or disputed
  transactions of the range with its currency and use case, no two entries have the same, the placeholder for a
  missing currency is left out, and no transaction that moved money is missing.
\<close>

theorem moved_value_exact:
  assumes "from < to" "range_fresh co from to db table"
  shows "let V = da_valueByCurrency (get_dashboard co before cal f (Some (from, to)) now db table); T = range_rows co f from to db in
    list_all (\<lambda>v. cv_total v = sum_list (map (moved_amount co) (filter (\<lambda>t. tx_value_key co t = value_key co v) T)) \<and>
      cv_count v = count_of (moved co) (filter (\<lambda>t. tx_value_key co t = value_key co v) T) \<and> co (cv_currency v) \<noteq> co ''XXX'') V \<and>
    distinct (map (value_key co) V) \<and>
    list_all (\<lambda>t. moved co t \<and> co (tx_currency t) \<noteq> co ''XXX'' \<longrightarrow> list_ex (\<lambda>v. value_key co v = tx_value_key co t) V) T"
proof -
  let ?src = "rangeSource co f from to db table" and ?T = "range_rows co f from to db"
  let ?k = "\<lambda>r. (co (ru_currency r), co (ru_subScenario r))" and ?ok = "\<lambda>r. co (ru_currency r) \<noteq> co ''XXX''"
  let ?G = "group_rows ?k (filter ?ok ?src)"
  let ?entry = "\<lambda>g. \<lparr>cv_currency = ru_currency (hd g), cv_useCase = ru_subScenario (hd g),
      cv_total = sum_list (map ru_committedAmount g), cv_count = sum_list (map ru_committed g)\<rparr>"
  let ?E = "map ?entry ?G"
  let ?V = "da_valueByCurrency (get_dashboard co before cal f (Some (from, to)) now db table)"
  have V: "mset ?V = mset (filter (\<lambda>v. cv_count v > 0) ?E)"
    by (simp add: get_dashboard_def Let_def summarize_sums getValueByCurrency_def)
  have grp: "g = filter (\<lambda>r. ?k r = ?k (hd g)) ?src" "?ok (hd g)" if "g \<in> set ?G" for g
  proof -
    note mem = group_rows_mem[OF that]
    show "?ok (hd g)" using mem(3) hd_in_set[OF mem(1)] by auto
    then have "filter (\<lambda>r. ?k r = ?k (hd g)) (filter ?ok ?src) = filter (\<lambda>r. ?k r = ?k (hd g)) ?src"
      unfolding filter_filter by (intro filter_cong) auto
    with mem(4) show "g = filter (\<lambda>r. ?k r = ?k (hd g)) ?src" by simp
  qed
  have sums: "sum_list (map ru_committedAmount (filter (\<lambda>r. ?k r = (c, u)) ?src)) =
        sum_list (map (moved_amount co) (filter (\<lambda>t. tx_value_key co t = (c, u)) ?T))"
      "sum_list (map ru_committed (filter (\<lambda>r. ?k r = (c, u)) ?src)) = count_of (moved co) (filter (\<lambda>t. tx_value_key co t = (c, u)) ?T)" for c u
    using key_sum[OF order.strict_implies_order[OF assms(1)] assms(2)] by (simp_all add: tx_value_key_def)
  have entry: "cv_total (?entry g) = sum_list (map (moved_amount co) (filter (\<lambda>t. tx_value_key co t = value_key co (?entry g)) ?T))"
      "cv_count (?entry g) = count_of (moved co) (filter (\<lambda>t. tx_value_key co t = value_key co (?entry g)) ?T)"
    if "g \<in> set ?G" for g
    using sums[of "co (ru_currency (hd g))" "co (ru_subScenario (hd g))"] grp(1)[OF that] by (simp_all add: value_key_def)
  have keys: "map (value_key co) ?E = remdups (map ?k (filter ?ok ?src))"
    using group_heads[of ?k "filter ?ok ?src"] by (simp add: value_key_def comp_def)
  have "set ?V = set (filter (\<lambda>v. cv_count v > 0) ?E)" using mset_eq_setD[OF V] .
  then have setV: "v \<in> set ?V \<longleftrightarrow> v \<in> set ?E \<and> cv_count v > 0" for v by (simp only: set_filter mem_Collect_eq)
  have all: "list_all (\<lambda>v. cv_total v = sum_list (map (moved_amount co) (filter (\<lambda>t. tx_value_key co t = value_key co v) ?T)) \<and>
      cv_count v = count_of (moved co) (filter (\<lambda>t. tx_value_key co t = value_key co v) ?T) \<and> co (cv_currency v) \<noteq> co ''XXX'') ?V"
    unfolding list_all_iff
  proof
    fix v assume "v \<in> set ?V"
    then obtain g where g: "g \<in> set ?G" "v = ?entry g" using setV by auto
    show "cv_total v = sum_list (map (moved_amount co) (filter (\<lambda>t. tx_value_key co t = value_key co v) ?T)) \<and>
      cv_count v = count_of (moved co) (filter (\<lambda>t. tx_value_key co t = value_key co v) ?T) \<and> co (cv_currency v) \<noteq> co ''XXX''"
      unfolding g(2) using entry[OF g(1)] grp(2)[OF g(1)] by simp
  qed
  have "distinct (map (value_key co) (filter (\<lambda>v. cv_count v > 0) ?E))" by (rule distinct_map_filter) (simp only: keys distinct_remdups)
  then have dist: "distinct (map (value_key co) ?V)"
    unfolding distinct_map_mset[OF V] .
  have "list_ex (\<lambda>v. value_key co v = tx_value_key co t) ?V" if t: "t \<in> set ?T" "moved co t" "co (tx_currency t) \<noteq> co ''XXX''" for t
  proof -
    obtain c u where cu: "tx_value_key co t = (c, u)" "c \<noteq> co ''XXX''" using t(3) by (cases "tx_value_key co t") (simp add: tx_value_key_def)
    have pos: "count_of (moved co) (filter (\<lambda>t. tx_value_key co t = (c, u)) ?T) > 0"
      using t(1,2) cu(1) by (auto simp: count_of_def filter_empty_conv)
    then have "filter (\<lambda>r. ?k r = (c, u)) ?src \<noteq> []" using sums(2)[of c u] by (metis list.simps(8) sum_list.Nil less_irrefl)
    then obtain r where r: "r \<in> set ?src" "?k r = (c, u)" by (auto simp: filter_empty_conv)
    then have "(c, u) \<in> set (map (value_key co) ?E)" unfolding keys using cu(2) by force
    then obtain g where g: "g \<in> set ?G" "value_key co (?entry g) = (c, u)" by auto
    have "?entry g \<in> set ?E" using g(1) by (simp only: set_map) (rule imageI)
    moreover have "cv_count (?entry g) > 0" using entry(2)[OF g(1)] pos unfolding g(2) by simp
    ultimately have "?entry g \<in> set ?V" unfolding setV by blast
    then show ?thesis using g(2) cu(1) unfolding list_ex_iff by metis
  qed
  then show ?thesis using all dist unfolding Let_def list_all_iff by blast
qed
section \<open>A concrete dashboard\<close>

lemma fixed_offset_regular: "regular_days (\<lambda>t. g ((t + off) div dayMs))"
  unfolding regular_days_def
proof (intro allI impI)
  fix u v :: int assume uv: "u \<le> v \<and> v - u \<le> hourMs"
  let ?q = "\<lambda>t. (t + off) div dayMs"
  have pos: "0 < dayMs" by (simp add: dayMs_def hourMs_def)
  have "?q v \<le> (u + off + dayMs) div dayMs" using uv by (intro zdiv_mono1 pos) (simp add: dayMs_def hourMs_def)
  also have "\<dots> = ?q u + 1" using pos by simp
  finally have q: "?q u \<le> ?q v" "?q v \<le> ?q u + 1" using uv zdiv_mono1[OF _ pos, of "u + off" "v + off"] by simp_all
  have le: "?q v * dayMs \<le> x + off \<longleftrightarrow> ?q v \<le> ?q x" for x by (rule mult_le_iff_le_div[OF pos])
  have mono: "x \<le> y \<Longrightarrow> ?q x \<le> ?q y" for x y using pos by (simp add: zdiv_mono1)
  show "\<exists>m. (\<forall>x. u \<le> x \<and> x < m \<longrightarrow> g (?q x) = g (?q u)) \<and> (\<forall>x. m \<le> x \<and> x \<le> v \<longrightarrow> g (?q x) = g (?q v))"
  proof (cases "?q u = ?q v")
    case True
    have same: "g (?q x) = g (?q u)" if "u \<le> x \<and> x < v + 1" for x
    proof -
      have "?q x = ?q u" using mono[of u x] mono[of x v] that True by linarith
      then show ?thesis by (rule arg_cong)
    qed
    have none: "\<not> (v + 1 \<le> x \<and> x \<le> v)" for x by linarith
    show ?thesis by (rule exI[of _ "v + 1"]) (use same none in blast)
  next
    case False
    then have step: "?q v = ?q u + 1" using q by linarith
    have before: "g (?q x) = g (?q u)" if "u \<le> x \<and> x < ?q v * dayMs - off" for x
    proof -
      have "?q x = ?q u" using mono[of u x] le[of x] that step by linarith
      then show ?thesis by (rule arg_cong)
    qed
    have after: "g (?q x) = g (?q v)" if "?q v * dayMs - off \<le> x \<and> x \<le> v" for x
    proof -
      have "?q x = ?q v" using mono[of x v] le[of x] that by linarith
      then show ?thesis by (rule arg_cong)
    qed
    show ?thesis by (rule exI[of _ "?q v * dayMs - off"]) (use before after in blast)
  qed
qed

text \<open>A zone one and a half hours behind UTC, and the rollup of three hours.\<close>

definition demo_calendar :: calendar where
  "demo_calendar = \<lparr>ca_day = (\<lambda>t. int_text ((t + (- 5400000)) div dayMs)), ca_hour = (\<lambda>t. nat ((t - 5400000) div hourMs mod 24))\<rparr>"

definition demo_table :: rollup_table where
  "demo_table = (case reaggregateWindow (\<lambda>s. s) 3600000 10800000 9 demo_audit [] of Some table \<Rightarrow> table | None \<Rightarrow> [])"

lemma demo_fresh: "range_fresh (\<lambda>s. s) 3000000 11000000 demo_audit demo_table"
proof -
  have w: "hour_of 3600000 = 3600000" "hour_of 10800000 = 10800000" "fullStart 3000000 = 3600000" "fullEnd 11000000 = 10800000"
    by (simp_all add: hour_of_def hourMs_def fullStart_def fullEnd_def)
  have "case reaggregateWindow (\<lambda>s. s) 3600000 10800000 9 demo_audit [] of None \<Rightarrow> False | Some _ \<Rightarrow> True" by code_simp
  then obtain table where t: "reaggregateWindow (\<lambda>s. s) 3600000 10800000 9 demo_audit [] = Some table"
    by (auto split: option.splits)
  show ?thesis using replace_fresh(1)[OF t w(1,2)] by (simp add: range_fresh_def w demo_table_def t)
qed

definition demo_dashboard :: dashboard where
  "demo_dashboard = get_dashboard (\<lambda>s. s) (\<lambda>_ _. False) demo_calendar (Some ''a'', None, None) (Some (3000000, 11000000)) 0
     demo_audit demo_table"


theorem daily_trend_exact_witness: "(''-1'', 2, 0, 0) \<in> set (da_daily demo_dashboard)"
proof -
  let ?T = "range_rows (\<lambda>s. s) (Some ''a'', None, None) 3000000 11000000 demo_audit" and ?t = "demo_started 1 (Some ''P2P'') 3600001"
  let ?day = "ca_day demo_calendar"
  have T: "count_of (\<lambda>t. ?day (tx_startedAt t) = ''-1'' \<and> True) ?T = 2" "count_of (\<lambda>t. ?day (tx_startedAt t) = ''-1'' \<and> tx_error t) ?T = 0"
    "count_of (\<lambda>t. ?day (tx_startedAt t) = ''-1'' \<and> tx_possibleDispute t) ?T = 0" "?T \<noteq> []" "?day (tx_startedAt (hd ?T)) = ''-1''"
    by code_simp+
  have regular: "regular_days ?day" unfolding demo_calendar_def calendar.simps by (rule fixed_offset_regular)
  have trend: "list_all (\<lambda>(k, c, x, d). c = count_of (\<lambda>t. ?day (tx_startedAt t) = k \<and> True) ?T \<and>
        x = count_of (\<lambda>t. ?day (tx_startedAt t) = k \<and> tx_error t) ?T \<and>
        d = count_of (\<lambda>t. ?day (tx_startedAt t) = k \<and> tx_possibleDispute t) ?T) (da_daily demo_dashboard)"
      "list_all (\<lambda>t. list_ex (\<lambda>(k, _). k = ?day (tx_startedAt t)) (da_daily demo_dashboard)) ?T"
    using daily_trend_exact[OF regular _ demo_fresh, where before = "\<lambda>_ _. False" and f = "(Some ''a'', None, None)" and now = 0]
    unfolding demo_dashboard_def[symmetric] Let_def by simp_all
  have "list_ex (\<lambda>(k, _). k = ''-1'') (da_daily demo_dashboard)"
    using trend(2) hd_in_set[OF T(4)] T(5) unfolding list_all_iff by fastforce
  then obtain c x d where e: "(''-1'', c, x, d) \<in> set (da_daily demo_dashboard)" by (auto simp: list_ex_iff)
  then show ?thesis using trend(1) T(1-3) unfolding list_all_iff by fastforce
qed

theorem moved_value_exact_witness:
  "list_ex (\<lambda>v. value_key (\<lambda>s. s) v = (''USD'', ''P2P'') \<and> cv_total v = 20000 \<and> cv_count v = 2) (da_valueByCurrency demo_dashboard)"
proof -
  let ?V = "da_valueByCurrency demo_dashboard" and ?T = "range_rows (\<lambda>s. s) (Some ''a'', None, None) 3000000 11000000 demo_audit"
  let ?P = "filter (\<lambda>t. tx_value_key (\<lambda>s. s) t = (''USD'', ''P2P'')) ?T"
  have T: "sum_list (map (moved_amount (\<lambda>s. s)) ?P) = 20000" "count_of (moved (\<lambda>s. s)) ?P = 2" "?T \<noteq> []"
    "tx_value_key (\<lambda>s. s) (hd ?T) = (''USD'', ''P2P'')" "moved (\<lambda>s. s) (hd ?T)" "tx_currency (hd ?T) \<noteq> ''XXX''" by code_simp+
  have all: "list_all (\<lambda>v. cv_total v = sum_list (map (moved_amount (\<lambda>s. s)) (filter (\<lambda>t. tx_value_key (\<lambda>s. s) t = value_key (\<lambda>s. s) v) ?T)) \<and>
        cv_count v = count_of (moved (\<lambda>s. s)) (filter (\<lambda>t. tx_value_key (\<lambda>s. s) t = value_key (\<lambda>s. s) v) ?T)) ?V"
      "list_all (\<lambda>t. moved (\<lambda>s. s) t \<and> tx_currency t \<noteq> ''XXX'' \<longrightarrow> list_ex (\<lambda>v. value_key (\<lambda>s. s) v = tx_value_key (\<lambda>s. s) t) ?V) ?T"
    using moved_value_exact[OF _ demo_fresh, where before = "\<lambda>_ _. False" and cal = demo_calendar and f = "(Some ''a'', None, None)" and now = 0]
    unfolding demo_dashboard_def[symmetric] Let_def by (simp_all add: list_all_iff)
  obtain v where v: "v \<in> set ?V" "value_key (\<lambda>s. s) v = (''USD'', ''P2P'')"
    using all(2) hd_in_set[OF T(3)] T(4-6) unfolding list_all_iff list_ex_iff by metis
  then show ?thesis using all(1) T(1,2) unfolding list_all_iff list_ex_iff by metis
qed

end
