(* ===== verification/Live_Stats.thy ===== *)
theory Live_Stats
  imports Rollup_Table
begin

text \<open>
  The live counters of the dashboard: \<open>live-stats.classifier.ts\<close>, \<open>live-stats.writer.ts\<close> and \<open>live-stats.store.ts\<close> with
  its server-side script.  A counter is kept for each day and scope, a marker for each transaction.  The numbers of
  the script are doubles; latencies are whole milliseconds, so that every number here is an integer that a double
  holds exactly.
\<close>

section \<open>Vectors\<close>

datatype live_vector = LiveVector (lv_txn: int) (lv_success: int) (lv_error: int) (lv_dispute: int)
  (lv_partiesError: int) (lv_quotesError: int) (lv_transfersError: int) (lv_patchError: int)
  (lv_latencyCount: int) (lv_sumLatency: int)

definition LIVE_VECTOR_ZERO :: live_vector where
  "LIVE_VECTOR_ZERO = LiveVector 0 0 0 0 0 0 0 0 0 0"

text \<open>\<open>diff\<close> of two vectors, with the sum that it undoes.\<close>

fun diff :: "live_vector \<Rightarrow> live_vector \<Rightarrow> live_vector" where
  "diff (LiveVector a b c d e f g h i j) (LiveVector a' b' c' d' e' f' g' h' i' j') =
     LiveVector (a' - a) (b' - b) (c' - c) (d' - d) (e' - e) (f' - f) (g' - g) (h' - h) (i' - i) (j' - j)"

instantiation live_vector :: ab_group_add
begin

definition zero_live_vector :: live_vector where
  "zero_live_vector = LIVE_VECTOR_ZERO"

fun plus_live_vector :: "live_vector \<Rightarrow> live_vector \<Rightarrow> live_vector" where
  "plus_live_vector (LiveVector a b c d e f g h i j) (LiveVector a' b' c' d' e' f' g' h' i' j') =
     LiveVector (a + a') (b + b') (c + c') (d + d') (e + e') (f + f') (g + g') (h + h') (i + i') (j + j')"

definition minus_live_vector :: "live_vector \<Rightarrow> live_vector \<Rightarrow> live_vector" where
  "minus_live_vector u v = diff v u"

definition uminus_live_vector :: "live_vector \<Rightarrow> live_vector" where
  "uminus_live_vector v = diff v LIVE_VECTOR_ZERO"

instance
proof
  fix u v w :: live_vector
  show "u + v + w = u + (v + w)" by (cases u; cases v; cases w) simp
  show "u + v = v + u" by (cases u; cases v) simp
  show "0 + u = u" by (cases u) (simp add: zero_live_vector_def LIVE_VECTOR_ZERO_def)
  show "- u + u = 0" by (cases u) (simp add: zero_live_vector_def LIVE_VECTOR_ZERO_def uminus_live_vector_def)
  show "u - v = u + - v" by (cases u; cases v) (simp add: minus_live_vector_def uminus_live_vector_def LIVE_VECTOR_ZERO_def)
qed

end

text \<open>The flags of a transaction as \<open>findLiveClassification\<close> reads them, and its vector.\<close>

record live_record =
  li_payer :: string
  li_payee :: string
  li_startedAt :: int
  li_updatedAt :: int
  li_error :: bool
  li_dispute :: bool
  li_partiesError :: bool
  li_quotesError :: bool
  li_transfersError :: bool
  li_patchError :: bool
  li_latency :: "int option"

definition live_record_of :: "tx_row \<Rightarrow> live_record" where
  "live_record_of t = \<lparr>li_payer = id_fsp (tx_payer t), li_payee = id_fsp (tx_payee t), li_startedAt = tx_startedAt t,
     li_updatedAt = tx_updatedAt t, li_error = tx_error t, li_dispute = tx_possibleDispute t,
     li_partiesError = (ph_error (tx_parties t) \<noteq> None), li_quotesError = (ph_error (tx_quotes t) \<noteq> None),
     li_transfersError = (ph_error (tx_transfers t) \<noteq> None), li_patchError = (pt_error (tx_patch t) \<noteq> None),
     li_latency = tx_latency t\<rparr>"

definition findLiveClassification :: "(string \<Rightarrow> string) \<Rightarrow> audit_db \<Rightarrow> string \<Rightarrow> live_record option" where
  "findLiveClassification co db correlationId =
     map_option live_record_of (find (\<lambda>t. co (tx_correlationId t) = co correlationId) (db_rows db))"

definition classify :: "live_record \<Rightarrow> live_vector" where
  "classify r = LiveVector 1 (of_bool (\<not> li_error r)) (of_bool (li_error r)) (of_bool (li_dispute r))
     (of_bool (li_partiesError r)) (of_bool (li_quotesError r)) (of_bool (li_transfersError r)) (of_bool (li_patchError r))
     (of_bool (li_latency r \<noteq> None)) (latency_or_zero (li_latency r))"

record live_kpi =
  lk_today :: int
  lk_successRate :: "rat option"
  lk_errors :: int
  lk_disputes :: int
  lk_avgLatency :: "rat option"

definition toLiveKpi :: "live_vector \<Rightarrow> live_kpi" where
  "toLiveKpi v = \<lparr>lk_today = lv_txn v,
     lk_successRate = (if lv_txn v > 0 then Some (of_int (lv_success v) / of_int (lv_txn v)) else None),
     lk_errors = lv_error v, lk_disputes = lv_dispute v,
     lk_avgLatency = (if lv_latencyCount v > 0 then Some (of_int (lv_sumLatency v) / of_int (lv_latencyCount v)) else None)\<rparr>"

section \<open>The store\<close>

text \<open>The hash fields, the integer ones before the float one, as the script goes through them.\<close>

definition LIVE_FIELD :: "(string \<times> (live_vector \<Rightarrow> int)) list" where
  "LIVE_FIELD = [(''txn'', lv_txn), (''ok'', lv_success), (''err'', lv_error), (''disp'', lv_dispute),
     (''e_parties'', lv_partiesError), (''e_quotes'', lv_quotesError), (''e_transfers'', lv_transfersError),
     (''e_patch'', lv_patchError), (''lat_cnt'', lv_latencyCount), (''lat_sum'', lv_sumLatency)]"

type_synonym live_hash = "(string \<times> int) list"

definition hash_get :: "live_hash \<Rightarrow> string \<Rightarrow> int" where
  "hash_get h name = (case map_of h name of Some n \<Rightarrow> n | None \<Rightarrow> 0)"

definition vectorFromHash :: "live_hash \<Rightarrow> live_vector" where
  "vectorFromHash h = LiveVector (hash_get h ''txn'') (hash_get h ''ok'') (hash_get h ''err'') (hash_get h ''disp'')
     (hash_get h ''e_parties'') (hash_get h ''e_quotes'') (hash_get h ''e_transfers'') (hash_get h ''e_patch'')
     (hash_get h ''lat_cnt'') (hash_get h ''lat_sum'')"

definition hincrby :: "string \<Rightarrow> int \<Rightarrow> live_hash \<Rightarrow> live_hash" where
  "hincrby name d h = (if d = 0 then h else AList.update name (hash_get h name + d) h)"

definition KEY_PREFIX :: string where "KEY_PREFIX = ''pivotal:live''"

definition counterKey :: "string \<Rightarrow> string \<Rightarrow> string" where
  "counterKey dateKey scope = KEY_PREFIX @ '':'' @ dateKey @ '':'' @ scope"

definition markerKey :: "string \<Rightarrow> string" where
  "markerKey correlationId = KEY_PREFIX @ '':cls:'' @ correlationId"

definition hubScope :: string where "hubScope = ''hub''"

definition fspScope :: "string \<Rightarrow> string" where "fspScope fspId = ''fsp:'' @ fspId"

definition scopesFor :: "string \<Rightarrow> string \<Rightarrow> string list" where
  "scopesFor payerFsp payeeFsp = [hubScope, fspScope payerFsp] @ (if payeeFsp \<noteq> payerFsp then [fspScope payeeFsp] else [])"

text \<open>The counters and the markers: the vector counted last with its rank.\<close>

record live_store =
  lv_counters :: "(string \<times> live_hash) list"
  lv_markers :: "(string \<times> live_vector \<times> int) list"

definition counter_hash :: "live_store \<Rightarrow> string \<Rightarrow> live_hash" where
  "counter_hash st key = (case map_of (lv_counters st) key of Some h \<Rightarrow> h | None \<Rightarrow> [])"

definition incr_counter :: "live_vector \<Rightarrow> live_vector \<Rightarrow> string \<Rightarrow> live_store \<Rightarrow> live_store" where
  "incr_counter prev next key st = st\<lparr>lv_counters := AList.update key
     (fold (\<lambda>(name, get). hincrby name (get next - get prev)) LIVE_FIELD (counter_hash st key)) (lv_counters st)\<rparr>"

text \<open>The script \<open>APPLY_EVENT_LUA\<close>, and \<open>applyEvent\<close> around it.\<close>

definition APPLY_EVENT :: "string \<Rightarrow> string list \<Rightarrow> live_vector \<Rightarrow> int \<Rightarrow> live_store \<Rightarrow> live_store" where
  "APPLY_EVENT marker keys next rank st =
     (let prev = (case map_of (lv_markers st) marker of Some (v, _) \<Rightarrow> v | None \<Rightarrow> LIVE_VECTOR_ZERO);
          stale = (case map_of (lv_markers st) marker of Some (_, r) \<Rightarrow> rank < r | None \<Rightarrow> False)
      in if stale then st
         else let counted = fold (incr_counter prev next) keys st
              in counted\<lparr>lv_markers := AList.update marker (next, rank) (lv_markers counted)\<rparr>)"

definition applyEvent :: "bool \<Rightarrow> string \<Rightarrow> string \<Rightarrow> string list \<Rightarrow> live_vector \<Rightarrow> int \<Rightarrow> live_store \<Rightarrow> live_store" where
  "applyEvent ready correlationId dateKey scopes next rank st =
     (if \<not> ready \<or> scopes = [] then st
      else APPLY_EVENT (markerKey correlationId) (map (counterKey dateKey) scopes) next rank st)"

definition reseedScope :: "bool \<Rightarrow> string \<Rightarrow> string \<Rightarrow> live_vector \<Rightarrow> live_store \<Rightarrow> live_store" where
  "reseedScope ready dateKey scope totals st =
     (if \<not> ready then st
      else st\<lparr>lv_counters := AList.update (counterKey dateKey scope) (map (\<lambda>(name, get). (name, get totals)) LIVE_FIELD)
        (lv_counters st)\<rparr>)"

definition readScope :: "bool \<Rightarrow> string \<Rightarrow> string \<Rightarrow> live_store \<Rightarrow> live_vector" where
  "readScope ready dateKey scope st =
     (if \<not> ready then LIVE_VECTOR_ZERO else vectorFromHash (counter_hash st (counterKey dateKey scope)))"

text \<open>An event of the writer: what the replica answers for a transaction.  The text of a date is a parameter.\<close>

definition onTransactionEvent :: "(int \<Rightarrow> string) \<Rightarrow> bool \<Rightarrow> string \<Rightarrow> live_record option \<Rightarrow> live_store \<Rightarrow> live_store" where
  "onTransactionEvent dateKey ready correlationId found st = (case found of
     None \<Rightarrow> st
   | Some r \<Rightarrow> applyEvent ready correlationId (dateKey (li_startedAt r)) (scopesFor (li_payer r) (li_payee r)) (classify r)
       (li_updatedAt r) st)"

section \<open>Reconciliation\<close>

definition getLiveTotals :: "(string \<Rightarrow> string) \<Rightarrow> string option \<Rightarrow> int \<Rightarrow> int \<Rightarrow> rollup_table \<Rightarrow> live_vector" where
  "getLiveTotals co scope from to table =
     (let rows = filter (\<lambda>r. hour_in from to r \<and> scopeClause co scope (ru_payer r) (ru_payee r)) (map fst table);
          total_of = (\<lambda>h. int (sum_list (map h rows)))
      in LiveVector (total_of ru_txn) (sum_list (map (\<lambda>r. int (ru_txn r) - int (ru_error r)) rows)) (total_of ru_error)
           (total_of ru_dispute) (total_of ru_partiesError) (total_of ru_quotesError) (total_of ru_transfersError)
           (total_of ru_patchError) (total_of ru_latencyCount)
           (latency_or_zero (sql_sum (map ru_sumLatency rows))))"

text \<open>\<open>UNION\<close> keeps one spelling of an FSP.\<close>

definition getActiveFsps :: "(string \<Rightarrow> string) \<Rightarrow> int \<Rightarrow> int \<Rightarrow> rollup_table \<Rightarrow> string list" where
  "getActiveFsps co from to table =
     (let rows = filter (hour_in from to) (map fst table)
      in map hd (group_rows co (map ru_payer rows @ map ru_payee rows)))"

definition reconcileLive :: "(string \<Rightarrow> string) \<Rightarrow> (int \<Rightarrow> string) \<Rightarrow> bool \<Rightarrow> int \<Rightarrow> rollup_table \<Rightarrow> live_store \<Rightarrow> live_store" where
  "reconcileLive co dateKey ready now table st =
     (let todayStart = now div (24 * hourMs) * (24 * hourMs);
          to = hour_of now + hourMs;
          key = dateKey todayStart
      in fold (\<lambda>fsp. reseedScope ready key (fspScope fsp) (getLiveTotals co (Some fsp) todayStart to table))
           (getActiveFsps co todayStart to table)
           (reseedScope ready key hubScope (getLiveTotals co None todayStart to table) st))"

section \<open>Counters and markers\<close>

lemma zero_vector [simp]: "LIVE_VECTOR_ZERO = 0"
  by (simp add: zero_live_vector_def)

lemma vector_0: "(0 :: live_vector) = LiveVector 0 0 0 0 0 0 0 0 0 0"
  unfolding zero_live_vector_def LIVE_VECTOR_ZERO_def ..

lemma hash_get_hincrby: "hash_get (hincrby f d h) f' = hash_get h f' + (if f' = f then d else 0)"
  by (simp add: hash_get_def hincrby_def update_conv')

lemma vector_fold_hincrby:
  "vectorFromHash (fold (\<lambda>(name, get). hincrby name (get next - get prev)) LIVE_FIELD h) = vectorFromHash h + (next - prev)"
  by (cases "next"; cases prev) (simp add: LIVE_FIELD_def vectorFromHash_def hash_get_hincrby minus_live_vector_def)

definition counter_value :: "live_store \<Rightarrow> string \<Rightarrow> live_vector" where
  "counter_value st key = vectorFromHash (counter_hash st key)"

lemma value_incr:
  "counter_value (incr_counter prev next key st) key' = counter_value st key' + (if key' = key then next - prev else 0)"
  by (simp add: counter_value_def incr_counter_def counter_hash_def update_conv' vector_fold_hincrby)

lemma value_fold_incr:
  "distinct keys \<Longrightarrow> counter_value (fold (incr_counter prev next) keys st) key =
    counter_value st key + (if key \<in> set keys then next - prev else 0)"
  by (induction keys arbitrary: st) (auto simp: value_incr)

lemma markers_fold_incr [simp]: "lv_markers (fold (incr_counter prev next) keys st) = lv_markers st"
  by (induction keys arbitrary: st) (simp_all add: incr_counter_def)

lemma counterKey_inj:
  assumes "length d = length d'"
  shows "counterKey d s = counterKey d' s' \<longleftrightarrow> d = d' \<and> s = s'"
  using assms by (auto simp: counterKey_def)

text \<open>A counter and a marker never share a key: a date starts with a digit or a sign.\<close>

lemma keys_disjoint: "d \<noteq> [] \<Longrightarrow> hd d \<noteq> CHR ''c'' \<Longrightarrow> counterKey d s \<noteq> markerKey i"
  by (cases d) (simp_all add: counterKey_def markerKey_def)

lemma markerKey_inj [simp]: "markerKey i = markerKey j \<longleftrightarrow> i = j"
  by (simp add: markerKey_def)

lemma scopes_distinct [simp]: "distinct (scopesFor p q)" "scopesFor p q \<noteq> []"
  by (auto simp: scopesFor_def fspScope_def hubScope_def)

definition marker_vector :: "live_store \<Rightarrow> string \<Rightarrow> live_vector" where
  "marker_vector st i = (case map_of (lv_markers st) (markerKey i) of Some (v, _) \<Rightarrow> v | None \<Rightarrow> 0)"

text \<open>The part of the transactions \<open>ids\<close> in a counter; \<open>home\<close> gives the day and the scopes of a transaction.\<close>

definition counted :: "(string \<Rightarrow> string \<times> string list) \<Rightarrow> string \<Rightarrow> string \<Rightarrow> (string \<Rightarrow> live_vector) \<Rightarrow> string list \<Rightarrow> live_vector" where
  "counted home d s vector ids = sum_list (map (\<lambda>i. if fst (home i) = d \<and> s \<in> set (snd (home i)) then vector i else 0) ids)"

lemma counted_update:
  "distinct ids \<Longrightarrow> i \<in> set ids \<Longrightarrow> (\<And>j. j \<noteq> i \<Longrightarrow> v' j = v j) \<Longrightarrow>
    counted home d s v' ids = counted home d s v ids + (if fst (home i) = d \<and> s \<in> set (snd (home i)) then v' i - v i else 0)"
proof (induction ids)
  case (Cons j ids)
  show ?case
  proof (cases "j = i")
    case True
    then have "counted home d s v' ids = counted home d s v ids"
    proof -
      have "v' x = v x" if "x \<in> set ids" for x using Cons.prems(3)[of x] Cons.prems(1) True that by fastforce
      then show ?thesis unfolding counted_def by (intro arg_cong[of _ _ sum_list] map_cong) auto
    qed
    then show ?thesis using True by (simp add: counted_def)
  next
    case False
    then show ?thesis using Cons by (simp add: counted_def algebra_simps)
  qed
qed simp

text \<open>One event moves a counter exactly as it moves the marker of its transaction.\<close>

lemma event_moves:
  assumes "(dateKey (li_startedAt r), scopesFor (li_payer r) (li_payee r)) = home i" "distinct ids" "i \<in> set ids"
    "length d = length (dateKey (li_startedAt r))"
  shows "counter_value (onTransactionEvent dateKey True i (Some r) st) (counterKey d s) - counter_value st (counterKey d s) =
    counted home d s (marker_vector (onTransactionEvent dateKey True i (Some r) st)) ids - counted home d s (marker_vector st) ids"
proof -
  let ?st = "onTransactionEvent dateKey True i (Some r) st" and ?keys = "map (counterKey (dateKey (li_startedAt r))) (scopesFor (li_payer r) (li_payee r))"
  have st: "?st = APPLY_EVENT (markerKey i) ?keys (classify r) (li_updatedAt r) st"
    by (simp add: onTransactionEvent_def applyEvent_def)
  show ?thesis
  proof (cases "case map_of (lv_markers st) (markerKey i) of Some (_, rank) \<Rightarrow> li_updatedAt r < rank | None \<Rightarrow> False")
    case True
    then show ?thesis by (simp add: st APPLY_EVENT_def)
  next
    case False
    have keys: "distinct ?keys" by (simp add: distinct_map inj_on_def counterKey_inj)
    have mem: "counterKey d s \<in> set ?keys \<longleftrightarrow> fst (home i) = d \<and> s \<in> set (snd (home i))"
      using assms(4) by (auto simp: counterKey_inj simp flip: assms(1))
    have prev: "(case map_of (lv_markers st) (markerKey i) of Some (v, _) \<Rightarrow> v | None \<Rightarrow> LIVE_VECTOR_ZERO) = marker_vector st i"
      unfolding marker_vector_def zero_vector ..
    have moved: "?st = (fold (incr_counter (marker_vector st i) (classify r)) ?keys st)
        \<lparr>lv_markers := AList.update (markerKey i) (classify r, li_updatedAt r) (lv_markers st)\<rparr>"
      using False unfolding st APPLY_EVENT_def Let_def prev by simp
    have val: "counter_value ?st (counterKey d s) = counter_value st (counterKey d s) +
        (if counterKey d s \<in> set ?keys then classify r - marker_vector st i else 0)"
      using value_fold_incr[OF keys, of "marker_vector st i" "classify r" st "counterKey d s"]
      unfolding moved counter_value_def counter_hash_def by simp
    have marker: "marker_vector ?st j = (if j = i then classify r else marker_vector st j)" for j
      unfolding moved marker_vector_def by (simp add: update_conv')
    have "counted home d s (marker_vector ?st) ids = counted home d s (marker_vector st) ids +
        (if fst (home i) = d \<and> s \<in> set (snd (home i)) then marker_vector ?st i - marker_vector st i else 0)"
      by (rule counted_update[OF assms(2,3)]) (simp add: marker)
    then show ?thesis unfolding val mem by (simp add: marker)
  qed
qed
definition live_events :: "(int \<Rightarrow> string) \<Rightarrow> (string \<times> live_record) list \<Rightarrow> live_store \<Rightarrow> live_store" where
  "live_events dateKey evs st = fold (\<lambda>(i, r). onTransactionEvent dateKey True i (Some r)) evs st"

definition no_counters :: live_store where
  "no_counters = \<lparr>lv_counters = [], lv_markers = []\<rparr>"

text \<open>Of the states of a transaction that were read, the one with the greatest time of update, the last one of these.\<close>

definition later_record :: "live_record \<Rightarrow> live_record option \<Rightarrow> live_record option" where
  "later_record r cur = (case cur of
     Some r' \<Rightarrow> if li_updatedAt r < li_updatedAt r' then cur else Some r
   | None \<Rightarrow> Some r)"

definition latest :: "(string \<times> live_record) list \<Rightarrow> string \<Rightarrow> live_record option" where
  "latest evs i = fold (\<lambda>(j, r) cur. if j = i then later_record r cur else cur) evs None"

definition latest_vector :: "(string \<times> live_record) list \<Rightarrow> string \<Rightarrow> live_vector" where
  "latest_vector evs i = (case latest evs i of Some r \<Rightarrow> classify r | None \<Rightarrow> 0)"

text \<open>The place of the events: the day and the scopes of each transaction stay the same.\<close>

definition placed :: "(int \<Rightarrow> string) \<Rightarrow> (string \<Rightarrow> string \<times> string list) \<Rightarrow> (string \<times> live_record) list \<Rightarrow> bool" where
  "placed dateKey home evs = list_all (\<lambda>(i, r). (dateKey (li_startedAt r), scopesFor (li_payer r) (li_payee r)) = home i \<and>
     length (dateKey (li_startedAt r)) = 10) evs"

lemma drift_trans: "a - b = c - d \<Longrightarrow> e - a = f - c \<Longrightarrow> e - b = f - (d :: 'a::ab_group_add)"
  by (metis add_diff_cancel_left' diff_add_cancel diff_add_eq)

lemma live_drift:
  assumes "placed dateKey home evs" "distinct ids" "set (map fst evs) \<subseteq> set ids" "length d = 10"
  shows "counter_value (live_events dateKey evs st) (counterKey d s) - counter_value st (counterKey d s) =
    counted home d s (marker_vector (live_events dateKey evs st)) ids - counted home d s (marker_vector st) ids"
  using assms(1,3)
proof (induction evs arbitrary: st)
  case (Cons ev evs)
  obtain i r where ev: "ev = (i, r)" by (cases ev)
  let ?st = "onTransactionEvent dateKey True i (Some r) st"
  have "counter_value ?st (counterKey d s) - counter_value st (counterKey d s) =
      counted home d s (marker_vector ?st) ids - counted home d s (marker_vector st) ids"
    using Cons.prems assms(4) by (intro event_moves assms(2)) (simp_all add: ev placed_def)
  moreover have "counter_value (live_events dateKey evs ?st) (counterKey d s) - counter_value ?st (counterKey d s) =
      counted home d s (marker_vector (live_events dateKey evs ?st)) ids - counted home d s (marker_vector ?st) ids"
    using Cons.prems by (intro Cons.IH) (simp_all add: placed_def)
  ultimately have "counter_value (live_events dateKey evs ?st) (counterKey d s) - counter_value st (counterKey d s) =
      counted home d s (marker_vector (live_events dateKey evs ?st)) ids - counted home d s (marker_vector st) ids"
    by (rule drift_trans)
  then show ?case by (simp add: live_events_def ev)
qed (simp add: live_events_def)

lemma marker_after:
  assumes "map_of (lv_markers st) (markerKey i) = map_option (\<lambda>r. (classify r, li_updatedAt r)) cur"
  shows "map_of (lv_markers (live_events dateKey evs st)) (markerKey i) =
    map_option (\<lambda>r. (classify r, li_updatedAt r)) (fold (\<lambda>(j, r) cur. if j = i then later_record r cur else cur) evs cur)"
  using assms
proof (induction evs arbitrary: st cur)
  case (Cons ev evs)
  obtain j r where ev: "ev = (j, r)" by (cases ev)
  have "map_of (lv_markers (onTransactionEvent dateKey True j (Some r) st)) (markerKey i) =
      map_option (\<lambda>r. (classify r, li_updatedAt r)) (if j = i then later_record r cur else cur)"
    using Cons.prems
    by (cases cur) (auto simp: onTransactionEvent_def applyEvent_def APPLY_EVENT_def Let_def later_record_def update_conv' split: option.splits)
  from Cons.IH[OF this] show ?case by (simp add: live_events_def ev)
qed (simp add: live_events_def)


definition demo_event :: "int \<Rightarrow> bool \<Rightarrow> live_record" where
  "demo_event t bad = \<lparr>li_payer = ''a'', li_payee = ''b'', li_startedAt = 0, li_updatedAt = t, li_error = bad, li_dispute = bad,
     li_partiesError = False, li_quotesError = False, li_transfersError = False, li_patchError = bad, li_latency = Some 7\<rparr>"


section \<open>Totals from the rollup\<close>

lemma sum_vectors:
  "sum_list (map (\<lambda>x. LiveVector (a x) (b x) (c x) (d x) (e x) (f x) (g x) (h x) (i x) (j x)) xs) =
    LiveVector (sum_list (map a xs)) (sum_list (map b xs)) (sum_list (map c xs)) (sum_list (map d xs)) (sum_list (map e xs))
      (sum_list (map f xs)) (sum_list (map g xs)) (sum_list (map h xs)) (sum_list (map i xs)) (sum_list (map j xs))"
  by (induction xs) (simp_all add: vector_0)

lemma fullStart_aligned: "hour_of x = x \<Longrightarrow> fullStart x = x"
  using fullStart_least[of x x] full_hours(3)[of x] by simp

lemma totals_exact:
  assumes "fresh co from to db table" "hour_of from = from" "hour_of to = to" "from < to"
  shows "getLiveTotals co scope from to table =
    sum_list (map (\<lambda>t. classify (live_record_of t)) (range_rows co (scope, None, None) from to db))"
proof -
  let ?T = "range_rows co (scope, None, None) from to db"
  let ?rows = "filter (\<lambda>r. hour_in from to r \<and> scopeClause co scope (ru_payer r) (ru_payee r)) (map fst table)"
  have aligned: "fullStart from = from" "fullEnd to = to" using assms(2,3) by (simp_all add: fullStart_aligned full_hours(5))
  have rows: "rangeSource co (scope, None, None) from to db table = ?rows"
    using assms(4) by (simp add: rangeSource_def aligned edges_def selected_def participantFilterClause_def asked_def)
  have fresh: "range_fresh co from to db table" using assms(1) by (simp add: range_fresh_def aligned)
  note le = order.strict_implies_order[OF assms(4)]
  note counts = range_counts[OF le fresh, of "(scope, None, None)", unfolded rows]
  have success: "sum_list (map (\<lambda>r. int (ru_txn r) - int (ru_error r)) ?rows) = sum_list (map (\<lambda>t. of_bool (\<not> tx_error t)) ?T)"
  proof -
    have diff: "sum_list (map (\<lambda>r. int (ru_txn r) - int (ru_error r)) xs) = int (sum_list (map ru_txn xs)) - int (sum_list (map ru_error xs))" for xs
      by (induction xs) simp_all
    have ok: "sum_list (map (\<lambda>t. of_bool (\<not> tx_error t)) ts) = int (length ts) - int (count_of tx_error ts)" for ts
      by (induction ts) (simp_all add: count_of_def)
    show ?thesis unfolding diff ok counts(1,2) ..
  qed
  have latency: "latency_or_zero (sql_sum (map ru_sumLatency ?rows)) = sum_list (map (\<lambda>t. latency_or_zero (tx_latency t)) ?T)"
    using latencies.range_total[OF le fresh, of "(scope, None, None)", unfolded rows] by (simp add: sql_sum_or_zero comp_def)
  have len: "sum_list (map (\<lambda>t. 1) ?T) = int (length ?T)" by (simp add: sum_list_triv)
  show ?thesis
    unfolding getLiveTotals_def Let_def counts success latency
    by (simp add: classify_def live_record_of_def sum_vectors len count_sum tx_latency_def del: not_None_eq)
qed
lemma value_reseed:
  "counter_value (reseedScope True d scope totals st) key = (if key = counterKey d scope then totals else counter_value st key)"
proof -
  have "vectorFromHash (map (\<lambda>(name, get). (name, get totals)) LIVE_FIELD) = totals"
    by (cases totals) (simp add: LIVE_FIELD_def vectorFromHash_def hash_get_def)
  then show ?thesis by (simp add: reseedScope_def counter_value_def counter_hash_def update_conv')
qed

lemma value_fold_reseed:
  "counter_value (fold (\<lambda>f. reseedScope True d (fspScope f) (totals f)) fs st) key =
    (case find (\<lambda>f. key = counterKey d (fspScope f)) (rev fs) of Some f \<Rightarrow> totals f | None \<Rightarrow> counter_value st key)"
proof (induction fs arbitrary: st)
  case (Cons f fs)
  have "find P (xs @ [f]) = (case find P xs of Some y \<Rightarrow> Some y | None \<Rightarrow> if P f then Some f else None)" for P xs
    by (induction xs) auto
  then show ?case using Cons by (simp add: value_reseed split: option.splits)
qed simp

lemma active_fsps:
  assumes "r \<in> set (map fst table)" "hour_in from to r"
  shows "\<exists>f\<in>set (getActiveFsps co from to table). co f = co (ru_payer r)" "\<exists>f\<in>set (getActiveFsps co from to table). co f = co (ru_payee r)"
proof -
  let ?rows = "filter (hour_in from to) (map fst table)"
  have heads: "map co (getActiveFsps co from to table) = remdups (map co (map ru_payer ?rows @ map ru_payee ?rows))"
    unfolding getActiveFsps_def Let_def map_map comp_def group_heads ..
  have "co (ru_payer r) \<in> set (map co (getActiveFsps co from to table))" "co (ru_payee r) \<in> set (map co (getActiveFsps co from to table))"
    unfolding heads using assms by auto
  then show "\<exists>f\<in>set (getActiveFsps co from to table). co f = co (ru_payer r)" "\<exists>f\<in>set (getActiveFsps co from to table). co f = co (ru_payee r)"
    by force+
qed

text \<open>
  C37: reconciliation makes the live counters of today exact.  When the rollup of today is fresh, the counters of the
  Hub and of every FSP that takes part in a transaction of today become the sums over the transactions that
  started today and that the scope may see, whatever the counters held before.
\<close>

theorem reconciled_live_exact:
  fixes now :: int
  defines "today \<equiv> now div (24 * hourMs) * (24 * hourMs)" and "to \<equiv> hour_of now + hourMs"
  assumes "fresh co today to db table"
  shows "let st' = reconcileLive co dateKey True now table st;
      sum_of = (\<lambda>scope. sum_list (map (\<lambda>t. classify (live_record_of t)) (range_rows co (scope, None, None) today to db)))
    in readScope True (dateKey today) hubScope st' = sum_of None \<and>
       list_all (\<lambda>f. readScope True (dateKey today) (fspScope f) st' = sum_of (Some f)) (getActiveFsps co today to table) \<and>
       list_all (\<lambda>t. list_ex (\<lambda>f. co f = co (id_fsp (tx_payer t))) (getActiveFsps co today to table) \<and>
         list_ex (\<lambda>f. co f = co (id_fsp (tx_payee t))) (getActiveFsps co today to table)) (range_rows co (None, None, None) today to db)"
proof -
  have aligned: "hour_of today = today" "hour_of to = to"
  proof -
    have "today = (now div (24 * hourMs) * 24) * hourMs" by (simp add: today_def)
    then show "hour_of today = today" unfolding hour_of_def by (metis hourMs_pos(2) nonzero_mult_div_cancel_right)
  qed (simp add: to_def)
  have "now div (24 * hourMs) * (24 * hourMs) \<le> now" using pos_mod_sign[of "24 * hourMs" now] by (simp flip: minus_mod_eq_div_mult)
  then have "today < to" using hour_of_bounds(2)[of now] by (simp add: today_def to_def)
  note totals = totals_exact[OF assms(3) aligned this]
  let ?fs = "getActiveFsps co today to table" and ?key = "counterKey (dateKey today)"
  let ?st = "reconcileLive co dateKey True now table st"
  have st: "counter_value ?st key = (case find (\<lambda>f. key = ?key (fspScope f)) (rev ?fs) of
      Some f \<Rightarrow> getLiveTotals co (Some f) today to table
    | None \<Rightarrow> if key = ?key hubScope then getLiveTotals co None today to table else counter_value st key)" for key
    unfolding reconcileLive_def Let_def today_def[symmetric] to_def[symmetric] value_fold_reseed value_reseed ..
  have "find (\<lambda>f. ?key hubScope = ?key (fspScope f)) (rev ?fs) = None"
    by (simp add: find_None_iff counterKey_inj hubScope_def fspScope_def)
  then have hub: "counter_value ?st (?key hubScope) = getLiveTotals co None today to table" by (simp add: st)
  have fsp: "counter_value ?st (?key (fspScope f)) = getLiveTotals co (Some f) today to table" if "f \<in> set ?fs" for f
  proof -
    have same: "?key (fspScope f) = ?key (fspScope g) \<longleftrightarrow> f = g" for g by (simp add: counterKey_inj fspScope_def)
    have "find (\<lambda>g. ?key (fspScope f) = ?key (fspScope g)) (rev ?fs) = Some f"
    proof (cases "find (\<lambda>g. ?key (fspScope f) = ?key (fspScope g)) (rev ?fs)")
      case None
      then show ?thesis using that by (auto simp: find_None_iff)
    next
      case (Some g)
      then show ?thesis using find_SomeD[OF Some] same by simp
    qed
    then show ?thesis unfolding st by simp
  qed
  have seen: "\<exists>r\<in>set (map fst table). hour_in today to r \<and> co (ru_payer r) = co (id_fsp (tx_payer t)) \<and> co (ru_payee r) = co (id_fsp (tx_payee t))"
    if "t \<in> set (range_rows co (None, None, None) today to db)" for t
  proof -
    let ?xs = "filter (started_in today to) (db_rows db)" and ?k = "group_key co"
    have "t \<in> set ?xs" using that by (simp add: range_rows_def)
    then have g: "filter (\<lambda>y. ?k y = ?k t) ?xs \<in> set (group_rows ?k ?xs)" "t \<in> set (filter (\<lambda>y. ?k y = ?k t) ?xs)"
      by (auto simp: group_rows_def)
    let ?b = "bucket_of co (filter (\<lambda>y. ?k y = ?k t) ?xs)"
    have "same_group co (filter (\<lambda>y. ?k y = ?k t) ?xs)" unfolding same_group_def using group_rows_mem(1,2)[OF g(1)] by blast
    from same_group_co(1,2)[OF this g(2)] have "co (ru_payer ?b) = co (id_fsp (tx_payer t))" "co (ru_payee ?b) = co (id_fsp (tx_payee t))"
      by (simp_all add: bucket_of_def)
    moreover have "?b \<in> set (aggregateWindow co today to db)" unfolding aggregateWindow_def using g(1) by simp
    then have "?b \<in> set (filter (hour_in today to) (map fst table))" using assms(3) unfolding fresh_def by (metis set_mset_mset)
    then have "?b \<in> set (map fst table) \<and> hour_in today to ?b" by (simp only: set_filter mem_Collect_eq)
    ultimately show ?thesis by blast
  qed
  have active: "list_ex (\<lambda>f. co f = co (id_fsp (tx_payer t))) ?fs \<and> list_ex (\<lambda>f. co f = co (id_fsp (tx_payee t))) ?fs"
    if "t \<in> set (range_rows co (None, None, None) today to db)" for t
  proof -
    from seen[OF that] obtain r where r: "r \<in> set (map fst table)" "hour_in today to r"
        "co (ru_payer r) = co (id_fsp (tx_payer t))" "co (ru_payee r) = co (id_fsp (tx_payee t))" by blast
    show ?thesis using active_fsps[OF r(1,2), of co] unfolding list_ex_iff r(3,4) by blast
  qed
  have "readScope True (dateKey today) hubScope ?st = sum_list (map (\<lambda>t. classify (live_record_of t)) (range_rows co (None, None, None) today to db))"
    using hub unfolding totals readScope_def counter_value_def by simp
  moreover have "list_all (\<lambda>f. readScope True (dateKey today) (fspScope f) ?st =
      sum_list (map (\<lambda>t. classify (live_record_of t)) (range_rows co (Some f, None, None) today to db))) ?fs"
    unfolding list_all_iff using fsp unfolding totals readScope_def counter_value_def by simp
  ultimately show ?thesis using active by (simp add: Let_def list_all_iff)
qed
definition demo_today :: rollup_table where
  "demo_today = (case reaggregateWindow (\<lambda>s. s) 0 10800000 9 demo_audit [] of Some table \<Rightarrow> table | None \<Rightarrow> [])"

theorem reconciled_live_exact_witness:
  "readScope True ''1970-01-01'' hubScope (reconcileLive (\<lambda>s. s) (\<lambda>_. ''1970-01-01'') True 7300000 demo_today no_counters) =
   LiveVector 4 4 0 0 0 0 0 0 4 20"
proof -
  have w: "hour_of 0 = 0" "hour_of 10800000 = 10800000" "hour_of 7300000 + hourMs = 10800000" "7300000 div (24 * hourMs) * (24 * hourMs) = 0"
    by (simp_all add: hour_of_def hourMs_def)
  have "case reaggregateWindow (\<lambda>s. s) 0 10800000 9 demo_audit [] of None \<Rightarrow> False | Some _ \<Rightarrow> True" by code_simp
  then obtain table where t: "reaggregateWindow (\<lambda>s. s) 0 10800000 9 demo_audit [] = Some table" by (auto split: option.splits)
  have fresh: "fresh (\<lambda>s. s) (7300000 div (24 * hourMs) * (24 * hourMs)) (hour_of 7300000 + hourMs) demo_audit demo_today"
    unfolding w(3,4) using replace_fresh(1)[OF t w(1,2)] by (simp add: demo_today_def t)
  have sum: "sum_list (map (\<lambda>t. classify (live_record_of t)) (range_rows (\<lambda>s. s) (None, None, None) 0 10800000 demo_audit)) =
      LiveVector 4 4 0 0 0 0 0 0 4 20" by code_simp
  show ?thesis
    using reconciled_live_exact[OF fresh, of "\<lambda>_. ''1970-01-01''" no_counters]
    unfolding Let_def w sum by blast
qed

end
