(* ===== verification/Rollup_Scheduler.thy ===== *)
theory Rollup_Scheduler
  imports Dashboard Live_Stats
begin

text \<open>
  The job that keeps the rollup fresh: \<open>transaction-rollup.scheduler.ts\<close> with its lock \<open>rollup-lock.ts\<close>.  The lock is one
  key of Redis with a token and a time of expiry.  A cycle runs as one step while it holds the lock; what the replica
  and Redis answer in the cycle is its input.
\<close>

section \<open>The lock\<close>

type_synonym lock = "(string \<times> int) option"

definition held :: "int \<Rightarrow> lock \<Rightarrow> bool" where
  "held now l = (case l of Some (_, expires) \<Rightarrow> now < expires | None \<Rightarrow> False)"

text \<open>One attempt: Redis cannot be reached, or it answers \<open>SET NX PX\<close> at a time for a fresh token.\<close>

datatype attempt = Unreachable | Reached int string

fun acquire :: "nat \<Rightarrow> attempt list \<Rightarrow> int \<Rightarrow> lock \<Rightarrow> string option \<times> lock" where
  "acquire (Suc left) (Unreachable # as) ttlMs l = acquire left as ttlMs l"
| "acquire (Suc left) (Reached now token # as) ttlMs l =
     (if held now l then (None, l) else (Some token, Some (token, now + ttlMs)))"
| "acquire _ _ ttlMs l = (None, l)"

definition release :: "bool \<Rightarrow> string \<Rightarrow> int \<Rightarrow> lock \<Rightarrow> lock" where
  "release reached token now l =
     (if reached then (case l of Some (t, expires) \<Rightarrow> if now < expires \<and> t = token then None else l | None \<Rightarrow> None) else l)"

definition DEFAULT_MAX_ATTEMPTS :: nat where "DEFAULT_MAX_ATTEMPTS = 3"

section \<open>The scheduler\<close>

definition WINDOW_MS :: int where "WINDOW_MS = 3 * hourMs"
definition LOCK_TTL_BUFFER_MS :: int where "LOCK_TTL_BUFFER_MS = 10000"
definition BACKFILL_DAYS :: nat where "BACKFILL_DAYS = 30"
definition BACKFILL_LOCK_TTL_MS :: int where "BACKFILL_LOCK_TTL_MS = 5 * 60 * 1000"

text \<open>The constructor refuses an interval that is too long.\<close>

definition new_scheduler :: "int \<Rightarrow> string + int" where
  "new_scheduler intervalMs =
     (if intervalMs > WINDOW_MS - hourMs then Inl ''TRANSACTION_ROLLUP_INTERVAL_SECONDS too large'' else Inr intervalMs)"

definition computeWindow :: "int \<Rightarrow> int \<times> int" where
  "computeWindow now = (let windowEnd = hour_of now + hourMs in (windowEnd - WINDOW_MS, windowEnd))"

record rollup_state =
  rs_table :: rollup_table
  rs_live :: live_store
  rs_lock :: lock
  rs_backfillRequired :: bool

record cycle =
  cy_attempts :: "attempt list"
  cy_now :: int
  cy_db :: audit_db
  cy_ready :: bool
  cy_released :: bool
  cy_end :: int

text \<open>An error of the refresh is caught: nothing is written and the counters stay.\<close>

definition tick :: "(string \<Rightarrow> string) \<Rightarrow> (int \<Rightarrow> string) \<Rightarrow> int \<Rightarrow> cycle \<Rightarrow> rollup_state \<Rightarrow> rollup_state" where
  "tick co dateKey intervalMs c s =
     (case acquire DEFAULT_MAX_ATTEMPTS (cy_attempts c) (max (intervalMs - LOCK_TTL_BUFFER_MS) 1000) (rs_lock s) of
        (None, l) \<Rightarrow> s\<lparr>rs_lock := l\<rparr>
      | (Some token, l) \<Rightarrow>
          let (windowStart, windowEnd) = computeWindow (cy_now c);
              s' = (case reaggregateWindow co windowStart windowEnd (cy_now c) (cy_db c) (rs_table s) of
                  None \<Rightarrow> s
                | Some table \<Rightarrow> s\<lparr>rs_table := table,
                    rs_live := reconcileLive co dateKey (cy_ready c) (cy_now c) table (rs_live s)\<rparr>)
          in s'\<lparr>rs_lock := release (cy_released c) token (cy_end c) l\<rparr>)"

text \<open>The days of the backfill, the oldest first; an error ends it.\<close>

fun backfill_days :: "(string \<Rightarrow> string) \<Rightarrow> int \<Rightarrow> int \<Rightarrow> audit_db \<Rightarrow> nat \<Rightarrow> rollup_table \<Rightarrow> bool \<times> rollup_table" where
  "backfill_days co todayStart now db 0 table = (True, table)"
| "backfill_days co todayStart now db (Suc day) table =
     (case reaggregateWindow co (todayStart - int day * dayMs) (todayStart - (int day - 1) * dayMs) now db table of
        None \<Rightarrow> (False, table)
      | Some table' \<Rightarrow> backfill_days co todayStart now db day table')"

definition backfillIfRequired :: "(string \<Rightarrow> string) \<Rightarrow> (int \<Rightarrow> string) \<Rightarrow> cycle \<Rightarrow> rollup_state \<Rightarrow> rollup_state" where
  "backfillIfRequired co dateKey c s =
     (case acquire DEFAULT_MAX_ATTEMPTS (cy_attempts c) BACKFILL_LOCK_TTL_MS (rs_lock s) of
        (None, l) \<Rightarrow> s\<lparr>rs_lock := l\<rparr>
      | (Some token, l) \<Rightarrow>
          let s' = (if \<not> rs_backfillRequired s \<and> getLastUpdatedAt (rs_table s) \<noteq> None then s
            else (let todayStart = cy_now c div dayMs * dayMs;
                      (complete, table) = backfill_days co todayStart (cy_now c) (cy_db c) BACKFILL_DAYS (rs_table s)
                  in if complete
                     then s\<lparr>rs_table := table, rs_live := reconcileLive co dateKey (cy_ready c) (cy_now c) table (rs_live s),
                       rs_backfillRequired := False\<rparr>
                     else s\<lparr>rs_table := table\<rparr>))
          in s'\<lparr>rs_lock := release (cy_released c) token (cy_end c) l\<rparr>)"

section \<open>Hours that have closed\<close>

definition tick_table :: "(string \<Rightarrow> string) \<Rightarrow> int \<times> audit_db \<Rightarrow> rollup_table \<Rightarrow> rollup_table" where
  "tick_table co c table = (case c of (now, db) \<Rightarrow>
     (case reaggregateWindow co (fst (computeWindow now)) (snd (computeWindow now)) now db table of
        None \<Rightarrow> table | Some table' \<Rightarrow> table'))"

lemma tick_table_tick:
  "\<exists>b. rs_table (tick co dateKey intervalMs c s) = (if b then tick_table co (cy_now c, cy_db c) (rs_table s) else rs_table s)"
proof (cases "acquire DEFAULT_MAX_ATTEMPTS (cy_attempts c) (max (intervalMs - LOCK_TTL_BUFFER_MS) 1000) (rs_lock s)")
  case (Pair found l)
  then show ?thesis
    by (cases found) (auto simp: tick_def tick_table_def computeWindow_def Let_def split: option.splits intro: exI[of _ False] exI[of _ True])
qed

text \<open>Cycles that follow each other within the interval.\<close>

fun steady :: "int \<Rightarrow> (int \<times> audit_db) list \<Rightarrow> bool" where
  "steady intervalMs ((t, db) # (t', db') # cs) \<longleftrightarrow> t \<le> t' \<and> t' \<le> t + intervalMs \<and> steady intervalMs ((t', db') # cs)"
| "steady intervalMs _ \<longleftrightarrow> True"

definition run_ticks :: "(string \<Rightarrow> string) \<Rightarrow> (int \<times> audit_db) list \<Rightarrow> rollup_table \<Rightarrow> rollup_table" where
  "run_ticks co cs table = fold (tick_table co) cs table"

text \<open>The transactions of the window of a cycle have no use case that the query confuses with a missing one.\<close>

definition clear_window :: "(string \<Rightarrow> string) \<Rightarrow> int \<times> audit_db \<Rightarrow> bool" where
  "clear_window co c = (case c of (now, db) \<Rightarrow>
     list_all (\<lambda>t. \<not> confused co t) (filter (started_in (fst (computeWindow now)) (snd (computeWindow now))) (db_rows db)))"

lemma window_aligned: "hour_of (fst (computeWindow now)) = fst (computeWindow now)" "hour_of (snd (computeWindow now)) = snd (computeWindow now)"
proof -
  have "fst (computeWindow now) = (now div hourMs - 2) * hourMs" by (simp add: computeWindow_def WINDOW_MS_def hour_of_def algebra_simps)
  then show "hour_of (fst (computeWindow now)) = fst (computeWindow now)" unfolding hour_of_def by simp
qed (simp add: computeWindow_def Let_def)

lemma hour_of_plus: "hour_of (t + k * hourMs) = hour_of t + k * hourMs"
  by (simp add: hour_of_def distrib_right)

lemma window_covers:
  assumes "hour_of h = h"
  shows "h + hourMs \<le> now \<Longrightarrow> h + hourMs \<le> snd (computeWindow now)" "now < h + 3 * hourMs \<Longrightarrow> fst (computeWindow now) \<le> h"
proof -
  show "h + hourMs \<le> now \<Longrightarrow> h + hourMs \<le> snd (computeWindow now)"
    using hour_of_bounds(2)[of now] by (simp add: computeWindow_def Let_def)
  assume now: "now < h + 3 * hourMs"
  have "hour_of (h + 3 * hourMs) = h + 3 * hourMs" using assms by (simp add: hour_of_plus)
  then have less: "hour_of now < h + 3 * hourMs" using hour_of_less now by blast
  have h: "h = (h div hourMs) * hourMs" using assms by (simp add: hour_of_def)
  have "(now div hourMs) * hourMs < (h div hourMs + 3) * hourMs"
    using less h by (simp add: hour_of_def distrib_right)
  then have "now div hourMs \<le> h div hourMs + 2" by (simp add: mult_less_cancel_right_pos)
  then have "hour_of now \<le> (h div hourMs + 2) * hourMs" unfolding hour_of_def by (simp add: mult_right_mono)
  then have "hour_of now \<le> h + 2 * hourMs" using h by (simp add: distrib_right)
  then show "fst (computeWindow now) \<le> h" by (simp add: computeWindow_def WINDOW_MS_def)
qed

definition hour_rows :: "int \<Rightarrow> audit_db \<Rightarrow> tx_row list" where
  "hour_rows h db = filter (started_in h (h + hourMs)) (db_rows db)"

lemma fresh_hour: "fresh co h (h + hourMs) db table \<longleftrightarrow>
    mset (filter (hour_in h (h + hourMs)) (map fst table)) = mset (map (bucket_of co) (group_rows (group_key co) (hour_rows h db)))"
  by (simp add: fresh_def aggregateWindow_def hour_rows_def)

lemma clear_refreshes:
  assumes "clear_window co (now, db)"
  obtains table' where "tick_table co (now, db) table = table'" "fresh co (fst (computeWindow now)) (snd (computeWindow now)) db table'"
    "filter (\<lambda>(r, _). \<not> hour_in (fst (computeWindow now)) (snd (computeWindow now)) r) table' =
     filter (\<lambda>(r, _). \<not> hour_in (fst (computeWindow now)) (snd (computeWindow now)) r) table"
proof -
  let ?lo = "fst (computeWindow now)" and ?hi = "snd (computeWindow now)"
  have "distinct (map (primary_key co) (aggregateWindow co ?lo ?hi db))"
    using assms by (intro distinct_primary_keys) (simp add: clear_window_def)
  then obtain table' where t: "reaggregateWindow co ?lo ?hi now db table = Some table'"
    using replace_succeeds[OF window_aligned(1)[of now] window_aligned(2)[of now], of co now db table] by blast
  show thesis
    by (rule that[of table']) (use replace_fresh[OF t window_aligned(1)[of now] window_aligned(2)[of now]] t in \<open>simp_all add: tick_table_def\<close>)
qed

lemma outside_kept:
  assumes "filter (\<lambda>(r, _). \<not> hour_in lo hi r) table' = filter (\<lambda>(r, _). \<not> hour_in lo hi r) table" "b \<le> lo"
  shows "filter (hour_in a b) (map fst table') = filter (hour_in a b) (map fst table)"
proof -
  have inside: "filter (hour_in a b) (map fst t) = map fst (filter (\<lambda>(r, _). hour_in a b r) (filter (\<lambda>(r, _). \<not> hour_in lo hi r) t))" for t
    using assms(2) by (induction t) (auto simp: hour_in_def)
  show ?thesis unfolding inside assms(1) ..
qed

text \<open>A cycle after the hour has closed keeps it fresh, or makes it fresh.\<close>

lemma tick_keeps:
  assumes "hour_of h = h" "clear_window co (now, db)" "h + hourMs \<le> now"
    and "now < h + 3 * hourMs \<or> (\<exists>db'. hour_rows h db' = hour_rows h db \<and> fresh co h (h + hourMs) db' table)"
  shows "fresh co h (h + hourMs) db (tick_table co (now, db) table)"
proof -
  let ?lo = "fst (computeWindow now)" and ?hi = "snd (computeWindow now)"
  obtain table' where t: "tick_table co (now, db) table = table'" "fresh co ?lo ?hi db table'"
    "filter (\<lambda>(r, _). \<not> hour_in ?lo ?hi r) table' = filter (\<lambda>(r, _). \<not> hour_in ?lo ?hi r) table"
    using clear_refreshes[OF assms(2)] by metis
  have closed: "hour_of (h + hourMs) = h + hourMs" using assms(1) by simp
  show ?thesis
  proof (cases "?lo \<le> h")
    case True
    then show ?thesis unfolding t(1) using fresh_part[OF t(2) assms(1) closed] window_covers(1)[OF assms(1,3)] by blast
  next
    case False
    then have "\<not> now < h + 3 * hourMs" using window_covers(2)[OF assms(1)] by blast
    then obtain db' where db': "hour_rows h db' = hour_rows h db" "fresh co h (h + hourMs) db' table" using assms(4) by blast
    have "?lo = hour_of ?lo" using window_aligned(1)[of now] by simp
    then have "h + hourMs \<le> ?lo"
      using False assms(1) unfolding hour_of_def
      by (metis add1_zle_eq distrib_right linorder_not_le mult_1 mult_less_cancel_right_pos mult_right_mono hourMs_pos(1) order_less_imp_le)
    from outside_kept[OF t(3) this] show ?thesis using db' unfolding t(1) fresh_hour by simp
  qed
qed

lemma steady_tail: "steady i (c # cs) \<Longrightarrow> steady i cs"
  by (cases c; cases cs) auto

lemma run_keeps:
  assumes "hour_of h = h" "fresh co h (h + hourMs) db table"
    "list_all (\<lambda>(now, db'). h + hourMs \<le> now \<and> hour_rows h db' = hour_rows h db \<and> clear_window co (now, db')) cs"
  shows "fresh co h (h + hourMs) (snd (last ((0, db) # cs))) (run_ticks co cs table)"
  using assms(2,3)
proof (induction cs arbitrary: db table)
  case (Cons c cs)
  obtain now db' where c: "c = (now, db')" by (cases c)
  have one: "fresh co h (h + hourMs) db' (tick_table co (now, db') table)"
  proof (rule tick_keeps[OF assms(1)])
    show "now < h + 3 * hourMs \<or> (\<exists>db''. hour_rows h db'' = hour_rows h db' \<and> fresh co h (h + hourMs) db'' table)"
      using Cons.prems by (auto simp: c)
  qed (use Cons.prems in \<open>simp_all add: c\<close>)
  have "list_all (\<lambda>(now, d). h + hourMs \<le> now \<and> hour_rows h d = hour_rows h db' \<and> clear_window co (now, d)) cs"
    using Cons.prems(2) by (auto simp: c list_all_iff)
  from Cons.IH[OF one this] show ?case by (cases cs) (simp_all add: c run_ticks_def)
qed (simp add: run_ticks_def)

lemma steady_times: "steady i ((t, d) # cs) \<Longrightarrow> list_all (\<lambda>(t', _). t \<le> t') cs"
proof (induction cs arbitrary: t d)
  case (Cons c cs)
  obtain t' d' where c: "c = (t', d')" by (cases c)
  from Cons.IH[of t' d'] Cons.prems show ?case by (auto simp: c list_all_iff)
qed simp


section \<open>The backfill\<close>

lemma fresh_kept:
  assumes "fresh co a b db table" "b \<le> lo"
    "filter (\<lambda>(r, _). \<not> hour_in lo hi r) table' = filter (\<lambda>(r, _). \<not> hour_in lo hi r) table"
  shows "fresh co a b db table'"
  using assms(1) unfolding fresh_def outside_kept[OF assms(3,2)] .

lemma day_aligned: "hour_of (today - k * dayMs) = today - k * dayMs" if "hour_of today = today"
proof -
  have eq: "today - k * dayMs = today + (- 24 * k) * hourMs" by (simp add: dayMs_def)
  show ?thesis unfolding eq hour_of_plus that ..
qed

lemma backfill_days_fresh:
  assumes "hour_of today = today" "hour_of lo = lo" "lo \<le> today - (int n - 1) * dayMs"
    and "list_all (\<lambda>t. \<not> confused co t) (filter (started_in lo (today + dayMs)) (db_rows db))"
    and "fresh co lo (today - (int n - 1) * dayMs) db table"
  shows "\<exists>table'. backfill_days co today now db n table = (True, table') \<and> fresh co lo (today + dayMs) db table'"
  using assms(3,5)
proof (induction n arbitrary: table)
  case (Suc n)
  let ?a = "today - int n * dayMs" and ?b = "today - (int n - 1) * dayMs"
  have al: "hour_of ?a = ?a" "hour_of ?b = ?b" by (rule day_aligned[OF assms(1)])+
  have pos: "0 < dayMs" by (simp add: dayMs_def hourMs_def)
  have lo: "lo \<le> ?a" using Suc.prems(1) by simp
  have "?b = ?a + dayMs" by (simp add: left_diff_distrib)
  then have ab: "?a \<le> ?b" using pos by linarith
  have "0 \<le> int n * dayMs" using pos by simp
  then have "?b \<le> today + dayMs" by (simp add: left_diff_distrib)
  then have "filter (started_in ?a ?b) (db_rows db) = filter (started_in ?a ?b) (filter (started_in lo (today + dayMs)) (db_rows db))"
    using lo by (auto simp: started_in_def intro!: filter_cong)
  then have "list_all (\<lambda>t. \<not> confused co t) (filter (started_in ?a ?b) (db_rows db))" using assms(4) by (auto simp: list_all_iff)
  then obtain table1 where t: "reaggregateWindow co ?a ?b now db table = Some table1"
    using replace_succeeds[OF al, of co now db table] distinct_primary_keys by blast
  note r = replace_fresh[OF t al]
  have "fresh co lo ?a db table" using Suc.prems(2) by simp
  from fresh_kept[OF this order.refl r(2)] have "fresh co lo ?b db table1" using fresh_join[OF _ r(1) assms(2) al lo ab] by blast
  from Suc.IH[OF order.trans[OF lo ab] this] show ?case by (simp add: t)
qed (simp add: algebra_simps)

text \<open>
  The backfill makes thirty days exact.  When the process that holds the lock finds the rollup empty or marked
  by a migration, then it returns with the rollup exact from twenty-nine days before today to the end of today and the mark
  cleared, so that the dashboard is exact for every range within.
\<close>

theorem backfill_exact:
  assumes "fst (acquire DEFAULT_MAX_ATTEMPTS (cy_attempts c) BACKFILL_LOCK_TTL_MS (rs_lock s)) \<noteq> None"
    and "rs_backfillRequired s \<or> rs_table s = []"
    and "today = cy_now c div dayMs * dayMs"
    and "list_all (\<lambda>t. \<not> confused co t) (filter (started_in (today - 29 * dayMs) (today + dayMs)) (db_rows (cy_db c)))"
    and "today - 29 * dayMs \<le> from" "to \<le> today + dayMs"
  shows "let s' = backfillIfRequired co dateKey c s in
    fresh co (today - 29 * dayMs) (today + dayMs) (cy_db c) (rs_table s') \<and> \<not> rs_backfillRequired s' \<and>
    range_fresh co from to (cy_db c) (rs_table s')"
proof -
  have "today = (cy_now c div dayMs * 24) * hourMs" by (simp add: assms(3) dayMs_def)
  then have al: "hour_of today = today" unfolding hour_of_def by (metis hourMs_pos(2) nonzero_mult_div_cancel_right)
  have closing: "hour_of (today + dayMs) = today + dayMs" using day_aligned[OF al, of "- 1"] by simp
  let ?lo = "today - 29 * dayMs"
  have "fresh co ?lo ?lo (cy_db c) (rs_table s)"
    by (simp add: fresh_def aggregateWindow_def hour_in_def started_in_def group_rows_def flip: not_le cong: filter_cong)
  then obtain table' where t: "backfill_days co today (cy_now c) (cy_db c) BACKFILL_DAYS (rs_table s) = (True, table')"
      "fresh co ?lo (today + dayMs) (cy_db c) table'"
    using backfill_days_fresh[OF al day_aligned[OF al], of 29 BACKFILL_DAYS co "cy_db c" "rs_table s" "cy_now c"] assms(4)
    by (auto simp: BACKFILL_DAYS_def)
  obtain token l where lock: "acquire DEFAULT_MAX_ATTEMPTS (cy_attempts c) BACKFILL_LOCK_TTL_MS (rs_lock s) = (Some token, l)"
    using assms(1) by (cases "acquire DEFAULT_MAX_ATTEMPTS (cy_attempts c) BACKFILL_LOCK_TTL_MS (rs_lock s)") auto
  have needed: "\<not> (\<not> rs_backfillRequired s \<and> getLastUpdatedAt (rs_table s) \<noteq> None)"
    using assms(2) by (auto simp: getLastUpdatedAt_def)
  let ?s' = "backfillIfRequired co dateKey c s"
  have s': "rs_table ?s' = table'" "\<not> rs_backfillRequired ?s'"
    unfolding backfillIfRequired_def lock prod.case option.case Let_def if_not_P[OF needed] assms(3)[symmetric] t(1) by simp_all
  have "range_fresh co from to (cy_db c) table'"
    unfolding range_fresh_def
  proof
    have "?lo \<le> fullStart from" using full_hours(3)[of "from"] assms(5) by linarith
    moreover have "fullEnd to \<le> today + dayMs" using full_hours(5)[of to] hour_of_bounds(1)[of to] assms(6) by simp
    ultimately show "fresh co (fullStart from) (fullEnd to) (cy_db c) table'" by (rule fresh_part[OF t(2) full_hours(1,2)])
  qed
  then show ?thesis using t(2) s' by (simp add: Let_def)
qed

definition demo_state :: rollup_state where
  "demo_state = \<lparr>rs_table = [], rs_live = no_counters, rs_lock = None, rs_backfillRequired = True\<rparr>"

definition demo_cycle :: cycle where
  "demo_cycle = \<lparr>cy_attempts = [Unreachable, Reached 7300000 ''token''], cy_now = 7300000, cy_db = demo_audit, cy_ready = True,
     cy_released = True, cy_end = 7300050\<rparr>"

theorem backfill_exact_witness:
  "let s' = backfillIfRequired (\<lambda>s. s) (\<lambda>_. ''1970-01-01'') demo_cycle demo_state in
   \<not> rs_backfillRequired s' \<and> range_fresh (\<lambda>s. s) 3000000 11000000 demo_audit (rs_table s')"
proof -
  have a: "fst (acquire DEFAULT_MAX_ATTEMPTS (cy_attempts demo_cycle) BACKFILL_LOCK_TTL_MS (rs_lock demo_state)) \<noteq> None"
    by (simp add: demo_cycle_def demo_state_def DEFAULT_MAX_ATTEMPTS_def numeral_3_eq_3 held_def)
  have b: "rs_backfillRequired demo_state \<or> rs_table demo_state = []" by (simp add: demo_state_def)
  have c: "0 = cy_now demo_cycle div dayMs * dayMs" by (simp add: demo_cycle_def dayMs_def hourMs_def)
  have d: "list_all (\<lambda>t. \<not> confused (\<lambda>s. s) t) (filter (started_in (0 - 29 * dayMs) (0 + dayMs)) (db_rows (cy_db demo_cycle)))"
    by code_simp
  have db: "cy_db demo_cycle = demo_audit" by (simp add: demo_cycle_def)
  show ?thesis
    using backfill_exact[OF a b c d, of 3000000 11000000 "\<lambda>_. ''1970-01-01''"] by (simp add: Let_def db dayMs_def hourMs_def)
qed

end
