(* ===== verification/Dashboard_Api.thy ===== *)
theory Dashboard_Api
  imports Rollup_Scheduler
begin

text \<open>
  The endpoints of the dashboard (\<open>dashboard.controller.ts\<close>): the reading of the range, limited to four months of the
  time zone, the scope of the caller, and the live counters.  A time zone is known by its calendar, by the local date and
  time of an instant and by the text of its offset, all written by \<open>Intl.DateTimeFormat\<close>.
\<close>

section \<open>Calendar arithmetic\<close>

type_synonym date_time = "int \<times> int \<times> int \<times> int \<times> int \<times> int"

record zone =
  zo_calendar :: calendar
  zo_parts :: "int \<Rightarrow> date_time"
  zo_offset :: "int \<Rightarrow> string"

text \<open>\<open>Date.UTC\<close>, for years from 100 on: the day number of the language's definition.\<close>

definition day_from_year :: "int \<Rightarrow> int" where
  "day_from_year y = 365 * (y - 1970) + (y - 1969) div 4 - (y - 1901) div 100 + (y - 1601) div 400"

definition leap_year :: "int \<Rightarrow> bool" where
  "leap_year y \<longleftrightarrow> day_from_year (y + 1) - day_from_year y = 366"

text \<open>The days before a month, counted from 0, and the days of a month, counted from 1.\<close>

definition month_start :: "int \<Rightarrow> int \<Rightarrow> int" where
  "month_start y m = [0, 31, 59, 90, 120, 151, 181, 212, 243, 273, 304, 334, 365] ! nat m + (if leap_year y \<and> m > 1 then 1 else 0)"

definition date_utc :: "date_time \<Rightarrow> int" where
  "date_utc t = (case t of (year, month, day, hour, minute, second) \<Rightarrow>
     (day_from_year year + month_start year (month - 1) + (day - 1)) * dayMs + hour * hourMs + minute * 60000 + second * 1000)"

definition last_day :: "int \<Rightarrow> int \<Rightarrow> int" where
  "last_day year month = month_start year month - month_start year (month - 1)"

text \<open>The pattern GMT, sign, one or two digits, and two digits after an optional colon, in any case and anywhere.\<close>

definition gmt_at :: "string \<Rightarrow> int option" where
  "gmt_at s = (if toLowerCase (take 3 s) = ''gmt''
     then (case drop 3 s of
         [] \<Rightarrow> None
       | sign # rest \<Rightarrow>
           if sign \<noteq> CHR ''+'' \<and> sign \<noteq> CHR ''-'' then None
           else let hours = takeWhile is_digit (take 2 rest);
                    after = drop (length hours) rest;
                    minutes = take 2 (if take 1 after = '':'' then drop 1 after else after)
                in if hours = [] then None
                   else Some ((if sign = CHR ''-'' then - 1 else 1) *
                     (int (nat_of_dec hours) * 60 +
                      (if length minutes = 2 \<and> list_all is_digit minutes then int (nat_of_dec minutes) else 0))))
     else None)"

fun gmt_match :: "string \<Rightarrow> int option" where
  "gmt_match [] = None"
| "gmt_match (c # s) = (case gmt_at (c # s) of Some m \<Rightarrow> Some m | None \<Rightarrow> gmt_match s)"

definition offsetMinutesForTimeZone :: "zone \<Rightarrow> int \<Rightarrow> int" where
  "offsetMinutesForTimeZone z date = (case gmt_match (zo_offset z date) of None \<Rightarrow> 0 | Some m \<Rightarrow> m)"

definition zonedLocalToUtc :: "zone \<Rightarrow> date_time \<Rightarrow> int" where
  "zonedLocalToUtc z t =
     (let utcGuess = date_utc t;
          first = utcGuess - offsetMinutesForTimeZone z utcGuess * 60000
      in utcGuess - offsetMinutesForTimeZone z first * 60000)"

definition addMonthsInTimeZone :: "zone \<Rightarrow> int \<Rightarrow> int \<Rightarrow> int" where
  "addMonthsInTimeZone z date months =
     (case zo_parts z date of (year, month, day, hour, minute, second) \<Rightarrow>
        let totalMonths = year * 12 + (month - 1) + months;
            year' = totalMonths div 12;
            month' = totalMonths mod 12 + 1
        in zonedLocalToUtc z (year', month', min day (last_day year' month'), hour, minute, second))"

section \<open>The endpoints\<close>

definition MAX_RANGE_MONTHS :: int where "MAX_RANGE_MONTHS = 4"

definition parseRange :: "search_env \<Rightarrow> string option \<Rightarrow> string option \<Rightarrow> zone \<Rightarrow> (search_error, (int \<times> int) option) result" where
  "parseRange e fromValue toValue z =
     res_bind (toOptionalDate e fromValue ''from'') (\<lambda>from.
     res_bind (toOptionalDate e toValue ''to'') (\<lambda>to.
       (case (from, to) of
          (None, None) \<Rightarrow> Inr None
        | (Some f, Some t) \<Rightarrow>
            if f \<ge> t then Inl (BadParameter ''from must be before to.'')
            else if t > addMonthsInTimeZone z f MAX_RANGE_MONTHS then Inl (BadParameter ''Custom range cannot exceed 4 months.'')
            else Inr (Some (f, t))
        | _ \<Rightarrow> Inl (BadParameter ''from and to must be provided together.''))))"

definition parseTimeZone :: "(string \<Rightarrow> zone option) \<Rightarrow> string option \<Rightarrow> (search_error, zone) result" where
  "parseTimeZone zones v =
     (case zones (case toOptionalString v of None \<Rightarrow> ''UTC'' | Some t \<Rightarrow> t) of
        None \<Rightarrow> Inl (BadParameter ''timeZone must be a valid IANA time zone.'')
      | Some z \<Rightarrow> Inr z)"

definition resolveAccessScope :: "access_claims option \<Rightarrow> string option" where
  "resolveAccessScope claims = Option.bind claims c_fspId"

definition getDashboard :: "search_env \<Rightarrow> (string \<Rightarrow> string) \<Rightarrow> (string \<Rightarrow> string \<Rightarrow> bool) \<Rightarrow> (string \<Rightarrow> zone option) \<Rightarrow> int
    \<Rightarrow> access_claims option \<Rightarrow> string option \<Rightarrow> string option \<Rightarrow> string option \<Rightarrow> string option \<Rightarrow> string option
    \<Rightarrow> audit_db \<Rightarrow> rollup_table \<Rightarrow> (search_error, dashboard) result" where
  "getDashboard e co before zones now claims fromValue toValue timeZoneValue payerFspValue payeeFspValue db table =
     res_bind (parseTimeZone zones timeZoneValue) (\<lambda>z.
     res_bind (parseRange e fromValue toValue z) (\<lambda>range.
       Inr (get_dashboard co before (zo_calendar z)
         (resolveAccessScope claims, toOptionalString payerFspValue, toOptionalString payeeFspValue) range now db table)))"

definition getLive :: "(int \<Rightarrow> string) \<Rightarrow> bool \<Rightarrow> int \<Rightarrow> access_claims option \<Rightarrow> live_store \<Rightarrow> string \<times> live_kpi" where
  "getLive dateKey ready now claims st =
     (case resolveAccessScope claims of
        None \<Rightarrow> (''hub'', toLiveKpi (readScope ready (dateKey now) hubScope st))
      | Some f \<Rightarrow> (f, toLiveKpi (readScope ready (dateKey now) (fspScope f) st)))"

section \<open>What a caller learns\<close>

lemma accepted_range:
  assumes "parseRange e fromValue toValue z = Inr (Some (f, t))"
  shows "f < t \<and> t \<le> addMonthsInTimeZone z f MAX_RANGE_MONTHS"
proof -
  obtain a b where "(case (a, b) of (None, None) \<Rightarrow> Inr None
      | (Some f, Some t) \<Rightarrow>
          if f \<ge> t then Inl (BadParameter ''from must be before to.'')
          else if t > addMonthsInTimeZone z f MAX_RANGE_MONTHS then Inl (BadParameter ''Custom range cannot exceed 4 months.'')
          else Inr (Some (f, t))
      | _ \<Rightarrow> Inl (BadParameter ''from and to must be provided together.'')) = Inr (Some (f, t))"
    using assms unfolding parseRange_def res_bind_eq_Inr by blast
  then show ?thesis by (cases a; cases b) (simp_all split: if_splits)
qed

text \<open>The buckets and the transactions that an FSP takes part in.\<close>

definition own_buckets :: "(string \<Rightarrow> string) \<Rightarrow> string \<Rightarrow> rollup_table \<Rightarrow> rollup_table" where
  "own_buckets co f table = filter (\<lambda>(r, _). co (ru_payer r) = co f \<or> co (ru_payee r) = co f) table"

definition own_transactions :: "(string \<Rightarrow> string) \<Rightarrow> string \<Rightarrow> audit_db \<Rightarrow> audit_db" where
  "own_transactions co f db =
     db\<lparr>db_rows := filter (\<lambda>t. co (id_fsp (tx_payer t)) = co f \<or> co (id_fsp (tx_payee t)) = co f) (db_rows db)\<rparr>"

lemma source_own:
  "rangeSource co (Some f, p, q) from to (own_transactions co f db) (own_buckets co f table) = rangeSource co (Some f, p, q) from to db table"
proof -
  have buckets: "filter (\<lambda>r. hour_in a b r \<and> selected co (Some f, p, q) (ru_payer r) (ru_payee r)) (map fst (own_buckets co f table)) =
      filter (\<lambda>r. hour_in a b r \<and> selected co (Some f, p, q) (ru_payer r) (ru_payee r)) (map fst table)" for a b
    by (induction table) (auto simp: own_buckets_def selected_def scopeClause_def asked_def)
  have rows: "filter (\<lambda>t. started_in a b t \<and> tx_selected co (Some f, p, q) t) (db_rows (own_transactions co f db)) =
      filter (\<lambda>t. started_in a b t \<and> tx_selected co (Some f, p, q) t) (db_rows db)" for a b
    by (auto simp: own_transactions_def tx_selected_def selected_def scopeClause_def asked_def intro!: filter_cong)
  show ?thesis unfolding rangeSource_def buckets rows ..
qed

lemma scoped_dashboard:
  "(get_dashboard co before cal (Some f, p, q) r now (own_transactions co f db) (own_buckets co f table))\<lparr>da_asOf := None\<rparr> =
    (get_dashboard co before cal (Some f, p, q) r now db table)\<lparr>da_asOf := None\<rparr>"
proof -
  have pieces: "range_sources co day (Some f, p, q) from to (own_transactions co f db) (own_buckets co f table) =
      range_sources co day (Some f, p, q) from to db table" for day "from" to
    unfolding range_sources_def source_own ..
  show ?thesis
    by (cases "case r of Some x \<Rightarrow> x | None \<Rightarrow> currentUtcDay now")
      (simp add: get_dashboard_def Let_def source_own pieces summarize_sums)
qed


text \<open>
  Buckets older than the backfill are missing after it, although a range of four months may ask for them.
\<close>

lemma backfill_leaves_older:
  assumes "hour_of today = today" "b \<le> today - (int n - 1) * dayMs"
  shows "filter (hour_in a b) (map fst (snd (backfill_days co today now db n table))) = filter (hour_in a b) (map fst table)"
  using assms(2)
proof (induction n arbitrary: table)
  case (Suc n)
  let ?lo = "today - int n * dayMs" and ?hi = "today - (int n - 1) * dayMs"
  show ?case
  proof (cases "reaggregateWindow co ?lo ?hi now db table")
    case (Some table1)
    have "0 < dayMs" by (simp add: dayMs_def hourMs_def)
    then have "b \<le> today - (int n - 1) * dayMs" using Suc.prems by (simp add: left_diff_distrib)
    from Suc.IH[OF this] have "filter (hour_in a b) (map fst (snd (backfill_days co today now db n table1))) = filter (hour_in a b) (map fst table1)" .
    also have "\<dots> = filter (hour_in a b) (map fst table)"
      using Suc.prems by (intro outside_kept[OF replace_fresh(2)[OF Some day_aligned[OF assms(1)] day_aligned[OF assms(1)]]]) simp
    finally show ?thesis by (simp add: Some)
  qed simp
qed simp

definition demo_zone :: zone where
  "demo_zone = \<lparr>zo_calendar = demo_calendar, zo_parts = (\<lambda>_. (1970, 1, 1, 0, 0, 0)), zo_offset = (\<lambda>_. ''GMT-01:30'')\<rparr>"


end
