(* ===== verification/Fspiop_Signing.thy ===== *)
theory Fspiop_Signing
  imports Fspiop_Errors Json_Values
begin

text \<open>
  The detached signature of FSPIOP requests (\<open>packages/shared/fspiop/component\<close>): \<open>fspiop-uri.ts\<close>,
  \<open>fspiop-protected-header.ts\<close>, \<open>fspiop-signature.ts\<close>, \<open>jws-signer.ts\<close>, the signing interceptor of outbound requests,
  \<open>fspiop-verify-mode.ts\<close> and the guard of inbound requests.  What the platform does is a parameter: \<open>JSON.parse\<close>
  (\<open>None\<close> when it throws), \<open>JSON.stringify\<close>, base64url, \<open>String\<close>, \<open>createSign\<close> and \<open>createVerify\<close>.
\<close>

section \<open>FSPIOP-URI\<close>

definition RESOURCES :: "string list" where
  "RESOURCES = [''participants'', ''parties'', ''quotes'', ''transfers'', ''transactionRequests'', ''authorizations'',
     ''bulkQuotes'', ''bulkTransfers'', ''fxQuotes'', ''fxTransfers'', ''services'', ''transactions'']"

text \<open>What follows the first occurrence of a text.\<close>

fun after_first :: "string \<Rightarrow> string \<Rightarrow> string option" where
  "after_first p [] = (if p = [] then Some [] else None)"
| "after_first p (c # s) = (if startsWith (c # s) p then Some (drop (length p) (c # s)) else after_first p s)"

definition toPath :: "string \<Rightarrow> string" where
  "toPath requestUrl =
     (let withoutFragment = takeWhile (\<lambda>c. c \<noteq> CHR ''#'') requestUrl;
          withoutQuery = takeWhile (\<lambda>c. c \<noteq> CHR ''?'') withoutFragment
      in case after_first ''://'' withoutQuery of
           None \<Rightarrow> if startsWith withoutQuery ''/'' then withoutQuery else CHR ''/'' # withoutQuery
         | Some afterScheme \<Rightarrow>
             let path = dropWhile (\<lambda>c. c \<noteq> CHR ''/'') afterScheme
             in if path = [] then ''/'' else path)"

text \<open>The match of \<open>PATTERN\<close> and all that follows it: a slash, a resource name, then a slash or the end.\<close>

definition resource_here :: "string \<Rightarrow> bool" where
  "resource_here s = (case s of
     [] \<Rightarrow> False
   | c # rest \<Rightarrow> c = CHR ''/'' \<and> list_ex (\<lambda>r. rest = r \<or> startsWith rest (r @ ''/'')) RESOURCES)"

fun from_resource :: "string \<Rightarrow> string option" where
  "from_resource [] = None"
| "from_resource (c # s) = (if resource_here (c # s) then Some (c # s) else from_resource s)"

definition extract_uri :: "string \<Rightarrow> (js_error, string) result" where
  "extract_uri requestUrl =
     (if trim requestUrl = [] then Inl (JsError ''Cannot derive FSPIOP-URI: the request URL is empty.'')
      else (case from_resource (toPath requestUrl) of
          None \<Rightarrow> Inl (JsError (''Cannot derive FSPIOP-URI from '' @ requestUrl))
        | Some path \<Rightarrow> Inr path))"

section \<open>The protected header\<close>

definition upper_char :: "char \<Rightarrow> char" where
  "upper_char c = (let n = code_unit c in if 97 \<le> n \<and> n \<le> 122 then char_of (n - 32) else c)"

text \<open>Methods are tokens of ASCII.\<close>

definition toUpperCase :: "string \<Rightarrow> string" where
  "toUpperCase = map upper_char"

record header_input =
  hi_method :: string
  hi_uri :: string
  hi_source :: string
  hi_destination :: "string option"
  hi_date :: "string option"
  hi_alg :: "string option"

definition DEFAULT_ALGORITHM :: string where
  "DEFAULT_ALGORITHM = ''RS256''"

definition when_present :: "string \<Rightarrow> string option \<Rightarrow> (string \<times> string) list" where
  "when_present key v = (if is_blank v then [] else [(key, nullish v [])])"

definition build_header :: "header_input \<Rightarrow> (js_error, (string \<times> string) list) result" where
  "build_header i =
     (if trim (hi_source i) = [] then Inl (JsError ''Cannot build the FSPIOP protected header: fspiop-source is required.'')
      else if trim (hi_method i) = []
      then Inl (JsError ''Cannot build the FSPIOP protected header: the HTTP method is required.'')
      else res_bind (extract_uri (hi_uri i)) (\<lambda>uri.
        Inr ([(''alg'', nullish (hi_alg i) DEFAULT_ALGORITHM), (''FSPIOP-URI'', uri),
              (''FSPIOP-HTTP-Method'', toUpperCase (hi_method i)), (''FSPIOP-Source'', hi_source i)] @
             when_present ''FSPIOP-Destination'' (hi_destination i) @ when_present ''Date'' (hi_date i))))"

section \<open>The signature\<close>

record ('priv, 'pub) jose =
  jo_parse :: "string \<Rightarrow> json option"
  jo_stringify :: "json \<Rightarrow> string"
  jo_text :: "json \<Rightarrow> string"
  jo_encode :: "string \<Rightarrow> string"
  jo_decode :: "json \<Rightarrow> string option"
  jo_sign :: "string \<Rightarrow> 'priv \<Rightarrow> string \<Rightarrow> string option"
  jo_verify :: "string \<Rightarrow> 'pub \<Rightarrow> string \<Rightarrow> string \<Rightarrow> bool"

definition text_object :: "(string \<times> string) list \<Rightarrow> json" where
  "text_object fs = JObj (map (\<lambda>(k, v). (k, JStr v)) fs)"

record signing_input =
  si_alg :: string
  si_protectedHeader :: string
  si_bytes :: string

record signature_header =
  sh_signature :: string
  sh_protectedHeader :: string

definition toNodeAlgorithm :: "string \<Rightarrow> (js_error, string) result" where
  "toNodeAlgorithm alg =
     (if alg = ''RS256'' then Inr ''RSA-SHA256'' else Inl (JsError (''Unsupported FSPIOP signing algorithm '' @ alg)))"

definition canonicalize :: "('priv, 'pub) jose \<Rightarrow> string \<Rightarrow> (js_error, string) result" where
  "canonicalize J payload = (case jo_parse J payload of
     Some (JObj fs) \<Rightarrow> Inr (jo_stringify J (JObj fs))
   | _ \<Rightarrow> Inl (JsError ''FSPIOP signature payload must be a valid JSON object.''))"

definition signingInput :: "('priv, 'pub) jose \<Rightarrow> header_input \<Rightarrow> string \<Rightarrow> (js_error, signing_input) result" where
  "signingInput J i payload =
     res_bind (build_header i) (\<lambda>fields.
       let protectedHeader = jo_encode J (jo_stringify J (text_object fields))
       in res_bind (canonicalize J payload) (\<lambda>canonical.
         Inr \<lparr>si_alg = nullish (hi_alg i) DEFAULT_ALGORITHM, si_protectedHeader = protectedHeader,
              si_bytes = protectedHeader @ ''.'' @ jo_encode J canonical\<rparr>))"

definition sign_header :: "('priv, 'pub) jose \<Rightarrow> 'priv \<Rightarrow> header_input \<Rightarrow> string \<Rightarrow> (js_error, signature_header) result" where
  "sign_header J key i payload =
     res_bind (signingInput J i payload) (\<lambda>s.
     res_bind (toNodeAlgorithm (si_alg s)) (\<lambda>algorithm.
       case jo_sign J algorithm key (si_bytes s) of
         None \<Rightarrow> Inl JsThrown
       | Some sig \<Rightarrow> Inr \<lparr>sh_signature = sig, sh_protectedHeader = si_protectedHeader s\<rparr>))"

definition decodeProtectedHeader :: "('priv, 'pub) jose \<Rightarrow> json \<Rightarrow> (js_error, (string \<times> json) list) result" where
  "decodeProtectedHeader J ph = (case jo_decode J ph of
     None \<Rightarrow> Inl JsThrown
   | Some decoded \<Rightarrow> (case jo_parse J decoded of
       Some (JObj fs) \<Rightarrow> Inr fs
     | _ \<Rightarrow> Inl (JsError ''FSPIOP protected header must decode to a JSON object.'')))"

text \<open>Any exception of the verification counts as a failure.\<close>

definition verify_header :: "('priv, 'pub) jose \<Rightarrow> 'pub \<Rightarrow> json \<Rightarrow> json \<Rightarrow> string \<Rightarrow> bool" where
  "verify_header J key sig ph payload =
     (case res_bind (decodeProtectedHeader J ph) (\<lambda>fields.
           res_bind (toNodeAlgorithm (case map_of fields ''alg'' of None \<Rightarrow> ''undefined'' | Some alg \<Rightarrow> jo_text J alg)) (\<lambda>algorithm.
           res_bind (canonicalize J payload) (\<lambda>canonical.
             Inr (case sig of
                 JStr s \<Rightarrow> jo_verify J algorithm key (jo_text J ph @ ''.'' @ jo_encode J canonical) s
               | _ \<Rightarrow> False)))) of
        Inl _ \<Rightarrow> False
      | Inr b \<Rightarrow> b)"

section \<open>Signers\<close>

type_synonym signer = "string \<Rightarrow> header_input \<Rightarrow> string \<Rightarrow> (js_error, signature_header option) result"

definition PrivateKeyJwsSigner :: "('priv, 'pub) jose \<Rightarrow> (string \<Rightarrow> 'priv option) \<Rightarrow> signer" where
  "PrivateKeyJwsSigner J keys fspId i payload = (case keys fspId of
     None \<Rightarrow> Inr None
   | Some key \<Rightarrow> res_bind (sign_header J key i payload) (\<lambda>h. Inr (Some h)))"

definition NoKeyJwsSigner :: signer where
  "NoKeyJwsSigner fspId i payload = Inr None"

section \<open>The interceptor of outbound requests\<close>

datatype axios_data = DataText string | DataValue json

record axios_config =
  ax_url :: "string option"
  ax_baseURL :: "string option"
  ax_method :: "string option"
  ax_headers :: "(string \<times> string) list"
  ax_data :: "axios_data option"

definition resolveUrl :: "axios_config \<Rightarrow> string" where
  "resolveUrl config =
     (let url = nullish (ax_url config) []
      in if url = [] then nullish (ax_baseURL config) []
         else (case ax_baseURL config of
             None \<Rightarrow> url
           | Some baseURL \<Rightarrow>
               if after_first ''://'' url \<noteq> None then url
               else (let base = (if baseURL \<noteq> [] \<and> last baseURL = CHR ''/'' then butlast baseURL else baseURL);
                         path = (if startsWith url ''/'' then url else CHR ''/'' # url)
                     in base @ path)))"

definition config_body :: "('priv, 'pub) jose \<Rightarrow> axios_config \<Rightarrow> string option" where
  "config_body J config = (case ax_data config of
     None \<Rightarrow> None
   | Some (DataText s) \<Rightarrow> Some s
   | Some (DataValue j) \<Rightarrow> Some (jo_stringify J j))"

definition signature_object :: "signature_header \<Rightarrow> json" where
  "signature_object h = text_object [(''signature'', sh_signature h), (''protectedHeader'', sh_protectedHeader h)]"

definition input_of :: "axios_config \<Rightarrow> string \<Rightarrow> string \<Rightarrow> header_input" where
  "input_of config source uri = \<lparr>hi_method = toUpperCase (nullish (ax_method config) ''get''), hi_uri = uri, hi_source = source,
     hi_destination = map_of (ax_headers config) ''fspiop-destination'', hi_date = map_of (ax_headers config) ''date'', hi_alg = None\<rparr>"

definition intercept :: "('priv, 'pub) jose \<Rightarrow> signer \<Rightarrow> axios_config \<Rightarrow> (js_error, axios_config) result" where
  "intercept J signer config =
     (case map_of (ax_headers config) ''fspiop-source'' of
        None \<Rightarrow> Inr config
      | Some source \<Rightarrow>
          if source = [] then Inr config
          else (case config_body J config of
              None \<Rightarrow> Inr config
            | Some body \<Rightarrow>
                res_bind (extract_uri (resolveUrl config)) (\<lambda>uri.
                let method = toUpperCase (nullish (ax_method config) ''get'')
                in res_bind (signer source (input_of config source uri) body) (\<lambda>signed.
                   case signed of
                     None \<Rightarrow> Inr config
                   | Some h \<Rightarrow> Inr (config\<lparr>ax_headers :=
                       AList.update ''fspiop-signature'' (jo_stringify J (signature_object h))
                         (AList.update ''fspiop-http-method'' method
                           (AList.update ''fspiop-uri'' uri (ax_headers config)))\<rparr>)))))"

section \<open>The guard of inbound requests\<close>

datatype verify_mode = Off | VerifyIfPresent | Require

definition parse_mode :: "string option \<Rightarrow> verify_mode \<Rightarrow> verify_mode" where
  "parse_mode v fallback = (case v of
     None \<Rightarrow> fallback
   | Some s \<Rightarrow>
       (let normalized = toLowerCase (trim s)
        in if normalized = ''off'' then Off
           else if normalized = ''verify-if-present'' then VerifyIfPresent
           else if normalized = ''require'' then Require
           else fallback))"

definition isValid_mode :: "string option \<Rightarrow> bool" where
  "isValid_mode v = (case v of None \<Rightarrow> False | Some s \<Rightarrow>
     toLowerCase (trim s) \<in> {''off'', ''verify-if-present'', ''require''})"

datatype header_value = OneValue string | ManyValues "string list"

fun header_text :: "header_value \<Rightarrow> string" where
  "header_text (OneValue s) = s"
| "header_text (ManyValues ss) = join_with '','' ss"

text \<open>A header that is absent or empty is falsy.\<close>

definition truthy_header :: "header_value option \<Rightarrow> bool" where
  "truthy_header v = (v \<noteq> None \<and> v \<noteq> Some (OneValue []))"

record http_request =
  rq_method :: "string option"
  rq_headers :: "(string \<times> header_value) list"
  rq_body :: "json option"

definition object_keys :: "json \<Rightarrow> nat" where
  "object_keys j = (case j of JObj fs \<Rightarrow> length fs | JArr xs \<Rightarrow> length xs | JStr s \<Rightarrow> length s | _ \<Rightarrow> 0)"

definition request_body :: "('priv, 'pub) jose \<Rightarrow> http_request \<Rightarrow> string option" where
  "request_body J rq = (case present (rq_body rq) of
     None \<Rightarrow> None
   | Some j \<Rightarrow> if object_keys j = 0 then None else Some (jo_stringify J j))"

text \<open>Truth of a property of a parsed value.\<close>

definition truthy_json :: "json option \<Rightarrow> bool" where
  "truthy_json v = (case v of
     None \<Rightarrow> False
   | Some JNull \<Rightarrow> False
   | Some (JBool b) \<Rightarrow> b
   | Some (JNum n) \<Rightarrow> n \<noteq> NaN \<and> n \<noteq> Finite 0
   | Some (JStr s) \<Rightarrow> s \<noteq> []
   | Some _ \<Rightarrow> True)"

definition ensure :: "bool \<Rightarrow> js_error \<Rightarrow> (js_error, unit) result" where
  "ensure b e = (if b then Inr () else Inl e)"

definition assertHeaderMatchesRequest :: "('priv, 'pub) jose \<Rightarrow> json \<Rightarrow> http_request \<Rightarrow> string \<Rightarrow> (js_error, unit) result" where
  "assertHeaderMatchesRequest J ph rq source =
     (case decodeProtectedHeader J ph of
        Inl _ \<Rightarrow> Inl (throw_fspiop MALFORMED_SYNTAX ''Header fspiop-signature carries a protectedHeader that is not valid JSON.'')
      | Inr claimed \<Rightarrow>
          res_bind (ensure (map_of claimed ''FSPIOP-Source'' = Some (JStr source))
            (throw_fspiop INVALID_SIGNATURE ''Signed FSPIOP-Source does not match the fspiop-source header.'')) (\<lambda>_.
          res_bind (ensure (map_of claimed ''FSPIOP-HTTP-Method'' = map_option (\<lambda>m. JStr (toUpperCase m)) (rq_method rq))
            (throw_fspiop INVALID_SIGNATURE ''Signed FSPIOP-HTTP-Method does not match the request method.'')) (\<lambda>_.
          (case map_of (rq_headers rq) ''fspiop-uri'' of
             None \<Rightarrow> Inl (throw_fspiop MISSING_MANDATORY_ELEMENT ''Missing mandatory header: fspiop-uri.'')
           | Some uri \<Rightarrow>
               res_bind (ensure (map_of claimed ''FSPIOP-URI'' = Some (JStr (header_text uri)))
                 (throw_fspiop INVALID_SIGNATURE ''Signed FSPIOP-URI does not match the fspiop-uri header.'')) (\<lambda>_.
               (case map_of (rq_headers rq) ''fspiop-destination'' of
                  None \<Rightarrow> Inr ()
                | Some destination \<Rightarrow>
                    ensure (map_of claimed ''FSPIOP-Destination'' = Some (JStr (header_text destination)))
                      (throw_fspiop INVALID_SIGNATURE
                        ''Signed FSPIOP-Destination does not match the fspiop-destination header.'')))))))"

text \<open>The checks of a request that carries a signature.\<close>

definition check_signed :: "('priv, 'pub) jose \<Rightarrow> (string \<Rightarrow> 'pub option) \<Rightarrow> http_request \<Rightarrow> string \<Rightarrow> header_value \<Rightarrow> (js_error, bool) result" where
  "check_signed J keys rq source rawSignature =
     (case keys source of
        None \<Rightarrow> Inl (throw_fspiop INVALID_SIGNATURE (''No trusted public key registered for fspiop-source: '' @ source))
      | Some key \<Rightarrow>
          (case jo_parse J (header_text rawSignature) of
             None \<Rightarrow> Inl (throw_fspiop MALFORMED_SYNTAX ''Header fspiop-signature must be a valid JSON object.'')
           | Some JNull \<Rightarrow> Inl JsThrown
           | Some h \<Rightarrow>
               (let sig = field (Some h) ''signature''; ph = field (Some h) ''protectedHeader''
                in if \<not> truthy_json sig \<or> \<not> truthy_json ph
                   then Inl (throw_fspiop MISSING_MANDATORY_ELEMENT
                     ''Header fspiop-signature is missing required claimed: signature and/or protectedHeader.'')
                   else (case request_body J rq of
                       None \<Rightarrow> Inl (throw_fspiop INVALID_SIGNATURE ''A bodyless request cannot carry a verifiable JWS signature.'')
                     | Some body \<Rightarrow>
                         if \<not> verify_header J key (the sig) (the ph) body
                         then Inl (throw_fspiop INVALID_SIGNATURE ''JWS signature verification failed.'')
                         else res_bind (assertHeaderMatchesRequest J (the ph) rq source) (\<lambda>_. Inr True)))))"

type_synonym counters = "(string \<times> nat) list"

definition countUnsignedAccepted :: "string \<Rightarrow> counters \<Rightarrow> counters" where
  "countUnsignedAccepted source n = AList.update source (Suc (nullish (map_of n source) 0)) n"

definition canActivate :: "('priv, 'pub) jose \<Rightarrow> (string \<Rightarrow> 'pub option) \<Rightarrow> (string \<Rightarrow> verify_mode) \<Rightarrow> bool \<Rightarrow> http_request
    \<Rightarrow> counters \<Rightarrow> (js_error, bool) result \<times> counters" where
  "canActivate J keys policies useJws rq n =
     (if \<not> useJws then (Inr True, n)
      else let rawSource = map_of (rq_headers rq) ''fspiop-source'' in
        if \<not> truthy_header rawSource
        then (Inl (throw_fspiop MISSING_MANDATORY_ELEMENT ''Missing mandatory header: fspiop-source.''), n)
        else let source = header_text (the rawSource); mode = policies source in
          if mode = Off then (Inr True, n)
          else let rawSignature = map_of (rq_headers rq) ''fspiop-signature''; body = request_body J rq in
            if rawSignature = None \<and> body = None then (Inr True, n)
            else if \<not> truthy_header rawSignature \<and> mode = VerifyIfPresent then (Inr True, countUnsignedAccepted source n)
            else if \<not> truthy_header rawSignature
            then (Inl (throw_fspiop MISSING_MANDATORY_ELEMENT ''Missing mandatory header: fspiop-signature.''), n)
            else (check_signed J keys rq source (the rawSignature), n))"

section \<open>The resource path\<close>

lemma from_resource_suffix:
  "from_resource s = Some p \<Longrightarrow> resource_here p \<and> (\<exists>pre. s = pre @ p)"
proof (induction s)
  case (Cons c s)
  then show ?case by (cases "resource_here (c # s)") (auto intro: exI[of _ "c # _"])
qed simp

lemma from_resource_here [simp]: "resource_here p \<Longrightarrow> from_resource p = Some p"
  by (cases p) (simp_all add: resource_here_def)

lemma after_first_subset: "after_first p s = Some t \<Longrightarrow> set t \<subseteq> set s"
proof (induction s)
  case (Cons c s)
  then show ?case
    by (cases "startsWith (c # s) p") (auto dest: in_set_dropD simp del: drop_Cons)
qed (simp split: if_splits)

lemma toPath_plain: "CHR ''#'' \<notin> set (toPath u) \<and> CHR ''?'' \<notin> set (toPath u)"
proof -
  let ?w = "takeWhile (\<lambda>c. c \<noteq> CHR ''?'') (takeWhile (\<lambda>c. c \<noteq> CHR ''#'') u)"
  have w: "CHR ''#'' \<notin> set ?w" "CHR ''?'' \<notin> set ?w" by (auto dest!: set_takeWhileD)
  show ?thesis
  proof (cases "after_first ''://'' ?w")
    case None
    then show ?thesis using w by (simp add: toPath_def Let_def)
  next
    case (Some t)
    have "set (dropWhile (\<lambda>c. c \<noteq> CHR ''/'') t) \<subseteq> set ?w"
      using after_first_subset[OF Some] by (auto dest: set_dropWhileD)
    then show ?thesis using w Some by (auto simp: toPath_def Let_def)
  qed
qed

lemma resource_not_blank: "resource_here p \<Longrightarrow> trim p \<noteq> []"
proof -
  assume "resource_here p"
  then obtain s where p: "p = CHR ''/'' # s" by (auto simp: resource_here_def split: list.splits)
  have "\<not> is_space (CHR ''/'')" by code_simp
  then show ?thesis by (auto simp: p trim_def)
qed

text \<open>A derived path is derived from itself, which the protected header relies on.\<close>

lemma extract_uri_twice:
  assumes "extract_uri u = Inr p" "after_first ''://'' p = None"
  shows "extract_uri p = Inr p"
proof -
  have p: "from_resource (toPath u) = Some p" using assms(1) by (auto simp: extract_uri_def split: if_splits option.splits)
  then obtain pre where pre: "toPath u = pre @ p" and here: "resource_here p" using from_resource_suffix by blast
  have "CHR ''#'' \<notin> set p" "CHR ''?'' \<notin> set p" using toPath_plain[of u] pre by auto
  then have plain: "takeWhile (\<lambda>c. c \<noteq> CHR ''#'') p = p" "takeWhile (\<lambda>c. c \<noteq> CHR ''?'') p = p"
    unfolding takeWhile_eq_all_conv by auto
  have "startsWith p ''/''" using here by (auto simp: resource_here_def startsWith_def split: list.splits)
  then have "toPath p = p" unfolding toPath_def Let_def plain using assms(2) by simp
  then show ?thesis using here resource_not_blank[OF here] by (simp add: extract_uri_def)
qed

lemma toUpperCase_twice [simp]: "toUpperCase (toUpperCase s) = toUpperCase s"
proof -
  have "upper_char (upper_char c) = upper_char c" for c
    by (auto simp: upper_char_def code_unit_def Let_def)
  then show ?thesis by (simp add: toUpperCase_def)
qed

section \<open>What the platform promises\<close>

text \<open>
  A text is its own \<open>String\<close>; base64url is read back, has no dot and is empty for the empty text only; the empty text is
  no JSON; an object of texts is read back from its JSON; a value that is no text and from which \<open>Buffer.from\<close> reads an object has a \<open>String\<close> that is no base64url.
\<close>

definition platform_laws :: "('priv, 'pub) jose \<Rightarrow> bool" where
  "platform_laws J \<longleftrightarrow> (\<forall>s. jo_text J (JStr s) = s) \<and> (\<forall>s. jo_decode J (JStr (jo_encode J s)) = Some s) \<and>
     (\<forall>s. CHR ''.'' \<notin> set (jo_encode J s)) \<and> (\<forall>s. jo_encode J s = [] \<longrightarrow> s = []) \<and> jo_parse J [] = None \<and>
     (\<forall>fs. distinct (map fst fs) \<longrightarrow> jo_parse J (jo_stringify J (text_object fs)) = Some (text_object fs)) \<and>
     (\<forall>v t fs s. jo_decode J v = Some t \<and> jo_parse J t = Some (JObj fs) \<and> jo_text J v = jo_encode J s \<longrightarrow> (\<exists>r. v = JStr r))"

lemma platform:
  assumes "platform_laws J"
  shows "jo_text J (JStr s) = s" "jo_decode J (JStr (jo_encode J s)) = Some s" "CHR ''.'' \<notin> set (jo_encode J s)"
    "distinct (map fst fs) \<Longrightarrow> jo_parse J (jo_stringify J (text_object fs)) = Some (text_object fs)"
    "jo_decode J v = Some t \<Longrightarrow> jo_parse J t = Some (JObj gs) \<Longrightarrow> jo_text J v = jo_encode J s \<Longrightarrow> \<exists>r. v = JStr r"
    "jo_encode J s = [] \<Longrightarrow> s = []" "jo_parse J [] = None"
  using assms unfolding platform_laws_def by blast+

lemma map_of_text_object: "text_object fs = JObj gs \<Longrightarrow> map_of gs k = map_option JStr (map_of fs k)"
proof -
  assume "text_object fs = JObj gs"
  then have gs: "gs = map (\<lambda>(k, v). (k, JStr v)) fs" by (simp add: text_object_def)
  show ?thesis unfolding gs by (induction fs) auto
qed

lemma built_header:
  assumes "build_header i = Inr fs"
  shows "distinct (map fst fs)" "map_of fs ''alg'' = Some (nullish (hi_alg i) DEFAULT_ALGORITHM)"
    "map_of fs ''FSPIOP-Source'' = Some (hi_source i)" "map_of fs ''FSPIOP-HTTP-Method'' = Some (toUpperCase (hi_method i))"
    "extract_uri (hi_uri i) = Inr (the (map_of fs ''FSPIOP-URI''))" "map_of fs ''FSPIOP-URI'' \<noteq> None"
    "map_of fs ''FSPIOP-Destination'' = (if is_blank (hi_destination i) then None else hi_destination i)"
  using assms
  by (auto simp: build_header_def when_present_def res_bind_eq_Inr is_blank_def nullish_def split: if_splits option.splits)

lemma split_at_dot:
  assumes "a @ ''.'' @ b = c @ ''.'' @ d" "CHR ''.'' \<notin> set b" "CHR ''.'' \<notin> set d"
  shows "a = c \<and> b = d"
proof -
  have "rev b @ CHR ''.'' # rev a = rev d @ CHR ''.'' # rev c" using arg_cong[OF assms(1), of rev] by simp
  moreover have "takeWhile (\<lambda>x. x \<noteq> CHR ''.'') (rev b @ CHR ''.'' # rev a) = rev b"
    "takeWhile (\<lambda>x. x \<noteq> CHR ''.'') (rev d @ CHR ''.'' # rev c) = rev d"
    using assms(2,3) by (subst takeWhile_append2; auto)+
  ultimately have "rev b = rev d" by simp
  then show ?thesis using assms(1) by simp
qed

section \<open>What an accepted signature proves\<close>

lemma ensure_Inr [simp]: "ensure b e = Inr u \<longleftrightarrow> b"
  by (simp add: ensure_def)

lemma header_matched:
  assumes "assertHeaderMatchesRequest J ph rq source = Inr u" "decodeProtectedHeader J ph = Inr fs"
  shows "map_of fs ''FSPIOP-Source'' = Some (JStr source)"
    "map_of fs ''FSPIOP-HTTP-Method'' = map_option (\<lambda>m. JStr (toUpperCase m)) (rq_method rq)"
    "\<exists>uri. map_of (rq_headers rq) ''fspiop-uri'' = Some uri \<and> map_of fs ''FSPIOP-URI'' = Some (JStr (header_text uri))"
    "map_of (rq_headers rq) ''fspiop-destination'' = Some d \<Longrightarrow> map_of fs ''FSPIOP-Destination'' = Some (JStr (header_text d))"
  using assms by (auto simp: assertHeaderMatchesRequest_def res_bind_eq_Inr split: option.splits)

lemma verifiedE:
  assumes "verify_header J key sig ph payload"
  obtains fs alg canonical s where "decodeProtectedHeader J ph = Inr fs" "canonicalize J payload = Inr canonical" "sig = JStr s"
    "jo_verify J alg key (jo_text J ph @ ''.'' @ jo_encode J canonical) s"
  using assms by (cases sig) (auto simp: verify_header_def res_bind_eq_Inr split: sum.splits)

lemma check_signed_Inr:
  assumes "check_signed J keys rq source raw = Inr b"
  obtains key sig ph body where "keys source = Some key" "request_body J rq = Some body" "verify_header J key sig ph body"
    "assertHeaderMatchesRequest J ph rq source = Inr ()" "b"
  using assms by (auto simp: check_signed_def Let_def res_bind_eq_Inr split: option.splits json.splits if_splits)

lemma accepted_with_signature:
  assumes "canActivate J keys policies True rq n = (Inr True, n')" "map_of (rq_headers rq) ''fspiop-source'' = Some src"
    "policies (header_text src) = Require" "request_body J rq = Some body"
  obtains key sig ph where "keys (header_text src) = Some key" "verify_header J key sig ph body"
    "assertHeaderMatchesRequest J ph rq (header_text src) = Inr ()"
  using assms by (auto simp: canActivate_def Let_def split: if_splits elim!: check_signed_Inr)

text \<open>
  The bytes of a signing input determine the header and the payload it was made from.
\<close>

lemma same_signing_input:
  assumes "platform_laws J" "signingInput J i payload = Inr si" "canonicalize J body = Inr canonical"
    "decodeProtectedHeader J ph = Inr fs" "si_bytes si = jo_text J ph @ ''.'' @ jo_encode J canonical"
  shows "\<exists>built. build_header i = Inr built \<and> text_object built = JObj fs \<and> canonicalize J payload = Inr canonical"
proof -
  note platform = platform[OF assms(1)]
  from assms(2) obtain built c where built: "build_header i = Inr built" and c: "canonicalize J payload = Inr c"
    and bytes: "si_bytes si = jo_encode J (jo_stringify J (text_object built)) @ ''.'' @ jo_encode J c"
    unfolding signingInput_def res_bind_eq_Inr Let_def by auto
  have "jo_encode J (jo_stringify J (text_object built)) = jo_text J ph \<and> jo_encode J c = jo_encode J canonical"
    by (rule split_at_dot) (use bytes assms(5) platform(3) in auto)
  then have encoded: "jo_text J ph = jo_encode J (jo_stringify J (text_object built))" and "jo_encode J c = jo_encode J canonical" by simp_all
  then have c': "c = canonical" by (metis option.inject platform(2))
  obtain t where t: "jo_decode J ph = Some t" "jo_parse J t = Some (JObj fs)"
    using assms(4) by (auto simp: decodeProtectedHeader_def split: option.splits json.splits)
  then obtain r where "ph = JStr r" using platform(5) encoded by blast
  then have "t = jo_stringify J (text_object built)" using encoded t(1) by (simp add: platform)
  then have "text_object built = JObj fs" using t(2) platform(4)[OF built_header(1)[OF built]] by simp
  then show ?thesis using built c c' by blast
qed


section \<open>What is signed is accepted\<close>

lemma map_of_one: "map_of (map (\<lambda>(k, v). (k, OneValue v)) hs) k = map_option OneValue (map_of hs k)"
  by (induction hs) auto

definition received :: "axios_config \<Rightarrow> axios_config \<Rightarrow> json \<Rightarrow> http_request" where
  "received config sent body = \<lparr>rq_method = Some (nullish (ax_method config) ''get''),
     rq_headers = map (\<lambda>(k, v). (k, OneValue v)) (ax_headers sent), rq_body = Some body\<rparr>"

lemma intercept_signs:
  assumes "intercept J (PrivateKeyJwsSigner J privateKeys) config = Inr sent"
    "map_of (ax_headers config) ''fspiop-source'' = Some source" "source \<noteq> []" "config_body J config = Some payload"
    "privateKeys source = Some key"
  obtains uri h where "extract_uri (resolveUrl config) = Inr uri"
    "sign_header J key (input_of config source uri) payload = Inr h"
    "ax_headers sent = AList.update ''fspiop-signature'' (jo_stringify J (signature_object h))
       (AList.update ''fspiop-http-method'' (toUpperCase (nullish (ax_method config) ''get''))
         (AList.update ''fspiop-uri'' uri (ax_headers config)))"
  using assms by (auto simp: intercept_def Let_def PrivateKeyJwsSigner_def res_bind_eq_Inr)

lemma signed_header:
  assumes "sign_header J key i payload = Inr h" "hi_alg i = None"
  obtains built canonical si where "build_header i = Inr built" "canonicalize J payload = Inr canonical" "signingInput J i payload = Inr si"
    "sh_protectedHeader h = jo_encode J (jo_stringify J (text_object built))"
    "si_bytes si = sh_protectedHeader h @ ''.'' @ jo_encode J canonical"
    "jo_sign J ''RSA-SHA256'' key (si_bytes si) = Some (sh_signature h)"
  using assms
  by (auto simp: sign_header_def signingInput_def toNodeAlgorithm_def DEFAULT_ALGORITHM_def Let_def split: option.splits if_splits)

lemma verify_signed:
  assumes "platform_laws J" "build_header i = Inr built" "hi_alg i = None" "canonicalize J payload = Inr canonical"
    "ph = JStr (jo_encode J (jo_stringify J (text_object built)))"
    "jo_verify J ''RSA-SHA256'' key (jo_encode J (jo_stringify J (text_object built)) @ ''.'' @ jo_encode J canonical) s"
  shows "verify_header J key (JStr s) ph payload" "decodeProtectedHeader J ph = Inr (map (\<lambda>(k, v). (k, JStr v)) built)"
proof -
  note platform = platform[OF assms(1)] and built = built_header[OF assms(2)]
  show d: "decodeProtectedHeader J ph = Inr (map (\<lambda>(k, v). (k, JStr v)) built)"
    using platform(2,4) built(1) by (simp add: decodeProtectedHeader_def assms(5) text_object_def)
  have "map_of (map (\<lambda>(k, v). (k, JStr v)) built) ''alg'' = Some (JStr ''RS256'')"
    using map_of_text_object[of built "map (\<lambda>(k, v). (k, JStr v)) built" "''alg''"] built(2) assms(3)
    by (simp add: text_object_def DEFAULT_ALGORITHM_def)
  then show "verify_header J key (JStr s) ph payload"
    unfolding verify_header_def d res_bind_simps using assms(4,6) platform(1)
    by (simp add: toNodeAlgorithm_def assms(5))
qed

lemma header_matches_signed:
  assumes "platform_laws J" "build_header i = Inr built" "decodeProtectedHeader J ph = Inr (map (\<lambda>(k, v). (k, JStr v)) built)"
    "hi_source i = source" "rq_method rq = Some m" "hi_method i = toUpperCase m" "extract_uri (hi_uri i) = Inr uri"
    "map_of (rq_headers rq) ''fspiop-uri'' = Some (OneValue uri)"
    "map_of (rq_headers rq) ''fspiop-destination'' = map_option OneValue (hi_destination i)"
    "\<forall>d. hi_destination i = Some d \<longrightarrow> trim d \<noteq> []"
  shows "assertHeaderMatchesRequest J ph rq source = Inr ()"
proof -
  note built = built_header[OF assms(2)]
  have claims: "map_of (map (\<lambda>(k, v). (k, JStr v)) built) k = map_option JStr (map_of built k)" for k
    using map_of_text_object[of built "map (\<lambda>(k, v). (k, JStr v)) built" k] by (simp add: text_object_def)
  have uri: "map_of built ''FSPIOP-URI'' = Some uri" using built(5,6) assms(7) by auto
  show ?thesis
    using assms(3-10) built(3,4,7) uri
    by (cases "hi_destination i") (auto simp: assertHeaderMatchesRequest_def claims ensure_def is_blank_def)
qed

text \<open>The signature that the interceptor made verifies, so the guard accepts.\<close>

lemma signed_accepted:
  assumes "intercept J (PrivateKeyJwsSigner J privateKeys) config = Inr sent"
    and source: "map_of (ax_headers config) ''fspiop-source'' = Some source" "source \<noteq> []"
    and keys: "privateKeys source = Some key" "publicKeys source = Some pub"
      "\<And>uri s si. extract_uri (resolveUrl config) = Inr uri \<Longrightarrow> signingInput J (input_of config source uri) payload = Inr si \<Longrightarrow>
        jo_sign J ''RSA-SHA256'' key (si_bytes si) = Some s \<Longrightarrow> s \<noteq> [] \<and> jo_verify J ''RSA-SHA256'' pub (si_bytes si) s"
    and body: "config_body J config = Some payload" "jo_parse J payload = Some body" "object_keys body \<noteq> 0"
      "jo_parse J (jo_stringify J body) = Some body"
    and destination: "\<And>d. map_of (ax_headers config) ''fspiop-destination'' = Some d \<Longrightarrow> trim d \<noteq> []"
    and path: "\<And>uri. extract_uri (resolveUrl config) = Inr uri \<Longrightarrow> after_first ''://'' uri = None"
    and laws: "platform_laws J"
  shows "canActivate J publicKeys policies useJws (received config sent body) n = (Inr True, n)"
proof -
  let ?m = "nullish (ax_method config) ''get''" and ?rq = "received config sent body"
  from intercept_signs[OF assms(1) source body(1) keys(1)] obtain uri h where uri: "extract_uri (resolveUrl config) = Inr uri"
    and h: "sign_header J key (input_of config source uri) payload = Inr h"
    and headers: "ax_headers sent = AList.update ''fspiop-signature'' (jo_stringify J (signature_object h))
       (AList.update ''fspiop-http-method'' (toUpperCase ?m) (AList.update ''fspiop-uri'' uri (ax_headers config)))"
    by metis
  let ?i = "input_of config source uri"
  have alg: "hi_alg ?i = None" by (simp add: input_of_def)
  from signed_header[OF h alg] obtain built canonical si where built: "build_header ?i = Inr built" "canonicalize J payload = Inr canonical"
    and si: "signingInput J ?i payload = Inr si" and h_ph: "sh_protectedHeader h = jo_encode J (jo_stringify J (text_object built))"
    and bytes: "si_bytes si = sh_protectedHeader h @ ''.'' @ jo_encode J canonical"
    and h_sig: "jo_sign J ''RSA-SHA256'' key (si_bytes si) = Some (sh_signature h)" .
  note signature = keys(3)[OF uri si h_sig, unfolded bytes h_ph]
  have got: "map_of (rq_headers ?rq) ''fspiop-source'' = Some (OneValue source)"
    "map_of (rq_headers ?rq) ''fspiop-signature'' = Some (OneValue (jo_stringify J (signature_object h)))"
    "map_of (rq_headers ?rq) ''fspiop-uri'' = Some (OneValue uri)"
    "map_of (rq_headers ?rq) ''fspiop-destination'' = map_option OneValue (map_of (ax_headers config) ''fspiop-destination'')"
    by (simp_all add: received_def headers map_of_one update_conv' source)
  have obj: "\<exists>fs. body = JObj fs" and c: "canonicalize J (jo_stringify J body) = Inr canonical"
    using built(2) body(2,4) by (auto simp: canonicalize_def split: json.splits)
  have rq_body: "request_body J ?rq = Some (jo_stringify J body)"
    using obj body(3) by (auto simp: request_body_def received_def)
  have verify: "verify_header J pub (JStr (sh_signature h)) (JStr (sh_protectedHeader h)) (jo_stringify J body)"
    "decodeProtectedHeader J (JStr (sh_protectedHeader h)) = Inr (map (\<lambda>(k, v). (k, JStr v)) built)"
    using verify_signed[OF laws built(1) alg c, of "JStr (sh_protectedHeader h)" pub "sh_signature h"] signature
    by (simp_all add: h_ph)
  have matches: "assertHeaderMatchesRequest J (JStr (sh_protectedHeader h)) ?rq source = Inr ()"
    by (rule header_matches_signed[OF laws built(1) verify(2) _ _ _ _ got(3)])
      (use destination extract_uri_twice[OF uri path[OF uri]] got(4) in \<open>simp_all add: input_of_def received_def\<close>)
  have "sh_protectedHeader h \<noteq> []"
  proof
    assume "sh_protectedHeader h = []"
    then have "jo_stringify J (text_object built) = []" using platform(6)[OF laws] h_ph by simp
    then show False using platform(4)[OF laws built_header(1)[OF built(1)]] platform(7)[OF laws] by simp
  qed
  moreover have reads: "jo_parse J (jo_stringify J (signature_object h)) = Some (signature_object h)"
    using platform(4)[OF laws, of "[(''signature'', sh_signature h), (''protectedHeader'', sh_protectedHeader h)]"]
    by (simp add: signature_object_def)
  ultimately have "check_signed J publicKeys ?rq source (OneValue (jo_stringify J (signature_object h))) = Inr True"
    using signature keys(2) rq_body verify(1) matches
    by (simp add: check_signed_def signature_object_def text_object_def truthy_json_def)
  moreover have "jo_stringify J (signature_object h) \<noteq> []" using reads platform(7)[OF laws] by auto
  ultimately show ?thesis
    using source got rq_body by (simp add: canActivate_def truthy_header_def Let_def)
qed

text \<open>
  C24: what Pivotal signs, a Pivotal with its public key accepts.  A request that the interceptor signs for a source with a
  key, and that arrives with the headers and the body it was sent with, passes the guard in every mode and is not counted
  as unsigned, unless its path contains a second scheme separator or its destination is blank.
\<close>

theorem signed_request_accepted:
  assumes "intercept J (PrivateKeyJwsSigner J privateKeys) config = Inr sent"
    and "map_of (ax_headers config) ''fspiop-source'' = Some source" "source \<noteq> []"
    and "privateKeys source = Some key" "publicKeys source = Some pub"
    and pair: "\<And>alg bytes s. jo_sign J alg key bytes = Some s \<Longrightarrow> s \<noteq> [] \<and> jo_verify J alg pub bytes s"
    and "config_body J config = Some payload" "jo_parse J payload = Some body" "object_keys body \<noteq> 0"
      "jo_parse J (jo_stringify J body) = Some body"
    and "\<And>d. map_of (ax_headers config) ''fspiop-destination'' = Some d \<Longrightarrow> trim d \<noteq> []"
    and "\<And>uri. extract_uri (resolveUrl config) = Inr uri \<Longrightarrow> after_first ''://'' uri = None"
    and "platform_laws J"
  shows "canActivate J publicKeys policies useJws (received config sent body) n = (Inr True, n)"
  by (rule signed_accepted[where privateKeys = privateKeys and source = source and key = key and pub = pub and payload = payload])
    (use assms in blast)+

section \<open>A platform for the witnesses\<close>

text \<open>Texts with their length in front, two letters for a byte, and signatures that repeat what was signed.\<close>

definition net :: "string \<Rightarrow> string" where
  "net s = replicate (length s) (CHR ''1'') @ CHR ''0'' # s"

definition read_net :: "string \<Rightarrow> string \<times> string" where
  "read_net s = (let n = length (takeWhile (\<lambda>c. c = CHR ''1'') s); rest = drop (Suc n) s in (take n rest, drop n rest))"

function read_pairs :: "string \<Rightarrow> (string \<times> json) list" where
  "read_pairs s = (if s = [] then []
     else (let (k, s1) = read_net s; (v, s2) = read_net s1 in (k, JStr v) # read_pairs s2))"
  by pat_completeness auto
termination by (relation "measure length") (auto simp: read_net_def Let_def)

declare read_pairs.simps [simp del]

lemma read_net_net [simp]: "read_net (net s @ t) = (s, t)"
proof -
  have "takeWhile (\<lambda>c. c = CHR ''1'') (net s @ t) = replicate (length s) (CHR ''1'')"
    by (simp add: net_def takeWhile_append2 takeWhile_tail)
  then show ?thesis by (simp add: read_net_def Let_def net_def)
qed

fun text_of_json :: "json \<Rightarrow> string" where
  "text_of_json (JStr s) = s"
| "text_of_json _ = []"

definition print_pairs :: "(string \<times> json) list \<Rightarrow> string" where
  "print_pairs fs = concat (map (\<lambda>(k, v). net k @ net (text_of_json v)) fs)"

lemma read_print_pairs: "read_pairs (print_pairs (map (\<lambda>(k, v). (k, JStr v)) fs)) = map (\<lambda>(k, v). (k, JStr v)) fs"
proof (induction fs)
  case (Cons f fs)
  obtain k v where f: "f = (k, v)" by (cases f)
  let ?rest = "print_pairs (map (\<lambda>(k, v). (k, JStr v)) fs)"
  have all: "print_pairs (map (\<lambda>(k, v). (k, JStr v)) (f # fs)) = net k @ net v @ ?rest"
    by (simp add: print_pairs_def f)
  moreover have "net k @ net v @ ?rest \<noteq> []" by (simp add: net_def)
  ultimately show ?case using Cons by (subst read_pairs.simps) (simp add: f)
qed (simp add: print_pairs_def read_pairs.simps)

definition letters :: "string \<Rightarrow> string" where
  "letters s = concat (map (\<lambda>c. [char_of (65 + code_unit c div 16), char_of (65 + code_unit c mod 16)]) s)"

fun read_letters :: "string \<Rightarrow> string" where
  "read_letters (a # b # s) = char_of (16 * (code_unit a - 65) + (code_unit b - 65)) # read_letters s"
| "read_letters _ = []"

lemma code_unit_less: "code_unit c < 256"
  by (cases c) (simp add: code_unit_def)

lemma read_letters_letters [simp]: "read_letters (letters s) = s"
proof (induction s)
  case (Cons c s)
  have "code_unit c div 16 < 16" using code_unit_less[of c] by linarith
  then show ?case using Cons by (simp add: letters_def code_unit_def)
qed (simp add: letters_def)

lemma letters_no_dot: "CHR ''.'' \<notin> set (letters s)"
proof
  assume "CHR ''.'' \<in> set (letters s)"
  then obtain c where "CHR ''.'' = char_of (65 + code_unit c div 16) \<or> CHR ''.'' = char_of (65 + code_unit c mod 16)"
    by (auto simp: letters_def)
  moreover have "code_unit c div 16 < 16" "code_unit c mod 16 < 16" using code_unit_less[of c] by linarith+
  ultimately obtain n :: nat where n: "n < 16" "CHR ''.'' = char_of (65 + n)" by blast
  then have "of_char (CHR ''.'') = 65 + n" by simp
  then show False by simp
qed

definition demo_jose :: "(string, string) jose" where
  "demo_jose = \<lparr>jo_parse = (\<lambda>s. case s of [] \<Rightarrow> None | c # rest \<Rightarrow> if c = CHR ''J'' then Some (JObj (read_pairs rest)) else None),
     jo_stringify = (\<lambda>j. case j of JObj fs \<Rightarrow> CHR ''J'' # print_pairs fs | _ \<Rightarrow> ''x''),
     jo_text = text_of_json, jo_encode = letters,
     jo_decode = (\<lambda>j. case j of JStr s \<Rightarrow> Some (read_letters s) | _ \<Rightarrow> None),
     jo_sign = (\<lambda>alg key bytes. Some (CHR ''S'' # key @ bytes)), jo_verify = (\<lambda>alg pub bytes s. s = CHR ''S'' # pub @ bytes)\<rparr>"

lemma demo_platform: "platform_laws demo_jose"
proof -
  have "letters s = [] \<longleftrightarrow> s = []" for s by (cases s) (simp_all add: letters_def)
  then show ?thesis
    by (auto simp: platform_laws_def demo_jose_def letters_no_dot text_object_def read_print_pairs split: json.splits)
qed

definition demo_body :: json where
  "demo_body = JObj [(''note'', JStr ''x'')]"

definition demo_config :: axios_config where
  "demo_config = \<lparr>ax_url = Some ''/quotes/1'', ax_baseURL = Some ''http://h/b/'', ax_method = Some ''post'',
     ax_headers = [(''fspiop-source'', ''a''), (''fspiop-destination'', ''b'')], ax_data = Some (DataValue demo_body)\<rparr>"

lemma demo_facts:
  "map_of (ax_headers demo_config) ''fspiop-source'' = Some ''a''" "map_of (ax_headers demo_config) ''fspiop-destination'' = Some ''b''"
  "config_body demo_jose demo_config = Some (jo_stringify demo_jose demo_body)"
  "jo_parse demo_jose (jo_stringify demo_jose demo_body) = Some demo_body" "object_keys demo_body \<noteq> 0" "trim ''b'' \<noteq> []"
  "extract_uri (resolveUrl demo_config) = Inr ''/quotes/1''" "after_first ''://'' ''/quotes/1'' = None" "trim ''a'' \<noteq> []"
  by code_simp+

lemma demo_build:
  "build_header (input_of demo_config ''a'' ''/quotes/1'') = Inr [(''alg'', ''RS256''), (''FSPIOP-URI'', ''/quotes/1''),
     (''FSPIOP-HTTP-Method'', ''POST''), (''FSPIOP-Source'', ''a''), (''FSPIOP-Destination'', ''b'')]"
  by code_simp

lemma intercept_succeeds:
  assumes "map_of (ax_headers config) ''fspiop-source'' = Some source" "source \<noteq> []" "config_body J config = Some payload"
    "privateKeys source = Some key" "extract_uri (resolveUrl config) = Inr uri"
    "build_header (input_of config source uri) = Inr built" "canonicalize J payload = Inr canonical"
    "\<And>bytes. jo_sign J ''RSA-SHA256'' key bytes \<noteq> None"
  shows "\<exists>sent. intercept J (PrivateKeyJwsSigner J privateKeys) config = Inr sent"
proof -
  have alg: "hi_alg (input_of config source uri) = None" by (simp add: input_of_def)
  obtain si where si: "signingInput J (input_of config source uri) payload = Inr si" "si_alg si = ''RS256''"
    using assms(6,7) alg by (simp add: signingInput_def Let_def DEFAULT_ALGORITHM_def)
  then obtain h where "sign_header J key (input_of config source uri) payload = Inr h"
    using assms(8)[of "si_bytes si"] by (auto simp: sign_header_def toNodeAlgorithm_def)
  then show ?thesis using assms(1-5) by (simp add: intercept_def PrivateKeyJwsSigner_def Let_def)
qed

lemma demo_intercept: "\<exists>sent. intercept (demo_jose\<lparr>jo_verify := v\<rparr>) (PrivateKeyJwsSigner (demo_jose\<lparr>jo_verify := v\<rparr>) (\<lambda>_. Some ''k'')) demo_config = Inr sent"
proof -
  have "canonicalize (demo_jose\<lparr>jo_verify := v\<rparr>) (jo_stringify demo_jose demo_body) = Inr (jo_stringify demo_jose demo_body)"
    using demo_facts(4) by (simp add: canonicalize_def demo_body_def)
  moreover have "config_body (demo_jose\<lparr>jo_verify := v\<rparr>) demo_config = Some (jo_stringify demo_jose demo_body)"
    by (simp add: config_body_def demo_config_def)
  ultimately show ?thesis
    by (intro intercept_succeeds[OF demo_facts(1) _ _ _ demo_facts(7) demo_build]) (simp_all add: demo_jose_def)
qed

theorem signed_request_accepted_witness:
  "case intercept demo_jose (PrivateKeyJwsSigner demo_jose (\<lambda>_. Some ''k'')) demo_config of
     Inl _ \<Rightarrow> False
   | Inr sent \<Rightarrow> canActivate demo_jose (\<lambda>_. Some ''k'') (\<lambda>_. Require) True (received demo_config sent demo_body) [] = (Inr True, [])"
proof -
  have "demo_jose\<lparr>jo_verify := jo_verify demo_jose\<rparr> = demo_jose" by simp
  then obtain sent where sent: "intercept demo_jose (PrivateKeyJwsSigner demo_jose (\<lambda>_. Some ''k'')) demo_config = Inr sent"
    using demo_intercept[of "jo_verify demo_jose"] by metis
  have signs: "s \<noteq> [] \<and> jo_verify demo_jose alg ''k'' bytes s" if "jo_sign demo_jose alg ''k'' bytes = Some s" for alg bytes s
    using that by (auto simp: demo_jose_def)
  have "canActivate demo_jose (\<lambda>_. Some ''k'') (\<lambda>_. Require) True (received demo_config sent demo_body) [] = (Inr True, [])"
    by (rule signed_request_accepted[OF sent demo_facts(1) _ _ _ signs demo_facts(3,4,5,4)]) (use demo_facts demo_platform in auto)
  then show ?thesis by (simp add: sent)
qed

text \<open>A platform on which only the request above was ever signed.\<close>

definition demo_signed :: "(string, string) jose" where
  "demo_signed = demo_jose\<lparr>jo_verify := (\<lambda>alg pub bytes s. s = CHR ''S'' # pub @ bytes \<and>
     Inr bytes = map_sum id si_bytes (signingInput demo_jose (input_of demo_config ''a'' ''/quotes/1'') (jo_stringify demo_jose demo_body)))\<rparr>"

lemma demo_verify:
  "jo_verify demo_signed alg pub bytes s \<longleftrightarrow> s = CHR ''S'' # pub @ bytes \<and>
    (\<exists>si. signingInput demo_jose (input_of demo_config ''a'' ''/quotes/1'') (jo_stringify demo_jose demo_body) = Inr si \<and> si_bytes si = bytes)"
  by (cases "signingInput demo_jose (input_of demo_config ''a'' ''/quotes/1'') (jo_stringify demo_jose demo_body)")
    (auto simp: demo_signed_def)

lemma demo_sig: "jo_sign demo_jose alg key bytes = Some s \<longleftrightarrow> s = CHR ''S'' # key @ bytes"
  by (auto simp: demo_jose_def)


end
