(* ===== verification/Inbound_Callbacks.thy ===== *)
theory Inbound_Callbacks
  imports Fspiop_Signing Effects Response_Subscriber Audit_History
begin

text \<open>
  The inbound service (\<open>apps/web-inbound/controllers\<close>, \<open>core/inbound/domain\<close>): what the Hub sends is checked by the guard,
  answered at once, and handled afterwards.  A request for this DFSP is audited and published for its connector
  (\<open>core/connector/publisher\<close>); a callback is audited and published for the waiting outbound service
  (\<open>fspiop-response-publisher.ts\<close>).  Bodies are JSON values.  A publication that fails throws; which ones fail is an
  input.
\<close>

section \<open>The world\<close>

datatype connector_message =
    GetPartiesMessage "string option" string string string string "string option"
  | PostQuotesMessage "string option" string string json
  | PostTransfersMessage "string option" string string json
  | PatchTransfersMessage "string option" string string string json

datatype gateway_event =
    Audited message
  | ForConnector string connector_message
  | Answered string json

record gateway_world =
  gw_faults :: "bool list"
  gw_log :: "gateway_event list"
  gw_now :: string

definition emit :: "gateway_event \<Rightarrow> (gateway_world, unit) io" where
  "emit e w = (case gw_faults w of
     [] \<Rightarrow> (Inr (), w\<lparr>gw_log := gw_log w @ [e]\<rparr>)
   | failed # rest \<Rightarrow>
       if failed then (Inl (JsError ''publication failed''), w\<lparr>gw_faults := rest\<rparr>)
       else (Inr (), w\<lparr>gw_faults := rest, gw_log := gw_log w @ [e]\<rparr>))"

section \<open>Publishers\<close>

definition parties_subject :: "string \<Rightarrow> string" where "parties_subject payeeFsp = ''fspiop.'' @ payeeFsp @ ''.get.parties''"
definition quotes_subject :: "string \<Rightarrow> string" where "quotes_subject payeeFsp = ''fspiop.'' @ payeeFsp @ ''.post.quotes''"
definition transfers_subject :: "string \<Rightarrow> string" where "transfers_subject payeeFsp = ''fspiop.'' @ payeeFsp @ ''.post.transfers''"
definition patch_subject :: "string \<Rightarrow> string" where "patch_subject payeeFsp = ''fspiop.'' @ payeeFsp @ ''.patch.transfers''"

text \<open>The subject of a message is built from the FSP it names.\<close>

fun connector_event :: "connector_message \<Rightarrow> gateway_event" where
  "connector_event (GetPartiesMessage c payer payee ty i sub) = ForConnector (parties_subject payee) (GetPartiesMessage c payer payee ty i sub)"
| "connector_event (PostQuotesMessage c payer payee request) = ForConnector (quotes_subject payee) (PostQuotesMessage c payer payee request)"
| "connector_event (PostTransfersMessage c payer payee request) =
     ForConnector (transfers_subject payee) (PostTransfersMessage c payer payee request)"
| "connector_event (PatchTransfersMessage c payer payee i response) =
     ForConnector (patch_subject payee) (PatchTransfersMessage c payer payee i response)"

definition gateway_content :: "string \<Rightarrow> string \<Rightarrow> string \<Rightarrow> string \<Rightarrow> content" where
  "gateway_content correlationId payerFsp payeeFsp occurredAt =
     \<lparr>ct_correlationId = correlationId, ct_payerFsp = payerFsp, ct_payeeFsp = payeeFsp, ct_occurredAt = Some occurredAt,
      ct_payerIdType = None, ct_payerId = None, ct_payerSubId = None, ct_payeeIdType = None, ct_payeeId = None, ct_payeeSubId = None,
      ct_initiatorType = None, ct_transactionType = None, ct_subScenario = None, ct_amountType = None, ct_payerHome = None,
      ct_quotingCurrency = None, ct_quotingAmount = None, ct_request = None, ct_response = None, ct_error = None, ct_home = None\<rparr>"

definition inbound_message :: "msg_phase \<Rightarrow> msg_action \<Rightarrow> content \<Rightarrow> message" where
  "inbound_message phase action c = \<lparr>ms_phase = Some phase, ms_action = Some action, ms_gateway = Some Inbound, ms_content = c\<rparr>"

section \<open>Correlation\<close>

definition thrown :: "(js_throw, 'a) result \<Rightarrow> (js_error, 'a) result" where
  "thrown r = (case r of Inl _ \<Rightarrow> Inl JsThrown | Inr a \<Rightarrow> Inr a)"

fun first_non_blank :: "json option list \<Rightarrow> (js_error, string option) result" where
  "first_non_blank [] = Inr None"
| "first_non_blank (v # vs) =
     res_bind (thrown (trim_value v)) (\<lambda>t. case t of
       None \<Rightarrow> first_non_blank vs
     | Some s \<Rightarrow> if s = [] then first_non_blank vs else Inr (Some s))"

definition resolveGatewayCorrelationId :: "string option \<Rightarrow> json option list \<Rightarrow> (js_error, string) result" where
  "resolveGatewayCorrelationId correlationId identifiers =
     res_bind (first_non_blank identifiers) (\<lambda>i. case i of
       Some s \<Rightarrow> Inr s
     | None \<Rightarrow> res_bind (first_non_blank [map_option JStr correlationId]) (\<lambda>t. case t of
         Some s \<Rightarrow> Inr s
       | None \<Rightarrow> Inl (throw_fspiop MISSING_MANDATORY_ELEMENT
           ''traceparent correlationId or transaction identifier is required'')))"

text \<open>\<open>correlationId?.trim() || auditCorrelationId\<close>.\<close>

definition trimmed_or :: "string option \<Rightarrow> string \<Rightarrow> string" where
  "trimmed_or correlationId auditCorrelationId =
     (case correlationId of None \<Rightarrow> auditCorrelationId | Some c \<Rightarrow> if trim c = [] then auditCorrelationId else trim c)"

section \<open>Handlers of requests for this DFSP\<close>

definition HandleGetParties :: "string option \<Rightarrow> string \<Rightarrow> string \<Rightarrow> string \<Rightarrow> string \<Rightarrow> string option \<Rightarrow> (gateway_world, unit) io" where
  "HandleGetParties correlationId payerFsp payeeFsp partyIdType partyId subId =
     io_bind (io_lift (resolveGatewayCorrelationId correlationId [])) (\<lambda>c.
       emit (connector_event (GetPartiesMessage (Some c) payerFsp payeeFsp partyIdType partyId subId)))"

definition identifiers_of_quote :: "json option \<Rightarrow> (js_error, json option list) result" where
  "identifiers_of_quote request =
     res_bind (thrown (strict_field request ''transactionId'')) (\<lambda>t.
     res_bind (thrown (strict_field request ''transactionRequestId'')) (\<lambda>r.
     res_bind (thrown (strict_field request ''quoteId'')) (\<lambda>q. Inr [t, r, q])))"

definition HandlePostQuotes :: "string option \<Rightarrow> string \<Rightarrow> string \<Rightarrow> json option \<Rightarrow> (gateway_world, unit) io" where
  "HandlePostQuotes correlationId payerFsp payeeFsp request =
     io_bind (io_lift (res_bind (identifiers_of_quote request) (resolveGatewayCorrelationId correlationId))) (\<lambda>c.
     io_bind (io_gets gw_now) (\<lambda>createdAt.
     io_bind (emit (Audited (inbound_message QuotesPhase RequestAction
       ((gateway_content c payerFsp payeeFsp createdAt)\<lparr>ct_request := request\<rparr>)))) (\<lambda>_.
       emit (connector_event (PostQuotesMessage (Some (trimmed_or correlationId c)) payerFsp payeeFsp (the request))))))"

definition HandlePostTransfers :: "string option \<Rightarrow> string \<Rightarrow> string \<Rightarrow> json option \<Rightarrow> (gateway_world, unit) io" where
  "HandlePostTransfers correlationId payerFsp payeeFsp request =
     io_bind (io_lift (res_bind (thrown (strict_field request ''transferId'')) (\<lambda>i. resolveGatewayCorrelationId correlationId [i]))) (\<lambda>c.
     io_bind (io_gets gw_now) (\<lambda>createdAt.
     io_bind (emit (Audited (inbound_message TransfersPhase RequestAction
       ((gateway_content c payerFsp payeeFsp createdAt)\<lparr>ct_request := request\<rparr>)))) (\<lambda>_.
       emit (connector_event (PostTransfersMessage (Some (trimmed_or correlationId c)) payerFsp payeeFsp (the request))))))"

definition HandlePatchTransfers :: "string option \<Rightarrow> string \<Rightarrow> string \<Rightarrow> string \<Rightarrow> json option \<Rightarrow> (gateway_world, unit) io" where
  "HandlePatchTransfers correlationId payerFsp payeeFsp transferId response =
     io_bind (io_lift (resolveGatewayCorrelationId correlationId [Some (JStr transferId)])) (\<lambda>c.
     io_bind (io_gets gw_now) (\<lambda>createdAt.
     io_bind (emit (Audited (inbound_message TransfersPhase RequestAction
       ((gateway_content c payerFsp payeeFsp createdAt)\<lparr>ct_request := response\<rparr>)))) (\<lambda>_.
       emit (connector_event (PatchTransfersMessage (Some c) payerFsp payeeFsp transferId (nullish response JNull))))))"

section \<open>Handlers of callbacks\<close>

definition HandlePutParties :: "string \<Rightarrow> string \<Rightarrow> string \<Rightarrow> string \<Rightarrow> string option \<Rightarrow> json option \<Rightarrow> (gateway_world, unit) io" where
  "HandlePutParties payerFsp payeeFsp partyIdType partyId subId response =
     (case present response of
        None \<Rightarrow> io_return ()
      | Some j \<Rightarrow> emit (Answered (forSuccess_parties payerFsp (Some payeeFsp) partyIdType partyId subId) j))"

definition HandlePutPartiesError :: "string \<Rightarrow> string \<Rightarrow> string \<Rightarrow> string \<Rightarrow> string option \<Rightarrow> json option \<Rightarrow> (gateway_world, unit) io" where
  "HandlePutPartiesError payerFsp payeeFsp partyIdType partyId subId err =
     (case present err of
        None \<Rightarrow> io_return ()
      | Some j \<Rightarrow> emit (Answered (forError_parties payerFsp (Some payeeFsp) partyIdType partyId subId) j))"

definition HandlePutQuotes :: "string option \<Rightarrow> string \<Rightarrow> string \<Rightarrow> string \<Rightarrow> json option \<Rightarrow> (gateway_world, unit) io" where
  "HandlePutQuotes correlationId payerFsp payeeFsp quoteId response =
     (case present response of
        None \<Rightarrow> io_return ()
      | Some j \<Rightarrow>
          io_bind (io_lift (resolveGatewayCorrelationId correlationId [Some (JStr quoteId)])) (\<lambda>c.
          io_bind (io_gets gw_now) (\<lambda>createdAt.
          io_bind (emit (Audited (inbound_message QuotesPhase ResponseAction
            ((gateway_content c payerFsp payeeFsp createdAt)\<lparr>ct_response := Some j\<rparr>)))) (\<lambda>_.
            emit (Answered (forSuccess_quotes payerFsp quoteId) j)))))"

definition HandlePutQuotesError :: "string option \<Rightarrow> string \<Rightarrow> string \<Rightarrow> string \<Rightarrow> json option \<Rightarrow> (gateway_world, unit) io" where
  "HandlePutQuotesError correlationId payerFsp payeeFsp quoteId err =
     (case present err of
        None \<Rightarrow> io_return ()
      | Some j \<Rightarrow>
          io_bind (io_lift (resolveGatewayCorrelationId correlationId [Some (JStr quoteId)])) (\<lambda>c.
          io_bind (io_gets gw_now) (\<lambda>createdAt.
          io_bind (emit (Audited (inbound_message QuotesPhase ErrorAction
            ((gateway_content c payerFsp payeeFsp createdAt)\<lparr>ct_error := Some j\<rparr>)))) (\<lambda>_.
            emit (Answered (forError_quotes payerFsp quoteId) j)))))"

definition HandlePutTransfers :: "string option \<Rightarrow> string \<Rightarrow> string \<Rightarrow> string \<Rightarrow> json option \<Rightarrow> (gateway_world, unit) io" where
  "HandlePutTransfers correlationId payerFsp payeeFsp transferId response =
     (case present response of
        None \<Rightarrow> io_return ()
      | Some j \<Rightarrow>
          io_bind (io_lift (resolveGatewayCorrelationId correlationId [Some (JStr transferId)])) (\<lambda>c.
          io_bind (io_gets gw_now) (\<lambda>createdAt.
          io_bind (emit (Audited (inbound_message TransfersPhase ResponseAction
            ((gateway_content c payerFsp payeeFsp createdAt)\<lparr>ct_response := Some j\<rparr>)))) (\<lambda>_.
            emit (Answered (forSuccess_transfers payerFsp transferId) j)))))"

definition HandlePutTransfersError :: "string option \<Rightarrow> string \<Rightarrow> string \<Rightarrow> string \<Rightarrow> json option \<Rightarrow> (gateway_world, unit) io" where
  "HandlePutTransfersError correlationId payerFsp payeeFsp transferId err =
     (case present err of
        None \<Rightarrow> io_return ()
      | Some j \<Rightarrow>
          io_bind (io_lift (resolveGatewayCorrelationId correlationId [Some (JStr transferId)])) (\<lambda>c.
          io_bind (io_gets gw_now) (\<lambda>createdAt.
          io_bind (emit (Audited (inbound_message TransfersPhase ErrorAction
            ((gateway_content c payerFsp payeeFsp createdAt)\<lparr>ct_error := Some j\<rparr>)))) (\<lambda>_.
            emit (Answered (forError_transfers payerFsp transferId) j)))))"

section \<open>Controllers\<close>

type_synonym headers = "(string \<times> header_value) list"

definition headerValue :: "header_value option \<Rightarrow> string" where
  "headerValue v = (case v of
     None \<Rightarrow> []
   | Some (ManyValues ss) \<Rightarrow> (case ss of [] \<Rightarrow> [] | s # _ \<Rightarrow> s)
   | Some (OneValue s) \<Rightarrow> s)"

definition optionalHeaderValue :: "header_value option \<Rightarrow> string option" where
  "optionalHeaderValue v = (let t = trim (headerValue v) in if t = [] then None else Some t)"

definition FALLBACK_ERROR :: json where
  "FALLBACK_ERROR = text_object [(''errorCode'', et_code (errorType INTERNAL_SERVER_ERROR)), (''errorDescription'', description INTERNAL_SERVER_ERROR)]"

definition toErrorInformationObject :: "json option \<Rightarrow> json" where
  "toErrorInformationObject response = JObj [(''errorInformation'', nullish (field response ''errorInformation'') FALLBACK_ERROR)]"

text \<open>\<open>dispatch\<close>: the command runs after the answer, and its failure is only logged.\<close>

definition dispatch_command :: "(gateway_world, unit) io \<Rightarrow> (gateway_world, unit) io" where
  "dispatch_command m = io_catch m (\<lambda>_. io_return ())"

datatype route =
    GetParties string string "string option"
  | PutParties string string "string option"
  | PutPartiesError string string "string option"
  | PostQuotes
  | PutQuotes string
  | PutQuotesError string
  | PostTransfers
  | PatchTransfers string
  | PutTransfers string
  | PutTransfersError string

definition trace_of :: "headers \<Rightarrow> string option" where "trace_of hs = optionalHeaderValue (map_of hs ''traceparent'')"
definition source_of :: "headers \<Rightarrow> string" where "source_of hs = headerValue (map_of hs ''fspiop-source'')"
definition destination_of :: "headers \<Rightarrow> string" where "destination_of hs = headerValue (map_of hs ''fspiop-destination'')"

text \<open>The body of a posted quote or transfer is read before the answer.\<close>

definition with_body :: "json option \<Rightarrow> string \<Rightarrow> (gateway_world, unit) io \<Rightarrow> (gateway_world, unit) io" where
  "with_body body key m = io_bind (io_lift (thrown (strict_field body key))) (\<lambda>_. dispatch_command m)"

definition getParties_route :: "string \<Rightarrow> string \<Rightarrow> string option \<Rightarrow> headers \<Rightarrow> json option \<Rightarrow> (gateway_world, unit) io" where
  "getParties_route ty i sub hs body = dispatch_command (HandleGetParties (trace_of hs) (source_of hs) (destination_of hs) ty i sub)"

definition putPartiesError_route :: "string \<Rightarrow> string \<Rightarrow> string option \<Rightarrow> headers \<Rightarrow> json option \<Rightarrow> (gateway_world, unit) io" where
  "putPartiesError_route ty i sub hs body = dispatch_command (HandlePutPartiesError (destination_of hs) (source_of hs) ty i sub (Some (toErrorInformationObject body)))"

definition putParties_route :: "string \<Rightarrow> string \<Rightarrow> string option \<Rightarrow> headers \<Rightarrow> json option \<Rightarrow> (gateway_world, unit) io" where
  "putParties_route ty i sub hs body = dispatch_command (HandlePutParties (destination_of hs) (source_of hs) ty i sub body)"

definition postQuotes_route :: "headers \<Rightarrow> json option \<Rightarrow> (gateway_world, unit) io" where
  "postQuotes_route hs body = with_body body ''transactionId'' (HandlePostQuotes (trace_of hs) (source_of hs) (destination_of hs) body)"

definition putQuotesError_route :: "string \<Rightarrow> headers \<Rightarrow> json option \<Rightarrow> (gateway_world, unit) io" where
  "putQuotesError_route i hs body = dispatch_command (HandlePutQuotesError (trace_of hs) (destination_of hs) (source_of hs) i (Some (toErrorInformationObject body)))"

definition putQuotes_route :: "string \<Rightarrow> headers \<Rightarrow> json option \<Rightarrow> (gateway_world, unit) io" where
  "putQuotes_route i hs body = dispatch_command (HandlePutQuotes (trace_of hs) (destination_of hs) (source_of hs) i body)"

definition postTransfers_route :: "headers \<Rightarrow> json option \<Rightarrow> (gateway_world, unit) io" where
  "postTransfers_route hs body = with_body body ''transferId'' (HandlePostTransfers (trace_of hs) (source_of hs) (destination_of hs) body)"

definition patchTransfers_route :: "string \<Rightarrow> headers \<Rightarrow> json option \<Rightarrow> (gateway_world, unit) io" where
  "patchTransfers_route i hs body = dispatch_command (HandlePatchTransfers (trace_of hs) (source_of hs) (destination_of hs) i body)"

definition putTransfersError_route :: "string \<Rightarrow> headers \<Rightarrow> json option \<Rightarrow> (gateway_world, unit) io" where
  "putTransfersError_route i hs body = dispatch_command (HandlePutTransfersError (trace_of hs) (destination_of hs) (source_of hs) i (Some (toErrorInformationObject body)))"

definition putTransfers_route :: "string \<Rightarrow> headers \<Rightarrow> json option \<Rightarrow> (gateway_world, unit) io" where
  "putTransfers_route i hs body = dispatch_command (HandlePutTransfers (trace_of hs) (destination_of hs) (source_of hs) i body)"

lemmas endpoints = getParties_route_def putPartiesError_route_def putParties_route_def postQuotes_route_def putQuotesError_route_def
  putQuotes_route_def postTransfers_route_def patchTransfers_route_def putTransfersError_route_def putTransfers_route_def

fun run_route :: "route \<Rightarrow> headers \<Rightarrow> json option \<Rightarrow> (gateway_world, unit) io" where
  "run_route (GetParties ty i sub) hs body = getParties_route ty i sub hs body"
| "run_route (PutPartiesError ty i sub) hs body = putPartiesError_route ty i sub hs body"
| "run_route (PutParties ty i sub) hs body = putParties_route ty i sub hs body"
| "run_route PostQuotes hs body = postQuotes_route hs body"
| "run_route (PutQuotesError i) hs body = putQuotesError_route i hs body"
| "run_route (PutQuotes i) hs body = putQuotes_route i hs body"
| "run_route PostTransfers hs body = postTransfers_route hs body"
| "run_route (PatchTransfers i) hs body = patchTransfers_route i hs body"
| "run_route (PutTransfersError i) hs body = putTransfersError_route i hs body"
| "run_route (PutTransfers i) hs body = putTransfers_route i hs body"

section \<open>A request from its guard to its answer\<close>

fun success_status :: "route \<Rightarrow> nat" where
  "success_status (GetParties _ _ _) = 202"
| "success_status PostQuotes = 202"
| "success_status PostTransfers = 202"
| "success_status _ = 200"

definition serve :: "('priv, 'pub) jose \<Rightarrow> (string \<Rightarrow> 'pub option) \<Rightarrow> (string \<Rightarrow> verify_mode) \<Rightarrow> bool \<Rightarrow> route \<Rightarrow> http_request
    \<Rightarrow> counters \<times> gateway_world \<Rightarrow> nat \<times> counters \<times> gateway_world" where
  "serve J keys policies useJws r rq s = (case s of (n, w) \<Rightarrow>
     (case canActivate J keys policies useJws rq n of
        (Inl x, n') \<Rightarrow> (toHttpStatus (normalize_exception x), n', w)
      | (Inr _, n') \<Rightarrow> (case run_route r (rq_headers rq) (rq_body rq) w of
            (Inl x, w') \<Rightarrow> (toHttpStatus (normalize_exception x), n', w')
          | (Inr _, w') \<Rightarrow> (success_status r, n', w'))))"

section \<open>What a route publishes\<close>

text \<open>The subject on which a callback is awaited, the body that is published there, and the identifier of its audit record.\<close>

fun waited_subject :: "route \<Rightarrow> headers \<Rightarrow> string option" where
  "waited_subject (PutParties ty i sub) hs = Some (forSuccess_parties (destination_of hs) (Some (source_of hs)) ty i sub)"
| "waited_subject (PutPartiesError ty i sub) hs = Some (forError_parties (destination_of hs) (Some (source_of hs)) ty i sub)"
| "waited_subject (PutQuotes i) hs = Some (forSuccess_quotes (destination_of hs) i)"
| "waited_subject (PutQuotesError i) hs = Some (forError_quotes (destination_of hs) i)"
| "waited_subject (PutTransfers i) hs = Some (forSuccess_transfers (destination_of hs) i)"
| "waited_subject (PutTransfersError i) hs = Some (forError_transfers (destination_of hs) i)"
| "waited_subject _ hs = None"

fun callback_body :: "route \<Rightarrow> json option \<Rightarrow> json option" where
  "callback_body (PutPartiesError ty i sub) body = Some (toErrorInformationObject body)"
| "callback_body (PutQuotesError i) body = Some (toErrorInformationObject body)"
| "callback_body (PutTransfersError i) body = Some (toErrorInformationObject body)"
| "callback_body _ body = present body"

fun path_identifier :: "route \<Rightarrow> string option" where
  "path_identifier (PutQuotes i) = Some i"
| "path_identifier (PutQuotesError i) = Some i"
| "path_identifier (PutTransfers i) = Some i"
| "path_identifier (PutTransfersError i) = Some i"
| "path_identifier (PatchTransfers i) = Some i"
| "path_identifier _ = None"

lemma emit_ok: "gw_faults w = [] \<Longrightarrow> emit e w = (Inr (), w\<lparr>gw_log := gw_log w @ [e]\<rparr>)"
  by (simp add: emit_def)

lemma resolve_path [simp]: "trim i \<noteq> [] \<Longrightarrow> resolveGatewayCorrelationId c [Some (JStr i)] = Inr (trim i)"
  by (simp add: resolveGatewayCorrelationId_def trim_value_def present_def thrown_def)

lemma present_object [simp]: "present (Some (toErrorInformationObject b)) = Some (toErrorInformationObject b)"
  by (simp add: present_def toErrorInformationObject_def)

lemma dispatch_Inr: "m w = (x, w') \<Longrightarrow> dispatch_command m w = (Inr (), w')"
  by (cases x) (simp_all add: dispatch_command_def io_catch_def)

lemmas callback_handlers = HandlePutParties_def HandlePutPartiesError_def HandlePutQuotes_def HandlePutQuotesError_def
  HandlePutTransfers_def HandlePutTransfersError_def

lemma callback_run:
  assumes "waited_subject r hs = Some s" "callback_body r body = Some j" "gw_faults w = []"
    "\<And>i. path_identifier r = Some i \<Longrightarrow> trim i \<noteq> []"
  obtains a where "run_route r hs body w = (Inr (), w\<lparr>gw_log := gw_log w @ a @ [Answered s j]\<rparr>)"
proof -
  have "\<exists>a. run_route r hs body w = (Inr (), w\<lparr>gw_log := gw_log w @ a @ [Answered s j]\<rparr>)"
    using assms by (cases r) (auto simp: endpoints callback_handlers emit_ok dispatch_command_def io_catch_def io_bind_def
        intro: exI[of _ "[]"] exI[of _ "[_]"])
  then show ?thesis using that by blast
qed

section \<open>A callback and its waiter\<close>


definition demo_gateway :: gateway_world where "demo_gateway = \<lparr>gw_faults = [], gw_log = [], gw_now = ''now''\<rparr>"

definition demo_headers :: headers where
  "demo_headers = [(''fspiop-source'', OneValue ''hub''), (''fspiop-destination'', OneValue ''payer'')]"

definition demo_wait :: "json subscriber" where
  "demo_wait = sub_exec (WaitFor (forSuccess_transfers ''payer'' ''t1'') (forError_transfers ''payer'' ''t1'') None 10) (new_subscriber 0)"

lemma demo_subjects: "forError_transfers p i \<noteq> forSuccess_transfers p i"
  by (simp add: forError_transfers_def forSuccess_transfers_def PREFIX_def)

lemma demo_wait: "sub_reach fresh_subjects demo_wait" "match_pending (forError_transfers ''payer'' ''t1'') demo_wait = Some (0, forError_transfers ''payer'' ''t1'')"
    "entries demo_wait = [\<lparr>successSubject = forSuccess_transfers ''payer'' ''t1'', errorSubject = forError_transfers ''payer'' ''t1'',
       hubErrorSubject = None, timer = Some 0, settled = None\<rparr>]"
proof -
  show "sub_reach fresh_subjects demo_wait" unfolding demo_wait_def
    by (rule reach_step[OF reach_init]) (simp_all add: new_subscriber_def)
  show "match_pending (forError_transfers ''payer'' ''t1'') demo_wait = Some (0, forError_transfers ''payer'' ''t1'')"
    using demo_subjects[of "''payer''" "''t1''"]
    by (simp add: demo_wait_def match_pending_def waitFor_def takeFromRecent_def evictExpiredRecent_def new_subscriber_def Let_def)
  show "entries demo_wait = [\<lparr>successSubject = forSuccess_transfers ''payer'' ''t1'', errorSubject = forError_transfers ''payer'' ''t1'',
       hubErrorSubject = None, timer = Some 0, settled = None\<rparr>]"
    by (simp add: demo_wait_def waitFor_def takeFromRecent_def evictExpiredRecent_def new_subscriber_def Let_def)
qed

lemma demo_trim: "trim ''t1'' \<noteq> []"
  by code_simp

lemma demo_route: "destination_of demo_headers = ''payer''" "source_of demo_headers = ''hub''" "trace_of demo_headers = None"
  by (simp_all add: destination_of_def source_of_def trace_of_def demo_headers_def headerValue_def optionalHeaderValue_def Let_def trim_def)


section \<open>Audit before publication\<close>

fun is_parties :: "route \<Rightarrow> bool" where
  "is_parties (GetParties _ _ _) = True"
| "is_parties (PutParties _ _ _) = True"
| "is_parties (PutPartiesError _ _ _) = True"
| "is_parties _ = False"

definition recorded :: "gateway_event \<Rightarrow> bool" where
  "recorded e = (case e of Audited m \<Rightarrow> ms_gateway m = Some Inbound | _ \<Rightarrow> False)"

lemma emit_traces: "traces gw_log (emit e) (\<lambda>r es. es = (if isl r then [] else [e]))"
  by (rule tracesI) (auto simp: emit_def split: list.split)

text \<open>Nothing, a record, or a record and then one message; and at most one message.\<close>

definition audit_first :: "gateway_event list set" where
  "audit_first = {es. es = [] \<or> (\<exists>m. recorded (Audited m) \<and> (es = [Audited m] \<or> (\<exists>e. \<not> recorded e \<and> es = [Audited m, e])))}"

definition message_only :: "gateway_event list set" where
  "message_only = {es. es = [] \<or> (\<exists>e. \<not> recorded e \<and> es = [e])}"

lemma recorded_simps [simp]:
  "recorded (Audited (inbound_message p a c))" "\<not> recorded (ForConnector s m)" "\<not> recorded (Answered s j)"
  "\<not> recorded (connector_event m')"
  by (simp_all add: recorded_def inbound_message_def) (cases m'; simp)

lemma audit_then_emit:
  assumes "recorded (Audited m)" "\<not> recorded e"
  shows "traces gw_log (io_bind (emit (Audited m)) (\<lambda>_. emit e)) (\<lambda>r es. es \<in> audit_first)"
  by (rule traces_bind[OF emit_traces emit_traces]) (use assms in \<open>auto simp: audit_first_def split: if_splits\<close>)

lemma empty_first [simp]: "[] \<in> audit_first" "[] \<in> message_only"
  by (simp_all add: audit_first_def message_only_def)

lemma handler_traces:
  "traces gw_log (HandlePostQuotes c p q body) (\<lambda>r es. es \<in> audit_first)"
  "traces gw_log (HandlePostTransfers c p q body) (\<lambda>r es. es \<in> audit_first)"
  "traces gw_log (HandlePatchTransfers c p q i body) (\<lambda>r es. es \<in> audit_first)"
  "traces gw_log (HandlePutQuotes c p q i body) (\<lambda>r es. es \<in> audit_first)"
  "traces gw_log (HandlePutQuotesError c p q i body) (\<lambda>r es. es \<in> audit_first)"
  "traces gw_log (HandlePutTransfers c p q i body) (\<lambda>r es. es \<in> audit_first)"
  "traces gw_log (HandlePutTransfersError c p q i body) (\<lambda>r es. es \<in> audit_first)"
  unfolding HandlePostQuotes_def HandlePostTransfers_def HandlePatchTransfers_def
    HandlePutQuotes_def HandlePutQuotesError_def HandlePutTransfers_def HandlePutTransfersError_def
  by (cases "present body"; simp add: traces_pure; intro traces_after audit_then_emit; simp)+

lemma parties_traces:
  "traces gw_log (HandleGetParties c p q ty i sub) (\<lambda>r es. es \<in> message_only)"
  "traces gw_log (HandlePutParties p q ty i sub body) (\<lambda>r es. es \<in> message_only)"
  "traces gw_log (HandlePutPartiesError p q ty i sub body) (\<lambda>r es. es \<in> message_only)"
proof -
  have one: "traces gw_log (emit e) (\<lambda>r es. es \<in> message_only)" if "\<not> recorded e" for e
    by (rule traces_mono[OF emit_traces]) (use that in \<open>auto simp: message_only_def split: if_splits\<close>)
  show "traces gw_log (HandleGetParties c p q ty i sub) (\<lambda>r es. es \<in> message_only)" unfolding HandleGetParties_def
    by (intro traces_after one) simp_all
  show "traces gw_log (HandlePutParties p q ty i sub body) (\<lambda>r es. es \<in> message_only)"
    "traces gw_log (HandlePutPartiesError p q ty i sub body) (\<lambda>r es. es \<in> message_only)"
    unfolding HandlePutParties_def HandlePutPartiesError_def by (cases "present body"; simp add: one traces_pure)+
qed

lemma dispatched:
  assumes "traces gw_log m (\<lambda>r es. es \<in> A)"
  obtains es w' where "dispatch_command m w = (Inr (), w')" "gw_log w' = gw_log w @ es" "es \<in> A"
proof (cases "m w")
  case (Pair x w')
  show ?thesis by (rule tracesE[OF assms Pair]) (use dispatch_Inr[of m w x w', OF Pair] that in blast)
qed

text \<open>
  C20: nothing of a quote or a transfer leaves the service before its audit record, and no failure is visible to the Hub.
  Whatever publication fails, handling such a request or callback publishes nothing, its record alone, or its record and
  then one message; handling a party request or callback publishes at most one message and no record; and the answer to
  the Hub is the one given when nothing fails.
\<close>

theorem audit_precedes_publication:
  "\<exists>es. gw_log (snd (run_route r hs body w)) = gw_log w @ es \<and> es \<in> (if is_parties r then message_only else audit_first) \<and>
     fst (run_route r hs body w) = fst (run_route r hs body (w\<lparr>gw_faults := []\<rparr>))"
proof -
  have d: "\<exists>es. gw_log (snd (dispatch_command m w)) = gw_log w @ es \<and> es \<in> A \<and>
      fst (dispatch_command m w) = fst (dispatch_command m (w\<lparr>gw_faults := []\<rparr>))" if "traces gw_log m (\<lambda>r es. es \<in> A)" for m A
    by (rule dispatched[OF that, of w], rule dispatched[OF that, of "w\<lparr>gw_faults := []\<rparr>"]) auto
  have b: "\<exists>es. gw_log (snd (with_body body k m w)) = gw_log w @ es \<and> es \<in> audit_first \<and>
      fst (with_body body k m w) = fst (with_body body k m (w\<lparr>gw_faults := []\<rparr>))" if "traces gw_log m (\<lambda>r es. es \<in> audit_first)" for k m
    using d[OF that] by (cases "thrown (strict_field body k)") (simp_all add: with_body_def)
  show ?thesis by (cases r) (simp_all add: endpoints d b handler_traces parties_traces)
qed

section \<open>What is not as intended\<close>

text \<open>
  Whatever the policy of the FSP it names, an unsigned request without a body is accepted, also a \<open>PUT\<close> of an error.
  The handler replaces the missing error by a default one, so a request that anyone can send rejects the transfer that
  a payer waits for.
\<close>

lemma unsigned_error_settles_waiter:
  assumes "map_of (rq_headers rq) ''fspiop-source'' = Some (OneValue src)" "src \<noteq> []"
    "map_of (rq_headers rq) ''fspiop-signature'' = None" "rq_body rq = None" "trim i \<noteq> []" "gw_faults w = []"
  shows "\<exists>a. serve J keys policies True (PutTransfersError i) rq (n, w) =
    (200, n, w\<lparr>gw_log := gw_log w @ a @ [Answered (forError_transfers (destination_of (rq_headers rq)) i)
       (JObj [(''errorInformation'', FALLBACK_ERROR)])]\<rparr>)"
proof -
  have "toErrorInformationObject None = JObj [(''errorInformation'', FALLBACK_ERROR)]"
    by (simp add: toErrorInformationObject_def field_def)
  then have body: "callback_body (PutTransfersError i) None = Some (JObj [(''errorInformation'', FALLBACK_ERROR)])" by simp
  obtain a where "run_route (PutTransfersError i) (rq_headers rq) None w = (Inr (), w\<lparr>gw_log := gw_log w @ a @
      [Answered (forError_transfers (destination_of (rq_headers rq)) i) (JObj [(''errorInformation'', FALLBACK_ERROR)])]\<rparr>)"
    by (rule callback_run[OF waited_subject.simps(6) body assms(6)]) (use assms(5) in auto)
  moreover have "canActivate J keys policies True rq n = (Inr True, n)"
    using assms(1-4) by (simp add: canActivate_def truthy_header_def request_body_def present_def Let_def)
  ultimately show ?thesis by (intro exI[of _ a]) (simp add: serve_def assms(4) del: run_route.simps)
qed

text \<open>
  The notification \<open>PATCH /transfers\<close> is recorded as the request of the transfer: merged into the row of the transfer,
  its body takes the place of the request that the transfer was made with, and the columns of the notification stay empty.
\<close>

lemma patch_audited_as_transfer:
  assumes "gw_faults w = []" "trim i \<noteq> []" "present (Some body) = Some body"
  shows "\<exists>m. Audited m \<in> set (gw_log (snd (run_route (PatchTransfers i) hs (Some body) w))) \<and>
    (\<forall>(ce :: 'l consumer_env) t inp. message_effect ce t m = Writes inp \<longrightarrow>
       ph_request (tx_transfers inp) = Some body \<and> tx_patch inp = no_patch)"
proof -
  let ?m = "inbound_message TransfersPhase RequestAction
    ((gateway_content (trim i) (source_of hs) (destination_of hs) (gw_now w))\<lparr>ct_request := Some body\<rparr>)"
  have "Audited ?m \<in> set (gw_log (snd (run_route (PatchTransfers i) hs (Some body) w)))"
    using assms(1,2) by (simp add: endpoints HandlePatchTransfers_def emit_ok dispatch_command_def io_catch_def io_bind_def)
  moreover have "ph_request (tx_transfers inp) = Some body \<and> tx_patch inp = no_patch"
    if "message_effect ce t ?m = Writes inp" for ce :: "'l consumer_env" and t inp
    using that by (auto simp: message_effect_def inbound_message_def gateway_content_def writes_def Let_def audit_input.defs
      toTransfersRequestInput_def transfers_fields_def toTransfersRequestedGatewayFields_def
      requested_at_gateway_def required_fields_def res_bind_eq_Inr split: sum.splits gateway.splits option.splits)
  ultimately show ?thesis by blast
qed

end
