(* ===== verification/Fsp_Connector.thy ===== *)
theory Fsp_Connector
  imports Fspiop_Money Effects Inbound_Callbacks
begin

text \<open>
  The payee's connector (\<open>packages/core/connector\<close>): the listeners of the requests that the inbound service publishes,
  the commands that answer the Hub (\<open>Perform*Handler\<close>), \<open>fsp-connector.ts\<close> with its checks, and the ILP conditions of
  \<open>packages/shared/interledger\<close>.  The FSP itself (an \<open>FspClient\<close>) is a parameter whose answers may depend on what happened
  before; so are the hash, the encodings, the dates and the packet format (\<open>il_*\<close>).  A request has the types that the
  source declares for it, where a field that it tests for absence is an option.  Audit publications and requests to the
  Hub take their outcomes from \<open>cw_faults\<close>; the clock stands still while a message is handled.  An audit record is kept
  without the request and the response, which it only repeats.
\<close>

section \<open>Errors of the connector\<close>

text \<open>Something thrown that is neither ours nor an \<open>FspClientException\<close>: which fields with a text it has, and if it is an \<open>Error\<close>.\<close>

record foreign_error =
  fo_isError :: bool
  fo_name :: "string option"
  fo_code :: "string option"
  fo_message :: "string option"
  fo_description :: "string option"

datatype conn_error = Ours js_error | FspClientException string string | Foreign foreign_error

definition text_message :: "string option \<Rightarrow> fspiop_exception" where
  "text_message m = new_FspiopException INTERNAL_SERVER_ERROR
     (MessageArg (Fspiop_Errors.firstNonBlank m (description INTERNAL_SERVER_ERROR))) None"

fun normalize_conn :: "conn_error \<Rightarrow> fspiop_exception" where
  "normalize_conn (Ours e) = normalize_exception e"
| "normalize_conn (FspClientException code d) = text_message (Some d)"
| "normalize_conn (Foreign f) = text_message (if fo_isError f then fo_message f else None)"

definition toAuditError :: "conn_error \<Rightarrow> error_information" where
  "toAuditError e = toErrorObject (normalize_conn e)"

definition looksLikeFspClientException :: "foreign_error \<Rightarrow> bool" where
  "looksLikeFspClientException f \<longleftrightarrow> fo_name f = Some ''FspClientException'' \<or> fo_code f = Some ''FSP_CLIENT_ERROR'' \<or>
     trim (nullish (fo_description f) []) \<noteq> []"

fun toFspClientException :: "conn_error \<Rightarrow> (string \<times> string) option" where
  "toFspClientException (FspClientException code d) = Some (code, d)"
| "toFspClientException (Foreign f) =
     (if \<not> looksLikeFspClientException f then None
      else let code = nullish (fo_code f) []; message = trim (nullish (fo_message f) []); d = trim (nullish (fo_description f) [])
        in Some (if code \<noteq> [] then code else ''FSP_CLIENT_ERROR'', if message \<noteq> [] then message else d))"
| "toFspClientException (Ours e) = None"

text \<open>The message and the description of an \<open>FspClientException\<close> are the same text.\<close>

definition toFspError :: "conn_error \<Rightarrow> string option" where
  "toFspError e = map_option snd (toFspClientException e)"

section \<open>Interledger\<close>

record ilp_prepare =
  ip_amount :: string
  ip_executionCondition :: string
  ip_expiresAt :: js_date
  ip_destination :: string
  ip_data :: string

record fspiop_agreement =
  ag_quoteId :: string
  ag_payer :: json
  ag_payee :: json
  ag_amountType :: string
  ag_scenario :: string
  ag_subScenario :: "string option"
  ag_originalAmount :: money
  ag_payeeFspFee :: money
  ag_payeeFspCommission :: money
  ag_payeeReceiveAmount :: money
  ag_transferAmount :: money
  ag_expireAt :: int

text \<open>
  What the platform and the package \<open>ilp-packet\<close> do: SHA-256, UTF-8 and back, base64url without padding and back,
  the packet format, the JSON of an agreement, \<open>Date\<close> of a text, \<open>toISOString\<close> and \<open>toUTCString\<close>.
\<close>

record ilp =
  il_sha256 :: "string \<Rightarrow> string"
  il_utf8 :: "string \<Rightarrow> string"
  il_text :: "string \<Rightarrow> string"
  il_base64 :: "string \<Rightarrow> string"
  il_unbase64 :: "string \<Rightarrow> string"
  il_serialize :: "ilp_prepare \<Rightarrow> string"
  il_deserialize :: "string \<Rightarrow> ilp_prepare option"
  il_stringify :: "fspiop_agreement \<Rightarrow> string"
  il_date :: "string \<Rightarrow> js_date"
  il_iso :: "int \<Rightarrow> string"
  il_utc :: "int \<Rightarrow> string"

definition address :: "string \<Rightarrow> string" where "address peer = ''g.'' @ peer"

definition base64Encode :: "ilp \<Rightarrow> string \<Rightarrow> bool \<Rightarrow> string" where
  "base64Encode I data padding =
     (let encoded = il_base64 I data
      in if \<not> padding then encoded else encoded @ replicate ((4 - length encoded mod 4) mod 4) (CHR ''=''))"

record prepared =
  base64PreparePacket :: string
  base64Fulfillment :: string
  base64Condition :: string

definition preimage :: "ilp \<Rightarrow> string \<Rightarrow> int \<Rightarrow> string \<Rightarrow> string \<Rightarrow> string" where
  "preimage I ilpSecret amount destination data =
     il_sha256 I (il_utf8 I (ilpSecret @ '':'' @ int_text amount @ '':'' @ destination @ '':'' @ data))"

definition prepare :: "ilp \<Rightarrow> string \<Rightarrow> string \<Rightarrow> int \<Rightarrow> string \<Rightarrow> int \<Rightarrow> prepared" where
  "prepare I ilpSecret peer amount data expireAt =
     (let pre = preimage I ilpSecret amount peer data;
          condition = il_sha256 I pre;
          packet = \<lparr>ip_amount = int_text amount, ip_executionCondition = condition, ip_expiresAt = Date expireAt,
                    ip_destination = peer, ip_data = il_utf8 I data\<rparr>
      in \<lparr>base64PreparePacket = base64Encode I (il_serialize I packet) True,
          base64Fulfillment = base64Encode I pre False,
          base64Condition = base64Encode I condition False\<rparr>)"

definition fulfil :: "ilp \<Rightarrow> string \<Rightarrow> string \<Rightarrow> int \<Rightarrow> string \<Rightarrow> string \<Rightarrow> int \<Rightarrow> bool \<times> string" where
  "fulfil I ilpSecret peer amount data condition lifetimeSeconds =
     (let packet = prepare I ilpSecret peer amount data lifetimeSeconds
      in (base64Condition packet = condition, base64Fulfillment packet))"

definition unwrap :: "ilp \<Rightarrow> string \<Rightarrow> ilp_prepare option" where
  "unwrap I base64Packet = il_deserialize I (il_unbase64 I base64Packet)"

text \<open>\<open>BigInt\<close> of a text; a text with a prefix for another base does not come out of a packet and counts as refused.\<close>

definition big_int :: "string \<Rightarrow> int option" where
  "big_int s = (let t = trim s in
     case t of
       [] \<Rightarrow> Some 0
     | c # ds \<Rightarrow>
         if list_all is_digit t then Some (int (nat_of_dec t))
         else if (c = CHR ''-'' \<or> c = CHR ''+'') \<and> ds \<noteq> [] \<and> list_all is_digit ds
         then Some (if c = CHR ''-'' then - int (nat_of_dec ds) else int (nat_of_dec ds))
         else None)"

definition forRequestBody :: "ilp \<Rightarrow> int \<Rightarrow> string" where
  "forRequestBody I t =
     (let iso = il_iso I t
      in case dropWhile (\<lambda>c. c \<noteq> CHR ''Z'') iso of
           [] \<Rightarrow> iso
         | _ # rest \<Rightarrow> takeWhile (\<lambda>c. c \<noteq> CHR ''Z'') iso @ ''+00:00'' @ rest)"

section \<open>Requests and responses\<close>

record quote_request =
  qr_quoteId :: string
  qr_transactionId :: "string option"
  qr_transactionRequestId :: "string option"
  qr_payer :: "json option"
  qr_payee :: "json option"
  qr_amountType :: string
  qr_amount :: "money option"
  qr_fees :: "money option"
  qr_scenario :: "string option"
  qr_subScenario :: "string option"
  qr_extensionList :: "json option"

record quote_response =
  qs_transferAmount :: money
  qs_payeeReceiveAmount :: money
  qs_payeeFspFee :: money
  qs_payeeFspCommission :: money
  qs_expiration :: string
  qs_ilpPacket :: string
  qs_condition :: string
  qs_extensionList :: "json list option"

record quote_output =
  qo_transferAmount :: "money option"
  qo_payeeReceiveAmount :: "money option"
  qo_fees :: "json list option"

record transfer_request =
  tr_transferId :: "string option"
  tr_payeeFsp :: "string option"
  tr_amount :: "money option"
  tr_ilpPacket :: "string option"
  tr_condition :: "string option"
  tr_expiration :: "string option"

record transfer_response =
  ts_transferState :: string
  ts_fulfilment :: "string option"
  ts_completedTimestamp :: "string option"
  ts_extensionList :: "json option"

datatype fsp_call =
    AskParties string string "string option"
  | AskQuote string "string option" string money "money option" "json option"
  | AskTransfer string money string
  | AskPatch string string string json

text \<open>An \<open>FspClient\<close>, whose answers may depend on the number of events so far.\<close>

record fsp_client =
  fc_getParties :: "nat \<Rightarrow> string \<Rightarrow> string \<Rightarrow> string option \<Rightarrow> (conn_error, json) result"
  fc_postQuotes :: "nat \<Rightarrow> string \<Rightarrow> string option \<Rightarrow> string \<Rightarrow> money \<Rightarrow> money option \<Rightarrow> json option \<Rightarrow> (conn_error, quote_output) result"
  fc_postTransfers :: "nat \<Rightarrow> string \<Rightarrow> money \<Rightarrow> string \<Rightarrow> (conn_error, transfer_response) result"
  fc_patchTransfers :: "nat \<Rightarrow> string \<Rightarrow> string \<Rightarrow> string \<Rightarrow> json \<Rightarrow> (conn_error, unit) result"

record connector_settings =
  cn_connectorId :: string
  cn_supportedCurrencies :: "string list"
  cn_ilpSecret :: string

definition isCurrencySupported :: "connector_settings \<Rightarrow> string \<Rightarrow> bool" where
  "isCurrencySupported cs currency = (currency \<in> set (cn_supportedCurrencies cs))"

section \<open>The world\<close>

datatype hub_callback =
    PutPartiesCallback string string "string option" json
  | PutPartiesErrorCallback string string "string option" error_information
  | PutQuotesCallback string quote_response
  | PutQuotesErrorCallback string error_information
  | PutTransfersCallback "string option" transfer_response
  | PutTransfersErrorCallback "string option" error_information

datatype audit_error = AuditError error_information | AuditAndFspError error_information string | OnlyFspError string

datatype conn_event =
    Recorded msg_phase msg_action string string string "audit_error option"
  | Asked fsp_call
  | Sent "(string \<times> string) list" hub_callback
  | NotSent "(string \<times> string) list" hub_callback

record conn_world =
  cw_faults :: "conn_error option list"
  cw_log :: "conn_event list"
  cw_now :: int

type_synonym 'a conn = "(conn_world, conn_error, 'a) task"

definition ours :: "(js_error, 'a) result \<Rightarrow> (conn_error, 'a) result" where
  "ours r = (case r of Inl e \<Rightarrow> Inl (Ours e) | Inr a \<Rightarrow> Inr a)"

definition record_audit :: "conn_event \<Rightarrow> unit conn" where
  "record_audit e w = (case cw_faults w of
     [] \<Rightarrow> (Inr (), w\<lparr>cw_log := cw_log w @ [e]\<rparr>)
   | None # rest \<Rightarrow> (Inr (), w\<lparr>cw_faults := rest, cw_log := cw_log w @ [e]\<rparr>)
   | Some x # rest \<Rightarrow> (Inl x, w\<lparr>cw_faults := rest\<rparr>))"

definition put_hub :: "(string \<times> string) list \<Rightarrow> hub_callback \<Rightarrow> unit conn" where
  "put_hub hs c w = (case cw_faults w of
     [] \<Rightarrow> (Inr (), w\<lparr>cw_log := cw_log w @ [Sent hs c]\<rparr>)
   | None # rest \<Rightarrow> (Inr (), w\<lparr>cw_faults := rest, cw_log := cw_log w @ [Sent hs c]\<rparr>)
   | Some x # rest \<Rightarrow> (Inl x, w\<lparr>cw_faults := rest, cw_log := cw_log w @ [NotSent hs c]\<rparr>))"

definition ask :: "fsp_call \<Rightarrow> (nat \<Rightarrow> (conn_error, 'a) result) \<Rightarrow> 'a conn" where
  "ask call answer w = (answer (length (cw_log w)), w\<lparr>cw_log := cw_log w @ [Asked call]\<rparr>)"

section \<open>Validation\<close>

text \<open>\<open>v?.trim()\<close>, where a blank text is refused like a missing one.\<close>

definition required_text :: "string option \<Rightarrow> string \<Rightarrow> (js_error, unit) result" where
  "required_text v message =
     ensure (trim (nullish v []) \<noteq> []) (throw_fspiop MISSING_MANDATORY_ELEMENT message)"

definition unsupported_by :: "connector_settings \<Rightarrow> string \<Rightarrow> js_error" where
  "unsupported_by cs currency = throw_fspiop PAYEE_UNSUPPORTED_CURRENCY
     (''Currency '' @ currency @ '' is not supported by connector '' @ cn_connectorId cs)"

text \<open>\<open>FspiopMoney.validate\<close> rewrites the amounts, so each check returns what it checked as it is afterwards.\<close>

definition validatePostQuotesRequest :: "connector_settings \<Rightarrow> quote_request \<Rightarrow> (js_error, quote_request) result" where
  "validatePostQuotesRequest cs r =
     (case qr_amount r of
        None \<Rightarrow> Inl (throw_fspiop MISSING_MANDATORY_ELEMENT ''postQuotesRequest.amount.currency is required'')
      | Some m \<Rightarrow>
          res_bind (ensure (isCurrencySupported cs (m_currency m)) (unsupported_by cs (m_currency m))) (\<lambda>_.
          res_bind (validate_money (Some m)) (\<lambda>amount.
          res_bind (validate_money (qr_fees r)) (\<lambda>fees.
            Inr (r\<lparr>qr_amount := amount, qr_fees := fees\<rparr>)))))"

definition validatePostQuotesOutput :: "connector_settings \<Rightarrow> quote_output \<Rightarrow> (js_error, money \<times> money) result" where
  "validatePostQuotesOutput cs out =
     (case qo_transferAmount out of
        None \<Rightarrow> Inl (throw_fspiop INTERNAL_SERVER_ERROR ''FspClient.postQuotes returned empty transferAmount'')
      | Some transferAmount \<Rightarrow>
     (case qo_payeeReceiveAmount out of
        None \<Rightarrow> Inl (throw_fspiop INTERNAL_SERVER_ERROR ''FspClient.postQuotes returned empty payeeReceiveAmount'')
      | Some payeeReceiveAmount \<Rightarrow>
          res_bind (ensure (isCurrencySupported cs (m_currency transferAmount)) (unsupported_by cs (m_currency transferAmount))) (\<lambda>_.
          res_bind (ensure (m_currency transferAmount = m_currency payeeReceiveAmount)
            (throw_fspiop GENERIC_VALIDATION_ERROR ''transferAmount.currency and payeeReceiveAmount.currency must match.'')) (\<lambda>_.
          res_bind (validate_money (Some transferAmount)) (\<lambda>t.
          res_bind (validate_money (Some payeeReceiveAmount)) (\<lambda>p.
            Inr (the t, the p)))))))"

definition validatePostTransfersRequest :: "connector_settings \<Rightarrow> transfer_request \<Rightarrow> (js_error, transfer_request) result" where
  "validatePostTransfersRequest cs r =
     res_bind (required_text (tr_transferId r) ''postTransferRequest.transferId is required'') (\<lambda>_.
     res_bind (required_text (tr_payeeFsp r) ''postTransferRequest.payeeFsp is required'') (\<lambda>_.
     (case tr_amount r of
        None \<Rightarrow> Inl (throw_fspiop MISSING_MANDATORY_ELEMENT ''postTransferRequest.amount is required'')
      | Some m \<Rightarrow>
          res_bind (ensure (isCurrencySupported cs (m_currency m)) (unsupported_by cs (m_currency m))) (\<lambda>_.
          res_bind (required_text (tr_ilpPacket r) ''postTransferRequest.ilpPacket is required'') (\<lambda>_.
          res_bind (required_text (tr_condition r) ''postTransferRequest.condition is required'') (\<lambda>_.
          res_bind (required_text (tr_expiration r) ''postTransferRequest.expiration is required'') (\<lambda>_.
          res_bind (validate_money (Some m)) (\<lambda>amount.
            Inr (r\<lparr>tr_amount := amount\<rparr>)))))))))"

text \<open>The checks of a validated request against its packet; the clock reads \<open>clock\<close>.\<close>

definition validateAndUnwrapTransferIlpPacket :: "ilp \<Rightarrow> int \<Rightarrow> transfer_request \<Rightarrow> (js_error, ilp_prepare) result" where
  "validateAndUnwrapTransferIlpPacket I clock r =
     (let amount = the (tr_amount r) in
      case get_currency (m_currency amount) of
        None \<Rightarrow> Inl (throw_fspiop PAYEE_UNSUPPORTED_CURRENCY (''Unsupported currency '' @ m_currency amount))
      | Some profile \<Rightarrow>
     (case unwrap I (the (tr_ilpPacket r)) of
        None \<Rightarrow> Inl (throw_fspiop GENERIC_VALIDATION_ERROR ''postTransferRequest.ilpPacket is invalid'')
      | Some packet \<Rightarrow>
     (case big_int (ip_amount packet) of
        None \<Rightarrow> Inl (throw_fspiop GENERIC_VALIDATION_ERROR ''ILP packet amount is invalid'')
      | Some ilpPacketAmount \<Rightarrow>
          res_bind (serialize (m_amount amount) (int (currency_scale profile)) HalfUp) (\<lambda>transferAmount.
          res_bind (ensure (ilpPacketAmount = transferAmount)
            (throw_fspiop MODIFIED_REQUEST ''Transfer amount and ILP packet amount must be the same'')) (\<lambda>_.
          (case il_date I (the (tr_expiration r)) of
             InvalidDate \<Rightarrow> Inl (throw_fspiop GENERIC_VALIDATION_ERROR ''postTransferRequest.expiration is invalid'')
           | Date requested \<Rightarrow>
          (case ip_expiresAt packet of
             InvalidDate \<Rightarrow> Inl (throw_fspiop GENERIC_VALIDATION_ERROR ''ILP packet expiration is invalid'')
           | Date expires \<Rightarrow>
               res_bind (ensure (requested = expires)
                 (throw_fspiop MODIFIED_REQUEST ''Transfer expiration and ILP packet expiration must be the same'')) (\<lambda>_.
               res_bind (ensure (clock < requested) (throw_fspiop TRANSFER_EXPIRED ''Transfer already expired'')) (\<lambda>_.
                 Inr packet)))))))))"

section \<open>FspConnector\<close>

record connector =
  co_settings :: connector_settings
  co_fsp :: fsp_client
  co_ilp :: ilp

definition FIFTEEN_MINUTES :: int where "FIFTEEN_MINUTES = 900"

definition resolveLifetimeSeconds :: "ilp \<Rightarrow> int \<Rightarrow> string option \<Rightarrow> int" where
  "resolveLifetimeSeconds I clock expiration =
     (case expiration of
        None \<Rightarrow> FIFTEEN_MINUTES
      | Some s \<Rightarrow> (case il_date I s of
            InvalidDate \<Rightarrow> FIFTEEN_MINUTES
          | Date expiresAt \<Rightarrow> max 1 ((expiresAt - clock) div 1000)))"

definition toZeroMoney :: "string \<Rightarrow> money" where
  "toZeroMoney currency = \<lparr>m_currency = currency, m_amount = ''0''\<rparr>"

definition toAgreement :: "quote_request \<Rightarrow> money \<Rightarrow> money \<Rightarrow> int \<Rightarrow> (js_error, fspiop_agreement) result" where
  "toAgreement r transferAmount payeeReceiveAmount expireAt =
     (case (qr_payer r, qr_payee r, qr_scenario r) of
        (Some payer, Some payee, Some scenario) \<Rightarrow> Inr \<lparr>
          ag_quoteId = qr_quoteId r, ag_payer = payer, ag_payee = payee, ag_amountType = qr_amountType r,
          ag_scenario = scenario, ag_subScenario = qr_subScenario r, ag_originalAmount = the (qr_amount r),
          ag_payeeFspFee = toZeroMoney (m_currency transferAmount),
          ag_payeeFspCommission = toZeroMoney (m_currency transferAmount),
          ag_payeeReceiveAmount = payeeReceiveAmount, ag_transferAmount = transferAmount, ag_expireAt = expireAt\<rparr>
      | _ \<Rightarrow> Inl (throw_fspiop MISSING_MANDATORY_ELEMENT
          ''payer.partyIdInfo, payee.partyIdInfo and transactionType.scenario are required''))"

definition getParties :: "connector \<Rightarrow> string \<Rightarrow> string \<Rightarrow> string option \<Rightarrow> json conn" where
  "getParties co partyIdType partyId subId =
     ask (AskParties partyIdType partyId subId) (\<lambda>n. fc_getParties (co_fsp co) n partyIdType partyId subId)"

text \<open>What \<open>postQuotes\<close> does with the answer of the FSP.\<close>

definition quote_answer :: "connector \<Rightarrow> int \<Rightarrow> quote_request \<Rightarrow> quote_output \<Rightarrow> (js_error, quote_response) result" where
  "quote_answer co clock r out =
     res_bind (validatePostQuotesOutput (co_settings co) out) (\<lambda>(transferAmount, payeeReceiveAmount).
     (case get_currency (m_currency transferAmount) of
        None \<Rightarrow> Inl (throw_fspiop PAYEE_UNSUPPORTED_CURRENCY (''Unsupported currency '' @ m_currency transferAmount))
      | Some profile \<Rightarrow>
          res_bind (serialize (m_amount transferAmount) (int (currency_scale profile)) HalfUp) (\<lambda>transferAmountMinor.
          let I = co_ilp co; expireAt = clock + FIFTEEN_MINUTES * 1000 in
          res_bind (toAgreement r transferAmount payeeReceiveAmount expireAt) (\<lambda>agreement.
          let p = prepare I (cn_ilpSecret (co_settings co)) (address (cn_connectorId (co_settings co)))
                transferAmountMinor (il_stringify I agreement) expireAt
          in Inr \<lparr>qs_transferAmount = transferAmount, qs_payeeReceiveAmount = payeeReceiveAmount,
               qs_payeeFspFee = toZeroMoney (m_currency transferAmount),
               qs_payeeFspCommission = toZeroMoney (m_currency transferAmount),
               qs_expiration = forRequestBody I expireAt, qs_ilpPacket = base64PreparePacket p,
               qs_condition = base64Condition p,
               qs_extensionList = (case qo_fees out of Some (x # xs) \<Rightarrow> Some (x # xs) | _ \<Rightarrow> None)\<rparr>))))"

definition postQuotes :: "connector \<Rightarrow> quote_request \<Rightarrow> quote_response conn" where
  "postQuotes co r0 =
     io_bind (io_lift (ours (validatePostQuotesRequest (co_settings co) r0))) (\<lambda>r.
     (case qr_scenario r of
        None \<Rightarrow> io_throw (Ours (throw_fspiop MISSING_MANDATORY_ELEMENT ''postQuotesRequest.transactionType.scenario is required''))
      | Some scenario \<Rightarrow>
          io_bind (ask (AskQuote scenario (qr_subScenario r) (qr_amountType r) (the (qr_amount r)) (qr_fees r) (qr_extensionList r))
            (\<lambda>n. fc_postQuotes (co_fsp co) n scenario (qr_subScenario r) (qr_amountType r) (the (qr_amount r)) (qr_fees r)
               (qr_extensionList r))) (\<lambda>out.
          io_bind (io_gets cw_now) (\<lambda>clock. io_lift (ours (quote_answer co clock r out))))))"

definition fulfilTransfer :: "connector \<Rightarrow> int \<Rightarrow> transfer_request \<Rightarrow> ilp_prepare \<Rightarrow> bool \<times> string" where
  "fulfilTransfer co clock r packet =
     fulfil (co_ilp co) (cn_ilpSecret (co_settings co)) (ip_destination packet) (the (big_int (ip_amount packet)))
       (il_text (co_ilp co) (ip_data packet)) (the (tr_condition r)) (resolveLifetimeSeconds (co_ilp co) clock (tr_expiration r))"

definition postTransfers :: "connector \<Rightarrow> transfer_request \<Rightarrow> transfer_response conn" where
  "postTransfers co r0 =
     io_bind (io_lift (ours (validatePostTransfersRequest (co_settings co) r0))) (\<lambda>r.
     io_bind (io_gets cw_now) (\<lambda>clock.
     io_bind (io_lift (ours (validateAndUnwrapTransferIlpPacket (co_ilp co) clock r))) (\<lambda>packet.
       let (valid, fulfilment) = fulfilTransfer co clock r packet;
           transferId = the (tr_transferId r); amount = the (tr_amount r); payee = the (tr_payeeFsp r)
       in io_bind (ask (AskTransfer transferId amount payee) (\<lambda>n. fc_postTransfers (co_fsp co) n transferId amount payee)) (\<lambda>response.
          io_return (response\<lparr>
            ts_transferState := (if valid then ts_transferState response else ''ABORTED''),
            ts_fulfilment := (if valid then Some fulfilment else None)\<rparr>)))))"

definition patchTransfers :: "connector \<Rightarrow> string \<Rightarrow> string \<Rightarrow> string \<Rightarrow> json \<Rightarrow> unit conn" where
  "patchTransfers co payerFsp payeeFsp transferId response =
     ask (AskPatch payerFsp payeeFsp transferId response) (\<lambda>n. fc_patchTransfers (co_fsp co) n payerFsp payeeFsp transferId response)"

section \<open>Headers\<close>

definition createHeaders :: "string \<Rightarrow> string option \<Rightarrow> string option \<Rightarrow> string \<Rightarrow> string \<Rightarrow> string option \<Rightarrow> (string \<times> string) list" where
  "createHeaders date traceparent accept contentType source destination =
     (case accept of None \<Rightarrow> [] | Some a \<Rightarrow> [(''accept'', a)]) @
     (case traceparent of None \<Rightarrow> [] | Some t \<Rightarrow> [(''traceparent'', t)]) @
     [(''content-type'', contentType), (''date'', date), (''fspiop-source'', source)] @
     (case destination of None \<Rightarrow> [] | Some d \<Rightarrow> [(''fspiop-destination'', d)])"

definition PARTIES_TYPE :: string where "PARTIES_TYPE = ''application/vnd.interoperability.parties+json;version=2.0''"
definition QUOTES_TYPE :: string where "QUOTES_TYPE = ''application/vnd.interoperability.quotes+json;version=2.0''"
definition TRANSFERS_TYPE :: string where "TRANSFERS_TYPE = ''application/vnd.interoperability.transfers+json;version=2.0''"

definition parties_headers :: "string \<Rightarrow> string option \<Rightarrow> string \<Rightarrow> string \<Rightarrow> (string \<times> string) list" where
  "parties_headers date t payer payee = createHeaders date t (Some PARTIES_TYPE) PARTIES_TYPE payee (Some payer)"
definition quotes_headers :: "string \<Rightarrow> string option \<Rightarrow> string \<Rightarrow> string \<Rightarrow> (string \<times> string) list" where
  "quotes_headers date t payer payee = createHeaders date t None QUOTES_TYPE payee (Some payer)"
definition transfers_headers :: "string \<Rightarrow> string option \<Rightarrow> string \<Rightarrow> string \<Rightarrow> (string \<times> string) list" where
  "transfers_headers date t payer payee = createHeaders date t None TRANSFERS_TYPE payee (Some payer)"

section \<open>Commands\<close>

fun first_text :: "string option list \<Rightarrow> string option" where
  "first_text [] = None"
| "first_text (v # vs) = (let t = trim (nullish v []) in if t = [] then first_text vs else Some t)"

definition resolveCorrelationId :: "string option \<Rightarrow> string option list \<Rightarrow> (js_error, string) result" where
  "resolveCorrelationId correlationId identifiers =
     (case first_text identifiers of
        Some i \<Rightarrow> Inr i
      | None \<Rightarrow> (case first_text [correlationId] of
            Some c \<Rightarrow> Inr c
          | None \<Rightarrow> Inl (throw_fspiop MISSING_MANDATORY_ELEMENT
              ''traceparent correlationId or transaction identifier is required'')))"

text \<open>The one of the parties command, which takes the correlation as it is.\<close>

definition resolveCorrelationId_parties :: "string option \<Rightarrow> (js_error, string) result" where
  "resolveCorrelationId_parties correlationId =
     (case correlationId of
        None \<Rightarrow> Inl (throw_fspiop MISSING_MANDATORY_ELEMENT ''traceparent correlationId is required'')
      | Some c \<Rightarrow> if trim c = [] then Inl (throw_fspiop MISSING_MANDATORY_ELEMENT ''traceparent correlationId is required'')
          else Inr c)"

text \<open>
  The \<open>catch\<close> block of the parties, quotes and transfers commands: the Hub is told, then the audit; a failure to tell the
  Hub replaces the error, a failure of the audit does not, and the error is thrown on as an \<open>FspiopException\<close>.
\<close>

definition callback_failed :: "(error_information \<Rightarrow> unit conn) \<Rightarrow> (audit_error \<Rightarrow> unit conn) \<Rightarrow> conn_error \<Rightarrow> unit conn" where
  "callback_failed put_error record_error err =
     io_bind (io_catch
         (io_bind (put_error (toAuditError err)) (\<lambda>_. io_return (err, toAuditError err, toFspError err)))
         (\<lambda>putError. io_return (putError, toAuditError putError, or_else (toFspError err) (toFspError putError))))
       (\<lambda>(callbackError, callbackAuditError, callbackFspError).
          io_bind (io_catch
              (record_error (case callbackFspError of
                 None \<Rightarrow> AuditError callbackAuditError | Some f \<Rightarrow> AuditAndFspError callbackAuditError f))
              (\<lambda>_. io_return ()))
            (\<lambda>_. io_throw (Ours (JsFspiop (normalize_conn callbackError)))))"

definition http_date :: "connector \<Rightarrow> string conn" where
  "http_date co = io_gets (\<lambda>w. il_utc (co_ilp co) (cw_now w))"

definition PerformGetParties :: "connector \<Rightarrow> string option \<Rightarrow> string \<Rightarrow> string \<Rightarrow> string \<Rightarrow> string \<Rightarrow> string option \<Rightarrow> unit conn" where
  "PerformGetParties co correlationId payerFsp payeeFsp partyIdType partyId subId =
     io_bind (io_lift (ours (resolveCorrelationId_parties correlationId))) (\<lambda>c.
     io_bind (http_date co) (\<lambda>date.
     let hs = parties_headers date (Some c) payerFsp (cn_connectorId (co_settings co)) in
     io_bind (record_audit (Recorded PartiesPhase RequestAction c payerFsp payeeFsp None)) (\<lambda>_.
       io_catch
         (io_bind (getParties co partyIdType partyId subId) (\<lambda>response.
          io_bind (put_hub hs (PutPartiesCallback partyIdType partyId subId response)) (\<lambda>_.
            record_audit (Recorded PartiesPhase ResponseAction c payerFsp payeeFsp None))))
         (callback_failed (\<lambda>info. put_hub hs (PutPartiesErrorCallback partyIdType partyId subId info))
            (\<lambda>e. record_audit (Recorded PartiesPhase ErrorAction c payerFsp payeeFsp (Some e)))))))"

definition PerformPostQuotes :: "connector \<Rightarrow> string option \<Rightarrow> string \<Rightarrow> string \<Rightarrow> quote_request \<Rightarrow> unit conn" where
  "PerformPostQuotes co correlationId payerFsp payeeFsp request =
     io_bind (io_lift (ours (resolveCorrelationId correlationId
       [qr_transactionId request, qr_transactionRequestId request, Some (qr_quoteId request)]))) (\<lambda>c.
     io_bind (http_date co) (\<lambda>date.
     let hs = quotes_headers date (Some (trimmed_or correlationId c)) payerFsp (cn_connectorId (co_settings co)) in
     io_bind (record_audit (Recorded QuotesPhase RequestAction c payerFsp payeeFsp None)) (\<lambda>_.
       io_catch
         (io_bind (postQuotes co request) (\<lambda>response.
          io_bind (put_hub hs (PutQuotesCallback (qr_quoteId request) response)) (\<lambda>_.
            record_audit (Recorded QuotesPhase ResponseAction c payerFsp payeeFsp None))))
         (callback_failed (\<lambda>info. put_hub hs (PutQuotesErrorCallback (qr_quoteId request) info))
            (\<lambda>e. record_audit (Recorded QuotesPhase ErrorAction c payerFsp payeeFsp (Some e)))))))"

definition PerformPostTransfers :: "connector \<Rightarrow> string option \<Rightarrow> string \<Rightarrow> string \<Rightarrow> transfer_request \<Rightarrow> unit conn" where
  "PerformPostTransfers co correlationId payerFsp payeeFsp request =
     io_bind (io_lift (ours (resolveCorrelationId correlationId [tr_transferId request]))) (\<lambda>c.
     io_bind (http_date co) (\<lambda>date.
     let hs = transfers_headers date (Some (trimmed_or correlationId c)) payerFsp (cn_connectorId (co_settings co)) in
     io_bind (record_audit (Recorded TransfersPhase RequestAction c payerFsp payeeFsp None)) (\<lambda>_.
       io_catch
         (io_bind (postTransfers co request) (\<lambda>response.
          io_bind (put_hub hs (PutTransfersCallback (tr_transferId request) response)) (\<lambda>_.
            record_audit (Recorded TransfersPhase ResponseAction c payerFsp payeeFsp None))))
         (callback_failed (\<lambda>info. put_hub hs (PutTransfersErrorCallback (tr_transferId request) info))
            (\<lambda>e. record_audit (Recorded TransfersPhase ErrorAction c payerFsp payeeFsp (Some e)))))))"

text \<open>The Hub is not told, only an error of the FSP is audited, and the error is thrown on as it is.\<close>

definition PerformPatchTransfers :: "connector \<Rightarrow> string option \<Rightarrow> string \<Rightarrow> string \<Rightarrow> string \<Rightarrow> json \<Rightarrow> unit conn" where
  "PerformPatchTransfers co correlationId payerFsp payeeFsp transferId response =
     io_bind (io_lift (ours (resolveCorrelationId correlationId [Some transferId]))) (\<lambda>c.
     io_bind (record_audit (Recorded PatchPhase RequestAction c payerFsp payeeFsp None)) (\<lambda>_.
       io_catch
         (io_bind (patchTransfers co payerFsp payeeFsp transferId response) (\<lambda>_.
            record_audit (Recorded PatchPhase ResponseAction c payerFsp payeeFsp None)))
         (\<lambda>err. io_bind
            (case toFspError err of
               None \<Rightarrow> io_return ()
             | Some f \<Rightarrow> record_audit (Recorded PatchPhase ErrorAction c payerFsp payeeFsp (Some (OnlyFspError f))))
            (\<lambda>_. io_throw err))))"

section \<open>Listeners\<close>

definition subjectFor :: "(string \<Rightarrow> string) \<Rightarrow> connector \<Rightarrow> string" where
  "subjectFor subject co = subject (trim (cn_connectorId (co_settings co)))"

definition durable_char :: "char \<Rightarrow> char" where
  "durable_char ch = (if is_digit ch \<or> 97 \<le> code_unit ch \<and> code_unit ch \<le> 122 \<or> ch = CHR ''_'' \<or> ch = CHR ''-'' then ch else CHR ''-'')"

definition normalizeDurableSegment :: "string \<Rightarrow> string" where
  "normalizeDurableSegment v =
     (let normalized = map durable_char (toLowerCase (trim v)) in if normalized \<noteq> [] then normalized else ''default'')"

definition durableFor :: "string \<Rightarrow> string \<Rightarrow> string" where
  "durableFor prefix connectorId = prefix @ ''-'' @ normalizeDurableSegment connectorId"

datatype connector_request =
    PartiesRequest "string option" string string string string "string option"
  | QuoteRequest "string option" string string quote_request
  | TransferRequest "string option" string string transfer_request
  | PatchRequest "string option" string string string json

fun perform :: "connector \<Rightarrow> connector_request \<Rightarrow> unit conn" where
  "perform co (PartiesRequest c payer payee ty i sub) = PerformGetParties co c payer payee ty i sub"
| "perform co (QuoteRequest c payer payee request) = PerformPostQuotes co c payer payee request"
| "perform co (TransferRequest c payer payee request) = PerformPostTransfers co c payer payee request"
| "perform co (PatchRequest c payer payee i response) = PerformPatchTransfers co c payer payee i response"

text \<open>One turn of \<open>consume\<close>.\<close>

definition handle_message :: "connector \<Rightarrow> connector_request \<Rightarrow> conn_world \<Rightarrow> answer \<times> conn_world" where
  "handle_message co rq w = (case perform co rq w of
     (Inr _, w') \<Rightarrow> (Ack, w')
   | (Inl (Ours (JsFspiop _)), w') \<Rightarrow> (Ack, w')
   | (Inl _, w') \<Rightarrow> (Nak, w'))"

text \<open>A message that is not acknowledged is delivered again; \<open>ts\<close> are the times of its deliveries.\<close>

fun deliver :: "int list \<Rightarrow> connector \<Rightarrow> connector_request \<Rightarrow> conn_world \<Rightarrow> answer \<times> conn_world" where
  "deliver [] co rq w = (Nak, w)"
| "deliver (t # ts) co rq w = (case handle_message co rq (w\<lparr>cw_now := t\<rparr>) of
     (Nak, w') \<Rightarrow> deliver ts co rq w'
   | (a, w') \<Rightarrow> (a, w'))"

section \<open>The FSP is asked once\<close>

definition is_ask :: "conn_event \<Rightarrow> bool" where "is_ask e = (case e of Asked _ \<Rightarrow> True | _ \<Rightarrow> False)"
definition to_hub :: "conn_event \<Rightarrow> bool" where "to_hub e = (case e of Sent _ _ \<Rightarrow> True | NotSent _ _ \<Rightarrow> True | _ \<Rightarrow> False)"

definition is_patch :: "connector_request \<Rightarrow> bool" where
  "is_patch rq = (case rq of PatchRequest _ _ _ _ _ \<Rightarrow> True | _ \<Rightarrow> False)"

lemma event_kinds [simp]:
  "is_ask (Asked c)" "\<not> is_ask (Sent h p)" "\<not> is_ask (NotSent h p)" "\<not> is_ask (Recorded ph ac i p1 p2 x)"
  "to_hub (Sent h p)" "to_hub (NotSent h p)" "\<not> to_hub (Asked c)" "\<not> to_hub (Recorded ph ac i p1 p2 x)"
  by (simp_all add: is_ask_def to_hub_def)

lemma step_traces:
  "traces cw_log (record_audit e) (\<lambda>r es. es = (if isl r then [] else [e]))"
  "traces cw_log (put_hub hs c) (\<lambda>r es. es = [if isl r then NotSent hs c else Sent hs c])"
  "traces cw_log (ask call f) (\<lambda>r es. es = [Asked call])"
  by (rule tracesI; auto simp: record_audit_def put_hub_def ask_def split: list.split option.split)+

text \<open>Nothing, or one question; nothing only if it throws.\<close>

definition asks_once :: "('e, 'a) result \<Rightarrow> conn_event list \<Rightarrow> bool" where
  "asks_once r es \<longleftrightarrow> (es = [] \<and> isl r) \<or> (\<exists>c. es = [Asked c])"

lemma operation_traces:
  "traces cw_log (getParties co ty i sub) asks_once"
  "traces cw_log (postQuotes co q) asks_once"
  "traces cw_log (postTransfers co t) asks_once"
proof -
  have ask: "traces cw_log (ask call f) asks_once" for call and f :: "nat \<Rightarrow> (conn_error, 'a) result"
    by (rule traces_mono[OF step_traces(3)]) (simp add: asks_once_def)
  have then_pure: "traces cw_log (io_bind m f) asks_once"
    if "traces cw_log m asks_once" "\<And>a. traces cw_log (f a) (\<lambda>r es. es = [])" for m :: "'a conn" and f :: "'a \<Rightarrow> 'b conn"
    by (rule traces_bind[OF that]) (auto simp: asks_once_def)
  show "traces cw_log (getParties co ty i sub) asks_once" by (simp add: getParties_def ask)
  show "traces cw_log (postQuotes co q) asks_once" unfolding postQuotes_def
    by (rule traces_after)
      (auto simp: asks_once_def[abs_def] intro!: traces_pure(2) then_pure[unfolded asks_once_def[abs_def]]
        ask[unfolded asks_once_def[abs_def]] traces_after traces_pure split: option.split)
  show "traces cw_log (postTransfers co t) asks_once" unfolding postTransfers_def Let_def
    by (intro traces_after) (auto simp: asks_once_def split: prod.split intro!: then_pure ask traces_pure)
qed

text \<open>The Hub is told once more, and an \<open>FspiopException\<close> is thrown.\<close>

definition failed_callback :: "(conn_error, unit) result \<Rightarrow> conn_event list \<Rightarrow> bool" where
  "failed_callback r es \<longleftrightarrow> (\<exists>x. r = Inl (Ours (JsFspiop x))) \<and> filter is_ask es = [] \<and> filter to_hub es \<noteq> []"

lemma callback_failed_traces:
  "traces cw_log (callback_failed (\<lambda>i. put_hub hs (p i)) (\<lambda>e. record_audit (Recorded ph ac c pr pe (Some e))) err) failed_callback"
  unfolding callback_failed_def
proof (rule traces_bind)
  show "traces cw_log (io_catch
         (io_bind (put_hub hs (p (toAuditError err))) (\<lambda>_. io_return (err, toAuditError err, toFspError err)))
         (\<lambda>putError. io_return (putError, toAuditError putError, or_else (toFspError err) (toFspError putError))))
       (\<lambda>r es. \<not> isl r \<and> (\<exists>e. to_hub e \<and> \<not> is_ask e \<and> es = [e]))" (is "traces _ (io_catch ?m ?h) _")
  proof (rule traces_catch)
    show "traces cw_log ?m (\<lambda>r es. \<exists>e. to_hub e \<and> \<not> is_ask e \<and> es = [e])"
      by (rule traces_bind[OF step_traces(2) traces_pure(1)]) (auto split: if_splits)
    show "traces cw_log (?h e) (\<lambda>r es. \<not> isl r \<and> es = [])" for e by (rule traces_pure) simp
  qed auto
next
  show "traces cw_log (case a of (callbackError, callbackAuditError, callbackFspError) \<Rightarrow>
      io_bind (io_catch (record_audit (Recorded ph ac c pr pe (Some (case callbackFspError of
          None \<Rightarrow> AuditError callbackAuditError | Some f \<Rightarrow> AuditAndFspError callbackAuditError f)))) (\<lambda>_. io_return ()))
        (\<lambda>_. io_throw (Ours (JsFspiop (normalize_conn callbackError)))))
    (\<lambda>r es. (\<exists>x. r = Inl (Ours (JsFspiop x))) \<and> filter is_ask es = [])" for a
  proof (cases a)
    case (fields e i f)
    have "traces cw_log (io_catch (record_audit (Recorded ph ac c pr pe x)) (\<lambda>_. io_return ()))
        (\<lambda>r es. \<not> isl r \<and> filter is_ask es = [])" for x
      by (rule traces_catch[OF step_traces(1) traces_pure(1)[where R = "\<lambda>r es. \<not> isl r \<and> es = []"]]) auto
    then show ?thesis unfolding fields prod.case
      by (rule traces_bind[where Q = "\<lambda>_ r es. (\<exists>x. r = Inl (Ours (JsFspiop x))) \<and> es = []"]) (auto intro: traces_pure)
  qed
qed (auto simp: failed_callback_def)

text \<open>Nothing was done, or the Hub was told, the FSP was asked at most once, and the message is acknowledged.\<close>

definition answered :: "(conn_error, unit) result \<Rightarrow> conn_event list \<Rightarrow> bool" where
  "answered r es \<longleftrightarrow> es = [] \<and> isl r \<or>
     length (filter is_ask es) \<le> 1 \<and> filter to_hub es \<noteq> [] \<and> (\<forall>e. r = Inl e \<longrightarrow> (\<exists>x. e = Ours (JsFspiop x)))"

lemma command_traces:
  assumes "traces cw_log op asks_once"
  shows "traces cw_log (io_bind (record_audit (Recorded ph a1 c pr pe None)) (\<lambda>_.
    io_catch
      (io_bind op (\<lambda>response. io_bind (put_hub hs (ok response)) (\<lambda>_. record_audit (Recorded ph a2 c pr pe None))))
      (callback_failed (\<lambda>i. put_hub hs (bad i)) (\<lambda>e. record_audit (Recorded ph a3 c pr pe (Some e)))))) answered"
    (is "traces _ (io_bind _ (\<lambda>_. io_catch ?try ?handler)) _")
proof -
  have put: "traces cw_log (io_bind (put_hub hs (ok a)) (\<lambda>_. record_audit (Recorded ph a2 c pr pe None)))
      (\<lambda>r es. filter is_ask es = [] \<and> (isl r \<or> filter to_hub es \<noteq> []))" for a
    by (rule traces_bind[OF step_traces(2,1)]) (auto split: if_splits)
  have flow: "traces cw_log ?try (\<lambda>r es. length (filter is_ask es) \<le> 1 \<and> (isl r \<or> filter to_hub es \<noteq> []))"
    by (rule traces_bind[OF assms put]) (auto simp: asks_once_def)
  have "traces cw_log (io_catch ?try ?handler) (\<lambda>r es. es \<noteq> [] \<and> answered r es)"
    by (rule traces_catch[OF flow callback_failed_traces]) (auto simp: answered_def failed_callback_def)
  then show ?thesis by (rule traces_bind[OF step_traces(1)]) (auto simp: answered_def)
qed

lemma perform_traces: "\<not> is_patch rq \<Longrightarrow> traces cw_log (perform co rq) answered"
  by (cases rq) (auto simp: is_patch_def PerformGetParties_def PerformPostQuotes_def PerformPostTransfers_def http_date_def Let_def answered_def
    intro!: traces_after command_traces operation_traces)


section \<open>Transfers against quotes\<close>

text \<open>What the connector would have prepared for a packet.\<close>

definition packet_preimage :: "connector \<Rightarrow> ilp_prepare \<Rightarrow> int \<Rightarrow> string" where
  "packet_preimage co packet n = preimage (co_ilp co) (cn_ilpSecret (co_settings co)) n (ip_destination packet)
     (il_text (co_ilp co) (ip_data packet))"

lemma fulfilTransfer_eq:
  assumes "big_int (ip_amount packet) = Some n" "tr_condition r = Some c"
  shows "fulfilTransfer co t r packet =
    (il_base64 (co_ilp co) (il_sha256 (co_ilp co) (packet_preimage co packet n)) = c,
     il_base64 (co_ilp co) (packet_preimage co packet n))"
  using assms by (simp add: fulfilTransfer_def fulfil_def prepare_def base64Encode_def packet_preimage_def Let_def)

lemma ours_Inr [simp]: "ours r = Inr a \<longleftrightarrow> r = Inr a" "ours (Inr a) = Inr a" "ours (Inl e) = Inl (Ours e)"
  by (auto simp: ours_def split: sum.splits)

lemma required_text_Inr [simp]: "required_text v m = Inr u \<longleftrightarrow> trim (nullish v []) \<noteq> []"
  by (simp add: required_text_def)

lemma validated_transfer:
  assumes "validatePostTransfersRequest cs t = Inr r"
  obtains m m' where "tr_amount t = Some m" "validate_money (Some m) = Inr (Some m')" "r = t\<lparr>tr_amount := Some m'\<rparr>"
    "isCurrencySupported cs (m_currency m)" "tr_condition t = Some (the (tr_condition t))" "tr_expiration t = Some (the (tr_expiration t))"
    "m_currency m' = m_currency m"
proof -
  from assms obtain m v where m: "tr_amount t = Some m" and v: "validate_money (Some m) = Inr v" and r: "r = t\<lparr>tr_amount := v\<rparr>"
    and c: "trim (nullish (tr_condition t) []) \<noteq> []" "trim (nullish (tr_expiration t) []) \<noteq> []" "isCurrencySupported cs (m_currency m)"
    by (auto simp: validatePostTransfersRequest_def split: option.splits)
  have "tr_condition t \<noteq> None" "tr_expiration t \<noteq> None" using c by (metis nullish_simps(1) trim_Nil)+
  moreover obtain p where "v = Some (m\<lparr>m_amount := normalizeAmount (m_amount m)\<rparr>)" using validate_money_Inr[OF v] by metis
  ultimately show ?thesis using that[of m "m\<lparr>m_amount := normalizeAmount (m_amount m)\<rparr>"] m v r c by simp
qed

lemma unwrapped_packet:
  assumes "validateAndUnwrapTransferIlpPacket I clock r = Inr packet"
  obtains profile n e where "get_currency (m_currency (the (tr_amount r))) = Some profile"
    "unwrap I (the (tr_ilpPacket r)) = Some packet" "big_int (ip_amount packet) = Some n"
    "serialize (m_amount (the (tr_amount r))) (int (currency_scale profile)) HalfUp = Inr n"
    "il_date I (the (tr_expiration r)) = Date e" "ip_expiresAt packet = Date e" "clock < e"
  using assms by (auto simp: validateAndUnwrapTransferIlpPacket_def Let_def split: option.splits js_date.splits)

text \<open>
  C7: the FSP is asked for a transfer only when the transfer's packet carries exactly the amount and the expiration of
  the transfer and is not expired; and the answer to the Hub has a fulfilment, the one of the packet, exactly if the
  condition of the transfer is the one that this connector's secret gives the packet.  Otherwise the answer is ABORTED.
\<close>

theorem transfer_matches_packet:
  assumes "postTransfers co t w = (x, w')" "cw_log w' \<noteq> cw_log w"
  shows "\<exists>m profile packet n e c. tr_amount t = Some m \<and> get_currency (m_currency m) = Some profile \<and>
    unwrap (co_ilp co) (the (tr_ilpPacket t)) = Some packet \<and> big_int (ip_amount packet) = Some n \<and>
    serialize (m_amount m) (int (currency_scale profile)) HalfUp = Inr n \<and>
    il_date (co_ilp co) (the (tr_expiration t)) = Date e \<and> ip_expiresAt packet = Date e \<and> cw_now w < e \<and>
    tr_condition t = Some c \<and>
    (\<forall>response. x = Inr response \<longrightarrow>
       (if c = il_base64 (co_ilp co) (il_sha256 (co_ilp co) (packet_preimage co packet n))
        then ts_fulfilment response = Some (il_base64 (co_ilp co) (packet_preimage co packet n))
        else ts_fulfilment response = None \<and> ts_transferState response = ''ABORTED''))"
proof -
  from assms obtain r packet where r: "validatePostTransfersRequest (co_settings co) t = Inr r"
    and packet: "validateAndUnwrapTransferIlpPacket (co_ilp co) (cw_now w) r = Inr packet"
    by (cases "validatePostTransfersRequest (co_settings co) t";
        cases "validateAndUnwrapTransferIlpPacket (co_ilp co) (cw_now w) (projr (validatePostTransfersRequest (co_settings co) t))")
      (auto simp: postTransfers_def)
  obtain m m' where m: "tr_amount t = Some m" "validate_money (Some m) = Inr (Some m')" "r = t\<lparr>tr_amount := Some m'\<rparr>"
    and c: "tr_condition t = Some (the (tr_condition t))" and cur: "m_currency m' = m_currency m"
    using validated_transfer[OF r] by metis
  obtain profile n e where p: "get_currency (m_currency m') = Some profile" "unwrap (co_ilp co) (the (tr_ilpPacket t)) = Some packet"
    "big_int (ip_amount packet) = Some n" "serialize (m_amount m') (int (currency_scale profile)) HalfUp = Inr n"
    "il_date (co_ilp co) (the (tr_expiration t)) = Date e" "ip_expiresAt packet = Date e" "cw_now w < e"
    by (rule unwrapped_packet[OF packet]) (simp add: m(3))
  have "m' = m\<lparr>m_amount := normalizeAmount (m_amount m)\<rparr>" using validate_money_Inr[OF m(2)] by auto
  then have serial: "serialize (m_amount m) (int (currency_scale profile)) HalfUp = Inr n"
    using p(4) by (simp add: serialize_normalizeAmount)
  have condition: "tr_condition r = Some (the (tr_condition t))" using c by (simp add: m(3))
  have "if the (tr_condition t) = il_base64 (co_ilp co) (il_sha256 (co_ilp co) (packet_preimage co packet n))
        then ts_fulfilment response = Some (il_base64 (co_ilp co) (packet_preimage co packet n))
        else ts_fulfilment response = None \<and> ts_transferState response = ''ABORTED''" if "x = Inr response" for response
    using assms(1) that r packet
    by (auto simp: postTransfers_def fulfilTransfer_eq[OF p(3) condition] io_bind_def ask_def Let_def split: sum.splits)
  then show ?thesis using m(1) p serial c cur by metis
qed

text \<open>
  What the round trip needs of the platform: encodings are read back, packets with an amount of 64 bits and a date too,
  neither a packet nor a hash is empty, and dates up to the year 9999 are printed and read back.
\<close>

definition LAST_TIME :: int where "LAST_TIME = 253402300799999"

definition ilp_laws :: "ilp \<Rightarrow> bool" where
  "ilp_laws I \<longleftrightarrow>
     (\<forall>s k. il_unbase64 I (il_base64 I s @ replicate k (CHR ''='')) = s) \<and> (\<forall>s. s \<noteq> [] \<longrightarrow> trim (il_base64 I s) \<noteq> []) \<and>
     (\<forall>s. il_text I (il_utf8 I s) = s) \<and> (\<forall>s. il_sha256 I s \<noteq> []) \<and>
     (\<forall>p. il_serialize I p \<noteq> []) \<and>
     (\<forall>p n t. ip_amount p = int_text n \<and> 0 \<le> n \<and> n \<le> UINT64_MAX \<and> ip_expiresAt p = Date t \<and> 0 \<le> t \<and> t \<le> LAST_TIME
        \<longrightarrow> il_deserialize I (il_serialize I p) = Some p) \<and>
     (\<forall>t. 0 \<le> t \<and> t \<le> LAST_TIME \<longrightarrow> il_date I (forRequestBody I t) = Date t \<and> trim (forRequestBody I t) \<noteq> [])"

lemma ilp:
  assumes "ilp_laws I"
  shows "il_unbase64 I (base64Encode I s b) = s" "s \<noteq> [] \<Longrightarrow> trim (il_base64 I s) \<noteq> []" "il_text I (il_utf8 I s) = s" "il_sha256 I s \<noteq> []"
    "il_serialize I p \<noteq> []"
    "ip_amount p = int_text n \<Longrightarrow> 0 \<le> n \<Longrightarrow> n \<le> UINT64_MAX \<Longrightarrow> ip_expiresAt p = Date t \<Longrightarrow> 0 \<le> t \<Longrightarrow> t \<le> LAST_TIME
       \<Longrightarrow> il_deserialize I (il_serialize I p) = Some p"
    "0 \<le> t \<Longrightarrow> t \<le> LAST_TIME \<Longrightarrow> il_date I (forRequestBody I t) = Date t"
    "0 \<le> t \<Longrightarrow> t \<le> LAST_TIME \<Longrightarrow> trim (forRequestBody I t) \<noteq> []"
proof -
  have "il_unbase64 I (il_base64 I s @ replicate k (CHR ''='')) = s" for k using assms unfolding ilp_laws_def by blast
  from this[of 0] this[of "(4 - length (il_base64 I s) mod 4) mod 4"]
  show "il_unbase64 I (base64Encode I s b) = s" by (simp add: base64Encode_def Let_def)
qed (use assms in \<open>unfold ilp_laws_def, blast+\<close>)

lemma trim_blank: "trim s = [] \<longleftrightarrow> (\<forall>c\<in>set s. is_space c)"
proof
  assume "trim s = []"
  then have "\<forall>c\<in>set (dropWhile is_space s). is_space c" unfolding trim_def by (metis dropWhile_eq_Nil_conv rev_is_Nil_conv set_rev)
  then show "\<forall>c\<in>set s. is_space c" by (metis Un_iff set_append set_takeWhileD takeWhile_dropWhile_id)
next
  assume "\<forall>c\<in>set s. is_space c"
  then have "dropWhile is_space s = []" by simp
  then show "trim s = []" unfolding trim_def by (metis dropWhile.simps(1) rev.simps(1))
qed

lemma encoded_not_blank: "ilp_laws I \<Longrightarrow> s \<noteq> [] \<Longrightarrow> trim (base64Encode I s b) \<noteq> []"
  using ilp(2)[of I s] by (auto simp: base64Encode_def Let_def trim_blank)

lemma big_int_digits:
  assumes "\<forall>c\<in>set s. is_digit c" "s \<noteq> []"
  shows "big_int s = Some (int (nat_of_dec s))"
proof -
  have "trim s = s" using assms(1) by (intro trim_id) (auto dest: is_digit_not_space)
  moreover have "list_all is_digit s" using assms(1) by (simp add: list_all_iff)
  ultimately show ?thesis using assms(2) by (cases s) (simp_all add: big_int_def Let_def)
qed

lemma big_int_text: "0 \<le> n \<Longrightarrow> big_int (int_text n) = Some n"
  using big_int_digits[OF dec_of_nat_digits dec_of_nat_not_Nil, of "nat n"] by (simp add: int_text_def)

lemma serialize_range:
  "serialize a s mode = Inr n \<Longrightarrow> 0 \<le> n \<and> n \<le> UINT64_MAX"
  by (auto simp: serialize_def)

lemma validate_money_Some:
  "validate_money (Some m) = Inr v \<Longrightarrow> \<exists>m'. v = Some m' \<and> m_currency m' = m_currency m"
  by (auto elim!: validate_money_Inr)

lemma validate_money_again:
  assumes "validate_money (Some m) = Inr (Some m')"
  shows "validate_money (Some m') = Inr (Some m')"
  using assms by (auto simp: validate_money_def Let_def split: option.splits if_splits)

lemma quoted:
  assumes "postQuotes co q w = (Inr quote, w1)"
  obtains m m' profile n agreement r where "validate_money (Some m) = Inr (Some m')" "isCurrencySupported (co_settings co) (m_currency m')"
    "get_currency (m_currency m') = Some profile" "serialize (m_amount m') (int (currency_scale profile)) HalfUp = Inr n"
    "toAgreement r m' (qs_payeeReceiveAmount quote) (cw_now w + 900000) = Inr agreement" "qs_transferAmount quote = m'"
    "qs_expiration quote = forRequestBody (co_ilp co) (cw_now w + 900000)"
    "let p = prepare (co_ilp co) (cn_ilpSecret (co_settings co)) (address (cn_connectorId (co_settings co))) n
       (il_stringify (co_ilp co) agreement) (cw_now w + 900000)
     in qs_ilpPacket quote = base64PreparePacket p \<and> qs_condition quote = base64Condition p"
proof -
  from assms obtain r out where answer: "quote_answer co (cw_now w) r out = Inr quote"
    by (auto simp: postQuotes_def io_bind_Inr_iff io_lift_eq io_throw_def ask_def io_gets_def io_lift_def split: option.splits)
  from answer obtain m' v where m: "validatePostQuotesOutput (co_settings co) out = Inr (m', v)"
    by (auto simp: quote_answer_def)
  then obtain m u where "validate_money (Some m) = Inr u" "m' = the u" and mm: "isCurrencySupported (co_settings co) (m_currency m)"
    by (auto simp: validatePostQuotesOutput_def split: option.splits)
  moreover obtain m2 where "u = Some m2 \<and> m_currency m2 = m_currency m" using validate_money_Some[OF calculation(1)] by blast
  ultimately have valid: "validate_money (Some m) = Inr (Some m')" "isCurrencySupported (co_settings co) (m_currency m')" by simp_all
  from answer m show ?thesis
    by (auto simp: quote_answer_def FIFTEEN_MINUTES_def Let_def split: option.splits intro!: that[OF valid])
qed
lemma quoted_transfer_checks:
  assumes "ilp_laws (co_ilp co)" "postQuotes co q w = (Inr quote, w1)"
    "tr_amount t = Some (qs_transferAmount quote)" "tr_ilpPacket t = Some (qs_ilpPacket quote)"
    "tr_condition t = Some (qs_condition quote)" "tr_expiration t = Some (qs_expiration quote)"
    "tr_transferId t = Some i" "trim i \<noteq> []" "tr_payeeFsp t = Some payee" "trim payee \<noteq> []"
    "0 \<le> cw_now w" "cw_now w + 900000 \<le> LAST_TIME" "cw_now v < cw_now w + 900000"
  obtains f packet where "validatePostTransfersRequest (co_settings co) t = Inr t"
    "validateAndUnwrapTransferIlpPacket (co_ilp co) (cw_now v) t = Inr packet"
    "fulfilTransfer co (cw_now v) t packet = (True, il_base64 (co_ilp co) f)"
    "qs_condition quote = il_base64 (co_ilp co) (il_sha256 (co_ilp co) f)"
proof -
  let ?I = "co_ilp co" and ?e = "cw_now w + 900000"
  note laws = ilp[OF assms(1)]
  from assms(2) obtain m m' profile n agreement r where m: "validate_money (Some m) = Inr (Some m')"
    "isCurrencySupported (co_settings co) (m_currency m')" "get_currency (m_currency m') = Some profile"
    and n: "serialize (m_amount m') (int (currency_scale profile)) HalfUp = Inr n" and amount: "qs_transferAmount quote = m'"
    and e: "qs_expiration quote = forRequestBody ?I ?e"
    and p: "let p = prepare ?I (cn_ilpSecret (co_settings co)) (address (cn_connectorId (co_settings co))) n (il_stringify ?I agreement) ?e
     in qs_ilpPacket quote = base64PreparePacket p \<and> qs_condition quote = base64Condition p"
    by (rule quoted)
  note range = serialize_range[OF n]
  define f where "f = preimage ?I (cn_ilpSecret (co_settings co)) n (address (cn_connectorId (co_settings co))) (il_stringify ?I agreement)"
  define packet where "packet = \<lparr>ip_amount = int_text n, ip_executionCondition = il_sha256 ?I f, ip_expiresAt = Date ?e,
    ip_destination = address (cn_connectorId (co_settings co)), ip_data = il_utf8 ?I (il_stringify ?I agreement)\<rparr>"
  have quote: "qs_ilpPacket quote = base64Encode ?I (il_serialize ?I packet) True" "qs_condition quote = base64Encode ?I (il_sha256 ?I f) False"
    using p by (simp_all add: prepare_def f_def packet_def Let_def)
  have unwrapped: "unwrap ?I (qs_ilpPacket quote) = Some packet"
    unfolding unwrap_def quote(1) laws(1) by (rule laws(6)[of _ n ?e]) (use range assms(11,12) in \<open>simp_all add: packet_def\<close>)
  have valid: "validatePostTransfersRequest (co_settings co) t = Inr t"
    using encoded_not_blank[OF assms(1) laws(5)] encoded_not_blank[OF assms(1) laws(4)] laws(8)[of ?e] assms(3-12) m validate_money_again[OF m(1)]
    by (simp add: validatePostTransfersRequest_def amount quote e)
  have checked: "validateAndUnwrapTransferIlpPacket ?I (cw_now v) t = Inr packet"
    using m(3) n unwrapped laws(7)[of ?e] assms(3-6,11-13) big_int_text[of n] range
    by (simp add: validateAndUnwrapTransferIlpPacket_def amount e Let_def) (simp add: packet_def)
  have "big_int (ip_amount packet) = Some n" using big_int_text[of n] range by (simp add: packet_def)
  note fulfilled = fulfilTransfer_eq[OF this assms(5), of co "cw_now v"]
  have "packet_preimage co packet n = f" by (simp add: packet_preimage_def packet_def f_def laws(3))
  then have "fulfilTransfer co (cw_now v) t packet = (True, il_base64 ?I f)"
    using fulfilled by (simp add: quote(2) base64Encode_def)
  then show ?thesis using that[OF valid checked] quote(2) by (simp add: base64Encode_def)
qed

text \<open>
  C8: a transfer made with the amount, the packet, the condition and the expiration of a quote that this connector gave
  is put to the FSP, unless it comes later than the quote's fifteen minutes; and the answer of the FSP goes back with a
  fulfilment whose hash is the condition that the payer was given.
\<close>

theorem quoted_transfer_is_fulfilled:
  assumes "ilp_laws (co_ilp co)" "postQuotes co q w = (Inr quote, w1)"
    "tr_amount t = Some (qs_transferAmount quote)" "tr_ilpPacket t = Some (qs_ilpPacket quote)"
    "tr_condition t = Some (qs_condition quote)" "tr_expiration t = Some (qs_expiration quote)"
    "tr_transferId t = Some i" "trim i \<noteq> []" "tr_payeeFsp t = Some payee" "trim payee \<noteq> []"
    "0 \<le> cw_now w" "cw_now w + 900000 \<le> LAST_TIME" "cw_now v < cw_now w + 900000"
    "fc_postTransfers (co_fsp co) (length (cw_log v)) i (qs_transferAmount quote) payee = Inr response"
  shows "\<exists>f. postTransfers co t v = (Inr (response\<lparr>ts_fulfilment := Some (il_base64 (co_ilp co) f)\<rparr>),
       v\<lparr>cw_log := cw_log v @ [Asked (AskTransfer i (qs_transferAmount quote) payee)]\<rparr>) \<and>
     qs_condition quote = il_base64 (co_ilp co) (il_sha256 (co_ilp co) f)"
  by (rule quoted_transfer_checks[OF assms(1-13)])
    (use assms(3,7,9,14) in \<open>auto simp: postTransfers_def ask_def io_bind_def Let_def\<close>)

section \<open>What is not as intended\<close>

text \<open>
  A transfer whose condition is not the one of its packet is put to the FSP all the same, which may book it, and only
  then answered as ABORTED.
\<close>

lemma unfulfillable_transfer_is_booked:
  assumes "validatePostTransfersRequest (co_settings co) t = Inr r"
    "validateAndUnwrapTransferIlpPacket (co_ilp co) (cw_now w) r = Inr packet" "\<not> fst (fulfilTransfer co (cw_now w) r packet)"
  shows "cw_log (snd (postTransfers co t w)) =
    cw_log w @ [Asked (AskTransfer (the (tr_transferId r)) (the (tr_amount r)) (the (tr_payeeFsp r)))]"
  using assms by (cases "fulfilTransfer co (cw_now w) r packet") (simp add: postTransfers_def ask_def io_bind_def Let_def split: sum.split)

text \<open>
  When only the audit record of a response fails, after the Hub has accepted the fulfilment, the Hub is also sent an error
  for the same transfer.
\<close>

lemma audit_failure_contradicts_callback:
  assumes "resolveCorrelationId c [tr_transferId t] = Inr i" "postTransfers co t (w\<lparr>cw_faults := [None, Some x], cw_log := l\<rparr>) =
      (Inr response, w\<lparr>cw_faults := [None, Some x], cw_log := l'\<rparr>)"
    "cw_faults w = [None, None, Some x]" "l = cw_log w @ [Recorded TransfersPhase RequestAction i payer payee None]"
  shows "\<exists>hs es. cw_log (snd (PerformPostTransfers co c payer payee t w)) =
    l' @ [Sent hs (PutTransfersCallback (tr_transferId t) response), Sent hs (PutTransfersErrorCallback (tr_transferId t) (toAuditError x))] @ es"
  using assms
  by (simp add: PerformPostTransfers_def http_date_def record_audit_def put_hub_def callback_failed_def io_bind_def io_catch_def
      io_gets_def io_lift_def Let_def split: option.split)

section \<open>A platform for the witnesses\<close>

text \<open>Every byte behind a mark, so that padding is recognised; packets as their framed fields; dates as numbers.\<close>

fun marked :: "string \<Rightarrow> string" where
  "marked (x # c # r) = (if x = CHR ''x'' then c # marked r else [])"
| "marked _ = []"

definition mark :: "string \<Rightarrow> string" where "mark s = concat (map (\<lambda>c. [CHR ''x'', c]) s)"

lemma marked_mark: "marked (mark s @ replicate k (CHR ''='')) = s"
proof (induction s)
  case Nil
  show ?case by (cases k; cases "k - 1") (simp_all add: mark_def)
qed (simp add: mark_def)

definition demo_time :: "js_date \<Rightarrow> string" where
  "demo_time d = (case d of InvalidDate \<Rightarrow> [] | Date t \<Rightarrow> CHR ''T'' # int_text t)"

definition demo_date :: "string \<Rightarrow> js_date" where
  "demo_date s = (case s of [] \<Rightarrow> InvalidDate | c # ds \<Rightarrow> (case big_int ds of None \<Rightarrow> InvalidDate | Some t \<Rightarrow> Date t))"

lemma demo_date_time: "0 \<le> t \<Longrightarrow> demo_date (demo_time (Date t)) = Date t"
  by (simp add: demo_date_def demo_time_def big_int_text)

definition demo_packet :: "ilp_prepare \<Rightarrow> string" where
  "demo_packet p = net (ip_amount p) @ net (ip_executionCondition p) @ net (demo_time (ip_expiresAt p)) @
     net (ip_destination p) @ net (ip_data p)"

definition demo_parse :: "string \<Rightarrow> ilp_prepare option" where
  "demo_parse s0 = (let (a, s1) = read_net s0; (c, s2) = read_net s1; (e, s3) = read_net s2; (d, s4) = read_net s3; (x, s5) = read_net s4
     in Some \<lparr>ip_amount = a, ip_executionCondition = c, ip_expiresAt = demo_date e, ip_destination = d, ip_data = x\<rparr>)"

lemma read_net_all: "read_net (net s) = (s, [])"
  using read_net_net[of s "[]"] by simp

lemma demo_parse_packet: "ip_expiresAt p = Date t \<Longrightarrow> 0 \<le> t \<Longrightarrow> demo_parse (demo_packet p) = Some p"
  by (simp add: demo_parse_def demo_packet_def read_net_all demo_date_time)

definition demo_ilp :: ilp where
  "demo_ilp = \<lparr>il_sha256 = (\<lambda>s. CHR ''H'' # s), il_utf8 = (\<lambda>s. s), il_text = (\<lambda>s. s), il_base64 = mark, il_unbase64 = marked,
     il_serialize = demo_packet, il_deserialize = demo_parse, il_stringify = (\<lambda>_. ''{}''), il_date = demo_date,
     il_iso = (\<lambda>t. demo_time (Date t)), il_utc = (\<lambda>_. [])\<rparr>"

lemma demo_request_body: "forRequestBody demo_ilp t = demo_time (Date t)"
proof -
  have "\<not> is_digit (CHR ''Z'')" by code_simp
  then have "CHR ''Z'' \<notin> set (dec_of_nat n)" for n using dec_of_nat_digits[of n] by metis
  then have "dropWhile (\<lambda>c. c \<noteq> CHR ''Z'') (demo_time (Date t)) = []"
    by (auto simp: demo_time_def int_text_def)
  then show ?thesis by (simp add: forRequestBody_def demo_ilp_def Let_def del: dropWhile_eq_Nil_conv)
qed

lemma not_space: "\<not> is_space (CHR ''x'')" "\<not> is_space (CHR ''T'')" by code_simp+

lemma demo_ilp_laws: "ilp_laws demo_ilp"
  unfolding ilp_laws_def demo_request_body
proof (intro conjI allI impI)
  show "s \<noteq> [] \<Longrightarrow> trim (il_base64 demo_ilp s) \<noteq> []" for s
    by (cases s) (simp_all add: demo_ilp_def mark_def trim_blank not_space)
  show "il_serialize demo_ilp p \<noteq> []" for p by (simp add: demo_ilp_def demo_packet_def net_def)
qed (auto simp: demo_ilp_def marked_mark demo_parse_packet demo_date_time, simp add: demo_time_def trim_blank not_space)

definition demo_settings :: connector_settings where
  "demo_settings = \<lparr>cn_connectorId = ''payee'', cn_supportedCurrencies = [''USD''], cn_ilpSecret = ''secret''\<rparr>"

definition dollars :: money where "dollars = \<lparr>m_currency = ''USD'', m_amount = ''10.5''\<rparr>"

definition demo_response :: transfer_response where
  "demo_response = \<lparr>ts_transferState = ''COMMITTED'', ts_fulfilment = None, ts_completedTimestamp = None, ts_extensionList = None\<rparr>"

definition demo_fsp :: fsp_client where
  "demo_fsp = \<lparr>fc_getParties = (\<lambda>_ _ _ _. Inr JNull),
     fc_postQuotes = (\<lambda>_ _ _ _ _ _ _. Inr \<lparr>qo_transferAmount = Some dollars, qo_payeeReceiveAmount = Some dollars, qo_fees = None\<rparr>),
     fc_postTransfers = (\<lambda>_ _ _ _. Inr demo_response), fc_patchTransfers = (\<lambda>_ _ _ _ _. Inr ())\<rparr>"

definition demo_connector :: connector where
  "demo_connector = \<lparr>co_settings = demo_settings, co_fsp = demo_fsp, co_ilp = demo_ilp\<rparr>"

definition demo_quote :: quote_request where
  "demo_quote = \<lparr>qr_quoteId = ''q1'', qr_transactionId = None, qr_transactionRequestId = None, qr_payer = Some JNull, qr_payee = Some JNull,
     qr_amountType = ''SEND'', qr_amount = Some dollars, qr_fees = None, qr_scenario = Some ''TRANSFER'', qr_subScenario = None,
     qr_extensionList = None\<rparr>"

definition demo_clock :: conn_world where "demo_clock = \<lparr>cw_faults = [], cw_log = [], cw_now = 5\<rparr>"

definition demo_transfer :: "quote_response \<Rightarrow> transfer_request" where
  "demo_transfer quote = \<lparr>tr_transferId = Some ''t1'', tr_payeeFsp = Some ''payee'', tr_amount = Some (qs_transferAmount quote),
     tr_ilpPacket = Some (qs_ilpPacket quote), tr_condition = Some (qs_condition quote), tr_expiration = Some (qs_expiration quote)\<rparr>"

lemma dollars_valid: "validate_money (Some dollars) = Inr (Some dollars)" "m_currency dollars = ''USD''"
  by code_simp+

lemma dollars_minor: "\<exists>p. get_currency ''USD'' = Some p \<and> serialize (m_amount dollars) (int (currency_scale p)) HalfUp = Inr 1050"
proof -
  have "map_option (\<lambda>p. serialize (m_amount dollars) (int (currency_scale p)) HalfUp) (get_currency ''USD'') = Some (Inr 1050)" by code_simp
  then show ?thesis by (cases "get_currency ''USD''") simp_all
qed

lemma demo_quoted: "\<exists>quote w1. postQuotes demo_connector demo_quote demo_clock = (Inr quote, w1)"
proof -
  have supported: "isCurrencySupported demo_settings ''USD''" by (simp add: isCurrencySupported_def demo_settings_def)
  have valid: "validatePostQuotesRequest demo_settings demo_quote = Inr demo_quote"
    by (simp add: validatePostQuotesRequest_def demo_quote_def dollars_valid supported) (simp add: validate_money_def)
  obtain p where p: "get_currency ''USD'' = Some p" "serialize (m_amount dollars) (int (currency_scale p)) HalfUp = Inr 1050"
    using dollars_minor by blast
  have co: "co_settings demo_connector = demo_settings" "qr_scenario demo_quote = Some ''TRANSFER''" "cw_now demo_clock = 5"
    "fc_postQuotes (co_fsp demo_connector) n a b c d e f =
       Inr \<lparr>qo_transferAmount = Some dollars, qo_payeeReceiveAmount = Some dollars, qo_fees = None\<rparr>" for n a b c d e f
    by (simp_all add: demo_connector_def demo_quote_def demo_clock_def demo_fsp_def)
  have "\<exists>quote. quote_answer demo_connector 5 demo_quote
      \<lparr>qo_transferAmount = Some dollars, qo_payeeReceiveAmount = Some dollars, qo_fees = None\<rparr> = Inr quote"
    using p by (simp add: quote_answer_def validatePostQuotesOutput_def co dollars_valid supported toAgreement_def Let_def)
      (simp add: demo_quote_def)
  then show ?thesis by (auto simp: postQuotes_def co valid io_bind_def ask_def)
qed

lemma demo_transfer_fields [simp]:
  "tr_transferId (demo_transfer q) = Some ''t1''" "tr_payeeFsp (demo_transfer q) = Some ''payee''"
  "tr_amount (demo_transfer q) = Some (qs_transferAmount q)" "tr_ilpPacket (demo_transfer q) = Some (qs_ilpPacket q)"
  "tr_condition (demo_transfer q) = Some (qs_condition q)" "tr_expiration (demo_transfer q) = Some (qs_expiration q)"
  by (simp_all add: demo_transfer_def)

lemma demo_trims: "trim ''payee'' \<noteq> []" by code_simp

theorem quoted_transfer_is_fulfilled_witness:
  "\<exists>quote f. ts_fulfilment (projr (fst (postTransfers demo_connector (demo_transfer quote) demo_clock))) = Some (mark f) \<and>
     qs_condition quote = mark (CHR ''H'' # f)"
proof -
  obtain quote w1 where quote: "postQuotes demo_connector demo_quote demo_clock = (Inr quote, w1)" using demo_quoted by blast
  have "ilp_laws (co_ilp demo_connector)" using demo_ilp_laws by (simp add: demo_connector_def)
  from quoted_transfer_is_fulfilled[OF this quote, of "demo_transfer quote" "''t1''" "''payee''" demo_clock demo_response]
  obtain f where "postTransfers demo_connector (demo_transfer quote) demo_clock =
      (Inr (demo_response\<lparr>ts_fulfilment := Some (mark f)\<rparr>), demo_clock\<lparr>cw_log := cw_log demo_clock @
         [Asked (AskTransfer ''t1'' (qs_transferAmount quote) ''payee'')]\<rparr>)" "qs_condition quote = mark (CHR ''H'' # f)"
    using demo_trim demo_trims
    by (auto simp: demo_connector_def demo_fsp_def demo_ilp_def demo_clock_def LAST_TIME_def)
  then show ?thesis by (intro exI[of _ quote] exI[of _ f]) simp
qed

theorem transfer_matches_packet_witness:
  "\<exists>(t :: transfer_request) m n packet. tr_amount t = Some m \<and> unwrap demo_ilp (the (tr_ilpPacket t)) = Some packet \<and> big_int (ip_amount packet) = Some n \<and>
     (\<exists>profile :: fspiop_currency_profile. serialize (m_amount m) (int (currency_scale profile)) HalfUp = Inr n)"
proof -
  obtain quote w1 where quote: "postQuotes demo_connector demo_quote demo_clock = (Inr quote, w1)" using demo_quoted by blast
  have laws: "ilp_laws (co_ilp demo_connector)" using demo_ilp_laws by (simp add: demo_connector_def)
  obtain f packet where run: "validatePostTransfersRequest (co_settings demo_connector) (demo_transfer quote) = Inr (demo_transfer quote)"
    "validateAndUnwrapTransferIlpPacket (co_ilp demo_connector) (cw_now demo_clock) (demo_transfer quote) = Inr packet"
    "fulfilTransfer demo_connector (cw_now demo_clock) (demo_transfer quote) packet = (True, il_base64 (co_ilp demo_connector) f)"
    by (rule quoted_transfer_checks[OF laws quote, of "demo_transfer quote" "''t1''" "''payee''" demo_clock])
      (use demo_trim demo_trims in \<open>auto simp: demo_clock_def LAST_TIME_def\<close>)
  have "cw_log (snd (postTransfers demo_connector (demo_transfer quote) demo_clock)) \<noteq> cw_log demo_clock"
    by (simp add: postTransfers_def run io_bind_def ask_def Let_def split: sum.split)
  from transfer_matches_packet[OF prod.collapse[symmetric] this] obtain m packet n and profile :: fspiop_currency_profile
    where "tr_amount (demo_transfer quote) = Some m" "big_int (ip_amount packet) = Some n"
      "unwrap (co_ilp demo_connector) (the (tr_ilpPacket (demo_transfer quote))) = Some packet"
      "serialize (m_amount m) (int (currency_scale profile)) HalfUp = Inr n" by blast
  moreover have "co_ilp demo_connector = demo_ilp" by (simp add: demo_connector_def)
  ultimately show ?thesis by metis
qed


end
