(* ===== verification/Central_Ledger.thy ===== *)
theory Central_Ledger
  imports Json_Values Effects
begin

text \<open>
  The client of the Hub's Central Ledger: the translation of failures in \<open>central-ledger-axios.ts\<close> and the procedures of
  \<open>central-ledger-facade.ts\<close> that register a participant, its currencies and its callback endpoints, and a currency of
  the Hub.  The HTTP calls are parameters, one for each endpoint the facade uses.
\<close>

section \<open>Errors\<close>

text \<open>
  What the code around participants throws.  \<open>McmRefused\<close> carries the HTTP status when there was an answer, \<open>Thrown\<close> is
  a plain \<open>Error\<close> with its message.
\<close>

datatype part_error =
    Pivotal string string
  | LedgerRefused string string
  | McmRefused string string "nat option"
  | PermanentPublish string
  | Thrown string

definition ledger_exception :: "string \<Rightarrow> part_error" where
  "ledger_exception text_of = LedgerRefused ''CENTRAL_LEDGER_ERROR'' text_of"

text \<open>A failed request: status and body of the answer if there was one, the message and the messages of its causes.\<close>

record axios_failure =
  af_response :: "(nat \<times> json) option"
  af_message :: string
  af_causes :: "string list"

definition readStringField :: "json \<Rightarrow> string \<Rightarrow> string option" where
  "readStringField d key = (case d of JObj fs \<Rightarrow> (case map_of fs key of Some (JStr s) \<Rightarrow> Some s | _ \<Rightarrow> None) | _ \<Rightarrow> None)"

definition readNestedStringField :: "json \<Rightarrow> string \<Rightarrow> string \<Rightarrow> string option" where
  "readNestedStringField d parent child =
     (case d of JObj fs \<Rightarrow> (case map_of fs parent of Some p \<Rightarrow> readStringField p child | None \<Rightarrow> None) | _ \<Rightarrow> None)"

fun first_not_blank :: "string option list \<Rightarrow> string option" where
  "first_not_blank [] = None"
| "first_not_blank (v # vs) = (if is_blank v then first_not_blank vs else v)"

definition resolveResponseCode :: "nat \<Rightarrow> json \<Rightarrow> string" where
  "resolveResponseCode status d =
     (case first_not_blank [readStringField d ''code'', readNestedStringField d ''errorInformation'' ''errorCode''] of
        Some c \<Rightarrow> trim c
      | None \<Rightarrow> ''CENTRAL_LEDGER_HTTP_'' @ dec_of_nat status)"

definition resolveResponseMessage :: "json \<Rightarrow> string option" where
  "resolveResponseMessage d = (case d of
     JStr s \<Rightarrow> Some s
   | _ \<Rightarrow> first_not_blank [readStringField d ''message'', readStringField d ''detail'', readStringField d ''error'',
            readNestedStringField d ''error'' ''message'', readNestedStringField d ''errorInformation'' ''errorDescription''])"

definition resolveTransportMessage :: "axios_failure \<Rightarrow> string option" where
  "resolveTransportMessage f = first_not_blank (map Some (af_message f # af_causes f))"

definition resolveErrorDescription :: "nat \<Rightarrow> json \<Rightarrow> axios_failure \<Rightarrow> string" where
  "resolveErrorDescription status d f =
     nullish (first_not_blank [resolveResponseMessage d, resolveTransportMessage f])
       (''Central Ledger request failed with HTTP '' @ dec_of_nat status @ ''.'')"

definition toCentralLedgerException :: "axios_failure \<Rightarrow> part_error" where
  "toCentralLedgerException f = (case af_response f of
     None \<Rightarrow> LedgerRefused ''CENTRAL_LEDGER_COMMUNICATION_ERROR'' (resolveErrorDescription 503 JNull f)
   | Some (status, d) \<Rightarrow> LedgerRefused (resolveResponseCode status d) (resolveErrorDescription status d f))"

section \<open>Requests\<close>

record ledger_account =
  la_id :: nat
  la_type :: string
  la_currency :: "string option"

record ledger_participant =
  lp_name :: string
  lp_accounts :: "ledger_account list option"

record settlement_model =
  sm_name :: string
  sm_granularity :: string
  sm_interchange :: string
  sm_delay :: string
  sm_currency :: string
  sm_liquidityCheck :: bool
  sm_ledgerAccountType :: string
  sm_settlementAccountType :: string
  sm_autoPositionReset :: bool

record limits_request =
  lr_currency :: string
  lr_limitType :: string
  lr_limitValue :: nat
  lr_initialPosition :: nat

text \<open>A request as it is sent; the flag of \<open>CreateParticipant\<close> is \<open>isProxy\<close>, the one of \<open>UpdateAccount\<close> is \<open>isActive\<close>.\<close>

datatype ledger_call =
    GetParticipants
  | GetParticipant string
  | CreateParticipant string string bool
  | UpdateAccount string nat bool
  | CreateLimits string limits_request
  | CreateAccount string string string
  | UpsertEndpoint string string string
  | CreateSettlementModel settlement_model

text \<open>The Central Ledger: what it answers to a request, a list of participants where it answers with participants.\<close>

type_synonym 'x ledger = "ledger_call \<Rightarrow> ('x, axios_failure, ledger_participant list) task"

definition send :: "'x ledger \<Rightarrow> ledger_call \<Rightarrow> ('x, part_error, ledger_participant list) task" where
  "send l c x = (case l c x of (Inl f, x') \<Rightarrow> (Inl (toCentralLedgerException f), x') | (Inr ps, x') \<Rightarrow> (Inr ps, x'))"

definition send_unit :: "'x ledger \<Rightarrow> ledger_call \<Rightarrow> ('x, part_error, unit) task" where
  "send_unit l c = io_bind (send l c) (\<lambda>_. io_return ())"

text \<open>An answer that should be one participant; the code reads its fields, which fails on anything else.\<close>

definition send_one :: "'x ledger \<Rightarrow> ledger_call \<Rightarrow> ('x, part_error, ledger_participant) task" where
  "send_one l c = io_bind (send l c) (\<lambda>ps. case ps of [p] \<Rightarrow> io_return p | _ \<Rightarrow> io_throw (Thrown ''TypeError''))"

section \<open>The facade\<close>

definition HUB_MULTILATERAL_SETTLEMENT_ACCOUNT_TYPE :: string where
  "HUB_MULTILATERAL_SETTLEMENT_ACCOUNT_TYPE = ''HUB_MULTILATERAL_SETTLEMENT''"

definition HUB_RECONCILIATION_ACCOUNT_TYPE :: string where
  "HUB_RECONCILIATION_ACCOUNT_TYPE = ''HUB_RECONCILIATION''"

definition POSITION_ACCOUNT_TYPE :: string where
  "POSITION_ACCOUNT_TYPE = ''POSITION''"

text \<open>\<open>rethrowAsPivotalException\<close> and the \<open>throw error\<close> after it.\<close>

definition as_pivotal :: "part_error \<Rightarrow> part_error" where
  "as_pivotal e = (case e of LedgerRefused code d \<Rightarrow> Pivotal code d | _ \<Rightarrow> e)"

definition rethrowing :: "('x, part_error, 'a) task \<Rightarrow> ('x, part_error, 'a) task" where
  "rethrowing m = io_catch m (\<lambda>e. io_throw (as_pivotal e))"

definition PARTICIPANT_ENDPOINT_TYPES :: "(string \<times> string option) list" where
  "PARTICIPANT_ENDPOINT_TYPES = [
     (''FSPIOP_CALLBACK_URL_AUTHORIZATIONS'', None),
     (''FSPIOP_CALLBACK_URL_PARTICIPANT_PUT'', Some ''/participants/{{partyIdType}}/{{partyIdentifier}}''),
     (''FSPIOP_CALLBACK_URL_PARTICIPANT_PUT_ERROR'', Some ''/participants/{{partyIdType}}/{{partyIdentifier}}/error''),
     (''FSPIOP_CALLBACK_URL_PARTICIPANT_BATCH_PUT'', Some ''/participants/{{requestId}}''),
     (''FSPIOP_CALLBACK_URL_PARTICIPANT_BATCH_PUT_ERROR'', Some ''/participants/{{requestId}}/error''),
     (''FSPIOP_CALLBACK_URL_PARTIES_GET'', Some ''/parties/{{partyIdType}}/{{partyIdentifier}}''),
     (''FSPIOP_CALLBACK_URL_PARTIES_PUT'', Some ''/parties/{{partyIdType}}/{{partyIdentifier}}''),
     (''FSPIOP_CALLBACK_URL_PARTIES_PUT_ERROR'', Some ''/parties/{{partyIdType}}/{{partyIdentifier}}/error''),
     (''FSPIOP_CALLBACK_URL_QUOTES'', None),
     (''FSPIOP_CALLBACK_URL_TRX_REQ_SERVICE'', None),
     (''FSPIOP_CALLBACK_URL_TRANSFER_POST'', Some ''/transfers''),
     (''FSPIOP_CALLBACK_URL_TRANSFER_PUT'', Some ''/transfers/{{transferId}}''),
     (''FSPIOP_CALLBACK_URL_TRANSFER_ERROR'', Some ''/transfers/{{transferId}}/error''),
     (''FSPIOP_CALLBACK_URL_BULK_TRANSFER_POST'', Some ''/bulkTransfers''),
     (''FSPIOP_CALLBACK_URL_BULK_TRANSFER_PUT'', Some ''/bulkTransfers/{{id}}''),
     (''FSPIOP_CALLBACK_URL_BULK_TRANSFER_ERROR'', Some ''/bulkTransfers/{{id}}/error''),
     (''FSPIOP_CALLBACK_URL_PARTICIPANT_SUB_ID_PUT'', Some ''/participants/{{partyIdType}}/{{partyIdentifier}}/{{partySubIdOrType}}''),
     (''FSPIOP_CALLBACK_URL_PARTICIPANT_SUB_ID_PUT_ERROR'', Some ''/participants/{{partyIdType}}/{{partyIdentifier}}/{{partySubIdOrType}}/error''),
     (''FSPIOP_CALLBACK_URL_PARTICIPANT_SUB_ID_DELETE'', Some ''/participants/{{partyIdType}}/{{partyIdentifier}}/{{partySubIdOrType}}''),
     (''FSPIOP_CALLBACK_URL_PARTIES_SUB_ID_GET'', Some ''/parties/{{partyIdType}}/{{partyIdentifier}}/{{partySubIdOrType}}''),
     (''FSPIOP_CALLBACK_URL_PARTIES_SUB_ID_PUT'', Some ''/parties/{{partyIdType}}/{{partyIdentifier}}/{{partySubIdOrType}}''),
     (''FSPIOP_CALLBACK_URL_PARTIES_SUB_ID_PUT_ERROR'', Some ''/parties/{{partyIdType}}/{{partyIdentifier}}/{{partySubIdOrType}}/error''),
     (''FSPIOP_CALLBACK_URL_FX_TRANSFER_POST'', Some ''/fxTransfers''),
     (''FSPIOP_CALLBACK_URL_FX_TRANSFER_PUT'', Some ''/fxTransfers/{{commitRequestId}}''),
     (''FSPIOP_CALLBACK_URL_FX_TRANSFER_ERROR'', Some ''/fxTransfers/{{commitRequestId}}/error''),
     (''FSPIOP_CALLBACK_URL_FX_QUOTES'', None)]"

definition buildEndpointValue :: "string \<Rightarrow> string option \<Rightarrow> string" where
  "buildEndpointValue base path =
     (if base \<noteq> [] \<and> last base = CHR ''/'' then butlast base else base) @ nullish path []"

text \<open>The loop over the endpoint types, which the facade and the handler of \<open>UpsertEndpointCommand\<close> share.\<close>

fun upsert_endpoints :: "'x ledger \<Rightarrow> string \<Rightarrow> string \<Rightarrow> (string \<times> string option) list \<Rightarrow> ('x, part_error, unit) task" where
  "upsert_endpoints l name endpoint [] = io_return ()"
| "upsert_endpoints l name endpoint ((kind, path) # rest) =
     io_bind (send_unit l (UpsertEndpoint name kind (buildEndpointValue endpoint path)))
       (\<lambda>_. upsert_endpoints l name endpoint rest)"

definition registerParticipantEndpoints :: "'x ledger \<Rightarrow> string \<Rightarrow> string \<Rightarrow> ('x, part_error, unit) task" where
  "registerParticipantEndpoints l name endpoint = rethrowing (upsert_endpoints l name endpoint PARTICIPANT_ENDPOINT_TYPES)"

definition findPositionAccount :: "ledger_participant \<Rightarrow> string \<Rightarrow> ledger_account option" where
  "findPositionAccount p currency =
     List.find (\<lambda>a. la_type a = POSITION_ACCOUNT_TYPE \<and> la_currency a = Some currency) (nullish (lp_accounts p) [])"

definition resolvePositionAccount :: "'x ledger \<Rightarrow> string \<Rightarrow> string \<Rightarrow> ledger_participant \<Rightarrow> ('x, part_error, ledger_account) task" where
  "resolvePositionAccount l name currency p = (case findPositionAccount p currency of
     Some a \<Rightarrow> io_return a
   | None \<Rightarrow> io_bind (send_one l (GetParticipant name)) (\<lambda>current.
       case findPositionAccount current currency of
         Some a \<Rightarrow> io_return a
       | None \<Rightarrow> io_throw (ledger_exception
           (''Unable to resolve POSITION account for '' @ name @ '' ('' @ currency @ '').''))))"

definition toInitialPositionAndLimitsRequest :: "string \<Rightarrow> limits_request" where
  "toInitialPositionAndLimitsRequest currency =
     \<lparr>lr_currency = currency, lr_limitType = ''NET_DEBIT_CAP'', lr_limitValue = 0, lr_initialPosition = 0\<rparr>"

definition addFspCurrency :: "'x ledger \<Rightarrow> string \<Rightarrow> string \<Rightarrow> ('x, part_error, unit) task" where
  "addFspCurrency l name currency = rethrowing
     (io_bind (send_one l (CreateParticipant name currency False)) (\<lambda>p.
      io_bind (resolvePositionAccount l name currency p) (\<lambda>a.
      io_bind (send_unit l (UpdateAccount name (la_id a) True)) (\<lambda>_.
      send_unit l (CreateLimits name (toInitialPositionAndLimitsRequest currency))))))"

fun add_currencies :: "'x ledger \<Rightarrow> string \<Rightarrow> string list \<Rightarrow> ('x, part_error, unit) task" where
  "add_currencies l name [] = io_return ()"
| "add_currencies l name (c # cs) = io_bind (addFspCurrency l name c) (\<lambda>_. add_currencies l name cs)"

definition validateCurrencies :: "string list \<Rightarrow> (part_error, unit) result" where
  "validateCurrencies cs = guard_res (cs = []) (ledger_exception ''At least one currency is required.'')"

definition ledger_onboardFsp :: "'x ledger \<Rightarrow> string \<Rightarrow> string list \<Rightarrow> string \<Rightarrow> ('x, part_error, unit) task" where
  "ledger_onboardFsp l name currencies endpoint = rethrowing
     (io_bind (io_lift (validateCurrencies currencies)) (\<lambda>_.
      io_bind (add_currencies l name currencies) (\<lambda>_.
      registerParticipantEndpoints l name endpoint)))"

definition is_hub :: "ledger_participant \<Rightarrow> bool" where
  "is_hub p \<longleftrightarrow> toLowerCase (lp_name p) = ''hub'' \<or>
     (\<exists>a\<in>set (nullish (lp_accounts p) []).
        la_type a = HUB_MULTILATERAL_SETTLEMENT_ACCOUNT_TYPE \<or> la_type a = HUB_RECONCILIATION_ACCOUNT_TYPE)"

definition resolveHubParticipantName :: "'x ledger \<Rightarrow> ('x, part_error, string) task" where
  "resolveHubParticipantName l = io_bind (send l GetParticipants) (\<lambda>ps.
     case List.find is_hub ps of
       None \<Rightarrow> io_throw (ledger_exception ''Hub participant was not found in Central Ledger.'')
     | Some p \<Rightarrow> io_return (lp_name p))"

definition createHubAccount :: "'x ledger \<Rightarrow> string \<Rightarrow> string \<Rightarrow> string \<Rightarrow> ('x, part_error, unit) task" where
  "createHubAccount l hub currency kind = rethrowing (send_unit l (CreateAccount hub currency kind))"

definition toDeferredNetSettlementModelRequest :: "string \<Rightarrow> settlement_model" where
  "toDeferredNetSettlementModelRequest currency =
     \<lparr>sm_name = ''DEFERREDNET'' @ currency, sm_granularity = ''NET'', sm_interchange = ''MULTILATERAL'',
      sm_delay = ''DEFERRED'', sm_currency = currency, sm_liquidityCheck = True, sm_ledgerAccountType = ''POSITION'',
      sm_settlementAccountType = ''SETTLEMENT'', sm_autoPositionReset = True\<rparr>"

definition createDeferredNetSettlementModel :: "'x ledger \<Rightarrow> string \<Rightarrow> ('x, part_error, unit) task" where
  "createDeferredNetSettlementModel l currency =
     rethrowing (send_unit l (CreateSettlementModel (toDeferredNetSettlementModelRequest currency)))"

definition addHubCurrency :: "'x ledger \<Rightarrow> string \<Rightarrow> ('x, part_error, unit) task" where
  "addHubCurrency l currency = rethrowing
     (io_bind (resolveHubParticipantName l) (\<lambda>hub.
      io_bind (createHubAccount l hub currency HUB_MULTILATERAL_SETTLEMENT_ACCOUNT_TYPE) (\<lambda>_.
      io_bind (createHubAccount l hub currency HUB_RECONCILIATION_ACCOUNT_TYPE) (\<lambda>_.
      createDeferredNetSettlementModel l currency))))"

definition createHubMultilateralSettlementAccount :: "'x ledger \<Rightarrow> string \<Rightarrow> ('x, part_error, unit) task" where
  "createHubMultilateralSettlementAccount l currency = io_bind (resolveHubParticipantName l)
     (\<lambda>hub. createHubAccount l hub currency HUB_MULTILATERAL_SETTLEMENT_ACCOUNT_TYPE)"

definition createHubReconciliationAccount :: "'x ledger \<Rightarrow> string \<Rightarrow> ('x, part_error, unit) task" where
  "createHubReconciliationAccount l currency = io_bind (resolveHubParticipantName l)
     (\<lambda>hub. createHubAccount l hub currency HUB_RECONCILIATION_ACCOUNT_TYPE)"

definition listAllParticipants :: "'x ledger \<Rightarrow> ('x, part_error, ledger_participant list) task" where
  "listAllParticipants l = rethrowing (send l GetParticipants)"

section \<open>What a registration does at the ledger\<close>

text \<open>A ledger with a protocol of the requests it received and how it answered them.\<close>

type_synonym ledger_entry = "ledger_call \<times> (axios_failure, ledger_participant list) result"

definition recorded :: "'x ledger \<Rightarrow> ('x \<times> ledger_entry list) ledger" where
  "recorded l c s = (case l c (fst s) of (r, x) \<Rightarrow> (r, (x, snd s @ [(c, r)])))"

text \<open>
  The entries of a currency that was added: the participant is created with it, the position account that the ledger
  names (in that answer or in the next) is activated, and the limit and the position are set to zero.
\<close>

definition currency_added :: "string \<Rightarrow> string \<Rightarrow> ledger_entry list \<Rightarrow> bool" where
  "currency_added name c es \<longleftrightarrow> (\<exists>p reads a ps qs.
     es = [(CreateParticipant name c False, Inr [p])] @ reads @
          [(UpdateAccount name (la_id a) True, Inr ps), (CreateLimits name (toInitialPositionAndLimitsRequest c), Inr qs)] \<and>
     (findPositionAccount p c = Some a \<and> reads = [] \<or>
      findPositionAccount p c = None \<and> (\<exists>q. reads = [(GetParticipant name, Inr [q])] \<and> findPositionAccount q c = Some a)))"

definition endpoints_set :: "string \<Rightarrow> string \<Rightarrow> (string \<times> string option) list \<Rightarrow> ledger_entry list \<Rightarrow> bool" where
  "endpoints_set name endpoint types es \<longleftrightarrow>
     map fst es = map (\<lambda>(kind, path). UpsertEndpoint name kind (buildEndpointValue endpoint path)) types \<and>
     (\<forall>e\<in>set es. \<exists>ps. snd e = Inr ps)"

lemma send_Inr:
  "send (recorded l) c s = (Inr ps, s') \<longleftrightarrow> (\<exists>x. l c (fst s) = (Inr ps, x) \<and> s' = (x, snd s @ [(c, Inr ps)]))"
  "send_unit (recorded l) c s = (Inr u, s') \<longleftrightarrow> (\<exists>ps x. l c (fst s) = (Inr ps, x) \<and> s' = (x, snd s @ [(c, Inr ps)]))"
  "send_one (recorded l) c s = (Inr p, s') \<longleftrightarrow> (\<exists>x. l c (fst s) = (Inr [p], x) \<and> s' = (x, snd s @ [(c, Inr [p])]))"
proof -
  have one: "send (recorded l) c s = (Inr ps, s') \<longleftrightarrow> (\<exists>x. l c (fst s) = (Inr ps, x) \<and> s' = (x, snd s @ [(c, Inr ps)]))" for ps s'
    by (auto simp: send_def recorded_def split: prod.splits sum.splits)
  have only: "(case qs of [q] \<Rightarrow> io_return q | _ \<Rightarrow> io_throw e) t = (Inr p, t') \<longleftrightarrow> qs = [p] \<and> t' = t" for qs e and t t' :: "'a \<times> ledger_entry list"
    by (cases qs; cases "tl qs") auto
  show "send (recorded l) c s = (Inr ps, s') \<longleftrightarrow> (\<exists>x. l c (fst s) = (Inr ps, x) \<and> s' = (x, snd s @ [(c, Inr ps)]))" by (rule one)
  show "send_unit (recorded l) c s = (Inr u, s') \<longleftrightarrow> (\<exists>ps x. l c (fst s) = (Inr ps, x) \<and> s' = (x, snd s @ [(c, Inr ps)]))"
    by (auto simp: send_unit_def io_bind_Inr_iff one)
  show "send_one (recorded l) c s = (Inr p, s') \<longleftrightarrow> (\<exists>x. l c (fst s) = (Inr [p], x) \<and> s' = (x, snd s @ [(c, Inr [p])]))"
    by (auto simp: send_one_def io_bind_Inr_iff one only)
qed

lemma rethrowing_Inr [simp]: "rethrowing m s = (Inr a, s') \<longleftrightarrow> m s = (Inr a, s')"
  by (auto simp: rethrowing_def io_catch_def split: prod.splits sum.splits)

lemma rethrowing_Inl: "rethrowing m s = (Inl e, s') \<Longrightarrow> e \<noteq> LedgerRefused code d"
  by (auto simp: rethrowing_def io_catch_def as_pivotal_def split: prod.splits sum.splits part_error.splits)

lemma resolvePositionAccount_Inr:
  assumes "resolvePositionAccount (recorded l) name c p s = (Inr a, s')"
  obtains reads where "snd s' = snd s @ reads"
    "findPositionAccount p c = Some a \<and> reads = [] \<or>
     findPositionAccount p c = None \<and> (\<exists>q. reads = [(GetParticipant name, Inr [q])] \<and> findPositionAccount q c = Some a)"
proof (cases "findPositionAccount p c")
  case None
  then obtain q x where "findPositionAccount q c = Some a" "s' = (x, snd s @ [(GetParticipant name, Inr [q])])"
    using assms by (auto simp: resolvePositionAccount_def io_bind_Inr_iff send_Inr split: option.splits)
  then show ?thesis using that None by simp
next
  case (Some b)
  then show ?thesis using assms that by (simp add: resolvePositionAccount_def)
qed

lemma addFspCurrency_Inr:
  assumes "addFspCurrency (recorded l) name c s = (Inr u, s')"
  obtains es where "snd s' = snd s @ es" "currency_added name c es"
proof -
  obtain p x a s1 ps y qs z where steps: "resolvePositionAccount (recorded l) name c p (x, snd s @ [(CreateParticipant name c False, Inr [p])]) = (Inr a, s1)"
    "s' = (z, snd s1 @ [(UpdateAccount name (la_id a) True, Inr ps), (CreateLimits name (toInitialPositionAndLimitsRequest c), Inr qs)])"
    using assms by (auto simp: addFspCurrency_def io_bind_Inr_iff send_Inr)
  from steps(1) obtain reads where "snd s1 = snd s @ [(CreateParticipant name c False, Inr [p])] @ reads"
    "findPositionAccount p c = Some a \<and> reads = [] \<or>
     findPositionAccount p c = None \<and> (\<exists>q. reads = [(GetParticipant name, Inr [q])] \<and> findPositionAccount q c = Some a)"
    by (rule resolvePositionAccount_Inr) simp
  then show ?thesis using steps(2)
    by (intro that[of "[(CreateParticipant name c False, Inr [p])] @ reads @ [(UpdateAccount name (la_id a) True, Inr ps), (CreateLimits name (toInitialPositionAndLimitsRequest c), Inr qs)]"])
      (simp, unfold currency_added_def, blast)
qed

lemma add_currencies_Inr:
  "add_currencies (recorded l) name cs s = (Inr u, s') \<Longrightarrow> \<exists>ess. snd s' = snd s @ concat ess \<and> list_all2 (currency_added name) cs ess"
proof (induction cs arbitrary: s)
  case (Cons c cs)
  then obtain s1 where s1: "addFspCurrency (recorded l) name c s = (Inr (), s1)" "add_currencies (recorded l) name cs s1 = (Inr u, s')"
    by (auto simp: io_bind_Inr_iff)
  obtain es where "snd s1 = snd s @ es" "currency_added name c es" by (rule addFspCurrency_Inr[OF s1(1)])
  moreover obtain ess where "snd s' = snd s1 @ concat ess" "list_all2 (currency_added name) cs ess" using Cons.IH[OF s1(2)] by blast
  ultimately show ?case by (intro exI[of _ "es # ess"]) simp
qed simp

lemma upsert_endpoints_Inr:
  "upsert_endpoints (recorded l) name endpoint types s = (Inr u, s') \<Longrightarrow> \<exists>es. snd s' = snd s @ es \<and> endpoints_set name endpoint types es"
proof (induction types arbitrary: s)
  case (Cons t types)
  obtain kind path where t: "t = (kind, path)" by fastforce
  obtain ps x where s1: "upsert_endpoints (recorded l) name endpoint types
      (x, snd s @ [(UpsertEndpoint name kind (buildEndpointValue endpoint path), Inr ps)]) = (Inr u, s')"
    using Cons.prems by (auto simp: t io_bind_Inr_iff send_Inr)
  obtain es where "snd s' = (snd s @ [(UpsertEndpoint name kind (buildEndpointValue endpoint path), Inr ps)]) @ es" "endpoints_set name endpoint types es"
    using Cons.IH[OF s1] by auto
  then show ?case
    by (intro exI[of _ "(UpsertEndpoint name kind (buildEndpointValue endpoint path), Inr ps) # es"]) (simp add: t endpoints_set_def)
qed (simp add: endpoints_set_def)

lemma ledger_onboarding_steps:
  assumes "ledger_onboardFsp (recorded l) name cs endpoint (x, []) = (r, (x', entries))"
  shows "(r = Inr () \<longrightarrow> cs \<noteq> [] \<and> (\<exists>ess es. entries = concat ess @ es \<and> list_all2 (currency_added name) cs ess \<and>
           endpoints_set name endpoint PARTICIPANT_ENDPOINT_TYPES es)) \<and> (\<forall>code d. r \<noteq> Inl (LedgerRefused code d))"
proof (intro conjI impI)
  assume "r = Inr ()"
  then obtain s1 where s1: "cs \<noteq> []" "add_currencies (recorded l) name cs (x, []) = (Inr (), s1)"
    "upsert_endpoints (recorded l) name endpoint PARTICIPANT_ENDPOINT_TYPES s1 = (Inr (), (x', entries))"
    using assms by (auto simp: ledger_onboardFsp_def io_bind_Inr_iff validateCurrencies_def guard_res_def registerParticipantEndpoints_def split: if_splits)
  then show "cs \<noteq> []" by simp
  show "\<exists>ess es. entries = concat ess @ es \<and> list_all2 (currency_added name) cs ess \<and> endpoints_set name endpoint PARTICIPANT_ENDPOINT_TYPES es"
  proof -
    obtain ess where ess: "snd s1 = snd (x, []) @ concat ess" "list_all2 (currency_added name) cs ess"
      using add_currencies_Inr[OF s1(2)] by blast
    obtain es where "snd (x', entries) = snd s1 @ es" "endpoints_set name endpoint PARTICIPANT_ENDPOINT_TYPES es"
      using upsert_endpoints_Inr[OF s1(3)] by blast
    then have "entries = concat ess @ es" "endpoints_set name endpoint PARTICIPANT_ENDPOINT_TYPES es" using ess(1) by simp_all
    then show ?thesis using ess(2) by blast
  qed
next
  show "\<forall>code d. r \<noteq> Inl (LedgerRefused code d)"
  proof (intro allI notI)
    fix code d
    assume "r = Inl (LedgerRefused code d)"
    then show False using assms unfolding ledger_onboardFsp_def by (auto dest: rethrowing_Inl)
  qed
qed

text \<open>
  C36: a participant is registered at the ledger completely.  When \<open>onboardFsp\<close> of the facade returns, the ledger has
  answered every request of the registration, in order: for each currency the participant was created with it, exactly
  the position account that the ledger names for the currency was activated and its net debit cap and position were set
  to zero; then all callback endpoints were set, below the given address without a doubled slash.  Whatever it throws is
  no \<open>CentralLedgerException\<close>, which the API would not translate.
\<close>

theorem ledger_registration_complete:
  assumes "ledger_onboardFsp (recorded l) name cs endpoint (x, []) = (r, (x', entries))"
  shows "(r = Inr () \<longrightarrow> cs \<noteq> [] \<and> (\<exists>ess es. entries = concat ess @ es \<and> list_all2 (currency_added name) cs ess \<and>
           endpoints_set name endpoint PARTICIPANT_ENDPOINT_TYPES es)) \<and> (\<forall>code d. r \<noteq> Inl (LedgerRefused code d))"
  by (rule ledger_onboarding_steps[OF assms])

text \<open>A ledger that names the position account only when it is asked again.\<close>

definition demo_ledger :: "nat ledger" where
  "demo_ledger c n = (case c of
     CreateParticipant name _ _ \<Rightarrow> (Inr [\<lparr>lp_name = name, lp_accounts = None\<rparr>], n)
   | GetParticipant name \<Rightarrow> (Inr [\<lparr>lp_name = name, lp_accounts =
         Some [\<lparr>la_id = 7, la_type = POSITION_ACCOUNT_TYPE, la_currency = Some ''USD''\<rparr>]\<rparr>], n)
   | _ \<Rightarrow> (Inr [], Suc n))"

theorem ledger_registration_complete_witness:
  "\<exists>x' entries. ledger_onboardFsp (recorded demo_ledger) ''a'' [''USD''] ''https://a/'' (0, []) = (Inr (), (x', entries)) \<and>
     (\<exists>ess es. entries = concat ess @ es \<and> list_all2 (currency_added ''a'') [''USD''] ess \<and> endpoints_set ''a'' ''https://a/'' PARTICIPANT_ENDPOINT_TYPES es)"
proof -
  have "fst (ledger_onboardFsp (recorded demo_ledger) ''a'' [''USD''] ''https://a/'' (0, [])) = Inr ()" by code_simp
  then obtain x' entries where "ledger_onboardFsp (recorded demo_ledger) ''a'' [''USD''] ''https://a/'' (0, []) = (Inr (), (x', entries))"
    by (metis prod.collapse)
  from this ledger_registration_complete[OF this] show ?thesis by blast
qed


end
