(* ===== verification/Signing_Tenants.thy ===== *)
theory Signing_Tenants
  imports Central_Ledger Fspiop_Signing Keyed_Tables
begin

text \<open>
  The participants and their signing keys: the tables \<open>participant\<close> and \<open>participant_key\<close> and the commands of
  \<open>core/participant/domain/command\<close>, the provisioners of \<open>jws-key-provisioner.ts\<close>, and the jobs of the trust manager
  that publish keys to the Connection Manager (MCM), switch signing on and pull the keys of peers
  (\<open>jws-key-publish.scheduler.ts\<close>, \<open>signing-tenant.consumer.ts\<close>, \<open>mcm-dfsp.registrar.ts\<close>, \<open>peer-jws-sync.scheduler.ts\<close>).

  The write database, what the read replica holds of \<open>participant_key\<close>, the DFSPs the registrar remembers, the clock
  and the state of everything outside (ledger, MCM, Vault, message bus) make up the world.  \<open>save\<close> of a loaded entity
  writes all its columns; rows are never deleted.
\<close>

section \<open>The tables\<close>

datatype key_role = Self | Peer

record participant_key =
  pk_id :: "nat option"
  pk_fspId :: string
  pk_role :: key_role
  pk_publicKey :: "string option"
  pk_privateKey :: "string option"
  pk_signEnabled :: bool
  pk_activatedAt :: "nat option"
  pk_verifyMode :: string

record participant =
  pa_id :: "nat option"
  pa_name :: string
  pa_jwsPublicKey :: "string option"
  pa_jwsPrivateKey :: "string option"
  pa_accessPublicKey :: string

record 'x tenants =
  tn_participants :: "participant list"
  tn_nextParticipant :: nat
  tn_keys :: "participant_key list"
  tn_nextKey :: nat
  tn_replica :: "participant_key list"
  tn_known :: "string list"
  tn_clock :: nat
  tn_outside :: 'x

type_synonym ('x, 'a) tenant_task = "('x tenants, part_error, 'a) task"

definition outside :: "('x, part_error, 'a) task \<Rightarrow> ('x, 'a) tenant_task" where
  "outside m = io_on tn_outside (\<lambda>x w. w\<lparr>tn_outside := x\<rparr>) m"

text \<open>\<open>participant_key.fsp_id\<close> compares case-sensitively; it is a unique key.\<close>

definition find_key :: "string \<Rightarrow> 'x tenants \<Rightarrow> participant_key option" where
  "find_key f w = List.find (\<lambda>r. pk_fspId r = f) (tn_keys w)"

definition find_replica :: "string \<Rightarrow> 'x tenants \<Rightarrow> participant_key option" where
  "find_replica f w = List.find (\<lambda>r. pk_fspId r = f) (tn_replica w)"

definition update_keys :: "(participant_key \<Rightarrow> bool) \<Rightarrow> (participant_key \<Rightarrow> participant_key) \<Rightarrow> 'x tenants \<Rightarrow> 'x tenants" where
  "update_keys P f w = w\<lparr>tn_keys := map (\<lambda>r. if P r then f r else r) (tn_keys w)\<rparr>"

definition save_key :: "participant_key \<Rightarrow> ('x, participant_key) tenant_task" where
  "save_key r w = (case pk_id r of
     Some i \<Rightarrow> (Inr r, update_keys (\<lambda>x. pk_id x = Some i) (\<lambda>_. r) w)
   | None \<Rightarrow>
       if find_key (pk_fspId r) w \<noteq> None then (Inl (Thrown ''Duplicate entry''), w)
       else let saved = r\<lparr>pk_id := Some (tn_nextKey w)\<rparr>
            in (Inr saved, w\<lparr>tn_keys := tn_keys w @ [saved], tn_nextKey := Suc (tn_nextKey w)\<rparr>))"

text \<open>\<open>participant.name\<close> is compared under the collation of its column, which ignores case; it is a unique key.\<close>

definition find_participant :: "(string \<Rightarrow> string) \<Rightarrow> string \<Rightarrow> 'x tenants \<Rightarrow> participant option" where
  "find_participant co name w = List.find (\<lambda>p. co (pa_name p) = co name) (tn_participants w)"

definition save_participant :: "(string \<Rightarrow> string) \<Rightarrow> participant \<Rightarrow> ('x, participant) tenant_task" where
  "save_participant co p w = (case pa_id p of
     Some i \<Rightarrow> (Inr p, w\<lparr>tn_participants := map (\<lambda>q. if pa_id q = Some i then p else q) (tn_participants w)\<rparr>)
   | None \<Rightarrow>
       if find_participant co (pa_name p) w \<noteq> None then (Inl (Thrown ''Duplicate entry''), w)
       else let saved = p\<lparr>pa_id := Some (tn_nextParticipant w)\<rparr>
            in (Inr saved, w\<lparr>tn_participants := tn_participants w @ [saved], tn_nextParticipant := Suc (tn_nextParticipant w)\<rparr>))"

definition quoted :: "string \<Rightarrow> string" where
  "quoted s = [CHR 0x27] @ s @ [CHR 0x27]"

section \<open>What lies outside\<close>

text \<open>The Connection Manager: its list of DFSPs (\<open>id\<close> and \<open>dfspId\<close>) and the JWS keys it holds.\<close>

record jws_cert =
  jc_dfspId :: "string option"
  jc_publicKey :: "string option"

record dfsp_request =
  dr_dfspId :: string
  dr_name :: string
  dr_email :: "string option"
  dr_monetaryZoneId :: "string option"

record 'x mcm =
  mc_listDfsps :: "('x, part_error, (string option \<times> string option) list) task"
  mc_createDfsp :: "dfsp_request \<Rightarrow> ('x, part_error, unit) task"
  mc_publishJwsKey :: "string \<Rightarrow> string \<Rightarrow> ('x, part_error, unit) task"
  mc_getJwsKey :: "string \<Rightarrow> ('x, part_error, jws_cert option) task"
  mc_listAllJwsKeys :: "('x, part_error, jws_cert list) task"

record registrar_settings =
  rg_enabled :: bool
  rg_contactEmail :: "string option"
  rg_monetaryZoneId :: "string option"

text \<open>Where signing keys are kept (\<open>KEY_PROVIDER\<close>), with the path prefix in Vault.\<close>

datatype custody = NoCustody | DatabaseCustody | VaultCustody string | Pkcs11Custody string

text \<open>
  The deployment and its services: the key generator (public and private key as PEM), Vault, the texts that Node reads as
  a key it can take the public half of and as a private key, the message bus (absent, disconnected, or publishing an announcement), the ledger and MCM.
\<close>

record 'x deployment =
  dp_collate :: "string \<Rightarrow> string"
  dp_custody :: custody
  dp_generate :: "('x, part_error, string \<times> string) task"
  dp_writeKv :: "string \<Rightarrow> string \<Rightarrow> string \<Rightarrow> ('x, part_error, unit) task"
  dp_readKv :: "string \<Rightarrow> string \<Rightarrow> ('x, part_error, string option) task"
  dp_isKey :: "string \<Rightarrow> bool"
  dp_isPrivateKey :: "string \<Rightarrow> bool"
  dp_announcer :: bool
  dp_isConnected :: "'x \<Rightarrow> bool"
  dp_announce :: "string \<Rightarrow> ('x, part_error, unit) task"
  dp_ledger :: "'x ledger"
  dp_mcm :: "'x mcm"
  dp_registrar :: "registrar_settings option"

section \<open>Errors of the participants\<close>

definition PARTICIPANT_ERROR_MESSAGES :: "(string \<times> string) list" where
  "PARTICIPANT_ERROR_MESSAGES = [
     (''PARTICIPANT_UNKNOWN'', ''No participant is registered with that identifier.''),
     (''PARTICIPANT_CERT_CSR_MALFORMED'', ''The certificate signing request could not be read. It must be a PEM-encoded PKCS#10 request.''),
     (''PARTICIPANT_CERT_CSR_KEY_TOO_SMALL'', ''The certificate signing request uses a key that is too small. RSA keys must be at least 2048 bits.''),
     (''PARTICIPANT_CERT_ISSUANCE_FAILED'', ''The certificate could not be issued. Please try again, and contact an administrator if the problem persists.''),
     (''PARTICIPANT_CERT_NOT_FOUND'', ''No certificate was found.''),
     (''PARTICIPANT_CERT_ALREADY_REVOKED'', ''That certificate has already been revoked.''),
     (''PARTICIPANT_CERT_STATUS_UNKNOWN'', ''That certificate status is not recognised.''),
     (''PARTICIPANT_KEY_NOT_FOUND'', ''No JWS key record exists for that participant.''),
     (''PARTICIPANT_HSM_KEY_NOT_FOUND'', ''This DFSP has no signing key in the HSM yet. A custodian must provision it before the DFSP can be onboarded.''),
     (''PARTICIPANT_HSM_KEY_RECORD_INVALID'', ''This DFSP'' @ [CHR 0x27] @ ''s signing key record in Vault does not hold a valid public key. A custodian must check the provisioning run.'')]"

definition participantError :: "string \<Rightarrow> part_error" where
  "participantError code = (case map_of PARTICIPANT_ERROR_MESSAGES code of
     None \<Rightarrow> Thrown (''Unknown participant error code: '' @ code)
   | Some message \<Rightarrow> Pivotal code message)"

section \<open>Key provisioners\<close>

text \<open>Whether \<open>PublicKey.fromBuffer\<close> takes a text.\<close>

definition public_key_fromBuffer :: "'x deployment \<Rightarrow> string \<Rightarrow> bool" where
  "public_key_fromBuffer d s \<longleftrightarrow> s \<noteq> [] \<and> dp_isKey d s \<and> \<not> dp_isPrivateKey d s"

definition read_hsm_record :: "'x deployment \<Rightarrow> string \<Rightarrow> string \<Rightarrow> ('x, part_error, string \<times> string) task" where
  "read_hsm_record d prefix fspId =
     (let path = prefix @ ''/'' @ trim fspId in
      io_bind (dp_readKv d path ''keyRef'') (\<lambda>keyRef.
      io_bind (dp_readKv d path ''publicKey'') (\<lambda>publicKey.
      case (keyRef, publicKey) of
        (Some k, Some p) \<Rightarrow>
          if dp_isKey d p then io_return (k, p) else io_throw (participantError ''PARTICIPANT_HSM_KEY_RECORD_INVALID'')
      | _ \<Rightarrow> io_throw (participantError ''PARTICIPANT_HSM_KEY_NOT_FOUND''))))"

definition assertReady :: "'x deployment \<Rightarrow> string \<Rightarrow> ('x, part_error, unit) task" where
  "assertReady d fspId = (case dp_custody d of
     Pkcs11Custody prefix \<Rightarrow> io_bind (read_hsm_record d prefix fspId) (\<lambda>_. io_return ())
   | _ \<Rightarrow> io_return ())"

text \<open>The public key, with the private key where the caller has to store it; nothing where no keys are held.\<close>

definition provision :: "'x deployment \<Rightarrow> string \<Rightarrow> ('x, part_error, (string \<times> string option) option) task" where
  "provision d fspId = (case dp_custody d of
     NoCustody \<Rightarrow> io_return None
   | DatabaseCustody \<Rightarrow> io_bind (dp_generate d) (\<lambda>(pub, priv). io_return (Some (pub, Some priv)))
   | VaultCustody prefix \<Rightarrow>
       io_bind (dp_generate d) (\<lambda>(pub, priv).
       io_bind (dp_writeKv d (prefix @ ''/'' @ fspId) ''privateKey'' priv) (\<lambda>_. io_return (Some (pub, None))))
   | Pkcs11Custody prefix \<Rightarrow> io_bind (read_hsm_record d prefix fspId) (\<lambda>(_, pub). io_return (Some (pub, None))))"

section \<open>Commands\<close>

definition has_text :: "string option \<Rightarrow> bool" where
  "has_text v \<longleftrightarrow> (case v of Some s \<Rightarrow> trim s \<noteq> [] | None \<Rightarrow> False)"

definition new_key :: "string \<Rightarrow> participant_key" where
  "new_key fspId = \<lparr>pk_id = None, pk_fspId = fspId, pk_role = Peer, pk_publicKey = None, pk_privateKey = None,
     pk_signEnabled = False, pk_activatedAt = None, pk_verifyMode = ''off''\<rparr>"

definition mode_text :: "verify_mode \<Rightarrow> string" where
  "mode_text m = (case m of Off \<Rightarrow> ''off'' | VerifyIfPresent \<Rightarrow> ''verify-if-present'' | Require \<Rightarrow> ''require'')"

definition addSigningKeys :: "string \<Rightarrow> string \<Rightarrow> string option \<Rightarrow> ('x, nat option) tenant_task" where
  "addSigningKeys name publicKey privateKey =
     io_bind (io_gets (find_key name)) (\<lambda>existing.
     let entity = (case existing of
           Some r \<Rightarrow> r\<lparr>pk_publicKey := Some publicKey, pk_privateKey := privateKey\<rparr>
         | None \<Rightarrow> (new_key name)\<lparr>pk_publicKey := Some publicKey, pk_privateKey := privateKey,
             pk_role := (if has_text privateKey then Self else Peer)\<rparr>)
     in io_bind (save_key entity) (\<lambda>saved. io_return (pk_id saved)))"

text \<open>The handler has to leave signing off for a participant it cannot sign for.\<close>

definition policy_guard :: "string \<Rightarrow> bool option \<Rightarrow> participant_key \<Rightarrow> (part_error, unit) result" where
  "policy_guard fspId sign r =
     (if sign = Some True then
        if pk_role r \<noteq> Self
        then Inl (Pivotal ''PARTICIPANT_NOT_SIGNING_TENANT'' (quoted fspId @ '' is a peer, not a tenant this deployment signs for.''))
        else if \<not> has_text (pk_publicKey r)
        then Inl (Pivotal ''PARTICIPANT_KEY_MISSING'' (quoted fspId @ '' has no signing key. Provision one before enabling signing.''))
        else Inr ()
      else Inr ())"

definition with_policy :: "bool option \<Rightarrow> verify_mode option \<Rightarrow> nat \<Rightarrow> participant_key \<Rightarrow> participant_key" where
  "with_policy sign mode clock r =
     (let r' = r\<lparr>pk_signEnabled := nullish sign (pk_signEnabled r),
                 pk_verifyMode := nullish (map_option mode_text mode) (pk_verifyMode r)\<rparr>
      in if pk_signEnabled r' \<and> pk_activatedAt r' = None then r'\<lparr>pk_activatedAt := Some clock\<rparr> else r')"

definition updateJwsPolicy :: "string \<Rightarrow> bool option \<Rightarrow> verify_mode option \<Rightarrow> ('x, string \<times> bool \<times> verify_mode) tenant_task" where
  "updateJwsPolicy fspId0 sign mode =
     (let fspId = trim fspId0 in
      io_bind (io_gets (find_key fspId)) (\<lambda>existing. case existing of
        None \<Rightarrow> io_throw (Pivotal ''PARTICIPANT_KEY_NOT_FOUND'' (''No key record exists for participant '' @ quoted fspId @ ''.''))
      | Some r \<Rightarrow>
          io_bind (io_lift (policy_guard fspId sign r)) (\<lambda>_.
          io_bind (io_gets tn_clock) (\<lambda>clock.
          io_bind (save_key (with_policy sign mode clock r)) (\<lambda>saved.
          io_return (pk_fspId saved, pk_signEnabled saved, parse_mode (Some (pk_verifyMode saved)) Off))))))"

definition getJwsPolicy :: "string \<Rightarrow> ('x, string \<times> key_role \<times> bool \<times> bool \<times> string) tenant_task" where
  "getJwsPolicy fspId0 =
     (let fspId = trim fspId0 in
      io_bind (if fspId = [] then io_return None else io_gets (find_key fspId)) (\<lambda>key. case key of
        None \<Rightarrow> io_throw (participantError ''PARTICIPANT_KEY_NOT_FOUND'')
      | Some k \<Rightarrow> io_return (pk_fspId k, pk_role k, has_text (pk_publicKey k), pk_signEnabled k, pk_verifyMode k)))"

definition updateAccessKey :: "'x deployment \<Rightarrow> string \<Rightarrow> string \<Rightarrow> ('x, nat option) tenant_task" where
  "updateAccessKey d name0 key0 =
     (let name = trim name0; accessPublicKey = trim key0 in
      if toLowerCase name = ''hub''
      then io_throw (Pivotal ''PARTICIPANT_ACCESS_KEY_UPDATE_FORBIDDEN'' ''Hub participant access key cannot be updated.'')
      else if accessPublicKey = [] then io_throw (Pivotal ''INVALID_ACCESS_PUBLIC_KEY'' ''Access public key is required.'')
      else if \<not> public_key_fromBuffer d accessPublicKey
      then io_throw (Pivotal ''INVALID_ACCESS_PUBLIC_KEY'' ''Access public key must be a structurally valid PEM public key.'')
      else io_bind (io_gets (find_participant (dp_collate d) name)) (\<lambda>found. case found of
        None \<Rightarrow> io_throw (Pivotal ''PARTICIPANT_NOT_FOUND'' (''Participant not found for name: '' @ name))
      | Some p \<Rightarrow> io_bind (save_participant (dp_collate d) (p\<lparr>pa_accessPublicKey := accessPublicKey\<rparr>)) (\<lambda>saved. io_return (pa_id saved))))"

definition the_participant :: "'x deployment \<Rightarrow> string \<Rightarrow> ('x, participant) tenant_task" where
  "the_participant d name = io_bind (io_gets (find_participant (dp_collate d) name)) (\<lambda>found. case found of
     None \<Rightarrow> io_throw (Pivotal ''PARTICIPANT_NOT_FOUND'' (''Participant not found for name: '' @ name))
   | Some p \<Rightarrow> io_return p)"

definition upsertEndpoint :: "'x deployment \<Rightarrow> string \<Rightarrow> string \<Rightarrow> ('x, nat option) tenant_task" where
  "upsertEndpoint d name endpoint =
     io_bind (the_participant d name) (\<lambda>p.
     io_bind (outside (rethrowing (upsert_endpoints (dp_ledger d) name endpoint PARTICIPANT_ENDPOINT_TYPES))) (\<lambda>_.
     io_return (pa_id p)))"

definition addFspCurrency_command :: "'x deployment \<Rightarrow> string \<Rightarrow> string \<Rightarrow> ('x, nat option) tenant_task" where
  "addFspCurrency_command d name currency =
     io_bind (the_participant d name) (\<lambda>p.
     io_bind (outside (addFspCurrency (dp_ledger d) name currency)) (\<lambda>_. io_return (pa_id p)))"

definition addHubCurrency_command :: "'x deployment \<Rightarrow> string \<Rightarrow> ('x, string) tenant_task" where
  "addHubCurrency_command d currency =
     io_bind (outside (addHubCurrency (dp_ledger d) currency)) (\<lambda>_. io_return currency)"

text \<open>The announcement of a tenant that was given a key; it never fails.\<close>

definition announce :: "'x deployment \<Rightarrow> string \<Rightarrow> ('x, part_error, unit) task" where
  "announce d fspId x =
     (if \<not> dp_isConnected d x then (Inr (), x) else io_catch (dp_announce d fspId) (\<lambda>_. io_return ()) x)"

definition provisionSigningKey :: "'x deployment \<Rightarrow> string \<Rightarrow> ('x, unit) tenant_task" where
  "provisionSigningKey d fspId =
     io_bind (io_gets (find_key fspId)) (\<lambda>existing.
     if has_text (Option.bind existing pk_publicKey) then io_return ()
     else io_bind (outside (provision d fspId)) (\<lambda>provisioned. case provisioned of
       None \<Rightarrow> io_return ()
     | Some (pub, legacy) \<Rightarrow>
         let key = (case existing of Some r \<Rightarrow> r | None \<Rightarrow> new_key fspId)\<lparr>pk_fspId := fspId, pk_role := Self,
               pk_publicKey := Some pub, pk_privateKey := legacy, pk_signEnabled := False, pk_activatedAt := None\<rparr>
         in io_bind (save_key key) (\<lambda>_.
            if dp_announcer d then outside (announce d fspId) else io_return ())))"

definition onboardFsp :: "'x deployment \<Rightarrow> string \<Rightarrow> string list \<Rightarrow> string \<Rightarrow> string \<Rightarrow> ('x, nat option) tenant_task" where
  "onboardFsp d name currencies endpoint accessPublicKey =
     io_bind (io_gets (find_key name)) (\<lambda>existingKey.
     io_bind (if has_text (Option.bind existingKey pk_publicKey) then io_return () else outside (assertReady d name)) (\<lambda>_.
     io_bind (outside (ledger_onboardFsp (dp_ledger d) name currencies endpoint)) (\<lambda>_.
     io_bind (io_gets (find_participant (dp_collate d) name)) (\<lambda>existing.
     io_bind (save_participant (dp_collate d) \<lparr>pa_id = Option.bind existing pa_id, pa_name = name, pa_jwsPublicKey = None,
         pa_jwsPrivateKey = None, pa_accessPublicKey = accessPublicKey\<rparr>) (\<lambda>saved.
     io_bind (provisionSigningKey d name) (\<lambda>_. io_return (pa_id saved)))))))"

section \<open>The registrar of DFSPs at MCM\<close>

datatype registrar_outcome = Disabled | Present | Created

definition registrar_request :: "registrar_settings \<Rightarrow> string \<Rightarrow> dfsp_request" where
  "registrar_request s dfspId =
     \<lparr>dr_dfspId = dfspId, dr_name = dfspId, dr_email = rg_contactEmail s, dr_monetaryZoneId = rg_monetaryZoneId s\<rparr>"

definition remember :: "string list \<Rightarrow> 'x tenants \<Rightarrow> 'x tenants" where
  "remember ids w = w\<lparr>tn_known := tn_known w @ filter (\<lambda>i. i \<noteq> []) ids\<rparr>"

definition dfsp_exists :: "'x mcm \<Rightarrow> string \<Rightarrow> ('x, bool) tenant_task" where
  "dfsp_exists m dfspId w = (case outside (mc_listDfsps m) w of
     (Inl e, w') \<Rightarrow> (Inl e, w')
   | (Inr dfsps, w') \<Rightarrow>
       let w'' = remember (map (\<lambda>(i, dfsp). nullish i (nullish dfsp [])) dfsps) w'
       in (Inr (dfspId \<in> set (tn_known w'')), w''))"

definition ensureRegistered :: "'x mcm \<Rightarrow> registrar_settings \<Rightarrow> string \<Rightarrow> ('x, registrar_outcome) tenant_task" where
  "ensureRegistered m s dfspId w =
     (if \<not> rg_enabled s then (Inr Disabled, w)
      else if dfspId \<in> set (tn_known w) then (Inr Present, w)
      else io_bind (dfsp_exists m dfspId) (\<lambda>found.
        if found then io_return Present
        else io_bind (io_catch (io_bind (outside (mc_createDfsp m (registrar_request s dfspId))) (\<lambda>_. io_return Created))
               (\<lambda>e. io_bind (dfsp_exists m dfspId) (\<lambda>now_there. if now_there then io_return Present else io_throw e)))
             (\<lambda>outcome w. (Inr outcome, if outcome = Created then remember [dfspId] w else w))) w)"

section \<open>Publishing keys to MCM\<close>

text \<open>\<open>publishAndVerifyJwsKey\<close> of \<open>mcm-axios.ts\<close>: the key is read back and compared.\<close>

definition publishAndVerifyJwsKey :: "'x mcm \<Rightarrow> string \<Rightarrow> string \<Rightarrow> ('x, part_error, unit) task" where
  "publishAndVerifyJwsKey m dfspId publicKey =
     io_bind (mc_publishJwsKey m dfspId publicKey) (\<lambda>_.
     io_bind (mc_getJwsKey m dfspId) (\<lambda>stored. case stored of
       None \<Rightarrow> io_throw (Thrown ''TypeError'')
     | Some c \<Rightarrow>
         if jc_publicKey c \<noteq> Some publicKey
         then io_throw (McmRefused ''MCM_JWS_KEY_MISMATCH'' (''Key stored for '' @ quoted dfspId
                @ '' differs from the key published. MCM accepted the write but did not persist it verbatim.'') None)
         else io_return ()))"

definition samePem :: "string \<Rightarrow> string \<Rightarrow> bool" where
  "samePem a b \<longleftrightarrow> filter (\<lambda>c. \<not> is_space c) a = filter (\<lambda>c. \<not> is_space c) b"

definition no_key_held :: "string \<Rightarrow> part_error" where
  "no_key_held fspId = PermanentPublish (''No self-role public key held for '' @ quoted fspId @ ''.'')"

definition publishable :: "participant_key option \<Rightarrow> (participant_key \<times> string) option" where
  "publishable key = (case key of
     Some k \<Rightarrow> if pk_role k = Self then map_option (\<lambda>p. (k, p)) (pk_publicKey k) else None
   | None \<Rightarrow> None)"

text \<open>The rotation by an operator: replaces what MCM holds.\<close>

definition publish_key :: "'x deployment \<Rightarrow> string \<Rightarrow> ('x, unit) tenant_task" where
  "publish_key d fspId = io_bind (io_gets (find_key fspId)) (\<lambda>key. case publishable key of
     None \<Rightarrow> io_throw (no_key_held fspId)
   | Some (_, publicKey) \<Rightarrow> outside (publishAndVerifyJwsKey (dp_mcm d) fspId publicKey))"

datatype mcm_state = Diverged | AlreadyCorrect | Published

text \<open>The steps that \<open>publishAndEnable\<close> and the sweep share: register the DFSP, compare with MCM, fill a gap.\<close>

definition bring_to_mcm :: "'x deployment \<Rightarrow> string \<Rightarrow> string \<Rightarrow> ('x, mcm_state) tenant_task" where
  "bring_to_mcm d fspId publicKey =
     io_bind (case dp_registrar d of None \<Rightarrow> io_return Disabled | Some s \<Rightarrow> ensureRegistered (dp_mcm d) s fspId) (\<lambda>_.
     io_bind (io_catch (outside (mc_getJwsKey (dp_mcm d) fspId)) (\<lambda>_. io_return None)) (\<lambda>stored.
     let storedKey = Option.bind stored jc_publicKey in
     if has_text storedKey
     then io_return (if samePem (the storedKey) publicKey then AlreadyCorrect else Diverged)
     else io_bind (outside (publishAndVerifyJwsKey (dp_mcm d) fspId publicKey)) (\<lambda>_. io_return Published)))"

definition activate :: "participant_key \<Rightarrow> ('x, bool) tenant_task" where
  "activate key =
     (if pk_activatedAt key \<noteq> None then io_return False
      else io_bind (io_gets tn_clock) (\<lambda>clock.
           io_bind (save_key (key\<lparr>pk_activatedAt := Some clock, pk_signEnabled := True\<rparr>)) (\<lambda>_.
           io_return (\<not> pk_signEnabled key))))"

definition publishAndEnable :: "'x deployment \<Rightarrow> string \<Rightarrow> ('x, unit) tenant_task" where
  "publishAndEnable d fspId = io_bind (io_gets (find_key fspId)) (\<lambda>key. case publishable key of
     None \<Rightarrow> io_throw (no_key_held fspId)
   | Some (k, publicKey) \<Rightarrow>
       io_bind (bring_to_mcm d fspId publicKey) (\<lambda>state.
       if state = Diverged
       then io_throw (PermanentPublish (''MCM holds a different signing key for '' @ quoted fspId
              @ '' than Pivotal does. Resolve this deliberately rather than by republishing.''))
       else io_bind (activate k) (\<lambda>_. io_return ())))"

record sweep_result =
  sw_tenants :: nat
  sw_published :: nat
  sw_alreadyCorrect :: nat
  sw_activated :: nat
  sw_diverged :: nat
  sw_failed :: nat

definition count_state :: "mcm_state \<Rightarrow> sweep_result \<Rightarrow> sweep_result" where
  "count_state s c = (case s of
     Diverged \<Rightarrow> c\<lparr>sw_diverged := Suc (sw_diverged c)\<rparr>
   | AlreadyCorrect \<Rightarrow> c\<lparr>sw_alreadyCorrect := Suc (sw_alreadyCorrect c)\<rparr>
   | Published \<Rightarrow> c\<lparr>sw_published := Suc (sw_published c)\<rparr>)"

definition reconcile_tenant :: "'x deployment \<Rightarrow> participant_key \<times> string \<Rightarrow> sweep_result \<Rightarrow> 'x tenants \<Rightarrow> sweep_result \<times> 'x tenants" where
  "reconcile_tenant d t c w = (case t of (tenant, publicKey) \<Rightarrow>
     (case bring_to_mcm d (pk_fspId tenant) publicKey w of
        (Inl _, w1) \<Rightarrow> (c\<lparr>sw_failed := Suc (sw_failed c)\<rparr>, w1)
      | (Inr state, w1) \<Rightarrow>
          let c1 = count_state state c in
          if state = Diverged then (c1, w1)
          else (case activate tenant w1 of
                  (Inl _, w2) \<Rightarrow> (c1\<lparr>sw_failed := Suc (sw_failed c1)\<rparr>, w2)
                | (Inr on, w2) \<Rightarrow> (if on then c1\<lparr>sw_activated := Suc (sw_activated c1)\<rparr> else c1, w2))))"

fun reconcile_all :: "'x deployment \<Rightarrow> (participant_key \<times> string) list \<Rightarrow> sweep_result \<Rightarrow> 'x tenants \<Rightarrow> sweep_result \<times> 'x tenants" where
  "reconcile_all d [] c w = (c, w)"
| "reconcile_all d (t # ts) c w = (case reconcile_tenant d t c w of (c', w') \<Rightarrow> reconcile_all d ts c' w')"

text \<open>The rows are read once, before the loop.\<close>

definition sweep_tenants :: "'x tenants \<Rightarrow> (participant_key \<times> string) list" where
  "sweep_tenants w = List.map_filter (\<lambda>k. publishable (Some k)) (tn_keys w)"

definition reconcile :: "'x deployment \<Rightarrow> 'x tenants \<Rightarrow> sweep_result \<times> 'x tenants" where
  "reconcile d w = reconcile_all d (sweep_tenants w)
     \<lparr>sw_tenants = length (sweep_tenants w), sw_published = 0, sw_alreadyCorrect = 0, sw_activated = 0, sw_diverged = 0, sw_failed = 0\<rparr> w"

section \<open>The consumer of announcements\<close>

definition BASE_BACKOFF_MS :: nat where "BASE_BACKOFF_MS = 5000"
definition MAX_BACKOFF_MS :: nat where "MAX_BACKOFF_MS = 5 * 60000"

definition backoffMs :: "nat \<Rightarrow> nat" where
  "backoffMs redeliveryCount = min (BASE_BACKOFF_MS * 2 ^ min (redeliveryCount - 1) 20) MAX_BACKOFF_MS"

definition isPermanent :: "part_error \<Rightarrow> bool" where
  "isPermanent e = (case e of
     PermanentPublish _ \<Rightarrow> True
   | McmRefused _ _ (Some status) \<Rightarrow> 400 \<le> status \<and> status < 500 \<and> status \<noteq> 408 \<and> status \<noteq> 429
   | _ \<Rightarrow> False)"

datatype delivery = Ack | Term | Nak nat

definition handle_announcement :: "'x deployment \<Rightarrow> string option \<Rightarrow> nat \<Rightarrow> 'x tenants \<Rightarrow> delivery \<times> 'x tenants" where
  "handle_announcement d message redeliveryCount w =
     (let fspId = nullish (map_option trim message) [] in
      if fspId = [] then (Term, w)
      else (case publishAndEnable d fspId w of
              (Inr _, w') \<Rightarrow> (Ack, w')
            | (Inl e, w') \<Rightarrow> (if isPermanent e then Term else Nak (backoffMs redeliveryCount), w')))"

section \<open>Pulling the keys of peers\<close>

record sync_result =
  sy_total :: nat
  sy_created :: nat
  sy_updated :: nat
  sy_unchanged :: nat
  sy_skippedSelf :: nat

definition sync_entry :: "jws_cert \<Rightarrow> sync_result \<Rightarrow> ('x, sync_result) tenant_task" where
  "sync_entry entry c = (case (jc_dfspId entry, jc_publicKey entry) of
     (Some fspId, Some publicKey) \<Rightarrow>
       if trim fspId = [] then io_return c
       else io_bind (io_gets (find_replica fspId)) (\<lambda>existing. case existing of
         None \<Rightarrow> io_bind (save_key ((new_key fspId)\<lparr>pk_publicKey := Some publicKey\<rparr>)) (\<lambda>_.
           io_return (c\<lparr>sy_created := Suc (sy_created c)\<rparr>))
       | Some r \<Rightarrow>
           if pk_role r = Self then io_return (c\<lparr>sy_skippedSelf := Suc (sy_skippedSelf c)\<rparr>)
           else if pk_publicKey r = Some publicKey then io_return (c\<lparr>sy_unchanged := Suc (sy_unchanged c)\<rparr>)
           else io_bind (save_key (r\<lparr>pk_publicKey := Some publicKey\<rparr>)) (\<lambda>_.
             io_return (c\<lparr>sy_updated := Suc (sy_updated c)\<rparr>)))
   | _ \<Rightarrow> io_return c)"

fun sync_entries :: "jws_cert list \<Rightarrow> sync_result \<Rightarrow> ('x, sync_result) tenant_task" where
  "sync_entries [] c = io_return c"
| "sync_entries (e # es) c = io_bind (sync_entry e c) (\<lambda>c'. sync_entries es c')"

definition peer_sync :: "'x deployment \<Rightarrow> ('x, sync_result) tenant_task" where
  "peer_sync d = io_bind (outside (mc_listAllJwsKeys (dp_mcm d))) (\<lambda>entries.
     sync_entries entries \<lparr>sy_total = length entries, sy_created = 0, sy_updated = 0, sy_unchanged = 0, sy_skippedSelf = 0\<rparr>)"

section \<open>The key table as a map\<close>

interpretation keys_by_fsp: keyed_table tn_keys pk_fspId update_keys
  by unfold_locales (simp add: update_keys_def)

interpretation keys_by_id: keyed_table tn_keys pk_id update_keys
  by unfold_locales (simp add: update_keys_def)

text \<open>Identifiers and FSPs are unique, and no identifier is handed out twice.\<close>

definition table_ok :: "'x tenants \<Rightarrow> bool" where
  "table_ok w \<longleftrightarrow> distinct (map pk_fspId (tn_keys w)) \<and> distinct (map pk_id (tn_keys w)) \<and>
     (\<forall>r\<in>set (tn_keys w). \<exists>i<tn_nextKey w. pk_id r = Some i)"

lemma find_key_iff: "table_ok w \<Longrightarrow> find_key f w = Some r \<longleftrightarrow> r \<in> set (tn_keys w) \<and> pk_fspId r = f"
  unfolding find_key_def table_ok_def by (intro keys_by_fsp.lookup_iff) blast

lemma find_key_fspId: "find_key f w = Some r \<Longrightarrow> pk_fspId r = f"
  unfolding find_key_def by (auto dest: find_SomeD)

lemma find_key_None: "find_key f w = None \<longleftrightarrow> f \<notin> pk_fspId ` set (tn_keys w)"
  by (auto simp: find_key_def find_None_iff)

lemma save_existing:
  assumes ok: "table_ok w" and r0: "find_key f w = Some r0" and r: "pk_id r = pk_id r0" "pk_fspId r = f"
  obtains w' where "save_key r w = (Inr r, w')" "table_ok w'" "\<And>g. find_key g w' = (if g = f then Some r else find_key g w)"
    "tn_outside w' = tn_outside w" "tn_clock w' = tn_clock w" "tn_known w' = tn_known w" "tn_replica w' = tn_replica w"
    "tn_participants w' = tn_participants w" "tn_keys w' = map (\<lambda>x. if x = r0 then r else x) (tn_keys w)"
proof -
  have r0': "r0 \<in> set (tn_keys w)" "pk_fspId r0 = f" using r0 by (simp_all add: find_key_iff[OF ok])
  obtain i where i: "pk_id r0 = Some i" "i < tn_nextKey w" using ok r0'(1) by (auto simp: table_ok_def)
  have same: "pk_id x = Some i \<longleftrightarrow> x = r0" if "x \<in> set (tn_keys w)" for x
    using keys_by_id.key_eq_iff[of w x r0] ok that r0'(1) i(1) by (simp add: table_ok_def)
  define w' where "w' = update_keys (\<lambda>x. pk_id x = Some i) (\<lambda>_. r) w"
  have keys: "tn_keys w' = map (\<lambda>x. if x = r0 then r else x) (tn_keys w)"
    using same by (auto simp: w'_def update_keys_def)
  have images: "map pk_fspId (tn_keys w') = map pk_fspId (tn_keys w)" "map pk_id (tn_keys w') = map pk_id (tn_keys w)"
    using r r0'(2) by (auto simp: keys)
  have ok': "table_ok w'"
  proof -
    have "tn_nextKey w' = tn_nextKey w" by (simp add: w'_def update_keys_def)
    moreover have "\<exists>i<tn_nextKey w. pk_id x = Some i" if "x \<in> set (tn_keys w')" for x
      using that ok i r(1) by (auto simp: keys table_ok_def split: if_splits)
    ultimately show ?thesis unfolding table_ok_def images using ok by (simp add: table_ok_def)
  qed
  have look: "find_key g w' = (if g = f then Some r else find_key g w)" for g
  proof (cases "g = f")
    case True
    have "r \<in> set (tn_keys w')" using r0'(1) by (auto simp: keys)
    then show ?thesis using True r(2) find_key_iff[OF ok', of g r] by simp
  next
    case False
    have "find_key g w' = Some x \<longleftrightarrow> find_key g w = Some x" for x
      using False r(2) r0'(2) by (auto simp: find_key_iff[OF ok] find_key_iff[OF ok'] keys)
    then show ?thesis using False by (metis not_None_eq)
  qed
  show ?thesis
  proof (rule that)
    show "save_key r w = (Inr r, w')" by (simp add: save_key_def r(1) i(1) w'_def)
  qed (use ok' look keys in \<open>simp_all add: w'_def update_keys_def\<close>)
qed

lemma save_new:
  assumes ok: "table_ok w" and none: "find_key f w = None" and r: "pk_id r = None" "pk_fspId r = f"
  obtains w' where "save_key r w = (Inr (r\<lparr>pk_id := Some (tn_nextKey w)\<rparr>), w')" "table_ok w'"
    "\<And>g. find_key g w' = (if g = f then Some (r\<lparr>pk_id := Some (tn_nextKey w)\<rparr>) else find_key g w)"
    "tn_outside w' = tn_outside w" "tn_clock w' = tn_clock w" "tn_known w' = tn_known w" "tn_replica w' = tn_replica w"
    "tn_participants w' = tn_participants w"
proof -
  define saved where "saved = r\<lparr>pk_id := Some (tn_nextKey w)\<rparr>"
  define w' where "w' = w\<lparr>tn_keys := tn_keys w @ [saved], tn_nextKey := Suc (tn_nextKey w)\<rparr>"
  have new: "f \<notin> pk_fspId ` set (tn_keys w)" using none by (simp add: find_key_None)
  have ok': "table_ok w'"
    using ok new r(2) by (auto simp: table_ok_def w'_def saved_def less_Suc_eq)
  have look: "find_key g w' = (if g = f then Some saved else find_key g w)" for g
    using none r(2) by (simp add: find_key_def w'_def find_append saved_def split: option.split)
  show ?thesis
  proof (rule that)
    show "save_key r w = (Inr (r\<lparr>pk_id := Some (tn_nextKey w)\<rparr>), w')"
      using none r by (simp add: save_key_def w'_def saved_def Let_def)
  qed (use ok' look in \<open>simp_all add: w'_def saved_def\<close>)
qed

text \<open>Steps outside leave the tables alone.\<close>

definition same_tables :: "'x tenants \<Rightarrow> 'x tenants \<Rightarrow> bool" where
  "same_tables w w' \<longleftrightarrow> tn_keys w' = tn_keys w \<and> tn_nextKey w' = tn_nextKey w \<and> tn_replica w' = tn_replica w \<and> tn_clock w' = tn_clock w"

lemma same_tables_simps:
  assumes "same_tables w w'"
  shows "find_key f w' = find_key f w" "table_ok w' = table_ok w" "tn_keys w' = tn_keys w" "tn_clock w' = tn_clock w" "tn_replica w' = tn_replica w"
    "find_replica f w' = find_replica f w"
  using assms by (simp_all add: same_tables_def find_key_def find_replica_def table_ok_def)

lemma same_tables_refl [simp]: "same_tables w w"
  by (simp add: same_tables_def)

lemma same_tables_trans: "same_tables a b \<Longrightarrow> same_tables b c \<Longrightarrow> same_tables a c"
  by (simp add: same_tables_def)

lemma outside_tables: "outside m w = (r, w') \<Longrightarrow> same_tables w w'"
  by (auto simp: outside_def io_on_def same_tables_def split: prod.splits)

lemma io_bind_tables:
  assumes "io_bind m f w = (r, w')" "\<And>a w1. m w = (a, w1) \<Longrightarrow> same_tables w w1" "\<And>a w1. f a w1 = (r, w') \<Longrightarrow> same_tables w1 w'"
  shows "same_tables w w'"
  using assms(1) by (rule io_bind_cases) (use assms(2,3) same_tables_trans in blast)+

lemma dfsp_exists_tables: "dfsp_exists m f w = (r, w') \<Longrightarrow> same_tables w w'"
  by (auto simp: dfsp_exists_def remember_def Let_def same_tables_def split: prod.splits sum.splits dest!: outside_tables)

lemma ensureRegistered_tables:
  assumes "ensureRegistered m s f w = (r, w')"
  shows "same_tables w w'"
proof -
  have create: "same_tables w1 w2" if "io_catch (io_bind (outside (mc_createDfsp m (registrar_request s f))) (\<lambda>_. io_return Created))
      (\<lambda>e. io_bind (dfsp_exists m f) (\<lambda>now_there. if now_there then io_return Present else io_throw e)) w1 = (x, w2)" for x w1 w2
    using that
  proof (rule io_catch_cases)
    fix e w3
    assume a: "io_bind (outside (mc_createDfsp m (registrar_request s f))) (\<lambda>_. io_return Created) w1 = (Inl e, w3)"
      "io_bind (dfsp_exists m f) (\<lambda>now_there. if now_there then io_return Present else io_throw e) w3 = (x, w2)"
    have "same_tables w1 w3" using a(1) by (rule io_bind_tables) (auto dest: outside_tables)
    moreover have "same_tables w3 w2" using a(2) by (rule io_bind_tables) (auto dest: dfsp_exists_tables split: if_splits)
    ultimately show ?thesis by (rule same_tables_trans)
  next
    fix a
    assume "io_bind (outside (mc_createDfsp m (registrar_request s f))) (\<lambda>_. io_return Created) w1 = (Inr a, w2)"
    then show ?thesis by (rule io_bind_tables) (auto dest: outside_tables)
  qed
  show ?thesis
  proof (cases "rg_enabled s \<and> f \<notin> set (tn_known w)")
    case True
    show ?thesis
    proof (rule io_bind_tables)
      show "io_bind (dfsp_exists m f) (\<lambda>found. if found then io_return Present
        else io_bind (io_catch (io_bind (outside (mc_createDfsp m (registrar_request s f))) (\<lambda>_. io_return Created))
               (\<lambda>e. io_bind (dfsp_exists m f) (\<lambda>now_there. if now_there then io_return Present else io_throw e)))
             (\<lambda>outcome w. (Inr outcome, if outcome = Created then remember [f] w else w))) w = (r, w')"
        using assms True by (simp add: ensureRegistered_def)
      fix found w1
      assume b: "(if found then io_return Present
        else io_bind (io_catch (io_bind (outside (mc_createDfsp m (registrar_request s f))) (\<lambda>_. io_return Created))
               (\<lambda>e. io_bind (dfsp_exists m f) (\<lambda>now_there. if now_there then io_return Present else io_throw e)))
             (\<lambda>outcome w. (Inr outcome, if outcome = Created then remember [f] w else w))) w1 = (r, w')"
      show "same_tables w1 w'"
      proof (cases found)
        case False
        show ?thesis
          by (rule io_bind_tables[OF b[unfolded if_not_P[OF False]] create])
            (auto simp: remember_def same_tables_def split: if_splits)
      qed (use b in simp)
    qed (rule dfsp_exists_tables)
  next
    case False
    then show ?thesis using assms by (auto simp: ensureRegistered_def split: if_splits)
  qed
qed

lemma bring_to_mcm_tables:
  assumes "bring_to_mcm d f k w = (r, w')"
  shows "same_tables w w'"
  using assms unfolding bring_to_mcm_def
proof (rule io_bind_tables)
  fix a w1
  assume "(case dp_registrar d of None \<Rightarrow> io_return Disabled | Some s \<Rightarrow> ensureRegistered (dp_mcm d) s f) w = (a, w1)"
  then show "same_tables w w1" by (auto split: option.splits dest: ensureRegistered_tables)
next
  fix w1
  assume "io_bind (io_catch (outside (mc_getJwsKey (dp_mcm d) f)) (\<lambda>_. io_return None)) (\<lambda>stored.
     let storedKey = Option.bind stored jc_publicKey in
     if has_text storedKey then io_return (if samePem (the storedKey) k then AlreadyCorrect else Diverged)
     else io_bind (outside (publishAndVerifyJwsKey (dp_mcm d) f k)) (\<lambda>_. io_return Published)) w1 = (r, w')"
  then show "same_tables w1 w'"
  proof (rule io_bind_tables)
    fix a w2
    assume "io_catch (outside (mc_getJwsKey (dp_mcm d) f)) (\<lambda>_. io_return None) w1 = (a, w2)"
    then show "same_tables w1 w2" by (rule io_catch_cases) (auto dest: outside_tables)
  next
    fix a w2
    assume "(let storedKey = Option.bind a jc_publicKey in
       if has_text storedKey then io_return (if samePem (the storedKey) k then AlreadyCorrect else Diverged)
       else io_bind (outside (publishAndVerifyJwsKey (dp_mcm d) f k)) (\<lambda>_. io_return Published)) w2 = (r, w')"
    then show "same_tables w2 w'"
      by (auto simp: Let_def split: if_splits elim!: io_bind_tables dest: outside_tables)
  qed
qed

section \<open>What MCM holds\<close>

lemma has_text_None [simp]: "\<not> has_text None"
  by (simp add: has_text_def)

text \<open>
  \<open>view x f\<close> is the key MCM holds for \<open>f\<close>.  Reading tells it or fails; publishing for one DFSP, listing and creating
  DFSPs leave the keys of others alone.  That a published key is kept is not assumed: the code reads it back.
\<close>

definition mcm_store :: "'x mcm \<Rightarrow> ('x \<Rightarrow> string \<Rightarrow> string option) \<Rightarrow> bool" where
  "mcm_store m view \<longleftrightarrow>
     (\<forall>x r x'. mc_listDfsps m x = (r, x') \<longrightarrow> view x' = view x) \<and>
     (\<forall>q x r x'. mc_createDfsp m q x = (r, x') \<longrightarrow> view x' = view x) \<and>
     (\<forall>f x r x'. mc_getJwsKey m f x = (r, x') \<longrightarrow> view x' = view x \<and> (\<forall>c. r = Inr c \<longrightarrow> Option.bind c jc_publicKey = view x f)) \<and>
     (\<forall>f k x r x' g. mc_publishJwsKey m f k x = (r, x') \<longrightarrow> g \<noteq> f \<longrightarrow> view x' g = view x g)"

text \<open>A read fails only where MCM holds nothing, as a 404 does.\<close>

definition honest_reads :: "'x mcm \<Rightarrow> ('x \<Rightarrow> string \<Rightarrow> string option) \<Rightarrow> bool" where
  "honest_reads m view \<longleftrightarrow> (\<forall>f x e x'. mc_getJwsKey m f x = (Inl e, x') \<longrightarrow> \<not> has_text (view x f))"

lemma getJwsKey_view:
  assumes store: "mcm_store (dp_mcm d) view"
  shows "outside (mc_getJwsKey (dp_mcm d) f) w = (r, w') \<Longrightarrow> view (tn_outside w') = view (tn_outside w)"
  "outside (mc_getJwsKey (dp_mcm d) f) w = (Inr c, w') \<Longrightarrow> Option.bind c jc_publicKey = view (tn_outside w) f"
  using store by (auto simp: outside_def io_on_def mcm_store_def split: prod.splits)

lemma createDfsp_view:
  assumes store: "mcm_store (dp_mcm d) view"
  shows "outside (mc_createDfsp (dp_mcm d) q) w = (r, w') \<Longrightarrow> view (tn_outside w') = view (tn_outside w)"
  using store by (auto simp: outside_def io_on_def mcm_store_def split: prod.splits)

lemma dfsp_exists_view:
  assumes store: "mcm_store (dp_mcm d) view"
  shows "dfsp_exists (dp_mcm d) f w = (r, w') \<Longrightarrow> view (tn_outside w') = view (tn_outside w)"
  using store by (auto simp: dfsp_exists_def outside_def io_on_def mcm_store_def remember_def Let_def split: prod.splits sum.splits)

lemma ensureRegistered_view:
  assumes store: "mcm_store (dp_mcm d) view" and run: "ensureRegistered (dp_mcm d) s f w = (r, w')"
  shows "view (tn_outside w') = view (tn_outside w)"
  using run
  by (auto simp: ensureRegistered_def io_bind_def io_catch_def remember_def split: if_splits prod.splits sum.splits
      dest!: dfsp_exists_view[OF store] createDfsp_view[OF store])

lemma publishAndVerify_view:
  assumes store: "mcm_store (dp_mcm d) view" and "outside (publishAndVerifyJwsKey (dp_mcm d) f k) w = (r, w')"
  shows "g \<noteq> f \<Longrightarrow> view (tn_outside w') g = view (tn_outside w) g" "r = Inr () \<Longrightarrow> view (tn_outside w') f = Some k"
proof -
  obtain x' where run: "publishAndVerifyJwsKey (dp_mcm d) f k (tn_outside w) = (r, x')" "tn_outside w' = x'"
    using assms(2) by (auto simp: outside_def io_on_def split: prod.splits)
  from run(1) show "g \<noteq> f \<Longrightarrow> view (tn_outside w') g = view (tn_outside w) g" unfolding publishAndVerifyJwsKey_def
  proof (rule io_bind_cases)
    fix e
    assume "g \<noteq> f" "mc_publishJwsKey (dp_mcm d) f k (tn_outside w) = (Inl e, x')"
    then show ?thesis using store run(2) unfolding mcm_store_def by metis
  next
    fix a x1
    assume a: "g \<noteq> f" "mc_publishJwsKey (dp_mcm d) f k (tn_outside w) = (Inr a, x1)"
      "io_bind (mc_getJwsKey (dp_mcm d) f) (\<lambda>stored. case stored of
         None \<Rightarrow> io_throw (Thrown ''TypeError'')
       | Some c \<Rightarrow>
           if jc_publicKey c \<noteq> Some k
           then io_throw (McmRefused ''MCM_JWS_KEY_MISMATCH'' (''Key stored for '' @ quoted f
                @ '' differs from the key published. MCM accepted the write but did not persist it verbatim.'') None)
           else io_return ()) x1 = (r, x')"
    have "view x1 g = view (tn_outside w) g" using store a(1,2) unfolding mcm_store_def by metis
    moreover have "view x' = view x1" using a(3)
    proof (rule io_bind_cases)
      fix e
      assume "mc_getJwsKey (dp_mcm d) f x1 = (Inl e, x')"
      then show ?thesis using store unfolding mcm_store_def by metis
    next
      fix c x2
      assume "mc_getJwsKey (dp_mcm d) f x1 = (Inr c, x2)" and rest: "(case c of
         None \<Rightarrow> io_throw (Thrown ''TypeError'')
       | Some c \<Rightarrow>
           if jc_publicKey c \<noteq> Some k
           then io_throw (McmRefused ''MCM_JWS_KEY_MISMATCH'' (''Key stored for '' @ quoted f
                @ '' differs from the key published. MCM accepted the write but did not persist it verbatim.'') None)
           else io_return ()) x2 = (r, x')"
      then have "view x2 = view x1" using store unfolding mcm_store_def by metis
      moreover have "x' = x2" using rest by (auto split: option.splits if_splits)
      ultimately show ?thesis by simp
    qed
    ultimately show ?thesis using run(2) by simp
  qed
  assume "r = Inr ()"
  then obtain x1 x2 c where r: "mc_getJwsKey (dp_mcm d) f x1 = (Inr (Some c), x2)" "jc_publicKey c = Some k" "x' = x2"
    using run(1) by (auto simp: publishAndVerifyJwsKey_def io_bind_Inr_iff split: option.splits if_splits)
  have "view x2 = view x1 \<and> Option.bind (Some c) jc_publicKey = view x1 f" using store r(1) unfolding mcm_store_def by blast
  then show "view (tn_outside w') f = Some k" using r run(2) by simp
qed

lemma bring_to_mcm_view:
  assumes store: "mcm_store (dp_mcm d) view" and "bring_to_mcm d f k w = (r, w')"
  shows "g \<noteq> f \<Longrightarrow> view (tn_outside w') g = view (tn_outside w) g"
    "r = Inr s \<Longrightarrow> s \<noteq> Diverged \<Longrightarrow> \<exists>p. view (tn_outside w') f = Some p \<and> samePem p k"
    "honest_reads (dp_mcm d) view \<Longrightarrow> has_text (view (tn_outside w) f) \<Longrightarrow> view (tn_outside w') f = view (tn_outside w) f"
proof -
  obtain a w1 where reg: "(case dp_registrar d of None \<Rightarrow> io_return Disabled | Some s \<Rightarrow> ensureRegistered (dp_mcm d) s f) w = (a, w1)"
    by fastforce
  have v1: "view (tn_outside w1) = view (tn_outside w)" using reg by (auto split: option.splits dest: ensureRegistered_view[OF store])
  show "g \<noteq> f \<Longrightarrow> view (tn_outside w') g = view (tn_outside w) g"
    "r = Inr s \<Longrightarrow> s \<noteq> Diverged \<Longrightarrow> \<exists>p. view (tn_outside w') f = Some p \<and> samePem p k"
    "honest_reads (dp_mcm d) view \<Longrightarrow> has_text (view (tn_outside w) f) \<Longrightarrow> view (tn_outside w') f = view (tn_outside w) f"
  proof (atomize (full), cases a)
    case (Inl e)
    then have "r = Inl e" "w' = w1" using assms(2) reg by (simp_all add: bring_to_mcm_def io_bind_Inl)
    then show "(g \<noteq> f \<longrightarrow> view (tn_outside w') g = view (tn_outside w) g) \<and>
      (r = Inr s \<longrightarrow> s \<noteq> Diverged \<longrightarrow> (\<exists>p. view (tn_outside w') f = Some p \<and> samePem p k)) \<and>
      (honest_reads (dp_mcm d) view \<longrightarrow> has_text (view (tn_outside w) f) \<longrightarrow> view (tn_outside w') f = view (tn_outside w) f)"
      using v1 by simp
  next
    case (Inr out)
    obtain b w2 where read: "outside (mc_getJwsKey (dp_mcm d) f) w1 = (b, w2)" by fastforce
    have v2: "view (tn_outside w2) = view (tn_outside w)" using getJwsKey_view(1)[OF store read] v1 by simp
    define held where "held = (case b of Inl e \<Rightarrow> None | Inr c \<Rightarrow> Option.bind c jc_publicKey)"
    have held: "held = view (tn_outside w) f" if "b = Inr c" for c
      using getJwsKey_view(2)[OF store read[unfolded that]] v1 that by (simp add: held_def)
    have run: "(if has_text held then io_return (if samePem (the held) k then AlreadyCorrect else Diverged)
        else io_bind (outside (publishAndVerifyJwsKey (dp_mcm d) f k)) (\<lambda>_. io_return Published)) w2 = (r, w')"
    proof (cases b)
      case (Inl e)
      then show ?thesis using assms(2) reg \<open>a = Inr out\<close> by (auto simp: bring_to_mcm_def io_bind_Inr io_catch_def read held_def Let_def split: if_splits)
    next
      case (Inr c)
      then show ?thesis using assms(2) reg \<open>a = Inr out\<close> by (auto simp: bring_to_mcm_def io_bind_Inr io_catch_def read held_def Let_def split: if_splits)
    qed
    show "(g \<noteq> f \<longrightarrow> view (tn_outside w') g = view (tn_outside w) g) \<and>
      (r = Inr s \<longrightarrow> s \<noteq> Diverged \<longrightarrow> (\<exists>p. view (tn_outside w') f = Some p \<and> samePem p k)) \<and>
      (honest_reads (dp_mcm d) view \<longrightarrow> has_text (view (tn_outside w) f) \<longrightarrow> view (tn_outside w') f = view (tn_outside w) f)"
    proof (cases "has_text held")
      case True
      then obtain c where c: "b = Inr c" by (cases b) (auto simp: held_def has_text_def)
      show ?thesis using True run v2 held[OF c] by (auto simp: has_text_def split: if_splits option.splits)
    next
      case False
      obtain q where pub: "outside (publishAndVerifyJwsKey (dp_mcm d) f k) w2 = (q, w')" "r = map_sum id (\<lambda>_. Published) q"
        using run False by (auto simp: io_bind_def split: prod.splits sum.splits)
      have "q = Inr () \<Longrightarrow> view (tn_outside w') f = Some k" by (rule publishAndVerify_view(2)[OF store pub(1)])
      moreover have "\<not> has_text (view (tn_outside w) f)" if h: "honest_reads (dp_mcm d) view"
      proof (cases b)
        case (Inl e)
        then obtain x where "mc_getJwsKey (dp_mcm d) f (tn_outside w1) = (Inl e, x)"
          using read by (auto simp: outside_def io_on_def split: prod.splits)
        then have "\<not> has_text (view (tn_outside w1) f)" using h unfolding honest_reads_def by blast
        then show ?thesis by (simp add: v1)
      next
        case (Inr c)
        then show ?thesis using False held by simp
      qed
      ultimately show ?thesis using pub(2) publishAndVerify_view(1)[OF store pub(1)] v2
        by (cases q) (auto simp: samePem_def)
    qed
  qed
qed

section \<open>Signing is switched on only for keys that MCM holds\<close>

text \<open>What publishing may do to the row of \<open>f\<close>: nothing, or the first activation of a tenant whose key MCM then holds.\<close>

definition published_at :: "'x mcm \<Rightarrow> ('x \<Rightarrow> string \<Rightarrow> string option) \<Rightarrow> 'x tenants \<Rightarrow> 'x tenants \<Rightarrow> string \<Rightarrow> bool" where
  "published_at m view w w' f \<longleftrightarrow> find_key f w' = find_key f w \<or>
     (\<exists>r k. find_key f w = Some r \<and> pk_role r = Self \<and> pk_publicKey r = Some k \<and> pk_activatedAt r = None \<and>
        find_key f w' = Some (r\<lparr>pk_activatedAt := Some (tn_clock w), pk_signEnabled := True\<rparr>) \<and>
        (mcm_store m view \<longrightarrow> (\<exists>p. view (tn_outside w') f = Some p \<and> samePem p k)))"

definition keeps_held :: "'x mcm \<Rightarrow> ('x \<Rightarrow> string \<Rightarrow> string option) \<Rightarrow> 'x tenants \<Rightarrow> 'x tenants \<Rightarrow> string \<Rightarrow> bool" where
  "keeps_held m view w w' f \<longleftrightarrow>
     (mcm_store m view \<longrightarrow> honest_reads m view \<longrightarrow> has_text (view (tn_outside w) f) \<longrightarrow> view (tn_outside w') f = view (tn_outside w) f)"

lemma publishable_iff: "publishable (Some r) = Some (k, p) \<longleftrightarrow> k = r \<and> pk_role r = Self \<and> pk_publicKey r = Some p"
  by (auto simp: publishable_def)

lemma activate_effect:
  assumes ok: "table_ok w" and r: "find_key f w = Some r"
  obtains b w' where "activate r w = (Inr b, w')" "table_ok w'" "tn_clock w' = tn_clock w" "tn_outside w' = tn_outside w"
    "\<And>g. find_key g w' = (if g = f \<and> pk_activatedAt r = None
        then Some (r\<lparr>pk_activatedAt := Some (tn_clock w), pk_signEnabled := True\<rparr>) else find_key g w)"
proof (cases "pk_activatedAt r")
  case (Some t)
  then show ?thesis using that[of False w] ok by (simp add: activate_def)
next
  case None
  have "pk_id (r\<lparr>pk_activatedAt := Some (tn_clock w), pk_signEnabled := True\<rparr>) = pk_id r"
    "pk_fspId (r\<lparr>pk_activatedAt := Some (tn_clock w), pk_signEnabled := True\<rparr>) = f"
    using find_key_fspId[OF r] by simp_all
  then obtain w' where "save_key (r\<lparr>pk_activatedAt := Some (tn_clock w), pk_signEnabled := True\<rparr>) w = (Inr (r\<lparr>pk_activatedAt := Some (tn_clock w), pk_signEnabled := True\<rparr>), w')"
    "table_ok w'" "\<And>g. find_key g w' = (if g = f then Some (r\<lparr>pk_activatedAt := Some (tn_clock w), pk_signEnabled := True\<rparr>) else find_key g w)"
    "tn_outside w' = tn_outside w" "tn_clock w' = tn_clock w"
    by (rule save_existing[OF ok r]) blast
  then show ?thesis using that[of "\<not> pk_signEnabled r" w'] None by (simp add: activate_def io_bind_Inr)
qed

text \<open>One tenant: the row at hand is the one in the table.\<close>

lemma reconcile_tenant_effect:
  assumes ok: "table_ok w"
    and t: "find_key f w = Some r" "pk_role r = Self" "pk_publicKey r = Some k"
    and run: "reconcile_tenant d (r, k) c w = (c', w')"
  shows "table_ok w'" "tn_clock w' = tn_clock w" "published_at (dp_mcm d) view w w' f" "keeps_held (dp_mcm d) view w w' f"
    "g \<noteq> f \<Longrightarrow> find_key g w' = find_key g w \<and> (mcm_store (dp_mcm d) view \<longrightarrow> view (tn_outside w') g = view (tn_outside w) g)"
proof -
  have f: "pk_fspId r = f" by (rule find_key_fspId[OF t(1)])
  obtain a w1 where b: "bring_to_mcm d f k w = (a, w1)" by fastforce
  note tables = same_tables_simps[OF bring_to_mcm_tables[OF b]]
  note v = bring_to_mcm_view[OF _ b]
  have "table_ok w' \<and> tn_clock w' = tn_clock w \<and> published_at (dp_mcm d) view w w' f \<and> keeps_held (dp_mcm d) view w w' f \<and>
    (g \<noteq> f \<longrightarrow> find_key g w' = find_key g w \<and> (mcm_store (dp_mcm d) view \<longrightarrow> view (tn_outside w') g = view (tn_outside w) g))" for g
  proof (cases "\<exists>s. a = Inr s \<and> s \<noteq> Diverged")
    case True
    then obtain s where s: "a = Inr s" "s \<noteq> Diverged" by blast
    have ok1: "table_ok w1" and r1: "find_key f w1 = Some r" using ok t(1) tables by simp_all
    obtain on w2 where act: "activate r w1 = (Inr on, w2)" "table_ok w2" "tn_clock w2 = tn_clock w1" "tn_outside w2 = tn_outside w1"
      "\<And>g. find_key g w2 = (if g = f \<and> pk_activatedAt r = None
        then Some (r\<lparr>pk_activatedAt := Some (tn_clock w1), pk_signEnabled := True\<rparr>) else find_key g w1)"
      by (rule activate_effect[OF ok1 r1]) blast
    have w': "w' = w2" using run s by (auto simp: reconcile_tenant_def f b act(1) Let_def)
    have p: "mcm_store (dp_mcm d) view \<longrightarrow> (\<exists>p. view (tn_outside w1) f = Some p \<and> samePem p k)" using v(2)[OF _ s] by blast
    have "published_at (dp_mcm d) view w w' f"
      using t p by (cases "pk_activatedAt r = None") (auto simp: published_at_def w' act(4,5) tables)
    then show ?thesis using act(2-5) v(1,3) tables by (auto simp: w' keeps_held_def)
  next
    case False
    then have "w' = w1" using run by (auto simp: reconcile_tenant_def f b Let_def split: sum.splits)
    then show ?thesis using ok tables v(1,3) by (auto simp: published_at_def keeps_held_def)
  qed
  then show "table_ok w'" "tn_clock w' = tn_clock w" "published_at (dp_mcm d) view w w' f" "keeps_held (dp_mcm d) view w w' f"
    "g \<noteq> f \<Longrightarrow> find_key g w' = find_key g w \<and> (mcm_store (dp_mcm d) view \<longrightarrow> view (tn_outside w') g = view (tn_outside w) g)" by blast+
qed

lemma publishAndEnable_effect:
  assumes ok: "table_ok w" and run: "publishAndEnable d f w = (x, w')"
  shows "table_ok w' \<and> tn_clock w' = tn_clock w \<and> published_at (dp_mcm d) view w w' g \<and> keeps_held (dp_mcm d) view w w' g"
proof (cases "publishable (find_key f w)")
  case None
  then have "w' = w" using run by (simp add: publishAndEnable_def)
  then show ?thesis using ok by (simp add: published_at_def keeps_held_def)
next
  case (Some kp)
  obtain r k where kp: "kp = (r, k)" by fastforce
  have r: "find_key f w = Some r" "pk_role r = Self" "pk_publicKey r = Some k"
    using Some kp by (auto simp: publishable_def split: option.splits if_splits)
  obtain c' w2 where rec: "reconcile_tenant d (r, k) undefined w = (c', w2)" by fastforce
  obtain a w1 where b: "bring_to_mcm d f k w = (a, w1)" by fastforce
  have "w' = w2"
    using run rec find_key_fspId[OF r(1)]
    by (auto simp: publishAndEnable_def Some kp io_bind_def b reconcile_tenant_def Let_def split: sum.splits prod.splits if_splits)
  then show ?thesis using reconcile_tenant_effect(1-4)[OF ok r rec] reconcile_tenant_effect(5)[OF ok r rec, of g]
    by (cases "g = f") (auto simp: published_at_def keeps_held_def)
qed

lemma reconcile_all_effect:
  "table_ok w \<Longrightarrow> distinct (map (pk_fspId \<circ> fst) ts) \<Longrightarrow>
     (\<And>r k. (r, k) \<in> set ts \<Longrightarrow> find_key (pk_fspId r) w = Some r \<and> pk_role r = Self \<and> pk_publicKey r = Some k) \<Longrightarrow>
     reconcile_all d ts c w = (c', w') \<Longrightarrow>
     table_ok w' \<and> tn_clock w' = tn_clock w \<and>
     (\<forall>f. published_at (dp_mcm d) view w w' f \<and> keeps_held (dp_mcm d) view w w' f \<and>
        (f \<notin> (pk_fspId \<circ> fst) ` set ts \<longrightarrow> find_key f w' = find_key f w \<and> (mcm_store (dp_mcm d) view \<longrightarrow> view (tn_outside w') f = view (tn_outside w) f)))"
proof (induction ts arbitrary: c w)
  case Nil
  then show ?case by (simp add: published_at_def keeps_held_def)
next
  case (Cons t ts)
  obtain r k where t: "t = (r, k)" by fastforce
  let ?f = "pk_fspId r"
  have here: "find_key ?f w = Some r" "pk_role r = Self" "pk_publicKey r = Some k" using Cons.prems(3)[of r k] t by simp_all
  obtain c1 w1 where one: "reconcile_tenant d (r, k) c w = (c1, w1)" by fastforce
  note e = reconcile_tenant_effect[OF Cons.prems(1) here one]
  have rest: "reconcile_all d ts c1 w1 = (c', w')" using Cons.prems(4) one t by simp
  have other: "pk_fspId r' \<noteq> ?f" if "(r', k') \<in> set ts" for r' k' using Cons.prems(2) that by (force simp: t)
  have ih: "table_ok w' \<and> tn_clock w' = tn_clock w1 \<and>
     (\<forall>f. published_at (dp_mcm d) view w1 w' f \<and> keeps_held (dp_mcm d) view w1 w' f \<and>
        (f \<notin> (pk_fspId \<circ> fst) ` set ts \<longrightarrow> find_key f w' = find_key f w1 \<and> (mcm_store (dp_mcm d) view \<longrightarrow> view (tn_outside w') f = view (tn_outside w1) f)))"
  proof (rule Cons.IH[OF e(1) _ _ rest])
    show "distinct (map (pk_fspId \<circ> fst) ts)" using Cons.prems(2) unfolding list.map distinct.simps by blast
    fix r' k'
    assume m: "(r', k') \<in> set ts"
    show "find_key (pk_fspId r') w1 = Some r' \<and> pk_role r' = Self \<and> pk_publicKey r' = Some k'"
      using Cons.prems(3)[of r' k'] m e(5)[OF other[OF m]] by simp
  qed
  have "published_at (dp_mcm d) view w w' f \<and> keeps_held (dp_mcm d) view w w' f \<and>
    (f \<notin> (pk_fspId \<circ> fst) ` set (t # ts) \<longrightarrow> find_key f w' = find_key f w \<and> (mcm_store (dp_mcm d) view \<longrightarrow> view (tn_outside w') f = view (tn_outside w) f))" for f
  proof (cases "f = ?f")
    case True
    have "f \<notin> (pk_fspId \<circ> fst) ` set ts" using Cons.prems(2) True by (simp add: t)
    then have "find_key f w' = find_key f w1" "mcm_store (dp_mcm d) view \<longrightarrow> view (tn_outside w') f = view (tn_outside w1) f" using ih by blast+
    then show ?thesis using e(3,4) True t by (simp add: published_at_def keeps_held_def)
  next
    case False
    then have "find_key f w1 = find_key f w" "mcm_store (dp_mcm d) view \<longrightarrow> view (tn_outside w1) f = view (tn_outside w) f" using e(5) by blast+
    moreover have "published_at (dp_mcm d) view w1 w' f" "keeps_held (dp_mcm d) view w1 w' f"
      "f \<notin> (pk_fspId \<circ> fst) ` set ts \<longrightarrow> find_key f w' = find_key f w1 \<and> (mcm_store (dp_mcm d) view \<longrightarrow> view (tn_outside w') f = view (tn_outside w1) f)"
      using ih by blast+
    ultimately show ?thesis using e(2) False by (simp add: published_at_def keeps_held_def t)
  qed
  then show ?case using ih e(2) by simp
qed

lemma sweep_tenants_iff: "(r, k) \<in> set (sweep_tenants w) \<longleftrightarrow> r \<in> set (tn_keys w) \<and> pk_role r = Self \<and> pk_publicKey r = Some k"
  by (force simp: sweep_tenants_def map_filter_def publishable_iff publishable_def split: if_splits)

lemma sweep_tenants_distinct: "table_ok w \<Longrightarrow> distinct (map (pk_fspId \<circ> fst) (sweep_tenants w))"
proof -
  have "map (pk_fspId \<circ> fst) (List.map_filter (\<lambda>k. publishable (Some k)) rs) = map pk_fspId (filter (\<lambda>k. publishable (Some k) \<noteq> None) rs)" for rs
    by (induction rs) (auto simp: publishable_def split: option.splits)
  then show "table_ok w \<Longrightarrow> ?thesis" by (simp add: sweep_tenants_def table_ok_def distinct_map_filter)
qed

lemma reconcile_effect:
  assumes "table_ok w"
  shows "table_ok (snd (reconcile d w)) \<and> tn_clock (snd (reconcile d w)) = tn_clock w \<and>
    (\<forall>f. published_at (dp_mcm d) view w (snd (reconcile d w)) f \<and> keeps_held (dp_mcm d) view w (snd (reconcile d w)) f)"
proof -
  obtain c w' where run: "reconcile d w = (c, w')" by fastforce
  show ?thesis unfolding run
    using reconcile_all_effect[OF assms sweep_tenants_distinct[OF assms] _ run[unfolded reconcile_def], of view] assms
    by (auto simp: sweep_tenants_iff find_key_iff)
qed

lemma handle_announcement_effect:
  assumes "table_ok w"
  shows "table_ok (snd (handle_announcement d msg n w)) \<and> tn_clock (snd (handle_announcement d msg n w)) = tn_clock w \<and>
    (\<forall>f. published_at (dp_mcm d) view w (snd (handle_announcement d msg n w)) f \<and> keeps_held (dp_mcm d) view w (snd (handle_announcement d msg n w)) f)"
proof (cases "nullish (map_option trim msg) [] = []")
  case True
  then show ?thesis using assms by (simp add: handle_announcement_def published_at_def keeps_held_def)
next
  case False
  obtain x w' where run: "publishAndEnable d (nullish (map_option trim msg) []) w = (x, w')" by fastforce
  have "snd (handle_announcement d msg n w) = w'" using False run by (auto simp: handle_announcement_def Let_def split: sum.split)
  then show ?thesis using publishAndEnable_effect[OF assms run] by simp
qed

section \<open>The keys of peers\<close>

text \<open>The replica shows every row as it is, but for the public key of a peer.\<close>

definition replica_current :: "'x tenants \<Rightarrow> bool" where
  "replica_current w \<longleftrightarrow> (\<forall>f r. find_replica f w = Some r \<longrightarrow>
     (\<exists>k. find_key f w = Some (r\<lparr>pk_publicKey := k\<rparr>) \<and> (pk_role r = Self \<longrightarrow> k = pk_publicKey r)))"

text \<open>No row but that of a peer changes, and of that only the public key.\<close>

definition peer_change :: "'x tenants \<Rightarrow> 'x tenants \<Rightarrow> bool" where
  "peer_change w w' \<longleftrightarrow> (\<forall>f r. find_key f w = Some r \<longrightarrow>
     (\<exists>k. find_key f w' = Some (r\<lparr>pk_publicKey := k\<rparr>) \<and> (pk_role r = Self \<longrightarrow> k = pk_publicKey r)))"

lemma same_public [simp]: "(r::participant_key)\<lparr>pk_publicKey := pk_publicKey r\<rparr> = r"
  by simp

lemma peer_change_refl [simp]: "peer_change w w"
  unfolding peer_change_def by (metis same_public)

lemma peer_change_trans:
  assumes "peer_change a b" "peer_change b c"
  shows "peer_change a c"
  unfolding peer_change_def
proof (intro allI impI)
  fix f r
  assume "find_key f a = Some r"
  then obtain k where k: "find_key f b = Some (r\<lparr>pk_publicKey := k\<rparr>)" "pk_role r = Self \<longrightarrow> k = pk_publicKey r"
    using assms(1) unfolding peer_change_def by blast
  then obtain k' where k': "find_key f c = Some (r\<lparr>pk_publicKey := k\<rparr>\<lparr>pk_publicKey := k'\<rparr>)" "pk_role r = Self \<longrightarrow> k' = k"
    using assms(2) unfolding peer_change_def by fastforce
  show "\<exists>k. find_key f c = Some (r\<lparr>pk_publicKey := k\<rparr>) \<and> (pk_role r = Self \<longrightarrow> k = pk_publicKey r)"
    using k(2) k' by (intro exI[of _ k']) simp
qed

lemma find_replica_fspId: "find_replica f w = Some r \<Longrightarrow> pk_fspId r = f"
  unfolding find_replica_def by (auto dest: find_SomeD)

lemma replica_currentI:
  assumes "replica_current w" "peer_change w w'" "tn_replica w' = tn_replica w"
  shows "replica_current w'"
  unfolding replica_current_def
proof (intro allI impI)
  fix f r
  assume "find_replica f w' = Some r"
  then have "find_replica f w = Some r" using assms(3) by (simp add: find_replica_def)
  then obtain k where k: "find_key f w = Some (r\<lparr>pk_publicKey := k\<rparr>)" "pk_role r = Self \<longrightarrow> k = pk_publicKey r"
    using assms(1) unfolding replica_current_def by blast
  then obtain k' where k': "find_key f w' = Some (r\<lparr>pk_publicKey := k\<rparr>\<lparr>pk_publicKey := k'\<rparr>)" "pk_role r = Self \<longrightarrow> k' = k"
    using assms(2) unfolding peer_change_def by fastforce
  show "\<exists>k. find_key f w' = Some (r\<lparr>pk_publicKey := k\<rparr>) \<and> (pk_role r = Self \<longrightarrow> k = pk_publicKey r)"
    using k(2) k' by (intro exI[of _ k']) simp
qed

definition new_peer :: "string \<Rightarrow> string \<Rightarrow> nat \<Rightarrow> participant_key" where
  "new_peer f k i = (new_key f)\<lparr>pk_publicKey := Some k, pk_id := Some i\<rparr>"

lemma save_new_peer:
  assumes "table_ok w" "find_key f w = None"
  obtains w' where "save_key ((new_key f)\<lparr>pk_publicKey := Some k\<rparr>) w = (Inr (new_peer f k (tn_nextKey w)), w')" "table_ok w'"
    "\<And>g. find_key g w' = (if g = f then Some (new_peer f k (tn_nextKey w)) else find_key g w)" "tn_replica w' = tn_replica w"
    "tn_clock w' = tn_clock w" "tn_outside w' = tn_outside w"
proof -
  have "pk_id ((new_key f)\<lparr>pk_publicKey := Some k\<rparr>) = None" "pk_fspId ((new_key f)\<lparr>pk_publicKey := Some k\<rparr>) = f"
    by (simp_all add: new_key_def)
  then obtain w' where w': "save_key ((new_key f)\<lparr>pk_publicKey := Some k\<rparr>) w = (Inr (new_peer f k (tn_nextKey w)), w')" "table_ok w'"
    "\<And>g. find_key g w' = (if g = f then Some (new_peer f k (tn_nextKey w)) else find_key g w)" "tn_replica w' = tn_replica w"
    "tn_clock w' = tn_clock w" "tn_outside w' = tn_outside w"
    unfolding new_peer_def by (rule save_new[OF assms]) blast
  show ?thesis by (rule that[OF w'])
qed

lemma sync_entry_effect:
  assumes ok: "table_ok w" and cur: "replica_current w" and run: "sync_entry e c w = (x, w')"
  shows "table_ok w' \<and> replica_current w' \<and> peer_change w w' \<and> tn_clock w' = tn_clock w"
proof -
  have kept: ?thesis if "w' = w" using that ok cur by simp
  show ?thesis
  proof (cases "\<exists>f k. jc_dfspId e = Some f \<and> jc_publicKey e = Some k \<and> trim f \<noteq> []")
    case False
    then show ?thesis using run kept by (auto simp: sync_entry_def split: option.splits if_splits)
  next
    case True
    then obtain f k where e: "jc_dfspId e = Some f" "jc_publicKey e = Some k" "trim f \<noteq> []" by blast
    show ?thesis
    proof (cases "find_replica f w")
      case None
      show ?thesis
      proof (cases "find_key f w")
        case None': None
        obtain w1 where w1: "save_key ((new_key f)\<lparr>pk_publicKey := Some k\<rparr>) w = (Inr (new_peer f k (tn_nextKey w)), w1)" "table_ok w1"
          "\<And>g. find_key g w1 = (if g = f then Some (new_peer f k (tn_nextKey w)) else find_key g w)" "tn_replica w1 = tn_replica w"
          "tn_clock w1 = tn_clock w"
          using save_new_peer[OF ok None', of k] by metis
        have "w' = w1" using run e None w1(1) by (simp add: sync_entry_def io_bind_Inr)
        moreover have "peer_change w w1"
          using None' unfolding peer_change_def w1(3) by (metis option.distinct(1) same_public)
        ultimately show ?thesis using w1(2,4,5) replica_currentI[OF cur] by simp
      next
        case (Some r)
        then have "save_key ((new_key f)\<lparr>pk_publicKey := Some k\<rparr>) w = (Inl (Thrown ''Duplicate entry''), w)"
          by (simp add: save_key_def new_key_def)
        then show ?thesis using run e None kept by (simp add: sync_entry_def io_bind_Inl)
      qed
    next
      case (Some r)
      obtain q where q: "find_key f w = Some (r\<lparr>pk_publicKey := q\<rparr>)" "pk_role r = Self \<longrightarrow> q = pk_publicKey r"
        using cur Some unfolding replica_current_def by blast
      show ?thesis
      proof (cases "pk_role r = Self \<or> pk_publicKey r = Some k")
        case True
        then show ?thesis using run e Some kept by (auto simp: sync_entry_def split: if_splits)
      next
        case False
        have "pk_id (r\<lparr>pk_publicKey := Some k\<rparr>) = pk_id (r\<lparr>pk_publicKey := q\<rparr>)" "pk_fspId (r\<lparr>pk_publicKey := Some k\<rparr>) = f"
          using find_replica_fspId[OF Some] by simp_all
        then obtain w1 where w1: "save_key (r\<lparr>pk_publicKey := Some k\<rparr>) w = (Inr (r\<lparr>pk_publicKey := Some k\<rparr>), w1)" "table_ok w1"
          "\<And>g. find_key g w1 = (if g = f then Some (r\<lparr>pk_publicKey := Some k\<rparr>) else find_key g w)" "tn_replica w1 = tn_replica w"
          "tn_clock w1 = tn_clock w"
          by (rule save_existing[OF ok q(1)]) blast
        have "w' = w1" using run e Some False w1(1) by (simp add: sync_entry_def io_bind_Inr)
        moreover have "peer_change w w1"
          unfolding peer_change_def
        proof (intro allI impI)
          fix g s
          assume g: "find_key g w = Some s"
          show "\<exists>k. find_key g w1 = Some (s\<lparr>pk_publicKey := k\<rparr>) \<and> (pk_role s = Self \<longrightarrow> k = pk_publicKey s)"
          proof (cases "g = f")
            case True
            then have "s = r\<lparr>pk_publicKey := q\<rparr>" using g q(1) by simp
            then show ?thesis using False True by (intro exI[of _ "Some k"]) (simp add: w1(3))
          next
            case False
            then show ?thesis using g by (intro exI[of _ "pk_publicKey s"]) (simp add: w1(3))
          qed
        qed
        ultimately show ?thesis using w1(2,4,5) replica_currentI[OF cur] by simp
      qed
    qed
  qed
qed

lemma sync_entries_effect:
  "table_ok w \<Longrightarrow> replica_current w \<Longrightarrow> sync_entries es c w = (x, w') \<Longrightarrow> table_ok w' \<and> peer_change w w' \<and> tn_clock w' = tn_clock w"
proof (induction es arbitrary: c w)
  case (Cons e es)
  from Cons.prems(3) show ?case unfolding sync_entries.simps
  proof (rule io_bind_cases)
    fix err
    assume "sync_entry e c w = (Inl err, w')"
    then show ?thesis using sync_entry_effect[OF Cons.prems(1,2)] by blast
  next
    fix c1 w1
    assume a: "sync_entry e c w = (Inr c1, w1)" "sync_entries es c1 w1 = (x, w')"
    note e = sync_entry_effect[OF Cons.prems(1,2) a(1)]
    show ?thesis using Cons.IH[OF _ _ a(2)] e peer_change_trans by fastforce
  qed
qed simp

lemma peer_sync_effect:
  assumes "table_ok w" "tn_replica w = tn_keys w" "peer_sync d w = (x, w')"
  shows "table_ok w' \<and> peer_change w w' \<and> tn_clock w' = tn_clock w"
  using assms(3) unfolding peer_sync_def
proof (rule io_bind_cases)
  fix e
  assume "outside (mc_listAllJwsKeys (dp_mcm d)) w = (Inl e, w')"
  note t = same_tables_simps[OF outside_tables[OF this]]
  show ?thesis using assms(1) t by (simp add: peer_change_def) (metis same_public)
next
  fix es w1
  assume a: "outside (mc_listAllJwsKeys (dp_mcm d)) w = (Inr es, w1)"
    "sync_entries es \<lparr>sy_total = length es, sy_created = 0, sy_updated = 0, sy_unchanged = 0, sy_skippedSelf = 0\<rparr> w1 = (x, w')"
  note t = same_tables_simps[OF outside_tables[OF a(1)]]
  have "find_replica f w1 = find_key f w1" for f
    unfolding find_replica_def find_key_def t using assms(2) by simp
  then have "replica_current w1" by (simp add: replica_current_def) (metis same_public)
  then have e: "table_ok w' \<and> peer_change w1 w' \<and> tn_clock w' = tn_clock w1" using sync_entries_effect[OF _ _ a(2)] assms(1) t by simp
  then show ?thesis using t by (simp add: peer_change_def)
qed

section \<open>The registry over time\<close>

text \<open>
  What happens to the registry, in any order: the commands of operators, announcements, sweeps, pulls of peer keys (each
  against a replica that has caught up), the passing of time, and anything outside.
\<close>

datatype 'x action =
    AddKeys string string "string option"
  | SetPolicy string "bool option" "verify_mode option"
  | Onboard string "string list" string string
  | Announcement "string option" nat
  | Sweep
  | PeerSync
  | Elapse nat
  | Elsewhere 'x

definition perform :: "'x deployment \<Rightarrow> 'x action \<Rightarrow> 'x tenants \<Rightarrow> 'x tenants" where
  "perform d a w = (case a of
     AddKeys name pub priv \<Rightarrow> snd (addSigningKeys name pub priv w)
   | SetPolicy f sign mode \<Rightarrow> snd (updateJwsPolicy f sign mode w)
   | Onboard name currencies endpoint accessKey \<Rightarrow> snd (onboardFsp d name currencies endpoint accessKey w)
   | Announcement message n \<Rightarrow> snd (handle_announcement d message n w)
   | Sweep \<Rightarrow> snd (reconcile d w)
   | PeerSync \<Rightarrow> snd (peer_sync d (w\<lparr>tn_replica := tn_keys w\<rparr>))
   | Elapse n \<Rightarrow> w\<lparr>tn_clock := tn_clock w + n\<rparr>
   | Elsewhere x \<Rightarrow> w\<lparr>tn_outside := x\<rparr>)"

text \<open>A suspended tenant: it has signed before, its switch is off and it still holds its key.\<close>

definition suspended_row :: "participant_key \<Rightarrow> bool" where
  "suspended_row r \<longleftrightarrow> pk_role r = Self \<and> \<not> pk_signEnabled r \<and> pk_activatedAt r \<noteq> None \<and> has_text (pk_publicKey r)"

definition suspended :: "string \<Rightarrow> 'x tenants \<Rightarrow> bool" where
  "suspended t w \<longleftrightarrow> (\<exists>r. find_key t w = Some r \<and> suspended_row r)"

text \<open>An operator lifts a suspension by switching signing on; a key can also be taken away by registering a blank one.\<close>

definition sets_policy :: "string \<Rightarrow> 'x action \<Rightarrow> bool" where
  "sets_policy t a \<longleftrightarrow> (\<exists>f sign mode. a = SetPolicy f sign mode \<and> trim f = t)"

definition lifts :: "string \<Rightarrow> 'x action \<Rightarrow> bool" where
  "lifts t a \<longleftrightarrow> (\<exists>f mode. a = SetPolicy f (Some True) mode \<and> trim f = t) \<or> (\<exists>pub priv. a = AddKeys t pub priv \<and> trim pub = [])"

text \<open>Where signing is on, its first activation is recorded, and the deployment signs for the tenant.\<close>

definition recorded_row :: "participant_key \<Rightarrow> bool" where
  "recorded_row r \<longleftrightarrow> (pk_signEnabled r \<longrightarrow> pk_role r = Self \<and> pk_activatedAt r \<noteq> None)"

definition row_kept :: "string \<Rightarrow> 'x action \<Rightarrow> participant_key \<Rightarrow> participant_key \<Rightarrow> bool" where
  "row_kept t a r r' \<longleftrightarrow> (\<not> sets_policy t a \<longrightarrow> pk_verifyMode r' = pk_verifyMode r) \<and>
     (suspended_row r \<longrightarrow> \<not> lifts t a \<longrightarrow> suspended_row r') \<and> (recorded_row r \<longrightarrow> recorded_row r')"

lemma row_kept_refl [simp]: "row_kept t a r r"
  by (simp add: row_kept_def)

lemma addSigningKeys_row:
  assumes ok: "table_ok w" and r: "find_key t w = Some r"
  shows "table_ok (snd (addSigningKeys n pub priv w)) \<and> (\<exists>r'. find_key t (snd (addSigningKeys n pub priv w)) = Some r' \<and> row_kept t (AddKeys n pub priv) r r')"
proof (cases "find_key n w")
  case None
  define e where "e = (new_key n)\<lparr>pk_publicKey := Some pub, pk_privateKey := priv, pk_role := (if has_text priv then Self else Peer)\<rparr>"
  have "pk_id e = None" "pk_fspId e = n" by (simp_all add: e_def new_key_def)
  then obtain w' where w': "save_key e w = (Inr (e\<lparr>pk_id := Some (tn_nextKey w)\<rparr>), w')" "table_ok w'"
    "\<And>g. find_key g w' = (if g = n then Some (e\<lparr>pk_id := Some (tn_nextKey w)\<rparr>) else find_key g w)"
    by (rule save_new[OF ok None]) blast
  have "snd (addSigningKeys n pub priv w) = w'" by (simp add: addSigningKeys_def None e_def[symmetric] io_bind_def w'(1))
  then show ?thesis using w' r None by auto
next
  case (Some q)
  define e where "e = q\<lparr>pk_publicKey := Some pub, pk_privateKey := priv\<rparr>"
  have "pk_id e = pk_id q" "pk_fspId e = n" using find_key_fspId[OF Some] by (simp_all add: e_def)
  then obtain w' where w': "save_key e w = (Inr e, w')" "table_ok w'" "\<And>g. find_key g w' = (if g = n then Some e else find_key g w)"
    by (rule save_existing[OF ok Some]) blast
  have s: "snd (addSigningKeys n pub priv w) = w'" by (simp add: addSigningKeys_def Some e_def[symmetric] io_bind_def w'(1))
  show ?thesis
  proof (cases "n = t")
    case True
    then have "q = r" using Some r by simp
    then have "row_kept t (AddKeys n pub priv) r e"
      using True by (auto simp: e_def row_kept_def suspended_row_def recorded_row_def lifts_def has_text_def)
    then show ?thesis unfolding s using w'(2,3) True by simp
  qed (use w' r s in auto)
qed

lemma updateJwsPolicy_row:
  assumes ok: "table_ok w" and r: "find_key t w = Some r"
  shows "table_ok (snd (updateJwsPolicy f sign mode w)) \<and>
    (\<exists>r'. find_key t (snd (updateJwsPolicy f sign mode w)) = Some r' \<and> row_kept t (SetPolicy f sign mode) r r')"
proof (cases "\<exists>q. find_key (trim f) w = Some q \<and> policy_guard (trim f) sign q = Inr ()")
  case False
  then have "snd (updateJwsPolicy f sign mode w) = w"
    by (auto simp: updateJwsPolicy_def io_bind_def Let_def split: option.split sum.splits)
  then show ?thesis using ok r by auto
next
  case True
  then obtain q where q: "find_key (trim f) w = Some q" "policy_guard (trim f) sign q = Inr ()" by blast
  define e where "e = with_policy sign mode (tn_clock w) q"
  have "pk_id e = pk_id q" "pk_fspId e = trim f" using find_key_fspId[OF q(1)] by (simp_all add: e_def with_policy_def Let_def)
  then obtain w' where w': "save_key e w = (Inr e, w')" "table_ok w'" "\<And>g. find_key g w' = (if g = trim f then Some e else find_key g w)"
    by (rule save_existing[OF ok q(1)]) blast
  have s: "snd (updateJwsPolicy f sign mode w) = w'"
    by (simp add: updateJwsPolicy_def Let_def q e_def[symmetric] io_bind_def w'(1))
  show ?thesis
  proof (cases "trim f = t")
    case True
    then have "q = r" using q(1) r by simp
    then have "row_kept t (SetPolicy f sign mode) r e" using True q(2)
      by (cases sign) (auto simp: e_def row_kept_def suspended_row_def recorded_row_def lifts_def sets_policy_def with_policy_def policy_guard_def
          Let_def split: if_splits)
    then show ?thesis using w' True s by simp
  qed (use w' r s in auto)
qed

lemma save_participant_tables: "save_participant co p w = (x, w') \<Longrightarrow> same_tables w w'"
  by (auto simp: save_participant_def same_tables_def Let_def split: option.splits if_splits)

lemma provisionSigningKey_row:
  assumes ok: "table_ok w" and run: "provisionSigningKey d f w = (x, w')"
  shows "table_ok w' \<and> (\<forall>g. find_key g w' = find_key g w \<or> g = f \<and> \<not> has_text (Option.bind (find_key f w) pk_publicKey) \<and>
    (\<exists>r'. find_key f w' = Some r' \<and> pk_role r' = Self \<and> \<not> pk_signEnabled r' \<and> pk_activatedAt r' = None \<and>
      (\<forall>r. find_key f w = Some r \<longrightarrow> pk_verifyMode r' = pk_verifyMode r)))"
proof (cases "has_text (Option.bind (find_key f w) pk_publicKey)")
  case True
  then show ?thesis using ok run by (simp add: provisionSigningKey_def)
next
  case False
  obtain a w1 where p: "outside (provision d f) w = (a, w1)" by fastforce
  note t1 = same_tables_simps[OF outside_tables[OF p]]
  show ?thesis
  proof (cases "\<exists>pub leg. a = Inr (Some (pub, leg))")
    case other: False
    then have "w' = w1" using run False p
      by (auto simp: provisionSigningKey_def io_bind_def split: sum.splits option.splits)
    then show ?thesis using ok t1 by simp
  next
    case True
    then obtain pub leg where a: "a = Inr (Some (pub, leg))" by blast
    define e where "e = (case find_key f w of Some r \<Rightarrow> r | None \<Rightarrow> new_key f)\<lparr>pk_fspId := f, pk_role := Self,
               pk_publicKey := Some pub, pk_privateKey := leg, pk_signEnabled := False, pk_activatedAt := None\<rparr>"
    have ok1: "table_ok w1" using ok t1 by simp
    obtain e' w2 where w2: "save_key e w1 = (Inr e', w2)" "table_ok w2" "\<And>g. find_key g w2 = (if g = f then Some e' else find_key g w1)"
      "e' = e \<or> e' = e\<lparr>pk_id := Some (tn_nextKey w1)\<rparr>"
    proof (cases "find_key f w1")
      case None
      have "pk_id e = None" "pk_fspId e = f" using None t1 by (simp_all add: e_def new_key_def)
      then show ?thesis by (rule save_new[OF ok1 None]) (rule that, blast+)
    next
      case (Some r)
      have "pk_id e = pk_id r" "pk_fspId e = f" using Some t1 by (simp_all add: e_def)
      then show ?thesis by (rule save_existing[OF ok1 Some]) (rule that, blast+)
    qed
    have "same_tables w2 w'"
      using run False a w2(1) by (auto simp: provisionSigningKey_def io_bind_def p e_def[symmetric] w2(1) Let_def
          split: if_splits dest: outside_tables)
    note t2 = same_tables_simps[OF this]
    have look: "find_key g w' = (if g = f then Some e' else find_key g w)" for g using w2(3) t1 t2 by simp
    have e': "pk_role e' = Self" "\<not> pk_signEnabled e'" "pk_activatedAt e' = None" "\<forall>r. find_key f w = Some r \<longrightarrow> pk_verifyMode e' = pk_verifyMode r"
      using w2(4) by (auto simp: e_def)
    show ?thesis
    proof (intro conjI allI)
      show "table_ok w'" using w2(2) t2 by simp
      fix g
      show "find_key g w' = find_key g w \<or> g = f \<and> \<not> has_text (Option.bind (find_key f w) pk_publicKey) \<and>
        (\<exists>r'. find_key f w' = Some r' \<and> pk_role r' = Self \<and> \<not> pk_signEnabled r' \<and> pk_activatedAt r' = None \<and>
          (\<forall>r. find_key f w = Some r \<longrightarrow> pk_verifyMode r' = pk_verifyMode r))"
        using look[of g] look[of f] e' False by simp
    qed
  qed
qed

lemma onboardFsp_row:
  assumes ok: "table_ok w" and r: "find_key t w = Some r"
  shows "table_ok (snd (onboardFsp d name cs ep ak w)) \<and> (\<exists>r'. find_key t (snd (onboardFsp d name cs ep ak w)) = Some r' \<and> row_kept t (Onboard name cs ep ak) r r')"
proof -
  obtain x w' where run: "onboardFsp d name cs ep ak w = (x, w')" by fastforce
  have "same_tables w w' \<or> (\<exists>w1 y. same_tables w w1 \<and> provisionSigningKey d name w1 = (y, w'))"
  proof -
    obtain a w1 where s1: "(if has_text (Option.bind (find_key name w) pk_publicKey) then io_return () else outside (assertReady d name)) w = (a, w1)"
      by fastforce
    have t1: "same_tables w w1" using s1 by (auto split: if_splits dest: outside_tables)
    obtain b w2 where s2: "outside (ledger_onboardFsp (dp_ledger d) name cs ep) w1 = (b, w2)" by fastforce
    note t2 = outside_tables[OF s2]
    let ?p = "\<lparr>pa_id = Option.bind (find_participant (dp_collate d) name w2) pa_id, pa_name = name, pa_jwsPublicKey = None,
         pa_jwsPrivateKey = None, pa_accessPublicKey = ak\<rparr>"
    obtain c w3 where s3: "save_participant (dp_collate d) ?p w2 = (c, w3)" by fastforce
    note t3 = save_participant_tables[OF s3]
    obtain y w4 where s4: "provisionSigningKey d name w3 = (y, w4)" by fastforce
    have "w' = w1 \<or> w' = w2 \<or> w' = w3 \<or> w' = w4"
      using run by (cases a; cases b; cases c; cases y) (simp_all add: onboardFsp_def io_bind_def s1 s2 s3 s4)
    then show ?thesis using t1 t2 t3 s4 same_tables_trans by blast
  qed
  then show ?thesis
  proof
    assume "same_tables w w'"
    then show ?thesis using ok r by (auto simp: run same_tables_simps)
  next
    assume "\<exists>w1 y. same_tables w w1 \<and> provisionSigningKey d name w1 = (y, w')"
    then obtain w1 y where t: "same_tables w w1" and p: "provisionSigningKey d name w1 = (y, w')" by blast
    have "table_ok w1" "find_key t w1 = Some r" using ok r t by (simp_all add: same_tables_simps)
    from this(2) provisionSigningKey_row[OF this(1) p] show ?thesis
      unfolding run snd_conv row_kept_def suspended_row_def recorded_row_def by (metis bind.bind_lunit)
  qed
qed

lemma published_row:
  assumes "find_key t w = Some r" "published_at m view w w' t"
  shows "\<exists>r'. find_key t w' = Some r' \<and> row_kept t a r r'"
  using assms by (auto simp: published_at_def row_kept_def suspended_row_def recorded_row_def)

lemma perform_row:
  assumes ok: "table_ok w" and r: "find_key t w = Some r"
  shows "table_ok (perform d a w) \<and> (\<exists>r'. find_key t (perform d a w) = Some r' \<and> row_kept t a r r')"
proof (cases a)
  case (Announcement m n)
  then have p: "table_ok (perform d a w)" "published_at (dp_mcm d) (\<lambda>_ _. None) w (perform d a w) t"
    using handle_announcement_effect[OF ok, of d m n "\<lambda>_ _. None"] by (simp_all add: perform_def)
  show ?thesis using p(1) published_row[OF r p(2)] by blast
next
  case Sweep
  then have p: "table_ok (perform d a w)" "published_at (dp_mcm d) (\<lambda>_ _. None) w (perform d a w) t"
    using reconcile_effect[OF ok, of d "\<lambda>_ _. None"] by (simp_all add: perform_def)
  show ?thesis using p(1) published_row[OF r p(2)] by blast
next
  case PeerSync
  let ?w = "w\<lparr>tn_replica := tn_keys w\<rparr>"
  obtain x w' where run: "peer_sync d ?w = (x, w')" by fastforce
  have "table_ok ?w" "find_key t ?w = Some r" using ok r by (simp_all add: table_ok_def find_key_def)
  then obtain k where "table_ok w'" "find_key t w' = Some (r\<lparr>pk_publicKey := k\<rparr>)" "pk_role r = Self \<longrightarrow> k = pk_publicKey r"
    using peer_sync_effect[OF _ _ run] unfolding peer_change_def by auto
  then show ?thesis using PeerSync run
    by (auto simp: perform_def row_kept_def suspended_row_def recorded_row_def)
next
  case (Elapse n)
  then show ?thesis using ok r by (simp add: perform_def table_ok_def find_key_def)
next
  case (Elsewhere x)
  then show ?thesis using ok r by (simp add: perform_def table_ok_def find_key_def)
qed (simp_all add: perform_def addSigningKeys_row[OF assms] updateJwsPolicy_row[OF assms] onboardFsp_row[OF assms])

lemma perform_rows:
  "table_ok w \<Longrightarrow> find_key t w = Some r \<Longrightarrow> table_ok (fold (perform d) acts w) \<and> (\<exists>r'. find_key t (fold (perform d) acts w) = Some r' \<and>
     ((\<forall>a\<in>set acts. \<not> sets_policy t a) \<longrightarrow> pk_verifyMode r' = pk_verifyMode r) \<and>
     (suspended_row r \<longrightarrow> (\<forall>a\<in>set acts. \<not> lifts t a) \<longrightarrow> suspended_row r') \<and> (recorded_row r \<longrightarrow> recorded_row r'))"
proof (induction acts arbitrary: w r)
  case (Cons a acts)
  obtain r1 where r1: "table_ok (perform d a w)" "find_key t (perform d a w) = Some r1" "row_kept t a r r1"
    using perform_row[OF Cons.prems] by blast
  show ?case using Cons.IH[OF r1(1,2)] r1(3) unfolding row_kept_def by fastforce
qed auto

text \<open>A suspension by an operator takes hold of a tenant that signs.\<close>

lemma suspend_row:
  assumes ok: "table_ok w" and r: "find_key t w = Some r" "recorded_row r" "pk_signEnabled r" "has_text (pk_publicKey r)" and t: "trim t = t"
  shows "\<exists>r'. find_key t (perform d (SetPolicy t (Some False) mode) w) = Some r' \<and> suspended_row r'"
proof -
  define e where "e = with_policy (Some False) mode (tn_clock w) r"
  have e: "pk_id e = pk_id r" "pk_fspId e = t" "suspended_row e"
    using find_key_fspId[OF r(1)] r(2-) by (simp_all add: e_def with_policy_def Let_def suspended_row_def recorded_row_def)
  obtain w' where w': "save_key e w = (Inr e, w')" "\<And>g. find_key g w' = (if g = t then Some e else find_key g w)"
    by (rule save_existing[OF ok r(1) e(1,2)]) blast
  have "perform d (SetPolicy t (Some False) mode) w = w'"
    by (simp add: perform_def updateJwsPolicy_def Let_def t r(1) policy_guard_def e_def[symmetric] io_bind_def w'(1))
  then show ?thesis using w'(2) e(3) by simp
qed


text \<open>An MCM that keeps what is published, and reads of which fail as often as the counter says.\<close>

definition demo_mcm :: "(nat \<times> (string \<times> string) list) mcm" where
  "demo_mcm = \<lparr>
     mc_listDfsps = (\<lambda>x. (Inr [], x)),
     mc_createDfsp = (\<lambda>q x. (Inr (), x)),
     mc_publishJwsKey = (\<lambda>f k (n, held). (Inr (), (n, (f, k) # held))),
     mc_getJwsKey = (\<lambda>f (n, held). if n = 0 then (Inr (map_option (\<lambda>k. \<lparr>jc_dfspId = Some f, jc_publicKey = Some k\<rparr>) (map_of held f)), (n, held))
        else (Inl (McmRefused ''MCM_REQUEST_FAILED'' [] None), (n - 1, held))),
     mc_listAllJwsKeys = (\<lambda>(n, held). (Inr (map (\<lambda>(f, k). \<lparr>jc_dfspId = Some f, jc_publicKey = Some k\<rparr>) held), (n, held)))\<rparr>"

definition demo_deployment :: "(nat \<times> (string \<times> string) list) deployment" where
  "demo_deployment = \<lparr>dp_collate = toLowerCase, dp_custody = DatabaseCustody, dp_generate = (\<lambda>x. (Inr (''PUB'', ''PRIV''), x)),
     dp_writeKv = (\<lambda>_ _ _ x. (Inr (), x)), dp_readKv = (\<lambda>_ _ x. (Inr None, x)), dp_isKey = (\<lambda>s. s \<noteq> []), dp_isPrivateKey = (\<lambda>s. s = ''PRIV''),
     dp_announcer = True, dp_isConnected = (\<lambda>_. False), dp_announce = (\<lambda>_ x. (Inr (), x)),
     dp_ledger = (\<lambda>c x. (Inr [\<lparr>lp_name = ''a'', lp_accounts = Some [\<lparr>la_id = 1, la_type = POSITION_ACCOUNT_TYPE, la_currency = Some ''USD''\<rparr>]\<rparr>], x)),
     dp_mcm = demo_mcm, dp_registrar = Some \<lparr>rg_enabled = True, rg_contactEmail = None, rg_monetaryZoneId = None\<rparr>\<rparr>"

definition demo_row :: "key_role \<Rightarrow> string \<Rightarrow> bool \<Rightarrow> nat option \<Rightarrow> participant_key" where
  "demo_row role k on since = \<lparr>pk_id = Some 0, pk_fspId = ''a'', pk_role = role, pk_publicKey = Some k, pk_privateKey = None,
     pk_signEnabled = on, pk_activatedAt = since, pk_verifyMode = ''require''\<rparr>"

definition demo_tenants :: "participant_key \<Rightarrow> nat \<Rightarrow> (string \<times> string) list \<Rightarrow> (nat \<times> (string \<times> string) list) tenants" where
  "demo_tenants r n held = \<lparr>tn_participants = [], tn_nextParticipant = 0, tn_keys = [r], tn_nextKey = 1, tn_replica = [r], tn_known = [],
     tn_clock = 5, tn_outside = (n, held)\<rparr>"

lemma demo_table [simp]: "table_ok (demo_tenants (demo_row role k on since) n held)"
  "find_key ''a'' (demo_tenants (demo_row role k on since) n held) = Some (demo_row role k on since)"
  by (simp_all add: table_ok_def demo_tenants_def demo_row_def find_key_def)


text \<open>
  C21: signing starts only with a key that MCM holds.  A sweep, or an announcement, leaves every row of the registry as it
  is, except that it may switch on a tenant that was never activated, and then MCM holds, up to white space, the very key
  of that tenant at the end.  When reads of MCM fail only where it holds nothing, no key that MCM holds is replaced.
\<close>

theorem signing_needs_published_key:
  assumes "mcm_store (dp_mcm d) view" "table_ok w" "a = Sweep \<or> a = Announcement message n" "find_key f w = Some r"
  shows "(find_key f (perform d a w) = Some r \<or>
     (\<exists>k p. pk_role r = Self \<and> pk_publicKey r = Some k \<and> pk_activatedAt r = None \<and>
        find_key f (perform d a w) = Some (r\<lparr>pk_activatedAt := Some (tn_clock w), pk_signEnabled := True\<rparr>) \<and>
        view (tn_outside (perform d a w)) f = Some p \<and> samePem p k)) \<and>
     (honest_reads (dp_mcm d) view \<longrightarrow> has_text (view (tn_outside w) f) \<longrightarrow>
        view (tn_outside (perform d a w)) f = view (tn_outside w) f)"
proof -
  have "published_at (dp_mcm d) view w (perform d a w) f \<and> keeps_held (dp_mcm d) view w (perform d a w) f"
    using assms(3) reconcile_effect[OF assms(2), of d view] handle_announcement_effect[OF assms(2), of d message n view]
    by (auto simp: perform_def)
  then show ?thesis using assms(1,4) by (auto simp: published_at_def keeps_held_def)
qed

lemma demo_mcm_store: "mcm_store demo_mcm (\<lambda>x. map_of (snd x))"
proof -
  have "Option.bind (map_option (\<lambda>k. \<lparr>jc_dfspId = Some f, jc_publicKey = Some k\<rparr>) z) jc_publicKey = z" for f :: string and z
    by (cases z) simp_all
  then show ?thesis by (auto simp: mcm_store_def demo_mcm_def split: if_splits)
qed

theorem signing_needs_published_key_witness:
  "\<exists>p. map_of (snd (tn_outside (perform demo_deployment Sweep (demo_tenants (demo_row Self ''K'' False None) 0 [])))) ''a'' = Some p \<and> samePem p ''K''"
proof -
  let ?r = "demo_row Self ''K'' False None" and ?w = "demo_tenants (demo_row Self ''K'' False None) 0 []"
  define w' where "w' = perform demo_deployment Sweep ?w"
  have on: "find_key ''a'' w' \<noteq> Some ?r" unfolding w'_def by code_simp
  have k: "pk_publicKey ?r = Some ''K''" by (simp add: demo_row_def)
  have store: "mcm_store (dp_mcm demo_deployment) (\<lambda>x. map_of (snd x))" using demo_mcm_store by (simp add: demo_deployment_def)
  show ?thesis
    using signing_needs_published_key[OF store demo_table(1)[of Self "''K''" False None 0 "[]"] _ demo_table(2), of Sweep] on k
    unfolding w'_def by fastforce
qed

section \<open>A pull brings exactly the keys that MCM lists\<close>

text \<open>The keys in a list of MCM; entries without a DFSP or a key are left out.\<close>

definition peer_keys :: "jws_cert list \<Rightarrow> (string \<times> string) list" where
  "peer_keys es = List.map_filter (\<lambda>e. case (jc_dfspId e, jc_publicKey e) of
     (Some f, Some k) \<Rightarrow> if trim f = [] then None else Some (f, k) | _ \<Rightarrow> None) es"

definition synced :: "string \<Rightarrow> string option \<Rightarrow> participant_key option \<Rightarrow> participant_key option \<Rightarrow> bool" where
  "synced f listed old new \<longleftrightarrow> (case listed of
     None \<Rightarrow> new = old
   | Some k \<Rightarrow> (case old of
       None \<Rightarrow> \<exists>i. new = Some (new_peer f k i)
     | Some r \<Rightarrow> new = Some (if pk_role r = Self then r else r\<lparr>pk_publicKey := Some k\<rparr>)))"

lemma peer_keys_Cons:
  "peer_keys (e # es) = (case (jc_dfspId e, jc_publicKey e) of
     (Some f, Some k) \<Rightarrow> if trim f = [] then peer_keys es else (f, k) # peer_keys es | _ \<Rightarrow> peer_keys es)"
  by (auto simp: peer_keys_def map_filter_def split: option.split)

lemma sync_entry_listed:
  assumes ok: "table_ok w" and e: "jc_dfspId e = Some f" "jc_publicKey e = Some k" "trim f \<noteq> []" and same: "find_replica f w = find_key f w"
  obtains c' w' where "sync_entry e c w = (Inr c', w')" "table_ok w'" "tn_replica w' = tn_replica w" "tn_outside w' = tn_outside w"
    "synced f (Some k) (find_key f w) (find_key f w')" "\<And>g. g \<noteq> f \<Longrightarrow> find_key g w' = find_key g w"
proof (cases "find_key f w")
  case None
  obtain w1 where w1: "save_key ((new_key f)\<lparr>pk_publicKey := Some k\<rparr>) w = (Inr (new_peer f k (tn_nextKey w)), w1)" "table_ok w1"
    "\<And>g. find_key g w1 = (if g = f then Some (new_peer f k (tn_nextKey w)) else find_key g w)" "tn_replica w1 = tn_replica w"
    "tn_outside w1 = tn_outside w"
    using save_new_peer[OF ok None, of k] by metis
  show ?thesis
    by (rule that[of "c\<lparr>sy_created := Suc (sy_created c)\<rparr>" w1]) (use w1 None e same in \<open>auto simp: sync_entry_def io_bind_def synced_def\<close>)
next
  case (Some r)
  show ?thesis
  proof (cases "pk_role r = Self \<or> pk_publicKey r = Some k")
    case True
    then have "synced f (Some k) (find_key f w) (find_key f w)" using Some by (auto simp: synced_def)
    then show ?thesis
      using True Some e same ok that[of "c\<lparr>sy_skippedSelf := Suc (sy_skippedSelf c)\<rparr>" w] that[of "c\<lparr>sy_unchanged := Suc (sy_unchanged c)\<rparr>" w]
      by (cases "pk_role r = Self") (auto simp: sync_entry_def)
  next
    case False
    have "pk_id (r\<lparr>pk_publicKey := Some k\<rparr>) = pk_id r" "pk_fspId (r\<lparr>pk_publicKey := Some k\<rparr>) = f"
      using find_key_fspId[OF Some] by simp_all
    then obtain w1 where w1: "save_key (r\<lparr>pk_publicKey := Some k\<rparr>) w = (Inr (r\<lparr>pk_publicKey := Some k\<rparr>), w1)" "table_ok w1"
      "\<And>g. find_key g w1 = (if g = f then Some (r\<lparr>pk_publicKey := Some k\<rparr>) else find_key g w)" "tn_replica w1 = tn_replica w"
      "tn_outside w1 = tn_outside w"
      by (rule save_existing[OF ok Some]) blast
    show ?thesis
      by (rule that[of "c\<lparr>sy_updated := Suc (sy_updated c)\<rparr>" w1]) (use w1 Some False e same in \<open>auto simp: sync_entry_def io_bind_def synced_def\<close>)
  qed
qed

lemma sync_entries_exact:
  "table_ok w \<Longrightarrow> distinct (map fst (peer_keys es)) \<Longrightarrow> (\<And>f. f \<in> fst ` set (peer_keys es) \<Longrightarrow> find_replica f w = find_key f w) \<Longrightarrow>
     \<exists>c' w'. sync_entries es c w = (Inr c', w') \<and> table_ok w' \<and> (\<forall>f. synced f (map_of (peer_keys es) f) (find_key f w) (find_key f w'))"
proof (induction es arbitrary: c w)
  case Nil
  then show ?case by (simp add: peer_keys_def map_filter_def synced_def)
next
  case (Cons e es)
  show ?case
  proof (cases "\<exists>f k. jc_dfspId e = Some f \<and> jc_publicKey e = Some k \<and> trim f \<noteq> []")
    case False
    then have "peer_keys (e # es) = peer_keys es" "sync_entry e c w = (Inr c, w)"
      by (auto simp: peer_keys_Cons sync_entry_def split: option.split)
    then show ?thesis using Cons by (simp add: io_bind_def)
  next
    case True
    then obtain f k where e: "jc_dfspId e = Some f" "jc_publicKey e = Some k" "trim f \<noteq> []" by blast
    then have keys: "peer_keys (e # es) = (f, k) # peer_keys es" by (simp add: peer_keys_Cons)
    have "find_replica f w = find_key f w" using Cons.prems(3) by (simp add: keys)
    then obtain c1 w1 where w1: "sync_entry e c w = (Inr c1, w1)" "table_ok w1" "tn_replica w1 = tn_replica w"
      "synced f (Some k) (find_key f w) (find_key f w1)" "\<And>g. g \<noteq> f \<Longrightarrow> find_key g w1 = find_key g w"
      using sync_entry_listed[OF Cons.prems(1) e, of c] by metis
    have new: "f \<notin> fst ` set (peer_keys es)" "distinct (map fst (peer_keys es))" using Cons.prems(2) by (simp_all add: keys)
    have "find_replica g w1 = find_key g w1" if "g \<in> fst ` set (peer_keys es)" for g
    proof -
      have "g \<noteq> f" using that new(1) by auto
      then show ?thesis using Cons.prems(3)[of g] that w1(3,5) by (simp add: keys find_replica_def)
    qed
    then obtain c' w' where w': "sync_entries es c1 w1 = (Inr c', w')" "table_ok w'"
      "\<forall>f. synced f (map_of (peer_keys es) f) (find_key f w1) (find_key f w')"
      using Cons.IH[OF w1(2) new(2), of c1] by blast
    have "synced g (map_of (peer_keys (e # es)) g) (find_key g w) (find_key g w')" for g
    proof (cases "g = f")
      case True
      have "map_of (peer_keys es) f = None" using new(1) by (simp add: map_of_eq_None_iff)
      then have "find_key f w' = find_key f w1" using w'(3) by (auto simp: synced_def dest: spec[of _ f])
      then show ?thesis using True w1(4) by (simp add: keys)
    next
      case False
      then show ?thesis using w'(3)[rule_format, of g] w1(5)[OF False] by (simp add: keys)
    qed
    then show ?thesis using w1(1) w'(1,2) by (simp add: io_bind_def)
  qed
qed



section \<open>Announcements\<close>

lemma backoff_bounds: "BASE_BACKOFF_MS \<le> backoffMs n" "backoffMs n \<le> MAX_BACKOFF_MS" "m \<le> n \<Longrightarrow> backoffMs m \<le> backoffMs n"
proof -
  have "(2::nat) ^ min (m - 1) 20 \<le> 2 ^ min (n - 1) 20" if "m \<le> n" for m n :: nat
    using that by (intro power_increasing) auto
  then show "m \<le> n \<Longrightarrow> backoffMs m \<le> backoffMs n" unfolding backoffMs_def by (intro min.mono mult_le_mono2 order.refl)
  show "BASE_BACKOFF_MS \<le> backoffMs n" by (simp add: backoffMs_def BASE_BACKOFF_MS_def MAX_BACKOFF_MS_def)
qed (simp add: backoffMs_def)

text \<open>An announcement is acknowledged only when the tenant's key is at MCM and its activation is recorded.\<close>

lemma acknowledged_means_published:
  assumes ok: "table_ok w" and store: "mcm_store (dp_mcm d) view" and ack: "handle_announcement d (Some f) n w = (Ack, w')"
  shows "\<exists>r k p. find_key (trim f) w' = Some r \<and> pk_publicKey r = Some k \<and> pk_activatedAt r \<noteq> None \<and>
    view (tn_outside w') (trim f) = Some p \<and> samePem p k"
proof -
  have run: "publishAndEnable d (trim f) w = (Inr (), w')"
    using ack by (auto simp: handle_announcement_def Let_def split: if_splits sum.splits prod.splits)
  obtain r k where r: "find_key (trim f) w = Some r" "pk_role r = Self" "pk_publicKey r = Some k"
    using run by (auto simp: publishAndEnable_def publishable_def split: option.splits if_splits)
  obtain s w1 where b: "bring_to_mcm d (trim f) k w = (Inr s, w1)" "s \<noteq> Diverged" "io_bind (activate r) (\<lambda>_. io_return ()) w1 = (Inr (), w')"
    using run r by (auto simp: publishAndEnable_def publishable_def io_bind_Inr_iff split: if_splits)
  note t = same_tables_simps[OF bring_to_mcm_tables[OF b(1)]]
  have "table_ok w1" "find_key (trim f) w1 = Some r" using ok r(1) t by simp_all
  then obtain on w2 where "activate r w1 = (Inr on, w2)" "tn_outside w2 = tn_outside w1"
    "\<And>g. find_key g w2 = (if g = trim f \<and> pk_activatedAt r = None
        then Some (r\<lparr>pk_activatedAt := Some (tn_clock w1), pk_signEnabled := True\<rparr>) else find_key g w1)"
    by (rule activate_effect) blast
  moreover from this(1) have "w' = w2" using b(3) by (simp add: io_bind_def)
  moreover obtain p where "view (tn_outside w1) (trim f) = Some p" "samePem p k" using bring_to_mcm_view(2)[OF store b(1) refl b(2)] by blast
  ultimately show ?thesis using r t(1) by (cases "pk_activatedAt r = None") auto
qed

section \<open>Where the code falls short of its comments\<close>

text \<open>
  A suspension before the first activation is not recorded: the next sweep switches the tenant on.
\<close>

lemma early_suspension_is_undone:
  "map_option pk_signEnabled (find_key ''a'' (fold (perform demo_deployment) [SetPolicy ''a'' (Some False) None, Sweep]
     (demo_tenants (demo_row Self ''K'' False None) 0 []))) = Some True"
  by code_simp

text \<open>
  A read of MCM that fails is taken for an answer that MCM holds no key: the sweep then replaces the different key that
  MCM does hold, and switches signing on.
\<close>

lemma failed_read_replaces_key:
  "(let w = perform demo_deployment Sweep (demo_tenants (demo_row Self ''K'' False None) 1 [(''a'', ''OTHER'')])
    in (map_of (snd (tn_outside w)) ''a'', map_option pk_signEnabled (find_key ''a'' w))) = (Some ''K'', Some True)"
  by code_simp

text \<open>
  The pull looks at the replica.  While that still shows the tenant as the peer it was before it was onboarded, the pull
  writes the old row back: the tenant is a peer again and its private key is gone.
\<close>

lemma stale_replica_unmakes_tenant:
  "(let w = perform demo_deployment (Onboard ''a'' [''USD''] ''https://a'' ''AK'') (demo_tenants (demo_row Peer [] False None) 0 [(''a'', ''K'')]);
        w' = snd (peer_sync demo_deployment w)
    in (map_option (\<lambda>r. (pk_role r, pk_privateKey r)) (find_key ''a'' w), map_option (\<lambda>r. (pk_role r, pk_privateKey r)) (find_key ''a'' w')))
   = (Some (Self, Some ''PRIV''), Some (Peer, None))"
  by code_simp

text \<open>
  Publishing reads the row, waits for MCM and saves the row it read: what an operator changed in between is lost.
\<close>

lemma policy_change_lost_in_flight:
  assumes ok: "table_ok w" and r: "find_key t w = Some r" "pk_activatedAt r = None"
    and w1: "table_ok w1" "find_key t w1 = Some (r\<lparr>pk_verifyMode := mode_text Require\<rparr>)"
  shows "\<exists>r'. find_key t (snd (activate r w1)) = Some r' \<and> pk_verifyMode r' = pk_verifyMode r"
proof -
  define e where "e = r\<lparr>pk_activatedAt := Some (tn_clock w1), pk_signEnabled := True\<rparr>"
  have "pk_id e = pk_id (r\<lparr>pk_verifyMode := mode_text Require\<rparr>)" "pk_fspId e = t" using find_key_fspId[OF r(1)] by (simp_all add: e_def)
  then obtain w2 where "save_key e w1 = (Inr e, w2)" "\<And>g. find_key g w2 = (if g = t then Some e else find_key g w1)"
    by (rule save_existing[OF w1]) blast
  then show ?thesis using r(2) by (simp add: activate_def e_def[symmetric] io_bind_def) (simp add: e_def)
qed

text \<open>
  A key that is registered for a tenant while it signs is signed with at once, though MCM still holds the old one; the
  sweep counts the disagreement and leaves signing on.
\<close>

lemma replaced_key_keeps_signing:
  "(let (c, w) = reconcile demo_deployment (perform demo_deployment (AddKeys ''a'' ''NEW'' (Some ''PRIV2''))
        (demo_tenants (demo_row Self ''K'' True (Some 1)) 0 [(''a'', ''K'')]))
    in (sw_diverged c, map_of (snd (tn_outside w)) ''a'', map_option (\<lambda>r. (pk_publicKey r, pk_signEnabled r)) (find_key ''a'' w)))
   = (1, Some ''K'', Some (Some ''NEW'', True))"
  by code_simp

text \<open>
  Onboarding again does not complete an onboarding whose key step failed where the ledger refuses a participant that
  already has the currency: the keys are not reached.
\<close>

lemma refused_currency_stops_onboarding:
  assumes "\<And>x. \<exists>f x'. dp_ledger d (CreateParticipant name c False) x = (Inl f, x')"
  shows "\<exists>e w'. onboardFsp d name (c # cs) endpoint accessKey w = (Inl e, w') \<and> tn_keys w' = tn_keys w \<and> tn_participants w' = tn_participants w"
proof -
  have refused: "\<exists>e x'. ledger_onboardFsp (dp_ledger d) name (c # cs) endpoint x = (Inl e, x')" for x
    using assms[of x]
    by (auto simp: ledger_onboardFsp_def validateCurrencies_def addFspCurrency_def rethrowing_def io_catch_def io_bind_def send_one_def send_def)
  have out: "tn_keys w2 = tn_keys w1 \<and> tn_participants w2 = tn_participants w1" if "outside m w1 = (y, w2)" for m :: "(_, _, 'q) task" and w1 y w2
    using that by (auto simp: outside_def io_on_def split: prod.splits)
  obtain a w1 where a: "(if has_text (Option.bind (find_key name w) pk_publicKey) then io_return () else outside (assertReady d name)) w = (a, w1)"
    by fastforce
  have w1: "tn_keys w1 = tn_keys w \<and> tn_participants w1 = tn_participants w" using a by (auto split: if_splits dest: out)
  obtain e w2 where l: "outside (ledger_onboardFsp (dp_ledger d) name (c # cs) endpoint) w1 = (Inl e, w2)"
    using refused[of "tn_outside w1"] by (auto simp: outside_def io_on_def)
  show ?thesis
  proof (cases a)
    case (Inl e')
    then show ?thesis using w1 by (simp add: onboardFsp_def io_bind_def a)
  next
    case (Inr u)
    then show ?thesis using w1 out[OF l] by (simp add: onboardFsp_def io_bind_def a l)
  qed
qed

text \<open>
  The record of the HSM profile is checked with a function of Node that also takes a private key, so a private key in
  the field of the public key is recorded as one, and would be published.
\<close>

lemma hsm_record_may_hold_private_key:
  assumes "dp_custody d = Pkcs11Custody prefix" "dp_isKey d key" "\<And>field x. dp_readKv d (prefix @ ''/'' @ trim f) field x = (Inr (Some key), x)"
  shows "provision d f x = (Inr (Some (key, None)), x)" "dp_isPrivateKey d key \<Longrightarrow> \<not> public_key_fromBuffer d key"
  using assms by (simp_all add: provision_def read_hsm_record_def io_bind_def public_key_fromBuffer_def Let_def)

text \<open>
  A key that is registered for a peer leaves it a peer, with or without a private key; and a participant that has a row
  with a public key, be it a peer's, is onboarded without a key of its own.
\<close>

lemma registered_keys_leave_peer:
  assumes "table_ok w" "find_key t w = Some r"
  shows "\<exists>r'. find_key t (snd (addSigningKeys t pub priv w)) = Some r' \<and> pk_role r' = pk_role r"
proof -
  define e where "e = r\<lparr>pk_publicKey := Some pub, pk_privateKey := priv\<rparr>"
  have "pk_id e = pk_id r" "pk_fspId e = t" using find_key_fspId[OF assms(2)] by (simp_all add: e_def)
  then obtain w' where w': "save_key e w = (Inr e, w')" "\<And>g. find_key g w' = (if g = t then Some e else find_key g w)"
    by (rule save_existing[OF assms]) blast
  then show ?thesis by (simp add: addSigningKeys_def assms(2) e_def[symmetric] io_bind_def) (simp add: e_def)
qed

lemma peer_key_blocks_provisioning:
  "find_key t w = Some r \<Longrightarrow> has_text (pk_publicKey r) \<Longrightarrow> provisionSigningKey d t w = (Inr (), w)"
  by (simp add: provisionSigningKey_def)

end
