(* ===== verification/Signing_Keys.thy ===== *)
theory Signing_Keys
  imports Signing_Tenants
begin

text \<open>
  The keys a service signs and verifies with: where private keys and key references come from
  (\<open>jws-private-key-source.ts\<close>, \<open>jws-key-ref-source.ts\<close>), the cache that is refreshed from the registry
  (\<open>participant-signing-keys-cache.ts\<close>), the stores that serve from it (\<open>participant-*-store.ts\<close>) and the factories that
  choose them (\<open>domain.module.ts\<close>).  A refresh reads every path of Vault at most once, so what Vault answers in a refresh
  is a function of path and field.  A \<open>Map\<close> of the code is a list of pairs with distinct keys.
\<close>

section \<open>Sources\<close>

text \<open>\<open>Inl\<close>: the read failed.\<close>

type_synonym vault_reads = "string \<Rightarrow> string \<Rightarrow> (part_error, string option) result"

type_synonym text_map = "(string \<times> string) list"

definition isSigningTenant :: "participant_key \<Rightarrow> bool" where
  "isSigningTenant r \<longleftrightarrow> pk_role r = Self \<and> pk_signEnabled r \<and> trim (pk_fspId r) \<noteq> []"

text \<open>\<open>pem.replace(/\\n/g, '\n')\<close>: a backslash followed by an n becomes a newline.\<close>

fun unescape_newlines :: "string \<Rightarrow> string" where
  "unescape_newlines (a # b # s) =
     (if a = CHR 0x5C \<and> b = CHR ''n'' then CHR 0x0A # unescape_newlines s else a # unescape_newlines (b # s))"
| "unescape_newlines s = s"

definition normalizePem :: "string option \<Rightarrow> string option" where
  "normalizePem pem = (case pem of None \<Rightarrow> None | Some p \<Rightarrow> if trim p = [] then None else Some (unescape_newlines p))"

definition map_set :: "string \<Rightarrow> 'v option \<Rightarrow> (string \<times> 'v) list \<Rightarrow> (string \<times> 'v) list" where
  "map_set k v m = (case v of None \<Rightarrow> m | Some x \<Rightarrow> AList.update k x m)"

definition Database_resolve :: "participant_key list \<Rightarrow> text_map" where
  "Database_resolve rows = fold (\<lambda>r m. if isSigningTenant r then map_set (trim (pk_fspId r)) (normalizePem (pk_privateKey r)) m else m) rows []"

text \<open>What a tenant's entry becomes: what Vault answers, or the previous entry where the read fails.\<close>

definition carried :: "(string option \<Rightarrow> string option) \<Rightarrow> (part_error, string option) result \<Rightarrow> string option \<Rightarrow> string option" where
  "carried accept answer previous = (case answer of Inl _ \<Rightarrow> previous | Inr v \<Rightarrow> accept v)"

definition Vault_resolve :: "vault_reads \<Rightarrow> string \<Rightarrow> participant_key list \<Rightarrow> text_map \<Rightarrow> text_map" where
  "Vault_resolve reads prefix rows previous = fold (\<lambda>r m.
     if isSigningTenant r
     then let f = trim (pk_fspId r)
          in map_set f (carried normalizePem (reads (prefix @ ''/'' @ f) ''privateKey'') (map_of previous f)) m
     else m) rows []"

definition accept_keyRef :: "string option \<Rightarrow> string option" where
  "accept_keyRef v = (case v of None \<Rightarrow> None | Some k \<Rightarrow> if trim k = [] then None else Some (trim k))"

definition KeyRef_resolve :: "vault_reads \<Rightarrow> string \<Rightarrow> participant_key list \<Rightarrow> text_map \<Rightarrow> text_map" where
  "KeyRef_resolve reads prefix rows previous = fold (\<lambda>r m.
     if isSigningTenant r
     then let f = trim (pk_fspId r)
          in map_set f (carried accept_keyRef (reads (prefix @ ''/'' @ f) ''keyRef'') (map_of previous f)) m
     else m) rows []"

text \<open>The profile decides where private keys and where references are read, as it decides where keys are created.\<close>

definition resolve_private :: "vault_reads \<Rightarrow> custody \<Rightarrow> participant_key list \<Rightarrow> text_map \<Rightarrow> text_map" where
  "resolve_private reads cu rows previous = (case cu of
     NoCustody \<Rightarrow> [] | DatabaseCustody \<Rightarrow> Database_resolve rows | Pkcs11Custody _ \<Rightarrow> []
   | VaultCustody prefix \<Rightarrow> Vault_resolve reads prefix rows previous)"

definition resolve_keyRefs :: "vault_reads \<Rightarrow> custody \<Rightarrow> participant_key list \<Rightarrow> text_map \<Rightarrow> text_map" where
  "resolve_keyRefs reads cu rows previous = (case cu of Pkcs11Custody prefix \<Rightarrow> KeyRef_resolve reads prefix rows previous | _ \<Rightarrow> previous)"

text \<open>\<open>KEY_PROVIDER\<close>, whether Vault is configured, and the path prefixes.\<close>

datatype key_provider = ProviderNone | ProviderDatabase | ProviderVaultKv | ProviderPkcs11

definition choose_custody :: "key_provider \<Rightarrow> bool \<Rightarrow> string \<Rightarrow> string option \<Rightarrow> (part_error, custody) result" where
  "choose_custody provider vaultConfigured jwsKeyPathPrefix keyRefPathPrefix = (case provider of
     ProviderNone \<Rightarrow> Inr NoCustody
   | ProviderDatabase \<Rightarrow> Inr DatabaseCustody
   | ProviderPkcs11 \<Rightarrow> if vaultConfigured then Inr (Pkcs11Custody (nullish keyRefPathPrefix ''pivotal/keyref''))
       else Inl (Thrown (''KEY_PROVIDER is '' @ quoted ''pkcs11'' @ '' but Vault is not configured.''))
   | ProviderVaultKv \<Rightarrow> if vaultConfigured then Inr (VaultCustody jwsKeyPathPrefix)
       else Inl (Thrown (''KEY_PROVIDER is '' @ quoted ''vault-kv'' @ '' but Vault is not configured.'')))"

section \<open>The cache\<close>

record key_cache =
  kc_public :: text_map
  kc_private :: text_map
  kc_keyRefs :: text_map
  kc_access :: text_map
  kc_signEnabled :: "(string \<times> bool) list"
  kc_verifyMode :: "(string \<times> verify_mode) list"
  kc_isRefreshing :: bool

definition empty_cache :: key_cache where
  "empty_cache = \<lparr>kc_public = [], kc_private = [], kc_keyRefs = [], kc_access = [], kc_signEnabled = [], kc_verifyMode = [], kc_isRefreshing = False\<rparr>"

definition access_keys :: "participant list \<Rightarrow> text_map" where
  "access_keys ps = fold (\<lambda>p m. if trim (pa_name p) = [] then m else map_set (trim (pa_name p)) (normalizePem (Some (pa_accessPublicKey p))) m) ps []"

definition public_keys :: "participant_key list \<Rightarrow> text_map" where
  "public_keys rows = fold (\<lambda>r m. if trim (pk_fspId r) = [] then m else map_set (trim (pk_fspId r)) (normalizePem (pk_publicKey r)) m) rows []"

definition sign_switches :: "participant_key list \<Rightarrow> (string \<times> bool) list" where
  "sign_switches rows = fold (\<lambda>r m. if trim (pk_fspId r) = [] then m else AList.update (trim (pk_fspId r)) (pk_signEnabled r) m) rows []"

definition verify_modes :: "participant_key list \<Rightarrow> (string \<times> verify_mode) list" where
  "verify_modes rows = fold (\<lambda>r m. if trim (pk_fspId r) = [] then m
     else AList.update (trim (pk_fspId r)) (parse_mode (Some (pk_verifyMode r)) Off) m) rows []"

text \<open>What the registry answers: the rows of both tables, or a failure, after which the maps stay as they are.\<close>

type_synonym registry_read = "(part_error, participant list \<times> participant_key list) result"

definition refresh :: "custody \<Rightarrow> registry_read \<Rightarrow> vault_reads \<Rightarrow> key_cache \<Rightarrow> key_cache" where
  "refresh cu registry reads c =
     (if kc_isRefreshing c then c
      else case registry of
        Inl _ \<Rightarrow> c
      | Inr (participants, rows) \<Rightarrow>
          c\<lparr>kc_public := public_keys rows,
            kc_private := resolve_private reads cu rows (kc_private c),
            kc_keyRefs := resolve_keyRefs reads cu rows (kc_keyRefs c),
            kc_access := access_keys participants,
            kc_signEnabled := sign_switches rows,
            kc_verifyMode := verify_modes rows\<rparr>)"

definition getPrivateKeyPem :: "key_cache \<Rightarrow> string \<Rightarrow> string option" where
  "getPrivateKeyPem c f = map_of (kc_private c) f"

definition getPublicKeyPem :: "key_cache \<Rightarrow> string \<Rightarrow> string option" where
  "getPublicKeyPem c f = map_of (kc_public c) f"

definition getKeyRef :: "key_cache \<Rightarrow> string \<Rightarrow> string option" where
  "getKeyRef c f = map_of (kc_keyRefs c) f"

definition getAccessPublicKeyPem :: "key_cache \<Rightarrow> string \<Rightarrow> string option" where
  "getAccessPublicKeyPem c f = map_of (kc_access c) f"

definition isSignEnabled :: "key_cache \<Rightarrow> string \<Rightarrow> bool" where
  "isSignEnabled c f \<longleftrightarrow> map_of (kc_signEnabled c) f = Some True"

definition getVerifyMode :: "key_cache \<Rightarrow> string \<Rightarrow> verify_mode option" where
  "getVerifyMode c f = map_of (kc_verifyMode c) f"

text \<open>\<open>Number(value)\<close> of the setting is a parameter: an integer, or nothing where it is none.\<close>

definition refreshIntervalMs :: "(string \<Rightarrow> int option) \<Rightarrow> string option \<Rightarrow> int" where
  "refreshIntervalMs number setting =
     (if is_blank setting then 5 * 1000
      else case number (the setting) of Some n \<Rightarrow> if n \<le> 0 then 5 * 1000 else n * 1000 | None \<Rightarrow> 5 * 1000)"

section \<open>The stores\<close>

definition jws_public_key :: "'x deployment \<Rightarrow> key_cache \<Rightarrow> string \<Rightarrow> (part_error, string option) result" where
  "jws_public_key d c f = (case getPublicKeyPem c f of
     None \<Rightarrow> Inr None
   | Some pem \<Rightarrow> if public_key_fromBuffer d pem then Inr (Some pem)
       else Inl (Thrown ''Invalid public key buffer. Expected a valid public key.''))"

definition jws_private_key :: "'x deployment \<Rightarrow> key_cache \<Rightarrow> string \<Rightarrow> (part_error, string option) result" where
  "jws_private_key d c f = (case getPrivateKeyPem c f of
     None \<Rightarrow> Inr None
   | Some pem \<Rightarrow> if pem \<noteq> [] \<and> dp_isPrivateKey d pem then Inr (Some pem)
       else Inl (Thrown ''Invalid private key buffer. Expected a valid private key.''))"

definition access_key :: "'x deployment \<Rightarrow> key_cache \<Rightarrow> string \<Rightarrow> (part_error, string option) result" where
  "access_key d c f = (case getAccessPublicKeyPem c f of
     None \<Rightarrow> Inr None
   | Some pem \<Rightarrow> if public_key_fromBuffer d pem then Inr (Some pem)
       else Inl (Thrown ''Invalid public key buffer. Expected a valid public key.''))"

definition policy_verifyMode :: "verify_mode \<Rightarrow> key_cache \<Rightarrow> string \<Rightarrow> verify_mode" where
  "policy_verifyMode defaultVerifyMode c f = nullish (getVerifyMode c f) defaultVerifyMode"

section \<open>What a refresh leaves in the cache\<close>

text \<open>The loops build the map row by row; where the trimmed names are distinct, a name gets what its row gives.\<close>

lemma map_set_of: "map_of (map_set k v m) f = (if f = k \<and> v \<noteq> None then v else map_of m f)"
  by (cases v) (auto simp: map_set_def update_conv')

lemma fold_map_set:
  assumes "distinct (map name rows)"
  shows "map_of (fold (\<lambda>r m. if P r then map_set (name r) (val r) m else m) rows m0) f =
    (case List.find (\<lambda>r. P r \<and> name r = f \<and> val r \<noteq> None) rows of Some r \<Rightarrow> val r | None \<Rightarrow> map_of m0 f)"
  using assms
proof (induction rows arbitrary: m0)
  case (Cons r rows)
  let ?Q = "\<lambda>r. P r \<and> name r = f \<and> val r \<noteq> None"
  show ?case
  proof (cases "?Q r")
    case True
    have "name s \<noteq> f" if "s \<in> set rows" for s using Cons.prems True that by (auto simp: image_iff)
    then have "List.find ?Q rows = None" by (auto simp: find_None_iff)
    then show ?thesis using Cons True by (simp add: map_set_of)
  next
    case False
    then have "map_of (if P r then map_set (name r) (val r) m0 else m0) f = map_of m0 f" by (auto simp: map_set_of)
    moreover have "List.find ?Q (r # rows) = List.find ?Q rows" unfolding List.find.simps using False by (rule if_not_P)
    moreover have "distinct (map name rows)" using Cons.prems by simp
    ultimately show ?thesis using Cons.IH[of "if P r then map_set (name r) (val r) m0 else m0"] by (simp only: fold_Cons comp_apply)
  qed
qed simp

lemma fold_map_set_row:
  assumes "distinct (map name rows)" "r \<in> set rows" "name r = f"
  shows "map_of (fold (\<lambda>r m. if P r then map_set (name r) (val r) m else m) rows []) f = (if P r then val r else None)"
proof -
  have only: "s = r" if "s \<in> set rows" "name s = f" for s using assms that by (auto simp: distinct_map inj_on_def)
  show ?thesis
  proof (cases "P r \<and> val r \<noteq> None")
    case True
    then have "List.find (\<lambda>s. P s \<and> name s = f \<and> val s \<noteq> None) rows \<noteq> None" using assms(2,3) by (auto simp: find_None_iff)
    then obtain s where s: "List.find (\<lambda>s. P s \<and> name s = f \<and> val s \<noteq> None) rows = Some s" by blast
    then have "s = r" using only[of s] by (auto dest: find_SomeD)
    then show ?thesis using True s fold_map_set[OF assms(1), of P val "[]" f] by simp
  next
    case False
    then have "List.find (\<lambda>s. P s \<and> name s = f \<and> val s \<noteq> None) rows = None" using only by (auto simp: find_None_iff)
    then show ?thesis using False fold_map_set[OF assms(1), of P val "[]" f] by simp
  qed
qed

definition names_ok :: "participant_key list \<Rightarrow> bool" where
  "names_ok rows \<longleftrightarrow> distinct (map (\<lambda>r. trim (pk_fspId r)) rows)"

lemma Vault_resolve_row:
  assumes "names_ok rows" "r \<in> set rows" "isSigningTenant r" "trim (pk_fspId r) = f"
  shows "map_of (Vault_resolve reads prefix rows previous) f = carried normalizePem (reads (prefix @ ''/'' @ f) ''privateKey'') (map_of previous f)"
  unfolding Vault_resolve_def Let_def
  using fold_map_set_row[of "\<lambda>r. trim (pk_fspId r)" rows r f isSigningTenant
      "\<lambda>r. carried normalizePem (reads (prefix @ ''/'' @ trim (pk_fspId r)) ''privateKey'') (map_of previous (trim (pk_fspId r)))"] assms
  by (simp add: names_ok_def)

lemma KeyRef_resolve_row:
  assumes "names_ok rows" "r \<in> set rows" "isSigningTenant r" "trim (pk_fspId r) = f"
  shows "map_of (KeyRef_resolve reads prefix rows previous) f = carried accept_keyRef (reads (prefix @ ''/'' @ f) ''keyRef'') (map_of previous f)"
  unfolding KeyRef_resolve_def Let_def
  using fold_map_set_row[of "\<lambda>r. trim (pk_fspId r)" rows r f isSigningTenant
      "\<lambda>r. carried accept_keyRef (reads (prefix @ ''/'' @ trim (pk_fspId r)) ''keyRef'') (map_of previous (trim (pk_fspId r)))"] assms
  by (simp add: names_ok_def)

lemma silent_rows:
  assumes "\<And>r. r \<in> set rows \<Longrightarrow> \<not> (P r \<and> name r = f)"
  shows "map_of (fold (\<lambda>r m. if P r then map_set (name r) (val r) m else m) rows m0) f = map_of m0 f"
  using assms by (induction rows arbitrary: m0) (auto simp: map_set_of)

text \<open>
  One refresh in which the tenant is still a signing tenant, and Vault, if it answers for it, answers with the key; or
  one that fails to read the registry.
\<close>

definition confirms :: "custody \<Rightarrow> string \<Rightarrow> string \<Rightarrow> registry_read \<times> vault_reads \<Rightarrow> bool" where
  "confirms cu f k u = (case u of (registry, reads) \<Rightarrow> (case registry of
     Inl _ \<Rightarrow> True
   | Inr (_, rows) \<Rightarrow> names_ok rows \<and> (\<exists>r\<in>set rows. isSigningTenant r \<and> trim (pk_fspId r) = f) \<and>
       (case cu of
          VaultCustody prefix \<Rightarrow> (\<forall>v. reads (prefix @ ''/'' @ f) ''privateKey'' = Inr v \<longrightarrow> normalizePem v = Some k)
        | Pkcs11Custody prefix \<Rightarrow> (\<forall>v. reads (prefix @ ''/'' @ f) ''keyRef'' = Inr v \<longrightarrow> accept_keyRef v = Some k)
        | _ \<Rightarrow> False)))"

definition held_key :: "custody \<Rightarrow> key_cache \<Rightarrow> string \<Rightarrow> string option" where
  "held_key cu c f = (case cu of Pkcs11Custody _ \<Rightarrow> getKeyRef c f | _ \<Rightarrow> getPrivateKeyPem c f)"

definition refreshes :: "custody \<Rightarrow> (registry_read \<times> vault_reads) list \<Rightarrow> key_cache \<Rightarrow> key_cache" where
  "refreshes cu us c = fold (\<lambda>(registry, reads). refresh cu registry reads) us c"

lemma carried_keeps: "(\<forall>v. answer = Inr v \<longrightarrow> accept v = Some k) \<Longrightarrow> carried accept answer (Some k) = Some k"
  by (cases answer) (simp_all add: carried_def)

lemma refresh_keeps:
  assumes "held_key cu c f = Some k" "confirms cu f k (registry, reads)"
  shows "held_key cu (refresh cu registry reads c) f = Some k"
proof (cases "kc_isRefreshing c \<or> isl registry")
  case True
  then have "refresh cu registry reads c = c" by (auto simp: refresh_def split: sum.split)
  then show ?thesis using assms(1) by simp
next
  case False
  then obtain ps rows where reg: "registry = Inr (ps, rows)" by (cases registry) auto
  obtain r where r: "names_ok rows" "r \<in> set rows" "isSigningTenant r" "trim (pk_fspId r) = f" using assms(2) by (auto simp: confirms_def reg)
  show ?thesis
  proof (cases cu)
    case (VaultCustody prefix)
    then have "\<forall>v. reads (prefix @ ''/'' @ f) ''privateKey'' = Inr v \<longrightarrow> normalizePem v = Some k" using assms(2) by (simp add: confirms_def reg)
    then show ?thesis using assms(1) False carried_keeps
      by (simp add: VaultCustody held_key_def getPrivateKeyPem_def refresh_def reg resolve_private_def Vault_resolve_row[OF r])
  next
    case (Pkcs11Custody prefix)
    then have "\<forall>v. reads (prefix @ ''/'' @ f) ''keyRef'' = Inr v \<longrightarrow> accept_keyRef v = Some k" using assms(2) by (simp add: confirms_def reg)
    then show ?thesis using assms(1) False carried_keeps
      by (simp add: Pkcs11Custody held_key_def getKeyRef_def refresh_def reg resolve_keyRefs_def KeyRef_resolve_row[OF r])
  qed (use assms(2) in \<open>simp_all add: confirms_def reg\<close>)
qed

text \<open>
  C23: an outage of Vault or of the registry does not stop a tenant signing.  Once the cache holds a tenant's key (under
  the HSM profile: its reference), it still holds exactly that key after any sequence of refreshes of which each fails to
  read the registry, or finds the tenant still signing and Vault either failing for it or answering with the same key.
\<close>

theorem signing_survives_outage:
  assumes "held_key cu c f = Some k" "\<forall>u\<in>set us. confirms cu f k u"
  shows "held_key cu (refreshes cu us c) f = Some k"
  using assms
proof (induction us arbitrary: c)
  case (Cons u us)
  obtain registry reads where u: "u = (registry, reads)" by fastforce
  have "held_key cu (refresh cu registry reads c) f = Some k" using refresh_keeps[OF Cons.prems(1)] Cons.prems(2) by (simp add: u)
  then show ?case using Cons.IH Cons.prems(2) by (simp add: refreshes_def u)
qed (simp add: refreshes_def)

definition outage :: vault_reads where
  "outage path what = Inl (Thrown ''ECONNREFUSED'')"

theorem signing_survives_outage_witness:
  "held_key (VaultCustody ''p'') (refreshes (VaultCustody ''p'') [(Inr ([], [demo_row Self ''K'' True (Some 1)]), outage), (Inl (Thrown []), outage)]
     (empty_cache\<lparr>kc_private := [(''a'', ''PRIV'')]\<rparr>)) ''a'' = Some ''PRIV''"
proof (rule signing_survives_outage)
  show "held_key (VaultCustody ''p'') (empty_cache\<lparr>kc_private := [(''a'', ''PRIV'')]\<rparr>) ''a'' = Some ''PRIV''"
    by (simp add: held_key_def getPrivateKeyPem_def)
  have "trim ''a'' = ''a''" by code_simp
  then show "\<forall>u\<in>set [(Inr ([], [demo_row Self ''K'' True (Some 1)]), outage), (Inl (Thrown []), outage)]. confirms (VaultCustody ''p'') ''a'' ''PRIV'' u"
    by (simp add: confirms_def names_ok_def isSigningTenant_def demo_row_def outage_def)
qed

section \<open>The switch decides who signs\<close>

text \<open>A tenant that is suspended, or is no tenant, has neither a private key nor a reference after the next refresh.\<close>

lemma suspended_loses_key:
  assumes "names_ok rows" "r \<in> set rows" "trim (pk_fspId r) = f" "\<not> isSigningTenant r" "\<not> kc_isRefreshing c"
  shows "getPrivateKeyPem (refresh cu (Inr (ps, rows)) reads c) f = None"
    "cu = Pkcs11Custody prefix \<Longrightarrow> getKeyRef (refresh cu (Inr (ps, rows)) reads c) f = None"
proof -
  have none: "\<not> (isSigningTenant s \<and> trim (pk_fspId s) = f)" if "s \<in> set rows" for s
    using assms that by (auto simp: names_ok_def distinct_map inj_on_def)
  have silent: "map_of (fold (\<lambda>r m. if isSigningTenant r then map_set (trim (pk_fspId r)) (val r) m else m) rows []) f = None" for val :: "participant_key \<Rightarrow> string option"
    using none by (subst silent_rows[where name = "\<lambda>r. trim (pk_fspId r)"]) auto
  show "getPrivateKeyPem (refresh cu (Inr (ps, rows)) reads c) f = None"
    using assms(5) silent unfolding getPrivateKeyPem_def refresh_def resolve_private_def Database_resolve_def Vault_resolve_def Let_def
    by (cases cu) simp_all
  show "getKeyRef (refresh cu (Inr (ps, rows)) reads c) f = None" if "cu = Pkcs11Custody prefix"
    using assms(5) silent unfolding that getKeyRef_def refresh_def resolve_keyRefs_def KeyRef_resolve_def Let_def by simp
qed

text \<open>
  The provisioner writes below the name as it was given, the source reads below the trimmed name: a tenant onboarded as
  \<open>''a ''\<close> has its key where nothing looks for it.
\<close>

lemma untrimmed_name_hides_key:
  assumes "dp_custody d = VaultCustody prefix" "dp_generate d x = (Inr (pub, priv), x1)"
  shows "provision d f x = (case dp_writeKv d (prefix @ ''/'' @ f) ''privateKey'' priv x1 of (Inl e, x2) \<Rightarrow> (Inl e, x2) | (Inr u, x2) \<Rightarrow> (Inr (Some (pub, None)), x2))"
    "trim f \<noteq> f \<Longrightarrow> prefix @ ''/'' @ f \<noteq> prefix @ ''/'' @ trim f"
  using assms by (simp_all add: provision_def io_bind_def split: prod.split sum.split)

end
