(* ===== verification/Hub_Secrets.thy ===== *)
theory Hub_Secrets
  imports Signing_Tenants
begin

text \<open>
  What the trust manager keeps in Kubernetes: the writer of secrets (\<open>kubernetes-secret-writer.ts\<close>), the jobs that deliver
  the authority of the Hub and the one of the DFSPs (\<open>hub-ca-sync.scheduler.ts\<close>, \<open>dfsp-ca-publish.scheduler.ts\<close>), and the
  enrollment of the certificate that the Hub sees (\<open>hub-server-cert.enroller.ts\<close>).  The API server, the Connection Manager
  (MCM), Vault and the readers of certificates are parameters.
\<close>

section \<open>Secrets\<close>

text \<open>An answer of the API server to reading a Secret; the client takes a 404 for an answer.\<close>

record secret_answer =
  sa_status :: nat
  sa_data :: "(string \<times> string) list option"

text \<open>
  The cluster: files of the service account, the requests (each with token and authority of the client) and base64.
\<close>

record 'x cluster =
  cl_serviceAccountDir :: string
  cl_file :: "string \<Rightarrow> ('x, part_error, string) task"
  cl_get :: "string \<times> string \<Rightarrow> string \<Rightarrow> ('x, part_error, secret_answer) task"
  cl_patch :: "string \<times> string \<Rightarrow> string \<Rightarrow> (string \<times> string) list \<Rightarrow> ('x, part_error, unit) task"
  cl_post :: "string \<times> string \<Rightarrow> string \<Rightarrow> string \<Rightarrow> (string \<times> string) list \<Rightarrow> ('x, part_error, unit) task"
  cl_encode :: "string \<Rightarrow> string"
  cl_decode :: "string \<Rightarrow> string"

text \<open>The process: the client it has connected, the namespace it has read, and everything outside.\<close>

record 'x pod =
  pd_client :: "(string \<times> string) option"
  pd_namespace :: "string option"
  pd_outside :: 'x

type_synonym ('x, 'a) pod_task = "('x pod, part_error, 'a) task"

definition pod_outside :: "('x, part_error, 'a) task \<Rightarrow> ('x, 'a) pod_task" where
  "pod_outside m = io_on pd_outside (\<lambda>x w. w\<lparr>pd_outside := x\<rparr>) m"

definition readServiceAccountFile :: "'x cluster \<Rightarrow> string \<Rightarrow> ('x, string) pod_task" where
  "readServiceAccountFile c file = pod_outside (cl_file c (cl_serviceAccountDir c @ ''/'' @ file))"

definition readNamespace :: "'x cluster \<Rightarrow> ('x, string) pod_task" where
  "readNamespace c w = (case pd_namespace w of
     Some n \<Rightarrow> (Inr n, w)
   | None \<Rightarrow> io_bind (readServiceAccountFile c ''namespace'') (\<lambda>t w'. (Inr (trim t), w'\<lparr>pd_namespace := Some (trim t)\<rparr>)) w)"

definition resolveNamespace :: "'x cluster \<Rightarrow> string option \<Rightarrow> ('x, string) pod_task" where
  "resolveNamespace c override = (if is_blank override then readNamespace c else io_return (trim (the override)))"

definition connect :: "'x cluster \<Rightarrow> ('x, string \<times> string) pod_task" where
  "connect c w = (case pd_client w of
     Some client \<Rightarrow> (Inr client, w)
   | None \<Rightarrow>
       io_bind (readServiceAccountFile c ''token'') (\<lambda>token.
       io_bind (readServiceAccountFile c ''ca.crt'') (\<lambda>ca w'. (Inr (token, ca), w'\<lparr>pd_client := Some (token, ca)\<rparr>))) w)"

definition secrets_path :: "string \<Rightarrow> string" where
  "secrets_path ns = ''/api/v1/namespaces/'' @ ns @ ''/secrets''"

definition secret_path :: "string \<Rightarrow> string \<Rightarrow> string" where
  "secret_path ns name = secrets_path ns @ ''/'' @ name"

definition encoded :: "'x cluster \<Rightarrow> (string \<times> string) list \<Rightarrow> (string \<times> string) list" where
  "encoded c kvs = map (\<lambda>(k, v). (k, cl_encode c v)) kvs"

definition putIfChanged :: "'x cluster \<Rightarrow> string \<Rightarrow> (string \<times> string) list \<Rightarrow> string option \<Rightarrow> ('x, bool) pod_task" where
  "putIfChanged c name kvs targetNamespace =
     io_bind (connect c) (\<lambda>client.
     io_bind (resolveNamespace c targetNamespace) (\<lambda>ns.
     io_bind (pod_outside (cl_get c client (secret_path ns name))) (\<lambda>existing.
     if sa_status existing = 200
     then if \<forall>(k, v)\<in>set (encoded c kvs). map_of (nullish (sa_data existing) []) k = Some v then io_return False
          else io_bind (pod_outside (cl_patch c client (secret_path ns name) (encoded c kvs))) (\<lambda>_. io_return True)
     else io_bind (pod_outside (cl_post c client (secrets_path ns) name (encoded c kvs))) (\<lambda>_. io_return True))))"

definition read_secret :: "'x cluster \<Rightarrow> string \<Rightarrow> string \<Rightarrow> string option \<Rightarrow> ('x, string option) pod_task" where
  "read_secret c name key targetNamespace =
     io_bind (connect c) (\<lambda>client.
     io_bind (resolveNamespace c targetNamespace) (\<lambda>ns.
     io_bind (pod_outside (cl_get c client (secret_path ns name))) (\<lambda>response.
     io_return (if sa_status response = 404 then None
       else map_option (cl_decode c) (map_of (nullish (sa_data response) []) key)))))"

section \<open>Jobs\<close>

text \<open>
  A tick of a job: it runs under its lock, its failure is logged, and the lock is released.  The lock answers with a token
  or with nothing; neither of its operations fails.
\<close>

definition job_tick :: "('w, part_error, string option) task \<Rightarrow> (string \<Rightarrow> ('w, part_error, unit) task) \<Rightarrow> ('w, part_error, 'a) task \<Rightarrow> ('w, part_error, unit) task" where
  "job_tick acquire release job = io_bind acquire (\<lambda>token. case token of
     None \<Rightarrow> io_return ()
   | Some t \<Rightarrow> io_finally (io_catch (io_bind job (\<lambda>_. io_return ())) (\<lambda>_. io_return ())) (release t))"

fun has_part :: "string \<Rightarrow> string \<Rightarrow> bool" where
  "has_part [] t = (t = [])"
| "has_part (c # s) t = (take (length t) (c # s) = t \<or> has_part s t)"

section \<open>The authority of the Hub\<close>

definition HUB_CA_BUNDLE_KEY :: string where "HUB_CA_BUNDLE_KEY = ''hub-ca.pem''"

definition hub_bundle :: "string \<Rightarrow> string" where
  "hub_bundle pem = (if pem \<noteq> [] \<and> last pem = CHR 0x0A then pem else pem @ [CHR 0x0A])"

text \<open>\<open>getHubCa\<close> is the root certificate that MCM names.\<close>

definition hub_ca_sync :: "'x cluster \<Rightarrow> ('x, part_error, string option) task \<Rightarrow> string \<Rightarrow> ('x, bool) pod_task" where
  "hub_ca_sync c getHubCa secretName =
     io_bind (pod_outside getHubCa) (\<lambda>root.
     if \<not> has_part (nullish root []) ''BEGIN CERTIFICATE''
     then io_throw (Thrown ''MCM returned no usable Hub CA certificate.'')
     else putIfChanged c secretName [(HUB_CA_BUNDLE_KEY, hub_bundle (the root))] None)"

section \<open>The authority of the DFSPs\<close>

definition DFSP_CA_BUNDLE_KEY :: string where "DFSP_CA_BUNDLE_KEY = ''cacert''"

record gateway_settings =
  gw_issuingMount :: string
  gw_rootMount :: string
  gw_namespace :: string
  gw_secretName :: string

definition gateway_configured :: "gateway_settings \<Rightarrow> bool" where
  "gateway_configured s \<longleftrightarrow> gw_issuingMount s \<noteq> [] \<and> gw_namespace s \<noteq> [] \<and> gw_secretName s \<noteq> []"

text \<open>\<open>readPkiCaChain\<close> of Vault answers with the certificates of a mount, or with nothing.\<close>

definition readBundle :: "(string \<Rightarrow> ('x, part_error, string option) task) \<Rightarrow> gateway_settings \<Rightarrow> ('x, part_error, string option) task" where
  "readBundle readPkiCaChain s =
     io_bind (readPkiCaChain (gw_issuingMount s)) (\<lambda>intermediate. case intermediate of
       None \<Rightarrow> io_return None
     | Some i \<Rightarrow>
         if gw_rootMount s = [] then io_return (Some (i @ [CHR 0x0A]))
         else io_bind (readPkiCaChain (gw_rootMount s)) (\<lambda>root. io_return (Some (case root of
                None \<Rightarrow> i @ [CHR 0x0A]
              | Some r \<Rightarrow> i @ [CHR 0x0A] @ r @ [CHR 0x0A]))))"

definition dfsp_ca_sync :: "'x cluster \<Rightarrow> (string \<Rightarrow> ('x, part_error, string option) task) \<Rightarrow> gateway_settings \<Rightarrow> ('x, bool) pod_task" where
  "dfsp_ca_sync c readPkiCaChain s =
     io_bind (pod_outside (readBundle readPkiCaChain s)) (\<lambda>bundle. case bundle of
       None \<Rightarrow> io_return False
     | Some b \<Rightarrow> putIfChanged c (gw_secretName s) [(DFSP_CA_BUNDLE_KEY, b)] (Some (gw_namespace s)))"

section \<open>The certificate that the Hub sees\<close>

definition CERT_KEY :: string where "CERT_KEY = ''tls.crt''"
definition PRIVATE_KEY :: string where "PRIVATE_KEY = ''tls.key''"

record inbound_enrollment =
  ie_id :: nat
  ie_state :: string
  ie_certificate :: "string option"

text \<open>
  The enrollment at MCM, the generator of keys (a private key and a request for a name, both as PEM), the expiry of a
  certificate in milliseconds where it can be read, and the clock.
\<close>

record 'x enroller =
  er_dfspId :: string
  er_commonName :: string
  er_secretName :: string
  er_renewBeforeDays :: int
  er_generateCsr :: "string \<Rightarrow> ('x, part_error, string \<times> string) task"
  er_create :: "string \<Rightarrow> string \<Rightarrow> ('x, part_error, inbound_enrollment) task"
  er_sign :: "string \<Rightarrow> nat \<Rightarrow> ('x, part_error, inbound_enrollment) task"
  er_notAfter :: "string \<Rightarrow> int option"
  er_clock :: "'x \<Rightarrow> int"

definition daysUntilExpiry :: "(string \<Rightarrow> int option) \<Rightarrow> int \<Rightarrow> string option \<Rightarrow> int option" where
  "daysUntilExpiry notAfter clock pem =
     (if \<not> has_part (nullish pem []) ''BEGIN CERTIFICATE'' then None
      else map_option (\<lambda>t. (t - clock) div 86400000) (notAfter (the pem)))"

definition not_signed :: "'x enroller \<Rightarrow> inbound_enrollment \<Rightarrow> inbound_enrollment \<Rightarrow> part_error" where
  "not_signed e submitted signed = Thrown (''MCM did not sign enrollment '' @ dec_of_nat (ie_id submitted) @ '' for ''
     @ quoted (er_dfspId e) @ '' (state '' @ ie_state signed @ '').'')"

definition enrol :: "'x cluster \<Rightarrow> 'x enroller \<Rightarrow> ('x, unit) pod_task" where
  "enrol c e =
     io_bind (pod_outside (er_generateCsr e (er_commonName e))) (\<lambda>(privateKey, csr).
     io_bind (pod_outside (er_create e (er_dfspId e) csr)) (\<lambda>submitted.
     io_bind (pod_outside (er_sign e (er_dfspId e) (ie_id submitted))) (\<lambda>signed.
     case ie_certificate signed of
       None \<Rightarrow> io_throw (not_signed e submitted signed)
     | Some certificate \<Rightarrow>
         if ie_state signed \<noteq> ''CERT_SIGNED'' then io_throw (not_signed e submitted signed)
         else io_bind (putIfChanged c (er_secretName e) [(CERT_KEY, certificate), (PRIVATE_KEY, privateKey)] None) (\<lambda>_. io_return ()))))"

definition enrolIfNeeded :: "'x cluster \<Rightarrow> 'x enroller \<Rightarrow> ('x, bool) pod_task" where
  "enrolIfNeeded c e =
     io_bind (read_secret c (er_secretName e) CERT_KEY None) (\<lambda>existing.
     io_bind (io_gets (\<lambda>w. er_clock e (pd_outside w))) (\<lambda>clock.
     case daysUntilExpiry (er_notAfter e) clock existing of
       Some daysLeft \<Rightarrow> if daysLeft > er_renewBeforeDays e then io_return False
                        else io_bind (enrol c e) (\<lambda>_. io_return True)
     | None \<Rightarrow> io_bind (enrol c e) (\<lambda>_. io_return True)))"

section \<open>What a secret holds\<close>

text \<open>
  \<open>view x p\<close> is the data of the Secret at path \<open>p\<close>.  A patch merges and a post creates; either is applied whole or not at
  all, and one that failed may have been applied.
\<close>

definition merged :: "(string \<Rightarrow> (string \<rightharpoonup> string) option) \<Rightarrow> string \<Rightarrow> (string \<times> string) list \<Rightarrow> string \<Rightarrow> (string \<rightharpoonup> string) option" where
  "merged v p kvs = v(p := Some (nullish (v p) Map.empty ++ map_of kvs))"

definition secret_store :: "'x cluster \<Rightarrow> ('x \<Rightarrow> string \<Rightarrow> (string \<rightharpoonup> string) option) \<Rightarrow> bool" where
  "secret_store c view \<longleftrightarrow>
     (\<forall>f x r x'. cl_file c f x = (r, x') \<longrightarrow> view x' = view x) \<and>
     (\<forall>cred p x r x'. cl_get c cred p x = (r, x') \<longrightarrow> view x' = view x \<and>
        (\<forall>a. r = Inr a \<longrightarrow> (case view x p of None \<Rightarrow> sa_status a = 404
            | Some m \<Rightarrow> sa_status a = 200 \<and> map_of (nullish (sa_data a) []) = m))) \<and>
     (\<forall>cred p kvs x r x'. cl_patch c cred p kvs x = (r, x') \<longrightarrow>
        view x' = merged (view x) p kvs \<or> (\<exists>er. r = Inl er) \<and> view x' = view x) \<and>
     (\<forall>cred ns name kvs x r x'. cl_post c cred (secrets_path ns) name kvs x = (r, x') \<longrightarrow>
        view x' = merged (view x) (secret_path ns name) kvs \<or> (\<exists>er. r = Inl er) \<and> view x' = view x)"

lemma pod_outside_eq: "pod_outside m w = (r, w') \<longleftrightarrow> (\<exists>x. m (pd_outside w) = (r, x) \<and> w' = w\<lparr>pd_outside := x\<rparr>)"
  by (simp add: pod_outside_def io_on_eq)

text \<open>Steps that leave the Secrets alone.\<close>

definition keeps_view :: "('x \<Rightarrow> 'v) \<Rightarrow> ('x, 'a) pod_task \<Rightarrow> bool" where
  "keeps_view view m \<longleftrightarrow> (\<forall>w r w'. m w = (r, w') \<longrightarrow> view (pd_outside w') = view (pd_outside w))"

lemma keeps_view_outside: "(\<And>x r x'. m x = (r, x') \<Longrightarrow> view x' = view x) \<Longrightarrow> keeps_view view (pod_outside m)"
  by (auto simp: keeps_view_def pod_outside_eq)

lemma keeps_view_bind:
  assumes "keeps_view view m" "\<And>a. keeps_view view (f a)"
  shows "keeps_view view (io_bind m f)"
  unfolding keeps_view_def
proof (intro allI impI)
  fix w r w'
  assume "io_bind m f w = (r, w')"
  then show "view (pd_outside w') = view (pd_outside w)"
    by (rule io_bind_cases) (use assms in \<open>fastforce simp: keeps_view_def\<close>)+
qed

lemma keeps_view_pure [simp]: "keeps_view view (io_return a)" "keeps_view view (io_throw e)" "keeps_view view (io_gets g)"
  by (simp_all add: keeps_view_def)

lemma readFile_view: "secret_store c view \<Longrightarrow> keeps_view view (readServiceAccountFile c f)"
  unfolding readServiceAccountFile_def by (rule keeps_view_outside) (simp add: secret_store_def)

lemma remembering_view:
  assumes "keeps_view view m" "\<And>a w. pd_outside (g a w) = pd_outside w"
  shows "keeps_view view (io_bind m (\<lambda>a w. (Inr (h a), g a w)))"
  using assms(1) by (rule keeps_view_bind) (simp add: keeps_view_def assms(2))

lemma connect_view:
  assumes "secret_store c view"
  shows "keeps_view view (connect c)"
proof -
  have "keeps_view view (io_bind (readServiceAccountFile c ''token'') (\<lambda>token.
       io_bind (readServiceAccountFile c ''ca.crt'') (\<lambda>ca w'. (Inr (token, ca), w'\<lparr>pd_client := Some (token, ca)\<rparr>))))"
    by (intro keeps_view_bind remembering_view readFile_view assms) simp
  then show ?thesis by (auto simp: keeps_view_def connect_def split: option.splits)
qed

lemma namespace_view:
  assumes "secret_store c view"
  shows "keeps_view view (resolveNamespace c override)"
proof -
  have "keeps_view view (io_bind (readServiceAccountFile c ''namespace'') (\<lambda>t w'. (Inr (trim t), w'\<lparr>pd_namespace := Some (trim t)\<rparr>)))"
    by (intro remembering_view readFile_view assms) simp
  then have "keeps_view view (readNamespace c)" by (auto simp: keeps_view_def readNamespace_def split: option.splits)
  then show ?thesis by (simp add: resolveNamespace_def)
qed

lemma get_view:
  assumes store: "secret_store c view" and run: "pod_outside (cl_get c client p) w = (r, w')"
  shows "view (pd_outside w') = view (pd_outside w)"
    "r = Inr a \<Longrightarrow> case view (pd_outside w) p of None \<Rightarrow> sa_status a = 404
       | Some m \<Rightarrow> sa_status a = 200 \<and> map_of (nullish (sa_data a) []) = m"
proof -
  obtain x where x: "cl_get c client p (pd_outside w) = (r, x)" "w' = w\<lparr>pd_outside := x\<rparr>" using run by (auto simp: pod_outside_eq)
  have "view x = view (pd_outside w) \<and> (\<forall>a. r = Inr a \<longrightarrow> (case view (pd_outside w) p of None \<Rightarrow> sa_status a = 404
       | Some m \<Rightarrow> sa_status a = 200 \<and> map_of (nullish (sa_data a) []) = m))"
    using store x(1) unfolding secret_store_def by blast
  then show "view (pd_outside w') = view (pd_outside w)"
    "r = Inr a \<Longrightarrow> case view (pd_outside w) p of None \<Rightarrow> sa_status a = 404
       | Some m \<Rightarrow> sa_status a = 200 \<and> map_of (nullish (sa_data a) []) = m"
    using x(2) by simp_all
qed

lemma get_keeps: "secret_store c view \<Longrightarrow> keeps_view view (pod_outside (cl_get c client p))"
  unfolding keeps_view_def using get_view(1) by blast

lemma read_view: "secret_store c view \<Longrightarrow> keeps_view view (read_secret c name key ns)"
  unfolding read_secret_def
  by (intro keeps_view_bind connect_view namespace_view get_keeps keeps_view_pure)

text \<open>A write of some entries of one Secret: nothing happens, or they are all there and the other entries stay.\<close>

lemma putIfChanged_effect:
  assumes store: "secret_store c view" and run: "putIfChanged c name kvs target w = (r, w')"
  shows "view (pd_outside w') = view (pd_outside w) \<and> (\<exists>e. r = Inl e) \<or>
     (\<exists>ns. view (pd_outside w') = merged (view (pd_outside w)) (secret_path ns name) (encoded c kvs) \<and>
        (r = Inr False \<longrightarrow> view (pd_outside w') = view (pd_outside w)))"
  using run unfolding putIfChanged_def
proof (rule io_bind_cases)
  fix e assume "connect c w = (Inl e, w')" "r = Inl e"
  then show ?thesis using connect_view[OF store] by (auto simp: keeps_view_def)
next
  fix client w1
  assume 1: "connect c w = (Inr client, w1)" "io_bind (resolveNamespace c target) (\<lambda>ns.
     io_bind (pod_outside (cl_get c client (secret_path ns name))) (\<lambda>existing.
     if sa_status existing = 200
     then if \<forall>(k, v)\<in>set (encoded c kvs). map_of (nullish (sa_data existing) []) k = Some v then io_return False
          else io_bind (pod_outside (cl_patch c client (secret_path ns name) (encoded c kvs))) (\<lambda>_. io_return True)
     else io_bind (pod_outside (cl_post c client (secrets_path ns) name (encoded c kvs))) (\<lambda>_. io_return True))) w1 = (r, w')"
  have v1: "view (pd_outside w1) = view (pd_outside w)" using 1(1) connect_view[OF store] by (auto simp: keeps_view_def)
  from 1(2) show ?thesis
  proof (rule io_bind_cases)
    fix e assume "resolveNamespace c target w1 = (Inl e, w')" "r = Inl e"
    then show ?thesis using namespace_view[OF store] v1 by (auto simp: keeps_view_def)
  next
    fix ns w2
    assume 2: "resolveNamespace c target w1 = (Inr ns, w2)" "io_bind (pod_outside (cl_get c client (secret_path ns name))) (\<lambda>existing.
     if sa_status existing = 200
     then if \<forall>(k, v)\<in>set (encoded c kvs). map_of (nullish (sa_data existing) []) k = Some v then io_return False
          else io_bind (pod_outside (cl_patch c client (secret_path ns name) (encoded c kvs))) (\<lambda>_. io_return True)
     else io_bind (pod_outside (cl_post c client (secrets_path ns) name (encoded c kvs))) (\<lambda>_. io_return True)) w2 = (r, w')"
    have v2: "view (pd_outside w2) = view (pd_outside w)" using 2(1) namespace_view[OF store] v1 by (auto simp: keeps_view_def)
    let ?p = "secret_path ns name" and ?kvs = "encoded c kvs"
    from 2(2) show ?thesis
    proof (rule io_bind_cases)
      fix e assume "pod_outside (cl_get c client ?p) w2 = (Inl e, w')" "r = Inl e"
      then show ?thesis using get_view(1)[OF store] v2 by auto
    next
      fix a w3
      assume 3: "pod_outside (cl_get c client ?p) w2 = (Inr a, w3)" "(if sa_status a = 200
        then if \<forall>(k, v)\<in>set ?kvs. map_of (nullish (sa_data a) []) k = Some v then io_return False
          else io_bind (pod_outside (cl_patch c client ?p ?kvs)) (\<lambda>_. io_return True)
        else io_bind (pod_outside (cl_post c client (secrets_path ns) name ?kvs)) (\<lambda>_. io_return True)) w3 = (r, w')"
      have v3: "view (pd_outside w3) = view (pd_outside w)" using get_view(1)[OF store 3(1)] v2 by simp
      have ans: "case view (pd_outside w) ?p of None \<Rightarrow> sa_status a = 404
          | Some m \<Rightarrow> sa_status a = 200 \<and> map_of (nullish (sa_data a) []) = m"
        using get_view(2)[OF store 3(1) refl] v2 by simp
      show ?thesis
      proof (cases "sa_status a = 200 \<and> (\<forall>(k, v)\<in>set ?kvs. map_of (nullish (sa_data a) []) k = Some v)")
        case True
        then obtain m where m: "view (pd_outside w) ?p = Some m" "map_of (nullish (sa_data a) []) = m"
          using ans by (auto split: option.splits)
        have "m k = Some v" if "map_of ?kvs k = Some v" for k v
          using True m(2) map_of_SomeD[OF that] by fastforce
        then have "m ++ map_of ?kvs = m" by (auto simp: map_add_def split: option.split)
        then have "merged (view (pd_outside w)) ?p ?kvs = view (pd_outside w)" using m(1) by (auto simp: merged_def nullish_def)
        then show ?thesis using 3(2) True v3 by (intro disjI2 exI[of _ ns]) auto
      next
        case False
        define put where "put = (if sa_status a = 200 then cl_patch c client ?p ?kvs else cl_post c client (secrets_path ns) name ?kvs)"
        have "io_bind (pod_outside put) (\<lambda>_. io_return True) w3 = (r, w')"
          using 3(2) False by (auto simp: put_def split: if_splits)
        then obtain q x where q: "put (pd_outside w3) = (q, x)" "w' = w3\<lparr>pd_outside := x\<rparr>" "r = map_sum id (\<lambda>_. True) q"
          by (auto simp: io_bind_def pod_outside_eq split: prod.splits sum.splits)
        have "view x = merged (view (pd_outside w3)) ?p ?kvs \<or> (\<exists>er. q = Inl er) \<and> view x = view (pd_outside w3)"
        proof (cases "sa_status a = 200")
          case True
          then show ?thesis using q(1) store unfolding put_def secret_store_def if_P[OF True] by blast
        next
          case False
          then show ?thesis using q(1) store unfolding put_def secret_store_def if_not_P[OF False] by blast
        qed
        then show ?thesis using q(2,3) v3 by (cases q) auto
      qed
    qed
  qed
qed

text \<open>A job that only writes one Secret, in whatever namespace, leaves every other path alone.\<close>

lemma hub_ca_delivered:
  assumes store: "secret_store c view" and getHubCa: "\<And>x r x'. getHubCa x = (r, x') \<Longrightarrow> view x' = view x"
    and run: "hub_ca_sync c getHubCa name w = (Inr b, w')"
  obtains root x ns where "getHubCa (pd_outside w) = (Inr (Some root), x)" "has_part root ''BEGIN CERTIFICATE''"
    "view (pd_outside w') = merged (view (pd_outside w)) (secret_path ns name) [(HUB_CA_BUNDLE_KEY, cl_encode c (hub_bundle root))]"
    "\<not> b \<Longrightarrow> view (pd_outside w') = view (pd_outside w)"
proof -
  obtain a x where hub: "getHubCa (pd_outside w) = (Inr a, x)"
    "(if \<not> has_part (nullish a []) ''BEGIN CERTIFICATE'' then io_throw (Thrown ''MCM returned no usable Hub CA certificate.'')
      else putIfChanged c name [(HUB_CA_BUNDLE_KEY, hub_bundle (the a))] None) (w\<lparr>pd_outside := x\<rparr>) = (Inr b, w')"
    using run by (auto simp: hub_ca_sync_def io_bind_Inr_iff pod_outside_eq)
  obtain root where root: "a = Some root" "has_part root ''BEGIN CERTIFICATE''" using hub(2) by (cases a) (auto split: if_splits)
  have "putIfChanged c name [(HUB_CA_BUNDLE_KEY, hub_bundle root)] None (w\<lparr>pd_outside := x\<rparr>) = (Inr b, w')" using hub(2) root by simp
  from putIfChanged_effect[OF store this] obtain ns where
    "view (pd_outside w') = merged (view x) (secret_path ns name) (encoded c [(HUB_CA_BUNDLE_KEY, hub_bundle root)])"
    "\<not> b \<longrightarrow> view (pd_outside w') = view x" by auto
  then show ?thesis using that hub(1) root getHubCa[OF hub(1)] by (auto simp: encoded_def)
qed

section \<open>The certificate and its key\<close>

text \<open>\<open>fits\<close>: a certificate is for a private key.  The Secret holds neither of them, or a pair that fits.\<close>

definition pair_ok :: "'x cluster \<Rightarrow> (string \<Rightarrow> string \<Rightarrow> bool) \<Rightarrow> string \<Rightarrow> (string \<Rightarrow> (string \<rightharpoonup> string) option) \<Rightarrow> bool" where
  "pair_ok c fits name v \<longleftrightarrow> (\<forall>ns m. v (secret_path ns name) = Some m \<longrightarrow>
     m CERT_KEY = None \<and> m PRIVATE_KEY = None \<or>
     (\<exists>cert key. m CERT_KEY = Some (cl_encode c cert) \<and> m PRIVATE_KEY = Some (cl_encode c key) \<and> fits cert key))"

text \<open>What MCM promises: the certificate of an enrollment is for the key of the request that was submitted with it.\<close>

definition enrollment_laws :: "'x enroller \<Rightarrow> ('x \<Rightarrow> 'v) \<Rightarrow> (string \<Rightarrow> string \<Rightarrow> bool) \<Rightarrow> bool" where
  "enrollment_laws e view fits \<longleftrightarrow>
     (\<forall>n x r x'. er_generateCsr e n x = (r, x') \<longrightarrow> view x' = view x) \<and>
     (\<forall>f csr x r x'. er_create e f csr x = (r, x') \<longrightarrow> view x' = view x) \<and>
     (\<forall>f i x r x'. er_sign e f i x = (r, x') \<longrightarrow> view x' = view x) \<and>
     (\<forall>n f x key csr x1 s x2 t x3 cert. er_generateCsr e n x = (Inr (key, csr), x1) \<longrightarrow> er_create e f csr x1 = (Inr s, x2) \<longrightarrow>
        er_sign e f (ie_id s) x2 = (Inr t, x3) \<longrightarrow> ie_certificate t = Some cert \<longrightarrow> fits cert key)"

lemma pair_ok_merged:
  assumes "pair_ok c fits name v" "fits cert key"
  shows "pair_ok c fits name (merged v p (encoded c [(CERT_KEY, cert), (PRIVATE_KEY, key)]))"
proof -
  have "CERT_KEY \<noteq> PRIVATE_KEY" by (simp add: CERT_KEY_def PRIVATE_KEY_def)
  then show ?thesis using assms by (auto simp: pair_ok_def merged_def encoded_def)
qed

lemma enrol_effect:
  assumes store: "secret_store c view" and laws: "enrollment_laws e view fits" and run: "enrol c e w = (r, w')"
    and ok: "pair_ok c fits (er_secretName e) (view (pd_outside w))"
  shows "pair_ok c fits (er_secretName e) (view (pd_outside w'))"
    "r = Inr () \<Longrightarrow> \<exists>ns m cert. view (pd_outside w') (secret_path ns (er_secretName e)) = Some m \<and> m CERT_KEY = Some (cl_encode c cert)"
proof -
  let ?G = "pod_outside (er_generateCsr e (er_commonName e))"
  let ?ok = "\<lambda>w'. pair_ok c fits (er_secretName e) (view (pd_outside w')) \<and> (r = Inr () \<longrightarrow>
    (\<exists>ns m cert. view (pd_outside w') (secret_path ns (er_secretName e)) = Some m \<and> m CERT_KEY = Some (cl_encode c cert)))"
  have keeps: "keeps_view view ?G" "\<And>csr. keeps_view view (pod_outside (er_create e (er_dfspId e) csr))"
    "\<And>i. keeps_view view (pod_outside (er_sign e (er_dfspId e) i))"
    by (rule keeps_view_outside, use laws in \<open>simp add: enrollment_laws_def\<close>)+
  have "?ok w'"
    using run unfolding enrol_def
  proof (rule io_bind_cases)
    fix a w1
    assume 1: "?G w = (Inr a, w1)" "(case a of (privateKey, csr) \<Rightarrow>
     io_bind (pod_outside (er_create e (er_dfspId e) csr)) (\<lambda>submitted.
     io_bind (pod_outside (er_sign e (er_dfspId e) (ie_id submitted))) (\<lambda>signed.
     case ie_certificate signed of
       None \<Rightarrow> io_throw (not_signed e submitted signed)
     | Some certificate \<Rightarrow>
         if ie_state signed \<noteq> ''CERT_SIGNED'' then io_throw (not_signed e submitted signed)
         else io_bind (putIfChanged c (er_secretName e) [(CERT_KEY, certificate), (PRIVATE_KEY, privateKey)] None) (\<lambda>_. io_return ())))) w1 = (r, w')"
    obtain key csr where a: "a = (key, csr)" by fastforce
    have v1: "view (pd_outside w1) = view (pd_outside w)" using keeps(1) 1(1) by (auto simp: keeps_view_def)
    from 1(2)[unfolded a prod.case] show ?thesis
    proof (rule io_bind_cases)
      fix s w2
      assume 2: "pod_outside (er_create e (er_dfspId e) csr) w1 = (Inr s, w2)"
        "io_bind (pod_outside (er_sign e (er_dfspId e) (ie_id s))) (\<lambda>signed.
         case ie_certificate signed of
           None \<Rightarrow> io_throw (not_signed e s signed)
         | Some certificate \<Rightarrow>
             if ie_state signed \<noteq> ''CERT_SIGNED'' then io_throw (not_signed e s signed)
             else io_bind (putIfChanged c (er_secretName e) [(CERT_KEY, certificate), (PRIVATE_KEY, key)] None) (\<lambda>_. io_return ())) w2 = (r, w')"
      have v2: "view (pd_outside w2) = view (pd_outside w)" using keeps(2) 2(1) v1 by (auto simp: keeps_view_def)
      from 2(2) show ?thesis
      proof (rule io_bind_cases)
        fix t w3
        assume 3: "pod_outside (er_sign e (er_dfspId e) (ie_id s)) w2 = (Inr t, w3)"
          "(case ie_certificate t of None \<Rightarrow> io_throw (not_signed e s t)
            | Some certificate \<Rightarrow> if ie_state t \<noteq> ''CERT_SIGNED'' then io_throw (not_signed e s t)
               else io_bind (putIfChanged c (er_secretName e) [(CERT_KEY, certificate), (PRIVATE_KEY, key)] None) (\<lambda>_. io_return ())) w3 = (r, w')"
        have v3: "view (pd_outside w3) = view (pd_outside w)" using keeps(3) 3(1) v2 by (auto simp: keeps_view_def)
        show ?thesis
        proof (cases "\<exists>cert. ie_certificate t = Some cert \<and> ie_state t = ''CERT_SIGNED''")
          case False
          then show ?thesis using 3(2) ok v3 by (auto split: option.splits)
        next
          case True
          then obtain cert where cert: "ie_certificate t = Some cert" "ie_state t = ''CERT_SIGNED''" by blast
          have "fits cert key"
            using laws 1(1)[unfolded a] 2(1) 3(1) cert(1) unfolding enrollment_laws_def pod_outside_eq by fastforce
          then have merged: "pair_ok c fits (er_secretName e) (merged (view (pd_outside w)) p (encoded c [(CERT_KEY, cert), (PRIVATE_KEY, key)]))" for p
            using ok by (rule pair_ok_merged[rotated])
          have run: "io_bind (putIfChanged c (er_secretName e) [(CERT_KEY, cert), (PRIVATE_KEY, key)] None) (\<lambda>_. io_return ()) w3 = (r, w')"
            using 3(2) cert by simp
          then obtain q where q: "putIfChanged c (er_secretName e) [(CERT_KEY, cert), (PRIVATE_KEY, key)] None w3 = (q, w')" "r = map_sum id (\<lambda>_. ()) q"
            by (auto simp: io_bind_def split: prod.splits sum.splits)
          from putIfChanged_effect[OF store q(1)] show ?thesis
            unfolding v3
          proof (elim disjE exE conjE)
            fix er assume "view (pd_outside w') = view (pd_outside w)" "q = Inl er"
            then show ?thesis using ok q(2) by simp
          next
            fix ns assume v: "view (pd_outside w') = merged (view (pd_outside w)) (secret_path ns (er_secretName e)) (encoded c [(CERT_KEY, cert), (PRIVATE_KEY, key)])"
            let ?m = "nullish (view (pd_outside w) (secret_path ns (er_secretName e))) Map.empty ++ map_of (encoded c [(CERT_KEY, cert), (PRIVATE_KEY, key)])"
            have "view (pd_outside w') (secret_path ns (er_secretName e)) = Some ?m" by (simp add: v merged_def)
            moreover have "?m CERT_KEY = Some (cl_encode c cert)" by (simp add: encoded_def CERT_KEY_def PRIVATE_KEY_def)
            ultimately show ?thesis using merged v by metis
          qed
        qed
      qed (use ok v2 keeps(3) in \<open>auto simp: keeps_view_def\<close>)
    qed (use ok v1 keeps(2) in \<open>auto simp: keeps_view_def\<close>)
  qed (use ok keeps(1) in \<open>auto simp: keeps_view_def\<close>)
  then show "pair_ok c fits (er_secretName e) (view (pd_outside w'))"
    "r = Inr () \<Longrightarrow> \<exists>ns m cert. view (pd_outside w') (secret_path ns (er_secretName e)) = Some m \<and> m CERT_KEY = Some (cl_encode c cert)"
    by simp_all
qed


lemma enrolIfNeeded_effect:
  assumes store: "secret_store c view" and laws: "enrollment_laws e view fits" and run: "enrolIfNeeded c e w = (r, w')"
    and ok: "pair_ok c fits (er_secretName e) (view (pd_outside w))"
  shows "pair_ok c fits (er_secretName e) (view (pd_outside w'))"
    "r = Inr b \<Longrightarrow> \<exists>ns m t. view (pd_outside w') (secret_path ns (er_secretName e)) = Some m \<and> m CERT_KEY = Some t \<and>
       (b \<or> (\<exists>n. daysUntilExpiry (er_notAfter e) (er_clock e (pd_outside w')) (Some (cl_decode c t)) = Some n \<and> er_renewBeforeDays e < n))"
proof -
  let ?read = "read_secret c (er_secretName e) CERT_KEY None"
  obtain x w1 where read: "?read w = (x, w1)" by fastforce
  have v1: "view (pd_outside w1) = view (pd_outside w)" using read read_view[OF store] by (auto simp: keeps_view_def)
  then have ok1: "pair_ok c fits (er_secretName e) (view (pd_outside w1))" using ok by simp
  show "pair_ok c fits (er_secretName e) (view (pd_outside w'))"
    "r = Inr b \<Longrightarrow> \<exists>ns m t. view (pd_outside w') (secret_path ns (er_secretName e)) = Some m \<and> m CERT_KEY = Some t \<and>
       (b \<or> (\<exists>n. daysUntilExpiry (er_notAfter e) (er_clock e (pd_outside w')) (Some (cl_decode c t)) = Some n \<and> er_renewBeforeDays e < n))"
  proof (atomize (full), cases x)
    case (Inl er)
    then show "pair_ok c fits (er_secretName e) (view (pd_outside w')) \<and> (r = Inr b \<longrightarrow>
      (\<exists>ns m t. view (pd_outside w') (secret_path ns (er_secretName e)) = Some m \<and> m CERT_KEY = Some t \<and>
       (b \<or> (\<exists>n. daysUntilExpiry (er_notAfter e) (er_clock e (pd_outside w')) (Some (cl_decode c t)) = Some n \<and> er_renewBeforeDays e < n))))"
      using run read ok1 by (auto simp: enrolIfNeeded_def io_bind_Inl)
  next
    case (Inr existing)
    define left where "left = daysUntilExpiry (er_notAfter e) (er_clock e (pd_outside w1)) existing"
    have run1: "(case left of Some daysLeft \<Rightarrow> if daysLeft > er_renewBeforeDays e then io_return False
        else io_bind (enrol c e) (\<lambda>_. io_return True) | None \<Rightarrow> io_bind (enrol c e) (\<lambda>_. io_return True)) w1 = (r, w')"
      using run read Inr by (simp add: enrolIfNeeded_def io_bind_Inr left_def)
    show "pair_ok c fits (er_secretName e) (view (pd_outside w')) \<and> (r = Inr b \<longrightarrow>
      (\<exists>ns m t. view (pd_outside w') (secret_path ns (er_secretName e)) = Some m \<and> m CERT_KEY = Some t \<and>
       (b \<or> (\<exists>n. daysUntilExpiry (er_notAfter e) (er_clock e (pd_outside w')) (Some (cl_decode c t)) = Some n \<and> er_renewBeforeDays e < n))))"
    proof (cases "\<exists>n. left = Some n \<and> er_renewBeforeDays e < n")
      case True
      then obtain n where n: "left = Some n" "er_renewBeforeDays e < n" by blast
      then have w': "w' = w1" using run1 by simp
      have "existing \<noteq> None" using n(1) by (cases existing) (simp_all add: left_def daysUntilExpiry_def)
      then obtain pem where pem: "existing = Some pem" by blast
      obtain ns a t w0 where get: "pod_outside (cl_get c (fst a) (secret_path ns (er_secretName e))) w0 = (Inr (snd a), w1)"
        "sa_status (snd a) \<noteq> 404" "map_of (nullish (sa_data (snd a)) []) CERT_KEY = Some t" "cl_decode c t = pem"
        using read unfolding Inr pem read_secret_def by (fastforce simp: io_bind_Inr_iff split: if_splits)
      have "view (pd_outside w1) = view (pd_outside w0)" using get_view(1)[OF store get(1)] .
      moreover obtain m where "view (pd_outside w0) (secret_path ns (er_secretName e)) = Some m" "map_of (nullish (sa_data (snd a)) []) = m"
        using get_view(2)[OF store get(1) refl] get(2) by (auto split: option.splits)
      ultimately show ?thesis using ok1 w' get(3,4) n pem by (intro conjI impI exI[of _ ns] exI[of _ m] exI[of _ t] disjI2 exI[of _ n]) (simp_all add: left_def)
    next
      case False
      then obtain q where q: "enrol c e w1 = (q, w')" "r = map_sum id (\<lambda>_. True) q"
        using run1 by (auto simp: io_bind_def split: option.splits prod.splits sum.splits)
      show ?thesis using enrol_effect[OF store laws q(1) ok1] q(2) by (cases q) auto
    qed
  qed
qed

lemma job_tick_invariant:
  assumes "job_tick acquire release job w = (r, w')" "P w"
    "\<And>w r w'. acquire w = (r, w') \<Longrightarrow> P w \<Longrightarrow> P w'" "\<And>t w r w'. release t w = (r, w') \<Longrightarrow> P w \<Longrightarrow> P w'"
    "\<And>w r w'. job w = (r, w') \<Longrightarrow> P w \<Longrightarrow> P w'"
  shows "P w'"
  using assms(1) unfolding job_tick_def
proof (rule io_bind_cases)
  fix a w1
  assume 1: "acquire w = (Inr a, w1)" "(case a of None \<Rightarrow> io_return ()
     | Some t \<Rightarrow> io_finally (io_catch (io_bind job (\<lambda>_. io_return ())) (\<lambda>_. io_return ())) (release t)) w1 = (r, w')"
  have p1: "P w1" using assms(2,3) 1(1) by blast
  show ?thesis
  proof (cases a)
    case (Some t)
    obtain x w2 where job: "job w1 = (x, w2)" by fastforce
    then have "io_catch (io_bind job (\<lambda>_. io_return ())) (\<lambda>_. io_return ()) w1 = (Inr (), w2)"
      by (cases x) (simp_all add: io_catch_def io_bind_def)
    then obtain y where "release t w2 = (y, w')" using 1(2) by (auto simp: Some io_finally_def split: prod.splits sum.splits)
    then show ?thesis using assms(4,5) job p1 by blast
  qed (use 1(2) p1 in simp)
qed (use assms(2,3) in blast)

section \<open>The enrollment over time\<close>

text \<open>Checks under the lock, restarts of the process, and whatever else happens.\<close>

datatype 'x server_event = Check | Restart | Elsewhere 'x

definition server_event :: "'x cluster \<Rightarrow> 'x enroller \<Rightarrow> ('x, part_error, string option) task \<Rightarrow> (string \<Rightarrow> ('x, part_error, unit) task) \<Rightarrow> 'x server_event \<Rightarrow> 'x pod \<Rightarrow> 'x pod" where
  "server_event c e acquire release a w = (case a of
     Check \<Rightarrow> snd (job_tick (pod_outside acquire) (\<lambda>t. pod_outside (release t)) (enrolIfNeeded c e) w)
   | Restart \<Rightarrow> w\<lparr>pd_client := None, pd_namespace := None\<rparr>
   | Elsewhere x \<Rightarrow> w\<lparr>pd_outside := x\<rparr>)"

lemma server_events_keep:
  assumes "secret_store c view" "enrollment_laws e view fits" "\<And>x r x'. acquire x = (r, x') \<Longrightarrow> view x' = view x"
    "\<And>t x r x'. release t x = (r, x') \<Longrightarrow> view x' = view x" "pair_ok c fits (er_secretName e) (view (pd_outside w))"
    "\<forall>x. Elsewhere x \<in> set acts \<longrightarrow> pair_ok c fits (er_secretName e) (view x)"
  shows "pair_ok c fits (er_secretName e) (view (pd_outside (fold (server_event c e acquire release) acts w)))"
  using assms(5,6)
proof (induction acts arbitrary: w)
  case (Cons a acts)
  have "pair_ok c fits (er_secretName e) (view (pd_outside (server_event c e acquire release a w)))"
  proof (cases a)
    case Check
    obtain r w' where run: "job_tick (pod_outside acquire) (\<lambda>t. pod_outside (release t)) (enrolIfNeeded c e) w = (r, w')" by fastforce
    have "pair_ok c fits (er_secretName e) (view (pd_outside w'))"
      by (rule job_tick_invariant[where P = "\<lambda>w. pair_ok c fits (er_secretName e) (view (pd_outside w))", OF run Cons.prems(1)])
        (use assms(3,4) enrolIfNeeded_effect(1)[OF assms(1,2)] in \<open>fastforce simp: pod_outside_eq\<close>)+
    then show ?thesis by (simp add: server_event_def Check run)
  qed (use Cons.prems in \<open>simp_all add: server_event_def\<close>)
  then show ?case using Cons by simp
qed simp



text \<open>An API server that keeps what it is told, and an MCM that signs the last request.\<close>

type_synonym demo_outside = "(string \<times> (string \<times> string) list) list \<times> nat \<times> string"

definition demo_cluster :: "demo_outside cluster" where
  "demo_cluster = \<lparr>cl_serviceAccountDir = ''/sa'', cl_file = (\<lambda>f x. (Inr ''ns'', x)),
     cl_get = (\<lambda>cred p (s, x). (Inr (case map_of s p of None \<Rightarrow> \<lparr>sa_status = 404, sa_data = None\<rparr> | Some d \<Rightarrow> \<lparr>sa_status = 200, sa_data = Some d\<rparr>), s, x)),
     cl_patch = (\<lambda>cred p kvs (s, x). (Inr (), (p, kvs @ nullish (map_of s p) []) # s, x)),
     cl_post = (\<lambda>cred p name kvs (s, x). let q = p @ ''/'' @ name in (Inr (), (q, kvs @ nullish (map_of s q) []) # s, x)),
     cl_encode = (\<lambda>s. s), cl_decode = (\<lambda>s. s)\<rparr>"

definition demo_view :: "demo_outside \<Rightarrow> string \<Rightarrow> (string \<rightharpoonup> string) option" where
  "demo_view x p = map_option map_of (map_of (fst x) p)"

definition demo_enroller :: "demo_outside enroller" where
  "demo_enroller = \<lparr>er_dfspId = ''pivotal'', er_commonName = ''hub.example'', er_secretName = ''tls'', er_renewBeforeDays = 30,
     er_generateCsr = (\<lambda>n (s, k, p). (Inr (replicate k CHR ''k'', replicate k CHR ''k''), s, Suc k, p)),
     er_create = (\<lambda>f csr (s, k, p). (Inr \<lparr>ie_id = k, ie_state = ''CSR_LOADED'', ie_certificate = None\<rparr>, s, k, csr)),
     er_sign = (\<lambda>f i (s, k, p). (Inr \<lparr>ie_id = i, ie_state = ''CERT_SIGNED'', ie_certificate = Some (''BEGIN CERTIFICATE'' @ p)\<rparr>, s, k, p)),
     er_notAfter = (\<lambda>pem. Some 0), er_clock = (\<lambda>_. 0)\<rparr>"

lemma demo_store: "secret_store demo_cluster demo_view"
  by (auto simp: secret_store_def demo_cluster_def demo_view_def merged_def secret_path_def nullish_def Let_def fun_eq_iff map_add_def
      split: option.splits)

lemma demo_laws: "enrollment_laws demo_enroller demo_view (\<lambda>cert key. cert = ''BEGIN CERTIFICATE'' @ key)"
  by (auto simp: enrollment_laws_def demo_enroller_def demo_view_def)


section \<open>A token that is never read again\<close>

text \<open>
  The client is built with the token that was read first, and nothing builds it again: when the cluster replaces the token
  of the service account, the process goes on with the old one until it restarts.
\<close>

lemma first_token_is_kept:
  assumes "connect c w = (Inr client, w')"
  shows "connect c (w'\<lparr>pd_outside := x\<rparr>) = (Inr client, w'\<lparr>pd_outside := x\<rparr>)"
proof -
  have "pd_client w' = Some client"
    using assms by (auto simp: connect_def io_bind_Inr_iff split: option.splits)
  then show ?thesis by (simp add: connect_def)
qed

end
