(* ===== verification/Dfsp_Certificates.thy ===== *)
theory Dfsp_Certificates
  imports Signing_Tenants "HOL-Library.Multiset"
begin

text \<open>
  The client certificates that Pivotal issues to DFSPs: the table \<open>participant_cert\<close> with its repository, the issuer
  (\<open>dfsp-certificate-issuer.ts\<close>), the commands that enroll and revoke and the queries of the operator screens.  The
  certificate authority in Vault and the readers of PKCS#10 requests and X.509 certificates are parameters.
\<close>

section \<open>The table\<close>

record participant_cert =
  ct_id :: "nat option"
  ct_fspId :: string
  ct_fingerprint :: string
  ct_serial :: string
  ct_subject :: string
  ct_certPem :: string
  ct_caChainPem :: "string option"
  ct_status :: string
  ct_validFrom :: int
  ct_validTo :: int
  ct_issuedAt :: int
  ct_revokedAt :: "int option"
  ct_note :: "string option"

definition ACTIVE :: string where "ACTIVE = ''active''"
definition RETIRING :: string where "RETIRING = ''retiring''"
definition REVOKED :: string where "REVOKED = ''revoked''"
definition EXPIRED :: string where "EXPIRED = ''expired''"

lemma statuses_differ [simp]: "ACTIVE \<noteq> RETIRING" "ACTIVE \<noteq> REVOKED" "RETIRING \<noteq> REVOKED" "RETIRING \<noteq> ACTIVE" "REVOKED \<noteq> ACTIVE" "REVOKED \<noteq> RETIRING"
  by (simp_all add: ACTIVE_def RETIRING_def REVOKED_def)

text \<open>The rows of the write database, what the replica shows of them, the participants, the clock and the outside.\<close>

record 'x cert_world =
  cr_certs :: "participant_cert list"
  cr_next :: nat
  cr_replica :: "participant_cert list"
  cr_participants :: "participant list"
  cr_clock :: int
  cr_outside :: 'x

type_synonym ('x, 'a) cert_task = "('x cert_world, part_error, 'a) task"

definition update_certs :: "(participant_cert \<Rightarrow> bool) \<Rightarrow> (participant_cert \<Rightarrow> participant_cert) \<Rightarrow> 'x cert_world \<Rightarrow> 'x cert_world" where
  "update_certs P f w = w\<lparr>cr_certs := map (\<lambda>c. if P c then f c else c) (cr_certs w)\<rparr>"

text \<open>Fingerprint and serial number are unique; the serial number is compared under the collation of the table.\<close>

definition save_cert :: "(string \<Rightarrow> string) \<Rightarrow> participant_cert \<Rightarrow> ('x, participant_cert) cert_task" where
  "save_cert co c w = (case ct_id c of
     Some i \<Rightarrow> (Inr c, update_certs (\<lambda>x. ct_id x = Some i) (\<lambda>_. c) w)
   | None \<Rightarrow>
       if \<exists>x\<in>set (cr_certs w). co (ct_fingerprint x) = co (ct_fingerprint c) \<or> co (ct_serial x) = co (ct_serial c)
       then (Inl (Thrown ''Duplicate entry''), w)
       else let saved = c\<lparr>ct_id := Some (cr_next w)\<rparr>
            in (Inr saved, w\<lparr>cr_certs := cr_certs w @ [saved], cr_next := Suc (cr_next w)\<rparr>))"

definition newest_first :: "participant_cert list \<Rightarrow> participant_cert list" where
  "newest_first = sort_key (\<lambda>c. - ct_issuedAt c)"

definition findByFspId :: "string \<Rightarrow> participant_cert list \<Rightarrow> participant_cert list" where
  "findByFspId fspId rows = newest_first (filter (\<lambda>c. ct_fspId c = fspId) rows)"

definition findUsableByFspId :: "string \<Rightarrow> participant_cert list \<Rightarrow> participant_cert list" where
  "findUsableByFspId fspId rows = newest_first (filter (\<lambda>c. ct_fspId c = fspId \<and> ct_status c \<in> {ACTIVE, RETIRING}) rows)"

definition findLapsed :: "int \<Rightarrow> participant_cert list \<Rightarrow> participant_cert list" where
  "findLapsed clock rows = filter (\<lambda>c. ct_validTo c < clock \<and> ct_status c \<notin> {EXPIRED, REVOKED}) rows"

definition findByFingerprint :: "(string \<Rightarrow> string) \<Rightarrow> string \<Rightarrow> participant_cert list \<Rightarrow> participant_cert option" where
  "findByFingerprint co fingerprint rows = List.find (\<lambda>c. co (ct_fingerprint c) = co fingerprint) rows"

definition find_cert :: "nat option \<Rightarrow> participant_cert list \<Rightarrow> participant_cert option" where
  "find_cert i rows = List.find (\<lambda>c. ct_id c = i) rows"

section \<open>The issuer\<close>

text \<open>The key in a request: none, one that is not RSA, or an RSA key of some length.\<close>

datatype csr_key = NoKey | NotRsa | Rsa nat

text \<open>A certificate as it is read: digest of its DER, subject (short name, name and value), serial number and validity.\<close>

record x509 =
  xc_sha256 :: string
  xc_subject :: "(string option \<times> string \<times> string) list"
  xc_serial :: string
  xc_notBefore :: int
  xc_notAfter :: int

record signed_certificate =
  sc_certificatePem :: string
  sc_caChainPem :: "string option"
  sc_serialNumber :: string
  sc_expiration :: "int option"

record sign_request =
  sg_mount :: string
  sg_role :: string
  sg_csrPem :: string
  sg_commonName :: string
  sg_ttl :: "string option"

record 'x authority =
  au_mount :: string
  au_role :: string
  au_ttl :: "string option"
  au_collate :: "string \<Rightarrow> string"
  au_csr :: "string \<Rightarrow> csr_key option"
  au_certificate :: "string \<Rightarrow> x509 option"
  au_sign :: "sign_request \<Rightarrow> ('x, part_error, signed_certificate) task"

definition cert_outside :: "('x, part_error, 'a) task \<Rightarrow> ('x, 'a) cert_task" where
  "cert_outside m = io_on cr_outside (\<lambda>x w. w\<lparr>cr_outside := x\<rparr>) m"

definition error_text :: "string \<Rightarrow> string" where
  "error_text code = nullish (map_of PARTICIPANT_ERROR_MESSAGES code) (''Unknown participant error code: '' @ code)"

definition MINIMUM_RSA_KEY_BITS :: nat where
  "MINIMUM_RSA_KEY_BITS = 2048"

definition assertUsableCsr :: "'x authority \<Rightarrow> string \<Rightarrow> (part_error, unit) result" where
  "assertUsableCsr au csrPem = (case au_csr au csrPem of
     None \<Rightarrow> Inl (Thrown (error_text ''PARTICIPANT_CERT_CSR_MALFORMED''))
   | Some NoKey \<Rightarrow> Inl (Thrown (error_text ''PARTICIPANT_CERT_CSR_MALFORMED''))
   | Some NotRsa \<Rightarrow> Inl (Thrown (error_text ''PARTICIPANT_CERT_CSR_KEY_TOO_SMALL''))
   | Some (Rsa bits) \<Rightarrow> guard_res (bits < MINIMUM_RSA_KEY_BITS) (Thrown (error_text ''PARTICIPANT_CERT_CSR_KEY_TOO_SMALL'')))"

definition sign_csr :: "'x authority \<Rightarrow> string \<Rightarrow> string \<Rightarrow> ('x, part_error, signed_certificate) task" where
  "sign_csr au fspId csrPem = io_catch
     (au_sign au \<lparr>sg_mount = au_mount au, sg_role = au_role au, sg_csrPem = csrPem, sg_commonName = fspId, sg_ttl = au_ttl au\<rparr>)
     (\<lambda>_. io_throw (Thrown (error_text ''PARTICIPANT_CERT_ISSUANCE_FAILED'')))"

definition common_name :: "x509 \<Rightarrow> string" where
  "common_name x = (case List.find (\<lambda>(short, _, _). short = Some ''CN'') (xc_subject x) of Some (_, _, v) \<Rightarrow> v | None \<Rightarrow> [])"

definition subject_text :: "x509 \<Rightarrow> string" where
  "subject_text x = join_with '', '' (map (\<lambda>(short, name, v). nullish short name @ ''='' @ v) (xc_subject x))"

definition parse_certificate :: "'x authority \<Rightarrow> string \<Rightarrow> (part_error, x509) result" where
  "parse_certificate au pem = (case au_certificate au pem of None \<Rightarrow> Inl (Thrown ''Invalid PEM formatted message.'') | Some x \<Rightarrow> Inr x)"

definition assertBoundTo :: "string \<Rightarrow> x509 \<Rightarrow> (part_error, unit) result" where
  "assertBoundTo fspId x = guard_res (common_name x \<noteq> fspId) (Thrown
     (''The certificate authority issued a certificate for '' @ quoted (common_name x) @ '' when '' @ quoted fspId
      @ '' was requested. Check that the issuing role sets use_csr_common_name=false; the certificate has not been recorded.''))"

fun retire_all :: "(string \<Rightarrow> string) \<Rightarrow> participant_cert list \<Rightarrow> ('x, unit) cert_task" where
  "retire_all co [] = io_return ()"
| "retire_all co (c # cs) =
     (if ct_status c = RETIRING then retire_all co cs
      else io_bind (save_cert co (c\<lparr>ct_status := RETIRING\<rparr>)) (\<lambda>_. retire_all co cs))"

text \<open>The certificates to retire are read from the replica.\<close>

definition retireExisting :: "(string \<Rightarrow> string) \<Rightarrow> string \<Rightarrow> ('x, unit) cert_task" where
  "retireExisting co fspId w = retire_all co (findUsableByFspId fspId (cr_replica w)) w"

definition new_cert :: "string \<Rightarrow> string option \<Rightarrow> signed_certificate \<Rightarrow> x509 \<Rightarrow> int \<Rightarrow> participant_cert" where
  "new_cert fspId note signed parsed clock =
     \<lparr>ct_id = None, ct_fspId = fspId, ct_fingerprint = xc_sha256 parsed,
      ct_serial = (if sc_serialNumber signed \<noteq> [] then sc_serialNumber signed else xc_serial parsed),
      ct_subject = subject_text parsed, ct_certPem = sc_certificatePem signed, ct_caChainPem = sc_caChainPem signed,
      ct_status = ACTIVE, ct_validFrom = xc_notBefore parsed, ct_validTo = nullish (sc_expiration signed) (xc_notAfter parsed),
      ct_issuedAt = clock, ct_revokedAt = None, ct_note = note\<rparr>"

definition issue :: "'x authority \<Rightarrow> string \<Rightarrow> string \<Rightarrow> string option \<Rightarrow> ('x, participant_cert) cert_task" where
  "issue au fspId csrPem note =
     io_bind (io_lift (assertUsableCsr au csrPem)) (\<lambda>_.
     io_bind (cert_outside (sign_csr au fspId csrPem)) (\<lambda>signed.
     io_bind (io_lift (parse_certificate au (sc_certificatePem signed))) (\<lambda>parsed.
     io_bind (io_lift (assertBoundTo fspId parsed)) (\<lambda>_.
     io_bind (retireExisting (au_collate au) fspId) (\<lambda>_.
     io_bind (io_gets cr_clock) (\<lambda>clock.
     save_cert (au_collate au) (new_cert fspId note signed parsed clock)))))))"

section \<open>Commands and queries\<close>

definition enroll :: "'x authority option \<Rightarrow> (string \<Rightarrow> string) \<Rightarrow> string \<Rightarrow> string \<Rightarrow> string option \<Rightarrow> ('x, participant_cert) cert_task" where
  "enroll issuer co fspId0 csrPem note =
     (let fspId = trim fspId0 in
      case issuer of
        None \<Rightarrow> io_throw (Pivotal ''PARTICIPANT_CERT_ISSUER_NOT_CONFIGURED''
            ''This deployment does not issue DFSP certificates. Configure the DFSP-facing CA first.'')
      | Some au \<Rightarrow>
          io_bind (io_gets (\<lambda>w. List.find (\<lambda>p. co (pa_name p) = co fspId) (cr_participants w))) (\<lambda>found. case found of
            None \<Rightarrow> io_throw (participantError ''PARTICIPANT_UNKNOWN'')
          | Some _ \<Rightarrow> issue au fspId (trim csrPem) (map_option trim note)))"

definition with_reason :: "string option \<Rightarrow> string option \<Rightarrow> string option" where
  "with_reason reason note = (case reason of
     None \<Rightarrow> note
   | Some r \<Rightarrow> if trim r = [] then note
       else let text_of = ''Revoked: '' @ trim r
            in Some (case note of None \<Rightarrow> text_of | Some n \<Rightarrow> if n = [] then text_of else n @ '' | '' @ text_of))"

definition revoke :: "(string \<Rightarrow> string) \<Rightarrow> nat option \<Rightarrow> string option \<Rightarrow> ('x, participant_cert) cert_task" where
  "revoke co i reason =
     io_bind (io_gets (\<lambda>w. find_cert i (cr_certs w))) (\<lambda>found. case found of
       None \<Rightarrow> io_throw (participantError ''PARTICIPANT_CERT_NOT_FOUND'')
     | Some c \<Rightarrow>
         if ct_status c = REVOKED then io_throw (participantError ''PARTICIPANT_CERT_ALREADY_REVOKED'')
         else io_bind (io_gets cr_clock) (\<lambda>clock.
              save_cert co (c\<lparr>ct_status := REVOKED, ct_revokedAt := Some clock, ct_note := with_reason reason (ct_note c)\<rparr>)))"

definition listDfspCertificates :: "string \<Rightarrow> ('x, participant_cert list) cert_task" where
  "listDfspCertificates fspId = io_gets (\<lambda>w. findByFspId (trim fspId) (cr_replica w))"

definition getDfspCertificate :: "nat option \<Rightarrow> ('x, participant_cert) cert_task" where
  "getDfspCertificate i = io_bind (io_gets (\<lambda>w. find_cert i (cr_replica w))) (\<lambda>found. case found of
     None \<Rightarrow> io_throw (participantError ''PARTICIPANT_CERT_NOT_FOUND'')
   | Some c \<Rightarrow> io_return c)"

section \<open>The register over time\<close>

interpretation certs_by_id: keyed_table cr_certs ct_id update_certs
  by unfold_locales (simp add: update_certs_def)

text \<open>
  Enrollments (each against a replica that has caught up) and revocations, the passing of time and events outside.
\<close>

datatype 'x cert_action =
    Enroll string string "string option"
  | Revoke "nat option" "string option"
  | CertTime int
  | CertOutside 'x

definition cert_perform :: "'x authority \<Rightarrow> 'x cert_action \<Rightarrow> 'x cert_world \<Rightarrow> 'x cert_world" where
  "cert_perform au a w = (case a of
     Enroll fspId csrPem note \<Rightarrow> snd (enroll (Some au) (au_collate au) fspId csrPem note (w\<lparr>cr_replica := cr_certs w\<rparr>))
   | Revoke i reason \<Rightarrow> snd (revoke (au_collate au) i reason w)
   | CertTime t \<Rightarrow> w\<lparr>cr_clock := t\<rparr>
   | CertOutside x \<Rightarrow> w\<lparr>cr_outside := x\<rparr>)"

text \<open>The certificate names the DFSP of the row, and the row is found by the digest of the certificate.\<close>

definition accountable :: "'x authority \<Rightarrow> participant_cert \<Rightarrow> bool" where
  "accountable au c \<longleftrightarrow> (\<exists>x. au_certificate au (ct_certPem c) = Some x \<and> common_name x = ct_fspId c \<and> ct_fingerprint c = xc_sha256 x)"

definition ids_ok :: "'x cert_world \<Rightarrow> bool" where
  "ids_ok w \<longleftrightarrow> distinct (map ct_id (cr_certs w)) \<and> (\<forall>c\<in>set (cr_certs w). \<exists>i<cr_next w. ct_id c = Some i)"

definition one_active :: "'x cert_world \<Rightarrow> bool" where
  "one_active w \<longleftrightarrow> (\<forall>c\<in>set (cr_certs w). \<forall>c'\<in>set (cr_certs w).
     ct_status c = ACTIVE \<longrightarrow> ct_status c' = ACTIVE \<longrightarrow> ct_fspId c = ct_fspId c' \<longrightarrow> c = c')"

definition register_ok :: "'x authority \<Rightarrow> 'x cert_world \<Rightarrow> bool" where
  "register_ok au w \<longleftrightarrow> ids_ok w \<and> one_active w \<and> (\<forall>c\<in>set (cr_certs w). accountable au c)"

text \<open>What may become of a row: a revoked one stays as it is, any other keeps what was issued, and an active one may retire.\<close>

definition cert_later :: "participant_cert \<Rightarrow> participant_cert \<Rightarrow> bool" where
  "cert_later c c' \<longleftrightarrow> ct_id c' = ct_id c \<and> ct_fspId c' = ct_fspId c \<and> ct_fingerprint c' = ct_fingerprint c \<and> ct_certPem c' = ct_certPem c \<and>
     ct_validTo c' = ct_validTo c \<and> (ct_status c = REVOKED \<longrightarrow> c' = c) \<and> (ct_status c \<noteq> ACTIVE \<longrightarrow> ct_status c' \<noteq> ACTIVE)"

lemma cert_later_refl [simp]: "cert_later c c"
  by (simp add: cert_later_def)

lemma cert_later_trans: "cert_later a b \<Longrightarrow> cert_later b c \<Longrightarrow> cert_later a c"
  unfolding cert_later_def by metis

definition rows_later :: "'x cert_world \<Rightarrow> 'x cert_world \<Rightarrow> bool" where
  "rows_later w w' \<longleftrightarrow> (\<forall>c\<in>set (cr_certs w). \<exists>c'\<in>set (cr_certs w'). cert_later c c')"

lemma rows_later_refl [simp]: "rows_later w w"
  unfolding rows_later_def using cert_later_refl by blast

lemma rows_later_trans: "rows_later a b \<Longrightarrow> rows_later b c \<Longrightarrow> rows_later a c"
  unfolding rows_later_def by (meson cert_later_trans)

text \<open>Saving a changed row changes that row.\<close>

lemma save_cert_row:
  assumes ok: "ids_ok w" and c0: "c0 \<in> set (cr_certs w)" and c: "ct_id c = ct_id c0"
  shows "save_cert co c w = (Inr c, w\<lparr>cr_certs := map (\<lambda>x. if x = c0 then c else x) (cr_certs w)\<rparr>)"
proof -
  obtain i where i: "ct_id c0 = Some i" using ok c0 by (auto simp: ids_ok_def)
  have "ct_id x = Some i \<longleftrightarrow> x = c0" if "x \<in> set (cr_certs w)" for x
    using certs_by_id.key_eq_iff[of w x c0] ok that c0 i by (simp add: ids_ok_def)
  then show ?thesis by (auto simp: save_cert_def c i update_certs_def)
qed

lemma ids_ok_map:
  assumes "ids_ok w" "\<And>x. ct_id (f x) = ct_id x"
  shows "ids_ok (w\<lparr>cr_certs := map f (cr_certs w)\<rparr>)"
  using assms by (simp add: ids_ok_def comp_def)

definition retired :: "participant_cert set \<Rightarrow> participant_cert \<Rightarrow> participant_cert" where
  "retired S c = (if c \<in> S \<and> ct_status c \<noteq> RETIRING then c\<lparr>ct_status := RETIRING\<rparr> else c)"

lemma retire_all_run:
  "ids_ok w \<Longrightarrow> set cs \<subseteq> set (cr_certs w) \<Longrightarrow> distinct (map ct_id cs) \<Longrightarrow>
     retire_all co cs w = (Inr (), w\<lparr>cr_certs := map (retired (set cs)) (cr_certs w)\<rparr>)"
proof (induction cs arbitrary: w)
  case Nil
  then show ?case by (simp add: retired_def)
next
  case (Cons c cs)
  have ids: "ct_id x \<noteq> ct_id c" if "x \<in> set cs" for x using Cons.prems(3) that by (auto simp: image_iff)
  show ?case
  proof (cases "ct_status c = RETIRING")
    case True
    then have "retired (set (c # cs)) = retired (set cs)" by (auto simp: retired_def)
    then show ?thesis using Cons True by simp
  next
    case False
    let ?f = "\<lambda>x. if x = c then c\<lparr>ct_status := RETIRING\<rparr> else x"
    define w1 where "w1 = w\<lparr>cr_certs := map ?f (cr_certs w)\<rparr>"
    have save: "save_cert co (c\<lparr>ct_status := RETIRING\<rparr>) w = (Inr (c\<lparr>ct_status := RETIRING\<rparr>), w1)"
      unfolding w1_def by (rule save_cert_row[OF Cons.prems(1)]) (use Cons.prems(2) in auto)
    have ok1: "ids_ok w1" unfolding w1_def by (rule ids_ok_map[OF Cons.prems(1)]) simp
    have sub1: "set cs \<subseteq> set (cr_certs w1)"
    proof
      fix x
      assume x: "x \<in> set cs"
      then have "x \<noteq> c" "x \<in> set (cr_certs w)" using ids Cons.prems(2) by auto
      then show "x \<in> set (cr_certs w1)" by (auto simp: w1_def image_iff)
    qed
    have "retire_all co cs w1 = (Inr (), w1\<lparr>cr_certs := map (retired (set cs)) (cr_certs w1)\<rparr>)"
      using Cons.IH[OF ok1 sub1] Cons.prems(3) by simp
    moreover have "retired (set cs) (?f x) = retired (set (c # cs)) x" for x
      using False ids[of "c\<lparr>ct_status := RETIRING\<rparr>"] ids[of c] by (auto simp: retired_def)
    then have "map (retired (set cs)) (cr_certs w1) = map (retired (set (c # cs))) (cr_certs w)"
      by (simp add: w1_def)
    ultimately show ?thesis using False save by (simp add: io_bind_def) (simp add: w1_def)
  qed
qed

lemma retireExisting_run:
  assumes ok: "ids_ok w" and fresh: "cr_replica w = cr_certs w"
  shows "retireExisting co f w = (Inr (), w\<lparr>cr_certs :=
     map (\<lambda>c. if ct_fspId c = f \<and> ct_status c = ACTIVE then c\<lparr>ct_status := RETIRING\<rparr> else c) (cr_certs w)\<rparr>)"
proof -
  let ?U = "findUsableByFspId f (cr_replica w)"
  have set_U: "set ?U = {c \<in> set (cr_certs w). ct_fspId c = f \<and> ct_status c \<in> {ACTIVE, RETIRING}}"
    by (auto simp: findUsableByFspId_def newest_first_def fresh)
  have "mset (map ct_id ?U) = mset (map ct_id (filter (\<lambda>c. ct_fspId c = f \<and> ct_status c \<in> {ACTIVE, RETIRING}) (cr_certs w)))"
    by (simp only: findUsableByFspId_def newest_first_def fresh mset_map mset_sort)
  moreover have "distinct (map ct_id (filter (\<lambda>c. ct_fspId c = f \<and> ct_status c \<in> {ACTIVE, RETIRING}) (cr_certs w)))"
    using ok by (simp add: ids_ok_def distinct_map_filter)
  ultimately have "distinct (map ct_id ?U)" by (metis mset_eq_imp_distinct_iff)
  then have "retire_all co ?U w = (Inr (), w\<lparr>cr_certs := map (retired (set ?U)) (cr_certs w)\<rparr>)"
    by (intro retire_all_run ok) (auto simp: set_U)
  moreover have "map (retired (set ?U)) (cr_certs w) =
     map (\<lambda>c. if ct_fspId c = f \<and> ct_status c = ACTIVE then c\<lparr>ct_status := RETIRING\<rparr> else c) (cr_certs w)"
    by (auto simp: retired_def set_U)
  ultimately show ?thesis by (simp add: retireExisting_def)
qed

text \<open>An enrollment that succeeds retires what was active and adds the new certificate; one that fails may have retired.\<close>

definition retire_fsp :: "string \<Rightarrow> participant_cert \<Rightarrow> participant_cert" where
  "retire_fsp f c = (if ct_fspId c = f \<and> ct_status c = ACTIVE then c\<lparr>ct_status := RETIRING\<rparr> else c)"

lemma retire_fsp_simps [simp]: "ct_id (retire_fsp f c) = ct_id c" "ct_fspId (retire_fsp f c) = ct_fspId c" "accountable au (retire_fsp f c) = accountable au c"
  "cert_later c (retire_fsp f c)" "ct_status (retire_fsp f c) = ACTIVE \<longleftrightarrow> ct_status c = ACTIVE \<and> ct_fspId c \<noteq> f"
  by (auto simp: retire_fsp_def accountable_def cert_later_def)

definition retired_world :: "string \<Rightarrow> 'x cert_world \<Rightarrow> 'x cert_world" where
  "retired_world f w = w\<lparr>cr_certs := map (retire_fsp f) (cr_certs w)\<rparr>"

lemma retired_world_ok:
  assumes "register_ok au w"
  shows "register_ok au (retired_world f w)" "rows_later w (retired_world f w)"
    "\<forall>c\<in>set (cr_certs (retired_world f w)). ct_status c = ACTIVE \<longrightarrow> ct_fspId c \<noteq> f"
proof -
  have "ids_ok (retired_world f w)"
    unfolding retired_world_def by (rule ids_ok_map) (use assms in \<open>simp_all add: register_ok_def\<close>)
  moreover have "one_active (retired_world f w)"
  proof -
    have eq: "retire_fsp f c = retire_fsp f c'"
      if "c \<in> set (cr_certs w)" "c' \<in> set (cr_certs w)" "ct_status (retire_fsp f c) = ACTIVE" "ct_status (retire_fsp f c') = ACTIVE"
        "ct_fspId (retire_fsp f c) = ct_fspId (retire_fsp f c')" for c c'
    proof -
      have "ct_status c = ACTIVE" "ct_status c' = ACTIVE" "ct_fspId c = ct_fspId c'" using that(3-5) by simp_all
      then have "c = c'" using assms that(1,2) unfolding register_ok_def one_active_def by blast
      then show ?thesis by simp
    qed
    show ?thesis unfolding one_active_def
    proof (intro ballI impI)
      fix d d'
      assume d: "d \<in> set (cr_certs (retired_world f w))" "d' \<in> set (cr_certs (retired_world f w))"
        "ct_status d = ACTIVE" "ct_status d' = ACTIVE" "ct_fspId d = ct_fspId d'"
      then obtain c c' where "c \<in> set (cr_certs w)" "c' \<in> set (cr_certs w)" "d = retire_fsp f c" "d' = retire_fsp f c'"
        by (auto simp: retired_world_def)
      then show "d = d'" using eq[of c c'] d(3-5) by simp
    qed
  qed
  ultimately show "register_ok au (retired_world f w)"
    using assms by (auto simp: register_ok_def retired_world_def)
  show "rows_later w (retired_world f w)"
    unfolding rows_later_def retired_world_def
  proof
    fix c
    assume "c \<in> set (cr_certs w)"
    then show "\<exists>c'\<in>set (cr_certs (w\<lparr>cr_certs := map (retire_fsp f) (cr_certs w)\<rparr>)). cert_later c c'"
      by (intro bexI[of _ "retire_fsp f c"]) simp_all
  qed
  show "\<forall>c\<in>set (cr_certs (retired_world f w)). ct_status c = ACTIVE \<longrightarrow> ct_fspId c \<noteq> f"
    by (auto simp: retired_world_def)
qed

definition same_certs :: "'x cert_world \<Rightarrow> 'x cert_world \<Rightarrow> bool" where
  "same_certs w w' \<longleftrightarrow> cr_certs w' = cr_certs w \<and> cr_next w' = cr_next w"

lemma same_certs_ok: "same_certs w w' \<Longrightarrow> register_ok au w' = register_ok au w" "same_certs w w' \<Longrightarrow> rows_later v w' = rows_later v w"
  "same_certs w w' \<Longrightarrow> rows_later w' v = rows_later w v"
  by (simp_all add: same_certs_def register_ok_def ids_ok_def one_active_def rows_later_def)

lemma issue_effect:
  assumes ok: "register_ok au w" and fresh: "cr_replica w = cr_certs w" and run: "issue au f csr note w = (x, w')"
  shows "register_ok au w' \<and> rows_later w w'"
proof -
  have same: "register_ok au w' \<and> rows_later w w'" if "same_certs w w'" using same_certs_ok[OF that] ok rows_later_refl by simp
  show ?thesis
  proof (cases "assertUsableCsr au csr")
    case (Inl e)
    then have "w' = w" using run by (simp add: issue_def)
    then show ?thesis using ok by simp
  next
    case (Inr u)
    obtain a w1 where sign: "cert_outside (sign_csr au f csr) w = (a, w1)" by fastforce
    have w1: "same_certs w w1" "cr_replica w1 = cr_certs w1"
      using sign fresh by (auto simp: cert_outside_def io_on_def same_certs_def split: prod.splits)
    show ?thesis
    proof (cases "\<exists>signed p. a = Inr signed \<and> parse_certificate au (sc_certificatePem signed) = Inr p \<and> assertBoundTo f p = Inr ()")
      case False
      then have "w' = w1" using run Inr sign
        by (cases a; auto simp: issue_def io_bind_def split: sum.splits)
      then show ?thesis using same w1(1) by simp
    next
      case True
      then obtain signed p where p: "a = Inr signed" "parse_certificate au (sc_certificatePem signed) = Inr p" "assertBoundTo f p = Inr ()" by blast
      have ok1: "register_ok au w1" using same_certs_ok(1)[OF w1(1)] ok by simp
      define w2 where "w2 = retired_world f w1"
      have ret: "retireExisting (au_collate au) f w1 = (Inr (), w2)"
        using retireExisting_run[OF _ w1(2), of "au_collate au" f] ok1
        by (simp add: w2_def retired_world_def register_ok_def retire_fsp_def[abs_def])
      note r = retired_world_ok[OF ok1, of f, folded w2_def]
      define n where "n = new_cert f note signed p (cr_clock w2)"
      have saved: "save_cert (au_collate au) n w2 = (x, w')"
        using run Inr sign p ret by (simp add: issue_def io_bind_def n_def)
      have later: "rows_later w w2" using r(2) same_certs_ok(3)[OF w1(1), of w2] by simp
      show ?thesis
      proof (cases "w' = w2")
        case True
        then show ?thesis using r(1) later by simp
      next
        case False
        have n_id: "ct_id n = None" by (simp add: n_def new_cert_def)
        define s where "s = n\<lparr>ct_id := Some (cr_next w2)\<rparr>"
        have w': "w' = w2\<lparr>cr_certs := cr_certs w2 @ [s], cr_next := Suc (cr_next w2)\<rparr>"
          using saved False by (simp add: save_cert_def n_id s_def Let_def split: if_splits)
        have s: "ct_fspId s = f" "accountable au s"
          using p(2,3) by (auto simp: s_def n_def new_cert_def accountable_def parse_certificate_def assertBoundTo_def guard_res_def
              split: option.splits if_splits)
        have ids: "ids_ok w'" using r(1) by (auto simp: register_ok_def ids_ok_def w' s_def less_Suc_eq)
        moreover have "one_active w'"
          using r(1,3) s(1) by (auto simp: register_ok_def one_active_def w')
        moreover have "\<forall>c\<in>set (cr_certs w'). accountable au c" using r(1) s(2) by (auto simp: register_ok_def w')
        moreover have "rows_later w w'" using later unfolding rows_later_def w' by auto
        ultimately show ?thesis by (simp add: register_ok_def)
      qed
    qed
  qed
qed

lemma revoke_effect:
  assumes ok: "register_ok au w" and run: "revoke co i reason w = (x, w')"
  shows "register_ok au w' \<and> rows_later w w'"
proof (cases "\<exists>c. find_cert i (cr_certs w) = Some c \<and> ct_status c \<noteq> REVOKED")
  case False
  then have "w' = w" using run by (auto simp: revoke_def split: option.splits if_splits)
  then show ?thesis using ok by simp
next
  case True
  then obtain c where c: "find_cert i (cr_certs w) = Some c" "ct_status c \<noteq> REVOKED" by blast
  have c_in: "c \<in> set (cr_certs w)" using c(1) by (auto simp: find_cert_def dest: find_SomeD)
  define r where "r = c\<lparr>ct_status := REVOKED, ct_revokedAt := Some (cr_clock w), ct_note := with_reason reason (ct_note c)\<rparr>"
  let ?f = "\<lambda>x. if x = c then r else x"
  have ids: "ids_ok w" using ok by (simp add: register_ok_def)
  have "save_cert co r w = (Inr r, w\<lparr>cr_certs := map ?f (cr_certs w)\<rparr>)"
    by (rule save_cert_row[OF ids c_in]) (simp add: r_def)
  then have w': "w' = w\<lparr>cr_certs := map ?f (cr_certs w)\<rparr>" using run c by (simp add: revoke_def r_def io_bind_def)
  have r: "ct_id r = ct_id c" "ct_status r \<noteq> ACTIVE" "cert_later c r" "accountable au c \<Longrightarrow> accountable au r"
    using c(2) by (auto simp: r_def cert_later_def accountable_def)
  have "ids_ok w'" unfolding w' by (rule ids_ok_map[OF ids]) (use r(1) in auto)
  moreover have "one_active w'" using ok r(2) by (auto simp: register_ok_def one_active_def w')
  moreover have "\<forall>x\<in>set (cr_certs w'). accountable au x" using ok r(4) by (auto simp: register_ok_def w' c_in)
  moreover have "rows_later w w'"
    unfolding rows_later_def
  proof
    fix x
    assume "x \<in> set (cr_certs w)"
    then have "?f x \<in> set (cr_certs w')" by (simp add: w')
    then show "\<exists>x'\<in>set (cr_certs w'). cert_later x x'" using r(3) by (intro bexI[of _ "?f x"]) simp_all
  qed
  ultimately show ?thesis by (simp add: register_ok_def)
qed

lemma cert_perform_effect:
  assumes "register_ok au w"
  shows "register_ok au (cert_perform au a w) \<and> rows_later w (cert_perform au a w)"
proof (cases a)
  case (Enroll f csr remark)
  let ?w = "w\<lparr>cr_replica := cr_certs w\<rparr>"
  have s: "same_certs w ?w" by (simp add: same_certs_def)
  obtain x w' where run: "enroll (Some au) (au_collate au) f csr remark ?w = (x, w')" by fastforce
  have ok: "register_ok au ?w" using same_certs_ok(1)[OF s] assms by simp
  have "register_ok au w' \<and> rows_later ?w w'"
  proof (cases "List.find (\<lambda>p. au_collate au (pa_name p) = au_collate au (trim f)) (cr_participants w)")
    case None
    then have "w' = ?w" using run by (simp add: enroll_def Let_def)
    then show ?thesis using ok by simp
  next
    case (Some p)
    then have "issue au (trim f) (trim csr) (map_option trim remark) ?w = (x, w')" using run by (simp add: enroll_def Let_def)
    then show ?thesis by (intro issue_effect[OF ok]) simp_all
  qed
  then show ?thesis using same_certs_ok(3)[OF s, of w'] by (simp add: Enroll cert_perform_def run)
next
  case (Revoke i reason)
  then show ?thesis using revoke_effect[OF assms, of "au_collate au" i reason] by (simp add: cert_perform_def) (metis prod.collapse)
next
  case (CertTime t)
  then show ?thesis using same_certs_ok[of w "w\<lparr>cr_clock := t\<rparr>"] assms by (simp add: cert_perform_def same_certs_def)
next
  case (CertOutside y)
  then show ?thesis using same_certs_ok[of w "w\<lparr>cr_outside := y\<rparr>"] assms by (simp add: cert_perform_def same_certs_def)
qed

lemma register_over_time:
  "register_ok au w \<Longrightarrow> register_ok au (fold (cert_perform au) acts w) \<and> rows_later w (fold (cert_perform au) acts w)"
proof (induction acts arbitrary: w)
  case (Cons a acts)
  note e = cert_perform_effect[OF Cons.prems, of a]
  show ?case using Cons.IH[OF conjunct1[OF e]] e rows_later_trans by fastforce
qed simp


text \<open>An authority that signs every request, under the name that was asked for, with a running number.\<close>

definition demo_authority :: "nat authority" where
  "demo_authority = \<lparr>au_mount = ''pki'', au_role = ''dfsp-client'', au_ttl = None, au_collate = toLowerCase,
     au_csr = (\<lambda>s. Some (Rsa 2048)),
     au_certificate = (\<lambda>pem. Some \<lparr>xc_sha256 = pem, xc_subject = [(Some ''CN'', ''commonName'', takeWhile (\<lambda>c. c \<noteq> CHR ''#'') pem)],
        xc_serial = [], xc_notBefore = 0, xc_notAfter = 100\<rparr>),
     au_sign = (\<lambda>q n. (Inr \<lparr>sc_certificatePem = sg_commonName q @ ''#'' @ dec_of_nat n, sc_caChainPem = None,
        sc_serialNumber = dec_of_nat n, sc_expiration = None\<rparr>, Suc n))\<rparr>"

definition demo_certs :: "nat cert_world" where
  "demo_certs = \<lparr>cr_certs = [], cr_next = 0, cr_replica = [], cr_participants = [\<lparr>pa_id = Some 1, pa_name = ''dfsp'', pa_jwsPublicKey = None,
     pa_jwsPrivateKey = None, pa_accessPublicKey = []\<rparr>], cr_clock = 7, cr_outside = 1\<rparr>"

definition demo_cert_acts :: "nat cert_action list" where
  "demo_cert_acts = [Enroll ''dfsp'' ''CSR'' None, Enroll ''dfsp '' ''CSR'' None, Revoke (Some 0) (Some ''lost''), Enroll ''dfsp'' ''CSR'' None]"

lemma demo_statuses:
  "map ct_status (cr_certs (fold (cert_perform demo_authority) demo_cert_acts demo_certs)) = [REVOKED, RETIRING, ACTIVE]"
  by code_simp


section \<open>Where the code falls short of its comments\<close>

definition enroll_stale :: "string \<Rightarrow> nat cert_world \<Rightarrow> nat cert_world" where
  "enroll_stale f w = snd (enroll (Some demo_authority) toLowerCase f ''CSR'' None w)"

text \<open>While the replica does not show the first certificate, a second enrollment leaves both active.\<close>

lemma stale_replica_leaves_two_active:
  "map (\<lambda>c. (ct_fspId c, ct_status c)) (cr_certs (enroll_stale ''dfsp'' (enroll_stale ''dfsp'' demo_certs))) = [(''dfsp'', ACTIVE), (''dfsp'', ACTIVE)]"
  by code_simp

text \<open>While the replica still shows a certificate as active that has been revoked, an enrollment makes it usable again.\<close>

lemma stale_replica_undoes_revocation:
  "(let w = enroll_stale ''dfsp'' demo_certs; w' = w\<lparr>cr_replica := cr_certs w\<rparr>; r = snd (revoke toLowerCase (Some 0) None w')
    in (map ct_status (cr_certs r), map (\<lambda>c. (ct_status c, ct_revokedAt c)) (cr_certs (enroll_stale ''dfsp'' r))))
   = ([REVOKED], [(RETIRING, None), (ACTIVE, None)])"
  by code_simp

text \<open>A certificate is issued for a name that no participant bears: the participant is looked up without regard to case.\<close>

lemma certificate_for_nobody:
  "(let w = enroll_stale ''DFSP'' demo_certs in (map ct_fspId (cr_certs w), map pa_name (cr_participants w))) = ([''DFSP''], [''dfsp''])"
  by code_simp

end
