(* ===== verification/Hub_Certificates.thy ===== *)
theory Hub_Certificates
  imports Hub_Secrets Dfsp_Certificates
begin

text \<open>
  The certificates that Pivotal's own authority stands for at the Hub: the registration of that authority under every
  tenant (\<open>mcm-ca-registration.scheduler.ts\<close>) and the client certificate that the Hub presents when it calls back
  (\<open>hub-callback-cert.enroller.ts\<close>), with the flag in Redis that outlives the process (\<open>redis-flag.ts\<close>).
\<close>

section \<open>Registration of the authority\<close>

record dfsp_ca =
  dc_root :: "string option"
  dc_chain :: "string option"

text \<open>The file of the root, the chain of the issuing mount, and the endpoints of MCM (dfsp, root and chain).\<close>

record 'x ca_services =
  ca_path :: string
  ca_readFile :: "string \<Rightarrow> ('x, part_error, string) task"
  ca_readIntermediates :: "('x, part_error, string option) task"
  ca_pivotalDfspId :: "string option"
  ca_getDfspCa :: "string \<Rightarrow> ('x, part_error, dfsp_ca) task"
  ca_registerCa :: "string \<Rightarrow> string \<Rightarrow> string option \<Rightarrow> ('x, part_error, unit) task"
  ca_mcm :: "'x mcm"
  ca_registrar :: "registrar_settings option"

definition readPivotalCa :: "'x ca_services \<Rightarrow> ('x, part_error, string) task" where
  "readPivotalCa s = io_bind (ca_readFile s (ca_path s)) (\<lambda>pem.
     if has_part pem ''BEGIN CERTIFICATE'' then io_return pem
     else io_throw (Thrown (''No usable certificate at '' @ ca_path s @ ''.'')))"

definition BEGIN_MARK :: string where "BEGIN_MARK = ''-----BEGIN CERTIFICATE-----''"
definition END_MARK :: string where "END_MARK = ''-----END CERTIFICATE-----''"

text \<open>The text up to and with the first occurrence of a mark, and the rest.\<close>

fun split_at_mark :: "string \<Rightarrow> string \<Rightarrow> (string \<times> string) option" where
  "split_at_mark t [] = (if t = [] then Some ([], []) else None)"
| "split_at_mark t (c # s) =
     (if take (length t) (c # s) = t then Some (t, drop (length t) (c # s))
      else map_option (\<lambda>(a, b). (c # a, b)) (split_at_mark t s))"

lemma split_at_mark_text: "split_at_mark t s = Some (a, b) \<Longrightarrow> s = a @ b \<and> length t \<le> length a"
proof (induction t s arbitrary: a rule: split_at_mark.induct)
  case (2 t c s)
  show ?case
  proof (cases "take (length t) (c # s) = t")
    case True
    then have "a = t" "b = drop (length t) (c # s)" using 2(2) by auto
    then show ?thesis using append_take_drop_id[of "length t" "c # s"] True by simp
  next
    case False
    then obtain a' where "split_at_mark t s = Some (a', b)" "a = c # a'" using 2(2) by auto
    then show ?thesis using 2(1)[OF False] by fastforce
  qed
qed (auto split: if_splits)

text \<open>The blocks that the regular expression of the code matches.\<close>

function cert_blocks :: "string \<Rightarrow> string list" where
  "cert_blocks s = (case split_at_mark BEGIN_MARK s of
     None \<Rightarrow> []
   | Some (_, rest) \<Rightarrow> (case split_at_mark END_MARK rest of
       None \<Rightarrow> []
     | Some (body, rest') \<Rightarrow> (BEGIN_MARK @ body) # cert_blocks rest'))"
  by pat_completeness auto
termination
proof (relation "measure length")
  fix s p a rest q body rest'
  assume "split_at_mark BEGIN_MARK s = Some p" "(a, rest) = p" "split_at_mark END_MARK rest = Some q" "(body, rest') = q"
  then have s: "s = a @ body @ rest'" and "length BEGIN_MARK \<le> length a" using split_at_mark_text by auto
  moreover have "0 < length BEGIN_MARK" by (simp add: BEGIN_MARK_def)
  ultimately have "0 < length a" by linarith
  then show "(rest', s) \<in> measure length" by (simp add: s)
qed simp

declare cert_blocks.simps [simp del]

definition withoutCertificate :: "string option \<Rightarrow> string \<Rightarrow> string option" where
  "withoutCertificate chain certificate =
     (let kept = filter (\<lambda>b. \<not> samePem b certificate) (cert_blocks (nullish chain []))
      in if kept = [] then None else Some (join_with [CHR 0x0A] kept))"

text \<open>The elements of a JavaScript \<open>Set\<close> that is built from a list.\<close>

definition set_elements :: "'a list \<Rightarrow> 'a list" where
  "set_elements xs = rev (remdups (rev xs))"

definition ca_tenants :: "'x ca_services \<Rightarrow> 'x tenants \<Rightarrow> string list" where
  "ca_tenants s w = set_elements
     (map pk_fspId (filter (\<lambda>k. pk_role k = Self) (tn_replica w)) @ (case ca_pivotalDfspId s of None \<Rightarrow> [] | Some i \<Rightarrow> [i]))"

record ca_result =
  cn_tenants :: nat
  cn_registered :: nat
  cn_alreadyCorrect :: nat
  cn_failed :: nat

definition ca_correct :: "dfsp_ca option \<Rightarrow> string \<Rightarrow> string option \<Rightarrow> bool" where
  "ca_correct current certificate chain \<longleftrightarrow>
     (case Option.bind current dc_root of None \<Rightarrow> False | Some held_root \<Rightarrow> samePem held_root certificate) \<and>
     samePem (nullish (Option.bind current dc_chain) []) (nullish chain [])"

text \<open>Whether the authority had to be registered for a DFSP.\<close>

definition register_ca :: "'x ca_services \<Rightarrow> string \<Rightarrow> string option \<Rightarrow> string \<Rightarrow> ('x, bool) tenant_task" where
  "register_ca s certificate chain fspId =
     io_bind (case ca_registrar s of None \<Rightarrow> io_return Disabled | Some g \<Rightarrow> ensureRegistered (ca_mcm s) g fspId) (\<lambda>_.
     io_bind (io_catch (io_bind (outside (ca_getDfspCa s fspId)) (\<lambda>ca. io_return (Some ca))) (\<lambda>_. io_return None)) (\<lambda>current.
     if ca_correct current certificate chain then io_return False
     else io_bind (outside (ca_registerCa s fspId certificate chain)) (\<lambda>_. io_return True)))"

fun register_all :: "'x ca_services \<Rightarrow> string \<Rightarrow> string option \<Rightarrow> string list \<Rightarrow> ca_result \<Rightarrow> 'x tenants \<Rightarrow> ca_result \<times> 'x tenants" where
  "register_all s certificate chain [] c w = (c, w)"
| "register_all s certificate chain (f # fs) c w =
     (case register_ca s certificate chain f w of
        (Inl _, w') \<Rightarrow> register_all s certificate chain fs (c\<lparr>cn_failed := Suc (cn_failed c)\<rparr>) w'
      | (Inr new, w') \<Rightarrow> register_all s certificate chain fs
          (if new then c\<lparr>cn_registered := Suc (cn_registered c)\<rparr> else c\<lparr>cn_alreadyCorrect := Suc (cn_alreadyCorrect c)\<rparr>) w')"

definition ca_reconcile :: "'x ca_services \<Rightarrow> ('x, ca_result) tenant_task" where
  "ca_reconcile s =
     io_bind (outside (readPivotalCa s)) (\<lambda>certificate.
     io_bind (outside (ca_readIntermediates s)) (\<lambda>intermediates w.
     case register_all s certificate (withoutCertificate intermediates certificate) (ca_tenants s w)
            \<lparr>cn_tenants = length (ca_tenants s w), cn_registered = 0, cn_alreadyCorrect = 0, cn_failed = 0\<rparr> w of
       (c, w') \<Rightarrow> (Inr c, w')))"

section \<open>The authority is registered everywhere\<close>

text \<open>\<open>view x f\<close> is the authority that MCM holds for \<open>f\<close>.  A registration is kept, or fails and leaves the other DFSPs alone.\<close>

definition ca_store :: "'x ca_services \<Rightarrow> ('x \<Rightarrow> string \<Rightarrow> dfsp_ca) \<Rightarrow> bool" where
  "ca_store s view \<longleftrightarrow>
     (\<forall>x r x'. mc_listDfsps (ca_mcm s) x = (r, x') \<longrightarrow> view x' = view x) \<and>
     (\<forall>q x r x'. mc_createDfsp (ca_mcm s) q x = (r, x') \<longrightarrow> view x' = view x) \<and>
     (\<forall>f x r x'. ca_getDfspCa s f x = (r, x') \<longrightarrow> view x' = view x \<and> (\<forall>ca. r = Inr ca \<longrightarrow> ca = view x f)) \<and>
     (\<forall>f cert chain x r x'. ca_registerCa s f cert chain x = (r, x') \<longrightarrow>
        (\<forall>g. g \<noteq> f \<longrightarrow> view x' g = view x g) \<and> (r = Inr () \<longrightarrow> view x' f = \<lparr>dc_root = Some cert, dc_chain = chain\<rparr>))"

lemma registrar_keeps:
  assumes store: "ca_store s view" and run: "ensureRegistered (ca_mcm s) g f w = (r, w')"
  shows "view (tn_outside w') = view (tn_outside w)"
proof -
  have e: "view (tn_outside w2) = view (tn_outside w1)" if "dfsp_exists (ca_mcm s) f w1 = (x, w2)" for x w1 w2
    using that store by (auto simp: dfsp_exists_def outside_def io_on_def ca_store_def remember_def Let_def split: prod.splits sum.splits)
  have c: "view (tn_outside w2) = view (tn_outside w1)" if "outside (mc_createDfsp (ca_mcm s) q) w1 = (x, w2)" for q x w1 w2
    using that store by (auto simp: outside_def io_on_def ca_store_def split: prod.splits)
  have m: "tn_outside (remember ids w1) = tn_outside w1" for ids and w1 :: "'a tenants" by (simp add: remember_def)
  show ?thesis
    using run by (auto simp: ensureRegistered_def io_bind_def io_catch_def m split: if_splits prod.splits sum.splits dest!: e c)
qed

lemma register_ca_effect:
  assumes store: "ca_store s view" and run: "register_ca s cert chain f w = (r, w')"
  shows "g \<noteq> f \<Longrightarrow> view (tn_outside w') g = view (tn_outside w) g"
    "r = Inr b \<Longrightarrow> ca_correct (Some (view (tn_outside w') f)) cert chain"
proof -
  obtain a w1 where reg: "(case ca_registrar s of None \<Rightarrow> io_return Disabled | Some g \<Rightarrow> ensureRegistered (ca_mcm s) g f) w = (a, w1)" by fastforce
  have v1: "view (tn_outside w1) = view (tn_outside w)" using reg by (auto split: option.splits dest: registrar_keeps[OF store])
  have "(g \<noteq> f \<longrightarrow> view (tn_outside w') g = view (tn_outside w) g) \<and> (r = Inr b \<longrightarrow> ca_correct (Some (view (tn_outside w') f)) cert chain)"
  proof (cases a)
    case (Inl e)
    then have "r = Inl e" "w' = w1" using run reg by (simp_all add: register_ca_def io_bind_Inl)
    then show ?thesis using v1 by simp
  next
    case (Inr u)
    obtain q x where q: "ca_getDfspCa s f (tn_outside w1) = (q, x)" by fastforce
    define current where "current = (case q of Inl _ \<Rightarrow> None | Inr ca \<Rightarrow> Some ca)"
    have v2: "view x = view (tn_outside w)" "\<And>ca. q = Inr ca \<Longrightarrow> ca = view (tn_outside w) f"
      using store q v1 unfolding ca_store_def by (metis, metis)
    have run2: "(if ca_correct current cert chain then io_return False
        else io_bind (outside (ca_registerCa s f cert chain)) (\<lambda>_. io_return True)) (w1\<lparr>tn_outside := x\<rparr>) = (r, w')"
      using run reg Inr q by (auto simp: register_ca_def io_bind_def io_catch_def outside_def io_on_def current_def split: sum.splits)
    show ?thesis
    proof (cases "ca_correct current cert chain")
      case True
      then obtain ca where "q = Inr ca" by (cases q) (auto simp: current_def ca_correct_def)
      then show ?thesis using True run2 v2 by (auto simp: current_def)
    next
      case False
      obtain p y where p: "ca_registerCa s f cert chain x = (p, y)" by fastforce
      then have "w' = w1\<lparr>tn_outside := y\<rparr>" "r = map_sum id (\<lambda>_. True) p"
        using run2 False by (auto simp: io_bind_def outside_def io_on_def split: sum.splits)
      moreover have "(\<forall>g. g \<noteq> f \<longrightarrow> view y g = view x g) \<and> (p = Inr () \<longrightarrow> view y f = \<lparr>dc_root = Some cert, dc_chain = chain\<rparr>)"
        using store p unfolding ca_store_def by blast
      ultimately show ?thesis using v2(1) by (cases p) (auto simp: ca_correct_def samePem_def)
    qed
  qed
  then show "g \<noteq> f \<Longrightarrow> view (tn_outside w') g = view (tn_outside w) g"
    "r = Inr b \<Longrightarrow> ca_correct (Some (view (tn_outside w') f)) cert chain" by blast+
qed

lemma register_all_effect:
  assumes "ca_store s view" "register_all s cert chain fs c w = (c', w')"
  shows "cn_failed c \<le> cn_failed c'"
    "cn_failed c' = cn_failed c \<Longrightarrow> f \<in> set fs \<or> ca_correct (Some (view (tn_outside w) f)) cert chain \<Longrightarrow>
       ca_correct (Some (view (tn_outside w') f)) cert chain"
  using assms(2)
proof (atomize (full), induction fs arbitrary: c w)
  case (Cons h fs)
  obtain r w1 where reg: "register_ca s cert chain h w = (r, w1)" by fastforce
  note e = register_ca_effect[OF assms(1) reg]
  show ?case
  proof (cases r)
    case (Inl er)
    then have "register_all s cert chain fs (c\<lparr>cn_failed := Suc (cn_failed c)\<rparr>) w1 = (c', w')" using Cons.prems reg by simp
    then show ?thesis using Cons.IH[of "c\<lparr>cn_failed := Suc (cn_failed c)\<rparr>" w1] by auto
  next
    case (Inr b)
    define c1 where "c1 = (if b then c\<lparr>cn_registered := Suc (cn_registered c)\<rparr> else c\<lparr>cn_alreadyCorrect := Suc (cn_alreadyCorrect c)\<rparr>)"
    have "register_all s cert chain fs c1 w1 = (c', w')" "cn_failed c1 = cn_failed c" using Cons.prems reg Inr by (simp_all add: c1_def)
    moreover have "ca_correct (Some (view (tn_outside w1) f)) cert chain" if "f = h \<or> ca_correct (Some (view (tn_outside w) f)) cert chain"
      using e(1)[of f] e(2)[OF Inr] that by (cases "f = h") auto
    ultimately show ?thesis using Cons.IH[of c1 w1] by auto
  qed
qed simp

text \<open>A pass that reports no failure leaves the authority registered, up to white space, for every own tenant and for Pivotal itself.\<close>

lemma ca_registered_everywhere:
  assumes "ca_store s view" "ca_reconcile s w = (Inr c, w')" "cn_failed c = 0" "f \<in> set (ca_tenants s w)"
  shows "\<exists>cert chain. ca_correct (Some (view (tn_outside w') f)) cert chain \<and> has_part cert ''BEGIN CERTIFICATE''"
proof -
  obtain cert w1 where 1: "outside (readPivotalCa s) w = (Inr cert, w1)" "io_bind (outside (ca_readIntermediates s)) (\<lambda>intermediates w.
     case register_all s cert (withoutCertificate intermediates cert) (ca_tenants s w)
            \<lparr>cn_tenants = length (ca_tenants s w), cn_registered = 0, cn_alreadyCorrect = 0, cn_failed = 0\<rparr> w of
       (c, w') \<Rightarrow> (Inr c, w')) w1 = (Inr c, w')"
    using assms(2) unfolding ca_reconcile_def io_bind_Inr_iff by blast
  obtain i w2 where 2: "outside (ca_readIntermediates s) w1 = (Inr i, w2)"
    and run: "register_all s cert (withoutCertificate i cert) (ca_tenants s w2)
            \<lparr>cn_tenants = length (ca_tenants s w2), cn_registered = 0, cn_alreadyCorrect = 0, cn_failed = 0\<rparr> w2 = (c, w')"
    using 1(2) by (auto simp: io_bind_def split: sum.splits prod.splits)
  have "ca_tenants s w2 = ca_tenants s w"
    using outside_tables[OF 1(1)] outside_tables[OF 2] by (simp add: ca_tenants_def same_tables_def)
  moreover have "has_part cert ''BEGIN CERTIFICATE''"
    using 1(1) by (auto simp: outside_def io_on_def readPivotalCa_def io_bind_def split: prod.splits sum.splits if_splits)
  ultimately show ?thesis using register_all_effect(2)[OF assms(1) run] assms(3,4) by auto
qed

section \<open>The flag in Redis\<close>

text \<open>The three commands that a flag uses; each may fail.\<close>

record 'x flag_commands =
  fl_exists :: "('x, part_error, bool) task"
  fl_set :: "('x, part_error, unit) task"
  fl_del :: "('x, part_error, unit) task"

definition flag_isSet :: "'x flag_commands \<Rightarrow> ('x, part_error, bool) task" where
  "flag_isSet f = io_catch (fl_exists f) (\<lambda>_. io_return False)"

definition flag_set :: "'x flag_commands \<Rightarrow> ('x, part_error, unit) task" where
  "flag_set f = io_catch (fl_set f) (\<lambda>_. io_return ())"

definition flag_clear :: "'x flag_commands \<Rightarrow> ('x, part_error, unit) task" where
  "flag_clear f = io_catch (fl_del f) (\<lambda>_. io_return ())"

section \<open>The certificate that the Hub presents\<close>

definition CSR_LOADED :: string where "CSR_LOADED = ''CSR_LOADED''"
definition CERT_SIGNED :: string where "CERT_SIGNED = ''CERT_SIGNED''"

record outbound_enrollment =
  oe_id :: nat
  oe_state :: string
  oe_csr :: "string option"
  oe_certificate :: "string option"

record callback_settings =
  cb_dfspId :: string
  cb_commonName :: string
  cb_pkiMount :: string
  cb_pkiRole :: string
  cb_renewBeforeDays :: int

text \<open>The endpoints of MCM (for a DFSP), the signer in Vault, the flag, the expiry of a certificate and the clock.\<close>

record 'x callback_services =
  cs_list :: "string \<Rightarrow> ('x, part_error, outbound_enrollment list) task"
  cs_createCsr :: "string \<Rightarrow> ('x, part_error, outbound_enrollment) task"
  cs_upload :: "string \<Rightarrow> nat \<Rightarrow> string \<Rightarrow> ('x, part_error, outbound_enrollment) task"
  cs_onboard :: "string \<Rightarrow> ('x, part_error, unit) task"
  cs_getDfspCa :: "string \<Rightarrow> ('x, part_error, dfsp_ca) task"
  cs_sign :: "sign_request \<Rightarrow> ('x, part_error, signed_certificate) task"
  cs_flag :: "'x flag_commands"
  cs_notAfter :: "string \<Rightarrow> int option"
  cs_clock :: "'x \<Rightarrow> int"

record 'x callback_pod =
  cp_onboardPending :: bool
  cp_outside :: 'x

type_synonym ('x, 'a) callback_task = "('x callback_pod, part_error, 'a) task"

datatype callback_outcome = Current | Renewed | PublishedAgain | WaitingForCa

definition at_hub :: "('x, part_error, 'a) task \<Rightarrow> ('x, 'a) callback_task" where
  "at_hub m = io_on cp_outside (\<lambda>x w. w\<lparr>cp_outside := x\<rparr>) m"

definition newest :: "outbound_enrollment list \<Rightarrow> string \<Rightarrow> outbound_enrollment option" where
  "newest es state = (case sort_key (\<lambda>e. - int (oe_id e)) (filter (\<lambda>e. oe_state e = state) es) of [] \<Rightarrow> None | e # _ \<Rightarrow> Some e)"

definition has_csr :: "outbound_enrollment \<Rightarrow> bool" where
  "has_csr e \<longleftrightarrow> nullish (oe_csr e) [] \<noteq> []"

definition pendingCsr :: "'x callback_services \<Rightarrow> callback_settings \<Rightarrow> outbound_enrollment list \<Rightarrow> outbound_enrollment option \<Rightarrow> ('x, part_error, outbound_enrollment) task" where
  "pendingCsr s c enrollments current =
     (let create = io_bind (cs_createCsr s (cb_dfspId c)) (\<lambda>created.
            if has_csr created then io_return created
            else io_throw (Thrown (''MCM returned no CSR for '' @ quoted (cb_dfspId c) @ ''.'')))
      in case newest (filter (\<lambda>e. case current of None \<Rightarrow> True | Some k \<Rightarrow> oe_id k < oe_id e) enrollments) CSR_LOADED of
           Some waiting \<Rightarrow> if has_csr waiting then io_return waiting else create
         | None \<Rightarrow> create)"

definition ONBOARD_ATTEMPTS :: nat where "ONBOARD_ATTEMPTS = 3"

text \<open>The message of an \<open>Error\<close>: the exceptions of the program pass their description on.\<close>

definition error_message :: "part_error \<Rightarrow> string" where
  "error_message e = (case e of Pivotal _ d \<Rightarrow> d | LedgerRefused _ d \<Rightarrow> d | McmRefused _ d _ \<Rightarrow> d | PermanentPublish m \<Rightarrow> m | Thrown m \<Rightarrow> m)"

definition not_onboarded :: "callback_settings \<Rightarrow> part_error \<Rightarrow> part_error" where
  "not_onboarded c e = Thrown (''The certificate is uploaded but onboarding '' @ quoted (cb_dfspId c)
     @ '' failed, so the Hub still presents the previous one. Retrying next tick, also after a restart; POST /dfsps/''
     @ cb_dfspId c @ ''/onboard publishes it by hand. '' @ error_message e)"

text \<open>With \<open>n\<close> further attempts; the wait between two is not modelled.\<close>

fun onboard_attempts :: "'x callback_services \<Rightarrow> callback_settings \<Rightarrow> nat \<Rightarrow> ('x, unit) callback_task" where
  "onboard_attempts s c n w = (case at_hub (cs_onboard s (cb_dfspId c)) w of
     (Inr _, w') \<Rightarrow> at_hub (flag_clear (cs_flag s)) (w'\<lparr>cp_onboardPending := False\<rparr>)
   | (Inl e, w') \<Rightarrow> (case n of 0 \<Rightarrow> (Inl (not_onboarded c e), w') | Suc m \<Rightarrow> onboard_attempts s c m w'))"

declare onboard_attempts.simps [simp del]

definition onboard :: "'x callback_services \<Rightarrow> callback_settings \<Rightarrow> ('x, unit) callback_task" where
  "onboard s c = onboard_attempts s c (ONBOARD_ATTEMPTS - 1)"

definition caRegistered :: "'x callback_services \<Rightarrow> callback_settings \<Rightarrow> ('x, part_error, bool) task" where
  "caRegistered s c = io_catch (io_bind (cs_getDfspCa s (cb_dfspId c)) (\<lambda>ca. io_return (has_part (nullish (dc_root ca) []) ''BEGIN CERTIFICATE'')))
     (\<lambda>_. io_return False)"

definition set_pending :: "('x, unit) callback_task" where
  "set_pending w = (Inr (), w\<lparr>cp_onboardPending := True\<rparr>)"

text \<open>The flag is read only where the process does not know of a pending onboarding.\<close>

definition recall_pending :: "'x callback_services \<Rightarrow> ('x, unit) callback_task" where
  "recall_pending s = io_bind (io_gets cp_onboardPending) (\<lambda>pending.
     if pending then io_return ()
     else io_bind (at_hub (flag_isSet (cs_flag s))) (\<lambda>flagged. if flagged then set_pending else io_return ()))"

definition sign_and_upload :: "'x callback_services \<Rightarrow> callback_settings \<Rightarrow> outbound_enrollment \<Rightarrow> ('x, unit) callback_task" where
  "sign_and_upload s c pending =
     io_bind (at_hub (cs_sign s \<lparr>sg_mount = cb_pkiMount c, sg_role = cb_pkiRole c, sg_csrPem = the (oe_csr pending),
                sg_commonName = cb_commonName c, sg_ttl = None\<rparr>)) (\<lambda>signed.
     io_bind (at_hub (cs_upload s (cb_dfspId c) (oe_id pending) (sc_certificatePem signed))) (\<lambda>uploaded.
     if oe_state uploaded \<noteq> CERT_SIGNED
     then io_throw (Thrown (''MCM did not accept the certificate for enrollment '' @ dec_of_nat (oe_id pending)
            @ '' (state '' @ oe_state uploaded @ '').''))
     else io_return ()))"

definition renewIfNeeded :: "'x callback_services \<Rightarrow> callback_settings \<Rightarrow> ('x, callback_outcome) callback_task" where
  "renewIfNeeded s c =
     io_bind (at_hub (cs_list s (cb_dfspId c))) (\<lambda>enrollments.
     io_bind (io_gets (\<lambda>w. cs_clock s (cp_outside w))) (\<lambda>clock.
     let current = newest enrollments CERT_SIGNED;
         daysLeft = daysUntilExpiry (cs_notAfter s) clock (Option.bind current oe_certificate);
         fresh = (case daysLeft of Some n \<Rightarrow> cb_renewBeforeDays c < n | None \<Rightarrow> False)
     in io_bind (recall_pending s) (\<lambda>_.
        io_bind (io_gets cp_onboardPending) (\<lambda>pending.
        if fresh \<and> \<not> pending then io_return Current
        else io_bind (at_hub (caRegistered s c)) (\<lambda>registered.
          if \<not> registered then io_return WaitingForCa
          else if fresh then io_bind (onboard s c) (\<lambda>_. io_return PublishedAgain)
          else io_bind (at_hub (pendingCsr s c enrollments current)) (\<lambda>csr.
               io_bind (sign_and_upload s c csr) (\<lambda>_.
               io_bind set_pending (\<lambda>_.
               io_bind (at_hub (flag_set (cs_flag s))) (\<lambda>_.
               io_bind (onboard s c) (\<lambda>_. io_return Renewed))))))))))"

section \<open>What the Hub uses\<close>

text \<open>
  The newest certificate that MCM has for the Hub, the one that the Hub was last given, and the flag in Redis.  Onboarding
  gives the Hub the newest; one that fails may have been done.  An upload that is refused changes nothing.
\<close>

record hub_view =
  hv_newest :: "nat option"
  hv_onboarded :: "nat option"
  hv_flag :: bool

definition onboarded :: "hub_view \<Rightarrow> hub_view" where
  "onboarded v = v\<lparr>hv_onboarded := hv_newest v\<rparr>"

definition owed :: "hub_view \<Rightarrow> bool" where
  "owed v \<longleftrightarrow> hv_newest v \<noteq> hv_onboarded v"

definition callback_laws :: "'x callback_services \<Rightarrow> ('x \<Rightarrow> hub_view) \<Rightarrow> bool" where
  "callback_laws s view \<longleftrightarrow>
     (\<forall>f x r x'. cs_list s f x = (r, x') \<longrightarrow> view x' = view x) \<and>
     (\<forall>f x r x'. cs_createCsr s f x = (r, x') \<longrightarrow> view x' = view x) \<and>
     (\<forall>f x r x'. cs_getDfspCa s f x = (r, x') \<longrightarrow> view x' = view x) \<and>
     (\<forall>q x r x'. cs_sign s q x = (r, x') \<longrightarrow> view x' = view x) \<and>
     (\<forall>f i pem x r x'. cs_upload s f i pem x = (r, x') \<longrightarrow> view x' = view x \<or>
        (\<exists>u k. r = Inr u \<and> oe_state u = CERT_SIGNED \<and> view x' = (view x)\<lparr>hv_newest := k\<rparr>)) \<and>
     (\<forall>f x r x'. cs_onboard s f x = (r, x') \<longrightarrow> view x' = onboarded (view x) \<or> view x' = view x \<and> (\<exists>e. r = Inl e)) \<and>
     (\<forall>x r x'. fl_exists (cs_flag s) x = (r, x') \<longrightarrow> view x' = view x \<and> (\<forall>b. r = Inr b \<longrightarrow> b = hv_flag (view x))) \<and>
     (\<forall>x r x'. fl_set (cs_flag s) x = (r, x') \<longrightarrow> (\<exists>b. view x' = (view x)\<lparr>hv_flag := b\<rparr> \<and> (hv_flag (view x) \<longrightarrow> b))) \<and>
     (\<forall>x r x'. fl_del (cs_flag s) x = (r, x') \<longrightarrow> (\<exists>b. view x' = (view x)\<lparr>hv_flag := b\<rparr>))"

text \<open>Redis records the flag whenever it is set.\<close>

definition durable :: "'x callback_services \<Rightarrow> ('x \<Rightarrow> hub_view) \<Rightarrow> bool" where
  "durable s view \<longleftrightarrow> (\<forall>x r x'. fl_set (cs_flag s) x = (r, x') \<longrightarrow> hv_flag (view x'))"

text \<open>Onboarding that is owed is remembered: in Redis, or by the process where Redis may have missed it.\<close>

definition remembered :: "'x callback_services \<Rightarrow> ('x \<Rightarrow> hub_view) \<Rightarrow> 'x callback_pod \<Rightarrow> bool" where
  "remembered s view w \<longleftrightarrow> (owed (view (cp_outside w)) \<longrightarrow> hv_flag (view (cp_outside w)) \<or> \<not> durable s view \<and> cp_onboardPending w)"

definition same_hub :: "('x \<Rightarrow> hub_view) \<Rightarrow> 'x callback_pod \<Rightarrow> 'x callback_pod \<Rightarrow> bool" where
  "same_hub view w w' \<longleftrightarrow> view (cp_outside w') = view (cp_outside w) \<and> cp_onboardPending w' = cp_onboardPending w"

lemma same_hub_remembered: "same_hub view w w' \<Longrightarrow> remembered s view w' = remembered s view w"
  by (simp add: same_hub_def remembered_def)

lemma same_hub_trans: "same_hub view a b \<Longrightarrow> same_hub view b c \<Longrightarrow> same_hub view a c"
  by (simp add: same_hub_def)

lemma at_hub_eq: "at_hub m w = (r, w') \<longleftrightarrow> (\<exists>x. m (cp_outside w) = (r, x) \<and> w' = w\<lparr>cp_outside := x\<rparr>)"
  by (simp add: at_hub_def io_on_eq)

lemma at_hub_cases:
  assumes "io_bind (at_hub m) f w = (r, w')" "\<And>x r x'. m x = (r, x') \<Longrightarrow> view x' = view x"
  obtains (fail) e where "r = Inl e" "same_hub view w w'"
  | (ok) a w1 where "m (cp_outside w) = (Inr a, cp_outside w1)" "same_hub view w w1" "f a w1 = (r, w')"
  using assms(1)
proof (rule io_bind_cases)
  fix e assume "at_hub m w = (Inl e, w')" "r = Inl e"
  then show ?thesis using fail assms(2) by (auto simp: at_hub_eq same_hub_def)
next
  fix a w1 assume "at_hub m w = (Inr a, w1)" "f a w1 = (r, w')"
  then obtain x where x: "m (cp_outside w) = (Inr a, x)" "w1 = w\<lparr>cp_outside := x\<rparr>" "f a w1 = (r, w')" by (auto simp: at_hub_eq)
  show ?thesis by (rule ok[of a w1]) (use x assms(2)[OF x(1)] in \<open>simp_all add: same_hub_def\<close>)
qed

text \<open>The four requests that change nothing, and the composed ones.\<close>

lemma reads_keep:
  assumes "callback_laws s view"
  shows "cs_list s f x = (l, x') \<Longrightarrow> view x' = view x" "cs_createCsr s f x = (e, x') \<Longrightarrow> view x' = view x"
    "cs_getDfspCa s f x = (d, x') \<Longrightarrow> view x' = view x" "cs_sign s q x = (g, x') \<Longrightarrow> view x' = view x"
    "fl_exists (cs_flag s) x = (b, x') \<Longrightarrow> view x' = view x"
  using assms by (auto simp: callback_laws_def)

lemma caRegistered_keeps: "callback_laws s view \<Longrightarrow> caRegistered s c x = (r, x') \<Longrightarrow> view x' = view x"
  by (auto simp: caRegistered_def io_catch_def io_bind_def dest: reads_keep split: prod.splits sum.splits)

lemma pendingCsr_keeps: "callback_laws s view \<Longrightarrow> pendingCsr s c es current x = (r, x') \<Longrightarrow> view x' = view x"
  by (auto simp: pendingCsr_def io_bind_def Let_def dest: reads_keep split: prod.splits sum.splits option.splits if_splits)

lemma flag_isSet_keeps: "callback_laws s view \<Longrightarrow> flag_isSet (cs_flag s) x = (r, x') \<Longrightarrow> view x' = view x"
  by (auto simp: flag_isSet_def io_catch_def dest: reads_keep split: prod.splits sum.splits)

lemma onboard_attempts_effect:
  assumes laws: "callback_laws s view" and "onboard_attempts s c n w = (r, w')" "remembered s view w"
  shows "remembered s view w'" "r = Inr () \<Longrightarrow> \<not> owed (view (cp_outside w'))"
  using assms(2,3)
proof (atomize (full), induction n arbitrary: w)
  case (Suc n)
  obtain q w1 where o: "at_hub (cs_onboard s (cb_dfspId c)) w = (q, w1)" by fastforce
  show ?case
  proof (cases q)
    case (Inl e)
    have v: "view (cp_outside w1) = onboarded (view (cp_outside w)) \<or> view (cp_outside w1) = view (cp_outside w)"
      "cp_onboardPending w1 = cp_onboardPending w"
      using o laws unfolding at_hub_eq callback_laws_def by fastforce+
    have "remembered s view w1" if "remembered s view w"
      using that v by (auto simp: remembered_def onboarded_def owed_def)
    moreover have "onboard_attempts s c n w1 = (r, w')" using Suc.prems(1) o Inl by (simp add: onboard_attempts.simps[of s c "Suc n" w])
    ultimately show ?thesis using Suc.IH Suc.prems(2) by blast
  next
    case (Inr u)
    have v: "view (cp_outside w1) = onboarded (view (cp_outside w))"
      using o laws unfolding Inr at_hub_eq callback_laws_def by fastforce
    obtain p w2 where clear: "at_hub (flag_clear (cs_flag s)) (w1\<lparr>cp_onboardPending := False\<rparr>) = (p, w2)" by fastforce
    have "\<exists>b. view (cp_outside w2) = (view (cp_outside w1))\<lparr>hv_flag := b\<rparr>"
      using clear laws unfolding at_hub_eq callback_laws_def flag_clear_def io_catch_def by (fastforce split: prod.splits sum.splits)
    then have "\<not> owed (view (cp_outside w2))" using v by (auto simp: onboarded_def owed_def)
    moreover have "w' = w2" using Suc.prems(1) o clear Inr by (simp add: onboard_attempts.simps[of s c "Suc n" w])
    ultimately show ?thesis by (simp add: remembered_def)
  qed
next
  case 0
  obtain q w1 where o: "at_hub (cs_onboard s (cb_dfspId c)) w = (q, w1)" by fastforce
  show ?case
  proof (cases q)
    case (Inl e)
    have "view (cp_outside w1) = onboarded (view (cp_outside w)) \<or> view (cp_outside w1) = view (cp_outside w)"
      "cp_onboardPending w1 = cp_onboardPending w"
      using o laws unfolding at_hub_eq callback_laws_def by fastforce+
    moreover have "r = Inl (not_onboarded c e)" "w' = w1" using 0(1) o Inl by (simp_all add: onboard_attempts.simps[of s c 0 w])
    ultimately show ?thesis using 0(2) by (auto simp: remembered_def onboarded_def owed_def)
  next
    case (Inr u)
    have v: "view (cp_outside w1) = onboarded (view (cp_outside w))"
      using o laws unfolding Inr at_hub_eq callback_laws_def by fastforce
    obtain p w2 where clear: "at_hub (flag_clear (cs_flag s)) (w1\<lparr>cp_onboardPending := False\<rparr>) = (p, w2)" by fastforce
    have "\<exists>b. view (cp_outside w2) = (view (cp_outside w1))\<lparr>hv_flag := b\<rparr>"
      using clear laws unfolding at_hub_eq callback_laws_def flag_clear_def io_catch_def by (fastforce split: prod.splits sum.splits)
    then have "\<not> owed (view (cp_outside w2))" using v by (auto simp: onboarded_def owed_def)
    moreover have "w' = w2" using 0(1) o clear Inr by (simp add: onboard_attempts.simps[of s c 0 w])
    ultimately show ?thesis by (simp add: remembered_def)
  qed
qed

text \<open>Whether the flag can be read.\<close>

definition readable :: "'x callback_services \<Rightarrow> bool" where
  "readable s \<longleftrightarrow> (\<forall>x. \<exists>b x'. fl_exists (cs_flag s) x = (Inr b, x'))"

lemma recall_pending_effect:
  assumes laws: "callback_laws s view" and run: "recall_pending s w = (r, w')" and rem: "remembered s view w"
  shows "r = Inr ()" "remembered s view w'" "readable s \<Longrightarrow> hv_flag (view (cp_outside w')) \<Longrightarrow> cp_onboardPending w'"
proof -
  have "r = Inr () \<and> remembered s view w' \<and> (readable s \<longrightarrow> hv_flag (view (cp_outside w')) \<longrightarrow> cp_onboardPending w')"
  proof (cases "cp_onboardPending w")
    case True
    then show ?thesis using run rem by (simp add: recall_pending_def)
  next
    case False
    obtain q x where q: "fl_exists (cs_flag s) (cp_outside w) = (q, x)" by fastforce
    have v: "view x = view (cp_outside w)" "\<And>b. q = Inr b \<Longrightarrow> b = hv_flag (view (cp_outside w))"
      using laws q unfolding callback_laws_def by blast+
    have "at_hub (flag_isSet (cs_flag s)) w = (Inr (q = Inr True), w\<lparr>cp_outside := x\<rparr>)"
      using q by (cases q) (auto simp: at_hub_eq flag_isSet_def io_catch_def)
    then have res: "r = Inr ()" "w' = w\<lparr>cp_outside := x, cp_onboardPending := (q = Inr True)\<rparr>"
      using run False by (auto simp: recall_pending_def io_bind_def set_pending_def split: if_splits)
    have "q = Inr True" if flag: "readable s" "hv_flag (view (cp_outside w))"
    proof -
      obtain b x' where "fl_exists (cs_flag s) (cp_outside w) = (Inr b, x')" using flag(1) unfolding readable_def by blast
      then show ?thesis using q v(2) flag(2) by auto
    qed
    then show ?thesis using res v(1) rem False by (auto simp: remembered_def)
  qed
  then show "r = Inr ()" "remembered s view w'" "readable s \<Longrightarrow> hv_flag (view (cp_outside w')) \<Longrightarrow> cp_onboardPending w'" by blast+
qed

lemma same_newest: "\<exists>k. v = v\<lparr>hv_newest := k\<rparr>"
  by (rule exI[of _ "hv_newest v"]) simp

lemma sign_and_upload_effect:
  assumes laws: "callback_laws s view" and run: "sign_and_upload s c e w = (r, w')"
  shows "cp_onboardPending w' = cp_onboardPending w" "r = Inl er \<Longrightarrow> view (cp_outside w') = view (cp_outside w)"
    "\<exists>k. view (cp_outside w') = (view (cp_outside w))\<lparr>hv_newest := k\<rparr>"
proof -
  have "cp_onboardPending w' = cp_onboardPending w \<and> (r = Inl er \<longrightarrow> view (cp_outside w') = view (cp_outside w)) \<and>
     (\<exists>k. view (cp_outside w') = (view (cp_outside w))\<lparr>hv_newest := k\<rparr>)"
    using run unfolding sign_and_upload_def
  proof (rule at_hub_cases)
    fix x q x' assume "cs_sign s \<lparr>sg_mount = cb_pkiMount c, sg_role = cb_pkiRole c, sg_csrPem = the (oe_csr e),
                sg_commonName = cb_commonName c, sg_ttl = None\<rparr> x = (q, x')"
    then show "view x' = view x" by (rule reads_keep(4)[OF laws])
  next
    fix er' assume "same_hub view w w'"
    then show ?thesis by (auto simp: same_hub_def same_newest)
  next
    fix signed w1
    assume 1: "same_hub view w w1" "io_bind (at_hub (cs_upload s (cb_dfspId c) (oe_id e) (sc_certificatePem signed))) (\<lambda>uploaded.
     if oe_state uploaded \<noteq> CERT_SIGNED
     then io_throw (Thrown (''MCM did not accept the certificate for enrollment '' @ dec_of_nat (oe_id e)
            @ '' (state '' @ oe_state uploaded @ '').''))
     else io_return ()) w1 = (r, w')"
    obtain q x where q: "cs_upload s (cb_dfspId c) (oe_id e) (sc_certificatePem signed) (cp_outside w1) = (q, x)" by fastforce
    have "view x = view (cp_outside w1) \<or> (\<exists>u k. q = Inr u \<and> oe_state u = CERT_SIGNED \<and> view x = (view (cp_outside w1))\<lparr>hv_newest := k\<rparr>)"
      using laws q unfolding callback_laws_def by blast
    moreover have "at_hub (cs_upload s (cb_dfspId c) (oe_id e) (sc_certificatePem signed)) w1 = (q, w1\<lparr>cp_outside := x\<rparr>)"
      using q by (auto simp: at_hub_eq)
    then have "w' = w1\<lparr>cp_outside := x\<rparr>" "r = Inl er \<Longrightarrow> \<not> (\<exists>u. q = Inr u \<and> oe_state u = CERT_SIGNED)"
      using 1(2) by (auto simp: io_bind_def split: sum.splits if_splits)
    ultimately show ?thesis using 1(1) unfolding same_hub_def by (auto simp: same_newest)
  qed
  then show "cp_onboardPending w' = cp_onboardPending w" "r = Inl er \<Longrightarrow> view (cp_outside w') = view (cp_outside w)"
    "\<exists>k. view (cp_outside w') = (view (cp_outside w))\<lparr>hv_newest := k\<rparr>" by blast+
qed

text \<open>From the upload to the onboarding.\<close>

lemma upload_and_onboard_effect:
  assumes laws: "callback_laws s view" and rem: "remembered s view w"
    and run: "io_bind (sign_and_upload s c e) (\<lambda>_. io_bind set_pending (\<lambda>_. io_bind (at_hub (flag_set (cs_flag s))) (\<lambda>_.
        io_bind (onboard s c) (\<lambda>_. io_return Renewed)))) w = (r, w')"
  shows "remembered s view w' \<and> (\<forall>out. r = Inr out \<longrightarrow> \<not> owed (view (cp_outside w')))"
  using run
proof (rule io_bind_cases)
  fix er assume failed: "sign_and_upload s c e w = (Inl er, w')" "r = Inl er"
  then show ?thesis using sign_and_upload_effect(1)[OF laws failed(1)] sign_and_upload_effect(2)[OF laws failed(1) refl] rem
    by (simp add: remembered_def)
next
  fix u w1
  assume 1: "sign_and_upload s c e w = (Inr u, w1)" "io_bind set_pending (\<lambda>_. io_bind (at_hub (flag_set (cs_flag s))) (\<lambda>_.
        io_bind (onboard s c) (\<lambda>_. io_return Renewed))) w1 = (r, w')"
  obtain q x where q: "fl_set (cs_flag s) (cp_outside w1) = (q, x)" by fastforce
  define w2 where "w2 = w1\<lparr>cp_onboardPending := True, cp_outside := x\<rparr>"
  have "at_hub (flag_set (cs_flag s)) (w1\<lparr>cp_onboardPending := True\<rparr>) = (Inr (), w2)"
    using q by (cases q) (auto simp: at_hub_eq flag_set_def io_catch_def w2_def)
  then have run2: "io_bind (onboard s c) (\<lambda>_. io_return Renewed) w2 = (r, w')"
    using 1(2) by (simp add: io_bind_def set_pending_def)
  have "durable s view \<Longrightarrow> hv_flag (view x)" using q unfolding durable_def by blast
  then have rem2: "remembered s view w2" by (auto simp: remembered_def w2_def)
  obtain o' where o': "onboard s c w2 = (o', w')" "r = map_sum id (\<lambda>_. Renewed) o'"
    using run2 by (auto simp: io_bind_def split: prod.splits sum.splits)
  show ?thesis using onboard_attempts_effect[OF laws o'(1)[unfolded onboard_def] rem2] o'(2) by (cases o') auto
qed

lemma renewIfNeeded_effect:
  assumes laws: "callback_laws s view" and run: "renewIfNeeded s c w = (r, w')" and rem: "remembered s view w"
  shows "remembered s view w' \<and> (\<forall>out. readable s \<longrightarrow> r = Inr out \<longrightarrow> out \<noteq> WaitingForCa \<longrightarrow> \<not> owed (view (cp_outside w')))"
  using run unfolding renewIfNeeded_def
proof (rule at_hub_cases)
  fix x q x' assume "cs_list s (cb_dfspId c) x = (q, x')"
  then show "view x' = view x" by (rule reads_keep(1)[OF laws])
next
  fix er assume "r = Inl er" "same_hub view w w'"
  then show ?thesis using rem by (simp add: same_hub_remembered)
next
  fix es w1
  assume 1: "same_hub view w w1" "io_bind (io_gets (\<lambda>w. cs_clock s (cp_outside w))) (\<lambda>clock.
     let current = newest es CERT_SIGNED;
         daysLeft = daysUntilExpiry (cs_notAfter s) clock (Option.bind current oe_certificate);
         fresh = (case daysLeft of Some n \<Rightarrow> cb_renewBeforeDays c < n | None \<Rightarrow> False)
     in io_bind (recall_pending s) (\<lambda>_.
        io_bind (io_gets cp_onboardPending) (\<lambda>pending.
        if fresh \<and> \<not> pending then io_return Current
        else io_bind (at_hub (caRegistered s c)) (\<lambda>registered.
          if \<not> registered then io_return WaitingForCa
          else if fresh then io_bind (onboard s c) (\<lambda>_. io_return PublishedAgain)
          else io_bind (at_hub (pendingCsr s c es current)) (\<lambda>csr.
               io_bind (sign_and_upload s c csr) (\<lambda>_.
               io_bind set_pending (\<lambda>_.
               io_bind (at_hub (flag_set (cs_flag s))) (\<lambda>_.
               io_bind (onboard s c) (\<lambda>_. io_return Renewed))))))))) w1 = (r, w')"
  define current where "current = newest es CERT_SIGNED"
  define fresh where "fresh = (case daysUntilExpiry (cs_notAfter s) (cs_clock s (cp_outside w1)) (Option.bind current oe_certificate) of
    Some n \<Rightarrow> cb_renewBeforeDays c < n | None \<Rightarrow> False)"
  have rem1: "remembered s view w1" using 1(1) rem by (simp add: same_hub_remembered)
  obtain p w2 where recall: "recall_pending s w1 = (p, w2)" by fastforce
  note recalled = recall_pending_effect[OF laws recall rem1]
  have run2: "(if fresh \<and> \<not> cp_onboardPending w2 then io_return Current
        else io_bind (at_hub (caRegistered s c)) (\<lambda>registered.
          if \<not> registered then io_return WaitingForCa
          else if fresh then io_bind (onboard s c) (\<lambda>_. io_return PublishedAgain)
          else io_bind (at_hub (pendingCsr s c es current)) (\<lambda>csr.
               io_bind (sign_and_upload s c csr) (\<lambda>_.
               io_bind set_pending (\<lambda>_.
               io_bind (at_hub (flag_set (cs_flag s))) (\<lambda>_.
               io_bind (onboard s c) (\<lambda>_. io_return Renewed))))))) w2 = (r, w')"
    unfolding current_def fresh_def using 1(2) by (simp only: io_bind_pure Let_def io_bind_Inr[where m = "recall_pending s" and w = w1, OF recall[unfolded recalled(1)]])
  show ?thesis
  proof (cases "fresh \<and> \<not> cp_onboardPending w2")
    case True
    then have "w' = w2" using run2 by simp
    then show ?thesis using recalled(2,3) True by (auto simp: remembered_def)
  next
    case False
    show ?thesis
      using run2[unfolded if_not_P[OF False]]
    proof (rule at_hub_cases)
      fix x q x' assume "caRegistered s c x = (q, x')"
      then show "view x' = view x" by (rule caRegistered_keeps[OF laws])
    next
      fix er assume "r = Inl er" "same_hub view w2 w'"
      then show ?thesis using recalled(2) by (simp add: same_hub_remembered)
    next
      fix registered w3
      assume 3: "same_hub view w2 w3" "(if \<not> registered then io_return WaitingForCa
          else if fresh then io_bind (onboard s c) (\<lambda>_. io_return PublishedAgain)
          else io_bind (at_hub (pendingCsr s c es current)) (\<lambda>csr.
               io_bind (sign_and_upload s c csr) (\<lambda>_.
               io_bind set_pending (\<lambda>_.
               io_bind (at_hub (flag_set (cs_flag s))) (\<lambda>_.
               io_bind (onboard s c) (\<lambda>_. io_return Renewed)))))) w3 = (r, w')"
      have rem3: "remembered s view w3" using 3(1) recalled(2) by (simp add: same_hub_remembered)
      consider (waiting) "\<not> registered" | (again) "registered" "fresh" | (renew) "registered" "\<not> fresh" by blast
      then show ?thesis
      proof cases
        case waiting
        then show ?thesis using 3(2) rem3 by auto
      next
        case again
        obtain o' where o': "onboard s c w3 = (o', w')" "r = map_sum id (\<lambda>_. PublishedAgain) o'"
          using 3(2) again by (auto simp: io_bind_def split: prod.splits sum.splits)
        show ?thesis using onboard_attempts_effect[OF laws o'(1)[unfolded onboard_def] rem3] o'(2) by (cases o') auto
      next
        case renew
        have run4: "io_bind (at_hub (pendingCsr s c es current)) (\<lambda>csr.
               io_bind (sign_and_upload s c csr) (\<lambda>_.
               io_bind set_pending (\<lambda>_.
               io_bind (at_hub (flag_set (cs_flag s))) (\<lambda>_.
               io_bind (onboard s c) (\<lambda>_. io_return Renewed))))) w3 = (r, w')" using 3(2) renew by simp
        then show ?thesis
        proof (rule at_hub_cases)
          fix x q x' assume "pendingCsr s c es current x = (q, x')"
          then show "view x' = view x" by (rule pendingCsr_keeps[OF laws])
        next
          fix er assume "r = Inl er" "same_hub view w3 w'"
          then show ?thesis using rem3 by (simp add: same_hub_remembered)
        next
          fix csr w4
          assume 4: "same_hub view w3 w4" "io_bind (sign_and_upload s c csr) (\<lambda>_. io_bind set_pending (\<lambda>_.
               io_bind (at_hub (flag_set (cs_flag s))) (\<lambda>_. io_bind (onboard s c) (\<lambda>_. io_return Renewed)))) w4 = (r, w')"
          have "remembered s view w4" using 4(1) rem3 by (simp add: same_hub_remembered)
          from upload_and_onboard_effect[OF laws this 4(2)] show ?thesis by blast
        qed
      qed
    qed
  qed
qed


section \<open>Renewal over time\<close>

text \<open>Ticks under the lock, restarts of the process (its memory is lost), and whatever else happens.\<close>

datatype 'x hub_event = Tick | Reboot | Happens 'x

definition hub_event :: "'x callback_services \<Rightarrow> callback_settings \<Rightarrow> ('x, part_error, string option) task \<Rightarrow> (string \<Rightarrow> ('x, part_error, unit) task) \<Rightarrow> 'x hub_event \<Rightarrow> 'x callback_pod \<Rightarrow> 'x callback_pod" where
  "hub_event s c acquire release a w = (case a of
     Tick \<Rightarrow> snd (job_tick (at_hub acquire) (\<lambda>t. at_hub (release t)) (renewIfNeeded s c) w)
   | Reboot \<Rightarrow> w\<lparr>cp_onboardPending := False\<rparr>
   | Happens x \<Rightarrow> w\<lparr>cp_outside := x\<rparr>)"

lemma hub_events_remembered:
  assumes "callback_laws s view" "\<And>x r x'. acquire x = (r, x') \<Longrightarrow> view x' = view x" "\<And>t x r x'. release t x = (r, x') \<Longrightarrow> view x' = view x"
    "durable s view \<or> Reboot \<notin> set acts" "\<forall>x. Happens x \<in> set acts \<longrightarrow> owed (view x) \<longrightarrow> hv_flag (view x)" "remembered s view w"
  shows "remembered s view (fold (hub_event s c acquire release) acts w)"
  using assms(4-6)
proof (induction acts arbitrary: w)
  case (Cons a acts)
  have "remembered s view (hub_event s c acquire release a w)"
  proof (cases a)
    case Tick
    obtain r w' where run: "job_tick (at_hub acquire) (\<lambda>t. at_hub (release t)) (renewIfNeeded s c) w = (r, w')" by fastforce
    have "remembered s view w'"
    proof (rule job_tick_invariant[where P = "remembered s view", OF run Cons.prems(3)])
      show "remembered s view w2" if "renewIfNeeded s c w1 = (q, w2)" "remembered s view w1" for w1 q w2
        using renewIfNeeded_effect[OF assms(1) that] by blast
    qed (use assms(2,3) in \<open>fastforce simp: at_hub_eq remembered_def\<close>)+
    then show ?thesis by (simp add: hub_event_def Tick run)
  qed (use Cons.prems in \<open>auto simp: hub_event_def remembered_def\<close>)
  moreover have "durable s view \<or> Reboot \<notin> set acts" "\<forall>x. Happens x \<in> set acts \<longrightarrow> owed (view x) \<longrightarrow> hv_flag (view x)"
    using Cons.prems(1,2) by auto
  ultimately show ?case using Cons.IH by simp
qed simp


text \<open>
  An MCM with its enrollments, the one that the Hub uses and the flag.  Onboarding fails as often as the counter says; where
  answers are lost, an upload is done and its answer fails.
\<close>

record demo_hub =
  dh_enrollments :: "outbound_enrollment list"
  dh_onboarded :: "nat option"
  dh_flag :: bool
  dh_failures :: nat

definition demo_signed :: "nat \<Rightarrow> string \<Rightarrow> demo_hub \<Rightarrow> demo_hub" where
  "demo_signed i pem x = x\<lparr>dh_enrollments := map (\<lambda>e. if oe_id e = i then e\<lparr>oe_state := CERT_SIGNED, oe_certificate := Some pem\<rparr> else e) (dh_enrollments x)\<rparr>"

definition demo_hub_view :: "demo_hub \<Rightarrow> hub_view" where
  "demo_hub_view x = \<lparr>hv_newest = map_option oe_id (newest (dh_enrollments x) CERT_SIGNED), hv_onboarded = dh_onboarded x, hv_flag = dh_flag x\<rparr>"

definition demo_callback :: "bool \<Rightarrow> demo_hub callback_services" where
  "demo_callback lost = \<lparr>cs_list = (\<lambda>f x. (Inr (dh_enrollments x), x)),
     cs_createCsr = (\<lambda>f x. (Inl (Thrown ''none''), x)),
     cs_upload = (\<lambda>f i pem x. (if lost then Inl (Thrown ''timeout'')
        else Inr \<lparr>oe_id = i, oe_state = CERT_SIGNED, oe_csr = None, oe_certificate = Some pem\<rparr>, demo_signed i pem x)),
     cs_onboard = (\<lambda>f x. case dh_failures x of
        0 \<Rightarrow> (Inr (), x\<lparr>dh_onboarded := map_option oe_id (newest (dh_enrollments x) CERT_SIGNED)\<rparr>)
      | Suc n \<Rightarrow> (Inl (Thrown ''503''), x\<lparr>dh_failures := n\<rparr>)),
     cs_getDfspCa = (\<lambda>f x. (Inr \<lparr>dc_root = Some ''BEGIN CERTIFICATE'', dc_chain = None\<rparr>, x)),
     cs_sign = (\<lambda>q x. (Inr \<lparr>sc_certificatePem = ''BEGIN CERTIFICATE'' @ sg_commonName q, sc_caChainPem = None, sc_serialNumber = [], sc_expiration = None\<rparr>, x)),
     cs_flag = \<lparr>fl_exists = (\<lambda>x. (Inr (dh_flag x), x)), fl_set = (\<lambda>x. (Inr (), x\<lparr>dh_flag := True\<rparr>)), fl_del = (\<lambda>x. (Inr (), x\<lparr>dh_flag := False\<rparr>))\<rparr>,
     cs_notAfter = (\<lambda>pem. Some (86400000 * 365)), cs_clock = (\<lambda>_. 0)\<rparr>"

lemma demo_callback_laws: "callback_laws (demo_callback False) demo_hub_view" "durable (demo_callback False) demo_hub_view"
  by (auto simp: callback_laws_def durable_def demo_callback_def demo_hub_view_def demo_signed_def onboarded_def split: nat.splits)

definition demo_settings :: callback_settings where
  "demo_settings = \<lparr>cb_dfspId = ''pivotal'', cb_commonName = ''in.example'', cb_pkiMount = ''pki'', cb_pkiRole = ''hub'', cb_renewBeforeDays = 30\<rparr>"

definition demo_waiting :: "nat \<Rightarrow> demo_hub callback_pod" where
  "demo_waiting failures = \<lparr>cp_onboardPending = False, cp_outside = \<lparr>dh_enrollments = [\<lparr>oe_id = 4, oe_state = CSR_LOADED, oe_csr = Some ''csr'', oe_certificate = None\<rparr>],
     dh_onboarded = None, dh_flag = False, dh_failures = failures\<rparr>\<rparr>"

text \<open>The runs that the examples below use: one that onboards, one whose onboarding fails, and one after a restart.\<close>

lemmas demo_defs = renewIfNeeded_def recall_pending_def sign_and_upload_def set_pending_def onboard_def ONBOARD_ATTEMPTS_def
  caRegistered_def pendingCsr_def newest_def has_csr_def flag_isSet_def flag_set_def flag_clear_def daysUntilExpiry_def at_hub_def io_on_def
  io_bind_def io_catch_def demo_callback_def demo_settings_def demo_signed_def CSR_LOADED_def CERT_SIGNED_def

definition demo_uploaded :: "bool \<Rightarrow> bool \<Rightarrow> demo_hub callback_pod" where
  "demo_uploaded pending flag = \<lparr>cp_onboardPending = pending, cp_outside = \<lparr>dh_enrollments = [\<lparr>oe_id = 4, oe_state = CERT_SIGNED,
     oe_csr = Some ''csr'', oe_certificate = Some (''BEGIN CERTIFICATE'' @ ''in.example'')\<rparr>], dh_onboarded = None, dh_flag = flag, dh_failures = 0\<rparr>\<rparr>"

lemma demo_failing: "renewIfNeeded (demo_callback False) demo_settings (demo_waiting 3) = (Inl (not_onboarded demo_settings (Thrown ''503'')), demo_uploaded True True)"
  by (simp add: demo_defs demo_waiting_def demo_uploaded_def onboard_attempts.simps eval_nat_numeral)

lemma demo_losing: "renewIfNeeded (demo_callback True) demo_settings (demo_waiting 0) = (Inl (Thrown ''timeout''), demo_uploaded False False)"
  by (simp add: demo_defs demo_waiting_def demo_uploaded_def)

lemma demo_after: "renewIfNeeded (demo_callback lost) demo_settings (demo_uploaded False False) = (Inr Current, demo_uploaded False False)"
  by (simp add: demo_defs demo_uploaded_def)

lemma demo_again: "\<exists>w'. renewIfNeeded (demo_callback False) demo_settings (demo_uploaded False True) = (Inr PublishedAgain, w')"
  by (simp add: demo_defs demo_uploaded_def onboard_attempts.simps)

lemma demo_owed: "owed (demo_hub_view (cp_outside (demo_uploaded p b)))" "\<not> owed (demo_hub_view (cp_outside (demo_waiting n)))"
  by (simp_all add: owed_def demo_hub_view_def demo_uploaded_def demo_waiting_def newest_def CERT_SIGNED_def CSR_LOADED_def)

lemma demo_events: "fold (hub_event (demo_callback False) demo_settings (io_return (Some ''t'')) (\<lambda>_. io_return ())) [Tick, Reboot] (demo_waiting 3) = demo_uploaded False True"
  by (simp add: hub_event_def job_tick_def at_hub_def io_on_def io_bind_def io_finally_def io_catch_def demo_failing)
    (simp add: demo_uploaded_def)


section \<open>Where the code falls short of its comments\<close>

text \<open>
  MCM stores the uploaded certificate and the answer is lost: nothing is remembered, and every later tick finds a valid
  certificate and reports that it is current, while the Hub has never been given it.
\<close>

lemma lost_upload_is_never_onboarded:
  "\<exists>e w'. renewIfNeeded (demo_callback True) demo_settings (demo_waiting 0) = (Inl e, w') \<and> owed (demo_hub_view (cp_outside w')) \<and>
     (\<forall>lost. renewIfNeeded (demo_callback lost) demo_settings w' = (Inr Current, w'))"
  using demo_losing demo_after demo_owed(1) by blast

end
