(* ===== verification/Spec2Isabelle.thy ===== *)
theory Spec2Isabelle
  imports Fspiop_Money Fspiop_Subjects Response_Subscriber Send_Money_Session Identifiers Fees
    Auth_Properties Portal_Admin Audit_Properties Report_Jobs Dashboard_Api
    Fspiop_Signing Inbound_Callbacks Fsp_Connector
    Signing_Keys Hub_Certificates
begin

text \<open>
  Verification of Pivotal, a gateway between a DFSP and a Mojaloop Hub (TypeScript, \<open>packages/\<close>).

  How the program works.  A client posts a send-money request to the outbound service
  (\<open>apps/web-outbound\<close>); the service calls the Hub over the FSPIOP API, and the Hub answers later with a
  callback to the inbound service, which publishes it on NATS under a subject made of the identifiers of
  the request.  Every outbound replica subscribes; \<open>FspiopResponseSubscriber\<close> hands the callback to the
  request that waits for it.  Requests of other FSPs for this one go the other way: the inbound service publishes them for
  the connector of the payee (\<open>core/connector\<close>), which asks the FSP and calls the Hub back.  Messages between FSPs are
  signed.  Between the three client calls (look the payee up, accept the party, accept
  the quote) the transfer is cached in Redis, and a Redis lock keeps duplicates of a call out.  Every step
  is published to an audit stream; the auditor (\<open>core/audit/consumer\<close>) merges the messages of a transfer into one row
  of the table of transactions, keeps an hourly rollup of it and live counters in Redis.  Operators work in a portal
  (\<open>apps/web-pivotal\<close>) over a MySQL database of users, roles, permissions and refresh tokens (\<open>core/auth\<close>); they
  search the transactions, order reports that a worker (\<open>apps/report-worker\<close>) writes to object storage, and watch a
  dashboard.

  Theories, in the order of the dependencies:
  \<^item> \<open>Prelude\<close>: generic lemmas and the JavaScript library functions the code uses on strings and maps
    (\<open>trim\<close>, \<open>split\<close>, \<open>padEnd\<close>, decimal text, \<open>Map\<close> as association list).
  \<^item> \<open>Fspiop_Errors\<close>: \<open>shared/fspiop/exception\<close> and the error and status translators.
  \<^item> \<open>Fspiop_Money\<close>: \<open>fspiop-money.ts\<close>, \<open>fspiop-currencies.ts\<close>, the amount constraint and the outbound
    decimal validator.  Refined to exact decimal arithmetic.
  \<^item> \<open>Fspiop_Subjects\<close>: the callback subjects of \<open>fspiop-pub-sub-subjects.ts\<close>.
  \<^item> \<open>Response_Subscriber\<close>: \<open>fspiop-response-subscriber.ts\<close> as a state machine.  The timers and promises
    of the code are fields of the state; one step is one event of the single-threaded event loop.
  \<^item> \<open>Effects\<close>: a state monad with errors, for \<open>await\<close>, \<open>try\<close>/\<open>catch\<close>/\<open>finally\<close>; \<open>traces\<close> says what a computation
    appends to a log, with a rule for each of them.
  \<^item> \<open>Redis_Client\<close>: \<open>redis-client.ts\<close> and \<open>suspicious-transaction-monitor.ts\<close>.  The Redis server is a
    parameter; the locale \<open>redis_commands\<close> is its documented command contract and is interpreted on an
    in-memory server.
  \<^item> \<open>Send_Money_Data\<close>, \<open>Send_Money\<close>: the data, the three command handlers and the controller.
  \<^item> \<open>Send_Money_Proofs\<close>, \<open>Send_Money_Session\<close>: every branch of a run, the properties of single commands
    and of sequences of commands on one transfer.
  \<^item> \<open>Identifiers\<close>: \<open>shared/snowflake\<close> on 64-bit words with its wait loop, and the ULID generator.
  \<^item> \<open>Fees\<close>: the Catalyst fee engine and its calculators over \<open>Fspiop_Money\<close>.
  \<^item> \<open>Auth_Data\<close>: the tables of \<open>core/auth/domain/model\<close> as lists of rows in one record \<open>auth_db\<close>, each
    repository method as a function on it, the error classes and the invariant \<open>db_ok\<close> (keys, foreign keys, and
    one user, one deadline and at most one live token for every token family).  The locale \<open>keyed_table\<close>
    holds what a lookup by key promises, and is interpreted on every key that the code looks up.
  \<^item> \<open>Auth_Sessions\<close>: \<open>token.service.ts\<close>, the handlers for login, refresh, logout and change of password,
    the two guards and \<open>auth.controller.ts\<close>.  \<open>Session_Refinement\<close>: they implement an abstract session machine.
  \<^item> \<open>Auth_Users\<close>, \<open>Auth_Roles\<close>: the management policy and the user and role commands, the seeders.
  \<^item> \<open>Auth_System\<close>, \<open>Auth_Properties\<close>: a run of the portal is a list of commands on a seeded database; every
    command keeps \<open>db_ok\<close> and an administrator.  \<open>Portal_Admin\<close>: the controllers for users and roles.
  \<^item> \<open>Json_Values\<close>: JSON values and the conversions of JavaScript.  \<open>Keyed_Tables\<close>: the upsert of
    a table with a key, \<open>Ordered_Rows\<close>: sorting by several columns, insertion into a sorted list, slices.
  \<^item> \<open>Audit_Rows\<close>: the row of \<open>transaction.model.ts\<close> and the statement INSERT ... ON DUPLICATE KEY UPDATE of
    \<open>transaction.repository.ts\<close>, column by column.  \<open>Audit_Mapper\<close>: \<open>audit-event.mapper.ts\<close>, the patch each message
    becomes.  \<open>Audit_Consumer\<close>: the JetStream consumer with its batches, acknowledgements and redeliveries.
    \<open>Audit_History\<close>, \<open>Audit_Properties\<close>: the history of messages as the specification of the table.
  \<^item> \<open>Audit_Paging\<close>: the criteria, the keyset cursors and the two legs of a DFSP search that are merged.
    \<open>Audit_Search\<close>: the controllers and queries for lists, counts and details.
  \<^item> \<open>Report_Files\<close>: parameters of a report, reading of all its rows, division into files.  \<open>Report_Text\<close>: its CSV
    and sheet text.  \<open>Report_Jobs\<close>: the request tables and the workers of all processes as one step function.
  \<^item> \<open>Rollup_Table\<close>: the aggregation and replacement of a window of \<open>transaction_hourly_rollup\<close> and the rows of a
    range.  \<open>Dashboard\<close>: the queries and the answer of \<open>get-dashboard.handler.ts\<close>.  \<open>Live_Stats\<close>: the live counters,
    the script that updates them and their reconciliation.  \<open>Rollup_Scheduler\<close>: the lock, the cycles and the
    backfill.  \<open>Dashboard_Api\<close>: the endpoints with the calendar arithmetic of the range.  The locales
    \<open>range_measure\<close> and \<open>range_choice\<close> hold what a measure needs so that buckets and edges add up to transactions.

  \<^item> \<open>Fspiop_Signing\<close>: the signing interceptor, the protected header, the signature and its check, the verification modes
    and the guard of the inbound service (\<open>shared/fspiop/component\<close>).
  \<^item> \<open>Inbound_Callbacks\<close>: the ten endpoints of \<open>apps/web-inbound\<close> and the commands of \<open>core/inbound\<close>, from the guard to
    what is published for the connector, for the waiting request and for the audit.
  \<^item> \<open>Fsp_Connector\<close>: \<open>fsp-connector.ts\<close> with its checks, the ILP conditions of \<open>shared/interledger\<close>, the four commands
    with their error paths, and the acknowledgement and redelivery of messages.
  \<^item> \<open>Central_Ledger\<close>: the failures of \<open>central-ledger-axios.ts\<close> and the procedures of \<open>central-ledger-facade.ts\<close>.
  \<^item> \<open>Signing_Tenants\<close>: the participants, their signing keys and the commands of \<open>core/participant/domain\<close>, and the jobs of
    the trust manager (\<open>core/trust\<close>) that publish keys to the Connection Manager of the Hub (MCM), switch signing on and
    pull the keys of peers.  The write database and its replica are separate lists of rows; the locale \<open>keyed_table\<close> is
    interpreted on both keys of the table.  \<open>Signing_Keys\<close>: the sources of private keys and the cache a service signs from.
  \<^item> \<open>Dfsp_Certificates\<close>: the client certificates that are issued to DFSPs, their register and its commands.
  \<^item> \<open>Hub_Secrets\<close>: the Secrets of Kubernetes that the trust manager writes, with the authorities of the Hub and of the
    DFSPs and the server certificate that it enrolls at MCM.  \<open>Hub_Certificates\<close>: the registration of Pivotal's authority and
    the renewal of the certificate that the Hub calls back with, with the flag in Redis that survives a restart.

  What is shown.  Amounts: serialisation is exact decimal rounding with the stated range, printing and
  reading are inverse, validated money is exact.  Correlation: subjects identify their request; no event
  loses a waiter; a callback or a timeout settles exactly its waiter; an early callback is kept; the cache is
  bounded.  Locking: the Redis lock excludes.  Send money: any sequence of PUT commands on one transfer
  makes the Hub receive at most one quote request and one transfer, in that order; what is sent is what
  was quoted and confirmed, for the FSP of the payer only; duplicates are refused without effect; the
  audit trail is complete; required fees are checked.  Identifiers: Snowflake and ULID values do not repeat.
  Fees: they stay within the policy of the scheme and add up.  Portal: every reachable database is well formed
  and keeps an active administrator; refresh tokens implement the session machine with one deadline per
  session; wrong passwords lock the account; a DFSP manager is confined to its own FSP; revocation is
  immediate.  Audit: the table is the merge of the messages, whatever their order as far as the code promises it, and
  every message is settled.  Searches: pages are the consecutive slices of one listing, and a DFSP sees its own rows
  only.  Reports: a request is claimed once, its file holds the rows of the search, CSV reads back, and only its owner
  gets it.  Dashboard: its numbers are those of the transactions of the range when the rollup is fresh for the full
  hours in it, a refresh makes a window fresh, cycles within the accepted interval leave every settled hour fresh, and
  the live counters are the sum of the latest states of the transactions.  Signatures: what the interceptor signs the guard
  accepts, and under \<open>require\<close> a request with a body comes from the FSP that signed it.  Inbound: a callback settles the
  request that waits for it in \<open>Response_Subscriber\<close>, and nothing of a quote or transfer is published before its audit
  record.  Connector: a transfer made from a quote is fulfilled with the preimage of the condition, the FSP is asked only
  for what the packet says and before it expires, and at most once for a message.  Participants: a registration at the
  ledger is complete when it returns; signing is switched on only for a key that MCM holds, a suspension by an operator
  stands, peers get exactly the key that MCM lists and own tenants are left alone; an outage of Vault or of the registry
  does not lose a key.  Certificates: every issued one names its DFSP, one at most is active, revocation is final; the
  server certificate in its Secret always fits the key beside it, and a renewed certificate is onboarded at the Hub, across
  failures and restarts.  The
  lemmas at the end of these theories show where the code falls short of its comments, most often behind a stale replica.

  Conventions.  Text is a list of characters, one per UTF-16 unit up to 255.  A JavaScript \<open>undefined\<close> or
  \<open>null\<close> is \<open>None\<close>.  A thrown value is the left side of a sum.  A \<open>Map\<close> is an association list in
  insertion order.  Numbers that JavaScript holds as \<open>bigint\<close> or as safe integers are \<open>int\<close> or \<open>nat\<close>, with
  the range checks of the code written out.  Services outside the repository (Redis, the Hub, NATS, the
  clock, \<open>randomUUID\<close>, bcrypt, JWT) are arguments; so is what MySQL does with values (collation of texts,
  rounding of DATETIME, numeric comparison of identifiers), and what the platform does with bytes (RSA, SHA-256, base64url,
  UTF-8, ILP packets, JSON texts), whose documented laws are the predicates \<open>platform_laws\<close> and \<open>ilp_laws\<close>.  A query is modelled by its meaning on the list of rows,
  and the queries of one report or one dashboard see one state of the tables.  The payload of a message is a JSON
  value, its delivery an input.  Amounts in the database are ten-thousandths, averages exact quotients.  The calendar
  of a time zone is a parameter.  A cycle of the rollup is atomic under its lock; the expiry of the counters and
  markers is not modelled.  A portal command runs without interleaving;
  the lemma \<open>interleaved_refreshes_fork_family\<close> shows what a race between two refreshes does.  Recursion is
  structural or has a measure (\<open>termination\<close>).  The wait loop of the Snowflake generator reads a finite list of
  clock values and answers \<open>None\<close> when the list ends first; it returns as soon as the list holds a later
  value (\<open>nextId_returns\<close>).

  Not modelled: decorators (validation and dependency injection), logging, the axios, NATS and Redis
  connections, the ZIP container and storage of reports, the Vue client of the portal, the schedules
  and waits of the jobs, and the clients of services outside the repository.
\<close>

end
